(* ===== verification/Prelude.thy ===== *)
theory Prelude
  imports Main "HOL-Library.Word" "HOL-Library.Option_ord" "HOL-Library.Product_Lexorder"
    "HOL-Library.List_Lexorder" "HOL-Library.Char_ord" "HOL-Library.Sublist"
begin

text \<open>
  Shared vocabulary of the development: the error type of the crates, results, the
  state-and-error computations that model \<open>async fn ... -> Result<_, Error>\<close> methods over a
  mutable store, a small weakest-precondition calculus for them, and the machine integers.
  An operation that fails keeps the writes it made before the failure, as the code does: the
  new state is returned beside the error, not inside the success value.
\<close>

unbundle bit_operations_syntax

subsection \<open>Errors and results\<close>

text \<open>
  The crate-level \<open>Error\<close> enumeration. \<open>Panic\<close> is not a variant of the source: it is the
  outcome of an operation that panics (slice out of range, arithmetic overflow with
  \<open>overflow-checks\<close>).
\<close>

datatype error =
    Transport string
  | Json string
  | Abi string
  | InvalidData string
  | Rpc int string
  | Reverted string
  | Timeout string
  | Panic string

type_synonym 'a result = "error + 'a"

definition bind_result :: "'a result \<Rightarrow> ('a \<Rightarrow> 'b result) \<Rightarrow> 'b result" where
  "bind_result r f = (case r of Inl e \<Rightarrow> Inl e | Inr x \<Rightarrow> f x)"

definition ok_or :: "error \<Rightarrow> 'a option \<Rightarrow> 'a result" where
  "ok_or e x = (case x of None \<Rightarrow> Inl e | Some y \<Rightarrow> Inr y)"

definition result_ok :: "'a result \<Rightarrow> 'a option" where
  "result_ok r = (case r of Inl e \<Rightarrow> None | Inr x \<Rightarrow> Some x)"

text \<open>\<open>iter().map(f).collect::<Result<Vec<_>, _>>()\<close>: the first error stops the traversal.\<close>

fun map_result :: "('a \<Rightarrow> 'b result) \<Rightarrow> 'a list \<Rightarrow> 'b list result" where
  "map_result f [] = Inr []"
| "map_result f (x # xs) =
     bind_result (f x) (\<lambda>y. bind_result (map_result f xs) (\<lambda>ys. Inr (y # ys)))"

subsection \<open>Computations over a store\<close>

type_synonym ('s, 'a) op = "'s \<Rightarrow> 'a result \<times> 's"

definition ret :: "'a \<Rightarrow> ('s, 'a) op" where
  "ret x s = (Inr x, s)"

definition fail :: "error \<Rightarrow> ('s, 'a) op" where
  "fail e s = (Inl e, s)"

definition lift_result :: "'a result \<Rightarrow> ('s, 'a) op" where
  "lift_result r s = (r, s)"

definition seq :: "('s, 'a) op \<Rightarrow> ('a \<Rightarrow> ('s, 'b) op) \<Rightarrow> ('s, 'b) op" where
  "seq m f s = (case m s of (Inl e, s') \<Rightarrow> (Inl e, s') | (Inr x, s') \<Rightarrow> f x s')"

fun for_each :: "('a \<Rightarrow> ('s, unit) op) \<Rightarrow> 'a list \<Rightarrow> ('s, unit) op" where
  "for_each f [] = ret ()"
| "for_each f (x # xs) = seq (f x) (\<lambda>_. for_each f xs)"

fun map_op :: "('a \<Rightarrow> ('s, 'b) op) \<Rightarrow> 'a list \<Rightarrow> ('s, 'b list) op" where
  "map_op f [] = ret []"
| "map_op f (x # xs) = seq (f x) (\<lambda>y. seq (map_op f xs) (\<lambda>ys. ret (y # ys)))"

text \<open>The computation succeeds from \<open>s\<close> and its value and final state satisfy \<open>Q\<close>.\<close>

definition wp :: "('s, 'a) op \<Rightarrow> ('a \<Rightarrow> 's \<Rightarrow> bool) \<Rightarrow> 's \<Rightarrow> bool" where
  "wp m Q s = (case m s of (Inl e, s') \<Rightarrow> False | (Inr x, s') \<Rightarrow> Q x s')"

subsection \<open>Machine integers\<close>

type_synonym u8 = "8 word"
type_synonym u32 = "32 word"
type_synonym u64 = "64 word"
type_synonym usize = "64 word"

definition checked_add :: "'w::len word \<Rightarrow> 'w word \<Rightarrow> 'w word result" where
  "checked_add a b =
     (if unat a + unat b < 2 ^ LENGTH('w) then Inr (a + b)
      else Inl (Panic ''attempt to add with overflow''))"

subsection \<open>Lists\<close>

lemma filter_same_length: "length (filter P xs) = length xs \<Longrightarrow> filter P xs = xs"
proof (induction xs)
  case (Cons x xs)
  then show ?case using length_filter_le[of P xs] by (cases "P x") simp_all
qed simp

subsection \<open>Laws of results and computations\<close>

named_theorems op_simps \<open>unfolding a computation at a state\<close>

lemma bind_result_simps [simp]:
  "bind_result (Inl e) f = Inl e"
  "bind_result (Inr x) f = f x"
  by (simp_all add: bind_result_def)

lemma bind_result_Inr_iff:
  "bind_result r f = Inr y \<longleftrightarrow> (\<exists>x. r = Inr x \<and> f x = Inr y)"
  by (cases r) auto

lemma ok_or_simps [simp]:
  "ok_or e None = Inl e"
  "ok_or e (Some x) = Inr x"
  by (simp_all add: ok_or_def)

lemma result_ok_simps [simp]:
  "result_ok (Inl e) = None"
  "result_ok (Inr x) = Some x"
  by (simp_all add: result_ok_def)

lemma map_result_append:
  "map_result f (xs @ ys) =
     bind_result (map_result f xs) (\<lambda>us. bind_result (map_result f ys) (\<lambda>vs. Inr (us @ vs)))"
proof (induction xs)
  case Nil
  then show ?case by (cases "map_result f ys") auto
next
  case (Cons x xs)
  then show ?case by (cases "f x"; cases "map_result f xs"; cases "map_result f ys") auto
qed

lemma map_result_Inr:
  "(\<And>x. x \<in> set xs \<Longrightarrow> f x = Inr (g x)) \<Longrightarrow> map_result f xs = Inr (map g xs)"
  by (induction xs) auto

lemma map_result_length: "map_result f xs = Inr ys \<Longrightarrow> length ys = length xs"
  by (induction xs arbitrary: ys) (auto simp: bind_result_Inr_iff)

lemma ret_apply [op_simps]: "ret x s = (Inr x, s)"
  by (simp add: ret_def)

lemma fail_apply [op_simps]: "fail e s = (Inl e, s)"
  by (simp add: fail_def)

lemma lift_result_apply [op_simps]: "lift_result r s = (r, s)"
  by (simp add: lift_result_def)

lemma seq_apply_Inr [op_simps]: "m s = (Inr x, s') \<Longrightarrow> seq m f s = f x s'"
  by (simp add: seq_def)

lemma seq_apply_Inl [op_simps]: "m s = (Inl e, s') \<Longrightarrow> seq m f s = (Inl e, s')"
  by (simp add: seq_def)

lemma seq_InrE:
  assumes "seq m f s = (Inr y, s')"
  obtains x t where "m s = (Inr x, t)" "f x t = (Inr y, s')"
  using assms by (cases "m s"; cases "fst (m s)") (auto simp: seq_def)

lemma wp_ret [simp]: "wp (ret x) Q s \<longleftrightarrow> Q x s"
  by (simp add: wp_def ret_def)

lemma wp_fail [simp]: "\<not> wp (fail e) Q s"
  by (simp add: wp_def fail_def)

lemma wp_lift_result [simp]: "wp (lift_result (Inr x)) Q s \<longleftrightarrow> Q x s"
  by (simp add: wp_def lift_result_def)

lemma wp_seq [simp]: "wp (seq m f) Q s \<longleftrightarrow> wp m (\<lambda>x. wp (f x) Q) s"
  by (auto simp: wp_def seq_def split: prod.splits sum.splits)

lemma wp_seq_fun: "wp (seq m f) Q = wp m (\<lambda>x. wp (f x) Q)"
  by (rule ext) simp

lemma wp_mono: "wp m Q s \<Longrightarrow> (\<And>x s'. Q x s' \<Longrightarrow> R x s') \<Longrightarrow> wp m R s"
  by (auto simp: wp_def split: prod.splits sum.splits)

lemma wp_iff: "wp m Q s \<longleftrightarrow> (\<exists>x s'. m s = (Inr x, s') \<and> Q x s')"
  by (auto simp: wp_def split: prod.splits sum.splits)

lemma wp_unitE:
  assumes "wp m (\<lambda>_. P) s"
  obtains s' where "m s = (Inr (), s')" and "P s'"
  using assms by (auto simp: wp_iff)

text \<open>The loop rule: an invariant indexed by the elements already processed.\<close>

lemma wp_for_each:
  assumes "I [] s"
    and "\<And>ys x zs s. xs = ys @ x # zs \<Longrightarrow> I ys s \<Longrightarrow> wp (f x) (\<lambda>_. I (ys @ [x])) s"
    and "\<And>s. I xs s \<Longrightarrow> Q () s"
  shows "wp (for_each f xs) Q s"
proof -
  have "us @ vs = xs \<Longrightarrow> I us s \<Longrightarrow> wp (for_each f vs) Q s" for us vs s
  proof (induction vs arbitrary: us s)
    case Nil
    then show ?case using assms(3) by simp
  next
    case (Cons v vs)
    have "wp (f v) (\<lambda>_. I (us @ [v])) s"
      using assms(2)[of us v vs s] Cons.prems by auto
    then show ?case
      by (auto elim!: wp_mono intro: Cons.IH[of "us @ [v]"] simp: Cons.prems)
  qed
  then show ?thesis using assms(1) by (metis append_Nil)
qed

lemma for_each_append: "for_each f (xs @ ys) = seq (for_each f xs) (\<lambda>_. for_each f ys)"
proof (induction xs)
  case Nil
  then show ?case by (auto simp: seq_def ret_def fun_eq_iff)
next
  case (Cons x xs)
  then show ?case by (auto simp: seq_def fun_eq_iff split: prod.splits sum.splits)
qed

text \<open>A loop whose body refines \<open>g\<close> on the abstract state refines the fold of \<open>g\<close>.\<close>

lemma wp_for_each_fold:
  assumes step: "\<And>x s a Q. R s a \<Longrightarrow> (\<And>s'. R s' (g x a) \<Longrightarrow> Q () s') \<Longrightarrow> wp (f x) Q s"
    and "R s a" and "\<And>s'. R s' (fold g xs a) \<Longrightarrow> Q () s'"
  shows "wp (for_each f xs) Q s"
  using assms(2,3) by (induction xs arbitrary: s a) (auto intro: step)

lemma for_each_map: "for_each f (map g xs) = for_each (\<lambda>x. f (g x)) xs"
  by (induction xs) auto

lemma wp_map_op:
  assumes "\<And>x. x \<in> set xs \<Longrightarrow> wp (f x) (\<lambda>y s'. y = g x \<and> s' = s) s" and "Q (map g xs) s"
  shows "wp (map_op f xs) Q s"
  using assms
proof (induction xs arbitrary: Q)
  case Nil
  then show ?case by simp
next
  case (Cons x xs)
  have "wp (map_op f xs) (\<lambda>ys. Q (g x # ys)) s"
    using Cons.prems by (intro Cons.IH) auto
  moreover have "wp (f x) (\<lambda>y s'. y = g x \<and> s' = s) s"
    using Cons.prems by simp
  ultimately show ?case by (auto elim!: wp_mono)
qed

text \<open>A traversal with computations that only read.\<close>

lemma map_op_read:
  assumes "\<And>x. x \<in> set xs \<Longrightarrow> f x s = (g x, s)"
  shows "map_op f xs s = (map_result g xs, s)"
  using assms
proof (induction xs)
  case (Cons x xs)
  then show ?case
    by (cases "g x"; cases "map_result g xs") (simp_all add: seq_def ret_def)
qed (simp add: ret_def)

lemma checked_add_Inr_iff:
  fixes a b :: "'w::len word"
  shows "checked_add a b = Inr c \<longleftrightarrow> c = a + b \<and> unat a + unat b < 2 ^ LENGTH('w)"
  by (auto simp: checked_add_def)

lemma unat_checked_add:
  fixes a b :: "'w::len word"
  shows "checked_add a b = Inr c \<Longrightarrow> unat c = unat a + unat b"
  by (auto simp: checked_add_Inr_iff unat_word_ariths)

end
