(* ===== verification/Field_Types.thy ===== *)
theory Field_Types
  imports Prelude
begin

text \<open>
  The value types of \<open>crates/core/src/types.rs\<close> (and \<open>TxHash\<close> of \<open>tx.rs\<close>): BN254 field
  elements, their byte and hexadecimal forms, addresses and transaction hashes.

  An \<open>Fr\<close> wraps the scalar field of \<open>ark_bn254\<close>; the model is the field itself, the residues
  below the group order, kept as their canonical representative. The \<open>hex\<close> crate is a
  parameter, the record \<open>hex_crate\<close>; \<open>hex_ok\<close> states what its documentation promises.
\<close>

subsection \<open>Byte strings\<close>

text \<open>Big-endian representation on a fixed number of bytes, and its value.\<close>

fun be_bytes :: "nat \<Rightarrow> nat \<Rightarrow> u8 list" where
  "be_bytes 0 n = []"
| "be_bytes (Suc k) n = be_bytes k (n div 256) @ [of_nat (n mod 256)]"

definition of_be_bytes :: "u8 list \<Rightarrow> nat" where
  "of_be_bytes bs = foldl (\<lambda>acc b. acc * 256 + unat b) 0 bs"

subsection \<open>The scalar field\<close>

definition fr_modulus :: nat where
  "fr_modulus =
     21888242871839275222246405745257275088548364400416034343698204186575808495617"

typedef fr = "{n::nat. n < fr_modulus}"
  morphisms into_bigint Abs_fr
  by (rule exI[of _ 0]) (simp add: fr_modulus_def)

setup_lifting type_definition_fr

lift_definition fr_of_nat :: "nat \<Rightarrow> fr" is "\<lambda>n. n mod fr_modulus"
  by (simp add: fr_modulus_def)

instantiation fr :: "{zero, one, plus, uminus, minus, times, linorder, equal}"
begin

definition zero_fr :: fr where "zero_fr = fr_of_nat 0"

definition one_fr :: fr where "one_fr = fr_of_nat 1"

definition plus_fr :: "fr \<Rightarrow> fr \<Rightarrow> fr" where
  "plus_fr a b = fr_of_nat (into_bigint a + into_bigint b)"

definition uminus_fr :: "fr \<Rightarrow> fr" where
  "uminus_fr a = fr_of_nat (fr_modulus - into_bigint a)"

definition minus_fr :: "fr \<Rightarrow> fr \<Rightarrow> fr" where
  "minus_fr a b = fr_of_nat (into_bigint a + (fr_modulus - into_bigint b))"

definition times_fr :: "fr \<Rightarrow> fr \<Rightarrow> fr" where
  "times_fr a b = fr_of_nat (into_bigint a * into_bigint b)"

definition less_eq_fr :: "fr \<Rightarrow> fr \<Rightarrow> bool" where
  "less_eq_fr a b \<longleftrightarrow> into_bigint a \<le> into_bigint b"

definition less_fr :: "fr \<Rightarrow> fr \<Rightarrow> bool" where
  "less_fr a b \<longleftrightarrow> into_bigint a < into_bigint b"

definition equal_fr :: "fr \<Rightarrow> fr \<Rightarrow> bool" where
  "equal_fr a b \<longleftrightarrow> into_bigint a = into_bigint b"

instance
  by standard (auto simp: less_eq_fr_def less_fr_def equal_fr_def into_bigint_inject)

end

lemma fr_modulus_pos [simp]: "0 < fr_modulus"
  by (simp add: fr_modulus_def)

lemma into_bigint_less [simp]: "into_bigint a < fr_modulus"
  using into_bigint[of a] by simp

lemma into_bigint_fr_of_nat [simp]: "into_bigint (fr_of_nat n) = n mod fr_modulus"
  by (rule fr_of_nat.rep_eq)

lemma fr_of_nat_into_bigint [simp]: "fr_of_nat (into_bigint a) = a"
  by (simp add: into_bigint_inject[symmetric])

lemma fr_of_nat_eq_iff: "fr_of_nat m = fr_of_nat n \<longleftrightarrow> m mod fr_modulus = n mod fr_modulus"
  by (simp add: into_bigint_inject[symmetric])

instance fr :: comm_ring_1
proof
  fix a b c :: fr
  show "a + b + c = a + (b + c)"
    by (simp add: plus_fr_def fr_of_nat_eq_iff mod_simps ac_simps)
  show "a + b = b + a"
    by (simp add: plus_fr_def ac_simps)
  show "0 + a = a"
    by (simp add: plus_fr_def zero_fr_def)
  show "- a + a = 0"
    using less_imp_le[OF into_bigint_less[of a]]
    by (simp add: plus_fr_def uminus_fr_def zero_fr_def fr_of_nat_eq_iff mod_simps)
  show "a - b = a + - b"
    by (simp add: plus_fr_def uminus_fr_def minus_fr_def fr_of_nat_eq_iff mod_simps)
  show "a * b * c = a * (b * c)"
    by (simp add: times_fr_def fr_of_nat_eq_iff mod_simps ac_simps)
  show "a * b = b * a"
    by (simp add: times_fr_def ac_simps)
  show "1 * a = a"
    by (simp add: times_fr_def one_fr_def mod_simps fr_modulus_def
        fr_of_nat_into_bigint[unfolded fr_modulus_def])
  show "(a + b) * c = a * c + b * c"
    by (simp add: plus_fr_def times_fr_def fr_of_nat_eq_iff mod_simps algebra_simps)
  show "(0::fr) \<noteq> 1"
    by (simp add: zero_fr_def one_fr_def fr_of_nat_eq_iff fr_modulus_def)
qed

lemma of_nat_fr: "of_nat n = fr_of_nat n"
  by (induction n) (simp_all add: zero_fr_def one_fr_def plus_fr_def fr_of_nat_eq_iff mod_simps
      fr_modulus_def)

lemma into_bigint_simps [simp]:
  "into_bigint 0 = 0"
  "into_bigint 1 = 1"
  "into_bigint (numeral w) = numeral w mod fr_modulus"
proof -
  show "into_bigint 0 = 0" by (simp add: zero_fr_def)
  show "into_bigint 1 = 1" by (simp add: one_fr_def fr_modulus_def)
  show "into_bigint (numeral w) = numeral w mod fr_modulus"
    using arg_cong[OF of_nat_fr[of "numeral w"], of into_bigint] by simp
qed

text \<open>Deciding equations between literals of the field.\<close>

lemma fr_literal_eq:
  "(numeral v :: fr) = numeral w \<longleftrightarrow> numeral v mod fr_modulus = numeral w mod fr_modulus"
  "(0 :: fr) = numeral w \<longleftrightarrow> 0 = numeral w mod fr_modulus"
  "(1 :: fr) = numeral w \<longleftrightarrow> 1 = numeral w mod fr_modulus"
  "(numeral w :: fr) = 0 \<longleftrightarrow> numeral w mod fr_modulus = 0"
  "(numeral w :: fr) = 1 \<longleftrightarrow> numeral w mod fr_modulus = 1"
  by (simp_all add: into_bigint_inject[symmetric])

lemmas fr_eval = fr_literal_eq fr_modulus_def

subsection \<open>Conversions of \<open>Fr\<close>\<close>

definition fr_from_be_bytes_mod_order :: "u8 list \<Rightarrow> fr" where
  "fr_from_be_bytes_mod_order bs = fr_of_nat (of_be_bytes bs)"

definition fr_to_be_bytes :: "fr \<Rightarrow> u8 list" where
  "fr_to_be_bytes f = be_bytes 32 (into_bigint f)"

text \<open>\<open>(acc << 8) | byte\<close> on a 64-bit \<open>usize\<close>: a shift by a constant drops the high bits.\<close>

definition fr_to_usize :: "fr \<Rightarrow> usize" where
  "fr_to_usize f =
     foldl (\<lambda>acc byte. push_bit 8 acc OR ucast byte) 0 (be_bytes 32 (into_bigint f))"

definition fr_is_zero :: "fr \<Rightarrow> bool" where
  "fr_is_zero f \<longleftrightarrow> f = 0"

definition fr_from_u64 :: "u64 \<Rightarrow> fr" where
  "fr_from_u64 v = fr_of_nat (unat v)"

definition fr_from_i64 :: "64 word \<Rightarrow> fr" where
  "fr_from_i64 v =
     (if 0 \<le> sint v then fr_of_nat (unat v) else - fr_of_nat (nat \<bar>sint v\<bar>))"

definition fr_from_u128 :: "128 word \<Rightarrow> fr" where
  "fr_from_u128 v =
     fr_from_be_bytes_mod_order (replicate 16 0 @ be_bytes 16 (unat v))"

definition fr_from_bool :: "bool \<Rightarrow> fr" where
  "fr_from_bool b = (if b then 1 else 0)"

definition fr_from_bytes :: "u8 list \<Rightarrow> fr" where
  "fr_from_bytes value = fr_from_be_bytes_mod_order value"

subsection \<open>Hexadecimal text\<close>

record hex_crate =
  hex_encode :: "u8 list \<Rightarrow> string"
  hex_decode :: "string \<Rightarrow> u8 list result"

text \<open>
  The documented behaviour of the \<open>hex\<close> crate: two digits per byte, drawn from the lower-case
  digits, and decoding inverts encoding.
\<close>

definition hex_ok :: "hex_crate \<Rightarrow> bool" where
  "hex_ok H \<longleftrightarrow>
     (\<forall>bs. hex_decode H (hex_encode H bs) = Inr bs) \<and>
     (\<forall>bs. length (hex_encode H bs) = 2 * length bs) \<and>
     (\<forall>bs. set (hex_encode H bs) \<subseteq> set ''0123456789abcdef'')"

definition strip_prefix :: "string \<Rightarrow> string \<Rightarrow> string option" where
  "strip_prefix p s = (if prefix p s then Some (drop (length p) s) else None)"

definition strip_0x :: "string \<Rightarrow> string" where
  "strip_0x s = (case strip_prefix ''0x'' s of None \<Rightarrow> s | Some t \<Rightarrow> t)"

definition decode_fixed_hex :: "hex_crate \<Rightarrow> nat \<Rightarrow> string \<Rightarrow> u8 list result" where
  "decode_fixed_hex H n s =
     (let raw = strip_0x s in
      if length raw > n * 2 then Inl (InvalidData ''hex value too large'')
      else
        let padded = (if length raw mod 2 = 1 then ''0'' @ raw else raw) in
        bind_result (hex_decode H padded) (\<lambda>decoded.
          if length decoded > n then Inl (InvalidData ''hex value too large'')
          else Inr (replicate (n - length decoded) 0 @ decoded)))"

definition encode_hex :: "hex_crate \<Rightarrow> u8 list \<Rightarrow> string" where
  "encode_hex H bytes = ''0x'' @ hex_encode H bytes"

definition encode_field_hex :: "hex_crate \<Rightarrow> fr \<Rightarrow> string" where
  "encode_field_hex H value = encode_hex H (be_bytes 32 (into_bigint value))"

definition fr_from_hex :: "hex_crate \<Rightarrow> string \<Rightarrow> fr result" where
  "fr_from_hex H value =
     bind_result (decode_fixed_hex H 32 value) (\<lambda>bytes. Inr (fr_from_be_bytes_mod_order bytes))"

definition fr_display :: "hex_crate \<Rightarrow> fr \<Rightarrow> string" where
  "fr_display H f = encode_field_hex H f"

subsection \<open>Addresses, hashes and points\<close>

datatype aztec_address = AztecAddress fr

primrec address_field :: "aztec_address \<Rightarrow> fr" where
  "address_field (AztecAddress f) = f"

definition aztec_address_zero :: aztec_address where
  "aztec_address_zero = AztecAddress 0"

definition address_display :: "hex_crate \<Rightarrow> aztec_address \<Rightarrow> string" where
  "address_display H a = fr_display H (address_field a)"

datatype event_selector = EventSelector fr

datatype tx_hash = TxHash "u8 list"

definition tx_hash_zero :: tx_hash where
  "tx_hash_zero = TxHash (replicate 32 0)"

definition tx_hash_from_hex :: "hex_crate \<Rightarrow> string \<Rightarrow> tx_hash result" where
  "tx_hash_from_hex H value =
     bind_result (decode_fixed_hex H 32 value) (\<lambda>bytes. Inr (TxHash bytes))"

primrec tx_hash_display :: "hex_crate \<Rightarrow> tx_hash \<Rightarrow> string" where
  "tx_hash_display H (TxHash bs) = encode_hex H bs"

record point =
  point_x :: fr
  point_y :: fr
  point_is_infinite :: bool

definition point_is_zero :: "point \<Rightarrow> bool" where
  "point_is_zero p \<longleftrightarrow> point_x p = 0 \<and> point_y p = 0 \<and> \<not> point_is_infinite p"

record public_keys =
  master_nullifier_public_key :: point
  master_incoming_viewing_public_key :: point
  master_outgoing_viewing_public_key :: point
  master_tagging_public_key :: point

definition public_keys_is_empty :: "public_keys \<Rightarrow> bool" where
  "public_keys_is_empty pk \<longleftrightarrow>
     point_is_zero (master_nullifier_public_key pk) \<and>
     point_is_zero (master_incoming_viewing_public_key pk) \<and>
     point_is_zero (master_outgoing_viewing_public_key pk) \<and>
     point_is_zero (master_tagging_public_key pk)"

subsection \<open>A concrete hexadecimal codec\<close>

text \<open>
  Lower-case hexadecimal as the crate documents it. It is used only to show that the
  hypothesis \<open>hex_ok\<close> can hold.
\<close>

definition hex_digits :: string where
  "hex_digits = ''0123456789abcdef''"

fun hex_digit_value :: "string \<Rightarrow> char \<Rightarrow> nat option" where
  "hex_digit_value [] c = None"
| "hex_digit_value (d # ds) c =
     (if c = d then Some 0 else map_option Suc (hex_digit_value ds c))"

definition plain_hex_encode :: "u8 list \<Rightarrow> string" where
  "plain_hex_encode bs =
     concat (map (\<lambda>b. [hex_digits ! (unat b div 16), hex_digits ! (unat b mod 16)]) bs)"

fun plain_hex_decode :: "string \<Rightarrow> u8 list result" where
  "plain_hex_decode [] = Inr []"
| "plain_hex_decode [c] = Inl (InvalidData ''Odd number of digits'')"
| "plain_hex_decode (c # d # cs) =
     (case (hex_digit_value hex_digits c, hex_digit_value hex_digits d) of
        (Some hi, Some lo) \<Rightarrow>
          bind_result (plain_hex_decode cs) (\<lambda>bs. Inr (of_nat (16 * hi + lo) # bs))
      | _ \<Rightarrow> Inl (InvalidData ''Invalid character''))"

definition plain_hex :: hex_crate where
  "plain_hex = \<lparr>hex_encode = plain_hex_encode, hex_decode = plain_hex_decode\<rparr>"

subsection \<open>Lemmas: bytes\<close>

lemma length_be_bytes [simp]: "length (be_bytes k n) = k"
  by (induction k arbitrary: n) auto

lemma of_be_bytes_Nil [simp]: "of_be_bytes [] = 0"
  by (simp add: of_be_bytes_def)

lemma of_be_bytes_snoc [simp]: "of_be_bytes (bs @ [b]) = of_be_bytes bs * 256 + unat b"
  by (simp add: of_be_bytes_def)

lemma of_be_bytes_append:
  "of_be_bytes (xs @ ys) = of_be_bytes xs * 256 ^ length ys + of_be_bytes ys"
proof (induction ys rule: rev_induct)
  case (snoc y ys)
  then show ?case
    using of_be_bytes_snoc[of "xs @ ys" y] by (simp add: algebra_simps)
qed simp

lemma of_be_bytes_replicate_0 [simp]: "of_be_bytes (replicate k 0 @ bs) = of_be_bytes bs"
proof -
  have "of_be_bytes (replicate k 0) = 0"
    by (induction k) (simp_all add: of_be_bytes_def)
  then show ?thesis by (simp add: of_be_bytes_append)
qed

lemma of_be_bytes_less: "of_be_bytes bs < 256 ^ length bs"
proof (induction bs rule: rev_induct)
  case (snoc b bs)
  have "unat b < 256"
    using unsigned_less[of b] by simp
  with snoc show ?case by simp
qed simp

lemma be_bytes_split: "be_bytes (j + k) n = be_bytes j (n div 256 ^ k) @ be_bytes k n"
  by (induction k arbitrary: n) (simp_all add: div_mult2_eq)

lemma of_be_bytes_be_bytes: "of_be_bytes (be_bytes k n) = n mod 256 ^ k"
proof (induction k arbitrary: n)
  case (Suc k)
  then show ?case
    by (simp add: unsigned_of_nat take_bit_eq_mod mod_mult2_eq)
qed simp

lemma be_bytes_of_be_bytes: "be_bytes (length bs) (of_be_bytes bs) = bs"
proof (induction bs rule: rev_induct)
  case (snoc b bs)
  have "unat b < 256"
    using unsigned_less[of b] by simp
  with snoc show ?case by simp
qed simp

subsection \<open>Lemmas: field elements\<close>

lemma fr_modulus_lt: "fr_modulus < 256 ^ 32"
  by (simp add: fr_modulus_def)

lemma into_bigint_lt_pow [simp]: "into_bigint f < 256 ^ 32"
  using into_bigint_less fr_modulus_lt less_trans by blast

lemma length_fr_to_be_bytes [simp]: "length (fr_to_be_bytes f) = 32"
  by (simp add: fr_to_be_bytes_def)

lemma of_be_bytes_fr_to_be_bytes [simp]: "of_be_bytes (fr_to_be_bytes f) = into_bigint f"
  by (simp add: fr_to_be_bytes_def of_be_bytes_be_bytes del: power_numeral)

lemma fr_from_be_bytes_to_be_bytes [simp]: "fr_from_be_bytes_mod_order (fr_to_be_bytes f) = f"
  by (simp add: fr_from_be_bytes_mod_order_def)

lemma shift_or_byte: "push_bit 8 (acc :: usize) OR ucast (b :: u8) = acc * 256 + ucast b"
proof -
  have "push_bit 8 acc AND ucast b = 0"
    by (rule bit_word_eqI) (auto simp: bit_simps dest: bit_imp_le_length)
  then have "push_bit 8 acc OR ucast b = push_bit 8 acc + ucast b"
    by (simp add: disjunctive_add_eq_or)
  then show ?thesis by (simp add: push_bit_eq_mult)
qed

lemma fold_shift_or:
  "foldl (\<lambda>acc byte. push_bit 8 acc OR ucast byte) (0 :: usize) bs = of_nat (of_be_bytes bs)"
proof (induction bs rule: rev_induct)
  case (snoc b bs)
  have "(ucast b :: usize) = of_nat (unat b)"
    by simp
  with snoc show ?case by (simp add: shift_or_byte)
qed simp

lemma unat_fr_to_usize: "unat (fr_to_usize f) = into_bigint f mod 2 ^ 64"
proof -
  have "of_be_bytes (be_bytes 32 (into_bigint f)) = into_bigint f"
    by (simp only: fr_to_be_bytes_def[symmetric] of_be_bytes_fr_to_be_bytes)
  then show ?thesis
    by (simp only: fr_to_usize_def fold_shift_or unsigned_of_nat take_bit_eq_mod) simp
qed

lemma into_bigint_fr_from_u64 [simp]: "into_bigint (fr_from_u64 u) = unat u"
proof -
  have "unat u < fr_modulus"
    using unsigned_less[of u, where ?'a = nat] by (simp add: fr_modulus_def)
  then show ?thesis by (simp add: fr_from_u64_def)
qed

lemma into_bigint_fr_from_u128 [simp]: "into_bigint (fr_from_u128 w) = unat w"
proof -
  have "unat w < 256 ^ 16" and "unat w < fr_modulus"
    using unsigned_less[of w, where ?'a = nat] by (simp_all add: fr_modulus_def)
  then show ?thesis
    by (simp add: fr_from_u128_def fr_from_be_bytes_mod_order_def of_be_bytes_be_bytes
        del: power_numeral)
qed

lemma uint_nonneg_sint:
  fixes i :: "'w::len word"
  assumes "0 \<le> sint i"
  shows "uint i = sint i"
proof -
  have "sint i < 2 ^ (LENGTH('w) - 1)" using sint_lt[of i] by simp
  also have "\<dots> \<le> 2 ^ LENGTH('w)" by (rule power_increasing) auto
  finally have "take_bit LENGTH('w) (sint i) = sint i"
    using assms by (simp add: take_bit_int_eq_self)
  then show ?thesis using uint_sint[of i] by simp
qed

text \<open>A 32-byte string that starts with a zero byte is below the modulus.\<close>

lemma fr_to_be_bytes_from_bytes:
  assumes "length bs = 31"
  shows "fr_to_be_bytes (fr_from_bytes (0 # bs)) = 0 # bs"
proof -
  have val: "of_be_bytes (0 # bs) = of_be_bytes bs"
    using of_be_bytes_append[of "[0]" bs] of_be_bytes_snoc[of "[]" 0] by simp
  have "of_be_bytes bs < 256 ^ 31" using of_be_bytes_less[of bs] assms by simp
  also have "(256 :: nat) ^ 31 < fr_modulus" by (simp add: fr_modulus_def)
  finally have "into_bigint (fr_from_bytes (0 # bs)) = of_be_bytes (0 # bs)"
    by (simp add: fr_from_bytes_def fr_from_be_bytes_mod_order_def val)
  then show ?thesis
    using be_bytes_of_be_bytes[of "0 # bs"] assms by (simp add: fr_to_be_bytes_def)
qed

subsection \<open>Lemmas: hexadecimal text\<close>

lemma hex_decode_encode [simp]: "hex_ok H \<Longrightarrow> hex_decode H (hex_encode H bs) = Inr bs"
  by (simp add: hex_ok_def)

lemma length_hex_encode [simp]: "hex_ok H \<Longrightarrow> length (hex_encode H bs) = 2 * length bs"
  by (simp add: hex_ok_def)

lemma strip_0x_encode_hex [simp]: "strip_0x (encode_hex H bs) = hex_encode H bs"
  by (simp add: strip_0x_def strip_prefix_def encode_hex_def)

lemma decode_fixed_hex_encode_hex [simp]:
  "hex_ok H \<Longrightarrow> length bs = n \<Longrightarrow> decode_fixed_hex H n (encode_hex H bs) = Inr bs"
  by (simp add: decode_fixed_hex_def)

lemma fr_from_hex_display [simp]: "hex_ok H \<Longrightarrow> fr_from_hex H (fr_display H f) = Inr f"
  by (simp add: fr_from_hex_def fr_display_def encode_field_hex_def flip: fr_to_be_bytes_def)

lemma length_fr_display [simp]: "hex_ok H \<Longrightarrow> length (fr_display H f) = 66"
  by (simp add: fr_display_def encode_field_hex_def encode_hex_def)

lemma fr_display_inject [simp]:
  "hex_ok H \<Longrightarrow> fr_display H f = fr_display H g \<longleftrightarrow> f = g"
  by (metis fr_from_hex_display sum.inject(2))

lemma address_display_inject [simp]:
  "hex_ok H \<Longrightarrow> address_display H a = address_display H b \<longleftrightarrow> a = b"
  by (cases a; cases b) (simp add: address_display_def)

lemma length_address_display [simp]: "hex_ok H \<Longrightarrow> length (address_display H a) = 66"
  by (simp add: address_display_def)

subsection \<open>Lemmas: the concrete codec\<close>

lemma hex_digit_value_nth:
  "distinct ds \<Longrightarrow> i < length ds \<Longrightarrow> hex_digit_value ds (ds ! i) = Some i"
proof (induction ds arbitrary: i)
  case (Cons d ds)
  then show ?case by (cases i) auto
qed simp

lemma hex_digit_value_hex_digits [simp]:
  "i < 16 \<Longrightarrow> hex_digit_value hex_digits (hex_digits ! i) = Some i"
  by (rule hex_digit_value_nth) (simp_all add: hex_digits_def)

lemma plain_hex_decode_encode: "plain_hex_decode (plain_hex_encode bs) = Inr bs"
proof (induction bs)
  case (Cons b bs)
  have "unat b < 256"
    using unsigned_less[of b] by simp
  then have "unat b div 16 < 16" by simp
  with Cons show ?case by (simp add: plain_hex_encode_def)
qed (simp add: plain_hex_encode_def)

lemma plain_hex_encode_digits: "set (plain_hex_encode bs) \<subseteq> set hex_digits"
proof (induction bs)
  case (Cons b bs)
  have "unat b < 256"
    using unsigned_less[of b] by simp
  then have "unat b div 16 < length hex_digits" "unat b mod 16 < length hex_digits"
    by (simp_all add: hex_digits_def)
  then have "hex_digits ! (unat b div 16) \<in> set hex_digits"
    "hex_digits ! (unat b mod 16) \<in> set hex_digits"
    by (auto intro!: nth_mem)
  with Cons show ?case by (simp add: plain_hex_encode_def)
qed (simp add: plain_hex_encode_def)

lemma plain_hex_ok [simp]: "hex_ok plain_hex"
proof -
  have "length (plain_hex_encode bs) = 2 * length bs" for bs
    by (induction bs) (simp_all add: plain_hex_encode_def)
  then show ?thesis
    using plain_hex_encode_digits
    by (simp add: hex_ok_def plain_hex_def plain_hex_decode_encode hex_digits_def)
qed

subsection \<open>Properties\<close>

text \<open>
  Printing and parsing are inverse on the types that appear in store keys and JSON: a field
  element and a 32-byte transaction hash are read back from their own text.
\<close>

lemma hex_text_roundtrip:
  assumes "hex_ok H" and "length bs = 32"
  shows "fr_from_hex H (fr_display H f) = Inr f \<and>
    tx_hash_from_hex H (tx_hash_display H (TxHash bs)) = Inr (TxHash bs)"
  using assms by (simp add: tx_hash_from_hex_def)

text \<open>
  \<open>Fr::to_usize\<close> returns the value of the field element modulo \<open>2 ^ 64\<close>: it is exact on
  values that fit and wraps silently on the others.
\<close>

lemma to_usize_wraps: "unat (fr_to_usize f) = into_bigint f mod 2 ^ 64"
  by (rule unat_fr_to_usize)

text \<open>
  The integer conversions into the field are exact: an unsigned 64-bit or 128-bit value is
  its residue, and a signed 64-bit value and its negation add up to zero.
\<close>

lemma integer_conversions:
  "into_bigint (fr_from_u64 u) = unat u \<and> into_bigint (fr_from_u128 w) = unat w \<and>
   fr_from_i64 i + fr_of_nat (nat (max 0 (- sint i))) = fr_of_nat (nat (max 0 (sint i)))"
proof -
  have i: "unat i = nat (sint i)" if "0 \<le> sint i"
    using that by (simp add: unat_eq_nat_uint uint_nonneg_sint)
  have "fr_from_i64 i + fr_of_nat (nat (max 0 (- sint i))) = fr_of_nat (nat (max 0 (sint i)))"
    using i by (simp add: fr_from_i64_def of_nat_fr[symmetric] max_def)
  then show ?thesis by simp
qed

end
