(* ===== verification/Kv_Store.thy ===== *)
theory Kv_Store
  imports Field_Types
begin

text \<open>
  The key-value abstraction under every PXE store (\<open>crates/pxe/src/stores/kv.rs\<close>).

  The trait \<open>KvStore\<close> is a record of operations, as the trait object behind
  \<open>Arc<dyn KvStore>\<close> is; its contract is the locale \<open>kv_laws\<close>. \<open>InMemoryKvStore\<close>, a
  \<open>BTreeMap<Vec<u8>, Vec<u8>>\<close>, is an association list kept strictly sorted by key, and
  interprets the contract. Keys are byte strings (\<open>string\<close>); the type of stored bytes is a
  parameter \<open>'v\<close>, because the stores only produce and read it through \<open>serde_json\<close>, whose
  \<open>to_vec\<close>/\<open>from_slice\<close> pair is the record \<open>serde\<close>. The lock around the map cannot be
  poisoned by this code (nothing panics while it is held), so its error branch is left out.

  The second part holds what the stores share: the JSON lists of identifiers they keep as
  secondary indexes, and the decimal text of \<open>u64\<close> block numbers in keys.
\<close>

subsection \<open>The trait\<close>

record ('s, 'v) kv_store =
  kv_get :: "string \<Rightarrow> ('s, 'v option) op"
  kv_put :: "string \<Rightarrow> 'v \<Rightarrow> ('s, unit) op"
  kv_delete :: "string \<Rightarrow> ('s, unit) op"
  kv_list_prefix :: "string \<Rightarrow> ('s, (string \<times> 'v) list) op"

subsection \<open>The in-memory store\<close>

type_synonym 'v btree = "(string \<times> 'v) list"

fun btree_insert :: "string \<Rightarrow> 'v \<Rightarrow> 'v btree \<Rightarrow> 'v btree" where
  "btree_insert k v [] = [(k, v)]"
| "btree_insert k v ((k', v') # t) =
     (if k < k' then (k, v) # (k', v') # t
      else if k = k' then (k, v) # t
      else (k', v') # btree_insert k v t)"

fun btree_remove :: "string \<Rightarrow> 'v btree \<Rightarrow> 'v btree" where
  "btree_remove k [] = []"
| "btree_remove k ((k', v') # t) = (if k = k' then t else (k', v') # btree_remove k t)"

text \<open>\<open>range(prefix..)\<close> followed by \<open>take_while(starts_with)\<close>.\<close>

definition btree_range_from :: "string \<Rightarrow> 'v btree \<Rightarrow> 'v btree" where
  "btree_range_from p t = dropWhile (\<lambda>(k, v). k < p) t"

definition btree_list_prefix :: "string \<Rightarrow> 'v btree \<Rightarrow> 'v btree" where
  "btree_list_prefix p t = takeWhile (\<lambda>(k, v). prefix p k) (btree_range_from p t)"

definition in_memory_new :: "'v btree" where
  "in_memory_new = []"

definition in_memory_get :: "string \<Rightarrow> ('v btree, 'v option) op" where
  "in_memory_get key data = (Inr (map_of data key), data)"

definition in_memory_put :: "string \<Rightarrow> 'v \<Rightarrow> ('v btree, unit) op" where
  "in_memory_put key value data = (Inr (), btree_insert key value data)"

definition in_memory_delete :: "string \<Rightarrow> ('v btree, unit) op" where
  "in_memory_delete key data = (Inr (), btree_remove key data)"

definition in_memory_list_prefix :: "string \<Rightarrow> ('v btree, (string \<times> 'v) list) op" where
  "in_memory_list_prefix pre data = (Inr (btree_list_prefix pre data), data)"

definition in_memory_kv :: "('v btree, 'v) kv_store" where
  "in_memory_kv =
     \<lparr>kv_get = in_memory_get, kv_put = in_memory_put,
      kv_delete = in_memory_delete, kv_list_prefix = in_memory_list_prefix\<rparr>"

definition btree_ok :: "'v btree \<Rightarrow> bool" where
  "btree_ok t \<longleftrightarrow> sorted_wrt (<) (map fst t)"

subsection \<open>JSON values\<close>

record ('a, 'v) serde =
  to_vec :: "'a \<Rightarrow> 'v"
  from_slice :: "'v \<Rightarrow> 'a result"

definition serde_ok :: "('a, 'v) serde \<Rightarrow> bool" where
  "serde_ok c \<longleftrightarrow> (\<forall>x. from_slice c (to_vec c x) = Inr x)"

text \<open>Concrete codecs into a sum of value types, to instantiate the parameter.\<close>

definition left_json :: "('a, 'a + 'b) serde" where
  "left_json = \<lparr>to_vec = Inl, from_slice = case_sum Inr (\<lambda>_. Inl (Json ''unexpected value''))\<rparr>"

definition right_json :: "('b, 'a + 'b) serde" where
  "right_json = \<lparr>to_vec = Inr, from_slice = case_sum (\<lambda>_. Inl (Json ''unexpected value'')) Inr\<rparr>"

subsection \<open>Secondary indexes\<close>

text \<open>
  Every \<open>add_to_..._index\<close> and \<open>remove_from_..._index\<close> method of the stores has this body,
  at its own key.
\<close>

definition load_index :: "('s, 'v) kv_store \<Rightarrow> (string list, 'v) serde \<Rightarrow> string \<Rightarrow>
    ('s, string list) op" where
  "load_index K S key =
     seq (kv_get K key) (\<lambda>found.
       case found of
         Some bytes \<Rightarrow> lift_result (from_slice S bytes)
       | None \<Rightarrow> ret [])"

definition add_to_index :: "('s, 'v) kv_store \<Rightarrow> (string list, 'v) serde \<Rightarrow> string \<Rightarrow> string \<Rightarrow>
    ('s, unit) op" where
  "add_to_index K S key item =
     seq (load_index K S key) (\<lambda>entries.
       if item \<in> set entries then ret ()
       else kv_put K key (to_vec S (entries @ [item])))"

definition remove_from_index :: "('s, 'v) kv_store \<Rightarrow> (string list, 'v) serde \<Rightarrow> string \<Rightarrow>
    string \<Rightarrow> ('s, unit) op" where
  "remove_from_index K S key item =
     seq (kv_get K key) (\<lambda>found.
       case found of
         None \<Rightarrow> ret ()
       | Some bytes \<Rightarrow>
           seq (lift_result (from_slice S bytes)) (\<lambda>entries.
             let rest = filter (\<lambda>e. e \<noteq> item) entries in
             if rest = [] then kv_delete K key else kv_put K key (to_vec S rest)))"

subsection \<open>Decimal text of \<open>u64\<close>\<close>

fun digits_rev :: "nat \<Rightarrow> nat list" where
  "digits_rev n = (if n < 10 then [n] else (n mod 10) # digits_rev (n div 10))"

declare digits_rev.simps [simp del]

definition digit_char :: "nat \<Rightarrow> char" where
  "digit_char d = ''0123456789'' ! d"

definition u64_display :: "u64 \<Rightarrow> string" where
  "u64_display n = map digit_char (rev (digits_rev (unat n)))"

definition char_digit :: "nat \<Rightarrow> char \<Rightarrow> nat option" where
  "char_digit radix c =
     (let v = of_char c :: nat;
          d = (if 48 \<le> v \<and> v \<le> 57 then Some (v - 48)
               else if 97 \<le> v \<and> v \<le> 122 then Some (v - 87)
               else if 65 \<le> v \<and> v \<le> 90 then Some (v - 55)
               else None)
      in case d of None \<Rightarrow> None | Some x \<Rightarrow> if x < radix then Some x else None)"

fun parse_digits :: "nat \<Rightarrow> nat \<Rightarrow> string \<Rightarrow> nat option" where
  "parse_digits radix acc [] = Some acc"
| "parse_digits radix acc (c # cs) =
     (case char_digit radix c of
        None \<Rightarrow> None
      | Some d \<Rightarrow>
          let n = acc * radix + d in
          if n < 2 ^ 64 then parse_digits radix n cs else None)"

text \<open>
  \<open>u64::from_str_radix\<close>: an optional leading plus sign, at least one digit, no overflow; a lone
  sign is rejected. \<open>str::parse::<u64>\<close> is the same at radix ten.
\<close>

definition u64_from_str_radix :: "nat \<Rightarrow> string \<Rightarrow> u64 option" where
  "u64_from_str_radix radix s =
     (let ds = (case s of c # cs \<Rightarrow> if c = CHR ''+'' then cs else s | [] \<Rightarrow> [])
      in if ds = [] then None else map_option of_nat (parse_digits radix 0 ds))"

definition u64_parse :: "string \<Rightarrow> u64 option" where
  "u64_parse s = u64_from_str_radix 10 s"

text \<open>
  One iteration of the loops of \<open>rollback\<close>: an entry of the block index under \<open>pre\<close> whose
  block lies after \<open>block_number\<close> has its identifiers processed by \<open>act\<close> and is dropped.
  Keys are ASCII, so \<open>from_utf8_lossy\<close> leaves them as they are.
\<close>

definition prune_index_entry :: "('s, 'v) kv_store \<Rightarrow> (string list, 'v) serde \<Rightarrow> string \<Rightarrow>
    (string \<Rightarrow> ('s, unit) op) \<Rightarrow> u64 \<Rightarrow> string \<times> 'v \<Rightarrow> ('s, unit) op" where
  "prune_index_entry K S pre act block_number = (\<lambda>(key, value).
     case strip_prefix pre key of
       None \<Rightarrow> ret ()
     | Some bn_str \<Rightarrow>
         (case u64_parse bn_str of
            None \<Rightarrow> ret ()
          | Some bn \<Rightarrow>
              if bn > block_number then
                seq (lift_result (from_slice S value)) (\<lambda>ids.
                seq (for_each act ids) (\<lambda>_. kv_delete K key))
              else ret ()))"

subsection \<open>The lexicographic order and prefixes\<close>

lemma prefix_imp_le: "prefix p k \<Longrightarrow> p \<le> (k :: string)"
proof (induction p arbitrary: k)
  case (Cons c p)
  then show ?case by (cases k) auto
qed simp

lemma prefix_convex:
  fixes p a b :: string
  assumes "p \<le> a" and "a \<le> b" and "prefix p b"
  shows "prefix p a"
  using assms
proof (induction p arbitrary: a b)
  case (Cons c p)
  from Cons.prems(3) obtain b' where b: "b = c # b'" and pb: "prefix p b'"
    by (cases b) auto
  from Cons.prems(1) obtain x a' where a: "a = x # a'"
    by (cases a) auto
  from Cons.prems a b have "x = c" by auto
  with Cons a b pb show ?case by auto
qed simp

subsection \<open>The sorted association list implements a map\<close>

lemma btree_ok_Nil [simp]: "btree_ok []"
  by (simp add: btree_ok_def)

lemma btree_ok_Cons:
  "btree_ok ((k, v) # t) \<longleftrightarrow> (\<forall>k' \<in> fst ` set t. k < k') \<and> btree_ok t"
  by (auto simp: btree_ok_def)

lemma set_btree_insert:
  "btree_ok t \<Longrightarrow> fst ` set (btree_insert k v t) = insert k (fst ` set t)"
  by (induction k v t rule: btree_insert.induct) (auto simp: btree_ok_Cons)

lemma btree_ok_insert: "btree_ok t \<Longrightarrow> btree_ok (btree_insert k v t)"
proof (induction k v t rule: btree_insert.induct)
  case (2 k v k' v' t)
  then have t: "btree_ok t" by (simp add: btree_ok_Cons)
  show ?case
    using 2 by (auto simp: btree_ok_Cons set_btree_insert[OF t])
qed (simp add: btree_ok_def)

lemma map_of_btree_insert: "map_of (btree_insert k v t) = (map_of t)(k \<mapsto> v)"
  by (induction k v t rule: btree_insert.induct) (auto simp: fun_upd_twist)

lemma set_btree_remove: "set (btree_remove k t) \<subseteq> set t"
  by (induction k t rule: btree_remove.induct) auto

lemma btree_ok_remove: "btree_ok t \<Longrightarrow> btree_ok (btree_remove k t)"
proof (induction k t rule: btree_remove.induct)
  case (2 k k' v' t)
  then show ?case using set_btree_remove[of k t] by (fastforce simp: btree_ok_Cons)
qed simp

lemma btree_ok_notin: "btree_ok ((k, v) # t) \<Longrightarrow> map_of t k = None"
  by (auto simp: btree_ok_Cons map_of_eq_None_iff)

lemma map_of_btree_remove: "btree_ok t \<Longrightarrow> map_of (btree_remove k t) = (map_of t)(k := None)"
proof (induction k t rule: btree_remove.induct)
  case (2 k k' v' t)
  then have "btree_ok t" by (simp add: btree_ok_Cons)
  with 2 show ?case using btree_ok_notin[OF "2.prems"] by (auto simp: fun_eq_iff)
qed simp

lemma btree_ok_distinct: "btree_ok t \<Longrightarrow> distinct (map fst t)"
  by (simp add: btree_ok_def strict_sorted_iff)

lemma takeWhile_prefix:
  assumes "btree_ok t" and "\<forall>k \<in> fst ` set t. p \<le> k"
  shows "takeWhile (\<lambda>(k, v). prefix p k) t = filter (\<lambda>(k, v). prefix p k) t"
  using assms
proof (induction t)
  case (Cons e t)
  obtain k v where e: "e = (k, v)" by (cases e)
  show ?case
  proof (cases "prefix p k")
    case True
    with Cons e show ?thesis by (simp add: btree_ok_Cons)
  next
    case False
    have "\<not> prefix p k'" if "(k', v') \<in> set t" for k' v'
    proof
      assume "prefix p k'"
      moreover have "p \<le> k" and "k \<le> k'"
        using Cons.prems e that by (force simp: btree_ok_Cons)+
      ultimately show False using False prefix_convex by blast
    qed
    then have "filter (\<lambda>(k, v). prefix p k) t = []"
      by (auto simp: filter_empty_conv)
    with False e show ?thesis by simp
  qed
qed simp

lemma dropWhile_range:
  assumes "btree_ok t"
  shows "dropWhile (\<lambda>(k, v). k < p) t = filter (\<lambda>(k, v). p \<le> k) t"
  using assms
proof (induction t)
  case (Cons e t)
  obtain k v where e: "e = (k, v)" by (cases e)
  show ?case
  proof (cases "k < p")
    case True
    with Cons e show ?thesis by (simp add: btree_ok_Cons not_le)
  next
    case False
    then have "filter (\<lambda>(k, v). p \<le> k) t = t"
      using Cons.prems e by (fastforce simp: btree_ok_Cons filter_id_conv not_less)
    with False e show ?thesis by (simp add: not_less)
  qed
qed simp

lemma btree_ok_filter: "btree_ok t \<Longrightarrow> btree_ok (filter P t)"
  by (induction t) (auto simp: btree_ok_def)

lemma btree_list_prefix_filter:
  assumes "btree_ok t"
  shows "btree_list_prefix p t = filter (\<lambda>(k, v). prefix p k) t"
proof -
  have "btree_list_prefix p t =
      takeWhile (\<lambda>(k, v). prefix p k) (filter (\<lambda>(k, v). p \<le> k) t)"
    by (simp add: btree_list_prefix_def btree_range_from_def dropWhile_range[OF assms])
  also have "\<dots> = filter (\<lambda>(k, v). prefix p k) (filter (\<lambda>(k, v). p \<le> k) t)"
    using assms by (intro takeWhile_prefix btree_ok_filter) auto
  also have "\<dots> = filter (\<lambda>(k, v). prefix p k) t"
    by (auto simp: filter_filter prefix_imp_le intro!: filter_cong)
  finally show ?thesis .
qed

subsection \<open>The contract of a key-value store\<close>

locale kv_laws =
  fixes K :: "('s, 'v) kv_store"
    and lookup :: "'s \<Rightarrow> string \<Rightarrow> 'v option"
    and invar :: "'s \<Rightarrow> bool"
  assumes get_law: "invar s \<Longrightarrow> kv_get K k s = (Inr (lookup s k), s)"
    and put_law: "invar s \<Longrightarrow>
      wp (kv_put K k v) (\<lambda>_ s'. invar s' \<and> lookup s' = (lookup s)(k \<mapsto> v)) s"
    and delete_law: "invar s \<Longrightarrow>
      wp (kv_delete K k) (\<lambda>_ s'. invar s' \<and> lookup s' = (lookup s)(k := None)) s"
    and list_law: "invar s \<Longrightarrow>
      wp (kv_list_prefix K p) (\<lambda>es s'. s' = s \<and> sorted_wrt (<) (map fst es) \<and>
        (\<forall>k v. (k, v) \<in> set es \<longleftrightarrow> prefix p k \<and> lookup s k = Some v)) s"
begin

lemma wp_get: "invar s \<Longrightarrow> wp (kv_get K k) Q s \<longleftrightarrow> Q (lookup s k) s"
  by (simp add: wp_def get_law)

lemma wp_put:
  assumes "invar s"
    and "\<And>s'. invar s' \<Longrightarrow> lookup s' = (lookup s)(k \<mapsto> v) \<Longrightarrow> Q () s'"
  shows "wp (kv_put K k v) Q s"
  using put_law[OF assms(1), of k v] by (rule wp_mono) (use assms(2) in auto)

lemma wp_delete:
  assumes "invar s"
    and "\<And>s'. invar s' \<Longrightarrow> lookup s' = (lookup s)(k := None) \<Longrightarrow> Q () s'"
  shows "wp (kv_delete K k) Q s"
  using delete_law[OF assms(1), of k] by (rule wp_mono) (use assms(2) in auto)

lemma wp_list_prefix:
  assumes "invar s"
    and "\<And>es. sorted_wrt (<) (map fst es) \<Longrightarrow>
      (\<And>k v. (k, v) \<in> set es \<longleftrightarrow> prefix p k \<and> lookup s k = Some v) \<Longrightarrow> Q es s"
  shows "wp (kv_list_prefix K p) Q s"
  using list_law[OF assms(1), of p] by (rule wp_mono) (use assms(2) in auto)

end

interpretation mem: kv_laws in_memory_kv map_of btree_ok
proof unfold_locales
  fix s :: "'v btree" and k p :: string and v :: 'v
  assume ok: "btree_ok s"
  show "kv_get in_memory_kv k s = (Inr (map_of s k), s)"
    by (simp add: in_memory_kv_def in_memory_get_def)
  show "wp (kv_put in_memory_kv k v)
      (\<lambda>_ s'. btree_ok s' \<and> map_of s' = (map_of s)(k \<mapsto> v)) s"
    using ok by (simp add: wp_def in_memory_kv_def in_memory_put_def btree_ok_insert
        map_of_btree_insert)
  show "wp (kv_delete in_memory_kv k)
      (\<lambda>_ s'. btree_ok s' \<and> map_of s' = (map_of s)(k := None)) s"
    using ok by (simp add: wp_def in_memory_kv_def in_memory_delete_def btree_ok_remove
        map_of_btree_remove)
  have "(k, v) \<in> set s \<longleftrightarrow> map_of s k = Some v" for k v
    using btree_ok_distinct[OF ok] by simp
  then show "wp (kv_list_prefix in_memory_kv p)
      (\<lambda>es s'. s' = s \<and> sorted_wrt (<) (map fst es) \<and>
        (\<forall>k v. (k, v) \<in> set es \<longleftrightarrow> prefix p k \<and> map_of s k = Some v)) s"
    using btree_ok_filter[OF ok] ok
    by (auto simp: wp_def in_memory_kv_def in_memory_list_prefix_def btree_list_prefix_filter
        btree_ok_def)
qed

subsection \<open>Secondary indexes as lists\<close>

definition index_add :: "'a \<Rightarrow> 'a list \<Rightarrow> 'a list" where
  "index_add x xs = (if x \<in> set xs then xs else xs @ [x])"

definition index_entries :: "'a list option \<Rightarrow> 'a list" where
  "index_entries old = (case old of None \<Rightarrow> [] | Some xs \<Rightarrow> xs)"

definition index_remove :: "'a \<Rightarrow> 'a list option \<Rightarrow> 'a list option" where
  "index_remove x old =
     (case old of
        None \<Rightarrow> None
      | Some xs \<Rightarrow> let ys = filter (\<lambda>y. y \<noteq> x) xs in if ys = [] then None else Some ys)"

lemma set_index_add [simp]: "set (index_add x xs) = insert x (set xs)"
  by (auto simp: index_add_def)

lemma distinct_index_add [simp]: "distinct (index_add x xs) \<longleftrightarrow> distinct xs"
  by (auto simp: index_add_def)

lemma index_add_map:
  "inj f \<Longrightarrow> index_add (f x) (map f xs) = map f (index_add x xs)"
  by (auto simp: index_add_def inj_image_mem_iff)

lemma index_entries_simps [simp]:
  "index_entries None = []"
  "index_entries (Some xs) = xs"
  by (simp_all add: index_entries_def)

lemma set_index_remove [simp]:
  "set (index_entries (index_remove x old)) = set (index_entries old) - {x}"
  by (cases old) (auto simp: index_remove_def Let_def filter_empty_conv)

lemma index_remove_map:
  assumes "inj f"
  shows "index_remove (f x) (map_option (map f) old) = map_option (map f) (index_remove x old)"
proof -
  have "filter (\<lambda>y. y \<noteq> f x) (map f xs) = map f (filter (\<lambda>y. y \<noteq> x) xs)" for xs
    using assms by (induction xs) (auto simp: inj_eq)
  then show ?thesis by (cases old) (simp_all add: index_remove_def Let_def)
qed

lemma serde_roundtrip [simp]: "serde_ok c \<Longrightarrow> from_slice c (to_vec c x) = Inr x"
  by (simp add: serde_ok_def)

lemma sum_json_ok [simp]: "serde_ok left_json" "serde_ok right_json"
  by (simp_all add: serde_ok_def left_json_def right_json_def)

context kv_laws
begin

lemma wp_load_index:
  assumes "invar s" and "serde_ok S" and "lookup s key = map_option (to_vec S) old"
    and "Q (index_entries old) s"
  shows "wp (load_index K S key) Q s"
  using assms by (cases old) (simp_all add: load_index_def wp_get)

lemma wp_add_to_index:
  assumes inv: "invar s" and S: "serde_ok S" and key: "lookup s key = map_option (to_vec S) old"
    and Q: "\<And>s'. invar s' \<Longrightarrow>
      lookup s' = (lookup s)(key \<mapsto> to_vec S (index_add item (index_entries old))) \<Longrightarrow> Q () s'"
  shows "wp (add_to_index K S key item) Q s"
proof (cases "item \<in> set (index_entries old)")
  case True
  then have "lookup s key = Some (to_vec S (index_add item (index_entries old)))"
    using key by (cases old) (auto simp: index_add_def)
  then have "Q () s" using Q[OF inv] by (simp add: map_upd_triv)
  with True show ?thesis
    unfolding add_to_index_def by (auto intro!: wp_load_index[OF inv S key])
next
  case False
  then have "index_add item (index_entries old) = index_entries old @ [item]"
    by (simp add: index_add_def)
  with False Q show ?thesis
    unfolding add_to_index_def by (auto intro!: wp_load_index[OF inv S key] wp_put[OF inv])
qed

lemma wp_remove_from_index:
  assumes inv: "invar s" and S: "serde_ok S" and key: "lookup s key = map_option (to_vec S) old"
    and Q: "\<And>s'. invar s' \<Longrightarrow>
      lookup s' = (lookup s)(key := map_option (to_vec S) (index_remove item old)) \<Longrightarrow> Q () s'"
  shows "wp (remove_from_index K S key item) Q s"
proof (cases old)
  case None
  with key have "lookup s = (lookup s)(key := map_option (to_vec S) (index_remove item old))"
    by (auto simp: index_remove_def)
  from Q[OF inv this] None key show ?thesis
    by (simp add: remove_from_index_def wp_get[OF inv])
next
  case (Some xs)
  with key S Q show ?thesis
    by (auto simp: remove_from_index_def wp_get[OF inv] index_remove_def Let_def
        intro!: wp_put[OF inv] wp_delete[OF inv])
qed

end

subsection \<open>Decimal text\<close>

lemma digits_rev_lt: "d \<in> set (digits_rev n) \<Longrightarrow> d < 10"
proof (induction n rule: digits_rev.induct)
  case (1 n)
  then show ?case by (subst (asm) digits_rev.simps) (auto split: if_splits)
qed

lemma digits_rev_nonempty [simp]: "digits_rev n \<noteq> []"
  by (subst digits_rev.simps) simp

lemma char_digit_digit_char: "d < 10 \<Longrightarrow> char_digit 10 (digit_char d) = Some d"
  by (auto simp: numeral_eq_Suc less_Suc_eq digit_char_def char_digit_def)

lemma parse_digits_append:
  "parse_digits r acc (xs @ ys) =
     (case parse_digits r acc xs of None \<Rightarrow> None | Some n \<Rightarrow> parse_digits r n ys)"
  by (induction r acc xs rule: parse_digits.induct) (auto split: option.splits simp: Let_def)

lemma parse_digits_display:
  "n < 2 ^ 64 \<Longrightarrow> parse_digits 10 0 (map digit_char (rev (digits_rev n))) = Some n"
proof (induction n rule: digits_rev.induct)
  case (1 n)
  show ?case
  proof (cases "n < 10")
    case True
    then show ?thesis
      by (subst digits_rev.simps) (simp add: char_digit_digit_char)
  next
    case False
    have "n div 10 < 2 ^ 64" using "1.prems" by linarith
    with 1 False have "parse_digits 10 0 (map digit_char (rev (digits_rev (n div 10)))) = Some (n div 10)"
      by simp
    moreover have "n div 10 * 10 + n mod 10 = n" by simp
    ultimately show ?thesis
      using False "1.prems"
      by (subst digits_rev.simps) (simp add: parse_digits_append char_digit_digit_char)
  qed
qed

lemma digit_char_not_plus: "d < 10 \<Longrightarrow> digit_char d \<noteq> CHR ''+''"
  by (auto simp: numeral_eq_Suc less_Suc_eq digit_char_def)

lemma u64_parse_display [simp]: "u64_parse (u64_display n) = Some n"
proof -
  let ?ds = "map digit_char (rev (digits_rev (unat n)))"
  have ne: "?ds \<noteq> []" by simp
  then obtain c cs where c: "?ds = c # cs" by (cases ?ds) auto
  then have "c \<in> digit_char ` set (digits_rev (unat n))"
    by (metis list.set_intros(1) list.set_map set_rev)
  then have "c \<noteq> CHR ''+''" using digits_rev_lt digit_char_not_plus by auto
  moreover have "parse_digits 10 0 (c # cs) = Some (unat n)"
    using parse_digits_display[of "unat n"] unsigned_less[of n, where ?'a = nat] c by simp
  ultimately show ?thesis
    using c by (simp add: u64_parse_def u64_from_str_radix_def u64_display_def
        del: parse_digits.simps)
qed

lemma u64_display_inject [simp]: "u64_display m = u64_display n \<longleftrightarrow> m = n"
  by (metis option.inject u64_parse_display)

subsection \<open>Block indexes\<close>

text \<open>The entries of \<open>m\<close> under \<open>pre\<close> are exactly the lists of \<open>idx\<close>, keyed by block number.\<close>

definition block_index :: "(string list, 'v) serde \<Rightarrow> string \<Rightarrow> (string \<Rightarrow> 'v option) \<Rightarrow>
    (u64 \<Rightarrow> string list option) \<Rightarrow> bool" where
  "block_index S pre m idx \<longleftrightarrow>
     (\<forall>bn. m (pre @ u64_display bn) = map_option (to_vec S) (idx bn)) \<and>
     (\<forall>k. prefix pre k \<longrightarrow> m k \<noteq> None \<longrightarrow> (\<exists>bn. k = pre @ u64_display bn))"

lemma block_index_lookup:
  "block_index S pre m idx \<Longrightarrow> m (pre @ u64_display bn) = map_option (to_vec S) (idx bn)"
  by (simp add: block_index_def)

lemma strip_prefix_append [simp]: "strip_prefix p (p @ s) = Some s"
  by (simp add: strip_prefix_def)

context kv_laws
begin

text \<open>
  Pruning a block index: \<open>I D\<close> says that the blocks of \<open>D\<close> are processed; each later block is
  processed once.
\<close>

lemma wp_prune_index:
  assumes inv: "invar s" and S: "serde_ok S" and idx: "block_index S pre (lookup s) idx"
    and start: "I {} s"
    and step: "\<And>D bn l s. bn \<notin> D \<Longrightarrow> b < bn \<Longrightarrow> idx bn = Some l \<Longrightarrow> I D s \<Longrightarrow>
      wp (seq (for_each act l) (\<lambda>_. kv_delete K (pre @ u64_display bn))) (\<lambda>_. I (insert bn D)) s"
    and fin: "\<And>s. I {bn. b < bn \<and> idx bn \<noteq> None} s \<Longrightarrow> Q () s"
  shows "wp (seq (kv_list_prefix K pre) (for_each (prune_index_entry K S pre act b))) Q s"
  unfolding wp_seq
proof (rule wp_list_prefix[OF inv])
  fix es
  assume srt: "sorted_wrt (<) (map fst es)"
    and es: "\<And>k v. (k, v) \<in> set es \<longleftrightarrow> prefix pre k \<and> lookup s k = Some v"
  define bns where "bns ys = {bn. b < bn \<and> pre @ u64_display bn \<in> fst ` set ys}"
    for ys :: "(string \<times> 'v) list"
  have entry: "\<exists>bn l. k = pre @ u64_display bn \<and> idx bn = Some l \<and> v = to_vec S l"
    if "(k, v) \<in> set es" for k v
  proof -
    from that es have pk: "prefix pre k" and kv: "lookup s k = Some v" by auto
    then obtain bn where "k = pre @ u64_display bn"
      using idx unfolding block_index_def by (metis option.discI)
    with kv block_index_lookup[OF idx, of bn] show ?thesis by auto
  qed
  have all: "bns es = {bn. b < bn \<and> idx bn \<noteq> None}"
  proof -
    have "pre @ u64_display bn \<in> fst ` set es \<longleftrightarrow> (\<exists>v. (pre @ u64_display bn, v) \<in> set es)"
      for bn by force
    also have "(\<exists>v. (pre @ u64_display bn, v) \<in> set es) \<longleftrightarrow> idx bn \<noteq> None" for bn
      using block_index_lookup[OF idx, of bn] by (simp add: es)
    finally have "pre @ u64_display bn \<in> fst ` set es \<longleftrightarrow> idx bn \<noteq> None" for bn .
    then show ?thesis by (auto simp: bns_def)
  qed
  show "wp (for_each (prune_index_entry K S pre act b) es) Q s"
  proof (rule wp_for_each[where I = "\<lambda>ys. I (bns ys)"])
    show "I (bns []) s" using start by (simp add: bns_def)
  next
    fix ys e zs t
    assume split: "es = ys @ e # zs" and I: "I (bns ys) t"
    obtain k v where e: "e = (k, v)" by (cases e)
    from entry[of k v] split e obtain bn l
      where k: "k = pre @ u64_display bn" and l: "idx bn = Some l" and v: "v = to_vec S l"
      by auto
    have fresh: "bn \<notin> bns ys"
      using srt split e k by (auto simp: bns_def sorted_wrt_append)
    have snoc: "bns (ys @ [e]) = (if b < bn then insert bn (bns ys) else bns ys)"
      by (auto simp: bns_def e k)
    show "wp (prune_index_entry K S pre act b e) (\<lambda>_. I (bns (ys @ [e]))) t"
      unfolding snoc using step[OF fresh _ l I] I S
      by (simp add: prune_index_entry_def e k v)
  next
    fix t
    assume "I (bns es) t"
    then show "Q () t" using fin by (simp add: all)
  qed
qed

end

subsection \<open>Identifiers listed in indexes\<close>

lemma block_index_other:
  "block_index S pre m idx \<Longrightarrow> \<not> prefix pre k \<Longrightarrow> block_index S pre (m(k := v)) idx"
  unfolding block_index_def by (metis fun_upd_apply prefixI)

lemma block_index_set:
  "block_index S pre m idx \<Longrightarrow>
   block_index S pre (m(pre @ u64_display b := map_option (to_vec S) l)) (idx(b := l))"
  by (auto simp: block_index_def)

lemma fr_display_inj: "hex_ok H \<Longrightarrow> inj (fr_display H)"
  by (simp add: inj_on_def)

text \<open>Adding an identifier to an index, on the representation.\<close>

lemma index_add_display:
  assumes "hex_ok H"
  shows "index_add (fr_display H n) (index_entries (map_option (map (fr_display H)) l)) =
    map (fr_display H) (index_add n (index_entries l))"
  using index_add_map[OF fr_display_inj[OF assms]] by (cases l) (simp_all add: index_add_def)

text \<open>The identifiers listed for the blocks of \<open>D\<close>.\<close>

definition listed :: "(u64 \<Rightarrow> fr list option) \<Rightarrow> u64 set \<Rightarrow> fr set" where
  "listed idx D = (\<Union>b\<in>D. set (index_entries (idx b)))"

lemma listed_empty [simp]: "listed idx {} = {}"
  by (simp add: listed_def)

lemma listed_insert [simp]: "listed idx (insert b D) = set (index_entries (idx b)) \<union> listed idx D"
  by (simp add: listed_def)

lemma distinct_index_remove:
  "distinct (index_entries l) \<Longrightarrow> distinct (index_entries (index_remove x l))"
  by (cases l) (auto simp: index_remove_def Let_def)

lemma listed_iff:
  "n \<in> listed idx {c. b < c \<and> idx c \<noteq> None} \<longleftrightarrow> (\<exists>c. b < c \<and> n \<in> set (index_entries (idx c)))"
proof -
  have "idx c \<noteq> None" if "n \<in> set (index_entries (idx c))" for c
    using that by (cases "idx c") auto
  then show ?thesis by (auto simp: listed_def)
qed

lemma map_filter_ids:
  assumes "\<And>n. n \<in> set ns \<Longrightarrow> \<exists>x. f n = Some x \<and> g x = n"
  shows "map g (List.map_filter f ns) = ns"
  using assms by (induction ns) (force simp: map_filter_simps)+

lemma set_map_filter: "set (List.map_filter f ns) = {x. \<exists>n \<in> set ns. f n = Some x}"
  by (induction ns) (auto simp: map_filter_simps split: option.splits)

subsection \<open>Properties\<close>

text \<open>
  The in-memory store refines a finite map and its prefix scan is exact: every operation
  succeeds, insertion and removal update the map at their key only and keep the keys strictly
  sorted, and \<open>list_prefix\<close>, a range scan cut at the first key without the prefix, returns all
  entries with that prefix in key order.
\<close>

lemma in_memory_refines_map:
  assumes "btree_ok t"
  shows "in_memory_get k t = (Inr (map_of t k), t) \<and>
    (\<exists>t'. in_memory_put k v t = (Inr (), t') \<and> btree_ok t' \<and> map_of t' = (map_of t)(k \<mapsto> v)) \<and>
    (\<exists>t'. in_memory_delete k t = (Inr (), t') \<and> btree_ok t' \<and> map_of t' = (map_of t)(k := None)) \<and>
    in_memory_list_prefix p t = (Inr (filter (\<lambda>(k, v). prefix p k) t), t)"
  using assms
  by (simp add: in_memory_get_def in_memory_put_def in_memory_delete_def
      in_memory_list_prefix_def btree_ok_insert map_of_btree_insert btree_ok_remove
      map_of_btree_remove btree_list_prefix_filter)

text \<open>
  The decimal text of a block number in an index key parses back to that number, so two
  block numbers never share a key.
\<close>

lemma block_number_text_roundtrip:
  "u64_parse (u64_display n) = Some n \<and> (u64_display m = u64_display n \<longleftrightarrow> m = n)"
  by simp

end
