(* ===== verification/Event_Store.thy ===== *)
theory Event_Store
  imports Kv_Store
begin

text \<open>
  The store of decrypted private events (\<open>crates/pxe/src/stores/private_event_store.rs\<close>):
  events keyed by their siloed commitment, an index by contract and event selector, an index by
  block, filtering, and rollback after a chain reorganisation.

  As for the notes, the methods are translated over an arbitrary key-value store and related to
  an abstract store of three finite maps; \<open>event_inv\<close> ties the indexes to the events.
\<close>

subsection \<open>Data\<close>

record stored_private_event =
  ev_event_selector :: event_selector
  ev_randomness :: fr
  ev_msg_content :: "fr list"
  ev_siloed_event_commitment :: fr
  ev_contract_address :: aztec_address
  ev_scopes :: "aztec_address list"
  ev_tx_hash :: tx_hash
  ev_l2_block_number :: u64
  ev_l2_block_hash :: string
  ev_tx_index_in_block :: "u64 option"
  ev_event_index_in_tx :: "u64 option"

record private_event_query_filter =
  qf_contract_address :: aztec_address
  qf_from_block :: "u64 option"
  qf_to_block :: "u64 option"
  qf_scopes :: "aztec_address list"
  qf_tx_hash :: "tx_hash option"

record ('s, 'v) private_event_store =
  es_kv :: "('s, 'v) kv_store"
  es_hex :: hex_crate
  es_event_json :: "(stored_private_event, 'v) serde"
  es_index_json :: "(string list, 'v) serde"

subsection \<open>Keys and indexes\<close>

primrec selector_field :: "event_selector \<Rightarrow> fr" where
  "selector_field (EventSelector f) = f"

definition event_block_prefix :: string where
  "event_block_prefix = ''event_idx:block:''"

definition event_key :: "hex_crate \<Rightarrow> fr \<Rightarrow> string" where
  "event_key H siloed_event_commitment = ''event:'' @ fr_display H siloed_event_commitment"

definition contract_selector_index_key :: "hex_crate \<Rightarrow> aztec_address \<Rightarrow> event_selector \<Rightarrow> string" where
  "contract_selector_index_key H contract selector =
     ''event_idx:cs:'' @ address_display H contract @ ''_'' @ fr_display H (selector_field selector)"

definition event_block_index_key :: "u64 \<Rightarrow> string" where
  "event_block_index_key block_number = event_block_prefix @ u64_display block_number"

definition add_to_contract_selector_index ::
    "('s, 'v) private_event_store \<Rightarrow> aztec_address \<Rightarrow> event_selector \<Rightarrow> fr \<Rightarrow> ('s, unit) op" where
  "add_to_contract_selector_index self contract selector event_id =
     add_to_index (es_kv self) (es_index_json self)
       (contract_selector_index_key (es_hex self) contract selector)
       (fr_display (es_hex self) event_id)"

definition remove_from_contract_selector_index ::
    "('s, 'v) private_event_store \<Rightarrow> aztec_address \<Rightarrow> event_selector \<Rightarrow> fr \<Rightarrow> ('s, unit) op" where
  "remove_from_contract_selector_index self contract selector event_id =
     remove_from_index (es_kv self) (es_index_json self)
       (contract_selector_index_key (es_hex self) contract selector)
       (fr_display (es_hex self) event_id)"

definition event_add_to_block_index ::
    "('s, 'v) private_event_store \<Rightarrow> u64 \<Rightarrow> fr \<Rightarrow> ('s, unit) op" where
  "event_add_to_block_index self block_number event_id =
     add_to_index (es_kv self) (es_index_json self) (event_block_index_key block_number)
       (fr_display (es_hex self) event_id)"

subsection \<open>Storing an event\<close>

definition event_push_scope :: "aztec_address \<Rightarrow> stored_private_event \<Rightarrow> stored_private_event" where
  "event_push_scope scope event =
     (if scope \<in> set (ev_scopes event) then event
      else event\<lparr>ev_scopes := ev_scopes event @ [scope]\<rparr>)"

definition store_private_event_log ::
    "('s, 'v) private_event_store \<Rightarrow> stored_private_event \<Rightarrow> aztec_address \<Rightarrow> ('s, unit) op" where
  "store_private_event_log self event scope =
     (let key = event_key (es_hex self) (ev_siloed_event_commitment event) in
      seq (kv_get (es_kv self) key) (\<lambda>found.
        case found of
          Some existing_bytes \<Rightarrow>
            seq (lift_result (from_slice (es_event_json self) existing_bytes)) (\<lambda>existing.
              kv_put (es_kv self) key (to_vec (es_event_json self) (event_push_scope scope existing)))
        | None \<Rightarrow>
            let stored = event_push_scope scope event in
            seq (kv_put (es_kv self) key (to_vec (es_event_json self) stored)) (\<lambda>_.
            seq (add_to_contract_selector_index self (ev_contract_address stored)
                  (ev_event_selector stored) (ev_siloed_event_commitment stored)) (\<lambda>_.
              event_add_to_block_index self (ev_l2_block_number stored)
                (ev_siloed_event_commitment stored)))))"

subsection \<open>Querying events\<close>

definition event_matches :: "private_event_query_filter \<Rightarrow> stored_private_event \<Rightarrow> bool" where
  "event_matches filt event \<longleftrightarrow>
     (case qf_from_block filt of None \<Rightarrow> True | Some from \<Rightarrow> \<not> ev_l2_block_number event < from) \<and>
     (case qf_to_block filt of None \<Rightarrow> True | Some to \<Rightarrow> \<not> ev_l2_block_number event > to) \<and>
     (qf_scopes filt = [] \<or> list_ex (\<lambda>s. s \<in> set (qf_scopes filt)) (ev_scopes event)) \<and>
     (case qf_tx_hash filt of None \<Rightarrow> True | Some tx_hash \<Rightarrow> ev_tx_hash event = tx_hash)"

fun load_events ::
    "('s, 'v) private_event_store \<Rightarrow> private_event_query_filter \<Rightarrow> string list \<Rightarrow>
     ('s, stored_private_event list) op" where
  "load_events self filt [] = ret []"
| "load_events self filt (id_str # rest) =
     (case fr_from_hex (es_hex self) id_str of
        Inl e \<Rightarrow> load_events self filt rest
      | Inr event_id \<Rightarrow>
          seq (kv_get (es_kv self) (event_key (es_hex self) event_id)) (\<lambda>found.
            case found of
              None \<Rightarrow> load_events self filt rest
            | Some bytes \<Rightarrow>
                seq (lift_result (from_slice (es_event_json self) bytes)) (\<lambda>event.
                  if event_matches filt event
                  then seq (load_events self filt rest) (\<lambda>events. ret (event # events))
                  else load_events self filt rest)))"

definition event_position :: "stored_private_event \<Rightarrow> u64 \<times> u64 option \<times> u64 option" where
  "event_position event =
     (ev_l2_block_number event, ev_tx_index_in_block event, ev_event_index_in_tx event)"

definition get_private_events ::
    "('s, 'v) private_event_store \<Rightarrow> event_selector \<Rightarrow> private_event_query_filter \<Rightarrow>
     ('s, stored_private_event list) op" where
  "get_private_events self selector filt =
     seq (kv_get (es_kv self)
           (contract_selector_index_key (es_hex self) (qf_contract_address filt) selector)) (\<lambda>found.
       case found of
         None \<Rightarrow> ret []
       | Some bytes \<Rightarrow>
           seq (lift_result (from_slice (es_index_json self) bytes)) (\<lambda>event_ids.
           seq (load_events self filt event_ids) (\<lambda>events.
             ret (sort_key event_position events))))"

subsection \<open>Rollback\<close>

definition event_rollback_delete :: "('s, 'v) private_event_store \<Rightarrow> string \<Rightarrow> ('s, unit) op" where
  "event_rollback_delete self id_str =
     (case fr_from_hex (es_hex self) id_str of
        Inl e \<Rightarrow> ret ()
      | Inr event_id \<Rightarrow>
          let key = event_key (es_hex self) event_id in
          seq (kv_get (es_kv self) key) (\<lambda>found.
          seq (case found of
                 None \<Rightarrow> ret ()
               | Some event_bytes \<Rightarrow>
                   seq (lift_result (from_slice (es_event_json self) event_bytes)) (\<lambda>event.
                     remove_from_contract_selector_index self (ev_contract_address event)
                       (ev_event_selector event) event_id))
              (\<lambda>_. kv_delete (es_kv self) key)))"

definition event_rollback :: "('s, 'v) private_event_store \<Rightarrow> u64 \<Rightarrow> u64 \<Rightarrow> ('s, unit) op" where
  "event_rollback self block_number synced_block_number =
     seq (kv_list_prefix (es_kv self) event_block_prefix)
       (for_each (prune_index_entry (es_kv self) (es_index_json self) event_block_prefix
         (event_rollback_delete self) block_number))"

subsection \<open>The abstract event store\<close>

record event_abs =
  abs_events :: "fr \<Rightarrow> stored_private_event option"
  abs_group :: "aztec_address \<times> event_selector \<Rightarrow> fr list option"
  abs_event_block :: "u64 \<Rightarrow> fr list option"

definition event_store_ok :: "('s, 'v) private_event_store \<Rightarrow> bool" where
  "event_store_ok self \<longleftrightarrow>
     hex_ok (es_hex self) \<and> serde_ok (es_event_json self) \<and> serde_ok (es_index_json self)"

definition event_rep ::
    "('s, 'v) private_event_store \<Rightarrow> (string \<Rightarrow> 'v option) \<Rightarrow> event_abs \<Rightarrow> bool" where
  "event_rep self m a \<longleftrightarrow>
     (\<forall>n. m (event_key (es_hex self) n) =
        map_option (to_vec (es_event_json self)) (abs_events a n)) \<and>
     (\<forall>c e. m (contract_selector_index_key (es_hex self) c e) =
        map_option (to_vec (es_index_json self))
          (map_option (map (fr_display (es_hex self))) (abs_group a (c, e)))) \<and>
     block_index (es_index_json self) event_block_prefix m
       (\<lambda>b. map_option (map (fr_display (es_hex self))) (abs_event_block a b))"

definition event_group :: "stored_private_event \<Rightarrow> aztec_address \<times> event_selector" where
  "event_group x = (ev_contract_address x, ev_event_selector x)"

definition abs_store_event :: "aztec_address \<Rightarrow> stored_private_event \<Rightarrow> event_abs \<Rightarrow> event_abs" where
  "abs_store_event scope event a =
     (let n = ev_siloed_event_commitment event; g = event_group event; b = ev_l2_block_number event in
      case abs_events a n of
        Some existing \<Rightarrow> a\<lparr>abs_events := (abs_events a)(n \<mapsto> event_push_scope scope existing)\<rparr>
      | None \<Rightarrow>
          a\<lparr>abs_events := (abs_events a)(n \<mapsto> event_push_scope scope event),
            abs_group := (abs_group a)(g \<mapsto> index_add n (index_entries (abs_group a g))),
            abs_event_block :=
              (abs_event_block a)(b \<mapsto> index_add n (index_entries (abs_event_block a b)))\<rparr>)"

definition abs_delete_event :: "fr \<Rightarrow> event_abs \<Rightarrow> event_abs" where
  "abs_delete_event n a =
     (case abs_events a n of
        None \<Rightarrow> a
      | Some x \<Rightarrow>
          a\<lparr>abs_group := (abs_group a)(event_group x := index_remove n (abs_group a (event_group x))),
            abs_events := (abs_events a)(n := None)\<rparr>)"

definition event_inv :: "event_abs \<Rightarrow> bool" where
  "event_inv a \<longleftrightarrow>
     (\<forall>n x. abs_events a n = Some x \<longrightarrow> ev_siloed_event_commitment x = n) \<and>
     (\<forall>g n. n \<in> set (index_entries (abs_group a g)) \<longleftrightarrow>
        (\<exists>x. abs_events a n = Some x \<and> event_group x = g)) \<and>
     (\<forall>g. distinct (index_entries (abs_group a g))) \<and>
     (\<forall>b n. n \<in> set (index_entries (abs_event_block a b)) \<longleftrightarrow>
        (\<exists>x. abs_events a n = Some x \<and> ev_l2_block_number x = b))"

text \<open>The event stored under a commitment, and well-formed stores.\<close>

definition load_event ::
    "('s, 'v) private_event_store \<Rightarrow> (string \<Rightarrow> 'v option) \<Rightarrow> fr \<Rightarrow> stored_private_event option" where
  "load_event self m n =
     (case m (event_key (es_hex self) n) of
        None \<Rightarrow> None
      | Some bytes \<Rightarrow> result_ok (from_slice (es_event_json self) bytes))"

definition event_state_ok :: "('s, 'v) private_event_store \<Rightarrow> (string \<Rightarrow> 'v option) \<Rightarrow> bool" where
  "event_state_ok self m \<longleftrightarrow> (\<exists>a. event_rep self m a \<and> event_inv a)"

subsection \<open>Keys and the representation\<close>

lemmas event_key_defs = event_key_def contract_selector_index_key_def event_block_index_key_def

lemma event_keys_distinct [simp]:
  "event_key H n \<noteq> contract_selector_index_key H c e"
  "contract_selector_index_key H c e \<noteq> event_key H n"
  "\<not> prefix event_block_prefix (event_key H n)"
  "\<not> prefix event_block_prefix (contract_selector_index_key H c e)"
  "event_key H n \<noteq> event_block_prefix @ s"
  "contract_selector_index_key H c e \<noteq> event_block_prefix @ s"
  by (auto simp: event_key_defs event_block_prefix_def)

lemmas event_keys_distinct_sym [simp] = event_keys_distinct(5-6)[symmetric]

lemma selector_field_inject [simp]: "selector_field e = selector_field e' \<longleftrightarrow> e = e'"
  by (cases e; cases e') simp

lemma event_keys_inject [simp]:
  assumes "hex_ok H"
  shows "event_key H n = event_key H n' \<longleftrightarrow> n = n'"
    and "contract_selector_index_key H c e = contract_selector_index_key H c' e' \<longleftrightarrow> c = c' \<and> e = e'"
  using assms by (auto simp: event_key_defs)

lemma event_repD:
  assumes "event_rep self m a"
  shows "m (event_key (es_hex self) n) =
      map_option (to_vec (es_event_json self)) (abs_events a n)"
    and "m (contract_selector_index_key (es_hex self) c e) = map_option (to_vec (es_index_json self))
      (map_option (map (fr_display (es_hex self))) (abs_group a (c, e)))"
    and "m (event_block_index_key b) = map_option (to_vec (es_index_json self))
      (map_option (map (fr_display (es_hex self))) (abs_event_block a b))"
  using assms by (auto simp: event_rep_def event_block_index_key_def block_index_lookup)

lemma event_rep_set_event:
  assumes "event_rep self m a" and "hex_ok (es_hex self)"
  shows "event_rep self (m(event_key (es_hex self) n := map_option (to_vec (es_event_json self)) x))
    (a\<lparr>abs_events := (abs_events a)(n := x)\<rparr>)"
  using assms by (auto simp: event_rep_def intro!: block_index_other)

lemma event_rep_set_group:
  assumes "event_rep self m a" and "hex_ok (es_hex self)"
  shows "event_rep self
    (m(contract_selector_index_key (es_hex self) c e :=
       map_option (to_vec (es_index_json self)) (map_option (map (fr_display (es_hex self))) l)))
    (a\<lparr>abs_group := (abs_group a)((c, e) := l)\<rparr>)"
  using assms by (auto simp: event_rep_def intro!: block_index_other)

lemma event_rep_set_block:
  assumes "event_rep self m a"
  shows "event_rep self
    (m(event_block_prefix @ u64_display b :=
       map_option (to_vec (es_index_json self)) (map_option (map (fr_display (es_hex self))) l)))
    (a\<lparr>abs_event_block := (abs_event_block a)(b := l)\<rparr>)"
proof -
  let ?f = "map_option (map (fr_display (es_hex self)))"
  have "block_index (es_index_json self) event_block_prefix m (\<lambda>b. ?f (abs_event_block a b))"
    using assms by (simp add: event_rep_def)
  from block_index_set[OF this, of b "?f l"]
  have "block_index (es_index_json self) event_block_prefix
      (m(event_block_prefix @ u64_display b := map_option (to_vec (es_index_json self)) (?f l)))
      (\<lambda>b'. ?f (((abs_event_block a)(b := l)) b'))"
    by (simp add: fun_upd_def if_distrib cong: if_cong)
  then show ?thesis
    using assms by (auto simp: event_rep_def)
qed

lemma event_store_okD:
  assumes "event_store_ok self"
  shows "hex_ok (es_hex self)" and "serde_ok (es_event_json self)" and "serde_ok (es_index_json self)"
  using assms by (simp_all add: event_store_ok_def)

lemma load_event_rep:
  "event_store_ok self \<Longrightarrow> event_rep self m a \<Longrightarrow> load_event self m = abs_events a"
  by (auto simp: load_event_def event_repD event_store_okD fun_eq_iff split: option.splits)

lemma event_state_okI: "event_rep self m a \<Longrightarrow> event_inv a \<Longrightarrow> event_state_ok self m"
  by (auto simp: event_state_ok_def)

lemma event_push_scope_simps [simp]:
  "ev_siloed_event_commitment (event_push_scope scope x) = ev_siloed_event_commitment x"
  "ev_contract_address (event_push_scope scope x) = ev_contract_address x"
  "ev_event_selector (event_push_scope scope x) = ev_event_selector x"
  "ev_l2_block_number (event_push_scope scope x) = ev_l2_block_number x"
  "event_group (event_push_scope scope x) = event_group x"
  by (simp_all add: event_push_scope_def event_group_def)

subsection \<open>The operations refine the abstract store\<close>

context kv_laws
begin

lemma wp_add_to_contract_selector_index:
  assumes self: "es_kv self = K" and ok: "event_store_ok self"
    and inv: "invar s" and rep: "event_rep self (lookup s) a"
    and Q: "\<And>s'. invar s' \<Longrightarrow> event_rep self (lookup s') (a\<lparr>abs_group := (abs_group a)
      ((c, e) \<mapsto> index_add n (index_entries (abs_group a (c, e))))\<rparr>) \<Longrightarrow> Q () s'"
  shows "wp (add_to_contract_selector_index self c e n) Q s"
  unfolding add_to_contract_selector_index_def self
proof (rule wp_add_to_index[OF inv event_store_okD(3)[OF ok] event_repD(2)[OF rep]], rule Q)
  fix s'
  assume "lookup s' = (lookup s)(contract_selector_index_key (es_hex self) c e \<mapsto>
    to_vec (es_index_json self) (index_add (fr_display (es_hex self) n)
      (index_entries (map_option (map (fr_display (es_hex self))) (abs_group a (c, e))))))"
  then show "event_rep self (lookup s') (a\<lparr>abs_group := (abs_group a)
      ((c, e) \<mapsto> index_add n (index_entries (abs_group a (c, e))))\<rparr>)"
    using event_rep_set_group[OF rep, of c e "Some (index_add n (index_entries (abs_group a (c, e))))"]
    by (simp add: index_add_display event_store_okD[OF ok])
qed

lemma wp_event_add_to_block_index:
  assumes self: "es_kv self = K" and ok: "event_store_ok self"
    and inv: "invar s" and rep: "event_rep self (lookup s) a"
    and Q: "\<And>s'. invar s' \<Longrightarrow> event_rep self (lookup s') (a\<lparr>abs_event_block := (abs_event_block a)
      (b \<mapsto> index_add n (index_entries (abs_event_block a b)))\<rparr>) \<Longrightarrow> Q () s'"
  shows "wp (event_add_to_block_index self b n) Q s"
  unfolding event_add_to_block_index_def self
proof (rule wp_add_to_index[OF inv event_store_okD(3)[OF ok] event_repD(3)[OF rep]], rule Q)
  fix s'
  assume "lookup s' = (lookup s)(event_block_index_key b \<mapsto>
    to_vec (es_index_json self) (index_add (fr_display (es_hex self) n)
      (index_entries (map_option (map (fr_display (es_hex self))) (abs_event_block a b)))))"
  then show "event_rep self (lookup s') (a\<lparr>abs_event_block := (abs_event_block a)
      (b \<mapsto> index_add n (index_entries (abs_event_block a b)))\<rparr>)"
    using event_rep_set_block[OF rep, of b "Some (index_add n (index_entries (abs_event_block a b)))"]
    by (simp add: index_add_display event_store_okD[OF ok] event_block_index_key_def)
qed

lemma wp_remove_from_contract_selector_index:
  assumes self: "es_kv self = K" and ok: "event_store_ok self"
    and inv: "invar s" and rep: "event_rep self (lookup s) a"
    and Q: "\<And>s'. invar s' \<Longrightarrow> event_rep self (lookup s') (a\<lparr>abs_group := (abs_group a)
      ((c, e) := index_remove n (abs_group a (c, e)))\<rparr>) \<Longrightarrow> Q () s'"
  shows "wp (remove_from_contract_selector_index self c e n) Q s"
  unfolding remove_from_contract_selector_index_def self
proof (rule wp_remove_from_index[OF inv event_store_okD(3)[OF ok] event_repD(2)[OF rep]], rule Q)
  fix s'
  assume "lookup s' = (lookup s)(contract_selector_index_key (es_hex self) c e :=
    map_option (to_vec (es_index_json self)) (index_remove (fr_display (es_hex self) n)
      (map_option (map (fr_display (es_hex self))) (abs_group a (c, e)))))"
  then show "event_rep self (lookup s') (a\<lparr>abs_group := (abs_group a)
      ((c, e) := index_remove n (abs_group a (c, e)))\<rparr>)"
    using event_rep_set_group[OF rep, of c e "index_remove n (abs_group a (c, e))"]
    by (simp add: index_remove_map[OF fr_display_inj] event_store_okD[OF ok])
qed

lemma wp_put_event:
  assumes ok: "event_store_ok self" and inv: "invar s" and rep: "event_rep self (lookup s) a"
    and Q: "\<And>s'. invar s' \<Longrightarrow>
      event_rep self (lookup s') (a\<lparr>abs_events := (abs_events a)(n \<mapsto> x)\<rparr>) \<Longrightarrow> Q () s'"
  shows "wp (kv_put K (event_key (es_hex self) n) (to_vec (es_event_json self) x)) Q s"
  using event_rep_set_event[OF rep event_store_okD(1)[OF ok], of n "Some x"]
  by (intro wp_put[OF inv] Q) simp_all

lemma wp_delete_event:
  assumes ok: "event_store_ok self" and inv: "invar s" and rep: "event_rep self (lookup s) a"
    and Q: "\<And>s'. invar s' \<Longrightarrow>
      event_rep self (lookup s') (a\<lparr>abs_events := (abs_events a)(n := None)\<rparr>) \<Longrightarrow> Q () s'"
  shows "wp (kv_delete K (event_key (es_hex self) n)) Q s"
  using event_rep_set_event[OF rep event_store_okD(1)[OF ok], of n None]
  by (intro wp_delete[OF inv] Q) simp_all

lemma wp_store_event_rep:
  assumes self: "es_kv self = K" and ok: "event_store_ok self"
    and inv: "invar s" and rep: "event_rep self (lookup s) a"
    and Q: "\<And>s'. invar s' \<Longrightarrow> event_rep self (lookup s') (abs_store_event scope event a) \<Longrightarrow> Q () s'"
  shows "wp (store_private_event_log self event scope) Q s"
proof (cases "abs_events a (ev_siloed_event_commitment event)")
  case None
  then show ?thesis
    unfolding store_private_event_log_def self Let_def wp_seq wp_get[OF inv] using Q
    by (auto simp: event_repD[OF rep] abs_store_event_def Let_def event_group_def
        intro!: wp_put_event[OF ok inv rep] wp_add_to_contract_selector_index[OF self ok]
          wp_event_add_to_block_index[OF self ok])
next
  case (Some x)
  then show ?thesis
    unfolding store_private_event_log_def self Let_def wp_seq wp_get[OF inv] using Q
    by (auto simp: event_repD[OF rep] abs_store_event_def Let_def event_store_okD[OF ok]
        intro!: wp_put_event[OF ok inv rep])
qed

lemma wp_event_rollback_delete:
  assumes self: "es_kv self = K" and ok: "event_store_ok self"
    and inv: "invar s" and rep: "event_rep self (lookup s) a"
    and Q: "\<And>s'. invar s' \<Longrightarrow> event_rep self (lookup s') (abs_delete_event n a) \<Longrightarrow> Q () s'"
  shows "wp (event_rollback_delete self (fr_display (es_hex self) n)) Q s"
proof (cases "abs_events a n")
  case None
  then have "a\<lparr>abs_events := (abs_events a)(n := None)\<rparr> = a"
    by (auto intro!: event_abs.equality)
  with None Q show ?thesis
    by (auto simp: event_rollback_delete_def event_store_okD[OF ok] self Let_def wp_get[OF inv]
        event_repD[OF rep] abs_delete_event_def intro!: wp_delete_event[OF ok inv rep])
next
  case (Some x)
  then show ?thesis
    using Q by (auto simp: event_rollback_delete_def event_store_okD[OF ok] self Let_def
        wp_get[OF inv] event_repD[OF rep] abs_delete_event_def event_group_def
        intro!: wp_remove_from_contract_selector_index[OF self ok inv rep] wp_delete_event[OF ok])
qed

end

subsection \<open>The invariant\<close>

text \<open>Groups are pairs; statements about all groups stay about pairs.\<close>

declare split_paired_All [simp del] split_paired_Ex [simp del]

lemma event_invD:
  assumes "event_inv a"
  shows "abs_events a n = Some x \<Longrightarrow> ev_siloed_event_commitment x = n"
    and "n \<in> set (index_entries (abs_group a g)) \<longleftrightarrow> (\<exists>x. abs_events a n = Some x \<and> event_group x = g)"
    and "distinct (index_entries (abs_group a g))"
    and "n \<in> set (index_entries (abs_event_block a b)) \<longleftrightarrow>
      (\<exists>x. abs_events a n = Some x \<and> ev_l2_block_number x = b)"
  using assms by (simp_all add: event_inv_def)

lemma event_inv_store:
  assumes inv: "event_inv a"
  shows "event_inv (abs_store_event scope event a)"
proof (cases "abs_events a (ev_siloed_event_commitment event)")
  case (Some x)
  then show ?thesis
    using event_invD[OF inv]
    by (auto simp: abs_store_event_def Let_def event_inv_def split: if_splits)
next
  case None
  then have "ev_siloed_event_commitment event \<notin> set (index_entries (abs_event_block a b))"
    and "ev_siloed_event_commitment event \<notin> set (index_entries (abs_group a g))" for b g
    by (simp_all add: event_invD(2,4)[OF inv])
  then show ?thesis
    using None event_invD[OF inv]
    by (auto simp: abs_store_event_def Let_def event_inv_def split: if_splits)
qed

text \<open>
  What deleting a set of events leaves: the events, and the groups up to the order of their
  lists. The block index is handled by the caller, which drops whole blocks.
\<close>

definition events_deleted :: "event_abs \<Rightarrow> fr set \<Rightarrow> event_abs \<Rightarrow> bool" where
  "events_deleted a L a' \<longleftrightarrow>
     abs_events a' = (\<lambda>n. if n \<in> L then None else abs_events a n) \<and>
     (\<forall>g n. n \<in> set (index_entries (abs_group a' g)) \<longleftrightarrow>
        (\<exists>x. abs_events a' n = Some x \<and> event_group x = g)) \<and>
     (\<forall>g. distinct (index_entries (abs_group a' g)))"

lemma events_deleted_step:
  assumes "events_deleted a L a'"
  shows "events_deleted a (insert n L) (abs_delete_event n a') \<and>
    abs_event_block (abs_delete_event n a') = abs_event_block a'"
  using assms
  by (cases "abs_events a' n")
    (auto simp: events_deleted_def abs_delete_event_def fun_eq_iff distinct_index_remove split: if_splits)

lemma events_deleted_fold:
  "events_deleted a L a' \<Longrightarrow>
   events_deleted a (set ns \<union> L) (fold abs_delete_event ns a') \<and>
   abs_event_block (fold abs_delete_event ns a') = abs_event_block a'"
proof (induction ns arbitrary: L a')
  case (Cons m ns)
  from events_deleted_step[OF Cons.prems, of m]
    Cons.IH[of "insert m L" "abs_delete_event m a'"] show ?case by simp
qed simp

text \<open>The store after dropping the blocks of \<open>D\<close>.\<close>

definition blocks_dropped :: "event_abs \<Rightarrow> u64 set \<Rightarrow> event_abs \<Rightarrow> bool" where
  "blocks_dropped a D a' \<longleftrightarrow>
     events_deleted a (listed (abs_event_block a) D) a' \<and>
     abs_event_block a' = (\<lambda>c. if c \<in> D then None else abs_event_block a c)"

lemma blocks_dropped_empty: "event_inv a \<Longrightarrow> blocks_dropped a {} a"
  by (auto simp: blocks_dropped_def events_deleted_def event_invD)

lemma blocks_dropped_insert:
  assumes "blocks_dropped a D a'" and "abs_event_block a c = Some ns"
  shows "blocks_dropped a (insert c D) ((fold abs_delete_event ns a')
    \<lparr>abs_event_block := (abs_event_block (fold abs_delete_event ns a'))(c := None)\<rparr>)"
  using assms events_deleted_fold[of a "listed (abs_event_block a) D" a' ns]
  by (auto simp: blocks_dropped_def events_deleted_def fun_eq_iff)

lemma blocks_dropped_final:
  assumes inv: "event_inv a"
    and dropped: "blocks_dropped a {c. b < c \<and> abs_event_block a c \<noteq> None} a'"
  shows "abs_events a' n = (case abs_events a n of None \<Rightarrow> None
      | Some x \<Rightarrow> if b < ev_l2_block_number x then None else Some x)" (is ?events)
    and "event_inv a'" (is ?inv)
proof -
  have listed: "n \<in> listed (abs_event_block a) {c. b < c \<and> abs_event_block a c \<noteq> None} \<longleftrightarrow>
      (\<exists>x. abs_events a n = Some x \<and> b < ev_l2_block_number x)" for n
    unfolding listed_iff by (auto simp: event_invD(4)[OF inv])
  have events: "abs_events a' n = (case abs_events a n of None \<Rightarrow> None
      | Some x \<Rightarrow> if b < ev_l2_block_number x then None else Some x)" for n
    using dropped listed[of n]
    by (auto simp: blocks_dropped_def events_deleted_def split: option.splits)
  then show ?events .
  have blocks: "set (index_entries (abs_event_block a' c)) =
      (if b < c then {} else set (index_entries (abs_event_block a c)))" for c
    using dropped by (cases "abs_event_block a c") (auto simp: blocks_dropped_def)
  have "(\<forall>g n. n \<in> set (index_entries (abs_group a' g)) \<longleftrightarrow>
      (\<exists>x. abs_events a' n = Some x \<and> event_group x = g)) \<and>
      (\<forall>g. distinct (index_entries (abs_group a' g)))"
    using dropped by (simp add: blocks_dropped_def events_deleted_def)
  then show ?inv
    unfolding event_inv_def blocks
    by (auto simp: events event_invD(4)[OF inv] split: option.splits if_splits
        dest: event_invD(1)[OF inv])
qed

subsection \<open>The operations on a well-formed store\<close>

text \<open>The effect on the events of storing one.\<close>

definition stored_event ::
    "aztec_address \<Rightarrow> stored_private_event \<Rightarrow> (fr \<Rightarrow> stored_private_event option) \<Rightarrow>
     fr \<Rightarrow> stored_private_event option" where
  "stored_event scope event m =
     m(ev_siloed_event_commitment event \<mapsto> event_push_scope scope
        (case m (ev_siloed_event_commitment event) of None \<Rightarrow> event | Some x \<Rightarrow> x))"

lemma abs_events_store: "abs_events (abs_store_event scope event a) = stored_event scope event (abs_events a)"
  by (auto simp: abs_store_event_def Let_def stored_event_def split: option.splits)

lemma event_state_ok_empty: "event_state_ok self Map.empty"
proof (rule event_state_okI)
  let ?a = "\<lparr>abs_events = Map.empty, abs_group = Map.empty, abs_event_block = Map.empty\<rparr>"
  show "event_rep self Map.empty ?a" by (simp add: event_rep_def block_index_def)
  show "event_inv ?a" by (simp add: event_inv_def)
qed

context kv_laws
begin

lemma wp_store_private_event_log:
  assumes self: "es_kv self = K" and ok: "event_store_ok self"
    and inv: "invar s" and state: "event_state_ok self (lookup s)"
    and Q: "\<And>s'. invar s' \<Longrightarrow> event_state_ok self (lookup s') \<Longrightarrow>
      load_event self (lookup s') = stored_event scope event (load_event self (lookup s)) \<Longrightarrow> Q () s'"
  shows "wp (store_private_event_log self event scope) Q s"
proof -
  from state obtain a where rep: "event_rep self (lookup s) a" and einv: "event_inv a"
    by (auto simp: event_state_ok_def)
  show ?thesis
  proof (rule wp_store_event_rep[OF self ok inv rep])
    fix s'
    assume "invar s'" and rep': "event_rep self (lookup s') (abs_store_event scope event a)"
    then show "Q () s'"
      using event_inv_store[OF einv]
      by (intro Q) (auto simp: load_event_rep[OF ok rep'] load_event_rep[OF ok rep] abs_events_store
          intro: event_state_okI)
  qed
qed

lemma wp_load_events:
  assumes self: "es_kv self = K" and ok: "event_store_ok self"
    and inv: "invar s" and rep: "event_rep self (lookup s) a"
    and Q: "Q (filter (event_matches filt) (List.map_filter (abs_events a) ns)) s"
  shows "wp (load_events self filt (map (fr_display (es_hex self)) ns)) Q s"
  using Q
proof (induction ns arbitrary: Q)
  case Nil
  then show ?case by (simp add: map_filter_simps)
next
  case (Cons n ns)
  then show ?case
    using ok event_repD(1)[OF rep, of n]
    by (cases "abs_events a n")
      (auto simp: event_store_okD wp_get[OF inv] self map_filter_simps)
qed

lemma wp_get_private_events:
  assumes self: "es_kv self = K" and ok: "event_store_ok self"
    and inv: "invar s" and state: "event_state_ok self (lookup s)"
    and Q: "\<And>xs. sorted (map event_position xs) \<Longrightarrow> distinct (map ev_siloed_event_commitment xs) \<Longrightarrow>
      set xs = {x. (\<exists>n. load_event self (lookup s) n = Some x) \<and> event_matches filt x \<and>
        event_group x = (qf_contract_address filt, selector)} \<Longrightarrow> Q xs s"
  shows "wp (get_private_events self selector filt) Q s"
proof -
  from state obtain a where rep: "event_rep self (lookup s) a" and einv: "event_inv a"
    by (auto simp: event_state_ok_def)
  let ?g = "(qf_contract_address filt, selector)"
  let ?ns = "index_entries (abs_group a ?g)"
  let ?xs = "List.map_filter (abs_events a) ?ns"
  have "map ev_siloed_event_commitment ?xs = ?ns"
    using event_invD(1)[OF einv] by (intro map_filter_ids) (auto simp: event_invD(2)[OF einv])
  then have dist: "distinct (map ev_siloed_event_commitment ?xs)"
    using event_invD(3)[OF einv] by simp
  have "Q (sort_key event_position (filter (event_matches filt) ?xs)) s"
  proof (rule Q)
    show "distinct (map ev_siloed_event_commitment
        (sort_key event_position (filter (event_matches filt) ?xs)))"
      using dist by (auto simp: distinct_map intro: inj_on_subset)
  qed (auto simp: set_map_filter load_event_rep[OF ok rep] event_invD(2)[OF einv])
  then show ?thesis
    using ok event_repD(2)[OF rep, of "qf_contract_address filt" selector]
    by (cases "abs_group a ?g")
      (auto simp: get_private_events_def wp_get[OF inv] self event_store_okD map_filter_simps
        intro: wp_load_events[OF self ok inv rep])
qed

lemma wp_event_rollback:
  assumes self: "es_kv self = K" and ok: "event_store_ok self"
    and inv: "invar s" and state: "event_state_ok self (lookup s)"
    and Q: "\<And>s'. invar s' \<Longrightarrow> event_state_ok self (lookup s') \<Longrightarrow>
      load_event self (lookup s') = (\<lambda>n. case load_event self (lookup s) n of None \<Rightarrow> None
        | Some x \<Rightarrow> if b < ev_l2_block_number x then None else Some x) \<Longrightarrow> Q () s'"
  shows "wp (event_rollback self b sb) Q s"
proof -
  from state obtain a where rep: "event_rep self (lookup s) a" and einv: "event_inv a"
    by (auto simp: event_state_ok_def)
  let ?f = "map_option (map (fr_display (es_hex self)))"
  have some: "?f x \<noteq> None \<longleftrightarrow> x \<noteq> None" for x by simp
  show ?thesis
    unfolding event_rollback_def self
  proof (rule wp_prune_index[OF inv event_store_okD(3)[OF ok], where
        I = "\<lambda>D s. invar s \<and> (\<exists>a'. event_rep self (lookup s) a' \<and> blocks_dropped a D a')"
        and idx = "\<lambda>c. ?f (abs_event_block a c)"])
    show "block_index (es_index_json self) event_block_prefix (lookup s) (\<lambda>c. ?f (abs_event_block a c))"
      using rep by (simp add: event_rep_def)
    show "invar s \<and> (\<exists>a'. event_rep self (lookup s) a' \<and> blocks_dropped a {} a')"
      using inv rep blocks_dropped_empty[OF einv] by auto
  next
    fix s'
    assume "invar s' \<and> (\<exists>a'. event_rep self (lookup s') a' \<and>
      blocks_dropped a {bn. b < bn \<and> ?f (abs_event_block a bn) \<noteq> None} a')"
    then obtain a' where "invar s'" and rep': "event_rep self (lookup s') a'"
      and dropped: "blocks_dropped a {bn. b < bn \<and> abs_event_block a bn \<noteq> None} a'"
      unfolding some by auto
    then show "Q () s'"
      using blocks_dropped_final[OF einv dropped]
      by (intro Q) (auto simp: load_event_rep[OF ok rep'] load_event_rep[OF ok rep]
          intro: event_state_okI)
  next
    fix D c l t
    assume l: "?f (abs_event_block a c) = Some l"
      and "invar t \<and> (\<exists>a'. event_rep self (lookup t) a' \<and> blocks_dropped a D a')"
    then obtain a' ns where I: "invar t \<and> event_rep self (lookup t) a'"
      and dropped: "blocks_dropped a D a'" and ns: "abs_event_block a c = Some ns"
      and ll: "l = map (fr_display (es_hex self)) ns" by auto
    let ?a = "(fold abs_delete_event ns a')
      \<lparr>abs_event_block := (abs_event_block (fold abs_delete_event ns a'))(c := None)\<rparr>"
    show "wp (seq (for_each (event_rollback_delete self) l)
        (\<lambda>_. kv_delete K (event_block_prefix @ u64_display c)))
        (\<lambda>_ t. invar t \<and> (\<exists>a'. event_rep self (lookup t) a' \<and> blocks_dropped a (insert c D) a')) t"
      using event_rep_set_block[of self _ "fold abs_delete_event ns a'" c None]
        blocks_dropped_insert[OF dropped ns]
      by (auto simp: ll for_each_map intro!: wp_delete exI[of _ ?a]
          wp_for_each_fold[where R = "\<lambda>s a. invar s \<and> event_rep self (lookup s) a", OF _ I]
          elim!: wp_event_rollback_delete[OF self ok])
  qed
qed

end

subsection \<open>A concrete store\<close>

type_synonym event_value = "stored_private_event + string list"

definition example_event_store :: "(event_value btree, event_value) private_event_store" where
  "example_event_store =
     \<lparr>es_kv = in_memory_kv, es_hex = plain_hex, es_event_json = left_json,
      es_index_json = right_json\<rparr>"

definition example_event :: "u64 \<Rightarrow> fr \<Rightarrow> stored_private_event" where
  "example_event block commitment =
     \<lparr>ev_event_selector = EventSelector 1, ev_randomness = 2, ev_msg_content = [3],
      ev_siloed_event_commitment = commitment, ev_contract_address = aztec_address_zero,
      ev_scopes = [AztecAddress 4], ev_tx_hash = tx_hash_zero, ev_l2_block_number = block,
      ev_l2_block_hash = ''0x0'', ev_tx_index_in_block = Some 0, ev_event_index_in_tx = Some 0\<rparr>"

definition example_event_kv :: "event_value btree" where
  "example_event_kv = snd (store_private_event_log example_event_store (example_event 3 7)
     (AztecAddress 4) [])"

definition example_query :: private_event_query_filter where
  "example_query =
     \<lparr>qf_contract_address = aztec_address_zero, qf_from_block = Some 1, qf_to_block = Some 3,
      qf_scopes = [AztecAddress 4], qf_tx_hash = None\<rparr>"

lemma example_event_store_ok [simp]:
  "event_store_ok example_event_store" "es_kv example_event_store = in_memory_kv"
  by (simp_all add: event_store_ok_def example_event_store_def)

lemma example_event_kv_ok:
  "btree_ok example_event_kv \<and> event_state_ok example_event_store (map_of example_event_kv) \<and>
   load_event example_event_store (map_of example_event_kv) = [7 \<mapsto> example_event 3 7]"
proof -
  have "wp (store_private_event_log example_event_store (example_event 3 7) (AztecAddress 4))
      (\<lambda>_ kv. btree_ok kv \<and> event_state_ok example_event_store (map_of kv) \<and>
        load_event example_event_store (map_of kv) = [7 \<mapsto> example_event 3 7]) []"
    by (rule mem.wp_store_private_event_log)
      (auto simp: event_state_ok_empty stored_event_def event_push_scope_def example_event_def
        load_event_def fun_eq_iff)
  then show ?thesis unfolding wp_iff example_event_kv_def by auto
qed

lemmas example_event_simps =
  example_event_kv_ok[THEN conjunct1] example_event_kv_ok[THEN conjunct2, THEN conjunct1]
  example_event_kv_ok[THEN conjunct2, THEN conjunct2]

subsection \<open>Properties\<close>

text \<open>
  Storing an event for a scope succeeds and keeps the store well formed: an event already
  stored keeps every field and gains the scope, a new one is stored with the scope, no other
  event changes.
\<close>

lemma store_event_correct:
  assumes "es_kv self = in_memory_kv" and "event_store_ok self" and "btree_ok kv"
    and "event_state_ok self (map_of kv)"
  shows "\<exists>kv'. store_private_event_log self event scope kv = (Inr (), kv') \<and> btree_ok kv' \<and>
    event_state_ok self (map_of kv') \<and>
    load_event self (map_of kv') = (load_event self (map_of kv))(ev_siloed_event_commitment event \<mapsto>
      event_push_scope scope (case load_event self (map_of kv) (ev_siloed_event_commitment event) of
        None \<Rightarrow> event | Some x \<Rightarrow> x))"
proof -
  have "wp (store_private_event_log self event scope) (\<lambda>_ kv'. btree_ok kv' \<and>
    event_state_ok self (map_of kv') \<and>
    load_event self (map_of kv') = stored_event scope event (load_event self (map_of kv))) kv"
    using assms by (intro mem.wp_store_private_event_log) auto
  then show ?thesis unfolding wp_iff stored_event_def by auto
qed

text \<open>
  A query of private events succeeds without changing the store and returns exactly the
  stored events of the contract and selector that match the filter, each once, ordered by block,
  transaction and position.
\<close>

lemma get_private_events_correct:
  assumes "es_kv self = in_memory_kv" and "event_store_ok self" and "btree_ok kv"
    and "event_state_ok self (map_of kv)"
  shows "\<exists>xs. get_private_events self selector filt kv = (Inr xs, kv) \<and>
    sorted (map event_position xs) \<and> distinct (map ev_siloed_event_commitment xs) \<and>
    set xs = {x. (\<exists>n. load_event self (map_of kv) n = Some x) \<and> event_matches filt x \<and>
      ev_contract_address x = qf_contract_address filt \<and> ev_event_selector x = selector}"
proof -
  have "wp (get_private_events self selector filt) (\<lambda>xs kv'. kv' = kv \<and>
    sorted (map event_position xs) \<and> distinct (map ev_siloed_event_commitment xs) \<and>
    set xs = {x. (\<exists>n. load_event self (map_of kv) n = Some x) \<and> event_matches filt x \<and>
      ev_contract_address x = qf_contract_address filt \<and> ev_event_selector x = selector}) kv"
    using assms by (intro mem.wp_get_private_events) (auto simp: event_group_def)
  then show ?thesis unfolding wp_iff by auto
qed

text \<open>
  C10. A rollback of the event store to block \<open>b\<close> succeeds, keeps the store well formed, deletes
  exactly the events of later blocks and leaves every other event unchanged.
\<close>

theorem event_rollback_correct:
  assumes "es_kv self = in_memory_kv" and "event_store_ok self" and "btree_ok kv"
    and "event_state_ok self (map_of kv)"
  shows "\<exists>kv'. event_rollback self b synced kv = (Inr (), kv') \<and> btree_ok kv' \<and>
    event_state_ok self (map_of kv') \<and>
    load_event self (map_of kv') = (\<lambda>n. case load_event self (map_of kv) n of None \<Rightarrow> None
        | Some x \<Rightarrow> if b < ev_l2_block_number x then None else Some x)"
proof -
  have "wp (event_rollback self b synced) (\<lambda>_ kv'. btree_ok kv' \<and> event_state_ok self (map_of kv') \<and>
    load_event self (map_of kv') = (\<lambda>n. case load_event self (map_of kv) n of None \<Rightarrow> None
        | Some x \<Rightarrow> if b < ev_l2_block_number x then None else Some x)) kv"
    using assms by (intro mem.wp_event_rollback) auto
  then show ?thesis unfolding wp_iff by auto
qed

theorem event_rollback_correct_witness:
  "\<exists>kv'. event_rollback example_event_store 2 5 example_event_kv = (Inr (), kv') \<and>
     load_event example_event_store (map_of kv') 7 = None"
  using event_rollback_correct[of example_event_store example_event_kv 2 5]
  by (auto simp: example_event_simps example_event_def)

end
