(* ===== verification/Tagging_Stores.thy ===== *)
theory Tagging_Stores
  imports Kv_Store
begin

text \<open>
  The tagging indexes (\<open>crates/pxe/src/stores/sender_tagging_store.rs\<close> and
  \<open>recipient_tagging_store.rs\<close>). Per tagging secret the sender side keeps the last finalized
  index and the list of pending indexes with the transaction that used them; the recipient side
  keeps the highest aged and the highest finalized index.

  The abstract state of each store is a pair of finite maps keyed by the secret. Additions on
  \<open>u64\<close> are those of a build with overflow checks: they panic instead of wrapping.
\<close>

subsection \<open>Data\<close>

definition unfinalized_tagging_indexes_window_len :: u64 where
  "unfinalized_tagging_indexes_window_len = 20"

record pending_tag_index =
  pt_index :: u64
  pt_tx_hash :: tx_hash

record pre_tag =
  pre_secret :: fr
  pre_index :: u64
  pre_tx_hash :: tx_hash

record ('s, 'v) sender_tagging_store =
  st_kv :: "('s, 'v) kv_store"
  st_hex :: hex_crate
  st_pending_json :: "(pending_tag_index list, 'v) serde"
  st_index_json :: "(u64, 'v) serde"

record ('s, 'v) recipient_tagging_store =
  rt_kv :: "('s, 'v) kv_store"
  rt_hex :: hex_crate
  rt_index_json :: "(u64, 'v) serde"

subsection \<open>The sender side\<close>

definition pending_prefix :: string where
  "pending_prefix = ''sender_tag:pending:''"

definition finalized_prefix :: string where
  "finalized_prefix = ''sender_tag:finalized:''"

definition pending_key :: "hex_crate \<Rightarrow> fr \<Rightarrow> string" where
  "pending_key H secret = pending_prefix @ fr_display H secret"

definition finalized_key :: "hex_crate \<Rightarrow> fr \<Rightarrow> string" where
  "finalized_key H secret = finalized_prefix @ fr_display H secret"

definition get_pending_indexes ::
    "('s, 'v) sender_tagging_store \<Rightarrow> fr \<Rightarrow> ('s, pending_tag_index list) op" where
  "get_pending_indexes self secret =
     seq (kv_get (st_kv self) (pending_key (st_hex self) secret)) (\<lambda>found.
       case found of
         Some bytes \<Rightarrow> lift_result (from_slice (st_pending_json self) bytes)
       | None \<Rightarrow> ret [])"

definition get_last_finalized_index ::
    "('s, 'v) sender_tagging_store \<Rightarrow> fr \<Rightarrow> ('s, u64) op" where
  "get_last_finalized_index self secret =
     seq (kv_get (st_kv self) (finalized_key (st_hex self) secret)) (\<lambda>found.
       case found of
         Some bytes \<Rightarrow> lift_result (from_slice (st_index_json self) bytes)
       | None \<Rightarrow> ret 0)"

text \<open>One iteration of the second loop of \<open>store_pending_indexes\<close>.\<close>

definition store_pending_step ::
    "('s, 'v) sender_tagging_store \<Rightarrow> pre_tag \<Rightarrow> ('s, unit) op" where
  "store_pending_step self tag =
     seq (get_last_finalized_index self (pre_secret tag)) (\<lambda>finalized.
     seq (lift_result (checked_add finalized unfinalized_tagging_indexes_window_len)) (\<lambda>limit.
       if pre_index tag > limit
       then fail (InvalidData ''pending index is too far ahead of finalized index'')
       else if pre_index tag \<le> finalized
       then fail (InvalidData ''pending index is not greater than finalized index'')
       else
         seq (get_pending_indexes self (pre_secret tag)) (\<lambda>existing.
           if list_ex (\<lambda>entry. pt_tx_hash entry = pre_tx_hash tag \<and> pt_index entry \<noteq> pre_index tag)
                existing
           then fail (InvalidData ''conflicting pending index'')
           else
             let entry = \<lparr>pt_index = pre_index tag, pt_tx_hash = pre_tx_hash tag\<rparr>;
                 pending = filter (\<lambda>e. pt_tx_hash e \<noteq> pre_tx_hash tag) existing @ [entry]
             in kv_put (st_kv self) (pending_key (st_hex self) (pre_secret tag))
                  (to_vec (st_pending_json self) pending))))"

definition store_pending_indexes ::
    "('s, 'v) sender_tagging_store \<Rightarrow> pre_tag list \<Rightarrow> ('s, unit) op" where
  "store_pending_indexes self pre_tags =
     (if \<not> distinct (map pre_secret pre_tags)
      then fail (InvalidData ''duplicate secret in pre-tags'')
      else for_each (store_pending_step self) pre_tags)"

definition get_tx_hashes_of_pending_indexes ::
    "('s, 'v) sender_tagging_store \<Rightarrow> fr \<Rightarrow> u64 \<Rightarrow> u64 \<Rightarrow> ('s, tx_hash list) op" where
  "get_tx_hashes_of_pending_indexes self secret from_index to_index =
     seq (get_pending_indexes self secret) (\<lambda>pending.
       ret (map pt_tx_hash (filter (\<lambda>e. pt_index e \<ge> from_index \<and> pt_index e \<le> to_index) pending)))"

definition max_pending :: "pending_tag_index list \<Rightarrow> u64" where
  "max_pending pending = fold max (map pt_index pending) 0"

definition get_last_used_index :: "('s, 'v) sender_tagging_store \<Rightarrow> fr \<Rightarrow> ('s, u64) op" where
  "get_last_used_index self secret =
     seq (get_last_finalized_index self secret) (\<lambda>finalized.
     seq (get_pending_indexes self secret) (\<lambda>pending.
       ret (max finalized (max_pending pending))))"

definition get_next_index :: "('s, 'v) sender_tagging_store \<Rightarrow> fr \<Rightarrow> ('s, u64) op" where
  "get_next_index self secret =
     seq (get_last_used_index self secret) (\<lambda>last_index.
     seq (lift_result (checked_add last_index 1)) (\<lambda>next_index.
     seq (get_pending_indexes self secret) (\<lambda>pending.
     seq (kv_put (st_kv self) (pending_key (st_hex self) secret)
           (to_vec (st_pending_json self)
             (pending @ [\<lparr>pt_index = next_index, pt_tx_hash = tx_hash_zero\<rparr>]))) (\<lambda>_.
       ret next_index))))"

definition drop_pending_entry ::
    "('s, 'v) sender_tagging_store \<Rightarrow> tx_hash list \<Rightarrow> string \<times> 'v \<Rightarrow> ('s, unit) op" where
  "drop_pending_entry self tx_hashes = (\<lambda>(key, value).
     seq (lift_result (from_slice (st_pending_json self) value)) (\<lambda>pending.
       let kept = filter (\<lambda>e. pt_tx_hash e \<notin> set tx_hashes) pending in
       if length kept \<noteq> length pending then
         (if kept = [] then kv_delete (st_kv self) key
          else kv_put (st_kv self) key (to_vec (st_pending_json self) kept))
       else ret ()))"

definition drop_pending_indexes ::
    "('s, 'v) sender_tagging_store \<Rightarrow> tx_hash list \<Rightarrow> ('s, unit) op" where
  "drop_pending_indexes self tx_hashes =
     seq (kv_list_prefix (st_kv self) pending_prefix) (for_each (drop_pending_entry self tx_hashes))"

definition finalize_pending_indexes ::
    "('s, 'v) sender_tagging_store \<Rightarrow> fr \<Rightarrow> u64 \<Rightarrow> ('s, unit) op" where
  "finalize_pending_indexes self secret up_to_index =
     seq (get_last_finalized_index self secret) (\<lambda>current.
     seq (if up_to_index > current
          then kv_put (st_kv self) (finalized_key (st_hex self) secret)
                 (to_vec (st_index_json self) up_to_index)
          else ret ()) (\<lambda>_.
     seq (get_pending_indexes self secret) (\<lambda>pending.
       let kept = filter (\<lambda>e. pt_index e > up_to_index) pending;
           key = pending_key (st_hex self) secret
       in if kept = [] then kv_delete (st_kv self) key
          else kv_put (st_kv self) key (to_vec (st_pending_json self) kept))))"

fun collect_pending ::
    "('s, 'v) sender_tagging_store \<Rightarrow> (string \<times> 'v) list \<Rightarrow> (fr \<Rightarrow> pending_tag_index list option) \<Rightarrow>
     (fr \<Rightarrow> pending_tag_index list option) result" where
  "collect_pending self [] acc = Inr acc"
| "collect_pending self ((key, value) # rest) acc =
     (case strip_prefix pending_prefix key of
        None \<Rightarrow> collect_pending self rest acc
      | Some secret_str \<Rightarrow>
          (case fr_from_hex (st_hex self) secret_str of
             Inl e \<Rightarrow> collect_pending self rest acc
           | Inr secret \<Rightarrow>
               bind_result (from_slice (st_pending_json self) value) (\<lambda>pending.
                 collect_pending self rest (acc(secret \<mapsto> pending)))))"

definition get_all_pending ::
    "('s, 'v) sender_tagging_store \<Rightarrow> ('s, fr \<Rightarrow> pending_tag_index list option) op" where
  "get_all_pending self =
     seq (kv_list_prefix (st_kv self) pending_prefix) (\<lambda>entries.
       lift_result (collect_pending self entries Map.empty))"

subsection \<open>The recipient side\<close>

definition aged_key :: "hex_crate \<Rightarrow> fr \<Rightarrow> string" where
  "aged_key H secret = ''recipient_tag:aged:'' @ fr_display H secret"

definition recipient_finalized_key :: "hex_crate \<Rightarrow> fr \<Rightarrow> string" where
  "recipient_finalized_key H secret = ''recipient_tag:finalized:'' @ fr_display H secret"

definition get_highest_index_at ::
    "('s, 'v) recipient_tagging_store \<Rightarrow> string \<Rightarrow> ('s, u64) op" where
  "get_highest_index_at self key =
     seq (kv_get (rt_kv self) key) (\<lambda>found.
       case found of
         Some bytes \<Rightarrow> lift_result (from_slice (rt_index_json self) bytes)
       | None \<Rightarrow> ret 0)"

definition get_highest_aged_index :: "('s, 'v) recipient_tagging_store \<Rightarrow> fr \<Rightarrow> ('s, u64) op" where
  "get_highest_aged_index self secret = get_highest_index_at self (aged_key (rt_hex self) secret)"

definition update_highest_aged_index ::
    "('s, 'v) recipient_tagging_store \<Rightarrow> fr \<Rightarrow> u64 \<Rightarrow> ('s, unit) op" where
  "update_highest_aged_index self secret index =
     seq (get_highest_aged_index self secret) (\<lambda>current.
       if index > current
       then kv_put (rt_kv self) (aged_key (rt_hex self) secret) (to_vec (rt_index_json self) index)
       else ret ())"

definition get_highest_finalized_index ::
    "('s, 'v) recipient_tagging_store \<Rightarrow> fr \<Rightarrow> ('s, u64) op" where
  "get_highest_finalized_index self secret =
     get_highest_index_at self (recipient_finalized_key (rt_hex self) secret)"

definition update_highest_finalized_index ::
    "('s, 'v) recipient_tagging_store \<Rightarrow> fr \<Rightarrow> u64 \<Rightarrow> ('s, unit) op" where
  "update_highest_finalized_index self secret index =
     seq (get_highest_finalized_index self secret) (\<lambda>current.
       if index < current then fail (InvalidData ''cannot lower finalized index'')
       else if index > current
       then kv_put (rt_kv self) (recipient_finalized_key (rt_hex self) secret)
              (to_vec (rt_index_json self) index)
       else ret ())"

subsection \<open>The abstract sender store\<close>

record tag_abs =
  abs_pending :: "fr \<Rightarrow> pending_tag_index list option"
  abs_finalized :: "fr \<Rightarrow> u64 option"

definition tag_store_ok :: "('s, 'v) sender_tagging_store \<Rightarrow> bool" where
  "tag_store_ok self \<longleftrightarrow>
     hex_ok (st_hex self) \<and> serde_ok (st_pending_json self) \<and> serde_ok (st_index_json self)"

definition tag_rep :: "('s, 'v) sender_tagging_store \<Rightarrow> (string \<Rightarrow> 'v option) \<Rightarrow> tag_abs \<Rightarrow> bool" where
  "tag_rep self m a \<longleftrightarrow>
     (\<forall>s. m (pending_key (st_hex self) s) =
        map_option (to_vec (st_pending_json self)) (abs_pending a s)) \<and>
     (\<forall>s. m (finalized_key (st_hex self) s) =
        map_option (to_vec (st_index_json self)) (abs_finalized a s)) \<and>
     (\<forall>k. prefix pending_prefix k \<longrightarrow> m k \<noteq> None \<longrightarrow> (\<exists>s. k = pending_key (st_hex self) s))"

definition pending_of :: "tag_abs \<Rightarrow> fr \<Rightarrow> pending_tag_index list" where
  "pending_of a s = (case abs_pending a s of None \<Rightarrow> [] | Some l \<Rightarrow> l)"

definition finalized_of :: "tag_abs \<Rightarrow> fr \<Rightarrow> u64" where
  "finalized_of a s = (case abs_finalized a s of None \<Rightarrow> 0 | Some i \<Rightarrow> i)"

definition last_used :: "tag_abs \<Rightarrow> fr \<Rightarrow> u64" where
  "last_used a s = max (finalized_of a s) (max_pending (pending_of a s))"

text \<open>Every pending index lies after the finalized index of its secret.\<close>

definition tag_inv :: "tag_abs \<Rightarrow> bool" where
  "tag_inv a \<longleftrightarrow> (\<forall>s. \<forall>e \<in> set (pending_of a s). finalized_of a s < pt_index e)"

definition set_pending :: "fr \<Rightarrow> pending_tag_index list \<Rightarrow> tag_abs \<Rightarrow> tag_abs" where
  "set_pending s l a = a\<lparr>abs_pending := (abs_pending a)(s := if l = [] then None else Some l)\<rparr>"

text \<open>The checks of \<open>store_pending_indexes\<close> for one tag, and its effect.\<close>

definition tag_acceptable :: "tag_abs \<Rightarrow> pre_tag \<Rightarrow> bool" where
  "tag_acceptable a tag \<longleftrightarrow>
     unat (finalized_of a (pre_secret tag)) < unat (pre_index tag) \<and>
     unat (pre_index tag) \<le> unat (finalized_of a (pre_secret tag)) + 20 \<and>
     unat (finalized_of a (pre_secret tag)) + 20 < 2 ^ 64 \<and>
     (\<forall>e \<in> set (pending_of a (pre_secret tag)).
        pt_tx_hash e = pre_tx_hash tag \<longrightarrow> pt_index e = pre_index tag)"

definition abs_store_tag :: "pre_tag \<Rightarrow> tag_abs \<Rightarrow> tag_abs" where
  "abs_store_tag tag a =
     set_pending (pre_secret tag)
       (filter (\<lambda>e. pt_tx_hash e \<noteq> pre_tx_hash tag) (pending_of a (pre_secret tag)) @
        [\<lparr>pt_index = pre_index tag, pt_tx_hash = pre_tx_hash tag\<rparr>]) a"

definition abs_finalize :: "fr \<Rightarrow> u64 \<Rightarrow> tag_abs \<Rightarrow> tag_abs" where
  "abs_finalize s i a =
     set_pending s (filter (\<lambda>e. i < pt_index e) (pending_of a s))
       (a\<lparr>abs_finalized := (abs_finalized a)
           (s := if finalized_of a s < i then Some i else abs_finalized a s)\<rparr>)"

definition abs_drop :: "tx_hash set \<Rightarrow> tag_abs \<Rightarrow> tag_abs" where
  "abs_drop T a =
     a\<lparr>abs_pending := (\<lambda>s. case abs_pending a s of
         None \<Rightarrow> None
       | Some l \<Rightarrow> let kept = filter (\<lambda>e. pt_tx_hash e \<notin> T) l in
           if length kept = length l then Some l else if kept = [] then None else Some kept)\<rparr>"

subsection \<open>Keys and the representation\<close>

lemma tag_keys_distinct [simp]:
  "pending_key H s \<noteq> finalized_key H' s'"
  "finalized_key H' s' \<noteq> pending_key H s"
  "prefix pending_prefix (pending_key H s)"
  "\<not> prefix pending_prefix (finalized_key H s)"
  by (auto simp: pending_key_def finalized_key_def pending_prefix_def finalized_prefix_def)

lemma tag_keys_inject [simp]:
  assumes "hex_ok H"
  shows "pending_key H s = pending_key H s' \<longleftrightarrow> s = s'"
    and "finalized_key H s = finalized_key H s' \<longleftrightarrow> s = s'"
  using assms by (simp_all add: pending_key_def finalized_key_def)

lemma tag_store_okD:
  assumes "tag_store_ok self"
  shows "hex_ok (st_hex self)" and "serde_ok (st_pending_json self)" and "serde_ok (st_index_json self)"
  using assms by (simp_all add: tag_store_ok_def)

lemma tag_repD:
  assumes "tag_rep self m a"
  shows "m (pending_key (st_hex self) s) = map_option (to_vec (st_pending_json self)) (abs_pending a s)"
    and "m (finalized_key (st_hex self) s) = map_option (to_vec (st_index_json self)) (abs_finalized a s)"
  using assms by (simp_all add: tag_rep_def)

lemma tag_rep_set_pending:
  assumes "tag_rep self m a" and "hex_ok (st_hex self)"
  shows "tag_rep self
    (m(pending_key (st_hex self) s := map_option (to_vec (st_pending_json self)) l))
    (a\<lparr>abs_pending := (abs_pending a)(s := l)\<rparr>)"
  using assms by (auto simp: tag_rep_def)

lemma tag_rep_set_finalized:
  assumes "tag_rep self m a" and "hex_ok (st_hex self)"
  shows "tag_rep self
    (m(finalized_key (st_hex self) s := map_option (to_vec (st_index_json self)) i))
    (a\<lparr>abs_finalized := (abs_finalized a)(s := i)\<rparr>)"
  using assms by (auto simp: tag_rep_def)

lemma pending_of_set_pending [simp]:
  "pending_of (set_pending s l a) s' = (if s' = s then l else pending_of a s')"
  by (simp add: pending_of_def set_pending_def)

lemma finalized_of_set_pending [simp]: "finalized_of (set_pending s l a) = finalized_of a"
  by (simp add: finalized_of_def set_pending_def fun_eq_iff)

lemma pending_of_finalized: "pending_of (a\<lparr>abs_finalized := f\<rparr>) = pending_of a"
  by (simp add: pending_of_def fun_eq_iff)

lemma finalized_of_abs_finalize [simp]:
  "finalized_of (abs_finalize s i a) s' = (if s' = s then max (finalized_of a s) i else finalized_of a s')"
  by (simp add: abs_finalize_def) (auto simp: finalized_of_def max_def)

lemma pending_of_abs_finalize [simp]:
  "pending_of (abs_finalize s i a) s' =
     (if s' = s then filter (\<lambda>e. i < pt_index e) (pending_of a s) else pending_of a s')"
  by (simp add: abs_finalize_def pending_of_finalized)

lemma pending_of_abs_drop [simp]:
  "pending_of (abs_drop T a) s = filter (\<lambda>e. pt_tx_hash e \<notin> T) (pending_of a s)"
  by (cases "abs_pending a s") (auto simp: abs_drop_def pending_of_def Let_def filter_same_length)

lemma finalized_of_abs_drop [simp]: "finalized_of (abs_drop T a) = finalized_of a"
  by (simp add: abs_drop_def finalized_of_def fun_eq_iff)

lemma fold_max: "fold max xs (b :: 'a :: linorder) = Max (insert b (set xs))"
  by (simp add: Max.set_eq_fold[symmetric])

lemma max_pending_ge: "e \<in> set l \<Longrightarrow> pt_index e \<le> max_pending l"
  by (simp add: max_pending_def fold_max)

lemma last_used_ge:
  "finalized_of a s \<le> last_used a s"
  "e \<in> set (pending_of a s) \<Longrightarrow> pt_index e \<le> last_used a s"
  using max_pending_ge[of e "pending_of a s"] by (auto simp: last_used_def le_max_iff_disj)

lemma max_pending_snoc [simp]: "max_pending (l @ [e]) = max (max_pending l) (pt_index e)"
  by (simp add: max_pending_def max.commute)

lemma last_used_snoc:
  "finalized_of a s < i \<Longrightarrow> max_pending (pending_of a s) < i \<Longrightarrow>
   last_used (set_pending s (pending_of a s @ [\<lparr>pt_index = i, pt_tx_hash = t\<rparr>]) a) s = i"
  by (simp add: last_used_def max_absorb2)

subsection \<open>The sender operations refine the abstract store\<close>

context kv_laws
begin

lemma wp_get_pending_indexes:
  assumes "st_kv self = K" and "tag_store_ok self" and "invar s" and "tag_rep self (lookup s) a"
    and "Q (pending_of a secret) s"
  shows "wp (get_pending_indexes self secret) Q s"
  using assms
  by (cases "abs_pending a secret")
    (simp_all add: get_pending_indexes_def wp_get tag_repD tag_store_okD pending_of_def)

lemma wp_get_last_finalized_index:
  assumes "st_kv self = K" and "tag_store_ok self" and "invar s" and "tag_rep self (lookup s) a"
    and "Q (finalized_of a secret) s"
  shows "wp (get_last_finalized_index self secret) Q s"
  using assms
  by (cases "abs_finalized a secret")
    (simp_all add: get_last_finalized_index_def wp_get tag_repD tag_store_okD finalized_of_def)

lemma wp_put_pending:
  assumes ok: "tag_store_ok self" and inv: "invar s" and rep: "tag_rep self (lookup s) a" and l: "l \<noteq> []"
    and Q: "\<And>s'. invar s' \<Longrightarrow> tag_rep self (lookup s') (set_pending secret l a) \<Longrightarrow> Q () s'"
  shows "wp (kv_put K (pending_key (st_hex self) secret) (to_vec (st_pending_json self) l)) Q s"
  using tag_rep_set_pending[OF rep tag_store_okD(1)[OF ok], of secret "Some l"] l
  by (intro wp_put[OF inv] Q) (simp_all add: set_pending_def)

lemma wp_delete_pending:
  assumes ok: "tag_store_ok self" and inv: "invar s" and rep: "tag_rep self (lookup s) a"
    and Q: "\<And>s'. invar s' \<Longrightarrow> tag_rep self (lookup s') (set_pending secret [] a) \<Longrightarrow> Q () s'"
  shows "wp (kv_delete K (pending_key (st_hex self) secret)) Q s"
  using tag_rep_set_pending[OF rep tag_store_okD(1)[OF ok], of secret None]
  by (intro wp_delete[OF inv] Q) (simp_all add: set_pending_def)

lemma wp_put_finalized:
  assumes ok: "tag_store_ok self" and inv: "invar s" and rep: "tag_rep self (lookup s) a"
    and Q: "\<And>s'. invar s' \<Longrightarrow>
      tag_rep self (lookup s') (a\<lparr>abs_finalized := (abs_finalized a)(secret \<mapsto> i)\<rparr>) \<Longrightarrow> Q () s'"
  shows "wp (kv_put K (finalized_key (st_hex self) secret) (to_vec (st_index_json self) i)) Q s"
  using tag_rep_set_finalized[OF rep tag_store_okD(1)[OF ok], of secret "Some i"]
  by (intro wp_put[OF inv] Q) simp_all

lemma wp_store_pending_step:
  assumes self: "st_kv self = K" and ok: "tag_store_ok self" and inv: "invar s"
    and rep: "tag_rep self (lookup s) a" and acc: "tag_acceptable a tag"
    and Q: "\<And>s'. invar s' \<Longrightarrow> tag_rep self (lookup s') (abs_store_tag tag a) \<Longrightarrow> Q () s'"
  shows "wp (store_pending_step self tag) Q s"
proof -
  let ?f = "finalized_of a (pre_secret tag)"
  have add: "checked_add ?f unfinalized_tagging_indexes_window_len =
      Inr (?f + unfinalized_tagging_indexes_window_len)"
    using acc by (simp add: tag_acceptable_def checked_add_def unfinalized_tagging_indexes_window_len_def)
  have lim: "\<not> ?f + unfinalized_tagging_indexes_window_len < pre_index tag"
    using acc unat_checked_add[OF add]
    by (simp add: tag_acceptable_def word_less_nat_alt unfinalized_tagging_indexes_window_len_def)
  have low: "\<not> pre_index tag \<le> ?f"
    using acc by (simp add: tag_acceptable_def word_le_nat_alt)
  have conf: "\<not> list_ex (\<lambda>e. pt_tx_hash e = pre_tx_hash tag \<and> pt_index e \<noteq> pre_index tag)
      (pending_of a (pre_secret tag))"
    using acc by (auto simp: tag_acceptable_def list_ex_iff)
  show ?thesis
    unfolding store_pending_step_def wp_seq
    by (rule wp_get_last_finalized_index[OF self ok inv rep])
      (simp add: add lim low, rule wp_get_pending_indexes[OF self ok inv rep],
        simp add: conf Let_def self, rule wp_put_pending[OF ok inv rep],
        simp_all add: Q abs_store_tag_def)
qed

lemma wp_get_last_used_index:
  assumes self: "st_kv self = K" and ok: "tag_store_ok self" and inv: "invar s"
    and rep: "tag_rep self (lookup s) a" and Q: "Q (last_used a secret) s"
  shows "wp (get_last_used_index self secret) Q s"
  unfolding get_last_used_index_def wp_seq
  by (rule wp_get_last_finalized_index[OF self ok inv rep],
      rule wp_get_pending_indexes[OF self ok inv rep]) (use Q in \<open>simp add: last_used_def\<close>)

lemma wp_get_next_index:
  assumes self: "st_kv self = K" and ok: "tag_store_ok self" and inv: "invar s"
    and rep: "tag_rep self (lookup s) a" and room: "unat (last_used a secret) + 1 < 2 ^ 64"
    and Q: "\<And>s'. invar s' \<Longrightarrow> tag_rep self (lookup s') (set_pending secret
      (pending_of a secret @ [\<lparr>pt_index = last_used a secret + 1, pt_tx_hash = tx_hash_zero\<rparr>]) a) \<Longrightarrow>
      Q (last_used a secret + 1) s'"
  shows "wp (get_next_index self secret) Q s"
proof -
  have add: "checked_add (last_used a secret) 1 = Inr (last_used a secret + 1)"
    using room by (simp add: checked_add_def)
  show ?thesis
    unfolding get_next_index_def wp_seq
    by (rule wp_get_last_used_index[OF self ok inv rep])
      (simp add: add self, rule wp_get_pending_indexes[OF self ok inv rep],
        rule wp_put_pending[OF ok inv rep], simp_all add: Q)
qed

lemma wp_finalize_pending_indexes:
  assumes self: "st_kv self = K" and ok: "tag_store_ok self" and inv: "invar s"
    and rep: "tag_rep self (lookup s) a"
    and Q: "\<And>s'. invar s' \<Longrightarrow> tag_rep self (lookup s') (abs_finalize secret i a) \<Longrightarrow> Q () s'"
  shows "wp (finalize_pending_indexes self secret i) Q s"
proof -
  let ?a = "a\<lparr>abs_finalized := (abs_finalized a)
      (secret := if finalized_of a secret < i then Some i else abs_finalized a secret)\<rparr>"
  have pend: "pending_of ?a secret = pending_of a secret" by (simp add: pending_of_def)
  have rest: "wp (get_pending_indexes self secret) (\<lambda>pending s.
      wp (let kept = filter (\<lambda>e. i < pt_index e) pending; key = pending_key (st_hex self) secret
        in if kept = [] then kv_delete (st_kv self) key
           else kv_put (st_kv self) key (to_vec (st_pending_json self) kept)) Q s) s'"
    if "invar s'" "tag_rep self (lookup s') ?a" for s'
    by (rule wp_get_pending_indexes[OF self ok that])
      (auto simp: Let_def self pend Q abs_finalize_def
        intro!: wp_delete_pending[OF ok that] wp_put_pending[OF ok that])
  have same: "\<not> finalized_of a secret < i \<Longrightarrow> ?a = a" by simp
  show ?thesis
    unfolding finalize_pending_indexes_def wp_seq
    by (rule wp_get_last_finalized_index[OF self ok inv rep])
      (use same rest rest[OF inv] rep in \<open>auto simp: self intro!: wp_put_finalized[OF ok inv rep]\<close>)
qed

lemma store_pending_step_rejects:
  assumes self: "st_kv self = K" and ok: "tag_store_ok self" and inv: "invar s"
    and rep: "tag_rep self (lookup s) a" and rej: "\<not> tag_acceptable a tag"
  shows "\<exists>e. store_pending_step self tag s = (Inl e, s)"
proof -
  let ?f = "finalized_of a (pre_secret tag)" and ?w = unfinalized_tagging_indexes_window_len
  have gets: "get_last_finalized_index self (pre_secret tag) s = (Inr ?f, s)"
    "get_pending_indexes self (pre_secret tag) s = (Inr (pending_of a (pre_secret tag)), s)"
    using wp_get_last_finalized_index[OF self ok inv rep, of "\<lambda>x s'. x = ?f \<and> s' = s" "pre_secret tag"]
      wp_get_pending_indexes[OF self ok inv rep, of "\<lambda>x s'. x = pending_of a (pre_secret tag) \<and> s' = s"]
    by (auto simp: wp_iff)
  show ?thesis
  proof (cases "checked_add ?f ?w")
    case (Inl e)
    then show ?thesis by (simp add: store_pending_step_def seq_def gets lift_result_def)
  next
    case (Inr limit)
    then have "unat limit = unat ?f + 20" and "unat ?f + 20 < 2 ^ 64"
      using unat_checked_add[OF Inr]
      by (auto simp: checked_add_Inr_iff unfinalized_tagging_indexes_window_len_def)
    then have "limit < pre_index tag \<or> pre_index tag \<le> ?f \<or>
        list_ex (\<lambda>e. pt_tx_hash e = pre_tx_hash tag \<and> pt_index e \<noteq> pre_index tag)
          (pending_of a (pre_secret tag))"
      using rej unfolding tag_acceptable_def word_less_nat_alt word_le_nat_alt list_ex_iff
      by (metis not_less)
    with Inr show ?thesis
      by (auto simp: store_pending_step_def seq_def gets lift_result_def fail_def)
  qed
qed

lemma wp_store_pending_indexes:
  assumes self: "st_kv self = K" and ok: "tag_store_ok self"
    and dist: "distinct (map pre_secret tags)"
  shows "invar s \<Longrightarrow> tag_rep self (lookup s) a \<Longrightarrow> (\<And>tag. tag \<in> set tags \<Longrightarrow> tag_acceptable a tag) \<Longrightarrow>
    (\<And>s'. invar s' \<Longrightarrow> tag_rep self (lookup s') (fold abs_store_tag tags a) \<Longrightarrow> Q () s') \<Longrightarrow>
    wp (store_pending_indexes self tags) Q s"
  using dist
proof (induction tags arbitrary: s a)
  case Nil
  then show ?case by (simp add: store_pending_indexes_def)
next
  case (Cons tag tags)
  have later: "tag_acceptable (abs_store_tag tag a) t" if "t \<in> set tags" for t
  proof -
    have "pre_secret t \<noteq> pre_secret tag" using Cons.prems(5) that by (auto simp: image_iff)
    moreover have "tag_acceptable a t" using Cons.prems(3) that by simp
    ultimately show ?thesis by (simp add: tag_acceptable_def abs_store_tag_def)
  qed
  have "wp (store_pending_step self tag) (\<lambda>_. wp (store_pending_indexes self tags) Q) s"
    using Cons.prems
    by (intro wp_store_pending_step[OF self ok Cons.prems(1,2)] Cons.IH[OF _ _ later]) auto
  then show ?case
    using Cons.prems(5) by (simp add: store_pending_indexes_def)
qed

lemma wp_drop_pending_indexes:
  assumes self: "st_kv self = K" and ok: "tag_store_ok self" and inv: "invar s"
    and rep: "tag_rep self (lookup s) a"
    and Q: "\<And>s'. invar s' \<Longrightarrow> tag_rep self (lookup s') (abs_drop (set txs) a) \<Longrightarrow> Q () s'"
  shows "wp (drop_pending_indexes self txs) Q s"
  unfolding drop_pending_indexes_def wp_seq self
proof (rule wp_list_prefix[OF inv])
  fix es
  assume srt: "sorted_wrt (<) (map fst es)"
    and es: "\<And>k v. (k, v) \<in> set es \<longleftrightarrow> prefix pending_prefix k \<and> lookup s k = Some v"
  let ?key = "pending_key (st_hex self)" and ?J = "st_pending_json self"
  define part where "part ys = a\<lparr>abs_pending := (\<lambda>s. if ?key s \<in> fst ` set ys
    then abs_pending (abs_drop (set txs) a) s else abs_pending a s)\<rparr>" for ys :: "(string \<times> 'v) list"
  have entry: "\<exists>sec l. k = ?key sec \<and> abs_pending a sec = Some l \<and> v = to_vec ?J l"
    if "(k, v) \<in> set es" for k v
  proof -
    from that es have "prefix pending_prefix k" and kv: "lookup s k = Some v" by auto
    then obtain sec where "k = ?key sec" using rep unfolding tag_rep_def by (metis option.discI)
    with kv tag_repD(1)[OF rep, of sec] show ?thesis by auto
  qed
  show "wp (for_each (drop_pending_entry self txs) es) Q s"
  proof (rule wp_for_each[where I = "\<lambda>ys s. invar s \<and> tag_rep self (lookup s) (part ys)"])
    show "invar s \<and> tag_rep self (lookup s) (part [])" using inv rep by (simp add: part_def)
  next
    fix t assume "invar t \<and> tag_rep self (lookup t) (part es)"
    moreover have "abs_pending a sec = None" if "?key sec \<notin> fst ` set es" for sec
    proof (cases "abs_pending a sec")
      case (Some l)
      then have "(?key sec, to_vec ?J l) \<in> set es"
        using tag_repD(1)[OF rep, of sec] by (simp add: es)
      with that show ?thesis by force
    qed
    then have "part es = abs_drop (set txs) a"
      by (auto simp: part_def abs_drop_def fun_eq_iff intro!: tag_abs.equality)
    ultimately show "Q () t" using Q by simp
  next
    fix ys e zs t
    assume split: "es = ys @ e # zs" and I: "invar t \<and> tag_rep self (lookup t) (part ys)"
    obtain k v where e: "e = (k, v)" by (cases e)
    from entry[of k v] split e obtain sec l
      where k: "k = ?key sec" and l: "abs_pending a sec = Some l" and v: "v = to_vec ?J l" by auto
    have fresh: "?key sec \<notin> fst ` set ys"
      using srt split e k by (auto simp: sorted_wrt_append)
    have snoc: "part (ys @ [e]) = (part ys)\<lparr>abs_pending := (abs_pending (part ys))
        (sec := abs_pending (abs_drop (set txs) a) sec)\<rparr>"
      using tag_store_okD(1)[OF ok] by (auto simp: part_def e k fun_eq_iff intro!: tag_abs.equality)
    have inv': "invar t" and rep': "tag_rep self (lookup t) (part ys)" using I by auto
    have cur: "abs_pending (part ys) sec = Some l" using fresh l by (simp add: part_def)
    have set: "tag_rep self ((lookup t)(k := map_option (to_vec ?J) x))
        ((part ys)\<lparr>abs_pending := (abs_pending (part ys))(sec := x)\<rparr>)" for x
      unfolding k by (rule tag_rep_set_pending[OF rep' tag_store_okD(1)[OF ok]])
    have same: "(part ys)\<lparr>abs_pending := (abs_pending (part ys))(sec \<mapsto> l)\<rparr> = part ys"
      using cur by (simp add: map_upd_triv)
    show "wp (drop_pending_entry self txs e) (\<lambda>_ s. invar s \<and> tag_rep self (lookup s) (part (ys @ [e]))) t"
      unfolding snoc
      using set[of None] set[of "Some (filter (\<lambda>e. pt_tx_hash e \<notin> set txs) l)"] same inv' rep'
      by (auto simp: drop_pending_entry_def e v Let_def tag_store_okD[OF ok] self abs_drop_def l
          intro!: wp_put[OF inv'] wp_delete[OF inv'])
  qed
qed

end

subsection \<open>The invariant\<close>

lemma tag_inv_store: "tag_inv a \<Longrightarrow> tag_acceptable a tag \<Longrightarrow> tag_inv (abs_store_tag tag a)"
  by (auto simp: tag_inv_def abs_store_tag_def tag_acceptable_def word_less_nat_alt)

lemma tag_inv_next:
  assumes "tag_inv a" and "unat (last_used a s) + 1 < 2 ^ 64"
  shows "last_used a s < last_used a s + 1"
    and "tag_inv (set_pending s (pending_of a s @ [\<lparr>pt_index = last_used a s + 1, pt_tx_hash = t\<rparr>]) a)"
proof -
  show less: "last_used a s < last_used a s + 1"
    using assms(2) by (simp add: word_less_nat_alt unat_word_ariths)
  have "finalized_of a s < last_used a s + 1"
    using last_used_ge(1)[of a s] less by (rule le_less_trans)
  with assms(1) show "tag_inv (set_pending s
      (pending_of a s @ [\<lparr>pt_index = last_used a s + 1, pt_tx_hash = t\<rparr>]) a)"
    by (auto simp: tag_inv_def)
qed

lemma tag_inv_finalize: "tag_inv a \<Longrightarrow> tag_inv (abs_finalize s i a)"
  by (auto simp: tag_inv_def)

lemma tag_inv_drop: "tag_inv a \<Longrightarrow> tag_inv (abs_drop T a)"
  by (auto simp: tag_inv_def)

subsection \<open>The abstraction function\<close>

definition tag_view :: "('s, 'v) sender_tagging_store \<Rightarrow> (string \<Rightarrow> 'v option) \<Rightarrow> tag_abs" where
  "tag_view self m =
     \<lparr>abs_pending = (\<lambda>s. Option.bind (m (pending_key (st_hex self) s))
        (\<lambda>bytes. result_ok (from_slice (st_pending_json self) bytes))),
      abs_finalized = (\<lambda>s. Option.bind (m (finalized_key (st_hex self) s))
        (\<lambda>bytes. result_ok (from_slice (st_index_json self) bytes)))\<rparr>"

definition tag_state_ok :: "('s, 'v) sender_tagging_store \<Rightarrow> (string \<Rightarrow> 'v option) \<Rightarrow> bool" where
  "tag_state_ok self m \<longleftrightarrow> tag_rep self m (tag_view self m) \<and> tag_inv (tag_view self m)"

lemma tag_view_rep: "tag_store_ok self \<Longrightarrow> tag_rep self m a \<Longrightarrow> tag_view self m = a"
  by (rule tag_abs.equality)
    (auto simp: tag_view_def tag_repD tag_store_okD fun_eq_iff Option.bind_map_option comp_def)

lemma tag_state_okI: "tag_store_ok self \<Longrightarrow> tag_rep self m a \<Longrightarrow> tag_inv a \<Longrightarrow> tag_state_ok self m"
  by (simp add: tag_state_ok_def tag_view_rep)

lemma tag_state_okD:
  assumes "tag_state_ok self m"
  shows "tag_rep self m (tag_view self m)" and "tag_inv (tag_view self m)"
  using assms by (simp_all add: tag_state_ok_def)

lemma tag_state_ok_empty: "tag_state_ok self Map.empty"
  by (simp add: tag_state_ok_def tag_rep_def tag_inv_def tag_view_def pending_of_def)

lemma tag_inv_fold:
  "tag_inv a \<Longrightarrow> distinct (map pre_secret tags) \<Longrightarrow> (\<And>tag. tag \<in> set tags \<Longrightarrow> tag_acceptable a tag) \<Longrightarrow>
   tag_inv (fold abs_store_tag tags a)"
proof (induction tags arbitrary: a)
  case (Cons tag tags)
  have "tag_acceptable (abs_store_tag tag a) t" if "t \<in> set tags" for t
  proof -
    have "pre_secret t \<noteq> pre_secret tag" using Cons.prems(2) that by (auto simp: image_iff)
    moreover have "tag_acceptable a t" using Cons.prems(3) that by simp
    ultimately show ?thesis by (simp add: tag_acceptable_def abs_store_tag_def)
  qed
  with Cons show ?case by (simp add: tag_inv_store)
qed simp

subsection \<open>A concrete store\<close>

type_synonym tag_value = "pending_tag_index list + u64"

definition example_tag_store :: "(tag_value btree, tag_value) sender_tagging_store" where
  "example_tag_store =
     \<lparr>st_kv = in_memory_kv, st_hex = plain_hex, st_pending_json = left_json,
      st_index_json = right_json\<rparr>"

lemma example_tag_store_ok [simp]:
  "tag_store_ok example_tag_store" "st_kv example_tag_store = in_memory_kv"
  by (simp_all add: tag_store_ok_def example_tag_store_def)

definition example_tag_kv :: "tag_value btree" where
  "example_tag_kv = [(pending_key plain_hex 5,
     Inl [\<lparr>pt_index = 1, pt_tx_hash = tx_hash_zero\<rparr>, \<lparr>pt_index = 4, pt_tx_hash = TxHash (replicate 32 1)\<rparr>])]"

lemma example_tag_kv_ok:
  "btree_ok example_tag_kv"
  "tag_state_ok example_tag_store (map_of example_tag_kv)"
  "tag_view example_tag_store (map_of example_tag_kv) = \<lparr>abs_pending =
    [5 \<mapsto> [\<lparr>pt_index = 1, pt_tx_hash = tx_hash_zero\<rparr>, \<lparr>pt_index = 4, pt_tx_hash = TxHash (replicate 32 1)\<rparr>]],
    abs_finalized = Map.empty\<rparr>" (is "_ = ?a")
proof -
  have rep: "tag_rep example_tag_store (map_of example_tag_kv) ?a"
    by (auto simp: tag_rep_def example_tag_kv_def example_tag_store_def left_json_def right_json_def)
  moreover have "tag_inv ?a" by (simp add: tag_inv_def pending_of_def finalized_of_def)
  ultimately show "tag_state_ok example_tag_store (map_of example_tag_kv)"
    by (intro tag_state_okI) simp_all
  show "tag_view example_tag_store (map_of example_tag_kv) = ?a"
    by (rule tag_view_rep[OF _ rep]) simp
qed (simp add: btree_ok_def example_tag_kv_def)

lemma tag_view_empty [simp]:
  "pending_of (tag_view self Map.empty) s = []" "finalized_of (tag_view self Map.empty) s = 0"
  by (simp_all add: tag_view_def pending_of_def finalized_of_def)

lemma last_used_empty [simp]: "last_used (tag_view self Map.empty) s = 0"
  by (simp add: last_used_def max_pending_def)

subsection \<open>Properties\<close>

text \<open>
  C5. \<open>get_next_index\<close> hands out a fresh index: it is one more than the last used index, larger
  than the finalized index and every pending index of the secret, it becomes the last used
  index, and no other secret changes. An index is therefore never handed out twice.
\<close>

theorem next_index_fresh:
  assumes "st_kv self = in_memory_kv" and "tag_store_ok self" and "btree_ok kv"
    and "tag_state_ok self (map_of kv)"
    and "unat (last_used (tag_view self (map_of kv)) secret) + 1 < 2 ^ 64"
  shows "\<exists>i kv'. get_next_index self secret kv = (Inr i, kv') \<and> btree_ok kv' \<and>
    tag_state_ok self (map_of kv') \<and>
    finalized_of (tag_view self (map_of kv)) secret < i \<and>
    (\<forall>e \<in> set (pending_of (tag_view self (map_of kv)) secret). pt_index e < i) \<and>
    last_used (tag_view self (map_of kv')) secret = i \<and>
    (\<forall>s. s \<noteq> secret \<longrightarrow> pending_of (tag_view self (map_of kv')) s = pending_of (tag_view self (map_of kv)) s)"
proof -
  let ?a = "tag_view self (map_of kv)" and ?i = "last_used (tag_view self (map_of kv)) secret + 1"
  note rep = tag_state_okD(1)[OF assms(4)] and inv = tag_inv_next[OF tag_state_okD(2)[OF assms(4)] assms(5)]
  have "max_pending (pending_of ?a secret) \<le> last_used ?a secret" by (simp add: last_used_def)
  with last_used_ge[where a = ?a and s = secret] inv(1)
  have low: "finalized_of ?a secret < ?i" "\<forall>e \<in> set (pending_of ?a secret). pt_index e < ?i"
    "max_pending (pending_of ?a secret) < ?i"
    using le_less_trans by blast+
  have "wp (get_next_index self secret) (\<lambda>i kv'. i = ?i \<and> btree_ok kv' \<and> tag_rep self (map_of kv')
      (set_pending secret (pending_of ?a secret @ [\<lparr>pt_index = ?i, pt_tx_hash = tx_hash_zero\<rparr>]) ?a)) kv"
    by (rule mem.wp_get_next_index[OF assms(1-3) rep assms(5)]) auto
  then obtain kv' where run: "get_next_index self secret kv = (Inr ?i, kv')" "btree_ok kv'"
    and rep': "tag_rep self (map_of kv')
      (set_pending secret (pending_of ?a secret @ [\<lparr>pt_index = ?i, pt_tx_hash = tx_hash_zero\<rparr>]) ?a)"
    unfolding wp_iff by auto
  have "last_used (tag_view self (map_of kv')) secret = ?i"
    using last_used_snoc[OF low(1,3)] by (simp add: tag_view_rep[OF assms(2) rep'])
  with run low tag_state_okI[OF assms(2) rep' inv(2)] show ?thesis
    by (intro exI[of _ ?i] exI[of _ kv']) (simp add: tag_view_rep[OF assms(2) rep'])
qed

theorem next_index_fresh_witness:
  "\<exists>i kv'. get_next_index example_tag_store 5 [] = (Inr i, kv') \<and>
     last_used (tag_view example_tag_store (map_of kv')) 5 = i \<and> 0 < i"
  using next_index_fresh[of example_tag_store "[]" 5] by (auto simp: tag_state_ok_empty)

text \<open>
  A batch of pre-tags with distinct secrets, each inside the window after its finalized index
  and not in conflict with a pending entry of the same transaction, is stored: afterwards every
  tag is pending for its secret and the pending indexes still lie after the finalized ones.
\<close>

lemma store_pending_correct:
  assumes "st_kv self = in_memory_kv" and "tag_store_ok self" and "btree_ok kv"
    and "tag_state_ok self (map_of kv)" and "distinct (map pre_secret tags)"
    and "\<forall>tag \<in> set tags. tag_acceptable (tag_view self (map_of kv)) tag"
  shows "\<exists>kv'. store_pending_indexes self tags kv = (Inr (), kv') \<and> btree_ok kv' \<and>
    tag_state_ok self (map_of kv') \<and>
    tag_view self (map_of kv') = fold abs_store_tag tags (tag_view self (map_of kv))"
proof -
  have "wp (store_pending_indexes self tags) (\<lambda>_ kv'. btree_ok kv' \<and>
      tag_rep self (map_of kv') (fold abs_store_tag tags (tag_view self (map_of kv)))) kv"
    using assms(6) by (intro mem.wp_store_pending_indexes[OF assms(1,2,5,3) tag_state_okD(1)[OF assms(4)]]) auto
  moreover have "tag_inv (fold abs_store_tag tags (tag_view self (map_of kv)))"
    using assms(6) by (intro tag_inv_fold[OF tag_state_okD(2)[OF assms(4)] assms(5)]) auto
  ultimately show ?thesis
    unfolding wp_iff by (auto simp: tag_view_rep[OF assms(2)] intro!: tag_state_okI[OF assms(2)])
qed

text \<open>
  A pre-tag that is out of its window or conflicts with a pending entry is rejected, and the
  rejection leaves the store untouched.
\<close>

lemma store_pending_rejects:
  assumes "st_kv self = in_memory_kv" and "tag_store_ok self" and "btree_ok kv"
    and "tag_state_ok self (map_of kv)" and "\<not> tag_acceptable (tag_view self (map_of kv)) tag"
  shows "\<exists>e. store_pending_indexes self [tag] kv = (Inl e, kv)"
proof -
  obtain e where "store_pending_step self tag kv = (Inl e, kv)"
    using mem.store_pending_step_rejects[OF assms(1-3) tag_state_okD(1)[OF assms(4)] assms(5)] by auto
  then show ?thesis by (simp add: store_pending_indexes_def seq_def)
qed

text \<open>
  Finalizing up to an index raises the finalized index to it (never lowers it) and removes
  exactly the pending entries it covers; the other secrets are untouched and the invariant is
  kept.
\<close>

lemma finalize_correct:
  assumes "st_kv self = in_memory_kv" and "tag_store_ok self" and "btree_ok kv"
    and "tag_state_ok self (map_of kv)"
  shows "\<exists>kv'. finalize_pending_indexes self secret i kv = (Inr (), kv') \<and> btree_ok kv' \<and>
    tag_state_ok self (map_of kv') \<and>
    (\<forall>s. finalized_of (tag_view self (map_of kv')) s =
       (let f = finalized_of (tag_view self (map_of kv)) s in if s = secret then max f i else f)) \<and>
    (\<forall>s. pending_of (tag_view self (map_of kv')) s =
       (let l = pending_of (tag_view self (map_of kv)) s
        in if s = secret then filter (\<lambda>e. i < pt_index e) l else l))"
proof -
  have "wp (finalize_pending_indexes self secret i) (\<lambda>_ kv'. btree_ok kv' \<and>
      tag_rep self (map_of kv') (abs_finalize secret i (tag_view self (map_of kv)))) kv"
    by (intro mem.wp_finalize_pending_indexes[OF assms(1-3) tag_state_okD(1)[OF assms(4)]]) auto
  with tag_inv_finalize[OF tag_state_okD(2)[OF assms(4)]] show ?thesis
    unfolding wp_iff by (auto simp: tag_view_rep[OF assms(2)] intro!: tag_state_okI[OF assms(2)])
qed

text \<open>
  Dropping transactions removes exactly their pending entries, for every secret, and keeps
  everything else.
\<close>

lemma drop_correct:
  assumes "st_kv self = in_memory_kv" and "tag_store_ok self" and "btree_ok kv"
    and "tag_state_ok self (map_of kv)"
  shows "\<exists>kv'. drop_pending_indexes self txs kv = (Inr (), kv') \<and> btree_ok kv' \<and>
    tag_state_ok self (map_of kv') \<and>
    finalized_of (tag_view self (map_of kv')) = finalized_of (tag_view self (map_of kv)) \<and>
    (\<forall>s. pending_of (tag_view self (map_of kv')) s =
       filter (\<lambda>e. pt_tx_hash e \<notin> set txs) (pending_of (tag_view self (map_of kv)) s))"
proof -
  have "wp (drop_pending_indexes self txs) (\<lambda>_ kv'. btree_ok kv' \<and>
      tag_rep self (map_of kv') (abs_drop (set txs) (tag_view self (map_of kv)))) kv"
    by (intro mem.wp_drop_pending_indexes[OF assms(1-3) tag_state_okD(1)[OF assms(4)]]) auto
  with tag_inv_drop[OF tag_state_okD(2)[OF assms(4)]] show ?thesis
    unfolding wp_iff by (auto simp: tag_view_rep[OF assms(2)] intro!: tag_state_okI[OF assms(2)])
qed

text \<open>
  The indexes of the recipient side only grow: updating the aged index sets it to the
  maximum of the old and the new value; a lower finalized index is rejected without a write and
  any other is stored.
\<close>

lemma recipient_indexes_monotone:
  assumes "rt_kv self = in_memory_kv" and "serde_ok (rt_index_json self)" and "btree_ok kv"
    and "get_highest_aged_index self secret kv = (Inr aged, kv)"
    and "get_highest_finalized_index self secret kv = (Inr fin, kv)"
  shows "(\<exists>kv'. update_highest_aged_index self secret i kv = (Inr (), kv') \<and>
      get_highest_aged_index self secret kv' = (Inr (max aged i), kv')) \<and>
    (if i < fin then \<exists>e. update_highest_finalized_index self secret i kv = (Inl e, kv)
     else \<exists>kv'. update_highest_finalized_index self secret i kv = (Inr (), kv') \<and>
       get_highest_finalized_index self secret kv' = (Inr i, kv'))"
proof -
  have put: "\<exists>kv'. kv_put in_memory_kv k (to_vec (rt_index_json self) i) kv = (Inr (), kv') \<and>
      get_highest_index_at self k kv' = (Inr i, kv')" for k
  proof -
    have "wp (kv_put in_memory_kv k (to_vec (rt_index_json self) i))
        (\<lambda>_ kv'. wp (get_highest_index_at self k) (\<lambda>x s. x = i \<and> s = kv') kv') kv"
      using assms(2)
      by (intro mem.wp_put[OF assms(3)]) (simp add: get_highest_index_at_def assms(1) mem.wp_get)
    then show ?thesis unfolding wp_iff by auto
  qed
  have "max aged i = (if aged < i then i else aged)" by (auto simp: max_def)
  then show ?thesis
    using assms(4,5) put
    by (auto simp: update_highest_aged_index_def update_highest_finalized_index_def seq_def ret_def
        fail_def assms(1) get_highest_aged_index_def get_highest_finalized_index_def)
qed

end
