(* ===== verification/Hashing.thy ===== *)
theory Hashing
  imports Field_Types
begin

text \<open>
  The protocol hashes of \<open>crates/core/src/hash.rs\<close> and the constants they use
  (\<open>constants.rs\<close>): the Poseidon2 sponge, hashing of bytes, domain separated hashes, Merkle roots,
  siloing and authorization hashes.

  Parameters, collected in the record \<open>crypto\<close>: the width-4 permutation of \<open>taceo_poseidon2\<close>, the
  digest of \<open>sha2\<close>, and the external hash helper that an environment variable switches on (\<open>None\<close>
  when it is off). What is modelled is how the code drives them: padding, chunking, rate and
  capacity, order of the inputs.
\<close>

subsection \<open>Parameters\<close>

record crypto =
  cr_permutation :: "fr list \<Rightarrow> fr list"
  cr_external :: "(fr list \<Rightarrow> fr) option"
  cr_sha256 :: "u8 list \<Rightarrow> u8 list"

text \<open>The documented shape of the permutation and of the digest.\<close>

definition crypto_ok :: "crypto \<Rightarrow> bool" where
  "crypto_ok C \<longleftrightarrow>
     (\<forall>st. length st = 4 \<longrightarrow> length (cr_permutation C st) = 4) \<and>
     (\<forall>bs. length (cr_sha256 C bs) = 32)"

text \<open>\<open>slice::chunks\<close>.\<close>

function chunks :: "nat \<Rightarrow> 'a list \<Rightarrow> 'a list list" where
  "chunks n xs = (if n = 0 \<or> xs = [] then [] else take n xs # chunks n (drop n xs))"
  by auto
termination
  by (relation "measure (\<lambda>(n, xs). length xs)") auto

declare chunks.simps [simp del]

text \<open>\<open>Vec::resize\<close>: cut or pad to the given length.\<close>

definition resize :: "nat \<Rightarrow> 'a \<Rightarrow> 'a list \<Rightarrow> 'a list" where
  "resize n x xs = take n xs @ replicate (n - length xs) x"

subsection \<open>The sponge\<close>

definition poseidon_rate :: nat where
  "poseidon_rate = 3"

text \<open>\<open>for i in 0..k { state[i] += cache[i] }\<close>.\<close>

definition absorb :: "nat \<Rightarrow> fr list \<Rightarrow> fr list \<Rightarrow> fr list" where
  "absorb k cache state = fold (\<lambda>i st. st[i := st ! i + cache ! i]) [0..<k] state"

fun sponge_loop ::
    "crypto \<Rightarrow> fr list \<Rightarrow> fr list \<Rightarrow> fr list \<Rightarrow> nat \<Rightarrow> fr list \<times> fr list \<times> nat" where
  "sponge_loop C [] state cache cache_size = (state, cache, cache_size)"
| "sponge_loop C (x # xs) state cache cache_size =
     (if cache_size = poseidon_rate then
        let state = cr_permutation C (absorb poseidon_rate cache state);
            cache = replicate poseidon_rate 0
        in sponge_loop C xs state (cache[0 := x]) 1
      else sponge_loop C xs state (cache[cache_size := x]) (cache_size + 1))"

definition poseidon2_hash :: "crypto \<Rightarrow> fr list \<Rightarrow> fr" where
  "poseidon2_hash C inputs =
     (case cr_external C of
        Some helper \<Rightarrow> helper inputs
      | None \<Rightarrow>
          let two_pow_64 = fr_from_u64 (2 ^ 32) * fr_from_u64 (2 ^ 32);
              iv = fr_from_u64 (of_nat (length inputs)) * two_pow_64;
              (state, cache, cache_size) =
                sponge_loop C inputs [0, 0, 0, iv] (replicate poseidon_rate 0) 0
          in cr_permutation C (absorb cache_size cache state) ! 0)"

definition poseidon2_hash_bytes :: "crypto \<Rightarrow> u8 list \<Rightarrow> fr" where
  "poseidon2_hash_bytes C bytes =
     (if bytes = [] then poseidon2_hash C []
      else poseidon2_hash C
        (map (\<lambda>chunk. fr_from_bytes (rev (chunk @ replicate (32 - length chunk) 0)))
          (chunks 31 bytes)))"

definition poseidon2_hash_with_separator_field :: "crypto \<Rightarrow> fr list \<Rightarrow> fr \<Rightarrow> fr" where
  "poseidon2_hash_with_separator_field C inputs separator = poseidon2_hash C (separator # inputs)"

definition poseidon2_hash_with_separator :: "crypto \<Rightarrow> fr list \<Rightarrow> u32 \<Rightarrow> fr" where
  "poseidon2_hash_with_separator C inputs separator =
     poseidon2_hash_with_separator_field C inputs (fr_from_u64 (ucast separator))"

definition sha256_to_field :: "crypto \<Rightarrow> u8 list \<Rightarrow> fr" where
  "sha256_to_field C data = fr_from_bytes (0 # take 31 (cr_sha256 C data))"

subsection \<open>Constants\<close>

definition AUTHWIT_INNER :: u32 where "AUTHWIT_INNER = 221354163"
definition AUTHWIT_OUTER :: u32 where "AUTHWIT_OUTER = 3283595782"
definition FUNCTION_ARGS :: u32 where "FUNCTION_ARGS = 3576554347"
definition PUBLIC_CALLDATA :: u32 where "PUBLIC_CALLDATA = 2760353947"
definition PROTOCOL_CONTRACTS :: u32 where "PROTOCOL_CONTRACTS = 3904434327"
definition PUBLIC_KEYS_HASH :: u32 where "PUBLIC_KEYS_HASH = 777457226"
definition PARTIAL_ADDRESS :: u32 where "PARTIAL_ADDRESS = 2103633018"
definition CONTRACT_CLASS_ID :: u32 where "CONTRACT_CLASS_ID = 3923495515"
definition PRIVATE_FUNCTION_LEAF :: u32 where "PRIVATE_FUNCTION_LEAF = 1389398688"
definition PUBLIC_BYTECODE :: u32 where "PUBLIC_BYTECODE = 260313585"
definition INITIALIZER :: u32 where "INITIALIZER = 385396519"
definition CONTRACT_ADDRESS_V1 :: u32 where "CONTRACT_ADDRESS_V1 = 1788365517"
definition SECRET_HASH :: u32 where "SECRET_HASH = 4199652938"
definition MESSAGE_NULLIFIER :: u32 where "MESSAGE_NULLIFIER = 3754509616"
definition UNIQUE_NOTE_HASH :: u32 where "UNIQUE_NOTE_HASH = 226850429"
definition NOTE_HASH_NONCE :: u32 where "NOTE_HASH_NONCE = 1721808740"
definition SILOED_NOTE_HASH :: u32 where "SILOED_NOTE_HASH = 3361878420"
definition SILOED_NULLIFIER :: u32 where "SILOED_NULLIFIER = 57496191"
definition PRIVATE_LOG_FIRST_FIELD :: u32 where "PRIVATE_LOG_FIRST_FIELD = 2769976252"

definition FUNCTION_TREE_HEIGHT :: nat where
  "FUNCTION_TREE_HEIGHT = 7"

definition MAX_PACKED_PUBLIC_BYTECODE_SIZE_IN_FIELDS :: nat where
  "MAX_PACKED_PUBLIC_BYTECODE_SIZE_IN_FIELDS = 3000"

definition null_msg_sender :: aztec_address where
  "null_msg_sender = AztecAddress (fr_of_nat
     0x30644e72e131a029b85045b68181585d2833e84879b9709143e1f593f0000000)"

subsection \<open>Messages, siloing and authorization\<close>

definition compute_secret_hash :: "crypto \<Rightarrow> fr \<Rightarrow> fr" where
  "compute_secret_hash C secret = poseidon2_hash_with_separator C [secret] SECRET_HASH"

definition silo_note_hash :: "crypto \<Rightarrow> aztec_address \<Rightarrow> fr \<Rightarrow> fr" where
  "silo_note_hash C contract note_hash =
     poseidon2_hash_with_separator C [address_field contract, note_hash] SILOED_NOTE_HASH"

definition silo_nullifier :: "crypto \<Rightarrow> aztec_address \<Rightarrow> fr \<Rightarrow> fr" where
  "silo_nullifier C contract inner_nullifier =
     poseidon2_hash_with_separator C [address_field contract, inner_nullifier] SILOED_NULLIFIER"

definition compute_l1_to_l2_message_nullifier :: "crypto \<Rightarrow> aztec_address \<Rightarrow> fr \<Rightarrow> fr \<Rightarrow> fr" where
  "compute_l1_to_l2_message_nullifier C contract message_hash secret =
     (let inner = poseidon2_hash_with_separator C [message_hash, secret] MESSAGE_NULLIFIER
      in silo_nullifier C contract inner)"

text \<open>An \<open>EthAddress\<close> is 20 bytes.\<close>

definition compute_l2_to_l1_message_hash ::
    "crypto \<Rightarrow> aztec_address \<Rightarrow> u8 list \<Rightarrow> fr \<Rightarrow> fr \<Rightarrow> fr \<Rightarrow> fr" where
  "compute_l2_to_l1_message_hash C l2_sender l1_recipient content rollup_version chain_id =
     sha256_to_field C
       (fr_to_be_bytes (address_field l2_sender) @ fr_to_be_bytes rollup_version @
        (replicate 12 0 @ l1_recipient) @ fr_to_be_bytes chain_id @ fr_to_be_bytes content)"

definition compute_var_args_hash :: "crypto \<Rightarrow> fr list \<Rightarrow> fr" where
  "compute_var_args_hash C args =
     (if args = [] then 0 else poseidon2_hash_with_separator C args FUNCTION_ARGS)"

definition compute_calldata_hash :: "crypto \<Rightarrow> fr list \<Rightarrow> fr" where
  "compute_calldata_hash C calldata = poseidon2_hash_with_separator C calldata PUBLIC_CALLDATA"

definition compute_protocol_nullifier :: "crypto \<Rightarrow> fr \<Rightarrow> fr" where
  "compute_protocol_nullifier C tx_request_hash = silo_nullifier C null_msg_sender tx_request_hash"

definition compute_unique_note_hash :: "crypto \<Rightarrow> fr \<Rightarrow> fr \<Rightarrow> fr" where
  "compute_unique_note_hash C nonce siloed_note_hash =
     poseidon2_hash_with_separator C [nonce, siloed_note_hash] UNIQUE_NOTE_HASH"

definition compute_note_hash_nonce :: "crypto \<Rightarrow> fr \<Rightarrow> usize \<Rightarrow> fr" where
  "compute_note_hash_nonce C first_nullifier note_hash_index =
     poseidon2_hash_with_separator C [first_nullifier, fr_from_u64 note_hash_index] NOTE_HASH_NONCE"

definition compute_siloed_private_log_first_field :: "crypto \<Rightarrow> aztec_address \<Rightarrow> fr \<Rightarrow> fr" where
  "compute_siloed_private_log_first_field C contract field =
     poseidon2_hash_with_separator C [address_field contract, field] PRIVATE_LOG_FIRST_FIELD"

definition compute_inner_auth_wit_hash :: "crypto \<Rightarrow> fr list \<Rightarrow> fr" where
  "compute_inner_auth_wit_hash C args = poseidon2_hash_with_separator C args AUTHWIT_INNER"

definition compute_outer_auth_wit_hash :: "crypto \<Rightarrow> aztec_address \<Rightarrow> fr \<Rightarrow> fr \<Rightarrow> fr \<Rightarrow> fr" where
  "compute_outer_auth_wit_hash C consumer chain_id version inner_hash =
     poseidon2_hash_with_separator C [address_field consumer, chain_id, version, inner_hash]
       AUTHWIT_OUTER"

subsection \<open>Merkle roots\<close>

text \<open>
  One pass of the \<open>while\<close> loop of \<open>poseidon_merkle_root\<close> and \<open>sha256_merkle_root\<close>: a chunk of two
  is hashed, a last single element is paired with zero.
\<close>

definition merkle_level :: "(fr \<Rightarrow> fr \<Rightarrow> fr) \<Rightarrow> fr list \<Rightarrow> fr list" where
  "merkle_level node current =
     map (\<lambda>chunk. node (chunk ! 0) (if length chunk > 1 then chunk ! 1 else 0)) (chunks 2 current)"

lemma length_chunks_2: "length (chunks 2 xs) = (length xs + 1) div 2"
proof (induction "length xs" arbitrary: xs rule: less_induct)
  case less
  then show ?case
    by (subst chunks.simps) (cases xs; cases "tl xs"; simp)
qed

function merkle_loop :: "(fr \<Rightarrow> fr \<Rightarrow> fr) \<Rightarrow> fr list \<Rightarrow> fr" where
  "merkle_loop node current =
     (if length current > 1 then merkle_loop node (merkle_level node current) else current ! 0)"
  by auto
termination
  by (relation "measure (\<lambda>(node, current). length current)")
    (auto simp: merkle_level_def length_chunks_2)

declare merkle_loop.simps [simp del]

definition merkle_root :: "(fr \<Rightarrow> fr \<Rightarrow> fr) \<Rightarrow> fr list \<Rightarrow> fr" where
  "merkle_root node leaves =
     (if leaves = [] then 0 else if length leaves = 1 then leaves ! 0 else merkle_loop node leaves)"

definition poseidon_merkle_root :: "crypto \<Rightarrow> fr list \<Rightarrow> fr" where
  "poseidon_merkle_root C = merkle_root (\<lambda>left right. poseidon2_hash C [left, right])"

definition sha256_merkle_root :: "crypto \<Rightarrow> fr list \<Rightarrow> fr" where
  "sha256_merkle_root C =
     merkle_root (\<lambda>left right. sha256_to_field C (fr_to_be_bytes left @ fr_to_be_bytes right))"

subsection \<open>The sponge computes block by block\<close>

text \<open>
  The reference: the input is cut into blocks of three, each block is added to the first three
  elements of the state and followed by one permutation; an empty input is one empty block.
\<close>

definition add_block :: "fr list \<Rightarrow> fr list \<Rightarrow> fr list" where
  "add_block block state = map2 (+) state (block @ replicate (4 - length block) 0)"

definition poseidon2_spec :: "(fr list \<Rightarrow> fr list) \<Rightarrow> fr list \<Rightarrow> fr" where
  "poseidon2_spec perm inputs =
     fold (\<lambda>block state. perm (add_block block state))
       (if inputs = [] then [[]] else chunks 3 inputs)
       [0, 0, 0, fr_of_nat ((length inputs mod 2 ^ 64) * 2 ^ 64)] ! 0"

lemma chunks_Nil [simp]: "chunks n [] = []"
  by (simp add: chunks.simps)

lemma chunks_append:
  "0 < n \<Longrightarrow> length xs = n \<Longrightarrow> chunks n (xs @ ys) = xs # chunks n ys"
  by (subst chunks.simps) auto

lemma chunks_short: "0 < length xs \<Longrightarrow> length xs \<le> n \<Longrightarrow> chunks n xs = [xs]"
  by (cases n; subst chunks.simps) auto

lemma absorb_add_block:
  assumes "length state = 4" and "length cache = 3" and "k \<le> 3"
  shows "absorb k cache state = add_block (take k cache) state"
proof -
  obtain a b c d where st: "state = [a, b, c, d]"
    using assms(1) by (auto simp: length_Suc_conv numeral_eq_Suc)
  obtain x y z where ca: "cache = [x, y, z]"
    using assms(2) by (auto simp: length_Suc_conv numeral_eq_Suc)
  from assms(3) consider "k = 0" | "k = 1" | "k = 2" | "k = 3" by linarith
  then show ?thesis
    by cases (simp_all add: st ca absorb_def add_block_def upt_rec numeral_eq_Suc)
qed

lemma add_block_Nil: "length state = 4 \<Longrightarrow> add_block [] state = state"
  by (auto simp: add_block_def length_Suc_conv numeral_eq_Suc)

lemma length_add_block: "length state = 4 \<Longrightarrow> length block \<le> 3 \<Longrightarrow> length (add_block block state) = 4"
  by (simp add: add_block_def)

lemma sponge_loop_blocks:
  assumes perm: "\<And>st. length st = 4 \<Longrightarrow> length (cr_permutation C st) = 4"
    and "length state = 4" and "length cache = 3" and "n \<le> 3" and "take n cache @ xs \<noteq> []"
    and "sponge_loop C xs state cache n = (state', cache', n')"
  shows "cr_permutation C (absorb n' cache' state') =
    fold (\<lambda>block st. cr_permutation C (add_block block st)) (chunks 3 (take n cache @ xs)) state"
  using assms(2-)
proof (induction xs arbitrary: state cache n)
  case Nil
  then have "chunks 3 (take n cache) = [take n cache]" by (intro chunks_short) auto
  with Nil show ?case by (simp add: absorb_add_block)
next
  case (Cons x xs)
  let ?f = "\<lambda>block st. cr_permutation C (add_block block st)"
  show ?case
  proof (cases "n = 3")
    case True
    let ?st = "cr_permutation C (absorb 3 cache state)"
    have st: "?st = ?f cache state" using Cons.prems by (simp add: absorb_add_block)
    have "length ?st = 4" unfolding st using Cons.prems by (intro perm length_add_block) auto
    moreover have "sponge_loop C xs ?st ((replicate 3 0)[0 := x]) 1 = (state', cache', n')"
      using Cons.prems(5) True by (simp add: poseidon_rate_def Let_def)
    moreover have "take 1 ((replicate 3 0)[0 := x]) = [x]" by (simp add: numeral_eq_Suc)
    ultimately have "cr_permutation C (absorb n' cache' state') = fold ?f (chunks 3 (x # xs)) ?st"
      using Cons.IH[of ?st "(replicate 3 0)[0 := x]" 1] by simp
    moreover have "chunks 3 (take n cache @ x # xs) = cache # chunks 3 (x # xs)"
      using True Cons.prems(2) by (simp add: chunks_append)
    ultimately show ?thesis by (simp add: st)
  next
    case False
    then have n: "n < 3" using Cons.prems by simp
    have "sponge_loop C xs state (cache[n := x]) (n + 1) = (state', cache', n')"
      using Cons.prems(5) False by (simp add: poseidon_rate_def)
    moreover have "take (n + 1) (cache[n := x]) = take n cache @ [x]"
      using n Cons.prems(2) by (simp add: take_Suc_conv_app_nth)
    ultimately show ?thesis
      using Cons.IH[of state "cache[n := x]" "n + 1"] Cons.prems n by simp
  qed
qed

lemma iv_value:
  "fr_from_u64 (of_nat n) * (fr_from_u64 (2 ^ 32) * fr_from_u64 (2 ^ 32)) =
   fr_of_nat ((n mod 2 ^ 64) * 2 ^ 64)"
proof -
  have "fr_from_u64 (2 ^ 32) = fr_of_nat (2 ^ 32)" by (simp add: fr_from_u64_def)
  moreover have "fr_from_u64 (of_nat n) = fr_of_nat (n mod 2 ^ 64)"
    by (simp add: fr_from_u64_def unsigned_of_nat take_bit_eq_mod)
  ultimately show ?thesis
    by (simp only: of_nat_fr[symmetric] of_nat_mult[symmetric]) (simp add: power_add[symmetric])
qed

subsection \<open>Merkle roots are roots of complete trees\<close>

fun tree_root :: "(fr \<Rightarrow> fr \<Rightarrow> fr) \<Rightarrow> nat \<Rightarrow> fr list \<Rightarrow> fr" where
  "tree_root node 0 leaves = leaves ! 0"
| "tree_root node (Suc h) leaves =
     node (tree_root node h (take (2 ^ h) leaves)) (tree_root node h (drop (2 ^ h) leaves))"

lemma merkle_level_append:
  "length xs = 2 * k \<Longrightarrow> merkle_level node (xs @ ys) = merkle_level node xs @ merkle_level node ys"
proof (induction k arbitrary: xs)
  case (Suc k)
  then obtain a b zs where xs: "xs = [a, b] @ zs" and zs: "length zs = 2 * k"
    by (auto simp: length_Suc_conv)
  have "chunks 2 (xs @ ys) = [a, b] # chunks 2 (zs @ ys)" "chunks 2 xs = [a, b] # chunks 2 zs"
    unfolding xs append_assoc by (rule chunks_append; simp)+
  with Suc.IH[OF zs] show ?case by (simp add: merkle_level_def)
qed (simp add: merkle_level_def)

lemma length_merkle_level [simp]: "length (merkle_level node xs) = (length xs + 1) div 2"
  by (simp add: merkle_level_def length_chunks_2)

lemma tree_root_level:
  "length xs = 2 ^ Suc h \<Longrightarrow> tree_root node (Suc h) xs = tree_root node h (merkle_level node xs)"
proof (induction h arbitrary: xs)
  case 0
  then obtain a b where xs: "xs = [a, b]" by (auto simp: length_Suc_conv numeral_eq_Suc)
  have "chunks 2 [a, b] = [[a, b]]" by (rule chunks_short) auto
  with xs show ?case by (simp add: merkle_level_def)
next
  case (Suc h)
  let ?l = "take (2 ^ Suc h) xs" and ?r = "drop (2 ^ Suc h) xs"
  have len: "length ?l = 2 ^ Suc h" "length ?r = 2 ^ Suc h" using Suc.prems by auto
  have "merkle_level node xs = merkle_level node ?l @ merkle_level node ?r"
    using merkle_level_append[of ?l "2 ^ h" node ?r] len by simp
  moreover have "length (merkle_level node ?l) = 2 ^ h" using len by simp
  ultimately show ?case
    using Suc.IH[OF len(1)] Suc.IH[OF len(2)] by simp
qed

lemma merkle_loop_tree_root:
  "length xs = 2 ^ h \<Longrightarrow> merkle_loop node xs = tree_root node h xs"
proof (induction h arbitrary: xs)
  case 0
  then show ?case by (simp add: merkle_loop.simps)
next
  case (Suc h)
  have "1 < length xs" unfolding Suc.prems by (rule one_less_power) auto
  moreover have "length (merkle_level node xs) = 2 ^ h" using Suc.prems by simp
  ultimately show ?case
    using Suc.IH tree_root_level[OF Suc.prems] by (subst merkle_loop.simps) simp
qed

subsection \<open>Properties\<close>

text \<open>
  C8. The incremental sponge, which buffers inputs in a cache and permutes when the cache is
  full, computes the block-by-block Poseidon2 hash with capacity \<open>length * 2 ^ 64\<close>.
\<close>

theorem poseidon2_sponge_correct:
  assumes "crypto_ok C" and "cr_external C = None"
  shows "poseidon2_hash C inputs = poseidon2_spec (cr_permutation C) inputs"
proof -
  let ?iv = "fr_of_nat ((length inputs mod 2 ^ 64) * 2 ^ 64)"
  obtain state cache n where loop:
    "sponge_loop C inputs [0, 0, 0, ?iv] (replicate 3 0) 0 = (state, cache, n)"
    by (metis prod_cases3)
  have hash: "poseidon2_hash C inputs = cr_permutation C (absorb n cache state) ! 0"
    using loop unfolding poseidon2_hash_def assms(2) Let_def iv_value poseidon_rate_def by simp
  show ?thesis
  proof (cases "inputs = []")
    case True
    then show ?thesis
      using loop hash by (auto simp: poseidon2_spec_def absorb_def add_block_Nil)
  next
    case False
    then show ?thesis
      using sponge_loop_blocks[OF _ _ _ _ _ loop] assms(1)
      by (simp add: hash poseidon2_spec_def crypto_ok_def)
  qed
qed

definition example_crypto :: crypto where
  "example_crypto =
     \<lparr>cr_permutation = (\<lambda>st. map (\<lambda>x. 2 * x + 1) (rotate1 st)), cr_external = None,
      cr_sha256 = (\<lambda>bs. replicate 32 (of_nat (length bs)))\<rparr>"

theorem poseidon2_sponge_correct_witness:
  "poseidon2_hash example_crypto [1, 2, 3, 4] =
     poseidon2_spec (\<lambda>st. map (\<lambda>x. 2 * x + 1) (rotate1 st)) [1, 2, 3, 4]"
  using poseidon2_sponge_correct[of example_crypto "[1, 2, 3, 4]"]
  by (simp add: example_crypto_def crypto_ok_def)

text \<open>
  The level-by-level Merkle root of \<open>2 ^ h\<close> leaves is the root of the complete binary tree of
  height \<open>h\<close> over them, for both hash functions.
\<close>

lemma merkle_root_is_tree_root:
  assumes "length leaves = 2 ^ h"
  shows "poseidon_merkle_root C leaves =
      tree_root (\<lambda>left right. poseidon2_hash C [left, right]) h leaves \<and>
    sha256_merkle_root C leaves =
      tree_root (\<lambda>left right. sha256_to_field C (fr_to_be_bytes left @ fr_to_be_bytes right)) h leaves"
proof -
  have "leaves \<noteq> []" using assms by auto
  moreover have "h = 0" if "length leaves = 1"
    using assms that by (cases h) auto
  ultimately have "merkle_root node leaves = tree_root node h leaves" for node
    using merkle_loop_tree_root[OF assms] by (auto simp: merkle_root_def)
  then show ?thesis by (simp add: poseidon_merkle_root_def sha256_merkle_root_def)
qed

end
