(* ===== verification/Abi.thy ===== *)
theory Abi
  imports Hashing Kv_Store
begin

text \<open>
  The contract ABI (\<open>crates/core/src/abi\<close>): types and values, the artifact checks of
  \<open>checkers.rs\<close>, the encoder of arguments into field elements (\<open>encoder.rs\<close>), the decoder of return
  values (\<open>decoder.rs\<close>), byte buffers as fields (\<open>buffer.rs\<close>) and selectors (\<open>selectors.rs\<close>).

  Lengths of arrays and strings are \<open>usize\<close> values kept as \<open>nat\<close>. A Rust string is the list of its
  bytes; the decoder builds strings from single bytes, so the two views agree on ASCII text. A
  \<open>BTreeMap\<close> is an association list, read with \<open>map_of\<close> and built by sorted insertion. An
  \<open>i128\<close> is a 128-bit word read with \<open>sint\<close>.
\<close>

subsection \<open>Types and values\<close>

datatype function_type = Private | Public | Utility

datatype abi_type =
    TField
  | TBoolean
  | TInteger string "16 word"
  | TArray abi_type nat
  | TString nat
  | TStruct string "abi_parameter list"
  | TTuple "abi_type list"
and abi_parameter = AbiParameter (param_name: string) (param_typ: abi_type) (param_visibility: "string option")

datatype abi_value =
    VField fr
  | VBoolean bool
  | VInteger "128 word"
  | VArray "abi_value list"
  | VString string
  | VStruct "(string \<times> abi_value) list"
  | VTuple "abi_value list"

datatype abi_decoded =
    DField fr
  | DBoolean bool
  | DInteger "128 word"
  | DArray "abi_decoded list"
  | DString string
  | DStruct "(string \<times> abi_decoded) list"
  | DTuple "abi_decoded list"
  | DAddress aztec_address
  | DNone

datatype function_selector = FunctionSelector "u8 list"

text \<open>
  \<open>serde_json::Value\<close>, as the code matches on it: a number is its text with its value when it is a
  \<open>u64\<close>, an object the list of its entries.
\<close>

datatype json =
    JsNull
  | JsBool bool
  | JsNumber string "u64 option"
  | JsString string
  | JsArray "json list"
  | JsObject "(string \<times> json) list"

record function_artifact =
  fa_name :: string
  fa_function_type :: function_type
  fa_is_initializer :: bool
  fa_is_static :: bool
  fa_is_only_self :: "bool option"
  fa_parameters :: "abi_parameter list"
  fa_return_types :: "abi_type list"
  fa_error_types :: "json option"
  fa_selector :: "function_selector option"
  fa_bytecode :: "string option"
  fa_verification_key_hash :: "fr option"
  fa_verification_key :: "string option"
  fa_custom_attributes :: "string list option"
  fa_is_unconstrained :: "bool option"
  fa_debug_symbols :: "json option"

record contract_artifact =
  ca_name :: string
  ca_functions :: "function_artifact list"
  ca_outputs :: "json option"
  ca_file_map :: "json option"
  ca_context_inputs_sizes :: "(string \<rightharpoonup> nat) option"

subsection \<open>Signatures\<close>

definition nat_display :: "nat \<Rightarrow> string" where
  "nat_display n = map digit_char (rev (digits_rev n))"

fun join :: "string \<Rightarrow> string list \<Rightarrow> string" where
  "join sep [] = []"
| "join sep [x] = x"
| "join sep (x # y # xs) = x @ sep @ join sep (y # xs)"

fun abi_type_signature :: "abi_type \<Rightarrow> string"
  and param_signatures :: "abi_parameter list \<Rightarrow> string list"
  and type_signatures :: "abi_type list \<Rightarrow> string list" where
  "abi_type_signature TField = ''Field''"
| "abi_type_signature TBoolean = ''bool''"
| "abi_type_signature (TInteger sign width) =
     (if sign = ''signed'' then ''i'' else ''u'') @ nat_display (unat width)"
| "abi_type_signature (TArray element len) =
     ''['' @ abi_type_signature element @ '';'' @ nat_display len @ '']''"
| "abi_type_signature (TString len) = ''str<'' @ nat_display len @ ''>''"
| "abi_type_signature (TStruct name flds) = ''('' @ join '','' (param_signatures flds) @ '')''"
| "abi_type_signature (TTuple elements) = ''('' @ join '','' (type_signatures elements) @ '')''"
| "param_signatures [] = []"
| "param_signatures (AbiParameter n t v # ps) = abi_type_signature t # param_signatures ps"
| "type_signatures [] = []"
| "type_signatures (t # ts) = abi_type_signature t # type_signatures ts"

subsection \<open>Struct recognisers and sizes\<close>

definition ends_with :: "string \<Rightarrow> string \<Rightarrow> bool" where
  "ends_with s t = suffix t s"

fun is_aztec_address_struct :: "abi_type \<Rightarrow> bool" where
  "is_aztec_address_struct (TStruct name flds) = ends_with name ''address::AztecAddress''"
| "is_aztec_address_struct _ = False"

fun is_eth_address_struct :: "abi_type \<Rightarrow> bool" where
  "is_eth_address_struct (TStruct name flds) = ends_with name ''address::EthAddress''"
| "is_eth_address_struct _ = False"

definition is_address_struct :: "abi_type \<Rightarrow> bool" where
  "is_address_struct typ \<longleftrightarrow> is_aztec_address_struct typ \<or> is_eth_address_struct typ"

fun is_function_selector_struct :: "abi_type \<Rightarrow> bool" where
  "is_function_selector_struct (TStruct name flds) =
     ends_with name ''function_selector::FunctionSelector''"
| "is_function_selector_struct _ = False"

fun is_wrapped_field_struct :: "abi_type \<Rightarrow> bool" where
  "is_wrapped_field_struct (TStruct name [p]) \<longleftrightarrow> param_name p = ''inner'' \<and> param_typ p = TField"
| "is_wrapped_field_struct _ = False"

fun is_public_keys_struct :: "abi_type \<Rightarrow> bool" where
  "is_public_keys_struct (TStruct name [a, b, c, d]) \<longleftrightarrow>
     ends_with name ''public_keys::PublicKeys'' \<and> param_name a = ''npk_m'' \<and>
     param_name b = ''ivpk_m'' \<and> param_name c = ''ovpk_m'' \<and> param_name d = ''tpk_m''"
| "is_public_keys_struct _ = False"

fun is_bounded_vec_struct :: "abi_type \<Rightarrow> bool" where
  "is_bounded_vec_struct (TStruct name [a, b]) \<longleftrightarrow>
     ends_with name ''bounded_vec::BoundedVec'' \<and> param_name a = ''storage'' \<and> param_name b = ''len''"
| "is_bounded_vec_struct _ = False"

fun is_option_struct :: "abi_type \<Rightarrow> bool" where
  "is_option_struct (TStruct name [a, b]) \<longleftrightarrow>
     ends_with name ''option::Option'' \<and> param_name a = ''_is_some'' \<and> param_name b = ''_value''"
| "is_option_struct _ = False"

fun abi_type_size :: "abi_type \<Rightarrow> nat"
  and params_size :: "abi_parameter list \<Rightarrow> nat"
  and types_size :: "abi_type list \<Rightarrow> nat" where
  "abi_type_size TField = 1"
| "abi_type_size TBoolean = 1"
| "abi_type_size (TInteger sign width) = 1"
| "abi_type_size (TString len) = len"
| "abi_type_size (TArray element len) = len * abi_type_size element"
| "abi_type_size (TStruct name flds) = params_size flds"
| "abi_type_size (TTuple elements) = types_size elements"
| "params_size [] = 0"
| "params_size (AbiParameter n t v # ps) = abi_type_size t + params_size ps"
| "types_size [] = 0"
| "types_size (t # ts) = abi_type_size t + types_size ts"

definition count_arguments_size :: "function_artifact \<Rightarrow> nat" where
  "count_arguments_size f = params_size (fa_parameters f)"

text \<open>\<open>ContractArtifact::count_abi_type_fields\<close>, the second implementation of the same count.\<close>

fun count_abi_type_fields :: "abi_type \<Rightarrow> nat"
  and count_params_fields :: "abi_parameter list \<Rightarrow> nat"
  and count_types_fields :: "abi_type list \<Rightarrow> nat" where
  "count_abi_type_fields TField = 1"
| "count_abi_type_fields TBoolean = 1"
| "count_abi_type_fields (TInteger sign width) = 1"
| "count_abi_type_fields (TArray element len) = count_abi_type_fields element * len"
| "count_abi_type_fields (TString len) = len"
| "count_abi_type_fields (TStruct name flds) = count_params_fields flds"
| "count_abi_type_fields (TTuple elements) = count_types_fields elements"
| "count_params_fields [] = 0"
| "count_params_fields (AbiParameter n t v # ps) = count_abi_type_fields t + count_params_fields ps"
| "count_types_fields [] = 0"
| "count_types_fields (t # ts) = count_abi_type_fields t + count_types_fields ts"

subsection \<open>Validation of an artifact\<close>

definition quoted :: "string \<Rightarrow> string" where
  "quoted s = CHR 0x27 # s @ [CHR 0x27]"

fun validate_abi_type :: "abi_type \<Rightarrow> string \<Rightarrow> string list"
  and validate_fields :: "abi_parameter list \<Rightarrow> string \<Rightarrow> string list"
  and validate_elements :: "nat \<Rightarrow> abi_type list \<Rightarrow> string \<Rightarrow> string list" where
  "validate_abi_type TField path = []"
| "validate_abi_type TBoolean path = []"
| "validate_abi_type (TInteger sign width) path =
     (if width = 0 then [path @ '': integer width must be > 0''] else [])"
| "validate_abi_type (TString len) path =
     (if len = 0 then [path @ '': string length must be > 0''] else [])"
| "validate_abi_type (TArray element len) path =
     (if len = 0 then [path @ '': array length must be > 0''] else []) @
     validate_abi_type element (path @ ''[]'')"
| "validate_abi_type (TStruct name flds) path =
     (if name = [] then [path @ '': struct name must not be empty''] else []) @
     (if flds = [] then [path @ '': struct '' @ quoted name @ '' must have at least one field''] else []) @
     validate_fields flds path"
| "validate_abi_type (TTuple elements) path =
     (if elements = [] then [path @ '': tuple must have at least one element''] else []) @
     validate_elements 0 elements path"
| "validate_fields [] path = []"
| "validate_fields (AbiParameter n t v # ps) path =
     validate_abi_type t (path @ ''.'' @ n) @ validate_fields ps path"
| "validate_elements i [] path = []"
| "validate_elements i (t # ts) path =
     validate_abi_type t (path @ ''.'' @ nat_display i) @ validate_elements (i + 1) ts path"

fun validate_returns :: "nat \<Rightarrow> abi_type list \<Rightarrow> string \<Rightarrow> string list" where
  "validate_returns i [] fn_path = []"
| "validate_returns i (t # ts) fn_path =
     validate_abi_type t (fn_path @ ''->return['' @ nat_display i @ '']'') @
     validate_returns (i + 1) ts fn_path"

definition check_function :: "function_artifact \<Rightarrow> string list" where
  "check_function func =
     (let fn_path = ''function '' @ quoted (fa_name func) in
      (if fa_name func = [] then [fn_path @ '': function name must not be empty''] else []) @
      (if fa_selector func = None then [fn_path @ '': missing selector''] else []) @
      validate_fields (fa_parameters func) fn_path @
      validate_returns 0 (fa_return_types func) fn_path)"

definition abi_checker :: "contract_artifact \<Rightarrow> string list" where
  "abi_checker artifact =
     (if ca_functions artifact = [] then [''artifact has no functions'']
      else
        (if list_ex fa_is_initializer (ca_functions artifact) then []
         else [''artifact has no constructor (initializer)'']) @
        concat (map check_function (ca_functions artifact)))"

definition find_function :: "contract_artifact \<Rightarrow> string \<Rightarrow> function_artifact result" where
  "find_function artifact name =
     ok_or (Abi (''function '' @ quoted name @ '' not found in artifact '' @ quoted (ca_name artifact)))
       (find (\<lambda>f. fa_name f = name) (ca_functions artifact))"

definition find_function_by_type ::
    "contract_artifact \<Rightarrow> string \<Rightarrow> function_type \<Rightarrow> function_artifact result" where
  "find_function_by_type artifact name function_type =
     ok_or (Abi (''function '' @ quoted name @ '' not found in artifact '' @ quoted (ca_name artifact)))
       (find (\<lambda>f. fa_name f = name \<and> fa_function_type f = function_type) (ca_functions artifact))"

definition find_function_by_selector ::
    "contract_artifact \<Rightarrow> function_selector \<Rightarrow> function_artifact option" where
  "find_function_by_selector artifact selector =
     find (\<lambda>f. fa_selector f = Some selector) (ca_functions artifact)"

definition private_context_inputs_size :: "contract_artifact \<Rightarrow> string \<Rightarrow> nat" where
  "private_context_inputs_size artifact function_name =
     (case Option.bind (ca_context_inputs_sizes artifact) (\<lambda>m. m function_name) of
        None \<Rightarrow> 0 | Some n \<Rightarrow> n)"

subsection \<open>Selectors\<close>

text \<open>\<open>format!("{raw:0>8}")\<close>: left padding with zeros to eight characters.\<close>

definition decode_selector_hex :: "hex_crate \<Rightarrow> string \<Rightarrow> u8 list result" where
  "decode_selector_hex H s =
     (let raw = strip_0x s in
      if length raw > 8 then Inl (InvalidData ''function selector must fit in 4 bytes'')
      else bind_result (hex_decode H (replicate (8 - length raw) (CHR ''0'') @ raw)) (\<lambda>bytes.
        if length bytes = 4 then Inr bytes else Inl (Panic ''copy_from_slice'')))"

definition field_to_selector_bytes :: "fr \<Rightarrow> u8 list" where
  "field_to_selector_bytes f = drop 28 (be_bytes 32 (into_bigint f))"

definition u32_from_be_bytes :: "u8 list \<Rightarrow> u32" where
  "u32_from_be_bytes bytes = of_nat (of_be_bytes bytes)"

definition selector_bytes_to_field :: "u8 list \<Rightarrow> fr" where
  "selector_bytes_to_field bytes = fr_from_u64 (ucast (u32_from_be_bytes bytes))"

definition selector_from_signature :: "crypto \<Rightarrow> string \<Rightarrow> u8 list" where
  "selector_from_signature C signature =
     field_to_selector_bytes (poseidon2_hash_bytes C (map of_char signature))"

primrec selector_bytes :: "function_selector \<Rightarrow> u8 list" where
  "selector_bytes (FunctionSelector bytes) = bytes"

definition function_selector_from_hex :: "hex_crate \<Rightarrow> string \<Rightarrow> function_selector result" where
  "function_selector_from_hex H value =
     bind_result (decode_selector_hex H value) (\<lambda>bytes. Inr (FunctionSelector bytes))"

definition function_selector_from_field :: "fr \<Rightarrow> function_selector" where
  "function_selector_from_field f = FunctionSelector (field_to_selector_bytes f)"

definition function_selector_from_signature :: "crypto \<Rightarrow> string \<Rightarrow> function_selector" where
  "function_selector_from_signature C signature = FunctionSelector (selector_from_signature C signature)"

definition function_selector_from_name_and_parameters ::
    "crypto \<Rightarrow> string \<Rightarrow> abi_parameter list \<Rightarrow> function_selector" where
  "function_selector_from_name_and_parameters C name params =
     function_selector_from_signature C
       (name @ ''('' @ join '','' (map (\<lambda>p. abi_type_signature (param_typ p)) params) @ '')'')"

definition function_selector_empty :: function_selector where
  "function_selector_empty = FunctionSelector (replicate 4 0)"

definition function_selector_to_field :: "function_selector \<Rightarrow> fr" where
  "function_selector_to_field s = selector_bytes_to_field (selector_bytes s)"

definition function_selector_display :: "hex_crate \<Rightarrow> function_selector \<Rightarrow> string" where
  "function_selector_display H s = ''0x'' @ hex_encode H (selector_bytes s)"

datatype note_selector = NoteSelector u8

definition note_selector_max :: u8 where
  "note_selector_max = 127"

definition note_selector_new :: "u8 \<Rightarrow> note_selector result" where
  "note_selector_new value =
     (if value > note_selector_max then Inl (InvalidData ''note selector must fit in 7 bits'')
      else Inr (NoteSelector value))"

definition note_selector_from_field :: "fr \<Rightarrow> note_selector result" where
  "note_selector_from_field f =
     (let val = fr_to_usize f in
      if val > ucast note_selector_max then Inl (InvalidData ''note selector must fit in 7 bits'')
      else Inr (NoteSelector (ucast val)))"

primrec note_selector_to_field :: "note_selector \<Rightarrow> fr" where
  "note_selector_to_field (NoteSelector value) = fr_from_u64 (ucast value)"

subsection \<open>Well-formed types\<close>

fun abi_type_ok :: "abi_type \<Rightarrow> bool"
  and params_ok :: "abi_parameter list \<Rightarrow> bool"
  and types_ok :: "abi_type list \<Rightarrow> bool" where
  "abi_type_ok TField = True"
| "abi_type_ok TBoolean = True"
| "abi_type_ok (TInteger sign width) = (width \<noteq> 0)"
| "abi_type_ok (TString len) = (len \<noteq> 0)"
| "abi_type_ok (TArray element len) = (len \<noteq> 0 \<and> abi_type_ok element)"
| "abi_type_ok (TStruct name flds) = (name \<noteq> [] \<and> flds \<noteq> [] \<and> params_ok flds)"
| "abi_type_ok (TTuple elements) = (elements \<noteq> [] \<and> types_ok elements)"
| "params_ok [] = True"
| "params_ok (AbiParameter n t v # ps) = (abi_type_ok t \<and> params_ok ps)"
| "types_ok [] = True"
| "types_ok (t # ts) = (abi_type_ok t \<and> types_ok ts)"

lemma validate_abi_type_ok:
  "validate_abi_type t path = [] \<longleftrightarrow> abi_type_ok t"
  "validate_fields ps path = [] \<longleftrightarrow> params_ok ps"
  "validate_elements i ts path = [] \<longleftrightarrow> types_ok ts"
  by (induction t path and ps path and i ts path
      rule: validate_abi_type_validate_fields_validate_elements.induct) auto

lemma validate_returns_ok: "validate_returns i ts path = [] \<longleftrightarrow> types_ok ts"
  by (induction i ts path rule: validate_returns.induct) (simp_all add: validate_abi_type_ok)

lemma of_be_bytes_lt_u32: "length bytes = 4 \<Longrightarrow> of_be_bytes bytes < 2 ^ 32"
  using of_be_bytes_less[of bytes] by simp

lemma into_bigint_selector:
  assumes "length bytes = 4"
  shows "into_bigint (selector_bytes_to_field bytes) = of_be_bytes bytes"
proof -
  have "unat (ucast (u32_from_be_bytes bytes) :: u64) = of_be_bytes bytes"
    using of_be_bytes_lt_u32[OF assms]
    by (simp add: u32_from_be_bytes_def unsigned_ucast_eq unsigned_of_nat take_bit_eq_mod)
  then show ?thesis by (simp add: selector_bytes_to_field_def)
qed

lemma field_to_selector_bytes_low: "field_to_selector_bytes f = be_bytes 4 (into_bigint f)"
  using be_bytes_split[of 28 4 "into_bigint f"] by (simp add: field_to_selector_bytes_def)

subsection \<open>Properties\<close>

text \<open>
  \<open>abi_checker\<close> reports no error exactly for the artifacts it documents as valid: at least one
  function, an initializer, and every function named, with a selector and well-formed parameter
  and return types.
\<close>

lemma abi_checker_accepts:
  "abi_checker artifact = [] \<longleftrightarrow>
     ca_functions artifact \<noteq> [] \<and> list_ex fa_is_initializer (ca_functions artifact) \<and>
     list_all (\<lambda>f. fa_name f \<noteq> [] \<and> fa_selector f \<noteq> None \<and>
        params_ok (fa_parameters f) \<and> types_ok (fa_return_types f)) (ca_functions artifact)"
proof -
  have "check_function f = [] \<longleftrightarrow> fa_name f \<noteq> [] \<and> fa_selector f \<noteq> None \<and>
      params_ok (fa_parameters f) \<and> types_ok (fa_return_types f)" for f
    by (auto simp: check_function_def Let_def validate_abi_type_ok validate_returns_ok)
  then show ?thesis by (auto simp: abi_checker_def list_ex_iff list_all_iff)
qed

text \<open>
  Function selectors survive both of their conversions: a four-byte selector is read back from
  its hexadecimal text and from its field element, and \<open>from_field\<close> keeps exactly the low 32 bits.
\<close>

lemma function_selector_roundtrips:
  assumes "hex_ok H" and "length bytes = 4"
  shows "function_selector_from_hex H (function_selector_display H (FunctionSelector bytes)) =
      Inr (FunctionSelector bytes) \<and>
    function_selector_from_field (function_selector_to_field (FunctionSelector bytes)) =
      FunctionSelector bytes \<and>
    into_bigint (function_selector_to_field (function_selector_from_field f)) = into_bigint f mod 2 ^ 32"
proof -
  have "decode_selector_hex H (''0x'' @ hex_encode H bytes) = Inr bytes"
    using assms strip_0x_encode_hex[of H bytes]
    by (simp add: decode_selector_hex_def encode_hex_def)
  moreover have "be_bytes 4 (of_be_bytes bytes) = bytes"
    using be_bytes_of_be_bytes[of bytes] assms(2) by simp
  moreover have "of_be_bytes (be_bytes 4 (into_bigint f)) = into_bigint f mod 2 ^ 32"
    using of_be_bytes_be_bytes[of 4 "into_bigint f"] by simp
  ultimately show ?thesis
    using assms(2)
    by (simp add: function_selector_from_hex_def function_selector_display_def
        function_selector_from_field_def function_selector_to_field_def
        field_to_selector_bytes_low into_bigint_selector)
qed

text \<open>
  \<open>NoteSelector::from_field\<close> checks the seven-bit range only after truncating the field element
  to 64 bits: it accepts exactly the elements whose low 64 bits are at most 127, among them
  \<open>2 ^ 64\<close>, which is read as selector \<open>0\<close>.
\<close>

lemma note_selector_from_field_truncates:
  "((\<exists>s. note_selector_from_field f = Inr s) \<longleftrightarrow> into_bigint f mod 2 ^ 64 \<le> 127) \<and>
   note_selector_from_field (fr_of_nat (2 ^ 64)) = Inr (NoteSelector 0)"
proof -
  have range: "fr_to_usize f > ucast note_selector_max \<longleftrightarrow> into_bigint f mod 2 ^ 64 > 127" for f
    by (simp add: word_less_nat_alt unat_fr_to_usize note_selector_max_def)
  have "unat (fr_to_usize (fr_of_nat (2 ^ 64))) = 0"
    by (simp add: unat_fr_to_usize fr_modulus_def)
  then have "fr_to_usize (fr_of_nat (2 ^ 64)) = 0" by (simp add: unat_eq_zero)
  then show ?thesis
    using range[of f] by (auto simp: note_selector_from_field_def Let_def not_less)
qed

end
