(* ===== verification/Abi_Codec.thy ===== *)
theory Abi_Codec
  imports Abi
begin

text \<open>
  Encoding of arguments into field elements (\<open>crates/core/src/abi/encoder.rs\<close>), decoding of return
  values (\<open>decoder.rs\<close>) and byte buffers as fields (\<open>buffer.rs\<close>).

  \<open>encode_value\<close> appends to an output vector; the model returns what it appends. The decoder reads
  through a cursor, which is the state of its computations. The relation \<open>represents\<close> says which
  decoded value stands for an encoded one; it carries the round trip.
\<close>

subsection \<open>Signed 128-bit arithmetic\<close>

definition i128_checked :: "int \<Rightarrow> 128 word result" where
  "i128_checked n =
     (if - (2 ^ 127) \<le> n \<and> n < 2 ^ 127 then Inr (word_of_int n)
      else Inl (Panic ''attempt to add with overflow''))"

definition i128_add :: "128 word \<Rightarrow> 128 word \<Rightarrow> 128 word result" where
  "i128_add a b = i128_checked (sint a + sint b)"

definition i128_sub :: "128 word \<Rightarrow> 128 word \<Rightarrow> 128 word result" where
  "i128_sub a b = i128_checked (sint a - sint b)"

subsection \<open>Encoding\<close>

definition mismatch :: "'a result" where
  "mismatch = Inl (Abi ''argument type/value mismatch'')"

definition encode_integer :: "string \<Rightarrow> 16 word \<Rightarrow> 128 word \<Rightarrow> fr result" where
  "encode_integer sign width integer =
     (if sign = ''signed'' \<and> sint integer < 0 then
        (if width \<ge> 128 then Inr (fr_from_u128 integer)
         else bind_result (i128_add integer (push_bit (unat width) 1)) (\<lambda>encoded.
                Inr (fr_from_u128 encoded)))
      else Inr (fr_from_u128 integer))"

definition byte_field :: "char \<Rightarrow> fr" where
  "byte_field c = fr_from_u64 (of_char c)"

definition encode_string :: "nat \<Rightarrow> string \<Rightarrow> fr list result" where
  "encode_string len s =
     (if length s > len then Inl (Abi ''string exceeds fixed ABI length'')
      else Inr (map byte_field s @ replicate (len - length s) 0))"

text \<open>The inner value of a selector struct.\<close>

fun encode_selector_inner :: "abi_value \<Rightarrow> fr list result" where
  "encode_selector_inner (VField f) = Inr [f]"
| "encode_selector_inner (VInteger v) = Inr [fr_from_u64 (ucast v)]"
| "encode_selector_inner _ = Inl (Abi ''FunctionSelector inner must be Field or Integer'')"

fun encode_selector_struct :: "abi_value \<Rightarrow> fr list result" where
  "encode_selector_struct (VInteger v) = Inr [fr_from_u64 (ucast v)]"
| "encode_selector_struct (VField f) = Inr [f]"
| "encode_selector_struct (VStruct m) =
     (case (map_of m ''value'', map_of m ''inner'') of
        (Some v, _) \<Rightarrow> encode_selector_inner v
      | (None, Some v) \<Rightarrow> encode_selector_inner v
      | (None, None) \<Rightarrow> Inl (Abi ''FunctionSelector struct must have value or inner field''))"
| "encode_selector_struct _ =
     Inl (Abi ''expected Integer, Field, or Struct for FunctionSelector'')"

text \<open>\<open>encode_value(&AbiType::Field, f, out)\<close>.\<close>

fun encode_field :: "abi_value \<Rightarrow> fr list result" where
  "encode_field (VField f) = Inr [f]"
| "encode_field _ = mismatch"

fun encode_address_struct :: "abi_value \<Rightarrow> fr list result" where
  "encode_address_struct (VField f) = Inr [f]"
| "encode_address_struct (VStruct m) =
     (case (map_of m ''inner'', map_of m ''address'') of
        (Some v, _) \<Rightarrow> encode_field v
      | (None, Some v) \<Rightarrow> encode_field v
      | (None, None) \<Rightarrow> Inl (Abi ''address struct must have inner or address field''))"
| "encode_address_struct _ = Inl (Abi ''expected Field or Struct for address type'')"

fun encode_wrapped_struct :: "abi_value \<Rightarrow> fr list result" where
  "encode_wrapped_struct (VField f) = Inr [f]"
| "encode_wrapped_struct (VStruct m) =
     (case map_of m ''inner'' of
        Some v \<Rightarrow> encode_field v
      | None \<Rightarrow> Inl (Abi ''wrapped field struct must have inner field''))"
| "encode_wrapped_struct _ = Inl (Abi ''expected Field or Struct for wrapped field type'')"

fun bounded_vec_items :: "abi_value \<Rightarrow> abi_value list result" where
  "bounded_vec_items (VArray items) = Inr items"
| "bounded_vec_items (VStruct m) =
     (case map_of m ''storage'' of
        Some (VArray items) \<Rightarrow> Inr items
      | _ \<Rightarrow> Inl (Abi ''BoundedVec struct must have storage array field''))"
| "bounded_vec_items _ = Inl (Abi ''expected Array or Struct for BoundedVec'')"

definition concat_result :: "'a list list result \<Rightarrow> 'a list result" where
  "concat_result r = bind_result r (\<lambda>xss. Inr (concat xss))"

lemma map_result_cong [fundef_cong]:
  "xs = ys \<Longrightarrow> (\<And>x. x \<in> set ys \<Longrightarrow> f x = g x) \<Longrightarrow> map_result f xs = map_result g ys"
  by (induction xs arbitrary: ys) auto

lemma size_param_typ: "p \<in> set flds \<Longrightarrow> size (param_typ p) < Suc (size_list size flds)"
proof -
  assume "p \<in> set flds"
  then have "size p \<le> size_list size flds" by (rule size_list_estimation') simp
  moreover have "size (param_typ p) < size p" by (cases p) simp
  ultimately show ?thesis by simp
qed

lemma size_element: "t \<in> set elements \<Longrightarrow> size t < Suc (size_list size (elements :: abi_type list))"
  by (simp add: le_imp_less_Suc size_list_estimation')

function encode_value :: "abi_type \<Rightarrow> abi_value \<Rightarrow> fr list result" where
  "encode_value TField value = encode_field value"
| "encode_value TBoolean value =
     (case value of VBoolean b \<Rightarrow> Inr [fr_from_bool b] | _ \<Rightarrow> mismatch)"
| "encode_value (TInteger sign width) value =
     (case value of
        VInteger i \<Rightarrow> bind_result (encode_integer sign width i) (\<lambda>f. Inr [f])
      | VField f \<Rightarrow> Inr [f]
      | _ \<Rightarrow> mismatch)"
| "encode_value (TArray element len) value =
     (case value of
        VArray items \<Rightarrow>
          if length items \<noteq> len then Inl (Abi ''expected array of another length'')
          else concat_result (map_result (\<lambda>item. encode_value element item) items)
      | _ \<Rightarrow> mismatch)"
| "encode_value (TString len) value =
     (case value of VString s \<Rightarrow> encode_string len s | _ \<Rightarrow> mismatch)"
| "encode_value (TStruct name flds) value =
     (if is_address_struct (TStruct name flds) then encode_address_struct value
      else if is_function_selector_struct (TStruct name flds) then encode_selector_struct value
      else if is_wrapped_field_struct (TStruct name flds) then encode_wrapped_struct value
      else if is_bounded_vec_struct (TStruct name flds) then
        bind_result (bounded_vec_items value) (\<lambda>items.
          case flds of
            AbiParameter n (TArray element max_len) v # ps \<Rightarrow>
              if length items > max_len then Inl (Abi ''BoundedVec has too many items'')
              else
                bind_result (concat_result (map_result (\<lambda>item. encode_value element item) items)) (\<lambda>fs.
                  Inr (fs @ replicate ((max_len - length items) * abi_type_size element) 0 @
                       [fr_from_u64 (of_nat (length items))]))
          | _ \<Rightarrow> Inl (Abi ''BoundedVec storage must be an Array''))
      else if is_option_struct (TStruct name flds) then
        (case flds of
           AbiParameter n0 t0 v0 # AbiParameter n1 t1 v1 # ps \<Rightarrow>
             (case value of
                VStruct m \<Rightarrow>
                  (case (map_of m ''_is_some'', map_of m ''_value'') of
                     (Some is_some, Some val) \<Rightarrow>
                       bind_result (encode_value t0 is_some) (\<lambda>f.
                       bind_result (encode_value t1 val) (\<lambda>fs. Inr (f @ fs)))
                   | _ \<Rightarrow> Inl (Abi ''Option struct must have _is_some and _value fields''))
              | _ \<Rightarrow> bind_result (encode_value t1 value) (\<lambda>fs. Inr (1 # fs)))
         | _ \<Rightarrow> mismatch)
      else
        (case value of
           VStruct values \<Rightarrow>
             concat_result (map_result (\<lambda>field.
               case map_of values (param_name field) of
                 None \<Rightarrow> Inl (Abi ''missing struct field'')
               | Some field_value \<Rightarrow> encode_value (param_typ field) field_value) flds)
         | _ \<Rightarrow> mismatch))"
| "encode_value (TTuple elements) value =
     (case value of
        VTuple values \<Rightarrow>
          if length elements \<noteq> length values then Inl (Abi ''expected tuple of another length'')
          else concat_result (map_result (\<lambda>(element, x). encode_value element x) (zip elements values))
      | _ \<Rightarrow> mismatch)"
  by pat_completeness auto
termination
  by (relation "measure (\<lambda>(t, v). size t)")
    (auto simp: size_param_typ dest!: set_zip_leftD intro: size_element)

definition encode_arguments :: "function_artifact \<Rightarrow> abi_value list \<Rightarrow> fr list result" where
  "encode_arguments f args =
     (if length (fa_parameters f) \<noteq> length args
      then Inl (Abi ''function expects another number of arguments'')
      else concat_result (map_result (\<lambda>(param, value). encode_value (param_typ param) value)
             (zip (fa_parameters f) args)))"

subsection \<open>Decoding\<close>

definition take_field :: "fr list \<Rightarrow> (nat, fr) op" where
  "take_field input cursor =
     (if cursor \<ge> length input then (Inl (Abi ''insufficient fields for decoding''), cursor)
      else (Inr (input ! cursor), cursor + 1))"

fun skip_fields :: "fr list \<Rightarrow> nat \<Rightarrow> (nat, unit) op" where
  "skip_fields input 0 = ret ()"
| "skip_fields input (Suc k) = seq (take_field input) (\<lambda>_. skip_fields input k)"

definition decode_integer :: "string \<Rightarrow> 16 word \<Rightarrow> fr \<Rightarrow> 128 word result" where
  "decode_integer sign width f =
     (let raw = (of_nat (of_be_bytes (drop 16 (fr_to_be_bytes f))) :: 128 word) in
      if sign = ''signed'' then
        (if width \<ge> 128 then Inr raw
         else if width = 0 then Inl (Panic ''attempt to subtract with overflow'')
         else if raw \<ge> push_bit (unat (width - 1)) 1
         then i128_sub raw (push_bit (unat width) 1)
         else Inr raw)
      else Inr raw)"

fun decode_chars :: "fr list \<Rightarrow> nat \<Rightarrow> (nat, string) op" where
  "decode_chars input 0 = ret []"
| "decode_chars input (Suc k) =
     seq (take_field input) (\<lambda>f.
       let byte = (ucast (fr_to_usize f) :: u8) in
       if byte = 0 then seq (skip_fields input k) (\<lambda>_. ret [])
       else seq (decode_chars input k) (\<lambda>cs. ret (char_of (unat byte) # cs)))"

definition collect_struct :: "(string \<times> abi_decoded) list \<Rightarrow> (string \<times> abi_decoded) list" where
  "collect_struct entries = fold (\<lambda>(n, d) m. btree_insert n d m) entries []"

lemma map_op_cong [fundef_cong]:
  "xs = ys \<Longrightarrow> (\<And>x. x \<in> set ys \<Longrightarrow> f x = g x) \<Longrightarrow> map_op f xs = map_op g ys"
  by (induction xs arbitrary: ys) auto

function decode_next :: "abi_type \<Rightarrow> fr list \<Rightarrow> (nat, abi_decoded) op" where
  "decode_next TField input = seq (take_field input) (\<lambda>f. ret (DField f))"
| "decode_next TBoolean input = seq (take_field input) (\<lambda>f. ret (DBoolean (\<not> fr_is_zero f)))"
| "decode_next (TInteger sign width) input =
     seq (take_field input) (\<lambda>f.
     seq (lift_result (decode_integer sign width f)) (\<lambda>i. ret (DInteger i)))"
| "decode_next (TArray element len) input =
     seq (map_op (\<lambda>_. decode_next element input) [0..<len]) (\<lambda>items. ret (DArray items))"
| "decode_next (TString len) input = seq (decode_chars input len) (\<lambda>cs. ret (DString cs))"
| "decode_next (TStruct name flds) input =
     (if is_aztec_address_struct (TStruct name flds) then
        seq (take_field input) (\<lambda>f. ret (DAddress (AztecAddress f)))
      else if is_eth_address_struct (TStruct name flds) then
        seq (take_field input) (\<lambda>f. ret (DField f))
      else if is_option_struct (TStruct name flds) then
        (case flds of
           p0 # AbiParameter n1 t1 v1 # ps \<Rightarrow>
             seq (take_field input) (\<lambda>is_some.
               if fr_is_zero is_some
               then seq (skip_fields input (abi_type_size t1)) (\<lambda>_. ret DNone)
               else decode_next t1 input)
         | _ \<Rightarrow> fail (Panic ''index out of bounds''))
      else if is_bounded_vec_struct (TStruct name flds) then
        (case flds of
           AbiParameter n (TArray element max_len) v # ps \<Rightarrow>
             seq (map_op (\<lambda>_. decode_next element input) [0..<max_len]) (\<lambda>items.
             seq (take_field input) (\<lambda>len.
               ret (DArray (take (unat (fr_to_usize len)) items))))
         | _ \<Rightarrow> fail (Abi ''BoundedVec storage must be an Array''))
      else
        seq (map_op (\<lambda>field. seq (decode_next (param_typ field) input) (\<lambda>d. ret (param_name field, d))) flds)
          (\<lambda>entries. ret (DStruct (collect_struct entries))))"
| "decode_next (TTuple elements) input =
     seq (map_op (\<lambda>element. decode_next element input) elements) (\<lambda>items. ret (DTuple items))"
  by pat_completeness auto
termination
  by (relation "measure (\<lambda>(t, v). size t)") (auto simp: size_param_typ size_element)

text \<open>A single return type is decoded as itself, several as a tuple.\<close>

definition decode_from_abi :: "abi_type list \<Rightarrow> fr list \<Rightarrow> abi_decoded result" where
  "decode_from_abi types input =
     (case types of
        [t] \<Rightarrow> fst (decode_next t input 0)
      | _ \<Rightarrow> fst (seq (map_op (\<lambda>t. decode_next t input) types) (\<lambda>items. ret (DTuple items)) 0))"

subsection \<open>Byte buffers\<close>

definition buffer_as_fields :: "u8 list \<Rightarrow> nat \<Rightarrow> fr list result" where
  "buffer_as_fields input target_length =
     (let encoded = fr_from_u64 (of_nat (length input)) #
            map (\<lambda>chunk. fr_from_bytes (0 # chunk @ replicate (31 - length chunk) 0)) (chunks 31 input)
      in if length encoded > target_length then Inl (Abi ''buffer exceeds maximum field count'')
         else Inr (resize target_length 0 encoded))"

definition buffer_from_fields :: "fr list \<Rightarrow> u8 list result" where
  "buffer_from_fields input =
     (case input of
        [] \<Rightarrow> Inl (Abi ''empty field array'')
      | len # rest \<Rightarrow>
          Inr (take (unat (fr_to_usize len)) (concat (map (\<lambda>f. drop 1 (fr_to_be_bytes f)) rest))))"

subsection \<open>Buffers\<close>

lemma concat_padded_chunks:
  "\<exists>k. concat (map (\<lambda>chunk. chunk @ replicate (31 - length chunk) z) (chunks 31 xs)) =
     xs @ replicate k z"
proof (induction "length xs" arbitrary: xs rule: less_induct)
  case less
  show ?case
  proof (cases "length xs \<le> 31")
    case True
    show ?thesis
    proof (cases "xs = []")
      case False
      with True have "chunks 31 xs = [xs]" by (intro chunks_short) auto
      then show ?thesis by auto
    qed (auto intro: exI[of _ 0])
  next
    case False
    then have drop_shorter: "length (drop 31 xs) < length xs"
      and "chunks 31 xs = take 31 xs # chunks 31 (drop 31 xs)" by (auto simp: chunks.simps[of 31 xs])
    moreover obtain k where
      "concat (map (\<lambda>chunk. chunk @ replicate (31 - length chunk) z) (chunks 31 (drop 31 xs))) =
       drop 31 xs @ replicate k z"
      using less[OF drop_shorter] by blast
    ultimately show ?thesis using False by (auto intro!: exI[of _ k])
  qed
qed

lemma length_chunks_le: "chunk \<in> set (chunks n xs) \<Longrightarrow> length chunk \<le> n"
proof (induction "length xs" arbitrary: xs rule: less_induct)
  case less
  from less.prems have "n \<noteq> 0" "xs \<noteq> []" by (auto simp: chunks.simps[of n xs] split: if_splits)
  with less.prems consider "chunk = take n xs" | "chunk \<in> set (chunks n (drop n xs))"
    by (auto simp: chunks.simps[of n xs])
  then show ?case
    using less.hyps[of "drop n xs"] \<open>n \<noteq> 0\<close> \<open>xs \<noteq> []\<close> by cases auto
qed

lemma buffer_payload:
  "\<exists>k. concat (map (\<lambda>f. drop 1 (fr_to_be_bytes f))
      (map (\<lambda>chunk. fr_from_bytes (0 # chunk @ replicate (31 - length chunk) 0)) (chunks 31 xs))) =
     xs @ replicate k 0"
proof -
  have "drop 1 (fr_to_be_bytes (fr_from_bytes (0 # chunk @ replicate (31 - length chunk) 0))) =
      chunk @ replicate (31 - length chunk) 0" if "chunk \<in> set (chunks 31 xs)" for chunk
    using length_chunks_le[OF that] by (subst fr_to_be_bytes_from_bytes) auto
  then have "map (\<lambda>f. drop 1 (fr_to_be_bytes f))
      (map (\<lambda>chunk. fr_from_bytes (0 # chunk @ replicate (31 - length chunk) 0)) (chunks 31 xs)) =
      map (\<lambda>chunk. chunk @ replicate (31 - length chunk) 0) (chunks 31 xs)"
    by simp
  then show ?thesis using concat_padded_chunks[of 0 xs] by (simp only:)
qed

subsection \<open>Two counts of the flattened fields\<close>

lemma count_fields_size:
  "count_abi_type_fields t = abi_type_size t"
  "count_params_fields ps = params_size ps"
  "count_types_fields ts = types_size ts"
  by (induction t and ps and ts rule: abi_type_size_params_size_types_size.induct)
    (simp_all add: mult.commute)

subsection \<open>Which decoded value stands for an encoded one\<close>

text \<open>
  \<open>represents t v d\<close>: the value \<open>v\<close>, encoded at type \<open>t\<close>, is read back as \<open>d\<close>. The side conditions
  are those under which the code round trips: signed integers fit their width (width 127 is left
  out, its negative values overflow \<open>i128\<close>), strings have no zero byte, an address struct occupies one
  field, the padding of a bounded vector is itself the encoding of a value.
\<close>

definition plain_struct :: "abi_type \<Rightarrow> bool" where
  "plain_struct t \<longleftrightarrow> \<not> is_address_struct t \<and> \<not> is_function_selector_struct t"

inductive represents :: "abi_type \<Rightarrow> abi_value \<Rightarrow> abi_decoded \<Rightarrow> bool" where
  rep_field: "represents TField (VField f) (DField f)"
| rep_boolean: "represents TBoolean (VBoolean b) (DBoolean b)"
| rep_unsigned: "sign \<noteq> ''signed'' \<Longrightarrow> represents (TInteger sign width) (VInteger i) (DInteger i)"
| rep_wide: "width \<ge> 128 \<Longrightarrow> represents (TInteger sign width) (VInteger i) (DInteger i)"
| rep_signed: "0 < unat width \<Longrightarrow> unat width < 127 \<Longrightarrow>
    - (2 ^ (unat width - 1)) \<le> sint i \<Longrightarrow> sint i < 2 ^ (unat width - 1) \<Longrightarrow>
    represents (TInteger sign width) (VInteger i) (DInteger i)"
| rep_array: "length vs = len \<Longrightarrow> length ds = len \<Longrightarrow>
    (\<forall>i < len. represents element (vs ! i) (ds ! i)) \<Longrightarrow>
    represents (TArray element len) (VArray vs) (DArray ds)"
| rep_string: "length s \<le> len \<Longrightarrow> CHR 0x00 \<notin> set s \<Longrightarrow> represents (TString len) (VString s) (DString s)"
| rep_aztec_address: "is_aztec_address_struct (TStruct name flds) \<Longrightarrow>
    abi_type_size (TStruct name flds) = 1 \<Longrightarrow>
    represents (TStruct name flds) (VField f) (DAddress (AztecAddress f))"
| rep_eth_address: "is_eth_address_struct (TStruct name flds) \<Longrightarrow>
    \<not> is_aztec_address_struct (TStruct name flds) \<Longrightarrow> abi_type_size (TStruct name flds) = 1 \<Longrightarrow>
    represents (TStruct name flds) (VField f) (DField f)"
| rep_wrapped: "plain_struct (TStruct name flds) \<Longrightarrow> is_wrapped_field_struct (TStruct name flds) \<Longrightarrow>
    v = VField f \<or> (\<exists>m. v = VStruct m \<and> map_of m ''inner'' = Some (VField f)) \<Longrightarrow>
    represents (TStruct name flds) v (DStruct [(''inner'', DField f)])"
| rep_option_bare: "plain_struct (TStruct name [AbiParameter n0 TBoolean v0, AbiParameter n1 t1 v1]) \<Longrightarrow>
    is_option_struct (TStruct name [AbiParameter n0 TBoolean v0, AbiParameter n1 t1 v1]) \<Longrightarrow>
    (\<forall>m. v \<noteq> VStruct m) \<Longrightarrow> represents t1 v d \<Longrightarrow>
    represents (TStruct name [AbiParameter n0 TBoolean v0, AbiParameter n1 t1 v1]) v d"
| rep_option: "plain_struct (TStruct name [AbiParameter n0 TBoolean v0, AbiParameter n1 t1 v1]) \<Longrightarrow>
    is_option_struct (TStruct name [AbiParameter n0 TBoolean v0, AbiParameter n1 t1 v1]) \<Longrightarrow>
    map_of m ''_is_some'' = Some (VBoolean b) \<Longrightarrow> map_of m ''_value'' = Some v \<Longrightarrow> represents t1 v d \<Longrightarrow>
    represents (TStruct name [AbiParameter n0 TBoolean v0, AbiParameter n1 t1 v1]) (VStruct m)
      (if b then d else DNone)"
| rep_bounded_vec:
    "plain_struct (TStruct name [AbiParameter n0 (TArray element max_len) v0, AbiParameter n1 t1 v1]) \<Longrightarrow>
    is_bounded_vec_struct
      (TStruct name [AbiParameter n0 (TArray element max_len) v0, AbiParameter n1 t1 v1]) \<Longrightarrow>
    abi_type_size t1 = 1 \<Longrightarrow> length vs \<le> max_len \<Longrightarrow> length vs < 2 ^ 64 \<Longrightarrow> length ds = length vs \<Longrightarrow>
    (\<forall>i < length vs. represents element (vs ! i) (ds ! i)) \<Longrightarrow>
    represents element z dz \<Longrightarrow> encode_value element z = Inr (replicate (abi_type_size element) 0) \<Longrightarrow>
    represents (TStruct name [AbiParameter n0 (TArray element max_len) v0, AbiParameter n1 t1 v1])
      (VArray vs) (DArray ds)"
| rep_struct: "plain_struct (TStruct name flds) \<Longrightarrow> \<not> is_wrapped_field_struct (TStruct name flds) \<Longrightarrow>
    \<not> is_bounded_vec_struct (TStruct name flds) \<Longrightarrow> \<not> is_option_struct (TStruct name flds) \<Longrightarrow>
    length vs = length flds \<Longrightarrow> length ds = length flds \<Longrightarrow>
    (\<forall>i < length flds. map_of m (param_name (flds ! i)) = Some (vs ! i)) \<Longrightarrow>
    (\<forall>i < length flds. represents (param_typ (flds ! i)) (vs ! i) (ds ! i)) \<Longrightarrow>
    represents (TStruct name flds) (VStruct m)
      (DStruct (collect_struct (zip (map param_name flds) ds)))"
| rep_tuple: "length vs = length elements \<Longrightarrow> length ds = length elements \<Longrightarrow>
    (\<forall>i < length elements. represents (elements ! i) (vs ! i) (ds ! i)) \<Longrightarrow>
    represents (TTuple elements) (VTuple vs) (DTuple ds)"

subsection \<open>Reading a segment of the input\<close>

text \<open>\<open>g\<close> reads exactly the fields \<open>fs\<close>, wherever they stand in the input, and returns \<open>x\<close>.\<close>

definition reads :: "(fr list \<Rightarrow> (nat, 'a) op) \<Rightarrow> fr list \<Rightarrow> 'a \<Rightarrow> bool" where
  "reads g fs x \<longleftrightarrow>
     (\<forall>pre post. g (pre @ fs @ post) (length pre) = (Inr x, length pre + length fs))"

lemma reads_ret [simp]: "reads (\<lambda>input. ret x) [] x"
  by (simp add: reads_def ret_def)

lemma reads_take [simp]: "reads take_field [f] f"
  by (simp add: reads_def take_field_def)

lemma reads_seq:
  assumes "reads g fs x" and "reads (h x) gs y"
  shows "reads (\<lambda>input. seq (g input) (\<lambda>x. h x input)) (fs @ gs) y"
  unfolding reads_def
proof (intro allI)
  fix pre post
  have "g (pre @ (fs @ gs) @ post) (length pre) = (Inr x, length (pre @ fs))"
    using assms(1) by (simp add: reads_def)
  moreover have "h x (pre @ (fs @ gs) @ post) (length (pre @ fs)) = (Inr y, length (pre @ fs) + length gs)"
    using assms(2) unfolding reads_def by (metis append.assoc)
  ultimately show "seq (g (pre @ (fs @ gs) @ post)) (\<lambda>x. h x (pre @ (fs @ gs) @ post)) (length pre) =
      (Inr y, length pre + length (fs @ gs))"
    by (simp add: seq_apply_Inr)
qed

lemma reads_map:
  assumes "reads g fs x" shows "reads (\<lambda>input. seq (g input) (\<lambda>x. ret (f x))) fs (f x)"
  using reads_seq[OF assms, of "\<lambda>x input. ret (f x)" "[]" "f x"] by simp

lemma reads_map_op:
  assumes "length fss = length xs" and "length ds = length xs"
    and "\<And>i. i < length xs \<Longrightarrow> reads (g (xs ! i)) (fss ! i) (ds ! i)"
  shows "reads (\<lambda>input. map_op (\<lambda>x. g x input) xs) (concat fss) ds"
  using assms
proof (induction xs arbitrary: fss ds)
  case (Cons x xs)
  then obtain fs fss' d ds' where split: "fss = fs # fss'" "ds = d # ds'"
    by (cases fss; cases ds) auto
  have "reads (\<lambda>input. map_op (\<lambda>x. g x input) xs) (concat fss') ds'"
    using Cons.prems split by (intro Cons.IH) force+
  from reads_map[OF this, of "\<lambda>ys. d # ys"]
  have "reads (\<lambda>input. seq (map_op (\<lambda>x. g x input) xs) (\<lambda>ys. ret (d # ys))) (concat fss') (d # ds')" .
  moreover have "reads (g x) fs d" using Cons.prems(3)[of 0] split by simp
  ultimately have "reads (\<lambda>input. seq (g x input)
      (\<lambda>y. seq (map_op (\<lambda>x. g x input) xs) (\<lambda>ys. ret (y # ys)))) (fs @ concat fss') (d # ds')"
    by (intro reads_seq[where h = "\<lambda>y input. seq (map_op (\<lambda>x. g x input) xs) (\<lambda>ys. ret (y # ys))"])
  then show ?case by (simp add: split)
qed simp

lemma reads_repeat:
  assumes "length fss = n" and "length ds = n" and "\<And>i. i < n \<Longrightarrow> reads g (fss ! i) (ds ! i)"
  shows "reads (\<lambda>input. map_op (\<lambda>_. g input) [0..<n]) (concat fss) ds"
  using reads_map_op[of fss "[0..<n]" ds "\<lambda>_. g"] assms by simp

lemma reads_skip: "reads (\<lambda>input. skip_fields input (length fs)) fs ()"
proof (induction fs)
  case (Cons f fs)
  from reads_seq[OF reads_take[of f] Cons] show ?case by simp
qed simp

lemma reads_take_then:
  "reads (h f) gs y \<Longrightarrow> reads (\<lambda>input. seq (take_field input) (\<lambda>x. h x input)) (f # gs) y"
  using reads_seq[OF reads_take] by simp

lemma byte_field_byte: "unat (ucast (fr_to_usize (byte_field c)) :: u8) = of_char c"
proof -
  have lt: "(of_char c :: nat) < 256" by (metis mod_less_divisor of_char_mod_256 zero_less_numeral)
  have "(of_char c :: u64) = of_nat (of_char c)" by (simp only: of_nat_of_char)
  moreover have small: "of_char c mod 2 ^ 64 = (of_char c :: nat)"
    by (rule mod_less) (rule less_trans[OF lt], simp)
  ultimately have "unat (of_char c :: u64) = of_char c"
    by (simp add: unsigned_of_nat take_bit_eq_mod)
  then have "unat (fr_to_usize (byte_field c)) = of_char c"
    using small by (simp add: unat_fr_to_usize byte_field_def)
  then show ?thesis by (simp add: unsigned_ucast_eq take_bit_eq_mod)
qed

lemma fr_to_usize_0 [simp]: "fr_to_usize 0 = 0"
proof -
  have "unat (fr_to_usize 0) = 0" by (simp add: unat_fr_to_usize)
  then show ?thesis by (simp add: unat_eq_zero)
qed

lemma reads_chars:
  assumes "CHR 0x00 \<notin> set s" and "length s \<le> n"
  shows "reads (\<lambda>input. decode_chars input n) (map byte_field s @ replicate (n - length s) 0) s"
  using assms
proof (induction n arbitrary: s)
  case (Suc n)
  show ?case
  proof (cases s)
    case Nil
    have "reads (\<lambda>input. seq (skip_fields input n) (\<lambda>_. ret [])) (replicate n 0) []"
      using reads_map[OF reads_skip[of "replicate n 0"], of "\<lambda>_. []"] by simp
    then show ?thesis
      unfolding decode_chars.simps Nil
      by (simp, intro reads_take_then) simp
  next
    case (Cons c cs)
    have "of_char c \<noteq> (0 :: nat)"
    proof
      assume "of_char c = (0 :: nat)"
      then have "char_of (of_char c :: nat) = CHR 0x00" by (simp only: char_of_def) simp
      with Suc.prems Cons show False by simp
    qed
    then have nz: "(ucast (fr_to_usize (byte_field c)) :: u8) \<noteq> 0"
      using byte_field_byte[of c] by auto
    have "reads (\<lambda>input. decode_chars input n) (map byte_field cs @ replicate (n - length cs) 0) cs"
      using Suc.prems Cons by (intro Suc.IH) auto
    from reads_map[OF this, of "\<lambda>cs. c # cs"] show ?thesis
      unfolding decode_chars.simps Cons
      by (simp, intro reads_take_then) (simp add: nz byte_field_byte)
  qed
qed simp

subsection \<open>Properties\<close>

text \<open>
  A byte buffer packed into fields is recovered: whenever \<open>buffer_as_fields\<close> accepts the buffer,
  \<open>buffer_from_fields\<close> returns it unchanged, whatever padding follows.
\<close>

lemma buffer_roundtrip:
  assumes "buffer_as_fields input target_length = Inr fs" and "length input < 2 ^ 64"
  shows "length fs = target_length \<and> buffer_from_fields fs = Inr input"
proof -
  let ?len = "fr_from_u64 (of_nat (length input))"
  let ?chunks = "map (\<lambda>chunk. fr_from_bytes (0 # chunk @ replicate (31 - length chunk) 0)) (chunks 31 input)"
  obtain j where fs: "fs = ?len # ?chunks @ replicate j 0" and len: "length fs = target_length"
    using assms(1)
    by (auto simp: buffer_as_fields_def Let_def resize_def split: if_splits)
  obtain k where k: "concat (map (\<lambda>f. drop 1 (fr_to_be_bytes f)) ?chunks) = input @ replicate k 0"
    using buffer_payload[of input] by blast
  have "unat (of_nat (length input) :: u64) = length input"
    using assms(2) by (simp add: unsigned_of_nat take_bit_eq_mod)
  then have "unat (fr_to_usize ?len) = length input"
    using assms(2) by (simp add: unat_fr_to_usize)
  then show ?thesis
    using k by (simp add: buffer_from_fields_def fs len[unfolded fs, simplified])
qed

text \<open>
  The two implementations of the flattened size of a type agree.
\<close>

lemma field_counts_agree: "count_abi_type_fields t = abi_type_size t"
  by (rule count_fields_size)

end
