(* ===== verification/Abi_Roundtrip.thy ===== *)
theory Abi_Roundtrip
  imports Abi_Codec
begin

text \<open>
  The decoder inverts the encoder: for every type and value related by \<open>represents\<close>, the encoder
  succeeds, produces exactly \<open>abi_type_size\<close> field elements, and the decoder reads them back and
  consumes exactly them. The proof goes by induction on \<open>represents\<close>, one lemma per constructor.
\<close>

subsection \<open>Integers\<close>

lemma raw_of_u128:
  "(of_nat (of_be_bytes (drop 16 (fr_to_be_bytes (fr_from_u128 w)))) :: 128 word) = w"
proof -
  have "drop 16 (be_bytes 32 (unat w)) = be_bytes 16 (unat w)"
    using be_bytes_split[of 16 16 "unat w"] by simp
  moreover have "of_be_bytes (be_bytes 16 (unat w)) = unat w mod 256 ^ 16"
    by (rule of_be_bytes_be_bytes)
  ultimately have "of_be_bytes (drop 16 (fr_to_be_bytes (fr_from_u128 w))) = unat w mod 256 ^ 16"
    by (simp add: fr_to_be_bytes_def)
  moreover have "unat w < 256 ^ 16" using unsigned_less[of w, where ?'a = nat] by simp
  ultimately show ?thesis by (simp add: mod_less)
qed

lemma sint_i128: "- (2 ^ 127) \<le> n \<Longrightarrow> n < 2 ^ 127 \<Longrightarrow> sint (word_of_int n :: 128 word) = n"
  by (simp add: signed_of_int signed_take_bit_int_eq_self)

lemma uint_u128: "0 \<le> n \<Longrightarrow> n < 2 ^ 127 \<Longrightarrow> uint (word_of_int n :: 128 word) = n"
  by (simp add: unsigned_of_int take_bit_int_eq_self)

lemma push_bit_i128: "push_bit k (1 :: 128 word) = word_of_int (2 ^ k)"
  by (simp add: push_bit_eq_mult)

lemma signed_integer_roundtrip:
  assumes w: "0 < unat width" "unat width < 127"
    and i: "- (2 ^ (unat width - 1)) \<le> sint i" "sint i < 2 ^ (unat width - 1)"
  shows "\<exists>f. encode_integer ''signed'' width i = Inr f \<and> decode_integer ''signed'' width f = Inr i"
proof -
  let ?k = "unat width" and ?h = "2 ^ (unat width - 1) :: int"
  have pow: "(2 :: int) ^ ?k = 2 * ?h" using w(1) by (cases ?k) auto
  have hb: "2 * ?h \<le> 2 ^ 126" unfolding pow[symmetric] using w(2) by (intro power_increasing) auto
  have hp: "0 < ?h" by simp
  have ne: "width \<noteq> 0" using w(1) by auto
  have width: "\<not> width \<ge> 128" "width \<noteq> 0" "unat (width - 1) = ?k - 1"
    using w ne unat_minus_one[OF ne] by (auto simp: word_le_nat_alt)
  have half: "uint (push_bit (?k - 1) (1 :: 128 word)) = ?h"
    unfolding push_bit_i128 using hb hp by (intro uint_u128) auto
  have full: "sint (push_bit ?k (1 :: 128 word)) = 2 * ?h"
    unfolding push_bit_i128 pow
  proof (rule sint_i128)
    have "0 \<le> 2 * ?h" by simp
    then show "- (2 ^ 127) \<le> 2 * ?h" by (rule order_trans[rotated]) simp
  qed (use hb in simp)
  show ?thesis
  proof (cases "sint i < 0")
    case True
    define n where "n = sint i + 2 * ?h"
    have n: "?h \<le> n" "0 \<le> n" "n < 2 ^ 127" using i True hb hp by (auto simp: n_def)
    have u: "uint (word_of_int n :: 128 word) = n" by (rule uint_u128[OF n(2,3)])
    have s: "sint (word_of_int n :: 128 word) = n"
      by (rule sint_i128[OF _ n(3)]) (use n(2) in simp)
    have add: "i128_add i (push_bit ?k 1) = Inr (word_of_int n)"
      unfolding i128_add_def full n_def[symmetric] using n by (simp add: i128_checked_def)
    have "i128_checked (sint i) = Inr i" using i hb by (simp add: i128_checked_def)
    moreover have "n - 2 * ?h = sint i" by (simp add: n_def)
    ultimately have sub: "i128_sub (word_of_int n) (push_bit ?k 1) = Inr i"
      by (simp only: i128_sub_def s full)
    have "push_bit (?k - 1) 1 \<le> (word_of_int n :: 128 word)"
      unfolding word_le_def half u by (rule n(1))
    with True width add sub show ?thesis
      by (simp add: encode_integer_def decode_integer_def raw_of_u128 Let_def)
  next
    case False
    have "uint i = sint i" using False by (intro uint_nonneg_sint) simp
    then have "\<not> push_bit (?k - 1) 1 \<le> i" unfolding word_le_def half using i(2) by simp
    with False width show ?thesis
      by (simp add: encode_integer_def decode_integer_def raw_of_u128 Let_def)
  qed
qed

subsection \<open>The round trip\<close>

definition codec :: "abi_type \<Rightarrow> abi_value \<Rightarrow> abi_decoded \<Rightarrow> fr list \<Rightarrow> bool" where
  "codec t v d fs \<longleftrightarrow>
     encode_value t v = Inr fs \<and> length fs = abi_type_size t \<and> reads (decode_next t) fs d"

lemma map_result_nth:
  assumes "length ys = length xs" and "\<And>i. i < length xs \<Longrightarrow> f (xs ! i) = Inr (ys ! i)"
  shows "map_result f xs = Inr ys"
  using assms
proof (induction xs arbitrary: ys)
  case (Cons x xs)
  then obtain y ys' where ys: "ys = y # ys'" by (cases ys) auto
  have "map_result f xs = Inr ys'" using Cons.prems ys by (intro Cons.IH) force+
  moreover have "f x = Inr y" using Cons.prems(2)[of 0] ys by simp
  ultimately show ?case by (simp add: ys)
qed simp

text \<open>The encodings of the elements of a list, chosen together.\<close>

lemma codec_list:
  assumes "\<And>i. i < n \<Longrightarrow> \<exists>fs. codec (T i) (vs ! i) (ds ! i) fs"
  obtains fss where "length fss = n" and "\<And>i. i < n \<Longrightarrow> codec (T i) (vs ! i) (ds ! i) (fss ! i)"
  using assms Skolem_list_nth[of n "\<lambda>i fs. codec (T i) (vs ! i) (ds ! i) fs"] by blast

lemma concat_result_Inr [simp]: "concat_result (Inr xss) = Inr (concat xss)"
  by (simp add: concat_result_def)

lemma length_concat_const:
  "(\<And>i. i < length xss \<Longrightarrow> length (xss ! i) = k) \<Longrightarrow> length (concat xss) = length xss * k"
proof (induction xss)
  case (Cons xs xss)
  have "length (concat xss) = length xss * k" using Cons.prems by (intro Cons.IH) force
  moreover have "length xs = k" using Cons.prems[of 0] by simp
  ultimately show ?case by simp
qed simp

lemma params_size_sum: "params_size ps = sum_list (map (\<lambda>p. abi_type_size (param_typ p)) ps)"
proof (induction ps)
  case (Cons p ps)
  then show ?case by (cases p) simp
qed simp

lemma types_size_sum: "types_size ts = sum_list (map abi_type_size ts)"
  by (induction ts) simp_all

lemma length_concat_sum:
  assumes "length xss = length ts" and "\<And>i. i < length ts \<Longrightarrow> length (xss ! i) = g (ts ! i)"
  shows "length (concat xss) = sum_list (map g ts)"
proof -
  have "map length xss = map g ts" using assms by (intro nth_equalityI) auto
  then show ?thesis by (simp add: length_concat)
qed

lemma codec_integer:
  assumes "encode_integer sign width i = Inr f" and "decode_integer sign width f = Inr i"
  shows "codec (TInteger sign width) (VInteger i) (DInteger i) [f]"
proof -
  have "reads (\<lambda>input. seq (lift_result (decode_integer sign width f)) (\<lambda>i. ret (DInteger i))) [] (DInteger i)"
    by (simp add: assms(2) reads_def seq_def lift_result_def ret_def)
  then have "reads (decode_next (TInteger sign width)) [f] (DInteger i)"
    unfolding decode_next.simps by (intro reads_take_then)
  with assms(1) show ?thesis by (simp add: codec_def)
qed

lemma codec_array:
  assumes "length vs = len" and "length ds = len"
    and "\<And>i. i < len \<Longrightarrow> \<exists>fs. codec element (vs ! i) (ds ! i) fs"
  shows "\<exists>fs. encode_value (TArray element len) (VArray vs) = Inr fs \<and>
    concat_result (map_result (\<lambda>item. encode_value element item) vs) = Inr fs \<and>
    length fs = len * abi_type_size element \<and>
    reads (\<lambda>input. map_op (\<lambda>_. decode_next element input) [0..<len]) fs ds"
proof -
  obtain fss where fss: "length fss = len" "\<And>i. i < len \<Longrightarrow> codec element (vs ! i) (ds ! i) (fss ! i)"
    using codec_list[of len "\<lambda>_. element" vs ds] assms(3) by blast
  have "map_result (\<lambda>item. encode_value element item) vs = Inr fss"
    using fss assms by (intro map_result_nth) (auto simp: codec_def)
  moreover have "length (concat fss) = len * abi_type_size element"
    using fss by (subst length_concat_const) (auto simp: codec_def)
  moreover have "reads (\<lambda>input. map_op (\<lambda>_. decode_next element input) [0..<len]) (concat fss) ds"
    using fss assms by (intro reads_repeat) (auto simp: codec_def)
  ultimately show ?thesis using assms(1) by simp
qed

lemma is_option_not_bounded:
  "is_option_struct t \<Longrightarrow> \<not> is_bounded_vec_struct t"
  "is_option_struct t \<Longrightarrow> \<not> is_wrapped_field_struct t"
  "is_bounded_vec_struct t \<Longrightarrow> \<not> is_wrapped_field_struct t"
  by (cases t rule: is_option_struct.cases; simp)+

lemma plain_structD:
  assumes "plain_struct t"
  shows "\<not> is_address_struct t" "\<not> is_aztec_address_struct t" "\<not> is_eth_address_struct t"
    "\<not> is_function_selector_struct t"
  using assms by (auto simp: plain_struct_def is_address_struct_def)

lemma codec_take:
  "encode_value t v = Inr [f] \<Longrightarrow> abi_type_size t = 1 \<Longrightarrow>
   decode_next t = (\<lambda>input. seq (take_field input) (\<lambda>x. ret (h x))) \<Longrightarrow> codec t v (h f) [f]"
  by (simp add: codec_def reads_map)

lemma codec_option:
  assumes "plain_struct t" and "is_option_struct t"
    and t: "t = TStruct name [AbiParameter n0 TBoolean v0, AbiParameter n1 t1 v1]"
    and enc: "encode_value t v = Inr (fr_from_bool b # fs)" and fs: "codec t1 x d fs"
  shows "codec t v (if b then d else DNone) (fr_from_bool b # fs)"
proof -
  note special = plain_structD[OF assms(1)] is_option_not_bounded(1,2)[OF assms(2)] assms(2)
  have dec: "decode_next t = (\<lambda>input. seq (take_field input) (\<lambda>is_some.
      if fr_is_zero is_some then seq (skip_fields input (abi_type_size t1)) (\<lambda>_. ret DNone)
      else decode_next t1 input))"
    using special unfolding t by (auto simp: fun_eq_iff)
  have len: "length fs = abi_type_size t1" and rd: "reads (decode_next t1) fs d"
    using fs by (auto simp: codec_def)
  have zero: "fr_is_zero (fr_from_bool b) \<longleftrightarrow> \<not> b" by (simp add: fr_is_zero_def fr_from_bool_def)
  have "reads (\<lambda>input. seq (skip_fields input (abi_type_size t1)) (\<lambda>_. ret DNone)) fs DNone"
    using reads_map[OF reads_skip, of fs "\<lambda>_. DNone"] len by simp
  then have "reads (decode_next t) (fr_from_bool b # fs) (if b then d else DNone)"
    unfolding dec by (intro reads_take_then) (use rd zero in auto)
  with enc len show ?thesis by (simp add: codec_def t)
qed

lemma codec_tuple:
  assumes "length vs = length elements" and "length ds = length elements"
    and "\<And>i. i < length elements \<Longrightarrow> \<exists>fs. codec (elements ! i) (vs ! i) (ds ! i) fs"
  shows "\<exists>fs. codec (TTuple elements) (VTuple vs) (DTuple ds) fs"
proof -
  obtain fss where fss: "length fss = length elements"
    "\<And>i. i < length elements \<Longrightarrow> codec (elements ! i) (vs ! i) (ds ! i) (fss ! i)"
    using codec_list[of "length elements" "\<lambda>i. elements ! i" vs ds] assms(3) by blast
  have "map_result (\<lambda>(element, x). encode_value element x) (zip elements vs) = Inr fss"
    using fss assms(1) by (intro map_result_nth) (auto simp: codec_def)
  moreover have "length (concat fss) = sum_list (map abi_type_size elements)"
    using fss by (intro length_concat_sum) (auto simp: codec_def)
  moreover have "reads (\<lambda>input. map_op (\<lambda>element. decode_next element input) elements) (concat fss) ds"
    using fss assms(2) by (intro reads_map_op) (auto simp: codec_def)
  then have "reads (decode_next (TTuple elements)) (concat fss) (DTuple ds)"
    unfolding decode_next.simps by (rule reads_map)
  ultimately show ?thesis
    using assms(1) by (intro exI[of _ "concat fss"]) (simp add: codec_def types_size_sum)
qed

lemma codec_struct:
  assumes plain: "plain_struct (TStruct name flds)" "\<not> is_wrapped_field_struct (TStruct name flds)"
      "\<not> is_bounded_vec_struct (TStruct name flds)" "\<not> is_option_struct (TStruct name flds)"
    and len: "length vs = length flds" "length ds = length flds"
    and m: "\<And>i. i < length flds \<Longrightarrow> map_of m (param_name (flds ! i)) = Some (vs ! i)"
    and step: "\<And>i. i < length flds \<Longrightarrow> \<exists>fs. codec (param_typ (flds ! i)) (vs ! i) (ds ! i) fs"
  shows "\<exists>fs. codec (TStruct name flds) (VStruct m)
    (DStruct (collect_struct (zip (map param_name flds) ds))) fs"
proof -
  obtain fss where fss: "length fss = length flds"
    "\<And>i. i < length flds \<Longrightarrow> codec (param_typ (flds ! i)) (vs ! i) (ds ! i) (fss ! i)"
    using codec_list[of "length flds" "\<lambda>i. param_typ (flds ! i)" vs ds] step by blast
  note special = plain_structD[OF plain(1)] plain(2-)
  have "map_result (\<lambda>field. case map_of m (param_name field) of
      None \<Rightarrow> Inl (Abi ''missing struct field'')
    | Some field_value \<Rightarrow> encode_value (param_typ field) field_value) flds = Inr fss"
    using fss m by (intro map_result_nth) (auto simp: codec_def)
  then have enc: "encode_value (TStruct name flds) (VStruct m) = Inr (concat fss)"
    using special by simp
  have "length (concat fss) = sum_list (map (\<lambda>p. abi_type_size (param_typ p)) flds)"
    using fss by (intro length_concat_sum) (auto simp: codec_def)
  moreover have "reads (\<lambda>input. map_op (\<lambda>field. seq (decode_next (param_typ field) input)
      (\<lambda>d. ret (param_name field, d))) flds) (concat fss) (zip (map param_name flds) ds)"
    using fss len
    by (intro reads_map_op[where g = "\<lambda>field input. seq (decode_next (param_typ field) input)
          (\<lambda>d. ret (param_name field, d))"])
      (auto simp: codec_def intro!: reads_map)
  from reads_map[OF this, of "\<lambda>entries. DStruct (collect_struct entries)"]
  have "reads (decode_next (TStruct name flds)) (concat fss)
      (DStruct (collect_struct (zip (map param_name flds) ds)))"
    using special by (simp add: decode_next.simps(6)[abs_def])
  ultimately show ?thesis
    using enc by (intro exI[of _ "concat fss"]) (simp add: codec_def params_size_sum)
qed

lemma codec_wrapped:
  assumes plain: "plain_struct (TStruct name flds)" and wrapped: "is_wrapped_field_struct (TStruct name flds)"
    and v: "v = VField f \<or> (\<exists>m. v = VStruct m \<and> map_of m ''inner'' = Some (VField f))"
  shows "codec (TStruct name flds) v (DStruct [(''inner'', DField f)]) [f]"
proof -
  from wrapped obtain p where p: "flds = [p]" "param_name p = ''inner''" "param_typ p = TField"
    by (cases "TStruct name flds" rule: is_wrapped_field_struct.cases) auto
  then obtain vis where flds: "flds = [AbiParameter ''inner'' TField vis]" by (cases p) auto
  note special = plain_structD[OF plain] wrapped
  have enc: "encode_value (TStruct name flds) v = Inr [f]" using special v by auto
  have "reads (\<lambda>input. map_op (\<lambda>field. seq (decode_next (param_typ field) input)
      (\<lambda>d. ret (param_name field, d))) flds) (concat [[f]]) [(''inner'', DField f)]"
    unfolding flds
    by (intro reads_map_op[where g = "\<lambda>field input. seq (decode_next (param_typ field) input)
          (\<lambda>d. ret (param_name field, d))"])
      (auto intro!: reads_map)
  from reads_map[OF this, of "\<lambda>entries. DStruct (collect_struct entries)"]
  have "reads (decode_next (TStruct name flds)) [f] (DStruct [(''inner'', DField f)])"
    using special by (simp add: decode_next.simps(6)[abs_def] flds collect_struct_def)
  with enc show ?thesis by (simp add: codec_def flds)
qed

lemma concat_replicate_replicate: "concat (replicate k (replicate m x)) = replicate (k * m) x"
  by (induction k) (simp_all add: replicate_add)

lemma codec_bounded_vec:
  assumes plain: "plain_struct t" and bv: "is_bounded_vec_struct t"
    and t: "t = TStruct name [AbiParameter n0 (TArray element max_len) v0, AbiParameter n1 t1 v1]"
    and t1: "abi_type_size t1 = 1" and len: "length vs \<le> max_len" "length vs < 2 ^ 64" "length ds = length vs"
    and step: "\<And>i. i < length vs \<Longrightarrow> \<exists>fs. codec element (vs ! i) (ds ! i) fs"
    and z: "codec element z dz (replicate (abi_type_size element) 0)"
  shows "\<exists>fs. codec t (VArray vs) (DArray ds) fs"
proof -
  let ?n = "length vs" and ?k = "max_len - length vs" and ?sz = "abi_type_size element"
  let ?len = "fr_from_u64 (of_nat (length vs))"
  obtain fss where fss: "length fss = ?n" "\<And>i. i < ?n \<Longrightarrow> codec element (vs ! i) (ds ! i) (fss ! i)"
    using codec_list[of ?n "\<lambda>_. element" vs ds] step by blast
  let ?fss = "fss @ replicate ?k (replicate ?sz 0)" and ?ds = "ds @ replicate ?k dz"
  have each: "codec element ((vs @ replicate ?k z) ! i) (?ds ! i) (?fss ! i)" if "i < max_len" for i
    using that fss z len(3) by (auto simp: nth_append)
  have pad: "concat ?fss = concat fss @ replicate (?k * ?sz) 0"
    by (simp add: concat_replicate_replicate)
  have "length (concat ?fss) = length ?fss * ?sz"
    using each fss(1) len by (intro length_concat_const) (auto simp: codec_def)
  then have size: "length (concat ?fss) = max_len * ?sz" using fss(1) len by simp
  have "map_result (\<lambda>item. encode_value element item) vs = Inr fss"
    using fss by (intro map_result_nth) (auto simp: codec_def)
  then have enc: "encode_value t (VArray vs) = Inr (concat ?fss @ [?len])"
    using plain_structD[OF plain] bv is_option_not_bounded(3)[OF bv] len(1) unfolding t pad
    by simp
  have items: "reads (\<lambda>input. map_op (\<lambda>_. decode_next element input) [0..<max_len]) (concat ?fss) ?ds"
    using each fss(1) len by (intro reads_repeat) (auto simp: codec_def)
  have "unat (of_nat ?n :: u64) = ?n"
    using len(2) by (simp add: unsigned_of_nat take_bit_eq_mod)
  then have "unat (fr_to_usize ?len) = ?n"
    using len(2) by (simp add: unat_fr_to_usize)
  then have "reads (\<lambda>input. seq (take_field input) (\<lambda>len. ret (DArray (take (unat (fr_to_usize len)) ?ds))))
      [?len] (DArray ds)"
    using reads_map[OF reads_take[of ?len], of "\<lambda>len. DArray (take (unat (fr_to_usize len)) ?ds)"] len(3)
    by simp
  from reads_seq[OF items, of "\<lambda>ds input. seq (take_field input)
      (\<lambda>len. ret (DArray (take (unat (fr_to_usize len)) ds)))", OF this]
  have "reads (decode_next t) (concat ?fss @ [?len]) (DArray ds)"
    using plain_structD[OF plain] bv is_option_not_bounded(1)[of t] unfolding t
    by (auto simp: decode_next.simps(6)[abs_def])
  with enc size t1 show ?thesis
    by (intro exI[of _ "concat ?fss @ [?len]"]) (simp add: codec_def t)
qed

lemma codec_represents: "represents t v d \<Longrightarrow> \<exists>fs. codec t v d fs"
proof (induction rule: represents.induct)
  case (rep_field f)
  show ?case using codec_take[of TField "VField f" f DField] by (auto simp: fun_eq_iff)
next
  case (rep_boolean b)
  show ?case
    using codec_take[of TBoolean "VBoolean b" "fr_from_bool b" "\<lambda>f. DBoolean (\<not> fr_is_zero f)"]
    by (cases b) (auto simp: fun_eq_iff fr_is_zero_def fr_from_bool_def)
next
  case (rep_unsigned sign width i)
  then have "encode_integer sign width i = Inr (fr_from_u128 i)"
    "decode_integer sign width (fr_from_u128 i) = Inr i"
    by (simp_all add: encode_integer_def decode_integer_def raw_of_u128)
  then show ?case by (blast intro: codec_integer)
next
  case (rep_wide width sign i)
  then have "encode_integer sign width i = Inr (fr_from_u128 i)"
    "decode_integer sign width (fr_from_u128 i) = Inr i"
    by (simp_all add: encode_integer_def decode_integer_def raw_of_u128)
  then show ?case by (blast intro: codec_integer)
next
  case (rep_signed width i sign)
  have "\<exists>f. encode_integer sign width i = Inr f \<and> decode_integer sign width f = Inr i"
  proof (cases "sign = ''signed''")
    case True
    then show ?thesis using signed_integer_roundtrip[OF rep_signed] by simp
  next
    case False
    then show ?thesis by (simp add: encode_integer_def decode_integer_def raw_of_u128)
  qed
  then show ?case by (blast intro: codec_integer)
next
  case (rep_array vs len ds element)
  then obtain fs where "encode_value (TArray element len) (VArray vs) = Inr fs"
    "length fs = len * abi_type_size element"
    "reads (\<lambda>input. map_op (\<lambda>_. decode_next element input) [0..<len]) fs ds"
    using codec_array[of vs len ds element] by blast
  moreover from this(3) have "reads (decode_next (TArray element len)) fs (DArray ds)"
    unfolding decode_next.simps by (rule reads_map)
  ultimately show ?case by (intro exI[of _ fs]) (simp add: codec_def)
next
  case (rep_string s len)
  have "reads (decode_next (TString len)) (map byte_field s @ replicate (len - length s) 0) (DString s)"
    unfolding decode_next.simps by (intro reads_map reads_chars rep_string)
  then show ?case
    using rep_string(1) by (intro exI[of _ "map byte_field s @ replicate (len - length s) 0"])
      (simp add: codec_def encode_string_def)
next
  case (rep_aztec_address name flds f)
  then show ?case
    using codec_take[of "TStruct name flds" "VField f" f "\<lambda>f. DAddress (AztecAddress f)"]
    by (auto simp: fun_eq_iff is_address_struct_def)
next
  case (rep_eth_address name flds f)
  then show ?case
    using codec_take[of "TStruct name flds" "VField f" f DField]
    by (auto simp: fun_eq_iff is_address_struct_def)
next
  case (rep_option_bare name n0 v0 n1 t1 v1 v d)
  let ?t = "TStruct name [AbiParameter n0 TBoolean v0, AbiParameter n1 t1 v1]"
  obtain fs where fs: "codec t1 v d fs" using rep_option_bare by blast
  have "encode_value ?t v = Inr (1 # fs)"
    using rep_option_bare(1-3) fs plain_structD[OF rep_option_bare(1)]
      is_option_not_bounded(1,2)[OF rep_option_bare(2)]
    by (cases v) (auto simp: codec_def)
  then show ?case
    using codec_option[OF rep_option_bare(1,2) refl, where b = True and v = v and fs = fs, OF _ fs]
    by (auto simp: fr_from_bool_def)
next
  case (rep_option name n0 v0 n1 t1 v1 m b v d)
  let ?t = "TStruct name [AbiParameter n0 TBoolean v0, AbiParameter n1 t1 v1]"
  obtain fs where fs: "codec t1 v d fs" using rep_option by blast
  have "encode_value ?t (VStruct m) = Inr (fr_from_bool b # fs)"
    using rep_option(1-4) fs plain_structD[OF rep_option(1)] is_option_not_bounded(1,2)[OF rep_option(2)]
    by (auto simp: codec_def)
  then show ?case
    using codec_option[OF rep_option(1,2) refl _ fs] by blast
next
  case (rep_wrapped name flds v f)
  then show ?case by (blast intro: codec_wrapped)
next
  case (rep_bounded_vec name n0 element max_len v0 n1 t1 v1 vs ds z dz)
  then have "\<And>i. i < length vs \<Longrightarrow> \<exists>fs. codec element (vs ! i) (ds ! i) fs"
    and "codec element z dz (replicate (abi_type_size element) 0)"
    by (auto simp: codec_def)
  with rep_bounded_vec(1-6) show ?case by (blast intro: codec_bounded_vec)
next
  case (rep_struct name flds vs ds m)
  then show ?case by (intro codec_struct[of name flds vs ds m]) auto
next
  case (rep_tuple vs elements ds)
  then show ?case by (intro codec_tuple) auto
qed

lemma reads_run: "reads g fs x \<Longrightarrow> fst (g fs 0) = Inr x"
  unfolding reads_def by (metis append_Nil append_Nil2 fst_conv list.size(3))

subsection \<open>Properties\<close>


definition example_function :: function_artifact where
  "example_function =
     \<lparr>fa_name = ''transfer'', fa_function_type = Private, fa_is_initializer = False,
      fa_is_static = False, fa_is_only_self = None,
      fa_parameters = [AbiParameter ''to'' TField None,
        AbiParameter ''amount'' (TInteger ''signed'' 64) None,
        AbiParameter ''memo'' (TArray TBoolean 2) None],
      fa_return_types = [], fa_error_types = None, fa_selector = None, fa_bytecode = None,
      fa_verification_key_hash = None, fa_verification_key = None, fa_custom_attributes = None,
      fa_is_unconstrained = None, fa_debug_symbols = None\<rparr>"


end
