(* ===== verification/Note_Store.thy ===== *)
theory Note_Store
  imports Kv_Store
begin

text \<open>
  The store of discovered private notes (\<open>crates/pxe/src/stores/note_store.rs\<close>): notes keyed by
  their siloed nullifier, with secondary indexes by contract, by creation block and by
  nullification block, scope merging, nullification and rollback after a chain
  reorganisation.

  The first part translates the methods; \<open>self\<close> is the record \<open>note_store\<close>, the trait object
  plus the third-party codecs the methods call. The second part is the abstract view, four
  finite maps, the representation relation \<open>note_rep\<close> between it and the key-value store, and
  the invariant \<open>note_inv\<close> that ties the indexes to the notes. The refinement lemmas are proved
  once for every key-value store that meets \<open>kv_laws\<close>.
\<close>

subsection \<open>Data\<close>

datatype note_status = Active | Nullified | ActiveOrNullified

record stored_note =
  sn_contract_address :: aztec_address
  sn_owner :: aztec_address
  sn_storage_slot :: fr
  sn_randomness :: fr
  sn_note_nonce :: fr
  sn_note_hash :: fr
  sn_siloed_nullifier :: fr
  sn_note_data :: "fr list"
  sn_nullified :: bool
  sn_is_pending :: bool
  sn_nullification_block_number :: "u64 option"
  sn_leaf_index :: "u64 option"
  sn_block_number :: "u64 option"
  sn_tx_index_in_block :: "u64 option"
  sn_note_index_in_tx :: "u64 option"
  sn_scopes :: "aztec_address list"

record note_filter =
  nf_contract_address :: "aztec_address option"
  nf_storage_slot :: "fr option"
  nf_owner :: "aztec_address option"
  nf_status :: note_status
  nf_scopes :: "aztec_address list"
  nf_siloed_nullifier :: "fr option"

definition note_filter_default :: note_filter where
  "note_filter_default =
     \<lparr>nf_contract_address = None, nf_storage_slot = None, nf_owner = None, nf_status = Active,
      nf_scopes = [], nf_siloed_nullifier = None\<rparr>"

record ('s, 'v) note_store =
  ns_kv :: "('s, 'v) kv_store"
  ns_hex :: hex_crate
  ns_note_json :: "(stored_note, 'v) serde"
  ns_index_json :: "(string list, 'v) serde"

subsection \<open>Keys and indexes\<close>

definition note_block_prefix :: string where
  "note_block_prefix = ''note_idx:block:''"

definition nullify_block_prefix :: string where
  "nullify_block_prefix = ''note_idx:nullify_block:''"

definition note_key_by_nullifier :: "hex_crate \<Rightarrow> fr \<Rightarrow> string" where
  "note_key_by_nullifier H nullifier = ''note:'' @ fr_display H nullifier"

definition note_contract_index_key :: "hex_crate \<Rightarrow> aztec_address \<Rightarrow> string" where
  "note_contract_index_key H contract = ''note_idx:contract:'' @ address_display H contract"

definition note_block_index_key :: "u64 \<Rightarrow> string" where
  "note_block_index_key block_number = note_block_prefix @ u64_display block_number"

definition nullification_block_index_key :: "u64 \<Rightarrow> string" where
  "nullification_block_index_key block_number =
     nullify_block_prefix @ u64_display block_number"

definition note_add_to_contract_index ::
    "('s, 'v) note_store \<Rightarrow> aztec_address \<Rightarrow> fr \<Rightarrow> ('s, unit) op" where
  "note_add_to_contract_index self contract nullifier =
     add_to_index (ns_kv self) (ns_index_json self)
       (note_contract_index_key (ns_hex self) contract) (fr_display (ns_hex self) nullifier)"

definition note_remove_from_contract_index ::
    "('s, 'v) note_store \<Rightarrow> aztec_address \<Rightarrow> fr \<Rightarrow> ('s, unit) op" where
  "note_remove_from_contract_index self contract nullifier =
     remove_from_index (ns_kv self) (ns_index_json self)
       (note_contract_index_key (ns_hex self) contract) (fr_display (ns_hex self) nullifier)"

definition note_add_to_block_index ::
    "('s, 'v) note_store \<Rightarrow> u64 \<Rightarrow> fr \<Rightarrow> ('s, unit) op" where
  "note_add_to_block_index self block_number nullifier =
     add_to_index (ns_kv self) (ns_index_json self)
       (note_block_index_key block_number) (fr_display (ns_hex self) nullifier)"

definition add_to_nullification_block_index ::
    "('s, 'v) note_store \<Rightarrow> u64 \<Rightarrow> fr \<Rightarrow> ('s, unit) op" where
  "add_to_nullification_block_index self block_number nullifier =
     add_to_index (ns_kv self) (ns_index_json self)
       (nullification_block_index_key block_number) (fr_display (ns_hex self) nullifier)"

subsection \<open>Adding notes\<close>

definition push_scope :: "aztec_address \<Rightarrow> stored_note \<Rightarrow> stored_note" where
  "push_scope scope note =
     (if scope \<in> set (sn_scopes note) then note
      else note\<lparr>sn_scopes := sn_scopes note @ [scope]\<rparr>)"

text \<open>One iteration of the loop of \<open>add_notes\<close>.\<close>

definition add_notes_step ::
    "('s, 'v) note_store \<Rightarrow> aztec_address \<Rightarrow> stored_note \<Rightarrow> ('s, unit) op" where
  "add_notes_step self scope note =
     (let stored = push_scope scope note;
          key = note_key_by_nullifier (ns_hex self) (sn_siloed_nullifier stored)
      in seq (kv_get (ns_kv self) key) (\<lambda>found.
           case found of
             Some existing_bytes \<Rightarrow>
               seq (lift_result (from_slice (ns_note_json self) existing_bytes)) (\<lambda>existing.
                 kv_put (ns_kv self) key (to_vec (ns_note_json self) (push_scope scope existing)))
           | None \<Rightarrow>
               seq (kv_put (ns_kv self) key (to_vec (ns_note_json self) stored)) (\<lambda>_.
               seq (note_add_to_contract_index self (sn_contract_address stored)
                     (sn_siloed_nullifier stored)) (\<lambda>_.
                 case sn_block_number stored of
                   Some bn \<Rightarrow> note_add_to_block_index self bn (sn_siloed_nullifier stored)
                 | None \<Rightarrow> ret ()))))"

definition add_notes ::
    "('s, 'v) note_store \<Rightarrow> stored_note list \<Rightarrow> aztec_address \<Rightarrow> ('s, unit) op" where
  "add_notes self notes scope = for_each (add_notes_step self scope) notes"

definition add_note :: "('s, 'v) note_store \<Rightarrow> stored_note \<Rightarrow> ('s, unit) op" where
  "add_note self note =
     (let scope = (case sn_scopes note of s # _ \<Rightarrow> s | [] \<Rightarrow> aztec_address_zero)
      in add_notes self [note] scope)"

subsection \<open>Reading notes\<close>

fun load_notes :: "('s, 'v) note_store \<Rightarrow> string list \<Rightarrow> ('s, stored_note list) op" where
  "load_notes self [] = ret []"
| "load_notes self (nullifier_str # rest) =
     (case fr_from_hex (ns_hex self) nullifier_str of
        Inl e \<Rightarrow> load_notes self rest
      | Inr nullifier \<Rightarrow>
          seq (kv_get (ns_kv self) (note_key_by_nullifier (ns_hex self) nullifier)) (\<lambda>found.
            case found of
              None \<Rightarrow> load_notes self rest
            | Some bytes \<Rightarrow>
                seq (lift_result (from_slice (ns_note_json self) bytes)) (\<lambda>note.
                seq (load_notes self rest) (\<lambda>notes. ret (note # notes)))))"

definition get_notes_for_contract ::
    "('s, 'v) note_store \<Rightarrow> aztec_address \<Rightarrow> ('s, stored_note list) op" where
  "get_notes_for_contract self contract =
     seq (kv_get (ns_kv self) (note_contract_index_key (ns_hex self) contract)) (\<lambda>found.
       case found of
         Some bytes \<Rightarrow>
           seq (lift_result (from_slice (ns_index_json self) bytes)) (load_notes self)
       | None \<Rightarrow> ret [])"

definition get_all_notes :: "('s, 'v) note_store \<Rightarrow> ('s, stored_note list) op" where
  "get_all_notes self =
     seq (kv_list_prefix (ns_kv self) ''note:'') (\<lambda>entries.
       lift_result (map_result (\<lambda>(k, v). from_slice (ns_note_json self) v) entries))"

definition note_matches :: "note_filter \<Rightarrow> stored_note \<Rightarrow> bool" where
  "note_matches filt note \<longleftrightarrow>
     (case nf_status filt of
        Active \<Rightarrow> \<not> sn_nullified note
      | Nullified \<Rightarrow> sn_nullified note
      | ActiveOrNullified \<Rightarrow> True) \<and>
     (case nf_storage_slot filt of None \<Rightarrow> True | Some slot \<Rightarrow> sn_storage_slot note = slot) \<and>
     (case nf_owner filt of None \<Rightarrow> True | Some owner \<Rightarrow> sn_owner note = owner) \<and>
     (nf_scopes filt = [] \<or> list_ex (\<lambda>s. s \<in> set (nf_scopes filt)) (sn_scopes note)) \<and>
     (case nf_siloed_nullifier filt of
        None \<Rightarrow> True | Some nullifier \<Rightarrow> sn_siloed_nullifier note = nullifier)"

definition note_position :: "stored_note \<Rightarrow> u64 option \<times> u64 option \<times> u64 option" where
  "note_position note =
     (sn_block_number note, sn_tx_index_in_block note, sn_note_index_in_tx note)"

definition get_notes :: "('s, 'v) note_store \<Rightarrow> note_filter \<Rightarrow> ('s, stored_note list) op" where
  "get_notes self filt =
     seq (case nf_contract_address filt of
            Some contract \<Rightarrow> get_notes_for_contract self contract
          | None \<Rightarrow> get_all_notes self) (\<lambda>notes.
       ret (sort_key note_position (filter (note_matches filt) notes)))"

definition get_notes_by_slot ::
    "('s, 'v) note_store \<Rightarrow> aztec_address \<Rightarrow> fr \<Rightarrow> ('s, stored_note list) op" where
  "get_notes_by_slot self contract storage_slot =
     get_notes self
       (note_filter_default\<lparr>nf_contract_address := Some contract,
          nf_storage_slot := Some storage_slot, nf_status := Active\<rparr>)"

definition has_note :: "('s, 'v) note_store \<Rightarrow> aztec_address \<Rightarrow> fr \<Rightarrow> ('s, bool) op" where
  "has_note self contract note_hash =
     seq (get_notes_for_contract self contract) (\<lambda>notes.
       ret (list_ex (\<lambda>n. sn_note_hash n = note_hash \<and> \<not> sn_nullified n) notes))"

subsection \<open>Nullification\<close>

definition apply_nullifiers_step :: "('s, 'v) note_store \<Rightarrow> fr \<times> u64 \<Rightarrow> ('s, unit) op" where
  "apply_nullifiers_step self = (\<lambda>(nullifier, block_number).
     let key = note_key_by_nullifier (ns_hex self) nullifier in
     seq (kv_get (ns_kv self) key) (\<lambda>found.
       case found of
         None \<Rightarrow> ret ()
       | Some bytes \<Rightarrow>
           seq (lift_result (from_slice (ns_note_json self) bytes)) (\<lambda>note.
             if sn_nullified note then ret ()
             else
               seq (kv_put (ns_kv self) key (to_vec (ns_note_json self)
                     (note\<lparr>sn_nullified := True,
                           sn_nullification_block_number := Some block_number\<rparr>))) (\<lambda>_.
                 add_to_nullification_block_index self block_number nullifier))))"

definition apply_nullifiers ::
    "('s, 'v) note_store \<Rightarrow> (fr \<times> u64) list \<Rightarrow> ('s, unit) op" where
  "apply_nullifiers self nullifiers = for_each (apply_nullifiers_step self) nullifiers"

definition nullify_note ::
    "('s, 'v) note_store \<Rightarrow> aztec_address \<Rightarrow> fr \<Rightarrow> fr \<Rightarrow> ('s, unit) op" where
  "nullify_note self contract storage_slot note_hash =
     seq (get_notes_for_contract self contract) (\<lambda>notes.
       case find (\<lambda>note. sn_storage_slot note = storage_slot \<and> sn_note_hash note = note_hash) notes of
         Some note \<Rightarrow> apply_nullifiers self [(sn_siloed_nullifier note, 0)]
       | None \<Rightarrow> ret ())"

subsection \<open>Rollback\<close>

definition unnullify :: "stored_note \<Rightarrow> stored_note" where
  "unnullify note = note\<lparr>sn_nullified := False, sn_nullification_block_number := None\<rparr>"

definition rollback_unnullify :: "('s, 'v) note_store \<Rightarrow> string \<Rightarrow> ('s, unit) op" where
  "rollback_unnullify self nullifier_str =
     (case fr_from_hex (ns_hex self) nullifier_str of
        Inl e \<Rightarrow> ret ()
      | Inr nullifier \<Rightarrow>
          let note_key = note_key_by_nullifier (ns_hex self) nullifier in
          seq (kv_get (ns_kv self) note_key) (\<lambda>found.
            case found of
              None \<Rightarrow> ret ()
            | Some note_bytes \<Rightarrow>
                seq (lift_result (from_slice (ns_note_json self) note_bytes)) (\<lambda>note.
                  kv_put (ns_kv self) note_key (to_vec (ns_note_json self) (unnullify note)))))"

definition rollback_delete :: "('s, 'v) note_store \<Rightarrow> string \<Rightarrow> ('s, unit) op" where
  "rollback_delete self nullifier_str =
     (case fr_from_hex (ns_hex self) nullifier_str of
        Inl e \<Rightarrow> ret ()
      | Inr nullifier \<Rightarrow>
          let note_key = note_key_by_nullifier (ns_hex self) nullifier in
          seq (kv_get (ns_kv self) note_key) (\<lambda>found.
          seq (case found of
                 None \<Rightarrow> ret ()
               | Some note_bytes \<Rightarrow>
                   seq (lift_result (from_slice (ns_note_json self) note_bytes)) (\<lambda>note.
                     note_remove_from_contract_index self (sn_contract_address note) nullifier))
              (\<lambda>_. kv_delete (ns_kv self) note_key)))"

definition note_rollback :: "('s, 'v) note_store \<Rightarrow> u64 \<Rightarrow> u64 \<Rightarrow> ('s, unit) op" where
  "note_rollback self block_number synced_block_number =
     seq (kv_list_prefix (ns_kv self) nullify_block_prefix) (\<lambda>entries.
     seq (for_each (prune_index_entry (ns_kv self) (ns_index_json self) nullify_block_prefix
            (rollback_unnullify self) block_number) entries) (\<lambda>_.
     seq (kv_list_prefix (ns_kv self) note_block_prefix) (\<lambda>block_entries.
       for_each (prune_index_entry (ns_kv self) (ns_index_json self) note_block_prefix
         (rollback_delete self) block_number) block_entries)))"

subsection \<open>The abstract note store\<close>

text \<open>
  The store as four finite maps: the notes by siloed nullifier, and the nullifiers listed for
  each contract, creation block and nullification block.
\<close>

record note_abs =
  abs_notes :: "fr \<Rightarrow> stored_note option"
  abs_contract :: "aztec_address \<Rightarrow> fr list option"
  abs_block :: "u64 \<Rightarrow> fr list option"
  abs_nullify :: "u64 \<Rightarrow> fr list option"

definition note_store_ok :: "('s, 'v) note_store \<Rightarrow> bool" where
  "note_store_ok self \<longleftrightarrow>
     hex_ok (ns_hex self) \<and> serde_ok (ns_note_json self) \<and> serde_ok (ns_index_json self)"

definition note_rep :: "('s, 'v) note_store \<Rightarrow> (string \<Rightarrow> 'v option) \<Rightarrow> note_abs \<Rightarrow> bool" where
  "note_rep self m a \<longleftrightarrow>
     (\<forall>n. m (note_key_by_nullifier (ns_hex self) n) =
        map_option (to_vec (ns_note_json self)) (abs_notes a n)) \<and>
     (\<forall>c. m (note_contract_index_key (ns_hex self) c) =
        map_option (to_vec (ns_index_json self))
          (map_option (map (fr_display (ns_hex self))) (abs_contract a c))) \<and>
     block_index (ns_index_json self) note_block_prefix m
       (\<lambda>b. map_option (map (fr_display (ns_hex self))) (abs_block a b)) \<and>
     block_index (ns_index_json self) nullify_block_prefix m
       (\<lambda>b. map_option (map (fr_display (ns_hex self))) (abs_nullify a b)) \<and>
     (\<forall>k. prefix ''note:'' k \<longrightarrow> m k \<noteq> None \<longrightarrow>
        (\<exists>n. k = note_key_by_nullifier (ns_hex self) n))"

definition abs_add_note :: "aztec_address \<Rightarrow> stored_note \<Rightarrow> note_abs \<Rightarrow> note_abs" where
  "abs_add_note scope note a =
     (let n = sn_siloed_nullifier note; c = sn_contract_address note in
      case abs_notes a n of
        Some existing \<Rightarrow> a\<lparr>abs_notes := (abs_notes a)(n \<mapsto> push_scope scope existing)\<rparr>
      | None \<Rightarrow>
          a\<lparr>abs_notes := (abs_notes a)(n \<mapsto> push_scope scope note),
            abs_contract := (abs_contract a)(c \<mapsto> index_add n (index_entries (abs_contract a c))),
            abs_block :=
              (case sn_block_number note of
                 None \<Rightarrow> abs_block a
               | Some bn \<Rightarrow>
                   (abs_block a)(bn \<mapsto> index_add n (index_entries (abs_block a bn))))\<rparr>)"

definition abs_apply_nullifier :: "fr \<times> u64 \<Rightarrow> note_abs \<Rightarrow> note_abs" where
  "abs_apply_nullifier = (\<lambda>(n, bn) a.
     case abs_notes a n of
       None \<Rightarrow> a
     | Some note \<Rightarrow>
         if sn_nullified note then a
         else a\<lparr>abs_notes := (abs_notes a)(n \<mapsto>
                  note\<lparr>sn_nullified := True, sn_nullification_block_number := Some bn\<rparr>),
                abs_nullify := (abs_nullify a)(bn \<mapsto>
                  index_add n (index_entries (abs_nullify a bn)))\<rparr>)"

text \<open>What a rollback to block \<open>b\<close> does to one note.\<close>

definition rollback_note :: "u64 \<Rightarrow> stored_note \<Rightarrow> stored_note option" where
  "rollback_note b note =
     (if (case sn_block_number note of None \<Rightarrow> False | Some c \<Rightarrow> b < c) then None
      else if (case sn_nullification_block_number note of None \<Rightarrow> False | Some c \<Rightarrow> b < c)
        then Some (unnullify note)
      else Some note)"

text \<open>
  The indexes agree with the notes. Block \<open>0\<close> of the nullification index is left out: it is
  the placeholder for an unknown block, and no rollback reaches it.
\<close>

definition note_inv :: "note_abs \<Rightarrow> bool" where
  "note_inv a \<longleftrightarrow>
     (\<forall>n x. abs_notes a n = Some x \<longrightarrow>
        sn_siloed_nullifier x = n \<and>
        (sn_nullified x \<longleftrightarrow> sn_nullification_block_number x \<noteq> None) \<and>
        (\<forall>c b. sn_block_number x = Some c \<longrightarrow> sn_nullification_block_number x = Some b \<longrightarrow>
           b = 0 \<or> c \<le> b)) \<and>
     (\<forall>c n. n \<in> set (index_entries (abs_contract a c)) \<longleftrightarrow>
        (\<exists>x. abs_notes a n = Some x \<and> sn_contract_address x = c)) \<and>
     (\<forall>c. distinct (index_entries (abs_contract a c))) \<and>
     (\<forall>b n. n \<in> set (index_entries (abs_block a b)) \<longleftrightarrow>
        (\<exists>x. abs_notes a n = Some x \<and> sn_block_number x = Some b)) \<and>
     (\<forall>b n. b \<noteq> 0 \<longrightarrow> (n \<in> set (index_entries (abs_nullify a b)) \<longleftrightarrow>
        (\<exists>x. abs_notes a n = Some x \<and> sn_nullification_block_number x = Some b)))"

subsection \<open>Keys do not collide\<close>

lemmas note_key_defs = note_key_by_nullifier_def note_contract_index_key_def
  note_block_index_key_def nullification_block_index_key_def

lemma note_keys_distinct [simp]:
  "note_key_by_nullifier H n \<noteq> note_contract_index_key H c"
  "note_contract_index_key H c \<noteq> note_key_by_nullifier H n"
  "\<not> prefix note_block_prefix (note_key_by_nullifier H n)"
  "\<not> prefix nullify_block_prefix (note_key_by_nullifier H n)"
  "\<not> prefix note_block_prefix (note_contract_index_key H c)"
  "\<not> prefix nullify_block_prefix (note_contract_index_key H c)"
  "\<not> prefix ''note:'' (note_contract_index_key H c)"
  "prefix ''note:'' (note_key_by_nullifier H n)"
  "note_key_by_nullifier H n \<noteq> note_block_prefix @ s"
  "note_key_by_nullifier H n \<noteq> nullify_block_prefix @ s"
  "note_contract_index_key H c \<noteq> note_block_prefix @ s"
  "note_contract_index_key H c \<noteq> nullify_block_prefix @ s"
  "\<not> prefix note_block_prefix (nullify_block_prefix @ s)"
  "\<not> prefix nullify_block_prefix (note_block_prefix @ s)"
  "\<not> prefix ''note:'' (nullify_block_prefix @ s)"
  "\<not> prefix ''note:'' (note_block_prefix @ s)"
  by (auto simp: note_key_defs note_block_prefix_def nullify_block_prefix_def)

lemmas note_keys_distinct_sym [simp] = note_keys_distinct(9-12)[symmetric]

lemma note_keys_inject [simp]:
  assumes "hex_ok H"
  shows "note_key_by_nullifier H n = note_key_by_nullifier H n' \<longleftrightarrow> n = n'"
    and "note_contract_index_key H c = note_contract_index_key H c' \<longleftrightarrow> c = c'"
  using assms by (simp_all add: note_key_defs)

subsection \<open>Updating the representation\<close>

lemma note_repD:
  assumes "note_rep self m a"
  shows "m (note_key_by_nullifier (ns_hex self) n) =
      map_option (to_vec (ns_note_json self)) (abs_notes a n)"
    and "m (note_contract_index_key (ns_hex self) c) = map_option (to_vec (ns_index_json self))
      (map_option (map (fr_display (ns_hex self))) (abs_contract a c))"
    and "m (note_block_index_key b) = map_option (to_vec (ns_index_json self))
      (map_option (map (fr_display (ns_hex self))) (abs_block a b))"
    and "m (nullification_block_index_key b) = map_option (to_vec (ns_index_json self))
      (map_option (map (fr_display (ns_hex self))) (abs_nullify a b))"
  using assms
  by (auto simp: note_rep_def note_block_index_key_def nullification_block_index_key_def
      block_index_lookup)

lemma note_rep_set_note:
  assumes "note_rep self m a" and "hex_ok (ns_hex self)"
  shows "note_rep self
    (m(note_key_by_nullifier (ns_hex self) n := map_option (to_vec (ns_note_json self)) x))
    (a\<lparr>abs_notes := (abs_notes a)(n := x)\<rparr>)"
  using assms by (auto simp: note_rep_def intro!: block_index_other)

lemma note_rep_set_contract:
  assumes "note_rep self m a" and "hex_ok (ns_hex self)"
  shows "note_rep self
    (m(note_contract_index_key (ns_hex self) c :=
       map_option (to_vec (ns_index_json self)) (map_option (map (fr_display (ns_hex self))) l)))
    (a\<lparr>abs_contract := (abs_contract a)(c := l)\<rparr>)"
  using assms by (auto simp: note_rep_def intro!: block_index_other)

lemma note_rep_set_block:
  assumes "note_rep self m a"
  shows "note_rep self
    (m(note_block_prefix @ u64_display b :=
       map_option (to_vec (ns_index_json self)) (map_option (map (fr_display (ns_hex self))) l)))
    (a\<lparr>abs_block := (abs_block a)(b := l)\<rparr>)"
proof -
  let ?f = "map_option (map (fr_display (ns_hex self)))"
  have "block_index (ns_index_json self) note_block_prefix m (\<lambda>b. ?f (abs_block a b))"
    using assms by (simp add: note_rep_def)
  from block_index_set[OF this, of b "?f l"]
  have "block_index (ns_index_json self) note_block_prefix
      (m(note_block_prefix @ u64_display b := map_option (to_vec (ns_index_json self)) (?f l)))
      (\<lambda>b'. ?f (((abs_block a)(b := l)) b'))"
    by (simp add: fun_upd_def if_distrib cong: if_cong)
  then show ?thesis
    using assms by (auto simp: note_rep_def intro!: block_index_other)
qed

lemma note_rep_set_nullify:
  assumes "note_rep self m a"
  shows "note_rep self
    (m(nullify_block_prefix @ u64_display b :=
       map_option (to_vec (ns_index_json self)) (map_option (map (fr_display (ns_hex self))) l)))
    (a\<lparr>abs_nullify := (abs_nullify a)(b := l)\<rparr>)"
proof -
  let ?f = "map_option (map (fr_display (ns_hex self)))"
  have "block_index (ns_index_json self) nullify_block_prefix m (\<lambda>b. ?f (abs_nullify a b))"
    using assms by (simp add: note_rep_def)
  from block_index_set[OF this, of b "?f l"]
  have "block_index (ns_index_json self) nullify_block_prefix
      (m(nullify_block_prefix @ u64_display b := map_option (to_vec (ns_index_json self)) (?f l)))
      (\<lambda>b'. ?f (((abs_nullify a)(b := l)) b'))"
    by (simp add: fun_upd_def if_distrib cong: if_cong)
  then show ?thesis
    using assms by (auto simp: note_rep_def intro!: block_index_other)
qed

subsection \<open>Adding and nullifying refine the abstract operations\<close>

lemma push_scope_simps [simp]:
  "sn_siloed_nullifier (push_scope scope x) = sn_siloed_nullifier x"
  "sn_contract_address (push_scope scope x) = sn_contract_address x"
  "sn_block_number (push_scope scope x) = sn_block_number x"
  "sn_nullified (push_scope scope x) = sn_nullified x"
  "sn_nullification_block_number (push_scope scope x) = sn_nullification_block_number x"
  by (simp_all add: push_scope_def)

lemma note_store_okD:
  assumes "note_store_ok self"
  shows "hex_ok (ns_hex self)" and "serde_ok (ns_note_json self)" and "serde_ok (ns_index_json self)"
  using assms by (simp_all add: note_store_ok_def)

context kv_laws
begin

lemma wp_note_add_to_contract_index:
  assumes self: "ns_kv self = K" and ok: "note_store_ok self"
    and inv: "invar s" and rep: "note_rep self (lookup s) a"
    and Q: "\<And>s'. invar s' \<Longrightarrow> note_rep self (lookup s') (a\<lparr>abs_contract := (abs_contract a)
      (c \<mapsto> index_add n (index_entries (abs_contract a c)))\<rparr>) \<Longrightarrow> Q () s'"
  shows "wp (note_add_to_contract_index self c n) Q s"
  unfolding note_add_to_contract_index_def self
  apply (rule wp_add_to_index[OF inv note_store_okD(3)[OF ok] note_repD(2)[OF rep]])
  apply (rule Q)
   apply assumption
  using note_rep_set_contract[OF rep, where c = c
      and l = "Some (index_add n (index_entries (abs_contract a c)))"]
  by (simp add: index_add_display note_store_okD[OF ok])

lemma wp_note_add_to_block_index:
  assumes self: "ns_kv self = K" and ok: "note_store_ok self"
    and inv: "invar s" and rep: "note_rep self (lookup s) a"
    and Q: "\<And>s'. invar s' \<Longrightarrow> note_rep self (lookup s') (a\<lparr>abs_block := (abs_block a)
      (b \<mapsto> index_add n (index_entries (abs_block a b)))\<rparr>) \<Longrightarrow> Q () s'"
  shows "wp (note_add_to_block_index self b n) Q s"
  unfolding note_add_to_block_index_def self
  apply (rule wp_add_to_index[OF inv note_store_okD(3)[OF ok] note_repD(3)[OF rep]])
  apply (rule Q)
   apply assumption
  using note_rep_set_block[OF rep, where b = b
      and l = "Some (index_add n (index_entries (abs_block a b)))"]
  by (simp add: index_add_display note_store_okD[OF ok] note_block_index_key_def)

lemma wp_add_to_nullification_block_index:
  assumes self: "ns_kv self = K" and ok: "note_store_ok self"
    and inv: "invar s" and rep: "note_rep self (lookup s) a"
    and Q: "\<And>s'. invar s' \<Longrightarrow> note_rep self (lookup s') (a\<lparr>abs_nullify := (abs_nullify a)
      (b \<mapsto> index_add n (index_entries (abs_nullify a b)))\<rparr>) \<Longrightarrow> Q () s'"
  shows "wp (add_to_nullification_block_index self b n) Q s"
  unfolding add_to_nullification_block_index_def self
  apply (rule wp_add_to_index[OF inv note_store_okD(3)[OF ok] note_repD(4)[OF rep]])
  apply (rule Q)
   apply assumption
  using note_rep_set_nullify[OF rep, where b = b
      and l = "Some (index_add n (index_entries (abs_nullify a b)))"]
  by (simp add: index_add_display note_store_okD[OF ok] nullification_block_index_key_def)

lemma wp_put_note:
  assumes ok: "note_store_ok self" and inv: "invar s" and rep: "note_rep self (lookup s) a"
    and Q: "\<And>s'. invar s' \<Longrightarrow>
      note_rep self (lookup s') (a\<lparr>abs_notes := (abs_notes a)(n \<mapsto> x)\<rparr>) \<Longrightarrow> Q () s'"
  shows "wp (kv_put K (note_key_by_nullifier (ns_hex self) n) (to_vec (ns_note_json self) x)) Q s"
  using note_rep_set_note[OF rep note_store_okD(1)[OF ok], of n "Some x"]
  by (intro wp_put[OF inv] Q) simp_all

lemma wp_add_notes_step:
  assumes self: "ns_kv self = K" and ok: "note_store_ok self"
    and inv: "invar s" and rep: "note_rep self (lookup s) a"
    and Q: "\<And>s'. invar s' \<Longrightarrow> note_rep self (lookup s') (abs_add_note scope note a) \<Longrightarrow> Q () s'"
  shows "wp (add_notes_step self scope note) Q s"
proof (cases "abs_notes a (sn_siloed_nullifier note)")
  case None
  show ?thesis
    unfolding add_notes_step_def self Let_def wp_seq wp_get[OF inv]
    using None Q
    by (auto simp: note_repD[OF rep] abs_add_note_def Let_def self
        intro!: wp_put_note[OF ok inv rep] wp_note_add_to_contract_index[OF self ok]
          wp_note_add_to_block_index[OF self ok] split: option.splits)
next
  case (Some x)
  then show ?thesis
    unfolding add_notes_step_def self Let_def wp_seq wp_get[OF inv] using Q
    by (auto simp: note_repD[OF rep] abs_add_note_def Let_def note_store_okD[OF ok]
        intro!: wp_put_note[OF ok inv rep])
qed

lemma wp_apply_nullifiers_step:
  assumes self: "ns_kv self = K" and ok: "note_store_ok self"
    and inv: "invar s" and rep: "note_rep self (lookup s) a"
    and Q: "\<And>s'. invar s' \<Longrightarrow> note_rep self (lookup s') (abs_apply_nullifier e a) \<Longrightarrow> Q () s'"
  shows "wp (apply_nullifiers_step self e) Q s"
proof -
  obtain n b where e: "e = (n, b)" by (cases e)
  show ?thesis
  proof (cases "abs_notes a n")
    case None
    with Q[OF inv] rep e show ?thesis
      by (simp add: apply_nullifiers_step_def self Let_def wp_get[OF inv] note_repD[OF rep]
          abs_apply_nullifier_def)
  next
    case (Some x)
    then show ?thesis
      using Q e rep inv
      by (auto simp: apply_nullifiers_step_def self Let_def wp_get[OF inv] note_repD[OF rep]
          abs_apply_nullifier_def note_store_okD[OF ok]
          intro!: wp_put_note[OF ok inv rep] wp_add_to_nullification_block_index[OF self ok])
  qed
qed

end

subsection \<open>Rollback on the abstract store\<close>

definition abs_unnullify :: "fr \<Rightarrow> note_abs \<Rightarrow> note_abs" where
  "abs_unnullify n a =
     a\<lparr>abs_notes := (abs_notes a)(n := map_option unnullify (abs_notes a n))\<rparr>"

definition abs_delete :: "fr \<Rightarrow> note_abs \<Rightarrow> note_abs" where
  "abs_delete n a =
     (case abs_notes a n of
        None \<Rightarrow> a
      | Some x \<Rightarrow>
          a\<lparr>abs_contract := (abs_contract a)
              (sn_contract_address x := index_remove n (abs_contract a (sn_contract_address x))),
            abs_notes := (abs_notes a)(n := None)\<rparr>)"

text \<open>The store after un-nullifying the blocks of \<open>D\<close>.\<close>

definition abs_unnullified :: "u64 set \<Rightarrow> note_abs \<Rightarrow> note_abs" where
  "abs_unnullified D a =
     a\<lparr>abs_notes := (\<lambda>n. if n \<in> listed (abs_nullify a) D then map_option unnullify (abs_notes a n)
                         else abs_notes a n),
       abs_nullify := (\<lambda>b. if b \<in> D then None else abs_nullify a b)\<rparr>"

text \<open>The store after deleting the notes of \<open>L\<close>, up to the order inside the contract index.\<close>

definition abs_deleted :: "note_abs \<Rightarrow> fr set \<Rightarrow> note_abs \<Rightarrow> bool" where
  "abs_deleted a L a' \<longleftrightarrow>
     abs_notes a' = (\<lambda>n. if n \<in> L then None else abs_notes a n) \<and>
     abs_nullify a' = abs_nullify a \<and>
     (\<forall>c. set (index_entries (abs_contract a' c)) = set (index_entries (abs_contract a c)) -
        {n \<in> L. \<exists>x. abs_notes a n = Some x \<and> sn_contract_address x = c}) \<and>
     (\<forall>c. distinct (index_entries (abs_contract a c)) \<longrightarrow>
        distinct (index_entries (abs_contract a' c)))"

lemma unnullify_idem [simp]: "unnullify (unnullify x) = unnullify x"
  by (simp add: unnullify_def)

lemma fold_abs_unnullify:
  "fold abs_unnullify ns a =
     a\<lparr>abs_notes := (\<lambda>n. if n \<in> set ns then map_option unnullify (abs_notes a n) else abs_notes a n)\<rparr>"
proof (induction ns arbitrary: a)
  case (Cons m ns)
  show ?case
    by (simp add: Cons) (auto simp: abs_unnullify_def fun_eq_iff option.map_comp comp_def
        intro!: note_abs.equality)
qed simp

lemma abs_deleted_step:
  assumes "abs_deleted a L a'"
  shows "abs_deleted a (insert n L) (abs_delete n a') \<and> abs_block (abs_delete n a') = abs_block a'"
proof (cases "abs_notes a' n")
  case None
  then have "n \<in> L \<or> abs_notes a n = None"
    using assms by (auto simp: abs_deleted_def split: if_splits)
  with None assms show ?thesis
    by (auto simp: abs_deleted_def abs_delete_def fun_eq_iff split: if_splits)
next
  case (Some x)
  then have "n \<notin> L" and "abs_notes a n = Some x"
    using assms by (auto simp: abs_deleted_def split: if_splits)
  with Some assms show ?thesis
    by (auto simp: abs_deleted_def abs_delete_def fun_eq_iff distinct_index_remove)
qed

lemma abs_deleted_fold:
  "abs_deleted a L a' \<Longrightarrow>
   abs_deleted a (set ns \<union> L) (fold abs_delete ns a') \<and>
   abs_block (fold abs_delete ns a') = abs_block a'"
proof (induction ns arbitrary: L a')
  case (Cons m ns)
  from abs_deleted_step[OF Cons.prems, of m]
    Cons.IH[of "insert m L" "abs_delete m a'"] show ?case by simp
qed simp

lemma abs_deleted_block:
  "abs_deleted a L a' \<Longrightarrow> abs_deleted a L (a'\<lparr>abs_block := x\<rparr>)"
  by (simp add: abs_deleted_def)

context kv_laws
begin

lemma wp_rollback_unnullify:
  assumes self: "ns_kv self = K" and ok: "note_store_ok self"
    and inv: "invar s" and rep: "note_rep self (lookup s) a"
    and Q: "\<And>s'. invar s' \<Longrightarrow> note_rep self (lookup s') (abs_unnullify n a) \<Longrightarrow> Q () s'"
  shows "wp (rollback_unnullify self (fr_display (ns_hex self) n)) Q s"
proof (cases "abs_notes a n")
  case None
  then have "abs_unnullify n a = a"
    by (auto simp: abs_unnullify_def intro!: note_abs.equality)
  with None Q[OF inv] rep show ?thesis
    by (simp add: rollback_unnullify_def note_store_okD[OF ok] self Let_def wp_get[OF inv]
        note_repD[OF rep])
next
  case (Some x)
  then show ?thesis
    using Q by (auto simp: rollback_unnullify_def note_store_okD[OF ok] self Let_def wp_get[OF inv]
        note_repD[OF rep] abs_unnullify_def intro!: wp_put_note[OF ok inv rep])
qed

lemma wp_delete_note:
  assumes ok: "note_store_ok self" and inv: "invar s" and rep: "note_rep self (lookup s) a"
    and Q: "\<And>s'. invar s' \<Longrightarrow>
      note_rep self (lookup s') (a\<lparr>abs_notes := (abs_notes a)(n := None)\<rparr>) \<Longrightarrow> Q () s'"
  shows "wp (kv_delete K (note_key_by_nullifier (ns_hex self) n)) Q s"
  using note_rep_set_note[OF rep note_store_okD(1)[OF ok], of n None]
  by (intro wp_delete[OF inv] Q) simp_all

lemma wp_note_remove_from_contract_index:
  assumes self: "ns_kv self = K" and ok: "note_store_ok self"
    and inv: "invar s" and rep: "note_rep self (lookup s) a"
    and Q: "\<And>s'. invar s' \<Longrightarrow> note_rep self (lookup s') (a\<lparr>abs_contract := (abs_contract a)
      (c := index_remove n (abs_contract a c))\<rparr>) \<Longrightarrow> Q () s'"
  shows "wp (note_remove_from_contract_index self c n) Q s"
  unfolding note_remove_from_contract_index_def self
  apply (rule wp_remove_from_index[OF inv note_store_okD(3)[OF ok] note_repD(2)[OF rep]])
  apply (rule Q)
   apply assumption
  using note_rep_set_contract[OF rep, where c = c and l = "index_remove n (abs_contract a c)"]
  by (simp add: index_remove_map[OF fr_display_inj] note_store_okD[OF ok])

lemma wp_rollback_delete:
  assumes self: "ns_kv self = K" and ok: "note_store_ok self"
    and inv: "invar s" and rep: "note_rep self (lookup s) a"
    and Q: "\<And>s'. invar s' \<Longrightarrow> note_rep self (lookup s') (abs_delete n a) \<Longrightarrow> Q () s'"
  shows "wp (rollback_delete self (fr_display (ns_hex self) n)) Q s"
proof (cases "abs_notes a n")
  case None
  then have "a\<lparr>abs_notes := (abs_notes a)(n := None)\<rparr> = a"
    by (auto intro!: note_abs.equality)
  with None Q show ?thesis
    by (auto simp: rollback_delete_def note_store_okD[OF ok] self Let_def wp_get[OF inv]
        note_repD[OF rep] abs_delete_def intro!: wp_delete_note[OF ok inv rep])
next
  case (Some x)
  then show ?thesis
    using Q by (auto simp: rollback_delete_def note_store_okD[OF ok] self Let_def wp_get[OF inv]
        note_repD[OF rep] abs_delete_def
        intro!: wp_note_remove_from_contract_index[OF self ok inv rep] wp_delete_note[OF ok])
qed

end

context kv_laws
begin

lemma wp_unnullify_phase:
  assumes self: "ns_kv self = K" and ok: "note_store_ok self"
    and inv: "invar s" and rep: "note_rep self (lookup s) a"
    and Q: "\<And>s'. invar s' \<Longrightarrow>
      note_rep self (lookup s') (abs_unnullified {c. b < c \<and> abs_nullify a c \<noteq> None} a) \<Longrightarrow> Q () s'"
  shows "wp (seq (kv_list_prefix K nullify_block_prefix)
      (for_each (prune_index_entry K (ns_index_json self) nullify_block_prefix
        (rollback_unnullify self) b))) Q s"
proof (rule wp_prune_index[OF inv note_store_okD(3)[OF ok], where
      I = "\<lambda>D s. invar s \<and> note_rep self (lookup s) (abs_unnullified D a)"
      and idx = "\<lambda>c. map_option (map (fr_display (ns_hex self))) (abs_nullify a c)"])
  show "block_index (ns_index_json self) nullify_block_prefix (lookup s)
      (\<lambda>c. map_option (map (fr_display (ns_hex self))) (abs_nullify a c))"
    using rep by (simp add: note_rep_def)
  show "invar s \<and> note_rep self (lookup s) (abs_unnullified {} a)"
    using inv rep by (simp add: abs_unnullified_def)
  show "invar s' \<and> note_rep self (lookup s') (abs_unnullified
      {bn. b < bn \<and> map_option (map (fr_display (ns_hex self))) (abs_nullify a bn) \<noteq> None} a) \<Longrightarrow>
      Q () s'" for s'
    using Q by simp
next
  fix D c l t
  assume fresh: "c \<notin> D"
    and l: "map_option (map (fr_display (ns_hex self))) (abs_nullify a c) = Some l"
    and I: "invar t \<and> note_rep self (lookup t) (abs_unnullified D a)"
  from l obtain ns where ns: "abs_nullify a c = Some ns" and "l = map (fr_display (ns_hex self)) ns"
    by auto
  moreover have "(fold abs_unnullify ns (abs_unnullified D a))\<lparr>abs_nullify :=
      (abs_nullify (fold abs_unnullify ns (abs_unnullified D a)))(c := None)\<rparr> =
      abs_unnullified (insert c D) a"
    using ns by (auto simp: fold_abs_unnullify abs_unnullified_def fun_eq_iff option.map_comp
        comp_def intro!: note_abs.equality)
  ultimately show "wp (seq (for_each (rollback_unnullify self) l)
      (\<lambda>_. kv_delete K (nullify_block_prefix @ u64_display c)))
      (\<lambda>_ t. invar t \<and> note_rep self (lookup t) (abs_unnullified (insert c D) a)) t"
    using note_rep_set_nullify[of self _ "fold abs_unnullify ns (abs_unnullified D a)" c None]
    by (auto simp: for_each_map intro!: wp_delete
        wp_for_each_fold[where R = "\<lambda>s a. invar s \<and> note_rep self (lookup s) a", OF _ I]
        elim!: wp_rollback_unnullify[OF self ok])
qed

lemma wp_delete_phase:
  assumes self: "ns_kv self = K" and ok: "note_store_ok self"
    and inv: "invar s" and rep: "note_rep self (lookup s) a"
    and Q: "\<And>s' a'. invar s' \<Longrightarrow> note_rep self (lookup s') a' \<Longrightarrow>
      abs_deleted a (listed (abs_block a) {c. b < c \<and> abs_block a c \<noteq> None}) a' \<Longrightarrow>
      abs_block a' = (\<lambda>c. if b < c then None else abs_block a c) \<Longrightarrow> Q () s'"
  shows "wp (seq (kv_list_prefix K note_block_prefix)
      (for_each (prune_index_entry K (ns_index_json self) note_block_prefix
        (rollback_delete self) b))) Q s"
proof (rule wp_prune_index[OF inv note_store_okD(3)[OF ok], where
      I = "\<lambda>D s. invar s \<and> (\<exists>a'. note_rep self (lookup s) a' \<and>
        abs_deleted a (listed (abs_block a) D) a' \<and>
        abs_block a' = (\<lambda>c. if c \<in> D then None else abs_block a c))"
      and idx = "\<lambda>c. map_option (map (fr_display (ns_hex self))) (abs_block a c)"])
  show "block_index (ns_index_json self) note_block_prefix (lookup s)
      (\<lambda>c. map_option (map (fr_display (ns_hex self))) (abs_block a c))"
    using rep by (simp add: note_rep_def)
  show "invar s \<and> (\<exists>a'. note_rep self (lookup s) a' \<and> abs_deleted a (listed (abs_block a) {}) a' \<and>
      abs_block a' = (\<lambda>c. if c \<in> {} then None else abs_block a c))"
    using inv rep by (auto simp: abs_deleted_def)
  fix s'
  assume "invar s' \<and> (\<exists>a'. note_rep self (lookup s') a' \<and>
      abs_deleted a (listed (abs_block a) {bn. b < bn \<and>
        map_option (map (fr_display (ns_hex self))) (abs_block a bn) \<noteq> None}) a' \<and>
      abs_block a' = (\<lambda>c. if c \<in> {bn. b < bn \<and>
        map_option (map (fr_display (ns_hex self))) (abs_block a bn) \<noteq> None}
        then None else abs_block a c))"
  then obtain a' where "invar s'" "note_rep self (lookup s') a'"
    "abs_deleted a (listed (abs_block a) {c. b < c \<and> abs_block a c \<noteq> None}) a'"
    "abs_block a' = (\<lambda>c. if b < c \<and> abs_block a c \<noteq> None then None else abs_block a c)"
    by auto
  moreover from this(4) have "abs_block a' = (\<lambda>c. if b < c then None else abs_block a c)"
    by (auto simp: fun_eq_iff)
  ultimately show "Q () s'" by (intro Q)
next
  fix D c l t
  assume fresh: "c \<notin> D"
    and l: "map_option (map (fr_display (ns_hex self))) (abs_block a c) = Some l"
    and "invar t \<and> (\<exists>a'. note_rep self (lookup t) a' \<and>
        abs_deleted a (listed (abs_block a) D) a' \<and>
        abs_block a' = (\<lambda>c. if c \<in> D then None else abs_block a c))"
  then obtain a' where I: "invar t \<and> note_rep self (lookup t) a'"
    and del: "abs_deleted a (listed (abs_block a) D) a'"
    and blk: "abs_block a' = (\<lambda>c. if c \<in> D then None else abs_block a c)" by auto
  from l obtain ns where ns: "abs_block a c = Some ns" and ll: "l = map (fr_display (ns_hex self)) ns"
    by auto
  let ?a = "(fold abs_delete ns a')\<lparr>abs_block := (abs_block (fold abs_delete ns a'))(c := None)\<rparr>"
  have "abs_deleted a (listed (abs_block a) (insert c D)) ?a"
    using abs_deleted_fold[OF del, of ns] ns by (simp add: abs_deleted_block)
  moreover have "abs_block ?a = (\<lambda>b. if b \<in> insert c D then None else abs_block a b)"
    using abs_deleted_fold[OF del, of ns] blk by auto
  ultimately show "wp (seq (for_each (rollback_delete self) l)
      (\<lambda>_. kv_delete K (note_block_prefix @ u64_display c)))
      (\<lambda>_ t. invar t \<and> (\<exists>a'. note_rep self (lookup t) a' \<and>
        abs_deleted a (listed (abs_block a) (insert c D)) a' \<and>
        abs_block a' = (\<lambda>b. if b \<in> insert c D then None else abs_block a b))) t"
    using note_rep_set_block[of self _ "fold abs_delete ns a'" c None]
    by (auto simp: ll for_each_map intro!: wp_delete exI[of _ ?a]
        wp_for_each_fold[where R = "\<lambda>s a. invar s \<and> note_rep self (lookup s) a", OF _ I]
        elim!: wp_rollback_delete[OF self ok])
qed

end

subsection \<open>The invariant\<close>

lemma note_invD:
  assumes "note_inv a"
  shows "abs_notes a n = Some x \<Longrightarrow> sn_siloed_nullifier x = n"
    and "abs_notes a n = Some x \<Longrightarrow> sn_nullified x \<longleftrightarrow> sn_nullification_block_number x \<noteq> None"
    and "abs_notes a n = Some x \<Longrightarrow> sn_block_number x = Some c \<Longrightarrow>
      sn_nullification_block_number x = Some b \<Longrightarrow> b = 0 \<or> c \<le> b"
    and "n \<in> set (index_entries (abs_contract a c')) \<longleftrightarrow>
      (\<exists>x. abs_notes a n = Some x \<and> sn_contract_address x = c')"
    and "distinct (index_entries (abs_contract a c'))"
    and "n \<in> set (index_entries (abs_block a b')) \<longleftrightarrow>
      (\<exists>x. abs_notes a n = Some x \<and> sn_block_number x = Some b')"
    and "b' \<noteq> 0 \<Longrightarrow> n \<in> set (index_entries (abs_nullify a b')) \<longleftrightarrow>
      (\<exists>x. abs_notes a n = Some x \<and> sn_nullification_block_number x = Some b')"
  using assms by (simp_all add: note_inv_def)

lemma listed_nullify:
  assumes "note_inv a"
  shows "n \<in> listed (abs_nullify a) {c. b < c \<and> abs_nullify a c \<noteq> None} \<longleftrightarrow>
    (\<exists>x c. abs_notes a n = Some x \<and> sn_nullification_block_number x = Some c \<and> b < c)"
proof -
  have "n \<in> set (index_entries (abs_nullify a c)) \<longleftrightarrow>
      (\<exists>x. abs_notes a n = Some x \<and> sn_nullification_block_number x = Some c)" if "b < c" for c
    using that by (intro note_invD(7)[OF assms]) auto
  then show ?thesis unfolding listed_iff by auto
qed

lemma listed_block:
  assumes "note_inv a"
  shows "n \<in> listed (abs_block a) {c. b < c \<and> abs_block a c \<noteq> None} \<longleftrightarrow>
    (\<exists>x c. abs_notes a n = Some x \<and> sn_block_number x = Some c \<and> b < c)"
  unfolding listed_iff by (auto simp: note_invD(6)[OF assms])

lemma unnullify_simps [simp]:
  "sn_siloed_nullifier (unnullify x) = sn_siloed_nullifier x"
  "sn_contract_address (unnullify x) = sn_contract_address x"
  "sn_block_number (unnullify x) = sn_block_number x"
  "sn_nullified (unnullify x) = False"
  "sn_nullification_block_number (unnullify x) = None"
  by (simp_all add: unnullify_def)

lemma abs_unnullified_notes:
  assumes "note_inv a"
  shows "abs_notes (abs_unnullified {c. b < c \<and> abs_nullify a c \<noteq> None} a) n =
    (case abs_notes a n of
       None \<Rightarrow> None
     | Some x \<Rightarrow> Some (if (\<exists>c. sn_nullification_block_number x = Some c \<and> b < c)
                        then unnullify x else x))"
  using listed_nullify[OF assms, of n b]
  by (auto simp: abs_unnullified_def split: option.splits)

lemma note_inv_unnullified:
  assumes inv: "note_inv a"
  shows "note_inv (abs_unnullified {c. b < c \<and> abs_nullify a c \<noteq> None} a)" (is "note_inv ?a")
proof -
  note nts = abs_unnullified_notes[OF inv, of b]
  have other: "abs_contract ?a = abs_contract a" "abs_block ?a = abs_block a"
    by (simp_all add: abs_unnullified_def)
  have nullify: "set (index_entries (abs_nullify ?a c)) =
      (if b < c then {} else set (index_entries (abs_nullify a c)))" for c
    by (cases "abs_nullify a c") (simp_all add: abs_unnullified_def)
  show ?thesis
    unfolding note_inv_def other nullify nts
    by (auto simp: note_invD(4-7)[OF inv] dest: note_invD(1-3)[OF inv] split: option.splits)
qed

lemma note_inv_deleted:
  assumes inv: "note_inv a"
    and nul: "\<And>n x c. abs_notes a n = Some x \<Longrightarrow> sn_nullification_block_number x = Some c \<Longrightarrow> c \<le> b"
    and del: "abs_deleted a (listed (abs_block a) {c. b < c \<and> abs_block a c \<noteq> None}) a'"
    and blk: "abs_block a' = (\<lambda>c. if b < c then None else abs_block a c)"
  shows "note_inv a'"
    and "abs_notes a' n = (case abs_notes a n of None \<Rightarrow> None
      | Some x \<Rightarrow> if (\<exists>c. sn_block_number x = Some c \<and> b < c) then None else Some x)"
proof -
  have nts: "abs_notes a' n = (case abs_notes a n of None \<Rightarrow> None
      | Some x \<Rightarrow> if (\<exists>c. sn_block_number x = Some c \<and> b < c) then None else Some x)" for n
    using del listed_block[OF inv, of n b] by (auto simp: abs_deleted_def split: option.splits)
  then show "abs_notes a' n = (case abs_notes a n of None \<Rightarrow> None
      | Some x \<Rightarrow> if (\<exists>c. sn_block_number x = Some c \<and> b < c) then None else Some x)" .
  have contract: "set (index_entries (abs_contract a' c)) =
      {n. \<exists>x. abs_notes a' n = Some x \<and> sn_contract_address x = c}" for c
    using del by (auto simp: abs_deleted_def note_invD(4)[OF inv])
  have distinct: "distinct (index_entries (abs_contract a' c))" for c
    using del note_invD(5)[OF inv] by (simp add: abs_deleted_def)
  have block: "set (index_entries (abs_block a' c)) =
      (if b < c then {} else set (index_entries (abs_block a c)))" for c
    by (simp add: blk)
  have nullify: "abs_nullify a' = abs_nullify a"
    using del by (simp add: abs_deleted_def)
  have keep: "\<not> b < d" if "abs_notes a n = Some x" "sn_nullification_block_number x = Some c" "c \<noteq> 0"
    "sn_block_number x = Some d" for n x c d
    using note_invD(3)[OF inv that(1,4,2)] nul[OF that(1,2)] that(3) by auto
  show "note_inv a'"
    unfolding note_inv_def
  proof (intro conjI allI impI)
    fix c d n
    assume "d \<noteq> (0 :: u64)"
    then show "n \<in> set (index_entries (abs_nullify a' d)) \<longleftrightarrow>
        (\<exists>x. abs_notes a' n = Some x \<and> sn_nullification_block_number x = Some d)"
      unfolding nullify nts
      by (auto simp: note_invD(7)[OF inv] split: option.splits dest: keep)
  qed (auto simp: contract distinct block nts note_invD(6)[OF inv] split: option.splits if_splits
      dest: note_invD(1-3)[OF inv])
qed

text \<open>
  A note handed to the store is either active or marked nullified at the placeholder block
  \<open>0\<close>, as \<open>NoteService::validate_and_store_note\<close> does.
\<close>

definition incoming_note :: "stored_note \<Rightarrow> bool" where
  "incoming_note x \<longleftrightarrow>
     sn_nullification_block_number x = (if sn_nullified x then Some 0 else None)"

text \<open>A nullifier is applied at a block that does not precede the note's creation.\<close>

definition nullifier_after_creation :: "(fr \<Rightarrow> stored_note option) \<Rightarrow> fr \<times> u64 \<Rightarrow> bool" where
  "nullifier_after_creation m = (\<lambda>(n, b).
     b = 0 \<or> (\<forall>x c. m n = Some x \<longrightarrow> sn_block_number x = Some c \<longrightarrow> c \<le> b))"

lemma note_inv_add_note:
  assumes inv: "note_inv a" and inc: "incoming_note note"
  shows "note_inv (abs_add_note scope note a)"
proof (cases "abs_notes a (sn_siloed_nullifier note)")
  case (Some x)
  then show ?thesis
    using note_invD[OF inv]
    by (auto simp: abs_add_note_def Let_def note_inv_def split: if_splits)
next
  case None
  have "sn_siloed_nullifier note \<notin> set (index_entries (abs_block a b))" for b
    using None by (simp add: note_invD(6)[OF inv])
  moreover have "sn_siloed_nullifier note \<notin> set (index_entries (abs_contract a c))" for c
    using None by (simp add: note_invD(4)[OF inv])
  moreover have "b \<noteq> 0 \<Longrightarrow> sn_siloed_nullifier note \<notin> set (index_entries (abs_nullify a b))" for b
    using None by (simp add: note_invD(7)[OF inv])
  ultimately show ?thesis
    using None inc note_invD[OF inv]
    by (auto simp: abs_add_note_def Let_def note_inv_def incoming_note_def
        split: option.splits if_splits)
qed

lemma note_inv_apply_nullifier:
  assumes inv: "note_inv a" and after: "nullifier_after_creation (abs_notes a) e"
  shows "note_inv (abs_apply_nullifier e a)"
proof -
  obtain n b where e: "e = (n, b)" by (cases e)
  show ?thesis
  proof (cases "abs_notes a n")
    case None
    with inv show ?thesis by (simp add: abs_apply_nullifier_def e)
  next
    case (Some x)
    show ?thesis
    proof (cases "sn_nullified x")
      case True
      with inv Some show ?thesis by (simp add: abs_apply_nullifier_def e)
    next
      case False
      then have "sn_nullification_block_number x = None"
        using note_invD(2)[OF inv Some] by simp
      then have "c \<noteq> 0 \<Longrightarrow> n \<notin> set (index_entries (abs_nullify a c))" for c
        using Some by (simp add: note_invD(7)[OF inv])
      with Some False after note_invD[OF inv] show ?thesis
        by (auto simp: abs_apply_nullifier_def e note_inv_def nullifier_after_creation_def
            split: if_splits)
    qed
  qed
qed

text \<open>The effect on the notes of adding a list of notes: the first write of a key wins.\<close>

definition added_note ::
    "aztec_address \<Rightarrow> stored_note list \<Rightarrow> (fr \<Rightarrow> stored_note option) \<Rightarrow> fr \<Rightarrow> stored_note option" where
  "added_note scope notes m n =
     (case (m n, filter (\<lambda>x. sn_siloed_nullifier x = n) notes) of
        (old, []) \<Rightarrow> old
      | (Some x, _) \<Rightarrow> Some (push_scope scope x)
      | (None, x # _) \<Rightarrow> Some (push_scope scope x))"

definition nullified_note ::
    "(fr \<times> u64) list \<Rightarrow> (fr \<Rightarrow> stored_note option) \<Rightarrow> fr \<Rightarrow> stored_note option" where
  "nullified_note es m n =
     (case (m n, filter (\<lambda>e. fst e = n) es) of
        (Some x, (_, b) # _) \<Rightarrow>
          Some (if sn_nullified x then x
                else x\<lparr>sn_nullified := True, sn_nullification_block_number := Some b\<rparr>)
      | (old, _) \<Rightarrow> old)"

lemma push_scope_idem [simp]: "push_scope scope (push_scope scope x) = push_scope scope x"
  by (simp add: push_scope_def)

lemma abs_notes_add_note:
  "abs_notes (abs_add_note scope note a) =
     (abs_notes a)(sn_siloed_nullifier note \<mapsto> push_scope scope
       (case abs_notes a (sn_siloed_nullifier note) of None \<Rightarrow> note | Some x \<Rightarrow> x))"
  by (auto simp: abs_add_note_def Let_def split: option.splits)

lemma abs_notes_fold_add:
  "abs_notes (fold (abs_add_note scope) xs a) n = added_note scope xs (abs_notes a) n"
proof (induction xs arbitrary: a)
  case Nil
  then show ?case by (simp add: added_note_def split: option.splits)
next
  case (Cons x xs)
  show ?case
    by (auto simp: Cons added_note_def abs_notes_add_note split: option.splits list.splits)
qed

lemma abs_notes_apply_nullifier:
  "abs_notes (abs_apply_nullifier (n, b) a) =
     (case abs_notes a n of
        None \<Rightarrow> abs_notes a
      | Some x \<Rightarrow> (abs_notes a)(n \<mapsto> (if sn_nullified x then x
          else x\<lparr>sn_nullified := True, sn_nullification_block_number := Some b\<rparr>)))"
  by (auto simp: abs_apply_nullifier_def fun_upd_idem split: option.splits)

lemma abs_notes_fold_apply:
  "abs_notes (fold abs_apply_nullifier es a) n = nullified_note es (abs_notes a) n"
proof (induction es arbitrary: a)
  case Nil
  then show ?case by (simp add: nullified_note_def split: option.splits)
next
  case (Cons e es)
  obtain m b where e: "e = (m, b)" by (cases e)
  show ?case
    by (auto simp: Cons e nullified_note_def abs_notes_apply_nullifier
        split: option.splits list.splits)
qed

lemma note_inv_fold_add:
  "note_inv a \<Longrightarrow> (\<And>x. x \<in> set xs \<Longrightarrow> incoming_note x) \<Longrightarrow>
   note_inv (fold (abs_add_note scope) xs a)"
  by (induction xs arbitrary: a) (auto intro: note_inv_add_note)

lemma nullifier_after_creation_step:
  "nullifier_after_creation (abs_notes (abs_apply_nullifier e a)) e' \<longleftrightarrow>
   nullifier_after_creation (abs_notes a) e'"
  by (cases e) (auto simp: nullifier_after_creation_def abs_notes_apply_nullifier
      split: option.splits if_splits)

lemma note_inv_fold_apply:
  "note_inv a \<Longrightarrow> (\<And>e. e \<in> set es \<Longrightarrow> nullifier_after_creation (abs_notes a) e) \<Longrightarrow>
   note_inv (fold abs_apply_nullifier es a)"
  by (induction es arbitrary: a)
    (simp_all add: note_inv_apply_nullifier nullifier_after_creation_step)

subsection \<open>The operations on a well-formed store\<close>

text \<open>The note stored under a nullifier.\<close>

definition load_note :: "('s, 'v) note_store \<Rightarrow> (string \<Rightarrow> 'v option) \<Rightarrow> fr \<Rightarrow> stored_note option" where
  "load_note self m n =
     (case m (note_key_by_nullifier (ns_hex self) n) of
        None \<Rightarrow> None
      | Some bytes \<Rightarrow> result_ok (from_slice (ns_note_json self) bytes))"

definition note_state_ok :: "('s, 'v) note_store \<Rightarrow> (string \<Rightarrow> 'v option) \<Rightarrow> bool" where
  "note_state_ok self m \<longleftrightarrow> (\<exists>a. note_rep self m a \<and> note_inv a)"

lemma load_note_rep: "note_store_ok self \<Longrightarrow> note_rep self m a \<Longrightarrow> load_note self m = abs_notes a"
  by (auto simp: load_note_def note_repD note_store_okD fun_eq_iff split: option.splits)

lemma note_state_okI: "note_rep self m a \<Longrightarrow> note_inv a \<Longrightarrow> note_state_ok self m"
  by (auto simp: note_state_ok_def)

lemma note_state_ok_empty: "note_state_ok self Map.empty"
proof (rule note_state_okI)
  let ?a = "\<lparr>abs_notes = Map.empty, abs_contract = Map.empty, abs_block = Map.empty,
    abs_nullify = Map.empty\<rparr>"
  show "note_rep self Map.empty ?a" by (simp add: note_rep_def block_index_def)
  show "note_inv ?a" by (simp add: note_inv_def)
qed

lemma rollback_note_bind:
  "(case (case x of None \<Rightarrow> None
          | Some x \<Rightarrow> Some (if (\<exists>c. sn_nullification_block_number x = Some c \<and> b < c)
                             then unnullify x else x)) of
      None \<Rightarrow> None
    | Some x \<Rightarrow> if (\<exists>c. sn_block_number x = Some c \<and> b < c) then None else Some x) =
   Option.bind x (rollback_note b)"
  by (auto simp: rollback_note_def split: option.splits)

context kv_laws
begin

lemma wp_note_rollback:
  assumes self: "ns_kv self = K" and ok: "note_store_ok self"
    and inv: "invar s" and state: "note_state_ok self (lookup s)"
    and Q: "\<And>s'. invar s' \<Longrightarrow> note_state_ok self (lookup s') \<Longrightarrow>
      load_note self (lookup s') = (\<lambda>n. Option.bind (load_note self (lookup s) n) (rollback_note b)) \<Longrightarrow>
      Q () s'"
  shows "wp (note_rollback self b sb) Q s"
proof -
  from state obtain a where rep: "note_rep self (lookup s) a" and ninv: "note_inv a"
    by (auto simp: note_state_ok_def)
  let ?a1 = "abs_unnullified {c. b < c \<and> abs_nullify a c \<noteq> None} a"
  have inv1: "note_inv ?a1" by (rule note_inv_unnullified[OF ninv])
  have nul: "c \<le> b" if "abs_notes ?a1 n = Some x" "sn_nullification_block_number x = Some c" for n x c
    using that unfolding abs_unnullified_notes[OF ninv]
    by (auto simp: not_less unnullify_def split: option.splits if_splits)
  have "wp (seq (kv_list_prefix K nullify_block_prefix)
      (for_each (prune_index_entry K (ns_index_json self) nullify_block_prefix
        (rollback_unnullify self) b)))
      (\<lambda>_. wp (seq (kv_list_prefix K note_block_prefix)
        (for_each (prune_index_entry K (ns_index_json self) note_block_prefix
          (rollback_delete self) b))) Q) s"
  proof (intro wp_unnullify_phase[OF self ok inv rep] wp_delete_phase[OF self ok] Q)
    fix s1 s2 a2
    assume rep2: "note_rep self (lookup s2) a2"
      and del: "abs_deleted ?a1 (listed (abs_block ?a1) {c. b < c \<and> abs_block ?a1 c \<noteq> None}) a2"
      and blk: "abs_block a2 = (\<lambda>c. if b < c then None else abs_block ?a1 c)"
    have "note_inv a2" by (rule note_inv_deleted(1)[OF inv1 _ del blk]) (rule nul)
    with rep2 show "note_state_ok self (lookup s2)" by (rule note_state_okI)
    have "abs_notes a2 n = (case abs_notes ?a1 n of None \<Rightarrow> None
        | Some x \<Rightarrow> if (\<exists>c. sn_block_number x = Some c \<and> b < c) then None else Some x)" for n
      by (rule note_inv_deleted(2)[OF inv1 _ del blk]) (rule nul)
    then show "load_note self (lookup s2) =
        (\<lambda>n. Option.bind (load_note self (lookup s) n) (rollback_note b))"
      unfolding load_note_rep[OF ok rep2] load_note_rep[OF ok rep] abs_unnullified_notes[OF ninv]
        rollback_note_bind by (rule ext)
  qed
  then show ?thesis by (simp add: note_rollback_def self wp_seq_fun)
qed

lemma wp_add_notes:
  assumes self: "ns_kv self = K" and ok: "note_store_ok self"
    and inv: "invar s" and state: "note_state_ok self (lookup s)"
    and incoming: "\<And>x. x \<in> set xs \<Longrightarrow> incoming_note x"
    and Q: "\<And>s'. invar s' \<Longrightarrow> note_state_ok self (lookup s') \<Longrightarrow>
      load_note self (lookup s') = added_note scope xs (load_note self (lookup s)) \<Longrightarrow> Q () s'"
  shows "wp (add_notes self xs scope) Q s"
proof -
  from state obtain a where rep: "note_rep self (lookup s) a" and ninv: "note_inv a"
    by (auto simp: note_state_ok_def)
  show ?thesis
    unfolding add_notes_def
  proof (rule wp_for_each_fold[where R = "\<lambda>s a. invar s \<and> note_rep self (lookup s) a"
        and a = a and g = "abs_add_note scope"])
    fix s'
    assume fin: "invar s' \<and> note_rep self (lookup s') (fold (abs_add_note scope) xs a)"
    show "Q () s'"
    proof (rule Q)
      show "note_state_ok self (lookup s')"
        using fin note_inv_fold_add[OF ninv incoming] by (blast intro: note_state_okI)
      show "load_note self (lookup s') = added_note scope xs (load_note self (lookup s))"
        using fin by (simp add: load_note_rep[OF ok conjunct2[OF fin]] load_note_rep[OF ok rep] abs_notes_fold_add
            fun_eq_iff)
    qed (use fin in simp)
  qed (use inv rep in \<open>auto intro: wp_add_notes_step[OF self ok]\<close>)
qed

lemma wp_apply_nullifiers:
  assumes self: "ns_kv self = K" and ok: "note_store_ok self"
    and inv: "invar s" and state: "note_state_ok self (lookup s)"
    and after: "\<And>e. e \<in> set es \<Longrightarrow> nullifier_after_creation (load_note self (lookup s)) e"
    and Q: "\<And>s'. invar s' \<Longrightarrow> note_state_ok self (lookup s') \<Longrightarrow>
      load_note self (lookup s') = nullified_note es (load_note self (lookup s)) \<Longrightarrow> Q () s'"
  shows "wp (apply_nullifiers self es) Q s"
proof -
  from state obtain a where rep: "note_rep self (lookup s) a" and ninv: "note_inv a"
    by (auto simp: note_state_ok_def)
  note after' = after[unfolded load_note_rep[OF ok rep]]
  show ?thesis
    unfolding apply_nullifiers_def
  proof (rule wp_for_each_fold[where R = "\<lambda>s a. invar s \<and> note_rep self (lookup s) a"
        and a = a and g = "abs_apply_nullifier"])
    fix s'
    assume fin: "invar s' \<and> note_rep self (lookup s') (fold abs_apply_nullifier es a)"
    show "Q () s'"
    proof (rule Q)
      show "note_state_ok self (lookup s')"
        using fin note_inv_fold_apply[OF ninv after'] by (blast intro: note_state_okI)
      show "load_note self (lookup s') = nullified_note es (load_note self (lookup s))"
        using fin by (simp add: load_note_rep[OF ok conjunct2[OF fin]] load_note_rep[OF ok rep] abs_notes_fold_apply
            fun_eq_iff)
    qed (use fin in simp)
  qed (use inv rep in \<open>auto intro: wp_apply_nullifiers_step[OF self ok]\<close>)
qed

end

subsection \<open>Reading a well-formed store\<close>

context kv_laws
begin

lemma wp_load_notes:
  assumes self: "ns_kv self = K" and ok: "note_store_ok self"
    and inv: "invar s" and rep: "note_rep self (lookup s) a"
    and Q: "Q (List.map_filter (abs_notes a) ns) s"
  shows "wp (load_notes self (map (fr_display (ns_hex self)) ns)) Q s"
  using Q
proof (induction ns arbitrary: Q)
  case Nil
  then show ?case by (simp add: map_filter_simps)
next
  case (Cons n ns)
  then show ?case
    using ok note_repD(1)[OF rep, of n]
    by (cases "abs_notes a n")
      (auto simp: note_store_okD wp_get[OF inv] self map_filter_simps)
qed

lemma wp_get_notes_for_contract:
  assumes self: "ns_kv self = K" and ok: "note_store_ok self"
    and inv: "invar s" and state: "note_state_ok self (lookup s)"
    and Q: "\<And>xs. distinct (map sn_siloed_nullifier xs) \<Longrightarrow>
      set xs = {x. \<exists>n. load_note self (lookup s) n = Some x \<and> sn_contract_address x = contract} \<Longrightarrow>
      Q xs s"
  shows "wp (get_notes_for_contract self contract) Q s"
proof -
  from state obtain a where rep: "note_rep self (lookup s) a" and ninv: "note_inv a"
    by (auto simp: note_state_ok_def)
  let ?ns = "index_entries (abs_contract a contract)"
  let ?xs = "List.map_filter (abs_notes a) ?ns"
  have "map sn_siloed_nullifier ?xs = ?ns"
    using note_invD(1)[OF ninv] by (intro map_filter_ids) (auto simp: note_invD(4)[OF ninv])
  then have "Q ?xs s"
    using note_invD(5)[OF ninv]
    by (intro Q) (auto simp: set_map_filter load_note_rep[OF ok rep] note_invD(4)[OF ninv])
  then show ?thesis
    using ok note_repD(2)[OF rep, of contract]
    by (cases "abs_contract a contract")
      (auto simp: get_notes_for_contract_def wp_get[OF inv] self note_store_okD map_filter_simps
        intro: wp_load_notes[OF self ok inv rep])
qed

lemma wp_get_all_notes:
  assumes self: "ns_kv self = K" and ok: "note_store_ok self"
    and inv: "invar s" and state: "note_state_ok self (lookup s)"
    and Q: "\<And>xs. distinct (map sn_siloed_nullifier xs) \<Longrightarrow>
      set xs = {x. \<exists>n. load_note self (lookup s) n = Some x} \<Longrightarrow> Q xs s"
  shows "wp (get_all_notes self) Q s"
proof -
  from state obtain a where rep: "note_rep self (lookup s) a" and ninv: "note_inv a"
    by (auto simp: note_state_ok_def)
  let ?H = "ns_hex self" and ?J = "ns_note_json self"
  show ?thesis
    unfolding get_all_notes_def wp_seq self
  proof (rule wp_list_prefix[OF inv])
    fix es
    assume srt: "sorted_wrt (<) (map fst es)"
      and es: "\<And>k v. (k, v) \<in> set es \<longleftrightarrow> prefix ''note:'' k \<and> lookup s k = Some v"
    have entry: "\<exists>n x. k = note_key_by_nullifier ?H n \<and> abs_notes a n = Some x \<and> v = to_vec ?J x"
      if "(k, v) \<in> set es" for k v
    proof -
      from that es have "prefix ''note:'' k" and kv: "lookup s k = Some v" by auto
      then obtain n where "k = note_key_by_nullifier ?H n"
        using rep unfolding note_rep_def by (metis option.discI)
      with kv note_repD(1)[OF rep, of n] show ?thesis by auto
    qed
    define dec where "dec = (\<lambda>(k :: string, v). the (result_ok (from_slice ?J v)))"
    have J: "serde_ok ?J" by (rule note_store_okD(2)[OF ok])
    have "(\<lambda>(k, v). from_slice ?J v) e = Inr (dec e)" if "e \<in> set es" for e
      using entry[of "fst e" "snd e"] that J by (auto simp: dec_def case_prod_beta)
    then have run: "map_result (\<lambda>(k, v). from_slice ?J v) es = Inr (map dec es)"
      by (rule map_result_Inr)
    have key: "note_key_by_nullifier ?H (sn_siloed_nullifier (dec e)) = fst e" if "e \<in> set es" for e
      using entry[of "fst e" "snd e"] that J note_invD(1)[OF ninv] by (auto simp: dec_def case_prod_beta)
    have keys: "map (note_key_by_nullifier ?H) (map sn_siloed_nullifier (map dec es)) = map fst es"
      using key by (simp add: comp_def)
    have "distinct (map fst es)" using srt by (simp add: strict_sorted_iff)
    then have dist: "distinct (map sn_siloed_nullifier (map dec es))"
      unfolding keys[symmetric] by (simp only: distinct_map)
    have mem: "(note_key_by_nullifier ?H n, to_vec ?J x) \<in> set es" if "abs_notes a n = Some x" for n x
      using that note_repD(1)[OF rep, of n] by (simp add: es note_key_by_nullifier_def)
    have set: "set (map dec es) = {x. \<exists>n. load_note self (lookup s) n = Some x}"
      unfolding load_note_rep[OF ok rep]
    proof (intro equalityI subsetI)
      fix x assume "x \<in> set (map dec es)"
      then obtain k v where "(k, v) \<in> set es" and "x = dec (k, v)" by auto
      with entry[of k v] J show "x \<in> {x. \<exists>n. abs_notes a n = Some x}" by (auto simp: dec_def)
    next
      fix x assume "x \<in> {x. \<exists>n. abs_notes a n = Some x}"
      then obtain n where "(note_key_by_nullifier ?H n, to_vec ?J x) \<in> set es" using mem by auto
      then have "dec (note_key_by_nullifier ?H n, to_vec ?J x) \<in> set (map dec es)" by simp
      then show "x \<in> set (map dec es)" using J by (simp add: dec_def)
    qed
    show "wp (lift_result (map_result (\<lambda>(k, v). from_slice (ns_note_json self) v) es)) Q s"
      unfolding run wp_lift_result by (rule Q[OF dist set])
  qed
qed

lemma wp_get_notes:
  assumes self: "ns_kv self = K" and ok: "note_store_ok self"
    and inv: "invar s" and state: "note_state_ok self (lookup s)"
    and Q: "\<And>xs. sorted (map note_position xs) \<Longrightarrow> distinct (map sn_siloed_nullifier xs) \<Longrightarrow>
      set xs = {x. (\<exists>n. load_note self (lookup s) n = Some x) \<and> note_matches filt x \<and>
        (\<forall>c. nf_contract_address filt = Some c \<longrightarrow> sn_contract_address x = c)} \<Longrightarrow> Q xs s"
  shows "wp (get_notes self filt) Q s"
proof -
  have fin: "Q (sort_key note_position (filter (note_matches filt) xs)) s"
    if "distinct (map sn_siloed_nullifier xs)"
      and "set xs = {x. (\<exists>n. load_note self (lookup s) n = Some x) \<and>
        (\<forall>c. nf_contract_address filt = Some c \<longrightarrow> sn_contract_address x = c)}" for xs
  proof (rule Q)
    show "distinct (map sn_siloed_nullifier (sort_key note_position (filter (note_matches filt) xs)))"
      using that(1) by (auto simp: distinct_map intro: inj_on_subset)
  qed (use that(2) in auto)
  show ?thesis
    unfolding get_notes_def
    by (cases "nf_contract_address filt")
      (simp_all add: fin wp_get_all_notes[OF self ok inv state]
        wp_get_notes_for_contract[OF self ok inv state])
qed

lemma wp_nullify_note:
  assumes self: "ns_kv self = K" and ok: "note_store_ok self"
    and inv: "invar s" and state: "note_state_ok self (lookup s)"
    and none: "\<And>s'. s' = s \<Longrightarrow> (\<And>n x. load_note self (lookup s) n = Some x \<Longrightarrow>
      sn_contract_address x = contract \<Longrightarrow> sn_storage_slot x = slot \<Longrightarrow> sn_note_hash x \<noteq> h) \<Longrightarrow> Q () s'"
    and some: "\<And>s' x. load_note self (lookup s) (sn_siloed_nullifier x) = Some x \<Longrightarrow>
      sn_contract_address x = contract \<Longrightarrow> sn_storage_slot x = slot \<Longrightarrow> sn_note_hash x = h \<Longrightarrow>
      invar s' \<Longrightarrow> note_state_ok self (lookup s') \<Longrightarrow>
      load_note self (lookup s') =
        nullified_note [(sn_siloed_nullifier x, 0)] (load_note self (lookup s)) \<Longrightarrow> Q () s'"
  shows "wp (nullify_note self contract slot h) Q s"
  unfolding nullify_note_def wp_seq
proof (rule wp_get_notes_for_contract[OF self ok inv state])
  fix xs
  assume xs: "set xs = {x. \<exists>n. load_note self (lookup s) n = Some x \<and> sn_contract_address x = contract}"
  let ?P = "\<lambda>note. sn_storage_slot note = slot \<and> sn_note_hash note = h"
  have key: "load_note self (lookup s) (sn_siloed_nullifier x) = Some x"
    if "load_note self (lookup s) n = Some x" for n x
    using state that note_invD(1) by (auto simp: note_state_ok_def load_note_rep[OF ok])
  show "wp (case find ?P xs of None \<Rightarrow> ret ()
      | Some note \<Rightarrow> apply_nullifiers self [(sn_siloed_nullifier note, 0)]) Q s"
  proof (cases "find ?P xs")
    case None
    then have "\<not> (\<exists>x. x \<in> set xs \<and> ?P x)" by (simp add: find_None_iff)
    with xs None show ?thesis by (auto intro!: none)
  next
    case (Some x)
    then have "x \<in> set xs" and "?P x" by (auto simp: find_Some_iff)
    with xs key Some show ?thesis
      by (auto intro!: wp_apply_nullifiers[OF self ok inv state] some
          simp: nullifier_after_creation_def)
  qed
qed

end

subsection \<open>A concrete store\<close>

type_synonym note_value = "stored_note + string list"

definition example_note_store :: "(note_value btree, note_value) note_store" where
  "example_note_store =
     \<lparr>ns_kv = in_memory_kv, ns_hex = plain_hex, ns_note_json = left_json,
      ns_index_json = right_json\<rparr>"

definition example_note :: "u64 \<Rightarrow> fr \<Rightarrow> stored_note" where
  "example_note block nullifier =
     \<lparr>sn_contract_address = aztec_address_zero, sn_owner = aztec_address_zero,
      sn_storage_slot = 1, sn_randomness = 2, sn_note_nonce = 3, sn_note_hash = nullifier + 4,
      sn_siloed_nullifier = nullifier, sn_note_data = [5], sn_nullified = False,
      sn_is_pending = False, sn_nullification_block_number = None, sn_leaf_index = Some 9,
      sn_block_number = Some block, sn_tx_index_in_block = Some 0, sn_note_index_in_tx = Some 0,
      sn_scopes = []\<rparr>"

definition example_note_kv :: "note_value btree" where
  "example_note_kv =
     snd (add_notes example_note_store [example_note 3 7, example_note 6 8] aztec_address_zero [])"

lemma example_note_store_ok [simp]:
  "note_store_ok example_note_store" "ns_kv example_note_store = in_memory_kv"
  by (simp_all add: note_store_ok_def example_note_store_def)

lemma load_note_empty [simp]: "load_note self Map.empty = Map.empty"
  by (simp add: load_note_def fun_eq_iff)

lemma example_note_kv_ok:
  "btree_ok example_note_kv \<and> note_state_ok example_note_store (map_of example_note_kv) \<and>
   load_note example_note_store (map_of example_note_kv) =
     added_note aztec_address_zero [example_note 3 7, example_note 6 8] Map.empty"
proof -
  let ?xs = "[example_note 3 7, example_note 6 8]"
  have "wp (add_notes example_note_store ?xs aztec_address_zero)
      (\<lambda>_ kv. btree_ok kv \<and> note_state_ok example_note_store (map_of kv) \<and>
        load_note example_note_store (map_of kv) = added_note aztec_address_zero ?xs Map.empty) []"
    by (rule mem.wp_add_notes)
      (auto simp: note_state_ok_empty incoming_note_def example_note_def)
  then show ?thesis unfolding wp_iff example_note_kv_def by auto
qed

lemmas example_note_simps =
  example_note_kv_ok[THEN conjunct1] example_note_kv_ok[THEN conjunct2, THEN conjunct1]
  example_note_kv_ok[THEN conjunct2, THEN conjunct2]

lemma example_loads:
  "load_note example_note_store (map_of example_note_kv) 2 = None"
  "load_note example_note_store (map_of example_note_kv) 7 =
     Some ((example_note 3 7)\<lparr>sn_scopes := [aztec_address_zero]\<rparr>)"
  "load_note example_note_store (map_of example_note_kv) 8 =
     Some ((example_note 6 8)\<lparr>sn_scopes := [aztec_address_zero]\<rparr>)"
  by (simp_all add: example_note_simps added_note_def push_scope_def example_note_def fr_eval)

lemma example_load_cases:
  "load_note example_note_store (map_of example_note_kv) n = Some x \<Longrightarrow>
   x = (example_note 3 7)\<lparr>sn_scopes := [aztec_address_zero]\<rparr> \<or>
   x = (example_note 6 8)\<lparr>sn_scopes := [aztec_address_zero]\<rparr>"
  by (auto simp: example_note_simps added_note_def push_scope_def example_note_def split: if_splits)

lemmas example_note_ok = example_note_simps(1,2)

subsection \<open>Properties\<close>

text \<open>
  C1. A rollback to block \<open>b\<close> of a well-formed note store succeeds, keeps the store well formed,
  and treats every note alone: a note created after \<open>b\<close> is gone, a note nullified after \<open>b\<close> is
  active again, every other note is unchanged.
\<close>

theorem rollback_correct:
  assumes "ns_kv self = in_memory_kv" and "note_store_ok self" and "btree_ok kv"
    and "note_state_ok self (map_of kv)"
  shows "\<exists>kv'. note_rollback self b synced kv = (Inr (), kv') \<and> btree_ok kv' \<and>
    note_state_ok self (map_of kv') \<and>
    (\<forall>n. load_note self (map_of kv') n =
       Option.bind (load_note self (map_of kv) n) (rollback_note b))"
proof -
  have "wp (note_rollback self b synced) (\<lambda>_ kv'. btree_ok kv' \<and> note_state_ok self (map_of kv') \<and>
    (\<forall>n. load_note self (map_of kv') n =
       Option.bind (load_note self (map_of kv) n) (rollback_note b))) kv"
    using assms by (intro mem.wp_note_rollback) auto
  then show ?thesis unfolding wp_iff by auto
qed

theorem rollback_correct_witness:
  "\<exists>kv'. note_rollback example_note_store 3 6 example_note_kv = (Inr (), kv') \<and>
     load_note example_note_store (map_of kv') 8 = None \<and>
     load_note example_note_store (map_of kv') 7 =
       Some ((example_note 3 7)\<lparr>sn_scopes := [aztec_address_zero]\<rparr>)"
  using rollback_correct[of example_note_store example_note_kv 3 6]
  by (auto simp: example_note_ok example_loads rollback_note_def example_note_def)

text \<open>
  Adding notes for a scope succeeds and keeps the store well formed; a note already stored
  keeps every field and gains the scope, a new note is stored with the scope, the first of
  several notes with the same nullifier wins, and no other note changes.
\<close>

lemma add_notes_correct:
  assumes "ns_kv self = in_memory_kv" and "note_store_ok self" and "btree_ok kv"
    and "note_state_ok self (map_of kv)" and "\<forall>x \<in> set xs. incoming_note x"
  shows "\<exists>kv'. add_notes self xs scope kv = (Inr (), kv') \<and> btree_ok kv' \<and>
    note_state_ok self (map_of kv') \<and>
    load_note self (map_of kv') = added_note scope xs (load_note self (map_of kv))"
proof -
  have "wp (add_notes self xs scope) (\<lambda>_ kv'. btree_ok kv' \<and> note_state_ok self (map_of kv') \<and>
    load_note self (map_of kv') = added_note scope xs (load_note self (map_of kv))) kv"
    using assms by (intro mem.wp_add_notes) auto
  then show ?thesis unfolding wp_iff by auto
qed

text \<open>
  C11. Applying nullifiers succeeds and keeps the store well formed; the first nullifier that
  names an active note marks it nullified at its block, a nullifier of an unknown or already
  nullified note is ignored, and no other note changes.
\<close>

theorem apply_nullifiers_correct:
  assumes "ns_kv self = in_memory_kv" and "note_store_ok self" and "btree_ok kv"
    and "note_state_ok self (map_of kv)"
    and "\<forall>e \<in> set es. nullifier_after_creation (load_note self (map_of kv)) e"
  shows "\<exists>kv'. apply_nullifiers self es kv = (Inr (), kv') \<and> btree_ok kv' \<and>
    note_state_ok self (map_of kv') \<and>
    load_note self (map_of kv') = nullified_note es (load_note self (map_of kv))"
proof -
  have "wp (apply_nullifiers self es) (\<lambda>_ kv'. btree_ok kv' \<and> note_state_ok self (map_of kv') \<and>
    load_note self (map_of kv') = nullified_note es (load_note self (map_of kv))) kv"
    using assms by (intro mem.wp_apply_nullifiers) auto
  then show ?thesis unfolding wp_iff by auto
qed

theorem apply_nullifiers_correct_witness:
  "\<exists>kv'. apply_nullifiers example_note_store [(7, 5), (7, 6), (2, 5)] example_note_kv = (Inr (), kv') \<and>
     map_option sn_nullification_block_number (load_note example_note_store (map_of kv') 7) =
       Some (Some 5) \<and>
     load_note example_note_store (map_of kv') 2 = None"
  using apply_nullifiers_correct[of example_note_store example_note_kv "[(7, 5), (7, 6), (2, 5)]"]
  by (auto simp: example_note_ok example_loads nullifier_after_creation_def nullified_note_def
      example_note_def fr_eval)

text \<open>
  C7. A query succeeds without changing the store and returns each stored note that matches the
  filter exactly once, ordered by block, transaction and position in the transaction. The
  contract index used for a filter by contract gives the same notes as a scan of all notes.
\<close>

theorem get_notes_correct:
  assumes "ns_kv self = in_memory_kv" and "note_store_ok self" and "btree_ok kv"
    and "note_state_ok self (map_of kv)"
  shows "\<exists>xs. get_notes self filt kv = (Inr xs, kv) \<and> sorted (map note_position xs) \<and>
    distinct (map sn_siloed_nullifier xs) \<and>
    set xs = {x. (\<exists>n. load_note self (map_of kv) n = Some x) \<and> note_matches filt x \<and>
      (\<forall>c. nf_contract_address filt = Some c \<longrightarrow> sn_contract_address x = c)}"
proof -
  have "wp (get_notes self filt) (\<lambda>xs kv'. kv' = kv \<and> sorted (map note_position xs) \<and>
    distinct (map sn_siloed_nullifier xs) \<and>
    set xs = {x. (\<exists>n. load_note self (map_of kv) n = Some x) \<and> note_matches filt x \<and>
      (\<forall>c. nf_contract_address filt = Some c \<longrightarrow> sn_contract_address x = c)}) kv"
    using assms by (intro mem.wp_get_notes) auto
  then show ?thesis unfolding wp_iff by auto
qed

theorem get_notes_correct_witness:
  "\<exists>xs. get_notes example_note_store note_filter_default example_note_kv = (Inr xs, example_note_kv) \<and>
     sorted (map note_position xs) \<and>
     (example_note 6 8)\<lparr>sn_scopes := [aztec_address_zero]\<rparr> \<in> set xs"
  using get_notes_correct[of example_note_store example_note_kv note_filter_default] example_loads(3)
  by (auto simp: example_note_ok note_matches_def note_filter_default_def example_note_def)

text \<open>
  A reorganisation undoes what the abandoned blocks did: nullifiers applied at blocks after
  \<open>b\<close> followed by a rollback to \<open>b\<close> leave the notes of a store that had nothing from after \<open>b\<close> as
  they were.
\<close>

lemma nullify_rollback_roundtrip:
  assumes "ns_kv self = in_memory_kv" and "note_store_ok self" and "btree_ok kv"
    and "note_state_ok self (map_of kv)"
    and "\<And>n x. load_note self (map_of kv) n = Some x \<Longrightarrow> rollback_note b x = Some x"
    and "\<forall>(n, c) \<in> set es. b < c"
  shows "\<exists>kv1 kv2. apply_nullifiers self es kv = (Inr (), kv1) \<and>
    note_rollback self b synced kv1 = (Inr (), kv2) \<and>
    load_note self (map_of kv2) = load_note self (map_of kv)"
proof -
  have pre: "nullifier_after_creation (load_note self (map_of kv)) e" if "e \<in> set es" for e
    using assms(5,6) that
    by (cases e) (force simp: nullifier_after_creation_def rollback_note_def split: if_splits)
  have undo: "Option.bind (nullified_note es (load_note self (map_of kv)) n) (rollback_note b) =
      load_note self (map_of kv) n" for n
  proof (cases "load_note self (map_of kv) n")
    case (Some x)
    have inv: "sn_nullified x \<longleftrightarrow> sn_nullification_block_number x \<noteq> None"
      using assms(2,4) Some note_invD(2) by (auto simp: note_state_ok_def load_note_rep)
    have later: "b < c" if "filter (\<lambda>e. fst e = n) es = (m, c) # r" for m c r
    proof -
      have "(m, c) \<in> set (filter (\<lambda>e. fst e = n) es)" using that by simp
      then show ?thesis using assms(6) by auto
    qed
    show ?thesis
      using assms(5)[OF Some] inv later Some
      by (cases x) (auto simp: nullified_note_def rollback_note_def unnullify_def
          split: list.splits option.splits if_splits)
  qed (simp add: nullified_note_def)
  have "wp (apply_nullifiers self es) (\<lambda>_. wp (note_rollback self b synced)
      (\<lambda>_ kv2. load_note self (map_of kv2) = load_note self (map_of kv))) kv"
    using assms(1-4) pre undo by (intro mem.wp_apply_nullifiers mem.wp_note_rollback) auto
  then show ?thesis unfolding wp_iff by auto
qed

lemma nullify_rollback_roundtrip_witness:
  "\<exists>kv1 kv2. apply_nullifiers example_note_store [(7, 8)] example_note_kv = (Inr (), kv1) \<and>
    note_rollback example_note_store 6 8 kv1 = (Inr (), kv2) \<and>
    load_note example_note_store (map_of kv2) = load_note example_note_store (map_of example_note_kv)"
  by (rule nullify_rollback_roundtrip)
    (auto simp: example_note_ok rollback_note_def example_note_def dest!: example_load_cases)

text \<open>
  \<open>nullify_note\<close> records the placeholder block \<open>0\<close>, so no rollback ever reactivates the note
  it marks: an active note found by its contract, slot and hash is nullified, and stays nullified
  after a rollback to any block that keeps its creation.
\<close>

lemma placeholder_nullification_survives:
  assumes "ns_kv self = in_memory_kv" and "note_store_ok self" and "btree_ok kv"
    and "note_state_ok self (map_of kv)"
    and "load_note self (map_of kv) n = Some x" and "\<not> sn_nullified x"
    and "sn_block_number x = Some c" and "c \<le> b"
    and "\<And>n' y. load_note self (map_of kv) n' = Some y \<Longrightarrow> sn_contract_address y = sn_contract_address x \<Longrightarrow>
      sn_storage_slot y = sn_storage_slot x \<Longrightarrow> sn_note_hash y = sn_note_hash x \<Longrightarrow> y = x"
  shows "\<exists>kv1 kv2. nullify_note self (sn_contract_address x) (sn_storage_slot x) (sn_note_hash x) kv =
      (Inr (), kv1) \<and>
    note_rollback self b synced kv1 = (Inr (), kv2) \<and>
    load_note self (map_of kv2) n =
      Some (x\<lparr>sn_nullified := True, sn_nullification_block_number := Some 0\<rparr>)"
proof -
  have n: "sn_siloed_nullifier x = n"
    using assms(2,4,5) note_invD(1) by (auto simp: note_state_ok_def load_note_rep)
  have "wp (nullify_note self (sn_contract_address x) (sn_storage_slot x) (sn_note_hash x))
    (\<lambda>_. wp (note_rollback self b synced) (\<lambda>_ kv2. load_note self (map_of kv2) n =
      Some (x\<lparr>sn_nullified := True, sn_nullification_block_number := Some 0\<rparr>))) kv"
  proof (intro mem.wp_nullify_note[OF assms(1-4)] mem.wp_note_rollback[OF assms(1,2)])
    fix kv1 kv2 y
    assume y: "load_note self (map_of kv) (sn_siloed_nullifier y) = Some y"
        "sn_contract_address y = sn_contract_address x" "sn_storage_slot y = sn_storage_slot x"
        "sn_note_hash y = sn_note_hash x"
      and kv1: "load_note self (map_of kv1) =
        nullified_note [(sn_siloed_nullifier y, 0)] (load_note self (map_of kv))"
      and kv2: "load_note self (map_of kv2) =
        (\<lambda>n. Option.bind (load_note self (map_of kv1) n) (rollback_note b))"
    have "y = x" by (rule assms(9)[OF y])
    with kv1 kv2 n show "load_note self (map_of kv2) n =
        Some (x\<lparr>sn_nullified := True, sn_nullification_block_number := Some 0\<rparr>)"
      using assms(5-8) by (simp add: nullified_note_def rollback_note_def)
  qed (use assms(3-5) in auto)
  then show ?thesis unfolding wp_iff by auto
qed

end
