(* ===== verification/Kernel_Types.thy ===== *)
theory Kernel_Types
  imports Hashing
begin

text \<open>
  The kernel and transaction data of \<open>crates/core/src/kernel_types.rs\<close>, the gas types of
  \<open>fee.rs\<close> and the limits of \<open>constants.rs\<close>: the public inputs of the private kernel tail, their
  flattening into field elements (the preimage of the transaction hash) and their wire buffer.

  A \<open>write_fields\<close> or \<open>write_*\<close> method appends to its output vector; its model is the list it
  appends. The two serializations are built from codes of fixed width; the locale \<open>fixed_width\<close>
  is the contract of one such code, each writer of the source is an interpretation of it, and the
  properties say exactly which public inputs share a hash preimage or a wire buffer.
\<close>

subsection \<open>Gas\<close>

record gas =
  da_gas :: u64
  l2_gas :: u64

record gas_fees =
  fee_per_da_gas :: "128 word"
  fee_per_l2_gas :: "128 word"

record gas_settings =
  gas_limits :: "gas option"
  teardown_gas_limits :: "gas option"
  max_fee_per_gas :: "gas_fees option"
  max_priority_fee_per_gas :: "gas_fees option"

definition DEFAULT_DA_GAS_LIMIT :: u64 where "DEFAULT_DA_GAS_LIMIT = 786432"
definition DEFAULT_L2_GAS_LIMIT :: u64 where "DEFAULT_L2_GAS_LIMIT = 6540000"
definition DEFAULT_TEARDOWN_DA_GAS_LIMIT :: u64 where "DEFAULT_TEARDOWN_DA_GAS_LIMIT = 393216"
definition DEFAULT_TEARDOWN_L2_GAS_LIMIT :: u64 where "DEFAULT_TEARDOWN_L2_GAS_LIMIT = 1000000"

definition gas_new :: "u64 \<Rightarrow> u64 \<Rightarrow> gas" where
  "gas_new da l2 = \<lparr>da_gas = da, l2_gas = l2\<rparr>"

definition gas_empty :: gas where
  "gas_empty = \<lparr>da_gas = 0, l2_gas = 0\<rparr>"

definition gas_add :: "gas \<Rightarrow> gas \<Rightarrow> gas result" where
  "gas_add self other =
     bind_result (checked_add (da_gas self) (da_gas other)) (\<lambda>da.
     bind_result (checked_add (l2_gas self) (l2_gas other)) (\<lambda>l2.
       Inr \<lparr>da_gas = da, l2_gas = l2\<rparr>))"

definition gas_fees_default :: gas_fees where
  "gas_fees_default = \<lparr>fee_per_da_gas = 0, fee_per_l2_gas = 0\<rparr>"

definition gas_settings_default :: gas_settings where
  "gas_settings_default =
     \<lparr>gas_limits = Some \<lparr>da_gas = DEFAULT_DA_GAS_LIMIT, l2_gas = DEFAULT_L2_GAS_LIMIT\<rparr>,
      teardown_gas_limits =
        Some \<lparr>da_gas = DEFAULT_TEARDOWN_DA_GAS_LIMIT, l2_gas = DEFAULT_TEARDOWN_L2_GAS_LIMIT\<rparr>,
      max_fee_per_gas = Some \<lparr>fee_per_da_gas = 1, fee_per_l2_gas = 1\<rparr>,
      max_priority_fee_per_gas = Some gas_fees_default\<rparr>"

subsection \<open>Limits and separators\<close>

definition MAX_NOTE_HASHES_PER_TX :: nat where "MAX_NOTE_HASHES_PER_TX = 64"
definition MAX_NULLIFIERS_PER_TX :: nat where "MAX_NULLIFIERS_PER_TX = 64"
definition MAX_PRIVATE_LOGS_PER_TX :: nat where "MAX_PRIVATE_LOGS_PER_TX = 64"
definition MAX_L2_TO_L1_MSGS_PER_TX :: nat where "MAX_L2_TO_L1_MSGS_PER_TX = 8"
definition MAX_ENQUEUED_CALLS_PER_TX :: nat where "MAX_ENQUEUED_CALLS_PER_TX = 32"
definition MAX_CONTRACT_CLASS_LOGS_PER_TX :: nat where "MAX_CONTRACT_CLASS_LOGS_PER_TX = 1"
definition PRIVATE_LOG_SIZE_IN_FIELDS :: nat where "PRIVATE_LOG_SIZE_IN_FIELDS = 16"
definition PRIVATE_TX_HASH :: u32 where "PRIVATE_TX_HASH = 1971680439"
definition PUBLIC_TX_HASH :: u32 where "PUBLIC_TX_HASH = 1630108851"

lemmas tx_limits =
  MAX_NOTE_HASHES_PER_TX_def MAX_NULLIFIERS_PER_TX_def MAX_PRIVATE_LOGS_PER_TX_def
  MAX_L2_TO_L1_MSGS_PER_TX_def MAX_ENQUEUED_CALLS_PER_TX_def MAX_CONTRACT_CLASS_LOGS_PER_TX_def
  PRIVATE_LOG_SIZE_IN_FIELDS_def

subsection \<open>Leaf types\<close>

text \<open>An \<open>EthAddress\<close> is an array of 20 bytes; \<open>eth_ok\<close> is the length its type fixes.\<close>

datatype eth_address = EthAddress "u8 list"

primrec eth_bytes :: "eth_address \<Rightarrow> u8 list" where
  "eth_bytes (EthAddress bs) = bs"

definition eth_ok :: "eth_address \<Rightarrow> bool" where
  "eth_ok a \<longleftrightarrow> length (eth_bytes a) = 20"

definition eth_address_default :: eth_address where
  "eth_address_default = EthAddress (replicate 20 0)"

definition eth_address_to_fr :: "eth_address \<Rightarrow> fr" where
  "eth_address_to_fr a = fr_from_bytes (replicate 12 0 @ eth_bytes a)"

record note_hash =
  nh_value :: fr
  nh_counter :: u32

definition note_hash_is_empty :: "note_hash \<Rightarrow> bool" where
  "note_hash_is_empty n \<longleftrightarrow> nh_value n = 0"

record scoped_note_hash =
  snh_note_hash :: note_hash
  snh_contract_address :: aztec_address

definition scoped_note_hash_is_empty :: "scoped_note_hash \<Rightarrow> bool" where
  "scoped_note_hash_is_empty n \<longleftrightarrow> note_hash_is_empty (snh_note_hash n)"

record nullifier =
  nf_value :: fr
  nf_note_hash :: fr
  nf_counter :: u32

definition nullifier_is_empty :: "nullifier \<Rightarrow> bool" where
  "nullifier_is_empty n \<longleftrightarrow> nf_value n = 0"

record scoped_nullifier =
  snf_nullifier :: nullifier
  snf_contract_address :: aztec_address

definition scoped_nullifier_is_empty :: "scoped_nullifier \<Rightarrow> bool" where
  "scoped_nullifier_is_empty n \<longleftrightarrow> nullifier_is_empty (snf_nullifier n)"

record l2_to_l1_message =
  msg_recipient :: eth_address
  msg_content :: fr

record scoped_l2_to_l1_message =
  smsg_message :: l2_to_l1_message
  smsg_contract_address :: aztec_address

definition scoped_l2_to_l1_message_empty :: scoped_l2_to_l1_message where
  "scoped_l2_to_l1_message_empty =
     \<lparr>smsg_message = \<lparr>msg_recipient = eth_address_default, msg_content = 0\<rparr>,
      smsg_contract_address = aztec_address_zero\<rparr>"

definition scoped_l2_to_l1_message_is_empty :: "scoped_l2_to_l1_message \<Rightarrow> bool" where
  "scoped_l2_to_l1_message_is_empty m \<longleftrightarrow> msg_content (smsg_message m) = 0"

record log_hash =
  lh_value :: fr
  lh_length :: u32

record scoped_log_hash =
  slh_log_hash :: log_hash
  slh_contract_address :: aztec_address

definition log_hash_is_empty :: "log_hash \<Rightarrow> bool" where
  "log_hash_is_empty h \<longleftrightarrow> lh_value h = 0"

definition scoped_log_hash_empty :: scoped_log_hash where
  "scoped_log_hash_empty =
     \<lparr>slh_log_hash = \<lparr>lh_value = 0, lh_length = 0\<rparr>, slh_contract_address = aztec_address_zero\<rparr>"

definition scoped_log_hash_is_empty :: "scoped_log_hash \<Rightarrow> bool" where
  "scoped_log_hash_is_empty h \<longleftrightarrow> log_hash_is_empty (slh_log_hash h)"

record private_log =
  pl_fields :: "fr list"
  pl_emitted_length :: u32

definition private_log_empty :: private_log where
  "private_log_empty =
     \<lparr>pl_fields = replicate PRIVATE_LOG_SIZE_IN_FIELDS 0, pl_emitted_length = 0\<rparr>"

definition private_log_is_empty :: "private_log \<Rightarrow> bool" where
  "private_log_is_empty l \<longleftrightarrow> list_all (\<lambda>f. f = 0) (pl_fields l)"

record public_call_request =
  pcr_msg_sender :: aztec_address
  pcr_contract_address :: aztec_address
  pcr_is_static_call :: bool
  pcr_calldata_hash :: fr

record counted_public_call_request =
  cpcr_inner :: public_call_request
  cpcr_counter :: u32

definition public_call_request_empty :: public_call_request where
  "public_call_request_empty =
     \<lparr>pcr_msg_sender = aztec_address_zero, pcr_contract_address = aztec_address_zero,
      pcr_is_static_call = False, pcr_calldata_hash = 0\<rparr>"

definition public_call_request_is_empty :: "public_call_request \<Rightarrow> bool" where
  "public_call_request_is_empty r \<longleftrightarrow> pcr_contract_address r = aztec_address_zero"

record contract_class_log =
  ccl_contract_address :: aztec_address
  ccl_fields :: "fr list"
  ccl_emitted_length :: u32

record counted_contract_class_log =
  cccl_log :: contract_class_log
  cccl_counter :: u32

record read_request =
  rr_value :: fr
  rr_counter :: u32

record scoped_read_request =
  srr_read_request :: read_request
  srr_contract_address :: aztec_address

record note_and_slot =
  nas_contract_address :: aztec_address
  nas_owner :: aztec_address
  nas_storage_slot :: fr
  nas_randomness :: fr
  nas_note_type_id :: fr
  nas_note_items :: "fr list"
  nas_note_hash :: fr
  nas_counter :: u32

record call_context =
  cc_msg_sender :: aztec_address
  cc_contract_address :: aztec_address
  cc_function_selector :: fr
  cc_is_static_call :: bool

definition call_context_to_fields :: "call_context \<Rightarrow> fr list" where
  "call_context_to_fields c =
     [address_field (cc_msg_sender c), address_field (cc_contract_address c),
      cc_function_selector c, fr_from_bool (cc_is_static_call c)]"

subsection \<open>Accumulated data\<close>

record private_to_public_accumulated_data =
  pub_note_hashes :: "fr list"
  pub_nullifiers :: "fr list"
  pub_l2_to_l1_msgs :: "scoped_l2_to_l1_message list"
  pub_private_logs :: "private_log list"
  pub_contract_class_logs_hashes :: "scoped_log_hash list"
  pub_public_call_requests :: "public_call_request list"

definition public_data_empty :: private_to_public_accumulated_data where
  "public_data_empty =
     \<lparr>pub_note_hashes = replicate MAX_NOTE_HASHES_PER_TX 0,
      pub_nullifiers = replicate MAX_NULLIFIERS_PER_TX 0,
      pub_l2_to_l1_msgs = replicate MAX_L2_TO_L1_MSGS_PER_TX scoped_l2_to_l1_message_empty,
      pub_private_logs = replicate MAX_PRIVATE_LOGS_PER_TX private_log_empty,
      pub_contract_class_logs_hashes =
        replicate MAX_CONTRACT_CLASS_LOGS_PER_TX scoped_log_hash_empty,
      pub_public_call_requests = replicate MAX_ENQUEUED_CALLS_PER_TX public_call_request_empty\<rparr>"

record private_to_rollup_accumulated_data =
  rol_note_hashes :: "fr list"
  rol_nullifiers :: "fr list"
  rol_l2_to_l1_msgs :: "scoped_l2_to_l1_message list"
  rol_private_logs :: "private_log list"
  rol_contract_class_logs_hashes :: "scoped_log_hash list"

definition rollup_data_empty :: private_to_rollup_accumulated_data where
  "rollup_data_empty =
     \<lparr>rol_note_hashes = replicate MAX_NOTE_HASHES_PER_TX 0,
      rol_nullifiers = replicate MAX_NULLIFIERS_PER_TX 0,
      rol_l2_to_l1_msgs = replicate MAX_L2_TO_L1_MSGS_PER_TX scoped_l2_to_l1_message_empty,
      rol_private_logs = replicate MAX_PRIVATE_LOGS_PER_TX private_log_empty,
      rol_contract_class_logs_hashes =
        replicate MAX_CONTRACT_CLASS_LOGS_PER_TX scoped_log_hash_empty\<rparr>"

subsection \<open>State, headers and transaction constants\<close>

record append_only_tree_snapshot =
  snap_root :: fr
  snap_next_available_leaf_index :: u32

record partial_state_reference =
  ps_note_hash_tree :: append_only_tree_snapshot
  ps_nullifier_tree :: append_only_tree_snapshot
  ps_public_data_tree :: append_only_tree_snapshot

record state_reference =
  sr_l1_to_l2_message_tree :: append_only_tree_snapshot
  sr_partial :: partial_state_reference

record global_variables =
  gv_chain_id :: fr
  gv_version :: fr
  gv_block_number :: u64
  gv_slot_number :: u64
  gv_timestamp :: u64
  gv_coinbase :: eth_address
  gv_fee_recipient :: aztec_address
  gv_gas_fees :: gas_fees

record block_header =
  bh_last_archive :: append_only_tree_snapshot
  bh_state :: state_reference
  bh_sponge_blob_hash :: fr
  bh_global_variables :: global_variables
  bh_total_fees :: fr
  bh_total_mana_used :: fr

record tx_context =
  tc_chain_id :: fr
  tc_version :: fr
  tc_gas_settings :: gas_settings

record tx_constant_data =
  tcd_anchor_block_header :: block_header
  tcd_tx_context :: tx_context
  tcd_vk_tree_root :: fr
  tcd_protocol_contracts_hash :: fr

subsection \<open>Tail public inputs\<close>

record tail_for_public =
  tp_non_revertible :: private_to_public_accumulated_data
  tp_revertible :: private_to_public_accumulated_data
  tp_teardown_call_request :: public_call_request

record tail_for_rollup =
  tr_end :: private_to_rollup_accumulated_data

record private_kernel_tail_public_inputs =
  pi_constants :: tx_constant_data
  pi_gas_used :: gas
  pi_fee_payer :: aztec_address
  pi_expiration_timestamp :: u64
  pi_for_public :: "tail_for_public option"
  pi_for_rollup :: "tail_for_rollup option"

definition is_for_public :: "private_kernel_tail_public_inputs \<Rightarrow> bool" where
  "is_for_public p \<longleftrightarrow> pi_for_public p \<noteq> None"

definition get_non_empty_contract_class_logs_hashes ::
    "private_kernel_tail_public_inputs \<Rightarrow> scoped_log_hash list" where
  "get_non_empty_contract_class_logs_hashes p =
     (case pi_for_public p of
        Some fp \<Rightarrow>
          filter (\<lambda>h. \<not> scoped_log_hash_is_empty h)
            (pub_contract_class_logs_hashes (tp_non_revertible fp) @
             pub_contract_class_logs_hashes (tp_revertible fp))
      | None \<Rightarrow>
          (case pi_for_rollup p of
             Some fr \<Rightarrow>
               filter (\<lambda>h. \<not> scoped_log_hash_is_empty h)
                 (rol_contract_class_logs_hashes (tr_end fr))
           | None \<Rightarrow> []))"

definition number_of_public_calls :: "private_kernel_tail_public_inputs \<Rightarrow> nat" where
  "number_of_public_calls p =
     (case pi_for_public p of
        Some fp \<Rightarrow>
          (let nr = length (filter (\<lambda>r. \<not> public_call_request_is_empty r)
                 (pub_public_call_requests (tp_non_revertible fp)));
               r = length (filter (\<lambda>r. \<not> public_call_request_is_empty r)
                 (pub_public_call_requests (tp_revertible fp)));
               td = (if public_call_request_is_empty (tp_teardown_call_request fp) then 0 else 1)
           in nr + r + td)
      | None \<Rightarrow> 0)"

definition push_non_empty ::
    "public_call_request list \<Rightarrow> public_call_request list \<Rightarrow> public_call_request list" where
  "push_non_empty rs requests =
     foldl (\<lambda>acc r. if public_call_request_is_empty r then acc else acc @ [r]) requests rs"

definition get_all_public_call_requests ::
    "private_kernel_tail_public_inputs \<Rightarrow> public_call_request list" where
  "get_all_public_call_requests p =
     (case pi_for_public p of
        Some fp \<Rightarrow>
          (let requests = push_non_empty (pub_public_call_requests (tp_non_revertible fp)) [];
               requests = push_non_empty (pub_public_call_requests (tp_revertible fp)) requests
           in if public_call_request_is_empty (tp_teardown_call_request fp) then requests
              else requests @ [tp_teardown_call_request fp])
      | None \<Rightarrow> [])"

subsection \<open>Flattening into fields\<close>

definition fr_from_u32 :: "u32 \<Rightarrow> fr" where
  "fr_from_u32 v = fr_from_u64 (ucast v)"

definition message_fields :: "l2_to_l1_message \<Rightarrow> fr list" where
  "message_fields m = [eth_address_to_fr (msg_recipient m), msg_content m]"

definition scoped_message_fields :: "scoped_l2_to_l1_message \<Rightarrow> fr list" where
  "scoped_message_fields m =
     message_fields (smsg_message m) @ [address_field (smsg_contract_address m)]"

definition log_hash_fields :: "log_hash \<Rightarrow> fr list" where
  "log_hash_fields h = [lh_value h, fr_from_u32 (lh_length h)]"

definition scoped_log_hash_fields :: "scoped_log_hash \<Rightarrow> fr list" where
  "scoped_log_hash_fields h =
     log_hash_fields (slh_log_hash h) @ [address_field (slh_contract_address h)]"

definition private_log_fields :: "private_log \<Rightarrow> fr list" where
  "private_log_fields l = pl_fields l @ [fr_from_u32 (pl_emitted_length l)]"

definition public_call_request_fields :: "public_call_request \<Rightarrow> fr list" where
  "public_call_request_fields r =
     [address_field (pcr_msg_sender r), address_field (pcr_contract_address r),
      fr_from_bool (pcr_is_static_call r), pcr_calldata_hash r]"

definition public_data_fields :: "private_to_public_accumulated_data \<Rightarrow> fr list" where
  "public_data_fields d =
     pub_note_hashes d @ pub_nullifiers d @
     concat (map scoped_message_fields (pub_l2_to_l1_msgs d)) @
     concat (map private_log_fields (pub_private_logs d)) @
     concat (map scoped_log_hash_fields (pub_contract_class_logs_hashes d)) @
     concat (map public_call_request_fields (pub_public_call_requests d))"

definition rollup_data_fields :: "private_to_rollup_accumulated_data \<Rightarrow> fr list" where
  "rollup_data_fields d =
     rol_note_hashes d @ rol_nullifiers d @
     concat (map scoped_message_fields (rol_l2_to_l1_msgs d)) @
     concat (map private_log_fields (rol_private_logs d)) @
     concat (map scoped_log_hash_fields (rol_contract_class_logs_hashes d))"

definition snapshot_fields :: "append_only_tree_snapshot \<Rightarrow> fr list" where
  "snapshot_fields s = [snap_root s, fr_from_u32 (snap_next_available_leaf_index s)]"

definition partial_state_fields :: "partial_state_reference \<Rightarrow> fr list" where
  "partial_state_fields s =
     snapshot_fields (ps_note_hash_tree s) @ snapshot_fields (ps_nullifier_tree s) @
     snapshot_fields (ps_public_data_tree s)"

definition state_reference_fields :: "state_reference \<Rightarrow> fr list" where
  "state_reference_fields s =
     snapshot_fields (sr_l1_to_l2_message_tree s) @ partial_state_fields (sr_partial s)"

definition gas_fields :: "gas \<Rightarrow> fr list" where
  "gas_fields g = [fr_from_u64 (da_gas g), fr_from_u64 (l2_gas g)]"

definition gas_fees_fields :: "gas_fees \<Rightarrow> fr list" where
  "gas_fees_fields g = [fr_from_u128 (fee_per_da_gas g), fr_from_u128 (fee_per_l2_gas g)]"

text \<open>\<open>Option::unwrap_or_default\<close>.\<close>

definition unwrap_or :: "'a \<Rightarrow> 'a option \<Rightarrow> 'a" where
  "unwrap_or d x = (case x of None \<Rightarrow> d | Some y \<Rightarrow> y)"

definition gas_settings_fields :: "gas_settings \<Rightarrow> fr list" where
  "gas_settings_fields s =
     gas_fields (unwrap_or gas_empty (gas_limits s)) @
     gas_fields (unwrap_or gas_empty (teardown_gas_limits s)) @
     gas_fees_fields (unwrap_or gas_fees_default (max_fee_per_gas s)) @
     gas_fees_fields (unwrap_or gas_fees_default (max_priority_fee_per_gas s))"

definition global_variables_fields :: "global_variables \<Rightarrow> fr list" where
  "global_variables_fields g =
     [gv_chain_id g, gv_version g, fr_from_u64 (gv_block_number g),
      fr_from_u64 (gv_slot_number g), fr_from_u64 (gv_timestamp g),
      eth_address_to_fr (gv_coinbase g), address_field (gv_fee_recipient g)] @
     gas_fees_fields (gv_gas_fees g)"

definition block_header_fields :: "block_header \<Rightarrow> fr list" where
  "block_header_fields h =
     snapshot_fields (bh_last_archive h) @ state_reference_fields (bh_state h) @
     [bh_sponge_blob_hash h] @ global_variables_fields (bh_global_variables h) @
     [bh_total_fees h, bh_total_mana_used h]"

definition tx_context_fields :: "tx_context \<Rightarrow> fr list" where
  "tx_context_fields c =
     [tc_chain_id c, tc_version c] @ gas_settings_fields (tc_gas_settings c)"

definition tx_constant_data_fields :: "tx_constant_data \<Rightarrow> fr list" where
  "tx_constant_data_fields c =
     block_header_fields (tcd_anchor_block_header c) @ tx_context_fields (tcd_tx_context c) @
     [tcd_vk_tree_root c, tcd_protocol_contracts_hash c]"

definition tail_for_public_fields :: "tail_for_public \<Rightarrow> fr list" where
  "tail_for_public_fields t =
     public_data_fields (tp_non_revertible t) @ public_data_fields (tp_revertible t) @
     public_call_request_fields (tp_teardown_call_request t)"

definition to_fields :: "private_kernel_tail_public_inputs \<Rightarrow> fr list" where
  "to_fields p =
     tx_constant_data_fields (pi_constants p) @
     (case pi_for_public p of
        Some fp \<Rightarrow>
          tail_for_public_fields fp @ gas_fields (pi_gas_used p) @
          [address_field (pi_fee_payer p), fr_from_u64 (pi_expiration_timestamp p)]
      | None \<Rightarrow>
          (case pi_for_rollup p of
             Some fr \<Rightarrow>
               rollup_data_fields (tr_end fr) @ gas_fields (pi_gas_used p) @
               [address_field (pi_fee_payer p), fr_from_u64 (pi_expiration_timestamp p)]
           | None \<Rightarrow> []))"

definition tx_hash_separator :: "private_kernel_tail_public_inputs \<Rightarrow> u32" where
  "tx_hash_separator p = (if is_for_public p then PUBLIC_TX_HASH else PRIVATE_TX_HASH)"

definition public_inputs_hash :: "crypto \<Rightarrow> private_kernel_tail_public_inputs \<Rightarrow> fr" where
  "public_inputs_hash C p = poseidon2_hash_with_separator C (to_fields p) (tx_hash_separator p)"

subsection \<open>The wire buffer\<close>

definition write_fr :: "fr \<Rightarrow> u8 list" where
  "write_fr f = fr_to_be_bytes f"

definition write_bool :: "bool \<Rightarrow> u8 list" where
  "write_bool b = [if b then 1 else 0]"

definition write_u32 :: "u32 \<Rightarrow> u8 list" where
  "write_u32 v = be_bytes 4 (unat v)"

definition write_u64 :: "u64 \<Rightarrow> u8 list" where
  "write_u64 v = be_bytes 8 (unat v)"

definition write_u128 :: "128 word \<Rightarrow> u8 list" where
  "write_u128 v = be_bytes 16 (unat v)"

definition write_eth_address :: "eth_address \<Rightarrow> u8 list" where
  "write_eth_address a = eth_bytes a"

definition write_tree_snapshot :: "append_only_tree_snapshot \<Rightarrow> u8 list" where
  "write_tree_snapshot s = write_fr (snap_root s) @ write_u32 (snap_next_available_leaf_index s)"

text \<open>\<open>x as u32\<close> on a 64-bit value keeps the low half.\<close>

definition as_u32 :: "u64 \<Rightarrow> u32" where
  "as_u32 v = ucast v"

definition write_tx_constant_data :: "tx_constant_data \<Rightarrow> u8 list" where
  "write_tx_constant_data c =
     (let h = tcd_anchor_block_header c;
          g = bh_global_variables h;
          gs = tc_gas_settings (tcd_tx_context c);
          gl = gas_limits gs;
          tl = teardown_gas_limits gs;
          mf = max_fee_per_gas gs;
          mp = max_priority_fee_per_gas gs
      in
        write_tree_snapshot (bh_last_archive h) @
        write_tree_snapshot (sr_l1_to_l2_message_tree (bh_state h)) @
        write_tree_snapshot (ps_note_hash_tree (sr_partial (bh_state h))) @
        write_tree_snapshot (ps_nullifier_tree (sr_partial (bh_state h))) @
        write_tree_snapshot (ps_public_data_tree (sr_partial (bh_state h))) @
        write_fr (bh_sponge_blob_hash h) @
        write_fr (gv_chain_id g) @
        write_fr (gv_version g) @
        write_u32 (as_u32 (gv_block_number g)) @
        write_u32 (as_u32 (gv_slot_number g)) @
        write_u64 (gv_timestamp g) @
        write_eth_address (gv_coinbase g) @
        write_fr (address_field (gv_fee_recipient g)) @
        write_u128 (fee_per_da_gas (gv_gas_fees g)) @
        write_u128 (fee_per_l2_gas (gv_gas_fees g)) @
        write_fr (bh_total_fees h) @
        write_fr (bh_total_mana_used h) @
        write_fr (tc_chain_id (tcd_tx_context c)) @
        write_fr (tc_version (tcd_tx_context c)) @
        write_u32 (case gl of None \<Rightarrow> 0 | Some g \<Rightarrow> as_u32 (da_gas g)) @
        write_u32 (case gl of None \<Rightarrow> 0 | Some g \<Rightarrow> as_u32 (l2_gas g)) @
        write_u32 (case tl of None \<Rightarrow> 0 | Some g \<Rightarrow> as_u32 (da_gas g)) @
        write_u32 (case tl of None \<Rightarrow> 0 | Some g \<Rightarrow> as_u32 (l2_gas g)) @
        write_u128 (case mf of None \<Rightarrow> 0 | Some g \<Rightarrow> fee_per_da_gas g) @
        write_u128 (case mf of None \<Rightarrow> 0 | Some g \<Rightarrow> fee_per_l2_gas g) @
        write_u128 (case mp of None \<Rightarrow> 0 | Some g \<Rightarrow> fee_per_da_gas g) @
        write_u128 (case mp of None \<Rightarrow> 0 | Some g \<Rightarrow> fee_per_l2_gas g) @
        write_fr (tcd_vk_tree_root c) @
        write_fr (tcd_protocol_contracts_hash c))"

text \<open>The bodies of the loops over messages, logs and log hashes, shared by the two writers.\<close>

definition write_message :: "scoped_l2_to_l1_message \<Rightarrow> u8 list" where
  "write_message m =
     write_eth_address (msg_recipient (smsg_message m)) @ write_fr (msg_content (smsg_message m)) @
     write_fr (address_field (smsg_contract_address m))"

definition write_private_log :: "private_log \<Rightarrow> u8 list" where
  "write_private_log l = concat (map write_fr (pl_fields l)) @ write_u32 (pl_emitted_length l)"

definition write_log_hash :: "scoped_log_hash \<Rightarrow> u8 list" where
  "write_log_hash h =
     write_fr (lh_value (slh_log_hash h)) @ write_u32 (lh_length (slh_log_hash h)) @
     write_fr (address_field (slh_contract_address h))"

definition write_rollup_accumulated_data :: "private_to_rollup_accumulated_data \<Rightarrow> u8 list" where
  "write_rollup_accumulated_data d =
     concat (map write_fr (rol_note_hashes d)) @
     concat (map write_fr (rol_nullifiers d)) @
     concat (map write_message (rol_l2_to_l1_msgs d)) @
     concat (map write_private_log (rol_private_logs d)) @
     concat (map write_log_hash (rol_contract_class_logs_hashes d))"

definition write_public_call_request :: "public_call_request \<Rightarrow> u8 list" where
  "write_public_call_request r =
     write_fr (address_field (pcr_msg_sender r)) @ write_fr (address_field (pcr_contract_address r)) @
     write_bool (pcr_is_static_call r) @ write_fr (pcr_calldata_hash r)"

definition write_public_accumulated_data :: "private_to_public_accumulated_data \<Rightarrow> u8 list" where
  "write_public_accumulated_data d =
     concat (map write_fr (pub_note_hashes d)) @
     concat (map write_fr (pub_nullifiers d)) @
     concat (map write_message (pub_l2_to_l1_msgs d)) @
     concat (map write_private_log (pub_private_logs d)) @
     concat (map write_log_hash (pub_contract_class_logs_hashes d)) @
     concat (map write_public_call_request (pub_public_call_requests d))"

definition to_buffer :: "private_kernel_tail_public_inputs \<Rightarrow> u8 list" where
  "to_buffer p =
     write_bool (pi_for_public p \<noteq> None) @
     write_tx_constant_data (pi_constants p) @
     write_u32 (as_u32 (da_gas (pi_gas_used p))) @
     write_u32 (as_u32 (l2_gas (pi_gas_used p))) @
     write_fr (address_field (pi_fee_payer p)) @
     write_u64 (pi_expiration_timestamp p) @
     (case pi_for_public p of
        Some fp \<Rightarrow>
          write_public_accumulated_data (tp_non_revertible fp) @
          write_public_accumulated_data (tp_revertible fp) @
          write_public_call_request (tp_teardown_call_request fp)
      | None \<Rightarrow>
          (case pi_for_rollup p of
             Some fr \<Rightarrow> write_rollup_accumulated_data (tr_end fr)
           | None \<Rightarrow> []))"

subsection \<open>Padding\<close>

definition pad_to :: "'a list \<Rightarrow> nat \<Rightarrow> 'a \<Rightarrow> 'a list" where
  "pad_to vec len dflt = (if length vec < len then resize len dflt vec else vec)"

definition pad_fields :: "fr list \<Rightarrow> nat \<Rightarrow> fr list" where
  "pad_fields vec len = (if length vec < len then resize len 0 vec else vec)"

subsection \<open>Codes of fixed width\<close>

text \<open>
  The contract of one writer: on the values \<open>ok\<close> admits it appends \<open>n\<close> symbols and is injective.
  Then a value can be cancelled in front of a tail, also element by element under a loop.
\<close>

locale fixed_width =
  fixes enc :: "'a \<Rightarrow> 'b list" and ok :: "'a \<Rightarrow> bool" and n :: nat
  assumes width: "ok x \<Longrightarrow> length (enc x) = n"
    and inj: "ok x \<Longrightarrow> ok y \<Longrightarrow> enc x = enc y \<Longrightarrow> x = y"
begin

lemma cancel:
  assumes "ok x" and "ok y"
  shows "enc x @ us = enc y @ vs \<longleftrightarrow> x = y \<and> us = vs"
  using assms width[of x] width[of y] inj[of x y] by (auto simp: append_eq_append_conv)

lemma cancel_last:
  assumes "ok x" and "ok y"
  shows "enc x = enc y \<longleftrightarrow> x = y"
  using assms inj[of x y] by auto

lemma width_all: "list_all ok xs \<Longrightarrow> length (concat (map enc xs)) = length xs * n"
  by (induction xs) (auto simp: width)

lemma cancel_all:
  assumes "list_all ok xs" and "list_all ok ys" and "length xs = length ys"
  shows "concat (map enc xs) @ us = concat (map enc ys) @ vs \<longleftrightarrow> xs = ys \<and> us = vs"
  using assms(3,1,2) by (induction xs ys rule: list_induct2) (auto simp: cancel)

lemma cancel_all_last:
  assumes "list_all ok xs" and "list_all ok ys" and "length xs = length ys"
  shows "concat (map enc xs) = concat (map enc ys) \<longleftrightarrow> xs = ys"
  using cancel_all[OF assms, of "[]" "[]"] by simp

end

lemma list_all_True [simp]: "list_all (\<lambda>x. True) xs"
  by (induction xs) auto

lemma address_eq_iff [simp]: "address_field a = address_field b \<longleftrightarrow> a = b"
  by (cases a; cases b) simp

lemma eth_bytes_eq_iff [simp]: "eth_bytes a = eth_bytes b \<longleftrightarrow> a = b"
  by (cases a; cases b) simp

lemma fr_from_u64_eq_iff [simp]: "fr_from_u64 a = fr_from_u64 b \<longleftrightarrow> a = b"
  by (metis into_bigint_fr_from_u64 word_unat_eq_iff)

lemma fr_from_u128_eq_iff [simp]: "fr_from_u128 a = fr_from_u128 b \<longleftrightarrow> a = b"
  by (metis into_bigint_fr_from_u128 word_unat_eq_iff)

lemma fr_from_u32_eq_iff [simp]: "fr_from_u32 a = fr_from_u32 b \<longleftrightarrow> a = b"
proof -
  have "(ucast (ucast x :: u64) :: u32) = x" for x :: u32
    by (rule ucast_up_ucast_id) (simp add: is_up)
  then have "(ucast a :: u64) = ucast b \<longleftrightarrow> a = b" by metis
  then show ?thesis by (simp add: fr_from_u32_def)
qed

lemma fr_from_bool_eq_iff [simp]: "fr_from_bool a = fr_from_bool b \<longleftrightarrow> a = b"
  by (simp add: fr_from_bool_def)

lemma be_bytes_eq_iff:
  "m < 256 ^ k \<Longrightarrow> n < 256 ^ k \<Longrightarrow> be_bytes k m = be_bytes k n \<longleftrightarrow> m = n"
  by (metis mod_less of_be_bytes_be_bytes)

lemma eth_address_to_fr_eq_iff:
  assumes "eth_ok a" and "eth_ok b"
  shows "eth_address_to_fr a = eth_address_to_fr b \<longleftrightarrow> a = b"
proof -
  have val: "into_bigint (eth_address_to_fr x) = of_be_bytes (eth_bytes x)"
    if "eth_ok x" for x
  proof -
    have "of_be_bytes (eth_bytes x) < 256 ^ 20"
      using of_be_bytes_less[of "eth_bytes x"] that by (simp add: eth_ok_def)
    also have "\<dots> \<le> fr_modulus" by (simp add: fr_modulus_def)
    finally show ?thesis
      by (simp add: eth_address_to_fr_def fr_from_bytes_def fr_from_be_bytes_mod_order_def)
  qed
  show ?thesis
    using assms val[of a] val[of b] be_bytes_of_be_bytes[of "eth_bytes a"]
      be_bytes_of_be_bytes[of "eth_bytes b"]
    by (auto simp: eth_ok_def)
qed

subsection \<open>The field writers\<close>

text \<open>What the fixed array types of the protocol fix and a \<open>Vec\<close> does not.\<close>

definition message_ok :: "scoped_l2_to_l1_message \<Rightarrow> bool" where
  "message_ok m \<longleftrightarrow> eth_ok (msg_recipient (smsg_message m))"

definition log_ok :: "private_log \<Rightarrow> bool" where
  "log_ok l \<longleftrightarrow> length (pl_fields l) = PRIVATE_LOG_SIZE_IN_FIELDS"

definition public_data_ok :: "private_to_public_accumulated_data \<Rightarrow> bool" where
  "public_data_ok d \<longleftrightarrow>
     length (pub_note_hashes d) = MAX_NOTE_HASHES_PER_TX \<and>
     length (pub_nullifiers d) = MAX_NULLIFIERS_PER_TX \<and>
     length (pub_l2_to_l1_msgs d) = MAX_L2_TO_L1_MSGS_PER_TX \<and>
     list_all message_ok (pub_l2_to_l1_msgs d) \<and>
     length (pub_private_logs d) = MAX_PRIVATE_LOGS_PER_TX \<and>
     list_all log_ok (pub_private_logs d) \<and>
     length (pub_contract_class_logs_hashes d) = MAX_CONTRACT_CLASS_LOGS_PER_TX \<and>
     length (pub_public_call_requests d) = MAX_ENQUEUED_CALLS_PER_TX"

definition rollup_data_ok :: "private_to_rollup_accumulated_data \<Rightarrow> bool" where
  "rollup_data_ok d \<longleftrightarrow>
     length (rol_note_hashes d) = MAX_NOTE_HASHES_PER_TX \<and>
     length (rol_nullifiers d) = MAX_NULLIFIERS_PER_TX \<and>
     length (rol_l2_to_l1_msgs d) = MAX_L2_TO_L1_MSGS_PER_TX \<and>
     list_all message_ok (rol_l2_to_l1_msgs d) \<and>
     length (rol_private_logs d) = MAX_PRIVATE_LOGS_PER_TX \<and>
     list_all log_ok (rol_private_logs d) \<and>
     length (rol_contract_class_logs_hashes d) = MAX_CONTRACT_CLASS_LOGS_PER_TX"

definition tail_ok :: "tail_for_public \<Rightarrow> bool" where
  "tail_ok t \<longleftrightarrow> public_data_ok (tp_non_revertible t) \<and> public_data_ok (tp_revertible t)"

definition global_ok :: "global_variables \<Rightarrow> bool" where
  "global_ok g \<longleftrightarrow> eth_ok (gv_coinbase g)"

definition settings_set :: "gas_settings \<Rightarrow> bool" where
  "settings_set s \<longleftrightarrow>
     gas_limits s \<noteq> None \<and> teardown_gas_limits s \<noteq> None \<and>
     max_fee_per_gas s \<noteq> None \<and> max_priority_fee_per_gas s \<noteq> None"

definition constants_set :: "tx_constant_data \<Rightarrow> bool" where
  "constants_set c \<longleftrightarrow>
     global_ok (bh_global_variables (tcd_anchor_block_header c)) \<and>
     settings_set (tc_gas_settings (tcd_tx_context c))"

interpretation fields_of_message: fixed_width scoped_message_fields message_ok 3
proof
  fix x y
  assume "message_ok x" "message_ok y" "scoped_message_fields x = scoped_message_fields y"
  then show "x = y"
    by (cases x; cases y; cases "smsg_message x"; cases "smsg_message y")
      (auto simp: scoped_message_fields_def message_fields_def message_ok_def
        eth_address_to_fr_eq_iff)
qed (simp add: scoped_message_fields_def message_fields_def)

interpretation fields_of_log_hash: fixed_width scoped_log_hash_fields "\<lambda>_. True" 3
proof
  fix x y
  assume "scoped_log_hash_fields x = scoped_log_hash_fields y"
  then show "x = y"
    by (cases x; cases y; cases "slh_log_hash x"; cases "slh_log_hash y")
      (auto simp: scoped_log_hash_fields_def log_hash_fields_def)
qed (simp add: scoped_log_hash_fields_def log_hash_fields_def)

interpretation fields_of_log: fixed_width private_log_fields log_ok "PRIVATE_LOG_SIZE_IN_FIELDS + 1"
  by unfold_locales (auto simp: private_log_fields_def log_ok_def intro: private_log.equality)

interpretation fields_of_call: fixed_width public_call_request_fields "\<lambda>_. True" 4
  by unfold_locales (auto simp: public_call_request_fields_def intro: public_call_request.equality)

interpretation fields_of_snapshot: fixed_width snapshot_fields "\<lambda>_. True" 2
  by unfold_locales (auto simp: snapshot_fields_def intro: append_only_tree_snapshot.equality)

lemmas field_codes =
  fields_of_message.cancel_all fields_of_log_hash.cancel_all fields_of_log.cancel_all
  fields_of_call.cancel_all fields_of_message.cancel_all_last fields_of_log_hash.cancel_all_last
  fields_of_log.cancel_all_last fields_of_call.cancel_all_last fields_of_snapshot.cancel
  fields_of_snapshot.cancel_last fields_of_call.cancel fields_of_call.cancel_last
  fields_of_message.width_all fields_of_log_hash.width_all fields_of_log.width_all
  fields_of_call.width_all fields_of_snapshot.width fields_of_call.width

interpretation fields_of_state: fixed_width state_reference_fields "\<lambda>_. True" 8
proof
  fix x y
  assume "state_reference_fields x = state_reference_fields y"
  then show "x = y"
    by (cases x; cases y; cases "sr_partial x"; cases "sr_partial y")
      (auto simp: state_reference_fields_def partial_state_fields_def field_codes)
qed (simp add: state_reference_fields_def partial_state_fields_def field_codes)

interpretation fields_of_gas: fixed_width gas_fields "\<lambda>_. True" 2
  by unfold_locales (auto simp: gas_fields_def intro: gas.equality)

interpretation fields_of_gas_fees: fixed_width gas_fees_fields "\<lambda>_. True" 2
  by unfold_locales (auto simp: gas_fees_fields_def intro: gas_fees.equality)

lemmas gas_codes =
  fields_of_gas.cancel fields_of_gas.cancel_last fields_of_gas_fees.cancel
  fields_of_gas_fees.cancel_last
  fields_of_gas.width fields_of_gas_fees.width

interpretation fields_of_settings: fixed_width gas_settings_fields settings_set 8
proof
  fix x y
  assume "settings_set x" "settings_set y" "gas_settings_fields x = gas_settings_fields y"
  then show "x = y"
    by (cases x; cases y) (auto simp: gas_settings_fields_def settings_set_def unwrap_or_def gas_codes)
qed (simp add: gas_settings_fields_def gas_codes)

interpretation fields_of_global: fixed_width global_variables_fields global_ok 9
proof
  fix x y
  assume "global_ok x" "global_ok y" "global_variables_fields x = global_variables_fields y"
  then show "x = y"
    by (cases x; cases y)
      (auto simp: global_variables_fields_def global_ok_def eth_address_to_fr_eq_iff gas_codes)
qed (simp add: global_variables_fields_def gas_codes)

interpretation fields_of_constants: fixed_width tx_constant_data_fields constants_set 34
proof
  fix x y
  assume "constants_set x" "constants_set y" "tx_constant_data_fields x = tx_constant_data_fields y"
  then show "x = y"
    by (cases x; cases y; cases "tcd_anchor_block_header x"; cases "tcd_anchor_block_header y";
        cases "tcd_tx_context x"; cases "tcd_tx_context y")
      (auto simp: tx_constant_data_fields_def block_header_fields_def tx_context_fields_def
        constants_set_def fields_of_global.cancel fields_of_settings.cancel fields_of_state.cancel
        fields_of_snapshot.cancel fields_of_global.cancel_last fields_of_settings.cancel_last
        fields_of_state.cancel_last fields_of_snapshot.cancel_last)
next
  fix x
  assume "constants_set x"
  then show "length (tx_constant_data_fields x) = 34"
    by (simp add: tx_constant_data_fields_def block_header_fields_def tx_context_fields_def
        constants_set_def fields_of_global.width fields_of_settings.width fields_of_state.width
        fields_of_snapshot.width)
qed

interpretation fields_of_public_data: fixed_width public_data_fields public_data_ok 1371
proof
  fix x y
  assume ok: "public_data_ok x" "public_data_ok y"
    and eq: "public_data_fields x = public_data_fields y"
  have "pub_note_hashes x = pub_note_hashes y \<and> pub_nullifiers x = pub_nullifiers y \<and>
      pub_l2_to_l1_msgs x = pub_l2_to_l1_msgs y \<and> pub_private_logs x = pub_private_logs y \<and>
      pub_contract_class_logs_hashes x = pub_contract_class_logs_hashes y \<and>
      pub_public_call_requests x = pub_public_call_requests y"
    using eq ok by (simp add: public_data_fields_def public_data_ok_def field_codes)
  then show "x = y" by (intro private_to_public_accumulated_data.equality) auto
next
  fix x
  assume "public_data_ok x"
  then show "length (public_data_fields x) = 1371"
    by (simp add: public_data_fields_def public_data_ok_def field_codes tx_limits)
qed

interpretation fields_of_rollup_data: fixed_width rollup_data_fields rollup_data_ok 1243
proof
  fix x y
  assume ok: "rollup_data_ok x" "rollup_data_ok y"
    and eq: "rollup_data_fields x = rollup_data_fields y"
  have "rol_note_hashes x = rol_note_hashes y \<and> rol_nullifiers x = rol_nullifiers y \<and>
      rol_l2_to_l1_msgs x = rol_l2_to_l1_msgs y \<and> rol_private_logs x = rol_private_logs y \<and>
      rol_contract_class_logs_hashes x = rol_contract_class_logs_hashes y"
    using eq ok by (simp add: rollup_data_fields_def rollup_data_ok_def field_codes)
  then show "x = y" by (intro private_to_rollup_accumulated_data.equality) auto
next
  fix x
  assume "rollup_data_ok x"
  then show "length (rollup_data_fields x) = 1243"
    by (simp add: rollup_data_fields_def rollup_data_ok_def field_codes tx_limits)
qed

interpretation fields_of_tail: fixed_width tail_for_public_fields tail_ok 2746
proof
  fix x y
  assume "tail_ok x" "tail_ok y" "tail_for_public_fields x = tail_for_public_fields y"
  then show "x = y"
    by (cases x; cases y)
      (auto simp: tail_for_public_fields_def tail_ok_def fields_of_public_data.cancel
        fields_of_public_data.cancel_last field_codes)
qed (simp add: tail_for_public_fields_def tail_ok_def fields_of_public_data.width field_codes)

subsection \<open>The hash preimage\<close>

text \<open>
  The shape of complete public inputs: exactly one variant, its arrays at the protocol sizes.
  \<open>fill\<close> writes out the defaults that both serializations use for an absent gas setting.
\<close>

definition shape_ok :: "private_kernel_tail_public_inputs \<Rightarrow> bool" where
  "shape_ok p \<longleftrightarrow>
     eth_ok (gv_coinbase (bh_global_variables (tcd_anchor_block_header (pi_constants p)))) \<and>
     (case (pi_for_public p, pi_for_rollup p) of
        (Some fp, None) \<Rightarrow> tail_ok fp
      | (None, Some fr) \<Rightarrow> rollup_data_ok (tr_end fr)
      | _ \<Rightarrow> False)"

definition fill_settings :: "gas_settings \<Rightarrow> gas_settings" where
  "fill_settings s =
     \<lparr>gas_limits = Some (unwrap_or gas_empty (gas_limits s)),
      teardown_gas_limits = Some (unwrap_or gas_empty (teardown_gas_limits s)),
      max_fee_per_gas = Some (unwrap_or gas_fees_default (max_fee_per_gas s)),
      max_priority_fee_per_gas = Some (unwrap_or gas_fees_default (max_priority_fee_per_gas s))\<rparr>"

definition fill_constants :: "tx_constant_data \<Rightarrow> tx_constant_data" where
  "fill_constants c =
     c\<lparr>tcd_tx_context := (tcd_tx_context c)
         \<lparr>tc_gas_settings := fill_settings (tc_gas_settings (tcd_tx_context c))\<rparr>\<rparr>"

definition fill :: "private_kernel_tail_public_inputs \<Rightarrow> private_kernel_tail_public_inputs" where
  "fill p = p\<lparr>pi_constants := fill_constants (pi_constants p)\<rparr>"

lemma fill_constants_fields: "tx_constant_data_fields (fill_constants c) = tx_constant_data_fields c"
  by (simp add: fill_constants_def fill_settings_def tx_constant_data_fields_def tx_context_fields_def
      gas_settings_fields_def unwrap_or_def)

lemma fill_constants_set:
  "constants_set (fill_constants c) \<longleftrightarrow>
     eth_ok (gv_coinbase (bh_global_variables (tcd_anchor_block_header c)))"
  by (simp add: fill_constants_def constants_set_def fill_settings_def settings_set_def global_ok_def)

lemma fill_fields: "to_fields (fill p) = to_fields p"
  by (simp add: fill_def to_fields_def fill_constants_fields split: option.splits)

lemma separators_differ: "fr_from_u32 PUBLIC_TX_HASH \<noteq> fr_from_u32 PRIVATE_TX_HASH"
  by (simp add: PUBLIC_TX_HASH_def PRIVATE_TX_HASH_def)

text \<open>
  C6. What the transaction hash commits to. The hash is the Poseidon2 hash of one list of fields,
  the separator followed by \<open>to_fields\<close>; two complete public inputs, public or private-only, have
  the same list exactly when they are the same up to absent gas settings, which are hashed as zero.
  So no two transactions that differ in any side effect, fee, gas or header field share a preimage.
\<close>

theorem tx_hash_commits:
  assumes "shape_ok p" and "shape_ok q"
  shows "(fr_from_u32 (tx_hash_separator p) # to_fields p =
      fr_from_u32 (tx_hash_separator q) # to_fields q \<longleftrightarrow> fill p = fill q) \<and>
    public_inputs_hash C p = poseidon2_hash C (fr_from_u32 (tx_hash_separator p) # to_fields p)"
proof -
  have inj: "p' = q'" if ok: "shape_ok p'" "shape_ok q'" "constants_set (pi_constants p')"
      "constants_set (pi_constants q')" and pub: "is_for_public p' = is_for_public q'"
    and eq: "to_fields p' = to_fields q'" for p' q'
    using ok pub eq
    by (cases p'; cases q')
      (auto simp: shape_ok_def is_for_public_def to_fields_def fields_of_constants.cancel
        fields_of_constants.cancel_last fields_of_tail.cancel fields_of_tail.cancel_last
        fields_of_rollup_data.cancel fields_of_rollup_data.cancel_last gas_codes
        split: option.splits intro: tail_for_rollup.equality)
  have filled: "shape_ok (fill r) \<and> constants_set (pi_constants (fill r)) \<and>
      is_for_public (fill r) = is_for_public r" if "shape_ok r" for r
    using that fill_constants_set[of "pi_constants r"]
    by (auto simp: shape_ok_def fill_def fill_constants_def is_for_public_def)
  have "to_fields p = to_fields q \<and> is_for_public p = is_for_public q \<longleftrightarrow> fill p = fill q"
    using inj[of "fill p" "fill q"] filled[OF assms(1)] filled[OF assms(2)]
    by (metis fill_fields)
  then show ?thesis
    using separators_differ
    by (auto simp: tx_hash_separator_def public_inputs_hash_def poseidon2_hash_with_separator_def
        poseidon2_hash_with_separator_field_def fr_from_u32_def)
qed

text \<open>Complete public inputs of a private-only transaction with no side effects.\<close>

definition example_snapshot :: append_only_tree_snapshot where
  "example_snapshot = \<lparr>snap_root = 7, snap_next_available_leaf_index = 3\<rparr>"

definition example_constants :: tx_constant_data where
  "example_constants =
     \<lparr>tcd_anchor_block_header =
        \<lparr>bh_last_archive = example_snapshot,
         bh_state = \<lparr>sr_l1_to_l2_message_tree = example_snapshot,
           sr_partial = \<lparr>ps_note_hash_tree = example_snapshot, ps_nullifier_tree = example_snapshot,
             ps_public_data_tree = example_snapshot\<rparr>\<rparr>,
         bh_sponge_blob_hash = 1,
         bh_global_variables = \<lparr>gv_chain_id = 1, gv_version = 1, gv_block_number = 10,
           gv_slot_number = 12, gv_timestamp = 1000, gv_coinbase = eth_address_default,
           gv_fee_recipient = AztecAddress 9, gv_gas_fees = gas_fees_default\<rparr>,
         bh_total_fees = 0, bh_total_mana_used = 0\<rparr>,
      tcd_tx_context = \<lparr>tc_chain_id = 1, tc_version = 1, tc_gas_settings = gas_settings_default\<rparr>,
      tcd_vk_tree_root = 5, tcd_protocol_contracts_hash = 6\<rparr>"

definition example_inputs :: "fr \<Rightarrow> u64 \<Rightarrow> private_kernel_tail_public_inputs" where
  "example_inputs payer da =
     \<lparr>pi_constants = example_constants, pi_gas_used = gas_new da 440000,
      pi_fee_payer = AztecAddress payer, pi_expiration_timestamp = 2000, pi_for_public = None,
      pi_for_rollup = Some \<lparr>tr_end = rollup_data_empty\<rparr>\<rparr>"

lemma shape_ok_example: "shape_ok (example_inputs payer da)"
  by (simp add: shape_ok_def example_inputs_def example_constants_def eth_ok_def
      eth_address_default_def rollup_data_ok_def rollup_data_empty_def list_all_iff message_ok_def
      scoped_l2_to_l1_message_empty_def log_ok_def private_log_empty_def)

theorem tx_hash_commits_witness:
  "shape_ok (example_inputs 3 96) \<and> shape_ok (example_inputs 4 96) \<and>
   tx_hash_separator (example_inputs 3 96) = PRIVATE_TX_HASH \<and>
   to_fields (example_inputs 3 96) \<noteq> to_fields (example_inputs 4 96)"
proof -
  have "fill (example_inputs 3 96) \<noteq> fill (example_inputs 4 96)"
    by (simp add: fill_def example_inputs_def fr_eval)
  moreover have "tx_hash_separator (example_inputs a 96) = PRIVATE_TX_HASH" for a
    by (simp add: tx_hash_separator_def is_for_public_def example_inputs_def)
  ultimately show ?thesis
    using tx_hash_commits[OF shape_ok_example[of 3 96] shape_ok_example[of 4 96]]
    by (simp add: shape_ok_example)
qed

subsection \<open>The byte writers\<close>

interpretation bytes_of_fr: fixed_width write_fr "\<lambda>_. True" 32
  by unfold_locales
    (simp_all add: write_fr_def fr_to_be_bytes_def,
     metis fr_to_be_bytes_def into_bigint_inject of_be_bytes_fr_to_be_bytes)

interpretation bytes_of_bool: fixed_width write_bool "\<lambda>_. True" 1
  by unfold_locales (auto simp: write_bool_def split: if_splits)

lemma be_bytes_unat_eq_iff:
  fixes v w :: "'w::len word"
  assumes "LENGTH('w) = 8 * k"
  shows "be_bytes k (unat v) = be_bytes k (unat w) \<longleftrightarrow> v = w"
proof -
  have "unat u < 256 ^ k" for u :: "'w word"
    using unsigned_less[of u, where ?'a = nat] assms by (simp add: power_mult)
  then show ?thesis by (simp add: be_bytes_eq_iff word_unat_eq_iff)
qed

interpretation bytes_of_u32: fixed_width write_u32 "\<lambda>_. True" 4
  by unfold_locales (simp_all add: write_u32_def be_bytes_unat_eq_iff)

interpretation bytes_of_u64: fixed_width write_u64 "\<lambda>_. True" 8
  by unfold_locales (simp_all add: write_u64_def be_bytes_unat_eq_iff)

interpretation bytes_of_u128: fixed_width write_u128 "\<lambda>_. True" 16
  by unfold_locales (simp_all add: write_u128_def be_bytes_unat_eq_iff)

interpretation bytes_of_eth: fixed_width write_eth_address eth_ok 20
  by unfold_locales (auto simp: write_eth_address_def eth_ok_def)

lemmas byte_codes =
  bytes_of_fr.cancel bytes_of_bool.cancel bytes_of_u32.cancel bytes_of_u64.cancel
  bytes_of_u128.cancel bytes_of_eth.cancel bytes_of_fr.cancel_last bytes_of_bool.cancel_last
  bytes_of_u32.cancel_last bytes_of_u64.cancel_last bytes_of_u128.cancel_last
  bytes_of_eth.cancel_last bytes_of_fr.cancel_all bytes_of_fr.cancel_all_last

lemmas byte_widths =
  bytes_of_fr.width bytes_of_bool.width bytes_of_u32.width bytes_of_u64.width bytes_of_u128.width
  bytes_of_eth.width bytes_of_fr.width_all

interpretation bytes_of_snapshot: fixed_width write_tree_snapshot "\<lambda>_. True" 36
  by unfold_locales
    (auto simp: write_tree_snapshot_def byte_codes byte_widths
      intro: append_only_tree_snapshot.equality)

interpretation bytes_of_message: fixed_width write_message message_ok 84
proof
  fix x y
  assume "message_ok x" "message_ok y" "write_message x = write_message y"
  then show "x = y"
    by (cases x; cases y; cases "smsg_message x"; cases "smsg_message y")
      (auto simp: write_message_def message_ok_def byte_codes)
qed (simp add: write_message_def message_ok_def byte_widths)

interpretation bytes_of_log: fixed_width write_private_log log_ok 516
  by unfold_locales
    (auto simp: write_private_log_def log_ok_def byte_codes byte_widths tx_limits
      intro: private_log.equality)

interpretation bytes_of_log_hash: fixed_width write_log_hash "\<lambda>_. True" 68
proof
  fix x y
  assume "write_log_hash x = write_log_hash y"
  then show "x = y"
    by (cases x; cases y; cases "slh_log_hash x"; cases "slh_log_hash y")
      (auto simp: write_log_hash_def byte_codes)
qed (simp add: write_log_hash_def byte_widths)

interpretation bytes_of_call: fixed_width write_public_call_request "\<lambda>_. True" 97
  by unfold_locales
    (auto simp: write_public_call_request_def byte_codes byte_widths
      intro: public_call_request.equality)

lemmas data_codes =
  bytes_of_fr.cancel_all bytes_of_message.cancel_all bytes_of_log.cancel_all
  bytes_of_log_hash.cancel_all bytes_of_call.cancel_all bytes_of_fr.cancel_all_last
  bytes_of_message.cancel_all_last bytes_of_log.cancel_all_last bytes_of_log_hash.cancel_all_last
  bytes_of_call.cancel_all_last bytes_of_call.cancel_last bytes_of_call.cancel

lemmas data_widths =
  bytes_of_fr.width_all bytes_of_message.width_all bytes_of_log.width_all
  bytes_of_log_hash.width_all bytes_of_call.width_all bytes_of_call.width

interpretation bytes_of_rollup_data: fixed_width write_rollup_accumulated_data rollup_data_ok 37860
proof
  fix x y
  assume ok: "rollup_data_ok x" "rollup_data_ok y"
    and eq: "write_rollup_accumulated_data x = write_rollup_accumulated_data y"
  have "rol_note_hashes x = rol_note_hashes y \<and> rol_nullifiers x = rol_nullifiers y \<and>
      rol_l2_to_l1_msgs x = rol_l2_to_l1_msgs y \<and> rol_private_logs x = rol_private_logs y \<and>
      rol_contract_class_logs_hashes x = rol_contract_class_logs_hashes y"
    using eq ok by (simp add: write_rollup_accumulated_data_def rollup_data_ok_def data_codes)
  then show "x = y" by (intro private_to_rollup_accumulated_data.equality) auto
qed (simp add: write_rollup_accumulated_data_def rollup_data_ok_def data_widths tx_limits)

interpretation bytes_of_public_data: fixed_width write_public_accumulated_data public_data_ok 40964
proof
  fix x y
  assume ok: "public_data_ok x" "public_data_ok y"
    and eq: "write_public_accumulated_data x = write_public_accumulated_data y"
  have "pub_note_hashes x = pub_note_hashes y \<and> pub_nullifiers x = pub_nullifiers y \<and>
      pub_l2_to_l1_msgs x = pub_l2_to_l1_msgs y \<and> pub_private_logs x = pub_private_logs y \<and>
      pub_contract_class_logs_hashes x = pub_contract_class_logs_hashes y \<and>
      pub_public_call_requests x = pub_public_call_requests y"
    using eq ok by (simp add: write_public_accumulated_data_def public_data_ok_def data_codes)
  then show "x = y" by (intro private_to_public_accumulated_data.equality) auto
qed (simp add: write_public_accumulated_data_def public_data_ok_def data_widths tx_limits)

subsection \<open>What the wire buffer carries\<close>

text \<open>
  The buffer writes the gas amounts, block number and slot number as \<open>u32\<close> and absent gas settings
  as zero. \<open>wire_view\<close> is what is left of the public inputs after that.
\<close>

definition low32 :: "u64 \<Rightarrow> u64" where
  "low32 v = ucast (as_u32 v)"

definition wire_gas :: "gas \<Rightarrow> gas" where
  "wire_gas g = \<lparr>da_gas = low32 (da_gas g), l2_gas = low32 (l2_gas g)\<rparr>"

definition wire_settings :: "gas_settings \<Rightarrow> gas_settings" where
  "wire_settings s =
     \<lparr>gas_limits = Some (wire_gas (unwrap_or gas_empty (gas_limits s))),
      teardown_gas_limits = Some (wire_gas (unwrap_or gas_empty (teardown_gas_limits s))),
      max_fee_per_gas = Some (unwrap_or gas_fees_default (max_fee_per_gas s)),
      max_priority_fee_per_gas = Some (unwrap_or gas_fees_default (max_priority_fee_per_gas s))\<rparr>"

definition wire_global :: "global_variables \<Rightarrow> global_variables" where
  "wire_global g =
     g\<lparr>gv_block_number := low32 (gv_block_number g), gv_slot_number := low32 (gv_slot_number g)\<rparr>"

definition wire_constants :: "tx_constant_data \<Rightarrow> tx_constant_data" where
  "wire_constants c =
     c\<lparr>tcd_anchor_block_header := (tcd_anchor_block_header c)
         \<lparr>bh_global_variables := wire_global (bh_global_variables (tcd_anchor_block_header c))\<rparr>,
       tcd_tx_context := (tcd_tx_context c)
         \<lparr>tc_gas_settings := wire_settings (tc_gas_settings (tcd_tx_context c))\<rparr>\<rparr>"

definition wire_view :: "private_kernel_tail_public_inputs \<Rightarrow> private_kernel_tail_public_inputs" where
  "wire_view p =
     p\<lparr>pi_constants := wire_constants (pi_constants p), pi_gas_used := wire_gas (pi_gas_used p)\<rparr>"

lemma as_u32_eq_iff: "as_u32 a = as_u32 b \<longleftrightarrow> low32 a = low32 b"
proof -
  have "(ucast (ucast x :: u64) :: u32) = x" for x :: u32
    by (rule ucast_up_ucast_id) (simp add: is_up)
  then show ?thesis by (metis low32_def)
qed

lemma as_u32_0 [simp]: "as_u32 0 = 0"
  by (simp add: as_u32_def)

lemma low32_small: "unat v < 2 ^ 32 \<Longrightarrow> low32 v = v"
  by (simp add: low32_def as_u32_def word_unat_eq_iff unsigned_ucast_eq unsigned_take_bit_eq
      take_bit_nat_eq_self)

lemma wire_gas_eq_iff:
  "wire_gas a = wire_gas b \<longleftrightarrow> as_u32 (da_gas a) = as_u32 (da_gas b) \<and> as_u32 (l2_gas a) = as_u32 (l2_gas b)"
  by (simp add: wire_gas_def as_u32_eq_iff)

lemma written_gas:
  "(case x of None \<Rightarrow> 0 | Some g \<Rightarrow> as_u32 (da_gas g)) = as_u32 (da_gas (unwrap_or gas_empty x))"
  "(case x of None \<Rightarrow> 0 | Some g \<Rightarrow> as_u32 (l2_gas g)) = as_u32 (l2_gas (unwrap_or gas_empty x))"
  "(case y of None \<Rightarrow> 0 | Some g \<Rightarrow> fee_per_da_gas g) =
     fee_per_da_gas (unwrap_or gas_fees_default y)"
  "(case y of None \<Rightarrow> 0 | Some g \<Rightarrow> fee_per_l2_gas g) =
     fee_per_l2_gas (unwrap_or gas_fees_default y)"
  by (simp_all add: unwrap_or_def gas_empty_def gas_fees_default_def split: option.splits)

lemma gas_fees_eq_iff:
  "x = y \<longleftrightarrow> fee_per_da_gas x = fee_per_da_gas y \<and> fee_per_l2_gas x = fee_per_l2_gas (y :: gas_fees)"
  by (auto intro: gas_fees.equality)

lemma write_tx_constant_data_width:
  "global_ok (bh_global_variables (tcd_anchor_block_header c)) \<Longrightarrow>
     length (write_tx_constant_data c) = 648"
  by (simp add: write_tx_constant_data_def Let_def global_ok_def byte_widths bytes_of_snapshot.width)

lemma write_tx_constant_data_cancel:
  assumes "global_ok (bh_global_variables (tcd_anchor_block_header c))"
    and "global_ok (bh_global_variables (tcd_anchor_block_header d))"
  shows "write_tx_constant_data c @ us = write_tx_constant_data d @ vs \<longleftrightarrow>
    wire_constants c = wire_constants d \<and> us = vs"
proof (cases "us = vs")
  case True
  have "write_tx_constant_data c = write_tx_constant_data d \<longleftrightarrow> wire_constants c = wire_constants d"
    using assms
    by (cases c; cases d; cases "tcd_anchor_block_header c"; cases "tcd_anchor_block_header d";
        cases "tcd_tx_context c"; cases "tcd_tx_context d"; cases "bh_state (tcd_anchor_block_header c)";
        cases "bh_state (tcd_anchor_block_header d)";
        cases "bh_global_variables (tcd_anchor_block_header c)";
        cases "bh_global_variables (tcd_anchor_block_header d)")
      (auto simp: write_tx_constant_data_def Let_def written_gas global_ok_def byte_codes
        bytes_of_snapshot.cancel wire_constants_def wire_settings_def wire_global_def
        wire_gas_eq_iff as_u32_eq_iff[symmetric] gas_fees_eq_iff
        intro: partial_state_reference.equality)
  then show ?thesis using True by simp
next
  case False
  then show ?thesis
    using write_tx_constant_data_width[OF assms(1)] write_tx_constant_data_width[OF assms(2)]
    by (simp add: append_eq_append_conv)
qed

text \<open>
  What the wire buffer carries. The buffer of complete public inputs has the fixed size of its
  variant, and two of them have the same buffer exactly when they agree in everything but the high
  halves of the gas amounts, the block number and the slot number, and in whether an absent gas
  setting is written as zero. Below \<open>2^32\<close> nothing is lost; above, the buffer is ambiguous while
  the hash preimage of the same inputs is not.
\<close>

lemma to_buffer_carries:
  assumes "shape_ok p" and "shape_ok q"
  shows "(to_buffer p = to_buffer q \<longleftrightarrow> wire_view p = wire_view q) \<and>
    length (to_buffer p) = (if is_for_public p then 82722 else 38557)"
proof -
  let ?tail = "\<lambda>r. case pi_for_public r of
      Some fp \<Rightarrow> write_public_accumulated_data (tp_non_revertible fp) @
        write_public_accumulated_data (tp_revertible fp) @
        write_public_call_request (tp_teardown_call_request fp)
    | None \<Rightarrow> (case pi_for_rollup r of
        Some fr \<Rightarrow> write_rollup_accumulated_data (tr_end fr) | None \<Rightarrow> [])"
  have glob: "global_ok (bh_global_variables (tcd_anchor_block_header (pi_constants r)))"
    if "shape_ok r" for r using that by (simp add: shape_ok_def global_ok_def)
  have tails: "?tail p = ?tail q \<longleftrightarrow>
      pi_for_public p = pi_for_public q \<and> pi_for_rollup p = pi_for_rollup q"
    if "(pi_for_public p \<noteq> None) = (pi_for_public q \<noteq> None)"
    using that assms
    by (auto simp: shape_ok_def tail_ok_def bytes_of_public_data.cancel bytes_of_call.cancel_last
        bytes_of_public_data.cancel_last bytes_of_rollup_data.cancel_last
        split: option.splits intro: tail_for_public.equality tail_for_rollup.equality)
  have "to_buffer p = to_buffer q \<longleftrightarrow>
      (pi_for_public p \<noteq> None) = (pi_for_public q \<noteq> None) \<and>
      wire_constants (pi_constants p) = wire_constants (pi_constants q) \<and>
      wire_gas (pi_gas_used p) = wire_gas (pi_gas_used q) \<and> pi_fee_payer p = pi_fee_payer q \<and>
      pi_expiration_timestamp p = pi_expiration_timestamp q \<and> ?tail p = ?tail q"
    by (simp add: to_buffer_def bytes_of_bool.cancel glob assms write_tx_constant_data_cancel
        byte_codes wire_gas_eq_iff)
  also have "\<dots> \<longleftrightarrow> wire_view p = wire_view q"
    using tails by (cases p; cases q) (auto simp: wire_view_def)
  finally have "to_buffer p = to_buffer q \<longleftrightarrow> wire_view p = wire_view q" .
  moreover have "length (to_buffer p) = (if is_for_public p then 82722 else 38557)"
    using assms(1) write_tx_constant_data_width[OF glob[OF assms(1)]]
    by (auto simp: to_buffer_def is_for_public_def shape_ok_def tail_ok_def byte_widths
        bytes_of_public_data.width bytes_of_rollup_data.width bytes_of_call.width
        split: option.splits)
  ultimately show ?thesis by blast
qed

end
