(* ===== verification/Execution_Result.thy ===== *)
theory Execution_Result
  imports Kernel_Types "HOL-Library.AList"
begin

text \<open>
  The private execution tree of \<open>crates/pxe/src/execution/execution_result.rs\<close> and the collectors
  that flatten it for the kernel. A call result is a tree node: its own data beside its nested
  calls. The ACVM witness map is a third-party type that the collectors only carry, so it is a type
  parameter; \<open>HashMap<u32, u32>\<close> is an association list with distinct keys and
  \<open>BTreeMap<u32, _>\<close> one sorted by key.

  Proved: each collector returns, in increasing counter order, the depth-first first side effect of
  every counter that occurs in the tree.
\<close>

subsection \<open>Side effects with counters\<close>

record private_log_data =
  pld_fields :: "fr list"
  pld_emitted_length :: u32
  pld_note_hash_counter :: u32
  pld_counter :: u32
  pld_contract_address :: aztec_address

record public_call_request_data =
  pcd_contract_address :: aztec_address
  pcd_msg_sender :: aztec_address
  pcd_is_static_call :: bool
  pcd_calldata_hash :: fr
  pcd_counter :: u32

record hashed_values =
  hv_values :: "fr list"
  hv_hash :: fr

subsection \<open>The execution tree\<close>

type_synonym counter_map = "(u32 \<times> u32) list"

record 'w private_call =
  call_acir :: "u8 list"
  call_vk :: "u8 list"
  call_partial_witness :: 'w
  call_contract_address :: aztec_address
  call_call_context :: call_context
  call_return_values :: "fr list"
  call_public_inputs_fields :: "fr list"
  call_new_notes :: "note_and_slot list"
  call_note_hash_nullifier_counter_map :: counter_map
  call_offchain_effects :: "fr list list"
  call_pre_tags :: "fr list"
  call_contract_class_logs :: "counted_contract_class_log list"
  call_note_hashes :: "scoped_note_hash list"
  call_nullifiers :: "scoped_nullifier list"
  call_note_hash_read_requests :: "scoped_read_request list"
  call_nullifier_read_requests :: "scoped_read_request list"
  call_private_logs :: "private_log_data list"
  call_public_call_requests :: "public_call_request_data list"
  call_public_teardown_call_request :: "public_call_request_data option"
  call_start_side_effect_counter :: u32
  call_end_side_effect_counter :: u32
  call_min_revertible_side_effect_counter :: u32

datatype 'w private_call_execution_result =
  PrivateCall (call_data: "'w private_call")
    (nested_execution_results: "'w private_call_execution_result list")

definition call_context_default :: call_context where
  "call_context_default =
     \<lparr>cc_msg_sender = aztec_address_zero, cc_contract_address = aztec_address_zero,
      cc_function_selector = 0, cc_is_static_call = False\<rparr>"

definition private_call_default :: "'w \<Rightarrow> 'w private_call_execution_result" where
  "private_call_default empty_witness =
     PrivateCall
       \<lparr>call_acir = [], call_vk = [], call_partial_witness = empty_witness,
        call_contract_address = aztec_address_zero, call_call_context = call_context_default,
        call_return_values = [], call_public_inputs_fields = [], call_new_notes = [],
        call_note_hash_nullifier_counter_map = [], call_offchain_effects = [], call_pre_tags = [],
        call_contract_class_logs = [], call_note_hashes = [], call_nullifiers = [],
        call_note_hash_read_requests = [], call_nullifier_read_requests = [],
        call_private_logs = [], call_public_call_requests = [],
        call_public_teardown_call_request = None, call_start_side_effect_counter = 0,
        call_end_side_effect_counter = 0, call_min_revertible_side_effect_counter = 0\<rparr> []"

text \<open>
  \<open>witness\<close> is the solved witness map as a lookup whose values went through \<open>fe_to_fr\<close>. The index is
  computed on \<open>usize\<close> and cut to \<open>u32\<close>.
\<close>

definition PRIVATE_CIRCUIT_PUBLIC_INPUTS_LENGTH :: nat where
  "PRIVATE_CIRCUIT_PUBLIC_INPUTS_LENGTH = 870"

definition extract_public_inputs_fields :: "(u32 \<Rightarrow> fr option) \<Rightarrow> nat \<Rightarrow> fr list" where
  "extract_public_inputs_fields witness params_size =
     map (\<lambda>offset. case witness (of_nat (params_size + offset)) of None \<Rightarrow> 0 | Some f \<Rightarrow> f)
       [0..<PRIVATE_CIRCUIT_PUBLIC_INPUTS_LENGTH]"

record 'w private_execution_result =
  er_entrypoint :: "'w private_call_execution_result"
  er_first_nullifier :: fr
  er_expiration_timestamp :: u64
  er_public_function_calldata :: "hashed_values list"

subsection \<open>Collectors\<close>

fun collect_calls ::
    "'w private_call_execution_result \<Rightarrow> 'w private_call list \<Rightarrow> 'w private_call list" where
  "collect_calls (PrivateCall c nested) out =
     fold (\<lambda>n acc. collect_calls n acc) nested (out @ [c])"

definition iter_all_calls :: "'w private_execution_result \<Rightarrow> 'w private_call list" where
  "iter_all_calls r = collect_calls (er_entrypoint r) []"

text \<open>\<open>by_counter.entry(key).or_insert(value)\<close> on a \<open>BTreeMap\<close>.\<close>

fun or_insert :: "'k::linorder \<Rightarrow> 'v \<Rightarrow> ('k \<times> 'v) list \<Rightarrow> ('k \<times> 'v) list" where
  "or_insert k v [] = [(k, v)]"
| "or_insert k v ((k', v') # kvs) =
     (if k < k' then (k, v) # (k', v') # kvs
      else if k = k' then (k', v') # kvs
      else (k', v') # or_insert k v kvs)"

definition collect_by_counter :: "('a \<Rightarrow> u32) \<Rightarrow> 'a list \<Rightarrow> 'a list" where
  "collect_by_counter counter items =
     map snd (fold (\<lambda>x by_counter. or_insert (counter x) x by_counter) items [])"

definition all_note_hashes :: "'w private_execution_result \<Rightarrow> scoped_note_hash list" where
  "all_note_hashes r =
     collect_by_counter (\<lambda>n. nh_counter (snh_note_hash n))
       (concat (map call_note_hashes (iter_all_calls r)))"

definition all_nullifiers :: "'w private_execution_result \<Rightarrow> scoped_nullifier list" where
  "all_nullifiers r =
     collect_by_counter (\<lambda>n. nf_counter (snf_nullifier n))
       (concat (map call_nullifiers (iter_all_calls r)))"

definition all_note_hash_read_requests ::
    "'w private_execution_result \<Rightarrow> scoped_read_request list" where
  "all_note_hash_read_requests r =
     collect_by_counter (\<lambda>q. rr_counter (srr_read_request q))
       (concat (map call_note_hash_read_requests (iter_all_calls r)))"

definition all_nullifier_read_requests ::
    "'w private_execution_result \<Rightarrow> scoped_read_request list" where
  "all_nullifier_read_requests r =
     collect_by_counter (\<lambda>q. rr_counter (srr_read_request q))
       (concat (map call_nullifier_read_requests (iter_all_calls r)))"

definition all_private_logs :: "'w private_execution_result \<Rightarrow> private_log_data list" where
  "all_private_logs r =
     collect_by_counter pld_counter (concat (map call_private_logs (iter_all_calls r)))"

definition all_contract_class_logs_sorted ::
    "'w private_execution_result \<Rightarrow> counted_contract_class_log list" where
  "all_contract_class_logs_sorted r =
     collect_by_counter cccl_counter (concat (map call_contract_class_logs (iter_all_calls r)))"

definition all_public_call_requests ::
    "'w private_execution_result \<Rightarrow> public_call_request_data list" where
  "all_public_call_requests r =
     collect_by_counter pcd_counter (concat (map call_public_call_requests (iter_all_calls r)))"

fun find_map :: "('a \<Rightarrow> 'b option) \<Rightarrow> 'a list \<Rightarrow> 'b option" where
  "find_map f [] = None"
| "find_map f (x # xs) = (case f x of Some y \<Rightarrow> Some y | None \<Rightarrow> find_map f xs)"

definition get_teardown_call_request ::
    "'w private_execution_result \<Rightarrow> public_call_request_data option" where
  "get_teardown_call_request r = find_map call_public_teardown_call_request (iter_all_calls r)"

text \<open>\<open>HashMap::extend\<close>: later entries replace earlier ones of the same key.\<close>

definition map_extend :: "counter_map \<Rightarrow> counter_map \<Rightarrow> counter_map" where
  "map_extend other m = fold (\<lambda>(k, v). AList.update k v) other m"

definition all_note_hash_nullifier_counter_maps :: "'w private_execution_result \<Rightarrow> counter_map" where
  "all_note_hash_nullifier_counter_maps r =
     fold (\<lambda>c m. map_extend (call_note_hash_nullifier_counter_map c) m) (iter_all_calls r) []"

subsection \<open>The traversal is preorder\<close>

fun preorder :: "'w private_call_execution_result \<Rightarrow> 'w private_call list" where
  "preorder (PrivateCall c nested) = c # concat (map preorder nested)"

lemma collect_calls_preorder: "collect_calls t out = out @ preorder t"
proof (induction t arbitrary: out rule: preorder.induct)
  case (1 c nested)
  have "set ns \<subseteq> set nested \<Longrightarrow>
      fold (\<lambda>n acc. collect_calls n acc) ns acc = acc @ concat (map preorder ns)" for ns acc
    by (induction ns arbitrary: acc) (auto simp: "1.IH")
  from this[of nested "out @ [c]"] show ?case by simp
qed

lemma iter_all_calls_preorder: "iter_all_calls r = preorder (er_entrypoint r)"
  by (simp add: iter_all_calls_def collect_calls_preorder)

subsection \<open>Collecting by counter\<close>

lemma or_insert_keys: "fst ` set (or_insert k v kvs) = insert k (fst ` set kvs)"
  by (induction k v kvs rule: or_insert.induct) auto

lemma or_insert_sorted:
  "sorted_wrt (<) (map fst kvs) \<Longrightarrow> sorted_wrt (<) (map fst (or_insert k v kvs))"
proof (induction k v kvs rule: or_insert.induct)
  case (2 k v k' v' kvs)
  have "set (map fst (or_insert k v kvs)) = insert k (set (map fst kvs))"
    using or_insert_keys[of k v kvs] by simp
  with 2 show ?case by (auto simp: less_trans)
qed simp

lemma map_of_or_insert:
  assumes "sorted_wrt (<) (map fst kvs)"
  shows "map_of (or_insert k v kvs) c =
    (case map_of kvs c of Some w \<Rightarrow> Some w | None \<Rightarrow> if c = k then Some v else None)"
  using assms
proof (induction k v kvs rule: or_insert.induct)
  case (2 k v k' v' kvs)
  have "map_of kvs k = None" if "k < k'"
    using that 2(2) by (force simp: map_of_eq_None_iff)
  with 2 show ?case by (auto split: option.splits)
qed simp

lemma fold_or_insert:
  assumes "sorted_wrt (<) (map fst kvs)"
  shows "sorted_wrt (<) (map fst (fold (\<lambda>x. or_insert (counter x) x) xs kvs)) \<and>
    map_of (fold (\<lambda>x. or_insert (counter x) x) xs kvs) c =
      (case map_of kvs c of Some w \<Rightarrow> Some w | None \<Rightarrow> find (\<lambda>x. counter x = c) xs)"
  using assms
proof (induction xs arbitrary: kvs)
  case Nil
  then show ?case by (auto split: option.splits)
next
  case (Cons x xs)
  from Cons.IH[OF or_insert_sorted[OF Cons.prems, of "counter x" x]]
  show ?case
    by (auto simp: map_of_or_insert[OF Cons.prems] split: option.splits)
qed

text \<open>
  The list that is in strictly increasing counter order and holds the first element of every
  counter; there is only one such list.
\<close>

definition firsts_in_order :: "('a \<Rightarrow> u32) \<Rightarrow> 'a list \<Rightarrow> 'a list \<Rightarrow> bool" where
  "firsts_in_order counter xs ys \<longleftrightarrow>
     sorted_wrt (<) (map counter ys) \<and>
     set ys = {x. find (\<lambda>y. counter y = counter x) xs = Some x}"

lemma firsts_in_order_unique:
  assumes "firsts_in_order counter xs ys" and "firsts_in_order counter xs zs"
  shows "ys = zs"
proof -
  have *: "sorted (map counter ws) \<and> distinct (map counter ws) \<and> inj_on counter (set ws)"
    if "sorted_wrt (<) (map counter ws)" for ws :: "'a list"
    using that by (auto simp: strict_sorted_iff distinct_map)
  have "map counter ys = map counter zs"
    using assms *[of ys] *[of zs]
    by (intro sorted_distinct_set_unique) (auto simp: firsts_in_order_def)
  moreover have "inj_on counter (set ys \<union> set zs)"
    using assms *[of ys] by (simp add: firsts_in_order_def)
  ultimately show ?thesis by (simp add: inj_on_map_eq_map)
qed

lemma collect_by_counter_firsts: "firsts_in_order counter xs (collect_by_counter counter xs)"
proof -
  let ?m = "fold (\<lambda>x. or_insert (counter x) x) xs []"
  have m: "sorted_wrt (<) (map fst ?m)" "map_of ?m c = find (\<lambda>x. counter x = c) xs" for c
    using fold_or_insert[of "[]" counter xs] by auto
  have dist: "distinct (map fst ?m)" using m(1) by (simp add: strict_sorted_iff)
  have in_m: "(c, x) \<in> set ?m \<longleftrightarrow> find (\<lambda>x. counter x = c) xs = Some x" for c x
    by (simp only: map_of_eq_Some_iff[OF dist, symmetric] m(2))
  then have key: "counter x = c" if "(c, x) \<in> set ?m" for c x
    using that by (auto simp: find_Some_iff)
  have "map counter (map snd ?m) = map fst ?m"
    using key by (auto intro!: map_cong[OF refl])
  moreover have "set (map snd ?m) = {x. find (\<lambda>y. counter y = counter x) xs = Some x}"
  proof (intro set_eqI iffI)
    fix x
    assume "x \<in> set (map snd ?m)"
    then obtain c where "(c, x) \<in> set ?m" by auto
    with in_m key show "x \<in> {x. find (\<lambda>y. counter y = counter x) xs = Some x}" by blast
  next
    fix x
    assume "x \<in> {x. find (\<lambda>y. counter y = counter x) xs = Some x}"
    then have "(counter x, x) \<in> set ?m" by (simp add: in_m)
    then show "x \<in> set (map snd ?m)" by force
  qed
  ultimately show ?thesis
    using m(1) by (simp only: firsts_in_order_def collect_by_counter_def simp_thms)
qed

text \<open>
  The collectors. Every collector of an execution result reads the call tree in preorder
  (a call before its nested calls, these in order) and returns, in strictly increasing counter
  order, exactly the first side effect of each counter; a counter that occurs twice contributes
  once. The teardown request is the first one in the same order.
\<close>

lemma collectors_correct:
  "firsts_in_order (\<lambda>n. nh_counter (snh_note_hash n))
     (concat (map call_note_hashes (preorder (er_entrypoint r)))) (all_note_hashes r) \<and>
   firsts_in_order (\<lambda>n. nf_counter (snf_nullifier n))
     (concat (map call_nullifiers (preorder (er_entrypoint r)))) (all_nullifiers r) \<and>
   firsts_in_order (\<lambda>q. rr_counter (srr_read_request q))
     (concat (map call_note_hash_read_requests (preorder (er_entrypoint r))))
     (all_note_hash_read_requests r) \<and>
   firsts_in_order (\<lambda>q. rr_counter (srr_read_request q))
     (concat (map call_nullifier_read_requests (preorder (er_entrypoint r))))
     (all_nullifier_read_requests r) \<and>
   firsts_in_order pld_counter
     (concat (map call_private_logs (preorder (er_entrypoint r)))) (all_private_logs r) \<and>
   firsts_in_order cccl_counter
     (concat (map call_contract_class_logs (preorder (er_entrypoint r))))
     (all_contract_class_logs_sorted r) \<and>
   firsts_in_order pcd_counter
     (concat (map call_public_call_requests (preorder (er_entrypoint r))))
     (all_public_call_requests r) \<and>
   get_teardown_call_request r =
     find_map call_public_teardown_call_request (preorder (er_entrypoint r))"
  by (simp add: all_note_hashes_def all_nullifiers_def all_note_hash_read_requests_def
      all_nullifier_read_requests_def all_private_logs_def all_contract_class_logs_sorted_def
      all_public_call_requests_def get_teardown_call_request_def iter_all_calls_preorder
      collect_by_counter_firsts)

subsection \<open>The squashing map\<close>

text \<open>A note hash counter is in the collected map exactly when some call of the tree recorded it.\<close>

lemma map_of_map_extend:
  "map_of (map_extend other m) = map_of m ++ map_of (rev other)"
  by (induction other arbitrary: m)
    (auto simp: map_extend_def update_conv' map_add_def fun_eq_iff split: option.splits)

lemma dom_collected_map:
  "fst ` set (all_note_hash_nullifier_counter_maps r) =
     (\<Union>c \<in> set (preorder (er_entrypoint r)). fst ` set (call_note_hash_nullifier_counter_map c))"
proof -
  have ext: "fst ` set (map_extend other m) = fst ` set other \<union> fst ` set m" for other m
    using arg_cong[OF map_of_map_extend[of other m], of dom]
    by (auto simp: dom_map_of_conv_image_fst)
  have "fst ` set (fold (\<lambda>c m. map_extend (call_note_hash_nullifier_counter_map c) m) cs m) =
      (\<Union>c \<in> set cs. fst ` set (call_note_hash_nullifier_counter_map c)) \<union> fst ` set m"
    for cs :: "'a private_call list" and m
    by (induction cs arbitrary: m) (auto simp: ext)
  then show ?thesis
    by (simp add: all_note_hash_nullifier_counter_maps_def iter_all_calls_preorder)
qed

end
