(* ===== verification/Simulated_Kernel.thy ===== *)
theory Simulated_Kernel
  imports Execution_Result
begin

text \<open>
  The simulated private kernel of \<open>crates/pxe/src/kernel/simulated.rs\<close>: from a private execution
  result to the public inputs of the kernel tail, by squashing transient side effects, siloing,
  uniquifying note hashes, splitting at the revertibility counter, padding and metering gas.

  Gas is computed on \<open>u64\<close>. All terms are added and none is negative, so an intermediate result
  overflows only if the total does: the total is computed on naturals and checked once.
\<close>

subsection \<open>Gas constants\<close>

definition TX_DA_GAS_OVERHEAD :: nat where "TX_DA_GAS_OVERHEAD = 96"
definition PUBLIC_TX_L2_GAS_OVERHEAD :: nat where "PUBLIC_TX_L2_GAS_OVERHEAD = 540000"
definition PRIVATE_TX_L2_GAS_OVERHEAD :: nat where "PRIVATE_TX_L2_GAS_OVERHEAD = 440000"
definition L2_GAS_PER_NOTE_HASH :: nat where "L2_GAS_PER_NOTE_HASH = 9200"
definition L2_GAS_PER_NULLIFIER :: nat where "L2_GAS_PER_NULLIFIER = 16000"
definition L2_GAS_PER_L2_TO_L1_MSG :: nat where "L2_GAS_PER_L2_TO_L1_MSG = 5200"
definition L2_GAS_PER_PRIVATE_LOG :: nat where "L2_GAS_PER_PRIVATE_LOG = 2500"
definition L2_GAS_PER_CONTRACT_CLASS_LOG :: nat where "L2_GAS_PER_CONTRACT_CLASS_LOG = 73000"
definition DA_GAS_PER_FIELD :: nat where "DA_GAS_PER_FIELD = 32"
definition CONTRACT_CLASS_LOG_SIZE_IN_FIELDS :: nat where
  "CONTRACT_CLASS_LOG_SIZE_IN_FIELDS = 3023"

lemmas gas_constants =
  TX_DA_GAS_OVERHEAD_def PUBLIC_TX_L2_GAS_OVERHEAD_def PRIVATE_TX_L2_GAS_OVERHEAD_def
  L2_GAS_PER_NOTE_HASH_def L2_GAS_PER_NULLIFIER_def L2_GAS_PER_L2_TO_L1_MSG_def
  L2_GAS_PER_PRIVATE_LOG_def L2_GAS_PER_CONTRACT_CLASS_LOG_def DA_GAS_PER_FIELD_def

subsection \<open>Contract class log fields\<close>

definition from_emitted_fields :: "fr list \<Rightarrow> fr list" where
  "from_emitted_fields emitted_fields =
     (if length emitted_fields < CONTRACT_CLASS_LOG_SIZE_IN_FIELDS
      then resize CONTRACT_CLASS_LOG_SIZE_IN_FIELDS 0 emitted_fields else emitted_fields)"

text \<open>\<open>rposition\<close> finds the last non-zero field; the slice ends there.\<close>

definition emitted_fields :: "fr list \<Rightarrow> fr list" where
  "emitted_fields flds =
     (case find (\<lambda>i. flds ! i \<noteq> 0) (rev [0..<length flds]) of
        Some index \<Rightarrow> take (index + 1) flds
      | None \<Rightarrow> [])"

subsection \<open>Squashing\<close>

definition squash_transient_side_effects ::
    "scoped_note_hash list \<Rightarrow> scoped_nullifier list \<Rightarrow> private_log_data list \<Rightarrow> counter_map \<Rightarrow> u32 \<Rightarrow>
     scoped_note_hash list \<times> scoped_nullifier list \<times> private_log_data list" where
  "squash_transient_side_effects note_hashes nullifiers private_logs counter_map min_revertible =
     (let squashed_note_hash_counters = map fst counter_map;
          squashed_nullifier_counters = map snd counter_map
      in (filter (\<lambda>nh. nh_counter (snh_note_hash nh) \<notin> set squashed_note_hash_counters) note_hashes,
          filter (\<lambda>n. nf_counter (snf_nullifier n) \<notin> set squashed_nullifier_counters) nullifiers,
          filter (\<lambda>l. pld_note_hash_counter l \<notin> set squashed_note_hash_counters) private_logs))"

subsection \<open>Splitting by revertibility\<close>

definition split_by_counter ::
    "('o \<Rightarrow> u32) \<Rightarrow> 's list \<Rightarrow> 'o list \<Rightarrow> u32 \<Rightarrow> 's list \<times> 's list" where
  "split_by_counter counter siloed originals min_revertible =
     fold (\<lambda>(i, s) (non_revertible, revertible).
         if i < length originals then
           (if counter (originals ! i) < min_revertible then (non_revertible @ [s], revertible)
            else (non_revertible, revertible @ [s]))
         else (non_revertible, revertible))
       (List.enumerate 0 siloed) ([], [])"

definition split_note_hashes_by_counter ::
    "fr list \<Rightarrow> scoped_note_hash list \<Rightarrow> u32 \<Rightarrow> fr list \<times> fr list" where
  "split_note_hashes_by_counter = split_by_counter (\<lambda>nh. nh_counter (snh_note_hash nh))"

definition split_nullifiers_by_counter ::
    "fr list \<Rightarrow> scoped_nullifier list \<Rightarrow> u32 \<Rightarrow> fr list \<times> fr list" where
  "split_nullifiers_by_counter = split_by_counter (\<lambda>n. nf_counter (snf_nullifier n))"

definition split_private_logs ::
    "private_log list \<Rightarrow> private_log_data list \<Rightarrow> u32 \<Rightarrow> private_log list \<times> private_log list" where
  "split_private_logs = split_by_counter pld_counter"

subsection \<open>Gas metering\<close>

definition u64_checked :: "nat \<Rightarrow> u64 result" where
  "u64_checked n =
     (if n < 2 ^ 64 then Inr (of_nat n) else Inl (Panic ''attempt to add with overflow''))"

definition count_non_empty_fields :: "fr list \<Rightarrow> nat" where
  "count_non_empty_fields flds = length (filter (\<lambda>h. h \<noteq> 0) flds)"

definition meter_gas_rollup :: "private_to_rollup_accumulated_data \<Rightarrow> gas result" where
  "meter_gas_rollup data =
     (let note_hash_count = count_non_empty_fields (rol_note_hashes data);
          nullifier_count = count_non_empty_fields (rol_nullifiers data);
          l2_to_l1_count =
            length (filter (\<lambda>m. \<not> scoped_l2_to_l1_message_is_empty m) (rol_l2_to_l1_msgs data));
          log_count = length (filter (\<lambda>l. \<not> private_log_is_empty l) (rol_private_logs data));
          class_log_count = length (filter (\<lambda>h. \<not> scoped_log_hash_is_empty h)
            (rol_contract_class_logs_hashes data));
          l2 = PRIVATE_TX_L2_GAS_OVERHEAD + note_hash_count * L2_GAS_PER_NOTE_HASH +
            nullifier_count * L2_GAS_PER_NULLIFIER + l2_to_l1_count * L2_GAS_PER_L2_TO_L1_MSG +
            log_count * L2_GAS_PER_PRIVATE_LOG + class_log_count * L2_GAS_PER_CONTRACT_CLASS_LOG;
          da_fields = note_hash_count + nullifier_count + log_count * PRIVATE_LOG_SIZE_IN_FIELDS;
          da = TX_DA_GAS_OVERHEAD + da_fields * DA_GAS_PER_FIELD
      in bind_result (u64_checked l2) (\<lambda>l2_gas.
         bind_result (u64_checked da) (\<lambda>da_gas. Inr (gas_new da_gas l2_gas))))"

definition meter_gas_public ::
    "private_to_public_accumulated_data \<Rightarrow> private_to_public_accumulated_data \<Rightarrow> gas result" where
  "meter_gas_public non_revertible revertible =
     (let note_hashes = count_non_empty_fields (pub_note_hashes non_revertible) +
            count_non_empty_fields (pub_note_hashes revertible);
          nullifiers = count_non_empty_fields (pub_nullifiers non_revertible) +
            count_non_empty_fields (pub_nullifiers revertible);
          logs = length (filter (\<lambda>l. \<not> private_log_is_empty l) (pub_private_logs non_revertible)) +
            length (filter (\<lambda>l. \<not> private_log_is_empty l) (pub_private_logs revertible));
          l2 = PUBLIC_TX_L2_GAS_OVERHEAD + note_hashes * L2_GAS_PER_NOTE_HASH +
            nullifiers * L2_GAS_PER_NULLIFIER + logs * L2_GAS_PER_PRIVATE_LOG;
          da_fields = note_hashes + nullifiers + logs * PRIVATE_LOG_SIZE_IN_FIELDS;
          da = TX_DA_GAS_OVERHEAD + da_fields * DA_GAS_PER_FIELD
      in bind_result (u64_checked l2) (\<lambda>l2_gas.
         bind_result (u64_checked da) (\<lambda>da_gas. Inr (gas_new da_gas l2_gas))))"

subsection \<open>Padding\<close>

text \<open>\<open>while v.len() < n { v.push(x) }\<close>.\<close>

function push_until :: "nat \<Rightarrow> 'a \<Rightarrow> 'a list \<Rightarrow> 'a list" where
  "push_until n x v = (if length v < n then push_until n x (v @ [x]) else v)"
  by auto
termination
  by (relation "measure (\<lambda>(n, x, v). n - length v)") auto

declare push_until.simps [simp del]

definition pad_to_scoped_l2_to_l1 :: "scoped_l2_to_l1_message list \<Rightarrow> scoped_l2_to_l1_message list" where
  "pad_to_scoped_l2_to_l1 = push_until MAX_L2_TO_L1_MSGS_PER_TX scoped_l2_to_l1_message_empty"

definition pad_private_logs :: "private_log list \<Rightarrow> private_log list" where
  "pad_private_logs = push_until MAX_PRIVATE_LOGS_PER_TX private_log_empty"

definition pad_scoped_log_hashes :: "scoped_log_hash list \<Rightarrow> scoped_log_hash list" where
  "pad_scoped_log_hashes = push_until MAX_CONTRACT_CLASS_LOGS_PER_TX scoped_log_hash_empty"

definition pad_public_call_requests :: "public_call_request list \<Rightarrow> public_call_request list" where
  "pad_public_call_requests = push_until MAX_ENQUEUED_CALLS_PER_TX public_call_request_empty"

subsection \<open>Siloing\<close>

definition silo_scoped_note_hash :: "crypto \<Rightarrow> scoped_note_hash \<Rightarrow> fr" where
  "silo_scoped_note_hash C nh =
     (if scoped_note_hash_is_empty nh then 0
      else silo_note_hash C (snh_contract_address nh) (nh_value (snh_note_hash nh)))"

definition silo_scoped_nullifier :: "crypto \<Rightarrow> scoped_nullifier \<Rightarrow> fr" where
  "silo_scoped_nullifier C n =
     (if scoped_nullifier_is_empty n then 0
      else silo_nullifier C (snf_contract_address n) (nf_value (snf_nullifier n)))"

definition silo_private_log :: "crypto \<Rightarrow> private_log_data \<Rightarrow> private_log" where
  "silo_private_log C l =
     (let flds = pld_fields l;
          flds = (if flds \<noteq> [] \<and> flds ! 0 \<noteq> 0
                  then flds[0 := compute_siloed_private_log_first_field C (pld_contract_address l)
                              (flds ! 0)]
                  else flds)
      in \<lparr>pl_fields = pad_fields flds PRIVATE_LOG_SIZE_IN_FIELDS,
          pl_emitted_length = pld_emitted_length l\<rparr>)"

definition class_log_hash :: "crypto \<Rightarrow> counted_contract_class_log \<Rightarrow> scoped_log_hash" where
  "class_log_hash C ccl =
     \<lparr>slh_log_hash =
        \<lparr>lh_value = poseidon2_hash C (from_emitted_fields (ccl_fields (cccl_log ccl))),
         lh_length = ccl_emitted_length (cccl_log ccl)\<rparr>,
      slh_contract_address = ccl_contract_address (cccl_log ccl)\<rparr>"

definition unique_note_hashes :: "crypto \<Rightarrow> fr \<Rightarrow> fr list \<Rightarrow> fr list" where
  "unique_note_hashes C first_nullifier siloed =
     map (\<lambda>(i, h). if h = 0 then 0
                   else compute_unique_note_hash C
                          (compute_note_hash_nonce C first_nullifier (of_nat i)) h)
       (List.enumerate 0 siloed)"

subsection \<open>The whole pass\<close>

definition call_request_of :: "public_call_request_data \<Rightarrow> public_call_request" where
  "call_request_of req =
     \<lparr>pcr_msg_sender = pcd_msg_sender req, pcr_contract_address = pcd_contract_address req,
      pcr_is_static_call = pcd_is_static_call req, pcr_calldata_hash = pcd_calldata_hash req\<rparr>"

definition split_public_calls ::
    "public_call_request_data list \<Rightarrow> u32 \<Rightarrow> public_call_request list \<times> public_call_request list" where
  "split_public_calls requests min_revertible =
     fold (\<lambda>req (nr, r).
         if pcd_counter req < min_revertible then (nr @ [call_request_of req], r)
         else (nr, r @ [call_request_of req]))
       requests ([], [])"

record simulated_kernel_output =
  public_inputs :: private_kernel_tail_public_inputs

text \<open>The branch of a transaction without public calls.\<close>

definition process_for_rollup ::
    "crypto \<Rightarrow> fr \<Rightarrow> fr list \<Rightarrow> fr list \<Rightarrow> private_log list \<Rightarrow> scoped_log_hash list \<Rightarrow>
     scoped_l2_to_l1_message list \<Rightarrow> tx_constant_data \<Rightarrow> fr \<Rightarrow> u64 \<Rightarrow> simulated_kernel_output result"
  where
  "process_for_rollup C first_nullifier siloed_note_hashes siloed_nullifiers siloed_private_logs
     contract_class_log_hashes l2_to_l1_msgs constants fee_payer expiration_timestamp =
     (let end_data =
        \<lparr>rol_note_hashes = pad_fields (unique_note_hashes C first_nullifier siloed_note_hashes)
           MAX_NOTE_HASHES_PER_TX,
         rol_nullifiers = pad_fields (first_nullifier # siloed_nullifiers) MAX_NULLIFIERS_PER_TX,
         rol_l2_to_l1_msgs = pad_to_scoped_l2_to_l1 l2_to_l1_msgs,
         rol_private_logs = pad_private_logs siloed_private_logs,
         rol_contract_class_logs_hashes = pad_scoped_log_hashes contract_class_log_hashes\<rparr>
      in bind_result (meter_gas_rollup end_data) (\<lambda>gas_used.
           Inr \<lparr>public_inputs =
             \<lparr>pi_constants = constants, pi_gas_used = gas_used, pi_fee_payer = AztecAddress fee_payer,
              pi_expiration_timestamp = expiration_timestamp, pi_for_public = None,
              pi_for_rollup = Some \<lparr>tr_end = end_data\<rparr>\<rparr>\<rparr>))"

text \<open>The branch of a transaction with public calls.\<close>

definition process_for_public ::
    "crypto \<Rightarrow> 'w private_execution_result \<Rightarrow> scoped_note_hash list \<Rightarrow> scoped_nullifier list \<Rightarrow>
     private_log_data list \<Rightarrow> public_call_request_data list \<Rightarrow> fr list \<Rightarrow> fr list \<Rightarrow> private_log list \<Rightarrow>
     scoped_log_hash list \<Rightarrow> u32 \<Rightarrow> tx_constant_data \<Rightarrow> fr \<Rightarrow> u64 \<Rightarrow> simulated_kernel_output result"
  where
  "process_for_public C execution_result filtered_note_hashes filtered_nullifiers
     filtered_private_logs public_call_requests siloed_note_hashes siloed_nullifiers
     siloed_private_logs contract_class_log_hashes min_revertible_counter constants fee_payer
     expiration_timestamp =
     (let (nr_note_hashes, r_note_hashes) =
            split_note_hashes_by_counter siloed_note_hashes filtered_note_hashes
              min_revertible_counter;
          (nr_nullifiers, r_nullifiers) =
            split_nullifiers_by_counter siloed_nullifiers filtered_nullifiers
              min_revertible_counter;
          (nr_private_logs, r_private_logs) =
            split_private_logs siloed_private_logs filtered_private_logs min_revertible_counter;
          nr_nullifiers = er_first_nullifier execution_result # nr_nullifiers;
          nr_unique_note_hashes =
            unique_note_hashes C (er_first_nullifier execution_result) nr_note_hashes;
          (nr_public_calls, r_public_calls) =
            split_public_calls public_call_requests min_revertible_counter;
          teardown = (case get_teardown_call_request execution_result of
              Some req \<Rightarrow> call_request_of req
            | None \<Rightarrow> public_call_request_empty);
          non_revertible =
            \<lparr>pub_note_hashes = pad_fields nr_unique_note_hashes MAX_NOTE_HASHES_PER_TX,
             pub_nullifiers = pad_fields nr_nullifiers MAX_NULLIFIERS_PER_TX,
             pub_l2_to_l1_msgs = pad_to_scoped_l2_to_l1 [],
             pub_private_logs = pad_private_logs nr_private_logs,
             pub_contract_class_logs_hashes = pad_scoped_log_hashes contract_class_log_hashes,
             pub_public_call_requests = pad_public_call_requests nr_public_calls\<rparr>;
          revertible =
            \<lparr>pub_note_hashes = pad_fields r_note_hashes MAX_NOTE_HASHES_PER_TX,
             pub_nullifiers = pad_fields r_nullifiers MAX_NULLIFIERS_PER_TX,
             pub_l2_to_l1_msgs = pad_to_scoped_l2_to_l1 [],
             pub_private_logs = pad_private_logs r_private_logs,
             pub_contract_class_logs_hashes = pad_scoped_log_hashes [],
             pub_public_call_requests = pad_public_call_requests r_public_calls\<rparr>
      in bind_result (meter_gas_public non_revertible revertible) (\<lambda>gas_used.
           Inr \<lparr>public_inputs =
             \<lparr>pi_constants = constants, pi_gas_used = gas_used, pi_fee_payer = AztecAddress fee_payer,
              pi_expiration_timestamp = expiration_timestamp,
              pi_for_public = Some \<lparr>tp_non_revertible = non_revertible, tp_revertible = revertible,
                tp_teardown_call_request = teardown\<rparr>,
              pi_for_rollup = None\<rparr>\<rparr>))"

definition process_kernel ::
    "crypto \<Rightarrow> 'w private_execution_result \<Rightarrow> tx_constant_data \<Rightarrow> fr \<Rightarrow> u64 \<Rightarrow>
     simulated_kernel_output result" where
  "process_kernel C execution_result constants fee_payer expiration_timestamp =
     (let note_hashes = all_note_hashes execution_result;
          nullifiers = all_nullifiers execution_result;
          private_logs = all_private_logs execution_result;
          public_call_requests = all_public_call_requests execution_result;
          contract_class_logs = all_contract_class_logs_sorted execution_result;
          counter_map = all_note_hash_nullifier_counter_maps execution_result;
          is_private_only = (public_call_requests = [] \<and>
            get_teardown_call_request execution_result = None);
          min_revertible_counter =
            call_min_revertible_side_effect_counter (call_data (er_entrypoint execution_result));
          (filtered_note_hashes, filtered_nullifiers, filtered_private_logs) =
            squash_transient_side_effects note_hashes nullifiers private_logs counter_map
              min_revertible_counter;
          filtered_note_hashes =
            sort_key (\<lambda>nh. nh_counter (snh_note_hash nh)) filtered_note_hashes;
          filtered_nullifiers = sort_key (\<lambda>n. nf_counter (snf_nullifier n)) filtered_nullifiers;
          filtered_private_logs = sort_key pld_counter filtered_private_logs;
          public_call_requests = sort_key pcd_counter public_call_requests;
          siloed_note_hashes = map (silo_scoped_note_hash C) filtered_note_hashes;
          siloed_nullifiers = map (silo_scoped_nullifier C) filtered_nullifiers;
          siloed_private_logs = map (silo_private_log C) filtered_private_logs;
          contract_class_log_hashes = map (class_log_hash C) contract_class_logs;
          l2_to_l1_msgs = []
      in if is_private_only
         then process_for_rollup C (er_first_nullifier execution_result) siloed_note_hashes
                siloed_nullifiers siloed_private_logs contract_class_log_hashes l2_to_l1_msgs
                constants fee_payer expiration_timestamp
         else process_for_public C execution_result filtered_note_hashes filtered_nullifiers
                filtered_private_logs public_call_requests siloed_note_hashes siloed_nullifiers
                siloed_private_logs contract_class_log_hashes min_revertible_counter constants
                fee_payer expiration_timestamp)"

subsection \<open>Lemmas on padding, splitting and sorting\<close>

lemma push_until_eq: "push_until n x v = v @ replicate (n - length v) x"
proof (induction n x v rule: push_until.induct)
  case (1 n x v)
  have "replicate (n - length v) x = x # replicate (n - Suc (length v)) x" if "length v < n"
    using that by (metis Suc_diff_Suc replicate_Suc)
  with 1 show ?case by (subst push_until.simps) auto
qed

lemma pad_fields_eq: "pad_fields v n = v @ replicate (n - length v) 0"
  by (simp add: pad_fields_def resize_def)

lemma split_by_counter_eq:
  "split_by_counter counter (map f originals) originals m =
     (map f (filter (\<lambda>x. counter x < m) originals), map f (filter (\<lambda>x. \<not> counter x < m) originals))"
proof -
  have "drop k originals = os \<Longrightarrow>
      fold (\<lambda>(i, s) (nr, r).
         if i < length originals then
           (if counter (originals ! i) < m then (nr @ [s], r) else (nr, r @ [s]))
         else (nr, r)) (List.enumerate k (map f os)) (a, b) =
      (a @ map f (filter (\<lambda>x. counter x < m) os), b @ map f (filter (\<lambda>x. \<not> counter x < m) os))"
    for k os a b
  proof (induction os arbitrary: k a b)
    case (Cons x os)
    have "k < length originals" using Cons.prems by (metis drop_all list.discI not_le)
    moreover have "originals ! k = x \<and> drop (Suc k) originals = os"
      using Cons.prems calculation by (metis Cons_nth_drop_Suc list.inject)
    ultimately show ?case using Cons.IH by simp
  qed simp
  from this[of 0 originals "[]" "[]"] show ?thesis by (simp add: split_by_counter_def)
qed

lemma split_public_calls_eq:
  "split_public_calls requests m =
     (map call_request_of (filter (\<lambda>q. pcd_counter q < m) requests),
      map call_request_of (filter (\<lambda>q. \<not> pcd_counter q < m) requests))"
proof -
  have "fold (\<lambda>req (nr, r).
         if pcd_counter req < m then (nr @ [call_request_of req], r)
         else (nr, r @ [call_request_of req])) rs (a, b) =
      (a @ map call_request_of (filter (\<lambda>q. pcd_counter q < m) rs),
       b @ map call_request_of (filter (\<lambda>q. \<not> pcd_counter q < m) rs))" for rs a b
    by (induction rs arbitrary: a b) auto
  then show ?thesis by (simp add: split_public_calls_def)
qed

lemma filter_split_sorted:
  "sorted (map (counter :: _ \<Rightarrow> u32) xs) \<Longrightarrow>
     filter (\<lambda>x. counter x < m) xs @ filter (\<lambda>x. \<not> counter x < m) xs = xs"
proof (induction xs)
  case (Cons x xs)
  show ?case
  proof (cases "counter x < m")
    case False
    then have "filter (\<lambda>x. counter x < m) xs = []"
      using Cons.prems by (fastforce simp: filter_empty_conv)
    with Cons False show ?thesis by simp
  qed (use Cons in simp)
qed simp

lemma sort_key_filter_collected:
  "sort_key counter (filter P (collect_by_counter counter xs)) =
     filter P (collect_by_counter counter xs)"
proof -
  have "sorted (map counter (collect_by_counter counter xs))"
    using collect_by_counter_firsts[of counter xs]
    by (simp add: firsts_in_order_def strict_sorted_iff)
  then have "sorted (map counter (filter P (collect_by_counter counter xs)))"
    by (rule sorted_filter)
  then show ?thesis by (rule sort_key_id_if_sorted)
qed

lemma sorted_filter_collected:
  "sorted (map counter (filter P (collect_by_counter counter xs)))"
  using collect_by_counter_firsts[of counter xs]
  by (intro sorted_filter) (simp add: firsts_in_order_def strict_sorted_iff)

subsection \<open>What survives squashing\<close>

definition squashed_note_hash :: "'w private_execution_result \<Rightarrow> u32 \<Rightarrow> bool" where
  "squashed_note_hash r k \<longleftrightarrow>
     list_ex (\<lambda>c. k \<in> set (map fst (call_note_hash_nullifier_counter_map c)))
       (preorder (er_entrypoint r))"

definition squashed_nullifier :: "'w private_execution_result \<Rightarrow> u32 \<Rightarrow> bool" where
  "squashed_nullifier r k \<longleftrightarrow> k \<in> set (map snd (all_note_hash_nullifier_counter_maps r))"

definition kept_note_hashes :: "'w private_execution_result \<Rightarrow> scoped_note_hash list" where
  "kept_note_hashes r =
     filter (\<lambda>n. \<not> squashed_note_hash r (nh_counter (snh_note_hash n))) (all_note_hashes r)"

definition kept_nullifiers :: "'w private_execution_result \<Rightarrow> scoped_nullifier list" where
  "kept_nullifiers r =
     filter (\<lambda>n. \<not> squashed_nullifier r (nf_counter (snf_nullifier n))) (all_nullifiers r)"

definition kept_private_logs :: "'w private_execution_result \<Rightarrow> private_log_data list" where
  "kept_private_logs r =
     filter (\<lambda>l. \<not> squashed_note_hash r (pld_note_hash_counter l)) (all_private_logs r)"

lemma squashed_note_hash_iff:
  "squashed_note_hash r k \<longleftrightarrow> k \<in> fst ` set (all_note_hash_nullifier_counter_maps r)"
  by (auto simp: squashed_note_hash_def list_ex_iff dom_collected_map)

definition private_only :: "'w private_execution_result \<Rightarrow> bool" where
  "private_only r \<longleftrightarrow> all_public_call_requests r = [] \<and> get_teardown_call_request r = None"

definition min_revertible :: "'w private_execution_result \<Rightarrow> u32" where
  "min_revertible r = call_min_revertible_side_effect_counter (call_data (er_entrypoint r))"

lemma sort_key_all_public_call_requests:
  "sort_key pcd_counter (all_public_call_requests r) = all_public_call_requests r"
  using sort_key_filter_collected[of pcd_counter "\<lambda>_. True"] by (simp add: all_public_call_requests_def)

lemma sorted_kept:
  "sorted (map (\<lambda>n. nh_counter (snh_note_hash n)) (kept_note_hashes r))"
  "sorted (map (\<lambda>n. nf_counter (snf_nullifier n)) (kept_nullifiers r))"
  "sorted (map pld_counter (kept_private_logs r))"
  "sorted (map pcd_counter (all_public_call_requests r))"
proof -
  show "sorted (map pcd_counter (all_public_call_requests r))"
    using sorted_filter_collected[of pcd_counter "\<lambda>_. True"]
    by (simp add: all_public_call_requests_def)
qed (simp_all add: kept_note_hashes_def kept_nullifiers_def kept_private_logs_def
    all_note_hashes_def all_nullifiers_def all_private_logs_def sorted_filter_collected)

lemma process_kernel_eq:
  "process_kernel C r constants fee_payer expiry =
     (if private_only r
      then process_for_rollup C (er_first_nullifier r) (map (silo_scoped_note_hash C) (kept_note_hashes r))
             (map (silo_scoped_nullifier C) (kept_nullifiers r))
             (map (silo_private_log C) (kept_private_logs r))
             (map (class_log_hash C) (all_contract_class_logs_sorted r)) [] constants fee_payer expiry
      else process_for_public C r (kept_note_hashes r) (kept_nullifiers r) (kept_private_logs r)
             (all_public_call_requests r) (map (silo_scoped_note_hash C) (kept_note_hashes r))
             (map (silo_scoped_nullifier C) (kept_nullifiers r))
             (map (silo_private_log C) (kept_private_logs r))
             (map (class_log_hash C) (all_contract_class_logs_sorted r)) (min_revertible r)
             constants fee_payer expiry)"
proof -
  have "sort_key (\<lambda>n. nh_counter (snh_note_hash n)) (kept_note_hashes r) = kept_note_hashes r"
    "sort_key (\<lambda>n. nf_counter (snf_nullifier n)) (kept_nullifiers r) = kept_nullifiers r"
    "sort_key pld_counter (kept_private_logs r) = kept_private_logs r"
    by (simp_all add: sort_key_id_if_sorted sorted_kept)
  then show ?thesis
    by (simp add: process_kernel_def squash_transient_side_effects_def Let_def private_only_def
        min_revertible_def kept_note_hashes_def[symmetric] kept_nullifiers_def[symmetric]
        kept_private_logs_def[symmetric] sort_key_all_public_call_requests
        squashed_note_hash_iff[symmetric] squashed_nullifier_def[unfolded set_map, symmetric])
qed

subsection \<open>Limits\<close>

text \<open>
  The protocol limits on what a transaction may emit. The nullifier limit leaves room for the
  protocol nullifier.
\<close>

definition within_limits :: "'w private_execution_result \<Rightarrow> bool" where
  "within_limits r \<longleftrightarrow>
     length (kept_note_hashes r) \<le> MAX_NOTE_HASHES_PER_TX \<and>
     length (kept_nullifiers r) < MAX_NULLIFIERS_PER_TX \<and>
     length (kept_private_logs r) \<le> MAX_PRIVATE_LOGS_PER_TX \<and>
     list_all (\<lambda>l. length (pld_fields l) \<le> PRIVATE_LOG_SIZE_IN_FIELDS) (kept_private_logs r) \<and>
     length (all_contract_class_logs_sorted r) \<le> MAX_CONTRACT_CLASS_LOGS_PER_TX \<and>
     length (all_public_call_requests r) \<le> MAX_ENQUEUED_CALLS_PER_TX"

lemma length_push_until [simp]: "length v \<le> n \<Longrightarrow> length (push_until n x v) = n"
  by (simp add: push_until_eq)

lemma length_pad_fields [simp]: "length v \<le> n \<Longrightarrow> length (pad_fields v n) = n"
  by (simp add: pad_fields_eq)

lemma length_unique_note_hashes [simp]: "length (unique_note_hashes C f hs) = length hs"
  by (simp add: unique_note_hashes_def)

lemma log_ok_silo: "length (pld_fields l) \<le> PRIVATE_LOG_SIZE_IN_FIELDS \<Longrightarrow> log_ok (silo_private_log C l)"
  by (simp add: silo_private_log_def log_ok_def Let_def)

lemma padded_logs_ok:
  assumes "list_all (\<lambda>l. length (pld_fields l) \<le> PRIVATE_LOG_SIZE_IN_FIELDS) ls"
  shows "list_all log_ok (pad_private_logs (map (silo_private_log C) ls))"
  using assms
  by (auto simp: pad_private_logs_def push_until_eq list_all_iff intro: log_ok_silo)
    (simp add: log_ok_def private_log_empty_def)

lemma padded_messages_ok:
  "length (pad_to_scoped_l2_to_l1 []) = MAX_L2_TO_L1_MSGS_PER_TX \<and>
   list_all message_ok (pad_to_scoped_l2_to_l1 [])"
  by (auto simp: pad_to_scoped_l2_to_l1_def push_until_eq list_all_iff message_ok_def
      scoped_l2_to_l1_message_empty_def eth_ok_def eth_address_default_def)

lemma length_filter_le_bound: "length xs \<le> n \<Longrightarrow> length (filter P xs) \<le> n"
  using length_filter_le[of P xs] by linarith

lemma list_all_filter: "list_all P xs \<Longrightarrow> list_all P (filter Q xs)"
  by (simp add: list_all_iff)

subsection \<open>Gas of well-formed data\<close>

lemma count_non_empty_fields_le: "count_non_empty_fields xs \<le> length xs"
  by (simp add: count_non_empty_fields_def)

lemma checked_gas:
  assumes "l2 < 2 ^ 32" and "da < 2 ^ 32"
  shows "\<exists>g. bind_result (u64_checked l2) (\<lambda>l2_gas.
      bind_result (u64_checked da) (\<lambda>da_gas. Inr (gas_new da_gas l2_gas))) = Inr g \<and>
    unat (da_gas g) < 2 ^ 32 \<and> unat (l2_gas g) < 2 ^ 32"
  using assms by (simp add: u64_checked_def gas_new_def unsigned_of_nat take_bit_nat_eq_self)

text \<open>Data at the protocol sizes never overflows the meter, and the gas fits the \<open>u32\<close> of the wire.\<close>

lemma meter_gas_rollup_bound:
  assumes "rollup_data_ok d"
  shows "\<exists>g. meter_gas_rollup d = Inr g \<and> unat (da_gas g) < 2 ^ 32 \<and> unat (l2_gas g) < 2 ^ 32"
proof -
  have counts: "count_non_empty_fields (rol_note_hashes d) \<le> 64"
    "count_non_empty_fields (rol_nullifiers d) \<le> 64"
    "length (filter (\<lambda>m. \<not> scoped_l2_to_l1_message_is_empty m) (rol_l2_to_l1_msgs d)) \<le> 8"
    "length (filter (\<lambda>l. \<not> private_log_is_empty l) (rol_private_logs d)) \<le> 64"
    "length (filter (\<lambda>h. \<not> scoped_log_hash_is_empty h) (rol_contract_class_logs_hashes d)) \<le> 1"
    using assms count_non_empty_fields_le[of "rol_note_hashes d"]
      count_non_empty_fields_le[of "rol_nullifiers d"]
    by (auto simp: rollup_data_ok_def tx_limits intro!: length_filter_le_bound)
  then show ?thesis
    unfolding meter_gas_rollup_def Let_def by (intro checked_gas) (simp_all add: gas_constants tx_limits)
qed

lemma meter_gas_public_bound:
  assumes "public_data_ok d" and "public_data_ok e"
  shows "\<exists>g. meter_gas_public d e = Inr g \<and> unat (da_gas g) < 2 ^ 32 \<and> unat (l2_gas g) < 2 ^ 32"
proof -
  have counts: "count_non_empty_fields (pub_note_hashes x) \<le> 64 \<and>
    count_non_empty_fields (pub_nullifiers x) \<le> 64 \<and>
    length (filter (\<lambda>l. \<not> private_log_is_empty l) (pub_private_logs x)) \<le> 64"
    if "public_data_ok x" for x
    using that count_non_empty_fields_le[of "pub_note_hashes x"]
      count_non_empty_fields_le[of "pub_nullifiers x"]
    by (auto simp: public_data_ok_def tx_limits intro!: length_filter_le_bound)
  show ?thesis
    using counts[OF assms(1)] counts[OF assms(2)]
    unfolding meter_gas_public_def Let_def by (intro checked_gas) (simp_all add: gas_constants tx_limits)
qed

subsection \<open>Properties\<close>

lemma class_log_hashes_length:
  "length hs \<le> MAX_CONTRACT_CLASS_LOGS_PER_TX \<Longrightarrow>
     length (pad_scoped_log_hashes hs) = MAX_CONTRACT_CLASS_LOGS_PER_TX"
  by (simp add: pad_scoped_log_hashes_def)

lemma private_logs_length:
  "length ls \<le> MAX_PRIVATE_LOGS_PER_TX \<Longrightarrow> length (pad_private_logs ls) = MAX_PRIVATE_LOGS_PER_TX"
  by (simp add: pad_private_logs_def)

lemmas process_simps =
  process_for_public_def process_for_rollup_def Let_def split_note_hashes_by_counter_def
  split_nullifiers_by_counter_def split_private_logs_def split_by_counter_eq split_public_calls_eq

lemma rollup_parts_ok:
  assumes "within_limits r"
  shows "rollup_data_ok
    \<lparr>rol_note_hashes = pad_fields (unique_note_hashes C f (map (silo_scoped_note_hash C)
       (kept_note_hashes r))) MAX_NOTE_HASHES_PER_TX,
     rol_nullifiers = pad_fields (f # map (silo_scoped_nullifier C) (kept_nullifiers r))
       MAX_NULLIFIERS_PER_TX,
     rol_l2_to_l1_msgs = pad_to_scoped_l2_to_l1 [],
     rol_private_logs = pad_private_logs (map (silo_private_log C) (kept_private_logs r)),
     rol_contract_class_logs_hashes =
       pad_scoped_log_hashes (map (class_log_hash C) (all_contract_class_logs_sorted r))\<rparr>"
  using assms
  by (simp add: rollup_data_ok_def within_limits_def padded_messages_ok padded_logs_ok
      class_log_hashes_length private_logs_length)

lemma public_parts_ok:
  assumes "length hs \<le> MAX_NOTE_HASHES_PER_TX" and "length ns \<le> MAX_NULLIFIERS_PER_TX"
    and "length ls \<le> MAX_PRIVATE_LOGS_PER_TX"
    and "list_all (\<lambda>l. length (pld_fields l) \<le> PRIVATE_LOG_SIZE_IN_FIELDS) ls"
    and "length cs \<le> MAX_CONTRACT_CLASS_LOGS_PER_TX" and "length qs \<le> MAX_ENQUEUED_CALLS_PER_TX"
  shows "public_data_ok
    \<lparr>pub_note_hashes = pad_fields hs MAX_NOTE_HASHES_PER_TX,
     pub_nullifiers = pad_fields ns MAX_NULLIFIERS_PER_TX,
     pub_l2_to_l1_msgs = pad_to_scoped_l2_to_l1 [],
     pub_private_logs = pad_private_logs (map (silo_private_log C) ls),
     pub_contract_class_logs_hashes = pad_scoped_log_hashes cs,
     pub_public_call_requests = pad_public_call_requests qs\<rparr>"
  using assms
  by (simp add: public_data_ok_def padded_messages_ok padded_logs_ok class_log_hashes_length
      private_logs_length pad_public_call_requests_def)

lemma wire_gas_small:
  "unat (da_gas g) < 2 ^ 32 \<Longrightarrow> unat (l2_gas g) < 2 ^ 32 \<Longrightarrow> wire_gas g = g"
  by (simp add: wire_gas_def low32_small)

lemma kernel_succeeds:
  assumes "within_limits r"
    and "eth_ok (gv_coinbase (bh_global_variables (tcd_anchor_block_header constants)))"
  shows "\<exists>out. process_kernel C r constants fee_payer expiry = Inr out \<and>
    shape_ok (public_inputs out) \<and> is_for_public (public_inputs out) = (\<not> private_only r) \<and>
    pi_constants (public_inputs out) = constants \<and>
    pi_fee_payer (public_inputs out) = AztecAddress fee_payer \<and>
    pi_expiration_timestamp (public_inputs out) = expiry \<and>
    wire_gas (pi_gas_used (public_inputs out)) = pi_gas_used (public_inputs out)"
proof (cases "private_only r")
  case True
  from meter_gas_rollup_bound[OF rollup_parts_ok[OF assms(1), of C "er_first_nullifier r"]]
    rollup_parts_ok[OF assms(1), of C "er_first_nullifier r"] assms(2) True
  show ?thesis
    by (auto simp: process_kernel_eq process_simps shape_ok_def is_for_public_def wire_gas_small)
next
  case False
  note lim = assms(1)[unfolded within_limits_def]
  let ?below = "\<lambda>c xs. filter (\<lambda>x. c x < min_revertible r) xs"
  let ?above = "\<lambda>c xs. filter (\<lambda>x. \<not> c x < min_revertible r) xs"
  note bounds = lim length_filter_le_bound list_all_filter Suc_leI le_less_trans[OF length_filter_le]
  have nr: "public_data_ok
    \<lparr>pub_note_hashes = pad_fields (unique_note_hashes C (er_first_nullifier r)
       (map (silo_scoped_note_hash C) (?below (\<lambda>n. nh_counter (snh_note_hash n)) (kept_note_hashes r))))
       MAX_NOTE_HASHES_PER_TX,
     pub_nullifiers = pad_fields (er_first_nullifier r # map (silo_scoped_nullifier C)
       (?below (\<lambda>n. nf_counter (snf_nullifier n)) (kept_nullifiers r))) MAX_NULLIFIERS_PER_TX,
     pub_l2_to_l1_msgs = pad_to_scoped_l2_to_l1 [],
     pub_private_logs = pad_private_logs (map (silo_private_log C)
       (?below pld_counter (kept_private_logs r))),
     pub_contract_class_logs_hashes =
       pad_scoped_log_hashes (map (class_log_hash C) (all_contract_class_logs_sorted r)),
     pub_public_call_requests = pad_public_call_requests (map call_request_of
       (?below pcd_counter (all_public_call_requests r)))\<rparr>"
    by (rule public_parts_ok) (simp_all add: bounds)
  have rv: "public_data_ok
    \<lparr>pub_note_hashes = pad_fields (map (silo_scoped_note_hash C)
       (?above (\<lambda>n. nh_counter (snh_note_hash n)) (kept_note_hashes r))) MAX_NOTE_HASHES_PER_TX,
     pub_nullifiers = pad_fields (map (silo_scoped_nullifier C)
       (?above (\<lambda>n. nf_counter (snf_nullifier n)) (kept_nullifiers r))) MAX_NULLIFIERS_PER_TX,
     pub_l2_to_l1_msgs = pad_to_scoped_l2_to_l1 [],
     pub_private_logs = pad_private_logs (map (silo_private_log C)
       (?above pld_counter (kept_private_logs r))),
     pub_contract_class_logs_hashes = pad_scoped_log_hashes [],
     pub_public_call_requests = pad_public_call_requests (map call_request_of
       (?above pcd_counter (all_public_call_requests r)))\<rparr>"
    by (rule public_parts_ok) (simp_all add: bounds less_imp_le)
  from meter_gas_public_bound[OF nr rv] nr rv assms(2) False
  show ?thesis
    by (auto simp: process_kernel_eq process_simps shape_ok_def is_for_public_def tail_ok_def
        wire_gas_small)
qed

text \<open>
  C9. The simulated kernel on an execution within the protocol limits: it succeeds, its public
  inputs have the shape of the kernel tail (so their hash preimage and their buffer have the fixed
  sizes), the variant is the public one exactly when a public call or a teardown is enqueued, the
  constants, fee payer and expiration are passed through, and the gas it meters survives the \<open>u32\<close>
  fields of the wire format.
\<close>

theorem kernel_output_well_formed:
  assumes "within_limits r"
    and "eth_ok (gv_coinbase (bh_global_variables (tcd_anchor_block_header constants)))"
  shows "\<exists>out. process_kernel C r constants fee_payer expiry = Inr out \<and>
    shape_ok (public_inputs out) \<and> is_for_public (public_inputs out) = (\<not> private_only r) \<and>
    pi_constants (public_inputs out) = constants \<and>
    pi_fee_payer (public_inputs out) = AztecAddress fee_payer \<and>
    pi_expiration_timestamp (public_inputs out) = expiry \<and>
    wire_gas (pi_gas_used (public_inputs out)) = pi_gas_used (public_inputs out)"
  using assms by (rule kernel_succeeds)

text \<open>Cutting a list, already in counter order, at the revertibility counter.\<close>

definition cut_at :: "('a \<Rightarrow> u32) \<Rightarrow> u32 \<Rightarrow> 'a list \<Rightarrow> 'a list \<Rightarrow> 'a list \<Rightarrow> bool" where
  "cut_at counter m xs nr rv \<longleftrightarrow>
     xs = nr @ rv \<and> list_all (\<lambda>x. counter x < m) nr \<and> list_all (\<lambda>x. m \<le> counter x) rv"

lemma cut_at_filter:
  "sorted (map counter xs) \<Longrightarrow>
     cut_at counter m xs (filter (\<lambda>x. counter x < m) xs) (filter (\<lambda>x. \<not> counter x < m) xs)"
  by (auto simp: cut_at_def filter_split_sorted list_all_iff)

text \<open>The side effects in the public inputs of a private-only transaction.\<close>

definition rollup_effects :: "crypto \<Rightarrow> 'w private_execution_result \<Rightarrow> tail_for_rollup \<Rightarrow> bool" where
  "rollup_effects C r t \<longleftrightarrow>
     rol_note_hashes (tr_end t) = pad_fields (unique_note_hashes C (er_first_nullifier r)
       (map (silo_scoped_note_hash C) (kept_note_hashes r))) MAX_NOTE_HASHES_PER_TX \<and>
     rol_nullifiers (tr_end t) = pad_fields (er_first_nullifier r #
       map (silo_scoped_nullifier C) (kept_nullifiers r)) MAX_NULLIFIERS_PER_TX \<and>
     rol_private_logs (tr_end t) =
       map (silo_private_log C) (kept_private_logs r) @
       replicate (MAX_PRIVATE_LOGS_PER_TX - length (kept_private_logs r)) private_log_empty"

text \<open>The side effects in the public inputs of a transaction with public calls.\<close>

definition public_effects :: "crypto \<Rightarrow> 'w private_execution_result \<Rightarrow> tail_for_public \<Rightarrow> bool" where
  "public_effects C r t \<longleftrightarrow>
     (\<exists>nr rv. cut_at (\<lambda>n. nh_counter (snh_note_hash n)) (min_revertible r) (kept_note_hashes r) nr rv \<and>
        pub_note_hashes (tp_non_revertible t) = pad_fields (unique_note_hashes C
          (er_first_nullifier r) (map (silo_scoped_note_hash C) nr)) MAX_NOTE_HASHES_PER_TX \<and>
        pub_note_hashes (tp_revertible t) =
          pad_fields (map (silo_scoped_note_hash C) rv) MAX_NOTE_HASHES_PER_TX) \<and>
     (\<exists>nr rv. cut_at (\<lambda>n. nf_counter (snf_nullifier n)) (min_revertible r) (kept_nullifiers r) nr rv \<and>
        pub_nullifiers (tp_non_revertible t) = pad_fields (er_first_nullifier r #
          map (silo_scoped_nullifier C) nr) MAX_NULLIFIERS_PER_TX \<and>
        pub_nullifiers (tp_revertible t) =
          pad_fields (map (silo_scoped_nullifier C) rv) MAX_NULLIFIERS_PER_TX) \<and>
     (\<exists>nr rv. cut_at pld_counter (min_revertible r) (kept_private_logs r) nr rv \<and>
        pub_private_logs (tp_non_revertible t) = map (silo_private_log C) nr @
          replicate (MAX_PRIVATE_LOGS_PER_TX - length nr) private_log_empty \<and>
        pub_private_logs (tp_revertible t) = map (silo_private_log C) rv @
          replicate (MAX_PRIVATE_LOGS_PER_TX - length rv) private_log_empty) \<and>
     (\<exists>nr rv. cut_at pcd_counter (min_revertible r) (all_public_call_requests r) nr rv \<and>
        pub_public_call_requests (tp_non_revertible t) = map call_request_of nr @
          replicate (MAX_ENQUEUED_CALLS_PER_TX - length nr) public_call_request_empty \<and>
        pub_public_call_requests (tp_revertible t) = map call_request_of rv @
          replicate (MAX_ENQUEUED_CALLS_PER_TX - length rv) public_call_request_empty) \<and>
     tp_teardown_call_request t = (case get_teardown_call_request r of
         Some req \<Rightarrow> call_request_of req | None \<Rightarrow> public_call_request_empty)"

text \<open>
  C2. What the simulated kernel emits. Whenever it returns, exactly one variant is set. A
  private-only transaction carries the protocol nullifier first, then every side effect that was
  not squashed, siloed, in counter order and padded. A transaction with public calls carries the
  same effects cut in two at the revertibility counter, in order and without loss: what is below
  the counter is non-revertible, the rest revertible, and the protocol nullifier leads the
  non-revertible nullifiers; the note hashes that cannot revert are made unique, the others not.
\<close>

theorem kernel_effects:
  assumes "process_kernel C r constants fee_payer expiry = Inr out"
  shows "(case (pi_for_public (public_inputs out), pi_for_rollup (public_inputs out)) of
       (Some t, None) \<Rightarrow> \<not> private_only r \<and> public_effects C r t
     | (None, Some t) \<Rightarrow> private_only r \<and> rollup_effects C r t
     | _ \<Rightarrow> False)"
proof (cases "private_only r")
  case True
  then show ?thesis
    using assms
    by (auto simp: process_kernel_eq process_simps bind_result_Inr_iff rollup_effects_def
        pad_private_logs_def push_until_eq)
next
  case False
  then obtain t where t: "pi_for_public (public_inputs out) = Some t"
      "pi_for_rollup (public_inputs out) = None"
    using assms by (auto simp: process_kernel_eq process_simps bind_result_Inr_iff)
  have "public_effects C r t"
    unfolding public_effects_def
    by (intro conjI exI; (rule cut_at_filter, rule sorted_kept)?)
      (use assms False t(1) in \<open>auto simp: process_kernel_eq process_simps bind_result_Inr_iff
        pad_private_logs_def pad_public_call_requests_def push_until_eq\<close>)
  with t False show ?thesis by simp
qed

subsection \<open>An execution within the limits\<close>

text \<open>
  An entrypoint that creates a note and nullifies it (counters 2 and 3), and calls a function that
  creates another note, nullifies an older one, emits a log and enqueues a public call.
\<close>

definition example_note :: "fr \<Rightarrow> u32 \<Rightarrow> scoped_note_hash" where
  "example_note v c =
     \<lparr>snh_note_hash = \<lparr>nh_value = v, nh_counter = c\<rparr>, snh_contract_address = AztecAddress 7\<rparr>"

definition example_nullifier :: "fr \<Rightarrow> u32 \<Rightarrow> scoped_nullifier" where
  "example_nullifier v c =
     \<lparr>snf_nullifier = \<lparr>nf_value = v, nf_note_hash = 0, nf_counter = c\<rparr>,
      snf_contract_address = AztecAddress 7\<rparr>"

definition example_nested :: "unit private_call_execution_result" where
  "example_nested =
     PrivateCall ((call_data (private_call_default ()))
       \<lparr>call_note_hashes := [example_note 21 5], call_nullifiers := [example_nullifier 22 6],
        call_private_logs := [\<lparr>pld_fields = [9, 8], pld_emitted_length = 2,
          pld_note_hash_counter = 5, pld_counter = 7, pld_contract_address = AztecAddress 7\<rparr>],
        call_public_call_requests := [\<lparr>pcd_contract_address = AztecAddress 8,
          pcd_msg_sender = AztecAddress 7, pcd_is_static_call = False, pcd_calldata_hash = 33,
          pcd_counter = 8\<rparr>]\<rparr>) []"

definition example_execution :: "unit private_execution_result" where
  "example_execution =
     \<lparr>er_entrypoint = PrivateCall ((call_data (private_call_default ()))
        \<lparr>call_note_hashes := [example_note 11 2], call_nullifiers := [example_nullifier 12 3],
         call_note_hash_nullifier_counter_map := [(2, 3)],
         call_min_revertible_side_effect_counter := 6\<rparr>) [example_nested],
      er_first_nullifier = 99, er_expiration_timestamp = 2000, er_public_function_calldata = []\<rparr>"

lemmas example_execution_defs =
  example_execution_def example_nested_def private_call_default_def example_note_def
  example_nullifier_def iter_all_calls_def collect_by_counter_def

lemma example_kept:
  "kept_note_hashes example_execution = [example_note 21 5]"
  "kept_nullifiers example_execution = [example_nullifier 22 6]"
  "map pld_counter (kept_private_logs example_execution) = [7]"
  "map (length \<circ> pld_fields) (kept_private_logs example_execution) = [2]"
  "all_contract_class_logs_sorted example_execution = []"
  "map pcd_counter (all_public_call_requests example_execution) = [8]"
  by (simp_all add: kept_note_hashes_def kept_nullifiers_def kept_private_logs_def
      all_note_hashes_def all_nullifiers_def all_private_logs_def all_contract_class_logs_sorted_def
      all_public_call_requests_def squashed_note_hash_def squashed_nullifier_def
      all_note_hash_nullifier_counter_maps_def map_extend_def example_execution_defs)

lemma example_within_limits: "within_limits example_execution"
proof -
  have "length (kept_private_logs example_execution) = 1"
    "length (all_public_call_requests example_execution) = 1"
    using arg_cong[OF example_kept(3), of length] arg_cong[OF example_kept(6), of length] by simp_all
  moreover have "list_all (\<lambda>l. length (pld_fields l) \<le> PRIVATE_LOG_SIZE_IN_FIELDS)
      (kept_private_logs example_execution)"
    using example_kept(4) by (auto simp: tx_limits)
  ultimately show ?thesis
    by (simp add: within_limits_def example_kept tx_limits)
qed

lemma example_coinbase:
  "eth_ok (gv_coinbase (bh_global_variables (tcd_anchor_block_header example_constants)))"
  by (simp add: example_constants_def eth_ok_def eth_address_default_def)

theorem kernel_output_well_formed_witness:
  "within_limits example_execution \<and>
   (\<exists>out. process_kernel example_crypto example_execution example_constants 4 2000 = Inr out \<and>
      shape_ok (public_inputs out) \<and> is_for_public (public_inputs out))"
proof -
  have "\<not> private_only example_execution"
    using example_kept(6) by (auto simp: private_only_def)
  then show ?thesis
    using example_within_limits
      kernel_output_well_formed[OF example_within_limits example_coinbase, of example_crypto 4 2000]
    by auto
qed

theorem kernel_effects_witness:
  "\<exists>out t. process_kernel example_crypto example_execution example_constants 4 2000 = Inr out \<and>
     pi_for_public (public_inputs out) = Some t \<and> public_effects example_crypto example_execution t"
proof -
  from kernel_succeeds[OF example_within_limits example_coinbase, of example_crypto 4 2000]
  obtain out where out: "process_kernel example_crypto example_execution example_constants 4 2000 = Inr out"
    by auto
  have "\<not> private_only example_execution"
    using example_kept(6) by (auto simp: private_only_def)
  then show ?thesis
    using kernel_effects[OF out] out by (auto split: option.splits)
qed

text \<open>
  The meters disagree on contract class logs: the private-only one charges for each, the public
  one for none.
\<close>

lemma public_gas_ignores_class_logs:
  "meter_gas_public (d\<lparr>pub_contract_class_logs_hashes := hs\<rparr>) (e\<lparr>pub_contract_class_logs_hashes := hs'\<rparr>) =
     meter_gas_public d e"
  by (simp add: meter_gas_public_def)

text \<open>Padding a contract class log is undone by \<open>emitted_fields\<close>, for a log without trailing zeros.\<close>

lemma emitted_fields_snoc_0: "emitted_fields (l @ [0]) = emitted_fields l"
proof -
  have "find (\<lambda>i. (l @ [0]) ! i \<noteq> 0) (rev [0..<length l]) = find (\<lambda>i. l ! i \<noteq> 0) (rev [0..<length l])"
    by (rule find_cong) (auto simp: nth_append)
  moreover have "i < length l" if "find (\<lambda>i. l ! i \<noteq> 0) (rev [0..<length l]) = Some i" for i
  proof -
    have "i \<in> set (rev [0..<length l])" using that by (metis find_Some_iff nth_mem)
    then show ?thesis by simp
  qed
  ultimately show ?thesis
    by (auto simp: emitted_fields_def split: option.splits)
qed

lemma emitted_fields_of_padded:
  assumes "fs = [] \<or> last fs \<noteq> 0"
  shows "emitted_fields (from_emitted_fields fs) = fs"
proof -
  have *: "emitted_fields (fs @ replicate k 0) = fs" for k
  proof (induction k)
    case 0
    then show ?case
      using assms by (cases fs rule: rev_cases) (auto simp: emitted_fields_def nth_append)
  next
    case (Suc k)
    then show ?case
      using emitted_fields_snoc_0[of "fs @ replicate k 0"]
      by (simp add: replicate_append_same[symmetric])
  qed
  show ?thesis
    using *[of 0] *[of "CONTRACT_CLASS_LOG_SIZE_IN_FIELDS - length fs"]
    by (simp add: from_emitted_fields_def resize_def)
qed

end
