(* ===== verification/Note_Selection.thy ===== *)
theory Note_Selection
  imports Note_Store
begin

text \<open>
  Selection of notes by the clauses of the \<open>get_notes\<close> oracle
  (\<open>crates/pxe/src/execution/pick_notes.rs\<close>): parsing the clauses, extracting a byte range of a
  packed field and comparing it. The slice of \<open>extract_property\<close> and the addition before it can
  panic; both outcomes are errors of the model.
\<close>

subsection \<open>Clauses\<close>

record select_clause =
  sc_index :: usize
  sc_offset :: usize
  sc_length :: usize
  sc_value :: fr
  sc_comparator :: u8

definition EQ :: u8 where "EQ = 1"
definition NEQ :: u8 where "NEQ = 2"
definition LT :: u8 where "LT = 3"
definition LTE :: u8 where "LTE = 4"
definition GT :: u8 where "GT = 5"
definition GTE :: u8 where "GTE = 6"

text \<open>\<open>slice::get\<close>.\<close>

definition list_get :: "'a list \<Rightarrow> nat \<Rightarrow> 'a option" where
  "list_get xs i = (if i < length xs then Some (xs ! i) else None)"

definition get_arg :: "fr list list \<Rightarrow> nat \<Rightarrow> fr list" where
  "get_arg args i = (case list_get args i of None \<Rightarrow> [] | Some v \<Rightarrow> v)"

definition get_usize :: "fr list \<Rightarrow> nat \<Rightarrow> usize" where
  "get_usize xs i = (case list_get xs i of None \<Rightarrow> 0 | Some f \<Rightarrow> fr_to_usize f)"

definition parse_select_clauses :: "fr list list \<Rightarrow> select_clause list" where
  "parse_select_clauses args =
     (let num_selects = (case Option.bind (list_get args 3) (\<lambda>v. list_get v 0) of
            None \<Rightarrow> 0 | Some f \<Rightarrow> fr_to_usize f)
      in if num_selects = 0 then []
         else
           let indexes = get_arg args 4;
               offsets = get_arg args 5;
               lengths = get_arg args 6;
               values = get_arg args 7;
               comparators = get_arg args 8
           in map (\<lambda>i. \<lparr>sc_index = get_usize indexes i, sc_offset = get_usize offsets i,
                sc_length = get_usize lengths i,
                sc_value = (case list_get values i of None \<Rightarrow> 0 | Some f \<Rightarrow> f),
                sc_comparator = ucast (get_usize comparators i)\<rparr>) [0..<unat num_selects])"

subsection \<open>Filtering\<close>

definition extract_property :: "fr list \<Rightarrow> select_clause \<Rightarrow> fr option result" where
  "extract_property note_data clause =
     (case list_get note_data (unat (sc_index clause)) of
        None \<Rightarrow> Inr None
      | Some field \<Rightarrow>
          if sc_offset clause = 0 \<and> (sc_length clause = 0 \<or> sc_length clause \<ge> 32) then
            Inr (Some field)
          else
            let bytes = fr_to_be_bytes field in
            bind_result (checked_add (sc_offset clause) (sc_length clause)) (\<lambda>sum.
              let end_index = min (unat sum) 32; start = unat (sc_offset clause) in
              if start > end_index then Inl (Panic ''slice index starts past its end'')
              else
                let slice = take (end_index - start) (drop start bytes);
                    buf = replicate (32 - length slice) 0 @ slice
                in Inr (Some (fr_from_bytes buf))))"

definition compare :: "fr \<Rightarrow> fr \<Rightarrow> u8 \<Rightarrow> bool" where
  "compare note_val select_val comparator =
     (if comparator = EQ then note_val = select_val
      else if comparator = NEQ then note_val \<noteq> select_val
      else if comparator = LT then note_val < select_val
      else if comparator = LTE then note_val \<le> select_val
      else if comparator = GT then note_val > select_val
      else if comparator = GTE then note_val \<ge> select_val
      else True)"

text \<open>\<open>clauses.iter().all(...)\<close> stops at the first clause that does not hold.\<close>

fun all_clauses :: "fr list \<Rightarrow> select_clause list \<Rightarrow> bool result" where
  "all_clauses note_data [] = Inr True"
| "all_clauses note_data (clause # clauses) =
     bind_result (extract_property note_data clause) (\<lambda>val.
       if (case val of None \<Rightarrow> False | Some v \<Rightarrow> compare v (sc_value clause) (sc_comparator clause))
       then all_clauses note_data clauses else Inr False)"

fun filter_result :: "('a \<Rightarrow> bool result) \<Rightarrow> 'a list \<Rightarrow> 'a list result" where
  "filter_result p [] = Inr []"
| "filter_result p (x # xs) =
     bind_result (p x) (\<lambda>b. bind_result (filter_result p xs) (\<lambda>ys. Inr (if b then x # ys else ys)))"

definition select_notes :: "stored_note list \<Rightarrow> select_clause list \<Rightarrow> stored_note list result" where
  "select_notes stored clauses =
     (if clauses = [] then Inr stored
      else filter_result (\<lambda>n. all_clauses (sn_note_data n) clauses) stored)"

subsection \<open>What a clause means\<close>

text \<open>The number that bytes \<open>offset\<close> to \<open>offset + length\<close> of a field encode.\<close>

definition selected_value :: "fr \<Rightarrow> select_clause \<Rightarrow> nat" where
  "selected_value f clause =
     (let off = unat (sc_offset clause); len = unat (sc_length clause) in
      if off = 0 \<and> len = 0 then into_bigint f
      else
        let end_index = min (off + len) 32 in
        into_bigint f div 256 ^ (32 - end_index) mod 256 ^ (end_index - off))"

text \<open>A clause that does not make the code panic.\<close>

definition clause_ok :: "select_clause \<Rightarrow> bool" where
  "clause_ok clause \<longleftrightarrow> sc_offset clause \<le> 32 \<and> unat (sc_offset clause) + unat (sc_length clause) < 2 ^ 64"

definition clause_holds :: "stored_note \<Rightarrow> select_clause \<Rightarrow> bool" where
  "clause_holds note clause \<longleftrightarrow>
     unat (sc_index clause) < length (sn_note_data note) \<and>
     compare (fr_of_nat (selected_value (sn_note_data note ! unat (sc_index clause)) clause))
       (sc_value clause) (sc_comparator clause)"

lemma slice_be_bytes:
  assumes "s \<le> e" and "e \<le> 32"
  shows "of_be_bytes (take (e - s) (drop s (be_bytes 32 n))) = n div 256 ^ (32 - e) mod 256 ^ (e - s)"
proof -
  have "be_bytes 32 n = be_bytes e (n div 256 ^ (32 - e)) @ be_bytes (32 - e) n"
    using be_bytes_split[of e "32 - e" n] assms by simp
  moreover have "be_bytes e m = be_bytes s (m div 256 ^ (e - s)) @ be_bytes (e - s) m" for m
    using be_bytes_split[of s "e - s" m] assms by simp
  ultimately show ?thesis
    by (simp add: of_be_bytes_be_bytes)
qed

lemma extract_property_value:
  assumes "clause_ok clause" and "unat (sc_index clause) < length data"
  shows "extract_property data clause =
    Inr (Some (fr_of_nat (selected_value (data ! unat (sc_index clause)) clause)))"
proof -
  let ?f = "data ! unat (sc_index clause)"
  let ?o = "unat (sc_offset clause)" and ?l = "unat (sc_length clause)"
  have off: "?o \<le> 32" using assms(1) by (simp add: clause_ok_def word_le_nat_alt)
  have zero: "sc_offset clause = 0 \<longleftrightarrow> ?o = 0" "sc_length clause = 0 \<longleftrightarrow> ?l = 0"
    by (simp_all add: unsigned_eq_0_iff)
  have big: "32 \<le> sc_length clause \<longleftrightarrow> 32 \<le> ?l" by (simp add: word_le_nat_alt)
  have sum: "checked_add (sc_offset clause) (sc_length clause) = Inr (sc_offset clause + sc_length clause)"
    and usum: "unat (sc_offset clause + sc_length clause) = ?o + ?l"
    using assms(1) by (simp_all add: clause_ok_def checked_add_def unat_word_ariths)
  have bound: "into_bigint ?f < 256 ^ 32"
    using into_bigint_less[of ?f] by (simp add: fr_modulus_def)
  show ?thesis
  proof (cases "?o = 0 \<and> (?l = 0 \<or> 32 \<le> ?l)")
    case True
    then show ?thesis
      using assms(2) bound zero big
      by (auto simp: extract_property_def list_get_def selected_value_def Let_def)
  next
    case False
    let ?e = "min (?o + ?l) 32"
    have "of_be_bytes (take (?e - ?o) (drop ?o (fr_to_be_bytes ?f))) = selected_value ?f clause"
      using False off slice_be_bytes[of ?o ?e "into_bigint ?f"]
      by (auto simp: selected_value_def Let_def fr_to_be_bytes_def)
    then show ?thesis
      using False assms(2) off zero big
      by (auto simp: extract_property_def list_get_def sum usum Let_def fr_from_bytes_def
          fr_from_be_bytes_mod_order_def)
  qed
qed

lemma all_clauses_holds:
  assumes "list_all clause_ok clauses"
  shows "all_clauses (sn_note_data note) clauses = Inr (list_all (clause_holds note) clauses)"
  using assms
proof (induction clauses)
  case (Cons clause clauses)
  show ?case
  proof (cases "unat (sc_index clause) < length (sn_note_data note)")
    case True
    with Cons show ?thesis by (simp add: extract_property_value clause_holds_def)
  next
    case False
    then have "extract_property (sn_note_data note) clause = Inr None"
      by (simp add: extract_property_def list_get_def)
    with False show ?thesis by (simp add: clause_holds_def)
  qed
qed simp

text \<open>
  \<open>select_notes\<close> keeps, in order, exactly the notes on which every clause holds: the clause's
  field exists and the number encoded by the selected bytes (the whole field when offset and length
  are zero) compares with the clause's value as the comparator says. Clauses whose range starts
  within the field never panic.
\<close>

lemma select_notes_correct:
  assumes "list_all clause_ok clauses"
  shows "select_notes xs clauses = Inr (filter (\<lambda>x. list_all (clause_holds x) clauses) xs)"
proof -
  have "filter_result (\<lambda>n. all_clauses (sn_note_data n) clauses) xs =
      Inr (filter (\<lambda>x. list_all (clause_holds x) clauses) xs)"
    by (induction xs) (simp_all add: all_clauses_holds[OF assms])
  then show ?thesis by (simp add: select_notes_def)
qed

text \<open>The low byte of \<open>258\<close> is \<open>2\<close>; the low byte of \<open>259\<close> is \<open>3\<close>.\<close>

definition low_byte_is_two :: select_clause where
  "low_byte_is_two =
     \<lparr>sc_index = 0, sc_offset = 31, sc_length = 1, sc_value = 2, sc_comparator = EQ\<rparr>"

end
