(* ===== verification/Sync_Services.thy ===== *)
theory Sync_Services
  imports Note_Store Event_Store Hashing
begin

text \<open>
  The services between the node and the stores: \<open>crates/pxe/src/sync/note_service.rs\<close> (marking
  spent notes and storing validated ones) and \<open>crates/pxe/src/sync/event_filter.rs\<close> (validating
  the block range of an event query).

  The node is a parameter: \<open>witness b n\<close> is its answer to a request for a membership witness of
  nullifier \<open>n\<close> in the tree of block \<open>b\<close>, of which the code only looks at whether there is one.
\<close>

subsection \<open>Note service\<close>

definition MAX_RPC_LEN :: nat where
  "MAX_RPC_LEN = 128"

definition active_filter :: "aztec_address \<Rightarrow> aztec_address list \<Rightarrow> note_filter" where
  "active_filter contract_address scopes =
     note_filter_default\<lparr>nf_contract_address := Some contract_address, nf_status := Active,
       nf_scopes := scopes\<rparr>"

text \<open>The loop over the batches; \<open>nullified_count\<close> is carried along.\<close>

fun nullify_chunks ::
    "('s, 'v) note_store \<Rightarrow> (u64 \<Rightarrow> fr \<Rightarrow> 'w option result) \<Rightarrow> u64 \<Rightarrow> stored_note list list \<Rightarrow> u64 \<Rightarrow>
     ('s, u64) op" where
  "nullify_chunks self witness anchor_block_number [] nullified_count = ret nullified_count"
| "nullify_chunks self witness anchor_block_number (chunk # rest) nullified_count =
     (let nullifiers = map sn_siloed_nullifier chunk in
      seq (lift_result (map_result (\<lambda>nullifier.
             bind_result (witness anchor_block_number nullifier) (\<lambda>w.
               Inr (map_option (\<lambda>_. 0 :: u64) w))) nullifiers)) (\<lambda>indexes.
      let to_nullify = map (\<lambda>(note, _). (sn_siloed_nullifier note, 0 :: u64))
            (filter (\<lambda>(_, maybe_index). maybe_index \<noteq> None) (zip chunk indexes)) in
      seq (if to_nullify \<noteq> [] then apply_nullifiers self to_nullify else ret ()) (\<lambda>_.
        nullify_chunks self witness anchor_block_number rest
          (nullified_count + of_nat (length to_nullify)))))"

definition sync_note_nullifiers ::
    "('s, 'v) note_store \<Rightarrow> (u64 \<Rightarrow> fr \<Rightarrow> 'w option result) \<Rightarrow> aztec_address \<Rightarrow> aztec_address list \<Rightarrow>
     u64 \<Rightarrow> ('s, u64) op" where
  "sync_note_nullifiers self witness contract_address scopes anchor_block_number =
     seq (get_notes self (active_filter contract_address scopes)) (\<lambda>found.
       if found = [] then ret 0
       else nullify_chunks self witness anchor_block_number (chunks MAX_RPC_LEN found) 0)"

definition validate_and_store_note ::
    "('s, 'v) note_store \<Rightarrow> (u64 \<Rightarrow> fr \<Rightarrow> 'w option result) \<Rightarrow> stored_note \<Rightarrow> aztec_address \<Rightarrow>
     ('s, unit) op" where
  "validate_and_store_note self witness note scope =
     seq (lift_result (witness 0 (sn_siloed_nullifier note))) (\<lambda>nullifier_witness.
       let stored = (if nullifier_witness \<noteq> None
            then note\<lparr>sn_nullified := True, sn_nullification_block_number := Some 0\<rparr> else note)
       in add_notes self [stored] scope)"

subsection \<open>Event filters\<close>

record 'l private_event_filter =
  pf_contract_address :: aztec_address
  pf_tx_hash :: "tx_hash option"
  pf_from_block :: "u64 option"
  pf_to_block :: "u64 option"
  pf_after_log :: "'l option"
  pf_scopes :: "aztec_address list"

definition validate_filter :: "u64 \<Rightarrow> 'l private_event_filter \<Rightarrow> private_event_query_filter result" where
  "validate_filter anchor_block_number filt =
     (if pf_scopes filt = [] then
        Inl (InvalidData ''at least one scope is required to get private events'')
      else
        let from_block = max (case pf_from_block filt of None \<Rightarrow> 1 | Some b \<Rightarrow> b) 1 in
        bind_result (checked_add anchor_block_number 1) (\<lambda>past_anchor.
        let to_block = (case pf_to_block filt of None \<Rightarrow> past_anchor | Some b \<Rightarrow> b) in
        if to_block > past_anchor then Inl (InvalidData ''to_block exceeds anchor block + 1'')
        else if from_block \<ge> to_block then Inl (InvalidData ''invalid block range'')
        else Inr \<lparr>qf_contract_address = pf_contract_address filt, qf_from_block = Some from_block,
               qf_to_block = Some (to_block - 1), qf_scopes = pf_scopes filt,
               qf_tx_hash = pf_tx_hash filt\<rparr>))"

definition to_query_filter_unchecked :: "'l private_event_filter \<Rightarrow> private_event_query_filter" where
  "to_query_filter_unchecked filt =
     \<lparr>qf_contract_address = pf_contract_address filt, qf_from_block = pf_from_block filt,
      qf_to_block = pf_to_block filt, qf_scopes = pf_scopes filt, qf_tx_hash = pf_tx_hash filt\<rparr>"

definition all_events_filter :: "aztec_address \<Rightarrow> private_event_query_filter" where
  "all_events_filter contract_address =
     \<lparr>qf_contract_address = contract_address, qf_from_block = None, qf_to_block = None,
      qf_scopes = [], qf_tx_hash = None\<rparr>"

subsection \<open>Marking notes spent\<close>

definition spent :: "stored_note \<Rightarrow> stored_note" where
  "spent x = x\<lparr>sn_nullified := True, sn_nullification_block_number := Some 0\<rparr>"

definition mark_spent :: "fr set \<Rightarrow> (fr \<Rightarrow> stored_note option) \<Rightarrow> fr \<Rightarrow> stored_note option" where
  "mark_spent N m n = map_option (\<lambda>x. if n \<in> N \<and> \<not> sn_nullified x then spent x else x) (m n)"

lemma mark_spent_empty [simp]: "mark_spent {} m = m"
  by (auto simp: mark_spent_def fun_eq_iff option.map_ident)

lemma mark_spent_union: "mark_spent N (mark_spent M m) = mark_spent (M \<union> N) m"
proof
  fix n
  show "mark_spent N (mark_spent M m) n = mark_spent (M \<union> N) m n"
    by (cases "m n") (auto simp: mark_spent_def spent_def)
qed

lemma nullified_note_0:
  "nullified_note (map (\<lambda>x. (sn_siloed_nullifier x, 0)) ys) m = mark_spent (sn_siloed_nullifier ` set ys) m"
proof
  fix n
  let ?es = "filter (\<lambda>e. fst e = n) (map (\<lambda>x. (sn_siloed_nullifier x, 0 :: u64)) ys)"
  have none: "?es = [] \<longleftrightarrow> n \<notin> sn_siloed_nullifier ` set ys" by (auto simp: filter_empty_conv)
  have "b = 0" if "?es = (k, b) # es" for k b es
  proof -
    have "(k, b) \<in> set ?es" unfolding that by simp
    then show ?thesis by auto
  qed
  then show "nullified_note (map (\<lambda>x. (sn_siloed_nullifier x, 0)) ys) m n =
      mark_spent (sn_siloed_nullifier ` set ys) m n"
    using none by (cases "m n"; cases ?es) (auto simp: nullified_note_def mark_spent_def spent_def)
qed

lemma to_nullify_eq:
  "map (\<lambda>(note, _). (sn_siloed_nullifier note, 0 :: u64))
     (filter (\<lambda>(_, i). i \<noteq> None) (zip chunk (map (\<lambda>x. map_option (\<lambda>_. 0 :: u64) (w x)) chunk))) =
   map (\<lambda>x. (sn_siloed_nullifier x, 0)) (filter (\<lambda>x. w x \<noteq> None) chunk)"
  by (induction chunk) auto

lemma concat_chunks: "0 < n \<Longrightarrow> concat (chunks n xs) = xs"
proof (induction n xs rule: chunks.induct)
  case (1 n xs)
  then show ?case by (subst chunks.simps) auto
qed

context kv_laws
begin

lemma wp_nullify_chunks:
  assumes self: "ns_kv self = K" and ok: "note_store_ok self"
    and inv: "invar s" and state: "note_state_ok self (lookup s)"
    and node: "\<And>n. witness b n = Inr (w n)"
    and Q: "\<And>s'. invar s' \<Longrightarrow> note_state_ok self (lookup s') \<Longrightarrow>
      load_note self (lookup s') = mark_spent (sn_siloed_nullifier `
        set (filter (\<lambda>x. w (sn_siloed_nullifier x) \<noteq> None) (concat cs))) (load_note self (lookup s)) \<Longrightarrow>
      Q (count + of_nat (length (filter (\<lambda>x. w (sn_siloed_nullifier x) \<noteq> None) (concat cs)))) s'"
  shows "wp (nullify_chunks self witness b cs count) Q s"
  using inv state Q
proof (induction cs arbitrary: s count)
  case Nil
  then show ?case by simp
next
  case (Cons chunk cs)
  let ?found = "\<lambda>xs. filter (\<lambda>x. w (sn_siloed_nullifier x) \<noteq> None) xs"
  let ?es = "map (\<lambda>x. (sn_siloed_nullifier x, 0 :: u64)) (?found chunk)"
  have answers: "map_result (\<lambda>n. bind_result (witness b n) (\<lambda>w. Inr (map_option (\<lambda>_. 0 :: u64) w)))
      (map sn_siloed_nullifier chunk) = Inr (map (\<lambda>x. map_option (\<lambda>_. 0) (w (sn_siloed_nullifier x))) chunk)"
    by (subst map_result_Inr[where g = "\<lambda>n. map_option (\<lambda>_. 0) (w n)"]) (auto simp: node)
  let ?next = "\<lambda>_ :: unit. wp (nullify_chunks self witness b cs (count + of_nat (length ?es))) Q"
  have rest: "?next () s1"
    if "invar s1" "note_state_ok self (lookup s1)"
      and load1: "load_note self (lookup s1) =
        mark_spent (sn_siloed_nullifier ` set (?found chunk)) (load_note self (lookup s))" for s1
  proof (rule Cons.IH[OF that(1,2)])
    fix s'
    assume s': "invar s'" "note_state_ok self (lookup s')"
      and load': "load_note self (lookup s') =
        mark_spent (sn_siloed_nullifier ` set (?found (concat cs))) (load_note self (lookup s1))"
    have "load_note self (lookup s') =
        mark_spent (sn_siloed_nullifier ` set (?found (concat (chunk # cs)))) (load_note self (lookup s))"
      unfolding load' load1 mark_spent_union by (rule arg_cong2[where f = mark_spent]) auto
    from Cons.prems(3)[OF s' this]
    show "Q (count + of_nat (length ?es) + of_nat (length (?found (concat cs)))) s'"
      by (simp add: ac_simps)
  qed
  have "wp (if ?es \<noteq> [] then apply_nullifiers self ?es else ret ()) ?next s"
  proof (cases "?es = []")
    case True
    then have "?found chunk = []" by simp
    then have "?next () s" using Cons.prems(1,2) by (intro rest) simp_all
    then show ?thesis using True by (simp only: wp_ret if_False simp_thms)
  next
    case False
    have "wp (apply_nullifiers self ?es) ?next s"
    proof (rule wp_apply_nullifiers[OF self ok Cons.prems(1,2)])
      show "nullifier_after_creation (load_note self (lookup s)) e" if "e \<in> set ?es" for e
        using that by (auto simp: nullifier_after_creation_def)
    qed (rule rest, assumption, assumption, simp only: nullified_note_0)
    then show ?thesis using False by (simp only: if_True simp_thms)
  qed
  then show ?case
    unfolding nullify_chunks.simps Let_def wp_seq answers wp_lift_result to_nullify_eq .
qed

end

subsection \<open>Properties\<close>

text \<open>The notes a pass for a contract and scopes looks at.\<close>

definition candidate :: "aztec_address \<Rightarrow> aztec_address list \<Rightarrow> stored_note \<Rightarrow> bool" where
  "candidate contract scopes x \<longleftrightarrow>
     sn_contract_address x = contract \<and> \<not> sn_nullified x \<and>
     (scopes = [] \<or> list_ex (\<lambda>s. s \<in> set scopes) (sn_scopes x))"

lemma candidate_iff:
  "note_matches (active_filter contract scopes) x \<and>
   (\<forall>c. nf_contract_address (active_filter contract scopes) = Some c \<longrightarrow> sn_contract_address x = c) \<longleftrightarrow>
   candidate contract scopes x"
  by (auto simp: candidate_def active_filter_def note_matches_def note_filter_default_def)

text \<open>
  Synchronizing nullifiers, for a node that answers every request: the pass succeeds and keeps
  the store well formed, however many batches it needs; an active note of the contract, visible in
  one of the scopes, whose nullifier the node knows becomes spent, every other note is unchanged,
  and the count returned is the number of notes marked (modulo \<open>2^64\<close>). The recorded block is
  always the placeholder zero, which no rollback reaches.
\<close>

lemma sync_note_nullifiers_correct:
  assumes "ns_kv self = in_memory_kv" and "note_store_ok self" and "btree_ok kv"
    and "note_state_ok self (map_of kv)" and "witness b = (\<lambda>n. Inr (w n))"
  shows "\<exists>kv' xs. sync_note_nullifiers self witness contract scopes b kv = (Inr (of_nat (length xs)), kv') \<and>
    btree_ok kv' \<and> note_state_ok self (map_of kv') \<and> distinct (map sn_siloed_nullifier xs) \<and>
    set xs = {x. (\<exists>n. load_note self (map_of kv) n = Some x) \<and> candidate contract scopes x \<and>
      w (sn_siloed_nullifier x) \<noteq> None} \<and>
    load_note self (map_of kv') =
      (\<lambda>n. map_option (\<lambda>x. if candidate contract scopes x \<and> w n \<noteq> None then spent x else x)
        (load_note self (map_of kv) n))"
proof -
  let ?load = "load_note self (map_of kv)"
  let ?kept = "\<lambda>xs. filter (\<lambda>x. w (sn_siloed_nullifier x) \<noteq> None) xs"
  let ?post = "\<lambda>r kv'. \<exists>xs. r = of_nat (length xs) \<and> btree_ok kv' \<and> note_state_ok self (map_of kv') \<and>
    distinct (map sn_siloed_nullifier xs) \<and>
    set xs = {x. (\<exists>n. ?load n = Some x) \<and> candidate contract scopes x \<and>
      w (sn_siloed_nullifier x) \<noteq> None} \<and>
    load_note self (map_of kv') = (\<lambda>n. map_option (\<lambda>x.
      if candidate contract scopes x \<and> w n \<noteq> None then spent x else x) (?load n))"
  have key: "sn_siloed_nullifier x = n" if "?load n = Some x" for n x
    using that assms(4) load_note_rep[OF assms(2)] by (fastforce simp: note_state_ok_def dest: note_invD(1))
  have "wp (sync_note_nullifiers self witness contract scopes b) ?post kv"
    unfolding sync_note_nullifiers_def wp_seq
  proof (rule mem.wp_get_notes[OF assms(1-4)])
    fix xs
    assume dist: "distinct (map sn_siloed_nullifier xs)"
      and set_xs: "set xs = {x. (\<exists>n. ?load n = Some x) \<and> note_matches (active_filter contract scopes) x \<and>
        (\<forall>c. nf_contract_address (active_filter contract scopes) = Some c \<longrightarrow> sn_contract_address x = c)}"
    have xs: "set xs = {x. (\<exists>n. ?load n = Some x) \<and> candidate contract scopes x}"
      unfolding set_xs candidate_iff ..
    have marked: "mark_spent (sn_siloed_nullifier ` set (?kept xs)) ?load = (\<lambda>n. map_option (\<lambda>x.
        if candidate contract scopes x \<and> w n \<noteq> None then spent x else x) (?load n))"
    proof
      fix n
      show "mark_spent (sn_siloed_nullifier ` set (?kept xs)) ?load n = map_option (\<lambda>x.
        if candidate contract scopes x \<and> w n \<noteq> None then spent x else x) (?load n)"
        using key by (cases "?load n") (auto simp: mark_spent_def xs candidate_def)
    qed
    have post: "?post (of_nat (length (?kept xs))) kv'"
      if "btree_ok kv'" "note_state_ok self (map_of kv')"
        "load_note self (map_of kv') = mark_spent (sn_siloed_nullifier ` set (?kept xs)) ?load" for kv'
      using that marked dist xs
      by (intro exI[of _ "?kept xs"]) (auto simp: distinct_map intro: inj_on_subset)
    show "wp (if xs = [] then ret 0
        else nullify_chunks self witness b (chunks MAX_RPC_LEN xs) 0) ?post kv"
    proof (cases "xs = []")
      case True
      then show ?thesis using post[OF assms(3,4)] by simp
    next
      case False
      have "wp (nullify_chunks self witness b (chunks MAX_RPC_LEN xs) 0) ?post kv"
        by (rule mem.wp_nullify_chunks[OF assms(1-4), where w = w])
          (use assms(5) post in \<open>auto simp: concat_chunks MAX_RPC_LEN_def\<close>)
      then show ?thesis using False by simp
    qed
  qed
  then show ?thesis unfolding wp_iff by blast
qed

text \<open>
  Event filters. Validation accepts a filter exactly when it names a scope and its range, from
  block one on and with an exclusive upper bound that defaults to the block after the anchor, is
  not empty and does not pass the anchor; the query it returns then selects exactly the events of
  that range that share a scope and the transaction hash, if one is given. In
  particular no event above the anchor is ever selected.
\<close>

lemma validate_filter_correct:
  assumes "unat anchor + 1 < 2 ^ 64"
  shows "let lo = max (case pf_from_block f of None \<Rightarrow> 1 | Some b \<Rightarrow> unat b) 1;
      hi = (case pf_to_block f of None \<Rightarrow> unat anchor + 1 | Some b \<Rightarrow> unat b)
    in ((\<exists>q. validate_filter anchor f = Inr q) \<longleftrightarrow> pf_scopes f \<noteq> [] \<and> lo < hi \<and> hi \<le> unat anchor + 1) \<and>
       (\<forall>q. validate_filter anchor f = Inr q \<longrightarrow>
          qf_contract_address q = pf_contract_address f \<and>
          (\<forall>e. event_matches q e \<longleftrightarrow>
             lo \<le> unat (ev_l2_block_number e) \<and> unat (ev_l2_block_number e) < hi \<and>
             list_ex (\<lambda>s. s \<in> set (pf_scopes f)) (ev_scopes e) \<and>
             (case pf_tx_hash f of None \<Rightarrow> True | Some h \<Rightarrow> ev_tx_hash e = h)))"
proof -
  have sum: "checked_add anchor 1 = Inr (anchor + 1)" "unat (anchor + 1) = unat anchor + 1"
    using assms by (simp_all add: checked_add_def unat_word_ariths)
  have umax: "unat (max a (1 :: u64)) = max (unat a) 1" for a
    by (simp add: max_def word_le_nat_alt)
  have pred: "unat (e :: u64) \<le> unat (t - 1) \<longleftrightarrow> unat e < unat t" if "0 < unat t" for e t :: u64
  proof -
    have "t \<noteq> 0" using that by auto
    then show ?thesis using that by (auto simp: unat_minus_one)
  qed
  show ?thesis
    using pred
    by (auto simp: validate_filter_def sum Let_def word_less_nat_alt word_le_nat_alt umax
        event_matches_def not_less not_le max_def[where ?'a = nat] split: option.splits if_splits)
qed

definition example_event_filter :: "unit private_event_filter" where
  "example_event_filter =
     \<lparr>pf_contract_address = AztecAddress 1, pf_tx_hash = None, pf_from_block = Some 0,
      pf_to_block = Some 6, pf_after_log = None, pf_scopes = [AztecAddress 4]\<rparr>"

end
