(* ===== verification/Block_Sync.thy ===== *)
theory Block_Sync
  imports Note_Store Event_Store
begin

text \<open>
  The block state synchronizer (\<open>crates/pxe/src/sync/block_state_synchronizer.rs\<close>) and the anchor
  block store (\<open>crates/pxe/src/stores/anchor_block_store.rs\<close>): following the node's chain tip,
  detecting reorganisations and rolling the note and event stores back together with the anchor.

  The three stores share one key-value store, as in the embedded PXE; the frame lemmas show that
  each leaves the keys of the others alone. The node is a remote service: it is a parameter, and
  because its answers may change between two calls of one pass, the view it answers from is indexed
  by the number of the call. \<open>serde_json::Value\<close> is a type parameter with the four accessors the
  code uses. Log messages are left out.
\<close>

subsection \<open>Anchor block headers\<close>

record 'j json_api =
  js_pointer :: "string \<Rightarrow> 'j \<Rightarrow> 'j option"
  js_get :: "string \<Rightarrow> 'j \<Rightarrow> 'j option"
  js_as_u64 :: "'j \<Rightarrow> u64 option"
  js_as_str :: "'j \<Rightarrow> string option"

record 'j anchor_block_header =
  ah_data :: 'j
  ah_block_number :: u64
  ah_block_hash :: string

definition or_else :: "'a option \<Rightarrow> 'a option \<Rightarrow> 'a option" where
  "or_else x y = (case x of None \<Rightarrow> y | Some v \<Rightarrow> Some v)"

definition json_u64 :: "'j json_api \<Rightarrow> 'j \<Rightarrow> u64 option" where
  "json_u64 api v =
     or_else (js_as_u64 api v)
       (Option.bind (js_as_str api v) (\<lambda>s.
          case strip_prefix ''0x'' s of
            Some hex \<Rightarrow> u64_from_str_radix 16 hex
          | None \<Rightarrow> u64_parse s))"

definition json_block_hash :: "'j json_api \<Rightarrow> 'j \<Rightarrow> string option" where
  "json_block_hash api data =
     Option.bind (or_else (js_pointer api ''/blockHash'' data) (js_get api ''blockHash'' data))
       (js_as_str api)"

definition from_header_json :: "'j json_api \<Rightarrow> 'j \<Rightarrow> 'j anchor_block_header" where
  "from_header_json api data =
     \<lparr>ah_data = data,
      ah_block_number =
        (case Option.bind (js_pointer api ''/globalVariables/blockNumber'' data) (json_u64 api) of
           None \<Rightarrow> 0 | Some n \<Rightarrow> n),
      ah_block_hash = (case json_block_hash api data of None \<Rightarrow> ''0x0'' | Some h \<Rightarrow> h)\<rparr>"

subsection \<open>The anchor block store\<close>

definition anchor_header_key :: string where
  "anchor_header_key = ''anchor:header''"

record ('s, 'v, 'j) anchor_block_store =
  an_kv :: "('s, 'v) kv_store"
  an_json :: "('j anchor_block_header, 'v) serde"

definition set_header ::
    "('s, 'v, 'j) anchor_block_store \<Rightarrow> 'j anchor_block_header \<Rightarrow> ('s, unit) op" where
  "set_header self header = kv_put (an_kv self) anchor_header_key (to_vec (an_json self) header)"

definition get_block_header ::
    "('s, 'v, 'j) anchor_block_store \<Rightarrow> ('s, 'j anchor_block_header option) op" where
  "get_block_header self =
     seq (kv_get (an_kv self) anchor_header_key) (\<lambda>found.
       case found of
         Some bytes \<Rightarrow> seq (lift_result (from_slice (an_json self) bytes)) (\<lambda>h. ret (Some h))
       | None \<Rightarrow> ret None)"

definition get_block_header_or_err ::
    "('s, 'v, 'j) anchor_block_store \<Rightarrow> ('s, 'j anchor_block_header) op" where
  "get_block_header_or_err self =
     seq (get_block_header self) (\<lambda>h.
       lift_result (ok_or (InvalidData ''anchor block header not set'') h))"

definition get_block_number :: "('s, 'v, 'j) anchor_block_store \<Rightarrow> ('s, u64) op" where
  "get_block_number self =
     seq (get_block_header self) (\<lambda>h.
       case h of Some header \<Rightarrow> ret (ah_block_number header) | None \<Rightarrow> ret 0)"

subsection \<open>The node and the synchronizer\<close>

record 'j node_view =
  nv_block_header :: "u64 \<Rightarrow> 'j result"
  nv_block_number :: "u64 result"
  nv_proven_block_number :: "u64 result"

datatype sync_chain_tip = Proposed | Proven

definition block_sync_config_default :: sync_chain_tip where
  "block_sync_config_default = Proposed"

record ('s, 'v, 'j) block_state_synchronizer =
  sy_api :: "'j json_api"
  sy_anchor :: "('s, 'v, 'j) anchor_block_store"
  sy_notes :: "('s, 'v) note_store"
  sy_events :: "('s, 'v) private_event_store"
  sy_chain_tip :: sync_chain_tip

text \<open>What the synchronizer changes: the shared store and its two flags.\<close>

record 's sync_state =
  ss_kv :: 's
  ss_syncing :: bool
  ss_anchor_changed :: bool

definition on_kv :: "('s, 'a) op \<Rightarrow> ('s sync_state, 'a) op" where
  "on_kv m st = (case m (ss_kv st) of (r, s) \<Rightarrow> (r, st\<lparr>ss_kv := s\<rparr>))"

definition set_anchor_changed :: "bool \<Rightarrow> ('s sync_state, unit) op" where
  "set_anchor_changed b st = (Inr (), st\<lparr>ss_anchor_changed := b\<rparr>)"

definition update_anchor_block_header ::
    "('s, 'v, 'j) block_state_synchronizer \<Rightarrow> 'j anchor_block_header \<Rightarrow> ('s sync_state, unit) op" where
  "update_anchor_block_header self header =
     seq (on_kv (set_header (sy_anchor self) header)) (\<lambda>_. set_anchor_changed True)"

definition handle_reorg ::
    "('s, 'v, 'j) block_state_synchronizer \<Rightarrow> 'j node_view \<Rightarrow> u64 \<Rightarrow> u64 \<Rightarrow> ('s sync_state, unit) op" where
  "handle_reorg self node new_block_number old_block_number =
     seq (lift_result (nv_block_header node new_block_number)) (\<lambda>new_header.
     let anchor = from_header_json (sy_api self) new_header in
     seq (on_kv (note_rollback (sy_notes self) new_block_number old_block_number)) (\<lambda>_.
     seq (on_kv (event_rollback (sy_events self) new_block_number old_block_number)) (\<lambda>_.
       update_anchor_block_header self anchor)))"

text \<open>The second branch of \<open>do_sync\<close>: same or higher block number.\<close>

definition check_hash_and_advance ::
    "('s, 'v, 'j) block_state_synchronizer \<Rightarrow> (nat \<Rightarrow> 'j node_view) \<Rightarrow> u64 \<Rightarrow>
     'j anchor_block_header option \<Rightarrow> u64 \<Rightarrow> ('s sync_state, unit) op" where
  "check_hash_and_advance self node latest_block_number current_anchor current_anchor_block_number =
     (let stored_hash = (case current_anchor of None \<Rightarrow> '''' | Some a \<Rightarrow> ah_block_hash a) in
      seq (if stored_hash \<noteq> '''' \<and> stored_hash \<noteq> ''0x0'' then
             seq (lift_result (nv_block_header (node 2) current_anchor_block_number)) (\<lambda>remote_header.
               let remote_hash = (case json_block_hash (sy_api self) remote_header of
                     None \<Rightarrow> '''' | Some h \<Rightarrow> h) in
               if remote_hash \<noteq> '''' \<and> remote_hash \<noteq> stored_hash then
                 let rollback_to = (if current_anchor_block_number = 0 then 0
                                    else current_anchor_block_number - 1) in
                 handle_reorg self (node 3) rollback_to current_anchor_block_number
               else ret ())
           else ret ()) (\<lambda>_.
      seq (on_kv (get_block_number (sy_anchor self))) (\<lambda>anchor_after.
        if latest_block_number > anchor_after then
          seq (lift_result (nv_block_header (node 4) latest_block_number)) (\<lambda>new_header.
            update_anchor_block_header self (from_header_json (sy_api self) new_header))
        else ret ())))"

definition do_sync ::
    "('s, 'v, 'j) block_state_synchronizer \<Rightarrow> (nat \<Rightarrow> 'j node_view) \<Rightarrow> ('s sync_state, unit) op" where
  "do_sync self node =
     seq (on_kv (get_block_header (sy_anchor self))) (\<lambda>current_anchor.
     seq (case current_anchor of
            None \<Rightarrow>
              seq (lift_result (nv_block_header (node 0) 0)) (\<lambda>genesis_header.
                update_anchor_block_header self (from_header_json (sy_api self) genesis_header))
          | Some _ \<Rightarrow> ret ()) (\<lambda>_.
     seq (lift_result (case sy_chain_tip self of
            Proven \<Rightarrow> nv_proven_block_number (node 1)
          | Proposed \<Rightarrow> nv_block_number (node 1))) (\<lambda>latest_block_number.
     seq (on_kv (get_block_header (sy_anchor self))) (\<lambda>current_anchor.
       let current_anchor_block_number =
             (case current_anchor of None \<Rightarrow> 0 | Some a \<Rightarrow> ah_block_number a) in
       if latest_block_number < current_anchor_block_number \<and> current_anchor_block_number > 0 then
         handle_reorg self (node 2) latest_block_number current_anchor_block_number
       else if latest_block_number \<ge> current_anchor_block_number \<and> current_anchor_block_number > 0 then
         check_hash_and_advance self node latest_block_number current_anchor
           current_anchor_block_number
       else ret ()))))"

text \<open>
  \<open>sync\<close>: a caller that finds a pass in progress waits for it and returns; otherwise the flag is
  set, the pass runs, and the flag is cleared whatever its outcome.
\<close>

definition sync ::
    "('s, 'v, 'j) block_state_synchronizer \<Rightarrow> (nat \<Rightarrow> 'j node_view) \<Rightarrow> ('s sync_state, unit) op" where
  "sync self node st =
     (if ss_syncing st then (Inr (), st)
      else case do_sync self node (st\<lparr>ss_syncing := True\<rparr>) of
             (result, st') \<Rightarrow> (result, st'\<lparr>ss_syncing := False\<rparr>))"

definition take_anchor_changed :: "('s sync_state, bool) op" where
  "take_anchor_changed st = (Inr (ss_anchor_changed st), st\<lparr>ss_anchor_changed := False\<rparr>)"

definition get_anchor_block_header ::
    "('s, 'v, 'j) block_state_synchronizer \<Rightarrow> ('s sync_state, 'j anchor_block_header option) op" where
  "get_anchor_block_header self = on_kv (get_block_header (sy_anchor self))"

definition get_anchor_block_number ::
    "('s, 'v, 'j) block_state_synchronizer \<Rightarrow> ('s sync_state, u64) op" where
  "get_anchor_block_number self = on_kv (get_block_number (sy_anchor self))"

subsection \<open>Frames\<close>

text \<open>A computation that changes the store at keys of \<open>P\<close> only, whether it succeeds or fails.\<close>

definition framed ::
    "('s \<Rightarrow> bool) \<Rightarrow> ('s \<Rightarrow> string \<Rightarrow> 'v option) \<Rightarrow> (string \<Rightarrow> bool) \<Rightarrow> ('s, 'a) op \<Rightarrow> bool" where
  "framed good look P m \<longleftrightarrow>
     (\<forall>s. good s \<longrightarrow> good (snd (m s)) \<and> (\<forall>k. \<not> P k \<longrightarrow> look (snd (m s)) k = look s k))"

lemma framed_ret: "framed good look P (ret x)"
  by (simp add: framed_def ret_def)

lemma framed_lift_result: "framed good look P (lift_result r)"
  by (simp add: framed_def lift_result_def)

lemma framed_seq:
  assumes "framed good look P m" and "\<And>x. framed good look P (f x)"
  shows "framed good look P (seq m f)"
  unfolding framed_def
proof (intro allI impI)
  fix s
  assume good: "good s"
  obtain r s1 where m: "m s = (r, s1)" by (cases "m s")
  from assms(1) good m have s1: "good s1" "\<forall>k. \<not> P k \<longrightarrow> look s1 k = look s k"
    unfolding framed_def by (metis snd_conv)+
  show "good (snd (seq m f s)) \<and> (\<forall>k. \<not> P k \<longrightarrow> look (snd (seq m f s)) k = look s k)"
  proof (cases r)
    case (Inl e)
    with m s1 show ?thesis by (simp add: seq_def)
  next
    case (Inr x)
    with m s1 assms(2)[of x] show ?thesis by (simp add: seq_def framed_def)
  qed
qed

lemma framed_for_each:
  "(\<And>x. framed good look P (f x)) \<Longrightarrow> framed good look P (for_each f xs)"
  by (induction xs) (simp_all add: framed_ret framed_seq)

lemma framed_cases:
  "framed good look P m \<Longrightarrow> (\<And>x. framed good look P (f x)) \<Longrightarrow>
     framed good look P (case v of None \<Rightarrow> m | Some x \<Rightarrow> f x)"
  "(\<And>e. framed good look P (g e)) \<Longrightarrow> (\<And>x. framed good look P (f' x)) \<Longrightarrow>
     framed good look P (case w of Inl e \<Rightarrow> g e | Inr x \<Rightarrow> f' x)"
  "framed good look P m \<Longrightarrow> framed good look P m' \<Longrightarrow> framed good look P (if c then m else m')"
  by (auto split: option.splits sum.splits)

lemmas framed_intros = framed_ret framed_lift_result framed_seq framed_for_each framed_cases

lemma wp_framed:
  assumes "framed good look P m" and "good s"
    and "wp m (\<lambda>x s'. (\<forall>k. \<not> P k \<longrightarrow> look s' k = look s k) \<longrightarrow> Q x s') s"
  shows "wp m Q s"
  using assms unfolding framed_def wp_def by (auto split: prod.splits sum.splits)

lemma framed_of_wp:
  assumes "\<And>s. good s \<Longrightarrow> wp m (\<lambda>_ s'. good s' \<and> (\<forall>k. \<not> P k \<longrightarrow> look s' k = look s k)) s"
  shows "framed good look P m"
  unfolding framed_def
proof (intro allI impI)
  fix s
  assume "good s"
  from assms[OF this] obtain x s' where "m s = (Inr x, s')"
    "good s'" "\<forall>k. \<not> P k \<longrightarrow> look s' k = look s k" unfolding wp_iff by blast
  then show "good (snd (m s)) \<and> (\<forall>k. \<not> P k \<longrightarrow> look (snd (m s)) k = look s k)" by simp
qed

lemma note_block_prefixes: "prefix ''note'' note_block_prefix" "prefix ''note'' nullify_block_prefix"
  by (simp_all add: note_block_prefix_def nullify_block_prefix_def)

lemma event_block_prefix_event: "prefix ''event'' event_block_prefix"
  by (simp add: event_block_prefix_def)

context kv_laws
begin

lemma framed_get: "framed invar lookup P (kv_get K k)"
  by (simp add: framed_def get_law)

lemma framed_put: "P k \<Longrightarrow> framed invar lookup P (kv_put K k v)"
  by (rule framed_of_wp, rule wp_put) auto

lemma framed_delete: "P k \<Longrightarrow> framed invar lookup P (kv_delete K k)"
  by (rule framed_of_wp, rule wp_delete) auto

lemma framed_list_prefix: "framed invar lookup P (kv_list_prefix K p)"
  by (rule framed_of_wp, rule wp_list_prefix) auto

lemma framed_remove_from_index:
  "P key \<Longrightarrow> framed invar lookup P (remove_from_index K S key item)"
  unfolding remove_from_index_def Let_def
  by (intro framed_intros framed_get framed_put framed_delete)

lemma framed_prune:
  assumes "\<And>k. prefix pre k \<Longrightarrow> P k" and "\<And>x. framed invar lookup P (act x)"
  shows "framed invar lookup P (prune_index_entry K S pre act b e)"
proof -
  obtain key v where e: "e = (key, v)" by (cases e)
  have "P key" if "strip_prefix pre key = Some t" for t
    using that assms(1) by (simp add: strip_prefix_def split: if_splits)
  then show ?thesis
    using assms(2) unfolding prune_index_entry_def e
    by (auto split: option.splits intro!: framed_intros framed_delete)
qed

lemma framed_note_rollback:
  assumes "ns_kv self = K"
  shows "framed invar lookup (prefix ''note'') (note_rollback self b sb)"
proof -
  have key: "prefix ''note'' (note_key_by_nullifier (ns_hex self) n)"
    "prefix ''note'' (note_contract_index_key (ns_hex self) c)" for n c
    by (simp_all add: note_key_defs)
  have "framed invar lookup (prefix ''note'') (rollback_unnullify self x)" for x
    unfolding rollback_unnullify_def Let_def assms
    by (intro framed_intros framed_get framed_put key)
  moreover have "framed invar lookup (prefix ''note'') (rollback_delete self x)" for x
    unfolding rollback_delete_def note_remove_from_contract_index_def Let_def assms
    by (intro framed_intros framed_get framed_delete framed_remove_from_index key)
  moreover have "prefix ''note'' k" if "prefix note_block_prefix k \<or> prefix nullify_block_prefix k" for k
    using that note_block_prefixes by (metis prefix_order.trans)
  ultimately show ?thesis
    unfolding note_rollback_def assms
    by (intro framed_seq framed_for_each framed_prune framed_list_prefix) blast+
qed

lemma framed_event_rollback:
  assumes "es_kv self = K"
  shows "framed invar lookup (prefix ''event'') (event_rollback self b sb)"
proof -
  have key: "prefix ''event'' (event_key (es_hex self) n)"
    "prefix ''event'' (contract_selector_index_key (es_hex self) c e)" for n c e
    by (simp_all add: event_key_defs)
  have "framed invar lookup (prefix ''event'') (event_rollback_delete self x)" for x
    unfolding event_rollback_delete_def remove_from_contract_selector_index_def Let_def assms
    by (intro framed_intros framed_get framed_delete framed_remove_from_index key)
  moreover have "prefix ''event'' k" if "prefix event_block_prefix k" for k
    using that event_block_prefix_event by (metis prefix_order.trans)
  ultimately show ?thesis
    unfolding event_rollback_def assms
    by (intro framed_seq framed_for_each framed_prune framed_list_prefix) blast+
qed

end

subsection \<open>Store states depend on their own keys\<close>

lemma block_index_cong:
  assumes "\<And>k. prefix pre k \<Longrightarrow> m k = m' k"
  shows "block_index S pre m idx \<longleftrightarrow> block_index S pre m' idx"
proof -
  have "m (pre @ u64_display bn) = m' (pre @ u64_display bn)" for bn by (rule assms) simp
  then show ?thesis using assms by (auto simp: block_index_def)
qed

lemma note_state_cong:
  assumes "\<And>k. prefix ''note'' k \<Longrightarrow> m k = m' k"
  shows "note_state_ok self m \<longleftrightarrow> note_state_ok self m'" and "load_note self m = load_note self m'"
proof -
  have keys: "m (note_key_by_nullifier H n) = m' (note_key_by_nullifier H n)"
    "m (note_contract_index_key H c) = m' (note_contract_index_key H c)" for H n c
    by (rule assms, simp add: note_key_defs)+
  have blocks: "block_index S note_block_prefix m idx \<longleftrightarrow> block_index S note_block_prefix m' idx"
    "block_index S nullify_block_prefix m idx \<longleftrightarrow> block_index S nullify_block_prefix m' idx" for S idx
    by (rule block_index_cong, rule assms, metis note_block_prefixes prefix_order.trans)+
  have note_keys: "m k = m' k" if "prefix ''note:'' k" for k
    by (rule assms) (use that in \<open>auto elim!: prefix_order.trans[rotated]\<close>)
  have "note_rep self m a \<longleftrightarrow> note_rep self m' a" for a
    unfolding note_rep_def keys blocks using note_keys by (metis (no_types))
  then show "note_state_ok self m \<longleftrightarrow> note_state_ok self m'" by (simp add: note_state_ok_def)
  show "load_note self m = load_note self m'" by (simp add: load_note_def keys fun_eq_iff)
qed

lemma event_state_cong:
  assumes "\<And>k. prefix ''event'' k \<Longrightarrow> m k = m' k"
  shows "event_state_ok self m \<longleftrightarrow> event_state_ok self m'" and "load_event self m = load_event self m'"
proof -
  have keys: "m (event_key H n) = m' (event_key H n)"
    "m (contract_selector_index_key H c e) = m' (contract_selector_index_key H c e)" for H n c e
    by (rule assms, simp add: event_key_defs)+
  have blocks: "block_index S event_block_prefix m idx \<longleftrightarrow> block_index S event_block_prefix m' idx"
    for S idx by (rule block_index_cong, rule assms, metis event_block_prefix_event prefix_order.trans)
  show "event_state_ok self m \<longleftrightarrow> event_state_ok self m'"
    by (simp add: event_state_ok_def event_rep_def keys blocks)
  show "load_event self m = load_event self m'" by (simp add: load_event_def keys fun_eq_iff)
qed

subsection \<open>States of the synchronizer\<close>

definition synchronizer_ok :: "('s, 'v) kv_store \<Rightarrow> ('s, 'v, 'j) block_state_synchronizer \<Rightarrow> bool" where
  "synchronizer_ok K self \<longleftrightarrow>
     an_kv (sy_anchor self) = K \<and> ns_kv (sy_notes self) = K \<and> es_kv (sy_events self) = K \<and>
     serde_ok (an_json (sy_anchor self)) \<and> note_store_ok (sy_notes self) \<and>
     event_store_ok (sy_events self)"

definition load_anchor ::
    "('s, 'v, 'j) block_state_synchronizer \<Rightarrow> (string \<Rightarrow> 'v option) \<Rightarrow> 'j anchor_block_header option" where
  "load_anchor self m =
     (case m anchor_header_key of
        None \<Rightarrow> None
      | Some bytes \<Rightarrow> result_ok (from_slice (an_json (sy_anchor self)) bytes))"

definition pxe_ok :: "('s, 'v, 'j) block_state_synchronizer \<Rightarrow> (string \<Rightarrow> 'v option) \<Rightarrow> bool" where
  "pxe_ok self m \<longleftrightarrow>
     note_state_ok (sy_notes self) m \<and> event_state_ok (sy_events self) m \<and>
     m anchor_header_key = map_option (to_vec (an_json (sy_anchor self))) (load_anchor self m)"

text \<open>No stored note or event is newer than block \<open>b\<close>.\<close>

definition synced_to :: "('s, 'v, 'j) block_state_synchronizer \<Rightarrow> (string \<Rightarrow> 'v option) \<Rightarrow> u64 \<Rightarrow> bool" where
  "synced_to self m b \<longleftrightarrow>
     (\<forall>n x. load_note (sy_notes self) m n = Some x \<longrightarrow>
        (\<forall>c. sn_block_number x = Some c \<or> sn_nullification_block_number x = Some c \<longrightarrow> c \<le> b)) \<and>
     (\<forall>n x. load_event (sy_events self) m n = Some x \<longrightarrow> ev_l2_block_number x \<le> b)"

text \<open>What a reorganisation to block \<open>b\<close> does to the stores.\<close>

definition rolled_back ::
    "('s, 'v, 'j) block_state_synchronizer \<Rightarrow> u64 \<Rightarrow> (string \<Rightarrow> 'v option) \<Rightarrow> (string \<Rightarrow> 'v option) \<Rightarrow> bool" where
  "rolled_back self b m m' \<longleftrightarrow>
     load_note (sy_notes self) m' =
       (\<lambda>n. Option.bind (load_note (sy_notes self) m n) (rollback_note b)) \<and>
     load_event (sy_events self) m' = (\<lambda>n. case load_event (sy_events self) m n of None \<Rightarrow> None
       | Some x \<Rightarrow> if b < ev_l2_block_number x then None else Some x)"

lemma rollback_note_bounded:
  assumes "rollback_note b y = Some x"
    and "sn_block_number x = Some c \<or> sn_nullification_block_number x = Some c"
  shows "c \<le> b"
  using assms by (auto simp: rollback_note_def unnullify_def not_less split: option.splits if_splits)

lemma rolled_back_synced:
  assumes "rolled_back self b m m'"
  shows "synced_to self m' b"
proof -
  have "c \<le> b" if "load_note (sy_notes self) m' n = Some x"
    and "sn_block_number x = Some c \<or> sn_nullification_block_number x = Some c" for n x c
  proof -
    from that(1) assms obtain y where "rollback_note b y = Some x"
      by (auto simp: rolled_back_def bind_eq_Some_conv)
    then show ?thesis using that(2) by (rule rollback_note_bounded)
  qed
  moreover have "ev_l2_block_number x \<le> b" if "load_event (sy_events self) m' n = Some x" for n x
    using that assms by (auto simp: rolled_back_def not_less split: option.splits if_splits)
  ultimately show ?thesis unfolding synced_to_def by blast
qed

lemma synced_to_mono: "synced_to self m b \<Longrightarrow> b \<le> c \<Longrightarrow> synced_to self m c"
  unfolding synced_to_def by (meson order_trans)

text \<open>The anchor key belongs to neither store, and setting it leaves both alone.\<close>

lemma anchor_key_apart:
  "\<not> prefix ''note'' anchor_header_key" "\<not> prefix ''event'' anchor_header_key"
  by (simp_all add: anchor_header_key_def)

lemma not_anchor_key:
  "prefix ''note'' k \<Longrightarrow> k \<noteq> anchor_header_key" "prefix ''event'' k \<Longrightarrow> k \<noteq> anchor_header_key"
  using anchor_key_apart by auto

lemma set_anchor_states:
  "note_state_ok self (m(anchor_header_key \<mapsto> v)) \<longleftrightarrow> note_state_ok self m"
  "load_note self (m(anchor_header_key \<mapsto> v)) = load_note self m"
  "event_state_ok self' (m(anchor_header_key \<mapsto> v)) \<longleftrightarrow> event_state_ok self' m"
  "load_event self' (m(anchor_header_key \<mapsto> v)) = load_event self' m"
  by (rule note_state_cong event_state_cong; simp add: not_anchor_key)+

lemma note_not_event: "prefix ''note'' k \<Longrightarrow> \<not> prefix ''event'' k"
  by (auto simp: prefix_def)

lemma wp_on_kv: "wp (on_kv m) Q st \<longleftrightarrow> wp m (\<lambda>x s. Q x (st\<lparr>ss_kv := s\<rparr>)) (ss_kv st)"
  by (auto simp: wp_def on_kv_def split: prod.splits sum.splits)

lemma wp_set_anchor_changed: "wp (set_anchor_changed b) Q st \<longleftrightarrow> Q () (st\<lparr>ss_anchor_changed := b\<rparr>)"
  by (simp add: wp_def set_anchor_changed_def)

context kv_laws
begin

lemma wp_get_block_header:
  assumes "synchronizer_ok K self" and "invar s" and "pxe_ok self (lookup s)"
  shows "wp (get_block_header (sy_anchor self)) Q s \<longleftrightarrow> Q (load_anchor self (lookup s)) s"
  using assms
  by (cases "load_anchor self (lookup s)")
    (simp_all add: get_block_header_def synchronizer_ok_def wp_get pxe_ok_def)

lemma wp_update_anchor:
  assumes self: "synchronizer_ok K self" and inv: "invar (ss_kv st)" and ok: "pxe_ok self (lookup (ss_kv st))"
    and Q: "\<And>st'. invar (ss_kv st') \<Longrightarrow> pxe_ok self (lookup (ss_kv st')) \<Longrightarrow>
      load_anchor self (lookup (ss_kv st')) = Some h \<Longrightarrow>
      load_note (sy_notes self) (lookup (ss_kv st')) = load_note (sy_notes self) (lookup (ss_kv st)) \<Longrightarrow>
      load_event (sy_events self) (lookup (ss_kv st')) = load_event (sy_events self) (lookup (ss_kv st)) \<Longrightarrow>
      ss_anchor_changed st' \<Longrightarrow> Q () st'"
  shows "wp (update_anchor_block_header self h) Q st"
proof -
  have kv: "an_kv (sy_anchor self) = K" and J: "serde_ok (an_json (sy_anchor self))"
    using self by (simp_all add: synchronizer_ok_def)
  show ?thesis
    unfolding update_anchor_block_header_def wp_seq wp_on_kv set_header_def kv wp_set_anchor_changed
  proof (rule wp_put[OF inv])
    fix s'
    assume inv': "invar s'" and look: "lookup s' =
      (lookup (ss_kv st))(anchor_header_key \<mapsto> to_vec (an_json (sy_anchor self)) h)"
    have anc: "load_anchor self (lookup s') = Some h"
      using J by (simp add: look load_anchor_def)
    show "Q () (st\<lparr>ss_kv := s', ss_anchor_changed := True\<rparr>)"
    proof (rule Q)
      show "pxe_ok self (lookup (ss_kv (st\<lparr>ss_kv := s', ss_anchor_changed := True\<rparr>)))"
        using ok anc by (simp add: pxe_ok_def look set_anchor_states)
    qed (simp_all add: inv' anc, simp_all add: look set_anchor_states)
  qed
qed

lemma wp_handle_reorg:
  assumes self: "synchronizer_ok K self" and inv: "invar (ss_kv st)" and ok: "pxe_ok self (lookup (ss_kv st))"
    and hdr: "nv_block_header node b = Inr j"
    and Q: "\<And>st'. invar (ss_kv st') \<Longrightarrow> pxe_ok self (lookup (ss_kv st')) \<Longrightarrow>
      load_anchor self (lookup (ss_kv st')) = Some (from_header_json (sy_api self) j) \<Longrightarrow>
      rolled_back self b (lookup (ss_kv st)) (lookup (ss_kv st')) \<Longrightarrow> Q () st'"
  shows "wp (handle_reorg self node b sb) Q st"
proof -
  let ?m = "lookup (ss_kv st)"
  have N: "ns_kv (sy_notes self) = K" "note_store_ok (sy_notes self)"
    and E: "es_kv (sy_events self) = K" "event_store_ok (sy_events self)"
    using self by (simp_all add: synchronizer_ok_def)
  have note0: "note_state_ok (sy_notes self) ?m" and event0: "event_state_ok (sy_events self) ?m"
    using ok by (simp_all add: pxe_ok_def)
  show ?thesis
    unfolding handle_reorg_def hdr wp_seq wp_lift_result Let_def wp_on_kv
  proof (rule wp_framed[OF framed_note_rollback[OF N(1)] inv], rule wp_note_rollback[OF N inv note0],
      rule impI)
    fix s1
    assume inv1: "invar s1" and note1: "note_state_ok (sy_notes self) (lookup s1)"
      and load1: "load_note (sy_notes self) (lookup s1) =
        (\<lambda>n. Option.bind (load_note (sy_notes self) ?m n) (rollback_note b))"
      and fr1: "\<forall>k. \<not> prefix ''note'' k \<longrightarrow> lookup s1 k = ?m k"
    have same1: "prefix ''event'' k \<Longrightarrow> lookup s1 k = ?m k" for k
      using fr1 note_not_event by blast
    note event1 = event_state_cong[of "lookup s1" ?m "sy_events self", OF same1]
    have ev1: "event_state_ok (sy_events self) (lookup s1)" using event0 event1 by simp
    have "wp (event_rollback (sy_events self) b sb)
       (\<lambda>x s. wp (update_anchor_block_header self (from_header_json (sy_api self) j)) Q
         (st\<lparr>ss_kv := s1, ss_kv := s\<rparr>)) s1"
    proof (rule wp_framed[OF framed_event_rollback[OF E(1)] inv1], rule wp_event_rollback[OF E inv1 ev1],
        rule impI)
      fix s2
      assume inv2: "invar s2" and event2: "event_state_ok (sy_events self) (lookup s2)"
        and load2: "load_event (sy_events self) (lookup s2) =
          (\<lambda>n. case load_event (sy_events self) (lookup s1) n of None \<Rightarrow> None
             | Some x \<Rightarrow> if b < ev_l2_block_number x then None else Some x)"
        and fr2: "\<forall>k. \<not> prefix ''event'' k \<longrightarrow> lookup s2 k = lookup s1 k"
      have same2: "prefix ''note'' k \<Longrightarrow> lookup s2 k = lookup s1 k" for k
        using fr2 note_not_event by blast
      have anchor2: "lookup s2 anchor_header_key = ?m anchor_header_key"
        using fr1 fr2 anchor_key_apart by simp
      have ok2: "pxe_ok self (lookup s2)"
        using ok note1 event2 note_state_cong(1)[of "lookup s2" "lookup s1" "sy_notes self", OF same2] anchor2
        by (simp add: pxe_ok_def load_anchor_def)
      have rb: "rolled_back self b ?m (lookup s2)"
        using note_state_cong(2)[of "lookup s2" "lookup s1" "sy_notes self", OF same2] event1(2) load1 load2 by (simp add: rolled_back_def)
      show "wp (update_anchor_block_header self (from_header_json (sy_api self) j)) Q
          (st\<lparr>ss_kv := s1, ss_kv := s2\<rparr>)"
        by (rule wp_update_anchor[OF self]) (use inv2 ok2 rb in \<open>auto simp: rolled_back_def intro: Q\<close>)
    qed
    then show "wp (event_rollback (sy_events self) b sb)
       (\<lambda>x s. wp (update_anchor_block_header self (from_header_json (sy_api self) j)) Q
         (st\<lparr>ss_kv := s1, ss_kv := s\<rparr>)) (ss_kv (st\<lparr>ss_kv := s1\<rparr>))" by simp
  qed
qed

text \<open>The node answers every call, as documented: block zero stands for the latest block.\<close>

end

definition node_answers ::
    "('s, 'v, 'j) block_state_synchronizer \<Rightarrow> (nat \<Rightarrow> 'j node_view) \<Rightarrow> u64 \<Rightarrow> bool" where
  "node_answers self node latest \<longleftrightarrow>
     (case sy_chain_tip self of Proven \<Rightarrow> nv_proven_block_number (node 1)
        | Proposed \<Rightarrow> nv_block_number (node 1)) = Inr latest \<and>
     (\<forall>i n. \<exists>j. nv_block_header (node i) n = Inr j \<and>
        ah_block_number (from_header_json (sy_api self) j) = (if n = 0 then latest else n))"

definition anchor_number :: "('s, 'v, 'j) block_state_synchronizer \<Rightarrow> (string \<Rightarrow> 'v option) \<Rightarrow> u64 \<Rightarrow> u64" where
  "anchor_number self m d =
     (case load_anchor self m of None \<Rightarrow> d | Some h \<Rightarrow> ah_block_number h)"

text \<open>
  A pass from \<open>m\<close> to \<open>m'\<close> that ends with the anchor at \<open>latest\<close>: either nothing was rolled back, or
  the stores were rolled back to the new tip, or to the block before the replaced anchor.
\<close>

definition followed ::
    "('s, 'v, 'j) block_state_synchronizer \<Rightarrow> u64 \<Rightarrow> (string \<Rightarrow> 'v option) \<Rightarrow> (string \<Rightarrow> 'v option) \<Rightarrow> bool" where
  "followed self latest m m' \<longleftrightarrow>
     (let c = anchor_number self m latest in
      if latest < c then rolled_back self latest m m'
      else rolled_back self (c - 1) m m' \<or>
        load_note (sy_notes self) m' = load_note (sy_notes self) m \<and>
        load_event (sy_events self) m' = load_event (sy_events self) m)"

lemma followed_cong:
  assumes "load_note (sy_notes self) m1 = load_note (sy_notes self) m"
    and "load_event (sy_events self) m1 = load_event (sy_events self) m"
    and "load_note (sy_notes self) m1' = load_note (sy_notes self) m'"
    and "load_event (sy_events self) m1' = load_event (sy_events self) m'"
    and "anchor_number self m1 latest = anchor_number self m latest"
  shows "followed self latest m1 m1' \<longleftrightarrow> followed self latest m m'"
  by (simp only: followed_def rolled_back_def Let_def assms)

lemma word_pred_le: "0 < c \<Longrightarrow> c - 1 \<le> (c :: u64)"
  by (simp add: word_le_nat_alt unat_minus_one less_le)

lemma followed_synced:
  assumes "followed self latest m m'" and "0 < anchor_number self m latest"
    and "synced_to self m (anchor_number self m latest)"
  shows "synced_to self m' latest"
proof (cases "latest < anchor_number self m latest")
  case True
  with assms(1) show ?thesis by (simp add: followed_def rolled_back_synced)
next
  case False
  then have c: "anchor_number self m latest \<le> latest" by simp
  have "anchor_number self m latest - 1 \<le> anchor_number self m latest"
    using assms(2) by (rule word_pred_le)
  from False assms(1) consider "rolled_back self (anchor_number self m latest - 1) m m'"
    | "load_note (sy_notes self) m' = load_note (sy_notes self) m"
      "load_event (sy_events self) m' = load_event (sy_events self) m"
    by (auto simp: followed_def Let_def)
  then show ?thesis
  proof cases
    case 1
    then have "synced_to self m' (anchor_number self m latest - 1)" by (rule rolled_back_synced)
    then show ?thesis
      using \<open>_ - 1 \<le> _\<close> c by (meson order_trans synced_to_mono)
  next
    case 2
    with assms(3) have "synced_to self m' (anchor_number self m latest)" by (simp add: synced_to_def)
    then show ?thesis using c by (rule synced_to_mono)
  qed
qed

context kv_laws
begin

lemma wp_check_hash_and_advance:
  assumes self: "synchronizer_ok K self" and inv: "invar (ss_kv st)" and ok: "pxe_ok self (lookup (ss_kv st))"
    and ans: "node_answers self node latest" and anc: "load_anchor self (lookup (ss_kv st)) = Some h"
    and c: "0 < ah_block_number h" "ah_block_number h \<le> latest"
    and Q: "\<And>st'. invar (ss_kv st') \<Longrightarrow> pxe_ok self (lookup (ss_kv st')) \<Longrightarrow>
      followed self latest (lookup (ss_kv st)) (lookup (ss_kv st')) \<Longrightarrow>
      anchor_number self (lookup (ss_kv st')) 0 = latest \<Longrightarrow> Q () st'"
  shows "wp (check_hash_and_advance self node latest (Some h) (ah_block_number h)) Q st"
proof -
  let ?c = "ah_block_number h" and ?m = "lookup (ss_kv st)"
  have num: "anchor_number self ?m latest = ?c" by (simp add: anchor_number_def anc)
  have hdr: "\<exists>j. nv_block_header (node i) n = Inr j \<and>
      ah_block_number (from_header_json (sy_api self) j) = (if n = 0 then latest else n)" for i n
    using ans by (simp add: node_answers_def)
  define P where "P st1 \<longleftrightarrow> invar (ss_kv st1) \<and> pxe_ok self (lookup (ss_kv st1)) \<and>
    followed self latest ?m (lookup (ss_kv st1)) \<and> anchor_number self (lookup (ss_kv st1)) 0 \<le> latest"
    for st1 :: "'s sync_state"
  have advance: "wp (seq (on_kv (get_block_number (sy_anchor self))) (\<lambda>anchor_after.
        if latest > anchor_after then
          seq (lift_result (nv_block_header (node 4) latest)) (\<lambda>new_header.
            update_anchor_block_header self (from_header_json (sy_api self) new_header))
        else ret ())) Q st1" if P: "P st1" for st1
  proof -
    have inv1: "invar (ss_kv st1)" and ok1: "pxe_ok self (lookup (ss_kv st1))"
      using P by (simp_all add: P_def)
    obtain j where j: "nv_block_header (node 4) latest = Inr j"
      "ah_block_number (from_header_json (sy_api self) j) = latest"
      using hdr[of 4 latest] by auto
    have "wp (update_anchor_block_header self (from_header_json (sy_api self) j)) Q st1"
    proof (rule wp_update_anchor[OF self inv1 ok1], rule Q)
      fix st'
      assume "load_note (sy_notes self) (lookup (ss_kv st')) = load_note (sy_notes self) (lookup (ss_kv st1))"
        "load_event (sy_events self) (lookup (ss_kv st')) = load_event (sy_events self) (lookup (ss_kv st1))"
      with P show "followed self latest ?m (lookup (ss_kv st'))"
        using followed_cong[of self ?m ?m "lookup (ss_kv st')" "lookup (ss_kv st1)" latest]
        by (simp add: P_def)
    qed (simp_all add: anchor_number_def j)
    moreover have "Q () st1" if "\<not> anchor_number self (lookup (ss_kv st1)) 0 < latest"
      using P that by (intro Q) (simp_all add: P_def)
    ultimately show ?thesis
      by (simp add: wp_on_kv get_block_number_def wp_get_block_header[OF self inv1 ok1] anchor_number_def j
          split: option.splits)
  qed
  have keep: "P st"
    using inv ok anc c by (auto simp: P_def followed_def num anchor_number_def Let_def)
  have reorg: "wp (handle_reorg self (node 3) (?c - 1) ?c) (\<lambda>_. P) st"
  proof -
    obtain j where j: "nv_block_header (node 3) (?c - 1) = Inr j"
      "ah_block_number (from_header_json (sy_api self) j) = (if ?c - 1 = 0 then latest else ?c - 1)"
      using hdr[of 3 "?c - 1"] by auto
    have "?c - 1 \<le> ?c" using c(1) by (rule word_pred_le)
    then have "?c - 1 \<le> latest" using c(2) by (rule order_trans)
    then show ?thesis
      using c
      by (intro wp_handle_reorg[OF self inv ok j(1)])
        (auto simp: P_def followed_def anchor_number_def anc j(2) Let_def not_less)
  qed
  obtain r where r: "nv_block_header (node 2) ?c = Inr r" using hdr[of 2 ?c] by auto
  show ?thesis
    unfolding check_hash_and_advance_def Let_def
  proof (subst wp_seq, rule wp_mono)
    show "wp (if (case Some h of None \<Rightarrow> '''' | Some a \<Rightarrow> ah_block_hash a) \<noteq> '''' \<and>
          (case Some h of None \<Rightarrow> '''' | Some a \<Rightarrow> ah_block_hash a) \<noteq> ''0x0'' then
        seq (lift_result (nv_block_header (node 2) ?c)) (\<lambda>remote_header.
          if (case json_block_hash (sy_api self) remote_header of None \<Rightarrow> '''' | Some h \<Rightarrow> h) \<noteq> '''' \<and>
            (case json_block_hash (sy_api self) remote_header of None \<Rightarrow> '''' | Some h \<Rightarrow> h) \<noteq>
              (case Some h of None \<Rightarrow> '''' | Some a \<Rightarrow> ah_block_hash a)
          then handle_reorg self (node 3) (if ?c = 0 then 0 else ?c - 1) ?c else ret ())
      else ret ()) (\<lambda>_. P) st"
      using reorg keep c(1) by (auto simp: r)
  qed (rule advance)
qed

text \<open>The pass after the anchor is known to be set.\<close>

lemma wp_sync_from_anchor:
  assumes self: "synchronizer_ok K self" and inv: "invar (ss_kv st)" and ok: "pxe_ok self (lookup (ss_kv st))"
    and ans: "node_answers self node latest" and anc: "load_anchor self (lookup (ss_kv st)) = Some h"
    and c: "0 < ah_block_number h" and tip: "0 < latest"
    and Q: "\<And>st'. invar (ss_kv st') \<Longrightarrow> pxe_ok self (lookup (ss_kv st')) \<Longrightarrow>
      followed self latest (lookup (ss_kv st)) (lookup (ss_kv st')) \<Longrightarrow>
      anchor_number self (lookup (ss_kv st')) 0 = latest \<Longrightarrow> Q () st'"
  shows "wp (if latest < ah_block_number h \<and> ah_block_number h > 0 then
         handle_reorg self (node 2) latest (ah_block_number h)
       else if latest \<ge> ah_block_number h \<and> ah_block_number h > 0 then
         check_hash_and_advance self node latest (Some h) (ah_block_number h)
       else ret ()) Q st"
proof (cases "latest < ah_block_number h")
  case True
  obtain j where j: "nv_block_header (node 2) latest = Inr j"
    "ah_block_number (from_header_json (sy_api self) j) = latest"
    using ans unfolding node_answers_def by (metis (full_types))
  have "wp (handle_reorg self (node 2) latest (ah_block_number h)) Q st"
    using True
    by (intro wp_handle_reorg[OF self inv ok j(1)] Q)
      (auto simp: followed_def anchor_number_def anc j(2))
  then show ?thesis using True c by simp
next
  case False
  then have "wp (check_hash_and_advance self node latest (Some h) (ah_block_number h)) Q st"
    by (intro wp_check_hash_and_advance[OF self inv ok ans anc c]) (simp_all add: Q not_less)
  then show ?thesis using False c by (auto simp: not_less)
qed

lemma wp_do_sync:
  assumes self: "synchronizer_ok K self" and inv: "invar (ss_kv st)" and ok: "pxe_ok self (lookup (ss_kv st))"
    and ans: "node_answers self node latest" and tip: "0 < latest"
    and c: "0 < anchor_number self (lookup (ss_kv st)) latest"
    and Q: "\<And>st'. invar (ss_kv st') \<Longrightarrow> pxe_ok self (lookup (ss_kv st')) \<Longrightarrow>
      followed self latest (lookup (ss_kv st)) (lookup (ss_kv st')) \<Longrightarrow>
      anchor_number self (lookup (ss_kv st')) 0 = latest \<Longrightarrow> Q () st'"
  shows "wp (do_sync self node) Q st"
proof -
  let ?m = "lookup (ss_kv st)"
  let ?rest = "seq (lift_result (case sy_chain_tip self of
            Proven \<Rightarrow> nv_proven_block_number (node 1)
          | Proposed \<Rightarrow> nv_block_number (node 1))) (\<lambda>latest_block_number.
     seq (on_kv (get_block_header (sy_anchor self))) (\<lambda>current_anchor.
       let current_anchor_block_number =
             (case current_anchor of None \<Rightarrow> 0 | Some a \<Rightarrow> ah_block_number a) in
       if latest_block_number < current_anchor_block_number \<and> current_anchor_block_number > 0 then
         handle_reorg self (node 2) latest_block_number current_anchor_block_number
       else if latest_block_number \<ge> current_anchor_block_number \<and> current_anchor_block_number > 0 then
         check_hash_and_advance self node latest_block_number current_anchor
           current_anchor_block_number
       else ret ()))"
  have rest: "wp ?rest Q st1"
    if inv1: "invar (ss_kv st1)" and ok1: "pxe_ok self (lookup (ss_kv st1))"
      and anc: "load_anchor self (lookup (ss_kv st1)) = Some h" and h: "0 < ah_block_number h"
      and Q1: "\<And>st'. invar (ss_kv st') \<Longrightarrow> pxe_ok self (lookup (ss_kv st')) \<Longrightarrow>
        followed self latest (lookup (ss_kv st1)) (lookup (ss_kv st')) \<Longrightarrow>
        anchor_number self (lookup (ss_kv st')) 0 = latest \<Longrightarrow> Q () st'" for st1 h
  proof -
    have tip_is: "(case sy_chain_tip self of Proven \<Rightarrow> nv_proven_block_number (node 1)
        | Proposed \<Rightarrow> nv_block_number (node 1)) = Inr latest"
      using ans by (simp add: node_answers_def)
    have "wp (if latest < ah_block_number h \<and> ah_block_number h > 0 then
         handle_reorg self (node 2) latest (ah_block_number h)
       else if latest \<ge> ah_block_number h \<and> ah_block_number h > 0 then
         check_hash_and_advance self node latest (Some h) (ah_block_number h)
       else ret ()) Q st1"
      by (rule wp_sync_from_anchor[OF self inv1 ok1 ans anc h tip]) (rule Q1)
    then show ?thesis
      by (simp add: tip_is wp_on_kv wp_get_block_header[OF self inv1 ok1] anc Let_def cong: if_cong
          split del: if_split)
  qed
  show ?thesis
  proof (cases "load_anchor self ?m")
    case (Some h)
    then have "wp ?rest Q st" using c Q by (intro rest[OF inv ok]) (auto simp: anchor_number_def)
    then show ?thesis
      by (simp add: do_sync_def wp_on_kv wp_get_block_header[OF self inv ok] Some)
  next
    case None
    obtain j where j: "nv_block_header (node 0) 0 = Inr j"
      "ah_block_number (from_header_json (sy_api self) j) = latest"
      using ans unfolding node_answers_def by (metis (full_types))
    have "wp (update_anchor_block_header self (from_header_json (sy_api self) j)) (\<lambda>_. wp ?rest Q) st"
    proof (rule wp_update_anchor[OF self inv ok])
      fix st1 :: "'s sync_state"
      assume st1: "invar (ss_kv st1)" "pxe_ok self (lookup (ss_kv st1))"
        "load_anchor self (lookup (ss_kv st1)) = Some (from_header_json (sy_api self) j)"
        "load_note (sy_notes self) (lookup (ss_kv st1)) = load_note (sy_notes self) ?m"
        "load_event (sy_events self) (lookup (ss_kv st1)) = load_event (sy_events self) ?m"
      then have "followed self latest (lookup (ss_kv st1)) m' = followed self latest ?m m'" for m'
        by (intro followed_cong) (simp_all add: anchor_number_def None j(2))
      with st1 show "wp ?rest Q st1"
        using tip by (intro rest[OF st1(1-3)] Q) (simp_all add: j(2))
    qed
    then show ?thesis
      by (simp add: do_sync_def wp_on_kv wp_get_block_header[OF self inv ok] None j(1))
  qed
qed

end

subsection \<open>A concrete synchronizer\<close>

text \<open>JSON values and a node that keeps one chain, to instantiate the parameters.\<close>

datatype example_json = JNumber u64 | JString string | JHeader u64 string

fun example_pointer :: "string \<Rightarrow> example_json \<Rightarrow> example_json option" where
  "example_pointer p (JHeader n h) =
     (if p = ''/globalVariables/blockNumber'' then Some (JNumber n)
      else if p = ''/blockHash'' then Some (JString h) else None)"
| "example_pointer p _ = None"

definition example_api :: "example_json json_api" where
  "example_api =
     \<lparr>js_pointer = example_pointer, js_get = (\<lambda>_ _. None),
      js_as_u64 = (\<lambda>j. case j of JNumber n \<Rightarrow> Some n | _ \<Rightarrow> None),
      js_as_str = (\<lambda>j. case j of JString s \<Rightarrow> Some s | _ \<Rightarrow> None)\<rparr>"

definition nest_json :: "('a, 'b) serde \<Rightarrow> ('a, 'c + 'b) serde" where
  "nest_json c =
     \<lparr>to_vec = (\<lambda>x. Inr (to_vec c x)),
      from_slice = case_sum (\<lambda>_. Inl (Json ''unexpected value'')) (from_slice c)\<rparr>"

lemma nest_json_ok [simp]: "serde_ok c \<Longrightarrow> serde_ok (nest_json c)"
  by (simp add: serde_ok_def nest_json_def)

type_synonym example_value =
  "stored_note + string list + stored_private_event + example_json anchor_block_header"

definition example_synchronizer ::
    "(example_value btree, example_value, example_json) block_state_synchronizer" where
  "example_synchronizer =
     \<lparr>sy_api = example_api,
      sy_anchor = \<lparr>an_kv = in_memory_kv, an_json = nest_json (nest_json right_json)\<rparr>,
      sy_notes = \<lparr>ns_kv = in_memory_kv, ns_hex = plain_hex, ns_note_json = left_json,
        ns_index_json = nest_json left_json\<rparr>,
      sy_events = \<lparr>es_kv = in_memory_kv, es_hex = plain_hex,
        es_event_json = nest_json (nest_json left_json), es_index_json = nest_json left_json\<rparr>,
      sy_chain_tip = Proposed\<rparr>"

definition example_header :: "u64 \<Rightarrow> example_json anchor_block_header" where
  "example_header n = from_header_json example_api (JHeader n ''0xaa'')"

definition example_state :: "u64 \<Rightarrow> example_value btree sync_state" where
  "example_state n =
     \<lparr>ss_kv = [(anchor_header_key, to_vec (an_json (sy_anchor example_synchronizer)) (example_header n))],
      ss_syncing = False, ss_anchor_changed = False\<rparr>"

definition example_node :: "u64 \<Rightarrow> nat \<Rightarrow> example_json node_view" where
  "example_node latest i =
     \<lparr>nv_block_header = (\<lambda>n. Inr (JHeader (if n = 0 then latest else n) ''0xbb'')),
      nv_block_number = Inr latest, nv_proven_block_number = Inr latest\<rparr>"

lemma example_synchronizer_ok: "synchronizer_ok in_memory_kv example_synchronizer"
  by (simp add: synchronizer_ok_def example_synchronizer_def note_store_ok_def event_store_ok_def)

lemma example_map: "map_of (ss_kv (example_state n)) =
    Map.empty(anchor_header_key \<mapsto> to_vec (an_json (sy_anchor example_synchronizer)) (example_header n))"
  by (simp add: example_state_def)

lemma example_anchor:
  "load_anchor example_synchronizer (map_of (ss_kv (example_state n))) = Some (example_header n)"
  using example_synchronizer_ok by (simp add: example_map load_anchor_def synchronizer_ok_def)

lemma example_pxe_ok: "pxe_ok example_synchronizer (map_of (ss_kv (example_state n)))"
  unfolding pxe_ok_def example_anchor unfolding example_map set_anchor_states
  by (simp add: note_state_ok_empty event_state_ok_empty)

lemma example_synced: "synced_to example_synchronizer (map_of (ss_kv (example_state n))) b"
  unfolding synced_to_def example_map set_anchor_states by (simp add: load_note_def load_event_def)

lemma example_answers: "node_answers example_synchronizer (example_node latest) latest"
  by (simp add: node_answers_def example_synchronizer_def example_node_def from_header_json_def
      example_api_def json_u64_def or_else_def)

lemma example_number: "ah_block_number (example_header n) = n"
  by (simp add: example_header_def from_header_json_def example_api_def json_u64_def or_else_def)

lemma example_flags: "\<not> ss_syncing (example_state n)" "btree_ok (ss_kv (example_state n))"
  by (simp_all add: example_state_def btree_ok_def)

subsection \<open>Properties\<close>



text \<open>
  C37. A stored anchor at block zero stops synchronization for good: whatever the node answers, the
  pass succeeds and changes nothing, because the advancing branch also requires the anchor's block
  number to be positive.
\<close>

theorem sync_stuck_at_zero:
  assumes "synchronizer_ok in_memory_kv self" and "btree_ok (ss_kv st)"
    and "pxe_ok self (map_of (ss_kv st))" and "\<not> ss_syncing st"
    and "load_anchor self (map_of (ss_kv st)) = Some h" and "ah_block_number h = 0"
    and "(case sy_chain_tip self of Proven \<Rightarrow> nv_proven_block_number (node 1)
        | Proposed \<Rightarrow> nv_block_number (node 1)) = Inr latest"
  shows "sync self node st = (Inr (), st)"
proof -
  have "wp (do_sync self node) (\<lambda>_ st'. st' = st\<lparr>ss_syncing := True\<rparr>) (st\<lparr>ss_syncing := True\<rparr>)"
    using assms
    by (simp add: do_sync_def wp_on_kv mem.wp_get_block_header[OF assms(1)])
  then have "do_sync self node (st\<lparr>ss_syncing := True\<rparr>) = (Inr (), st\<lparr>ss_syncing := True\<rparr>)"
    unfolding wp_iff by auto
  then show ?thesis using assms(4) by (cases st) (simp add: sync_def)
qed

theorem sync_stuck_at_zero_witness:
  "sync example_synchronizer (example_node 7) (example_state 0) = (Inr (), example_state 0)"
proof -
  have "(case sy_chain_tip example_synchronizer of
      Proven \<Rightarrow> nv_proven_block_number (example_node 7 1)
    | Proposed \<Rightarrow> nv_block_number (example_node 7 1)) = Inr 7"
    by (simp add: example_synchronizer_def example_node_def)
  then show ?thesis
    by (rule sync_stuck_at_zero[OF example_synchronizer_ok example_flags(2) example_pxe_ok
          example_flags(1) example_anchor example_number, where node = "example_node 7"])
qed

end
