(* ===== verification/Sync_Concurrency.thy ===== *)
theory Sync_Concurrency
  imports Block_Sync
begin

text \<open>
  Concurrent callers of \<open>BlockStateSynchronizer::sync\<close>
  (\<open>crates/pxe/src/sync/block_state_synchronizer.rs\<close>). The sequential model of the pass is
  \<open>Block_Sync.do_sync\<close>; here the method is cut at the points where it can be suspended: the test and
  set of \<open>syncing\<close> under its write lock, the polling loop under the read lock, the pass, and the
  reset. A system is the shared state with one program counter per call; a schedule is the sequence
  of calls that get to run. A call may also be dropped, as the owner of a future may drop it at any
  suspension point.
\<close>

subsection \<open>Calls as state machines\<close>

datatype sync_pc =
    Calling
  | Waiting
  | Passing
  | Clearing "unit result"
  | Returned "unit result"
  | Dropped

record 's sync_system =
  sys_shared :: "'s sync_state"
  sys_calls :: "sync_pc list"

definition set_call :: "nat \<Rightarrow> sync_pc \<Rightarrow> 's sync_system \<Rightarrow> 's sync_system" where
  "set_call i pc S = S\<lparr>sys_calls := (sys_calls S)[i := pc]\<rparr>"

definition set_shared :: "'s sync_state \<Rightarrow> 's sync_system \<Rightarrow> 's sync_system" where
  "set_shared st S = S\<lparr>sys_shared := st\<rparr>"

definition sync_step ::
    "('s, 'v, 'j) block_state_synchronizer \<Rightarrow> (nat \<Rightarrow> nat \<Rightarrow> 'j node_view) \<Rightarrow> nat \<Rightarrow>
     's sync_system \<Rightarrow> 's sync_system" where
  "sync_step self node i S =
     (let st = sys_shared S in
      if i < length (sys_calls S) then
        (case sys_calls S ! i of
           Calling \<Rightarrow>
             if ss_syncing st then set_call i Waiting S
             else set_call i Passing (set_shared (st\<lparr>ss_syncing := True\<rparr>) S)
         | Waiting \<Rightarrow> if ss_syncing st then S else set_call i (Returned (Inr ())) S
         | Passing \<Rightarrow> (case do_sync self (node i) st of
                        (result, st') \<Rightarrow> set_call i (Clearing result) (set_shared st' S))
         | Clearing result \<Rightarrow>
             set_call i (Returned result) (set_shared (st\<lparr>ss_syncing := False\<rparr>) S)
         | Returned _ \<Rightarrow> S
         | Dropped \<Rightarrow> S)
      else S)"

text \<open>The transitions: a call runs up to its next suspension point, or is dropped before it returns.\<close>

inductive sync_trans ::
    "('s, 'v, 'j) block_state_synchronizer \<Rightarrow> (nat \<Rightarrow> nat \<Rightarrow> 'j node_view) \<Rightarrow>
     's sync_system \<Rightarrow> 's sync_system \<Rightarrow> bool"
  for self node where
  run: "sync_trans self node S (sync_step self node i S)"
| drop: "i < length (sys_calls S) \<Longrightarrow> (\<nexists>r. sys_calls S ! i = Returned r) \<Longrightarrow>
    sync_trans self node S (set_call i Dropped S)"

definition sync_start :: "nat \<Rightarrow> 's sync_state \<Rightarrow> 's sync_system" where
  "sync_start n st = \<lparr>sys_shared = st\<lparr>ss_syncing := False\<rparr>, sys_calls = replicate n Calling\<rparr>"

fun holds :: "sync_pc \<Rightarrow> bool" where
  "holds Passing = True"
| "holds (Clearing _) = True"
| "holds _ = False"

fun returned :: "sync_pc \<Rightarrow> bool" where
  "returned (Returned _) = True"
| "returned _ = False"

text \<open>Running a schedule without drops.\<close>

primrec run_schedule ::
    "('s, 'v, 'j) block_state_synchronizer \<Rightarrow> (nat \<Rightarrow> nat \<Rightarrow> 'j node_view) \<Rightarrow> (nat \<Rightarrow> nat) \<Rightarrow>
     's sync_system \<Rightarrow> nat \<Rightarrow> 's sync_system" where
  "run_schedule self node sched S 0 = S"
| "run_schedule self node sched S (Suc t) =
     sync_step self node (sched t) (run_schedule self node sched S t)"

definition fair :: "nat \<Rightarrow> (nat \<Rightarrow> nat) \<Rightarrow> bool" where
  "fair n sched \<longleftrightarrow> (\<forall>i<n. \<forall>t. \<exists>u\<ge>t. sched u = i)"

subsection \<open>The pass leaves the flag alone\<close>

definition keeps_flag :: "('s sync_state, 'a) op \<Rightarrow> bool" where
  "keeps_flag m \<longleftrightarrow> (\<forall>st. ss_syncing (snd (m st)) = ss_syncing st)"

named_theorems flag_intros \<open>computations that leave the syncing flag alone\<close>

lemma keeps_flag_ret [flag_intros]: "keeps_flag (ret x)"
  by (simp add: keeps_flag_def ret_def)

lemma keeps_flag_lift [flag_intros]: "keeps_flag (lift_result r)"
  by (simp add: keeps_flag_def lift_result_def)

lemma keeps_flag_seq [flag_intros]:
  "keeps_flag m \<Longrightarrow> (\<And>x. keeps_flag (f x)) \<Longrightarrow> keeps_flag (seq m f)"
proof -
  assume m: "keeps_flag m" and f: "\<And>x. keeps_flag (f x)"
  have "ss_syncing (snd (seq m f st)) = ss_syncing st" for st
  proof (cases "m st")
    case (Pair r st')
    moreover have "ss_syncing st' = ss_syncing st"
      using m Pair unfolding keeps_flag_def by (metis snd_conv)
    ultimately show ?thesis
      using f by (cases r) (simp_all add: seq_def keeps_flag_def)
  qed
  then show ?thesis by (simp add: keeps_flag_def)
qed

lemma keeps_flag_on_kv [flag_intros]: "keeps_flag (on_kv m)"
  by (simp add: keeps_flag_def on_kv_def split: prod.splits)

lemma keeps_flag_if [flag_intros]:
  "keeps_flag m \<Longrightarrow> keeps_flag n \<Longrightarrow> keeps_flag (if b then m else n)"
  by simp

lemma keeps_flag_option [flag_intros]:
  "keeps_flag m \<Longrightarrow> (\<And>x. keeps_flag (f x)) \<Longrightarrow> keeps_flag (case v of None \<Rightarrow> m | Some x \<Rightarrow> f x)"
  by (cases v) auto

lemma keeps_flag_set_anchor_changed [flag_intros]: "keeps_flag (set_anchor_changed b)"
  by (simp add: keeps_flag_def set_anchor_changed_def)

lemma keeps_flag_update [flag_intros]: "keeps_flag (update_anchor_block_header self h)"
  unfolding update_anchor_block_header_def by (intro flag_intros)

lemma keeps_flag_reorg [flag_intros]: "keeps_flag (handle_reorg self node new old)"
  unfolding handle_reorg_def Let_def by (intro flag_intros)

lemma keeps_flag_advance [flag_intros]: "keeps_flag (check_hash_and_advance self node l c n)"
  unfolding check_hash_and_advance_def Let_def by (intro flag_intros)

lemma keeps_flag_do_sync: "keeps_flag (do_sync self node)"
  unfolding do_sync_def Let_def by (intro flag_intros)

lemma do_sync_flag: "do_sync self node st = (r, st') \<Longrightarrow> ss_syncing st' = ss_syncing st"
  using keeps_flag_do_sync[of self node] unfolding keeps_flag_def by (metis snd_conv)

subsection \<open>Counting calls\<close>

lemma length_filter_update:
  "i < length xs \<Longrightarrow>
   length (filter P (xs[i := y])) + of_bool (P (xs ! i)) = length (filter P xs) + of_bool (P y)"
proof (induction xs arbitrary: i)
  case (Cons x xs)
  then show ?case by (cases i) auto
qed simp

lemma sum_list_update:
  fixes f :: "'a \<Rightarrow> nat"
  shows "i < length xs \<Longrightarrow> sum_list (map f (xs[i := y])) + f (xs ! i) = sum_list (map f xs) + f y"
proof (induction xs arbitrary: i)
  case (Cons x xs)
  then show ?case by (cases i) auto
qed simp

definition holders :: "'s sync_system \<Rightarrow> nat" where
  "holders S = length (filter holds (sys_calls S))"

lemma holders_set_call:
  assumes "i < length (sys_calls S)"
  shows "holders (set_call i pc S) = holders S + of_bool (holds pc) - of_bool (holds (sys_calls S ! i))"
  using length_filter_update[OF assms, of holds pc] by (simp add: holders_def set_call_def)

lemma set_simps [simp]:
  "sys_shared (set_call i pc S) = sys_shared S"
  "sys_calls (set_call i pc S) = (sys_calls S)[i := pc]"
  "sys_shared (set_shared st S) = st"
  "sys_calls (set_shared st S) = sys_calls S"
  "holders (set_shared st S) = holders S"
  by (simp_all add: set_call_def set_shared_def holders_def)

lemma holder_exists: "0 < holders S \<longleftrightarrow> (\<exists>i<length (sys_calls S). holds (sys_calls S ! i))"
  by (auto simp: holders_def in_set_conv_nth filter_empty_conv Ball_def)

text \<open>The lock protocol: the flag is set for every call between the test and the reset.\<close>

lemma sync_step_holders:
  assumes "holders S \<le> of_bool (ss_syncing (sys_shared S))"
  shows "holders (sync_step self node i S) \<le> of_bool (ss_syncing (sys_shared (sync_step self node i S)))"
    and "holders S = of_bool (ss_syncing (sys_shared S)) \<Longrightarrow>
      holders (sync_step self node i S) = of_bool (ss_syncing (sys_shared (sync_step self node i S)))"
proof -
  have le_one: "holders S \<le> Suc 0" using assms by (cases "ss_syncing (sys_shared S)") simp_all
  have one: "holds (sys_calls S ! i) \<Longrightarrow> i < length (sys_calls S) \<Longrightarrow> 0 < holders S"
    using holder_exists[of S] by blast
  show "holders (sync_step self node i S) \<le> of_bool (ss_syncing (sys_shared (sync_step self node i S)))"
    and "holders S = of_bool (ss_syncing (sys_shared S)) \<Longrightarrow>
      holders (sync_step self node i S) = of_bool (ss_syncing (sys_shared (sync_step self node i S)))"
    using assms do_sync_flag[of self "node i" "sys_shared S"] one le_one
    by (auto simp: sync_step_def Let_def holders_set_call split: sync_pc.split prod.split)
qed

subsection \<open>Progress\<close>

fun weight :: "sync_pc \<Rightarrow> nat" where
  "weight Calling = 3"
| "weight Passing = 2"
| "weight (Clearing _) = 1"
| "weight Waiting = 1"
| "weight _ = 0"

definition load :: "'s sync_system \<Rightarrow> nat" where
  "load S = sum_list (map weight (sys_calls S))"

lemma load_set_call:
  assumes "i < length (sys_calls S)"
  shows "load (set_call i pc S) + weight (sys_calls S ! i) = load S + weight pc"
  using sum_list_update[OF assms, of weight pc] by (simp add: load_def set_call_def)

lemma load_set_shared [simp]: "load (set_shared st S) = load S"
  by (simp add: load_def)

lemma load_decreases:
  assumes "i < length (sys_calls S)" and "weight pc < weight (sys_calls S ! i)"
  shows "load (set_call i pc (set_shared st S)) < load S" and "load (set_call i pc S) < load S"
  using load_set_call[of i "set_shared st S" pc] load_set_call[OF assms(1), of pc] assms by simp_all

text \<open>A step either changes nothing or brings some call closer to its end.\<close>

lemma sync_step_load: "sync_step self node i S = S \<or> load (sync_step self node i S) < load S"
  by (auto simp: sync_step_def Let_def split: sync_pc.split prod.split intro!: load_decreases)

lemma length_sync_step [simp]: "length (sys_calls (sync_step self node i S)) = length (sys_calls S)"
  by (auto simp: sync_step_def Let_def split: sync_pc.split prod.split)

definition live :: "'s sync_system \<Rightarrow> bool" where
  "live S \<longleftrightarrow> holders S = of_bool (ss_syncing (sys_shared S)) \<and> Dropped \<notin> set (sys_calls S)"

lemma sync_step_live: "live S \<Longrightarrow> live (sync_step self node i S)"
proof -
  assume live: "live S"
  have "Dropped \<notin> set (sys_calls (sync_step self node i S))"
    using live by (auto simp: live_def sync_step_def Let_def in_set_conv_nth nth_list_update
        split: sync_pc.split prod.split if_splits)
  with live show ?thesis using sync_step_holders(2)[of S self node i] by (simp add: live_def)
qed

lemma live_progress:
  assumes "live S" and "\<not> list_all returned (sys_calls S)"
  shows "\<exists>i<length (sys_calls S). load (sync_step self node i S) < load S"
proof (cases "ss_syncing (sys_shared S)")
  case True
  with assms(1) obtain i where i: "i < length (sys_calls S)" "holds (sys_calls S ! i)"
    using holder_exists[of S] by (auto simp: live_def)
  then have "load (sync_step self node i S) < load S"
    by (cases "sys_calls S ! i")
      (auto simp: sync_step_def Let_def split: prod.split intro!: load_decreases)
  with i show ?thesis by blast
next
  case False
  with assms(1) have none: "\<not> holds (sys_calls S ! i)" if "i < length (sys_calls S)" for i
    using holder_exists[of S] that by (auto simp: live_def)
  from assms(2) obtain i where i: "i < length (sys_calls S)" "\<not> returned (sys_calls S ! i)"
    by (auto simp: list_all_length)
  moreover have "sys_calls S ! i \<noteq> Dropped"
    using assms(1) i(1) by (auto simp: live_def in_set_conv_nth)
  ultimately have "load (sync_step self node i S) < load S"
    using none[of i] False
    by (cases "sys_calls S ! i") (auto simp: sync_step_def Let_def intro!: load_decreases)
  with i show ?thesis by blast
qed

lemma run_schedule_live: "live S \<Longrightarrow> live (run_schedule self node sched S t)"
  by (induction t) (auto intro: sync_step_live)

lemma length_run_schedule [simp]:
  "length (sys_calls (run_schedule self node sched S t)) = length (sys_calls S)"
  by (induction t) simp_all

lemma run_schedule_load:
  "t \<le> u \<Longrightarrow> run_schedule self node sched S u = run_schedule self node sched S t \<or>
     load (run_schedule self node sched S u) < load (run_schedule self node sched S t)"
proof (induction u rule: dec_induct)
  case (step u)
  then show ?case
    using sync_step_load[of self node "sched u" "run_schedule self node sched S u"] by auto
qed simp

lemma fair_run_returns:
  assumes "live S" and "fair (length (sys_calls S)) sched"
  shows "\<exists>u. list_all returned (sys_calls (run_schedule self node sched S u))"
proof -
  let ?R = "run_schedule self node sched S"
  have "\<exists>u. list_all returned (sys_calls (?R u))" for t :: nat
  proof (induction "load (?R t)" arbitrary: t rule: less_induct)
    case less
    show ?case
    proof (cases "list_all returned (sys_calls (?R t))")
      case False
      then obtain i where i: "i < length (sys_calls S)" "load (sync_step self node i (?R t)) < load (?R t)"
        using live_progress[OF run_schedule_live[OF assms(1)], of self node sched t self node] by auto
      from assms(2) i(1) obtain u where u: "t \<le> u" "sched u = i" by (auto simp: fair_def)
      from run_schedule_load[OF u(1)] consider "?R u = ?R t" | "load (?R u) < load (?R t)" by blast
      then show ?thesis
      proof cases
        case 1
        with i(2) u(2) have "load (?R (Suc u)) < load (?R t)" by simp
        then show ?thesis by (rule less)
      next
        case 2
        then show ?thesis by (rule less)
      qed
    qed blast
  qed
  then show ?thesis by blast
qed

lemma live_start: "live (sync_start n st)"
  by (simp add: live_def sync_start_def holders_def)

subsection \<open>Dropped calls\<close>

definition locked :: "'s sync_system \<Rightarrow> bool" where
  "locked S \<longleftrightarrow> holders S \<le> of_bool (ss_syncing (sys_shared S))"

lemma sync_trans_locked: "sync_trans self node S T \<Longrightarrow> locked S \<Longrightarrow> locked T"
proof (induction rule: sync_trans.induct)
  case (run S i)
  then show ?case unfolding locked_def by (rule sync_step_holders(1))
next
  case (drop i S)
  then show ?case unfolding locked_def by (simp add: holders_set_call)
qed

lemma reachable_locked:
  assumes "(sync_trans self node)\<^sup>*\<^sup>* (sync_start n st) S"
  shows "locked S"
  using assms
proof (induction rule: rtranclp_induct)
  case base
  then show ?case by (simp add: locked_def sync_start_def holders_def)
next
  case (step y z)
  then show ?case by (blast intro: sync_trans_locked)
qed

text \<open>Nobody is left to reset the flag.\<close>

definition blocked :: "'s sync_system \<Rightarrow> bool" where
  "blocked S \<longleftrightarrow> ss_syncing (sys_shared S) \<and> holders S = 0"

lemma no_holder: "holders S = 0 \<Longrightarrow> i < length (sys_calls S) \<Longrightarrow> \<not> holds (sys_calls S ! i)"
  using holder_exists[of S] by auto

lemma map_returned_update:
  "i < length xs \<Longrightarrow> returned pc = returned (xs ! i) \<Longrightarrow> map returned (xs[i := pc]) = map returned xs"
  by (simp add: list_eq_iff_nth_eq nth_list_update)

lemma sync_trans_blocked:
  assumes "sync_trans self node S T" and "blocked S"
  shows "blocked T \<and> map returned (sys_calls T) = map returned (sys_calls S)"
  using assms
proof (cases rule: sync_trans.cases)
  case (run i)
  show ?thesis
  proof (cases "i < length (sys_calls S)")
    case True
    with assms(2) no_holder[of S i] run show ?thesis
      by (cases "sys_calls S ! i")
        (auto simp: blocked_def sync_step_def holders_set_call map_returned_update)
  qed (use assms(2) run in \<open>simp add: sync_step_def\<close>)
next
  case (drop i)
  then have "\<not> returned (sys_calls S ! i)" by (cases "sys_calls S ! i") auto
  with drop assms(2) show ?thesis
    by (auto simp: blocked_def holders_set_call map_returned_update)
qed

subsection \<open>Properties\<close>



text \<open>
  C13. Termination of concurrent synchronizations. When no call is dropped and the scheduler runs every
  call again and again, all calls return, whatever the passes answer: a failed pass resets the flag
  too, so nobody polls forever.
\<close>

theorem sync_all_return:
  assumes "fair n sched"
  shows "\<exists>t. list_all returned (sys_calls (run_schedule self node sched (sync_start n st) t))"
  using assms by (intro fair_run_returns live_start) (simp add: sync_start_def)

theorem sync_all_return_witness:
  "\<exists>t. list_all returned (sys_calls (run_schedule example_synchronizer (\<lambda>_. example_node 7)
     (\<lambda>t. t mod 2) (sync_start 2 (example_state 5)) t))"
proof (rule sync_all_return)
  have "\<exists>u\<ge>t. u mod 2 = i" if "i < 2" for i t :: nat
    using that by (intro exI[of _ "2 * t + i"]) simp
  then show "fair 2 (\<lambda>t. t mod 2)" by (simp add: fair_def)
qed

text \<open>
  Dropping the future of the call that runs the pass blocks the synchronizer for good: from then
  on the flag stays set, no call runs a pass, and no call that had not returned ever does.
\<close>

lemma dropped_pass_blocks:
  assumes "(sync_trans self node)\<^sup>*\<^sup>* (sync_start n st) S"
    and "i < length (sys_calls S)" and "holds (sys_calls S ! i)"
    and "(sync_trans self node)\<^sup>*\<^sup>* (set_call i Dropped S) T"
  shows "ss_syncing (sys_shared T) \<and> filter holds (sys_calls T) = [] \<and>
    map returned (sys_calls T) = map returned (sys_calls S)"
proof -
  have "holders S \<le> of_bool (ss_syncing (sys_shared S))"
    using reachable_locked[OF assms(1)] by (simp only: locked_def)
  moreover have "0 < holders S" using assms(2,3) holder_exists[of S] by blast
  ultimately have start: "blocked (set_call i Dropped S)"
    using assms(2,3) by (cases "ss_syncing (sys_shared S)") (auto simp: blocked_def holders_set_call)
  from assms(4) have "blocked T \<and> map returned (sys_calls T) = map returned (sys_calls (set_call i Dropped S))"
  proof (induction rule: rtranclp_induct)
    case (step y z)
    then show ?case using sync_trans_blocked by metis
  qed (use start in simp)
  moreover have "map returned (sys_calls (set_call i Dropped S)) = map returned (sys_calls S)"
    using assms(2,3) by (cases "sys_calls S ! i") (simp_all add: map_returned_update)
  ultimately show ?thesis by (simp add: blocked_def holders_def)
qed

end
