(* ===== verification/Capsule_Store.thy ===== *)
theory Capsule_Store
  imports Kv_Store
begin

text \<open>
  The capsule store (\<open>crates/pxe/src/stores/capsule_store.rs\<close>): capsules that are consumed when
  read, contract-scoped slots, and the arrays kept in those slots (the length at a base slot, the
  entries in the slots after it, addressed in the field).

  The abstract state is a map from contract and slot to data. Allocation is not modelled: a
  \<open>Vec::with_capacity\<close> of an absurd length aborts in the program.
\<close>

subsection \<open>Operations\<close>

record ('s, 'v) capsule_store =
  cs_kv :: "('s, 'v) kv_store"
  cs_hex :: hex_crate
  cs_capsule_json :: "(fr list list, 'v) serde"
  cs_slot_json :: "(fr list, 'v) serde"

definition capsule_key :: "hex_crate \<Rightarrow> fr \<Rightarrow> string" where
  "capsule_key H contract = ''capsule:'' @ fr_display H contract"

definition db_slot_key :: "hex_crate \<Rightarrow> aztec_address \<Rightarrow> fr \<Rightarrow> string" where
  "db_slot_key H contract_address slot =
     ''capsule_db:'' @ address_display H contract_address @ '':'' @ fr_display H slot"

definition array_slot :: "fr \<Rightarrow> usize \<Rightarrow> fr result" where
  "array_slot base_slot index =
     bind_result (checked_add 1 index) (\<lambda>n. Inr (base_slot + fr_from_u64 n))"

definition capsule_add :: "('s, 'v) capsule_store \<Rightarrow> fr \<Rightarrow> fr list list \<Rightarrow> ('s, unit) op" where
  "capsule_add self contract capsule =
     kv_put (cs_kv self) (capsule_key (cs_hex self) contract) (to_vec (cs_capsule_json self) capsule)"

definition capsule_pop :: "('s, 'v) capsule_store \<Rightarrow> fr \<Rightarrow> ('s, fr list list option) op" where
  "capsule_pop self contract =
     (let key = capsule_key (cs_hex self) contract in
      seq (kv_get (cs_kv self) key) (\<lambda>found.
        case found of
          Some bytes \<Rightarrow>
            seq (kv_delete (cs_kv self) key) (\<lambda>_.
            seq (lift_result (from_slice (cs_capsule_json self) bytes)) (\<lambda>c. ret (Some c)))
        | None \<Rightarrow> ret None))"

definition store_capsule ::
    "('s, 'v) capsule_store \<Rightarrow> aztec_address \<Rightarrow> fr \<Rightarrow> fr list \<Rightarrow> ('s, unit) op" where
  "store_capsule self contract_address slot capsule =
     kv_put (cs_kv self) (db_slot_key (cs_hex self) contract_address slot)
       (to_vec (cs_slot_json self) capsule)"

definition load_capsule ::
    "('s, 'v) capsule_store \<Rightarrow> aztec_address \<Rightarrow> fr \<Rightarrow> ('s, fr list option) op" where
  "load_capsule self contract_address slot =
     seq (kv_get (cs_kv self) (db_slot_key (cs_hex self) contract_address slot)) (\<lambda>found.
       case found of
         Some bytes \<Rightarrow> seq (lift_result (from_slice (cs_slot_json self) bytes)) (\<lambda>c. ret (Some c))
       | None \<Rightarrow> ret None)"

definition delete_capsule ::
    "('s, 'v) capsule_store \<Rightarrow> aztec_address \<Rightarrow> fr \<Rightarrow> ('s, unit) op" where
  "delete_capsule self contract_address slot =
     kv_delete (cs_kv self) (db_slot_key (cs_hex self) contract_address slot)"

definition load_required ::
    "('s, 'v) capsule_store \<Rightarrow> aztec_address \<Rightarrow> error \<Rightarrow> fr \<Rightarrow> ('s, fr list) op" where
  "load_required self contract_address e slot =
     seq (load_capsule self contract_address slot) (\<lambda>data. lift_result (ok_or e data))"

text \<open>The body of the loops that write entries: the slot of the \<open>i\<close>-th entry is \<open>slot_of i\<close>.\<close>

definition store_at ::
    "('s, 'v) capsule_store \<Rightarrow> aztec_address \<Rightarrow> (nat \<Rightarrow> fr result) \<Rightarrow> nat \<times> fr list \<Rightarrow> ('s, unit) op" where
  "store_at self contract_address slot_of = (\<lambda>(i, capsule).
     seq (lift_result (slot_of i)) (\<lambda>slot. store_capsule self contract_address slot capsule))"

text \<open>The slots of \<open>copy_capsule\<close> are computed in \<open>usize\<close>, from the low 64 bits of the base.\<close>

definition copy_slot :: "fr \<Rightarrow> nat \<Rightarrow> fr result" where
  "copy_slot slot i =
     bind_result (checked_add (fr_to_usize slot) (of_nat i)) (\<lambda>n. Inr (fr_from_u64 n))"

definition copy_capsule ::
    "('s, 'v) capsule_store \<Rightarrow> aztec_address \<Rightarrow> fr \<Rightarrow> fr \<Rightarrow> usize \<Rightarrow> ('s, unit) op" where
  "copy_capsule self contract_address src_slot dst_slot num_entries =
     (if num_entries = 0 then ret ()
      else
        seq (map_op (\<lambda>i. seq (lift_result (copy_slot src_slot i))
               (load_required self contract_address
                  (InvalidData ''attempted to copy empty capsule slot'')))
             [0..<unat num_entries]) (\<lambda>copied.
        for_each (store_at self contract_address (copy_slot dst_slot)) (List.enumerate 0 copied)))"

text \<open>The length stored at the base slot: the first field of its capsule, zero when there is none.\<close>

definition stored_length :: "fr list option \<Rightarrow> usize" where
  "stored_length capsule =
     fr_to_usize (case capsule of Some (x # _) \<Rightarrow> x | _ \<Rightarrow> 0)"

definition append_to_capsule_array ::
    "('s, 'v) capsule_store \<Rightarrow> aztec_address \<Rightarrow> fr \<Rightarrow> fr list list \<Rightarrow> ('s, unit) op" where
  "append_to_capsule_array self contract_address base_slot content =
     seq (load_capsule self contract_address base_slot) (\<lambda>capsule.
     let current_length = stored_length capsule in
     seq (for_each (store_at self contract_address
              (\<lambda>i. bind_result (checked_add current_length (of_nat i)) (array_slot base_slot)))
            (List.enumerate 0 content)) (\<lambda>_.
     seq (lift_result (checked_add current_length (of_nat (length content)))) (\<lambda>new_length.
       store_capsule self contract_address base_slot [fr_from_u64 new_length])))"

definition read_capsule_array ::
    "('s, 'v) capsule_store \<Rightarrow> aztec_address \<Rightarrow> fr \<Rightarrow> ('s, fr list list) op" where
  "read_capsule_array self contract_address base_slot =
     seq (load_capsule self contract_address base_slot) (\<lambda>capsule.
       map_op (\<lambda>i. seq (lift_result (array_slot base_slot (of_nat i)))
           (load_required self contract_address
              (InvalidData ''expected non-empty capsule array value'')))
         [0..<unat (stored_length capsule)])"

definition set_capsule_array ::
    "('s, 'v) capsule_store \<Rightarrow> aztec_address \<Rightarrow> fr \<Rightarrow> fr list list \<Rightarrow> ('s, unit) op" where
  "set_capsule_array self contract_address base_slot content =
     seq (load_capsule self contract_address base_slot) (\<lambda>capsule.
     let original_length = stored_length capsule in
     seq (store_capsule self contract_address base_slot [fr_from_u64 (of_nat (length content))]) (\<lambda>_.
     seq (for_each (store_at self contract_address (\<lambda>i. array_slot base_slot (of_nat i)))
            (List.enumerate 0 content)) (\<lambda>_.
       for_each (\<lambda>i. seq (lift_result (array_slot base_slot (of_nat i)))
           (delete_capsule self contract_address))
         [length content..<unat original_length])))"

subsection \<open>The abstract state\<close>

type_synonym capsules = "aztec_address \<Rightarrow> fr \<Rightarrow> fr list option"

definition capsule_store_ok :: "('s, 'v) kv_store \<Rightarrow> ('s, 'v) capsule_store \<Rightarrow> bool" where
  "capsule_store_ok K self \<longleftrightarrow>
     cs_kv self = K \<and> hex_ok (cs_hex self) \<and> serde_ok (cs_capsule_json self) \<and>
     serde_ok (cs_slot_json self)"

definition capsules_at ::
    "('s, 'v) capsule_store \<Rightarrow> (string \<Rightarrow> 'v option) \<Rightarrow> capsules \<Rightarrow> bool" where
  "capsules_at self m cap \<longleftrightarrow>
     (\<forall>a s. m (db_slot_key (cs_hex self) a s) = map_option (to_vec (cs_slot_json self)) (cap a s))"

definition put_slot :: "aztec_address \<Rightarrow> fr \<Rightarrow> fr list option \<Rightarrow> capsules \<Rightarrow> capsules" where
  "put_slot a s v cap = cap(a := (cap a)(s := v))"

definition entry_slot :: "fr \<Rightarrow> nat \<Rightarrow> fr" where
  "entry_slot base i = base + fr_of_nat (Suc i)"

text \<open>The array at \<open>base\<close> of contract \<open>a\<close> holds \<open>xs\<close>.\<close>

definition array_at :: "capsules \<Rightarrow> aztec_address \<Rightarrow> fr \<Rightarrow> fr list list \<Rightarrow> bool" where
  "array_at cap a base xs \<longleftrightarrow>
     unat (stored_length (cap a base)) = length xs \<and>
     map (\<lambda>i. cap a (entry_slot base i)) [0..<length xs] = map Some xs"

text \<open>\<open>cap'\<close> is \<open>cap\<close> outside the region of \<open>n\<close> entries at \<open>base\<close>.\<close>

definition same_outside :: "aztec_address \<Rightarrow> fr \<Rightarrow> nat \<Rightarrow> capsules \<Rightarrow> capsules \<Rightarrow> bool" where
  "same_outside a base n cap cap' \<longleftrightarrow>
     (\<forall>b s. b \<noteq> a \<or> s \<notin> insert base (entry_slot base ` {..<n}) \<longrightarrow> cap' b s = cap b s)"

subsection \<open>Slots\<close>

lemma db_slot_key_inject [simp]:
  assumes "hex_ok H"
  shows "db_slot_key H a s = db_slot_key H b t \<longleftrightarrow> a = b \<and> s = t"
  using assms by (auto simp: db_slot_key_def append_eq_append_conv)

lemma fr_of_nat_small_inject:
  assumes "m < 2 ^ 65" and "n < 2 ^ 65"
  shows "fr_of_nat m = fr_of_nat n \<longleftrightarrow> m = n"
proof -
  have "2 ^ 65 \<le> fr_modulus" by (simp add: fr_modulus_def)
  then have "m < fr_modulus" and "n < fr_modulus" using assms by linarith+
  then show ?thesis by (simp add: fr_of_nat_eq_iff)
qed

lemma entry_slot_inject:
  assumes "i < 2 ^ 64" and "j < 2 ^ 64"
  shows "entry_slot base i = entry_slot base j \<longleftrightarrow> i = j"
proof -
  have "Suc i < 2 ^ 65" and "Suc j < 2 ^ 65" using assms by simp_all
  then show ?thesis by (simp add: entry_slot_def fr_of_nat_small_inject del: fr_of_nat_eq_iff)
qed

lemma entry_slot_not_base:
  assumes "i < 2 ^ 64"
  shows "entry_slot base i \<noteq> base"
proof -
  have "fr_of_nat (Suc i) \<noteq> fr_of_nat 0"
    using assms by (subst fr_of_nat_small_inject) simp_all
  then show ?thesis by (simp add: entry_slot_def zero_fr_def)
qed

lemma array_slot_entry:
  assumes "Suc i < 2 ^ 64"
  shows "array_slot base (of_nat i) = Inr (entry_slot base i)"
proof -
  have i: "unat (of_nat i :: usize) = i" using assms by (simp add: unat_of_nat)
  then have "checked_add 1 (of_nat i :: usize) = Inr (1 + of_nat i)"
    using assms by (simp add: checked_add_def)
  moreover have "unat (1 + of_nat i :: usize) = Suc i"
    using unat_checked_add[OF calculation] i by simp
  ultimately show ?thesis
    by (simp add: array_slot_def entry_slot_def fr_from_u64_def)
qed

lemma fr_to_usize_from_u64 [simp]: "fr_to_usize (fr_from_u64 n) = n"
proof -
  have "unat (fr_to_usize (fr_from_u64 n)) = unat n"
    using unsigned_less[of n, where ?'a = nat] by (simp add: unat_fr_to_usize)
  then show ?thesis by (simp add: word_unat_eq_iff)
qed

lemma stored_length_single [simp]: "stored_length (Some [fr_from_u64 n]) = n"
  by (simp add: stored_length_def)

text \<open>The slot that \<open>copy_capsule\<close> uses for \<open>slot\<close>: its low 64 bits.\<close>

definition low_slot :: "fr \<Rightarrow> fr" where
  "low_slot slot = fr_of_nat (into_bigint slot mod 2 ^ 64)"

lemma into_bigint_low_slot [simp]: "into_bigint (low_slot slot) = into_bigint slot mod 2 ^ 64"
proof -
  have "into_bigint slot mod 2 ^ 64 < 2 ^ 64" by simp
  moreover have "2 ^ 64 \<le> fr_modulus" by (simp add: fr_modulus_def)
  ultimately show ?thesis unfolding low_slot_def by (simp only: into_bigint_fr_of_nat mod_less)
qed

lemma low_slot_small: "into_bigint slot < 2 ^ 64 \<Longrightarrow> low_slot slot = slot"
  by (simp add: low_slot_def)

lemma fr_of_nat_add: "fr_of_nat (m + n) = fr_of_nat m + fr_of_nat n"
  by (simp flip: of_nat_fr)

lemma copy_slot_low:
  assumes "into_bigint (low_slot slot) + n \<le> 2 ^ 64" and "i < n"
  shows "copy_slot slot i = Inr (low_slot slot + fr_of_nat i)"
proof -
  have lt: "into_bigint slot mod 2 ^ 64 + i < 2 ^ 64" using assms by simp
  then have "i < 2 ^ 64" by linarith
  then have i: "unat (of_nat i :: usize) = i" by (simp add: unat_of_nat)
  then have add: "checked_add (fr_to_usize slot) (of_nat i) = Inr (fr_to_usize slot + of_nat i)"
    using lt by (simp add: checked_add_def unat_fr_to_usize)
  then have "unat (fr_to_usize slot + of_nat i) = into_bigint slot mod 2 ^ 64 + i"
    using unat_checked_add[OF add] i by (simp add: unat_fr_to_usize)
  then show ?thesis
    using add by (simp add: copy_slot_def fr_from_u64_def low_slot_def fr_of_nat_add)
qed

lemma entry_slot_pred: "entry_slot (slot - 1) i = slot + fr_of_nat i"
  by (simp add: entry_slot_def flip: of_nat_fr)

subsection \<open>Regions\<close>

fun put_entries :: "aztec_address \<Rightarrow> fr \<Rightarrow> nat \<Rightarrow> fr list list \<Rightarrow> capsules \<Rightarrow> capsules" where
  "put_entries a base k [] cap = cap"
| "put_entries a base k (x # xs) cap =
     put_entries a base (Suc k) xs (put_slot a (entry_slot base k) (Some x) cap)"

definition clear_entries :: "aztec_address \<Rightarrow> fr \<Rightarrow> nat list \<Rightarrow> capsules \<Rightarrow> capsules" where
  "clear_entries a base ns cap = fold (\<lambda>i. put_slot a (entry_slot base i) None) ns cap"

lemma put_slot_apply: "put_slot a s v cap b t = (if b = a \<and> t = s then v else cap b t)"
  by (simp add: put_slot_def)

lemma put_entries_out:
  "b \<noteq> a \<or> s \<notin> entry_slot base ` {k..<k + length xs} \<Longrightarrow> put_entries a base k xs cap b s = cap b s"
proof (induction xs arbitrary: k cap)
  case (Cons x xs)
  have "{k..<k + length (x # xs)} = insert k {Suc k..<Suc k + length xs}" by auto
  with Cons show ?case by (auto simp: put_slot_apply)
qed simp

lemma put_entries_in:
  assumes "i < length xs" and "k + length xs < 2 ^ 64"
  shows "put_entries a base k xs cap a (entry_slot base (k + i)) = Some (xs ! i)"
  using assms
proof (induction xs arbitrary: k i cap)
  case (Cons x xs)
  show ?case
  proof (cases i)
    case 0
    have "entry_slot base k \<notin> entry_slot base ` {Suc k..<Suc k + length xs}"
      using Cons.prems by (auto simp: entry_slot_inject)
    with 0 show ?thesis by (simp add: put_entries_out put_slot_apply)
  next
    case (Suc j)
    with Cons.prems Cons.IH[of j "Suc k"] show ?thesis by simp
  qed
qed simp

lemma clear_entries_Cons:
  "clear_entries a base (n # ns) cap = clear_entries a base ns (put_slot a (entry_slot base n) None cap)"
  by (simp add: clear_entries_def)

lemma clear_entries_apply:
  "clear_entries a base ns cap b s =
     (if b = a \<and> s \<in> entry_slot base ` set ns then None else cap b s)"
  by (induction ns arbitrary: cap)
    (auto simp: clear_entries_Cons put_slot_apply clear_entries_def)

subsection \<open>The operations on the abstract state\<close>

lemma capsules_at_put:
  assumes "hex_ok (cs_hex self)" and "capsules_at self m cap"
    and "w = map_option (to_vec (cs_slot_json self)) v"
  shows "capsules_at self (m(db_slot_key (cs_hex self) a s := w)) (put_slot a s v cap)"
  using assms by (auto simp: capsules_at_def put_slot_apply)

context kv_laws
begin

lemma wp_load_capsule:
  assumes "capsule_store_ok K self" and "invar s" and "capsules_at self (lookup s) cap"
  shows "wp (load_capsule self a slot) Q s \<longleftrightarrow> Q (cap a slot) s"
  using assms
  by (cases "cap a slot") (auto simp: load_capsule_def capsule_store_ok_def wp_get capsules_at_def)

lemma wp_store_capsule:
  assumes "capsule_store_ok K self" and "invar s" and "capsules_at self (lookup s) cap"
    and "\<And>s'. invar s' \<Longrightarrow> capsules_at self (lookup s') (put_slot a slot (Some c) cap) \<Longrightarrow> Q () s'"
  shows "wp (store_capsule self a slot c) Q s"
proof -
  have kv: "cs_kv self = K" and hex: "hex_ok (cs_hex self)"
    using assms(1) by (simp_all add: capsule_store_ok_def)
  show ?thesis
    unfolding store_capsule_def kv
    using assms(4) capsules_at_put[OF hex assms(3), of "Some (to_vec (cs_slot_json self) c)" "Some c"]
    by (intro wp_put[OF assms(2)]) simp
qed

lemma wp_delete_capsule:
  assumes "capsule_store_ok K self" and "invar s" and "capsules_at self (lookup s) cap"
    and "\<And>s'. invar s' \<Longrightarrow> capsules_at self (lookup s') (put_slot a slot None cap) \<Longrightarrow> Q () s'"
  shows "wp (delete_capsule self a slot) Q s"
proof -
  have kv: "cs_kv self = K" and hex: "hex_ok (cs_hex self)"
    using assms(1) by (simp_all add: capsule_store_ok_def)
  show ?thesis
    unfolding delete_capsule_def kv
    using assms(4) capsules_at_put[OF hex assms(3), of None None]
    by (intro wp_delete[OF assms(2)]) simp
qed

lemma wp_load_required:
  assumes "capsule_store_ok K self" and "invar s" and "capsules_at self (lookup s) cap"
    and "cap a slot = Some c" and "Q c s"
  shows "wp (load_required self a e slot) Q s"
  using assms by (simp add: load_required_def wp_load_capsule[OF assms(1-3)])

lemma wp_store_entries:
  assumes "capsule_store_ok K self" and "invar s" and "capsules_at self (lookup s) cap"
    and "\<And>i. n \<le> i \<Longrightarrow> i < n + length xs \<Longrightarrow> slot_of i = Inr (entry_slot base (k + i))"
    and "\<And>s'. invar s' \<Longrightarrow> capsules_at self (lookup s') (put_entries a base (k + n) xs cap) \<Longrightarrow> Q () s'"
  shows "wp (for_each (store_at self a slot_of) (List.enumerate n xs)) Q s"
  using assms(2-)
proof (induction xs arbitrary: s cap n)
  case Nil
  then show ?case by simp
next
  case (Cons x xs)
  have "wp (store_capsule self a (entry_slot base (k + n)) x)
      (\<lambda>_. wp (for_each (store_at self a slot_of) (List.enumerate (Suc n) xs)) Q) s"
    using Cons.prems(3,4)
    by (intro wp_store_capsule[OF assms(1) Cons.prems(1,2)] Cons.IH) simp_all
  moreover have "slot_of n = Inr (entry_slot base (k + n))" using Cons.prems(3) by simp
  ultimately have "wp (store_at self a slot_of (n, x))
      (\<lambda>_. wp (for_each (store_at self a slot_of) (List.enumerate (Suc n) xs)) Q) s"
    by (simp add: store_at_def)
  then show ?case by simp
qed

lemma wp_clear_entries:
  assumes "capsule_store_ok K self" and "invar s" and "capsules_at self (lookup s) cap"
    and "list_all (\<lambda>i. Suc i < 2 ^ 64) ns"
    and "\<And>s'. invar s' \<Longrightarrow> capsules_at self (lookup s') (clear_entries a base ns cap) \<Longrightarrow> Q () s'"
  shows "wp (for_each (\<lambda>i. seq (lift_result (array_slot base (of_nat i))) (delete_capsule self a)) ns) Q s"
  using assms(2-)
proof (induction ns arbitrary: s cap)
  case Nil
  then show ?case by (simp add: clear_entries_def)
next
  case (Cons n ns)
  then show ?case
    by (auto simp: array_slot_entry clear_entries_Cons intro!: wp_delete_capsule[OF assms(1)])
qed

lemma wp_read_array:
  assumes "capsule_store_ok K self" and "invar s" and "capsules_at self (lookup s) cap"
    and "array_at cap a base xs" and "length xs < 2 ^ 64" and "Q xs s"
  shows "wp (read_capsule_array self a base) Q s"
proof -
  have len: "unat (stored_length (cap a base)) = length xs"
    using assms(4) by (simp add: array_at_def)
  have entry: "cap a (entry_slot base i) = Some (xs ! i)" if "i < length xs" for i
    using assms(4) that unfolding array_at_def list_eq_iff_nth_eq by simp
  have "wp (map_op (\<lambda>i. seq (lift_result (array_slot base (of_nat i))) (load_required self a e))
      [0..<length xs]) Q s" for e
  proof (rule wp_map_op[where g = "(!) xs"])
    fix i
    assume "i \<in> set [0..<length xs]"
    then show "wp (seq (lift_result (array_slot base (of_nat i))) (load_required self a e))
        (\<lambda>y s'. y = xs ! i \<and> s' = s) s"
      using assms(5) by (auto simp: array_slot_entry intro!: wp_load_required[OF assms(1-3) entry])
  qed (simp add: assms(6) map_nth)
  then show ?thesis
    by (simp add: read_capsule_array_def wp_load_capsule[OF assms(1-3)] len)
qed

lemma wp_append_array:
  assumes "capsule_store_ok K self" and "invar s" and "capsules_at self (lookup s) cap"
    and "array_at cap a base xs" and "length xs + length ys < 2 ^ 64"
    and "\<And>s'. invar s' \<Longrightarrow> capsules_at self (lookup s') (put_slot a base
      (Some [fr_from_u64 (of_nat (length xs + length ys))]) (put_entries a base (length xs) ys cap)) \<Longrightarrow>
      Q () s'"
  shows "wp (append_to_capsule_array self a base ys) Q s"
proof -
  have len: "unat (stored_length (cap a base)) = length xs"
    using assms(4) by (simp add: array_at_def)
  then have word: "stored_length (cap a base) = of_nat (length xs)"
    by (simp flip: len)
  have add: "checked_add (of_nat (length xs) :: usize) (of_nat n) = Inr (of_nat (length xs + n))"
    if "n \<le> length ys" for n
    using assms(5) that by (simp add: checked_add_def unat_of_nat)
  have slot: "bind_result (checked_add (of_nat (length xs)) (of_nat i)) (array_slot base) =
      Inr (entry_slot base (length xs + i))" if "i < 0 + length ys" for i
    using assms(5) that by (simp add: add array_slot_entry del: of_nat_add)
  have "wp (for_each (store_at self a
        (\<lambda>i. bind_result (checked_add (of_nat (length xs)) (of_nat i)) (array_slot base)))
        (List.enumerate 0 ys))
      (\<lambda>_. wp (seq (lift_result (checked_add (of_nat (length xs)) (of_nat (length ys)))) (\<lambda>new_length.
         store_capsule self a base [fr_from_u64 new_length])) Q) s"
    using assms(6)
    by (intro wp_store_entries[OF assms(1-3) slot])
      (auto simp: add simp del: of_nat_add intro!: wp_store_capsule[OF assms(1)])
  then show ?thesis
    by (simp add: append_to_capsule_array_def wp_load_capsule[OF assms(1-3)] word Let_def)
qed

lemma wp_set_array:
  assumes "capsule_store_ok K self" and "invar s" and "capsules_at self (lookup s) cap"
    and "array_at cap a base xs" and "length xs < 2 ^ 64" and "length ys < 2 ^ 64"
    and "\<And>s'. invar s' \<Longrightarrow> capsules_at self (lookup s') (clear_entries a base [length ys..<length xs]
      (put_entries a base 0 ys (put_slot a base (Some [fr_from_u64 (of_nat (length ys))]) cap))) \<Longrightarrow>
      Q () s'"
  shows "wp (set_capsule_array self a base ys) Q s"
proof -
  have len: "unat (stored_length (cap a base)) = length xs"
    using assms(4) by (simp add: array_at_def)
  have range: "list_all (\<lambda>i. Suc i < 2 ^ 64) [length ys..<length xs]"
    using assms(5) by (auto simp: list_all_iff)
  have slot: "array_slot base (of_nat i) = Inr (entry_slot base (0 + i))" if "i < 0 + length ys" for i
    using assms(6) that by (simp add: array_slot_entry)
  have entries: "wp (for_each (store_at self a (\<lambda>i. array_slot base (of_nat i))) (List.enumerate 0 ys))
      (\<lambda>_. wp (for_each (\<lambda>i. seq (lift_result (array_slot base (of_nat i))) (delete_capsule self a))
        [length ys..<length xs]) Q) s1"
    if "invar s1" and "capsules_at self (lookup s1)
      (put_slot a base (Some [fr_from_u64 (of_nat (length ys))]) cap)" for s1
    using assms(7)
    by (intro wp_store_entries[OF assms(1) that slot] wp_clear_entries[OF assms(1) _ _ range]) simp_all
  then show ?thesis
    by (auto simp: set_capsule_array_def wp_load_capsule[OF assms(1-3)] len Let_def
        intro!: wp_store_capsule[OF assms(1-3)])
qed

lemma load_required_apply:
  assumes "capsule_store_ok K self" and "invar s" and "capsules_at self (lookup s) cap"
  shows "load_required self a e slot s = (ok_or e (cap a slot), s)"
  using assms
  by (cases "cap a slot")
    (simp_all add: load_required_def load_capsule_def capsule_store_ok_def capsules_at_def
      seq_def get_law ret_def lift_result_def)

lemma copy_reads:
  assumes "capsule_store_ok K self" and "invar s" and "capsules_at self (lookup s) cap"
    and "into_bigint (low_slot src) + n \<le> 2 ^ 64"
  shows "map_op (\<lambda>i. seq (lift_result (copy_slot src i)) (load_required self a e)) [0..<n] s =
    (map_result (\<lambda>i. ok_or e (cap a (low_slot src + fr_of_nat i))) [0..<n], s)"
  using assms(4)
  by (intro map_op_read)
    (simp add: copy_slot_low seq_def lift_result_def load_required_apply[OF assms(1-3)])

lemma wp_copy_capsule:
  assumes "capsule_store_ok K self" and "invar s" and "capsules_at self (lookup s) cap"
    and "into_bigint (low_slot src) + unat n \<le> 2 ^ 64" and "into_bigint (low_slot dst) + unat n \<le> 2 ^ 64"
    and "\<And>i. i < unat n \<Longrightarrow> cap a (low_slot src + fr_of_nat i) = Some (ds ! i)"
    and "length ds = unat n"
    and "\<And>s'. invar s' \<Longrightarrow> capsules_at self (lookup s') (put_entries a (low_slot dst - 1) 0 ds cap) \<Longrightarrow> Q () s'"
  shows "wp (copy_capsule self a src dst n) Q s"
proof (cases "n = 0")
  case True
  then show ?thesis using assms(8)[OF assms(2)] assms(3,7) by (simp add: copy_capsule_def)
next
  case False
  have "map_result (\<lambda>i. ok_or e (cap a (low_slot src + fr_of_nat i))) [0..<unat n] =
      Inr (map ((!) ds) [0..<unat n])" for e
    using assms(6) by (intro map_result_Inr) simp
  then have "map_op (\<lambda>i. seq (lift_result (copy_slot src i)) (load_required self a e)) [0..<unat n] s =
      (Inr ds, s)" for e
    using copy_reads[OF assms(1-4)] by (simp add: map_nth flip: assms(7))
  moreover have "copy_slot dst i = Inr (entry_slot (low_slot dst - 1) (0 + i))"
    if "i < 0 + length ds" for i
    using that assms(5,7) by (simp add: copy_slot_low entry_slot_pred)
  then have "wp (for_each (store_at self a (copy_slot dst)) (List.enumerate 0 ds)) Q s"
    using assms(8) by (intro wp_store_entries[OF assms(1-3)]) auto
  ultimately show ?thesis
    using False by (simp add: copy_capsule_def wp_def seq_def)
qed

end

subsection \<open>Arrays after an update\<close>

lemma array_at_iff:
  "array_at cap a base xs \<longleftrightarrow> unat (stored_length (cap a base)) = length xs \<and>
     (\<forall>i<length xs. cap a (entry_slot base i) = Some (xs ! i))"
  unfolding array_at_def list_eq_iff_nth_eq[where ?'a = "fr list option"] by auto

lemma array_at_append:
  assumes "array_at cap a base xs" and "length xs + length ys < 2 ^ 64"
  shows "array_at (put_slot a base (Some [fr_from_u64 (of_nat (length xs + length ys))])
    (put_entries a base (length xs) ys cap)) a base (xs @ ys)"
proof -
  have "put_entries a base (length xs) ys cap a (entry_slot base i) = Some ((xs @ ys) ! i)"
    if i: "i < length xs + length ys" for i
  proof (cases "i < length xs")
    case True
    then have "entry_slot base i \<notin> entry_slot base ` {length xs..<length xs + length ys}"
      using assms(2) by (auto simp: entry_slot_inject)
    with True assms(1) show ?thesis by (simp add: put_entries_out array_at_iff nth_append)
  next
    case False
    with i assms(2) put_entries_in[of "i - length xs" ys "length xs"] show ?thesis
      by (simp add: nth_append)
  qed
  moreover have "entry_slot base i \<noteq> base" if "i < length xs + length ys" for i
    using that assms(2) by (intro entry_slot_not_base) simp
  ultimately show ?thesis
    using assms(2) by (simp add: array_at_iff put_slot_apply unat_of_nat del: of_nat_add)
qed

lemma array_at_set:
  assumes "length xs < 2 ^ 64" and "length ys < 2 ^ 64"
  shows "array_at (clear_entries a base [length ys..<length xs]
    (put_entries a base 0 ys (put_slot a base (Some [fr_from_u64 (of_nat (length ys))]) cap))) a base ys"
proof -
  have "base \<notin> entry_slot base ` {..<n}" if "n < 2 ^ 64" for n
    using that entry_slot_not_base by (metis imageE lessThan_iff order.strict_trans)
  then have "base \<notin> entry_slot base ` {length ys..<length xs}" "base \<notin> entry_slot base ` {0..<length ys}"
    using assms by force+
  moreover have "entry_slot base i \<notin> entry_slot base ` {length ys..<length xs}" if "i < length ys" for i
    using that assms by (auto simp: entry_slot_inject)
  ultimately show ?thesis
    using assms put_entries_in[of _ ys 0]
    by (simp add: array_at_iff clear_entries_apply put_entries_out put_slot_apply unat_of_nat)
qed

text \<open>What \<open>copy_capsule\<close> means: all entries are read before any is written.\<close>

definition copy_region :: "aztec_address \<Rightarrow> fr \<Rightarrow> fr \<Rightarrow> nat \<Rightarrow> capsules \<Rightarrow> capsules" where
  "copy_region a src dst n cap =
     (\<lambda>b s. if b = a \<and> into_bigint (s - dst) < n then cap a (src + (s - dst)) else cap b s)"

lemma put_entries_copy_region:
  assumes n: "n < 2 ^ 64"
    and ds: "\<And>i. i < n \<Longrightarrow> cap a (src + fr_of_nat i) = Some (ds ! i)" "length ds = n"
  shows "put_entries a (dst - 1) 0 ds cap = copy_region a src dst n cap"
proof (intro ext)
  fix b s
  have in_region: "s = entry_slot (dst - 1) (into_bigint (s - dst))"
    by (simp add: entry_slot_pred)
  show "put_entries a (dst - 1) 0 ds cap b s = copy_region a src dst n cap b s"
  proof (cases "b = a \<and> into_bigint (s - dst) < n")
    case True
    then have "put_entries a (dst - 1) 0 ds cap b s = Some (ds ! into_bigint (s - dst))"
      using put_entries_in[of "into_bigint (s - dst)" ds 0 a "dst - 1"] n ds(2) in_region by simp
    also have "\<dots> = cap a (src + (s - dst))"
      using ds(1)[of "into_bigint (s - dst)"] True by simp
    finally show ?thesis using True by (simp add: copy_region_def)
  next
    case False
    have "into_bigint (entry_slot (dst - 1) i - dst) = i" if "i < n" for i
      using that n by (simp add: entry_slot_pred fr_modulus_def)
    with False ds(2) have "b \<noteq> a \<or> s \<notin> entry_slot (dst - 1) ` {0..<0 + length ds}" by force
    then show ?thesis
      using False by (auto simp: put_entries_out copy_region_def)
  qed
qed

lemma map_result_ok_or_None:
  "\<not> list_all (\<lambda>i. f i \<noteq> None) is \<Longrightarrow> map_result (\<lambda>i. ok_or e (f i)) is = Inl e"
proof (induction "is")
  case (Cons i "is")
  then show ?case by (cases "f i") auto
qed simp

lemma put_entries_outside:
  "s \<notin> entry_slot base ` {..<n} \<Longrightarrow> k + length xs \<le> n \<Longrightarrow> put_entries a base k xs cap b s = cap b s"
  by (rule put_entries_out) auto

lemma same_outside_append:
  "same_outside a base (length xs + length ys) cap
     (put_slot a base v (put_entries a base (length xs) ys cap))"
  by (auto simp: same_outside_def put_slot_apply put_entries_out
      put_entries_outside[where n = "length xs + length ys"])

lemma same_outside_set:
  "same_outside a base (max (length xs) (length ys)) cap (clear_entries a base [length ys..<length xs]
     (put_entries a base 0 ys (put_slot a base v cap)))"
  by (auto simp: same_outside_def clear_entries_apply put_slot_apply put_entries_out
      put_entries_outside[where n = "max (length xs) (length ys)"])

subsection \<open>A concrete store\<close>

definition example_capsule_store ::
    "((fr list list + fr list) btree, fr list list + fr list) capsule_store" where
  "example_capsule_store =
     \<lparr>cs_kv = in_memory_kv, cs_hex = plain_hex, cs_capsule_json = left_json, cs_slot_json = right_json\<rparr>"

lemma example_capsule_store_ok: "capsule_store_ok in_memory_kv example_capsule_store"
  by (simp add: capsule_store_ok_def example_capsule_store_def)

lemma example_capsules: "capsules_at example_capsule_store (map_of in_memory_new) (\<lambda>_ _. None)"
  by (simp add: capsules_at_def in_memory_new_def)

lemma example_array: "array_at (\<lambda>_ _. None) a base []"
  by (simp add: array_at_def stored_length_def unat_fr_to_usize)

subsection \<open>Properties\<close>

text \<open>
  C14. A capsule array behaves like a list. Reading returns the entries; appending succeeds and
  leaves the old entries followed by the new ones; setting replaces the whole array and deletes the
  slots it no longer uses; and neither touches a slot outside the array, or another contract.
\<close>

theorem capsule_array_refines_list:
  assumes "capsule_store_ok in_memory_kv self" and "btree_ok t"
    and "capsules_at self (map_of t) cap" and "array_at cap a base xs"
    and "length xs + length ys < 2 ^ 64"
  shows "read_capsule_array self a base t = (Inr xs, t) \<and>
    (\<exists>t' cap'. append_to_capsule_array self a base ys t = (Inr (), t') \<and> btree_ok t' \<and>
       capsules_at self (map_of t') cap' \<and> array_at cap' a base (xs @ ys) \<and>
       same_outside a base (length xs + length ys) cap cap' \<and>
       read_capsule_array self a base t' = (Inr (xs @ ys), t')) \<and>
    (\<exists>t' cap'. set_capsule_array self a base ys t = (Inr (), t') \<and> btree_ok t' \<and>
       capsules_at self (map_of t') cap' \<and> array_at cap' a base ys \<and>
       same_outside a base (max (length xs) (length ys)) cap cap' \<and>
       map (\<lambda>i. cap' a (entry_slot base i)) [length ys..<length xs] = replicate (length xs - length ys) None \<and>
       read_capsule_array self a base t' = (Inr ys, t'))"
proof (intro conjI)
  have lt: "length xs < 2 ^ 64" "length ys < 2 ^ 64" "length (xs @ ys) < 2 ^ 64"
    using assms(5) by simp_all
  have reads: "read_capsule_array self a base t1 = (Inr zs, t1)"
    if "btree_ok t1" and "capsules_at self (map_of t1) cap1" and "array_at cap1 a base zs"
      and "length zs < 2 ^ 64" for t1 cap1 zs
    using mem.wp_read_array[OF assms(1) that, of "\<lambda>x s'. x = zs \<and> s' = t1"] by (auto simp: wp_iff)
  show "read_capsule_array self a base t = (Inr xs, t)" by (rule reads[OF assms(2-4) lt(1)])
  let ?app = "put_slot a base (Some [fr_from_u64 (of_nat (length xs + length ys))])
    (put_entries a base (length xs) ys cap)"
  have app: "array_at ?app a base (xs @ ys)" by (rule array_at_append[OF assms(4,5)])
  have "wp (append_to_capsule_array self a base ys)
      (\<lambda>_ t'. btree_ok t' \<and> capsules_at self (map_of t') ?app) t"
    by (rule mem.wp_append_array[OF assms]) simp
  then obtain t1 where "append_to_capsule_array self a base ys t = (Inr (), t1)"
    "btree_ok t1 \<and> capsules_at self (map_of t1) ?app" by (rule wp_unitE)
  then show "\<exists>t' cap'. append_to_capsule_array self a base ys t = (Inr (), t') \<and> btree_ok t' \<and>
       capsules_at self (map_of t') cap' \<and> array_at cap' a base (xs @ ys) \<and>
       same_outside a base (length xs + length ys) cap cap' \<and>
       read_capsule_array self a base t' = (Inr (xs @ ys), t')"
    using app same_outside_append reads[OF _ _ app lt(3)] by (intro exI[of _ t1] exI[of _ ?app]) simp
  let ?set = "clear_entries a base [length ys..<length xs]
    (put_entries a base 0 ys (put_slot a base (Some [fr_from_u64 (of_nat (length ys))]) cap))"
  have set: "array_at ?set a base ys" by (rule array_at_set[OF lt(1,2)])
  have "wp (set_capsule_array self a base ys)
      (\<lambda>_ t'. btree_ok t' \<and> capsules_at self (map_of t') ?set) t"
    by (rule mem.wp_set_array[OF assms(1-4) lt(1,2)]) simp
  then obtain t2 where "set_capsule_array self a base ys t = (Inr (), t2)"
    "btree_ok t2 \<and> capsules_at self (map_of t2) ?set" by (rule wp_unitE)
  moreover have "map (\<lambda>i. ?set a (entry_slot base i)) [length ys..<length xs] =
      replicate (length xs - length ys) None"
    by (rule nth_equalityI) (simp_all add: clear_entries_apply)
  ultimately show "\<exists>t' cap'. set_capsule_array self a base ys t = (Inr (), t') \<and> btree_ok t' \<and>
       capsules_at self (map_of t') cap' \<and> array_at cap' a base ys \<and>
       same_outside a base (max (length xs) (length ys)) cap cap' \<and>
       map (\<lambda>i. cap' a (entry_slot base i)) [length ys..<length xs] = replicate (length xs - length ys) None \<and>
       read_capsule_array self a base t' = (Inr ys, t')"
    using set same_outside_set reads[OF _ _ set lt(2)] by (intro exI[of _ t2] exI[of _ ?set]) simp
qed

theorem capsule_array_refines_list_witness:
  "\<exists>t'. append_to_capsule_array example_capsule_store (AztecAddress 1) 10 [[11], [12, 13]] in_memory_new =
      (Inr (), t') \<and>
     read_capsule_array example_capsule_store (AztecAddress 1) 10 t' = (Inr [[11], [12, 13]], t')"
  using capsule_array_refines_list[OF example_capsule_store_ok _ example_capsules example_array,
      of "[[11], [12, 13]]" "AztecAddress 1" 10]
  by (auto simp: in_memory_new_def)

text \<open>
  Copying a region of capsule slots is all or nothing and safe when the regions overlap: if every
  source slot holds data, the destination receives the old contents in order and nothing else
  changes; if one is empty the copy fails without a write. The slots are those of the low 64 bits of
  the two base slots, so a base of \<open>2 ^ 64\<close> or more addresses another region than the array
  operations do.
\<close>

lemma copy_capsule_correct:
  assumes "capsule_store_ok in_memory_kv self" and "btree_ok t" and "capsules_at self (map_of t) cap"
    and "into_bigint (low_slot src) + unat n \<le> 2 ^ 64" and "into_bigint (low_slot dst) + unat n \<le> 2 ^ 64"
  shows "if list_all (\<lambda>i. cap a (low_slot src + fr_of_nat i) \<noteq> None) [0..<unat n]
    then \<exists>t'. copy_capsule self a src dst n t = (Inr (), t') \<and> btree_ok t' \<and>
      capsules_at self (map_of t') (copy_region a (low_slot src) (low_slot dst) (unat n) cap)
    else copy_capsule self a src dst n t =
      (Inl (InvalidData ''attempted to copy empty capsule slot''), t)"
proof (cases "list_all (\<lambda>i. cap a (low_slot src + fr_of_nat i) \<noteq> None) [0..<unat n]")
  case True
  define ds where "ds = map (\<lambda>i. the (cap a (low_slot src + fr_of_nat i))) [0..<unat n]"
  have ds: "length ds = unat n" "i < unat n \<Longrightarrow> cap a (low_slot src + fr_of_nat i) = Some (ds ! i)" for i
    using True by (auto simp: ds_def list_all_iff)
  have region: "put_entries a (low_slot dst - 1) 0 ds cap =
      copy_region a (low_slot src) (low_slot dst) (unat n) cap"
    using unsigned_less[of n, where ?'a = nat] ds by (intro put_entries_copy_region) auto
  show ?thesis
    using True mem.wp_copy_capsule[OF assms ds(2,1), of "\<lambda>_ t'. btree_ok t' \<and>
      capsules_at self (map_of t') (put_entries a (low_slot dst - 1) 0 ds cap)"]
    unfolding wp_iff region by auto
next
  case False
  then have "n \<noteq> 0" by auto
  with False mem.copy_reads[OF assms(1-4)] show ?thesis
    by (auto simp: copy_capsule_def seq_def map_result_ok_or_None)
qed

text \<open>A capsule is consumed by the first read.\<close>

lemma capsule_consumed:
  assumes "capsule_store_ok in_memory_kv self" and "btree_ok t"
  shows "\<exists>t1 t2. capsule_add self c v t = (Inr (), t1) \<and> capsule_pop self c t1 = (Inr (Some v), t2) \<and>
    capsule_pop self c t2 = (Inr None, t2)"
  using assms
  by (auto simp: capsule_store_ok_def capsule_add_def capsule_pop_def in_memory_kv_def Let_def
      in_memory_put_def in_memory_get_def in_memory_delete_def seq_def ret_def lift_result_def
      map_of_btree_insert map_of_btree_remove btree_ok_insert)

end
