(* ===== verification/Grumpkin_Keys.thy ===== *)
theory Grumpkin_Keys
  imports Hashing
begin

text \<open>
  Curve arithmetic, keys and signatures: \<open>crates/core/src/grumpkin.rs\<close>, the base field of
  \<open>types.rs\<close>, and \<open>keys.rs\<close>, \<open>sha512.rs\<close>, \<open>pedersen.rs\<close>, \<open>schnorr.rs\<close>, \<open>address.rs\<close> of \<open>crates/crypto\<close>,
  with the address derivation of \<open>crates/core/src/hash.rs\<close>.

  The curve group of \<open>ark_grumpkin\<close>, the square root of \<open>ark_ff\<close>, the generators of
  \<open>bn254_blackbox_solver\<close> and the digests of \<open>sha2\<close> and \<open>blake2\<close> are parameters (record \<open>curve\<close>). What
  the signature scheme relies on, that the multiples of the generator form a group whose order is the
  modulus of the base field, is the hypothesis \<open>curve_ok\<close>.
\<close>

subsection \<open>The base field\<close>

definition fq_modulus :: nat where
  "fq_modulus = 21888242871839275222246405745257275088696311157297823662689037894645226208583"

typedef fq = "{n::nat. n < fq_modulus}"
  morphisms fq_bigint Abs_fq
proof
  show "0 \<in> {n. n < fq_modulus}" by (simp add: fq_modulus_def)
qed

setup_lifting type_definition_fq

lift_definition fq_of_nat :: "nat \<Rightarrow> fq" is "\<lambda>n. n mod fq_modulus"
  by (simp add: fq_modulus_def)

definition fq_zero :: fq where
  "fq_zero = fq_of_nat 0"

definition fq_is_zero :: "fq \<Rightarrow> bool" where
  "fq_is_zero a \<longleftrightarrow> a = fq_zero"

definition fq_from_u64 :: "u64 \<Rightarrow> fq" where
  "fq_from_u64 v = fq_of_nat (unat v)"

definition fq_from_be_bytes_mod_order :: "u8 list \<Rightarrow> fq" where
  "fq_from_be_bytes_mod_order bytes = fq_of_nat (of_be_bytes bytes)"

definition fq_to_be_bytes :: "fq \<Rightarrow> u8 list" where
  "fq_to_be_bytes a = be_bytes 32 (fq_bigint a)"

definition fq_from_hex :: "hex_crate \<Rightarrow> string \<Rightarrow> fq result" where
  "fq_from_hex H value =
     bind_result (decode_fixed_hex H 32 value) (\<lambda>bytes. Inr (fq_from_be_bytes_mod_order bytes))"

definition fq_mul :: "fq \<Rightarrow> fq \<Rightarrow> fq" where
  "fq_mul a b = fq_of_nat (fq_bigint a * fq_bigint b)"

definition fq_sub :: "fq \<Rightarrow> fq \<Rightarrow> fq" where
  "fq_sub a b = fq_of_nat (fq_bigint a + (fq_modulus - fq_bigint b))"

definition fq_hi :: "fq \<Rightarrow> fr" where
  "fq_hi a = fr_from_be_bytes_mod_order (replicate 16 0 @ take 16 (fq_to_be_bytes a))"

definition fq_lo :: "fq \<Rightarrow> fr" where
  "fq_lo a = fr_from_be_bytes_mod_order (replicate 16 0 @ drop 16 (fq_to_be_bytes a))"

subsection \<open>The curve\<close>

datatype affine = Affine_Zero | Affine fr fr

record curve =
  cv_generator :: affine
  cv_add :: "affine \<Rightarrow> affine \<Rightarrow> affine"
  cv_mul_bigint :: "nat \<Rightarrow> affine \<Rightarrow> affine"
  cv_sqrt :: "fr \<Rightarrow> fr option"
  cv_generator_at :: "string \<Rightarrow> nat \<Rightarrow> nat \<Rightarrow> affine"
  cv_sha512 :: "u8 list \<Rightarrow> u8 list"
  cv_blake2s :: "u8 list \<Rightarrow> u8 list"

definition infinity_point :: point where
  "infinity_point = \<lparr>point_x = 0, point_y = 0, point_is_infinite = True\<rparr>"

definition to_ark_affine :: "point \<Rightarrow> affine" where
  "to_ark_affine p = (if point_is_infinite p then Affine_Zero else Affine (point_x p) (point_y p))"

primrec from_ark_affine :: "affine \<Rightarrow> point" where
  "from_ark_affine Affine_Zero = infinity_point"
| "from_ark_affine (Affine x y) = \<lparr>point_x = x, point_y = y, point_is_infinite = False\<rparr>"

definition generator :: "curve \<Rightarrow> point" where
  "generator V = from_ark_affine (cv_generator V)"

definition point_add :: "curve \<Rightarrow> point \<Rightarrow> point \<Rightarrow> point" where
  "point_add V p q = from_ark_affine (cv_add V (to_ark_affine p) (to_ark_affine q))"

definition scalar_mul :: "curve \<Rightarrow> fq \<Rightarrow> point \<Rightarrow> point" where
  "scalar_mul V scalar p =
     (if point_is_infinite p then p
      else if fq_is_zero scalar then infinity_point
      else from_ark_affine (cv_mul_bigint V (fq_bigint scalar) (to_ark_affine p)))"

definition modulus_minus_one_div_two :: nat where
  "modulus_minus_one_div_two = (fr_modulus - 1) div 2"

definition choose_positive :: "fr \<Rightarrow> bool" where
  "choose_positive candidate \<longleftrightarrow> into_bigint candidate \<le> modulus_minus_one_div_two"

definition point_from_x :: "curve \<Rightarrow> fr \<Rightarrow> point result" where
  "point_from_x V x =
     (let rhs = x * x * x - fr_from_u64 17 in
      bind_result (ok_or (InvalidData ''address x-coordinate is not on Grumpkin'') (cv_sqrt V rhs)) (\<lambda>y.
        let neg_y = - y;
            chosen = (if choose_positive y then y else if choose_positive neg_y then neg_y else y)
        in Inr \<lparr>point_x = x, point_y = chosen, point_is_infinite = False\<rparr>))"

definition has_positive_y :: "point \<Rightarrow> bool" where
  "has_positive_y p \<longleftrightarrow> into_bigint (point_y p) \<le> modulus_minus_one_div_two"

subsection \<open>Pedersen hash\<close>

definition fr_to_grumpkin_scalar :: "fr \<Rightarrow> fq" where
  "fr_to_grumpkin_scalar f = fq_from_be_bytes_mod_order (fr_to_be_bytes f)"

definition pedersen_hash :: "curve \<Rightarrow> fr list \<Rightarrow> fr" where
  "pedersen_hash V inputs =
     (let n = length inputs;
          length_gen = from_ark_affine (cv_generator_at V ''pedersen_hash_length'' 1 0);
          result = fold (\<lambda>(i, input) result.
              let gen_point = from_ark_affine (cv_generator_at V ''DEFAULT_DOMAIN_SEPARATOR'' n i);
                  term = scalar_mul V (fr_to_grumpkin_scalar input) gen_point
              in point_add V result term) (List.enumerate 0 inputs) infinity_point;
          length_term = scalar_mul V (fq_from_u64 (of_nat n)) length_gen
      in point_x (point_add V result length_term))"

subsection \<open>Schnorr signatures\<close>

record schnorr_signature =
  sig_s :: "u8 list"
  sig_e :: "u8 list"

definition signature_to_bytes :: "schnorr_signature \<Rightarrow> u8 list" where
  "signature_to_bytes sg = sig_s sg @ sig_e sg"

definition signature_from_bytes :: "u8 list \<Rightarrow> schnorr_signature" where
  "signature_from_bytes bytes = \<lparr>sig_s = take 32 bytes, sig_e = drop 32 bytes\<rparr>"

definition signature_to_fields :: "schnorr_signature \<Rightarrow> fr list" where
  "signature_to_fields sg = map (\<lambda>b. fr_from_u64 (ucast b)) (signature_to_bytes sg)"

definition generate_nonce :: "curve \<Rightarrow> fq \<Rightarrow> fr \<Rightarrow> fq" where
  "generate_nonce V private_key message =
     fq_from_be_bytes_mod_order
       (cv_blake2s V (fq_to_be_bytes private_key @ fr_to_be_bytes message))"

definition compute_challenge :: "curve \<Rightarrow> point \<Rightarrow> point \<Rightarrow> u8 list \<Rightarrow> u8 list" where
  "compute_challenge V r public_key message =
     (let pedersen_h = pedersen_hash V [point_x r, point_x public_key, point_y public_key]
      in cv_blake2s V (fr_to_be_bytes pedersen_h @ message))"

definition schnorr_sign :: "curve \<Rightarrow> fq \<Rightarrow> fr \<Rightarrow> schnorr_signature" where
  "schnorr_sign V private_key message =
     (let g = generator V;
          public_key = scalar_mul V private_key g;
          k = generate_nonce V private_key message;
          r = scalar_mul V k g;
          e_bytes = compute_challenge V r public_key (fr_to_be_bytes message);
          e_scalar = fq_from_be_bytes_mod_order e_bytes;
          s_scalar = fq_sub k (fq_mul private_key e_scalar)
      in \<lparr>sig_s = fq_to_be_bytes s_scalar, sig_e = e_bytes\<rparr>)"

definition schnorr_verify :: "curve \<Rightarrow> point \<Rightarrow> fr \<Rightarrow> schnorr_signature \<Rightarrow> bool" where
  "schnorr_verify V public_key message signature =
     (let g = generator V;
          s_scalar = fq_from_be_bytes_mod_order (sig_s signature);
          e_scalar = fq_from_be_bytes_mod_order (sig_e signature);
          s_g = scalar_mul V s_scalar g;
          e_pk = scalar_mul V e_scalar public_key;
          r_prime = point_add V s_g e_pk;
          e_prime = compute_challenge V r_prime public_key (fr_to_be_bytes message)
      in sig_e signature = e_prime)"

subsection \<open>Key derivation\<close>

definition NHK_M :: u32 where "NHK_M = 242137788"
definition IVSK_M :: u32 where "IVSK_M = 2747825907"
definition OVSK_M :: u32 where "OVSK_M = 4272201051"
definition TSK_M :: u32 where "TSK_M = 1546190975"

definition sha512_to_grumpkin_scalar :: "curve \<Rightarrow> fr \<Rightarrow> u32 \<Rightarrow> fq" where
  "sha512_to_grumpkin_scalar V secret_key separator =
     fq_from_be_bytes_mod_order
       (cv_sha512 V (fr_to_be_bytes secret_key @ be_bytes 4 (unat separator)))"

definition derive_master_nullifier_hiding_key :: "curve \<Rightarrow> fr \<Rightarrow> fq" where
  "derive_master_nullifier_hiding_key V secret_key = sha512_to_grumpkin_scalar V secret_key NHK_M"

definition derive_master_incoming_viewing_secret_key :: "curve \<Rightarrow> fr \<Rightarrow> fq" where
  "derive_master_incoming_viewing_secret_key V secret_key =
     sha512_to_grumpkin_scalar V secret_key IVSK_M"

definition derive_master_outgoing_viewing_secret_key :: "curve \<Rightarrow> fr \<Rightarrow> fq" where
  "derive_master_outgoing_viewing_secret_key V secret_key =
     sha512_to_grumpkin_scalar V secret_key OVSK_M"

definition derive_master_tagging_secret_key :: "curve \<Rightarrow> fr \<Rightarrow> fq" where
  "derive_master_tagging_secret_key V secret_key = sha512_to_grumpkin_scalar V secret_key TSK_M"

definition derive_signing_key :: "curve \<Rightarrow> fr \<Rightarrow> fq" where
  "derive_signing_key V secret_key = sha512_to_grumpkin_scalar V secret_key IVSK_M"

definition derive_public_key_from_secret_key :: "curve \<Rightarrow> fq \<Rightarrow> point" where
  "derive_public_key_from_secret_key V secret_key = scalar_mul V secret_key (generator V)"

record derived_keys =
  dk_master_nullifier_hiding_key :: fq
  dk_master_incoming_viewing_secret_key :: fq
  dk_master_outgoing_viewing_secret_key :: fq
  dk_master_tagging_secret_key :: fq
  dk_public_keys :: public_keys

definition derive_keys :: "curve \<Rightarrow> fr \<Rightarrow> derived_keys" where
  "derive_keys V secret_key =
     (let nhk_m = derive_master_nullifier_hiding_key V secret_key;
          ivsk_m = derive_master_incoming_viewing_secret_key V secret_key;
          ovsk_m = derive_master_outgoing_viewing_secret_key V secret_key;
          tsk_m = derive_master_tagging_secret_key V secret_key
      in \<lparr>dk_master_nullifier_hiding_key = nhk_m,
          dk_master_incoming_viewing_secret_key = ivsk_m,
          dk_master_outgoing_viewing_secret_key = ovsk_m,
          dk_master_tagging_secret_key = tsk_m,
          dk_public_keys =
            \<lparr>master_nullifier_public_key = derive_public_key_from_secret_key V nhk_m,
             master_incoming_viewing_public_key = derive_public_key_from_secret_key V ivsk_m,
             master_outgoing_viewing_public_key = derive_public_key_from_secret_key V ovsk_m,
             master_tagging_public_key = derive_public_key_from_secret_key V tsk_m\<rparr>\<rparr>)"

datatype key_type = Nullifier | IncomingViewing | OutgoingViewing | Tagging

fun key_type_domain_separator :: "key_type \<Rightarrow> u32" where
  "key_type_domain_separator Nullifier = NHK_M"
| "key_type_domain_separator IncomingViewing = IVSK_M"
| "key_type_domain_separator OutgoingViewing = OVSK_M"
| "key_type_domain_separator Tagging = TSK_M"

definition compute_app_secret_key :: "crypto \<Rightarrow> fq \<Rightarrow> aztec_address \<Rightarrow> key_type \<Rightarrow> fr" where
  "compute_app_secret_key C master_key app key_type =
     poseidon2_hash_with_separator C [fq_hi master_key, fq_lo master_key, address_field app]
       (key_type_domain_separator key_type)"

definition compute_app_nullifier_hiding_key :: "crypto \<Rightarrow> fq \<Rightarrow> aztec_address \<Rightarrow> fr" where
  "compute_app_nullifier_hiding_key C key app = compute_app_secret_key C key app Nullifier"

definition compute_ovsk_app :: "crypto \<Rightarrow> fq \<Rightarrow> aztec_address \<Rightarrow> fq" where
  "compute_ovsk_app C key app =
     fq_from_be_bytes_mod_order (fr_to_be_bytes (compute_app_secret_key C key app OutgoingViewing))"

subsection \<open>Addresses\<close>

definition public_keys_hash :: "crypto \<Rightarrow> public_keys \<Rightarrow> fr" where
  "public_keys_hash C pk =
     (if public_keys_is_empty pk then 0
      else poseidon2_hash_with_separator C
        (concat (map (\<lambda>p. [point_x p, point_y p, fr_from_bool (point_is_infinite p)])
           [master_nullifier_public_key pk, master_incoming_viewing_public_key pk,
            master_outgoing_viewing_public_key pk, master_tagging_public_key pk]))
        PUBLIC_KEYS_HASH)"

record complete_address =
  co_address :: aztec_address
  co_public_keys :: public_keys
  co_partial_address :: fr

definition compute_address :: "crypto \<Rightarrow> curve \<Rightarrow> public_keys \<Rightarrow> fr \<Rightarrow> aztec_address result" where
  "compute_address C V public_keys partial_address =
     (let preaddress = poseidon2_hash_with_separator C
            [public_keys_hash C public_keys, partial_address] CONTRACT_ADDRESS_V1;
          preaddress_fq = fq_from_be_bytes_mod_order (fr_to_be_bytes preaddress);
          preaddress_point = scalar_mul V preaddress_fq (generator V);
          ivpk_m = master_incoming_viewing_public_key public_keys;
          address_point =
            (if point_is_zero ivpk_m then preaddress_point else point_add V preaddress_point ivpk_m)
      in if point_is_infinite address_point
         then Inl (InvalidData ''address derivation resulted in point at infinity'')
         else Inr (AztecAddress (point_x address_point)))"

definition complete_address_from_secret_key_and_partial_address ::
    "crypto \<Rightarrow> curve \<Rightarrow> fr \<Rightarrow> fr \<Rightarrow> complete_address result" where
  "complete_address_from_secret_key_and_partial_address C V secret_key partial_address =
     (let derived = derive_keys V secret_key in
      bind_result (compute_address C V (dk_public_keys derived) partial_address) (\<lambda>address.
        Inr \<lparr>co_address = address, co_public_keys = dk_public_keys derived,
             co_partial_address = partial_address\<rparr>))"

subsection \<open>Arithmetic of the base field\<close>

lemma fq_modulus_pos [simp]: "0 < fq_modulus"
  by (simp add: fq_modulus_def)

lemma fq_bigint_less [simp]: "fq_bigint a < fq_modulus"
  using fq_bigint[of a] by simp

lemma fq_bigint_of_nat [simp]: "fq_bigint (fq_of_nat n) = n mod fq_modulus"
  by transfer simp

lemma fq_of_nat_bigint [simp]: "fq_of_nat (fq_bigint a) = a"
  by transfer simp

lemma fq_bigint_zero [simp]: "fq_bigint fq_zero = 0"
  by (simp add: fq_zero_def)

lemma fq_is_zero_iff: "fq_is_zero a \<longleftrightarrow> fq_bigint a = 0"
  using fq_of_nat_bigint[of a] by (auto simp: fq_is_zero_def fq_zero_def simp del: fq_of_nat_bigint)

lemma fq_bigint_inject: "fq_bigint a = fq_bigint b \<longleftrightarrow> a = b"
  by (rule fq_bigint_inject)

lemma fq_bigint_lt_pow: "fq_bigint a < 256 ^ 32"
proof -
  have "fq_modulus < 256 ^ 32" by (simp add: fq_modulus_def)
  then show ?thesis using fq_bigint_less[of a] by linarith
qed

lemma length_fq_to_be_bytes [simp]: "length (fq_to_be_bytes a) = 32"
  by (simp add: fq_to_be_bytes_def)

lemma of_be_bytes_fq [simp]: "of_be_bytes (fq_to_be_bytes a) = fq_bigint a"
  using fq_bigint_lt_pow[of a] by (simp add: fq_to_be_bytes_def of_be_bytes_be_bytes)

lemma fq_bytes_roundtrip [simp]: "fq_from_be_bytes_mod_order (fq_to_be_bytes a) = a"
  by (simp add: fq_from_be_bytes_mod_order_def)

text \<open>\<open>k - x * e\<close> and \<open>e * x\<close> add up to \<open>k\<close>.\<close>

lemma fq_sub_mul:
  "(fq_bigint (fq_sub k (fq_mul x e)) + fq_bigint e * fq_bigint x) mod fq_modulus = fq_bigint k"
proof -
  let ?p = "fq_bigint x * fq_bigint e"
  have "?p mod fq_modulus \<le> fq_modulus" by (simp add: less_imp_le)
  then have "(fq_modulus - ?p mod fq_modulus + ?p) mod fq_modulus = 0"
    by (metis le_add_diff_inverse2 mod_add_right_eq mod_self)
  then have "(fq_bigint k + (fq_modulus - ?p mod fq_modulus + ?p)) mod fq_modulus = fq_bigint k"
    by (metis add_cancel_left_right fq_bigint_less mod_add_right_eq mod_less)
  then have "(fq_bigint k + (fq_modulus - ?p mod fq_modulus) + ?p) mod fq_modulus = fq_bigint k"
    by (simp only: add.assoc)
  then show ?thesis
    unfolding fq_sub_def fq_mul_def fq_bigint_of_nat mod_add_left_eq by (simp only: mult.commute)
qed

lemma fq_hi_lo: "into_bigint (fq_hi a) * 2 ^ 128 + into_bigint (fq_lo a) = fq_bigint a"
proof -
  have small: "into_bigint (fr_from_be_bytes_mod_order (replicate 16 0 @ bs)) = of_be_bytes bs"
    if "length bs = 16" for bs
  proof -
    have "of_be_bytes bs < 256 ^ 16" using of_be_bytes_less[of bs] that by simp
    moreover have "256 ^ 16 \<le> fr_modulus" by (simp add: fr_modulus_def)
    ultimately show ?thesis by (simp add: fr_from_be_bytes_mod_order_def)
  qed
  have "of_be_bytes (take 16 (fq_to_be_bytes a) @ drop 16 (fq_to_be_bytes a)) =
      of_be_bytes (take 16 (fq_to_be_bytes a)) * 256 ^ 16 + of_be_bytes (drop 16 (fq_to_be_bytes a))"
    by (subst of_be_bytes_append) simp
  then have "fq_bigint a =
      of_be_bytes (take 16 (fq_to_be_bytes a)) * 256 ^ 16 + of_be_bytes (drop 16 (fq_to_be_bytes a))"
    by simp
  then show ?thesis by (simp add: fq_hi_def fq_lo_def small)
qed

lemma fq_hi_lo_inject: "fq_hi a = fq_hi b \<and> fq_lo a = fq_lo b \<longleftrightarrow> a = b"
  using fq_hi_lo[of a] fq_hi_lo[of b] fq_bigint_inject by metis

subsection \<open>The group of multiples of the generator\<close>

definition curve_ok :: "curve \<Rightarrow> bool" where
  "curve_ok V \<longleftrightarrow>
     (let G = cv_generator V; mul = cv_mul_bigint V in
      mul 0 G = Affine_Zero \<and> mul 1 G = G \<and>
      (\<forall>m n. cv_add V (mul m G) (mul n G) = mul (m + n) G) \<and>
      (\<forall>m n. mul m (mul n G) = mul (m * n) G) \<and>
      (\<forall>n. mul (n mod fq_modulus) G = mul n G))"

lemma to_from_ark_affine [simp]: "to_ark_affine (from_ark_affine a) = a"
  by (cases a) (simp_all add: to_ark_affine_def infinity_point_def)

lemma from_ark_affine_infinite [simp]: "point_is_infinite (from_ark_affine a) \<longleftrightarrow> a = Affine_Zero"
  by (cases a) (simp_all add: infinity_point_def)

text \<open>The multiple of the generator by \<open>n\<close>, as a point.\<close>

definition multiple :: "curve \<Rightarrow> nat \<Rightarrow> point" where
  "multiple V n = from_ark_affine (cv_mul_bigint V n (cv_generator V))"

lemma generator_multiple: "curve_ok V \<Longrightarrow> generator V = multiple V 1"
  by (simp add: curve_ok_def generator_def multiple_def Let_def)

lemma multiple_zero: "curve_ok V \<Longrightarrow> multiple V 0 = infinity_point"
  by (simp add: curve_ok_def multiple_def Let_def)

lemma multiple_mod: "curve_ok V \<Longrightarrow> multiple V (n mod fq_modulus) = multiple V n"
  by (simp add: curve_ok_def multiple_def Let_def)

lemma point_add_multiple: "curve_ok V \<Longrightarrow> point_add V (multiple V m) (multiple V n) = multiple V (m + n)"
  by (simp add: curve_ok_def multiple_def point_add_def Let_def)

lemma scalar_mul_multiple:
  assumes "curve_ok V"
  shows "scalar_mul V k (multiple V n) = multiple V (fq_bigint k * n)"
proof -
  have mul: "cv_mul_bigint V m (cv_mul_bigint V n (cv_generator V)) =
      cv_mul_bigint V (m * n) (cv_generator V)" for m
    using assms by (simp add: curve_ok_def Let_def)
  have zero: "cv_mul_bigint V m Affine_Zero = Affine_Zero" for m
    using assms by (metis curve_ok_def mult_is_0)
  show ?thesis
  proof (cases "cv_mul_bigint V n (cv_generator V) = Affine_Zero")
    case True
    then have "cv_mul_bigint V (fq_bigint k * n) (cv_generator V) = Affine_Zero"
      using mul[of "fq_bigint k"] zero by simp
    with True show ?thesis by (simp add: scalar_mul_def multiple_def infinity_point_def)
  next
    case False
    then show ?thesis
      using multiple_zero[OF assms]
      by (simp add: scalar_mul_def multiple_def mul fq_is_zero_iff)
  qed
qed

lemma scalar_mul_generator:
  "curve_ok V \<Longrightarrow> scalar_mul V k (generator V) = multiple V (fq_bigint k)"
  by (simp add: generator_multiple scalar_mul_multiple)

text \<open>A concrete curve group, the integers modulo the order, to instantiate the parameters.\<close>

definition example_encode :: "nat \<Rightarrow> affine" where
  "example_encode n =
     (if n mod fq_modulus = 0 then Affine_Zero
      else Affine (fr_of_nat (n mod fq_modulus)) (fr_of_nat (n mod fq_modulus div fr_modulus)))"

primrec example_decode :: "affine \<Rightarrow> nat" where
  "example_decode Affine_Zero = 0"
| "example_decode (Affine x y) = into_bigint x + fr_modulus * into_bigint y"

definition example_curve :: curve where
  "example_curve =
     \<lparr>cv_generator = example_encode 1,
      cv_add = (\<lambda>p q. example_encode (example_decode p + example_decode q)),
      cv_mul_bigint = (\<lambda>n p. example_encode (n * example_decode p)),
      cv_sqrt = (\<lambda>v. if v = - 16
        then Some (fr_of_nat 17631683881184975370165255887551781615748388533673675138860) else None),
      cv_generator_at = (\<lambda>_ _ i. example_encode (Suc i)),
      cv_sha512 = (\<lambda>bs. replicate 64 1), cv_blake2s = (\<lambda>bs. replicate 32 1)\<rparr>"

lemma example_decode_encode: "example_decode (example_encode n) = n mod fq_modulus"
proof -
  have "n mod fq_modulus < fq_modulus" by simp
  moreover have "fq_modulus \<le> fr_modulus * fr_modulus" by (simp add: fq_modulus_def fr_modulus_def)
  ultimately have "n mod fq_modulus div fr_modulus < fr_modulus"
    by (metis fr_modulus_pos less_le_trans less_mult_imp_div_less)
  then show ?thesis
    by (auto simp: example_encode_def)
qed

lemma example_encode_mod: "example_encode (n mod fq_modulus) = example_encode n"
  by (simp add: example_encode_def)

lemma example_curve_ok: "curve_ok example_curve"
proof -
  have one: "example_decode (example_encode 1) = 1"
    by (simp add: example_decode_encode fq_modulus_def)
  have "example_encode (m mod fq_modulus + n mod fq_modulus) = example_encode (m + n)"
    and "example_encode (m * (n mod fq_modulus)) = example_encode (m * n)" for m n
    by (metis example_encode_mod mod_add_eq) (metis example_encode_mod mod_mult_right_eq)
  then show ?thesis
    by (simp add: curve_ok_def example_curve_def Let_def one[simplified] example_decode_encode
        example_encode_mod) (simp add: example_encode_def)
qed

subsection \<open>Properties\<close>

lemma signature_bytes_roundtrip:
  "signature_from_bytes (signature_to_bytes (schnorr_sign V key message)) = schnorr_sign V key message"
  by (simp add: signature_from_bytes_def signature_to_bytes_def schnorr_sign_def Let_def)

lemma schnorr_verifies:
  assumes "curve_ok V"
  shows "schnorr_verify V (derive_public_key_from_secret_key V key) message (schnorr_sign V key message)"
proof -
  let ?sig = "schnorr_sign V key message"
  let ?k = "generate_nonce V key message"
  let ?e = "fq_from_be_bytes_mod_order (sig_e ?sig)"
  have "point_add V (multiple V (fq_bigint (fq_sub ?k (fq_mul key ?e))))
      (multiple V (fq_bigint ?e * fq_bigint key)) = multiple V (fq_bigint ?k)"
    using fq_sub_mul[of ?k key ?e] multiple_mod[OF assms] point_add_multiple[OF assms] by metis
  then show ?thesis
    by (simp add: schnorr_verify_def derive_public_key_from_secret_key_def Let_def
        scalar_mul_generator[OF assms] scalar_mul_multiple[OF assms])
      (simp add: schnorr_sign_def Let_def scalar_mul_generator[OF assms])
qed

text \<open>
  C15. Signatures verify: for every private key and message, the signature that \<open>schnorr_sign\<close>
  produces is accepted by \<open>schnorr_verify\<close> under the derived public key, also after a round trip
  through its 64 bytes. The nonce point is recomputed exactly, edge cases such as a zero key or a zero
  challenge included.
\<close>

theorem schnorr_roundtrip:
  assumes "curve_ok V"
  shows "schnorr_verify V (derive_public_key_from_secret_key V key) message
    (signature_from_bytes (signature_to_bytes (schnorr_sign V key message)))"
  unfolding signature_bytes_roundtrip by (rule schnorr_verifies[OF assms])

theorem schnorr_roundtrip_witness:
  "schnorr_verify example_curve (derive_public_key_from_secret_key example_curve (fq_of_nat 5)) 7
    (signature_from_bytes (signature_to_bytes (schnorr_sign example_curve (fq_of_nat 5) 7)))"
  by (rule schnorr_roundtrip[OF example_curve_ok])

text \<open>
  Recovering a point from an address. When the square root is sound, \<open>point_from_x\<close> keeps the
  coordinate it is given, returns a finite point of the curve \<open>y\<^sup>2 = x\<^sup>3 - 17\<close>, and always the one
  with the positive \<open>y\<close>, whichever root was found; it fails exactly when there is no root.
\<close>

lemma point_from_x_canonical:
  assumes "\<And>v y. cv_sqrt V v = Some y \<Longrightarrow> y * y = v"
  shows "case point_from_x V x of
      Inr p \<Rightarrow> point_x p = x \<and> point_y p * point_y p = x * x * x - 17 \<and>
        \<not> point_is_infinite p \<and> has_positive_y p
    | Inl e \<Rightarrow> cv_sqrt V (x * x * x - 17) = None"
proof -
  have u17: "fr_from_u64 17 = 17"
    by (simp add: fr_from_u64_def of_nat_fr[symmetric])
  have flip: "choose_positive (- y)" if "\<not> choose_positive y" for y
  proof -
    have "into_bigint (- y) = fr_modulus - into_bigint y"
    proof -
      have "into_bigint y \<noteq> 0" using that by (auto simp: choose_positive_def)
      then have "fr_modulus - into_bigint y < fr_modulus" by simp
      then show ?thesis by (simp add: uminus_fr_def)
    qed
    then show ?thesis
      using that into_bigint_less[of y]
      by (simp add: choose_positive_def modulus_minus_one_div_two_def fr_modulus_def)
  qed
  show ?thesis
  proof (cases "cv_sqrt V (x * x * x - 17)")
    case None
    then show ?thesis by (simp add: point_from_x_def u17)
  next
    case (Some y)
    then have "y * y = x * x * x - 17" by (rule assms)
    then show ?thesis
      using Some flip[of y]
      by (simp add: point_from_x_def u17 has_positive_y_def Let_def flip: choose_positive_def)
  qed
qed

text \<open>
  App keys are domain separated: the fields that \<open>compute_app_secret_key\<close> hashes determine the
  master key, the app and the kind of key, so two derivations hash the same input only when they are
  the same derivation.
\<close>

lemma app_keys_separated:
  "compute_app_secret_key C key app kind =
     poseidon2_hash C (fr_from_u64 (ucast (key_type_domain_separator kind)) #
       [fq_hi key, fq_lo key, address_field app]) \<and>
   (fr_from_u64 (ucast (key_type_domain_separator kind)) # [fq_hi key, fq_lo key, address_field app] =
      fr_from_u64 (ucast (key_type_domain_separator kind')) # [fq_hi key', fq_lo key', address_field app']
    \<longleftrightarrow> kind = kind' \<and> key = key' \<and> app = app')"
proof -
  have "fr_from_u64 u = fr_from_u64 v \<longleftrightarrow> u = v" for u v
    by (metis into_bigint_fr_from_u64 word_unat_eq_iff)
  moreover have "(ucast (key_type_domain_separator kind) :: u64) = ucast (key_type_domain_separator kind')
      \<longleftrightarrow> kind = kind'"
    by (cases kind; cases kind') (simp_all add: NHK_M_def IVSK_M_def OVSK_M_def TSK_M_def)
  moreover have "address_field app = address_field app' \<longleftrightarrow> app = app'"
    by (cases app; cases app') simp
  ultimately show ?thesis
    using fq_hi_lo_inject[of key key']
    by (auto simp: compute_app_secret_key_def poseidon2_hash_with_separator_def
        poseidon2_hash_with_separator_field_def)
qed

end
