(* ===== verification/Nargo_Artifact.thy ===== *)
theory Nargo_Artifact
  imports Abi
begin

text \<open>
  Contract artifacts from raw compiler output: \<open>ContractArtifact::from_nargo_json\<close> and its helpers in
  \<open>crates/core/src/abi/types.rs\<close>. The JSON text is parsed by \<open>serde_json\<close>; the model starts from the
  parsed value. The \<open>from_value\<close> conversions of a field element and of a list of strings are a
  parameter and a function here.
\<close>

subsection \<open>Accessors of JSON values\<close>

fun js_field :: "string \<Rightarrow> json \<Rightarrow> json option" where
  "js_field key (JsObject entries) = map_of entries key"
| "js_field key _ = None"

fun js_str :: "json \<Rightarrow> string option" where
  "js_str (JsString s) = Some s"
| "js_str _ = None"

fun js_u64 :: "json \<Rightarrow> u64 option" where
  "js_u64 (JsNumber _ n) = n"
| "js_u64 _ = None"

fun js_bool :: "json \<Rightarrow> bool option" where
  "js_bool (JsBool b) = Some b"
| "js_bool _ = None"

fun js_array :: "json \<Rightarrow> json list option" where
  "js_array (JsArray js) = Some js"
| "js_array _ = None"

definition or_else_opt :: "'a option \<Rightarrow> 'a option \<Rightarrow> 'a option" where
  "or_else_opt x y = (case x of None \<Rightarrow> y | Some v \<Rightarrow> Some v)"

definition unwrap_or :: "'a \<Rightarrow> 'a option \<Rightarrow> 'a" where
  "unwrap_or d x = (case x of None \<Rightarrow> d | Some v \<Rightarrow> v)"

text \<open>\<open>from_value::<Vec<String>>\<close>.\<close>

fun js_strings :: "json \<Rightarrow> string list option" where
  "js_strings (JsArray js) =
     (if list_all (\<lambda>j. js_str j \<noteq> None) js then Some (List.map_filter js_str js) else None)"
| "js_strings _ = None"

definition type_path :: "json \<Rightarrow> string" where
  "type_path p = unwrap_or [] (Option.bind (Option.bind (js_field ''type'' p) (js_field ''path'')) js_str)"

definition contains :: "string \<Rightarrow> string \<Rightarrow> bool" where
  "contains needle s \<longleftrightarrow> sublist needle s"

subsection \<open>Types\<close>

text \<open>Fields of an object are smaller than the object.\<close>

lemma js_field_size: "js_field key j = Some v \<Longrightarrow> size v < size j"
proof (cases j)
  case (JsObject entries)
  assume "js_field key j = Some v"
  with JsObject have "(key, v) \<in> set entries" by (simp add: map_of_SomeD)
  then have "size v \<le> size_list (size_prod (\<lambda>_. 0) size) entries"
    by (metis (no_types, lifting) size_list_estimation' dual_order.refl size_prod_simp snd_conv
        add_leE le_add2 prod.size(1) add.left_neutral trans_le_add1)
  with JsObject show ?thesis by simp
qed simp_all

lemma js_array_size: "js_array j = Some js \<Longrightarrow> x \<in> set js \<Longrightarrow> size x < size j"
  by (cases j) (auto simp: size_list_estimation' less_Suc_eq_le)

lemma map_filter_cong [fundef_cong]:
  "xs = ys \<Longrightarrow> (\<And>x. x \<in> set ys \<Longrightarrow> f x = g x) \<Longrightarrow> List.map_filter f xs = List.map_filter g ys"
  by (auto simp: List.map_filter_def intro!: map_cong filter_cong)

function parse_nargo_type :: "json \<Rightarrow> abi_type option"
  and parse_nargo_parameter :: "json \<Rightarrow> abi_parameter option" where
  "parse_nargo_type raw =
     Option.bind (Option.bind (js_field ''kind'' raw) js_str) (\<lambda>kind.
       if kind = ''field'' then Some TField
       else if kind = ''boolean'' then Some TBoolean
       else if kind = ''integer'' then
         Some (TInteger
           (unwrap_or ''unsigned'' (Option.bind (js_field ''sign'' raw) js_str))
           (ucast (unwrap_or 32 (Option.bind (js_field ''width'' raw) js_u64))))
       else if kind = ''array'' then
         Option.bind (Option.bind (or_else_opt (js_field ''type'' raw) (js_field ''element'' raw))
             parse_nargo_type)
           (\<lambda>element. Some (TArray element
              (unat (unwrap_or 0 (Option.bind (js_field ''length'' raw) js_u64)))))
       else if kind = ''string'' then
         Some (TString (unat (unwrap_or 0 (Option.bind (js_field ''length'' raw) js_u64))))
       else if kind = ''struct'' then
         Option.bind (Option.bind (js_field ''fields'' raw) js_array) (\<lambda>raw_fields.
           Some (TStruct (unwrap_or ''Unknown'' (Option.bind (js_field ''path'' raw) js_str))
             (List.map_filter parse_nargo_parameter raw_fields)))
       else if kind = ''tuple'' then
         Option.bind (Option.bind (or_else_opt (js_field ''fields'' raw) (js_field ''elements'' raw))
             js_array)
           (\<lambda>raw_elements. Some (TTuple (List.map_filter parse_nargo_type raw_elements)))
       else Some TField)"
| "parse_nargo_parameter raw =
     Option.bind (Option.bind (js_field ''name'' raw) js_str) (\<lambda>name.
     Option.bind (Option.bind (js_field ''type'' raw) parse_nargo_type) (\<lambda>typ.
       Some (AbiParameter name typ (Option.bind (js_field ''visibility'' raw) js_str))))"
  by pat_completeness auto
termination
proof (relation "measure (case_sum size size)", goal_cases)
  case 1
  then show ?case by simp
next
  case (2 raw kind x)
  then show ?case by (auto simp: or_else_opt_def dest: js_field_size split: option.splits)
next
  case (3 raw kind xs x)
  then show ?case by (auto simp: Option.bind_eq_Some_conv dest!: js_field_size js_array_size)
next
  case (4 raw kind xs x)
  then show ?case
    by (auto simp: Option.bind_eq_Some_conv or_else_opt_def dest!: js_field_size js_array_size
        split: option.splits)
next
  case (5 raw name x)
  then show ?case by (auto dest: js_field_size)
qed

declare parse_nargo_type.simps [simp del] parse_nargo_parameter.simps [simp del]

subsection \<open>Functions and contracts\<close>

definition fr_deserialize :: "hex_crate \<Rightarrow> json \<Rightarrow> fr option" where
  "fr_deserialize H j = Option.bind (js_str j) (\<lambda>s. result_ok (fr_from_hex H s))"

definition nargo_function_type :: "string list \<Rightarrow> bool \<Rightarrow> function_type" where
  "nargo_function_type attrs is_unconstrained =
     (if ''abi_private'' \<in> set attrs then Private
      else if ''abi_utility'' \<in> set attrs then Utility
      else if ''abi_public'' \<in> set attrs then Public
      else if is_unconstrained then Utility
      else Private)"

definition strip_internals :: "string \<Rightarrow> string" where
  "strip_internals raw_name =
     unwrap_or raw_name
       (or_else_opt (strip_prefix ''__aztec_nr_internals__'' raw_name)
          (strip_prefix ''__aztec_nr_internals___'' raw_name))"

definition raw_parameters :: "json \<Rightarrow> json list option" where
  "raw_parameters raw =
     Option.bind (Option.bind (js_field ''abi'' raw) (js_field ''parameters'')) js_array"

definition is_context_inputs :: "json \<Rightarrow> bool" where
  "is_context_inputs p \<longleftrightarrow>
     unwrap_or [] (Option.bind (js_field ''name'' p) js_str) = ''inputs'' \<and>
     contains ''PrivateContextInputs'' (type_path p)"

definition parse_nargo_function :: "crypto \<Rightarrow> hex_crate \<Rightarrow> json \<Rightarrow> function_artifact option" where
  "parse_nargo_function C H raw =
     Option.bind (Option.bind (js_field ''name'' raw) js_str) (\<lambda>raw_name.
       let attrs = unwrap_or [] (Option.bind (js_field ''custom_attributes'' raw) js_strings);
           is_unconstrained = unwrap_or False (Option.bind (js_field ''is_unconstrained'' raw) js_bool);
           function_type = nargo_function_type attrs is_unconstrained;
           name = strip_internals raw_name;
           abi = js_field ''abi'' raw;
           parameters = List.map_filter parse_nargo_parameter
             (filter (\<lambda>p. \<not> (function_type = Private \<and> is_context_inputs p))
               (unwrap_or [] (raw_parameters raw)));
           return_types = (case Option.bind (Option.bind (Option.bind abi (js_field ''return_type''))
               (js_field ''abi_type'')) parse_nargo_type of None \<Rightarrow> [] | Some t \<Rightarrow> [t])
       in Some
         \<lparr>fa_name = name, fa_function_type = function_type,
          fa_is_initializer = (''abi_initializer'' \<in> set attrs),
          fa_is_static = (''abi_view'' \<in> set attrs),
          fa_is_only_self = (if ''abi_only_self'' \<in> set attrs then Some True else None),
          fa_parameters = parameters, fa_return_types = return_types,
          fa_error_types = Option.bind abi (js_field ''error_types''),
          fa_selector = Some (function_selector_from_name_and_parameters C name parameters),
          fa_bytecode = Option.bind (js_field ''bytecode'' raw) js_str,
          fa_verification_key_hash =
            Option.bind (or_else_opt (js_field ''verification_key_hash'' raw)
              (js_field ''verificationKeyHash'' raw)) (fr_deserialize H),
          fa_verification_key =
            Option.bind (or_else_opt (js_field ''verification_key'' raw)
              (js_field ''verificationKey'' raw)) js_str,
          fa_custom_attributes = Some attrs, fa_is_unconstrained = Some is_unconstrained,
          fa_debug_symbols = js_field ''debug_symbols'' raw\<rparr>)"

text \<open>The loop over the parameters of a private function that records the size of its inputs.\<close>

definition context_inputs_size :: "string \<Rightarrow> json list \<Rightarrow> (string \<rightharpoonup> nat) \<Rightarrow> (string \<rightharpoonup> nat)" where
  "context_inputs_size name params sizes =
     fold (\<lambda>p sizes.
       if is_context_inputs p then
         (case Option.bind (js_field ''type'' p) parse_nargo_type of
            Some typ \<Rightarrow> sizes(name \<mapsto> count_abi_type_fields typ)
          | None \<Rightarrow> sizes)
       else sizes) params sizes"

fun parse_nargo_functions ::
    "crypto \<Rightarrow> hex_crate \<Rightarrow> json list \<Rightarrow> function_artifact list \<times> (string \<rightharpoonup> nat) \<Rightarrow>
     function_artifact list \<times> (string \<rightharpoonup> nat)" where
  "parse_nargo_functions C H [] acc = acc"
| "parse_nargo_functions C H (raw_fn # raws) (functions, sizes) =
     (case parse_nargo_function C H raw_fn of
        None \<Rightarrow> parse_nargo_functions C H raws (functions, sizes)
      | Some func \<Rightarrow>
          let sizes' =
            (if fa_function_type func = Private then
               (case raw_parameters raw_fn of
                  Some params \<Rightarrow> context_inputs_size (fa_name func) params sizes
                | None \<Rightarrow> sizes)
             else sizes)
          in parse_nargo_functions C H raws (functions @ [func], sizes'))"

definition from_nargo_json :: "crypto \<Rightarrow> hex_crate \<Rightarrow> json \<Rightarrow> contract_artifact" where
  "from_nargo_json C H raw =
     (let raw_functions = unwrap_or [] (Option.bind (js_field ''functions'' raw) js_array);
          (functions, context_inputs_sizes) = parse_nargo_functions C H raw_functions ([], Map.empty)
      in \<lparr>ca_name = unwrap_or ''Unknown'' (Option.bind (js_field ''name'' raw) js_str),
          ca_functions = functions, ca_outputs = js_field ''outputs'' raw,
          ca_file_map = js_field ''file_map'' raw,
          ca_context_inputs_sizes = Some context_inputs_sizes\<rparr>)"

subsection \<open>The compiler's notation for types\<close>

definition js_nat :: "nat \<Rightarrow> json" where
  "js_nat n = JsNumber (nat_display n) (Some (of_nat n))"

fun nargo_type :: "abi_type \<Rightarrow> json"
  and nargo_parameter :: "abi_parameter \<Rightarrow> json" where
  "nargo_type TField = JsObject [(''kind'', JsString ''field'')]"
| "nargo_type TBoolean = JsObject [(''kind'', JsString ''boolean'')]"
| "nargo_type (TInteger sign width) =
     JsObject [(''kind'', JsString ''integer''), (''sign'', JsString sign), (''width'', js_nat (unat width))]"
| "nargo_type (TArray element len) =
     JsObject [(''kind'', JsString ''array''), (''length'', js_nat len), (''type'', nargo_type element)]"
| "nargo_type (TString len) = JsObject [(''kind'', JsString ''string''), (''length'', js_nat len)]"
| "nargo_type (TStruct name flds) =
     JsObject [(''kind'', JsString ''struct''), (''path'', JsString name),
       (''fields'', JsArray (map nargo_parameter flds))]"
| "nargo_type (TTuple elements) =
     JsObject [(''kind'', JsString ''tuple''), (''fields'', JsArray (map nargo_type elements))]"
| "nargo_parameter (AbiParameter name typ visibility) =
     JsObject ([(''name'', JsString name), (''type'', nargo_type typ)] @
       (case visibility of None \<Rightarrow> [] | Some v \<Rightarrow> [(''visibility'', JsString v)]))"

text \<open>Lengths are \<open>usize\<close> values.\<close>

fun lengths_fit :: "abi_type \<Rightarrow> bool"
  and parameter_fits :: "abi_parameter \<Rightarrow> bool" where
  "lengths_fit (TArray element len) \<longleftrightarrow> len < 2 ^ 64 \<and> lengths_fit element"
| "lengths_fit (TString len) \<longleftrightarrow> len < 2 ^ 64"
| "lengths_fit (TStruct name flds) \<longleftrightarrow> list_all parameter_fits flds"
| "lengths_fit (TTuple elements) \<longleftrightarrow> list_all lengths_fit elements"
| "lengths_fit _ \<longleftrightarrow> True"
| "parameter_fits (AbiParameter name typ visibility) \<longleftrightarrow> lengths_fit typ"

lemma map_filter_roundtrip:
  "(\<And>x. x \<in> set xs \<Longrightarrow> f (g x) = Some x) \<Longrightarrow> List.map_filter f (map g xs) = xs"
  by (induction xs) (simp_all add: map_filter_simps)

lemma unwrap_or_simps [simp]: "unwrap_or d None = d" "unwrap_or d (Some x) = x"
  by (simp_all add: unwrap_or_def)

lemma or_else_opt_simps [simp]: "or_else_opt None y = y" "or_else_opt (Some x) y = Some x"
  by (simp_all add: or_else_opt_def)

lemma js_u64_js_nat [simp]: "js_u64 (js_nat n) = Some (of_nat n)"
  by (simp add: js_nat_def)

lemma nargo_roundtrip:
  "lengths_fit t \<Longrightarrow> parse_nargo_type (nargo_type t) = Some t"
  "parameter_fits p \<Longrightarrow> parse_nargo_parameter (nargo_parameter p) = Some p"
proof (induction t and p rule: nargo_type_nargo_parameter.induct)
  case (3 sign width)
  have "ucast (of_nat (unat width) :: u64) = width"
    by (simp add: word_unat_eq_iff unsigned_ucast_eq take_bit_word_eq_self)
  then show ?case by (subst parse_nargo_type.simps) simp
next
  case (4 element len)
  then show ?case by (subst parse_nargo_type.simps) (simp add: unat_of_nat)
next
  case (5 len)
  then show ?case by (subst parse_nargo_type.simps) (simp add: unat_of_nat)
next
  case (6 name flds)
  then show ?case
    by (subst parse_nargo_type.simps) (auto simp: list_all_iff intro!: map_filter_roundtrip)
next
  case (7 elements)
  then show ?case
    by (subst parse_nargo_type.simps) (auto simp: list_all_iff intro!: map_filter_roundtrip)
next
  case (8 name t visibility)
  then show ?case
    by (subst parse_nargo_parameter.simps) (simp split: option.splits)
qed ((subst parse_nargo_type.simps, simp)+)

lemma js_field_name: "js_field ''name'' (nargo_parameter p) = Some (JsString (param_name p))"
  by (cases p) simp

subsection \<open>Properties\<close>

text \<open>
  The second alternative of \<open>strip_internals\<close> can never apply: the first prefix is a prefix of it, so
  a name with three underscores after the marker keeps one.
\<close>

lemma strip_internals_keeps_underscore:
  "strip_internals (''__aztec_nr_internals___'' @ name) = ''_'' @ name"
  by (simp add: strip_internals_def strip_prefix_def)

text \<open>
  Types of compiler output. Every ABI type, nested structures and tuples included, is read back
  from the notation the compiler writes for it, so the argument encoder sees the declared types; and
  a function whose only difference is the context inputs parameter keeps exactly the other
  parameters, with the size of the inputs recorded under its name.
\<close>

lemma nargo_parameters_roundtrip:
  assumes "list_all parameter_fits ps" and "lengths_fit inputs"
    and "inputs = TStruct path flds" and "contains ''PrivateContextInputs'' path"
    and "list_all (\<lambda>p. param_name p \<noteq> ''inputs'') ps"
    and "raw = JsObject [(''name'', JsString name), (''custom_attributes'', JsArray [JsString ''abi_private'']),
      (''abi'', JsObject [(''parameters'',
        JsArray (map nargo_parameter (AbiParameter ''inputs'' inputs None # ps)))])]"
  shows "\<exists>f. from_nargo_json C H (JsObject [(''functions'', JsArray [raw])]) =
      \<lparr>ca_name = ''Unknown'', ca_functions = [f], ca_outputs = None, ca_file_map = None,
       ca_context_inputs_sizes = Some [strip_internals name \<mapsto> count_abi_type_fields inputs]\<rparr> \<and>
    fa_name f = strip_internals name \<and> fa_function_type f = Private \<and> fa_parameters f = ps \<and>
    fa_selector f = Some (function_selector_from_name_and_parameters C (strip_internals name) ps)"
proof -
  let ?in = "nargo_parameter (AbiParameter ''inputs'' inputs None)"
  have inputs: "is_context_inputs ?in" "parse_nargo_type (nargo_type inputs) = Some inputs"
    using assms(3,4) nargo_roundtrip(1)[OF assms(2)] by (simp_all add: is_context_inputs_def type_path_def)
  have other: "\<not> is_context_inputs (nargo_parameter p)" if "p \<in> set ps" for p
    using that assms(5) by (auto simp: is_context_inputs_def list_all_iff js_field_name)
  then have filtered: "filter (\<lambda>p. \<not> is_context_inputs p) (map nargo_parameter ps) = map nargo_parameter ps"
    by (simp add: filter_id_conv)
  have parsed: "List.map_filter parse_nargo_parameter (map nargo_parameter ps) = ps"
    using assms(1) by (intro map_filter_roundtrip nargo_roundtrip(2)) (simp add: list_all_iff)
  have sizes: "context_inputs_size nm (map nargo_parameter qs) sz = sz"
    if "set qs \<subseteq> set ps" for qs nm sz
    using that other by (induction qs arbitrary: sz) (simp_all add: context_inputs_size_def)
  have size: "context_inputs_size nm (map nargo_parameter (AbiParameter ''inputs'' inputs None # ps)) sz =
      sz(nm \<mapsto> count_abi_type_fields inputs)" for nm sz
    using sizes[of ps nm "sz(nm \<mapsto> count_abi_type_fields inputs)"] inputs
    by (simp add: context_inputs_size_def)
  have raws: "raw_parameters raw = Some (map nargo_parameter (AbiParameter ''inputs'' inputs None # ps))"
    by (simp add: raw_parameters_def assms(6))
  have kept: "filter (\<lambda>p. \<not> is_context_inputs p)
      (map nargo_parameter (AbiParameter ''inputs'' inputs None # ps)) = map nargo_parameter ps"
    using inputs(1) filtered by simp
  have raw: "js_field ''name'' raw = Some (JsString name)"
    "js_field ''custom_attributes'' raw = Some (JsArray [JsString ''abi_private''])"
    "js_field ''is_unconstrained'' raw = None"
    by (simp_all add: assms(6))
  have attrs: "js_strings (JsArray [JsString ''abi_private'']) = Some [''abi_private'']"
    by (simp add: map_filter_simps)
  obtain f where f: "parse_nargo_function C H raw = Some f" "fa_name f = strip_internals name"
    "fa_function_type f = Private" "fa_parameters f = ps"
    "fa_selector f = Some (function_selector_from_name_and_parameters C (strip_internals name) ps)"
    unfolding parse_nargo_function_def raw raws
    by (simp only: Option.bind.simps js_str.simps attrs unwrap_or_simps Let_def nargo_function_type_def
        list.set insertI1 if_True simp_thms kept parsed) simp
  then show ?thesis
    by (intro exI[of _ f]) (simp add: from_nargo_json_def raws size Let_def del: list.map nargo_parameter.simps)
qed

end
