(* ===== verification/Contract_Identity.thy ===== *)
theory Contract_Identity
  imports Grumpkin_Keys Abi_Roundtrip "HOL-Library.Multiset"
begin

text \<open>
  What identifies a contract and a call: the second half of \<open>crates/core/src/hash.rs\<close> (flattening of
  call arguments, authorization hashes, initialization hash, private function tree, artifact hash,
  bytecode commitment, class id, address of an instance) with the types it uses from \<open>types.rs\<close> and
  \<open>tx.rs\<close>.

  Parameters beside those of the hashes: the text that \<open>serde_json\<close> writes for a string, the JSON of a
  list of return types, and the base64 decoder (record \<open>artifact_codec\<close>). The rounded logarithm of the
  number of leaves is computed in \<open>f64\<close> by the code and exactly here.
\<close>

subsection \<open>Calls and their arguments\<close>

record function_call =
  fc_to :: aztec_address
  fc_selector :: function_selector
  fc_args :: "abi_value list"
  fc_function_type :: function_type
  fc_is_static :: bool
  fc_hide_msg_sender :: bool

definition function_call_empty :: function_call where
  "function_call_empty =
     \<lparr>fc_to = aztec_address_zero, fc_selector = function_selector_empty, fc_args = [],
      fc_function_type = Private, fc_is_static = False, fc_hide_msg_sender = False\<rparr>"

definition function_call_is_empty :: "function_call \<Rightarrow> bool" where
  "function_call_is_empty call \<longleftrightarrow>
     fc_to call = aztec_address_zero \<and> fc_selector call = function_selector_empty"

definition flatten_integer :: "128 word \<Rightarrow> fr" where
  "flatten_integer i =
     (let u_val = (if 0 \<le> sint i then i else if - (2 ^ 63) \<le> sint i then i + 2 ^ 64 else i)
      in fr_from_bytes (replicate 16 0 @ be_bytes 16 (unat u_val)))"

text \<open>The entries of a \<open>BTreeMap\<close> are visited in key order.\<close>

fun flatten_abi_value :: "abi_value \<Rightarrow> fr list" where
  "flatten_abi_value (VField f) = [f]"
| "flatten_abi_value (VBoolean b) = [if b then 1 else 0]"
| "flatten_abi_value (VInteger i) = [flatten_integer i]"
| "flatten_abi_value (VArray items) = concat (map flatten_abi_value items)"
| "flatten_abi_value (VString s) = map byte_field s"
| "flatten_abi_value (VStruct m) =
     concat (map snd (sort_key fst (map (\<lambda>(k, v). (k, flatten_abi_value v)) m)))"
| "flatten_abi_value (VTuple items) = concat (map flatten_abi_value items)"

definition abi_values_to_fields :: "abi_value list \<Rightarrow> fr list" where
  "abi_values_to_fields args = concat (map flatten_abi_value args)"

definition compute_inner_auth_wit_hash_from_action ::
    "crypto \<Rightarrow> aztec_address \<Rightarrow> function_call \<Rightarrow> fr" where
  "compute_inner_auth_wit_hash_from_action C caller call =
     (let args_hash = compute_var_args_hash C (abi_values_to_fields (fc_args call))
      in compute_inner_auth_wit_hash C
           [address_field caller, function_selector_to_field (fc_selector call), args_hash])"

record chain_info =
  ci_chain_id :: fr
  ci_version :: fr

datatype message_hash_or_intent =
    Hash fr
  | Intent aztec_address function_call
  | InnerHash aztec_address fr

fun compute_auth_wit_message_hash :: "crypto \<Rightarrow> message_hash_or_intent \<Rightarrow> chain_info \<Rightarrow> fr" where
  "compute_auth_wit_message_hash C (Hash hash) info = hash"
| "compute_auth_wit_message_hash C (Intent caller call) info =
     compute_outer_auth_wit_hash C (fc_to call) (ci_chain_id info) (ci_version info)
       (compute_inner_auth_wit_hash_from_action C caller call)"
| "compute_auth_wit_message_hash C (InnerHash consumer inner_hash) info =
     compute_outer_auth_wit_hash C consumer (ci_chain_id info) (ci_version info) inner_hash"

definition compute_protocol_contracts_hash :: "crypto \<Rightarrow> fr" where
  "compute_protocol_contracts_hash C =
     poseidon2_hash_with_separator C
       ([fr_of_nat 0x139f8eb6d6e7e7a7c0322c3b7558687a7e24201f11bf2c4cb2fe56c18d363695,
         fr_of_nat 0x1254246c88aca5a66fa66f3aa78c408a698ebca3b713120497c7555dfc718592,
         fr_of_nat 0x14d670efa326a07b99777b01fb706427ca776095246569150f2a3f17a7d4dc66,
         fr_of_nat 0x230d0b47ba6d5ed99afb89d584f32ff33438b64f51000f252a140cf995781628,
         fr_of_nat 0x204913186c0dd70015d05bf9100a12e31ccb7cc2527aacdfae0c19ad6439fcf4,
         fr_of_nat 0x1198142fd84a58c0ab22d5fde371ce527042db49487e05206a326ad154952ac8] @ replicate 5 0)
       PROTOCOL_CONTRACTS"

subsection \<open>Deployment hashes\<close>

definition selector_of :: "crypto \<Rightarrow> function_artifact \<Rightarrow> function_selector" where
  "selector_of C f =
     (case fa_selector f of
        Some s \<Rightarrow> s
      | None \<Rightarrow> function_selector_from_name_and_parameters C (fa_name f) (fa_parameters f))"

definition compute_initialization_hash_from_encoded :: "crypto \<Rightarrow> fr \<Rightarrow> fr list \<Rightarrow> fr" where
  "compute_initialization_hash_from_encoded C selector encoded_args =
     poseidon2_hash_with_separator C [selector, compute_var_args_hash C encoded_args] INITIALIZER"

definition compute_initialization_hash ::
    "crypto \<Rightarrow> function_artifact option \<Rightarrow> abi_value list \<Rightarrow> fr result" where
  "compute_initialization_hash C init_fn args =
     (case init_fn of
        None \<Rightarrow> Inr 0
      | Some func \<Rightarrow>
          bind_result (encode_arguments func args) (\<lambda>encoded_args.
            Inr (poseidon2_hash_with_separator C
              [function_selector_to_field (selector_of C func), compute_var_args_hash C encoded_args]
              INITIALIZER)))"

definition function_leaf :: "crypto \<Rightarrow> function_selector \<times> fr \<Rightarrow> fr" where
  "function_leaf C = (\<lambda>(sel, vk_hash).
     poseidon2_hash_with_separator C [function_selector_to_field sel, vk_hash] PRIVATE_FUNCTION_LEAF)"

definition compute_private_functions_root :: "crypto \<Rightarrow> (function_selector \<times> fr) list \<Rightarrow> fr" where
  "compute_private_functions_root C private_functions =
     (let num_leaves = 2 ^ FUNCTION_TREE_HEIGHT;
          zero_leaf = poseidon2_hash C [0, 0]
      in if private_functions = [] then poseidon_merkle_root C (replicate num_leaves zero_leaf)
         else
           let ordered = sort_key (\<lambda>(sel, _). u32_from_be_bytes (selector_bytes sel)) private_functions
           in poseidon_merkle_root C (resize num_leaves zero_leaf (map (function_leaf C) ordered)))"

definition compute_private_functions_root_from_artifact :: "crypto \<Rightarrow> contract_artifact \<Rightarrow> fr" where
  "compute_private_functions_root_from_artifact C artifact =
     compute_private_functions_root C
       (map (\<lambda>f. (selector_of C f, case fa_verification_key_hash f of None \<Rightarrow> 0 | Some h \<Rightarrow> h))
         (filter (\<lambda>f. fa_function_type f = Private) (ca_functions artifact)))"

subsection \<open>Artifact hash\<close>

record artifact_codec =
  ac_escape :: "string \<Rightarrow> string"
  ac_return_types :: "abi_type list \<Rightarrow> json"
  ac_hex :: hex_crate
  ac_base64 :: "string \<Rightarrow> u8 list option"

fun canonical_json_string :: "artifact_codec \<Rightarrow> json \<Rightarrow> string" where
  "canonical_json_string A JsNull = ''null''"
| "canonical_json_string A (JsBool b) = (if b then ''true'' else ''false'')"
| "canonical_json_string A (JsNumber text _) = text"
| "canonical_json_string A (JsString s) = ac_escape A s"
| "canonical_json_string A (JsArray items) =
     ''['' @ join '','' (map (canonical_json_string A) items) @ '']''"
| "canonical_json_string A (JsObject m) =
     ''{'' @ join '','' (map (\<lambda>(key, text). ac_escape A key @ '':'' @ text)
       (sort_key fst (map (\<lambda>(key, value). (key, canonical_json_string A value)) m))) @ ''}''"

definition string_bytes :: "string \<Rightarrow> u8 list" where
  "string_bytes s = map of_char s"

definition decode_artifact_bytes :: "artifact_codec \<Rightarrow> string \<Rightarrow> u8 list" where
  "decode_artifact_bytes A encoded =
     (case strip_prefix ''0x'' encoded of
        Some hex \<Rightarrow> (case hex_decode (ac_hex A) hex of Inr bytes \<Rightarrow> bytes | Inl _ \<Rightarrow> string_bytes encoded)
      | None \<Rightarrow> (case ac_base64 A encoded of Some bytes \<Rightarrow> bytes | None \<Rightarrow> string_bytes encoded))"

definition compute_function_metadata_hash :: "crypto \<Rightarrow> artifact_codec \<Rightarrow> function_artifact \<Rightarrow> fr" where
  "compute_function_metadata_hash C A func =
     sha256_to_field C
       (string_bytes (canonical_json_string A (ac_return_types A (fa_return_types func))))"

definition compute_function_bytecode_hash :: "crypto \<Rightarrow> artifact_codec \<Rightarrow> function_artifact \<Rightarrow> fr" where
  "compute_function_bytecode_hash C A func =
     (case fa_bytecode func of
        Some bc \<Rightarrow> if bc \<noteq> [] then sha256_to_field C (decode_artifact_bytes A bc) else 0
      | None \<Rightarrow> 0)"

fun ceil_log2 :: "nat \<Rightarrow> nat" where
  "ceil_log2 n = (if n \<le> 1 then 0 else Suc (ceil_log2 ((n + 1) div 2)))"

declare ceil_log2.simps [simp del]

definition compute_artifact_function_tree_root ::
    "crypto \<Rightarrow> artifact_codec \<Rightarrow> contract_artifact \<Rightarrow> bool \<Rightarrow> fr" where
  "compute_artifact_function_tree_root C A artifact unconstrained =
     (let functions = filter (\<lambda>f.
            if unconstrained then fa_function_type f = Utility \<or> fa_is_unconstrained f = Some True
            else fa_function_type f = Private) (ca_functions artifact)
      in if functions = [] then 0
         else
           let leaves = map (\<lambda>func. sha256_to_field C
                 (1 # selector_bytes (selector_of C func) @
                  fr_to_be_bytes (compute_function_metadata_hash C A func) @
                  fr_to_be_bytes (compute_function_bytecode_hash C A func))) functions;
               height = (if length leaves \<le> 1 then 0 else ceil_log2 (length leaves));
               padded = resize (max (2 ^ height) 1) 0 leaves
           in sha256_merkle_root C padded)"

definition compute_artifact_metadata_hash :: "crypto \<Rightarrow> artifact_codec \<Rightarrow> contract_artifact \<Rightarrow> fr" where
  "compute_artifact_metadata_hash C A artifact =
     sha256_to_field C (string_bytes (canonical_json_string A (JsObject
       ((''name'', JsString (ca_name artifact)) #
        (case ca_outputs artifact of None \<Rightarrow> [] | Some outputs \<Rightarrow> [(''outputs'', outputs)])))))"

definition compute_artifact_hash :: "crypto \<Rightarrow> artifact_codec \<Rightarrow> contract_artifact \<Rightarrow> fr" where
  "compute_artifact_hash C A artifact =
     sha256_to_field C
       (1 # fr_to_be_bytes (compute_artifact_function_tree_root C A artifact False) @
        fr_to_be_bytes (compute_artifact_function_tree_root C A artifact True) @
        fr_to_be_bytes (compute_artifact_metadata_hash C A artifact))"

subsection \<open>Class id\<close>

definition bytecode_field :: "u8 list \<Rightarrow> fr" where
  "bytecode_field chunk = fr_from_bytes (0 # chunk @ replicate (31 - length chunk) 0)"

definition bytecode_separator :: "nat \<Rightarrow> fr result" where
  "bytecode_separator byte_length =
     bind_result (checked_add (ucast PUBLIC_BYTECODE) (push_bit 32 (of_nat byte_length :: u64)))
       (\<lambda>n. Inr (fr_from_u64 n))"

definition compute_public_bytecode_commitment :: "crypto \<Rightarrow> u8 list \<Rightarrow> fr result" where
  "compute_public_bytecode_commitment C packed_bytecode =
     (let length_in_fields = (length packed_bytecode + 30) div 31 in
      if \<not> length_in_fields < MAX_PACKED_PUBLIC_BYTECODE_SIZE_IN_FIELDS
      then Inl (Panic ''packed bytecode exceeds maximum field count'')
      else bind_result (bytecode_separator (length packed_bytecode)) (\<lambda>separator.
        Inr (poseidon2_hash_with_separator_field C (map bytecode_field (chunks 31 packed_bytecode))
          separator)))"

definition compute_contract_class_id :: "crypto \<Rightarrow> fr \<Rightarrow> fr \<Rightarrow> fr \<Rightarrow> fr" where
  "compute_contract_class_id C artifact_hash private_functions_root public_bytecode_commitment =
     poseidon2_hash_with_separator C
       [artifact_hash, private_functions_root, public_bytecode_commitment] CONTRACT_CLASS_ID"

definition extract_packed_public_bytecode :: "artifact_codec \<Rightarrow> contract_artifact \<Rightarrow> u8 list" where
  "extract_packed_public_bytecode A artifact =
     (case find (\<lambda>f. fa_function_type f = Public \<and> fa_name f = ''public_dispatch'') (ca_functions artifact) of
        None \<Rightarrow> []
      | Some f \<Rightarrow> (case fa_bytecode f of None \<Rightarrow> [] | Some bc \<Rightarrow> decode_artifact_bytes A bc))"

definition compute_contract_class_id_from_artifact ::
    "crypto \<Rightarrow> artifact_codec \<Rightarrow> contract_artifact \<Rightarrow> fr result" where
  "compute_contract_class_id_from_artifact C A artifact =
     bind_result (compute_public_bytecode_commitment C (extract_packed_public_bytecode A artifact))
       (\<lambda>commitment. Inr (compute_contract_class_id C (compute_artifact_hash C A artifact)
          (compute_private_functions_root_from_artifact C artifact) commitment))"

subsection \<open>Addresses of instances\<close>

record contract_instance =
  in_version :: u8
  in_salt :: fr
  in_deployer :: aztec_address
  in_current_contract_class_id :: fr
  in_original_contract_class_id :: fr
  in_initialization_hash :: fr
  in_public_keys :: public_keys

record contract_instance_with_address =
  iwa_address :: aztec_address
  iwa_inner :: contract_instance

definition compute_salted_initialization_hash :: "crypto \<Rightarrow> fr \<Rightarrow> fr \<Rightarrow> aztec_address \<Rightarrow> fr" where
  "compute_salted_initialization_hash C salt initialization_hash deployer =
     poseidon2_hash_with_separator C [salt, initialization_hash, address_field deployer] PARTIAL_ADDRESS"

definition compute_partial_address :: "crypto \<Rightarrow> fr \<Rightarrow> fr \<Rightarrow> fr" where
  "compute_partial_address C original_contract_class_id salted_initialization_hash =
     poseidon2_hash_with_separator C [original_contract_class_id, salted_initialization_hash]
       PARTIAL_ADDRESS"

definition compute_contract_address_from_instance ::
    "crypto \<Rightarrow> curve \<Rightarrow> contract_instance \<Rightarrow> aztec_address result" where
  "compute_contract_address_from_instance C V inst =
     (let salted_init_hash = compute_salted_initialization_hash C (in_salt inst)
            (in_initialization_hash inst) (in_deployer inst);
          partial_address = compute_partial_address C (in_original_contract_class_id inst) salted_init_hash
      in compute_address C V (in_public_keys inst) partial_address)"

subsection \<open>Flattening without types\<close>

text \<open>
  The values whose flattening needs no type: structures are declared in the order of their keys, a
  negative integer is 64 bits wide (or so small that both sides take its 128 bits), strings fill
  their declared length.
\<close>

definition ordinary_struct :: "abi_type \<Rightarrow> bool" where
  "ordinary_struct t \<longleftrightarrow> \<not> is_address_struct t \<and> \<not> is_function_selector_struct t \<and>
     \<not> is_wrapped_field_struct t \<and> \<not> is_bounded_vec_struct t \<and> \<not> is_option_struct t"

inductive type_blind :: "abi_type \<Rightarrow> abi_value \<Rightarrow> bool" where
  tb_field: "type_blind TField (VField f)"
| tb_boolean: "type_blind TBoolean (VBoolean b)"
| tb_nonneg: "0 \<le> sint i \<Longrightarrow> type_blind (TInteger sign width) (VInteger i)"
| tb_i64: "- (2 ^ 63) \<le> sint i \<Longrightarrow> type_blind (TInteger ''signed'' 64) (VInteger i)"
| tb_wide: "width \<ge> 128 \<Longrightarrow> sint i < - (2 ^ 63) \<Longrightarrow> type_blind (TInteger sign width) (VInteger i)"
| tb_field_integer: "type_blind (TInteger sign width) (VField f)"
| tb_array: "list_all (type_blind element) items \<Longrightarrow>
    type_blind (TArray element (length items)) (VArray items)"
| tb_string: "type_blind (TString (length s)) (VString s)"
| tb_address: "is_address_struct (TStruct name flds) \<Longrightarrow> type_blind (TStruct name flds) (VField f)"
| tb_struct: "ordinary_struct (TStruct name flds) \<Longrightarrow> map fst m = map param_name flds \<Longrightarrow>
    sorted (map fst m) \<Longrightarrow> distinct (map fst m) \<Longrightarrow>
    list_all2 (\<lambda>p v. type_blind (param_typ p) v) flds (map snd m) \<Longrightarrow>
    type_blind (TStruct name flds) (VStruct m)"
| tb_tuple: "list_all2 type_blind elements values \<Longrightarrow> type_blind (TTuple elements) (VTuple values)"

lemma flatten_integer_u128:
  "flatten_integer i =
     fr_from_u128 (if 0 \<le> sint i then i else if - (2 ^ 63) \<le> sint i then i + 2 ^ 64 else i)"
  by (simp only: flatten_integer_def fr_from_u128_def fr_from_bytes_def Let_def)

lemma encode_i64:
  assumes "- (2 ^ 63) \<le> sint i"
  shows "encode_integer ''signed'' 64 i = Inr (flatten_integer i)"
proof (cases "0 \<le> sint i")
  case True
  then show ?thesis by (simp add: encode_integer_def flatten_integer_u128)
next
  case False
  have "i128_add i (push_bit 64 1) = Inr (i + 2 ^ 64)"
  proof -
    have two: "sint (push_bit 64 1 :: 128 word) = 2 ^ 64" by simp
    have "word_of_int (sint i + 2 ^ 64) = i + (word_of_int (2 ^ 64) :: 128 word)"
      by (simp only: of_int_add of_int_sint scast_id)
    then have "word_of_int (sint i + 2 ^ 64) = i + 2 ^ 64" by simp
    then show ?thesis
      using False assms by (simp add: i128_add_def i128_checked_def two)
  qed
  with False assms show ?thesis
    by (simp add: encode_integer_def flatten_integer_u128)
qed

lemma concat_map_result:
  "(\<And>x. x \<in> set xs \<Longrightarrow> f x = Inr (g x)) \<Longrightarrow> concat_result (map_result f xs) = Inr (concat (map g xs))"
  by (simp add: concat_result_def map_result_Inr)

lemma flatten_struct:
  assumes "sorted (map fst m)"
  shows "flatten_abi_value (VStruct m) = concat (map (flatten_abi_value \<circ> snd) m)"
proof -
  have fst: "map fst (map (\<lambda>(k, v). (k, flatten_abi_value v)) m) = map fst m"
    by (simp add: comp_def case_prod_unfold)
  have "sort_key fst (map (\<lambda>(k, v). (k, flatten_abi_value v)) m) =
      map (\<lambda>(k, v). (k, flatten_abi_value v)) m"
    using assms by (intro sort_key_id_if_sorted) (simp only: fst)
  then show ?thesis by (simp add: comp_def case_prod_unfold)
qed

lemma encode_type_blind: "type_blind t v \<Longrightarrow> encode_value t v = Inr (flatten_abi_value v)"
proof (induction rule: type_blind.induct)
  case (tb_array element items)
  then show ?case by (simp add: list_all_iff concat_map_result)
next
  case (tb_struct name flds m)
  have len: "length flds = length m" using tb_struct(2) by (metis length_map)
  have "encode_value (TStruct name flds) (VStruct m) = concat_result (map_result (\<lambda>field.
      case map_of m (param_name field) of
        None \<Rightarrow> Inl (Abi ''missing struct field'')
      | Some field_value \<Rightarrow> encode_value (param_typ field) field_value) flds)"
    using tb_struct(1) by (simp add: ordinary_struct_def)
  also have "\<dots> = Inr (concat (map (\<lambda>field. flatten_abi_value (the (map_of m (param_name field)))) flds))"
  proof (rule concat_map_result)
    fix field
    assume "field \<in> set flds"
    then obtain i where i: "i < length flds" "field = flds ! i" by (metis in_set_conv_nth)
    then have "map_of m (param_name field) = Some (snd (m ! i))"
      using tb_struct(2,4) len by (metis map_of_eq_Some_iff nth_map nth_mem prod.collapse)
    moreover have "encode_value (param_typ field) (snd (m ! i)) = Inr (flatten_abi_value (snd (m ! i)))"
      using tb_struct(5) i len by (auto simp: list_all2_conv_all_nth)
    ultimately show "(case map_of m (param_name field) of
        None \<Rightarrow> Inl (Abi ''missing struct field'')
      | Some field_value \<Rightarrow> encode_value (param_typ field) field_value) =
        Inr (flatten_abi_value (the (map_of m (param_name field))))" by simp
  qed
  also have "map (\<lambda>field. flatten_abi_value (the (map_of m (param_name field)))) flds =
      map (flatten_abi_value \<circ> snd) m"
  proof (rule nth_equalityI)
    fix i
    assume "i < length (map (\<lambda>field. flatten_abi_value (the (map_of m (param_name field)))) flds)"
    then have i: "i < length flds" by simp
    then have "map_of m (param_name (flds ! i)) = Some (snd (m ! i))"
      using tb_struct(2,4) len by (metis map_of_eq_Some_iff nth_map nth_mem prod.collapse)
    then show "map (\<lambda>field. flatten_abi_value (the (map_of m (param_name field)))) flds ! i =
        map (flatten_abi_value \<circ> snd) m ! i" using i len by simp
  qed (simp add: len)
  finally show ?case using flatten_struct[OF tb_struct(3)] by simp
next
  case (tb_tuple elements items)
  then have len: "length elements = length items" by (simp add: list_all2_lengthD)
  have "concat_result (map_result (\<lambda>(element, x). encode_value element x) (zip elements items)) =
      Inr (concat (map (flatten_abi_value \<circ> snd) (zip elements items)))"
    using tb_tuple by (intro concat_map_result) (auto simp: list_all2_iff)
  with len show ?case by (simp flip: map_map)
next
  case (tb_i64 i)
  then show ?case by (simp add: encode_i64)
next
  case (tb_wide width i sign)
  then show ?case by (simp add: encode_integer_def flatten_integer_u128)
qed (auto simp: fr_from_bool_def encode_integer_def flatten_integer_u128 encode_string_def)

subsection \<open>The private function tree\<close>

lemma selector_key_inj:
  "length (selector_bytes a) = 4 \<Longrightarrow> length (selector_bytes b) = 4 \<Longrightarrow>
   u32_from_be_bytes (selector_bytes a) = u32_from_be_bytes (selector_bytes b) \<Longrightarrow> a = b"
proof -
  assume len: "length (selector_bytes a) = 4" "length (selector_bytes b) = 4"
    and eq: "u32_from_be_bytes (selector_bytes a) = u32_from_be_bytes (selector_bytes b)"
  have "of_be_bytes (selector_bytes a) = of_be_bytes (selector_bytes b)"
    using eq of_be_bytes_lt_u32[OF len(1)] of_be_bytes_lt_u32[OF len(2)]
    by (simp add: u32_from_be_bytes_def of_nat_inverse word_unat_eq_iff unsigned_of_nat take_bit_eq_mod)
  then have "selector_bytes a = selector_bytes b" using len be_bytes_of_be_bytes by metis
  then show "a = b" by (cases a; cases b) simp
qed

lemma private_functions_root_eq:
  "compute_private_functions_root C fns =
     tree_root (\<lambda>left right. poseidon2_hash C [left, right]) 7
       (resize 128 (poseidon2_hash C [0, 0]) (map (function_leaf C)
         (sort_key (\<lambda>(sel, _). u32_from_be_bytes (selector_bytes sel)) fns)))"
proof -
  have "length (resize 128 z xs) = 2 ^ 7" for z :: fr and xs by (simp add: resize_def)
  note tree = merkle_root_is_tree_root[OF this, THEN conjunct1]
  have "compute_private_functions_root C fns =
     poseidon_merkle_root C (resize 128 (poseidon2_hash C [0, 0]) (map (function_leaf C)
       (sort_key (\<lambda>(sel, _). u32_from_be_bytes (selector_bytes sel)) fns)))"
    by (simp add: compute_private_functions_root_def Let_def FUNCTION_TREE_HEIGHT_def resize_def)
  then show ?thesis by (simp only: tree)
qed

text \<open>
  The private functions root is the root of the full binary tree of height 7 over the leaves of
  the functions ordered by selector and padded with the empty leaf; it does not depend on the order in
  which the artifact lists its functions.
\<close>

lemma private_functions_root_canonical:
  assumes "\<forall>(sel, vk) \<in> set fns. length (selector_bytes sel) = 4"
    and "distinct (map fst fns)" and "mset fns' = mset fns" and "length fns \<le> 128"
  shows "compute_private_functions_root C fns' = compute_private_functions_root C fns \<and>
    (\<exists>ordered. mset ordered = mset fns \<and>
       sorted (map (\<lambda>(sel, vk). u32_from_be_bytes (selector_bytes sel)) ordered) \<and>
       compute_private_functions_root C fns =
         tree_root (\<lambda>left right. poseidon2_hash C [left, right]) 7
           (map (function_leaf C) ordered @ replicate (128 - length fns) (poseidon2_hash C [0, 0])))"
proof -
  let ?key = "\<lambda>(sel, vk). u32_from_be_bytes (selector_bytes sel)"
  have "inj_on ?key (set fns)"
  proof (rule inj_onI)
    fix x y
    assume xy: "x \<in> set fns" "y \<in> set fns" "?key x = ?key y"
    then have "fst x = fst y" using assms(1) by (auto simp: case_prod_unfold intro: selector_key_inj)
    with xy assms(2) show "x = y" by (auto simp: distinct_map dest: inj_onD)
  qed
  then have "sort_key ?key fns' = sort_key ?key fns"
    using assms(3) by (intro sort_key_eq_sort_key) (auto dest: mset_eq_setD)
  then have "compute_private_functions_root C fns' = compute_private_functions_root C fns"
    by (simp only: private_functions_root_eq)
  moreover have "compute_private_functions_root C fns =
      tree_root (\<lambda>left right. poseidon2_hash C [left, right]) 7
        (map (function_leaf C) (sort_key ?key fns) @
         replicate (128 - length fns) (poseidon2_hash C [0, 0]))"
    using assms(4) by (simp add: private_functions_root_eq resize_def)
  ultimately show ?thesis by (metis mset_sort sorted_sort_key)
qed

lemma private_functions_root_canonical_witness:
  "compute_private_functions_root example_crypto
     [(FunctionSelector [0, 0, 0, 2], 7), (FunctionSelector [0, 0, 0, 1], 9)] =
   compute_private_functions_root example_crypto
     [(FunctionSelector [0, 0, 0, 1], 9), (FunctionSelector [0, 0, 0, 2], 7)]"
  using private_functions_root_canonical[of
      "[(FunctionSelector [0, 0, 0, 1], 9), (FunctionSelector [0, 0, 0, 2], 7)]"
      "[(FunctionSelector [0, 0, 0, 2], 7), (FunctionSelector [0, 0, 0, 1], 9)]" example_crypto]
  by (simp add: add_mset_commute)

text \<open>A function beyond the 128th in selector order leaves no trace in the root.\<close>

lemma private_functions_root_drops:
  "128 \<le> length fns \<Longrightarrow>
   sorted (map (\<lambda>(sel, vk). u32_from_be_bytes (selector_bytes sel)) (fns @ [extra])) \<Longrightarrow>
   compute_private_functions_root C (fns @ [extra]) = compute_private_functions_root C fns"
  by (subst (1 2) private_functions_root_eq)
    (simp add: sort_key_id_if_sorted sorted_append resize_def)

subsection \<open>The bytecode commitment\<close>

lemma bytecode_separator_succeeds:
  "n < 93000 \<Longrightarrow> \<exists>w. bytecode_separator n = Inr (fr_from_u64 w) \<and> unat w = 260313585 + n * 2 ^ 32"
proof -
  assume n: "n < 93000"
  then have "unat (push_bit 32 (of_nat n :: u64)) = n * 2 ^ 32"
    by (simp add: push_bit_eq_mult unat_word_ariths unsigned_of_nat take_bit_eq_mod)
  moreover have "unat (ucast PUBLIC_BYTECODE :: u64) = 260313585" by (simp add: PUBLIC_BYTECODE_def)
  ultimately have "checked_add (ucast PUBLIC_BYTECODE) (push_bit 32 (of_nat n :: u64)) =
      Inr (ucast PUBLIC_BYTECODE + push_bit 32 (of_nat n))" using n by (simp add: checked_add_Inr_iff)
  with unat_checked_add[OF this] show ?thesis
    using \<open>unat (push_bit 32 (of_nat n :: u64)) = n * 2 ^ 32\<close> \<open>unat (ucast PUBLIC_BYTECODE :: u64) = 260313585\<close>
    by (auto simp: bytecode_separator_def)
qed

definition bytecode_preimage :: "u8 list \<Rightarrow> fr list" where
  "bytecode_preimage bytecode =
     fr_of_nat (260313585 + length bytecode * 2 ^ 32) # map bytecode_field (chunks 31 bytecode)"

lemma commitment_of_preimage:
  assumes "length bytecode \<le> 92969"
  shows "compute_public_bytecode_commitment C bytecode = Inr (poseidon2_hash C (bytecode_preimage bytecode))"
proof -
  have "(length bytecode + 30) div 31 < 3000" using assms by simp
  moreover obtain w where "bytecode_separator (length bytecode) = Inr (fr_from_u64 w)"
      and "unat w = 260313585 + length bytecode * 2 ^ 32"
    using bytecode_separator_succeeds[of "length bytecode"] assms by auto
  ultimately show ?thesis
    by (simp add: compute_public_bytecode_commitment_def poseidon2_hash_with_separator_field_def
        bytecode_preimage_def MAX_PACKED_PUBLIC_BYTECODE_SIZE_IN_FIELDS_def fr_from_u64_def)
qed

lemma preimage_injective:
  assumes "length a \<le> 92969" and "length b \<le> 92969" and "bytecode_preimage a = bytecode_preimage b"
  shows "a = b"
proof -
  have small: "260313585 + n * 2 ^ 32 < fr_modulus" if "n \<le> 92969" for n
    using that by (simp add: fr_modulus_def)
  have "260313585 + length a * 2 ^ 32 = 260313585 + length b * 2 ^ 32"
    using assms small[OF assms(1)] small[OF assms(2)]
    by (simp add: bytecode_preimage_def fr_of_nat_eq_iff)
  then have len: "length a = length b" by simp
  have payload: "map bytecode_field (chunks 31 a) = map bytecode_field (chunks 31 b)"
    using assms(3) by (simp add: bytecode_preimage_def)
  obtain j k where
      "concat (map (\<lambda>f. drop 1 (fr_to_be_bytes f)) (map bytecode_field (chunks 31 a))) = a @ replicate j 0"
      "concat (map (\<lambda>f. drop 1 (fr_to_be_bytes f)) (map bytecode_field (chunks 31 b))) = b @ replicate k 0"
    using buffer_payload[of a] buffer_payload[of b] unfolding bytecode_field_def by blast
  then have "a @ replicate j 0 = b @ replicate k 0" using payload by metis
  with len show "a = b" by simp
qed

text \<open>
  Every bytecode of at most 92969 bytes has a commitment, a longer one panics, and a commitment
  binds the bytecode: two bytecodes with the same commitment are equal unless they are a collision of
  the hash.
\<close>

lemma bytecode_commitment_binding:
  assumes "compute_public_bytecode_commitment C a = compute_public_bytecode_commitment C b"
    and "inj_on (poseidon2_hash C) {bytecode_preimage a, bytecode_preimage b}"
    and "length a \<le> 92969"
  shows "(\<exists>h. compute_public_bytecode_commitment C a = Inr h) \<and> b = a \<and>
    (\<forall>c. 92969 < length c \<longrightarrow> compute_public_bytecode_commitment C c =
       Inl (Panic ''packed bytecode exceeds maximum field count''))"
proof -
  have long: "compute_public_bytecode_commitment C c =
      Inl (Panic ''packed bytecode exceeds maximum field count'')" if "92969 < length c" for c
    using that div_le_mono[of 93000 "length c + 30" 31]
    by (simp add: compute_public_bytecode_commitment_def MAX_PACKED_PUBLIC_BYTECODE_SIZE_IN_FIELDS_def)
  note a = commitment_of_preimage[OF assms(3), of C]
  have lb: "length b \<le> 92969"
    using assms(1) a long[of b] by (metis Inl_Inr_False not_le_imp_less)
  have "poseidon2_hash C (bytecode_preimage a) = poseidon2_hash C (bytecode_preimage b)"
    using assms(1) a commitment_of_preimage[OF lb, of C] by simp
  then have "bytecode_preimage a = bytecode_preimage b" using assms(2) by (auto dest: inj_onD)
  then have "b = a" using preimage_injective assms(3) lb by metis
  with a long show ?thesis by auto
qed

subsection \<open>Flattening and encoding\<close>

text \<open>
  The authorization hash flattens arguments without their types. On arguments whose structures are
  declared in key order and whose negative integers are 64 bits wide, it sees exactly the fields that
  the ABI encoder produces for the call.
\<close>

lemma flatten_agrees_with_encoder:
  assumes "list_all2 (\<lambda>p v. type_blind (param_typ p) v) (fa_parameters f) args"
  shows "encode_arguments f args = Inr (abi_values_to_fields args)"
proof -
  have "concat_result (map_result (\<lambda>(param, value). encode_value (param_typ param) value)
        (zip (fa_parameters f) args)) =
      Inr (concat (map (flatten_abi_value \<circ> snd) (zip (fa_parameters f) args)))"
    using assms by (intro concat_map_result) (auto simp: list_all2_iff encode_type_blind)
  moreover have "length (fa_parameters f) = length args" using assms by (rule list_all2_lengthD)
  ultimately show ?thesis
    by (simp add: encode_arguments_def abi_values_to_fields_def flip: map_map)
qed

text \<open>
  A structure declared in another order than its keys is flattened in the order of the keys: here the
  encoder yields the fields 2, 1 and the authorization hash sees 1, 2.
\<close>

lemma flatten_reorders_fields:
  "encode_value (TStruct ''Pair'' [AbiParameter ''b'' TField None, AbiParameter ''a'' TField None])
     (VStruct [(''a'', VField 1), (''b'', VField 2)]) = Inr [2, 1] \<and>
   flatten_abi_value (VStruct [(''a'', VField 1), (''b'', VField 2)]) = [1, 2]"
  by (simp add: concat_result_def is_address_struct_def ends_with_def suffix_def)

end
