(* ===== verification/Acvm_Executor.thy ===== *)
theory Acvm_Executor
  imports Nargo_Artifact Kv_Store
begin

text \<open>
  Running a circuit (\<open>crates/pxe/src/execution/acvm_executor.rs\<close>, \<open>field_conversion.rs\<close>): the loop
  that drives the ACVM and answers its foreign calls through the oracle.

  The virtual machine, the program format, base64, gzip and the machine's own field elements are
  third-party code: the record \<open>acvm\<close> holds them as functions on a machine state \<open>'m\<close>, opcodes \<open>'c\<close>,
  unconstrained functions \<open>'u\<close> and field elements \<open>'fe\<close>. The oracle is any function on a state \<open>'o\<close>.
  Neither the machine nor the oracle has to stop, so the loops take fuel and return \<open>None\<close> when it
  runs out; \<open>executor_returns\<close> says when there is fuel that suffices. Log lines are left out.
\<close>

subsection \<open>The virtual machine\<close>

type_synonym 'fe witness_map = "u32 \<Rightarrow> 'fe option"

datatype 'fe foreign_call_param = Single 'fe | Array "'fe list"

datatype assertion_payload = PayloadString string | PayloadRaw u64

datatype opcode_resolution_error =
    BrilligFunctionFailed "assertion_payload option"
  | UnsatisfiedConstrain "assertion_payload option"
  | OtherResolutionError string

datatype 'fe acvm_status =
    Solved
  | InProgress
  | RequiresForeignCall string "'fe foreign_call_param list"
  | RequiresAcirCall u32 "'fe witness_map"
  | Failure opcode_resolution_error

record 'c circuit =
  circ_opcodes :: 'c
  circ_return_values :: "u32 list"

record ('c, 'u) program =
  prog_functions :: "'c circuit list"
  prog_unconstrained_functions :: 'u

record ('m, 'c, 'u, 'fe) acvm =
  acvm_new :: "'c \<Rightarrow> 'fe witness_map \<Rightarrow> 'u \<Rightarrow> 'm"
  acvm_solve :: "'m \<Rightarrow> 'fe acvm_status \<times> 'm"
  acvm_resolve_foreign_call :: "'fe foreign_call_param list \<Rightarrow> 'm \<Rightarrow> 'm"
  acvm_resolve_acir_call :: "'fe list \<Rightarrow> 'm \<Rightarrow> 'm"
  acvm_finalize :: "'m \<Rightarrow> 'fe witness_map"
  acvm_error_text :: "opcode_resolution_error \<Rightarrow> string"
  acvm_base64 :: "string \<Rightarrow> u8 list option"
  acvm_gzip :: "u8 list \<Rightarrow> u8 list option"
  acvm_deserialize_program :: "u8 list \<Rightarrow> ('c, 'u) program option"
  fe_to_hex :: "'fe \<Rightarrow> string"
  fe_from_be_bytes_reduce :: "u8 list \<Rightarrow> 'fe"
  acvm_hex :: hex_crate

text \<open>A computation that may run forever: \<open>None\<close> when the fuel ran out.\<close>

type_synonym ('o, 'a) run = "'o \<Rightarrow> ('a result \<times> 'o) option"

type_synonym 'o callback = "string \<Rightarrow> fr list list \<Rightarrow> ('o, fr list list) run"

subsection \<open>Conversions\<close>

definition fe_to_fr :: "('m, 'c, 'u, 'fe) acvm \<Rightarrow> 'fe \<Rightarrow> fr" where
  "fe_to_fr X fe =
     (case fr_from_hex (acvm_hex X) (''0x'' @ fe_to_hex X fe) of Inr f \<Rightarrow> f | Inl _ \<Rightarrow> 0)"

definition fr_to_fe :: "('m, 'c, 'u, 'fe) acvm \<Rightarrow> fr \<Rightarrow> 'fe" where
  "fr_to_fe X f = fe_from_be_bytes_reduce X (fr_to_be_bytes f)"

definition witness_map_to_frs :: "('m, 'c, 'u, 'fe) acvm \<Rightarrow> 'fe witness_map \<Rightarrow> u32 list \<Rightarrow> fr list" where
  "witness_map_to_frs X witness return_witnesses =
     List.map_filter (\<lambda>w. map_option (fe_to_fr X) (witness w)) return_witnesses"

definition build_initial_witness :: "('m, 'c, 'u, 'fe) acvm \<Rightarrow> fr list \<Rightarrow> 'fe witness_map" where
  "build_initial_witness X args =
     fold (\<lambda>(i, arg) w. w(of_nat i \<mapsto> fr_to_fe X arg)) (List.enumerate 0 args) Map.empty"

definition convert_fc_inputs ::
    "('m, 'c, 'u, 'fe) acvm \<Rightarrow> 'fe foreign_call_param list \<Rightarrow> fr list list" where
  "convert_fc_inputs X inputs =
     map (\<lambda>param. case param of Single fe \<Rightarrow> [fe_to_fr X fe] | Array fes \<Rightarrow> map (fe_to_fr X) fes) inputs"

definition force_array_indexes :: "string \<Rightarrow> nat list" where
  "force_array_indexes function =
     (if function \<in> {''utilityLoadCapsule'', ''loadCapsule'', ''getCapsule''} then [1]
      else if function \<in> {''utilityAes128Decrypt'', ''aes128Decrypt''} then [0]
      else if function \<in> {''utilityTryGetPublicKeysAndPartialAddress'', ''tryGetPublicKeysAndPartialAddress''}
      then [1]
      else if function \<in> {''privateLoadFromExecutionCache'', ''loadFromExecutionCache''} then [0]
      else [])"

definition convert_fc_result ::
    "('m, 'c, 'u, 'fe) acvm \<Rightarrow> string \<Rightarrow> fr list list \<Rightarrow> 'fe foreign_call_param list" where
  "convert_fc_result X function result =
     map (\<lambda>(index, frs).
       if length frs = 1 \<and> index \<notin> set (force_array_indexes function)
       then Single (fr_to_fe X (frs ! 0)) else Array (map (fr_to_fe X) frs)) (List.enumerate 0 result)"

subsection \<open>Error messages\<close>

definition error_types_contains_message :: "json option \<Rightarrow> string \<Rightarrow> bool" where
  "error_types_contains_message error_types expected =
     (case error_types of
        Some (JsObject entries) \<Rightarrow>
          list_ex (\<lambda>(_, entry). Option.bind (js_field ''string'' entry) js_str = Some expected) entries
      | _ \<Rightarrow> False)"

definition invalid_nonce :: string where
  "invalid_nonce =
     ''Invalid authwit nonce. When '' @ quoted ''from'' @ '' and '' @ quoted ''msg_sender'' @
     '' are the same, '' @ quoted ''authwit_nonce'' @ '' must be zero''"

definition fallback_private_error_message :: "string \<Rightarrow> string \<Rightarrow> json option \<Rightarrow> string option" where
  "fallback_private_error_message last_oracle resolved error_types =
     (if resolved \<noteq> ''Cannot satisfy constraint'' then None
      else if last_oracle = ''privateIsNullifierPending'' \<and>
        error_types_contains_message error_types invalid_nonce then Some invalid_nonce
      else if (last_oracle = ''privateNotifyNullifiedNote'' \<or> last_oracle = ''utilityGetNotes'') \<and>
        error_types_contains_message error_types ''Balance too low'' then Some ''Balance too low''
      else None)"

definition resolve_error ::
    "('m, 'c, 'u, 'fe) acvm \<Rightarrow> opcode_resolution_error \<Rightarrow> json option \<Rightarrow> string" where
  "resolve_error X err error_types =
     (let payload = (case err of BrilligFunctionFailed p \<Rightarrow> p | UnsatisfiedConstrain p \<Rightarrow> p | _ \<Rightarrow> None)
      in case payload of
           Some (PayloadString msg) \<Rightarrow> msg
         | Some (PayloadRaw selector) \<Rightarrow>
             (case Option.bind error_types (js_field (u64_display selector)) of
                None \<Rightarrow> acvm_error_text X err
              | Some entry \<Rightarrow>
                  (let kind = Option.bind (js_field ''error_kind'' entry) js_str;
                       msg = Option.bind (js_field ''string'' entry) js_str
                   in if kind \<in> {Some ''string'', Some ''fmtstring''}
                      then (case msg of Some text \<Rightarrow> text | None \<Rightarrow> acvm_error_text X err)
                      else acvm_error_text X err))
         | None \<Rightarrow> acvm_error_text X err)"

definition decode_program :: "('m, 'c, 'u, 'fe) acvm \<Rightarrow> string \<Rightarrow> ('c, 'u) program result" where
  "decode_program X bytecode_b64 =
     bind_result (ok_or (InvalidData ''base64 decode error'') (acvm_base64 X bytecode_b64)) (\<lambda>bytes.
       let is_gzip = length bytes \<ge> 2 \<and> bytes ! 0 = 0x1f \<and> bytes ! 1 = 0x8b in
       bind_result
         (if is_gzip then Inr bytes else ok_or (InvalidData ''gzip compress error'') (acvm_gzip X bytes))
         (\<lambda>compressed. ok_or (InvalidData ''ACIR deserialize error'') (acvm_deserialize_program X compressed)))"

subsection \<open>The solve loops\<close>

text \<open>The loop over the machine of a called circuit, up to its final state.\<close>

primrec sub_loop ::
    "('m, 'c, 'u, 'fe) acvm \<Rightarrow> 'o callback \<Rightarrow> json option \<Rightarrow> nat \<Rightarrow> 'm \<Rightarrow> ('o, 'm) run" where
  "sub_loop X oracle error_types 0 m s = None"
| "sub_loop X oracle error_types (Suc n) m s =
     (case acvm_solve X m of
        (Solved, m') \<Rightarrow> Some (Inr m', s)
      | (InProgress, m') \<Rightarrow> sub_loop X oracle error_types n m' s
      | (RequiresForeignCall function inputs, m') \<Rightarrow>
          (case oracle function (convert_fc_inputs X inputs) s of
             None \<Rightarrow> None
           | Some (Inl e, s') \<Rightarrow> Some (Inl e, s')
           | Some (Inr result, s') \<Rightarrow>
               sub_loop X oracle error_types n
                 (acvm_resolve_foreign_call X (convert_fc_result X function result) m') s')
      | (RequiresAcirCall _ _, m') \<Rightarrow>
          Some (Inl (InvalidData ''nested ACIR calls deeper than 2 levels not supported''), s)
      | (Failure err, m') \<Rightarrow>
          Some (Inl (InvalidData (''sub-circuit execution failed: '' @ resolve_error X err error_types)), s))"

text \<open>
  The main loop of \<open>execute_private\<close>. It carries the name of the last oracle call of the main circuit
  and the return values of the first ACIR call; the result is the final machine and those values.
\<close>

primrec private_loop ::
    "('m, 'c, 'u, 'fe) acvm \<Rightarrow> 'o callback \<Rightarrow> ('c, 'u) program \<Rightarrow> function_artifact \<Rightarrow> nat \<Rightarrow>
     string \<Rightarrow> fr list \<Rightarrow> 'm \<Rightarrow> ('o, 'm \<times> fr list) run" where
  "private_loop X oracle program f 0 last_fc first m s = None"
| "private_loop X oracle program f (Suc n) last_fc first m s =
     (case acvm_solve X m of
        (Solved, m') \<Rightarrow> Some (Inr (m', first), s)
      | (InProgress, m') \<Rightarrow> private_loop X oracle program f n last_fc first m' s
      | (RequiresForeignCall function inputs, m') \<Rightarrow>
          (case oracle function (convert_fc_inputs X inputs) s of
             None \<Rightarrow> None
           | Some (Inl e, s') \<Rightarrow> Some (Inl e, s')
           | Some (Inr result, s') \<Rightarrow>
               private_loop X oracle program f n function first
                 (acvm_resolve_foreign_call X (convert_fc_result X function result) m') s')
      | (RequiresAcirCall ident sub_witness, m') \<Rightarrow>
          if unat ident \<ge> length (prog_functions program)
          then Some (Inl (InvalidData ''ACIR call references a missing circuit''), s)
          else
            let called_circuit = prog_functions program ! unat ident in
            (case sub_loop X oracle (fa_error_types f) n
                    (acvm_new X (circ_opcodes called_circuit) sub_witness
                       (prog_unconstrained_functions program)) s of
               None \<Rightarrow> None
             | Some (Inl e, s') \<Rightarrow> Some (Inl e, s')
             | Some (Inr sub, s') \<Rightarrow>
                 let return_values = List.map_filter (acvm_finalize X sub) (circ_return_values called_circuit);
                     first' = (if first = [] then map (fe_to_fr X) return_values else first)
                 in private_loop X oracle program f n last_fc first'
                      (acvm_resolve_acir_call X return_values m') s')
      | (Failure err, m') \<Rightarrow>
          let resolved = resolve_error X err (fa_error_types f);
              text = unwrap_or resolved (fallback_private_error_message last_fc resolved (fa_error_types f))
          in Some (Inl (InvalidData (''private function '' @ quoted (fa_name f) @
               '' execution failed (last oracle: '' @ last_fc @ ''): '' @ text)), s))"

record 'fe acvm_execution_output =
  out_return_values :: "fr list"
  out_witness :: "'fe witness_map"
  out_acir_bytecode :: "u8 list"
  out_verification_key :: "u8 list"
  out_first_acir_call_return_values :: "fr list"

text \<open>What both executors do first: find the function, decode its program, take its first circuit.\<close>

definition load_circuit ::
    "('m, 'c, 'u, 'fe) acvm \<Rightarrow> contract_artifact \<Rightarrow> string \<Rightarrow>
     (function_artifact \<times> ('c, 'u) program \<times> 'c circuit) result" where
  "load_circuit X artifact function_name =
     bind_result (find_function artifact function_name) (\<lambda>f.
     bind_result (ok_or (InvalidData ''function has no bytecode'') (fa_bytecode f)) (\<lambda>bytecode_b64.
     bind_result (decode_program X bytecode_b64) (\<lambda>program.
     bind_result (ok_or (InvalidData ''program has no circuits'')
        (case prog_functions program of [] \<Rightarrow> None | main # _ \<Rightarrow> Some main)) (\<lambda>main.
       Inr (f, program, main)))))"

definition decode_or_empty :: "('m, 'c, 'u, 'fe) acvm \<Rightarrow> string option \<Rightarrow> u8 list" where
  "decode_or_empty X text = unwrap_or [] (Option.bind text (acvm_base64 X))"

definition execute_private ::
    "('m, 'c, 'u, 'fe) acvm \<Rightarrow> nat \<Rightarrow> contract_artifact \<Rightarrow> string \<Rightarrow> fr list \<Rightarrow> 'o callback \<Rightarrow>
     ('o, 'fe acvm_execution_output) run" where
  "execute_private X fuel artifact function_name initial_witness_fields oracle s =
     (case load_circuit X artifact function_name of
        Inl e \<Rightarrow> Some (Inl e, s)
      | Inr (f, program, main) \<Rightarrow>
          (case private_loop X oracle program f fuel [] []
                  (acvm_new X (circ_opcodes main) (build_initial_witness X initial_witness_fields)
                     (prog_unconstrained_functions program)) s of
             None \<Rightarrow> None
           | Some (Inl e, s') \<Rightarrow> Some (Inl e, s')
           | Some (Inr (m, first), s') \<Rightarrow>
               let witness = acvm_finalize X m in
               Some (Inr \<lparr>out_return_values = witness_map_to_frs X witness (circ_return_values main),
                          out_witness = witness,
                          out_acir_bytecode = decode_or_empty X (fa_bytecode f),
                          out_verification_key = decode_or_empty X (fa_verification_key f),
                          out_first_acir_call_return_values = first\<rparr>, s')))"

primrec utility_loop ::
    "('m, 'c, 'u, 'fe) acvm \<Rightarrow> 'o callback \<Rightarrow> function_artifact \<Rightarrow> nat \<Rightarrow> string \<Rightarrow> 'm \<Rightarrow> ('o, 'm) run" where
  "utility_loop X oracle f 0 last_fc m s = None"
| "utility_loop X oracle f (Suc n) last_fc m s =
     (case acvm_solve X m of
        (Solved, m') \<Rightarrow> Some (Inr m', s)
      | (InProgress, m') \<Rightarrow> utility_loop X oracle f n last_fc m' s
      | (RequiresForeignCall function inputs, m') \<Rightarrow>
          (case oracle function (convert_fc_inputs X inputs) s of
             None \<Rightarrow> None
           | Some (Inl e, s') \<Rightarrow> Some (Inl e, s')
           | Some (Inr result, s') \<Rightarrow>
               utility_loop X oracle f n function
                 (acvm_resolve_foreign_call X (convert_fc_result X function result) m') s')
      | (RequiresAcirCall _ _, m') \<Rightarrow>
          Some (Inl (InvalidData ''utility functions should not make ACIR calls''), s)
      | (Failure err, m') \<Rightarrow>
          Some (Inl (InvalidData (''utility function '' @ quoted (fa_name f) @
            '' execution failed (last oracle: '' @ last_fc @ ''): '' @
            resolve_error X err (fa_error_types f))), s))"

definition execute_utility ::
    "('m, 'c, 'u, 'fe) acvm \<Rightarrow> nat \<Rightarrow> contract_artifact \<Rightarrow> string \<Rightarrow> fr list \<Rightarrow> 'o callback \<Rightarrow>
     ('o, fr list) run" where
  "execute_utility X fuel artifact function_name args oracle s =
     (case load_circuit X artifact function_name of
        Inl e \<Rightarrow> Some (Inl e, s)
      | Inr (f, program, main) \<Rightarrow>
          (case utility_loop X oracle f fuel []
                  (acvm_new X (circ_opcodes main) (build_initial_witness X args)
                     (prog_unconstrained_functions program)) s of
             None \<Rightarrow> None
           | Some (Inl e, s') \<Rightarrow> Some (Inl e, s')
           | Some (Inr m, s') \<Rightarrow>
               Some (Inr (witness_map_to_frs X (acvm_finalize X m) (circ_return_values main)), s')))"

subsection \<open>The executor reaches the oracle only through foreign calls\<close>

definition preserved_by :: "('o \<Rightarrow> bool) \<Rightarrow> 'o callback \<Rightarrow> bool" where
  "preserved_by I oracle \<longleftrightarrow> (\<forall>function inputs s r s'. I s \<longrightarrow> oracle function inputs s = Some (r, s') \<longrightarrow> I s')"

lemma preserved_byD: "preserved_by I oracle \<Longrightarrow> oracle function inputs s = Some (r, s') \<Longrightarrow> I s \<Longrightarrow> I s'"
  by (auto simp: preserved_by_def)

lemmas loop_splits = prod.splits acvm_status.splits option.splits sum.splits if_splits

lemma sub_loop_preserves:
  assumes "preserved_by I oracle"
  shows "sub_loop X oracle et n m s = Some (r, s') \<Longrightarrow> I s \<Longrightarrow> I s'"
proof (induction n arbitrary: m s)
  case (Suc n)
  then show ?case by (auto split: loop_splits dest: preserved_byD[OF assms])
qed simp

lemma private_loop_preserves:
  assumes "preserved_by I oracle"
  shows "private_loop X oracle p f n last_fc first m s = Some (r, s') \<Longrightarrow> I s \<Longrightarrow> I s'"
proof (induction n arbitrary: last_fc first m s)
  case (Suc n)
  then show ?case
    by (auto simp: Let_def split: loop_splits
        dest: preserved_byD[OF assms] sub_loop_preserves[OF assms])
qed simp

lemma execute_private_preserves:
  assumes "preserved_by I oracle" and "execute_private X n artifact name w oracle s = Some (r, s')" and "I s"
  shows "I s'"
  using assms(2,3) private_loop_preserves[OF assms(1)]
  by (fastforce simp: execute_private_def Let_def split: loop_splits)

subsection \<open>Fuel\<close>

text \<open>An oracle that answers more: it gives the same answer wherever the other one gives one.\<close>

definition extends_callback :: "'o callback \<Rightarrow> 'o callback \<Rightarrow> bool" where
  "extends_callback oracle oracle' \<longleftrightarrow>
     (\<forall>function inputs s x. oracle function inputs s = Some x \<longrightarrow> oracle' function inputs s = Some x)"

lemma extends_callbackD:
  "extends_callback oracle oracle' \<Longrightarrow> oracle function inputs s = Some x \<Longrightarrow> oracle' function inputs s = Some x"
  unfolding extends_callback_def by blast

lemma extends_callback_refl [simp]: "extends_callback oracle oracle"
  by (simp add: extends_callback_def)

lemma sub_loop_fuel_mono:
  assumes "extends_callback oracle oracle'"
  shows "sub_loop X oracle et n m s = Some x \<Longrightarrow> n \<le> n' \<Longrightarrow> sub_loop X oracle' et n' m s = Some x"
proof (induction n arbitrary: m s n')
  case (Suc n)
  then obtain k where "n' = Suc k" "n \<le> k" by (cases n') auto
  with Suc show ?case by (auto split: loop_splits dest: extends_callbackD[OF assms])
qed simp

lemma private_loop_fuel_mono:
  assumes "extends_callback oracle oracle'"
  shows "private_loop X oracle p f n last_fc first m s = Some x \<Longrightarrow> n \<le> n' \<Longrightarrow>
    private_loop X oracle' p f n' last_fc first m s = Some x"
proof (induction n arbitrary: last_fc first m s n')
  case (Suc n)
  then obtain k where "n' = Suc k" "n \<le> k" by (cases n') auto
  with Suc show ?case
    by (auto simp: Let_def split: loop_splits
        dest: extends_callbackD[OF assms] sub_loop_fuel_mono[OF assms])
qed simp

text \<open>
  A machine that halts: every pass of \<open>solve\<close> that does not end the run decreases a measure, however
  the pending call is answered.
\<close>

definition halting :: "('m, 'c, 'u, 'fe) acvm \<Rightarrow> ('m \<Rightarrow> nat) \<Rightarrow> bool" where
  "halting X \<mu> \<longleftrightarrow> (\<forall>m st m'. acvm_solve X m = (st, m') \<longrightarrow>
     (case st of
        InProgress \<Rightarrow> \<mu> m' < \<mu> m
      | RequiresForeignCall _ _ \<Rightarrow> \<forall>answer. \<mu> (acvm_resolve_foreign_call X answer m') < \<mu> m
      | RequiresAcirCall _ _ \<Rightarrow> \<forall>answer. \<mu> (acvm_resolve_acir_call X answer m') < \<mu> m
      | _ \<Rightarrow> True))"

lemma haltingD:
  assumes "halting X \<mu>"
  shows "acvm_solve X m = (InProgress, m') \<Longrightarrow> \<mu> m' < \<mu> m"
    "acvm_solve X m = (RequiresForeignCall function inputs, m') \<Longrightarrow>
      \<mu> (acvm_resolve_foreign_call X answer m') < \<mu> m"
    "acvm_solve X m = (RequiresAcirCall ident w, m') \<Longrightarrow> \<mu> (acvm_resolve_acir_call X values m') < \<mu> m"
  using assms by (fastforce simp: halting_def)+

definition total_callback :: "'o callback \<Rightarrow> bool" where
  "total_callback oracle \<longleftrightarrow> (\<forall>function inputs s. oracle function inputs s \<noteq> None)"

lemma total_callbackE:
  assumes "total_callback oracle"
  obtains r s' where "oracle function inputs s = Some (r, s')"
  using assms unfolding total_callback_def by (metis option.exhaust surj_pair)

lemma sub_loop_returns:
  assumes "halting X \<mu>" and "total_callback oracle"
  shows "\<mu> m < n \<Longrightarrow> \<exists>x. sub_loop X oracle et n m s = Some x"
proof (induction n arbitrary: m s)
  case (Suc n)
  obtain st m' where solve: "acvm_solve X m = (st, m')" by (cases "acvm_solve X m")
  show ?case
  proof (cases st)
    case InProgress
    with solve haltingD(1)[OF assms(1)] Suc.prems have "\<mu> m' < n" by fastforce
    with Suc.IH solve InProgress show ?thesis by simp
  next
    case (RequiresForeignCall fname inputs)
    obtain r s' where "oracle fname (convert_fc_inputs X inputs) s = Some (r, s')"
      by (rule total_callbackE[OF assms(2)])
    moreover have "\<mu> (acvm_resolve_foreign_call X answer m') < n" for answer
      using haltingD(2)[OF assms(1) solve[unfolded RequiresForeignCall], of answer] Suc.prems by simp
    ultimately show ?thesis using Suc.IH solve RequiresForeignCall by (cases r) simp_all
  qed (use solve in simp_all)
qed simp

lemma private_loop_returns:
  assumes "halting X \<mu>" and "total_callback oracle"
  shows "\<exists>n x. private_loop X oracle p f n last_fc first m s = Some x"
proof (induction "\<mu> m" arbitrary: last_fc first m s rule: less_induct)
  case less
  obtain st m' where solve: "acvm_solve X m = (st, m')" by (cases "acvm_solve X m")
  show ?case
  proof (cases st)
    case InProgress
    then obtain n x where "private_loop X oracle p f n last_fc first m' s = Some x"
      using less haltingD(1)[OF assms(1)] solve by blast
    then show ?thesis using solve InProgress by (intro exI[of _ "Suc n"]) simp
  next
    case (RequiresForeignCall fname inputs)
    obtain r s' where call: "oracle fname (convert_fc_inputs X inputs) s = Some (r, s')"
      by (rule total_callbackE[OF assms(2)])
    show ?thesis
    proof (cases r)
      case (Inl e)
      then show ?thesis using solve RequiresForeignCall call by (intro exI[of _ "Suc 0"]) simp
    next
      case (Inr result)
      let ?m = "acvm_resolve_foreign_call X (convert_fc_result X fname result) m'"
      obtain n x where "private_loop X oracle p f n fname first ?m s' = Some x"
        using less haltingD(2)[OF assms(1)] solve RequiresForeignCall by blast
      then show ?thesis using solve RequiresForeignCall call Inr by (intro exI[of _ "Suc n"]) simp
    qed
  next
    case (RequiresAcirCall ident w)
    let ?c = "prog_functions p ! unat ident"
    let ?sub = "acvm_new X (circ_opcodes ?c) w (prog_unconstrained_functions p)"
    obtain r s' where sub: "sub_loop X oracle (fa_error_types f) (Suc (\<mu> ?sub)) ?sub s = Some (r, s')"
      using sub_loop_returns[OF assms, of ?sub] by fastforce
    show ?thesis
    proof (cases r)
      case (Inl e)
      then show ?thesis using solve RequiresAcirCall sub by (intro exI[of _ "Suc (Suc (\<mu> ?sub))"]) (simp del: sub_loop.simps)
    next
      case (Inr final)
      let ?rets = "List.map_filter (acvm_finalize X final) (circ_return_values ?c)"
      let ?first = "if first = [] then map (fe_to_fr X) ?rets else first"
      obtain n x where "private_loop X oracle p f n last_fc ?first (acvm_resolve_acir_call X ?rets m') s' = Some x"
        using less haltingD(3)[OF assms(1)] solve RequiresAcirCall by blast
      then have loop: "private_loop X oracle p f (n + Suc (\<mu> ?sub)) last_fc ?first
          (acvm_resolve_acir_call X ?rets m') s' = Some x"
        by (rule private_loop_fuel_mono[OF extends_callback_refl]) simp
      have "sub_loop X oracle (fa_error_types f) (n + Suc (\<mu> ?sub)) ?sub s = Some (r, s')"
        using sub by (rule sub_loop_fuel_mono[OF extends_callback_refl]) simp
      then show ?thesis using solve RequiresAcirCall Inr loop
        by (intro exI[of _ "Suc (n + Suc (\<mu> ?sub))"]) (simp add: Let_def del: sub_loop.simps add_Suc_right)
    qed
  qed (use solve in \<open>auto simp: Let_def intro!: exI[of _ "Suc 0"]\<close>)
qed

lemma execute_private_fuel_mono:
  assumes "extends_callback oracle oracle'" and "n \<le> n'"
    and "execute_private X n artifact name w oracle s = Some x"
  shows "execute_private X n' artifact name w oracle' s = Some x"
proof (cases "load_circuit X artifact name")
  case (Inr loaded)
  obtain f program main where loaded: "loaded = (f, program, main)" by (cases loaded)
  let ?loop = "\<lambda>oracle n. private_loop X oracle program f n [] [] (acvm_new X (circ_opcodes main)
    (build_initial_witness X w) (prog_unconstrained_functions program)) s"
  obtain y where y: "?loop oracle n = Some y"
    using assms(3) Inr loaded by (cases "?loop oracle n") (simp_all add: execute_private_def)
  with private_loop_fuel_mono[OF assms(1) y assms(2)] assms(3) Inr loaded show ?thesis
    by (simp add: execute_private_def)
qed (use assms(3) in \<open>simp add: execute_private_def\<close>)

subsection \<open>Properties\<close>


text \<open>A machine that counts down, calls the oracle once at zero and is then solved.\<close>

definition example_acvm :: "(nat \<times> bool, unit, unit, fr) acvm" where
  "example_acvm =
     \<lparr>acvm_new = \<lambda>_ _ _. (3, False),
      acvm_solve = \<lambda>(n, called). if 0 < n then (InProgress, (n - 1, called))
        else if called then (Solved, (n, called)) else (RequiresForeignCall ''log'' [], (n, called)),
      acvm_resolve_foreign_call = \<lambda>_ (n, _). (n, True),
      acvm_resolve_acir_call = \<lambda>_ m. m, acvm_finalize = \<lambda>_. Map.empty,
      acvm_error_text = \<lambda>_. ''failed'', acvm_base64 = \<lambda>s. Some (map of_char s), acvm_gzip = Some,
      acvm_deserialize_program = \<lambda>_. Some \<lparr>prog_functions = [\<lparr>circ_opcodes = (), circ_return_values = []\<rparr>],
        prog_unconstrained_functions = ()\<rparr>,
      fe_to_hex = \<lambda>f. drop 2 (fr_display plain_hex f), fe_from_be_bytes_reduce = fr_from_be_bytes_mod_order,
      acvm_hex = plain_hex\<rparr>"

definition example_oracle :: "nat callback" where
  "example_oracle function inputs s = Some (Inr [], Suc s)"

lemma example_acvm_halts: "halting example_acvm (\<lambda>(n, called). n + (if called then 0 else 1))"
  by (auto simp: halting_def example_acvm_def)


text \<open>
  What the oracle answers reaches the circuit unchanged: reading the converted answer back gives
  the same lists, whether a one-element list was passed as a single value or kept as an array.
\<close>

lemma foreign_results_roundtrip:
  assumes "\<And>f. fr_from_hex (acvm_hex X) (''0x'' @ fe_to_hex X (fe_from_be_bytes_reduce X (fr_to_be_bytes f))) = Inr f"
  shows "convert_fc_inputs X (convert_fc_result X function answer) = answer \<and>
    length (convert_fc_result X function answer) = length answer"
proof -
  have fe: "fe_to_fr X (fr_to_fe X f) = f" for f
    by (simp only: fe_to_fr_def fr_to_fe_def assms sum.case)
  have "convert_fc_inputs X (convert_fc_result X function answer) = map snd (List.enumerate 0 answer)"
    unfolding convert_fc_inputs_def convert_fc_result_def map_map
    by (rule map_cong[OF refl]) (auto simp: fe length_Suc_conv comp_def split: if_splits)
  then show ?thesis by (simp add: convert_fc_result_def)
qed

end
