(* ===== verification/Account_Stores.thy ===== *)
theory Account_Stores
  imports Kv_Store Contract_Identity
begin

text \<open>
  The registries of the PXE (\<open>crates/pxe/src/stores\<close>): \<open>address_store.rs\<close>, \<open>sender_store.rs\<close>,
  \<open>contract_store.rs\<close> and \<open>key_store.rs\<close>. Each keeps values of one kind under keys with a prefix of its
  own; the locale \<open>typed_table\<close> states what such a table promises over any key-value store, and each
  registry is an instance. Values that the code stores as raw bytes (the mark of a sender, a secret
  key) go through the record \<open>raw_bytes\<close>.
\<close>

subsection \<open>Addresses and senders\<close>

record 'v raw_bytes =
  raw_of :: "u8 list \<Rightarrow> 'v"
  raw_view :: "'v \<Rightarrow> u8 list"

definition raw_ok :: "'v raw_bytes \<Rightarrow> bool" where
  "raw_ok R \<longleftrightarrow> (\<forall>bs. raw_view R (raw_of R bs) = bs)"

text \<open>The body shared by the readers: look a key up and parse what is there.\<close>

definition get_json :: "('s, 'v) kv_store \<Rightarrow> ('a, 'v) serde \<Rightarrow> string \<Rightarrow> ('s, 'a option) op" where
  "get_json K c key =
     seq (kv_get K key) (\<lambda>found.
       case found of
         Some bytes \<Rightarrow> seq (lift_result (from_slice c bytes)) (\<lambda>x. ret (Some x))
       | None \<Rightarrow> ret None)"

record ('s, 'v) address_store =
  as_kv :: "('s, 'v) kv_store"
  as_hex :: hex_crate
  as_json :: "(complete_address, 'v) serde"

definition address_key :: "hex_crate \<Rightarrow> aztec_address \<Rightarrow> string" where
  "address_key H address = ''address:'' @ address_display H address"

definition address_add :: "('s, 'v) address_store \<Rightarrow> complete_address \<Rightarrow> ('s, unit) op" where
  "address_add self complete =
     kv_put (as_kv self) (address_key (as_hex self) (co_address complete)) (to_vec (as_json self) complete)"

definition address_get ::
    "('s, 'v) address_store \<Rightarrow> aztec_address \<Rightarrow> ('s, complete_address option) op" where
  "address_get self address = get_json (as_kv self) (as_json self) (address_key (as_hex self) address)"

definition address_get_all :: "('s, 'v) address_store \<Rightarrow> ('s, complete_address list) op" where
  "address_get_all self =
     seq (kv_list_prefix (as_kv self) ''address:'') (\<lambda>entries.
       lift_result (map_result (\<lambda>(_, v). from_slice (as_json self) v) entries))"

record ('s, 'v) sender_store =
  se_kv :: "('s, 'v) kv_store"
  se_hex :: hex_crate
  se_raw :: "'v raw_bytes"

definition sender_key :: "hex_crate \<Rightarrow> aztec_address \<Rightarrow> string" where
  "sender_key H sender = ''sender:'' @ address_display H sender"

definition sender_add :: "('s, 'v) sender_store \<Rightarrow> aztec_address \<Rightarrow> ('s, unit) op" where
  "sender_add self sender = kv_put (se_kv self) (sender_key (se_hex self) sender) (raw_of (se_raw self) [1])"

definition sender_remove :: "('s, 'v) sender_store \<Rightarrow> aztec_address \<Rightarrow> ('s, unit) op" where
  "sender_remove self sender = kv_delete (se_kv self) (sender_key (se_hex self) sender)"

definition sender_contains :: "('s, 'v) sender_store \<Rightarrow> aztec_address \<Rightarrow> ('s, bool) op" where
  "sender_contains self sender =
     seq (kv_get (se_kv self) (sender_key (se_hex self) sender)) (\<lambda>found. ret (found \<noteq> None))"

text \<open>The hexadecimal part of a key after its prefix.\<close>

definition hex_part :: "hex_crate \<Rightarrow> string \<Rightarrow> string \<Rightarrow> string \<Rightarrow> fr result" where
  "hex_part H pre message key =
     bind_result (ok_or (InvalidData message) (strip_prefix pre key)) (fr_from_hex H)"

definition sender_get_all :: "('s, 'v) sender_store \<Rightarrow> ('s, aztec_address list) op" where
  "sender_get_all self =
     seq (kv_list_prefix (se_kv self) ''sender:'') (\<lambda>entries.
       lift_result (map_result (\<lambda>(k, _).
         bind_result (hex_part (se_hex self) ''sender:'' ''invalid sender key prefix'' k)
           (\<lambda>f. Inr (AztecAddress f))) entries))"

subsection \<open>Contracts\<close>

record ('s, 'v) contract_store =
  ct_kv :: "('s, 'v) kv_store"
  ct_hex :: hex_crate
  ct_instance_json :: "(contract_instance_with_address, 'v) serde"
  ct_artifact_json :: "(contract_artifact, 'v) serde"
  ct_preimage_json :: "(json, 'v) serde"

definition instance_key :: "hex_crate \<Rightarrow> aztec_address \<Rightarrow> string" where
  "instance_key H address = ''contract:instance:'' @ address_display H address"

definition artifact_key :: "hex_crate \<Rightarrow> fr \<Rightarrow> string" where
  "artifact_key H class_id = ''contract:artifact:'' @ fr_display H class_id"

definition class_preimage_key :: "hex_crate \<Rightarrow> fr \<Rightarrow> string" where
  "class_preimage_key H class_id = ''contract:class-preimage:'' @ fr_display H class_id"

definition add_instance :: "('s, 'v) contract_store \<Rightarrow> contract_instance_with_address \<Rightarrow> ('s, unit) op" where
  "add_instance self inst =
     kv_put (ct_kv self) (instance_key (ct_hex self) (iwa_address inst)) (to_vec (ct_instance_json self) inst)"

definition get_instance ::
    "('s, 'v) contract_store \<Rightarrow> aztec_address \<Rightarrow> ('s, contract_instance_with_address option) op" where
  "get_instance self address =
     get_json (ct_kv self) (ct_instance_json self) (instance_key (ct_hex self) address)"

definition get_contract_addresses :: "('s, 'v) contract_store \<Rightarrow> ('s, aztec_address list) op" where
  "get_contract_addresses self =
     seq (kv_list_prefix (ct_kv self) ''contract:instance:'') (\<lambda>entries.
       lift_result (map_result (\<lambda>(_, v).
         bind_result (from_slice (ct_instance_json self) v) (\<lambda>inst. Inr (iwa_address inst))) entries))"

definition add_artifact :: "('s, 'v) contract_store \<Rightarrow> fr \<Rightarrow> contract_artifact \<Rightarrow> ('s, unit) op" where
  "add_artifact self class_id artifact =
     kv_put (ct_kv self) (artifact_key (ct_hex self) class_id) (to_vec (ct_artifact_json self) artifact)"

definition get_artifact :: "('s, 'v) contract_store \<Rightarrow> fr \<Rightarrow> ('s, contract_artifact option) op" where
  "get_artifact self class_id =
     get_json (ct_kv self) (ct_artifact_json self) (artifact_key (ct_hex self) class_id)"

definition add_class_preimage :: "('s, 'v) contract_store \<Rightarrow> fr \<Rightarrow> json \<Rightarrow> ('s, unit) op" where
  "add_class_preimage self class_id preimage =
     kv_put (ct_kv self) (class_preimage_key (ct_hex self) class_id) (to_vec (ct_preimage_json self) preimage)"

definition get_class_preimage :: "('s, 'v) contract_store \<Rightarrow> fr \<Rightarrow> ('s, json option) op" where
  "get_class_preimage self class_id =
     get_json (ct_kv self) (ct_preimage_json self) (class_preimage_key (ct_hex self) class_id)"

definition update_artifact ::
    "('s, 'v) contract_store \<Rightarrow> aztec_address \<Rightarrow> contract_artifact \<Rightarrow> ('s, unit) op" where
  "update_artifact self address artifact =
     seq (get_instance self address) (\<lambda>found.
     seq (lift_result (ok_or (InvalidData ''contract not found'') found)) (\<lambda>inst.
       add_artifact self (in_current_contract_class_id (iwa_inner inst)) artifact))"

definition add_class ::
    "('s, 'v) contract_store \<Rightarrow> crypto \<Rightarrow> artifact_codec \<Rightarrow> contract_artifact \<Rightarrow> ('s, fr) op" where
  "add_class self C A artifact =
     seq (lift_result (compute_contract_class_id_from_artifact C A artifact)) (\<lambda>class_id.
     seq (add_artifact self class_id artifact) (\<lambda>_. ret class_id))"

subsection \<open>Keys\<close>

record ('s, 'v) key_store =
  ks_kv :: "('s, 'v) kv_store"
  ks_hex :: hex_crate
  ks_raw :: "'v raw_bytes"
  ks_crypto :: crypto
  ks_curve :: curve

definition account_key :: "hex_crate \<Rightarrow> fr \<Rightarrow> string" where
  "account_key H pk_hash = ''key:account:'' @ fr_display H pk_hash"

definition add_account :: "('s, 'v) key_store \<Rightarrow> fr \<Rightarrow> ('s, derived_keys) op" where
  "add_account self secret_key =
     (let derived = derive_keys (ks_curve self) secret_key;
          pk_hash = public_keys_hash (ks_crypto self) (dk_public_keys derived)
      in seq (kv_put (ks_kv self) (account_key (ks_hex self) pk_hash)
                (raw_of (ks_raw self) (fr_to_be_bytes secret_key))) (\<lambda>_. ret derived))"

definition get_secret_key :: "('s, 'v) key_store \<Rightarrow> fr \<Rightarrow> ('s, fr option) op" where
  "get_secret_key self pk_hash =
     seq (kv_get (ks_kv self) (account_key (ks_hex self) pk_hash)) (\<lambda>found.
       case found of
         Some v \<Rightarrow>
           (let bytes = raw_view (ks_raw self) v in
            if length bytes = 32 then ret (Some (fr_from_bytes bytes))
            else fail (InvalidData ''invalid secret key length''))
       | None \<Rightarrow> ret None)"

text \<open>The readers of master keys: they derive the keys of the stored secret and select one.\<close>

definition get_derived :: "('s, 'v) key_store \<Rightarrow> (derived_keys \<Rightarrow> 'a) \<Rightarrow> fr \<Rightarrow> ('s, 'a option) op" where
  "get_derived self sel pk_hash =
     seq (get_secret_key self pk_hash) (\<lambda>found.
       case found of
         Some sk \<Rightarrow> ret (Some (sel (derive_keys (ks_curve self) sk)))
       | None \<Rightarrow> ret None)"

definition get_master_nullifier_hiding_key :: "('s, 'v) key_store \<Rightarrow> fr \<Rightarrow> ('s, fq option) op" where
  "get_master_nullifier_hiding_key self = get_derived self dk_master_nullifier_hiding_key"

definition get_master_incoming_viewing_secret_key :: "('s, 'v) key_store \<Rightarrow> fr \<Rightarrow> ('s, fq option) op" where
  "get_master_incoming_viewing_secret_key self = get_derived self dk_master_incoming_viewing_secret_key"

definition get_master_outgoing_viewing_secret_key :: "('s, 'v) key_store \<Rightarrow> fr \<Rightarrow> ('s, fq option) op" where
  "get_master_outgoing_viewing_secret_key self = get_derived self dk_master_outgoing_viewing_secret_key"

definition get_master_tagging_secret_key :: "('s, 'v) key_store \<Rightarrow> fr \<Rightarrow> ('s, fq option) op" where
  "get_master_tagging_secret_key self = get_derived self dk_master_tagging_secret_key"

definition get_public_keys :: "('s, 'v) key_store \<Rightarrow> fr \<Rightarrow> ('s, public_keys option) op" where
  "get_public_keys self = get_derived self dk_public_keys"

definition get_app_nullifier_hiding_key ::
    "('s, 'v) key_store \<Rightarrow> fr \<Rightarrow> aztec_address \<Rightarrow> ('s, fr option) op" where
  "get_app_nullifier_hiding_key self pk_hash app =
     seq (get_master_nullifier_hiding_key self pk_hash) (\<lambda>found.
       case found of
         Some nhk_m \<Rightarrow> ret (Some (compute_app_nullifier_hiding_key (ks_crypto self) nhk_m app))
       | None \<Rightarrow> ret None)"

fun master_key :: "derived_keys \<Rightarrow> key_type \<Rightarrow> fq" where
  "master_key derived Nullifier = dk_master_nullifier_hiding_key derived"
| "master_key derived IncomingViewing = dk_master_incoming_viewing_secret_key derived"
| "master_key derived OutgoingViewing = dk_master_outgoing_viewing_secret_key derived"
| "master_key derived Tagging = dk_master_tagging_secret_key derived"

definition keys_and_types :: "derived_keys \<Rightarrow> (point \<times> fq \<times> key_type) list" where
  "keys_and_types derived =
     (let pk = dk_public_keys derived in
      [(master_nullifier_public_key pk, dk_master_nullifier_hiding_key derived, Nullifier),
       (master_incoming_viewing_public_key pk, dk_master_incoming_viewing_secret_key derived,
        IncomingViewing),
       (master_outgoing_viewing_public_key pk, dk_master_outgoing_viewing_secret_key derived,
        OutgoingViewing),
       (master_tagging_public_key pk, dk_master_tagging_secret_key derived, Tagging)])"

definition point_hash :: "crypto \<Rightarrow> point \<Rightarrow> fr" where
  "point_hash C p = poseidon2_hash C [point_x p, point_y p, fr_from_bool (point_is_infinite p)]"

definition get_accounts :: "('s, 'v) key_store \<Rightarrow> ('s, fr list) op" where
  "get_accounts self =
     seq (kv_list_prefix (ks_kv self) ''key:account:'') (\<lambda>entries.
       lift_result (map_result (\<lambda>(k, _). hex_part (ks_hex self) ''key:account:'' ''invalid key prefix'' k)
         entries))"

fun find_key :: "('s, 'v) key_store \<Rightarrow> fr \<Rightarrow> aztec_address \<Rightarrow> fr list \<Rightarrow> ('s, (point \<times> fr) option) op" where
  "find_key self pk_m_hash app [] = ret None"
| "find_key self pk_m_hash app (account_pk_hash # accounts) =
     seq (get_secret_key self account_pk_hash) (\<lambda>found.
       case found of
         None \<Rightarrow> find_key self pk_m_hash app accounts
       | Some sk \<Rightarrow>
           (case find (\<lambda>(pk_m, _). point_hash (ks_crypto self) pk_m = pk_m_hash)
                  (keys_and_types (derive_keys (ks_curve self) sk)) of
              Some (pk_m, sk_m, key_type) \<Rightarrow>
                ret (Some (pk_m, compute_app_secret_key (ks_crypto self) sk_m app key_type))
            | None \<Rightarrow> find_key self pk_m_hash app accounts))"

definition get_key_validation_request ::
    "('s, 'v) key_store \<Rightarrow> fr \<Rightarrow> aztec_address \<Rightarrow> ('s, (point \<times> fr) option) op" where
  "get_key_validation_request self pk_m_hash app =
     seq (get_accounts self) (find_key self pk_m_hash app)"

definition get_app_secret_key ::
    "('s, 'v) key_store \<Rightarrow> fr \<Rightarrow> aztec_address \<Rightarrow> key_type \<Rightarrow> ('s, fr option) op" where
  "get_app_secret_key self pk_hash app key_type =
     seq (get_secret_key self pk_hash) (\<lambda>found.
       case found of
         None \<Rightarrow> ret None
       | Some sk \<Rightarrow> ret (Some (compute_app_secret_key (ks_crypto self)
           (master_key (derive_keys (ks_curve self) sk) key_type) app key_type)))"

definition get_app_ovsk :: "('s, 'v) key_store \<Rightarrow> fr \<Rightarrow> aztec_address \<Rightarrow> ('s, fq option) op" where
  "get_app_ovsk self pk_hash app =
     seq (get_master_outgoing_viewing_secret_key self pk_hash) (\<lambda>found.
       case found of
         Some ovsk_m \<Rightarrow> ret (Some (compute_ovsk_app (ks_crypto self) ovsk_m app))
       | None \<Rightarrow> ret None)"

subsection \<open>Typed tables\<close>

text \<open>
  A table in a store: the keys \<open>key x\<close> all start with the prefix \<open>pre\<close>, no two are equal, and \<open>enc\<close>
  is how a value is written. \<open>table_at\<close> relates the contents of the store to a map.
\<close>

definition table_at ::
    "string \<Rightarrow> ('k \<Rightarrow> string) \<Rightarrow> ('a \<Rightarrow> 'v) \<Rightarrow> (string \<Rightarrow> 'v option) \<Rightarrow> ('k \<Rightarrow> 'a option) \<Rightarrow> bool" where
  "table_at pre key enc m tbl \<longleftrightarrow>
     (\<forall>x. m (key x) = map_option enc (tbl x)) \<and> (\<forall>k v. prefix pre k \<longrightarrow> m k = Some v \<longrightarrow> k \<in> range key)"

lemma table_at_lookup: "table_at pre key enc m tbl \<Longrightarrow> m (key x) = map_option enc (tbl x)"
  by (simp add: table_at_def)

locale typed_table = kv_laws K lookup invar
  for K :: "('s, 'v) kv_store" and lookup :: "'s \<Rightarrow> string \<Rightarrow> 'v option" and invar :: "'s \<Rightarrow> bool" +
  fixes pre :: string and key :: "'k \<Rightarrow> string" and enc :: "'a \<Rightarrow> 'v"
  assumes key_inject: "key x = key y \<longleftrightarrow> x = y"
    and key_prefix: "prefix pre (key x)"
begin

lemma table_put: "table_at pre key enc m tbl \<Longrightarrow> table_at pre key enc (m(key x \<mapsto> enc v)) (tbl(x \<mapsto> v))"
  by (auto simp: table_at_def key_inject)

lemma table_delete: "table_at pre key enc m tbl \<Longrightarrow> table_at pre key enc (m(key x := None)) (tbl(x := None))"
  by (auto simp: table_at_def key_inject)

lemma table_other: "\<not> prefix pre k \<Longrightarrow> table_at pre key enc (m(k := v)) tbl = table_at pre key enc m tbl"
  using key_prefix by (auto simp: table_at_def)

lemma wp_table_put:
  assumes "invar s" and "table_at pre key enc (lookup s) tbl"
    and "\<And>s'. invar s' \<Longrightarrow> lookup s' = (lookup s)(key x \<mapsto> enc v) \<Longrightarrow>
      table_at pre key enc (lookup s') (tbl(x \<mapsto> v)) \<Longrightarrow> Q () s'"
  shows "wp (kv_put K (key x) (enc v)) Q s"
  using assms by (auto intro!: wp_put table_put)

lemma wp_table_list:
  assumes "invar s" and table: "table_at pre key enc (lookup s) tbl"
    and post: "\<And>xs. set xs = dom tbl \<Longrightarrow> sorted_wrt (<) (map key xs) \<Longrightarrow>
      Q (map (\<lambda>x. (key x, enc (the (tbl x)))) xs) s"
  shows "wp (kv_list_prefix K pre) Q s"
proof (rule wp_list_prefix[OF assms(1)])
  fix es
  assume sorted: "sorted_wrt (<) (map fst es)"
    and es: "\<And>k v. (k, v) \<in> set es \<longleftrightarrow> prefix pre k \<and> lookup s k = Some v"
  define xs where "xs = map (inv key \<circ> fst) es"
  have entry: "\<exists>x a. e = (key x, enc a) \<and> tbl x = Some a" if "e \<in> set es" for e
  proof -
    obtain k v where e: "e = (k, v)" by (cases e)
    with that es have "prefix pre k" and v: "lookup s k = Some v" by auto
    then obtain x where "k = key x" using table by (auto simp: table_at_def)
    with v e table_at_lookup[OF table, of x] show ?thesis by auto
  qed
  have inv: "inv key (key x) = x" for x by (simp add: key_inject inj_def inv_f_f)
  have map: "map (\<lambda>x. (key x, enc (the (tbl x)))) xs = es"
    unfolding xs_def map_map using entry inv by (intro map_idI) fastforce
  have "x \<in> set xs \<longleftrightarrow> x \<in> dom tbl" for x
  proof
    assume "x \<in> set xs"
    then show "x \<in> dom tbl" using entry inv by (fastforce simp: xs_def)
  next
    assume "x \<in> dom tbl"
    then have "(key x, enc (the (tbl x))) \<in> set es"
      using es key_prefix table_at_lookup[OF table, of x] by auto
    then have "(inv key \<circ> fst) (key x, enc (the (tbl x))) \<in> set xs"
      unfolding xs_def set_map by (rule imageI)
    then show "x \<in> set xs" by (simp add: inv)
  qed
  moreover have "map key xs = map fst es"
    unfolding map[symmetric] by (simp add: comp_def)
  ultimately have "Q (map (\<lambda>x. (key x, enc (the (tbl x)))) xs) s"
    using sorted by (intro post) auto
  then show "Q es s" by (simp only: map)
qed

end

lemma key_prefixes [simp]:
  "prefix ''address:'' (address_key H a)" "prefix ''sender:'' (sender_key H a)"
  "prefix ''contract:instance:'' (instance_key H a)" "prefix ''contract:artifact:'' (artifact_key H f)"
  "prefix ''key:account:'' (account_key H f)"
  by (simp_all add: address_key_def sender_key_def instance_key_def artifact_key_def account_key_def)

lemma key_injects [simp]:
  assumes "hex_ok H"
  shows "address_key H a = address_key H b \<longleftrightarrow> a = b" "sender_key H a = sender_key H b \<longleftrightarrow> a = b"
    "instance_key H a = instance_key H b \<longleftrightarrow> a = b" "artifact_key H f = artifact_key H g \<longleftrightarrow> f = g"
    "account_key H f = account_key H g \<longleftrightarrow> f = g"
  using assms
  by (simp_all add: address_key_def sender_key_def instance_key_def artifact_key_def account_key_def)

lemma key_disjoint [simp]:
  "\<not> prefix ''contract:artifact:'' (instance_key H a)" "\<not> prefix ''contract:instance:'' (artifact_key H f)"
  by (simp_all add: instance_key_def artifact_key_def)

text \<open>The registries as instances of the contract, over the in-memory store.\<close>

lemma registry_tables:
  assumes "hex_ok H"
  shows "typed_table in_memory_kv map_of btree_ok ''address:'' (address_key H)"
    "typed_table in_memory_kv map_of btree_ok ''sender:'' (sender_key H)"
    "typed_table in_memory_kv map_of btree_ok ''contract:instance:'' (instance_key H)"
    "typed_table in_memory_kv map_of btree_ok ''contract:artifact:'' (artifact_key H)"
    "typed_table in_memory_kv map_of btree_ok ''key:account:'' (account_key H)"
  using assms by (unfold_locales; simp)+

interpretation addresses: typed_table in_memory_kv map_of btree_ok "''address:''" "address_key plain_hex"
    "to_vec left_json"
  by (rule registry_tables) simp

interpretation senders: typed_table in_memory_kv map_of btree_ok "''sender:''" "sender_key plain_hex"
    "\<lambda>_. [1 :: u8]"
  by (rule registry_tables) simp

interpretation instances: typed_table in_memory_kv map_of btree_ok "''contract:instance:''"
    "instance_key plain_hex" "to_vec left_json"
  by (rule registry_tables) simp

interpretation artifacts: typed_table in_memory_kv map_of btree_ok "''contract:artifact:''"
    "artifact_key plain_hex" "to_vec right_json"
  by (rule registry_tables) simp

interpretation accounts: typed_table in_memory_kv map_of btree_ok "''key:account:''"
    "account_key plain_hex" fr_to_be_bytes
  by (rule registry_tables) simp

subsection \<open>Addresses\<close>

definition address_store_ok :: "('s, 'v) kv_store \<Rightarrow> ('s, 'v) address_store \<Rightarrow> bool" where
  "address_store_ok K self \<longleftrightarrow> as_kv self = K \<and> hex_ok (as_hex self) \<and> serde_ok (as_json self)"

definition addresses_at ::
    "('s, 'v) address_store \<Rightarrow> (string \<Rightarrow> 'v option) \<Rightarrow> (aztec_address \<Rightarrow> complete_address option) \<Rightarrow> bool" where
  "addresses_at self m tbl \<longleftrightarrow>
     table_at ''address:'' (address_key (as_hex self)) (to_vec (as_json self)) m tbl \<and>
     (\<forall>a c. tbl a = Some c \<longrightarrow> co_address c = a)"

lemma wp_get_json:
  assumes "btree_ok t" and "serde_ok c" and "map_of t key = map_option (to_vec c) found"
  shows "get_json in_memory_kv c key t = (Inr found, t)"
  using mem.get_law[OF assms(1), of key] assms(2,3)
  by (cases found) (simp_all add: get_json_def seq_def ret_def lift_result_def)

lemma address_get_eq:
  assumes "address_store_ok in_memory_kv self" and "btree_ok t" and "addresses_at self (map_of t) tbl"
  shows "address_get self a t = (Inr (tbl a), t)"
  using assms wp_get_json[OF assms(2), of "as_json self" "address_key (as_hex self) a"]
    table_at_lookup[of "''address:''" "address_key (as_hex self)" "to_vec (as_json self)" "map_of t" tbl a]
  by (simp add: address_get_def address_store_ok_def addresses_at_def)

text \<open>
  The address registry is a map: \<open>get\<close> looks an address up, \<open>add\<close> replaces the record of its
  address and no other, and \<open>get_all\<close> returns every record once, in the order of the keys.
\<close>

lemma address_registry_correct:
  assumes "address_store_ok in_memory_kv self" and "btree_ok t" and "addresses_at self (map_of t) tbl"
  shows "address_get self a t = (Inr (tbl a), t) \<and>
    (\<exists>t'. address_add self c t = (Inr (), t') \<and> btree_ok t' \<and>
       addresses_at self (map_of t') (tbl(co_address c \<mapsto> c))) \<and>
    (\<exists>cs. address_get_all self t = (Inr cs, t) \<and> set cs = ran tbl \<and>
       sorted_wrt (<) (map (\<lambda>c. address_key (as_hex self) (co_address c)) cs))"
proof (intro conjI)
  from assms(1) have ok: "as_kv self = in_memory_kv" "hex_ok (as_hex self)" "serde_ok (as_json self)"
    by (simp_all add: address_store_ok_def)
  note table = registry_tables(1)[OF ok(2)]
  from assms(3) have tbl: "table_at ''address:'' (address_key (as_hex self)) (to_vec (as_json self)) (map_of t) tbl"
    and self: "\<And>a c. tbl a = Some c \<Longrightarrow> co_address c = a" by (auto simp: addresses_at_def)
  show "address_get self a t = (Inr (tbl a), t)"
    by (rule address_get_eq[OF assms])
  have "wp (address_add self c) (\<lambda>_ t'. btree_ok t' \<and>
      addresses_at self (map_of t') (tbl(co_address c \<mapsto> c))) t"
    unfolding address_add_def ok(1)
    by (rule typed_table.wp_table_put[OF table assms(2) tbl])
      (unfold addresses_at_def, intro conjI, assumption, assumption, simp add: self)
  then show "\<exists>t'. address_add self c t = (Inr (), t') \<and> btree_ok t' \<and>
       addresses_at self (map_of t') (tbl(co_address c \<mapsto> c))"
    by (auto simp: wp_iff)
  have "wp (address_get_all self) (\<lambda>cs t'. t' = t \<and> set cs = ran tbl \<and>
      sorted_wrt (<) (map (\<lambda>c. address_key (as_hex self) (co_address c)) cs)) t"
    unfolding address_get_all_def ok(1) wp_seq
  proof (rule typed_table.wp_table_list[OF table assms(2) tbl])
    fix xs
    assume xs: "set xs = dom tbl" and sorted: "sorted_wrt (<) (map (address_key (as_hex self)) xs)"
    have read: "map_result (\<lambda>(_, v). from_slice (as_json self) v)
        (map (\<lambda>x. (address_key (as_hex self) x, to_vec (as_json self) (the (tbl x)))) xs) =
        Inr (map (the \<circ> tbl) xs)"
      using ok(3) by (induction xs) auto
    have "map (\<lambda>c. address_key (as_hex self) (co_address c)) (map (the \<circ> tbl) xs) =
        map (address_key (as_hex self)) xs" using xs self by (auto simp: dom_def)
    moreover have "set (map (the \<circ> tbl) xs) = ran tbl" using xs by (force simp: ran_def dom_def)
    ultimately show "wp (lift_result (map_result (\<lambda>(_, v). from_slice (as_json self) v)
        (map (\<lambda>x. (address_key (as_hex self) x, to_vec (as_json self) (the (tbl x)))) xs)))
        (\<lambda>cs t'. t' = t \<and> set cs = ran tbl \<and>
          sorted_wrt (<) (map (\<lambda>c. address_key (as_hex self) (co_address c)) cs)) t"
      unfolding read wp_lift_result using sorted by (simp only: simp_thms)
  qed
  then show "\<exists>cs. address_get_all self t = (Inr cs, t) \<and> set cs = ran tbl \<and>
       sorted_wrt (<) (map (\<lambda>c. address_key (as_hex self) (co_address c)) cs)"
    by (auto simp: wp_iff)
qed

definition example_address_store :: "((complete_address + unit) btree, complete_address + unit) address_store" where
  "example_address_store = \<lparr>as_kv = in_memory_kv, as_hex = plain_hex, as_json = left_json\<rparr>"

subsection \<open>Contracts\<close>

definition contract_store_ok :: "('s, 'v) kv_store \<Rightarrow> ('s, 'v) contract_store \<Rightarrow> bool" where
  "contract_store_ok K self \<longleftrightarrow> ct_kv self = K \<and> hex_ok (ct_hex self) \<and>
     serde_ok (ct_instance_json self) \<and> serde_ok (ct_artifact_json self)"

definition contracts_at ::
    "('s, 'v) contract_store \<Rightarrow> (string \<Rightarrow> 'v option) \<Rightarrow>
     (aztec_address \<Rightarrow> contract_instance_with_address option) \<Rightarrow> (fr \<Rightarrow> contract_artifact option) \<Rightarrow> bool" where
  "contracts_at self m insts arts \<longleftrightarrow>
     table_at ''contract:instance:'' (instance_key (ct_hex self)) (to_vec (ct_instance_json self)) m insts \<and>
     table_at ''contract:artifact:'' (artifact_key (ct_hex self)) (to_vec (ct_artifact_json self)) m arts"

lemma contract_reads:
  assumes "contract_store_ok in_memory_kv self" and "btree_ok t" and "contracts_at self (map_of t) insts arts"
  shows "get_instance self a t = (Inr (insts a), t)" "get_artifact self c t = (Inr (arts c), t)"
  using assms
  by (auto simp: contract_store_ok_def contracts_at_def get_instance_def get_artifact_def
      dest: table_at_lookup intro!: wp_get_json)

lemma wp_add_artifact:
  assumes "contract_store_ok in_memory_kv self" and "btree_ok t" and "contracts_at self (map_of t) insts arts"
  shows "\<exists>t'. add_artifact self c x t = (Inr (), t') \<and> btree_ok t' \<and>
    contracts_at self (map_of t') insts (arts(c \<mapsto> x))"
proof -
  from assms(1) have ok: "ct_kv self = in_memory_kv" "hex_ok (ct_hex self)"
    by (simp_all add: contract_store_ok_def)
  have arts: "table_at ''contract:artifact:'' (artifact_key (ct_hex self)) (to_vec (ct_artifact_json self))
      (map_of t) arts" and insts: "table_at ''contract:instance:'' (instance_key (ct_hex self))
      (to_vec (ct_instance_json self)) (map_of t) insts" using assms(3) by (simp_all add: contracts_at_def)
  have "wp (add_artifact self c x) (\<lambda>_ t'. btree_ok t' \<and>
      contracts_at self (map_of t') insts (arts(c \<mapsto> x))) t"
    unfolding add_artifact_def ok(1)
    by (rule typed_table.wp_table_put[OF registry_tables(4)[OF ok(2)] assms(2) arts])
      (unfold contracts_at_def, intro conjI, assumption,
       simp add: insts typed_table.table_other[OF registry_tables(3)[OF ok(2)]], assumption)
  then show ?thesis by (auto simp: wp_iff)
qed

text \<open>
  The contract registry. Updating an artifact needs a registered instance (otherwise it fails and
  changes nothing) and replaces the artifact of the current class of that instance, so for every
  instance of the class; registering a class stores the artifact under the class id computed from it,
  or fails without a write when the class id cannot be computed; no instance is touched.
\<close>

lemma contract_registry_correct:
  assumes "contract_store_ok in_memory_kv self" and "btree_ok t" and "contracts_at self (map_of t) insts arts"
  shows "(case insts a of
      None \<Rightarrow> update_artifact self a x t = (Inl (InvalidData ''contract not found''), t)
    | Some inst \<Rightarrow> \<exists>t'. update_artifact self a x t = (Inr (), t') \<and> btree_ok t' \<and>
        contracts_at self (map_of t') insts (arts(in_current_contract_class_id (iwa_inner inst) \<mapsto> x)) \<and>
        get_artifact self (in_current_contract_class_id (iwa_inner inst)) t' = (Inr (Some x), t')) \<and>
    (case compute_contract_class_id_from_artifact C A x of
      Inl e \<Rightarrow> add_class self C A x t = (Inl e, t)
    | Inr class_id \<Rightarrow> \<exists>t'. add_class self C A x t = (Inr class_id, t') \<and> btree_ok t' \<and>
        contracts_at self (map_of t') insts (arts(class_id \<mapsto> x)))"
proof (rule conjI)
  show "case insts a of
      None \<Rightarrow> update_artifact self a x t = (Inl (InvalidData ''contract not found''), t)
    | Some inst \<Rightarrow> \<exists>t'. update_artifact self a x t = (Inr (), t') \<and> btree_ok t' \<and>
        contracts_at self (map_of t') insts (arts(in_current_contract_class_id (iwa_inner inst) \<mapsto> x)) \<and>
        get_artifact self (in_current_contract_class_id (iwa_inner inst)) t' = (Inr (Some x), t')"
  proof (cases "insts a")
    case None
    then show ?thesis
      using contract_reads(1)[OF assms, of a] by (simp add: update_artifact_def seq_def lift_result_def)
  next
    case (Some inst)
    let ?c = "in_current_contract_class_id (iwa_inner inst)"
    obtain t' where t': "add_artifact self ?c x t = (Inr (), t')" "btree_ok t'"
      "contracts_at self (map_of t') insts (arts(?c \<mapsto> x))" using wp_add_artifact[OF assms] by blast
    moreover have "get_artifact self ?c t' = (Inr (Some x), t')"
      using contract_reads(2)[OF assms(1) t'(2,3), of ?c] by simp
    ultimately show ?thesis
      using Some contract_reads(1)[OF assms, of a] by (simp add: update_artifact_def seq_def lift_result_def)
  qed
  show "case compute_contract_class_id_from_artifact C A x of
      Inl e \<Rightarrow> add_class self C A x t = (Inl e, t)
    | Inr class_id \<Rightarrow> \<exists>t'. add_class self C A x t = (Inr class_id, t') \<and> btree_ok t' \<and>
        contracts_at self (map_of t') insts (arts(class_id \<mapsto> x))"
  proof (cases "compute_contract_class_id_from_artifact C A x")
    case (Inr class_id)
    then show ?thesis using wp_add_artifact[OF assms, of class_id x]
      by (auto simp: add_class_def seq_def lift_result_def ret_def)
  qed (simp add: add_class_def seq_def lift_result_def)
qed

definition example_contract_store ::
    "((contract_instance_with_address + contract_artifact) btree,
      contract_instance_with_address + contract_artifact) contract_store" where
  "example_contract_store =
     \<lparr>ct_kv = in_memory_kv, ct_hex = plain_hex, ct_instance_json = left_json, ct_artifact_json = right_json,
      ct_preimage_json = \<lparr>to_vec = \<lambda>_. undefined, from_slice = \<lambda>_. Inl (Json ''unexpected value'')\<rparr>\<rparr>"

definition example_artifact :: contract_artifact where
  "example_artifact =
     \<lparr>ca_name = ''Token'', ca_functions = [example_function], ca_outputs = None, ca_file_map = None,
      ca_context_inputs_sizes = None\<rparr>"

subsection \<open>Key validation requests\<close>

definition key_store_ok :: "('s, 'v) kv_store \<Rightarrow> ('s, 'v) key_store \<Rightarrow> bool" where
  "key_store_ok K self \<longleftrightarrow> ks_kv self = K \<and> hex_ok (ks_hex self) \<and> raw_ok (ks_raw self)"

definition account_hash :: "('s, 'v) key_store \<Rightarrow> fr \<Rightarrow> fr" where
  "account_hash self sk = public_keys_hash (ks_crypto self) (dk_public_keys (derive_keys (ks_curve self) sk))"

text \<open>The store holds exactly the secrets \<open>tbl\<close>, each under the hash of its public keys.\<close>

definition keys_at :: "('s, 'v) key_store \<Rightarrow> (string \<Rightarrow> 'v option) \<Rightarrow> (fr \<Rightarrow> fr option) \<Rightarrow> bool" where
  "keys_at self m tbl \<longleftrightarrow>
     table_at ''key:account:'' (account_key (ks_hex self)) (raw_of (ks_raw self) \<circ> fr_to_be_bytes) m tbl \<and>
     (\<forall>h sk. tbl h = Some sk \<longrightarrow> account_hash self sk = h)"

lemma get_secret_key_eq:
  assumes "key_store_ok in_memory_kv self" and "btree_ok t" and "keys_at self (map_of t) tbl"
  shows "get_secret_key self h t = (Inr (tbl h), t)"
proof -
  have "map_of t (account_key (ks_hex self) h) = map_option (raw_of (ks_raw self) \<circ> fr_to_be_bytes) (tbl h)"
    using assms(3) table_at_lookup by (fastforce simp: keys_at_def)
  moreover have "fr_from_bytes (fr_to_be_bytes sk) = sk" for sk
    by (simp add: fr_from_bytes_def)
  ultimately show ?thesis
    using assms(1) mem.get_law[OF assms(2), of "account_key (ks_hex self) h"]
    by (cases "tbl h")
      (simp_all add: key_store_ok_def get_secret_key_def seq_def ret_def raw_ok_def Let_def)
qed

lemma keys_and_types_set:
  "(pk, sk, kt) \<in> set (keys_and_types (derive_keys V s)) \<longleftrightarrow>
     sk = master_key (derive_keys V s) kt \<and> pk = derive_public_key_from_secret_key V sk"
  by (cases kt) (auto simp: keys_and_types_def derive_keys_def Let_def)

text \<open>The public key of kind \<open>kt\<close> of the account with secret \<open>sk\<close>.\<close>

definition account_public_key :: "('s, 'v) key_store \<Rightarrow> fr \<Rightarrow> key_type \<Rightarrow> point" where
  "account_public_key self sk kt =
     derive_public_key_from_secret_key (ks_curve self) (master_key (derive_keys (ks_curve self) sk) kt)"

definition answers ::
    "('s, 'v) key_store \<Rightarrow> fr set \<Rightarrow> fr \<Rightarrow> aztec_address \<Rightarrow> (point \<times> fr) option \<Rightarrow> bool" where
  "answers self secrets h app r \<longleftrightarrow>
     (case r of
        None \<Rightarrow> \<forall>sk \<in> secrets. \<forall>kt. point_hash (ks_crypto self) (account_public_key self sk kt) \<noteq> h
      | Some (pk, sk_app) \<Rightarrow> \<exists>sk \<in> secrets. \<exists>kt.
          pk = account_public_key self sk kt \<and> point_hash (ks_crypto self) pk = h \<and>
          sk_app = compute_app_secret_key (ks_crypto self)
            (master_key (derive_keys (ks_curve self) sk) kt) app kt)"

lemma find_key_answers:
  assumes "\<And>h. get_secret_key self h t = (Inr (tbl h), t)"
  shows "\<exists>r. find_key self h app accounts t = (Inr r, t) \<and>
    answers self {sk. \<exists>a \<in> set accounts. tbl a = Some sk} h app r"
proof (induction accounts)
  case Nil
  then show ?case by (simp add: ret_def answers_def)
next
  case (Cons a accounts)
  let ?P = "\<lambda>(pk_m, _ :: fq \<times> key_type). point_hash (ks_crypto self) pk_m = h"
  obtain r where r: "find_key self h app accounts t = (Inr r, t)"
    "answers self {sk. \<exists>a \<in> set accounts. tbl a = Some sk} h app r" using Cons.IH by blast
  show ?case
  proof (cases "tbl a")
    case None
    then show ?thesis using r assms[of a] by (simp add: seq_def)
  next
    case (Some sk)
    let ?keys = "keys_and_types (derive_keys (ks_curve self) sk)"
    show ?thesis
    proof (cases "find ?P ?keys")
      case None
      have "(account_public_key self sk kt, master_key (derive_keys (ks_curve self) sk) kt, kt) \<in> set ?keys" for kt
        by (simp add: keys_and_types_set account_public_key_def)
      with None have "point_hash (ks_crypto self) (account_public_key self sk kt) \<noteq> h" for kt
        unfolding find_None_iff by fastforce
      then have "answers self {s. \<exists>x \<in> set (a # accounts). tbl x = Some s} h app r"
        using r(2) Some by (auto simp: answers_def split: option.splits)
      then show ?thesis using r(1) None Some assms[of a] by (simp add: seq_def)
    next
      case found: (Some e)
      obtain pk sk_m kt where e: "e = (pk, sk_m, kt)" by (cases e)
      have "e \<in> set ?keys" and "?P e" using found unfolding find_Some_iff by (metis nth_mem)+
      then have "answers self {s. \<exists>x \<in> set (a # accounts). tbl x = Some s} h app
          (Some (pk, compute_app_secret_key (ks_crypto self) sk_m app kt))"
        using Some e by (auto simp: answers_def account_public_key_def keys_and_types_set)
      then show ?thesis using found e Some assms[of a] by (simp add: seq_def ret_def)
    qed
  qed
qed

lemma hex_part_account:
  "hex_ok H \<Longrightarrow> hex_part H ''key:account:'' message (account_key H x) = Inr x"
  by (simp only: hex_part_def account_key_def strip_prefix_append ok_or_simps bind_result_simps
      fr_from_hex_display)

lemma get_accounts_eq:
  assumes "key_store_ok in_memory_kv self" and "btree_ok t" and "keys_at self (map_of t) tbl"
  shows "\<exists>accounts. get_accounts self t = (Inr accounts, t) \<and> set accounts = dom tbl"
proof -
  from assms(1) have ok: "ks_kv self = in_memory_kv" "hex_ok (ks_hex self)" by (simp_all add: key_store_ok_def)
  let ?enc = "raw_of (ks_raw self) \<circ> fr_to_be_bytes"
  have tbl: "table_at ''key:account:'' (account_key (ks_hex self)) ?enc (map_of t) tbl"
    using assms(3) by (simp add: keys_at_def)
  have read: "map_result (\<lambda>(k, _). hex_part (ks_hex self) ''key:account:'' ''invalid key prefix'' k)
      (map (\<lambda>x. (account_key (ks_hex self) x, ?enc (the (tbl x)))) xs) = Inr xs" for xs
    using ok(2) by (induction xs) (simp_all add: hex_part_account)
  have "wp (get_accounts self) (\<lambda>accounts t'. t' = t \<and> set accounts = dom tbl) t"
    unfolding get_accounts_def ok(1) wp_seq
    by (rule typed_table.wp_table_list[OF registry_tables(5)[OF ok(2)] assms(2) tbl])
      (simp only: read wp_lift_result)
  then show ?thesis by (auto simp: wp_iff)
qed

text \<open>
  Adding an account stores its secret under the hash of its public keys, in place of any account
  with the same hash. A key validation request finds an account exactly when one of its four master
  public keys has the requested hash, and then returns that public key with the secret key that the
  application derives from the matching master key; it changes nothing.
\<close>

lemma key_validation_correct:
  assumes "key_store_ok in_memory_kv self" and "btree_ok t" and "keys_at self (map_of t) tbl"
  shows "(\<exists>t'. add_account self sk t = (Inr (derive_keys (ks_curve self) sk), t') \<and> btree_ok t' \<and>
      keys_at self (map_of t') (tbl(account_hash self sk \<mapsto> sk))) \<and>
    (\<exists>r. get_key_validation_request self h app t = (Inr r, t) \<and> answers self (ran tbl) h app r)"
proof (rule conjI)
  from assms(1) have ok: "ks_kv self = in_memory_kv" "hex_ok (ks_hex self)" by (simp_all add: key_store_ok_def)
  have tbl: "table_at ''key:account:'' (account_key (ks_hex self)) (raw_of (ks_raw self) \<circ> fr_to_be_bytes)
      (map_of t) tbl" and self: "\<And>h sk. tbl h = Some sk \<Longrightarrow> account_hash self sk = h"
    using assms(3) by (simp_all add: keys_at_def)
  have "wp (kv_put in_memory_kv (account_key (ks_hex self) (account_hash self sk))
      ((raw_of (ks_raw self) \<circ> fr_to_be_bytes) sk))
      (\<lambda>_ t'. btree_ok t' \<and> keys_at self (map_of t') (tbl(account_hash self sk \<mapsto> sk))) t"
    by (rule typed_table.wp_table_put[OF registry_tables(5)[OF ok(2)] assms(2) tbl])
      (unfold keys_at_def, intro conjI, assumption, assumption, simp add: self)
  then show "\<exists>t'. add_account self sk t = (Inr (derive_keys (ks_curve self) sk), t') \<and> btree_ok t' \<and>
      keys_at self (map_of t') (tbl(account_hash self sk \<mapsto> sk))"
    by (auto simp: wp_iff add_account_def Let_def ok seq_def ret_def simp flip: account_hash_def)
  obtain accounts where acc: "get_accounts self t = (Inr accounts, t)" "set accounts = dom tbl"
    using get_accounts_eq[OF assms] by blast
  obtain r where "find_key self h app accounts t = (Inr r, t)"
    "answers self {sk. \<exists>a \<in> set accounts. tbl a = Some sk} h app r"
    using find_key_answers[of self t tbl, OF get_secret_key_eq[OF assms]] by blast
  moreover have "{sk. \<exists>a \<in> set accounts. tbl a = Some sk} = ran tbl"
    using acc(2) by (auto simp: ran_def)
  ultimately show "\<exists>r. get_key_validation_request self h app t = (Inr r, t) \<and>
      answers self (ran tbl) h app r"
    using acc(1) by (auto simp: get_key_validation_request_def seq_def)
qed

definition example_key_store :: "((u8 list) btree, u8 list) key_store" where
  "example_key_store =
     \<lparr>ks_kv = in_memory_kv, ks_hex = plain_hex, ks_raw = \<lparr>raw_of = id, raw_view = id\<rparr>,
      ks_crypto = example_crypto, ks_curve = example_curve\<rparr>"

end
