(* ===== verification/Private_Oracle.thy ===== *)
theory Private_Oracle
  imports Acvm_Executor Account_Stores Capsule_Store Note_Selection Tagging_Stores Execution_Result
begin

text \<open>
  The oracle behind a private function (\<open>crates/pxe/src/execution/oracle.rs\<close>): its state and every
  handler except nested calls, which follow in \<open>Oracle_Calls\<close>.

  The fields of \<open>PrivateExecutionOracle\<close> that change are the record \<open>private_oracle\<close>; the stores and the
  node it borrows are the record \<open>oracle_env\<close>, the node as functions that answer for the duration of a
  call. A handler that only reads the oracle is an operation on the store, one that changes it an
  operation on the oracle. \<open>HashMap\<close>s are maps or association lists, random fields come from a supply
  \<open>oe_random\<close> indexed by the number of draws. Log lines are left out.
\<close>

subsection \<open>State\<close>

record capsule =
  cap_contract_address :: aztec_address
  cap_storage_slot :: fr
  cap_data :: "fr list"

record 'w private_oracle =
  po_block_header :: json
  po_contract_address :: aztec_address
  po_protocol_nullifier :: fr
  po_execution_cache :: "fr \<Rightarrow> fr list option"
  po_auth_witnesses :: "(fr \<times> fr list) list"
  po_sender_for_tags :: "aztec_address option"
  po_scopes :: "aztec_address list"
  po_call_is_static :: bool
  po_side_effect_counter :: u32
  po_new_notes :: "note_and_slot list"
  po_note_hashes :: "scoped_note_hash list"
  po_nullifiers :: "scoped_nullifier list"
  po_note_hash_nullifier_counter_map :: counter_map
  po_consumed_db_nullifiers :: "fr set"
  po_private_logs :: "private_log_data list"
  po_contract_class_logs :: "counted_contract_class_log list"
  po_offchain_effects :: "fr list list"
  po_public_call_requests :: "public_call_request_data list"
  po_public_teardown_call_request :: "public_call_request_data option"
  po_note_hash_read_requests :: "scoped_read_request list"
  po_nullifier_read_requests :: "scoped_read_request list"
  po_min_revertible_side_effect_counter :: u32
  po_in_revertible_phase :: bool
  po_public_function_calldata :: "hashed_values list"
  po_nested_results :: "'w private_call_execution_result list"
  po_context_witness_prefix :: "fr list"
  po_capsules :: "capsule list"
  po_draws :: nat

record oracle_node =
  node_public_storage_at :: "u64 \<Rightarrow> aztec_address \<Rightarrow> fr \<Rightarrow> fr result"
  node_public_storage_at_by_hash :: "fr \<Rightarrow> aztec_address \<Rightarrow> fr \<Rightarrow> fr result"
  node_contract :: "aztec_address \<Rightarrow> contract_instance_with_address option result"
  node_l1_to_l2_witness :: "u64 \<Rightarrow> fr \<Rightarrow> json option result"
  node_note_hash_witness :: "u64 \<Rightarrow> fr \<Rightarrow> json option result"
  node_nullifier_witness :: "u64 \<Rightarrow> fr \<Rightarrow> json option result"
  node_public_data_witness_by_hash :: "fr \<Rightarrow> fr \<Rightarrow> json option result"
  node_block_hash_witness :: "u64 \<Rightarrow> fr \<Rightarrow> json option result"

record ('s, 'v) oracle_env =
  oe_crypto :: crypto
  oe_curve :: curve
  oe_hex :: hex_crate
  oe_base64 :: "string \<Rightarrow> u8 list option"
  oe_node :: oracle_node
  oe_contract_store :: "('s, 'v) contract_store"
  oe_key_store :: "('s, 'v) key_store"
  oe_note_store :: "('s, 'v) note_store"
  oe_capsule_store :: "('s, 'v) capsule_store"
  oe_address_store :: "('s, 'v) address_store"
  oe_sender_tagging_store :: "('s, 'v) sender_tagging_store"
  oe_random :: "nat \<Rightarrow> fr"

definition oracle_new ::
    "json \<Rightarrow> aztec_address \<Rightarrow> fr \<Rightarrow> aztec_address option \<Rightarrow> aztec_address list \<Rightarrow> bool \<Rightarrow> 'w private_oracle" where
  "oracle_new block_header contract_address protocol_nullifier sender_for_tags scopes call_is_static =
     \<lparr>po_block_header = block_header, po_contract_address = contract_address,
      po_protocol_nullifier = protocol_nullifier, po_execution_cache = Map.empty, po_auth_witnesses = [],
      po_sender_for_tags = sender_for_tags, po_scopes = scopes, po_call_is_static = call_is_static,
      po_side_effect_counter = 0, po_new_notes = [], po_note_hashes = [], po_nullifiers = [],
      po_note_hash_nullifier_counter_map = [], po_consumed_db_nullifiers = {}, po_private_logs = [],
      po_contract_class_logs = [], po_offchain_effects = [], po_public_call_requests = [],
      po_public_teardown_call_request = None, po_note_hash_read_requests = [],
      po_nullifier_read_requests = [], po_min_revertible_side_effect_counter = 0,
      po_in_revertible_phase = False, po_public_function_calldata = [], po_nested_results = [],
      po_context_witness_prefix = [], po_capsules = [], po_draws = 0\<rparr>"

subsection \<open>Arguments\<close>

text \<open>\<open>args.get(i).and_then(|v| v.first())\<close> and its usual continuations.\<close>

definition arg :: "fr list list \<Rightarrow> nat \<Rightarrow> fr option" where
  "arg args i = Option.bind (list_get args i) (\<lambda>v. list_get v 0)"

definition arg_or_zero :: "fr list list \<Rightarrow> nat \<Rightarrow> fr" where
  "arg_or_zero args i = unwrap_or 0 (arg args i)"

definition arg_required :: "string \<Rightarrow> fr list list \<Rightarrow> nat \<Rightarrow> fr result" where
  "arg_required message args i = ok_or (InvalidData message) (arg args i)"

text \<open>\<open>f.to_usize() as u32\<close>.\<close>

definition fr_to_u32 :: "fr \<Rightarrow> u32" where
  "fr_to_u32 f = ucast (fr_to_usize f)"

definition ensure_mutable_context :: "('w private_oracle, unit) op" where
  "ensure_mutable_context self =
     (if po_call_is_static self then fail (InvalidData ''Static call cannot update the state'') self else ret () self)"

text \<open>\<open>self.side_effect_counter += 1\<close>, and the counter it leaves.\<close>

definition next_counter :: "('w private_oracle, u32) op" where
  "next_counter self =
     (case checked_add (po_side_effect_counter self) 1 of
        Inl e \<Rightarrow> (Inl e, self)
      | Inr c \<Rightarrow> (Inr c, self\<lparr>po_side_effect_counter := c\<rparr>))"

definition counter_arg :: "fr list list \<Rightarrow> nat \<Rightarrow> ('w private_oracle, u32) op" where
  "counter_arg args i =
     (case arg args i of Some f \<Rightarrow> ret (fr_to_u32 f) | None \<Rightarrow> next_counter)"

text \<open>A state change of the oracle that answers with no values.\<close>

definition update_oracle :: "('w private_oracle \<Rightarrow> 'w private_oracle) \<Rightarrow> ('w private_oracle, fr list list) op" where
  "update_oracle f self = (Inr [], f self)"

subsection \<open>Notes and nullifiers\<close>

definition push_note :: "note_and_slot \<Rightarrow> 'w private_oracle \<Rightarrow> 'w private_oracle" where
  "push_note n self =
     self\<lparr>po_new_notes := po_new_notes self @ [n],
        po_note_hashes := po_note_hashes self @
          [\<lparr>snh_note_hash = \<lparr>nh_value = nas_note_hash n, nh_counter = nas_counter n\<rparr>,
            snh_contract_address = nas_contract_address n\<rparr>]\<rparr>"

definition notify_created_note :: "fr list list \<Rightarrow> ('w private_oracle, fr list list) op" where
  "notify_created_note args =
     seq ensure_mutable_context (\<lambda>_.
     seq (counter_arg args 6) (\<lambda>counter.
       update_oracle (\<lambda>self. push_note
         \<lparr>nas_contract_address = po_contract_address self, nas_owner = AztecAddress (arg_or_zero args 0),
          nas_storage_slot = arg_or_zero args 1, nas_randomness = arg_or_zero args 2,
          nas_note_type_id = arg_or_zero args 3, nas_note_items = get_arg args 4,
          nas_note_hash = arg_or_zero args 5, nas_counter = counter\<rparr> self)))"

definition push_nullifier :: "fr \<Rightarrow> fr \<Rightarrow> u32 \<Rightarrow> aztec_address \<Rightarrow> 'w private_oracle \<Rightarrow> 'w private_oracle" where
  "push_nullifier value note_hash counter contract self =
     self\<lparr>po_nullifiers := po_nullifiers self @
       [\<lparr>snf_nullifier = \<lparr>nf_value = value, nf_note_hash = note_hash, nf_counter = counter\<rparr>,
         snf_contract_address = contract\<rparr>]\<rparr>"

text \<open>The first note hash with the value is the one recorded as nullified.\<close>

definition record_nullified :: "fr \<Rightarrow> u32 \<Rightarrow> 'w private_oracle \<Rightarrow> 'w private_oracle" where
  "record_nullified note_hash counter self =
     (if note_hash = 0 then self
      else case find (\<lambda>nh. nh_value (snh_note_hash nh) = note_hash) (po_note_hashes self) of
             None \<Rightarrow> self
           | Some nh \<Rightarrow> self\<lparr>po_note_hash_nullifier_counter_map :=
               AList.update (nh_counter (snh_note_hash nh)) counter (po_note_hash_nullifier_counter_map self)\<rparr>)"

definition notify_nullified_note :: "crypto \<Rightarrow> fr list list \<Rightarrow> ('w private_oracle, fr list list) op" where
  "notify_nullified_note C args =
     seq ensure_mutable_context (\<lambda>_.
     seq (counter_arg args 2) (\<lambda>counter.
       update_oracle (\<lambda>self.
         let inner_nullifier = arg_or_zero args 0;
             note_hash = arg_or_zero args 1;
             siloed = silo_nullifier C (po_contract_address self) inner_nullifier;
             o1 = self\<lparr>po_consumed_db_nullifiers := insert siloed (po_consumed_db_nullifiers self)\<rparr>;
             o2 = push_nullifier inner_nullifier note_hash counter (po_contract_address o1) o1
         in record_nullified note_hash counter o2)))"

definition notify_created_nullifier :: "fr list list \<Rightarrow> ('w private_oracle, fr list list) op" where
  "notify_created_nullifier args =
     seq ensure_mutable_context (\<lambda>_.
     seq next_counter (\<lambda>counter.
       update_oracle (\<lambda>self. push_nullifier (arg_or_zero args 0) 0 counter (po_contract_address self) self)))"

definition is_nullifier_pending :: "fr list list \<Rightarrow> ('w private_oracle, fr list list) op" where
  "is_nullifier_pending args self =
     (bind_result (arg_required ''missing nullifier'' args 0) (\<lambda>nullifier.
        Inr [[fr_from_bool (list_ex (\<lambda>n. nf_value (snf_nullifier n) = nullifier) (po_nullifiers self))]]), self)"

definition note_status_from_field :: "fr \<Rightarrow> note_status result" where
  "note_status_from_field value =
     (if fr_to_usize value = 1 then Inr Active
      else if fr_to_usize value = 2 then Inr ActiveOrNullified
      else Inl (InvalidData ''unknown note status''))"

definition pack_hinted_note :: "stored_note \<Rightarrow> fr list result" where
  "pack_hinted_note note =
     bind_result
       (if sn_is_pending note then Inr (if sn_note_nonce note = 0 then 1 else 2)
        else if sn_note_nonce note = 0
        then Inl (InvalidData ''cannot pack settled note with zero note_nonce'')
        else Inr 3)
       (\<lambda>stage. Inr (sn_note_data note @
         [address_field (sn_contract_address note), address_field (sn_owner note), sn_randomness note,
          sn_storage_slot note, fr_from_u64 stage, sn_note_nonce note]))"

definition saturating_mul :: "usize \<Rightarrow> usize \<Rightarrow> nat" where
  "saturating_mul a b = min (unat a * unat b) (2 ^ 64 - 1)"

definition pack_bounded_vec_of_arrays :: "fr list list \<Rightarrow> usize \<Rightarrow> usize \<Rightarrow> fr list list result" where
  "pack_bounded_vec_of_arrays arrays max_len nested_len =
     (if length arrays > unat max_len then Inl (InvalidData ''bounded vec overflow'')
      else bind_result
        (map_result (\<lambda>array. if length array \<noteq> unat nested_len
            then Inl (InvalidData ''packed hinted note length mismatch'') else Inr array) arrays)
        (\<lambda>checked. Inr [resize (saturating_mul max_len nested_len) 0 (concat checked),
           [fr_from_u64 (of_nat (length arrays))]]))"

text \<open>How often each pending note hash was nullified: one per key of the counter map that names it.\<close>

definition nullified_hash_count :: "'w private_oracle \<Rightarrow> fr \<Rightarrow> nat" where
  "nullified_hash_count self value =
     length (filter (\<lambda>nh_counter'.
       map_option (nh_value \<circ> snh_note_hash)
         (find (\<lambda>h. nh_counter (snh_note_hash h) = nh_counter') (po_note_hashes self)) = Some value)
       (map fst (po_note_hash_nullifier_counter_map self)))"

definition pending_stored_note :: "note_and_slot \<Rightarrow> stored_note" where
  "pending_stored_note pending =
     \<lparr>sn_contract_address = nas_contract_address pending, sn_owner = nas_owner pending,
      sn_storage_slot = nas_storage_slot pending, sn_randomness = nas_randomness pending,
      sn_note_nonce = 0, sn_note_hash = nas_note_hash pending, sn_siloed_nullifier = 0,
      sn_note_data = nas_note_items pending, sn_nullified = False, sn_is_pending = True,
      sn_nullification_block_number = None, sn_leaf_index = None, sn_block_number = None,
      sn_tx_index_in_block = None, sn_note_index_in_tx = None, sn_scopes = [nas_owner pending]\<rparr>"

text \<open>
  The loop over the notes created in this execution: \<open>consumed\<close> counts, for each note hash, how many of
  its notes were already skipped as nullified.
\<close>

fun pending_notes ::
    "(fr \<Rightarrow> nat) \<Rightarrow> aztec_address \<Rightarrow> fr \<Rightarrow> aztec_address option \<Rightarrow> (fr \<Rightarrow> nat) \<Rightarrow> note_and_slot list \<Rightarrow>
     stored_note list" where
  "pending_notes nullified contract slot owner consumed [] = []"
| "pending_notes nullified contract slot owner consumed (p # ps) =
     (if nas_contract_address p \<noteq> contract \<or> nas_storage_slot p \<noteq> slot \<or>
        (case owner of None \<Rightarrow> False | Some a \<Rightarrow> nas_owner p \<noteq> a)
      then pending_notes nullified contract slot owner consumed ps
      else if consumed (nas_note_hash p) < nullified (nas_note_hash p)
      then pending_notes nullified contract slot owner
        (consumed(nas_note_hash p := Suc (consumed (nas_note_hash p)))) ps
      else pending_stored_note p # pending_notes nullified contract slot owner consumed ps)"

text \<open>Offset, limit and maximum, in the order of the code.\<close>

definition page :: "usize \<Rightarrow> usize \<Rightarrow> usize \<Rightarrow> 'a list \<Rightarrow> 'a list" where
  "page offset limit max_notes xs =
     (let xs1 = (if unat offset \<ge> length xs then [] else drop (unat offset) xs);
          xs2 = (if limit > 0 \<and> length xs1 > unat limit then take (unat limit) xs1 else xs1)
      in if length xs2 > unat max_notes then take (unat max_notes) xs2 else xs2)"

definition oracle_get_notes ::
    "('s, 'v) oracle_env \<Rightarrow> 'w private_oracle \<Rightarrow> fr list list \<Rightarrow> ('s, fr list list) op" where
  "oracle_get_notes env self args =
     (let owner = (if arg_or_zero args 0 \<noteq> 0 then Some (AztecAddress (arg_or_zero args 1)) else None) in
      seq (lift_result (arg_required ''getNotes: missing storage_slot'' args 2)) (\<lambda>storage_slot.
      let limit = fr_to_usize (arg_or_zero args 13);
          offset = fr_to_usize (arg_or_zero args 14) in
      seq (lift_result (note_status_from_field (arg_or_zero args 15))) (\<lambda>status.
      let max_notes = fr_to_usize (arg_or_zero args 16);
          packed_hinted_note_length = fr_to_usize (arg_or_zero args 17) in
      seq (get_notes (oe_note_store env)
             (note_filter_default\<lparr>nf_contract_address := Some (po_contract_address self),
                nf_storage_slot := Some storage_slot, nf_owner := owner, nf_status := status\<rparr>)) (\<lambda>db.
      let kept = filter (\<lambda>n. sn_siloed_nullifier n = 0 \<or>
                    sn_siloed_nullifier n \<notin> po_consumed_db_nullifiers self) db;
          merged = kept @ pending_notes (nullified_hash_count self) (po_contract_address self) storage_slot
                     owner (\<lambda>_. 0) (po_new_notes self) in
      seq (lift_result (select_notes merged (parse_select_clauses args))) (\<lambda>selected.
      seq (lift_result (map_result pack_hinted_note (page offset limit max_notes selected))) (\<lambda>packed.
        lift_result (pack_bounded_vec_of_arrays packed max_notes packed_hinted_note_length)))))))"

definition check_note_hash_exists ::
    "('s, 'v) oracle_env \<Rightarrow> 'w private_oracle \<Rightarrow> fr list list \<Rightarrow> ('s, fr list list) op" where
  "check_note_hash_exists env self args =
     seq (lift_result (arg_required ''missing note_hash'' args 0)) (\<lambda>note_hash.
     seq (has_note (oe_note_store env) (po_contract_address self) note_hash) (\<lambda>stored.
       ret [[fr_from_bool (stored \<or>
         list_ex (\<lambda>nh. nh_value (snh_note_hash nh) = note_hash) (po_note_hashes self))]]))"

definition check_nullifier_exists ::
    "('s, 'v) oracle_env \<Rightarrow> 'w private_oracle \<Rightarrow> fr list list \<Rightarrow> ('s, fr list list) op" where
  "check_nullifier_exists env self args =
     seq (lift_result (arg_required ''missing nullifier'' args 0)) (\<lambda>inner_nullifier.
       let nullifier = silo_nullifier (oe_crypto env) (po_contract_address self) inner_nullifier in
       if list_ex (\<lambda>n. nf_value (snf_nullifier n) = nullifier) (po_nullifiers self)
       then ret [[fr_from_bool True]]
       else seq (lift_result (node_nullifier_witness (oe_node env) 0 nullifier)) (\<lambda>witness.
         ret [[fr_from_bool (witness \<noteq> None)]]))"

subsection \<open>Keys\<close>

definition account_points :: "complete_address \<Rightarrow> point list" where
  "account_points complete =
     (let pk = co_public_keys complete in
      [master_nullifier_public_key pk, master_incoming_viewing_public_key pk,
       master_outgoing_viewing_public_key pk, master_tagging_public_key pk])"

fun key_in_scope :: "('s, 'v) oracle_env \<Rightarrow> fr \<Rightarrow> aztec_address list \<Rightarrow> ('s, bool) op" where
  "key_in_scope env pk_m_hash [] = ret False"
| "key_in_scope env pk_m_hash (scope # scopes) =
     seq (address_get (oe_address_store env) scope) (\<lambda>found.
       case found of
         None \<Rightarrow> key_in_scope env pk_m_hash scopes
       | Some complete \<Rightarrow>
           if list_ex (\<lambda>p. point_hash (oe_crypto env) p = pk_m_hash) (account_points complete)
           then ret True else key_in_scope env pk_m_hash scopes)"

definition oracle_get_secret_key ::
    "('s, 'v) oracle_env \<Rightarrow> 'w private_oracle \<Rightarrow> fr list list \<Rightarrow> ('s, fr list list) op" where
  "oracle_get_secret_key env self args =
     seq (lift_result (arg_required ''getKeyValidationRequest: missing pk_m_hash'' args 0)) (\<lambda>pk_m_hash.
     seq (if po_scopes self = [] then ret True else key_in_scope env pk_m_hash (po_scopes self)) (\<lambda>allowed.
     if \<not> allowed then fail (InvalidData ''Key validation request denied'')
     else
       seq (get_key_validation_request (oe_key_store env) pk_m_hash (po_contract_address self)) (\<lambda>found.
         case found of
           Some (pk_m, sk_app) \<Rightarrow>
             ret [[point_x pk_m], [point_y pk_m], [fr_from_bool (point_is_infinite pk_m)], [sk_app]]
         | None \<Rightarrow> ret [[0], [0], [0], [0]])))"

definition get_public_keys_and_partial_address ::
    "('s, 'v) oracle_env \<Rightarrow> fr list list \<Rightarrow> ('s, fr list list) op" where
  "get_public_keys_and_partial_address env args =
     seq (lift_result (arg_required ''missing address arg'' args 0)) (\<lambda>address.
     seq (address_get (oe_address_store env) (AztecAddress address)) (\<lambda>found.
       case found of
         None \<Rightarrow> ret [[0], replicate 13 0]
       | Some complete \<Rightarrow>
           ret [[fr_from_bool True],
                concat (map (\<lambda>p. [point_x p, point_y p, fr_from_bool (point_is_infinite p)])
                  (account_points complete)) @ [co_partial_address complete]]))"

subsection \<open>Public state, contracts and capsules\<close>

text \<open>The carry loop over the bytes, least significant first.\<close>

fun add_carry :: "u8 list \<Rightarrow> nat \<Rightarrow> u8 list" where
  "add_carry [] carry = []"
| "add_carry (b # bs) carry =
     (if carry = 0 then b # bs
      else let sum = unat b + carry mod 256
           in of_nat (sum mod 256) # add_carry bs (carry div 256 + sum div 256))"

definition slot_with_offset :: "fr \<Rightarrow> nat \<Rightarrow> fr" where
  "slot_with_offset start_slot offset = fr_from_bytes (rev (add_carry (rev (fr_to_be_bytes start_slot)) offset))"

definition get_public_storage_at ::
    "('s, 'v) oracle_env \<Rightarrow> fr list list \<Rightarrow> fr list list result" where
  "get_public_storage_at env args =
     bind_result
       (if length args \<ge> 4 then
          bind_result (arg_required ''missing contract address'' args 1) (\<lambda>contract.
          bind_result (arg_required ''missing storage slot'' args 2) (\<lambda>start_slot.
            Inr (Some (arg_or_zero args 0), contract, start_slot,
                 max (unat (fr_to_usize (arg_or_zero args 3))) 1)))
        else
          bind_result (arg_required ''missing contract address'' args 0) (\<lambda>contract.
          bind_result (arg_required ''missing storage slot'' args 1) (\<lambda>slot.
            Inr (None, contract, slot, 1))))
       (\<lambda>(block_hash, contract, start_slot, number_of_elements).
         bind_result (map_result (\<lambda>offset.
             let slot = slot_with_offset start_slot offset in
             case block_hash of
               Some hash \<Rightarrow> node_public_storage_at_by_hash (oe_node env) hash (AztecAddress contract) slot
             | None \<Rightarrow> node_public_storage_at (oe_node env) 0 (AztecAddress contract) slot)
           [0..<number_of_elements]) (\<lambda>values'. Inr [values']))"

definition contract_instance_to_fields :: "contract_instance \<Rightarrow> fr list list" where
  "contract_instance_to_fields inst =
     (let pk = in_public_keys inst in
      [[in_salt inst], [address_field (in_deployer inst)], [in_current_contract_class_id inst],
       [in_initialization_hash inst]] @
      concat (map (\<lambda>p. [[point_x p], [point_y p], [fr_from_bool (point_is_infinite p)]])
        [master_nullifier_public_key pk, master_incoming_viewing_public_key pk,
         master_outgoing_viewing_public_key pk, master_tagging_public_key pk]))"

definition get_contract_instance ::
    "('s, 'v) oracle_env \<Rightarrow> fr list list \<Rightarrow> ('s, fr list list) op" where
  "get_contract_instance env args =
     seq (lift_result (arg_required ''missing address'' args 0)) (\<lambda>address.
     seq (get_instance (oe_contract_store env) (AztecAddress address)) (\<lambda>local.
     seq (case local of
            Some inst \<Rightarrow> ret (Some inst)
          | None \<Rightarrow> lift_result (node_contract (oe_node env) (AztecAddress address))) (\<lambda>inst.
       ret (case inst of
              Some inst \<Rightarrow> contract_instance_to_fields (iwa_inner inst)
            | None \<Rightarrow> replicate 16 [0]))))"

definition get_capsule :: "('s, 'v) oracle_env \<Rightarrow> fr list list \<Rightarrow> ('s, fr list list) op" where
  "get_capsule env args =
     seq (lift_result (arg_required ''missing capsule contract id'' args 0)) (\<lambda>contract_id.
     seq (capsule_pop (oe_capsule_store env) contract_id) (\<lambda>found.
       case found of Some capsule \<Rightarrow> ret capsule | None \<Rightarrow> fail (InvalidData ''no capsule available'')))"

subsection \<open>Logs, cache and public calls\<close>

definition emit_private_log :: "fr list list \<Rightarrow> ('w private_oracle, fr list list) op" where
  "emit_private_log args =
     seq ensure_mutable_context (\<lambda>_.
     seq next_counter (\<lambda>counter.
       update_oracle (\<lambda>self. self\<lparr>po_private_logs := po_private_logs self @
         [\<lparr>pld_fields = get_arg args 0, pld_emitted_length = of_nat (length (get_arg args 0)),
           pld_note_hash_counter = 0, pld_counter = counter,
           pld_contract_address = po_contract_address self\<rparr>]\<rparr>)))"

definition emit_contract_class_log :: "fr list list \<Rightarrow> ('w private_oracle, fr list list) op" where
  "emit_contract_class_log args =
     seq ensure_mutable_context (\<lambda>_.
     let flds = get_arg args 1;
         emitted_length = (case arg args 2 of Some f \<Rightarrow> fr_to_u32 f | None \<Rightarrow> of_nat (length flds)) in
     seq (counter_arg args 3) (\<lambda>counter.
       update_oracle (\<lambda>self. self\<lparr>po_contract_class_logs := po_contract_class_logs self @
         [\<lparr>cccl_log = \<lparr>ccl_contract_address = AztecAddress (arg_or_zero args 0), ccl_fields = flds,
            ccl_emitted_length = emitted_length\<rparr>, cccl_counter = counter\<rparr>]\<rparr>)))"

definition store_in_execution_cache :: "fr list list \<Rightarrow> ('w private_oracle, fr list list) op" where
  "store_in_execution_cache args =
     update_oracle (\<lambda>self. self\<lparr>po_execution_cache :=
       (po_execution_cache self)(arg_or_zero args 1 \<mapsto> get_arg args 0)\<rparr>)"

definition seed_execution_cache :: "hashed_values list \<Rightarrow> 'w private_oracle \<Rightarrow> 'w private_oracle" where
  "seed_execution_cache hashed self =
     fold (\<lambda>hv self. self\<lparr>po_execution_cache := (po_execution_cache self)(hv_hash hv \<mapsto> hv_values hv)\<rparr>)
       hashed self"

definition load_from_execution_cache :: "fr list list \<Rightarrow> ('w private_oracle, fr list list) op" where
  "load_from_execution_cache args self =
     (bind_result (arg_required ''missing hash'' args 0) (\<lambda>hash.
        case po_execution_cache self hash of
          Some found \<Rightarrow> Inr [found]
        | None \<Rightarrow> Inl (InvalidData ''value not found in execution cache'')), self)"

definition get_auth_witness :: "fr list list \<Rightarrow> ('w private_oracle, fr list list) op" where
  "get_auth_witness args self =
     (bind_result (arg_required ''missing message hash'' args 0) (\<lambda>message_hash.
        case find (\<lambda>(hash, _). hash = message_hash) (po_auth_witnesses self) of
          Some (_, witness) \<Rightarrow> Inr [witness]
        | None \<Rightarrow> Inl (InvalidData ''Unknown auth witness for message hash'')), self)"

definition from_calldata :: "crypto \<Rightarrow> fr list \<Rightarrow> hashed_values" where
  "from_calldata C calldata = \<lparr>hv_values = calldata, hv_hash = compute_calldata_hash C calldata\<rparr>"

definition enqueue_public_function_call ::
    "crypto \<Rightarrow> fr list list \<Rightarrow> bool \<Rightarrow> ('w private_oracle, fr list list) op" where
  "enqueue_public_function_call C args is_teardown =
     seq next_counter (\<lambda>own_counter.
     let calldata_hash = arg_or_zero args 1;
         counter = (case arg args 2 of Some f \<Rightarrow> fr_to_u32 f | None \<Rightarrow> own_counter);
         is_static = (case arg args 3 of Some f \<Rightarrow> f \<noteq> 0 | None \<Rightarrow> False) in
       update_oracle (\<lambda>self.
         let request = \<lparr>pcd_contract_address = AztecAddress (arg_or_zero args 0),
               pcd_msg_sender = po_contract_address self, pcd_is_static_call = is_static,
               pcd_calldata_hash = calldata_hash, pcd_counter = counter\<rparr>;
             self1 = (case po_execution_cache self calldata_hash of
               Some calldata \<Rightarrow> self\<lparr>po_public_function_calldata :=
                 po_public_function_calldata self @ [from_calldata C calldata]\<rparr>
             | None \<Rightarrow> self)
         in if is_teardown then self1\<lparr>po_public_teardown_call_request := Some request\<rparr>
            else self1\<lparr>po_public_call_requests := po_public_call_requests self1 @ [request]\<rparr>))"

definition set_min_revertible :: "fr list list \<Rightarrow> ('w private_oracle, fr list list) op" where
  "set_min_revertible args self =
     (case arg args 0 of
        None \<Rightarrow> (Inr [], self)
      | Some counter \<Rightarrow>
          if po_in_revertible_phase self
          then (Inl (InvalidData ''cannot enter the revertible phase twice''), self)
          else (Inr [], self\<lparr>po_in_revertible_phase := True,
                  po_min_revertible_side_effect_counter := fr_to_u32 counter\<rparr>))"

definition is_counter_revertible :: "fr list list \<Rightarrow> ('w private_oracle, fr list list) op" where
  "is_counter_revertible args self =
     (let counter = (case arg args 0 of Some f \<Rightarrow> fr_to_u32 f | None \<Rightarrow> 0) in
      (Inr [[fr_from_bool (po_in_revertible_phase self \<and>
         counter \<ge> po_min_revertible_side_effect_counter self)]], self))"

subsection \<open>Membership witnesses\<close>

text \<open>\<open>serde_json\<close>: \<open>pointer\<close> along object keys, \<open>get\<close> of an array index.\<close>

fun js_pointer :: "string list \<Rightarrow> json \<Rightarrow> json option" where
  "js_pointer [] j = Some j"
| "js_pointer (key # keys) j = Option.bind (js_field key j) (js_pointer keys)"

definition js_index :: "nat \<Rightarrow> json \<Rightarrow> json option" where
  "js_index i j = Option.bind (js_array j) (\<lambda>items. list_get items i)"

fun dec_digits :: "nat \<Rightarrow> string \<Rightarrow> nat option" where
  "dec_digits acc [] = Some acc"
| "dec_digits acc (c # cs) =
     (case char_digit 10 c of
        None \<Rightarrow> None
      | Some d \<Rightarrow> if acc * 10 + d < 2 ^ 128 then dec_digits (acc * 10 + d) cs else None)"

definition u128_parse :: "string \<Rightarrow> 128 word option" where
  "u128_parse s =
     (let ds = (case s of c # cs \<Rightarrow> if c = CHR ''+'' then cs else s | [] \<Rightarrow> [])
      in if ds = [] then None else map_option of_nat (dec_digits 0 ds))"

definition parse_field_string :: "hex_crate \<Rightarrow> string \<Rightarrow> fr result" where
  "parse_field_string H value =
     (if prefix ''0x'' value then fr_from_hex H value
      else case u128_parse value of
             Some n \<Rightarrow> Inr (fr_from_u128 n)
           | None \<Rightarrow> Inl (InvalidData ''unsupported field string value''))"

definition left_padded :: "u8 list \<Rightarrow> fr" where
  "left_padded chunk = fr_from_bytes (replicate (32 - length chunk) 0 @ chunk)"

definition decode_base64_sibling_path :: "(string \<Rightarrow> u8 list option) \<Rightarrow> string \<Rightarrow> fr list result" where
  "decode_base64_sibling_path base64 encoded =
     bind_result (ok_or (InvalidData ''invalid siblingPath base64'') (base64 encoded)) (\<lambda>bytes.
     bind_result
       (if length bytes \<ge> 4 then
          let declared_len = unat (u32_from_be_bytes (take 4 bytes));
              payload = drop 4 bytes
          in if length payload = min (declared_len * 32) (2 ^ 64 - 1) then Inr payload
             else if length bytes mod 32 = 0 then Inr bytes
             else Inl (InvalidData ''siblingPath payload length mismatch'')
        else Inr bytes)
       (\<lambda>payload. Inr (map left_padded (chunks 32 payload))))"

definition L1_TO_L2_MSG_TREE_HEIGHT :: nat where "L1_TO_L2_MSG_TREE_HEIGHT = 36"
definition PUBLIC_DATA_TREE_HEIGHT :: nat where "PUBLIC_DATA_TREE_HEIGHT = 40"

definition header_block_number :: "json \<Rightarrow> u64" where
  "header_block_number header =
     unwrap_or 0 (or_else_opt
       (Option.bind (js_pointer [''globalVariables'', ''blockNumber''] header) js_u64)
       (Option.bind (js_field ''blockNumber'' header) js_u64))"

definition l1_leaf_index :: "hex_crate \<Rightarrow> json \<Rightarrow> fr" where
  "l1_leaf_index H witness =
     unwrap_or 0 (or_else_opt
       (Option.bind (Option.bind (js_index 0 witness) js_str) (\<lambda>s.
          or_else_opt (result_ok (fr_from_hex H s)) (map_option fr_from_u64 (u64_parse s))))
       (map_option fr_from_u64 (Option.bind (js_index 0 witness) js_u64)))"

definition l1_sibling_path :: "('s, 'v) oracle_env \<Rightarrow> json \<Rightarrow> fr list" where
  "l1_sibling_path env witness =
     (case Option.bind (js_index 1 witness) js_array of
        Some path_arr \<Rightarrow>
          map (\<lambda>node. case js_str node of
                 Some s \<Rightarrow> unwrap_or 0 (result_ok (fr_from_hex (oe_hex env) s))
               | None \<Rightarrow> 0) path_arr
      | None \<Rightarrow>
          (case Option.bind (Option.bind (js_index 1 witness) js_str) (oe_base64 env) of
             Some bytes \<Rightarrow>
               (let data = (if length bytes \<ge> 4 then drop 4 bytes else bytes)
                in map fr_from_bytes (filter (\<lambda>chunk. length chunk = 32) (chunks 32 data)))
           | None \<Rightarrow> []))"

definition get_l1_to_l2_membership_witness ::
    "('s, 'v) oracle_env \<Rightarrow> 'w private_oracle \<Rightarrow> fr list list \<Rightarrow> fr list list result" where
  "get_l1_to_l2_membership_witness env self args =
     bind_result (arg_required ''missing L1 to L2 message hash'' args 1) (\<lambda>msg_hash.
     bind_result (node_l1_to_l2_witness (oe_node env) (header_block_number (po_block_header self)) msg_hash) (\<lambda>found.
     bind_result (ok_or (InvalidData ''L1 to L2 message membership witness not found'') found) (\<lambda>witness.
       Inr [[l1_leaf_index (oe_hex env) witness],
            resize L1_TO_L2_MSG_TREE_HEIGHT 0 (l1_sibling_path env witness)])))"

text \<open>The three handlers that ask the node and discard its answer.\<close>

definition discard_witness ::
    "string \<Rightarrow> (u64 \<Rightarrow> fr \<Rightarrow> json option result) \<Rightarrow> fr list list \<Rightarrow> fr list list result" where
  "discard_witness message query args =
     bind_result (arg_required message args 1) (\<lambda>leaf. bind_result (query 0 leaf) (\<lambda>_. Inr []))"

definition get_note_hash_membership_witness :: "('s, 'v) oracle_env \<Rightarrow> fr list list \<Rightarrow> fr list list result" where
  "get_note_hash_membership_witness env =
     discard_witness ''missing note hash'' (node_note_hash_witness (oe_node env))"

definition get_nullifier_membership_witness :: "('s, 'v) oracle_env \<Rightarrow> fr list list \<Rightarrow> fr list list result" where
  "get_nullifier_membership_witness env =
     discard_witness ''missing nullifier'' (node_nullifier_witness (oe_node env))"

definition get_block_hash_membership_witness :: "('s, 'v) oracle_env \<Rightarrow> fr list list \<Rightarrow> fr list list result" where
  "get_block_hash_membership_witness env =
     discard_witness ''missing block hash'' (node_block_hash_witness (oe_node env))"

definition json_field_value :: "hex_crate \<Rightarrow> string \<Rightarrow> string \<Rightarrow> json \<Rightarrow> fr result" where
  "json_field_value H string_message shape_message j =
     (case js_str j of
        Some s \<Rightarrow> (case parse_field_string H s of
                     Inr f \<Rightarrow> Inr f | Inl _ \<Rightarrow> Inl (InvalidData string_message))
      | None \<Rightarrow> (case js_u64 j of
                   Some n \<Rightarrow> Inr (fr_from_u64 n) | None \<Rightarrow> Inl (InvalidData shape_message)))"

definition fr_at :: "hex_crate \<Rightarrow> json \<Rightarrow> string list \<Rightarrow> fr result" where
  "fr_at H witness path =
     bind_result (ok_or (InvalidData ''public data witness missing field'') (js_pointer path witness))
       (json_field_value H ''public data witness field has unsupported string value''
          ''public data witness field has unsupported shape'')"

definition public_data_sibling_path :: "('s, 'v) oracle_env \<Rightarrow> json \<Rightarrow> fr list result" where
  "public_data_sibling_path env witness =
     (case js_pointer [''siblingPath''] witness of
        Some (JsArray entries) \<Rightarrow>
          map_result (json_field_value (oe_hex env)
            ''public data witness siblingPath entry has unsupported string value''
            ''public data witness siblingPath entry has unsupported shape'') entries
      | Some (JsString encoded) \<Rightarrow> decode_base64_sibling_path (oe_base64 env) encoded
      | _ \<Rightarrow> Inl (InvalidData ''public data witness missing siblingPath''))"

definition get_public_data_witness :: "('s, 'v) oracle_env \<Rightarrow> fr list list \<Rightarrow> fr list list result" where
  "get_public_data_witness env args =
     bind_result (arg_required ''missing leaf slot'' args 1) (\<lambda>leaf_slot.
     bind_result (node_public_data_witness_by_hash (oe_node env) (arg_or_zero args 0) leaf_slot) (\<lambda>found.
     case found of
       None \<Rightarrow> Inr ([[0], [0], [0], [0], [0]] @ [replicate PUBLIC_DATA_TREE_HEIGHT 0])
     | Some witness \<Rightarrow>
         bind_result (public_data_sibling_path env witness) (\<lambda>sibling_path.
         bind_result (map_result (fr_at (oe_hex env) witness)
           [[''index''], [''leafPreimage'', ''leaf'', ''slot''], [''leafPreimage'', ''leaf'', ''value''],
            [''leafPreimage'', ''nextKey''], [''leafPreimage'', ''nextIndex'']]) (\<lambda>flds.
           Inr (map (\<lambda>f. [f]) flds @ [resize PUBLIC_DATA_TREE_HEIGHT 0 sibling_path])))))"

subsection \<open>Tagging\<close>

definition fq_add :: "fq \<Rightarrow> fq \<Rightarrow> fq" where
  "fq_add a b = fq_of_nat (fq_bigint a + fq_bigint b)"

definition compute_address_secret :: "curve \<Rightarrow> fr \<Rightarrow> fq \<Rightarrow> fq" where
  "compute_address_secret V preaddress ivsk =
     (let candidate = fq_add ivsk (fq_from_be_bytes_mod_order (fr_to_be_bytes preaddress))
      in if has_positive_y (scalar_mul V candidate (generator V)) then candidate
         else fq_sub fq_zero candidate)"

definition compute_directional_tagging_secret ::
    "crypto \<Rightarrow> curve \<Rightarrow> complete_address \<Rightarrow> fq \<Rightarrow> aztec_address \<Rightarrow> aztec_address \<Rightarrow> aztec_address \<Rightarrow> fr result" where
  "compute_directional_tagging_secret C V local_address local_ivsk external_address app recipient =
     (let preaddress = poseidon2_hash_with_separator C
            [public_keys_hash C (co_public_keys local_address), co_partial_address local_address]
            CONTRACT_ADDRESS_V1;
          address_secret = compute_address_secret V preaddress local_ivsk
      in bind_result (point_from_x V (address_field external_address)) (\<lambda>external_point.
           let shared_secret = scalar_mul V address_secret external_point;
               app_tagging_secret = poseidon2_hash C
                 [point_x shared_secret, point_y shared_secret, address_field app]
           in Inr (poseidon2_hash C [app_tagging_secret, address_field recipient])))"

definition get_sender_for_tags :: "('w private_oracle, fr list list) op" where
  "get_sender_for_tags self =
     (Inr (case po_sender_for_tags self of
        Some sender \<Rightarrow> [[1], [address_field sender]] | None \<Rightarrow> [[0], [0]]), self)"

definition set_sender_for_tags :: "fr list list \<Rightarrow> ('w private_oracle, fr list list) op" where
  "set_sender_for_tags args =
     seq (lift_result (arg_required ''missing sender_for_tags'' args 0)) (\<lambda>sender.
       update_oracle (\<lambda>self. self\<lparr>po_sender_for_tags := Some (AztecAddress sender)\<rparr>))"

definition get_next_app_tag_as_sender ::
    "('s, 'v) oracle_env \<Rightarrow> 'w private_oracle \<Rightarrow> fr list list \<Rightarrow> ('s, fr list list) op" where
  "get_next_app_tag_as_sender env self args =
     seq (lift_result (arg_required ''missing sender'' args 0)) (\<lambda>sender.
     seq (lift_result (arg_required ''missing recipient'' args 1)) (\<lambda>recipient.
     seq (address_get (oe_address_store env) (AztecAddress sender)) (\<lambda>found.
     seq (lift_result (ok_or (InvalidData ''sender not in address store'') found)) (\<lambda>sender_complete.
     seq (get_master_incoming_viewing_secret_key (oe_key_store env)
            (public_keys_hash (oe_crypto env) (co_public_keys sender_complete))) (\<lambda>found_key.
     seq (lift_result (ok_or (InvalidData ''ivsk not found for sender'') found_key)) (\<lambda>ivsk.
     seq (lift_result (compute_directional_tagging_secret (oe_crypto env) (oe_curve env) sender_complete ivsk
            (AztecAddress recipient) (po_contract_address self) (AztecAddress recipient))) (\<lambda>secret.
     seq (get_next_index (oe_sender_tagging_store env) secret) (\<lambda>index.
       ret [[poseidon2_hash (oe_crypto env) [secret, fr_from_u64 index]]]))))))))"

end
