(* ===== verification/Oracle_Calls.thy ===== *)
theory Oracle_Calls
  imports Private_Oracle
begin

text \<open>
  Nested private calls and the dispatch of foreign calls (\<open>crates/pxe/src/execution/oracle.rs\<close>).

  A nested call runs the executor with an oracle of its own and merges that oracle into the caller.
  The executor calls back into the dispatch, so the two are tied together by fuel
  (\<open>private_callback\<close>): the callback of fuel \<open>n + 1\<close> runs nested circuits with fuel \<open>n\<close>. The state of a
  run is the store beside the oracle.
\<close>

subsection \<open>Side effects in the witness\<close>

definition NOTE_HASHES_OFFSET :: nat where "NOTE_HASHES_OFFSET = 454"
definition NULLIFIERS_OFFSET :: nat where "NULLIFIERS_OFFSET = 487"
definition PRIVATE_LOGS_OFFSET :: nat where "PRIVATE_LOGS_OFFSET = 561"

text \<open>
  An array of at most 16 items of \<open>len\<close> fields each, followed by the number of items.
\<close>

definition counted_items :: "nat \<Rightarrow> nat \<Rightarrow> fr list \<Rightarrow> fr list list" where
  "counted_items offset len pcpi =
     (let slice = take (16 * len + 1) (drop offset pcpi);
          count = min (unat (fr_to_usize (slice ! (16 * len)))) 16
      in map (\<lambda>i. take len (drop (i * len) slice)) [0..<count])"

definition extract_side_effects_from_witness ::
    "(u32 \<Rightarrow> fr option) \<Rightarrow> nat \<Rightarrow> aztec_address \<Rightarrow>
     scoped_note_hash list \<times> scoped_nullifier list \<times> private_log_data list" where
  "extract_side_effects_from_witness witness pcpi_start contract_address =
     (let pcpi = extract_public_inputs_fields witness pcpi_start;
          note_hashes = map (\<lambda>it. \<lparr>snh_note_hash = \<lparr>nh_value = it ! 0, nh_counter = fr_to_u32 (it ! 1)\<rparr>,
              snh_contract_address = contract_address\<rparr>)
            (filter (\<lambda>it. it ! 0 \<noteq> 0) (counted_items NOTE_HASHES_OFFSET 2 pcpi));
          nullifiers = map (\<lambda>it. \<lparr>snf_nullifier = \<lparr>nf_value = it ! 0, nf_note_hash = it ! 1,
              nf_counter = fr_to_u32 (it ! 2)\<rparr>, snf_contract_address = contract_address\<rparr>)
            (filter (\<lambda>it. it ! 0 \<noteq> 0) (counted_items NULLIFIERS_OFFSET 3 pcpi));
          logs = map (\<lambda>it. \<lparr>pld_fields = take 16 it, pld_emitted_length = fr_to_u32 (it ! 16),
              pld_note_hash_counter = fr_to_u32 (it ! 17), pld_counter = fr_to_u32 (it ! 18),
              pld_contract_address = contract_address\<rparr>)
            (filter (\<lambda>it. 0 < fr_to_u32 (it ! 16)) (counted_items PRIVATE_LOGS_OFFSET 19 pcpi))
      in (note_hashes, nullifiers, logs))"

text \<open>The first log with the counter is replaced; a log with a new counter is appended.\<close>

fun replace_log :: "private_log_data \<Rightarrow> private_log_data list \<Rightarrow> private_log_data list" where
  "replace_log circuit_log [] = [circuit_log]"
| "replace_log circuit_log (log # logs) =
     (if pld_counter log = pld_counter circuit_log then circuit_log # logs
      else log # replace_log circuit_log logs)"

definition merge_nested_private_logs ::
    "private_log_data list \<Rightarrow> private_log_data list \<Rightarrow> private_log_data list" where
  "merge_nested_private_logs nested_logs circuit_logs =
     (if circuit_logs = [] then nested_logs else fold replace_log circuit_logs nested_logs)"

subsection \<open>Protocol contracts\<close>

definition saturating_add_u32 :: "u32 \<Rightarrow> u32 \<Rightarrow> u32" where
  "saturating_add_u32 a b = (if unat a + unat b < 2 ^ 32 then a + b else - 1)"

definition contract_class_registry :: aztec_address where
  "contract_class_registry = AztecAddress 3"

definition contract_instance_registry :: aztec_address where
  "contract_instance_registry = AztecAddress 2"

definition contract_class_published_magic_value :: fr where
  "contract_class_published_magic_value =
     fr_of_nat 0x20f5895a4e837356c2d551743df6bf642756dcd93cd31cbd37c556c90bf7f244"

definition contract_instance_published_magic_value :: fr where
  "contract_instance_published_magic_value =
     fr_of_nat 0x174c6b3d0fd14728e4fc5e53f7b262ab943546a7e125e2ed5e9fde3cf0b3e22f"

definition contract_class_registry_bytecode_capsule_slot :: fr where
  "contract_class_registry_bytecode_capsule_slot =
     fr_of_nat 0x1f61038721b052d5389449bf44f73c817146aedfab1ef13d37f16ce928df1fb7"

text \<open>What both protocol handlers do at the end: advance the counter, make the empty return values
  available and record the call.\<close>

definition finish_protocol_call ::
    "crypto \<Rightarrow> 'w \<Rightarrow> aztec_address \<Rightarrow> function_selector \<Rightarrow> u32 \<Rightarrow> u32 \<Rightarrow> 'w private_oracle \<Rightarrow>
     fr list list \<times> 'w private_oracle" where
  "finish_protocol_call C empty_witness target selector start end_counter self =
     (let returns_hash = compute_var_args_hash C [];
          call = (case private_call_default empty_witness of PrivateCall d nested \<Rightarrow>
            PrivateCall (d\<lparr>call_contract_address := target,
              call_call_context := \<lparr>cc_msg_sender = po_contract_address self, cc_contract_address = target,
                cc_function_selector = function_selector_to_field selector, cc_is_static_call = False\<rparr>,
              call_start_side_effect_counter := start, call_end_side_effect_counter := end_counter,
              call_min_revertible_side_effect_counter := start\<rparr>) nested)
      in ([[fr_from_u64 (ucast end_counter), returns_hash]],
          self\<lparr>po_side_effect_counter := max (po_side_effect_counter self) end_counter,
            po_execution_cache := (case po_execution_cache self returns_hash of
               None \<Rightarrow> (po_execution_cache self)(returns_hash \<mapsto> []) | Some _ \<Rightarrow> po_execution_cache self),
            po_nested_results := po_nested_results self @ [call]\<rparr>))"

definition handle_nested_publish_class ::
    "crypto \<Rightarrow> 'w \<Rightarrow> aztec_address \<Rightarrow> function_selector \<Rightarrow> fr list \<Rightarrow> u32 \<Rightarrow>
     ('w private_oracle, fr list list) op" where
  "handle_nested_publish_class C empty_witness target selector encoded_args counter self =
     (if length encoded_args < 3 then (Inl (InvalidData ''nested publish args too short''), self)
      else
        let artifact_hash = encoded_args ! 0;
            private_functions_root = encoded_args ! 1;
            class_id = compute_contract_class_id C artifact_hash private_functions_root (encoded_args ! 2);
            bytecode_fields = (case find (\<lambda>c. cap_contract_address c = contract_class_registry \<and>
                cap_storage_slot c = contract_class_registry_bytecode_capsule_slot) (po_capsules self) of
              Some c \<Rightarrow> cap_data c | None \<Rightarrow> []);
            emitted_fields = [contract_class_published_magic_value, class_id, 1, artifact_hash,
              private_functions_root] @ bytecode_fields;
            class_log_counter = saturating_add_u32 counter 1;
            end_counter = saturating_add_u32 class_log_counter 1;
            self1 = push_nullifier class_id 0 counter target self;
            self2 = self1\<lparr>po_contract_class_logs := po_contract_class_logs self1 @
              [\<lparr>cccl_log = \<lparr>ccl_contract_address = target, ccl_fields = emitted_fields,
                 ccl_emitted_length = of_nat (length emitted_fields)\<rparr>, cccl_counter = class_log_counter\<rparr>]\<rparr>
        in (case finish_protocol_call C empty_witness target selector counter end_counter self2 of
              (result, self3) \<Rightarrow> (Inr result, self3)))"

definition decode_point :: "fr list \<Rightarrow> nat \<Rightarrow> point" where
  "decode_point encoded_args i =
     \<lparr>point_x = encoded_args ! i, point_y = encoded_args ! (i + 1),
      point_is_infinite = (encoded_args ! (i + 2) \<noteq> 0)\<rparr>"

definition handle_nested_publish_instance ::
    "crypto \<Rightarrow> curve \<Rightarrow> 'w \<Rightarrow> aztec_address \<Rightarrow> function_selector \<Rightarrow> fr list \<Rightarrow> u32 \<Rightarrow>
     ('w private_oracle, fr list list) op" where
  "handle_nested_publish_instance C V empty_witness target selector encoded_args counter self =
     (if length encoded_args < 16
      then (Inl (InvalidData ''nested publish_for_public_execution args too short''), self)
      else
        let salt = encoded_args ! 0;
            class_id = encoded_args ! 1;
            initialization_hash = encoded_args ! 2;
            public_keys = \<lparr>master_nullifier_public_key = decode_point encoded_args 3,
              master_incoming_viewing_public_key = decode_point encoded_args 6,
              master_outgoing_viewing_public_key = decode_point encoded_args 9,
              master_tagging_public_key = decode_point encoded_args 12\<rparr>;
            universal_deploy = (encoded_args ! 15 \<noteq> 0);
            origin = (case po_sender_for_tags self of Some a \<Rightarrow> a | None \<Rightarrow> po_contract_address self);
            deployer = (if universal_deploy then aztec_address_zero else origin)
        in case compute_contract_address_from_instance C V
             \<lparr>in_version = 1, in_salt = salt, in_deployer = deployer, in_current_contract_class_id = class_id,
              in_original_contract_class_id = class_id, in_initialization_hash = initialization_hash,
              in_public_keys = public_keys\<rparr> of
             Inl e \<Rightarrow> (Inl e, self)
           | Inr instance_address \<Rightarrow>
               let emitted = [contract_instance_published_magic_value, address_field instance_address, 1, salt,
                     class_id, initialization_hash] @
                   concat (map (\<lambda>p. [point_x p, point_y p])
                     [master_nullifier_public_key public_keys, master_incoming_viewing_public_key public_keys,
                      master_outgoing_viewing_public_key public_keys, master_tagging_public_key public_keys]) @
                   [address_field deployer, 0];
                   log_counter = saturating_add_u32 counter 1;
                   end_counter = saturating_add_u32 log_counter 1;
                   self1 = push_nullifier (address_field instance_address) 0 counter target self;
                   self2 = self1\<lparr>po_private_logs := po_private_logs self1 @
                     [\<lparr>pld_fields = emitted, pld_emitted_length = 15, pld_note_hash_counter = 0,
                       pld_counter = log_counter, pld_contract_address = target\<rparr>]\<rparr>
               in (case finish_protocol_call C empty_witness target selector counter end_counter self2 of
                     (result, self3) \<Rightarrow> (Inr result, self3)))"

definition publish_class_signature :: string where
  "publish_class_signature = ''publish(Field,Field,Field)''"

definition publish_instance_signature :: string where
  "publish_instance_signature =
     ''publish_for_public_execution(Field,(Field),Field,(((Field,Field,bool)),((Field,Field,bool)),'' @
     ''((Field,Field,bool)),((Field,Field,bool))),bool)''"

text \<open>\<open>None\<close>: not a call of a protocol contract.\<close>

definition try_handle_protocol_nested_private_call ::
    "crypto \<Rightarrow> curve \<Rightarrow> 'w \<Rightarrow> aztec_address \<Rightarrow> function_selector \<Rightarrow> fr list \<Rightarrow> u32 \<Rightarrow> bool \<Rightarrow>
     ('w private_oracle, fr list list) op option" where
  "try_handle_protocol_nested_private_call C V empty_witness target selector encoded_args counter is_static =
     (if is_static then None
      else if target = contract_class_registry \<and>
        selector = function_selector_from_signature C publish_class_signature
      then Some (handle_nested_publish_class C empty_witness target selector encoded_args counter)
      else if target = contract_instance_registry \<and>
        selector = function_selector_from_signature C publish_instance_signature
      then Some (handle_nested_publish_instance C V empty_witness target selector encoded_args counter)
      else None)"

subsection \<open>Nested calls\<close>

definition nested_witness ::
    "'w private_oracle \<Rightarrow> aztec_address \<Rightarrow> fr \<Rightarrow> bool \<Rightarrow> u32 \<Rightarrow> nat \<Rightarrow> fr list \<Rightarrow> fr list" where
  "nested_witness self target selector_field is_static counter context_size cached_args =
     (let call_context = [address_field (po_contract_address self), address_field target, selector_field,
            fr_from_bool is_static];
          context_inputs =
            (if po_context_witness_prefix self \<noteq> [] \<and>
                length (po_context_witness_prefix self) + 4 \<le> context_size
             then resize context_size 0
               (call_context @ po_context_witness_prefix self @ [fr_from_u64 (ucast counter)])
             else if context_size \<ge> 4
             then call_context @ replicate (context_size - 4) 0
             else replicate context_size 0)
      in context_inputs @ cached_args)"

text \<open>The oracle of the callee: a new one that inherits the caller's notes, hashes and nullifiers.\<close>

definition nested_oracle :: "'w private_oracle \<Rightarrow> aztec_address \<Rightarrow> u32 \<Rightarrow> bool \<Rightarrow> 'w private_oracle" where
  "nested_oracle self target counter is_static =
     (oracle_new (po_block_header self) target (po_protocol_nullifier self) (po_sender_for_tags self)
        (po_scopes self) is_static)
     \<lparr>po_execution_cache := po_execution_cache self, po_auth_witnesses := po_auth_witnesses self,
      po_side_effect_counter := counter,
      po_min_revertible_side_effect_counter := po_min_revertible_side_effect_counter self,
      po_in_revertible_phase := po_in_revertible_phase self,
      po_context_witness_prefix := po_context_witness_prefix self, po_capsules := po_capsules self,
      po_new_notes := po_new_notes self, po_note_hashes := po_note_hashes self,
      po_nullifiers := po_nullifiers self,
      po_note_hash_nullifier_counter_map := po_note_hash_nullifier_counter_map self,
      po_consumed_db_nullifiers := po_consumed_db_nullifiers self, po_draws := po_draws self\<rparr>"

text \<open>The entries of the callee's counter map whose key the caller did not have.\<close>

definition new_map_entries :: "counter_map \<Rightarrow> counter_map \<Rightarrow> counter_map" where
  "new_map_entries inherited m = filter (\<lambda>(k, _). k \<notin> fst ` set inherited) m"

definition nested_call_result ::
    "'fe witness_map private_oracle \<Rightarrow> 'fe witness_map private_oracle \<Rightarrow> 'fe acvm_execution_output \<Rightarrow>
     aztec_address \<Rightarrow> fr \<Rightarrow> bool \<Rightarrow> fr list \<Rightarrow> private_log_data list \<Rightarrow>
     'fe witness_map private_call_execution_result" where
  "nested_call_result self nested output target selector_field is_static inputs circuit_logs =
     PrivateCall
       \<lparr>call_acir = out_acir_bytecode output, call_vk = out_verification_key output,
        call_partial_witness = out_witness output, call_contract_address = target,
        call_call_context = \<lparr>cc_msg_sender = po_contract_address self, cc_contract_address = target,
          cc_function_selector = selector_field, cc_is_static_call = is_static\<rparr>,
        call_return_values = (if out_first_acir_call_return_values output \<noteq> []
          then out_first_acir_call_return_values output else out_return_values output),
        call_public_inputs_fields = inputs,
        call_new_notes = drop (length (po_new_notes self)) (po_new_notes nested),
        call_note_hash_nullifier_counter_map =
          new_map_entries (po_note_hash_nullifier_counter_map self) (po_note_hash_nullifier_counter_map nested),
        call_offchain_effects = po_offchain_effects nested, call_pre_tags = [],
        call_contract_class_logs = po_contract_class_logs nested,
        call_note_hashes = drop (length (po_note_hashes self)) (po_note_hashes nested),
        call_nullifiers = drop (length (po_nullifiers self)) (po_nullifiers nested),
        call_note_hash_read_requests = po_note_hash_read_requests nested,
        call_nullifier_read_requests = po_nullifier_read_requests nested,
        call_private_logs = merge_nested_private_logs (po_private_logs nested) circuit_logs,
        call_public_call_requests = po_public_call_requests nested,
        call_public_teardown_call_request = po_public_teardown_call_request nested,
        call_start_side_effect_counter = fr_to_u32 (inputs ! 41),
        call_end_side_effect_counter = fr_to_u32 (inputs ! 42),
        call_min_revertible_side_effect_counter = po_min_revertible_side_effect_counter nested\<rparr>
       (po_nested_results nested)"

text \<open>What the caller takes over from the callee.\<close>

definition merge_nested ::
    "'w private_oracle \<Rightarrow> 'w private_oracle \<Rightarrow> scoped_note_hash list \<Rightarrow> private_log_data list \<Rightarrow> u32 \<Rightarrow>
     'w private_oracle" where
  "merge_nested self nested circuit_note_hashes circuit_logs end_counter =
     (let new_note_hashes = drop (length (po_note_hashes self)) (po_note_hashes nested)
      in self
        \<lparr>po_execution_cache := po_execution_cache nested ++ po_execution_cache self,
         po_note_hashes := po_note_hashes self @
           (if new_note_hashes = [] then circuit_note_hashes else new_note_hashes),
         po_nullifiers := po_nullifiers self @ drop (length (po_nullifiers self)) (po_nullifiers nested),
         po_private_logs := po_private_logs self @
           merge_nested_private_logs (po_private_logs nested) circuit_logs,
         po_contract_class_logs := po_contract_class_logs self @ po_contract_class_logs nested,
         po_new_notes := po_new_notes self @ drop (length (po_new_notes self)) (po_new_notes nested),
         po_note_hash_read_requests := po_note_hash_read_requests self @ po_note_hash_read_requests nested,
         po_nullifier_read_requests := po_nullifier_read_requests self @ po_nullifier_read_requests nested,
         po_public_call_requests := po_public_call_requests self @ po_public_call_requests nested,
         po_public_function_calldata := po_public_function_calldata self @ po_public_function_calldata nested,
         po_offchain_effects := po_offchain_effects self @ po_offchain_effects nested,
         po_note_hash_nullifier_counter_map :=
           fold (\<lambda>(k, v) m. AList.update k v m)
             (new_map_entries (po_note_hash_nullifier_counter_map self) (po_note_hash_nullifier_counter_map nested))
             (po_note_hash_nullifier_counter_map self),
         po_public_teardown_call_request :=
           (case po_public_teardown_call_request nested of
              Some r \<Rightarrow> Some r | None \<Rightarrow> po_public_teardown_call_request self),
         po_consumed_db_nullifiers := po_consumed_db_nullifiers self \<union> po_consumed_db_nullifiers nested,
         po_side_effect_counter := end_counter, po_draws := po_draws nested\<rparr>)"

text \<open>
  After the callee has run: read its public inputs from the witness, make its return values available,
  record the call and merge.
\<close>

definition finish_nested_call ::
    "('m, 'c, 'u, 'fe) acvm \<Rightarrow> crypto \<Rightarrow> 'fe witness_map private_oracle \<Rightarrow> 'fe witness_map private_oracle \<Rightarrow>
     'fe acvm_execution_output \<Rightarrow> aztec_address \<Rightarrow> fr \<Rightarrow> bool \<Rightarrow> nat \<Rightarrow>
     fr list list \<times> 'fe witness_map private_oracle" where
  "finish_nested_call X C self nested output target selector_field is_static pcpi_start =
     (let witness = (\<lambda>i. map_option (fe_to_fr X) (out_witness output i));
          inputs = extract_public_inputs_fields witness pcpi_start;
          end_counter = fr_to_u32 (inputs ! 42);
          returns_hash = (case witness (of_nat (pcpi_start + 5)) of
            Some f \<Rightarrow> f | None \<Rightarrow> compute_var_args_hash C (out_return_values output));
          self1 = (case po_execution_cache self returns_hash of
            Some _ \<Rightarrow> self
          | None \<Rightarrow> self\<lparr>po_execution_cache := (po_execution_cache self)(returns_hash \<mapsto>
              (case po_execution_cache nested returns_hash of
                 Some cached \<Rightarrow> cached | None \<Rightarrow> out_return_values output))\<rparr>)
      in case extract_side_effects_from_witness witness pcpi_start target of
           (circuit_note_hashes, _, circuit_logs) \<Rightarrow>
             let call = nested_call_result self nested output target selector_field is_static inputs circuit_logs;
                 self2 = self1\<lparr>po_nested_results := po_nested_results self1 @ [call]\<rparr>
             in ([[fr_from_u64 (ucast end_counter), returns_hash]],
                 merge_nested self2 nested circuit_note_hashes circuit_logs end_counter))"

type_synonym ('s, 'fe) oracle_state = "'s \<times> 'fe witness_map private_oracle"

type_synonym ('s, 'fe) executor =
  "contract_artifact \<Rightarrow> string \<Rightarrow> fr list \<Rightarrow> (('s, 'fe) oracle_state, 'fe acvm_execution_output) run"

definition on_store :: "('s, 'a) op \<Rightarrow> ('s \<times> 'o, 'a) op" where
  "on_store m = (\<lambda>(s, self). case m s of (r, s') \<Rightarrow> (r, (s', self)))"

definition on_oracle :: "('o, 'a) op \<Rightarrow> ('s \<times> 'o, 'a) op" where
  "on_oracle m = (\<lambda>(s, self). case m self of (r, self') \<Rightarrow> (r, (s, self')))"

text \<open>What the callee is: its artifact, the function and the checks before it runs.\<close>

definition find_callee ::
    "('s, 'v) oracle_env \<Rightarrow> aztec_address \<Rightarrow> function_selector \<Rightarrow> bool \<Rightarrow>
     ('s, contract_artifact \<times> string) op" where
  "find_callee env target selector is_static =
     seq (get_instance (oe_contract_store env) target) (\<lambda>found.
     seq (lift_result (ok_or (InvalidData ''nested call: contract not found'') found)) (\<lambda>inst.
     seq (get_artifact (oe_contract_store env) (in_current_contract_class_id (iwa_inner inst))) (\<lambda>found.
     seq (lift_result (ok_or (InvalidData ''nested call: artifact not found for contract'') found)) (\<lambda>artifact.
     seq (lift_result (ok_or (InvalidData ''nested call: function with selector not found'')
            (find_function_by_selector artifact selector))) (\<lambda>f.
       if fa_is_static f \<and> \<not> is_static then fail (InvalidData ''can only be called statically'')
       else ret (artifact, fa_name f))))))"

definition call_private_function ::
    "('m, 'c, 'u, 'fe) acvm \<Rightarrow> ('s, 'v) oracle_env \<Rightarrow> ('s, 'fe) executor \<Rightarrow> fr list list \<Rightarrow>
     (('s, 'fe) oracle_state, fr list list) run" where
  "call_private_function X env exec args = (\<lambda>(s, self).
     case bind_result (arg_required ''missing target address'' args 0) (\<lambda>target.
          bind_result (arg_required ''missing function selector'' args 1) (\<lambda>selector_field.
          bind_result (arg_required ''missing args hash'' args 2) (\<lambda>args_hash.
            Inr (AztecAddress target, selector_field, args_hash)))) of
       Inl e \<Rightarrow> Some (Inl e, (s, self))
     | Inr (target, selector_field, args_hash) \<Rightarrow>
         let counter = (case arg args 3 of Some f \<Rightarrow> fr_to_u32 f | None \<Rightarrow> po_side_effect_counter self);
             is_static = (case arg args 4 of Some f \<Rightarrow> f \<noteq> 0 | None \<Rightarrow> False);
             selector = function_selector_from_field selector_field;
             cached_args = unwrap_or [] (po_execution_cache self args_hash)
         in case try_handle_protocol_nested_private_call (oe_crypto env) (oe_curve env) Map.empty target
                   selector cached_args counter is_static of
              Some handler \<Rightarrow> Some (on_oracle handler (s, self))
            | None \<Rightarrow>
                (case find_callee env target selector is_static s of
                   (Inl e, s1) \<Rightarrow> Some (Inl e, (s1, self))
                 | (Inr (artifact, function_name), s1) \<Rightarrow>
                     let size = private_context_inputs_size artifact function_name in
                     (case exec artifact function_name
                             (nested_witness self target selector_field is_static counter size cached_args)
                             (s1, nested_oracle self target counter is_static) of
                        None \<Rightarrow> None
                      | Some (Inl e, (s2, _)) \<Rightarrow> Some (Inl e, (s2, self))
                      | Some (Inr output, (s2, nested)) \<Rightarrow>
                          (case finish_nested_call X (oe_crypto env) self nested output target selector_field
                                  is_static (size + length cached_args) of
                             (result, self') \<Rightarrow> Some (Inr result, (s2, self'))))))"

subsection \<open>Dispatch\<close>

text \<open>How a handler sees the state: it reads the oracle and works on the store, it changes the oracle
  only, or its answer is fixed.\<close>

definition reads :: "('o \<Rightarrow> ('s, 'a) op) \<Rightarrow> ('s \<times> 'o, 'a) run" where
  "reads f = (\<lambda>(s, self). Some (on_store (f self) (s, self)))"

definition changes :: "('o, 'a) op \<Rightarrow> ('s \<times> 'o, 'a) run" where
  "changes m st = Some (on_oracle m st)"

definition computes :: "('o \<Rightarrow> 'a result) \<Rightarrow> ('s \<times> 'o, 'a) run" where
  "computes f = (\<lambda>(s, self). Some (f self, (s, self)))"

definition draw_random :: "(nat \<Rightarrow> fr) \<Rightarrow> ('w private_oracle, fr list list) op" where
  "draw_random supply self = (Inr [[supply (po_draws self)]], self\<lparr>po_draws := Suc (po_draws self)\<rparr>)"

definition emit_offchain_effect :: "fr list list \<Rightarrow> ('w private_oracle, fr list list) op" where
  "emit_offchain_effect args =
     update_oracle (\<lambda>self. self\<lparr>po_offchain_effects := po_offchain_effects self @ [get_arg args 0]\<rparr>)"

text \<open>The arms of the match, with the names each one answers to.\<close>

definition foreign_calls ::
    "('m, 'c, 'u, 'fe) acvm \<Rightarrow> ('s, 'v) oracle_env \<Rightarrow> ('s, 'fe) executor \<Rightarrow>
     (string list \<times> (fr list list \<Rightarrow> (('s, 'fe) oracle_state, fr list list) run)) list" where
  "foreign_calls X env exec =
     (let C = oe_crypto env in
     [([''getSecretKey'', ''getKeyValidationRequest''], \<lambda>args. reads (\<lambda>self. oracle_get_secret_key env self args)),
      ([''getPublicKeysAndPartialAddress'', ''tryGetPublicKeysAndPartialAddress''],
        \<lambda>args. reads (\<lambda>_. get_public_keys_and_partial_address env args)),
      ([''getNotes''], \<lambda>args. reads (\<lambda>self. oracle_get_notes env self args)),
      ([''checkNoteHashExists''], \<lambda>args. reads (\<lambda>self. check_note_hash_exists env self args)),
      ([''notifyCreatedNote'', ''emitNote''], \<lambda>args. changes (notify_created_note args)),
      ([''notifyNullifiedNote''], \<lambda>args. changes (notify_nullified_note C args)),
      ([''notifyCreatedNullifier'', ''emitNullifier''], \<lambda>args. changes (notify_created_nullifier args)),
      ([''isNullifierPending''], \<lambda>args. changes (is_nullifier_pending args)),
      ([''getPublicStorageAt'', ''storageRead''], \<lambda>args. computes (\<lambda>_. get_public_storage_at env args)),
      ([''getContractInstance''], \<lambda>args. reads (\<lambda>_. get_contract_instance env args)),
      ([''getCapsule'', ''loadCapsule''], \<lambda>args. reads (\<lambda>_. get_capsule env args)),
      ([''storeCapsule'', ''getBlockHeader'', ''assertCompatibleOracleVersion'', ''log'', ''getUtilityContext'',
        ''fetchTaggedLogs'', ''bulkRetrieveLogs'', ''validateAndStoreEnqueuedNotesAndEvents''],
        \<lambda>args. computes (\<lambda>_. Inr [])),
      ([''emitPrivateLog'', ''emitEncryptedLog''], \<lambda>args. changes (emit_private_log args)),
      ([''notifyCreatedContractClassLog''], \<lambda>args. changes (emit_contract_class_log args)),
      ([''storeInExecutionCache''], \<lambda>args. changes (store_in_execution_cache args)),
      ([''loadFromExecutionCache''], \<lambda>args. changes (load_from_execution_cache args)),
      ([''getAuthWitness''], \<lambda>args. changes (get_auth_witness args)),
      ([''notifyEnqueuedPublicFunctionCall'', ''enqueuePublicFunctionCall''],
        \<lambda>args. changes (enqueue_public_function_call C args False)),
      ([''notifySetPublicTeardownFunctionCall''], \<lambda>args. changes (enqueue_public_function_call C args True)),
      ([''notifySetMinRevertibleSideEffectCounter''], \<lambda>args. changes (set_min_revertible args)),
      ([''isSideEffectCounterRevertible''], \<lambda>args. changes (is_counter_revertible args)),
      ([''getSenderForTags''], \<lambda>args. changes get_sender_for_tags),
      ([''setSenderForTags''], \<lambda>args. changes (set_sender_for_tags args)),
      ([''getNextAppTagAsSender''], \<lambda>args. reads (\<lambda>self. get_next_app_tag_as_sender env self args)),
      ([''getRandomField''], \<lambda>args. changes (draw_random (oe_random env))),
      ([''aes128Decrypt''], \<lambda>args. computes (\<lambda>_. Inl (InvalidData ''aes128Decrypt not implemented''))),
      ([''getSharedSecret''], \<lambda>args. computes (\<lambda>_. Inl (InvalidData ''getSharedSecret not implemented''))),
      ([''emitOffchainEffect''], \<lambda>args. changes (emit_offchain_effect args)),
      ([''getNoteHashMembershipWitness''], \<lambda>args. computes (\<lambda>_. get_note_hash_membership_witness env args)),
      ([''getNullifierMembershipWitness''], \<lambda>args. computes (\<lambda>_. get_nullifier_membership_witness env args)),
      ([''getPublicDataWitness''], \<lambda>args. computes (\<lambda>_. get_public_data_witness env args)),
      ([''getBlockHashMembershipWitness''], \<lambda>args. computes (\<lambda>_. get_block_hash_membership_witness env args)),
      ([''getL1ToL2MembershipWitness'', ''utilityGetL1ToL2MembershipWitness''],
        \<lambda>args. computes (\<lambda>self. get_l1_to_l2_membership_witness env self args)),
      ([''callPrivateFunction''], \<lambda>args. call_private_function X env exec args),
      ([''checkNullifierExists''], \<lambda>args. reads (\<lambda>self. check_nullifier_exists env self args))])"

definition lower_char :: "char \<Rightarrow> char" where
  "lower_char c = (let n = of_char c :: nat in if 65 \<le> n \<and> n \<le> 90 then char_of (n + 32) else c)"

definition handler_name :: "string \<Rightarrow> string" where
  "handler_name name =
     (let stripped = unwrap_or name (or_else_opt (strip_prefix ''private'' name) (strip_prefix ''utility'' name))
      in case stripped of [] \<Rightarrow> name | c # cs \<Rightarrow> lower_char c # cs)"

definition handle_foreign_call ::
    "('m, 'c, 'u, 'fe) acvm \<Rightarrow> ('s, 'v) oracle_env \<Rightarrow> ('s, 'fe) executor \<Rightarrow> ('s, 'fe) oracle_state callback" where
  "handle_foreign_call X env exec name args =
     (case find (\<lambda>(names, _). handler_name name \<in> set names) (foreign_calls X env exec) of
        Some (_, handler) \<Rightarrow> handler args
      | None \<Rightarrow> computes (\<lambda>_. Inl (InvalidData ''unsupported oracle call'')))"

text \<open>The oracle as the executor sees it, with nested calls up to a depth of \<open>n\<close>.\<close>

primrec private_callback ::
    "('m, 'c, 'u, 'fe) acvm \<Rightarrow> ('s, 'v) oracle_env \<Rightarrow> nat \<Rightarrow> ('s, 'fe) oracle_state callback" where
  "private_callback X env 0 = (\<lambda>name args st. None)"
| "private_callback X env (Suc n) =
     handle_foreign_call X env
       (\<lambda>artifact function_name witness. execute_private X n artifact function_name witness (private_callback X env n))"

definition build_execution_result ::
    "'fe witness_map private_oracle \<Rightarrow> 'fe acvm_execution_output \<Rightarrow> aztec_address \<Rightarrow> u64 \<Rightarrow>
     'fe witness_map private_execution_result" where
  "build_execution_result self output contract_address expiration_timestamp =
     \<lparr>er_entrypoint = PrivateCall
        \<lparr>call_acir = out_acir_bytecode output, call_vk = out_verification_key output,
         call_partial_witness = out_witness output, call_contract_address = contract_address,
         call_call_context = \<lparr>cc_msg_sender = aztec_address_zero, cc_contract_address = contract_address,
           cc_function_selector = 0, cc_is_static_call = po_call_is_static self\<rparr>,
         call_return_values = out_return_values output, call_public_inputs_fields = [],
         call_new_notes = po_new_notes self,
         call_note_hash_nullifier_counter_map = po_note_hash_nullifier_counter_map self,
         call_offchain_effects = po_offchain_effects self, call_pre_tags = [],
         call_contract_class_logs = po_contract_class_logs self, call_note_hashes = po_note_hashes self,
         call_nullifiers = po_nullifiers self,
         call_note_hash_read_requests = po_note_hash_read_requests self,
         call_nullifier_read_requests = po_nullifier_read_requests self,
         call_private_logs = po_private_logs self,
         call_public_call_requests = po_public_call_requests self,
         call_public_teardown_call_request = po_public_teardown_call_request self,
         call_start_side_effect_counter = 0, call_end_side_effect_counter = po_side_effect_counter self,
         call_min_revertible_side_effect_counter = po_min_revertible_side_effect_counter self\<rparr>
        (po_nested_results self),
      er_first_nullifier = po_protocol_nullifier self, er_expiration_timestamp = expiration_timestamp,
      er_public_function_calldata = po_public_function_calldata self\<rparr>"

subsection \<open>The oracle only grows\<close>

text \<open>\<open>later\<close> continues \<open>self\<close>: nothing recorded is lost or reordered, and what identifies the call is fixed.\<close>

definition oracle_le :: "'w private_oracle \<Rightarrow> 'w private_oracle \<Rightarrow> bool" where
  "oracle_le self later \<longleftrightarrow>
     prefix (po_new_notes self) (po_new_notes later) \<and> prefix (po_note_hashes self) (po_note_hashes later) \<and>
     prefix (po_nullifiers self) (po_nullifiers later) \<and> prefix (po_private_logs self) (po_private_logs later) \<and>
     prefix (po_contract_class_logs self) (po_contract_class_logs later) \<and>
     prefix (po_public_call_requests self) (po_public_call_requests later) \<and>
     prefix (po_public_function_calldata self) (po_public_function_calldata later) \<and>
     prefix (po_nested_results self) (po_nested_results later) \<and>
     fst ` set (po_note_hash_nullifier_counter_map self) \<subseteq> fst ` set (po_note_hash_nullifier_counter_map later) \<and>
     po_consumed_db_nullifiers self \<subseteq> po_consumed_db_nullifiers later \<and>
     dom (po_execution_cache self) \<subseteq> dom (po_execution_cache later) \<and>
     po_contract_address later = po_contract_address self \<and> po_call_is_static later = po_call_is_static self \<and>
     po_scopes later = po_scopes self \<and> po_protocol_nullifier later = po_protocol_nullifier self \<and>
     po_auth_witnesses later = po_auth_witnesses self \<and> po_capsules later = po_capsules self"

lemma oracle_le_refl [simp]: "oracle_le self self"
  by (simp add: oracle_le_def)

lemma oracle_le_trans: "oracle_le a b \<Longrightarrow> oracle_le b c \<Longrightarrow> oracle_le a c"
  unfolding oracle_le_def
  by (elim conjE, intro conjI) (erule (1) prefix_order.trans | erule (1) subset_trans | simp)+

definition grows :: "('w private_oracle, 'a) op \<Rightarrow> bool" where
  "grows m \<longleftrightarrow> (\<forall>self. oracle_le self (snd (m self)))"

named_theorems grows_intros

lemma grows_seq [grows_intros]: "grows m \<Longrightarrow> (\<And>x. grows (f x)) \<Longrightarrow> grows (seq m f)"
  unfolding grows_def seq_def
  by (auto split: prod.splits sum.splits) (metis oracle_le_trans snd_conv)+

lemma grows_read [grows_intros]: "(\<And>self. snd (m self) = self) \<Longrightarrow> grows m"
  by (simp add: grows_def)

lemma grows_lift [grows_intros]: "grows (lift_result r)" "grows (ret x)"
  by (simp_all add: grows_def lift_result_def ret_def)

lemma grows_mutable [grows_intros]: "grows ensure_mutable_context"
  by (simp add: grows_def ensure_mutable_context_def fail_def ret_def)

lemma grows_counter [grows_intros]: "grows next_counter"
  by (auto simp: grows_def next_counter_def oracle_le_def split: sum.split)

lemma grows_counter_arg [grows_intros]: "grows (counter_arg args i)"
  by (auto simp: counter_arg_def intro: grows_intros split: option.split)

lemma grows_update [grows_intros]: "(\<And>self. oracle_le self (f self)) \<Longrightarrow> grows (update_oracle f)"
  by (simp add: grows_def update_oracle_def)

lemma le_push_note [grows_intros]: "oracle_le self (push_note n self)"
  by (simp add: oracle_le_def push_note_def)

lemma le_push_nullifier: "oracle_le self (push_nullifier v h c a self)"
  by (simp add: oracle_le_def push_nullifier_def)

lemma le_record_nullified: "oracle_le self (record_nullified h c self)"
  by (auto simp: oracle_le_def record_nullified_def dom_update split: option.split)

lemma grows_nullified [grows_intros]: "grows (notify_nullified_note C args)"
proof -
  have "oracle_le self (record_nullified h c (push_nullifier v h c a
      (self\<lparr>po_consumed_db_nullifiers := insert x (po_consumed_db_nullifiers self)\<rparr>)))" for self h c v a x
    by (rule oracle_le_trans[OF oracle_le_trans[OF _ le_push_nullifier] le_record_nullified])
      (auto simp: oracle_le_def)
  then show ?thesis unfolding notify_nullified_note_def Let_def by (intro grows_intros) simp_all
qed

lemma oracle_handlers_grow [grows_intros]:
  "grows (notify_created_note args)" "grows (notify_created_nullifier args)"
  "grows (emit_private_log args)" "grows (emit_contract_class_log args)"
  "grows (store_in_execution_cache args)" "grows (enqueue_public_function_call C args b)"
  "grows (set_sender_for_tags args)" "grows (emit_offchain_effect args)"
  unfolding notify_created_note_def notify_created_nullifier_def emit_private_log_def
    emit_contract_class_log_def store_in_execution_cache_def enqueue_public_function_call_def
    set_sender_for_tags_def emit_offchain_effect_def Let_def
  by (intro grows_intros; auto simp: oracle_le_def push_nullifier_def split: option.split)+

lemma oracle_readers_grow [grows_intros]:
  "grows (is_nullifier_pending args)" "grows (load_from_execution_cache args)" "grows (get_auth_witness args)"
  "grows (is_counter_revertible args)" "grows get_sender_for_tags"
  by (intro grows_read; simp add: is_nullifier_pending_def load_from_execution_cache_def
      get_auth_witness_def is_counter_revertible_def get_sender_for_tags_def Let_def)+

lemma set_min_revertible_grows [grows_intros]: "grows (set_min_revertible args)" "grows (draw_random supply)"
  by (auto simp: grows_def set_min_revertible_def draw_random_def oracle_le_def split: option.split)

lemma le_merge_nested: "oracle_le self (merge_nested self nested hashes logs c)"
proof -
  have "fst ` set m \<subseteq> fst ` set (fold (\<lambda>(k, v) m. AList.update k v m) es m)" for es m :: counter_map
  proof (induction es arbitrary: m)
    case (Cons e es)
    have "fst ` set m \<subseteq> fst ` set (AList.update (fst e) (snd e) m)" by (auto simp: dom_update)
    also have "\<dots> \<subseteq> fst ` set (fold (\<lambda>(k, v) m. AList.update k v m) es (AList.update (fst e) (snd e) m))"
      by (rule Cons.IH)
    finally show ?case by (simp add: case_prod_unfold)
  qed simp
  then show ?thesis by (auto simp: oracle_le_def merge_nested_def Let_def)
qed

lemma le_finish_protocol_call: "oracle_le self (snd (finish_protocol_call C w t sel a b self))"
  by (auto simp: finish_protocol_call_def Let_def oracle_le_def split: option.splits)

lemma le_protocol_effects:
  "oracle_le self (snd (finish_protocol_call C w t sel a b
     ((push_nullifier v h c t self)\<lparr>po_contract_class_logs := po_contract_class_logs (push_nullifier v h c t self) @ ls\<rparr>)))"
  "oracle_le self (snd (finish_protocol_call C w t sel a b
     ((push_nullifier v h c t self)\<lparr>po_private_logs := po_private_logs (push_nullifier v h c t self) @ ls'\<rparr>)))"
  by (rule oracle_le_trans[OF _ le_finish_protocol_call], simp add: oracle_le_def push_nullifier_def)+

lemma grows_protocol [grows_intros]:
  "grows (handle_nested_publish_class C w t sel args c)" "grows (handle_nested_publish_instance C V w t sel args c)"
proof -
  show "grows (handle_nested_publish_class C w t sel args c)"
    by (simp add: grows_def handle_nested_publish_class_def Let_def case_prod_unfold le_protocol_effects)
  show "grows (handle_nested_publish_instance C V w t sel args c)"
    by (simp add: grows_def handle_nested_publish_instance_def Let_def case_prod_unfold le_protocol_effects
        split: sum.split)
qed

definition run_grows :: "(('s, 'fe) oracle_state, 'a) run \<Rightarrow> bool" where
  "run_grows m \<longleftrightarrow> (\<forall>s self r s' self'. m (s, self) = Some (r, (s', self')) \<longrightarrow> oracle_le self self')"

lemma run_grows_lifts:
  "run_grows (reads f)" "run_grows (computes g)" "grows m \<Longrightarrow> run_grows (changes m)"
  by (auto simp: run_grows_def reads_def computes_def changes_def on_store_def on_oracle_def grows_def
      split: prod.splits) (metis snd_conv)

lemma le_finish_nested_call:
  "finish_nested_call X C self nested output target sel st start = (r, self') \<Longrightarrow> oracle_le self self'"
  unfolding finish_nested_call_def Let_def
  by (auto split: prod.splits option.splits intro!: oracle_le_trans[OF _ le_merge_nested]) (auto simp: oracle_le_def)

lemma call_private_function_grows: "run_grows (call_private_function X env exec args)"
proof -
  have protocol: "oracle_le self self'"
    if "try_handle_protocol_nested_private_call C V w t sel as c b = Some h" and "h self = (r, self')"
    for C V w t sel as c b h self r self'
    using that grows_protocol unfolding try_handle_protocol_nested_private_call_def grows_def
    by (metis option.distinct(1) option.inject snd_conv)
  show ?thesis
    unfolding run_grows_def call_private_function_def Let_def
    by (auto simp: on_oracle_def split: sum.splits option.splits prod.splits
        dest: protocol le_finish_nested_call)
qed

lemma foreign_calls_grow:
  "list_all (\<lambda>(names, handler). \<forall>args. run_grows (handler args)) (foreign_calls X env exec)"
  unfolding foreign_calls_def Let_def list.pred_inject(2) prod.case
  by (intro conjI allI list.pred_inject(1) run_grows_lifts call_private_function_grows oracle_handlers_grow
      oracle_readers_grow set_min_revertible_grows grows_nullified)

text \<open>A fact about every handler holds for the dispatch, if it holds for the fixed answers.\<close>

lemma dispatch_rule:
  assumes "list_all (\<lambda>(names, handler). \<forall>args. P (handler args)) (foreign_calls X env exec)"
    and "\<And>e. P (computes (\<lambda>_. Inl e))"
  shows "P (handle_foreign_call X env exec name args)"
proof (cases "find (\<lambda>(names, _). handler_name name \<in> set names) (foreign_calls X env exec)")
  case (Some e)
  then have "e \<in> set (foreign_calls X env exec)" unfolding find_Some_iff by (metis nth_mem)
  with assms(1) Some show ?thesis by (auto simp: handle_foreign_call_def list_all_iff)
qed (simp add: handle_foreign_call_def assms(2))

lemma handle_foreign_call_grows: "run_grows (handle_foreign_call X env exec name args)"
  by (rule dispatch_rule[OF foreign_calls_grow]) (rule run_grows_lifts)

lemma private_callback_grows: "preserved_by (\<lambda>(s, self). oracle_le start self) (private_callback X env n)"
  using handle_foreign_call_grows[of X env] unfolding preserved_by_def run_grows_def
  by (cases n) (auto intro: oracle_le_trans)

subsection \<open>A consistent oracle\<close>

text \<open>
  Every note created has its hash recorded with its counter; the counter map sends counters of recorded
  note hashes to counters of recorded nullifiers; and every consumed note of the store was consumed by
  a recorded nullifier, siloed with the contract that emitted it.
\<close>

definition oracle_ok :: "crypto \<Rightarrow> 'w private_oracle \<Rightarrow> bool" where
  "oracle_ok C self \<longleftrightarrow>
     (\<forall>n \<in> set (po_new_notes self). (nas_note_hash n, nas_counter n) \<in>
        (\<lambda>h. (nh_value (snh_note_hash h), nh_counter (snh_note_hash h))) ` set (po_note_hashes self)) \<and>
     distinct (map fst (po_note_hash_nullifier_counter_map self)) \<and>
     fst ` set (po_note_hash_nullifier_counter_map self) \<subseteq>
       (\<lambda>h. nh_counter (snh_note_hash h)) ` set (po_note_hashes self) \<and>
     snd ` set (po_note_hash_nullifier_counter_map self) \<subseteq>
       (\<lambda>n. nf_counter (snf_nullifier n)) ` set (po_nullifiers self) \<and>
     po_consumed_db_nullifiers self \<subseteq>
       (\<lambda>n. silo_nullifier C (snf_contract_address n) (nf_value (snf_nullifier n))) ` set (po_nullifiers self)"

definition keeps_ok :: "crypto \<Rightarrow> ('w private_oracle, 'a) op \<Rightarrow> bool" where
  "keeps_ok C m \<longleftrightarrow> (\<forall>self. oracle_ok C self \<longrightarrow> oracle_ok C (snd (m self)))"

named_theorems ok_intros

lemma keeps_ok_seq [ok_intros]: "keeps_ok C m \<Longrightarrow> (\<And>x. keeps_ok C (f x)) \<Longrightarrow> keeps_ok C (seq m f)"
  unfolding keeps_ok_def seq_def by (auto split: prod.splits sum.splits)

lemma keeps_ok_update [ok_intros]:
  "(\<And>self. oracle_ok C self \<Longrightarrow> oracle_ok C (f self)) \<Longrightarrow> keeps_ok C (update_oracle f)"
  by (simp add: keeps_ok_def update_oracle_def)

text \<open>The invariant reads five fields, so a change of any other field keeps it.\<close>

lemma oracle_ok_cong:
  "po_new_notes self' = po_new_notes self \<Longrightarrow> po_note_hashes self' = po_note_hashes self \<Longrightarrow>
   po_nullifiers self' = po_nullifiers self \<Longrightarrow>
   po_note_hash_nullifier_counter_map self' = po_note_hash_nullifier_counter_map self \<Longrightarrow>
   po_consumed_db_nullifiers self' = po_consumed_db_nullifiers self \<Longrightarrow>
   oracle_ok C self' = oracle_ok C self"
  by (simp add: oracle_ok_def)

lemma keeps_ok_counter [ok_intros]: "keeps_ok C next_counter"
  by (auto simp: keeps_ok_def next_counter_def oracle_ok_def split: sum.split)

lemma keeps_ok_basic [ok_intros]:
  "keeps_ok C ensure_mutable_context" "keeps_ok C (counter_arg args i)" "keeps_ok C (lift_result r)"
  using keeps_ok_counter
  by (auto simp: keeps_ok_def ensure_mutable_context_def fail_def ret_def lift_result_def counter_arg_def
      split: option.split)

lemma ok_push_note: "oracle_ok C self \<Longrightarrow> oracle_ok C (push_note n self)"
  by (auto simp: oracle_ok_def push_note_def)

lemma ok_push_nullifier: "oracle_ok C self \<Longrightarrow> oracle_ok C (push_nullifier v h c a self)"
  by (auto simp: oracle_ok_def push_nullifier_def)

lemma snd_update: "snd ` set (AList.update k v m) \<subseteq> insert v (snd ` set m)"
  by (induction m) auto

lemma ok_record_nullified:
  assumes "oracle_ok C self" and c: "c \<in> (\<lambda>n. nf_counter (snf_nullifier n)) ` set (po_nullifiers self)"
  shows "oracle_ok C (record_nullified h c self)"
proof (cases "find (\<lambda>nh. nh_value (snh_note_hash nh) = h) (po_note_hashes self)")
  case (Some nh)
  let ?m = "po_note_hash_nullifier_counter_map self" and ?k = "nh_counter (snh_note_hash nh)"
  from Some have "nh \<in> set (po_note_hashes self)" unfolding find_Some_iff by (metis nth_mem)
  moreover have "snd ` set (AList.update ?k c ?m) \<subseteq> (\<lambda>n. nf_counter (snf_nullifier n)) ` set (po_nullifiers self)"
  proof -
    have "snd ` set ?m \<subseteq> (\<lambda>n. nf_counter (snf_nullifier n)) ` set (po_nullifiers self)"
      using assms(1) by (simp add: oracle_ok_def)
    with snd_update[of ?k c ?m] c show ?thesis by blast
  qed
  ultimately show ?thesis
    using assms(1) Some by (simp add: record_nullified_def oracle_ok_def dom_update distinct_update)
qed (use assms(1) in \<open>simp add: record_nullified_def\<close>)

lemma ok_nullified:
  assumes "oracle_ok C self"
  shows "oracle_ok C (record_nullified h c (push_nullifier v h c (po_contract_address self)
     (self\<lparr>po_consumed_db_nullifiers := insert (silo_nullifier C (po_contract_address self) v)
        (po_consumed_db_nullifiers self)\<rparr>)))"
  by (rule ok_record_nullified) (use assms in \<open>auto simp: oracle_ok_def push_nullifier_def\<close>)

lemma handlers_keep_ok [ok_intros]:
  "keeps_ok C (notify_created_note args)" "keeps_ok C (notify_created_nullifier args)"
  "keeps_ok C (notify_nullified_note C args)"
  unfolding notify_created_note_def notify_created_nullifier_def notify_nullified_note_def Let_def
  by (intro ok_intros ok_push_note ok_push_nullifier ok_nullified; simp add: ok_nullified)+

lemma others_keep_ok [ok_intros]:
  "keeps_ok C (emit_private_log args)" "keeps_ok C (emit_contract_class_log args)"
  "keeps_ok C (store_in_execution_cache args)" "keeps_ok C (enqueue_public_function_call C' args b)"
  "keeps_ok C (set_sender_for_tags args)" "keeps_ok C (emit_offchain_effect args)"
  unfolding emit_private_log_def emit_contract_class_log_def store_in_execution_cache_def
    enqueue_public_function_call_def set_sender_for_tags_def emit_offchain_effect_def Let_def
  by (intro ok_intros; simp add: oracle_ok_def split: option.split)+

lemma readers_keep_ok [ok_intros]:
  "keeps_ok C (is_nullifier_pending args)" "keeps_ok C (load_from_execution_cache args)"
  "keeps_ok C (get_auth_witness args)" "keeps_ok C (is_counter_revertible args)"
  "keeps_ok C get_sender_for_tags" "keeps_ok C (set_min_revertible args)" "keeps_ok C (draw_random supply)"
  by (simp_all add: keeps_ok_def is_nullifier_pending_def load_from_execution_cache_def get_auth_witness_def
      is_counter_revertible_def get_sender_for_tags_def set_min_revertible_def draw_random_def Let_def
      oracle_ok_def split: option.split)

end
