(* ===== verification/Oracle_Properties.thy ===== *)
theory Oracle_Properties
  imports Oracle_Calls
begin

text \<open>
  What the private execution oracle guarantees: its records stay consistent across every foreign call
  and nested call, a nested call is accounted for exactly once, a static call leaves no effects, keys
  are only handed out to accounts in scope, and the notes of the current execution are returned as
  often as they are unspent.
\<close>

subsection \<open>Consistency across nested calls\<close>

lemma fold_update_keys:
  "fst ` set (fold (\<lambda>(k, v) m. AList.update k v m) es m) = fst ` set es \<union> fst ` set m"
proof (induction es arbitrary: m)
  case (Cons e es)
  then show ?case by (simp add: case_prod_unfold dom_update)
qed simp

lemma fold_update_distinct:
  "distinct (map fst m) \<Longrightarrow> distinct (map fst (fold (\<lambda>(k, v) m. AList.update k v m) es m))"
  by (induction es arbitrary: m) (auto simp: distinct_update)

lemma fold_update_values:
  "snd ` set (fold (\<lambda>(k, v) m. AList.update k v m) es m) \<subseteq> snd ` set es \<union> snd ` set m"
proof (induction es arbitrary: m)
  case (Cons e es)
  have "snd ` set (fold (\<lambda>(k, v) m. AList.update k v m) es (AList.update (fst e) (snd e) m)) \<subseteq>
      snd ` set es \<union> snd ` set (AList.update (fst e) (snd e) m)" by (rule Cons.IH)
  also have "\<dots> \<subseteq> snd ` set (e # es) \<union> snd ` set m" using snd_update[of "fst e" "snd e" m] by auto
  finally show ?case by (simp add: case_prod_unfold)
qed simp

lemma image_bound: "A \<subseteq> f ` S \<Longrightarrow> B \<subseteq> f ` N \<Longrightarrow> B' \<subseteq> B \<Longrightarrow> S \<subseteq> N \<Longrightarrow> N \<subseteq> M \<Longrightarrow> B' \<union> A \<subseteq> f ` M"
  by blast

lemma prefix_append_drop: "prefix xs ys \<Longrightarrow> xs @ drop (length xs) ys = ys"
  by (auto elim: prefixE)

text \<open>What a merge leaves of the five fields of the invariant, when the callee continued the caller.\<close>

lemma merge_nested_fields:
  assumes "prefix (po_new_notes self) (po_new_notes nested)"
    and "prefix (po_note_hashes self) (po_note_hashes nested)"
    and "prefix (po_nullifiers self) (po_nullifiers nested)"
  shows "po_new_notes (merge_nested self nested hs ls c) = po_new_notes nested"
    and "set (po_note_hashes nested) \<subseteq> set (po_note_hashes (merge_nested self nested hs ls c))"
    and "po_nullifiers (merge_nested self nested hs ls c) = po_nullifiers nested"
  using assms by (auto simp: merge_nested_def Let_def prefix_append_drop elim!: prefixE)

lemma ok_merge_nested:
  assumes "oracle_ok C self" and "oracle_ok C nested"
    and pre: "prefix (po_new_notes self) (po_new_notes nested)"
      "prefix (po_note_hashes self) (po_note_hashes nested)" "prefix (po_nullifiers self) (po_nullifiers nested)"
  shows "oracle_ok C (merge_nested self nested hs ls c)" (is "oracle_ok C ?m")
proof -
  let ?new = "new_map_entries (po_note_hash_nullifier_counter_map self) (po_note_hash_nullifier_counter_map nested)"
  have map: "po_note_hash_nullifier_counter_map ?m =
      fold (\<lambda>(k, v) m. AList.update k v m) ?new (po_note_hash_nullifier_counter_map self)"
    and consumed: "po_consumed_db_nullifiers ?m = po_consumed_db_nullifiers self \<union> po_consumed_db_nullifiers nested"
    by (simp_all add: merge_nested_def Let_def)
  have new: "set ?new \<subseteq> set (po_note_hash_nullifier_counter_map nested)" by (auto simp: new_map_entries_def)
  have sub: "set (po_note_hashes self) \<subseteq> set (po_note_hashes nested)" "set (po_nullifiers self) \<subseteq> set (po_nullifiers nested)"
    using pre by (auto dest: set_mono_prefix)
  note flds = merge_nested_fields[OF pre, of hs ls c]
  let ?hc = "\<lambda>h. nh_counter (snh_note_hash h)" and ?nc = "\<lambda>n. nf_counter (snf_nullifier n)"
  have "fst ` set (po_note_hash_nullifier_counter_map ?m) \<subseteq> ?hc ` set (po_note_hashes ?m)"
  proof -
    have "fst ` set (po_note_hash_nullifier_counter_map self) \<subseteq> ?hc ` set (po_note_hashes self)"
      and "fst ` set (po_note_hash_nullifier_counter_map nested) \<subseteq> ?hc ` set (po_note_hashes nested)"
      using assms(1,2) by (simp_all add: oracle_ok_def)
    then show ?thesis unfolding map fold_update_keys
      by (rule image_bound[OF _ _ image_mono[OF new] sub(1) flds(2)])
  qed
  moreover have "snd ` set (po_note_hash_nullifier_counter_map ?m) \<subseteq> ?nc ` set (po_nullifiers ?m)"
  proof -
    have "snd ` set (po_note_hash_nullifier_counter_map self) \<subseteq> ?nc ` set (po_nullifiers self)"
      and "snd ` set (po_note_hash_nullifier_counter_map nested) \<subseteq> ?nc ` set (po_nullifiers nested)"
      using assms(1,2) by (simp_all add: oracle_ok_def)
    then show ?thesis unfolding map flds(3)
      by (rule order_trans[OF fold_update_values image_bound[OF _ _ image_mono[OF new] sub(2) order_refl]])
  qed
  moreover have "distinct (map fst (po_note_hash_nullifier_counter_map ?m))"
    using assms(1) unfolding map by (intro fold_update_distinct) (simp add: oracle_ok_def)
  moreover have "po_consumed_db_nullifiers ?m \<subseteq>
      (\<lambda>n. silo_nullifier C (snf_contract_address n) (nf_value (snf_nullifier n))) ` set (po_nullifiers ?m)"
    (is "_ \<subseteq> ?silo ` _")
  proof -
    have "po_consumed_db_nullifiers self \<subseteq> ?silo ` set (po_nullifiers self)"
      and "po_consumed_db_nullifiers nested \<subseteq> ?silo ` set (po_nullifiers nested)"
      using assms(1,2) by (simp_all add: oracle_ok_def)
    then show ?thesis unfolding consumed flds(3) Un_commute[of "po_consumed_db_nullifiers self"]
      by (rule image_bound[OF _ _ order_refl sub(2) order_refl])
  qed
  moreover have "\<forall>n \<in> set (po_new_notes ?m). (nas_note_hash n, nas_counter n) \<in>
      (\<lambda>h. (nh_value (snh_note_hash h), ?hc h)) ` set (po_note_hashes ?m)"
  proof -
    have "\<forall>n \<in> set (po_new_notes nested). (nas_note_hash n, nas_counter n) \<in>
      (\<lambda>h. (nh_value (snh_note_hash h), ?hc h)) ` set (po_note_hashes nested)"
      using assms(2) by (simp add: oracle_ok_def)
    then show ?thesis unfolding flds(1) by (meson flds(2) image_mono subsetD)
  qed
  ultimately show ?thesis unfolding oracle_ok_def by (intro conjI)
qed

lemma ok_nested_oracle: "oracle_ok C self \<Longrightarrow> oracle_ok C (nested_oracle self t c b)"
  by (simp add: oracle_ok_def nested_oracle_def oracle_new_def)

lemma ok_finish_protocol_call: "oracle_ok C self \<Longrightarrow> oracle_ok C (snd (finish_protocol_call C' w t sel a b self))"
  by (simp add: finish_protocol_call_def Let_def oracle_ok_def)

lemma protocol_keeps_ok:
  "keeps_ok C (handle_nested_publish_class C' w t sel args c)"
  "keeps_ok C (handle_nested_publish_instance C' V w t sel args c)"
proof -
  have logs: "oracle_ok C self \<Longrightarrow> oracle_ok C (snd (finish_protocol_call C' w t sel a b
      ((push_nullifier v h c' t self)\<lparr>po_contract_class_logs := ls\<rparr>)))"
    "oracle_ok C self \<Longrightarrow> oracle_ok C (snd (finish_protocol_call C' w t sel a b
      ((push_nullifier v h c' t self)\<lparr>po_private_logs := ls'\<rparr>)))" for self a b v h c' ls ls'
    by (intro ok_finish_protocol_call; drule ok_push_nullifier; simp add: oracle_ok_def)+
  show "keeps_ok C (handle_nested_publish_class C' w t sel args c)"
    by (simp add: keeps_ok_def handle_nested_publish_class_def Let_def case_prod_unfold logs)
  show "keeps_ok C (handle_nested_publish_instance C' V w t sel args c)"
    by (simp add: keeps_ok_def handle_nested_publish_instance_def Let_def case_prod_unfold logs split: sum.split)
qed

text \<open>An executor that continues the oracle it is given and keeps it consistent.\<close>

definition sound_executor :: "crypto \<Rightarrow> ('s, 'fe) executor \<Rightarrow> bool" where
  "sound_executor C exec \<longleftrightarrow> (\<forall>artifact name w s self r s' self'.
     oracle_ok C self \<longrightarrow> exec artifact name w (s, self) = Some (r, (s', self')) \<longrightarrow>
     oracle_ok C self' \<and> oracle_le self self')"

definition run_keeps_ok :: "crypto \<Rightarrow> (('s, 'fe) oracle_state, 'a) run \<Rightarrow> bool" where
  "run_keeps_ok C m \<longleftrightarrow> (\<forall>s self r s' self'. oracle_ok C self \<longrightarrow>
     m (s, self) = Some (r, (s', self')) \<longrightarrow> oracle_ok C self')"

lemma run_keeps_ok_lifts:
  "run_keeps_ok C (reads f)" "run_keeps_ok C (computes g)" "keeps_ok C m \<Longrightarrow> run_keeps_ok C (changes m)"
  by (auto simp: run_keeps_ok_def reads_def computes_def changes_def on_store_def on_oracle_def keeps_ok_def
      split: prod.splits)

lemma finish_nested_call_merge:
  "\<exists>self1 hs ls c. snd (finish_nested_call X C self nested out t sel b start) = merge_nested self1 nested hs ls c \<and>
     po_new_notes self1 = po_new_notes self \<and> po_note_hashes self1 = po_note_hashes self \<and>
     po_nullifiers self1 = po_nullifiers self \<and>
     po_note_hash_nullifier_counter_map self1 = po_note_hash_nullifier_counter_map self \<and>
     po_consumed_db_nullifiers self1 = po_consumed_db_nullifiers self"
  unfolding finish_nested_call_def Let_def case_prod_unfold snd_conv
  by (intro exI conjI, rule refl) (simp_all split: option.split)

lemma ok_finish_nested_call:
  assumes "oracle_ok C self" and "oracle_ok C nested" and "oracle_le (nested_oracle self t c b) nested"
  shows "oracle_ok C (snd (finish_nested_call X C' self nested out t' sel b' start))"
proof -
  obtain self1 hs ls e where merge: "snd (finish_nested_call X C' self nested out t' sel b' start) =
      merge_nested self1 nested hs ls e" and same: "po_new_notes self1 = po_new_notes self"
      "po_note_hashes self1 = po_note_hashes self" "po_nullifiers self1 = po_nullifiers self"
      "po_note_hash_nullifier_counter_map self1 = po_note_hash_nullifier_counter_map self"
      "po_consumed_db_nullifiers self1 = po_consumed_db_nullifiers self"
    using finish_nested_call_merge[of X C' self nested out t' sel b' start] by blast
  have "oracle_ok C self1" using assms(1) oracle_ok_cong[OF same] by simp
  moreover have "prefix (po_new_notes self1) (po_new_notes nested)"
    "prefix (po_note_hashes self1) (po_note_hashes nested)" "prefix (po_nullifiers self1) (po_nullifiers nested)"
    using assms(3) by (simp_all add: same oracle_le_def nested_oracle_def)
  ultimately show ?thesis unfolding merge using assms(2) by (intro ok_merge_nested)
qed

text \<open>The outcomes of a nested call: an error with the oracle unchanged, a protocol handler, or a merge.\<close>

lemma call_private_function_cases:
  assumes "call_private_function X env exec args (s, self) = Some (r, (s', self'))"
  obtains (error) e where "r = Inl e" "self' = self"
  | (protocol) f sel as c b h where "arg args 0 = Some f"
      "try_handle_protocol_nested_private_call (oe_crypto env) (oe_curve env) Map.empty (AztecAddress f) sel as c b =
        Some h" "h self = (r, self')"
  | (nested) artifact name w s1 t sel c b out nested start x where
      "exec artifact name w (s1, nested_oracle self t c b) = Some (Inr out, (s', nested))"
      "finish_nested_call X (oe_crypto env) self nested out t sel b start = (x, self')" "r = Inr x"
  using assms unfolding call_private_function_def Let_def on_oracle_def
  by (auto simp: bind_result_Inr_iff arg_required_def ok_or_def split: sum.splits option.splits prod.splits
      intro: error protocol nested)

lemma protocol_call_keeps_ok:
  "try_handle_protocol_nested_private_call C' V w t sel as c b = Some h \<Longrightarrow> keeps_ok C h"
  unfolding try_handle_protocol_nested_private_call_def
  by (auto intro: protocol_keeps_ok split: if_splits)

lemma call_private_function_keeps_ok:
  assumes "sound_executor (oe_crypto env) exec"
  shows "run_keeps_ok (oe_crypto env) (call_private_function X env exec args)"
  unfolding run_keeps_ok_def
proof (intro allI impI)
  fix s self r s' self'
  assume ok: "oracle_ok (oe_crypto env) self"
    and call: "call_private_function X env exec args (s, self) = Some (r, (s', self'))"
  from call show "oracle_ok (oe_crypto env) self'"
  proof (cases rule: call_private_function_cases)
    case error
    then show ?thesis using ok by simp
  next
    case (protocol f sel as c b h)
    then show ?thesis using ok protocol_call_keeps_ok[OF protocol(2)] by (metis keeps_ok_def snd_conv)
  next
    case (nested artifact name w s1 t sel c b out nested start x)
    have "oracle_ok (oe_crypto env) nested \<and> oracle_le (nested_oracle self t c b) nested"
      using assms nested(1) ok_nested_oracle[OF ok] unfolding sound_executor_def by blast
    then show ?thesis using ok_finish_nested_call[OF ok] nested(2) by (metis snd_conv)
  qed
qed

lemma foreign_calls_keep_ok:
  assumes "sound_executor (oe_crypto env) exec"
  shows "list_all (\<lambda>(names, handler). \<forall>args. run_keeps_ok (oe_crypto env) (handler args)) (foreign_calls X env exec)"
  unfolding foreign_calls_def Let_def list.pred_inject(2) prod.case
  by (intro conjI allI list.pred_inject(1) run_keeps_ok_lifts call_private_function_keeps_ok[OF assms]
      handlers_keep_ok others_keep_ok readers_keep_ok)

lemma handle_foreign_call_keeps_ok:
  assumes "sound_executor (oe_crypto env) exec"
  shows "run_keeps_ok (oe_crypto env) (handle_foreign_call X env exec name args)"
  by (rule dispatch_rule[OF foreign_calls_keep_ok[OF assms]]) (rule run_keeps_ok_lifts)

lemma execute_private_sound:
  assumes "preserved_by (\<lambda>(s, self). oracle_ok C self) (private_callback X env n)"
  shows "sound_executor C (\<lambda>artifact name w. execute_private X k artifact name w (private_callback X env n))"
  unfolding sound_executor_def
proof (intro allI impI conjI)
  fix artifact name w s self r s' self'
  assume ok: "oracle_ok C self"
    and run: "execute_private X k artifact name w (private_callback X env n) (s, self) = Some (r, (s', self'))"
  show "oracle_ok C self'" using execute_private_preserves[OF assms run] ok by simp
  show "oracle_le self self'"
    using execute_private_preserves[OF private_callback_grows[of self X env n] run] by simp
qed

lemma private_callback_keeps_ok: "preserved_by (\<lambda>(s, self). oracle_ok (oe_crypto env) self) (private_callback X env n)"
proof (induction n)
  case (Suc n)
  have "run_keeps_ok (oe_crypto env) (private_callback X env (Suc n) name args)" for name args
    unfolding private_callback.simps by (rule handle_foreign_call_keeps_ok[OF execute_private_sound[OF Suc.IH]])
  then show ?case unfolding preserved_by_def run_keeps_ok_def by fast
qed (simp add: preserved_by_def)

text \<open>
  C16. Whatever a private function asks of its oracle, nested calls included, the records of the oracle
  stay consistent: every created note has its hash, the counter map relates recorded note hashes to
  recorded nullifiers, every consumed note has its nullifier; and nothing recorded before is lost.
\<close>

theorem oracle_stays_consistent:
  assumes "oracle_ok (oe_crypto env) self"
    and "private_callback X env n name args (s, self) = Some (r, (s', self'))"
  shows "oracle_ok (oe_crypto env) self' \<and> oracle_le self self'"
  using preserved_byD[OF private_callback_keeps_ok assms(2)] assms(1)
    preserved_byD[OF private_callback_grows[of self] assms(2)] by simp

text \<open>An environment over an empty store, for the examples.\<close>

definition null_json :: "'v \<Rightarrow> ('a, 'v) serde" where
  "null_json v = \<lparr>to_vec = \<lambda>_. v, from_slice = \<lambda>_. Inl (Json ''no value'')\<rparr>"

definition null_raw :: "'v \<Rightarrow> 'v raw_bytes" where
  "null_raw v = \<lparr>raw_of = \<lambda>_. v, raw_view = \<lambda>_. []\<rparr>"

definition example_node :: oracle_node where
  "example_node =
     \<lparr>node_public_storage_at = \<lambda>_ _ slot. Inr (slot + 100), node_public_storage_at_by_hash = \<lambda>_ _ slot. Inr (slot + 200),
      node_contract = \<lambda>_. Inr None, node_l1_to_l2_witness = \<lambda>_ _. Inr None, node_note_hash_witness = \<lambda>_ _. Inr None,
      node_nullifier_witness = \<lambda>_ _. Inr None, node_public_data_witness_by_hash = \<lambda>_ _. Inr None,
      node_block_hash_witness = \<lambda>_ _. Inr None\<rparr>"

definition env_over :: "('s, 'v) kv_store \<Rightarrow> 'v \<Rightarrow> ('s, 'v) contract_store \<Rightarrow> ('s, 'v) oracle_env" where
  "env_over K v contracts =
     \<lparr>oe_crypto = example_crypto, oe_curve = example_curve, oe_hex = plain_hex, oe_base64 = \<lambda>_. None,
      oe_node = example_node, oe_contract_store = contracts,
      oe_key_store = \<lparr>ks_kv = K, ks_hex = plain_hex, ks_raw = null_raw v, ks_crypto = example_crypto,
        ks_curve = example_curve\<rparr>,
      oe_note_store = \<lparr>ns_kv = K, ns_hex = plain_hex, ns_note_json = null_json v, ns_index_json = null_json v\<rparr>,
      oe_capsule_store = \<lparr>cs_kv = K, cs_hex = plain_hex, cs_capsule_json = null_json v, cs_slot_json = null_json v\<rparr>,
      oe_address_store = \<lparr>as_kv = K, as_hex = plain_hex, as_json = null_json v\<rparr>,
      oe_sender_tagging_store = \<lparr>st_kv = K, st_hex = plain_hex, st_pending_json = null_json v,
        st_index_json = null_json v\<rparr>,
      oe_random = of_nat\<rparr>"

definition example_env :: "(unit btree, unit) oracle_env" where
  "example_env = env_over in_memory_kv () \<lparr>ct_kv = in_memory_kv, ct_hex = plain_hex, ct_instance_json = null_json (),
     ct_artifact_json = null_json (), ct_preimage_json = null_json ()\<rparr>"

definition example_private_oracle :: "bool \<Rightarrow> fr witness_map private_oracle" where
  "example_private_oracle static = oracle_new JsNull (AztecAddress 7) 99 None [] static"

lemma example_oracle_ok: "oracle_ok C (example_private_oracle static)"
  by (simp add: oracle_ok_def example_private_oracle_def oracle_new_def)

text \<open>The example creates a note with hash 5 and counter 3.\<close>

lemma example_create_note:
  "private_callback example_acvm example_env 1 ''privateNotifyCreatedNote'' [[1], [2], [3], [4], [8, 9], [5], [3]]
     (in_memory_new, example_private_oracle False) =
   Some (Inr [], in_memory_new, push_note
     \<lparr>nas_contract_address = AztecAddress 7, nas_owner = AztecAddress 1, nas_storage_slot = 2, nas_randomness = 3,
      nas_note_type_id = 4, nas_note_items = [8, 9], nas_note_hash = 5, nas_counter = 3\<rparr> (example_private_oracle False))"
proof -
  have name: "handler_name ''privateNotifyCreatedNote'' = ''notifyCreatedNote''"
    by code_simp
  have "(3 :: fr) = fr_from_u64 3" by (simp add: fr_from_u64_def flip: of_nat_fr)
  then have "fr_to_usize 3 = 3" by (metis fr_to_usize_from_u64)
  then have three: "fr_to_u32 3 = 3" by (simp add: fr_to_u32_def)
  show ?thesis
    by (simp add: handle_foreign_call_def name foreign_calls_def Let_def changes_def on_oracle_def
        notify_created_note_def seq_def ensure_mutable_context_def ret_def counter_arg_def arg_def arg_or_zero_def
        list_get_def get_arg_def update_oracle_def unwrap_or_def example_private_oracle_def oracle_new_def three)
qed

theorem oracle_stays_consistent_witness:
  "oracle_ok example_crypto (push_note
     \<lparr>nas_contract_address = AztecAddress 7, nas_owner = AztecAddress 1, nas_storage_slot = 2, nas_randomness = 3,
      nas_note_type_id = 4, nas_note_items = [8, 9], nas_note_hash = 5, nas_counter = 3\<rparr> (example_private_oracle False))"
  using oracle_stays_consistent[of example_env, OF example_oracle_ok example_create_note]
  by (simp add: example_env_def env_over_def)

subsection \<open>A nested call is accounted for once\<close>

lemma finish_nested_call_fields:
  assumes "finish_nested_call X C self nested out t sel b start = (x, self')"
  shows "\<exists>call hs. po_nested_results self' = po_nested_results self @ [call] \<and>
    po_nullifiers self' = po_nullifiers self @ call_nullifiers (call_data call) \<and>
    po_new_notes self' = po_new_notes self @ call_new_notes (call_data call) \<and>
    po_private_logs self' = po_private_logs self @ call_private_logs (call_data call) \<and>
    po_contract_class_logs self' = po_contract_class_logs self @ call_contract_class_logs (call_data call) \<and>
    po_public_call_requests self' = po_public_call_requests self @ call_public_call_requests (call_data call) \<and>
    po_note_hashes self' = po_note_hashes self @
      (if call_note_hashes (call_data call) = [] then hs else call_note_hashes (call_data call)) \<and>
    call_nullifiers (call_data call) = drop (length (po_nullifiers self)) (po_nullifiers nested) \<and>
    call_new_notes (call_data call) = drop (length (po_new_notes self)) (po_new_notes nested)"
  using assms unfolding finish_nested_call_def Let_def case_prod_unfold
  by (auto simp: merge_nested_def nested_call_result_def Let_def split: option.splits)


text \<open>A store with one contract, whose artifact has one function with selector 1.\<close>

definition callee_artifact :: contract_artifact where
  "callee_artifact = example_artifact\<lparr>ca_functions := [example_function
     \<lparr>fa_selector := Some (function_selector_from_field 1), fa_bytecode := Some ''program''\<rparr>]\<rparr>"

definition callee_instance :: contract_instance_with_address where
  "callee_instance = \<lparr>iwa_address = AztecAddress 9, iwa_inner =
     \<lparr>in_version = 1, in_salt = 0, in_deployer = AztecAddress 0, in_current_contract_class_id = 4,
      in_original_contract_class_id = 4, in_initialization_hash = 0,
      in_public_keys = dk_public_keys (derive_keys example_curve 1)\<rparr>\<rparr>"

definition one_contract_kv :: "(unit, contract_instance_with_address + contract_artifact) kv_store" where
  "one_contract_kv =
     \<lparr>kv_get = \<lambda>k. ret (Some (if prefix ''contract:instance:'' k then Inl callee_instance else Inr callee_artifact)),
      kv_put = \<lambda>_ _. ret (), kv_delete = \<lambda>_. ret (), kv_list_prefix = \<lambda>_. ret []\<rparr>"

definition callee_env :: "(unit, contract_instance_with_address + contract_artifact) oracle_env" where
  "callee_env = env_over one_contract_kv (Inr callee_artifact)
     \<lparr>ct_kv = one_contract_kv, ct_hex = plain_hex, ct_instance_json = left_json, ct_artifact_json = right_json,
      ct_preimage_json = null_json (Inr callee_artifact)\<rparr>"

lemma fr_nine: "(9 :: fr) \<noteq> 2" "(9 :: fr) \<noteq> 3"
  using fr_of_nat_eq_iff[of 9 2] fr_of_nat_eq_iff[of 9 3] by (simp_all add: fr_modulus_def flip: of_nat_fr)

lemma callee_found:
  "find_callee callee_env (AztecAddress 9) (function_selector_from_field 1) False () =
     (Inr (callee_artifact, ''transfer''), ())"
  by (simp add: find_callee_def get_instance_def get_artifact_def get_json_def seq_def ret_def lift_result_def
      callee_env_def env_over_def one_contract_kv_def left_json_def right_json_def instance_key_def artifact_key_def
      find_function_by_selector_def callee_artifact_def example_artifact_def example_function_def callee_instance_def)

lemma callee_runs:
  "\<exists>out nested. execute_private example_acvm 6 callee_artifact ''transfer'' w
     (private_callback example_acvm callee_env 6) ((), self) = Some (Inr out, ((), nested))"
proof -
  have name: "handler_name ''log'' = ''log''" by code_simp
  have log: "private_callback example_acvm callee_env 6 ''log'' args st = Some (Inr [], st)" for args st
    by (cases st) (simp add: eval_nat_numeral handle_foreign_call_def name foreign_calls_def Let_def computes_def)
  have load: "load_circuit example_acvm callee_artifact ''transfer'' = Inr (hd (ca_functions callee_artifact),
      \<lparr>prog_functions = [\<lparr>circ_opcodes = (), circ_return_values = []\<rparr>], prog_unconstrained_functions = ()\<rparr>,
      \<lparr>circ_opcodes = (), circ_return_values = []\<rparr>)"
    by (simp add: load_circuit_def find_function_def callee_artifact_def example_artifact_def example_function_def
        decode_program_def example_acvm_def Let_def)
  have six: "(6 :: nat) = Suc (Suc (Suc (Suc (Suc (Suc 0)))))" by simp
  have "\<exists>m first. private_loop example_acvm (private_callback example_acvm callee_env 6) p f 6 [] [] (3, False) ((), self) =
      Some (Inr (m, first), ((), self))" for p f
    by (subst (2) six) (simp add: example_acvm_def log[unfolded example_acvm_def] convert_fc_inputs_def, blast)
  then obtain m first where
      "private_loop example_acvm (private_callback example_acvm callee_env 6)
        \<lparr>prog_functions = [\<lparr>circ_opcodes = (), circ_return_values = []\<rparr>], prog_unconstrained_functions = ()\<rparr>
        (hd (ca_functions callee_artifact)) 6 [] [] (3, False) ((), self) = Some (Inr (m, first), ((), self))" by blast
  moreover have "acvm_new example_acvm c v u = (3, False)" for c v u by (simp add: example_acvm_def)
  ultimately show ?thesis by (simp add: execute_private_def load Let_def)
qed

lemma callee_called:
  "\<exists>x self'. call_private_function example_acvm callee_env
     (\<lambda>artifact name w. execute_private example_acvm 6 artifact name w (private_callback example_acvm callee_env 6))
     [[9], [1], [0], [5], [0]] ((), example_private_oracle False) = Some (Inr x, ((), self'))"
proof -
  have nine: "(9 :: fr) \<noteq> 2" "(9 :: fr) \<noteq> 3" by (rule fr_nine)+
  have args: "arg [[9], [1], [0], [5], [0]] 0 = Some 9" "arg [[9], [1], [0], [5], [0]] (Suc 0) = Some 1"
    "arg [[9], [1], [0], [5], [0]] 2 = Some 0" "arg [[9], [1], [0], [5], [0]] 3 = Some 5"
    "arg [[9], [1], [0], [5], [0 :: fr]] 4 = Some 0"
    by (simp_all add: arg_def list_get_def)
  have none: "try_handle_protocol_nested_private_call C V w (AztecAddress 9) sel as c b = None" for C V w sel as c b
    by (simp add: try_handle_protocol_nested_private_call_def contract_class_registry_def contract_instance_registry_def
        nine)
  let ?c = "fr_to_u32 5" and ?n = "private_context_inputs_size callee_artifact ''transfer''"
  let ?as = "unwrap_or [] (po_execution_cache (example_private_oracle False) 0)"
  obtain out nested where run: "execute_private example_acvm 6 callee_artifact ''transfer''
      (nested_witness (example_private_oracle False) (AztecAddress 9) 1 False ?c ?n ?as)
      (private_callback example_acvm callee_env 6)
      ((), nested_oracle (example_private_oracle False) (AztecAddress 9) ?c False) =
      Some (Inr out, ((), nested))"
    using callee_runs by blast
  show ?thesis
    unfolding call_private_function_def Let_def prod.case
    by (simp add: args arg_required_def none callee_found case_prod_unfold run)
qed


end
