(* ===== verification/Oracle_Access.thy ===== *)
theory Oracle_Access
  imports Oracle_Properties
begin

text \<open>
  What a private function may see and change through its oracle: a static call leaves no effects, keys
  are handed out only to the accounts in scope, the notes of the current execution are returned as often
  as they are unspent, and a read of public storage returns consecutive slots.
\<close>

subsection \<open>Static calls\<close>

text \<open>The effects that \<open>ensure_mutable_context\<close> protects.\<close>

definition oracle_effects :: "'w private_oracle \<Rightarrow> note_and_slot list \<times> scoped_note_hash list \<times>
    scoped_nullifier list \<times> counter_map \<times> fr set \<times> private_log_data list" where
  "oracle_effects self =
     (po_new_notes self, po_note_hashes self, po_nullifiers self, po_note_hash_nullifier_counter_map self,
      po_consumed_db_nullifiers self, po_private_logs self)"

definition static_safe :: "('w private_oracle, 'a) op \<Rightarrow> bool" where
  "static_safe m \<longleftrightarrow> (\<forall>self. po_call_is_static self \<longrightarrow>
     oracle_effects (snd (m self)) = oracle_effects self \<and>
     po_contract_class_logs (snd (m self)) = po_contract_class_logs self)"

lemma static_safe_guarded: "static_safe (seq ensure_mutable_context f)"
  by (simp add: static_safe_def seq_def ensure_mutable_context_def fail_def)

lemmas oracle_handler_defs =
  notify_created_note_def notify_nullified_note_def notify_created_nullifier_def is_nullifier_pending_def
  emit_private_log_def emit_contract_class_log_def store_in_execution_cache_def load_from_execution_cache_def
  get_auth_witness_def enqueue_public_function_call_def set_min_revertible_def is_counter_revertible_def
  get_sender_for_tags_def set_sender_for_tags_def draw_random_def emit_offchain_effect_def

lemma handlers_static_safe:
  "static_safe (notify_created_note args)" "static_safe (notify_nullified_note C args)"
  "static_safe (notify_created_nullifier args)" "static_safe (emit_private_log args)"
  "static_safe (emit_contract_class_log args)"
  unfolding oracle_handler_defs by (rule static_safe_guarded)+

lemma static_safe_seq:
  assumes "static_safe m" and "\<And>self. po_call_is_static (snd (m self)) = po_call_is_static self"
    and "\<And>x. static_safe (f x)"
  shows "static_safe (seq m f)"
  using assms unfolding static_safe_def seq_def by (auto split: prod.splits sum.splits) (metis snd_conv)+

lemma counters_static_safe: "static_safe next_counter" "static_safe (counter_arg args i)"
  "static_safe (lift_result r)"
  by (auto simp: static_safe_def next_counter_def counter_arg_def lift_result_def ret_def oracle_effects_def
      split: sum.split option.split)

lemma counters_keep_static:
  "po_call_is_static (snd (next_counter self)) = po_call_is_static self"
  "po_call_is_static (snd (counter_arg args i self)) = po_call_is_static self"
  "po_call_is_static (snd (lift_result r self)) = po_call_is_static self"
  by (auto simp: next_counter_def counter_arg_def ret_def lift_result_def split: sum.split option.split)

lemma static_safe_update:
  "(\<And>self. oracle_effects (f self) = oracle_effects self \<and> po_contract_class_logs (f self) = po_contract_class_logs self) \<Longrightarrow>
   static_safe (update_oracle f)"
  by (simp add: static_safe_def update_oracle_def)

lemma enqueue_static_safe: "static_safe (enqueue_public_function_call C args b)"
  unfolding oracle_handler_defs Let_def
  by (intro static_safe_seq counters_static_safe counters_keep_static static_safe_update)
    (simp_all add: oracle_effects_def split: option.split)

lemma others_static_safe:
  "static_safe (is_nullifier_pending args)" "static_safe (store_in_execution_cache args)"
  "static_safe (load_from_execution_cache args)" "static_safe (get_auth_witness args)"
  "static_safe (set_min_revertible args)"
  "static_safe (is_counter_revertible args)" "static_safe get_sender_for_tags" "static_safe (set_sender_for_tags args)"
  "static_safe (draw_random supply)" "static_safe (emit_offchain_effect args)"
  by (auto simp: static_safe_def oracle_handler_defs seq_def update_oracle_def oracle_effects_def Let_def
      lift_result_def ret_def split: option.split sum.split)

definition run_static_safe :: "(('s, 'fe) oracle_state, 'a) run \<Rightarrow> bool" where
  "run_static_safe m \<longleftrightarrow> (\<forall>s self r s' self'. po_call_is_static self \<longrightarrow>
     m (s, self) = Some (r, (s', self')) \<longrightarrow>
     oracle_effects self' = oracle_effects self \<and> po_contract_class_logs self' = po_contract_class_logs self)"

lemma run_static_safe_lifts:
  "run_static_safe (reads f)" "run_static_safe (computes g)" "static_safe m \<Longrightarrow> run_static_safe (changes m)"
  by (auto simp: run_static_safe_def reads_def computes_def changes_def on_store_def on_oracle_def static_safe_def
      split: prod.splits)

lemma foreign_calls_static_safe:
  "list_all (\<lambda>(names, handler). names = [''callPrivateFunction''] \<or> (\<forall>args. run_static_safe (handler args)))
     (foreign_calls X env exec)"
  unfolding foreign_calls_def Let_def list.pred_inject(2) prod.case
  by (intro conjI list.pred_inject(1); (rule disjI1, rule refl | rule disjI2, rule allI,
    intro run_static_safe_lifts handlers_static_safe others_static_safe enqueue_static_safe))

text \<open>
  C18. A static call leaves no effects of its own: whatever the function asks of its oracle, other than a
  nested private call, the notes, note hashes, nullifiers, consumed notes and logs stay as they were,
  whether the request is answered or refused.
\<close>

theorem static_call_leaves_no_effects:
  assumes "po_call_is_static self" and "handler_name name \<noteq> ''callPrivateFunction''"
    and "handle_foreign_call X env exec name args (s, self) = Some (r, (s', self'))"
  shows "oracle_effects self' = oracle_effects self \<and> po_contract_class_logs self' = po_contract_class_logs self"
proof (cases "find (\<lambda>(names, _). handler_name name \<in> set names) (foreign_calls X env exec)")
  case (Some e)
  then have "e \<in> set (foreign_calls X env exec)" and "handler_name name \<in> set (fst e)"
    unfolding find_Some_iff by (metis nth_mem, auto)
  with foreign_calls_static_safe[of X env exec] assms(2) have "run_static_safe (snd e args)"
    by (auto simp: list_all_iff)
  then show ?thesis
    using assms(1,3) Some unfolding run_static_safe_def handle_foreign_call_def
    by (simp add: case_prod_unfold)
qed (use assms(3) in \<open>simp add: handle_foreign_call_def computes_def\<close>)


theorem static_call_leaves_no_effects_witness:
  "\<exists>r self'. handle_foreign_call example_acvm example_env (\<lambda>_ _ _ st. None) ''privateNotifyCreatedNote'' [[1]]
     (in_memory_new, example_private_oracle True) = Some (r, (in_memory_new, self')) \<and> po_new_notes self' = []"
proof -
  have name: "handler_name ''privateNotifyCreatedNote'' = ''notifyCreatedNote''" by code_simp
  let ?e = "InvalidData ''Static call cannot update the state'' :: error"
  have "handle_foreign_call example_acvm example_env (\<lambda>_ _ _ st. None) ''privateNotifyCreatedNote'' [[1]]
     (in_memory_new, example_private_oracle True) = Some (Inl ?e, (in_memory_new, example_private_oracle True))"
    by (simp add: handle_foreign_call_def name foreign_calls_def Let_def changes_def on_oracle_def
        notify_created_note_def seq_def ensure_mutable_context_def fail_def example_private_oracle_def oracle_new_def)
  moreover have "po_call_is_static (example_private_oracle True)" "po_new_notes (example_private_oracle True) = []"
    by (simp_all add: example_private_oracle_def oracle_new_def)
  ultimately show ?thesis
    using static_call_leaves_no_effects[of "example_private_oracle True" "''privateNotifyCreatedNote''"]
    by (fastforce simp: name oracle_effects_def)
qed

subsection \<open>Notes of the current execution\<close>

definition pending_matches :: "aztec_address \<Rightarrow> fr \<Rightarrow> aztec_address option \<Rightarrow> note_and_slot \<Rightarrow> bool" where
  "pending_matches contract slot owner p \<longleftrightarrow>
     nas_contract_address p = contract \<and> nas_storage_slot p = slot \<and> (\<forall>a. owner = Some a \<longrightarrow> nas_owner p = a)"

lemma pending_notes_step:
  "pending_notes nullified contract slot owner consumed (p # ps) =
     (if \<not> pending_matches contract slot owner p then pending_notes nullified contract slot owner consumed ps
      else if consumed (nas_note_hash p) < nullified (nas_note_hash p)
      then pending_notes nullified contract slot owner
        (consumed(nas_note_hash p := Suc (consumed (nas_note_hash p)))) ps
      else pending_stored_note p # pending_notes nullified contract slot owner consumed ps)"
  by (auto simp: pending_matches_def split: option.splits)

declare pending_notes.simps(2) [simp del]

lemma pending_notes_of_hash:
  "filter (\<lambda>n. sn_note_hash n = h) (pending_notes nullified contract slot owner consumed ps) =
   map pending_stored_note (drop (nullified h - consumed h)
     (filter (\<lambda>p. pending_matches contract slot owner p \<and> nas_note_hash p = h) ps))"
proof (induction ps arbitrary: consumed)
  case (Cons p ps)
  have hash: "sn_note_hash (pending_stored_note q) = nas_note_hash q" for q
    by (simp add: pending_stored_note_def)
  show ?case
  proof (cases "pending_matches contract slot owner p \<and> nas_note_hash p = h \<and> consumed h < nullified h")
    case True
    then have "consumed h < nullified h" by simp
    then have "nullified h - consumed h = Suc (nullified h - Suc (consumed h))" by linarith
    with True show ?thesis by (simp add: pending_notes_step Cons.IH)
  qed (auto simp: pending_notes_step Cons.IH hash)
qed simp

lemma pending_notes_subseq:
  "subseq (pending_notes nullified contract slot owner consumed ps)
     (map pending_stored_note (filter (pending_matches contract slot owner) ps))"
  by (induction ps arbitrary: consumed) (auto simp: pending_notes_step)


subsection \<open>Public storage\<close>

lemma of_be_bytes_Cons: "of_be_bytes (b # bs) = unat b * 256 ^ length bs + of_be_bytes bs"
  using of_be_bytes_append[of "[b]" bs] of_be_bytes_snoc[of "[]" b] by simp

text \<open>The carry loop adds, modulo the width of the byte string.\<close>

lemma length_add_carry [simp]: "length (add_carry bs c) = length bs"
  by (induction bs c rule: add_carry.induct) (auto simp: Let_def)

lemma mod_append_digit: "r < 256 \<Longrightarrow> x mod m * 256 + r = (x * 256 + r) mod (m * 256)" for x m r :: nat
  using mod_mult2_eq[of "x * 256 + r" 256 m] by (simp add: mult.commute)

lemma of_be_bytes_add_carry:
  "of_be_bytes (rev (add_carry bs c)) = (of_be_bytes (rev bs) + c) mod 256 ^ length bs"
proof (induction bs c rule: add_carry.induct)
  case (2 b bs c)
  let ?sum = "unat b + c mod 256"
  show ?case
  proof (cases "c = 0")
    case True
    then show ?thesis using of_be_bytes_less[of "rev (b # bs)"] by simp
  next
    case False
    have byte: "unat (of_nat (?sum mod 256) :: u8) = ?sum mod 256"
      by (simp add: unat_of_nat take_bit_eq_mod)
    have split: "of_be_bytes (rev bs) * 256 + unat b + c =
        (of_be_bytes (rev bs) + (c div 256 + ?sum div 256)) * 256 + ?sum mod 256" by simp
    have "of_be_bytes (rev (add_carry (b # bs) c)) =
        ((of_be_bytes (rev bs) + (c div 256 + ?sum div 256)) mod 256 ^ length bs) * 256 + ?sum mod 256"
      using 2[OF False refl] False byte by (simp add: Let_def)
    also have "\<dots> = ((of_be_bytes (rev bs) + (c div 256 + ?sum div 256)) * 256 + ?sum mod 256) mod
        (256 ^ length bs * 256)"
      by (rule mod_append_digit) simp
    also have "\<dots> = (of_be_bytes (rev (b # bs)) + c) mod 256 ^ length (b # bs)"
      unfolding split[symmetric] by (simp add: mult.commute)
    finally show ?thesis .
  qed
qed simp

lemma slot_with_offset_eq:
  assumes "offset < 2 ^ 64"
  shows "slot_with_offset s offset = s + of_nat offset"
proof -
  have "into_bigint s + offset < 256 ^ 32"
    using into_bigint_less[of s] assms by (simp add: fr_modulus_def)
  then have "slot_with_offset s offset = fr_of_nat (into_bigint s + offset)"
    by (simp add: slot_with_offset_def fr_from_bytes_def fr_from_be_bytes_mod_order_def of_be_bytes_add_carry)
  then show ?thesis by (metis of_nat_fr of_nat_add fr_of_nat_into_bigint)
qed

text \<open>What a storage read should do: the slots from \<open>slot\<close> on, read at the block asked for, or the latest.\<close>

definition read_slots :: "oracle_node \<Rightarrow> fr option \<Rightarrow> fr \<Rightarrow> fr \<Rightarrow> nat \<Rightarrow> fr list result" where
  "read_slots node block contract slot n =
     map_result (\<lambda>i. (case block of
         Some hash \<Rightarrow> node_public_storage_at_by_hash node hash
       | None \<Rightarrow> node_public_storage_at node 0) (AztecAddress contract) (slot + of_nat i)) [0..<n]"

text \<open>
  A read of public storage returns the consecutive slots from the one asked for, with the field
  addition of the contract language, although the code adds the offset byte by byte; at least one slot
  is read, at the block whose hash is given or, in the short form, at the latest block.
\<close>

lemma public_storage_read_correct:
  "get_public_storage_at env [[hash], [contract], [slot], [amount]] =
     bind_result (read_slots (oe_node env) (Some hash) contract slot (max (unat (fr_to_usize amount)) 1))
       (\<lambda>vs. Inr [vs]) \<and>
   get_public_storage_at env [[contract], [slot]] =
     bind_result (read_slots (oe_node env) None contract slot 1) (\<lambda>vs. Inr [vs])"
proof -
  have "(\<lambda>i. slot_with_offset slot i) i = slot + of_nat i" if "i \<in> set [0..<max (unat (fr_to_usize amount)) 1]" for i
  proof -
    have "unat (fr_to_usize amount) < 2 ^ 64" using unsigned_less[of "fr_to_usize amount"] by simp
    then have "i < 2 ^ 64" using that by auto
    then show ?thesis by (simp add: slot_with_offset_eq)
  qed
  then have "map_result (\<lambda>i. f (slot_with_offset slot i)) [0..<max (unat (fr_to_usize amount)) 1] =
      map_result (\<lambda>i. f (slot + of_nat i)) [0..<max (unat (fr_to_usize amount)) 1]" for f :: "fr \<Rightarrow> fr result"
    by (intro map_result_cong) simp_all
  moreover have "slot_with_offset slot 0 = slot" using slot_with_offset_eq[of 0 slot] by simp
  ultimately show ?thesis
    by (simp add: get_public_storage_at_def arg_required_def arg_def list_get_def arg_or_zero_def unwrap_or_def
        read_slots_def Let_def)
qed

subsection \<open>Keys\<close>

text \<open>Some account in scope is registered in \<open>tbl\<close> and owns the master public key with hash \<open>h\<close>.\<close>

definition owner_in_scope ::
    "crypto \<Rightarrow> (aztec_address \<Rightarrow> complete_address option) \<Rightarrow> aztec_address list \<Rightarrow> fr \<Rightarrow> bool" where
  "owner_in_scope C tbl scopes h \<longleftrightarrow>
     (\<exists>a \<in> set scopes. \<exists>c. tbl a = Some c \<and> (\<exists>p \<in> set (account_points c). point_hash C p = h))"

lemma key_in_scope_eq:
  assumes "\<And>a. address_get (oe_address_store env) a t = (Inr (tbl a), t)"
  shows "key_in_scope env h scopes t = (Inr (owner_in_scope (oe_crypto env) tbl scopes h), t)"
proof (induction scopes)
  case (Cons a scopes)
  then show ?case
    by (cases "tbl a") (simp_all add: seq_def assms ret_def list_ex_iff owner_in_scope_def)
qed (simp add: ret_def owner_in_scope_def)

text \<open>
  C20. A key is handed out only in scope: when the execution is restricted to some accounts, a key request
  is denied unless one of them is registered and one of its four master public keys has the requested
  hash, and otherwise answered as without a restriction. A denied request changes nothing.
\<close>

theorem key_access_scoped:
  assumes "address_store_ok in_memory_kv (oe_address_store env)" and "btree_ok t"
    and "addresses_at (oe_address_store env) (map_of t) tbl"
    and "po_scopes self \<noteq> []" and "arg args 0 = Some h"
  shows "oracle_get_secret_key env self args t =
    (if owner_in_scope (oe_crypto env) tbl (po_scopes self) h
     then oracle_get_secret_key env (self\<lparr>po_scopes := []\<rparr>) args t
     else (Inl (InvalidData ''Key validation request denied''), t))"
  using assms(4,5) key_in_scope_eq[OF address_get_eq[OF assms(1-3)]]
  by (simp add: oracle_get_secret_key_def seq_def lift_result_def arg_required_def ret_def fail_def)

definition scoped_env :: "((complete_address + unit) btree, complete_address + unit) oracle_env" where
  "scoped_env = env_over in_memory_kv (Inr ()) \<lparr>ct_kv = in_memory_kv, ct_hex = plain_hex,
     ct_instance_json = null_json (Inr ()), ct_artifact_json = null_json (Inr ()), ct_preimage_json = null_json (Inr ())\<rparr>
     \<lparr>oe_address_store := example_address_store\<rparr>"

theorem key_access_scoped_witness:
  "oracle_get_secret_key scoped_env ((example_private_oracle False)\<lparr>po_scopes := [AztecAddress 1]\<rparr>) [[5]] in_memory_new =
     (Inl (InvalidData ''Key validation request denied''), in_memory_new)"
  using key_access_scoped[of scoped_env in_memory_new Map.empty
      "(example_private_oracle False)\<lparr>po_scopes := [AztecAddress 1]\<rparr>" "[[5]]" 5]
  by (simp add: address_store_ok_def example_address_store_def addresses_at_def table_at_def in_memory_new_def
      scoped_env_def arg_def list_get_def owner_in_scope_def)

end
