(* ===== verification/Contract_Sync.thy ===== *)
theory Contract_Sync
  imports Sync_Services Acvm_Executor
begin

text \<open>
  \<open>crates/pxe/src/sync/contract_sync.rs\<close>: a contract is synchronized at most once per scope and anchor
  block. The two halves of a synchronization run under \<open>tokio::try_join!\<close>, which is a parameter: the
  theorem holds for every order in which it interleaves them. One of them runs a function of the contract,
  which may not return and which may reach the cache again; so the state is that of the whole PXE, with
  the cache and the note store as parts of it.
\<close>

subsection \<open>The service\<close>

record sync_cache =
  cy_synced :: "string set"
  cy_anchor_block_hash :: "string option"

record ('p, 's, 'v, 'w) contract_sync_service =
  cy_hex :: hex_crate
  cy_note_store :: "('s, 'v) note_store"
  cy_nullifier_witness :: "u64 \<Rightarrow> fr \<Rightarrow> 'w option result"
  cy_block_number :: "u64 result"
  cy_on_store :: "('s, u64) op \<Rightarrow> ('p, u64) run"
  cy_cache :: "'p \<Rightarrow> sync_cache"
  cy_set_cache :: "sync_cache \<Rightarrow> 'p \<Rightarrow> 'p"
  cy_try_join :: "('p, u64) run \<Rightarrow> ('p, unit) run \<Rightarrow> ('p, u64 \<times> unit) run"

definition sync_cache_new :: sync_cache where
  "sync_cache_new = \<lparr>cy_synced = {}, cy_anchor_block_hash = None\<rparr>"

definition sync_key :: "hex_crate \<Rightarrow> aztec_address \<Rightarrow> aztec_address \<Rightarrow> string" where
  "sync_key H contract scope = address_display H contract @ '':'' @ address_display H scope"

definition sync_key_wildcard :: "hex_crate \<Rightarrow> aztec_address \<Rightarrow> string" where
  "sync_key_wildcard H contract = address_display H contract @ '':*''"

definition contract_do_sync ::
    "('p, 's, 'v, 'w) contract_sync_service \<Rightarrow> (aztec_address \<Rightarrow> aztec_address list \<Rightarrow> ('p, unit) run) \<Rightarrow>
     aztec_address \<Rightarrow> aztec_address list \<Rightarrow> ('p, unit) run" where
  "contract_do_sync self utility_executor contract_address scopes p =
     (let anchor_block = (case cy_block_number self of Inr n \<Rightarrow> n | Inl _ \<Rightarrow> 0) in
      case cy_try_join self
             (cy_on_store self (sync_note_nullifiers (cy_note_store self) (cy_nullifier_witness self)
                contract_address scopes anchor_block))
             (utility_executor contract_address scopes) p of
        None \<Rightarrow> None
      | Some (Inl e, p') \<Rightarrow> Some (Inl e, p')
      | Some (Inr _, p') \<Rightarrow> Some (Inr (), p'))"

text \<open>The cache is cleared when the anchor block changed.\<close>

definition refresh_cache :: "string \<Rightarrow> sync_cache \<Rightarrow> sync_cache" where
  "refresh_cache anchor_block_hash c =
     (if cy_anchor_block_hash c \<noteq> Some anchor_block_hash
      then c\<lparr>cy_anchor_block_hash := Some anchor_block_hash, cy_synced := {}\<rparr> else c)"

definition mark_synced :: "hex_crate \<Rightarrow> aztec_address \<Rightarrow> aztec_address list \<Rightarrow> sync_cache \<Rightarrow> sync_cache" where
  "mark_synced H contract_address scopes c =
     c\<lparr>cy_synced := cy_synced c \<union> sync_key H contract_address ` set scopes\<rparr>"

definition ensure_contract_synced ::
    "('p, 's, 'v, 'w) contract_sync_service \<Rightarrow> (aztec_address \<Rightarrow> aztec_address list \<Rightarrow> ('p, unit) run) \<Rightarrow>
     aztec_address \<Rightarrow> aztec_address list \<Rightarrow> string \<Rightarrow> ('p, unit) run" where
  "ensure_contract_synced self utility_executor contract_address scopes anchor_block_hash p =
     (let c1 = refresh_cache anchor_block_hash (cy_cache self p);
          p1 = cy_set_cache self c1 p;
          unsynced_scopes = filter (\<lambda>scope. sync_key (cy_hex self) contract_address scope \<notin> cy_synced c1 \<and>
            sync_key_wildcard (cy_hex self) contract_address \<notin> cy_synced c1) scopes
      in if unsynced_scopes = [] then Some (Inr (), p1)
         else (case contract_do_sync self utility_executor contract_address unsynced_scopes p1 of
             None \<Rightarrow> None
           | Some (Inl e, p2) \<Rightarrow> Some (Inl e, p2)
           | Some (Inr _, p2) \<Rightarrow>
               Some (Inr (), cy_set_cache self
                 (mark_synced (cy_hex self) contract_address unsynced_scopes (cy_cache self p2)) p2)))"

definition wipe :: "sync_cache \<Rightarrow> sync_cache" where
  "wipe c = c\<lparr>cy_synced := {}, cy_anchor_block_hash := None\<rparr>"

subsection \<open>The cache as a set of pairs\<close>

text \<open>The cache records the pairs of contract and scope synchronized at the anchor \<open>hash\<close>.\<close>

definition cache_holds ::
    "hex_crate \<Rightarrow> sync_cache \<Rightarrow> string option \<Rightarrow> (aztec_address \<times> aztec_address) set \<Rightarrow> bool" where
  "cache_holds H c hash pairs \<longleftrightarrow> cy_anchor_block_hash c = hash \<and> cy_synced c = (\<lambda>(a, b). sync_key H a b) ` pairs"

lemma sync_key_inject: "hex_ok H \<Longrightarrow> sync_key H a b = sync_key H a' b' \<longleftrightarrow> a = a' \<and> b = b'"
  by (simp add: sync_key_def append_eq_append_conv)

lemma sync_key_not_wildcard: "hex_ok H \<Longrightarrow> sync_key H a b \<noteq> sync_key_wildcard H a'"
proof
  assume "hex_ok H" and "sync_key H a b = sync_key_wildcard H a'"
  then have "length (address_display H b) = length ''*''"
    by (auto simp: sync_key_def sync_key_wildcard_def append_eq_append_conv)
  then show False using \<open>hex_ok H\<close> by simp
qed

lemma cache_holds_iff:
  assumes "hex_ok H" and "cache_holds H c hash pairs"
  shows "sync_key H a b \<in> cy_synced c \<longleftrightarrow> (a, b) \<in> pairs" and "sync_key_wildcard H a \<notin> cy_synced c"
proof -
  show "sync_key H a b \<in> cy_synced c \<longleftrightarrow> (a, b) \<in> pairs"
    using assms by (auto simp: cache_holds_def sync_key_inject)
  show "sync_key_wildcard H a \<notin> cy_synced c"
    using assms(2) sync_key_not_wildcard[OF assms(1)] unfolding cache_holds_def by (metis (mono_tags, lifting) case_prod_unfold imageE)
qed

lemma cache_holds_refresh:
  "cache_holds H c hash pairs \<Longrightarrow>
   cache_holds H (refresh_cache anchor c) (Some anchor) (if hash = Some anchor then pairs else {})"
  by (auto simp: cache_holds_def refresh_cache_def)

lemma cache_holds_mark:
  "cache_holds H c hash pairs \<Longrightarrow>
   cache_holds H (mark_synced H contract scopes c) hash (pairs \<union> {contract} \<times> set scopes)"
  by (auto simp: cache_holds_def mark_synced_def)

text \<open>
  A contract is synchronized for exactly the scopes that were not yet synchronized at this anchor
  block: pairs recorded at another anchor do not count. When there is none nothing runs. Otherwise the
  contract is synchronized for all of them at once; when that succeeds they are added to what the cache
  then holds, so the same request does nothing until the anchor changes, and when it fails nothing is
  added, so the next request tries again.
\<close>

lemma contract_sync_once:
  assumes "hex_ok (cy_hex self)" and lens: "\<And>c p. cy_cache self (cy_set_cache self c p) = c"
    and holds: "cache_holds (cy_hex self) (cy_cache self p) hash pairs"
    and known: "known = (if hash = Some anchor then pairs else {})"
    and todo: "todo = filter (\<lambda>scope. (contract, scope) \<notin> known) scopes"
    and p1: "p1 = cy_set_cache self (refresh_cache anchor (cy_cache self p)) p"
  shows "cache_holds (cy_hex self) (cy_cache self p1) (Some anchor) known \<and>
    (todo = [] \<longrightarrow> ensure_contract_synced self executor contract scopes anchor p = Some (Inr (), p1)) \<and>
    (\<forall>r p2 hash' pairs'. todo \<noteq> [] \<longrightarrow> contract_do_sync self executor contract todo p1 = Some (r, p2) \<longrightarrow>
       cache_holds (cy_hex self) (cy_cache self p2) hash' pairs' \<longrightarrow>
       (\<exists>p'. ensure_contract_synced self executor contract scopes anchor p = Some (r, p') \<and>
         cache_holds (cy_hex self) (cy_cache self p') hash'
           (if r = Inr () then pairs' \<union> {contract} \<times> set todo else pairs')))"
proof -
  let ?c1 = "refresh_cache anchor (cy_cache self p)"
  have c1: "cache_holds (cy_hex self) ?c1 (Some anchor) known"
    using cache_holds_refresh[OF holds] known by simp
  have filt: "filter (\<lambda>scope. sync_key (cy_hex self) contract scope \<notin> cy_synced ?c1 \<and>
      sync_key_wildcard (cy_hex self) contract \<notin> cy_synced ?c1) scopes = todo"
    using cache_holds_iff[OF assms(1) c1] todo by simp
  have "\<exists>p'. ensure_contract_synced self executor contract scopes anchor p = Some (r, p') \<and>
      cache_holds (cy_hex self) (cy_cache self p') hash' (if r = Inr () then pairs' \<union> {contract} \<times> set todo else pairs')"
    if "todo \<noteq> []" and run: "contract_do_sync self executor contract todo p1 = Some (r, p2)"
      and held: "cache_holds (cy_hex self) (cy_cache self p2) hash' pairs'" for r p2 hash' pairs'
    using that(1) run held cache_holds_mark[OF held, of contract todo]
    by (cases r) (auto simp: ensure_contract_synced_def filt Let_def lens p1[symmetric])
  moreover have "todo = [] \<Longrightarrow> ensure_contract_synced self executor contract scopes anchor p = Some (Inr (), p1)"
    by (simp add: ensure_contract_synced_def filt Let_def p1)
  ultimately show ?thesis using c1 by (auto simp: p1 lens)
qed

definition example_sync_service :: "(sync_cache, unit, unit, unit) contract_sync_service" where
  "example_sync_service =
     \<lparr>cy_hex = plain_hex,
      cy_note_store = \<lparr>ns_kv = \<lparr>kv_get = \<lambda>_. ret None, kv_put = \<lambda>_ _. ret (), kv_delete = \<lambda>_. ret (),
          kv_list_prefix = \<lambda>_. ret []\<rparr>, ns_hex = plain_hex,
        ns_note_json = \<lparr>to_vec = \<lambda>_. (), from_slice = \<lambda>_. Inl (Json ''note'')\<rparr>,
        ns_index_json = \<lparr>to_vec = \<lambda>_. (), from_slice = \<lambda>_. Inr []\<rparr>\<rparr>,
      cy_nullifier_witness = \<lambda>_ _. Inr None, cy_block_number = Inr 5,
      cy_on_store = \<lambda>m c. Some (fst (m ()), c), cy_cache = id, cy_set_cache = \<lambda>c _. c,
      cy_try_join = \<lambda>m1 m2 p. (case m1 p of
          None \<Rightarrow> None | Some (Inl e, p1) \<Rightarrow> Some (Inl e, p1)
        | Some (Inr x, p1) \<Rightarrow> (case m2 p1 of
            None \<Rightarrow> None | Some (Inl e, p2) \<Rightarrow> Some (Inl e, p2) | Some (Inr y, p2) \<Rightarrow> Some (Inr (x, y), p2)))\<rparr>"

end
