(* ===== verification/Log_Service.thy ===== *)
theory Log_Service
  imports Account_Stores Tagging_Stores Block_Sync Sync_Services Nargo_Artifact
begin

text \<open>
  The services that discover logs and events: \<open>crates/pxe/src/sync/log_service.rs\<close> fetches the logs
  that carry the next tags of a tagging secret and moves the index of the secret forward, and
  \<open>crates/pxe/src/sync/event_service.rs\<close> stores an event once its transaction proves it. The answers of
  the node are JSON values; the node is a parameter.
\<close>

subsection \<open>Data\<close>

definition UNFINALIZED_WINDOW :: u64 where
  "UNFINALIZED_WINDOW = 20"

record log_retrieval_request =
  lr_is_public :: bool
  lr_tag :: fr
  lr_contract_address :: "aztec_address option"

record tagged_log =
  tl_tag :: fr
  tl_data :: "fr list"
  tl_block_number :: u64
  tl_is_public :: bool
  tl_tx_hash :: tx_hash
  tl_note_hashes :: "fr list"
  tl_first_nullifier :: fr

record log_node =
  ln_private_logs_by_tags :: "fr list \<Rightarrow> json result"
  ln_public_logs_by_tags :: "aztec_address \<Rightarrow> fr list \<Rightarrow> json result"

record ('s, 'v) log_service =
  ls_node :: log_node
  ls_crypto :: crypto
  ls_hex :: hex_crate
  ls_sender_store :: "('s, 'v) sender_store"
  ls_recipient_tagging_store :: "('s, 'v) recipient_tagging_store"

subsection \<open>Reading the answers of the node\<close>

definition hex_fields :: "hex_crate \<Rightarrow> json list \<Rightarrow> fr list" where
  "hex_fields H = List.map_filter (\<lambda>v. Option.bind (js_str v) (\<lambda>s. result_ok (fr_from_hex H s)))"

text \<open>\<open>transpose()?\<close> with a value for an absent field.\<close>

definition parse_or :: "'a \<Rightarrow> (string \<Rightarrow> 'a result) \<Rightarrow> json option \<Rightarrow> 'a result" where
  "parse_or d parse v = (case Option.bind v js_str of Some s \<Rightarrow> parse s | None \<Rightarrow> Inr d)"

definition parse_log_entry :: "hex_crate \<Rightarrow> fr \<Rightarrow> bool \<Rightarrow> json \<Rightarrow> tagged_log result" where
  "parse_log_entry H tag is_public entry =
     (let data = unwrap_or [] (map_option (hex_fields H)
            (Option.bind (or_else_opt (js_field ''logData'' entry) (js_field ''data'' entry)) js_array));
          block_number = unwrap_or 0 (Option.bind (js_field ''blockNumber'' entry) js_u64);
          note_hashes = unwrap_or [] (map_option (hex_fields H)
            (Option.bind (js_field ''noteHashes'' entry) js_array))
      in bind_result (parse_or tx_hash_zero (tx_hash_from_hex H) (js_field ''txHash'' entry)) (\<lambda>tx_hash.
         bind_result (parse_or 0 (fr_from_hex H) (js_field ''firstNullifier'' entry)) (\<lambda>first_nullifier.
           Inr \<lparr>tl_tag = tag, tl_data = data, tl_block_number = block_number, tl_is_public = is_public,
                tl_tx_hash = tx_hash, tl_note_hashes = note_hashes, tl_first_nullifier = first_nullifier\<rparr>)))"

definition parse_tag_logs :: "hex_crate \<Rightarrow> bool \<Rightarrow> fr \<times> json \<Rightarrow> tagged_log list result" where
  "parse_tag_logs H is_public = (\<lambda>(tag, tag_logs).
     map_result (parse_log_entry H tag is_public) (unwrap_or [] (js_array tag_logs)))"

definition get_private_logs_by_tags :: "('s, 'v) log_service \<Rightarrow> fr list \<Rightarrow> tagged_log list list result" where
  "get_private_logs_by_tags self tags =
     (if tags = [] then Inr []
      else bind_result (ln_private_logs_by_tags (ls_node self) tags) (\<lambda>response.
           bind_result (map_result (parse_tag_logs (ls_hex self) False)
               (zip tags (unwrap_or [] (js_array response)))) (\<lambda>logs.
             Inr (logs @ replicate (length tags - length logs) []))))"

definition get_public_logs_by_tag :: "('s, 'v) log_service \<Rightarrow> aztec_address \<Rightarrow> fr \<Rightarrow> tagged_log list result" where
  "get_public_logs_by_tag self contract tag =
     bind_result (ln_public_logs_by_tags (ls_node self) contract [tag]) (\<lambda>response.
     bind_result (map_result (parse_tag_logs (ls_hex self) True)
         (map (Pair tag) (unwrap_or [] (js_array response)))) (\<lambda>logs. Inr (concat logs)))"

subsection \<open>Retrieval by request\<close>

definition retrieve_logs :: "('s, 'v) log_service \<Rightarrow> log_retrieval_request \<Rightarrow> tagged_log list result" where
  "retrieve_logs self request =
     bind_result (case lr_contract_address request of
         Some contract \<Rightarrow> get_public_logs_by_tag self contract (lr_tag request)
       | None \<Rightarrow> Inr []) (\<lambda>public_logs.
     let siloed_tag = (case lr_contract_address request of
         Some contract \<Rightarrow> compute_siloed_private_log_first_field (ls_crypto self) contract (lr_tag request)
       | None \<Rightarrow> lr_tag request) in
     bind_result (get_private_logs_by_tags self [siloed_tag]) (\<lambda>answers.
     let private_logs = (if answers = [] then [] else last answers) in
     if public_logs \<noteq> [] \<and> private_logs \<noteq> []
     then Inl (InvalidData ''found both a public and private log for tag'')
     else Inr (if public_logs \<noteq> [] then public_logs else private_logs)))"

definition bulk_retrieve_logs ::
    "('s, 'v) log_service \<Rightarrow> log_retrieval_request list \<Rightarrow> tagged_log list list result" where
  "bulk_retrieve_logs self = map_result (retrieve_logs self)"

subsection \<open>Discovery by tag\<close>

definition compute_siloed_tag :: "crypto \<Rightarrow> fr \<Rightarrow> u64 \<Rightarrow> aztec_address \<Rightarrow> fr" where
  "compute_siloed_tag C secret index contract_address =
     compute_siloed_private_log_first_field C contract_address (poseidon2_hash C [secret, fr_from_u64 index])"

text \<open>\<open>.ok()\<close>: the error is dropped, what was written stays.\<close>

definition attempt :: "('s, 'a) op \<Rightarrow> ('s, unit) op" where
  "attempt m s = (Inr (), snd (m s))"

text \<open>The position of the last entry of the chunk with logs.\<close>

definition highest_found :: "'a list list \<Rightarrow> nat option" where
  "highest_found logs =
     (case filter (\<lambda>i. logs ! i \<noteq> []) [0..<length logs] of [] \<Rightarrow> None | is \<Rightarrow> Some (last is))"

fun load_log_chunks ::
    "('s, 'v) log_service \<Rightarrow> fr \<Rightarrow> u64 \<Rightarrow> nat \<Rightarrow> fr list list \<Rightarrow> ('s, tagged_log list) op" where
  "load_log_chunks self secret from_index chunk_idx [] = ret []"
| "load_log_chunks self secret from_index chunk_idx (chunk # rest) =
     seq (lift_result (get_private_logs_by_tags self chunk)) (\<lambda>logs.
     seq (case highest_found logs of
            Some i \<Rightarrow> attempt (update_highest_finalized_index (ls_recipient_tagging_store self) secret
                       (from_index + of_nat (chunk_idx * MAX_RPC_LEN + i)))
          | None \<Rightarrow> ret ()) (\<lambda>_.
     seq (load_log_chunks self secret from_index (Suc chunk_idx) rest) (\<lambda>more.
       ret (concat logs @ more))))"

definition load_logs_for_range ::
    "('s, 'v) log_service \<Rightarrow> aztec_address \<Rightarrow> fr \<Rightarrow> u64 \<Rightarrow> u64 \<Rightarrow> ('s, tagged_log list) op" where
  "load_logs_for_range self contract_address secret from_index to_index =
     (let tags = map (\<lambda>i. compute_siloed_tag (ls_crypto self) secret (of_nat i) contract_address)
            [unat from_index..<Suc (unat to_index)]
      in load_log_chunks self secret from_index 0 (chunks MAX_RPC_LEN tags))"

definition fetch_secret ::
    "('s, 'v) log_service \<Rightarrow> aztec_address \<Rightarrow> fr \<Rightarrow> ('s, tagged_log list) op" where
  "fetch_secret self contract_address secret =
     seq (get_highest_finalized_index (ls_recipient_tagging_store self) secret) (\<lambda>finalized.
     seq (lift_result (checked_add finalized 1)) (\<lambda>from_index.
     seq (lift_result (checked_add finalized UNFINALIZED_WINDOW)) (\<lambda>to_index.
       load_logs_for_range self contract_address secret from_index to_index)))"

definition fetch_tagged_logs ::
    "('s, 'v) log_service \<Rightarrow> aztec_address \<Rightarrow> fr list \<Rightarrow> ('s, tagged_log list) op" where
  "fetch_tagged_logs self contract_address tagging_secrets =
     seq (map_op (fetch_secret self contract_address) tagging_secrets) (\<lambda>logs. ret (concat logs))"

definition get_senders :: "('s, 'v) log_service \<Rightarrow> ('s, aztec_address list) op" where
  "get_senders self = sender_get_all (ls_sender_store self)"

subsection \<open>Events\<close>

record ('s, 'v) event_service =
  ve_tx_effect :: "tx_hash \<Rightarrow> json option result"
  ve_crypto :: crypto
  ve_hex :: hex_crate
  ve_private_event_store :: "('s, 'v) private_event_store"
  ve_anchor_block_store :: "('s, 'v, json) anchor_block_store"

text \<open>The position of the first nullifier that is the text \<open>hex\<close>.\<close>

fun nullifier_position :: "string \<Rightarrow> json list \<Rightarrow> nat option" where
  "nullifier_position hex [] = None"
| "nullifier_position hex (n # ns) =
     (if js_str n = Some hex then Some 0 else map_option Suc (nullifier_position hex ns))"

definition silo_event_commitment :: "crypto \<Rightarrow> aztec_address \<Rightarrow> fr \<Rightarrow> fr" where
  "silo_event_commitment C contract_address event_commitment =
     poseidon2_hash_with_separator C [address_field contract_address, event_commitment] 0"

definition effect_nullifiers :: "json \<Rightarrow> json list option" where
  "effect_nullifiers tx_effect = Option.bind (js_field ''nullifiers'' tx_effect) js_array"

definition effect_block_number :: "json \<Rightarrow> u64" where
  "effect_block_number tx_effect = unwrap_or 0 (Option.bind (js_field ''l2BlockNumber'' tx_effect) js_u64)"

definition commitment_missing :: "string \<Rightarrow> json \<Rightarrow> bool" where
  "commitment_missing hex tx_effect \<longleftrightarrow>
     (case effect_nullifiers tx_effect of
        None \<Rightarrow> False | Some nullifiers \<Rightarrow> nullifier_position hex nullifiers = None)"

definition event_from_effect ::
    "hex_crate \<Rightarrow> aztec_address \<Rightarrow> event_selector \<Rightarrow> fr \<Rightarrow> fr list \<Rightarrow> fr \<Rightarrow> tx_hash \<Rightarrow> json \<Rightarrow> stored_private_event" where
  "event_from_effect H contract_address selector randomness content siloed tx_hash tx_effect =
     \<lparr>ev_event_selector = selector, ev_randomness = randomness, ev_msg_content = content,
      ev_siloed_event_commitment = siloed, ev_contract_address = contract_address, ev_scopes = [],
      ev_tx_hash = tx_hash, ev_l2_block_number = effect_block_number tx_effect,
      ev_l2_block_hash = unwrap_or ''0x0'' (Option.bind (js_field ''l2BlockHash'' tx_effect) js_str),
      ev_tx_index_in_block = Option.bind (js_field ''txIndexInBlock'' tx_effect) js_u64,
      ev_event_index_in_tx = map_option of_nat
        (Option.bind (effect_nullifiers tx_effect) (nullifier_position (fr_display H siloed)))\<rparr>"

definition validate_and_store_event ::
    "('s, 'v) event_service \<Rightarrow> aztec_address \<Rightarrow> event_selector \<Rightarrow> fr \<Rightarrow> fr list \<Rightarrow> fr \<Rightarrow> tx_hash \<Rightarrow>
     aztec_address \<Rightarrow> ('s, unit) op" where
  "validate_and_store_event self contract_address selector randomness content event_commitment tx_hash scope =
     (let siloed = silo_event_commitment (ve_crypto self) contract_address event_commitment in
      seq (get_block_number (ve_anchor_block_store self)) (\<lambda>anchor_block_number.
      seq (lift_result (ve_tx_effect self tx_hash)) (\<lambda>found.
      seq (lift_result (ok_or (InvalidData ''tx effect not found'') found)) (\<lambda>tx_effect.
      if effect_block_number tx_effect > anchor_block_number \<and> anchor_block_number > 0
      then fail (InvalidData ''tx is in a block after the anchor block'')
      else if commitment_missing (fr_display (ve_hex self) siloed) tx_effect
      then fail (InvalidData ''siloed event commitment not found in tx nullifiers'')
      else store_private_event_log (ve_private_event_store self)
        (event_from_effect (ve_hex self) contract_address selector randomness content siloed tx_hash tx_effect)
        scope))))"

subsection \<open>Discovery follows the tags\<close>

text \<open>The store holds the highest finalized index of every secret, zero when there is none.\<close>

definition recipient_store_ok :: "('s, 'v) kv_store \<Rightarrow> ('s, 'v) recipient_tagging_store \<Rightarrow> bool" where
  "recipient_store_ok K self \<longleftrightarrow> rt_kv self = K \<and> hex_ok (rt_hex self) \<and> serde_ok (rt_index_json self)"

definition indexes_at ::
    "('s, 'v) recipient_tagging_store \<Rightarrow> (string \<Rightarrow> 'v option) \<Rightarrow> (fr \<Rightarrow> u64) \<Rightarrow> bool" where
  "indexes_at self m idx \<longleftrightarrow>
     (\<exists>tbl. table_at ''recipient_tag:finalized:'' (recipient_finalized_key (rt_hex self)) (to_vec (rt_index_json self))
        m tbl \<and> (\<forall>s. idx s = unwrap_or 0 (tbl s)))"

lemma finalized_table:
  "hex_ok H \<Longrightarrow> typed_table in_memory_kv map_of btree_ok ''recipient_tag:finalized:'' (recipient_finalized_key H)"
  by unfold_locales (simp_all add: recipient_finalized_key_def)

interpretation finalized: typed_table in_memory_kv map_of btree_ok "''recipient_tag:finalized:''"
    "recipient_finalized_key plain_hex" "to_vec left_json"
  by (rule finalized_table) simp

lemma get_finalized_eq:
  assumes "recipient_store_ok in_memory_kv self" and "btree_ok t" and "indexes_at self (map_of t) idx"
  shows "get_highest_finalized_index self secret t = (Inr (idx secret), t)"
proof -
  from assms(3) obtain tbl where "map_of t (recipient_finalized_key (rt_hex self) secret) =
      map_option (to_vec (rt_index_json self)) (tbl secret)" and "idx secret = unwrap_or 0 (tbl secret)"
    unfolding indexes_at_def table_at_def by blast
  then show ?thesis
    using assms(1) mem.get_law[OF assms(2), of "recipient_finalized_key (rt_hex self) secret"]
    by (cases "tbl secret")
      (simp_all add: recipient_store_ok_def get_highest_finalized_index_def get_highest_index_at_def seq_def ret_def
        lift_result_def)
qed

lemma update_finalized:
  assumes "recipient_store_ok in_memory_kv self" and "btree_ok t" and "indexes_at self (map_of t) idx"
    and "idx secret < i"
  shows "\<exists>t'. update_highest_finalized_index self secret i t = (Inr (), t') \<and> btree_ok t' \<and>
    indexes_at self (map_of t') (idx(secret := i))"
proof -
  from assms(1) have ok: "rt_kv self = in_memory_kv" "hex_ok (rt_hex self)" by (simp_all add: recipient_store_ok_def)
  from assms(3) obtain tbl where tbl: "table_at ''recipient_tag:finalized:'' (recipient_finalized_key (rt_hex self))
      (to_vec (rt_index_json self)) (map_of t) tbl" and idx: "\<And>s. idx s = unwrap_or 0 (tbl s)"
    unfolding indexes_at_def by blast
  have "wp (kv_put in_memory_kv (recipient_finalized_key (rt_hex self) secret) (to_vec (rt_index_json self) i))
      (\<lambda>_ t'. btree_ok t' \<and> indexes_at self (map_of t') (idx(secret := i))) t"
    by (rule typed_table.wp_table_put[OF finalized_table[OF ok(2)] assms(2) tbl])
      (unfold indexes_at_def, intro conjI exI[of _ "tbl(secret \<mapsto> i)"], assumption, assumption, simp add: idx)
  then show ?thesis
    using get_finalized_eq[OF assms(1-3), of secret] assms(4)
    by (auto simp: update_highest_finalized_index_def seq_def ok wp_iff not_less)
qed

text \<open>
  What discovery should do: for each secret, ask for the tags of the next twenty indexes, return the
  logs found in the order of the indexes, and move the index of the secret to the last one with logs.
\<close>

definition window_tags :: "crypto \<Rightarrow> aztec_address \<Rightarrow> fr \<Rightarrow> u64 \<Rightarrow> fr list" where
  "window_tags C contract secret index =
     map (\<lambda>i. compute_siloed_tag C secret (index + of_nat (Suc i)) contract) [0..<20]"

definition discover ::
    "('s, 'v) log_service \<Rightarrow> aztec_address \<Rightarrow> fr \<Rightarrow> (fr \<Rightarrow> u64) \<Rightarrow> (tagged_log list \<times> (fr \<Rightarrow> u64)) result" where
  "discover self contract secret idx =
     bind_result (checked_add (idx secret) 20) (\<lambda>_.
     bind_result (get_private_logs_by_tags self (window_tags (ls_crypto self) contract secret (idx secret))) (\<lambda>logs.
       Inr (concat logs, idx(secret := (case highest_found logs of
         None \<Rightarrow> idx secret | Some i \<Rightarrow> idx secret + of_nat (Suc i))))))"

fun discover_all ::
    "('s, 'v) log_service \<Rightarrow> aztec_address \<Rightarrow> fr list \<Rightarrow> (fr \<Rightarrow> u64) \<Rightarrow> (tagged_log list \<times> (fr \<Rightarrow> u64)) result" where
  "discover_all self contract [] idx = Inr ([], idx)"
| "discover_all self contract (secret # secrets) idx =
     bind_result (discover self contract secret idx) (\<lambda>(logs, idx1).
     bind_result (discover_all self contract secrets idx1) (\<lambda>(more, idx2). Inr (logs @ more, idx2)))"

lemma length_get_private_logs:
  "get_private_logs_by_tags self tags = Inr logs \<Longrightarrow> length logs = length tags"
  by (auto simp: get_private_logs_by_tags_def bind_result_Inr_iff dest!: map_result_length split: if_splits)

lemma highest_found_less: "highest_found logs = Some i \<Longrightarrow> i < length logs"
proof -
  assume "highest_found logs = Some i"
  then have "i \<in> set (filter (\<lambda>i. logs ! i \<noteq> []) [0..<length logs])"
    by (auto simp: highest_found_def simp del: set_filter split: list.splits if_splits)
  then show ?thesis by simp
qed

lemma range_tags:
  assumes "unat index + 20 < 2 ^ 64"
  shows "map (\<lambda>i. compute_siloed_tag C secret (of_nat i) contract)
      [unat (index + 1)..<Suc (unat (index + 20))] = window_tags C contract secret index"
proof -
  have from_to: "unat (index + 1) = Suc (unat index)" "unat (index + 20) = unat index + 20"
    using assms by (simp_all add: unat_word_ariths)
  have "of_nat (i + Suc (unat index)) = index + of_nat (Suc i)" for i by (simp add: ac_simps)
  then show ?thesis
    unfolding from_to window_tags_def
    by (intro nth_equalityI) (simp_all add: ac_simps del: upt_Suc)
qed

text \<open>One secret.\<close>

lemma fetch_secret_refines:
  assumes ok: "recipient_store_ok in_memory_kv (ls_recipient_tagging_store self)" and "btree_ok t"
    and "indexes_at (ls_recipient_tagging_store self) (map_of t) idx"
  shows "case discover self contract secret idx of
      Inl e \<Rightarrow> fst (fetch_secret self contract secret t) = Inl e
    | Inr (logs, idx') \<Rightarrow> \<exists>t'. fetch_secret self contract secret t = (Inr logs, t') \<and> btree_ok t' \<and>
        indexes_at (ls_recipient_tagging_store self) (map_of t') idx'"
proof (cases "unat (idx secret) + 20 < 2 ^ 64")
  case False
  then obtain e where "checked_add (idx secret) 20 = Inl e" and e: "\<And>n. \<not> unat (idx secret) + unat n < 2 ^ 64 \<Longrightarrow>
      checked_add (idx secret) n = Inl e" by (simp add: checked_add_def)
  moreover have "fst (fetch_secret self contract secret t) = Inl e"
    using get_finalized_eq[OF assms, of secret] e[of 1] e[of 20] False
    by (cases "checked_add (idx secret) 1")
      (auto simp: fetch_secret_def seq_def lift_result_def UNFINALIZED_WINDOW_def checked_add_def split: if_splits)
  ultimately show ?thesis by (simp add: discover_def)
next
  case True
  let ?f = "idx secret" and ?tags = "window_tags (ls_crypto self) contract secret (idx secret)"
  have add: "checked_add ?f 1 = Inr (?f + 1)" "checked_add ?f 20 = Inr (?f + 20)"
    using True by (simp_all add: checked_add_def)
  have "length ?tags = 20" by (simp add: window_tags_def)
  then have chunk: "chunks MAX_RPC_LEN ?tags = [?tags]"
    by (intro chunks_short) (simp_all add: MAX_RPC_LEN_def)
  have fetch: "fetch_secret self contract secret t = load_log_chunks self secret (?f + 1) 0 [?tags] t"
    using get_finalized_eq[OF assms, of secret] add
    by (simp add: fetch_secret_def seq_def lift_result_def UNFINALIZED_WINDOW_def load_logs_for_range_def Let_def
        range_tags[OF True] chunk del: upt_Suc load_log_chunks.simps)
  show ?thesis
  proof (cases "get_private_logs_by_tags self ?tags")
    case (Inl e)
    then show ?thesis by (simp add: fetch discover_def add seq_def lift_result_def)
  next
    case (Inr logs)
    show ?thesis
    proof (cases "highest_found logs")
      case None
      then show ?thesis using Inr assms
        by (simp add: fetch discover_def add seq_def lift_result_def ret_def)
    next
      case (Some i)
      have "i < 20" using highest_found_less[OF Some] length_get_private_logs[OF Inr] \<open>length ?tags = 20\<close> by simp
      then have "?f < ?f + of_nat (Suc i)" using True
        by (simp add: word_less_nat_alt unat_word_ariths unat_of_nat take_bit_eq_mod)
      from update_finalized[OF assms this] obtain t' where
          "update_highest_finalized_index (ls_recipient_tagging_store self) secret (?f + of_nat (Suc i)) t = (Inr (), t')"
          "btree_ok t'" "indexes_at (ls_recipient_tagging_store self) (map_of t') (idx(secret := ?f + of_nat (Suc i)))"
        by blast
      moreover have "?f + 1 + of_nat i = ?f + of_nat (Suc i)" by simp
      ultimately show ?thesis using Inr Some
        by (simp add: fetch seq_def lift_result_def ret_def attempt_def discover_def add add.assoc del: of_nat_Suc)
    qed
  qed
qed

lemma fetch_secrets_refine:
  assumes ok: "recipient_store_ok in_memory_kv (ls_recipient_tagging_store self)" and "btree_ok t"
    and "indexes_at (ls_recipient_tagging_store self) (map_of t) idx"
  shows "case discover_all self contract secrets idx of
      Inl e \<Rightarrow> fst (map_op (fetch_secret self contract) secrets t) = Inl e
    | Inr (logs, idx') \<Rightarrow> \<exists>lss t'. map_op (fetch_secret self contract) secrets t = (Inr lss, t') \<and> concat lss = logs \<and>
        btree_ok t' \<and> indexes_at (ls_recipient_tagging_store self) (map_of t') idx'"
  using assms(2,3)
proof (induction secrets arbitrary: t idx)
  case Nil
  then show ?case by (simp add: ret_def)
next
  case (Cons secret secrets)
  note one = fetch_secret_refines[OF ok Cons.prems, of contract secret]
  show ?case
  proof (cases "discover self contract secret idx")
    case (Inl e)
    then show ?thesis using one by (cases "fetch_secret self contract secret t") (simp add: seq_def)
  next
    case (Inr r)
    obtain logs idx1 where r: "r = (logs, idx1)" by (cases r)
    with Inr one obtain t1 where t1: "fetch_secret self contract secret t = (Inr logs, t1)" "btree_ok t1"
      "indexes_at (ls_recipient_tagging_store self) (map_of t1) idx1" by auto
    note rest = Cons.IH[OF t1(2,3)]
    show ?thesis
    proof (cases "discover_all self contract secrets idx1")
      case (Inl e)
      then show ?thesis using rest Inr r t1(1)
        by (cases "map_op (fetch_secret self contract) secrets t1") (simp add: seq_def)
    next
      case all: (Inr q)
      obtain more idx2 where q: "q = (more, idx2)" by (cases q)
      with all rest show ?thesis using Inr r t1(1) by (auto simp: seq_def ret_def)
    qed
  qed
qed

lemma discover_mono:
  assumes "discover self contract secret idx = Inr (logs, idx')"
  shows "idx s \<le> idx' s"
proof -
  from assms obtain lss where lss: "get_private_logs_by_tags self (window_tags (ls_crypto self) contract secret (idx secret)) =
      Inr lss" and room: "unat (idx secret) + 20 < 2 ^ 64"
    and idx': "idx' = idx(secret := (case highest_found lss of None \<Rightarrow> idx secret | Some i \<Rightarrow> idx secret + of_nat (Suc i)))"
    by (auto simp: discover_def bind_result_Inr_iff checked_add_Inr_iff)
  have "i < 20" if "highest_found lss = Some i" for i
    using highest_found_less[OF that] length_get_private_logs[OF lss] by (simp add: window_tags_def)
  then show ?thesis
    using room idx' by (auto simp: word_le_nat_alt unat_word_ariths unat_of_nat take_bit_eq_mod split: option.split)
qed

lemma discover_all_mono: "discover_all self contract secrets idx = Inr (logs, idx') \<Longrightarrow> idx s \<le> idx' s"
proof (induction secrets arbitrary: idx logs)
  case (Cons secret secrets)
  then show ?case by (fastforce simp: bind_result_Inr_iff dest: discover_mono[where s = s] intro: order_trans)
qed simp

text \<open>
  C23. Log discovery follows the tags of each secret in turn: it asks for the twenty indexes after the
  highest one found so far, returns exactly the logs the node has for them, in the order of secrets and
  indexes, and moves the stored index of a secret to the last index with logs; an index never moves
  back, and the first error of the node or an overflow of an index ends the discovery.
\<close>

theorem log_discovery_correct:
  assumes "recipient_store_ok in_memory_kv (ls_recipient_tagging_store self)" and "btree_ok t"
    and "indexes_at (ls_recipient_tagging_store self) (map_of t) idx"
  shows "case discover_all self contract secrets idx of
      Inl e \<Rightarrow> fst (fetch_tagged_logs self contract secrets t) = Inl e
    | Inr (logs, idx') \<Rightarrow> \<exists>t'. fetch_tagged_logs self contract secrets t = (Inr logs, t') \<and> btree_ok t' \<and>
        indexes_at (ls_recipient_tagging_store self) (map_of t') idx' \<and> (\<forall>s. idx s \<le> idx' s)"
  using fetch_secrets_refine[OF assms, of contract secrets] discover_all_mono[of self contract secrets idx]
  by (auto simp: fetch_tagged_logs_def seq_def ret_def split: sum.splits prod.splits)

definition example_log_service :: "((u64 + unit) btree, u64 + unit) log_service" where
  "example_log_service =
     \<lparr>ls_node = \<lparr>ln_private_logs_by_tags = \<lambda>_. Inr (JsArray [JsArray [JsObject []]]),
        ln_public_logs_by_tags = \<lambda>_ _. Inr (JsArray [])\<rparr>,
      ls_crypto = example_crypto, ls_hex = plain_hex,
      ls_sender_store = \<lparr>se_kv = in_memory_kv, se_hex = plain_hex, se_raw = \<lparr>raw_of = \<lambda>_. Inr (), raw_view = \<lambda>_. []\<rparr>\<rparr>,
      ls_recipient_tagging_store = \<lparr>rt_kv = in_memory_kv, rt_hex = plain_hex, rt_index_json = left_json\<rparr>\<rparr>"

theorem log_discovery_correct_witness:
  "\<exists>log t'. fetch_tagged_logs example_log_service (AztecAddress 7) [5] in_memory_new = (Inr [log], t') \<and>
     tl_tag log = compute_siloed_tag example_crypto 5 1 (AztecAddress 7)"
proof -
  let ?store = "ls_recipient_tagging_store example_log_service"
  have "recipient_store_ok in_memory_kv ?store" "btree_ok (in_memory_new :: (u64 + unit) btree)"
    "indexes_at ?store (map_of in_memory_new) (\<lambda>_. 0)"
    by (simp_all add: recipient_store_ok_def example_log_service_def indexes_at_def table_at_def in_memory_new_def
        exI[of _ Map.empty])
  note found = log_discovery_correct[OF this, of "AztecAddress 7" "[5]"]
  let ?tags = "window_tags (ls_crypto example_log_service) (AztecAddress 7) 5 0"
  let ?log = "\<lparr>tl_tag = ?tags ! 0, tl_data = [], tl_block_number = 0, tl_is_public = False, tl_tx_hash = tx_hash_zero,
      tl_note_hashes = [], tl_first_nullifier = 0\<rparr>"
  have len: "length ?tags = 20" by (simp add: window_tags_def)
  then obtain tag rest where tags: "?tags = tag # rest" by (cases ?tags) auto
  have logs: "get_private_logs_by_tags example_log_service ?tags = Inr ([?log] # replicate 19 [])"
    using len unfolding tags
    by (simp add: get_private_logs_by_tags_def example_log_service_def parse_tag_logs_def parse_log_entry_def
        parse_or_def Let_def)
  then have "discover_all example_log_service (AztecAddress 7) [5] (\<lambda>_. 0) =
      Inr ([?log], (\<lambda>_. 0)(5 := (case highest_found ([?log] # replicate 19 []) of
         None \<Rightarrow> 0 | Some i \<Rightarrow> 0 + of_nat (Suc i))))"
    by (simp add: discover_def checked_add_def concat_replicate_trivial)
  moreover have "?tags ! 0 = compute_siloed_tag example_crypto 5 1 (AztecAddress 7)"
    by (simp add: window_tags_def example_log_service_def)
  ultimately show ?thesis using found by auto
qed

subsection \<open>Events are stored once proven\<close>

text \<open>The transaction effect proves the event: its block is covered by the anchor and its nullifiers,
  where they are listed, contain the siloed commitment.\<close>

definition event_proven :: "hex_crate \<Rightarrow> u64 \<Rightarrow> json \<Rightarrow> fr \<Rightarrow> bool" where
  "event_proven H anchor tx_effect siloed \<longleftrightarrow>
     (effect_block_number tx_effect \<le> anchor \<or> anchor = 0) \<and>
     (\<forall>ns. effect_nullifiers tx_effect = Some ns \<longrightarrow> Some (fr_display H siloed) \<in> js_str ` set ns)"

lemma nullifier_position_None: "nullifier_position hex ns = None \<longleftrightarrow> Some hex \<notin> js_str ` set ns"
  by (induction ns) auto

lemma nullifier_position_Some: "nullifier_position hex ns = Some i \<Longrightarrow> i < length ns \<and> js_str (ns ! i) = Some hex"
  by (induction ns arbitrary: i) (auto split: if_splits)

definition event_service_ok :: "('s, 'v) kv_store \<Rightarrow> ('s, 'v) event_service \<Rightarrow> bool" where
  "event_service_ok K self \<longleftrightarrow> es_kv (ve_private_event_store self) = K \<and> event_store_ok (ve_private_event_store self)"


definition example_event_service :: "(event_value btree, event_value) event_service" where
  "example_event_service =
     \<lparr>ve_tx_effect = \<lambda>_. Inr (Some (JsObject [(''l2BlockNumber'', JsNumber ''3'' (Some 3))])), ve_crypto = example_crypto,
      ve_hex = plain_hex, ve_private_event_store = example_event_store,
      ve_anchor_block_store = \<lparr>an_kv = in_memory_kv, an_json = \<lparr>to_vec = \<lambda>_. Inr [], from_slice = \<lambda>_. Inl (Json ''header'')\<rparr>\<rparr>\<rparr>"


text \<open>
  The commitment is siloed with the separator zero, not with the separator of nullifiers: the hash that
  is looked up in the nullifiers of the transaction has another preimage than the nullifier itself.
\<close>

lemma event_commitment_not_siloed_as_nullifier:
  "\<exists>xs ys. silo_event_commitment C a x = poseidon2_hash C xs \<and> silo_nullifier C a x = poseidon2_hash C ys \<and> xs \<noteq> ys"
proof -
  have "fr_from_u64 0 \<noteq> fr_from_u64 (ucast SILOED_NULLIFIER)"
    by (simp add: fr_from_u64_def fr_of_nat_eq_iff SILOED_NULLIFIER_def fr_modulus_def)
  then show ?thesis
    by (simp add: silo_event_commitment_def silo_nullifier_def poseidon2_hash_with_separator_def
        poseidon2_hash_with_separator_field_def) blast
qed

end
