(* ===== verification/Utility_Oracle.thy ===== *)
theory Utility_Oracle
  imports Oracle_Calls Log_Service
begin

text \<open>
  The oracle of utility functions, \<open>crates/pxe/src/execution/utility_oracle.rs\<close>. It reads the same stores
  as the private oracle and records no effects; through it a contract finds its logs, validates notes and
  events, and keeps its capsules. Several handlers repeat the code of the private oracle and are defined
  by the same functions. AES decryption is a parameter. Fresh random fields come from a supply, so the
  state is a store with the number of fields drawn. Log lines are left out.
\<close>

subsection \<open>State\<close>

record utility_oracle =
  uo_block_header :: json
  uo_contract_address :: aztec_address
  uo_scopes :: "aztec_address list"
  uo_auth_witnesses :: "(fr \<times> fr list) list"

text \<open>\<open>ue_oracle\<close> has the stores shared with the private oracle; \<open>ue_logs\<close> and \<open>ue_events\<close> are the services
  the handlers create from the node and the stores.\<close>

record ('s, 'v) utility_env =
  ue_oracle :: "('s, 'v) oracle_env"
  ue_logs :: "('s, 'v) log_service"
  ue_events :: "('s, 'v) event_service"
  ue_low_nullifier_witness :: "u64 \<Rightarrow> fr \<Rightarrow> json option result"
  ue_aes128_cbc_decrypt :: "u8 list \<Rightarrow> u8 list \<Rightarrow> u8 list \<Rightarrow> u8 list option"

definition utility_new :: "json \<Rightarrow> aztec_address \<Rightarrow> aztec_address list \<Rightarrow> utility_oracle" where
  "utility_new block_header contract_address scopes =
     \<lparr>uo_block_header = block_header, uo_contract_address = contract_address, uo_scopes = scopes,
      uo_auth_witnesses = []\<rparr>"

definition utility_set_auth_witnesses :: "(fr \<times> fr list) list \<Rightarrow> utility_oracle \<Rightarrow> utility_oracle" where
  "utility_set_auth_witnesses witnesses self = self\<lparr>uo_auth_witnesses := witnesses\<rparr>"

subsection \<open>The block header\<close>

definition header_fr_at :: "hex_crate \<Rightarrow> json \<Rightarrow> string list \<Rightarrow> fr" where
  "header_fr_at H val path =
     (case Private_Oracle.js_pointer path val of
        Some (JsString s) \<Rightarrow> unwrap_or 0 (result_ok (fr_from_hex H s))
      | Some (JsNumber _ n) \<Rightarrow> fr_from_u64 (unwrap_or 0 n)
      | _ \<Rightarrow> 0)"

definition u64_at :: "json \<Rightarrow> string list \<Rightarrow> u64" where
  "u64_at val path =
     (case Private_Oracle.js_pointer path val of
        Some (JsNumber _ n) \<Rightarrow> unwrap_or 0 n
      | Some (JsString s) \<Rightarrow>
          (case strip_prefix ''0x'' s of
             Some hex \<Rightarrow> unwrap_or 0 (u64_from_str_radix 16 hex)
           | None \<Rightarrow> unwrap_or 0 (u64_parse s))
      | _ \<Rightarrow> 0)"

fun hex_digits_u128 :: "nat \<Rightarrow> string \<Rightarrow> nat option" where
  "hex_digits_u128 acc [] = Some acc"
| "hex_digits_u128 acc (c # cs) =
     (case char_digit 16 c of
        None \<Rightarrow> None
      | Some d \<Rightarrow> if acc * 16 + d < 2 ^ 128 then hex_digits_u128 (acc * 16 + d) cs else None)"

definition u128_from_hex :: "string \<Rightarrow> 128 word option" where
  "u128_from_hex s =
     (let ds = (case s of c # cs \<Rightarrow> if c = CHR ''+'' then cs else s | [] \<Rightarrow> [])
      in if ds = [] then None else map_option of_nat (hex_digits_u128 0 ds))"

definition u128_at :: "json \<Rightarrow> string list \<Rightarrow> 128 word" where
  "u128_at val path =
     (case Private_Oracle.js_pointer path val of
        Some (JsNumber _ n) \<Rightarrow> ucast (unwrap_or 0 n)
      | Some (JsString s) \<Rightarrow>
          (case strip_prefix ''0x'' s of
             Some hex \<Rightarrow> unwrap_or 0 (u128_from_hex hex)
           | None \<Rightarrow> unwrap_or 0 (u128_parse s))
      | _ \<Rightarrow> 0)"

definition eth_at :: "hex_crate \<Rightarrow> json \<Rightarrow> string list \<Rightarrow> eth_address" where
  "eth_at H val path =
     (case Option.bind (Private_Oracle.js_pointer path val) js_str of
        Some s \<Rightarrow> EthAddress (drop 12 (fr_to_be_bytes (unwrap_or 0 (result_ok (fr_from_hex H s)))))
      | None \<Rightarrow> eth_address_default)"

definition snapshot_at :: "hex_crate \<Rightarrow> json \<Rightarrow> string list \<Rightarrow> append_only_tree_snapshot" where
  "snapshot_at H val path =
     \<lparr>snap_root = header_fr_at H val (path @ [''root'']),
      snap_next_available_leaf_index = ucast (u64_at val (path @ [''nextAvailableLeafIndex'']))\<rparr>"

definition parse_block_header :: "hex_crate \<Rightarrow> json \<Rightarrow> block_header" where
  "parse_block_header H h =
     \<lparr>bh_last_archive = snapshot_at H h [''lastArchive''],
      bh_state = \<lparr>sr_l1_to_l2_message_tree = snapshot_at H h [''state'', ''l1ToL2MessageTree''],
        sr_partial = \<lparr>ps_note_hash_tree = snapshot_at H h [''state'', ''partial'', ''noteHashTree''],
          ps_nullifier_tree = snapshot_at H h [''state'', ''partial'', ''nullifierTree''],
          ps_public_data_tree = snapshot_at H h [''state'', ''partial'', ''publicDataTree'']\<rparr>\<rparr>,
      bh_sponge_blob_hash = header_fr_at H h [''spongeBlobHash''],
      bh_global_variables =
        \<lparr>gv_chain_id = header_fr_at H h [''globalVariables'', ''chainId''],
         gv_version = header_fr_at H h [''globalVariables'', ''version''],
         gv_block_number = u64_at h [''globalVariables'', ''blockNumber''],
         gv_slot_number = u64_at h [''globalVariables'', ''slotNumber''],
         gv_timestamp = u64_at h [''globalVariables'', ''timestamp''],
         gv_coinbase = eth_at H h [''globalVariables'', ''coinbase''],
         gv_fee_recipient = AztecAddress (header_fr_at H h [''globalVariables'', ''feeRecipient'']),
         gv_gas_fees = \<lparr>fee_per_da_gas = u128_at h [''globalVariables'', ''gasFees'', ''feePerDaGas''],
           fee_per_l2_gas = u128_at h [''globalVariables'', ''gasFees'', ''feePerL2Gas'']\<rparr>\<rparr>,
      bh_total_fees = header_fr_at H h [''totalFees''],
      bh_total_mana_used = header_fr_at H h [''totalManaUsed'']\<rparr>"

definition utility_get_block_header :: "('s, 'v) utility_env \<Rightarrow> utility_oracle \<Rightarrow> fr list list" where
  "utility_get_block_header env self =
     map (\<lambda>f. [f]) (block_header_fields (parse_block_header (oe_hex (ue_oracle env)) (uo_block_header self)))"

definition get_utility_context :: "('s, 'v) utility_env \<Rightarrow> utility_oracle \<Rightarrow> fr list list" where
  "get_utility_context env self =
     utility_get_block_header env self @ [[address_field (uo_contract_address self)]]"

subsection \<open>Handlers shared with the private oracle\<close>

definition utility_get_public_storage_at :: "('s, 'v) utility_env \<Rightarrow> fr list list \<Rightarrow> fr list list result" where
  "utility_get_public_storage_at env = get_public_storage_at (ue_oracle env)"

definition utility_get_contract_instance :: "('s, 'v) utility_env \<Rightarrow> fr list list \<Rightarrow> ('s, fr list list) op" where
  "utility_get_contract_instance env = get_contract_instance (ue_oracle env)"

definition utility_get_public_data_witness :: "('s, 'v) utility_env \<Rightarrow> fr list list \<Rightarrow> fr list list result" where
  "utility_get_public_data_witness env = get_public_data_witness (ue_oracle env)"

definition utility_get_public_keys_and_partial_address ::
    "('s, 'v) utility_env \<Rightarrow> fr list list \<Rightarrow> ('s, fr list list) op" where
  "utility_get_public_keys_and_partial_address env = get_public_keys_and_partial_address (ue_oracle env)"

subsection \<open>Notes, nullifiers and keys\<close>

definition utility_get_notes ::
    "('s, 'v) utility_env \<Rightarrow> utility_oracle \<Rightarrow> fr list list \<Rightarrow> ('s, fr list list) op" where
  "utility_get_notes env self args =
     (let owner = (if arg_or_zero args 0 \<noteq> 0 then Some (AztecAddress (arg_or_zero args 1)) else None) in
      seq (lift_result (arg_required ''getNotes: missing storage_slot'' args 2)) (\<lambda>storage_slot.
      let limit = fr_to_usize (arg_or_zero args 13);
          offset = fr_to_usize (arg_or_zero args 14) in
      seq (lift_result (note_status_from_field (arg_or_zero args 15))) (\<lambda>status.
      let max_notes = fr_to_usize (arg_or_zero args 16);
          packed_hinted_note_length = fr_to_usize (arg_or_zero args 17) in
      seq (get_notes (oe_note_store (ue_oracle env))
             (note_filter_default\<lparr>nf_contract_address := Some (uo_contract_address self),
                nf_storage_slot := Some storage_slot, nf_owner := owner, nf_status := status,
                nf_scopes := uo_scopes self\<rparr>)) (\<lambda>found.
      seq (lift_result (select_notes found (parse_select_clauses args))) (\<lambda>selected.
      seq (lift_result (map_result pack_hinted_note (page offset limit max_notes selected))) (\<lambda>packed.
        lift_result (pack_bounded_vec_of_arrays packed max_notes packed_hinted_note_length)))))))"

definition utility_check_nullifier_exists ::
    "('s, 'v) utility_env \<Rightarrow> utility_oracle \<Rightarrow> fr list list \<Rightarrow> fr list list result" where
  "utility_check_nullifier_exists env self args =
     bind_result (arg_required ''missing nullifier'' args 0) (\<lambda>inner_nullifier.
     bind_result (node_nullifier_witness (oe_node (ue_oracle env)) 0
         (silo_nullifier (oe_crypto (ue_oracle env)) (uo_contract_address self) inner_nullifier)) (\<lambda>witness.
       Inr [[fr_from_bool (witness \<noteq> None)]]))"

definition parse_field_or_number :: "hex_crate \<Rightarrow> json option \<Rightarrow> fr" where
  "parse_field_or_number H val =
     unwrap_or 0 (Option.bind val (\<lambda>v.
       case js_str v of
         Some s \<Rightarrow> result_ok (parse_field_string H s)
       | None \<Rightarrow> map_option fr_from_u64 (js_u64 v)))"

definition hex_or_zero :: "hex_crate \<Rightarrow> json option \<Rightarrow> fr" where
  "hex_or_zero H val = unwrap_or 0 (Option.bind (Option.bind val js_str) (\<lambda>s. result_ok (fr_from_hex H s)))"

text \<open>The five slots of a nullifier witness; the two handlers that return one read it alike.\<close>

definition nullifier_witness_slots :: "('s, 'v) oracle_env \<Rightarrow> json option \<Rightarrow> fr list list" where
  "nullifier_witness_slots env witness =
     (case witness of
        None \<Rightarrow> [[0], [0], [0], [0], replicate 42 0]
      | Some json \<Rightarrow>
          let H = oe_hex env;
              preimage = unwrap_or json (js_field ''leafPreimage'' json);
              leaf = unwrap_or preimage (js_field ''leaf'' preimage);
              path = unwrap_or (replicate 42 0) (Option.bind (Option.bind (js_field ''siblingPath'' json) js_str)
                (\<lambda>s. result_ok (decode_base64_sibling_path (oe_base64 env) s)))
          in [[parse_field_or_number H (js_field ''index'' json)],
              [hex_or_zero H (js_field ''nullifier'' leaf)],
              [hex_or_zero H (or_else_opt (js_field ''nextKey'' preimage) (js_field ''nextNullifier'' preimage))],
              [parse_field_or_number H (js_field ''nextIndex'' preimage)],
              resize 42 0 path])"

definition utility_get_nullifier_membership_witness ::
    "('s, 'v) utility_env \<Rightarrow> fr list list \<Rightarrow> fr list list result" where
  "utility_get_nullifier_membership_witness env args =
     bind_result (arg_required ''getNullifierMembershipWitness: missing nullifier'' args 1) (\<lambda>nullifier.
     bind_result (node_nullifier_witness (oe_node (ue_oracle env)) 0 nullifier) (\<lambda>witness.
       Inr (nullifier_witness_slots (ue_oracle env) witness)))"

definition get_low_nullifier_membership_witness ::
    "('s, 'v) utility_env \<Rightarrow> fr list list \<Rightarrow> fr list list result" where
  "get_low_nullifier_membership_witness env args =
     bind_result (arg_required ''getLowNullifierMembershipWitness: missing nullifier'' args 1) (\<lambda>nullifier.
     bind_result (ue_low_nullifier_witness env 0 nullifier) (\<lambda>witness.
       Inr (nullifier_witness_slots (ue_oracle env) witness)))"

definition utility_get_key_validation_request ::
    "('s, 'v) utility_env \<Rightarrow> utility_oracle \<Rightarrow> fr list list \<Rightarrow> ('s, fr list list) op" where
  "utility_get_key_validation_request env self args =
     seq (lift_result (arg_required ''missing pk_m_hash'' args 0)) (\<lambda>pk_m_hash.
     seq (key_in_scope (ue_oracle env) pk_m_hash (uo_scopes self)) (\<lambda>allowed.
     if \<not> allowed then fail (InvalidData ''Key validation request denied'')
     else
       seq (get_key_validation_request (oe_key_store (ue_oracle env)) pk_m_hash (uo_contract_address self)) (\<lambda>found.
         case found of
           Some (pk_m, sk_app) \<Rightarrow>
             ret [[point_x pk_m], [point_y pk_m], [fr_from_bool (point_is_infinite pk_m)], [sk_app]]
         | None \<Rightarrow> ret [[0], [0], [0], [0]])))"

definition get_shared_secret :: "('s, 'v) utility_env \<Rightarrow> fr list list \<Rightarrow> ('s, fr list list) op" where
  "get_shared_secret env args =
     (let C = oe_crypto (ue_oracle env); V = oe_curve (ue_oracle env) in
      seq (lift_result (arg_required ''getSharedSecret: missing recipient'' args 0)) (\<lambda>recipient.
      seq (lift_result (arg_required ''getSharedSecret: missing eph_pk.x'' args 1)) (\<lambda>eph_pk_x.
      seq (lift_result (arg_required ''getSharedSecret: missing eph_pk.y'' args 2)) (\<lambda>eph_pk_y.
      if (case arg args 3 of Some f \<Rightarrow> fr_to_usize f \<noteq> 0 | None \<Rightarrow> False)
      then ret [[0], [0], [fr_from_bool True]]
      else
        seq (address_get (oe_address_store (ue_oracle env)) (AztecAddress recipient)) (\<lambda>found.
        seq (lift_result (ok_or (InvalidData ''getSharedSecret: recipient not in address store'') found)) (\<lambda>complete.
        let pk_hash = public_keys_hash C (co_public_keys complete) in
        seq (get_master_incoming_viewing_secret_key (oe_key_store (ue_oracle env)) pk_hash) (\<lambda>found_key.
        seq (lift_result (ok_or (InvalidData ''getSharedSecret: ivsk not found'') found_key)) (\<lambda>ivsk.
        let preaddress = poseidon2_hash_with_separator C [pk_hash, co_partial_address complete] CONTRACT_ADDRESS_V1;
            shared = scalar_mul V (compute_address_secret V preaddress ivsk)
              \<lparr>point_x = eph_pk_x, point_y = eph_pk_y, point_is_infinite = False\<rparr>
        in ret [[point_x shared], [point_y shared], [fr_from_bool (point_is_infinite shared)]]))))))))"

definition byte_of :: "fr \<Rightarrow> u8" where
  "byte_of f = ucast (fr_to_usize f)"

text \<open>\<open>try_into().unwrap_or([0; 16])\<close> of the first sixteen bytes.\<close>

definition sixteen_bytes :: "fr list \<Rightarrow> u8 list" where
  "sixteen_bytes fs = (if length fs < 16 then replicate 16 0 else map byte_of (take 16 fs))"

definition aes128_decrypt :: "('s, 'v) utility_env \<Rightarrow> fr list list \<Rightarrow> fr list list result" where
  "aes128_decrypt env args =
     (let ct_storage = get_arg args 0;
          ct_len = (case arg args 1 of Some f \<Rightarrow> unat (fr_to_usize f) | None \<Rightarrow> 0);
          ciphertext = map byte_of (take ct_len ct_storage)
      in case ue_aes128_cbc_decrypt env (sixteen_bytes (get_arg args 3)) (sixteen_bytes (get_arg args 2)) ciphertext of
           None \<Rightarrow> Inl (InvalidData ''aes128 decrypt error'')
         | Some plaintext \<Rightarrow>
             Inr [resize (length ct_storage) 0 (map (\<lambda>b. fr_from_u64 (ucast b)) plaintext),
                  [fr_from_u64 (of_nat (length plaintext))]])"

definition utility_get_auth_witness :: "utility_oracle \<Rightarrow> fr list list \<Rightarrow> fr list list result" where
  "utility_get_auth_witness self args =
     bind_result (arg_required ''missing message hash'' args 0) (\<lambda>message_hash.
       case find (\<lambda>(hash, _). hash = message_hash) (uo_auth_witnesses self) of
         Some (_, witness) \<Rightarrow> Inr [witness]
       | None \<Rightarrow> Inl (InvalidData ''Unknown auth witness for message hash''))"

subsection \<open>Capsules\<close>

definition ensure_contract_db_access :: "utility_oracle \<Rightarrow> aztec_address \<Rightarrow> unit result" where
  "ensure_contract_db_access self contract_address =
     (if contract_address \<noteq> uo_contract_address self
      then Inl (InvalidData ''contract is not allowed to access the PXE DB'') else Inr ())"

definition utility_store_capsule ::
    "('s, 'v) utility_env \<Rightarrow> utility_oracle \<Rightarrow> fr list list \<Rightarrow> ('s, fr list list) op" where
  "utility_store_capsule env self args =
     seq (lift_result (arg_required ''storeCapsule: missing contract address'' args 0)) (\<lambda>contract.
     seq (lift_result (arg_required ''storeCapsule: missing slot'' args 1)) (\<lambda>slot.
     seq (lift_result (ensure_contract_db_access self (AztecAddress contract))) (\<lambda>_.
     seq (store_capsule (oe_capsule_store (ue_oracle env)) (AztecAddress contract) slot (get_arg args 2)) (\<lambda>_.
       ret []))))"

definition utility_load_capsule ::
    "('s, 'v) utility_env \<Rightarrow> utility_oracle \<Rightarrow> fr list list \<Rightarrow> ('s, fr list list) op" where
  "utility_load_capsule env self args =
     seq (lift_result (arg_required ''loadCapsule: missing contract address'' args 0)) (\<lambda>contract.
     seq (lift_result (arg_required ''loadCapsule: missing slot'' args 1)) (\<lambda>slot.
     seq (lift_result (ensure_contract_db_access self (AztecAddress contract))) (\<lambda>_.
     seq (load_capsule (oe_capsule_store (ue_oracle env)) (AztecAddress contract) slot) (\<lambda>maybe_values.
       ret [[fr_from_bool (maybe_values \<noteq> None)],
            resize (unat (fr_to_usize (arg_or_zero args 2))) 0 (unwrap_or [] maybe_values)]))))"

definition utility_delete_capsule ::
    "('s, 'v) utility_env \<Rightarrow> utility_oracle \<Rightarrow> fr list list \<Rightarrow> ('s, fr list list) op" where
  "utility_delete_capsule env self args =
     seq (lift_result (arg_required ''deleteCapsule: missing contract address'' args 0)) (\<lambda>contract.
     seq (lift_result (arg_required ''deleteCapsule: missing slot'' args 1)) (\<lambda>slot.
     seq (lift_result (ensure_contract_db_access self (AztecAddress contract))) (\<lambda>_.
     seq (delete_capsule (oe_capsule_store (ue_oracle env)) (AztecAddress contract) slot) (\<lambda>_. ret []))))"

definition utility_copy_capsule ::
    "('s, 'v) utility_env \<Rightarrow> utility_oracle \<Rightarrow> fr list list \<Rightarrow> ('s, fr list list) op" where
  "utility_copy_capsule env self args =
     seq (lift_result (arg_required ''copyCapsule: missing contract address'' args 0)) (\<lambda>contract.
     seq (lift_result (arg_required ''copyCapsule: missing src slot'' args 1)) (\<lambda>src_slot.
     seq (lift_result (arg_required ''copyCapsule: missing dst slot'' args 2)) (\<lambda>dst_slot.
     seq (lift_result (ensure_contract_db_access self (AztecAddress contract))) (\<lambda>_.
     seq (copy_capsule (oe_capsule_store (ue_oracle env)) (AztecAddress contract) src_slot dst_slot
            (fr_to_usize (arg_or_zero args 3))) (\<lambda>_. ret [])))))"

subsection \<open>Logs and the requests a contract leaves in its capsules\<close>

definition MAX_NOTE_PACKED_LEN :: nat where "MAX_NOTE_PACKED_LEN = 8"
definition MAX_EVENT_SERIALIZED_LEN :: nat where "MAX_EVENT_SERIALIZED_LEN = 10"
definition PRIVATE_LOG_CIPHERTEXT_LEN :: nat where "PRIVATE_LOG_CIPHERTEXT_LEN = 15"

lemmas request_sizes =
  MAX_NOTE_PACKED_LEN_def MAX_EVENT_SERIALIZED_LEN_def PRIVATE_LOG_CIPHERTEXT_LEN_def
  MAX_NOTE_HASHES_PER_TX_def PRIVATE_LOG_SIZE_IN_FIELDS_def

record parsed_note_validation_request =
  nv_contract_address :: aztec_address
  nv_owner :: aztec_address
  nv_storage_slot :: fr
  nv_randomness :: fr
  nv_note_nonce :: fr
  nv_content :: "fr list"
  nv_note_hash :: fr
  nv_nullifier :: fr
  nv_tx_hash :: tx_hash
  nv_recipient :: aztec_address

record parsed_event_validation_request =
  xv_contract_address :: aztec_address
  xv_event_type_id :: event_selector
  xv_randomness :: fr
  xv_serialized_event :: "fr list"
  xv_event_commitment :: fr
  xv_tx_hash :: tx_hash
  xv_recipient :: aztec_address

definition tx_hash_from_field :: "fr \<Rightarrow> tx_hash" where
  "tx_hash_from_field f = TxHash (fr_to_be_bytes f)"

definition tx_hash_to_field :: "hex_crate \<Rightarrow> tx_hash \<Rightarrow> fr result" where
  "tx_hash_to_field H h = fr_from_hex H (tx_hash_display H h)"

definition parse_log_retrieval_request :: "fr list \<Rightarrow> log_retrieval_request result" where
  "parse_log_retrieval_request fs =
     (if length fs < 2 then Inl (InvalidData ''log retrieval request too short'')
      else Inr \<lparr>lr_is_public = True, lr_tag = fs ! 1, lr_contract_address = Some (AztecAddress (fs ! 0))\<rparr>)"

definition serialize_bounded_vec :: "fr list \<Rightarrow> nat \<Rightarrow> fr list result" where
  "serialize_bounded_vec vals max_length =
     (if length vals > max_length then Inl (InvalidData ''bounded vec overflow'')
      else Inr (resize max_length 0 vals @ [fr_from_u64 (of_nat (length vals))]))"

definition serialize_log_retrieval_option :: "hex_crate \<Rightarrow> tagged_log option \<Rightarrow> fr list result" where
  "serialize_log_retrieval_option H log =
     (let payload_len = max MAX_NOTE_PACKED_LEN PRIVATE_LOG_CIPHERTEXT_LEN in
      case log of
        Some l \<Rightarrow>
          bind_result (serialize_bounded_vec (tl (tl_data l)) payload_len) (\<lambda>payload.
          bind_result (tx_hash_to_field H (tl_tx_hash l)) (\<lambda>hash.
          bind_result (serialize_bounded_vec (tl_note_hashes l) MAX_NOTE_HASHES_PER_TX) (\<lambda>hashes.
            Inr ([fr_from_bool True] @ payload @ [hash] @ hashes @ [tl_first_nullifier l]))))
      | None \<Rightarrow>
          Inr ([0] @ replicate (payload_len + 1) 0 @ [0] @ replicate (MAX_NOTE_HASHES_PER_TX + 1) 0 @ [0]))"

definition serialize_pending_tagged_log :: "hex_crate \<Rightarrow> tagged_log \<Rightarrow> aztec_address \<Rightarrow> fr list result" where
  "serialize_pending_tagged_log H log recipient =
     bind_result (serialize_bounded_vec (tl_data log) PRIVATE_LOG_SIZE_IN_FIELDS) (\<lambda>data.
     bind_result (tx_hash_to_field H (tl_tx_hash log)) (\<lambda>hash.
     bind_result (serialize_bounded_vec (tl_note_hashes log) MAX_NOTE_HASHES_PER_TX) (\<lambda>hashes.
       Inr (data @ [hash] @ hashes @ [tl_first_nullifier log, address_field recipient]))))"

definition parse_note_validation_request :: "fr list \<Rightarrow> parsed_note_validation_request result" where
  "parse_note_validation_request fs =
     (if length fs < 5 + MAX_NOTE_PACKED_LEN + 5 then Inl (InvalidData ''note validation request too short'')
      else
        let content_len = min (unat (fr_to_usize (fs ! (5 + MAX_NOTE_PACKED_LEN)))) MAX_NOTE_PACKED_LEN
        in Inr \<lparr>nv_contract_address = AztecAddress (fs ! 0), nv_owner = AztecAddress (fs ! 1),
             nv_storage_slot = fs ! 2, nv_randomness = fs ! 3, nv_note_nonce = fs ! 4,
             nv_content = take content_len (take MAX_NOTE_PACKED_LEN (drop 5 fs)),
             nv_note_hash = fs ! (5 + MAX_NOTE_PACKED_LEN + 1),
             nv_nullifier = fs ! (5 + MAX_NOTE_PACKED_LEN + 2),
             nv_tx_hash = tx_hash_from_field (fs ! (5 + MAX_NOTE_PACKED_LEN + 3)),
             nv_recipient = AztecAddress (fs ! (5 + MAX_NOTE_PACKED_LEN + 4))\<rparr>)"

definition parse_event_validation_request :: "fr list \<Rightarrow> parsed_event_validation_request result" where
  "parse_event_validation_request fs =
     (if length fs < 3 + MAX_EVENT_SERIALIZED_LEN + 4 then Inl (InvalidData ''event validation request too short'')
      else
        let event_len = min (unat (fr_to_usize (fs ! (3 + MAX_EVENT_SERIALIZED_LEN)))) MAX_EVENT_SERIALIZED_LEN
        in Inr \<lparr>xv_contract_address = AztecAddress (fs ! 0), xv_event_type_id = EventSelector (fs ! 1),
             xv_randomness = fs ! 2,
             xv_serialized_event = take event_len (take MAX_EVENT_SERIALIZED_LEN (drop 3 fs)),
             xv_event_commitment = fs ! (3 + MAX_EVENT_SERIALIZED_LEN + 1),
             xv_tx_hash = tx_hash_from_field (fs ! (3 + MAX_EVENT_SERIALIZED_LEN + 2)),
             xv_recipient = AztecAddress (fs ! (3 + MAX_EVENT_SERIALIZED_LEN + 3))\<rparr>)"

definition push_missing :: "'a list \<Rightarrow> 'a \<Rightarrow> 'a list" where
  "push_missing xs x = (if x \<in> set xs then xs else xs @ [x])"

definition tagging_secrets_for_recipient ::
    "('s, 'v) utility_env \<Rightarrow> utility_oracle \<Rightarrow> aztec_address \<Rightarrow> ('s, fr list) op" where
  "tagging_secrets_for_recipient env self recipient =
     (let C = oe_crypto (ue_oracle env) in
      seq (address_get (oe_address_store (ue_oracle env)) recipient) (\<lambda>found.
      case found of
        None \<Rightarrow> ret []
      | Some complete_address \<Rightarrow>
          seq (get_master_incoming_viewing_secret_key (oe_key_store (ue_oracle env))
                 (public_keys_hash C (co_public_keys complete_address))) (\<lambda>found_key.
          case found_key of
            None \<Rightarrow> ret []
          | Some ivsk \<Rightarrow>
              seq (sender_get_all (ls_sender_store (ue_logs env))) (\<lambda>registered.
              seq (address_get_all (oe_address_store (ue_oracle env))) (\<lambda>accounts.
              let senders = push_missing (foldl push_missing registered (map co_address accounts)) recipient in
              lift_result (map_result (\<lambda>sender.
                compute_directional_tagging_secret C (oe_curve (ue_oracle env)) complete_address ivsk sender
                  (uo_contract_address self) recipient) senders))))))"

definition fetch_scope_logs ::
    "('s, 'v) utility_env \<Rightarrow> utility_oracle \<Rightarrow> fr \<Rightarrow> aztec_address \<Rightarrow> ('s, unit) op" where
  "fetch_scope_logs env self base_slot scope =
     seq (tagging_secrets_for_recipient env self scope) (\<lambda>secrets.
     if secrets = [] then ret ()
     else
       seq (fetch_tagged_logs (ue_logs env) (uo_contract_address self) secrets) (\<lambda>logs.
       if logs = [] then ret ()
       else
         seq (lift_result (map_result (\<lambda>log. serialize_pending_tagged_log (oe_hex (ue_oracle env)) log scope) logs))
           (append_to_capsule_array (oe_capsule_store (ue_oracle env)) (uo_contract_address self) base_slot)))"

definition utility_fetch_tagged_logs ::
    "('s, 'v) utility_env \<Rightarrow> utility_oracle \<Rightarrow> fr list list \<Rightarrow> ('s, fr list list) op" where
  "utility_fetch_tagged_logs env self args =
     seq (lift_result (arg_required ''fetchTaggedLogs: missing capsule array base slot'' args 0)) (\<lambda>base_slot.
     seq (for_each (fetch_scope_logs env self base_slot) (uo_scopes self)) (\<lambda>_. ret []))"

definition utility_bulk_retrieve_logs ::
    "('s, 'v) utility_env \<Rightarrow> utility_oracle \<Rightarrow> fr list list \<Rightarrow> ('s, fr list list) op" where
  "utility_bulk_retrieve_logs env self args =
     (let capsules = oe_capsule_store (ue_oracle env) in
      seq (lift_result (arg_required ''bulkRetrieveLogs: missing contract address'' args 0)) (\<lambda>contract.
      seq (lift_result (arg_required ''bulkRetrieveLogs: missing requests slot'' args 1)) (\<lambda>requests_slot.
      seq (lift_result (arg_required ''bulkRetrieveLogs: missing responses slot'' args 2)) (\<lambda>responses_slot.
      seq (lift_result (ensure_contract_db_access self (AztecAddress contract))) (\<lambda>_.
      seq (read_capsule_array capsules (AztecAddress contract) requests_slot) (\<lambda>entries.
      seq (lift_result (map_result parse_log_retrieval_request entries)) (\<lambda>requests.
      seq (lift_result (bulk_retrieve_logs (ue_logs env) requests)) (\<lambda>maybe_responses.
      seq (set_capsule_array capsules (AztecAddress contract) requests_slot []) (\<lambda>_.
      seq (lift_result (map_result (\<lambda>logs. serialize_log_retrieval_option (oe_hex (ue_oracle env))
             (case logs of [] \<Rightarrow> None | l # _ \<Rightarrow> Some l)) maybe_responses)) (\<lambda>serialized.
      seq (set_capsule_array capsules (AztecAddress contract) responses_slot serialized) (\<lambda>_. ret [])))))))))))"

definition requested_note :: "crypto \<Rightarrow> parsed_note_validation_request \<Rightarrow> stored_note" where
  "requested_note C request =
     \<lparr>sn_contract_address = nv_contract_address request, sn_owner = nv_owner request,
      sn_storage_slot = nv_storage_slot request, sn_randomness = nv_randomness request,
      sn_note_nonce = nv_note_nonce request, sn_note_hash = nv_note_hash request,
      sn_siloed_nullifier = silo_nullifier C (nv_contract_address request) (nv_nullifier request),
      sn_note_data = nv_content request, sn_nullified = False, sn_is_pending = False,
      sn_nullification_block_number = None, sn_leaf_index = None, sn_block_number = None,
      sn_tx_index_in_block = None, sn_note_index_in_tx = None, sn_scopes = [nv_recipient request]\<rparr>"

definition validate_note_request :: "('s, 'v) utility_env \<Rightarrow> fr list \<Rightarrow> ('s, unit) op" where
  "validate_note_request env fs =
     seq (lift_result (parse_note_validation_request fs)) (\<lambda>request.
       validate_and_store_note (oe_note_store (ue_oracle env)) (node_nullifier_witness (oe_node (ue_oracle env)))
         (requested_note (oe_crypto (ue_oracle env)) request) (nv_recipient request))"

definition validate_event_request :: "('s, 'v) utility_env \<Rightarrow> fr list \<Rightarrow> ('s, unit) op" where
  "validate_event_request env fs =
     seq (lift_result (parse_event_validation_request fs)) (\<lambda>request.
       validate_and_store_event (ue_events env) (xv_contract_address request) (xv_event_type_id request)
         (xv_randomness request) (xv_serialized_event request) (xv_event_commitment request)
         (xv_tx_hash request) (xv_recipient request))"

definition validate_and_store_enqueued_notes_and_events ::
    "('s, 'v) utility_env \<Rightarrow> utility_oracle \<Rightarrow> fr list list \<Rightarrow> ('s, fr list list) op" where
  "validate_and_store_enqueued_notes_and_events env self args =
     (let capsules = oe_capsule_store (ue_oracle env) in
      seq (lift_result (arg_required ''validateAndStoreEnqueuedNotesAndEvents: missing contract address'' args 0))
        (\<lambda>contract.
      seq (lift_result (arg_required ''validateAndStoreEnqueuedNotesAndEvents: missing note requests slot'' args 1))
        (\<lambda>note_requests_slot.
      seq (lift_result (arg_required ''validateAndStoreEnqueuedNotesAndEvents: missing event requests slot'' args 2))
        (\<lambda>event_requests_slot.
      seq (lift_result (ensure_contract_db_access self (AztecAddress contract))) (\<lambda>_.
      seq (read_capsule_array capsules (AztecAddress contract) note_requests_slot) (\<lambda>note_requests.
      seq (for_each (validate_note_request env) note_requests) (\<lambda>_.
      seq (read_capsule_array capsules (AztecAddress contract) event_requests_slot) (\<lambda>event_requests.
      seq (for_each (validate_event_request env) event_requests) (\<lambda>_.
      seq (set_capsule_array capsules (AztecAddress contract) note_requests_slot []) (\<lambda>_.
      seq (set_capsule_array capsules (AztecAddress contract) event_requests_slot []) (\<lambda>_. ret [])))))))))))"

subsection \<open>The foreign calls\<close>

definition utility_handler_name :: "string \<Rightarrow> string" where
  "utility_handler_name name =
     (let stripped = unwrap_or name (or_else_opt (strip_prefix ''utility'' name) (strip_prefix ''private'' name))
      in case stripped of [] \<Rightarrow> name | c # cs \<Rightarrow> lower_char c # cs)"

text \<open>\<open>Fr::random()\<close>: the state is a store and the number of fields drawn.\<close>

definition utility_random :: "(nat \<Rightarrow> fr) \<Rightarrow> ('s \<times> nat, fr list list) op" where
  "utility_random supply = (\<lambda>(s, n). (Inr [[supply n]], (s, Suc n)))"

definition utility_calls ::
    "('s, 'v) utility_env \<Rightarrow> utility_oracle \<Rightarrow> fr list list \<Rightarrow> (string list \<times> ('s, fr list list) op) list" where
  "utility_calls env self args =
     [([''getPublicStorageAt'', ''storageRead''], lift_result (utility_get_public_storage_at env args)),
      ([''getContractInstance''], utility_get_contract_instance env args),
      ([''getNotes''], utility_get_notes env self args),
      ([''checkNullifierExists''], lift_result (utility_check_nullifier_exists env self args)),
      ([''getPublicKeysAndPartialAddress'', ''tryGetPublicKeysAndPartialAddress''],
        utility_get_public_keys_and_partial_address env args),
      ([''getKeyValidationRequest'', ''getSecretKey''], utility_get_key_validation_request env self args),
      ([''getBlockHeader''], ret (utility_get_block_header env self)),
      ([''getUtilityContext''], ret (get_utility_context env self)),
      ([''getAuthWitness''], lift_result (utility_get_auth_witness self args)),
      ([''getNoteHashMembershipWitness''], ret [[]]),
      ([''getNullifierMembershipWitness''], lift_result (utility_get_nullifier_membership_witness env args)),
      ([''getLowNullifierMembershipWitness''], lift_result (get_low_nullifier_membership_witness env args)),
      ([''getBlockHashMembershipWitness''], ret [[]]),
      ([''getPublicDataWitness''], lift_result (utility_get_public_data_witness env args)),
      ([''getL1ToL2MembershipWitness''], ret [[]]),
      ([''assertCompatibleOracleVersion'', ''log''], ret []),
      ([''aes128Decrypt''], lift_result (aes128_decrypt env args)),
      ([''getSharedSecret''], get_shared_secret env args),
      ([''loadCapsule'', ''getCapsule''], utility_load_capsule env self args),
      ([''storeCapsule''], utility_store_capsule env self args),
      ([''deleteCapsule''], utility_delete_capsule env self args),
      ([''copyCapsule''], utility_copy_capsule env self args),
      ([''fetchTaggedLogs''], utility_fetch_tagged_logs env self args),
      ([''bulkRetrieveLogs''], utility_bulk_retrieve_logs env self args),
      ([''validateAndStoreEnqueuedNotesAndEvents''], validate_and_store_enqueued_notes_and_events env self args),
      ([''emitOffchainEffect''], ret [])]"

text \<open>A name with no handler is answered with nothing.\<close>

definition utility_handle_foreign_call ::
    "('s, 'v) utility_env \<Rightarrow> utility_oracle \<Rightarrow> string \<Rightarrow> fr list list \<Rightarrow> ('s \<times> nat, fr list list) op" where
  "utility_handle_foreign_call env self name args =
     (let handler = utility_handler_name name in
      if handler = ''getRandomField'' then utility_random (oe_random (ue_oracle env))
      else case find (\<lambda>(names, _). handler \<in> set names) (utility_calls env self args) of
             Some (_, op) \<Rightarrow> on_store op
           | None \<Rightarrow> ret [])"

definition utility_callback :: "('s, 'v) utility_env \<Rightarrow> utility_oracle \<Rightarrow> ('s \<times> nat) callback" where
  "utility_callback env self function inputs st = Some (utility_handle_foreign_call env self function inputs st)"

end
