(* ===== verification/Utility_Access.thy ===== *)
theory Utility_Access
  imports Utility_Oracle Oracle_Properties
begin

text \<open>
  What a utility function can reach through its oracle. Whatever it asks, in whatever order, the store
  changes only where the program lets it: the notes and events it validates, the indexes of the tagging
  secrets, and the capsules of its own contract. The frame of every store operation is proved once for
  any key-value store.
\<close>

subsection \<open>Frames of the store operations\<close>

named_theorems frame_rules

lemma framed_fail [frame_rules]: "framed good look P (fail e)"
  by (simp add: framed_def fail_def)

lemma framed_map_op [frame_rules]: "(\<And>x. framed good look P (f x)) \<Longrightarrow> framed good look P (map_op f xs)"
  by (induction xs) (simp_all add: framed_ret framed_seq)

lemma framed_attempt [frame_rules]: "framed good look P m \<Longrightarrow> framed good look P (attempt m)"
  by (simp add: framed_def attempt_def)

lemma framed_case_list [frame_rules]:
  "framed good look P m \<Longrightarrow> (\<And>x xs. framed good look P (f x xs)) \<Longrightarrow>
     framed good look P (case v of [] \<Rightarrow> m | x # xs \<Rightarrow> f x xs)"
  by (auto split: list.splits)

lemma framed_case_prod [frame_rules]:
  "(\<And>x y. framed good look P (f x y)) \<Longrightarrow> framed good look P (case v of (x, y) \<Rightarrow> f x y)"
  by (auto split: prod.splits)

lemmas frame_steps = framed_intros frame_rules

context kv_laws
begin

lemmas frame_kv = framed_get framed_put framed_delete framed_list_prefix

text \<open>Reading a store changes nothing.\<close>

lemma framed_get_json: "framed invar lookup P (get_json K c k)"
  unfolding get_json_def by (intro frame_steps framed_get)

lemma framed_address_reads:
  assumes "as_kv self = K"
  shows "framed invar lookup P (address_get self a)" "framed invar lookup P (address_get_all self)"
  unfolding address_get_def address_get_all_def assms
  by (intro frame_steps framed_get_json framed_list_prefix)+

lemma framed_sender_get_all: "se_kv self = K \<Longrightarrow> framed invar lookup P (sender_get_all self)"
  unfolding sender_get_all_def by (intro frame_steps) (simp add: framed_list_prefix)

lemma framed_get_secret_key: "ks_kv self = K \<Longrightarrow> framed invar lookup P (get_secret_key self h)"
  unfolding get_secret_key_def Let_def by (intro frame_steps) (simp add: framed_get)

lemma framed_viewing_key:
  "ks_kv self = K \<Longrightarrow> framed invar lookup P (get_master_incoming_viewing_secret_key self h)"
  unfolding get_master_incoming_viewing_secret_key_def get_derived_def
  by (intro frame_steps framed_get_secret_key)

lemma framed_find_key: "ks_kv self = K \<Longrightarrow> framed invar lookup P (find_key self h app accounts)"
proof (induction accounts)
  case (Cons a accounts)
  then show ?case
    unfolding find_key.simps Let_def by (intro frame_steps framed_get_secret_key Cons.IH) simp_all
qed (simp add: framed_ret)

lemma framed_key_validation_request:
  "ks_kv self = K \<Longrightarrow> framed invar lookup P (get_key_validation_request self h app)"
  unfolding get_key_validation_request_def get_accounts_def
  by (intro frame_steps framed_find_key) (simp_all add: framed_list_prefix)

lemma framed_get_instance: "ct_kv self = K \<Longrightarrow> framed invar lookup P (get_instance self a)"
  unfolding get_instance_def by (simp add: framed_get_json)

lemma framed_load_notes: "ns_kv self = K \<Longrightarrow> framed invar lookup P (load_notes self ns)"
proof (induction ns)
  case (Cons n ns)
  then show ?case unfolding load_notes.simps by (intro frame_steps Cons.IH) (simp_all add: framed_get)
qed (simp add: framed_ret)

lemma framed_get_notes: "ns_kv self = K \<Longrightarrow> framed invar lookup P (get_notes self filt)"
  unfolding get_notes_def get_notes_for_contract_def get_all_notes_def
  by (intro frame_steps framed_load_notes) (simp_all add: framed_get framed_list_prefix)

lemma framed_anchor: "an_kv self = K \<Longrightarrow> framed invar lookup P (get_block_number self)"
  unfolding get_block_number_def get_block_header_def by (intro frame_steps) (simp_all add: framed_get)

lemma framed_load_capsule: "cs_kv self = K \<Longrightarrow> framed invar lookup P (load_capsule self c slot)"
  unfolding load_capsule_def by (intro frame_steps) (simp add: framed_get)

lemma framed_read_capsule_array: "cs_kv self = K \<Longrightarrow> framed invar lookup P (read_capsule_array self c slot)"
  unfolding read_capsule_array_def load_required_def by (intro frame_steps framed_load_capsule)

text \<open>Writers stay within their keys.\<close>

lemma framed_add_to_index: "P key \<Longrightarrow> framed invar lookup P (add_to_index K S key item)"
  unfolding add_to_index_def load_index_def by (intro frame_steps frame_kv)

lemma framed_validate_note:
  assumes "ns_kv self = K" and "\<And>k. prefix ''note'' k \<Longrightarrow> P k"
  shows "framed invar lookup P (validate_and_store_note self w note scope)"
proof -
  have "P (note_key_by_nullifier (ns_hex self) n)" "P (note_contract_index_key (ns_hex self) c)"
    "P (note_block_index_key b)" for n c b
    by (rule assms(2), simp add: note_key_defs note_block_index_key_def note_block_prefix_def)+
  then show ?thesis
    unfolding validate_and_store_note_def Let_def add_notes_def add_notes_step_def note_add_to_contract_index_def
      note_add_to_block_index_def assms(1)
    by (intro frame_steps frame_kv framed_add_to_index)
qed

lemma framed_validate_event:
  assumes "es_kv (ve_private_event_store self) = K" and "an_kv (ve_anchor_block_store self) = K"
    and "\<And>k. prefix ''event'' k \<Longrightarrow> P k"
  shows "framed invar lookup P (validate_and_store_event self c e r d h t scope)"
proof -
  have "P (event_key H n)" "P (contract_selector_index_key H c e)" "P (event_block_index_key b)" for H n c e b
    by (rule assms(3), simp add: event_key_defs event_block_index_key_def event_block_prefix_def)+
  then show ?thesis
    unfolding validate_and_store_event_def Let_def store_private_event_log_def add_to_contract_selector_index_def
      event_add_to_block_index_def assms(1)
    by (intro frame_steps frame_kv framed_add_to_index framed_anchor assms(2))
qed

lemma framed_fetch_tagged_logs:
  assumes "rt_kv (ls_recipient_tagging_store self) = K" and "\<And>k. prefix ''recipient_tag:'' k \<Longrightarrow> P k"
  shows "framed invar lookup P (fetch_tagged_logs self contract secrets)"
proof -
  have "P (recipient_finalized_key H s)" for H s
    by (rule assms(2)) (simp add: recipient_finalized_key_def)
  then have update: "framed invar lookup P (update_highest_finalized_index (ls_recipient_tagging_store self) s i)" for s i
    unfolding update_highest_finalized_index_def get_highest_finalized_index_def get_highest_index_at_def assms(1)
    by (intro frame_steps frame_kv)
  have "framed invar lookup P (load_log_chunks self s b n css)" for s b n css
    by (induction css arbitrary: n) (simp_all only: load_log_chunks.simps, (intro frame_steps update | assumption)+)
  then show ?thesis
    unfolding fetch_tagged_logs_def fetch_secret_def load_logs_for_range_def Let_def get_highest_finalized_index_def
      get_highest_index_at_def assms(1)
    by (intro frame_steps frame_kv)
qed

lemma framed_capsule_writes:
  assumes "cs_kv self = K" and "\<And>slot. P (db_slot_key (cs_hex self) c slot)"
  shows "framed invar lookup P (store_capsule self c slot capsule)"
    "framed invar lookup P (delete_capsule self c slot)"
    "framed invar lookup P (copy_capsule self c src dst n)"
    "framed invar lookup P (append_to_capsule_array self c slot content)"
    "framed invar lookup P (set_capsule_array self c slot content)"
proof -
  show put: "framed invar lookup P (store_capsule self c slot capsule)" for slot capsule
    unfolding store_capsule_def assms(1) by (intro frame_kv assms(2))
  show del: "framed invar lookup P (delete_capsule self c slot)" for slot
    unfolding delete_capsule_def assms(1) by (intro frame_kv assms(2))
  have at: "framed invar lookup P (store_at self c f e)" for f e
    unfolding store_at_def by (intro frame_steps put)
  show "framed invar lookup P (copy_capsule self c src dst n)"
    unfolding copy_capsule_def load_required_def by (intro frame_steps framed_load_capsule assms(1) at)
  show "framed invar lookup P (append_to_capsule_array self c slot content)"
    unfolding append_to_capsule_array_def Let_def by (intro frame_steps framed_load_capsule assms(1) at put)
  show "framed invar lookup P (set_capsule_array self c slot content)"
    unfolding set_capsule_array_def Let_def by (intro frame_steps framed_load_capsule assms(1) at put del)
qed

end

subsection \<open>Frames of the handlers\<close>

definition utility_env_ok :: "('s, 'v) kv_store \<Rightarrow> ('s, 'v) utility_env \<Rightarrow> bool" where
  "utility_env_ok K env \<longleftrightarrow>
     ct_kv (oe_contract_store (ue_oracle env)) = K \<and> ks_kv (oe_key_store (ue_oracle env)) = K \<and>
     ns_kv (oe_note_store (ue_oracle env)) = K \<and> cs_kv (oe_capsule_store (ue_oracle env)) = K \<and>
     as_kv (oe_address_store (ue_oracle env)) = K \<and> se_kv (ls_sender_store (ue_logs env)) = K \<and>
     rt_kv (ls_recipient_tagging_store (ue_logs env)) = K \<and>
     es_kv (ve_private_event_store (ue_events env)) = K \<and> an_kv (ve_anchor_block_store (ue_events env)) = K"

text \<open>The keys a utility function of a contract may write.\<close>

definition utility_writable :: "hex_crate \<Rightarrow> aztec_address \<Rightarrow> string \<Rightarrow> bool" where
  "utility_writable H contract k \<longleftrightarrow>
     prefix ''note'' k \<or> prefix ''event'' k \<or> prefix ''recipient_tag:'' k \<or>
     (\<exists>slot. k = db_slot_key H contract slot)"

lemma framed_access_check:
  "(contract = uo_contract_address self \<Longrightarrow> framed good look P m) \<Longrightarrow>
     framed good look P (seq (lift_result (ensure_contract_db_access self contract)) (\<lambda>_. m))"
  by (auto simp: framed_def seq_def lift_result_def ensure_contract_db_access_def)

context kv_laws
begin

lemma framed_key_in_scope:
  "as_kv (oe_address_store env) = K \<Longrightarrow> framed invar lookup P (key_in_scope env h scopes)"
proof (induction scopes)
  case (Cons a scopes)
  then show ?case unfolding key_in_scope.simps by (intro frame_steps framed_address_reads Cons.IH)
qed (simp add: framed_ret)

lemma framed_utility_reads:
  assumes "utility_env_ok K env"
  shows "framed invar lookup P (utility_get_contract_instance env args)"
    "framed invar lookup P (utility_get_public_keys_and_partial_address env args)"
    "framed invar lookup P (utility_get_notes env self args)"
    "framed invar lookup P (utility_get_key_validation_request env self args)"
    "framed invar lookup P (get_shared_secret env args)"
    "framed invar lookup P (utility_load_capsule env self args)"
    "framed invar lookup P (tagging_secrets_for_recipient env self scope)"
proof -
  have kv: "ct_kv (oe_contract_store (ue_oracle env)) = K" "as_kv (oe_address_store (ue_oracle env)) = K"
    "ns_kv (oe_note_store (ue_oracle env)) = K" "ks_kv (oe_key_store (ue_oracle env)) = K"
    "cs_kv (oe_capsule_store (ue_oracle env)) = K" "se_kv (ls_sender_store (ue_logs env)) = K"
    using assms by (simp_all add: utility_env_ok_def)
  note reads = framed_get_instance[OF kv(1)] framed_address_reads[OF kv(2)] framed_key_in_scope[OF kv(2)]
    framed_get_notes[OF kv(3)] framed_key_validation_request[OF kv(4)] framed_viewing_key[OF kv(4)]
    framed_load_capsule[OF kv(5)] framed_sender_get_all[OF kv(6)]
  show "framed invar lookup P (utility_get_contract_instance env args)"
    "framed invar lookup P (utility_get_public_keys_and_partial_address env args)"
    "framed invar lookup P (utility_get_notes env self args)"
    "framed invar lookup P (utility_get_key_validation_request env self args)"
    "framed invar lookup P (get_shared_secret env args)"
    "framed invar lookup P (utility_load_capsule env self args)"
    "framed invar lookup P (tagging_secrets_for_recipient env self scope)"
    unfolding utility_get_contract_instance_def get_contract_instance_def
      utility_get_public_keys_and_partial_address_def get_public_keys_and_partial_address_def utility_get_notes_def
      utility_get_key_validation_request_def get_shared_secret_def utility_load_capsule_def
      tagging_secrets_for_recipient_def Let_def
    by (intro frame_steps reads)+
qed

lemma framed_utility_writes:
  fixes env :: "('s, 'v) utility_env" and self :: utility_oracle
  assumes ok: "utility_env_ok K env"
  defines "P \<equiv> utility_writable (cs_hex (oe_capsule_store (ue_oracle env))) (uo_contract_address self)"
  shows "framed invar lookup P (utility_store_capsule env self args)"
    "framed invar lookup P (utility_delete_capsule env self args)"
    "framed invar lookup P (utility_copy_capsule env self args)"
    "framed invar lookup P (utility_fetch_tagged_logs env self args)"
    "framed invar lookup P (utility_bulk_retrieve_logs env self args)"
    "framed invar lookup P (validate_and_store_enqueued_notes_and_events env self args)"
proof -
  note capsules = framed_capsule_writes[of "oe_capsule_store (ue_oracle env)" P "uo_contract_address self"]
  have kv: "cs_kv (oe_capsule_store (ue_oracle env)) = K" using ok by (simp add: utility_env_ok_def)
  have own: "P (db_slot_key (cs_hex (oe_capsule_store (ue_oracle env))) (uo_contract_address self) slot)" for slot
    by (auto simp: P_def utility_writable_def)
  show "framed invar lookup P (utility_store_capsule env self args)"
    "framed invar lookup P (utility_delete_capsule env self args)"
    "framed invar lookup P (utility_copy_capsule env self args)"
    unfolding utility_store_capsule_def utility_delete_capsule_def utility_copy_capsule_def
    by ((rule framed_seq[OF framed_lift_result] framed_access_check)+, simp add: kv own capsules framed_seq framed_ret)+
  show "framed invar lookup P (utility_bulk_retrieve_logs env self args)"
    unfolding utility_bulk_retrieve_logs_def Let_def
    by (rule framed_seq[OF framed_lift_result] framed_access_check)+
      (simp add: kv own capsules framed_seq framed_ret framed_lift_result framed_read_capsule_array)
  have "framed invar lookup P (fetch_scope_logs env self base scope)" for base scope
    unfolding fetch_scope_logs_def
    by (intro frame_steps framed_utility_reads[OF ok] framed_fetch_tagged_logs capsules kv own)
      (use ok in \<open>auto simp: utility_env_ok_def P_def utility_writable_def\<close>)
  then show "framed invar lookup P (utility_fetch_tagged_logs env self args)"
    unfolding utility_fetch_tagged_logs_def by (intro frame_steps)
  have note_ok: "framed invar lookup P (validate_note_request env fs)" for fs
    unfolding validate_note_request_def
    by (intro frame_steps framed_validate_note)
      (use ok in \<open>auto simp: utility_env_ok_def P_def utility_writable_def\<close>)
  have event_ok: "framed invar lookup P (validate_event_request env fs)" for fs
    unfolding validate_event_request_def
    by (intro frame_steps framed_validate_event)
      (use ok in \<open>auto simp: utility_env_ok_def P_def utility_writable_def\<close>)
  show "framed invar lookup P (validate_and_store_enqueued_notes_and_events env self args)"
    unfolding validate_and_store_enqueued_notes_and_events_def Let_def
    by (rule framed_seq[OF framed_lift_result] framed_access_check)+
      (simp add: kv own capsules note_ok event_ok framed_seq framed_ret framed_for_each framed_read_capsule_array)
qed

lemma framed_utility_calls:
  assumes "utility_env_ok K env" and "(names, op) \<in> set (utility_calls env self args)"
  shows "framed invar lookup (utility_writable (cs_hex (oe_capsule_store (ue_oracle env))) (uo_contract_address self)) op"
  using assms(2) unfolding utility_calls_def
  by (auto simp: framed_lift_result framed_ret framed_utility_reads[OF assms(1)] framed_utility_writes[OF assms(1)])

lemma framed_handle_foreign_call:
  assumes "utility_env_ok K env" and "invar s"
    and "utility_handle_foreign_call env self name args (s, n) = (r, (s', n'))"
  shows "invar s' \<and> (\<forall>k. \<not> utility_writable (cs_hex (oe_capsule_store (ue_oracle env))) (uo_contract_address self) k \<longrightarrow>
      lookup s' k = lookup s k)"
proof (cases "find (\<lambda>(names, _). utility_handler_name name \<in> set names) (utility_calls env self args)")
  case None
  then show ?thesis using assms(2,3)
    by (auto simp: utility_handle_foreign_call_def Let_def utility_random_def ret_def split: if_splits)
next
  case (Some entry)
  obtain names m where entry: "entry = (names, m)" by (cases entry)
  with Some have "(names, m) \<in> set (utility_calls env self args)"
    by (auto simp: find_Some_iff in_set_conv_nth)
  from framed_utility_calls[OF assms(1) this] have
    "invar (snd (m s)) \<and> (\<forall>k. \<not> utility_writable (cs_hex (oe_capsule_store (ue_oracle env)))
      (uo_contract_address self) k \<longrightarrow> lookup (snd (m s)) k = lookup s k)"
    using assms(2) unfolding framed_def by blast
  then show ?thesis using assms(2,3) Some entry
    by (auto simp: utility_handle_foreign_call_def Let_def utility_random_def on_store_def split: if_splits prod.splits)
qed

end

lemma execute_utility_preserves:
  assumes "preserved_by I oracle" and "execute_utility X fuel artifact f args oracle s = Some (r, s')" and "I s"
  shows "I s'"
proof -
  have loop: "utility_loop X oracle fa n last_fc m s = Some (r, s') \<Longrightarrow> I s \<Longrightarrow> I s'" for fa n last_fc m s s' r
  proof (induction n arbitrary: last_fc m s)
    case (Suc n)
    then show ?case by (auto split: loop_splits dest: preserved_byD[OF assms(1)])
  qed simp
  show ?thesis using assms(2,3) loop by (fastforce simp: execute_utility_def split: loop_splits)
qed

subsection \<open>Isolation\<close>

lemma utility_callback_frame:
  assumes "utility_env_ok in_memory_kv env"
  shows "preserved_by (\<lambda>(t', n'). btree_ok t' \<and> (\<forall>k. \<not> utility_writable (cs_hex (oe_capsule_store (ue_oracle env)))
      (uo_contract_address self) k \<longrightarrow> map_of t' k = m k)) (utility_callback env self)"
  unfolding preserved_by_def utility_callback_def
  using mem.framed_handle_foreign_call[OF assms] by fastforce

lemma not_utility_writable:
  assumes "hex_ok H"
  shows "c \<noteq> contract \<Longrightarrow> \<not> utility_writable H contract (db_slot_key H c slot)"
    "\<not> utility_writable H contract (account_key H' h)" "\<not> utility_writable H contract (address_key H' a)"
    "\<not> utility_writable H contract (instance_key H' a)"
  using assms
  by (simp_all add: utility_writable_def) (simp_all add: db_slot_key_def account_key_def address_key_def instance_key_def)

text \<open>
  C21. A utility function is confined. Whatever its bytecode does and whether it succeeds or fails, after
  it has run the store is a store, and its entries differ from those before at most under the keys of
  notes, events and tagging indexes and under the capsule slots of the contract itself. So every capsule
  of every other contract reads as before, and so do the secret keys, the registered addresses and the
  registered contracts.
\<close>

theorem utility_isolation:
  assumes "utility_env_ok in_memory_kv env" and "hex_ok (cs_hex (oe_capsule_store (ue_oracle env)))" and "btree_ok t"
    and run: "execute_utility X fuel artifact function_name args (utility_callback env self) (t, n) = Some (r, (t', n'))"
  shows "btree_ok t' \<and>
    (\<forall>k. \<not> utility_writable (cs_hex (oe_capsule_store (ue_oracle env))) (uo_contract_address self) k \<longrightarrow>
       map_of t' k = map_of t k) \<and>
    (\<forall>c slot. c \<noteq> uo_contract_address self \<longrightarrow>
       fst (load_capsule (oe_capsule_store (ue_oracle env)) c slot t') =
       fst (load_capsule (oe_capsule_store (ue_oracle env)) c slot t)) \<and>
    (\<forall>h. fst (get_secret_key (oe_key_store (ue_oracle env)) h t') =
       fst (get_secret_key (oe_key_store (ue_oracle env)) h t)) \<and>
    (\<forall>a. fst (address_get (oe_address_store (ue_oracle env)) a t') =
       fst (address_get (oe_address_store (ue_oracle env)) a t)) \<and>
    (\<forall>a. fst (get_instance (oe_contract_store (ue_oracle env)) a t') =
       fst (get_instance (oe_contract_store (ue_oracle env)) a t))"
proof -
  let ?H = "cs_hex (oe_capsule_store (ue_oracle env))"
  from execute_utility_preserves[OF utility_callback_frame[OF assms(1), of self "map_of t"] run] assms(3)
  have ok: "btree_ok t'" and
    same: "\<And>k. \<not> utility_writable ?H (uo_contract_address self) k \<Longrightarrow> map_of t' k = map_of t k" by auto
  note env = assms(1)[unfolded utility_env_ok_def]
  have read: "fst (seq (kv_get in_memory_kv k) f t') = fst (seq (kv_get in_memory_kv k) f t)"
    if "\<not> utility_writable ?H (uo_contract_address self) k" and "\<And>x s s'. fst (f x s) = fst (f x s')" for k and f :: "_ \<Rightarrow> (_, 'x) op"
    using same[OF that(1)] that(2) mem.get_law[OF ok, of k] mem.get_law[OF assms(3), of k] by (simp add: seq_def)
  have pure: "fst ((case x of Some b \<Rightarrow> seq (lift_result (p b)) (\<lambda>y. ret (g y)) | None \<Rightarrow> ret z) s) =
      fst ((case x of Some b \<Rightarrow> seq (lift_result (p b)) (\<lambda>y. ret (g y)) | None \<Rightarrow> ret z) s')" for x p g z s s'
    by (simp add: seq_def lift_result_def ret_def split: option.splits sum.splits)
  note frame = not_utility_writable[OF assms(2)]
  have "fst (load_capsule (oe_capsule_store (ue_oracle env)) c slot t') =
      fst (load_capsule (oe_capsule_store (ue_oracle env)) c slot t)" if "c \<noteq> uo_contract_address self" for c slot
    unfolding load_capsule_def using env by (auto intro!: read pure frame that)
  moreover have "fst (get_secret_key (oe_key_store (ue_oracle env)) h t') =
      fst (get_secret_key (oe_key_store (ue_oracle env)) h t)" for h
    unfolding get_secret_key_def using env
    by (auto simp: Let_def ret_def fail_def intro!: read frame split: option.split)
  moreover have "fst (address_get (oe_address_store (ue_oracle env)) a t') =
      fst (address_get (oe_address_store (ue_oracle env)) a t)" for a
    unfolding address_get_def get_json_def using env by (auto intro!: read pure frame)
  moreover have "fst (get_instance (oe_contract_store (ue_oracle env)) a t') =
      fst (get_instance (oe_contract_store (ue_oracle env)) a t)" for a
    unfolding get_instance_def get_json_def using env by (auto intro!: read pure frame)
  ultimately show ?thesis using ok same by blast
qed

text \<open>A circuit of contract 7 that stores a capsule.\<close>

definition storing_acvm :: "(nat \<times> bool, unit, unit, fr) acvm" where
  "storing_acvm = example_acvm\<lparr>acvm_solve := \<lambda>(n, called). (if called then Solved
     else RequiresForeignCall ''utilityStoreCapsule'' [Single 7, Single 1, Array [5]], (n, called))\<rparr>"

definition example_utility_env :: "(unit btree, unit) utility_env" where
  "example_utility_env =
     \<lparr>ue_oracle = example_env,
      ue_logs = \<lparr>ls_node = \<lparr>ln_private_logs_by_tags = \<lambda>_. Inr JsNull, ln_public_logs_by_tags = \<lambda>_ _. Inr JsNull\<rparr>,
        ls_crypto = example_crypto, ls_hex = plain_hex,
        ls_sender_store = \<lparr>se_kv = in_memory_kv, se_hex = plain_hex, se_raw = null_raw ()\<rparr>,
        ls_recipient_tagging_store = \<lparr>rt_kv = in_memory_kv, rt_hex = plain_hex, rt_index_json = null_json ()\<rparr>\<rparr>,
      ue_events = \<lparr>ve_tx_effect = \<lambda>_. Inr None, ve_crypto = example_crypto, ve_hex = plain_hex,
        ve_private_event_store = \<lparr>es_kv = in_memory_kv, es_hex = plain_hex, es_event_json = null_json (),
          es_index_json = null_json ()\<rparr>,
        ve_anchor_block_store = \<lparr>an_kv = in_memory_kv, an_json = null_json ()\<rparr>\<rparr>,
      ue_low_nullifier_witness = \<lambda>_ _. Inr None, ue_aes128_cbc_decrypt = \<lambda>_ _ _. None\<rparr>"

definition example_utility :: utility_oracle where
  "example_utility = utility_new JsNull (AztecAddress 7) []"

definition example_utility_env_over :: "(unit btree, unit) contract_store \<Rightarrow> (unit btree, unit) utility_env" where
  "example_utility_env_over contracts = example_utility_env\<lparr>ue_oracle := env_over in_memory_kv () contracts\<rparr>"

lemma storing_runs:
  assumes "btree_ok t" and u: "uo_contract_address u = AztecAddress 7"
  shows "\<exists>t'. execute_utility storing_acvm 3 callee_artifact ''transfer'' []
      (utility_callback (example_utility_env_over contracts) u) (t, n) = Some (Inr [], (t', n)) \<and>
    map_of t' (db_slot_key plain_hex (AztecAddress 7) 1) = Some ()"
proof -
  let ?answer = "utility_callback (example_utility_env_over contracts) u"
  have name: "utility_handler_name ''utilityStoreCapsule'' = ''storeCapsule''" by code_simp
  have hex: "''0x'' @ drop 2 (fr_display plain_hex f) = fr_display plain_hex f" for f
    by (simp add: fr_display_def encode_field_hex_def encode_hex_def)
  then have "fr_from_hex plain_hex (''0x'' @ drop 2 (fr_display plain_hex f)) = Inr f" for f
    by (simp only: fr_from_hex_display[OF plain_hex_ok])
  then have fe: "fe_to_fr storing_acvm f = f" for f
    by (simp add: fe_to_fr_def storing_acvm_def example_acvm_def)
  obtain t1 where put: "kv_put in_memory_kv (db_slot_key plain_hex (AztecAddress 7) 1) () t = (Inr (), t1)"
      "map_of t1 (db_slot_key plain_hex (AztecAddress 7) 1) = Some ()"
    using mem.put_law[OF assms(1), of "db_slot_key plain_hex (AztecAddress 7) 1" "()"] by (auto simp: wp_iff)
  have call: "?answer ''utilityStoreCapsule'' [[7], [1], [5]] (t, n) = Some (Inr [], (t1, n))"
    by (simp add: put(1) u utility_callback_def utility_handle_foreign_call_def name Let_def utility_calls_def on_store_def
        utility_store_capsule_def arg_required_def arg_def list_get_def ensure_contract_db_access_def
        store_capsule_def example_utility_env_over_def example_utility_env_def env_over_def null_json_def seq_def
        lift_result_def ret_def)
  have load: "load_circuit storing_acvm callee_artifact ''transfer'' = Inr (hd (ca_functions callee_artifact),
      \<lparr>prog_functions = [\<lparr>circ_opcodes = (), circ_return_values = []\<rparr>], prog_unconstrained_functions = ()\<rparr>,
      \<lparr>circ_opcodes = (), circ_return_values = []\<rparr>)"
    by (simp add: load_circuit_def find_function_def callee_artifact_def example_artifact_def example_function_def
        decode_program_def storing_acvm_def example_acvm_def Let_def)
  have inputs: "convert_fc_inputs storing_acvm [Single 7, Single 1, Array [5]] = [[7], [1], [5]]"
    by (simp add: convert_fc_inputs_def fe)
  have "utility_loop storing_acvm ?answer f 3 [] (3, False) (t, n) = Some (Inr (3, True), (t1, n))" for f
    using call inputs by (simp add: numeral_3_eq_3 storing_acvm_def example_acvm_def)
  moreover have "acvm_new storing_acvm c v u = (3, False)" for c v u
    by (simp add: storing_acvm_def example_acvm_def)
  ultimately show ?thesis using put(2)
    by (simp add: execute_utility_def load witness_map_to_frs_def List.map_filter_simps)
qed

theorem utility_isolation_witness:
  "\<exists>t'. execute_utility storing_acvm 3 callee_artifact ''transfer'' [] (utility_callback example_utility_env example_utility)
     (in_memory_new, 0) = Some (Inr [], (t', 0)) \<and> map_of t' (db_slot_key plain_hex (AztecAddress 7) 1) = Some () \<and>
     fst (load_capsule (oe_capsule_store example_env) (AztecAddress 8) 1 t') = Inr None"
proof -
  obtain t' where run: "execute_utility storing_acvm 3 callee_artifact ''transfer'' []
        (utility_callback example_utility_env example_utility) (in_memory_new, 0) = Some (Inr [], (t', 0))"
    and own: "map_of t' (db_slot_key plain_hex (AztecAddress 7) 1) = Some ()"
    using storing_runs[of in_memory_new example_utility "oe_contract_store example_env" 0]
    by (auto simp: example_utility_env_over_def example_utility_env_def example_env_def env_over_def in_memory_new_def
        example_utility_def utility_new_def)
  have env: "ue_oracle example_utility_env = example_env" by (simp add: example_utility_env_def)
  have "utility_env_ok in_memory_kv example_utility_env"
    by (simp add: utility_env_ok_def example_utility_env_def example_env_def env_over_def)
  moreover have "hex_ok (cs_hex (oe_capsule_store (ue_oracle example_utility_env)))" "btree_ok in_memory_new"
    by (simp_all add: env example_env_def env_over_def in_memory_new_def)
  moreover have "AztecAddress 8 \<noteq> uo_contract_address example_utility"
    using fr_of_nat_eq_iff[of 8 7] by (simp add: example_utility_def utility_new_def fr_modulus_def flip: of_nat_fr)
  ultimately have "fst (load_capsule (oe_capsule_store example_env) (AztecAddress 8) 1 t') =
      fst (load_capsule (oe_capsule_store example_env) (AztecAddress 8) 1 in_memory_new)"
    using utility_isolation[OF _ _ _ run] unfolding env by blast
  also have "\<dots> = Inr None"
    by (simp add: load_capsule_def example_env_def env_over_def seq_def ret_def in_memory_kv_def in_memory_get_def
        in_memory_new_def)
  finally show ?thesis using run own by blast
qed

subsection \<open>Tagged logs as the contract reads them\<close>

text \<open>How a contract reads an entry of the array of pending logs.\<close>

definition bounded_vec_at :: "nat \<Rightarrow> nat \<Rightarrow> fr list \<Rightarrow> fr list" where
  "bounded_vec_at start max_length fs = take (unat (fr_to_usize (fs ! (start + max_length)))) (drop start fs)"

lemma serialize_bounded_vec_Inr:
  "serialize_bounded_vec vals n = Inr fs \<Longrightarrow> length fs = Suc n \<and> length vals \<le> n"
  by (auto simp: serialize_bounded_vec_def resize_def split: if_splits)

lemma bounded_vec_roundtrip:
  assumes "serialize_bounded_vec vals n = Inr fs" and "n < 2 ^ 64"
  shows "bounded_vec_at (length xs) n (xs @ fs @ ys) = vals"
proof -
  have len: "length vals \<le> n" and fs: "fs = resize n 0 vals @ [fr_from_u64 (of_nat (length vals))]"
    using assms(1) by (auto simp: serialize_bounded_vec_def split: if_splits)
  then have "unat (of_nat (length vals) :: u64) = length vals"
    using assms(2) by (simp add: unat_of_nat take_bit_nat_def)
  then show ?thesis using len
    by (simp add: bounded_vec_at_def fs resize_def nth_append fr_to_usize_from_u64)
qed

lemma tx_hash_field_roundtrip:
  assumes "hex_ok H"
  shows "tx_hash_to_field H (tx_hash_from_field f) = Inr f"
proof -
  have "tx_hash_display H (tx_hash_from_field f) = fr_display H f"
    by (simp add: tx_hash_from_field_def fr_display_def encode_field_hex_def fr_to_be_bytes_def)
  then show ?thesis using assms by (simp add: tx_hash_to_field_def)
qed

text \<open>
  The entries that \<open>fetchTaggedLogs\<close> leaves for a contract have a fixed layout of 85 fields, and
  the contract reads back exactly the log that was found: its data, the hash of its transaction, the
  note hashes, the first nullifier and the recipient. A log that does not fit, with more than 16 fields
  or 64 note hashes, is refused.
\<close>

lemma pending_log_roundtrip:
  assumes "hex_ok H" and "tl_tx_hash log = tx_hash_from_field hash"
  shows "case serialize_pending_tagged_log H log recipient of
      Inl e \<Rightarrow> e = InvalidData ''bounded vec overflow'' \<and> (16 < length (tl_data log) \<or> 64 < length (tl_note_hashes log))
    | Inr fs \<Rightarrow> length (tl_data log) \<le> 16 \<and> length (tl_note_hashes log) \<le> 64 \<and> length fs = 85 \<and>
        bounded_vec_at 0 16 fs = tl_data log \<and> fs ! 17 = hash \<and> bounded_vec_at 18 64 fs = tl_note_hashes log \<and>
        fs ! 83 = tl_first_nullifier log \<and> fs ! 84 = address_field recipient"
proof (cases "serialize_bounded_vec (tl_data log) 16")
  case (Inl e)
  then show ?thesis
    by (simp add: serialize_pending_tagged_log_def request_sizes) (simp add: serialize_bounded_vec_def split: if_splits)
next
  case data: (Inr data)
  note hash = tx_hash_field_roundtrip[OF assms(1), of hash]
  show ?thesis
  proof (cases "serialize_bounded_vec (tl_note_hashes log) 64")
    case (Inl e)
    then show ?thesis using data hash
      by (simp add: serialize_pending_tagged_log_def request_sizes assms(2)) (simp add: serialize_bounded_vec_def split: if_splits)
  next
    case hashes: (Inr hashes)
    let ?fs = "data @ [hash] @ hashes @ [tl_first_nullifier log, address_field recipient]"
    have run: "serialize_pending_tagged_log H log recipient = Inr ?fs"
      using data hash hashes by (simp add: serialize_pending_tagged_log_def request_sizes assms(2))
    have len: "length data = 17" "length hashes = 65" "length (tl_data log) \<le> 16" "length (tl_note_hashes log) \<le> 64"
      using serialize_bounded_vec_Inr[OF data] serialize_bounded_vec_Inr[OF hashes] by simp_all
    have "bounded_vec_at 0 16 ?fs = tl_data log"
      using bounded_vec_roundtrip[OF data, of "[]"] by simp
    moreover have "bounded_vec_at 18 64 ?fs = tl_note_hashes log"
      using bounded_vec_roundtrip[OF hashes, of "data @ [hash]"] len by simp
    ultimately show ?thesis using len by (simp add: run nth_append)
  qed
qed

end
