(* ===== verification/Transactions.thy ===== *)
theory Transactions
  imports Private_Oracle Contract_Identity
begin

text \<open>
  The transaction types of \<open>crates/core/src/tx.rs\<close>: receipts, hashed values, the hash of a
  transaction request, and execution payloads with their merge. The JSON forms are derived by \<open>serde\<close>
  and left out, except the one read by hand (\<open>transactionFee\<close>). \<open>TxContext\<close> is declared twice
  in the code, here and in \<open>kernel_types.rs\<close>, with the same fields; both are the record \<open>tx_context\<close>.
\<close>

subsection \<open>Receipts\<close>

datatype tx_status = Dropped | Pending | Proposed | Checkpointed | Proven | Finalized

datatype tx_execution_result = Success | AppLogicReverted | TeardownReverted | BothReverted

record tx_receipt =
  rc_tx_hash :: tx_hash
  rc_status :: tx_status
  rc_execution_result :: "tx_execution_result option"
  rc_error :: "string option"
  rc_transaction_fee :: "128 word option"
  rc_block_hash :: "u8 list option"
  rc_block_number :: "u64 option"
  rc_epoch_number :: "u64 option"

definition receipt_is_mined :: "tx_receipt \<Rightarrow> bool" where
  "receipt_is_mined r \<longleftrightarrow> rc_status r \<in> {Proposed, Checkpointed, Proven, Finalized}"

definition receipt_is_pending :: "tx_receipt \<Rightarrow> bool" where
  "receipt_is_pending r \<longleftrightarrow> rc_status r = Pending"

definition receipt_is_dropped :: "tx_receipt \<Rightarrow> bool" where
  "receipt_is_dropped r \<longleftrightarrow> rc_status r = Dropped"

definition has_execution_succeeded :: "tx_receipt \<Rightarrow> bool" where
  "has_execution_succeeded r \<longleftrightarrow> rc_execution_result r = Some Success"

definition has_execution_reverted :: "tx_receipt \<Rightarrow> bool" where
  "has_execution_reverted r \<longleftrightarrow> rc_execution_result r \<noteq> None \<and> \<not> has_execution_succeeded r"

text \<open>An absent value is \<open>None\<close>.\<close>

definition option_u128_from_string_or_number :: "json option \<Rightarrow> 128 word option result" where
  "option_u128_from_string_or_number v =
     (case v of
        None \<Rightarrow> Inr None
      | Some JsNull \<Rightarrow> Inr None
      | Some (JsNumber _ n) \<Rightarrow>
          (case n of Some k \<Rightarrow> Inr (Some (ucast k)) | None \<Rightarrow> Inl (Json ''invalid numeric transactionFee''))
      | Some (JsString s) \<Rightarrow>
          (case u128_parse s of Some k \<Rightarrow> Inr (Some k) | None \<Rightarrow> Inl (Json ''invalid digit found in string''))
      | Some _ \<Rightarrow> Inl (Json ''invalid transactionFee value''))"

subsection \<open>Witnesses, hashed values and logs\<close>

record auth_witness =
  aw_request_hash :: fr
  aw_fields :: "fr list"

definition from_args :: "crypto \<Rightarrow> fr list \<Rightarrow> hashed_values" where
  "from_args C args = \<lparr>hv_values = args, hv_hash = compute_var_args_hash C args\<rparr>"

subsection \<open>Requests\<close>

definition TX_REQUEST :: u32 where "TX_REQUEST = 3763737512"

definition tx_request_fields :: "aztec_address \<Rightarrow> fr \<Rightarrow> tx_context \<Rightarrow> function_selector \<Rightarrow> bool \<Rightarrow> fr \<Rightarrow> fr list" where
  "tx_request_fields origin args_hash tx_context selector is_private salt =
     [address_field origin, args_hash] @ tx_context_fields tx_context @
     [function_selector_to_field selector, fr_from_bool is_private, salt]"

definition compute_tx_request_hash ::
    "crypto \<Rightarrow> aztec_address \<Rightarrow> fr \<Rightarrow> tx_context \<Rightarrow> function_selector \<Rightarrow> bool \<Rightarrow> fr \<Rightarrow> fr" where
  "compute_tx_request_hash C origin args_hash tx_context selector is_private salt =
     poseidon2_hash_with_separator C (tx_request_fields origin args_hash tx_context selector is_private salt) TX_REQUEST"

subsection \<open>Transactions\<close>

record tx =
  tx_data :: "u8 list"
  tx_chonk_proof :: "u8 list"
  tx_contract_class_log_fields :: "fr list list"
  tx_public_function_calldata :: "hashed_values list"

record typed_tx =
  ttx_tx_hash :: tx_hash
  ttx_data :: private_kernel_tail_public_inputs
  ttx_chonk_proof :: "u8 list"
  ttx_contract_class_log_fields :: "fr list list"
  ttx_public_function_calldata :: "hashed_values list"

definition typed_number_of_public_calls :: "typed_tx \<Rightarrow> nat" where
  "typed_number_of_public_calls self = number_of_public_calls (ttx_data self)"

definition get_total_public_calldata_count :: "typed_tx \<Rightarrow> nat" where
  "get_total_public_calldata_count self =
     sum_list (map (\<lambda>hv. length (hv_values hv)) (ttx_public_function_calldata self))"

definition get_public_call_requests_with_calldata :: "typed_tx \<Rightarrow> (public_call_request \<times> hashed_values) list" where
  "get_public_call_requests_with_calldata self =
     zip (get_all_public_call_requests (ttx_data self)) (ttx_public_function_calldata self)"

subsection \<open>Execution payloads\<close>

record execution_payload =
  ep_calls :: "function_call list"
  ep_auth_witnesses :: "auth_witness list"
  ep_capsules :: "capsule list"
  ep_extra_hashed_args :: "hashed_values list"
  ep_fee_payer :: "aztec_address option"

definition execution_payload_default :: execution_payload where
  "execution_payload_default =
     \<lparr>ep_calls = [], ep_auth_witnesses = [], ep_capsules = [], ep_extra_hashed_args = [], ep_fee_payer = None\<rparr>"

definition merge_one :: "execution_payload \<Rightarrow> execution_payload \<Rightarrow> execution_payload result" where
  "merge_one acc payload =
     (if (case (ep_fee_payer payload, ep_fee_payer acc) of (Some payer, Some existing) \<Rightarrow> existing \<noteq> payer | _ \<Rightarrow> False)
      then Inl (InvalidData ''conflicting fee payers'')
      else Inr \<lparr>ep_calls = ep_calls acc @ ep_calls payload,
             ep_auth_witnesses = ep_auth_witnesses acc @ ep_auth_witnesses payload,
             ep_capsules = ep_capsules acc @ ep_capsules payload,
             ep_extra_hashed_args = ep_extra_hashed_args acc @ ep_extra_hashed_args payload,
             ep_fee_payer = (case ep_fee_payer payload of Some payer \<Rightarrow> Some payer | None \<Rightarrow> ep_fee_payer acc)\<rparr>)"

fun merge_from :: "execution_payload \<Rightarrow> execution_payload list \<Rightarrow> execution_payload result" where
  "merge_from acc [] = Inr acc"
| "merge_from acc (payload # payloads) = bind_result (merge_one acc payload) (\<lambda>acc'. merge_from acc' payloads)"

definition merge_payloads :: "execution_payload list \<Rightarrow> execution_payload result" where
  "merge_payloads payloads = merge_from execution_payload_default payloads"

subsection \<open>Merging\<close>

definition fee_payers :: "execution_payload list \<Rightarrow> aztec_address list" where
  "fee_payers payloads = List.map_filter ep_fee_payer payloads"

definition payers_agree :: "execution_payload list \<Rightarrow> bool" where
  "payers_agree payloads \<longleftrightarrow> (\<exists>x. set (fee_payers payloads) \<subseteq> {x})"

definition all_of :: "execution_payload list \<Rightarrow> execution_payload" where
  "all_of payloads =
     \<lparr>ep_calls = concat (map ep_calls payloads), ep_auth_witnesses = concat (map ep_auth_witnesses payloads),
      ep_capsules = concat (map ep_capsules payloads),
      ep_extra_hashed_args = concat (map ep_extra_hashed_args payloads),
      ep_fee_payer = (case fee_payers payloads of [] \<Rightarrow> None | p # _ \<Rightarrow> Some p)\<rparr>"

lemma fee_payers_simps [simp]:
  "fee_payers [] = []"
  "fee_payers (p # ps) = (case ep_fee_payer p of None \<Rightarrow> fee_payers ps | Some a \<Rightarrow> a # fee_payers ps)"
  by (simp_all add: fee_payers_def List.map_filter_simps split: option.split)

lemma merge_one_eq:
  "merge_one acc p = (if payers_agree [acc, p] then Inr (all_of [acc, p]) else Inl (InvalidData ''conflicting fee payers''))"
  by (cases "ep_fee_payer acc"; cases "ep_fee_payer p") (auto simp: merge_one_def payers_agree_def all_of_def)

lemma payers_agree_step: "payers_agree (acc # p # ps) \<longleftrightarrow> payers_agree [acc, p] \<and> payers_agree (all_of [acc, p] # ps)"
  by (cases "ep_fee_payer acc"; cases "ep_fee_payer p") (auto simp: payers_agree_def all_of_def)

lemma all_of_step: "payers_agree [acc, p] \<Longrightarrow> all_of (all_of [acc, p] # ps) = all_of (acc # p # ps)"
  by (cases "ep_fee_payer acc"; cases "ep_fee_payer p") (auto simp: payers_agree_def all_of_def)

lemma merge_from_eq:
  "merge_from acc payloads =
     (if payers_agree (acc # payloads) then Inr (all_of (acc # payloads))
      else Inl (InvalidData ''conflicting fee payers''))"
proof (induction payloads arbitrary: acc)
  case Nil
  show ?case by (cases "ep_fee_payer acc") (auto simp: payers_agree_def all_of_def)
next
  case (Cons p ps)
  show ?case
    using Cons.IH[of "all_of [acc, p]"] payers_agree_step[of acc p ps] all_of_step[of acc p ps]
    by (auto simp: merge_one_eq)
qed

lemma merge_payloads_eq:
  "merge_payloads payloads =
     (if payers_agree payloads then Inr (all_of payloads) else Inl (InvalidData ''conflicting fee payers''))"
proof -
  have "payers_agree (execution_payload_default # payloads) = payers_agree payloads"
    "all_of (execution_payload_default # payloads) = all_of payloads"
    by (simp_all add: payers_agree_def all_of_def execution_payload_default_def)
  then show ?thesis by (simp add: merge_payloads_def merge_from_eq)
qed

lemma fee_payers_iff: "a \<in> set (fee_payers payloads) \<longleftrightarrow> (\<exists>p \<in> set payloads. ep_fee_payer p = Some a)"
  by (induction payloads) (auto split: option.splits)

lemma fee_payers_append: "fee_payers (xs @ ys) = fee_payers xs @ fee_payers ys"
  by (induction xs) (auto split: option.splits)

lemma all_of_append:
  assumes "payers_agree xs" and "payers_agree ys"
  shows "payers_agree [all_of xs, all_of ys] = payers_agree (xs @ ys)"
    "payers_agree (xs @ ys) \<Longrightarrow> all_of [all_of xs, all_of ys] = all_of (xs @ ys)"
  using assms
  by (cases "fee_payers xs"; cases "fee_payers ys"; auto simp: payers_agree_def all_of_def fee_payers_append)+

text \<open>
  Merging payloads loses nothing and reorders nothing: the calls, authorization witnesses, capsules
  and hashed arguments of the merged payload are those of the payloads in their order, and its fee payer
  is the one they name. It fails exactly when two of them name different fee payers. And the way
  payloads are grouped before they are merged does not matter.
\<close>

lemma payload_merge_correct:
  "(case merge_payloads payloads of
      Inl e \<Rightarrow> e = InvalidData ''conflicting fee payers'' \<and>
        (\<exists>p \<in> set payloads. \<exists>q \<in> set payloads. \<exists>a b. ep_fee_payer p = Some a \<and> ep_fee_payer q = Some b \<and> a \<noteq> b)
    | Inr m \<Rightarrow> ep_calls m = concat (map ep_calls payloads) \<and>
        ep_auth_witnesses m = concat (map ep_auth_witnesses payloads) \<and>
        ep_capsules m = concat (map ep_capsules payloads) \<and>
        ep_extra_hashed_args m = concat (map ep_extra_hashed_args payloads) \<and>
        (\<Union>p \<in> set payloads. set_option (ep_fee_payer p)) = set_option (ep_fee_payer m)) \<and>
   (case (merge_payloads xs, merge_payloads ys) of
      (Inr m1, Inr m2) \<Rightarrow> merge_payloads [m1, m2] = merge_payloads (xs @ ys)
    | (_, _) \<Rightarrow> \<exists>e. merge_payloads (xs @ ys) = Inl e)"
proof
  have payers: "set_option (ep_fee_payer (all_of payloads)) = set (fee_payers payloads)" if "payers_agree payloads"
    using that by (cases "fee_payers payloads") (auto simp: payers_agree_def all_of_def)
  have union: "(\<Union>p \<in> set payloads. set_option (ep_fee_payer p)) = set (fee_payers payloads)"
    by (auto simp: fee_payers_iff)
  have conflict: "\<exists>p \<in> set payloads. \<exists>q \<in> set payloads. \<exists>a b. ep_fee_payer p = Some a \<and> ep_fee_payer q = Some b \<and> a \<noteq> b"
    if "\<not> payers_agree payloads"
  proof -
    from that obtain a where "a \<in> set (fee_payers payloads)" unfolding payers_agree_def by auto
    moreover from that obtain b where "b \<in> set (fee_payers payloads)" "b \<noteq> a" unfolding payers_agree_def by blast
    ultimately show ?thesis unfolding fee_payers_iff by metis
  qed
  show "case merge_payloads payloads of
      Inl e \<Rightarrow> e = InvalidData ''conflicting fee payers'' \<and>
        (\<exists>p \<in> set payloads. \<exists>q \<in> set payloads. \<exists>a b. ep_fee_payer p = Some a \<and> ep_fee_payer q = Some b \<and> a \<noteq> b)
    | Inr m \<Rightarrow> ep_calls m = concat (map ep_calls payloads) \<and>
        ep_auth_witnesses m = concat (map ep_auth_witnesses payloads) \<and>
        ep_capsules m = concat (map ep_capsules payloads) \<and>
        ep_extra_hashed_args m = concat (map ep_extra_hashed_args payloads) \<and>
        (\<Union>p \<in> set payloads. set_option (ep_fee_payer p)) = set_option (ep_fee_payer m)"
    using conflict payers union by (simp add: merge_payloads_eq) (simp add: all_of_def)
  have "payers_agree xs \<and> payers_agree ys" if "payers_agree (xs @ ys)"
    using that by (auto simp: payers_agree_def fee_payers_append)
  then show "case (merge_payloads xs, merge_payloads ys) of
      (Inr m1, Inr m2) \<Rightarrow> merge_payloads [m1, m2] = merge_payloads (xs @ ys)
    | (_, _) \<Rightarrow> \<exists>e. merge_payloads (xs @ ys) = Inl e"
    using all_of_append[of xs ys] by (auto simp: merge_payloads_eq)
qed

end
