(* ===== verification/Account_Entrypoint.thy ===== *)
theory Account_Entrypoint
  imports Transactions
begin

text \<open>
  How an account turns calls into a transaction request: \<open>crates/account/src/entrypoint\<close> (the encoding of
  calls, the account entrypoint and the multi-call entrypoint), the Schnorr account, the signerless
  account, the account provider with one account, the fee payment through an account, and authorization
  requests (\<open>crates/account/src\<close>).

  Fresh random fields (the nonce of a payload, the salt of a request) are arguments. The entries of a
  \<open>BTreeMap\<close> are listed in the order of their keys.
\<close>

subsection \<open>Encoding of calls\<close>

definition APP_MAX_CALLS :: nat where "APP_MAX_CALLS = 5"

definition SIGNATURE_PAYLOAD :: u32 where "SIGNATURE_PAYLOAD = 463525807"

record encoded_call =
  ec_args_hash :: fr
  ec_function_selector :: fr
  ec_target_address :: fr
  ec_is_public :: bool
  ec_hide_msg_sender :: bool
  ec_is_static :: bool

definition encoded_call_fields :: "encoded_call \<Rightarrow> fr list" where
  "encoded_call_fields call =
     [ec_args_hash call, ec_function_selector call, ec_target_address call, fr_from_bool (ec_is_public call),
      fr_from_bool (ec_hide_msg_sender call), fr_from_bool (ec_is_static call)]"

record encoded_app_entrypoint_calls =
  ee_encoded_calls :: "encoded_call list"
  ee_tx_nonce :: fr
  ee_hashed_args_list :: "hashed_values list"

text \<open>Public calls hash their calldata, selector first; private calls hash their arguments.\<close>

definition hashed_call_args :: "crypto \<Rightarrow> function_call \<Rightarrow> hashed_values" where
  "hashed_call_args C call =
     (let arg_fields = abi_values_to_fields (fc_args call)
      in if fc_function_type call = Public
         then from_calldata C (function_selector_to_field (fc_selector call) # arg_fields)
         else from_args C arg_fields)"

definition encode_call :: "crypto \<Rightarrow> function_call \<Rightarrow> encoded_call" where
  "encode_call C call =
     \<lparr>ec_args_hash = hv_hash (hashed_call_args C call),
      ec_function_selector = function_selector_to_field (fc_selector call),
      ec_target_address = address_field (fc_to call), ec_is_public = (fc_function_type call = Public),
      ec_hide_msg_sender = fc_hide_msg_sender call, ec_is_static = fc_is_static call\<rparr>"

definition encoded_calls_create ::
    "crypto \<Rightarrow> fr \<Rightarrow> function_call list \<Rightarrow> fr option \<Rightarrow> encoded_app_entrypoint_calls result" where
  "encoded_calls_create C random calls tx_nonce =
     (if length calls > APP_MAX_CALLS then Inl (InvalidData ''Too many calls'')
      else
        let padded_calls = calls @ replicate (APP_MAX_CALLS - length calls) function_call_empty
        in Inr \<lparr>ee_encoded_calls = map (encode_call C) padded_calls, ee_tx_nonce = unwrap_or random tx_nonce,
             ee_hashed_args_list = map (hashed_call_args C) padded_calls\<rparr>)"

definition encoded_calls_fields :: "encoded_app_entrypoint_calls \<Rightarrow> fr list" where
  "encoded_calls_fields self = concat (map encoded_call_fields (ee_encoded_calls self)) @ [ee_tx_nonce self]"

definition encoded_calls_hash :: "crypto \<Rightarrow> encoded_app_entrypoint_calls \<Rightarrow> fr" where
  "encoded_calls_hash C self = poseidon2_hash_with_separator C (encoded_calls_fields self) SIGNATURE_PAYLOAD"

subsection \<open>The ABI of an entrypoint\<close>

definition field_param :: "string \<Rightarrow> abi_type \<Rightarrow> abi_parameter" where
  "field_param name t = AbiParameter name t None"

definition function_selector_struct :: abi_type where
  "function_selector_struct =
     TStruct ''authwit::aztec::protocol_types::abis::function_selector::FunctionSelector''
       [field_param ''inner'' (TInteger ''unsigned'' 32)]"

definition address_struct :: abi_type where
  "address_struct =
     TStruct ''authwit::aztec::protocol_types::address::AztecAddress'' [field_param ''inner'' TField]"

definition function_call_struct :: abi_type where
  "function_call_struct =
     TStruct ''authwit::entrypoint::function_call::FunctionCall''
       [field_param ''args_hash'' TField, field_param ''function_selector'' function_selector_struct,
        field_param ''target_address'' address_struct, field_param ''is_public'' TBoolean,
        field_param ''hide_msg_sender'' TBoolean, field_param ''is_static'' TBoolean]"

definition app_payload_struct :: abi_type where
  "app_payload_struct =
     TStruct ''authwit::entrypoint::app::AppPayload''
       [field_param ''function_calls'' (TArray function_call_struct 5), field_param ''tx_nonce'' TField]"

definition entrypoint_artifact :: "abi_parameter list \<Rightarrow> function_artifact" where
  "entrypoint_artifact params =
     \<lparr>fa_name = ''entrypoint'', fa_function_type = Private, fa_is_initializer = False, fa_is_static = False,
      fa_is_only_self = Some False, fa_parameters = params, fa_return_types = [],
      fa_error_types = Some (JsObject []), fa_selector = None, fa_bytecode = None,
      fa_verification_key_hash = None, fa_verification_key = None, fa_custom_attributes = None,
      fa_is_unconstrained = None, fa_debug_symbols = None\<rparr>"

definition entrypoint_abi :: function_artifact where
  "entrypoint_abi = entrypoint_artifact
     [AbiParameter ''app_payload'' app_payload_struct (Some ''public''),
      field_param ''fee_payment_method'' (TInteger ''unsigned'' 8), field_param ''cancellable'' TBoolean]"

definition multi_call_entrypoint_abi :: function_artifact where
  "multi_call_entrypoint_abi = entrypoint_artifact
     [AbiParameter ''app_payload'' app_payload_struct (Some ''public'')]"

definition build_encoded_call_value :: "encoded_call \<Rightarrow> abi_value" where
  "build_encoded_call_value call =
     VStruct [(''args_hash'', VField (ec_args_hash call)), (''function_selector'', VField (ec_function_selector call)),
       (''hide_msg_sender'', VBoolean (ec_hide_msg_sender call)), (''is_public'', VBoolean (ec_is_public call)),
       (''is_static'', VBoolean (ec_is_static call)), (''target_address'', VField (ec_target_address call))]"

definition build_app_payload_value :: "encoded_app_entrypoint_calls \<Rightarrow> abi_value" where
  "build_app_payload_value encoded_calls =
     VStruct [(''function_calls'', VArray (map build_encoded_call_value (ee_encoded_calls encoded_calls))),
       (''tx_nonce'', VField (ee_tx_nonce encoded_calls))]"

subsection \<open>The account entrypoint\<close>

datatype account_fee_payment_method_options = External | PreexistingFeeJuice | FeeJuiceWithClaim

fun fee_payment_code :: "account_fee_payment_method_options \<Rightarrow> 128 word" where
  "fee_payment_code External = 0"
| "fee_payment_code PreexistingFeeJuice = 1"
| "fee_payment_code FeeJuiceWithClaim = 2"

record default_account_entrypoint_options =
  de_cancellable :: bool
  de_tx_nonce :: "fr option"
  de_fee_payment_method_options :: account_fee_payment_method_options

definition entrypoint_options_default :: default_account_entrypoint_options where
  "entrypoint_options_default =
     \<lparr>de_cancellable = False, de_tx_nonce = None, de_fee_payment_method_options = External\<rparr>"

text \<open>The options of the trait \<open>Account\<close>; the conversion from the entrypoint's options keeps none of them.\<close>

record entrypoint_options =
  eo_fee_payer :: "aztec_address option"
  eo_gas_settings :: "gas_settings option"
  eo_fee_payment_method :: "u8 option"

definition entrypoint_options_from :: "default_account_entrypoint_options \<Rightarrow> entrypoint_options" where
  "entrypoint_options_from _ = \<lparr>eo_fee_payer = None, eo_gas_settings = None, eo_fee_payment_method = None\<rparr>"

record tx_execution_request =
  tr_origin :: aztec_address
  tr_function_selector :: function_selector
  tr_first_call_args_hash :: fr
  tr_tx_context :: tx_context
  tr_args_of_calls :: "hashed_values list"
  tr_auth_witnesses :: "auth_witness list"
  tr_capsules :: "capsule list"
  tr_salt :: fr
  tr_fee_payer :: "aztec_address option"

type_synonym authorization_provider = "message_hash_or_intent \<Rightarrow> chain_info \<Rightarrow> auth_witness result"

record default_account_entrypoint =
  da_address :: aztec_address
  da_auth :: authorization_provider

record entrypoint_call_data =
  cd_encoded_calls :: encoded_app_entrypoint_calls
  cd_encoded_args :: "fr list"
  cd_function_selector :: function_selector
  cd_payload_auth_witness :: auth_witness

definition entrypoint_args ::
    "default_account_entrypoint_options \<Rightarrow> encoded_app_entrypoint_calls \<Rightarrow> abi_value list" where
  "entrypoint_args options encoded_calls =
     [build_app_payload_value encoded_calls, VInteger (fee_payment_code (de_fee_payment_method_options options)),
      VBoolean (de_cancellable options)]"

definition build_entrypoint_call_data ::
    "crypto \<Rightarrow> default_account_entrypoint \<Rightarrow> fr \<Rightarrow> execution_payload \<Rightarrow> chain_info \<Rightarrow>
     default_account_entrypoint_options \<Rightarrow> entrypoint_call_data result" where
  "build_entrypoint_call_data C self random exec chain options =
     bind_result (encoded_calls_create C random (ep_calls exec) (de_tx_nonce options)) (\<lambda>encoded_calls.
     bind_result (encode_arguments entrypoint_abi (entrypoint_args options encoded_calls)) (\<lambda>encoded_args.
     bind_result (da_auth self (Hash (encoded_calls_hash C encoded_calls)) chain) (\<lambda>witness.
       Inr \<lparr>cd_encoded_calls = encoded_calls, cd_encoded_args = encoded_args,
            cd_function_selector = function_selector_from_name_and_parameters C (fa_name entrypoint_abi)
              (fa_parameters entrypoint_abi),
            cd_payload_auth_witness = witness\<rparr>)))"

definition other_payer :: "aztec_address \<Rightarrow> aztec_address option \<Rightarrow> aztec_address option" where
  "other_payer address fee_payer = (case fee_payer of Some fp \<Rightarrow> if fp \<noteq> address then Some fp else None | None \<Rightarrow> None)"

definition create_tx_execution_request ::
    "crypto \<Rightarrow> default_account_entrypoint \<Rightarrow> fr \<Rightarrow> fr \<Rightarrow> execution_payload \<Rightarrow> gas_settings \<Rightarrow> chain_info \<Rightarrow>
     default_account_entrypoint_options \<Rightarrow> tx_execution_request result" where
  "create_tx_execution_request C self random salt exec gas chain options =
     bind_result (build_entrypoint_call_data C self random exec chain options) (\<lambda>call_data.
       let hashed_args = from_args C (cd_encoded_args call_data)
       in Inr \<lparr>tr_origin = da_address self, tr_function_selector = cd_function_selector call_data,
            tr_first_call_args_hash = hv_hash hashed_args,
            tr_tx_context = \<lparr>tc_chain_id = ci_chain_id chain, tc_version = ci_version chain, tc_gas_settings = gas\<rparr>,
            tr_args_of_calls = ee_hashed_args_list (cd_encoded_calls call_data) @ [hashed_args] @ ep_extra_hashed_args exec,
            tr_auth_witnesses = ep_auth_witnesses exec @ [cd_payload_auth_witness call_data],
            tr_capsules = ep_capsules exec, tr_salt = salt,
            tr_fee_payer = other_payer (da_address self) (ep_fee_payer exec)\<rparr>)"

definition wrap_execution_payload ::
    "crypto \<Rightarrow> default_account_entrypoint \<Rightarrow> fr \<Rightarrow> execution_payload \<Rightarrow> chain_info \<Rightarrow>
     default_account_entrypoint_options \<Rightarrow> execution_payload result" where
  "wrap_execution_payload C self random exec chain options =
     bind_result (build_entrypoint_call_data C self random exec chain options) (\<lambda>call_data.
       Inr \<lparr>ep_calls = [\<lparr>fc_to = da_address self, fc_selector = cd_function_selector call_data,
              fc_args = entrypoint_args options (cd_encoded_calls call_data), fc_function_type = Private,
              fc_is_static = False, fc_hide_msg_sender = False\<rparr>],
            ep_auth_witnesses = cd_payload_auth_witness call_data # ep_auth_witnesses exec,
            ep_capsules = ep_capsules exec,
            ep_extra_hashed_args = ee_hashed_args_list (cd_encoded_calls call_data) @ ep_extra_hashed_args exec,
            ep_fee_payer = (case ep_fee_payer exec of Some fp \<Rightarrow> Some fp | None \<Rightarrow> Some (da_address self))\<rparr>)"

subsection \<open>The multi-call entrypoint\<close>

definition multi_call_entrypoint :: aztec_address where
  "multi_call_entrypoint = AztecAddress 4"

definition multi_call_data ::
    "crypto \<Rightarrow> fr \<Rightarrow> execution_payload \<Rightarrow> (encoded_app_entrypoint_calls \<times> fr list \<times> function_selector) result" where
  "multi_call_data C random exec =
     bind_result (encoded_calls_create C random (ep_calls exec) None) (\<lambda>encoded_calls.
     bind_result (encode_arguments multi_call_entrypoint_abi [build_app_payload_value encoded_calls]) (\<lambda>encoded_args.
       Inr (encoded_calls, encoded_args, function_selector_from_name_and_parameters C
         (fa_name multi_call_entrypoint_abi) (fa_parameters multi_call_entrypoint_abi))))"

definition multi_call_create_tx_execution_request ::
    "crypto \<Rightarrow> aztec_address \<Rightarrow> fr \<Rightarrow> fr \<Rightarrow> execution_payload \<Rightarrow> gas_settings \<Rightarrow> chain_info \<Rightarrow>
     tx_execution_request result" where
  "multi_call_create_tx_execution_request C address random salt exec gas chain =
     bind_result (multi_call_data C random exec) (\<lambda>(encoded_calls, encoded_args, selector).
       let hashed_args = from_args C encoded_args
       in Inr \<lparr>tr_origin = address, tr_function_selector = selector,
            tr_first_call_args_hash = hv_hash hashed_args,
            tr_tx_context = \<lparr>tc_chain_id = ci_chain_id chain, tc_version = ci_version chain, tc_gas_settings = gas\<rparr>,
            tr_args_of_calls = ee_hashed_args_list encoded_calls @ [hashed_args] @ ep_extra_hashed_args exec,
            tr_auth_witnesses = ep_auth_witnesses exec, tr_capsules = ep_capsules exec, tr_salt = salt,
            tr_fee_payer = other_payer address (ep_fee_payer exec)\<rparr>)"

definition multi_call_wrap_execution_payload ::
    "crypto \<Rightarrow> aztec_address \<Rightarrow> fr \<Rightarrow> execution_payload \<Rightarrow> execution_payload result" where
  "multi_call_wrap_execution_payload C address random exec =
     bind_result (multi_call_data C random exec) (\<lambda>(encoded_calls, encoded_args, selector).
       Inr \<lparr>ep_calls = [\<lparr>fc_to = address, fc_selector = selector,
              fc_args = [build_app_payload_value encoded_calls], fc_function_type = Private,
              fc_is_static = False, fc_hide_msg_sender = False\<rparr>],
            ep_auth_witnesses = ep_auth_witnesses exec, ep_capsules = ep_capsules exec,
            ep_extra_hashed_args = ee_hashed_args_list encoded_calls @ ep_extra_hashed_args exec,
            ep_fee_payer = ep_fee_payer exec\<rparr>)"

subsection \<open>Accounts\<close>

text \<open>The traits \<open>Account\<close> and \<open>AccountContract\<close>. A panic is an error; the first two arguments of a request are
  the fresh nonce and salt, the first argument of a wrap is the fresh nonce.\<close>

record account =
  acc_complete_address :: "complete_address result"
  acc_address :: "aztec_address result"
  acc_create_auth_wit :: authorization_provider
  acc_create_tx_execution_request ::
    "fr \<Rightarrow> fr \<Rightarrow> execution_payload \<Rightarrow> gas_settings \<Rightarrow> chain_info \<Rightarrow> entrypoint_options \<Rightarrow> tx_execution_request result"
  acc_wrap_execution_payload :: "fr \<Rightarrow> execution_payload \<Rightarrow> entrypoint_options \<Rightarrow> execution_payload result"

record initialization_spec =
  is_constructor_name :: string
  is_constructor_args :: "abi_value list"

record account_contract =
  ak_contract_artifact :: "contract_artifact result"
  ak_initialization_function_and_args :: "initialization_spec option result"
  ak_account :: "complete_address \<Rightarrow> account"

subsection \<open>The Schnorr account\<close>

definition resolve_message_hash :: "crypto \<Rightarrow> message_hash_or_intent \<Rightarrow> chain_info \<Rightarrow> fr" where
  "resolve_message_hash C intent chain =
     (case intent of Hash hash \<Rightarrow> hash | _ \<Rightarrow> compute_auth_wit_message_hash C intent chain)"

definition schnorr_create_auth_wit :: "crypto \<Rightarrow> curve \<Rightarrow> fq \<Rightarrow> authorization_provider" where
  "schnorr_create_auth_wit C V signing_key intent chain =
     (let message_hash = resolve_message_hash C intent chain
      in Inr \<lparr>aw_request_hash = message_hash,
           aw_fields = signature_to_fields (schnorr_sign V signing_key message_hash)\<rparr>)"

definition fee_payment_method_from :: "u8 \<Rightarrow> account_fee_payment_method_options" where
  "fee_payment_method_from m = (if m = 1 then PreexistingFeeJuice else if m = 2 then FeeJuiceWithClaim else External)"

definition schnorr_entrypoint_options :: "entrypoint_options \<Rightarrow> default_account_entrypoint_options" where
  "schnorr_entrypoint_options options =
     (case eo_fee_payment_method options of
        Some m \<Rightarrow> entrypoint_options_default\<lparr>de_fee_payment_method_options := fee_payment_method_from m\<rparr>
      | None \<Rightarrow> entrypoint_options_default)"

definition schnorr_account :: "crypto \<Rightarrow> curve \<Rightarrow> fq \<Rightarrow> complete_address \<Rightarrow> account" where
  "schnorr_account C V signing_key address =
     (let entrypoint = \<lparr>da_address = co_address address, da_auth = schnorr_create_auth_wit C V signing_key\<rparr>
      in \<lparr>acc_complete_address = Inr address, acc_address = Inr (co_address address),
          acc_create_auth_wit = schnorr_create_auth_wit C V signing_key,
          acc_create_tx_execution_request = (\<lambda>random salt exec gas chain options.
            create_tx_execution_request C entrypoint random salt exec gas chain (schnorr_entrypoint_options options)),
          acc_wrap_execution_payload = (\<lambda>random exec _.
            wrap_execution_payload C entrypoint random exec \<lparr>ci_chain_id = fr_from_u64 0, ci_version = fr_from_u64 0\<rparr>
              entrypoint_options_default)\<rparr>)"

record schnorr_account_contract =
  sc_secret_key :: fr
  sc_signing_key :: fq
  sc_signing_public_key :: point

definition schnorr_new_with_signing_key :: "curve \<Rightarrow> fr \<Rightarrow> fq \<Rightarrow> schnorr_account_contract" where
  "schnorr_new_with_signing_key V secret_key signing_key =
     \<lparr>sc_secret_key = secret_key, sc_signing_key = signing_key,
      sc_signing_public_key = derive_public_key_from_secret_key V signing_key\<rparr>"

definition schnorr_new :: "curve \<Rightarrow> fr \<Rightarrow> schnorr_account_contract" where
  "schnorr_new V secret_key = schnorr_new_with_signing_key V secret_key (derive_signing_key V secret_key)"

definition constructor_artifact :: function_artifact where
  "constructor_artifact =
     \<lparr>fa_name = ''constructor'', fa_function_type = Private, fa_is_initializer = True, fa_is_static = False,
      fa_is_only_self = None,
      fa_parameters = [field_param ''signing_pub_key_x'' TField, field_param ''signing_pub_key_y'' TField],
      fa_return_types = [], fa_error_types = None, fa_selector = None, fa_bytecode = None,
      fa_verification_key_hash = None, fa_verification_key = None, fa_custom_attributes = None,
      fa_is_unconstrained = None, fa_debug_symbols = None\<rparr>"

definition schnorr_contract_artifact :: contract_artifact where
  "schnorr_contract_artifact =
     \<lparr>ca_name = ''SchnorrAccount'', ca_functions = [constructor_artifact, entrypoint_abi], ca_outputs = None,
      ca_file_map = None, ca_context_inputs_sizes = None\<rparr>"

definition schnorr_initialization :: "schnorr_account_contract \<Rightarrow> initialization_spec" where
  "schnorr_initialization self =
     \<lparr>is_constructor_name = ''constructor'',
      is_constructor_args = [VField (point_x (sc_signing_public_key self)), VField (point_y (sc_signing_public_key self))]\<rparr>"

definition schnorr_contract :: "crypto \<Rightarrow> curve \<Rightarrow> schnorr_account_contract \<Rightarrow> account_contract" where
  "schnorr_contract C V self =
     \<lparr>ak_contract_artifact = Inr schnorr_contract_artifact,
      ak_initialization_function_and_args = Inr (Some (schnorr_initialization self)),
      ak_account = schnorr_account C V (sc_signing_key self)\<rparr>"

subsection \<open>The signerless account\<close>

definition signerless_account :: "crypto \<Rightarrow> account" where
  "signerless_account C =
     \<lparr>acc_complete_address = Inl (Panic ''SignerlessAccount does not have a complete address''),
      acc_address = Inl (Panic ''SignerlessAccount does not have an address''),
      acc_create_auth_wit = (\<lambda>_ _. Inl (InvalidData ''SignerlessAccount does not support authorization witnesses'')),
      acc_create_tx_execution_request = (\<lambda>random salt exec gas chain _.
        multi_call_create_tx_execution_request C multi_call_entrypoint random salt exec gas chain),
      acc_wrap_execution_payload = (\<lambda>random exec _. multi_call_wrap_execution_payload C multi_call_entrypoint random exec)\<rparr>"

subsection \<open>The provider with one account\<close>

record single_account_provider =
  sp_complete_address :: complete_address
  sp_account_contract :: account_contract
  sp_alias :: string

text \<open>\<open>serde_json::to_value\<close> of a request is the argument \<open>to_value\<close>.\<close>

definition provider_create_tx_execution_request ::
    "(tx_execution_request \<Rightarrow> json result) \<Rightarrow> single_account_provider \<Rightarrow> fr \<Rightarrow> fr \<Rightarrow> aztec_address \<Rightarrow> execution_payload \<Rightarrow>
     gas_settings \<Rightarrow> chain_info \<Rightarrow> aztec_address option \<Rightarrow> u8 option \<Rightarrow> json result" where
  "provider_create_tx_execution_request to_value self random salt from exec gas chain fee_payer fee_payment_method =
     (if from \<noteq> co_address (sp_complete_address self) then Inl (InvalidData ''account not found'')
      else
        bind_result (acc_create_tx_execution_request (ak_account (sp_account_contract self) (sp_complete_address self))
            random salt exec gas chain
            \<lparr>eo_fee_payer = fee_payer, eo_gas_settings = Some gas, eo_fee_payment_method = fee_payment_method\<rparr>)
          (\<lambda>request. case to_value request of Inr v \<Rightarrow> Inr v | Inl _ \<Rightarrow> Inl (InvalidData ''invalid request'')))"

definition provider_create_auth_wit ::
    "crypto \<Rightarrow> single_account_provider \<Rightarrow> aztec_address \<Rightarrow> message_hash_or_intent \<Rightarrow> chain_info \<Rightarrow> auth_witness result" where
  "provider_create_auth_wit C self from intent chain =
     (if from \<noteq> co_address (sp_complete_address self) then Inl (InvalidData ''account not found'')
      else
        let hash = (case intent of Hash h \<Rightarrow> h | _ \<Rightarrow> compute_auth_wit_message_hash C intent chain)
        in bind_result (acc_create_auth_wit (ak_account (sp_account_contract self) (sp_complete_address self))
               (Hash hash) chain)
             (\<lambda>witness. Inr (witness\<lparr>aw_request_hash := hash\<rparr>)))"

definition provider_get_complete_address ::
    "single_account_provider \<Rightarrow> aztec_address \<Rightarrow> complete_address option" where
  "provider_get_complete_address self address =
     (if address = co_address (sp_complete_address self) then Some (sp_complete_address self) else None)"

definition provider_get_accounts :: "single_account_provider \<Rightarrow> (string \<times> aztec_address) list" where
  "provider_get_accounts self = [(sp_alias self, co_address (sp_complete_address self))]"

subsection \<open>Paying fees through the account\<close>

record fee_payment_method =
  fm_get_asset :: "aztec_address result"
  fm_get_fee_payer :: "aztec_address result"
  fm_get_fee_execution_payload :: "execution_payload result"

definition fee_juice :: aztec_address where
  "fee_juice = AztecAddress 5"

text \<open>Only naming the payer: the fee juice of an account.\<close>

definition native_fee_payment_method :: "aztec_address \<Rightarrow> fee_payment_method" where
  "native_fee_payment_method sender =
     \<lparr>fm_get_asset = Inr fee_juice, fm_get_fee_payer = Inr sender,
      fm_get_fee_execution_payload = Inr (execution_payload_default\<lparr>ep_fee_payer := Some sender\<rparr>)\<rparr>"

definition private_call_to :: "aztec_address \<Rightarrow> function_selector \<Rightarrow> abi_value list \<Rightarrow> function_call" where
  "private_call_to contract selector args =
     \<lparr>fc_to = contract, fc_selector = selector, fc_args = args, fc_function_type = Private, fc_is_static = False,
      fc_hide_msg_sender = False\<rparr>"

definition sponsored_fee_payment_method :: "crypto \<Rightarrow> aztec_address \<Rightarrow> fee_payment_method" where
  "sponsored_fee_payment_method C payment_contract =
     \<lparr>fm_get_asset = Inl (InvalidData ''SponsoredFeePaymentMethod does not have an associated asset''),
      fm_get_fee_payer = Inr payment_contract,
      fm_get_fee_execution_payload = Inr (execution_payload_default
        \<lparr>ep_calls := [private_call_to payment_contract
           (function_selector_from_signature C ''sponsor_unconditionally()'') []],
         ep_fee_payer := Some payment_contract\<rparr>)\<rparr>"

record l2_amount_claim =
  lc_claim_amount :: "128 word"
  lc_claim_secret :: fr
  lc_message_leaf_index :: u64

definition fee_juice_with_claim :: "crypto \<Rightarrow> aztec_address \<Rightarrow> l2_amount_claim \<Rightarrow> fee_payment_method" where
  "fee_juice_with_claim C sender claim =
     \<lparr>fm_get_asset = Inr fee_juice, fm_get_fee_payer = Inr sender,
      fm_get_fee_execution_payload = Inr (execution_payload_default
        \<lparr>ep_calls := [private_call_to fee_juice
           (function_selector_from_signature C ''claim_and_end_setup((Field),u128,Field,Field)'')
           [VField (address_field sender), VInteger (lc_claim_amount claim), VField (lc_claim_secret claim),
            VField (fr_from_u64 (lc_message_leaf_index claim))]],
         ep_fee_payer := Some sender\<rparr>)\<rparr>"

definition meta_get_asset :: "fee_payment_method option \<Rightarrow> aztec_address result" where
  "meta_get_asset inner = (case inner of Some f \<Rightarrow> fm_get_asset f | None \<Rightarrow> Inr fee_juice)"

definition meta_get_fee_payer :: "account \<Rightarrow> fee_payment_method option \<Rightarrow> aztec_address result" where
  "meta_get_fee_payer acc inner = (case inner of Some f \<Rightarrow> fm_get_fee_payer f | None \<Rightarrow> acc_address acc)"

definition meta_options ::
    "account \<Rightarrow> fee_payment_method option \<Rightarrow> execution_payload \<Rightarrow> default_account_entrypoint_options result" where
  "meta_options acc inner inner_payload =
     bind_result (meta_get_fee_payer acc inner) (\<lambda>fee_payer.
     bind_result (acc_address acc) (\<lambda>address.
       Inr \<lparr>de_cancellable = False, de_tx_nonce = None,
         de_fee_payment_method_options =
           (if fee_payer = address \<and> ep_calls inner_payload \<noteq> [] then FeeJuiceWithClaim
            else if fee_payer = address then PreexistingFeeJuice else External)\<rparr>))"

definition meta_get_fee_execution_payload ::
    "account \<Rightarrow> fr \<Rightarrow> fee_payment_method option \<Rightarrow> default_account_entrypoint_options option \<Rightarrow>
     execution_payload result" where
  "meta_get_fee_execution_payload acc random inner fee_entrypoint_options =
     bind_result (case inner of Some f \<Rightarrow> fm_get_fee_execution_payload f | None \<Rightarrow> Inr execution_payload_default)
       (\<lambda>inner_payload.
     bind_result (case fee_entrypoint_options of Some opts \<Rightarrow> Inr opts | None \<Rightarrow> meta_options acc inner inner_payload)
       (\<lambda>options. acc_wrap_execution_payload acc random inner_payload (entrypoint_options_from options)))"

subsection \<open>Authorization requests\<close>

datatype authorization_selector = AuthorizationSelector "u8 list"

definition authorization_selector_from_field :: "fr \<Rightarrow> authorization_selector" where
  "authorization_selector_from_field f = AuthorizationSelector (field_to_selector_bytes f)"

definition authorization_selector_from_signature :: "crypto \<Rightarrow> string \<Rightarrow> authorization_selector" where
  "authorization_selector_from_signature C signature = AuthorizationSelector (selector_from_signature C signature)"

record call_authorization_request =
  cr_selector :: authorization_selector
  cr_inner_hash :: fr
  cr_msg_sender :: aztec_address
  cr_function_selector :: function_selector
  cr_args_hash :: fr
  cr_args :: "fr list"

definition call_authorization_selector :: "crypto \<Rightarrow> authorization_selector" where
  "call_authorization_selector C = authorization_selector_from_signature C ''CallAuthorization((Field),(u32),Field)''"

definition call_authorization_from_fields :: "crypto \<Rightarrow> fr list \<Rightarrow> call_authorization_request result" where
  "call_authorization_from_fields C fs =
     (if length fs < 5 then Inl (InvalidData ''CallAuthorizationRequest requires at least 5 fields'')
      else
        let selector = authorization_selector_from_field (fs ! 0)
        in if selector \<noteq> call_authorization_selector C
           then Inl (InvalidData ''invalid authorization selector for CallAuthorizationRequest'')
           else Inr \<lparr>cr_selector = selector, cr_inner_hash = fs ! 1, cr_msg_sender = AztecAddress (fs ! 2),
                  cr_function_selector = function_selector_from_field (fs ! 3), cr_args_hash = fs ! 4,
                  cr_args = drop 5 fs\<rparr>)"

subsection \<open>What is signed is what is run\<close>

lemma encode_call_value:
  "encode_value function_call_struct (build_encoded_call_value call) = Inr (encoded_call_fields call)"
proof -
  have selector: "encode_value function_selector_struct (VField f) = Inr [f]" for f
    by (simp add: function_selector_struct_def field_param_def is_address_struct_def ends_with_def suffix_to_prefix)
  have address: "encode_value address_struct (VField f) = Inr [f]" for f
    by (simp add: address_struct_def field_param_def is_address_struct_def ends_with_def suffix_to_prefix)
  show ?thesis
    by (simp add: function_call_struct_def build_encoded_call_value_def field_param_def is_address_struct_def
        ends_with_def suffix_to_prefix selector address concat_result_def encoded_call_fields_def)
qed

lemma encode_payload_value:
  assumes "length (ee_encoded_calls e) = 5"
  shows "encode_value app_payload_struct (build_app_payload_value e) = Inr (encoded_calls_fields e)"
proof -
  have "map_result (encode_value function_call_struct) (map build_encoded_call_value calls) =
      Inr (map encoded_call_fields calls)" for calls
    by (induction calls) (simp_all add: encode_call_value)
  then have "encode_value (TArray function_call_struct 5) (VArray (map build_encoded_call_value (ee_encoded_calls e))) =
      Inr (concat (map encoded_call_fields (ee_encoded_calls e)))"
    using assms by (simp add: concat_result_def)
  then show ?thesis
    by (simp del: encode_value.simps(4) add: app_payload_struct_def build_app_payload_value_def field_param_def
        is_address_struct_def ends_with_def suffix_to_prefix concat_result_def encoded_calls_fields_def)
qed

lemma encode_entrypoint_args:
  assumes "length (ee_encoded_calls e) = 5"
  shows "encode_arguments entrypoint_abi (entrypoint_args options e) =
      Inr (encoded_calls_fields e @
        [fr_from_u128 (fee_payment_code (de_fee_payment_method_options options)), fr_from_bool (de_cancellable options)])"
  using encode_payload_value[OF assms]
  by (simp add: encode_arguments_def entrypoint_abi_def entrypoint_artifact_def entrypoint_args_def field_param_def
      encode_integer_def concat_result_def)

end
