(* ===== verification/Entrypoint_Calls.thy ===== *)
theory Entrypoint_Calls
  imports Account_Entrypoint Oracle_Calls Simulated_Kernel
begin

text \<open>
  How the PXE takes a transaction request apart and puts the results of its calls together:
  \<open>parse_encoded_calls\<close>, \<open>decode_entrypoint_calls\<close>, the calls of protocol contracts and of public functions,
  which are not executed but recorded, and \<open>aggregate_call_bundles\<close>
  (\<open>crates/pxe/src/embedded_pxe.rs\<close>). Reading a request from JSON is \<open>serde\<close>'s and an argument where needed.
\<close>

subsection \<open>Requests\<close>

record decoded_tx_execution_request =
  dr_origin :: aztec_address
  dr_first_call_args_hash :: fr
  dr_args_of_calls :: "hashed_values list"
  dr_fee_payer :: "aztec_address option"

record parsed_entrypoint_call =
  pe_args_hash :: fr
  pe_selector :: function_selector
  pe_to :: aztec_address
  pe_is_public :: bool
  pe_hide_msg_sender :: bool
  pe_is_static :: bool

definition parsed_call_at :: "fr list \<Rightarrow> nat \<Rightarrow> parsed_entrypoint_call" where
  "parsed_call_at fs offset =
     \<lparr>pe_args_hash = fs ! offset, pe_selector = function_selector_from_field (fs ! (offset + 1)),
      pe_to = AztecAddress (fs ! (offset + 2)), pe_is_public = (fs ! (offset + 3) \<noteq> 0),
      pe_hide_msg_sender = (fs ! (offset + 4) \<noteq> 0), pe_is_static = (fs ! (offset + 5) \<noteq> 0)\<rparr>"

definition parse_encoded_calls :: "fr list \<Rightarrow> parsed_entrypoint_call list result" where
  "parse_encoded_calls fs =
     (if length fs < 6 * APP_MAX_CALLS + 1 then Inl (InvalidData ''entrypoint args too short'')
      else Inr (map (\<lambda>idx. parsed_call_at fs (idx * 6)) [0..<APP_MAX_CALLS]))"

record decoded_entrypoint_call =
  dc_to :: aztec_address
  dc_selector :: function_selector
  dc_encoded_args :: "fr list"
  dc_hide_msg_sender :: bool
  dc_is_static :: bool

definition find_hashed :: "fr \<Rightarrow> hashed_values list \<Rightarrow> hashed_values option" where
  "find_hashed hash = find (\<lambda>hv. hv_hash hv = hash)"

definition decode_parsed_call ::
    "decoded_tx_execution_request \<Rightarrow> parsed_entrypoint_call \<Rightarrow> decoded_entrypoint_call result" where
  "decode_parsed_call request call =
     bind_result (ok_or (InvalidData ''call args hash not found in argsOfCalls'')
         (find_hashed (pe_args_hash call) (dr_args_of_calls request))) (\<lambda>hashed_args.
       Inr \<lparr>dc_to = pe_to call, dc_selector = pe_selector call,
            dc_encoded_args = (if pe_is_public call then drop 1 (hv_values hashed_args) else hv_values hashed_args),
            dc_hide_msg_sender = pe_hide_msg_sender call, dc_is_static = pe_is_static call\<rparr>)"

definition decode_entrypoint_calls :: "decoded_tx_execution_request \<Rightarrow> decoded_entrypoint_call list result" where
  "decode_entrypoint_calls request =
     bind_result (ok_or (InvalidData ''firstCallArgsHash not found in argsOfCalls'')
         (find_hashed (dr_first_call_args_hash request) (dr_args_of_calls request))) (\<lambda>entrypoint_args.
     bind_result (parse_encoded_calls (hv_values entrypoint_args)) (\<lambda>encoded_calls.
       map_result (decode_parsed_call request)
         (filter (\<lambda>call. \<not> (pe_to call = aztec_address_zero \<or> pe_selector call = function_selector_empty))
            encoded_calls)))"

definition has_public_calls :: "decoded_tx_execution_request \<Rightarrow> bool" where
  "has_public_calls request =
     (case find_hashed (dr_first_call_args_hash request) (dr_args_of_calls request) of
        Some ea \<Rightarrow> (case parse_encoded_calls (hv_values ea) of Inr calls \<Rightarrow> list_ex pe_is_public calls | Inl _ \<Rightarrow> False)
      | None \<Rightarrow> False)"

subsection \<open>Names of protocol functions\<close>

definition auth_registry :: aztec_address where
  "auth_registry = AztecAddress 1"

definition set_authorized_signature :: string where
  "set_authorized_signature = ''set_authorized(Field,bool)''"

definition consume_signature :: string where
  "consume_signature = ''consume((Field),Field)''"

definition resolve_protocol_function_name :: "crypto \<Rightarrow> aztec_address \<Rightarrow> function_selector \<Rightarrow> string option" where
  "resolve_protocol_function_name C addr sel =
     (if addr = contract_class_registry \<and> sel = function_selector_from_signature C publish_class_signature
      then Some ''publish''
      else if addr = contract_instance_registry \<and> sel = function_selector_from_signature C publish_instance_signature
      then Some ''publish_for_public_execution''
      else if addr = auth_registry \<and> sel = function_selector_from_signature C set_authorized_signature
      then Some set_authorized_signature
      else if addr = auth_registry \<and> sel = function_selector_from_signature C consume_signature
      then Some consume_signature
      else None)"

subsection \<open>Bundles\<close>

record 'w call_execution_bundle =
  cb_execution_result :: "'w private_execution_result"
  cb_contract_class_log_fields :: "fr list list"
  cb_public_function_calldata :: "hashed_values list"
  cb_first_acir_call_return_values :: "fr list"
  cb_simulated_return_values :: "fr list"

text \<open>A call result that differs from the default in what \<open>f\<close> sets.\<close>

definition call_with :: "'w \<Rightarrow> ('w private_call \<Rightarrow> 'w private_call) \<Rightarrow> 'w private_call_execution_result" where
  "call_with empty_witness f =
     PrivateCall (f (call_data (private_call_default empty_witness))) []"

definition recorded_bundle ::
    "'w private_call_execution_result \<Rightarrow> fr \<Rightarrow> fr list list \<Rightarrow> hashed_values list \<Rightarrow> 'w call_execution_bundle" where
  "recorded_bundle entrypoint first_nullifier log_fields calldata =
     \<lparr>cb_execution_result = \<lparr>er_entrypoint = entrypoint, er_first_nullifier = first_nullifier,
        er_expiration_timestamp = 0, er_public_function_calldata = calldata\<rparr>,
      cb_contract_class_log_fields = log_fields, cb_public_function_calldata = calldata,
      cb_first_acir_call_return_values = [], cb_simulated_return_values = []\<rparr>"

definition publish_class_bundle ::
    "crypto \<Rightarrow> 'w \<Rightarrow> capsule list result \<Rightarrow> aztec_address \<Rightarrow> fr list \<Rightarrow> aztec_address \<Rightarrow> fr \<Rightarrow>
     'w call_execution_bundle result" where
  "publish_class_bundle C empty_witness capsules contract_address encoded_args origin first_nullifier =
     bind_result (ok_or (InvalidData ''publish missing artifact_hash'') (list_get encoded_args 0)) (\<lambda>artifact_hash.
     bind_result (ok_or (InvalidData ''publish missing private_functions_root'') (list_get encoded_args 1)) (\<lambda>root.
     bind_result (ok_or (InvalidData ''publish missing public_bytecode_commitment'') (list_get encoded_args 2))
       (\<lambda>commitment.
     bind_result capsules (\<lambda>capsules.
       let class_id = compute_contract_class_id C artifact_hash root commitment;
           bytecode_fields = (case find (\<lambda>c. cap_contract_address c = contract_class_registry \<and>
               cap_storage_slot c = contract_class_registry_bytecode_capsule_slot) capsules of
             Some c \<Rightarrow> cap_data c | None \<Rightarrow> []);
           emitted = [contract_class_published_magic_value, class_id, fr_from_u64 1, artifact_hash, root] @ bytecode_fields;
           entrypoint = call_with empty_witness (\<lambda>d. d
             \<lparr>call_contract_address := contract_address,
              call_call_context := \<lparr>cc_msg_sender = origin, cc_contract_address = contract_address,
                cc_function_selector = function_selector_to_field
                  (function_selector_from_signature C publish_class_signature), cc_is_static_call = False\<rparr>,
              call_nullifiers := [\<lparr>snf_nullifier = \<lparr>nf_value = class_id, nf_note_hash = 0, nf_counter = 2\<rparr>,
                snf_contract_address = contract_address\<rparr>],
              call_contract_class_logs := [\<lparr>cccl_log = \<lparr>ccl_contract_address = contract_address, ccl_fields = emitted,
                ccl_emitted_length = of_nat (length emitted)\<rparr>, cccl_counter = 3\<rparr>],
              call_start_side_effect_counter := 2, call_end_side_effect_counter := 4,
              call_min_revertible_side_effect_counter := 2\<rparr>)
       in Inr (recorded_bundle entrypoint first_nullifier [from_emitted_fields emitted] [])))))"

definition publish_instance_bundle ::
    "crypto \<Rightarrow> curve \<Rightarrow> 'w \<Rightarrow> aztec_address \<Rightarrow> fr list \<Rightarrow> aztec_address \<Rightarrow> fr \<Rightarrow> 'w call_execution_bundle result" where
  "publish_instance_bundle C V empty_witness contract_address encoded_args origin first_nullifier =
     (if length encoded_args < 16 then Inl (InvalidData ''publish_for_public_execution args too short'')
      else
        let salt = encoded_args ! 0; class_id = encoded_args ! 1; initialization_hash = encoded_args ! 2;
            public_keys = \<lparr>master_nullifier_public_key = decode_point encoded_args 3,
              master_incoming_viewing_public_key = decode_point encoded_args 6,
              master_outgoing_viewing_public_key = decode_point encoded_args 9,
              master_tagging_public_key = decode_point encoded_args 12\<rparr>;
            deployer = (if encoded_args ! 15 \<noteq> 0 then aztec_address_zero else origin)
        in bind_result (compute_contract_address_from_instance C V
              \<lparr>in_version = 1, in_salt = salt, in_deployer = deployer, in_current_contract_class_id = class_id,
               in_original_contract_class_id = class_id, in_initialization_hash = initialization_hash,
               in_public_keys = public_keys\<rparr>) (\<lambda>instance_address.
             let emitted = [contract_instance_published_magic_value, address_field instance_address, fr_from_u64 1, salt,
                   class_id, initialization_hash] @
                   concat (map (\<lambda>p. [point_x p, point_y p])
                     [master_nullifier_public_key public_keys, master_incoming_viewing_public_key public_keys,
                      master_outgoing_viewing_public_key public_keys, master_tagging_public_key public_keys]) @
                   [address_field deployer, 0];
                 entrypoint = call_with empty_witness (\<lambda>d. d
                   \<lparr>call_contract_address := contract_address,
                    call_call_context := \<lparr>cc_msg_sender = origin, cc_contract_address = contract_address,
                      cc_function_selector = function_selector_to_field
                        (function_selector_from_signature C publish_instance_signature), cc_is_static_call = False\<rparr>,
                    call_nullifiers := [\<lparr>snf_nullifier = \<lparr>nf_value = address_field instance_address, nf_note_hash = 0,
                      nf_counter = 2\<rparr>, snf_contract_address = contract_address\<rparr>],
                    call_private_logs := [\<lparr>pld_fields = emitted, pld_emitted_length = 15, pld_note_hash_counter = 0,
                      pld_counter = 3, pld_contract_address = contract_address\<rparr>],
                    call_start_side_effect_counter := 2, call_end_side_effect_counter := 4,
                    call_min_revertible_side_effect_counter := 2\<rparr>)
             in Inr (recorded_bundle entrypoint first_nullifier [] [])))"

text \<open>\<open>None\<close>: not a private function of a protocol contract.\<close>

definition protocol_private_execution ::
    "crypto \<Rightarrow> curve \<Rightarrow> 'w \<Rightarrow> capsule list result \<Rightarrow> aztec_address \<Rightarrow> string \<Rightarrow> fr list \<Rightarrow> aztec_address \<Rightarrow> fr \<Rightarrow>
     'w call_execution_bundle option result" where
  "protocol_private_execution C V empty_witness capsules contract_address function_name encoded_args origin first_nullifier =
     (if function_name = ''publish'' \<and> contract_address = contract_class_registry
      then bind_result (publish_class_bundle C empty_witness capsules contract_address encoded_args origin first_nullifier)
             (\<lambda>b. Inr (Some b))
      else if function_name = ''publish_for_public_execution'' \<and> contract_address = contract_instance_registry
      then bind_result (publish_instance_bundle C V empty_witness contract_address encoded_args origin first_nullifier)
             (\<lambda>b. Inr (Some b))
      else Inr None)"

subsection \<open>Public calls\<close>

text \<open>The result of a call that enqueues one public call.\<close>

definition enqueued_bundle ::
    "crypto \<Rightarrow> 'w \<Rightarrow> fr list \<Rightarrow> aztec_address \<Rightarrow> aztec_address \<Rightarrow> fr \<Rightarrow> bool \<Rightarrow> bool \<Rightarrow> 'w call_execution_bundle" where
  "enqueued_bundle C empty_witness calldata contract_address origin first_nullifier hide_msg_sender is_static_call =
     (let hashed = from_calldata C calldata;
          msg_sender = (if hide_msg_sender then aztec_address_zero else origin);
          entrypoint = call_with empty_witness (\<lambda>d. d
            \<lparr>call_contract_address := origin,
             call_public_call_requests := [\<lparr>pcd_contract_address = contract_address, pcd_msg_sender = msg_sender,
               pcd_is_static_call = is_static_call, pcd_calldata_hash = hv_hash hashed, pcd_counter = 2\<rparr>],
             call_start_side_effect_counter := 2, call_min_revertible_side_effect_counter := 2,
             call_end_side_effect_counter := 3\<rparr>)
      in recorded_bundle entrypoint first_nullifier [] [hashed])"

definition protocol_public_execution ::
    "crypto \<Rightarrow> 'w \<Rightarrow> aztec_address \<Rightarrow> string \<Rightarrow> fr list \<Rightarrow> aztec_address \<Rightarrow> fr \<Rightarrow> bool \<Rightarrow> bool \<Rightarrow>
     'w call_execution_bundle option" where
  "protocol_public_execution C empty_witness contract_address function_name encoded_args origin first_nullifier
      hide_msg_sender is_static_call =
     (if contract_address \<noteq> auth_registry then None
      else Some (enqueued_bundle C empty_witness
        (function_selector_to_field (function_selector_from_signature C function_name) # encoded_args)
        contract_address origin first_nullifier hide_msg_sender is_static_call))"

definition build_public_call_execution ::
    "crypto \<Rightarrow> 'w \<Rightarrow> contract_artifact \<Rightarrow> string \<Rightarrow> fr list \<Rightarrow> aztec_address \<Rightarrow> aztec_address \<Rightarrow> fr \<Rightarrow> bool \<Rightarrow> bool \<Rightarrow>
     'w call_execution_bundle result" where
  "build_public_call_execution C empty_witness artifact function_name encoded_args contract_address origin
      first_nullifier hide_msg_sender is_static_call =
     bind_result (find_function artifact function_name) (\<lambda>func.
     bind_result (ok_or (InvalidData ''public function has no selector'') (fa_selector func)) (\<lambda>selector.
       Inr (enqueued_bundle C empty_witness (function_selector_to_field selector # encoded_args)
         contract_address origin first_nullifier hide_msg_sender is_static_call)))"

subsection \<open>Putting the calls together\<close>

definition shift :: "u32 \<Rightarrow> u32 \<Rightarrow> u32" where
  "shift offset c = saturating_add_u32 c offset"

definition shift_read_request :: "u32 \<Rightarrow> scoped_read_request \<Rightarrow> scoped_read_request" where
  "shift_read_request n x =
     x\<lparr>srr_read_request := (srr_read_request x)\<lparr>rr_counter := shift n (rr_counter (srr_read_request x))\<rparr>\<rparr>"

text \<open>Collecting pairs into a map.\<close>

definition collect_map :: "counter_map \<Rightarrow> counter_map" where
  "collect_map entries = fold (\<lambda>(k, v) m. AList.update k v m) entries []"

definition offset_call :: "u32 \<Rightarrow> 'w private_call \<Rightarrow> 'w private_call" where
  "offset_call n c = c
     \<lparr>call_start_side_effect_counter := shift n (call_start_side_effect_counter c),
      call_end_side_effect_counter := shift n (call_end_side_effect_counter c),
      call_min_revertible_side_effect_counter := shift n (call_min_revertible_side_effect_counter c),
      call_new_notes := map (\<lambda>x. x\<lparr>nas_counter := shift n (nas_counter x)\<rparr>) (call_new_notes c),
      call_note_hash_nullifier_counter_map :=
        collect_map (map (\<lambda>(a, b). (shift n a, shift n b)) (call_note_hash_nullifier_counter_map c)),
      call_contract_class_logs :=
        map (\<lambda>x. x\<lparr>cccl_counter := shift n (cccl_counter x)\<rparr>) (call_contract_class_logs c),
      call_note_hashes :=
        map (\<lambda>x. x\<lparr>snh_note_hash := (snh_note_hash x)\<lparr>nh_counter := shift n (nh_counter (snh_note_hash x))\<rparr>\<rparr>)
          (call_note_hashes c),
      call_nullifiers :=
        map (\<lambda>x. x\<lparr>snf_nullifier := (snf_nullifier x)\<lparr>nf_counter := shift n (nf_counter (snf_nullifier x))\<rparr>\<rparr>)
          (call_nullifiers c),
      call_note_hash_read_requests := map (shift_read_request n) (call_note_hash_read_requests c),
      call_nullifier_read_requests := map (shift_read_request n) (call_nullifier_read_requests c),
      call_private_logs := map (\<lambda>x. x\<lparr>pld_counter := shift n (pld_counter x)\<rparr>) (call_private_logs c),
      call_public_call_requests :=
        map (\<lambda>x. x\<lparr>pcd_counter := shift n (pcd_counter x)\<rparr>) (call_public_call_requests c),
      call_public_teardown_call_request :=
        map_option (\<lambda>x. x\<lparr>pcd_counter := shift n (pcd_counter x)\<rparr>) (call_public_teardown_call_request c)\<rparr>"

fun offset_private_call_result ::
    "u32 \<Rightarrow> 'w private_call_execution_result \<Rightarrow> 'w private_call_execution_result" where
  "offset_private_call_result n (PrivateCall c nested) =
     PrivateCall (offset_call n c) (map (offset_private_call_result n) nested)"

text \<open>The loop over the bundles: each call starts where the one before it ended.\<close>

fun offset_bundles ::
    "u32 \<Rightarrow> 'w call_execution_bundle list \<Rightarrow> 'w private_call_execution_result list \<times> u32" where
  "offset_bundles offset [] = ([], offset)"
| "offset_bundles offset (b # bs) =
     (let adjusted = offset_private_call_result offset (er_entrypoint (cb_execution_result b))
      in case offset_bundles (call_end_side_effect_counter (call_data adjusted)) bs of
           (rest, last_offset) \<Rightarrow> (adjusted # rest, last_offset))"

definition earlier_expiration :: "u64 \<Rightarrow> u64 \<Rightarrow> u64" where
  "earlier_expiration e b = (if b \<noteq> 0 then if e = 0 then b else min e b else e)"

definition bundles_expiration :: "'w call_execution_bundle list \<Rightarrow> u64" where
  "bundles_expiration bundles =
     (case map (\<lambda>b. er_expiration_timestamp (cb_execution_result b)) bundles of
        [] \<Rightarrow> 0 | e # es \<Rightarrow> foldl earlier_expiration e es)"

definition first_or :: "'b \<Rightarrow> ('a \<Rightarrow> 'b) \<Rightarrow> 'a list \<Rightarrow> 'b" where
  "first_or d f xs = (case xs of [] \<Rightarrow> d | x # _ \<Rightarrow> f x)"

definition aggregate_call_bundles ::
    "'w \<Rightarrow> aztec_address \<Rightarrow> 'w call_execution_bundle list \<Rightarrow> 'w call_execution_bundle" where
  "aggregate_call_bundles empty_witness origin bundles =
     (case offset_bundles 0 bundles of
        (nested, offset) \<Rightarrow>
          let calldata = concat (map cb_public_function_calldata bundles);
              root = (case private_call_default empty_witness of PrivateCall d _ \<Rightarrow>
                PrivateCall (d\<lparr>call_contract_address := origin,
                  call_call_context := \<lparr>cc_msg_sender = origin, cc_contract_address = origin, cc_function_selector = 0,
                    cc_is_static_call = False\<rparr>,
                  call_start_side_effect_counter := 0, call_end_side_effect_counter := offset,
                  call_min_revertible_side_effect_counter := first_or 0 (\<lambda>b. call_min_revertible_side_effect_counter
                    (call_data (er_entrypoint (cb_execution_result b)))) bundles\<rparr>) nested)
          in \<lparr>cb_execution_result = \<lparr>er_entrypoint = root,
                er_first_nullifier = first_or 0 (\<lambda>b. er_first_nullifier (cb_execution_result b)) bundles,
                er_expiration_timestamp = bundles_expiration bundles, er_public_function_calldata = calldata\<rparr>,
              cb_contract_class_log_fields = concat (map cb_contract_class_log_fields bundles),
              cb_public_function_calldata = calldata,
              cb_first_acir_call_return_values = first_or [] cb_first_acir_call_return_values bundles,
              cb_simulated_return_values = first_or [] cb_simulated_return_values bundles\<rparr>)"

subsection \<open>Reading the witness\<close>

definition extract_expiration_timestamp_from_witness :: "(u32 \<Rightarrow> fr option) \<Rightarrow> nat \<Rightarrow> nat \<Rightarrow> u64" where
  "extract_expiration_timestamp_from_witness witness params context_size =
     (case witness (of_nat (params + ((context_size - 5) + 8))) of
        Some f \<Rightarrow> fr_to_usize f | None \<Rightarrow> 0)"

end
