(* ===== verification/Entrypoint_Properties.thy ===== *)
theory Entrypoint_Properties
  imports Entrypoint_Calls
begin

text \<open>
  The two sides of an entrypoint agree: what the account encodes and signs is what the PXE decodes; and
  the calls of a request, executed one by one, are put together without mixing their side effects.
\<close>

subsection \<open>From the account to the PXE\<close>

text \<open>The part of a request the PXE reads.\<close>

definition decoded_of_request :: "tx_execution_request \<Rightarrow> decoded_tx_execution_request" where
  "decoded_of_request r =
     \<lparr>dr_origin = tr_origin r, dr_first_call_args_hash = tr_first_call_args_hash r,
      dr_args_of_calls = tr_args_of_calls r, dr_fee_payer = tr_fee_payer r\<rparr>"

definition decoded_of_call :: "function_call \<Rightarrow> decoded_entrypoint_call" where
  "decoded_of_call call =
     \<lparr>dc_to = fc_to call, dc_selector = fc_selector call, dc_encoded_args = abi_values_to_fields (fc_args call),
      dc_hide_msg_sender = fc_hide_msg_sender call, dc_is_static = fc_is_static call\<rparr>"

definition proper_call :: "function_call \<Rightarrow> bool" where
  "proper_call call \<longleftrightarrow> fc_to call \<noteq> aztec_address_zero \<and> fc_selector call \<noteq> function_selector_empty \<and>
     length (selector_bytes (fc_selector call)) = 4"

definition no_collisions :: "hashed_values list \<Rightarrow> bool" where
  "no_collisions hvs \<longleftrightarrow> (\<forall>a \<in> set hvs. \<forall>b \<in> set hvs. hv_hash a = hv_hash b \<longrightarrow> hv_values a = hv_values b)"

lemma find_hashed_found:
  assumes "no_collisions hvs" and "hv \<in> set hvs"
  shows "\<exists>hv'. find_hashed (hv_hash hv) (hvs @ rest) = Some hv' \<and> hv_values hv' = hv_values hv"
  using assms
proof -
  have "\<exists>hv'. find_hashed (hv_hash hv) (xs @ rest) = Some hv' \<and> hv' \<in> set xs \<and> hv_hash hv' = hv_hash hv"
    if "hv \<in> set xs" for xs using that by (induction xs) (auto simp: find_hashed_def)
  then show ?thesis using assms unfolding no_collisions_def by metis
qed

definition parsed_of :: "encoded_call \<Rightarrow> parsed_entrypoint_call" where
  "parsed_of ec =
     \<lparr>pe_args_hash = ec_args_hash ec, pe_selector = function_selector_from_field (ec_function_selector ec),
      pe_to = AztecAddress (ec_target_address ec), pe_is_public = ec_is_public ec,
      pe_hide_msg_sender = ec_hide_msg_sender ec, pe_is_static = ec_is_static ec\<rparr>"

lemma fr_from_bool_zero [simp]: "fr_from_bool b = 0 \<longleftrightarrow> \<not> b"
  by (simp add: fr_from_bool_def)

lemma parsed_call_fields: "parsed_call_at (xs @ encoded_call_fields ec @ ys) (length xs) = parsed_of ec"
  by (simp add: parsed_call_at_def encoded_call_fields_def parsed_of_def nth_append)

lemma parse_encoded_fields:
  assumes "length (ee_encoded_calls e) = 5"
  shows "parse_encoded_calls (encoded_calls_fields e @ ys) = Inr (map parsed_of (ee_encoded_calls e))"
proof -
  have len: "length (concat (map encoded_call_fields ecs)) = 6 * length ecs" for ecs
    by (induction ecs) (simp_all add: encoded_call_fields_def)
  have "parsed_call_at (encoded_calls_fields e @ ys) (i * 6) = parsed_of (ee_encoded_calls e ! i)"
    if "i < length (ee_encoded_calls e)" for i
  proof -
    have "encoded_calls_fields e @ ys = concat (map encoded_call_fields (take i (ee_encoded_calls e))) @
        encoded_call_fields (ee_encoded_calls e ! i) @
        (concat (map encoded_call_fields (drop (Suc i) (ee_encoded_calls e))) @ ee_tx_nonce e # ys)"
      by (subst (1) encoded_calls_fields_def, subst id_take_nth_drop[OF that]) simp
    then show ?thesis
      using parsed_call_fields[of "concat (map encoded_call_fields (take i (ee_encoded_calls e)))"] that
      by (simp add: len mult.commute)
  qed
  then show ?thesis
    using assms len[of "ee_encoded_calls e"]
    by (simp add: parse_encoded_calls_def APP_MAX_CALLS_def encoded_calls_fields_def[of e] list_eq_iff_nth_eq)
qed

lemma selector_field_roundtrip:
  assumes "length (selector_bytes sel) = 4"
  shows "function_selector_from_field (function_selector_to_field sel) = sel"
  using assms function_selector_roundtrips[OF plain_hex_ok, of "selector_bytes sel"] by (cases sel) simp

lemma decode_call:
  assumes "proper_call call" and "hashed_call_args C call \<in> set hvs" and "no_collisions hvs"
    and "dr_args_of_calls request = hvs @ rest"
  shows "decode_parsed_call request (parsed_of (encode_call C call)) = Inr (decoded_of_call call)"
proof -
  obtain hv where "find_hashed (hv_hash (hashed_call_args C call)) (hvs @ rest) = Some hv"
      "hv_values hv = hv_values (hashed_call_args C call)"
    using find_hashed_found[OF assms(3,2)] by blast
  then show ?thesis
    using assms(1,4) selector_field_roundtrip[of "fc_selector call"]
    by (cases "fc_to call") (simp add: decode_parsed_call_def parsed_of_def encode_call_def decoded_of_call_def
        hashed_call_args_def from_args_def from_calldata_def proper_call_def Let_def)
qed

definition skipped :: "parsed_entrypoint_call \<Rightarrow> bool" where
  "skipped call \<longleftrightarrow> pe_to call = aztec_address_zero \<or> pe_selector call = function_selector_empty"

lemma skipped_calls:
  "proper_call call \<Longrightarrow> \<not> skipped (parsed_of (encode_call C call))"
  "skipped (parsed_of (encode_call C function_call_empty))"
proof -
  show "proper_call call \<Longrightarrow> \<not> skipped (parsed_of (encode_call C call))"
    using selector_field_roundtrip[of "fc_selector call"]
    by (cases "fc_to call") (simp add: skipped_def parsed_of_def encode_call_def proper_call_def)
  show "skipped (parsed_of (encode_call C function_call_empty))"
    by (simp add: skipped_def parsed_of_def encode_call_def function_call_empty_def aztec_address_zero_def)
qed

text \<open>
  C32. What an account sends is what the PXE runs. The request that an account entrypoint builds from at
  most five calls is taken apart by the PXE into exactly these calls, in their order, with their targets,
  selectors, arguments and flags; the padding is dropped. The fields the account signs are the first 31
  of the arguments the entrypoint is run with, so the signature covers every call. This needs that the
  argument hashes of the request do not collide, and that no call has the null target or selector.
\<close>

theorem entrypoint_calls_roundtrip:
  assumes request: "create_tx_execution_request C self random salt exec gas chain options = Inr r"
    and "list_all proper_call (ep_calls exec)" and "no_collisions (take 6 (tr_args_of_calls r))"
  shows "decode_entrypoint_calls (decoded_of_request r) = Inr (map decoded_of_call (ep_calls exec)) \<and>
    (\<exists>hv w. find_hashed (tr_first_call_args_hash r) (tr_args_of_calls r) = Some hv \<and>
      da_auth self (Hash (poseidon2_hash_with_separator C (take 31 (hv_values hv)) SIGNATURE_PAYLOAD)) chain = Inr w \<and>
      tr_auth_witnesses r = ep_auth_witnesses exec @ [w])"
proof -
  from request obtain e args w where
    e: "encoded_calls_create C random (ep_calls exec) (de_tx_nonce options) = Inr e" and
    args: "encode_arguments entrypoint_abi (entrypoint_args options e) = Inr args" and
    w: "da_auth self (Hash (encoded_calls_hash C e)) chain = Inr w" and
    r: "tr_first_call_args_hash r = hv_hash (from_args C args)"
      "tr_args_of_calls r = ee_hashed_args_list e @ [from_args C args] @ ep_extra_hashed_args exec"
      "tr_auth_witnesses r = ep_auth_witnesses exec @ [w]"
    by (auto simp: create_tx_execution_request_def build_entrypoint_call_data_def bind_result_Inr_iff Let_def)
  let ?padded = "ep_calls exec @ replicate (5 - length (ep_calls exec)) function_call_empty"
  from e have calls: "length (ep_calls exec) \<le> 5" "ee_encoded_calls e = map (encode_call C) ?padded"
      "ee_hashed_args_list e = map (hashed_call_args C) ?padded"
    by (auto simp: encoded_calls_create_def APP_MAX_CALLS_def Let_def split: if_splits)
  then have len: "length (ee_encoded_calls e) = 5" "length (ee_hashed_args_list e) = 5" by simp_all
  let ?hvs = "ee_hashed_args_list e @ [from_args C args]"
  have hvs: "no_collisions ?hvs" using assms(3) len(2) unfolding r(2) by simp
  have all: "tr_args_of_calls r = ?hvs @ ep_extra_hashed_args exec" unfolding r(2) by simp
  obtain hv where hv: "find_hashed (tr_first_call_args_hash r) (tr_args_of_calls r) = Some hv" "hv_values hv = args"
    using find_hashed_found[OF hvs, of "from_args C args" "ep_extra_hashed_args exec"] unfolding r(1) all
    by (auto simp: from_args_def)
  have fields: "args = encoded_calls_fields e @ drop 31 args" "take 31 args = encoded_calls_fields e"
  proof -
    have "length (encoded_calls_fields e) = 31"
      using len(1) by (simp add: encoded_calls_fields_def length_concat comp_def encoded_call_fields_def sum_list_triv)
    then show "args = encoded_calls_fields e @ drop 31 args" "take 31 args = encoded_calls_fields e"
      using args unfolding encode_entrypoint_args[OF len(1)] by auto
  qed
  have parsed: "parse_encoded_calls (hv_values hv) = Inr (map parsed_of (ee_encoded_calls e))"
    using parse_encoded_fields[OF len(1), of "drop 31 args"] fields(1) hv(2) by simp
  have kept: "filter (\<lambda>call. \<not> skipped call) (map parsed_of (ee_encoded_calls e)) =
      map (\<lambda>call. parsed_of (encode_call C call)) (ep_calls exec)"
    using assms(2) unfolding calls(2)
    by (induction "ep_calls exec") (simp_all add: list_all_iff skipped_calls filter_map comp_def filter_id_conv)
  have decoded: "map_result (decode_parsed_call (decoded_of_request r)) (map (\<lambda>call. parsed_of (encode_call C call)) cs) =
      Inr (map decoded_of_call cs)" if "set cs \<subseteq> set (ep_calls exec)" for cs
    using that
  proof (induction cs)
    case (Cons c cs)
    have "decode_parsed_call (decoded_of_request r) (parsed_of (encode_call C c)) = Inr (decoded_of_call c)"
    proof (rule decode_call[OF _ _ hvs])
      show "proper_call c" using Cons.prems assms(2) by (auto simp: list_all_iff)
      show "hashed_call_args C c \<in> set ?hvs" using Cons.prems by (auto simp: calls(3))
      show "dr_args_of_calls (decoded_of_request r) = ?hvs @ ep_extra_hashed_args exec"
        by (simp add: decoded_of_request_def all)
    qed
    with Cons show ?case by simp
  qed simp
  have "decode_entrypoint_calls (decoded_of_request r) = Inr (map decoded_of_call (ep_calls exec))"
    using hv parsed kept decoded[of "ep_calls exec"]
    by (simp add: decode_entrypoint_calls_def decoded_of_request_def skipped_def)
  moreover have "da_auth self (Hash (poseidon2_hash_with_separator C (take 31 (hv_values hv)) SIGNATURE_PAYLOAD)) chain = Inr w"
    using w by (simp add: hv(2) fields(2) encoded_calls_hash_def)
  ultimately show ?thesis using hv(1) r(3) by blast
qed

definition length_crypto :: crypto where
  "length_crypto = example_crypto\<lparr>cr_external := Some (\<lambda>inputs. of_nat (length inputs))\<rparr>"

definition example_call :: function_call where
  "example_call =
     \<lparr>fc_to = AztecAddress 9, fc_selector = FunctionSelector [1, 2, 3, 4], fc_args = [VField 5],
      fc_function_type = Public, fc_is_static = False, fc_hide_msg_sender = True\<rparr>"

definition example_entrypoint :: default_account_entrypoint where
  "example_entrypoint =
     \<lparr>da_address = AztecAddress 7,
      da_auth = (\<lambda>intent chain. Inr \<lparr>aw_request_hash = resolve_message_hash length_crypto intent chain, aw_fields = []\<rparr>)\<rparr>"

definition example_request :: "gas_settings \<Rightarrow> chain_info \<Rightarrow> tx_execution_request result" where
  "example_request gas chain =
     create_tx_execution_request length_crypto example_entrypoint 3 4 (execution_payload_default\<lparr>ep_calls := [example_call]\<rparr>)
       gas chain entrypoint_options_default"

lemma example_request_built:
  "\<exists>r. example_request gas chain = Inr r \<and> no_collisions (take 6 (tr_args_of_calls r))"
proof -
  let ?calls = "[example_call]" let ?C = length_crypto
  obtain e where e: "encoded_calls_create ?C 3 ?calls None = Inr e"
    by (simp add: encoded_calls_create_def APP_MAX_CALLS_def Let_def)
  then have len: "length (ee_encoded_calls e) = 5"
      and hashed: "ee_hashed_args_list e = map (hashed_call_args ?C) (?calls @ replicate 4 function_call_empty)"
    by (auto simp: encoded_calls_create_def APP_MAX_CALLS_def Let_def)
  obtain args where args: "encode_arguments entrypoint_abi (entrypoint_args entrypoint_options_default e) = Inr args"
      and "length args = 33"
    unfolding encode_entrypoint_args[OF len]
    using len by (simp add: encoded_calls_fields_def length_concat comp_def encoded_call_fields_def sum_list_triv)
  then have "hv_hash (from_args ?C args) = 34"
    by (auto simp: from_args_def compute_var_args_hash_def poseidon2_hash_with_separator_def
        poseidon2_hash_with_separator_field_def poseidon2_hash_def length_crypto_def)
  then have "no_collisions (map (hashed_call_args ?C) (?calls @ replicate 4 function_call_empty) @ [from_args ?C args])"
    by (simp add: no_collisions_def hashed_call_args_def from_args_def from_calldata_def example_call_def
        function_call_empty_def compute_var_args_hash_def compute_calldata_hash_def poseidon2_hash_with_separator_def
        poseidon2_hash_with_separator_field_def poseidon2_hash_def length_crypto_def Let_def fr_eval
        abi_values_to_fields_def)
  then show ?thesis
    using e args hashed
    by (simp add: example_request_def create_tx_execution_request_def build_entrypoint_call_data_def
        example_entrypoint_def entrypoint_options_default_def execution_payload_default_def Let_def)
qed

theorem entrypoint_calls_roundtrip_witness:
  "\<exists>r. example_request gas_settings_default \<lparr>ci_chain_id = 1, ci_version = 1\<rparr> = Inr r \<and>
     decode_entrypoint_calls (decoded_of_request r) = Inr [decoded_of_call example_call]"
proof -
  obtain r where "example_request gas_settings_default \<lparr>ci_chain_id = 1, ci_version = 1\<rparr> = Inr r"
      "no_collisions (take 6 (tr_args_of_calls r))"
    using example_request_built by blast
  moreover have "proper_call example_call"
  proof -
    have "replicate 4 (0 :: u8) = [0, 0, 0, 0]" by (simp add: numeral_eq_Suc)
    then show ?thesis
      by (simp add: proper_call_def example_call_def aztec_address_zero_def function_selector_empty_def fr_eval)
  qed
  ultimately show ?thesis
    using entrypoint_calls_roundtrip[of length_crypto example_entrypoint 3 4
        "execution_payload_default\<lparr>ep_calls := [example_call]\<rparr>" gas_settings_default
        "\<lparr>ci_chain_id = 1, ci_version = 1\<rparr>" entrypoint_options_default r]
    by (simp add: example_request_def execution_payload_default_def)
qed

subsection \<open>The order of side effects\<close>

text \<open>The counters of the side effects of a call and of the calls nested in it.\<close>

definition own_counters :: "'w private_call \<Rightarrow> u32 list" where
  "own_counters c =
     map (\<lambda>x. nh_counter (snh_note_hash x)) (call_note_hashes c) @
     map (\<lambda>x. nf_counter (snf_nullifier x)) (call_nullifiers c) @
     map pld_counter (call_private_logs c) @ map cccl_counter (call_contract_class_logs c) @
     map (\<lambda>x. rr_counter (srr_read_request x)) (call_note_hash_read_requests c) @
     map (\<lambda>x. rr_counter (srr_read_request x)) (call_nullifier_read_requests c) @
     map pcd_counter (call_public_call_requests c) @
     (case call_public_teardown_call_request c of Some x \<Rightarrow> [pcd_counter x] | None \<Rightarrow> [])"

fun effect_counters :: "'w private_call_execution_result \<Rightarrow> u32 list" where
  "effect_counters (PrivateCall c nested) = own_counters c @ concat (map effect_counters nested)"

definition end_counter :: "'w call_execution_bundle \<Rightarrow> u32" where
  "end_counter b = call_end_side_effect_counter (call_data (er_entrypoint (cb_execution_result b)))"

definition bundle_counters :: "'w call_execution_bundle \<Rightarrow> u32 list" where
  "bundle_counters b = effect_counters (er_entrypoint (cb_execution_result b))"

definition closed_bundle :: "'w call_execution_bundle \<Rightarrow> bool" where
  "closed_bundle b \<longleftrightarrow> list_all (\<lambda>c. c < end_counter b) (bundle_counters b)"

lemma own_counters_offset: "own_counters (offset_call n c) = map (shift n) (own_counters c)"
  by (simp add: own_counters_def offset_call_def shift_read_request_def comp_def split: option.split)

lemma effect_counters_offset: "effect_counters (offset_private_call_result n t) = map (shift n) (effect_counters t)"
proof (induction n t rule: offset_private_call_result.induct)
  case (1 n c nested)
  then have "map (\<lambda>t. effect_counters (offset_private_call_result n t)) nested =
      map (\<lambda>t. map (shift n) (effect_counters t)) nested"
    by simp
  then have "concat (map (\<lambda>t. effect_counters (offset_private_call_result n t)) nested) =
      concat (map (\<lambda>t. map (shift n) (effect_counters t)) nested)"
    by (rule arg_cong)
  then show ?case by (simp add: own_counters_offset map_concat comp_def)
qed

text \<open>The note hash a log belongs to is not shifted with the note hashes.\<close>

lemma offset_keeps_log_link:
  "map pld_note_hash_counter (call_private_logs (offset_call n c)) = map pld_note_hash_counter (call_private_logs c)"
  "map (\<lambda>x. nh_counter (snh_note_hash x)) (call_note_hashes (offset_call n c)) =
     map (\<lambda>x. shift n (nh_counter (snh_note_hash x))) (call_note_hashes c)"
  by (simp_all add: offset_call_def comp_def)

lemma end_offset: "call_end_side_effect_counter (call_data (offset_private_call_result n t)) =
    shift n (call_end_side_effect_counter (call_data t))"
  by (cases t) (simp add: offset_call_def)

lemma unat_shift: "unat c + unat n < 2 ^ 32 \<Longrightarrow> unat (shift n c) = unat c + unat n"
  by (simp add: shift_def saturating_add_u32_def unat_word_ariths)

definition ends_before :: "'w call_execution_bundle list \<Rightarrow> nat \<Rightarrow> nat" where
  "ends_before bundles i = sum_list (map (\<lambda>b. unat (end_counter b)) (take i bundles))"

text \<open>The loop shifts every bundle by what the bundles before it used.\<close>

lemma offset_bundles_correct:
  assumes "unat offset + ends_before bundles (length bundles) < 2 ^ 32"
  shows "length (fst (offset_bundles offset bundles)) = length bundles"
    and "unat (snd (offset_bundles offset bundles)) = unat offset + ends_before bundles (length bundles)"
    and "i < length bundles \<Longrightarrow> \<exists>n. unat n = unat offset + ends_before bundles i \<and>
      fst (offset_bundles offset bundles) ! i =
        offset_private_call_result n (er_entrypoint (cb_execution_result (bundles ! i)))"
proof -
  have "length (fst (offset_bundles offset bundles)) = length bundles \<and>
    unat (snd (offset_bundles offset bundles)) = unat offset + ends_before bundles (length bundles) \<and>
    (\<forall>i < length bundles. \<exists>n. unat n = unat offset + ends_before bundles i \<and>
      fst (offset_bundles offset bundles) ! i =
        offset_private_call_result n (er_entrypoint (cb_execution_result (bundles ! i))))"
    using assms
  proof (induction bundles arbitrary: offset)
    case (Cons b bs)
    let ?next = "shift offset (end_counter b)"
    have before: "ends_before (b # bs) (Suc i) = unat (end_counter b) + ends_before bs i" for i
      by (simp add: ends_before_def)
    have shifted: "unat ?next = unat (end_counter b) + unat offset"
      using Cons.prems by (intro unat_shift) (simp add: before)
    have IH: "length (fst (offset_bundles ?next bs)) = length bs"
      "unat (snd (offset_bundles ?next bs)) = unat ?next + ends_before bs (length bs)"
      "\<forall>i < length bs. \<exists>n. unat n = unat ?next + ends_before bs i \<and>
        fst (offset_bundles ?next bs) ! i = offset_private_call_result n (er_entrypoint (cb_execution_result (bs ! i)))"
      using Cons.IH[of ?next] Cons.prems shifted by (simp_all add: before)
    have step: "offset_bundles offset (b # bs) =
        (offset_private_call_result offset (er_entrypoint (cb_execution_result b)) # fst (offset_bundles ?next bs),
         snd (offset_bundles ?next bs))"
      by (simp add: Let_def end_offset end_counter_def split: prod.split)
    have "\<exists>n. unat n = unat offset + ends_before (b # bs) i \<and> fst (offset_bundles offset (b # bs)) ! i =
        offset_private_call_result n (er_entrypoint (cb_execution_result ((b # bs) ! i)))"
      if "i < length (b # bs)" for i
    proof (cases i)
      case 0
      then show ?thesis by (intro exI[of _ offset]) (simp add: step ends_before_def del: offset_bundles.simps)
    next
      case (Suc k)
      then obtain n where "unat n = unat ?next + ends_before bs k"
          "fst (offset_bundles ?next bs) ! k = offset_private_call_result n (er_entrypoint (cb_execution_result (bs ! k)))"
        using IH(3) \<open>i < length (b # bs)\<close> by auto
      then show ?thesis using Suc shifted by (intro exI[of _ n]) (simp add: step before del: offset_bundles.simps)
    qed
    then show ?case using IH(1,2) shifted by (simp add: step before del: offset_bundles.simps)
  qed (simp add: ends_before_def)
  then show "length (fst (offset_bundles offset bundles)) = length bundles"
    and "unat (snd (offset_bundles offset bundles)) = unat offset + ends_before bundles (length bundles)"
    and "i < length bundles \<Longrightarrow> \<exists>n. unat n = unat offset + ends_before bundles i \<and>
      fst (offset_bundles offset bundles) ! i =
        offset_private_call_result n (er_entrypoint (cb_execution_result (bundles ! i)))"
    by blast+
qed

lemma ends_before_mono: "i \<le> j \<Longrightarrow> ends_before bundles i \<le> ends_before bundles j"
proof -
  assume "i \<le> j"
  then have "take j bundles = take i bundles @ take (j - i) (drop i bundles)"
    by (metis le_add_diff_inverse take_add)
  then show ?thesis by (simp add: ends_before_def)
qed

lemma ends_before_Suc:
  "i < length bundles \<Longrightarrow> ends_before bundles (Suc i) = ends_before bundles i + unat (end_counter (bundles ! i))"
  by (simp add: ends_before_def take_Suc_conv_app_nth)

lemma aggregate_result:
  "er_entrypoint (cb_execution_result (aggregate_call_bundles ew origin bundles)) =
     PrivateCall (call_data (er_entrypoint (cb_execution_result (aggregate_call_bundles ew origin bundles))))
       (fst (offset_bundles 0 bundles))"
  "call_end_side_effect_counter (call_data (er_entrypoint (cb_execution_result (aggregate_call_bundles ew origin bundles)))) =
     snd (offset_bundles 0 bundles)"
  by (simp_all add: aggregate_call_bundles_def private_call_default_def Let_def split: prod.split)

text \<open>
  Aggregating the calls of a request keeps the order of their side effects. When every call's side
  effects have counters below its end counter and the end counters together stay below \<open>2 ^ 32\<close>, the
  aggregated result has one nested call per bundle, in order; the counters of the \<open>i\<close>-th are its own
  counters plus what the calls before it used, so nothing saturates, no two calls share a counter, every
  side effect of an earlier call comes before every one of a later call, and the root ends where the last
  call does.
\<close>

lemma aggregate_orders_effects:
  assumes closed: "list_all closed_bundle bundles"
    and total: "ends_before bundles (length bundles) < 2 ^ 32"
    and calls: "calls = nested_execution_results (er_entrypoint (cb_execution_result
      (aggregate_call_bundles ew origin bundles)))"
  shows "length calls = length bundles \<and>
    (\<forall>i < length bundles. map unat (effect_counters (calls ! i)) =
      map (\<lambda>c. ends_before bundles i + unat c) (bundle_counters (bundles ! i))) \<and>
    (\<forall>i j. i < j \<longrightarrow> j < length bundles \<longrightarrow>
      (\<forall>a \<in> set (effect_counters (calls ! i)). \<forall>b \<in> set (effect_counters (calls ! j)). a < b)) \<and>
    unat (call_end_side_effect_counter (call_data (er_entrypoint (cb_execution_result
      (aggregate_call_bundles ew origin bundles))))) = ends_before bundles (length bundles)"
proof -
  have total': "unat (0 :: u32) + ends_before bundles (length bundles) < 2 ^ 32" using total by simp
  have calls': "calls = fst (offset_bundles 0 bundles)"
    unfolding calls by (subst aggregate_result(1)) simp
  have len: "length calls = length bundles" using offset_bundles_correct(1)[OF total'] by (simp add: calls')
  have ends: "unat (call_end_side_effect_counter (call_data (er_entrypoint (cb_execution_result
      (aggregate_call_bundles ew origin bundles))))) = ends_before bundles (length bundles)"
    using offset_bundles_correct(2)[OF total'] by (simp add: aggregate_result(2))
  have below: "unat c < unat (end_counter (bundles ! i))"
    if "i < length bundles" "c \<in> set (bundle_counters (bundles ! i))" for i c
    using closed that by (auto simp: list_all_iff closed_bundle_def word_less_nat_alt)
  have counters: "map unat (effect_counters (calls ! i)) =
      map (\<lambda>c. ends_before bundles i + unat c) (bundle_counters (bundles ! i))" if i: "i < length bundles" for i
  proof -
    obtain n where n: "unat n = ends_before bundles i"
        "calls ! i = offset_private_call_result n (er_entrypoint (cb_execution_result (bundles ! i)))"
      using offset_bundles_correct(3)[OF total' i] by (auto simp: calls')
    have "unat (shift n c) = ends_before bundles i + unat c" if "c \<in> set (bundle_counters (bundles ! i))" for c
    proof -
      have "unat c + unat n < 2 ^ 32"
        using below[OF i that] total ends_before_Suc[OF i] ends_before_mono[of "Suc i" "length bundles" bundles] i n(1)
        by simp
      then show ?thesis by (simp add: unat_shift n(1))
    qed
    then show ?thesis by (simp add: n(2) effect_counters_offset bundle_counters_def)
  qed
  have counter_at: "\<exists>c \<in> set (bundle_counters (bundles ! i)). unat a = ends_before bundles i + unat c"
    if "i < length bundles" "a \<in> set (effect_counters (calls ! i))" for i a
    using arg_cong[OF counters[OF that(1)], of set] that(2) by auto
  have "a < b" if order: "i < j" and more: "j < length bundles" "a \<in> set (effect_counters (calls ! i))"
    "b \<in> set (effect_counters (calls ! j))" for i j a b
  proof -
    obtain c and d :: u32 where "c \<in> set (bundle_counters (bundles ! i))" "unat a = ends_before bundles i + unat c"
        "unat b = ends_before bundles j + unat d"
      using counter_at[of i a] counter_at[of j b] order more less_trans[OF order more(1)] by blast
    then show ?thesis
      using below[of i c] ends_before_Suc[of i bundles] ends_before_mono[of "Suc i" j bundles] order more
      by (simp add: word_less_nat_alt)
  qed
  then show ?thesis using len counters ends by blast
qed

definition example_bundles :: "unit call_execution_bundle list" where
  "example_bundles =
     [enqueued_bundle length_crypto () [1, 2] (AztecAddress 9) (AztecAddress 7) 3 False False,
      enqueued_bundle length_crypto () [1, 4] (AztecAddress 9) (AztecAddress 7) 3 False False]"

lemma example_bundles_eval:
  "map bundle_counters example_bundles = [[2], [2]]" "map end_counter example_bundles = [3, 3]"
  by (simp_all add: example_bundles_def enqueued_bundle_def recorded_bundle_def call_with_def private_call_default_def
      Let_def bundle_counters_def end_counter_def own_counters_def)

lemma aggregate_orders_effects_witness:
  "map (\<lambda>t. map unat (effect_counters t)) (nested_execution_results (er_entrypoint (cb_execution_result
     (aggregate_call_bundles () (AztecAddress 7) example_bundles)))) = [[2], [5]]"
proof -
  have len: "length example_bundles = 2" by (simp add: example_bundles_def)
  have at: "bundle_counters (example_bundles ! 0) = [2]" "bundle_counters (example_bundles ! 1) = [2]"
      "end_counter (example_bundles ! 0) = 3" "end_counter (example_bundles ! 1) = 3"
    using arg_cong[OF example_bundles_eval(1), of "\<lambda>xs. (xs ! 0, xs ! 1)"]
      arg_cong[OF example_bundles_eval(2), of "\<lambda>xs. (xs ! 0, xs ! 1)"] len by simp_all
  have ends: "ends_before example_bundles 0 = 0" "ends_before example_bundles 1 = 3" "ends_before example_bundles 2 = 6"
  proof -
    show zero: "ends_before example_bundles 0 = 0" by (simp add: ends_before_def)
    show one: "ends_before example_bundles 1 = 3" using ends_before_Suc[of 0 example_bundles] len at zero by simp
    show "ends_before example_bundles 2 = 6"
      using ends_before_Suc[of 1 example_bundles] len at one unfolding Suc_1 by simp
  qed
  have closed: "list_all closed_bundle example_bundles"
    unfolding list_all_length len using at by (auto simp: closed_bundle_def less_2_cases_iff)
  let ?calls = "nested_execution_results (er_entrypoint (cb_execution_result
     (aggregate_call_bundles () (AztecAddress 7) example_bundles)))"
  have "length ?calls = 2" "map unat (effect_counters (?calls ! 0)) = [2]" "map unat (effect_counters (?calls ! 1)) = [5]"
    using aggregate_orders_effects[OF closed _ refl, of "()" "AztecAddress 7"] len ends at by auto
  then show ?thesis by (auto simp: list_eq_iff_nth_eq less_2_cases_iff)
qed

end
