(* ===== verification/Pxe_Requests.thy ===== *)
theory Pxe_Requests
  imports Utility_Oracle Entrypoint_Calls
begin

text \<open>
  What the embedded PXE (\<open>crates/pxe/src/embedded_pxe.rs\<close>) computes from a request and the anchor block:
  the constants of a transaction, its fees and expiration, the request hash, the witness of a private
  call, the check of the signatures; the notes it stores before a transaction is mined; and its
  registration of accounts, senders and contracts.

  Reading a typed value from the JSON of a request is \<open>serde\<close>'s: the fields of \<open>request_codec\<close>.
\<close>

subsection \<open>Constants of a transaction\<close>

definition gas_at :: "json \<Rightarrow> string list \<Rightarrow> gas" where
  "gas_at req path = \<lparr>da_gas = u64_at req (path @ [''daGas'']), l2_gas = u64_at req (path @ [''l2Gas''])\<rparr>"

definition gas_fees_at :: "json \<Rightarrow> string list \<Rightarrow> gas_fees" where
  "gas_fees_at req path =
     \<lparr>fee_per_da_gas = u128_at req (path @ [''feePerDaGas'']), fee_per_l2_gas = u128_at req (path @ [''feePerL2Gas''])\<rparr>"

definition build_tx_constant_data :: "hex_crate \<Rightarrow> json \<Rightarrow> json \<Rightarrow> fr \<Rightarrow> fr \<Rightarrow> tx_constant_data" where
  "build_tx_constant_data H anchor req vk_tree_root protocol_contracts_hash =
     \<lparr>tcd_anchor_block_header = parse_block_header H anchor,
      tcd_tx_context =
        \<lparr>tc_chain_id = header_fr_at H req [''txContext'', ''chainId''],
         tc_version = header_fr_at H req [''txContext'', ''version''],
         tc_gas_settings =
           \<lparr>gas_limits = Some (gas_at req [''txContext'', ''gasSettings'', ''gasLimits'']),
            teardown_gas_limits = Some (gas_at req [''txContext'', ''gasSettings'', ''teardownGasLimits'']),
            max_fee_per_gas = Some (gas_fees_at req [''txContext'', ''gasSettings'', ''maxFeePerGas'']),
            max_priority_fee_per_gas =
              Some (gas_fees_at req [''txContext'', ''gasSettings'', ''maxPriorityFeePerGas''])\<rparr>\<rparr>,
      tcd_vk_tree_root = vk_tree_root, tcd_protocol_contracts_hash = protocol_contracts_hash\<rparr>"

definition MAX_TX_LIFETIME :: u64 where "MAX_TX_LIFETIME = 86400"

definition anchor_timestamp :: "json \<Rightarrow> u64" where
  "anchor_timestamp anchor =
     unwrap_or 0 (Option.bind (Private_Oracle.js_pointer [''globalVariables'', ''timestamp''] anchor) (\<lambda>v.
       or_else_opt (js_u64 v) (Option.bind (js_str v) (\<lambda>s.
         case strip_prefix ''0x'' s of Some hex \<Rightarrow> u64_from_str_radix 16 hex | None \<Rightarrow> u64_parse s))))"

definition compute_expiration :: "json \<Rightarrow> u64 result" where
  "compute_expiration anchor = checked_add (anchor_timestamp anchor) MAX_TX_LIFETIME"

definition parse_u128 :: "json \<Rightarrow> 128 word" where
  "parse_u128 val =
     (case js_str val of
        Some s \<Rightarrow> (case strip_prefix ''0x'' s of
            Some hex \<Rightarrow> unwrap_or 0 (u128_from_hex hex) | None \<Rightarrow> unwrap_or 0 (u128_parse s))
      | None \<Rightarrow> ucast (unwrap_or 0 (js_u64 val)))"

definition block_fee :: "json \<Rightarrow> string \<Rightarrow> 128 word" where
  "block_fee anchor name =
     (case Private_Oracle.js_pointer [''globalVariables'', ''gasFees'', name] anchor of
        Some v \<Rightarrow> parse_u128 v | None \<Rightarrow> 0)"

text \<open>\<open>fee + fee / 2\<close>, which overflows above two thirds of the range.\<close>

definition with_margin :: "128 word \<Rightarrow> 128 word result" where
  "with_margin fee = checked_add fee (fee div 2)"

definition set_max_fee :: "gas_fees \<Rightarrow> tx_constant_data \<Rightarrow> tx_constant_data" where
  "set_max_fee fees constants =
     constants\<lparr>tcd_tx_context := (tcd_tx_context constants)\<lparr>tc_gas_settings :=
       (tc_gas_settings (tcd_tx_context constants))\<lparr>max_fee_per_gas := Some fees\<rparr>\<rparr>\<rparr>"

definition ensure_min_fees :: "tx_constant_data \<Rightarrow> json \<Rightarrow> tx_constant_data result" where
  "ensure_min_fees constants anchor =
     bind_result (with_margin (block_fee anchor ''feePerDaGas'')) (\<lambda>min_da.
     bind_result (with_margin (block_fee anchor ''feePerL2Gas'')) (\<lambda>min_l2.
       Inr (set_max_fee
         (case max_fee_per_gas (tc_gas_settings (tcd_tx_context constants)) of
            Some fees \<Rightarrow> \<lparr>fee_per_da_gas = (if fee_per_da_gas fees < min_da then min_da else fee_per_da_gas fees),
              fee_per_l2_gas = (if fee_per_l2_gas fees < min_l2 then min_l2 else fee_per_l2_gas fees)\<rparr>
          | None \<Rightarrow> \<lparr>fee_per_da_gas = min_da, fee_per_l2_gas = min_l2\<rparr>) constants)))"

subsection \<open>Requests\<close>

record wire_tx_request =
  wr_origin :: aztec_address
  wr_function_selector :: function_selector
  wr_first_call_args_hash :: fr
  wr_tx_context :: tx_context
  wr_salt :: fr

record request_codec =
  rc_decoded :: "json \<Rightarrow> decoded_tx_execution_request result"
  rc_wire :: "json \<Rightarrow> wire_tx_request result"
  rc_auth_witnesses :: "json \<Rightarrow> auth_witness list result"
  rc_capsules :: "json \<Rightarrow> capsule list result"

definition wire_request :: "request_codec \<Rightarrow> json \<Rightarrow> wire_tx_request result" where
  "wire_request R req = (case rc_wire R req of Inr r \<Rightarrow> Inr r | Inl _ \<Rightarrow> Inl (InvalidData ''invalid tx request payload''))"

definition tx_request_hash :: "crypto \<Rightarrow> request_codec \<Rightarrow> json \<Rightarrow> fr result" where
  "tx_request_hash C R req =
     bind_result (wire_request R req) (\<lambda>request.
       Inr (compute_tx_request_hash C (wr_origin request) (wr_first_call_args_hash request) (wr_tx_context request)
         (wr_function_selector request) True (wr_salt request)))"

definition tx_request_fields_for_kernel :: "request_codec \<Rightarrow> json \<Rightarrow> fr list result" where
  "tx_request_fields_for_kernel R req =
     bind_result (wire_request R req) (\<lambda>request.
       Inr ([address_field (wr_origin request), wr_first_call_args_hash request] @
         tx_context_fields (wr_tx_context request) @
         [function_selector_to_field (wr_function_selector request), fr_from_bool True, wr_salt request]))"

definition extract_origin :: "hex_crate \<Rightarrow> json \<Rightarrow> aztec_address" where
  "extract_origin H req =
     AztecAddress (unwrap_or 0 (Option.bind (Option.bind (js_field ''origin'' req) js_str)
       (\<lambda>s. result_ok (fr_from_hex H s))))"

text \<open>\<open>extract_args\<close> skips what is not the hexadecimal text of a field.\<close>

definition extract_args :: "hex_crate \<Rightarrow> json \<Rightarrow> fr list" where
  "extract_args H data =
     (case Option.bind (js_field ''args'' data) js_array of
        Some arr \<Rightarrow> List.map_filter (\<lambda>v. Option.bind (js_str v) (\<lambda>s. result_ok (fr_from_hex H s))) arr
      | None \<Rightarrow> [])"

definition request_auth_witnesses :: "request_codec \<Rightarrow> json \<Rightarrow> auth_witness list" where
  "request_auth_witnesses R req =
     (case js_field ''authWitnesses'' req of
        Some v \<Rightarrow> (case rc_auth_witnesses R v of Inr ws \<Rightarrow> ws | Inl _ \<Rightarrow> []) | None \<Rightarrow> [])"

definition auth_witness_pairs :: "auth_witness list \<Rightarrow> (fr \<times> fr list) list" where
  "auth_witness_pairs = map (\<lambda>aw. (aw_request_hash aw, aw_fields aw))"

text \<open>\<open>None\<close>: the request has no capsules.\<close>

definition request_capsules :: "request_codec \<Rightarrow> json \<Rightarrow> capsule list option result" where
  "request_capsules R req =
     (case js_field ''capsules'' req of
        Some v \<Rightarrow> bind_result (rc_capsules R v) (\<lambda>cs. Inr (Some cs)) | None \<Rightarrow> Inr None)"

subsection \<open>The witness of a private call\<close>

definition build_private_witness ::
    "hex_crate \<Rightarrow> fr \<Rightarrow> fr \<Rightarrow> contract_artifact \<Rightarrow> string \<Rightarrow> fr list \<Rightarrow> aztec_address \<Rightarrow> aztec_address \<Rightarrow> json \<Rightarrow> json \<Rightarrow>
     function_selector \<Rightarrow> bool \<Rightarrow> fr list" where
  "build_private_witness H vk_tree_root protocol_contracts_hash artifact function_name user_args contract_address
      msg_sender req anchor function_selector is_static_call =
     (let context_size = private_context_inputs_size artifact function_name
      in if context_size = 0 then user_args
         else
           let constants = build_tx_constant_data H anchor req vk_tree_root protocol_contracts_hash;
               context = call_context_to_fields
                 \<lparr>cc_msg_sender = msg_sender, cc_contract_address = contract_address,
                  cc_function_selector = function_selector_to_field function_selector,
                  cc_is_static_call = is_static_call\<rparr> @
                 block_header_fields (tcd_anchor_block_header constants) @
                 tx_context_fields (tcd_tx_context constants) @ [fr_from_u64 2];
               cut = take context_size context
           in cut @ replicate (context_size - length cut) 0 @ user_args)"

text \<open>What nested calls reuse: the context without the call context and the counter. Out of range, the
  slice panics; it is in range because the witness is at least as long as the context.\<close>

definition context_prefix :: "contract_artifact \<Rightarrow> string \<Rightarrow> fr list \<Rightarrow> fr list option" where
  "context_prefix artifact function_name full_witness =
     (let n = private_context_inputs_size artifact function_name
      in if n > 5 then Some (take (n - 1 - 4) (drop 4 full_witness)) else None)"

subsection \<open>Arguments of utility functions\<close>

fun pxe_abi_value_to_fields :: "abi_value \<Rightarrow> fr list" where
  "pxe_abi_value_to_fields (VField f) = [f]"
| "pxe_abi_value_to_fields (VInteger i) = [fr_from_u64 (ucast i)]"
| "pxe_abi_value_to_fields (VBoolean b) = [fr_from_bool b]"
| "pxe_abi_value_to_fields (VString s) = map (\<lambda>c. fr_from_u64 (of_nat (of_char c))) s"
| "pxe_abi_value_to_fields (VArray items) = concat (map pxe_abi_value_to_fields items)"
| "pxe_abi_value_to_fields (VStruct m) =
     concat (map snd (sort_key fst (map (\<lambda>(k, v). (k, pxe_abi_value_to_fields v)) m)))"
| "pxe_abi_value_to_fields (VTuple items) = concat (map pxe_abi_value_to_fields items)"

subsection \<open>Signatures\<close>

text \<open>The first note that is not nullified and has two fields.\<close>

definition signing_key_of :: "stored_note list \<Rightarrow> point option" where
  "signing_key_of notes =
     find_map (\<lambda>note. if length (sn_note_data note) \<ge> 2 \<and> \<not> sn_nullified note
       then Some \<lparr>point_x = sn_note_data note ! 0, point_y = sn_note_data note ! 1, point_is_infinite = False\<rparr>
       else None) notes"

definition signature_of_fields :: "fr list \<Rightarrow> schnorr_signature" where
  "signature_of_fields fs = signature_from_bytes (map (\<lambda>f. ucast (fr_to_usize f)) fs)"

definition witness_accepted :: "curve \<Rightarrow> point \<Rightarrow> auth_witness \<Rightarrow> bool" where
  "witness_accepted V pk aw \<longleftrightarrow>
     length (aw_fields aw) = 64 \<longrightarrow> schnorr_verify V pk (aw_request_hash aw) (signature_of_fields (aw_fields aw))"

definition verify_auth_witness_signatures ::
    "request_codec \<Rightarrow> ('s, 'v) oracle_env \<Rightarrow> json \<Rightarrow> aztec_address \<Rightarrow> ('s, unit) op" where
  "verify_auth_witness_signatures R env req origin =
     (let auth_witnesses = request_auth_witnesses R req in
      if auth_witnesses = [] then ret ()
      else (\<lambda>s. case get_notes_by_slot (oe_note_store env) origin (fr_from_u64 1) s of
        (r, s') \<Rightarrow>
          (case signing_key_of (unwrap_or [] (result_ok r)) of
             None \<Rightarrow> (Inr (), s')
           | Some pk \<Rightarrow>
               (if list_all (witness_accepted (oe_curve env) pk) auth_witnesses then Inr ()
                else Inl (InvalidData ''Cannot satisfy constraint: auth witness signature verification failed''), s'))))"

subsection \<open>Pending notes\<close>

text \<open>\<open>nullifiers\<close> are the nullifiers of the execution by counter.\<close>

definition pending_note :: "(u32 \<Rightarrow> fr option) \<Rightarrow> counter_map \<Rightarrow> note_and_slot \<Rightarrow> stored_note" where
  "pending_note nullifiers note_to_nullifier n =
     (let spent_by = Option.bind (map_of note_to_nullifier (nas_counter n)) nullifiers
      in \<lparr>sn_contract_address = nas_contract_address n, sn_owner = nas_owner n, sn_storage_slot = nas_storage_slot n,
          sn_randomness = nas_randomness n, sn_note_nonce = 0, sn_note_hash = nas_note_hash n,
          sn_siloed_nullifier = unwrap_or 0 spent_by, sn_note_data = nas_note_items n,
          sn_nullified = (spent_by \<noteq> None), sn_is_pending = True, sn_nullification_block_number = None,
          sn_leaf_index = None, sn_block_number = None, sn_tx_index_in_block = None,
          sn_note_index_in_tx = None, sn_scopes = []\<rparr>)"

text \<open>The scopes under which a note is stored: its owner, once for every time the owner is among the
  scopes, and once when it is not among them.\<close>

definition storing_scopes :: "aztec_address list \<Rightarrow> aztec_address \<Rightarrow> aztec_address list" where
  "storing_scopes scopes owner =
     (if owner \<in> set scopes then filter (\<lambda>scope. scope = owner) scopes
      else if scopes = [] then []
      else [if address_field owner \<noteq> 0 then owner else aztec_address_zero])"

definition persist_note ::
    "('s, 'v) note_store \<Rightarrow> (u32 \<Rightarrow> fr option) \<Rightarrow> counter_map \<Rightarrow> aztec_address list \<Rightarrow> note_and_slot \<Rightarrow> ('s, unit) op" where
  "persist_note self nullifiers note_to_nullifier scopes n =
     for_each (\<lambda>scope. add_notes self [pending_note nullifiers note_to_nullifier n] scope)
       (storing_scopes scopes (nas_owner n))"

definition nullifiers_by_counter :: "'w private_execution_result \<Rightarrow> u32 \<Rightarrow> fr option" where
  "nullifiers_by_counter r =
     map_of (rev (map (\<lambda>n. (nf_counter (snf_nullifier n), nf_value (snf_nullifier n))) (all_nullifiers r)))"

definition persist_pending_notes ::
    "('s, 'v) note_store \<Rightarrow> 'w private_execution_result \<Rightarrow> aztec_address list \<Rightarrow> ('s, unit) op" where
  "persist_pending_notes self exec_result scopes =
     for_each (\<lambda>call. for_each (persist_note self (nullifiers_by_counter exec_result)
         (all_note_hash_nullifier_counter_maps exec_result) scopes) (call_new_notes call))
       (iter_all_calls exec_result)"

subsection \<open>Functions by selector\<close>

definition resolve_function_name_by_selector ::
    "('s, 'v) oracle_env \<Rightarrow> aztec_address \<Rightarrow> function_selector \<Rightarrow> 's \<Rightarrow> string \<times> 's" where
  "resolve_function_name_by_selector env addr sel s =
     (case resolve_protocol_function_name (oe_crypto env) addr sel of
        Some name \<Rightarrow> (name, s)
      | None \<Rightarrow>
          (case get_instance (oe_contract_store env) addr s of
             (Inr (Some inst), s1) \<Rightarrow>
               (case get_artifact (oe_contract_store env) (in_current_contract_class_id (iwa_inner inst)) s1 of
                  (Inr (Some artifact), s2) \<Rightarrow>
                    (case find_function_by_selector artifact sel of
                       Some f \<Rightarrow> (fa_name f, s2) | None \<Rightarrow> (''unknown'', s2))
                | (_, s2) \<Rightarrow> (''unknown'', s2))
           | (_, s1) \<Rightarrow> (''unknown'', s1)))"

definition decode_entrypoint_call :: "decoded_tx_execution_request \<Rightarrow> decoded_entrypoint_call option result" where
  "decode_entrypoint_call request =
     bind_result (decode_entrypoint_calls request) (\<lambda>calls. Inr (case calls of [] \<Rightarrow> None | c # _ \<Rightarrow> Some c))"

text \<open>The first call of a request, or, when there is none, the first registered contract.\<close>

definition extract_call_info ::
    "request_codec \<Rightarrow> ('s, 'v) oracle_env \<Rightarrow> json \<Rightarrow> ('s, aztec_address \<times> string \<times> fr list \<times> aztec_address) op" where
  "extract_call_info R env req =
     seq (lift_result (rc_decoded R req)) (\<lambda>request.
     seq (lift_result (decode_entrypoint_call request)) (\<lambda>found.
       case found of
         Some call \<Rightarrow> (\<lambda>s. case resolve_function_name_by_selector env (dc_to call) (dc_selector call) s of
             (function_name, s') \<Rightarrow> (Inr (dc_to call, function_name, dc_encoded_args call, dr_origin request), s'))
       | None \<Rightarrow>
           seq (get_contract_addresses (oe_contract_store env)) (\<lambda>contracts.
             case contracts of
               addr # _ \<Rightarrow> ret (addr, ''unknown'', [], dr_origin request)
             | [] \<Rightarrow> fail (InvalidData ''could not determine target contract from TxExecutionRequest''))))"

definition public_function_signatures :: "contract_artifact \<Rightarrow> string list" where
  "public_function_signatures artifact =
     map (\<lambda>f. fa_name f @ ''('' @ join '','' (map (\<lambda>p. abi_type_signature (param_typ p)) (fa_parameters f)) @ '')'')
       (filter (\<lambda>f. fa_function_type f = Public) (ca_functions artifact))"

subsection \<open>Registration\<close>

record ('s, 'v) registry =
  rg_env :: "('s, 'v) oracle_env"
  rg_sender_store :: "('s, 'v) sender_store"
  rg_artifact_codec :: artifact_codec
  rg_register_signatures :: "string list \<Rightarrow> unit result"
  rg_allow_canonical_ids :: bool

definition register_account :: "('s, 'v) registry \<Rightarrow> fr \<Rightarrow> fr \<Rightarrow> ('s, complete_address) op" where
  "register_account self secret_key partial_address =
     seq (add_account (oe_key_store (rg_env self)) secret_key) (\<lambda>derived.
     seq (lift_result (compute_address (oe_crypto (rg_env self)) (oe_curve (rg_env self))
            (dk_public_keys derived) partial_address)) (\<lambda>address.
     let complete = \<lparr>co_address = address, co_public_keys = dk_public_keys derived, co_partial_address = partial_address\<rparr>
     in seq (address_add (oe_address_store (rg_env self)) complete) (\<lambda>_. ret complete)))"

definition get_registered_accounts :: "('s, 'v) registry \<Rightarrow> ('s, complete_address list) op" where
  "get_registered_accounts self =
     seq (get_accounts (oe_key_store (rg_env self))) (\<lambda>accounts.
     seq (address_get_all (oe_address_store (rg_env self))) (\<lambda>complete_addresses.
       ret (filter (\<lambda>c. public_keys_hash (oe_crypto (rg_env self)) (co_public_keys c) \<in> set accounts)
         complete_addresses)))"

definition is_registered_account :: "('s, 'v) registry \<Rightarrow> aztec_address \<Rightarrow> ('s, bool) op" where
  "is_registered_account self address =
     seq (address_get (oe_address_store (rg_env self)) address) (\<lambda>found.
       case found of
         None \<Rightarrow> ret False
       | Some complete \<Rightarrow>
           seq (get_accounts (oe_key_store (rg_env self))) (\<lambda>accounts.
             ret (public_keys_hash (oe_crypto (rg_env self)) (co_public_keys complete) \<in> set accounts)))"

definition register_sender :: "('s, 'v) registry \<Rightarrow> aztec_address \<Rightarrow> ('s, aztec_address) op" where
  "register_sender self sender =
     seq (is_registered_account self sender) (\<lambda>registered.
       if registered then ret sender
       else seq (sender_add (rg_sender_store self) sender) (\<lambda>_. ret sender))"

definition pxe_get_senders :: "('s, 'v) registry \<Rightarrow> ('s, aztec_address list) op" where
  "pxe_get_senders self = sender_get_all (rg_sender_store self)"

definition pxe_remove_sender :: "('s, 'v) registry \<Rightarrow> aztec_address \<Rightarrow> ('s, unit) op" where
  "pxe_remove_sender self sender = sender_remove (rg_sender_store self) sender"

definition register_contract_class :: "('s, 'v) registry \<Rightarrow> contract_artifact \<Rightarrow> ('s, unit) op" where
  "register_contract_class self artifact =
     seq (add_class (oe_contract_store (rg_env self)) (oe_crypto (rg_env self)) (rg_artifact_codec self) artifact)
       (\<lambda>_. ret ())"

record register_contract_request =
  rq_instance :: contract_instance_with_address
  rq_artifact :: "contract_artifact option"

text \<open>The secrets of every account, for the private kernel prover.\<close>

fun secrets_of :: "('s, 'v) key_store \<Rightarrow> fr list \<Rightarrow> ('s, fr list) op" where
  "secrets_of self [] = ret []"
| "secrets_of self (pk_hash # hashes) =
     seq (get_secret_key self pk_hash) (\<lambda>found.
     seq (secrets_of self hashes) (\<lambda>secrets. ret (case found of Some secret \<Rightarrow> secret # secrets | None \<Rightarrow> secrets)))"

definition kernel_master_secret_keys :: "('s, 'v) registry \<Rightarrow> ('s, fr list) op" where
  "kernel_master_secret_keys self =
     seq (get_accounts (oe_key_store (rg_env self))) (secrets_of (oe_key_store (rg_env self)))"

text \<open>The checks before a contract with its artifact is stored.\<close>

definition check_artifact ::
    "('s, 'v) registry \<Rightarrow> contract_instance_with_address \<Rightarrow> contract_artifact \<Rightarrow> unit result" where
  "check_artifact self inst artifact =
     (let C = oe_crypto (rg_env self) in
      bind_result (compute_contract_class_id_from_artifact C (rg_artifact_codec self) artifact) (\<lambda>computed_class_id.
      if computed_class_id \<noteq> in_current_contract_class_id (iwa_inner inst) \<and> \<not> rg_allow_canonical_ids self
      then Inl (InvalidData ''artifact class id does not match instance class id'')
      else
      bind_result (compute_contract_address_from_instance C (oe_curve (rg_env self)) (iwa_inner inst)) (\<lambda>computed_address.
      if computed_address \<noteq> iwa_address inst \<and> \<not> rg_allow_canonical_ids self
      then Inl (InvalidData ''artifact instance address does not match computed contract address'')
      else if public_function_signatures artifact \<noteq> []
           then rg_register_signatures self (public_function_signatures artifact) else Inr ())))"

definition register_contract :: "('s, 'v) registry \<Rightarrow> register_contract_request \<Rightarrow> ('s, unit) op" where
  "register_contract self request =
     (let inst = rq_instance request; store = oe_contract_store (rg_env self);
          class_id = in_current_contract_class_id (iwa_inner inst)
      in seq (case rq_artifact request of
                Some artifact \<Rightarrow> lift_result (check_artifact self inst artifact)
              | None \<Rightarrow> seq (get_artifact store class_id) (\<lambda>found.
                  if found = None then fail (InvalidData ''artifact not found for contract class'') else ret ())) (\<lambda>_.
         seq (add_instance store inst) (\<lambda>_.
           case rq_artifact request of
             Some artifact \<Rightarrow> add_artifact store class_id artifact
           | None \<Rightarrow> ret ())))"

definition update_contract :: "('s, 'v) registry \<Rightarrow> aztec_address \<Rightarrow> contract_artifact \<Rightarrow> ('s, unit) op" where
  "update_contract self address artifact = update_artifact (oe_contract_store (rg_env self)) address artifact"

definition pxe_get_contract_instance ::
    "('s, 'v) registry \<Rightarrow> aztec_address \<Rightarrow> ('s, contract_instance_with_address option) op" where
  "pxe_get_contract_instance self address =
     seq (get_instance (oe_contract_store (rg_env self)) address) (\<lambda>found.
       case found of Some inst \<Rightarrow> ret (Some inst)
       | None \<Rightarrow> lift_result (node_contract (oe_node (rg_env self)) address))"

definition pxe_get_contract_artifact :: "('s, 'v) registry \<Rightarrow> fr \<Rightarrow> ('s, contract_artifact option) op" where
  "pxe_get_contract_artifact self class_id = get_artifact (oe_contract_store (rg_env self)) class_id"

definition pxe_get_contracts :: "('s, 'v) registry \<Rightarrow> ('s, aztec_address list) op" where
  "pxe_get_contracts self = get_contract_addresses (oe_contract_store (rg_env self))"

end
