(* ===== verification/Embedded_Pxe.thy ===== *)
theory Embedded_Pxe
  imports Pxe_Requests Contract_Sync
begin

text \<open>
  The embedded PXE (\<open>crates/pxe/src/embedded_pxe.rs\<close>): synchronization before every operation, execution
  of utility functions and of the calls of a request, simulation, proving and profiling of transactions,
  and private events.

  The state is the shared store with the flags of the block synchronizer, the cache of synchronized
  contracts, the number of synchronizations made (the node may answer each of them differently) and the
  number of random fields drawn. What runs contract code takes fuel and is \<open>None\<close> when it runs out. The
  private kernel prover, a separate process, is a parameter.
\<close>

subsection \<open>State\<close>

record 's pxe_state =
  ps_sync :: "'s sync_state"
  ps_cache :: sync_cache
  ps_syncs :: nat
  ps_draws :: nat

record tx_proving_result =
  tp_tx_hash :: "tx_hash option"
  tp_public_inputs :: "u8 list"
  tp_chonk_proof :: "u8 list"
  tp_contract_class_log_fields :: "fr list list"
  tp_public_function_calldata :: "hashed_values list"

record ('s, 'v, 'w, 'fe) embedded_pxe =
  px_env :: "('s, 'v) utility_env"
  px_event_store :: "('s, 'v) private_event_store"
  px_synchronizer :: "('s, 'v, json) block_state_synchronizer"
  px_contract_sync :: "('s pxe_state, 's, 'v, 'w) contract_sync_service"
  px_codec :: request_codec
  px_node :: "nat \<Rightarrow> nat \<Rightarrow> json node_view"
  px_vk_tree_root :: fr
  px_protocol_contracts_hash :: fr
  px_prover_enabled :: bool
  px_prove_with_real_kernels :: "json \<Rightarrow> 'fe witness_map private_execution_result \<Rightarrow> json anchor_block_header \<Rightarrow>
    fr list list \<Rightarrow> hashed_values list \<Rightarrow> tx_proving_result result"

text \<open>The stores shared with the oracles.\<close>

definition px_oracle :: "('s, 'v, 'w, 'fe) embedded_pxe \<Rightarrow> ('s, 'v) oracle_env" where
  "px_oracle self = ue_oracle (px_env self)"

subsection \<open>Sequencing\<close>

definition and_then :: "('p, 'a) run \<Rightarrow> ('a \<Rightarrow> ('p, 'b) run) \<Rightarrow> ('p, 'b) run" where
  "and_then m f p =
     (case m p of None \<Rightarrow> None | Some (Inl e, p') \<Rightarrow> Some (Inl e, p') | Some (Inr x, p') \<Rightarrow> f x p')"

definition run_op :: "('p, 'a) op \<Rightarrow> ('p, 'a) run" where
  "run_op m p = Some (m p)"

definition yields :: "'a result \<Rightarrow> ('p, 'a) run" where
  "yields r p = Some (r, p)"

definition on_sync :: "('s sync_state, 'a) op \<Rightarrow> ('s pxe_state, 'a) op" where
  "on_sync m st = (case m (ps_sync st) of (r, y) \<Rightarrow> (r, st\<lparr>ps_sync := y\<rparr>))"

definition on_pxe_store :: "('s, 'a) op \<Rightarrow> ('s pxe_state, 'a) op" where
  "on_pxe_store m = on_sync (on_kv m)"

definition set_store :: "'s \<Rightarrow> 's pxe_state \<Rightarrow> 's pxe_state" where
  "set_store s st = st\<lparr>ps_sync := (ps_sync st)\<lparr>ss_kv := s\<rparr>\<rparr>"

text \<open>A run over the store and the random supply.\<close>

definition on_drawing :: "('s \<times> nat, 'a) run \<Rightarrow> ('s pxe_state, 'a) run" where
  "on_drawing m st =
     (case m (ss_kv (ps_sync st), ps_draws st) of
        None \<Rightarrow> None
      | Some (r, (s, n)) \<Rightarrow> Some (r, (set_store s st)\<lparr>ps_draws := n\<rparr>))"

definition wipe_cache :: "('s pxe_state, unit) op" where
  "wipe_cache st = (Inr (), st\<lparr>ps_cache := wipe (ps_cache st)\<rparr>)"

subsection \<open>Block state\<close>

definition next_sync :: "('s, 'v, 'w, 'fe) embedded_pxe \<Rightarrow> ('s pxe_state, unit) op" where
  "next_sync self st =
     on_sync (sync (px_synchronizer self) (px_node self (ps_syncs st))) (st\<lparr>ps_syncs := Suc (ps_syncs st)\<rparr>)"

definition sync_block_state :: "('s, 'v, 'w, 'fe) embedded_pxe \<Rightarrow> ('s pxe_state, unit) op" where
  "sync_block_state self =
     seq (next_sync self) (\<lambda>_.
     seq (on_sync take_anchor_changed) (\<lambda>changed. if changed then wipe_cache else ret ()))"

definition pxe_anchor_block_header ::
    "('s, 'v, 'w, 'fe) embedded_pxe \<Rightarrow> ('s pxe_state, json anchor_block_header) op" where
  "pxe_anchor_block_header self =
     seq (sync_block_state self) (\<lambda>_.
     seq (on_sync (get_anchor_block_header (px_synchronizer self))) (\<lambda>found.
       lift_result (ok_or (InvalidData ''anchor block header not set after sync'') found)))"

definition pxe_anchor_block_number :: "('s, 'v, 'w, 'fe) embedded_pxe \<Rightarrow> ('s pxe_state, u64) op" where
  "pxe_anchor_block_number self =
     seq (sync_block_state self) (\<lambda>_. on_sync (get_anchor_block_number (px_synchronizer self)))"

definition get_synced_block_header :: "('s, 'v, 'w, 'fe) embedded_pxe \<Rightarrow> ('s pxe_state, json) op" where
  "get_synced_block_header self = seq (pxe_anchor_block_header self) (\<lambda>anchor. ret (ah_data anchor))"

subsection \<open>Creation\<close>

record node_info =
  ni_node_version :: string
  ni_l1_chain_id :: u64
  ni_rollup_version :: u64
  ni_enr :: "string option"
  ni_l1_contract_addresses :: json
  ni_protocol_contract_addresses :: json
  ni_real_proofs :: bool
  ni_l2_circuits_vk_tree_root :: "string option"
  ni_l2_protocol_contracts_hash :: "string option"

text \<open>\<open>current_vk_tree_root\<close> and \<open>compute_protocol_contracts_hash\<close> are the arguments \<open>default_root\<close> and
  \<open>default_hash\<close>.\<close>

definition hex_or :: "hex_crate \<Rightarrow> fr \<Rightarrow> string option \<Rightarrow> fr" where
  "hex_or H d text = unwrap_or d (Option.bind text (\<lambda>s. result_ok (fr_from_hex H s)))"

definition create_with_config ::
    "hex_crate \<Rightarrow> fr \<Rightarrow> fr \<Rightarrow> bool option \<Rightarrow> node_info result \<Rightarrow> ('s, 'v, 'w, 'fe) embedded_pxe \<Rightarrow>
     ('s pxe_state, ('s, 'v, 'w, 'fe) embedded_pxe) op" where
  "create_with_config H default_root default_hash prover_enabled info stores =
     seq (lift_result info) (\<lambda>info.
     let pxe = stores
       \<lparr>px_prover_enabled := unwrap_or (ni_real_proofs info) prover_enabled,
        px_vk_tree_root := hex_or H default_root (ni_l2_circuits_vk_tree_root info),
        px_protocol_contracts_hash := hex_or H default_hash (ni_l2_protocol_contracts_hash info)\<rparr>
     in seq (next_sync pxe) (\<lambda>_. ret pxe))"

text \<open>Switching real proofs on or off; the prover process it starts or stops is a parameter.\<close>

definition set_prover_enabled :: "bool \<Rightarrow> ('s, 'v, 'w, 'fe) embedded_pxe \<Rightarrow> ('s, 'v, 'w, 'fe) embedded_pxe" where
  "set_prover_enabled enabled self = self\<lparr>px_prover_enabled := enabled\<rparr>"

subsection \<open>Utility functions\<close>

definition find_contract ::
    "('s, 'v, 'w, 'fe) embedded_pxe \<Rightarrow> string \<Rightarrow> string \<Rightarrow> aztec_address \<Rightarrow> ('s, contract_artifact) op" where
  "find_contract self no_contract no_artifact address =
     seq (get_instance (oe_contract_store (px_oracle self)) address) (\<lambda>found.
     seq (lift_result (ok_or (InvalidData no_contract) found)) (\<lambda>inst.
     seq (get_artifact (oe_contract_store (px_oracle self)) (in_current_contract_class_id (iwa_inner inst))) (\<lambda>found.
       lift_result (ok_or (InvalidData no_artifact) found))))"

text \<open>The function of a selector, else the first utility function.\<close>

definition find_utility_function :: "contract_artifact \<Rightarrow> function_selector \<Rightarrow> function_artifact result" where
  "find_utility_function artifact selector =
     ok_or (InvalidData ''utility function with selector not found'')
       (or_else_opt (find_function_by_selector artifact selector)
          (find (\<lambda>f. fa_function_type f = Utility) (ca_functions artifact)))"

type_synonym 's utility_executor = "function_call \<Rightarrow> aztec_address list \<Rightarrow> auth_witness list \<Rightarrow> ('s pxe_state, fr list) run"

text \<open>The contract's own synchronization, when it has one; \<open>execute\<close> runs a utility function.\<close>

definition sync_state_function :: "contract_artifact \<Rightarrow> function_artifact option" where
  "sync_state_function artifact =
     (case find_function artifact ''sync_state'' of
        Inr f \<Rightarrow> if fa_function_type f = Utility then Some f else None | Inl _ \<Rightarrow> None)"

definition execute_sync_state_for_contract ::
    "('s, 'v, 'w, 'fe) embedded_pxe \<Rightarrow> 's utility_executor \<Rightarrow> aztec_address \<Rightarrow> aztec_address list \<Rightarrow>
     ('s pxe_state, unit) run" where
  "execute_sync_state_for_contract self execute contract_address scopes =
     and_then (run_op (on_pxe_store (get_instance (oe_contract_store (px_oracle self)) contract_address))) (\<lambda>found.
     case found of
       None \<Rightarrow> yields (Inr ())
     | Some inst \<Rightarrow>
         and_then (run_op (on_pxe_store (get_artifact (oe_contract_store (px_oracle self))
             (in_current_contract_class_id (iwa_inner inst))))) (\<lambda>found.
         case Option.bind found sync_state_function of
           None \<Rightarrow> yields (Inr ())
         | Some f \<Rightarrow>
             and_then (yields (ok_or (InvalidData ''sync_state missing selector in artifact'') (fa_selector f)))
               (\<lambda>selector.
             and_then (execute \<lparr>fc_to = contract_address, fc_selector = selector, fc_args = [],
                 fc_function_type = Utility, fc_is_static = fa_is_static f, fc_hide_msg_sender = False\<rparr> scopes [])
               (\<lambda>_. yields (Inr ())))))"

definition ensure_synced ::
    "('s, 'v, 'w, 'fe) embedded_pxe \<Rightarrow> 's utility_executor \<Rightarrow> aztec_address \<Rightarrow> aztec_address list \<Rightarrow> string \<Rightarrow>
     ('s pxe_state, unit) run" where
  "ensure_synced self execute =
     ensure_contract_synced (px_contract_sync self) (execute_sync_state_for_contract self execute)"

definition utility_args :: "function_call \<Rightarrow> fr list" where
  "utility_args call = concat (map pxe_abi_value_to_fields (fc_args call))"

primrec pxe_execute_utility ::
    "('m, 'c, 'u, 'fe) acvm \<Rightarrow> ('s, 'v, 'w, 'fe) embedded_pxe \<Rightarrow> nat \<Rightarrow> 's utility_executor" where
  "pxe_execute_utility X self 0 = (\<lambda>call scopes authwits st. None)"
| "pxe_execute_utility X self (Suc n) = (\<lambda>call scopes authwits.
     and_then (run_op (pxe_anchor_block_header self)) (\<lambda>anchor.
     and_then (run_op (on_pxe_store (find_contract self ''contract not found'' ''artifact not found for class''
         (fc_to call)))) (\<lambda>artifact.
     and_then (yields (find_utility_function artifact (fc_selector call))) (\<lambda>f.
     and_then (if fa_name f \<noteq> ''sync_state''
               then ensure_synced self (pxe_execute_utility X self n) (fc_to call) scopes (ah_block_hash anchor)
               else yields (Inr ())) (\<lambda>_.
       on_drawing (execute_utility X n artifact (fa_name f) (utility_args call)
         (utility_callback (px_env self) (utility_set_auth_witnesses (auth_witness_pairs authwits)
            (utility_new (ah_data anchor) (fc_to call) scopes)))))))))"

end
