(* ===== verification/Pxe_Execution.thy ===== *)
theory Pxe_Execution
  imports Embedded_Pxe
begin

text \<open>
  Execution of transactions by the embedded PXE (\<open>crates/pxe/src/embedded_pxe.rs\<close>): one call of a request
  (\<open>execute_entrypoint_call_bundle\<close>), the whole entrypoint (\<open>execute_entrypoint_via_acvm\<close>), and the
  operations \<open>simulate_tx\<close>, \<open>prove_tx\<close>, \<open>profile_tx\<close> and \<open>get_private_events\<close> built from them.
\<close>

subsection \<open>One call\<close>

definition solved :: "('m, 'c, 'u, 'fe) acvm \<Rightarrow> 'fe witness_map \<Rightarrow> u32 \<Rightarrow> fr option" where
  "solved X witness i = map_option (fe_to_fr X) (witness i)"

text \<open>The values a call returns: what its returns hash stands for in the execution cache.\<close>

definition acir_call_returns ::
    "('m, 'c, 'u, 'fe) acvm \<Rightarrow> 'fe witness_map private_oracle \<Rightarrow> 'fe acvm_execution_output \<Rightarrow> nat \<Rightarrow> fr list" where
  "acir_call_returns X oracle output pcpi_start =
     (case solved X (out_witness output) (of_nat (pcpi_start + 5)) of
        Some returns_hash \<Rightarrow> unwrap_or [] (po_execution_cache oracle returns_hash)
      | None \<Rightarrow> out_first_acir_call_return_values output)"

definition with_call_data ::
    "('w private_call \<Rightarrow> 'w private_call) \<Rightarrow> 'w private_execution_result \<Rightarrow> 'w private_execution_result" where
  "with_call_data f r =
     r\<lparr>er_entrypoint := PrivateCall (f (call_data (er_entrypoint r))) (nested_execution_results (er_entrypoint r))\<rparr>"

text \<open>The PXE has its own copy of the oracle's extraction of the side effects, statement for statement the same.\<close>

definition pxe_extract_side_effects_from_witness ::
    "(u32 \<Rightarrow> fr option) \<Rightarrow> nat \<Rightarrow> aztec_address \<Rightarrow> scoped_note_hash list \<times> scoped_nullifier list \<times> private_log_data list" where
  "pxe_extract_side_effects_from_witness = extract_side_effects_from_witness"

text \<open>What the solved witness adds to the result of the oracle: the call context, the public inputs, the
  expiration, the note hashes when the oracle recorded none, and the logs.\<close>

definition complete_result ::
    "('m, 'c, 'u, 'fe) acvm \<Rightarrow> call_context \<Rightarrow> nat \<Rightarrow> nat \<Rightarrow> nat \<Rightarrow> aztec_address \<Rightarrow>
     'fe witness_map private_execution_result \<Rightarrow> 'fe witness_map private_execution_result" where
  "complete_result X context witness_size params ctx contract_address r =
     (let witness = solved X (call_partial_witness (call_data (er_entrypoint r)))
      in case pxe_extract_side_effects_from_witness witness params contract_address of
           (circuit_note_hashes, _, circuit_logs) \<Rightarrow>
             (with_call_data (\<lambda>d. d
               \<lparr>call_call_context := context,
                call_public_inputs_fields := extract_public_inputs_fields witness witness_size,
                call_note_hashes := (if call_note_hashes d = [] then circuit_note_hashes else call_note_hashes d),
                call_private_logs := call_private_logs d @ circuit_logs\<rparr>) r)
             \<lparr>er_expiration_timestamp := extract_expiration_timestamp_from_witness witness params ctx\<rparr>)"

definition bundle_of :: "fr list \<Rightarrow> 'w private_execution_result \<Rightarrow> 'w call_execution_bundle" where
  "bundle_of returns r =
     \<lparr>cb_execution_result = r,
      cb_contract_class_log_fields = map (\<lambda>ccl. from_emitted_fields (ccl_fields (cccl_log ccl))) (all_contract_class_logs_sorted r),
      cb_public_function_calldata = er_public_function_calldata r,
      cb_first_acir_call_return_values = returns,
      cb_simulated_return_values = (if returns \<noteq> [] then returns
        else call_return_values (call_data (er_entrypoint r)))\<rparr>"

definition entrypoint_oracle ::
    "request_codec \<Rightarrow> json \<Rightarrow> json \<Rightarrow> aztec_address \<Rightarrow> fr \<Rightarrow> aztec_address \<Rightarrow> aztec_address list \<Rightarrow> bool \<Rightarrow> fr list option \<Rightarrow>
     nat \<Rightarrow> 'w private_oracle" where
  "entrypoint_oracle R req anchor contract_address nullifier origin scopes is_static context_witness draws =
     (oracle_new anchor contract_address nullifier (Some origin) scopes is_static)
       \<lparr>po_auth_witnesses := auth_witness_pairs (request_auth_witnesses R req),
        po_context_witness_prefix := unwrap_or [] context_witness, po_draws := draws\<rparr>"

text \<open>Running a private function with an oracle; the draws of the oracle continue the supply.\<close>

definition run_private ::
    "('m, 'c, 'u, 'fe) acvm \<Rightarrow> ('s, 'v) oracle_env \<Rightarrow> nat \<Rightarrow> contract_artifact \<Rightarrow> string \<Rightarrow> fr list \<Rightarrow>
     (nat \<Rightarrow> 'fe witness_map private_oracle) \<Rightarrow>
     ('s \<times> nat, 'fe acvm_execution_output \<times> 'fe witness_map private_oracle) run" where
  "run_private X env fuel artifact function_name witness oracle = (\<lambda>(s, draws).
     case execute_private X fuel artifact function_name witness (private_callback X env fuel) (s, oracle draws) of
       None \<Rightarrow> None
     | Some (Inl e, (s', oracle')) \<Rightarrow> Some (Inl e, (s', po_draws oracle'))
     | Some (Inr output, (s', oracle')) \<Rightarrow> Some (Inr (output, oracle'), (s', po_draws oracle')))"

definition on_store_run :: "('s, 'a) op \<Rightarrow> ('s \<times> nat, 'a) run" where
  "on_store_run m st = Some (on_store m st)"

definition execute_private_call ::
    "('m, 'c, 'u, 'fe) acvm \<Rightarrow> ('s, 'v, 'w, 'fe) embedded_pxe \<Rightarrow> nat \<Rightarrow> json \<Rightarrow> decoded_entrypoint_call \<Rightarrow> contract_artifact \<Rightarrow>
     function_artifact \<Rightarrow> string \<Rightarrow> aztec_address \<Rightarrow> fr \<Rightarrow> json anchor_block_header \<Rightarrow> aztec_address list \<Rightarrow>
     ('s \<times> nat, 'fe witness_map call_execution_bundle) run" where
  "execute_private_call X self fuel req call artifact f function_name origin protocol_nullifier anchor scopes =
     (let contract_address = dc_to call;
          env = px_oracle self;
          ctx = private_context_inputs_size artifact function_name
      in and_then (yields (ok_or (Panic ''private function selector'') (fa_selector f))) (\<lambda>selector.
         let full_witness = build_private_witness (oe_hex env) (px_vk_tree_root self) (px_protocol_contracts_hash self)
               artifact function_name (dc_encoded_args call) contract_address origin req (ah_data anchor) selector
               (fa_is_static f)
         in and_then (run_private X env fuel artifact function_name full_witness
               (entrypoint_oracle (px_codec self) req (ah_data anchor) contract_address protocol_nullifier origin scopes
                  (dc_is_static call) (context_prefix artifact function_name full_witness))) (\<lambda>(acvm_output, oracle).
            let returns = acir_call_returns X oracle acvm_output (ctx + length (dc_encoded_args call));
                execution_result = complete_result X
                  \<lparr>cc_msg_sender = origin, cc_contract_address = contract_address,
                   cc_function_selector = function_selector_to_field selector, cc_is_static_call = fa_is_static f\<rparr>
                  (length full_witness) (ctx + length (dc_encoded_args call)) ctx contract_address
                  (build_execution_result oracle acvm_output contract_address 0)
            in and_then (on_store_run (persist_pending_notes (oe_note_store env) execution_result scopes)) (\<lambda>_.
                 yields (Inr (bundle_of returns execution_result))))))"

definition execute_entrypoint_call_bundle ::
    "('m, 'c, 'u, 'fe) acvm \<Rightarrow> ('s, 'v, 'w, 'fe) embedded_pxe \<Rightarrow> nat \<Rightarrow> json \<Rightarrow> decoded_entrypoint_call \<Rightarrow> aztec_address \<Rightarrow>
     fr \<Rightarrow> json anchor_block_header \<Rightarrow> aztec_address list \<Rightarrow> ('s \<times> nat, 'fe witness_map call_execution_bundle) run" where
  "execute_entrypoint_call_bundle X self fuel req call origin protocol_nullifier anchor scopes = (\<lambda>(s, draws).
     let contract_address = dc_to call; env = px_oracle self; C = oe_crypto env in
     case resolve_function_name_by_selector env contract_address (dc_selector call) s of
       (function_name, s1) \<Rightarrow>
         and_then (yields (protocol_private_execution C (oe_curve env) Map.empty
             (bind_result (request_capsules (px_codec self) req) (\<lambda>cs. Inr (unwrap_or [] cs))) contract_address
             function_name (dc_encoded_args call) origin protocol_nullifier)) (\<lambda>protocol.
         case protocol of
           Some bundle \<Rightarrow> yields (Inr bundle)
         | None \<Rightarrow>
             (case protocol_public_execution C Map.empty contract_address function_name (dc_encoded_args call) origin
                 protocol_nullifier (dc_hide_msg_sender call) (dc_is_static call) of
                Some bundle \<Rightarrow> yields (Inr bundle)
              | None \<Rightarrow>
                  and_then (on_store_run (find_contract self ''contract not found'' ''artifact not found for class''
                      contract_address)) (\<lambda>artifact.
                  and_then (yields (find_function artifact function_name)) (\<lambda>f.
                    if fa_function_type f = Public
                    then yields (build_public_call_execution C Map.empty artifact function_name (dc_encoded_args call)
                           contract_address origin protocol_nullifier (dc_hide_msg_sender call) (dc_is_static call))
                    else execute_private_call X self fuel req call artifact f function_name origin protocol_nullifier
                           anchor scopes)))) (s1, draws))"

text \<open>The calls of a request, one after the other.\<close>

fun execute_calls ::
    "('m, 'c, 'u, 'fe) acvm \<Rightarrow> ('s, 'v, 'w, 'fe) embedded_pxe \<Rightarrow> nat \<Rightarrow> json \<Rightarrow> aztec_address \<Rightarrow> fr \<Rightarrow>
     json anchor_block_header \<Rightarrow> aztec_address list \<Rightarrow> decoded_entrypoint_call list \<Rightarrow>
     ('s \<times> nat, 'fe witness_map call_execution_bundle list) run" where
  "execute_calls X self fuel req origin nullifier anchor scopes [] = yields (Inr [])"
| "execute_calls X self fuel req origin nullifier anchor scopes (call # calls) =
     and_then (execute_entrypoint_call_bundle X self fuel req call origin nullifier anchor scopes) (\<lambda>bundle.
     and_then (execute_calls X self fuel req origin nullifier anchor scopes calls) (\<lambda>bundles.
       yields (Inr (bundle # bundles))))"

subsection \<open>The whole entrypoint\<close>

definition entrypoint_name ::
    "('s, 'v, 'w, 'fe) embedded_pxe \<Rightarrow> json \<Rightarrow> aztec_address \<Rightarrow> 's \<Rightarrow> string \<times> 's" where
  "entrypoint_name self req origin s =
     (case Option.bind (Option.bind (js_field ''functionSelector'' req) js_str)
         (\<lambda>t. result_ok (function_selector_from_hex (oe_hex (px_oracle self)) t)) of
        Some sel \<Rightarrow> resolve_function_name_by_selector (px_oracle self) origin sel s
      | None \<Rightarrow> (''entrypoint'', s))"

definition named :: "('s \<Rightarrow> 'a \<times> 's) \<Rightarrow> ('s, 'a) op" where
  "named f s = (case f s of (x, s') \<Rightarrow> (Inr x, s'))"

definition entrypoint_result ::
    "('m, 'c, 'u, 'fe) acvm \<Rightarrow> 'fe witness_map private_oracle \<Rightarrow> 'fe acvm_execution_output \<Rightarrow> aztec_address \<Rightarrow>
     function_selector option \<Rightarrow> nat \<Rightarrow> 'fe witness_map private_call_execution_result" where
  "entrypoint_result X oracle output origin selector witness_size =
     PrivateCall
       \<lparr>call_acir = out_acir_bytecode output, call_vk = out_verification_key output,
        call_partial_witness = out_witness output, call_contract_address = origin,
        call_call_context = \<lparr>cc_msg_sender = null_msg_sender, cc_contract_address = origin,
          cc_function_selector = (case selector of Some sel \<Rightarrow> function_selector_to_field sel | None \<Rightarrow> 0),
          cc_is_static_call = False\<rparr>,
        call_return_values = out_return_values output,
        call_public_inputs_fields = extract_public_inputs_fields (solved X (out_witness output)) witness_size,
        call_new_notes = po_new_notes oracle,
        call_note_hash_nullifier_counter_map = po_note_hash_nullifier_counter_map oracle,
        call_offchain_effects = [], call_pre_tags = [],
        call_contract_class_logs = po_contract_class_logs oracle, call_note_hashes = po_note_hashes oracle,
        call_nullifiers = po_nullifiers oracle,
        call_note_hash_read_requests = po_note_hash_read_requests oracle,
        call_nullifier_read_requests = po_nullifier_read_requests oracle,
        call_private_logs = po_private_logs oracle,
        call_public_call_requests = po_public_call_requests oracle,
        call_public_teardown_call_request = po_public_teardown_call_request oracle,
        call_start_side_effect_counter = 2, call_end_side_effect_counter = po_side_effect_counter oracle,
        call_min_revertible_side_effect_counter = po_min_revertible_side_effect_counter oracle\<rparr>
       (po_nested_results oracle)"

definition execute_entrypoint_via_acvm ::
    "('m, 'c, 'u, 'fe) acvm \<Rightarrow> ('s, 'v, 'w, 'fe) embedded_pxe \<Rightarrow> nat \<Rightarrow> json \<Rightarrow> aztec_address \<Rightarrow> fr \<Rightarrow>
     json anchor_block_header \<Rightarrow> aztec_address list \<Rightarrow> ('s \<times> nat, 'fe witness_map call_execution_bundle) run" where
  "execute_entrypoint_via_acvm X self fuel req origin protocol_nullifier anchor scopes =
     (let env = px_oracle self; R = px_codec self in
      and_then (yields (rc_decoded R req)) (\<lambda>request.
      and_then (on_store_run (find_contract self ''account contract not found''
          ''account contract artifact not found for class'' origin)) (\<lambda>artifact.
      and_then (yields (ok_or (InvalidData ''firstCallArgsHash not found in argsOfCalls'')
          (find_hashed (dr_first_call_args_hash request) (dr_args_of_calls request)))) (\<lambda>entrypoint_args.
      and_then (on_store_run (named (entrypoint_name self req origin))) (\<lambda>function_name.
      and_then (yields (find_function artifact function_name)) (\<lambda>f.
      let ctx = private_context_inputs_size artifact function_name;
          full_witness = build_private_witness (oe_hex env) (px_vk_tree_root self) (px_protocol_contracts_hash self)
            artifact function_name (hv_values entrypoint_args) origin null_msg_sender req (ah_data anchor)
            (unwrap_or function_selector_empty (fa_selector f)) (fa_is_static f)
      in
      and_then (yields (request_capsules R req)) (\<lambda>capsules.
      and_then (run_private X env fuel artifact function_name full_witness (\<lambda>draws.
          (seed_execution_cache (dr_args_of_calls request)
             (entrypoint_oracle R req (ah_data anchor) origin protocol_nullifier origin scopes False
                (context_prefix artifact function_name full_witness) draws))
          \<lparr>po_capsules := unwrap_or [] capsules\<rparr>)) (\<lambda>(acvm_output, oracle).
      let entrypoint = entrypoint_result X oracle acvm_output origin (fa_selector f) (length full_witness);
          returns = out_first_acir_call_return_values acvm_output
      in yields (Inr
           \<lparr>cb_execution_result = \<lparr>er_entrypoint = entrypoint, er_first_nullifier = protocol_nullifier,
              er_expiration_timestamp = extract_expiration_timestamp_from_witness (solved X (out_witness acvm_output))
                (length full_witness) ctx,
              er_public_function_calldata = po_public_function_calldata oracle\<rparr>,
            cb_contract_class_log_fields = map (\<lambda>log. from_emitted_fields (ccl_fields (cccl_log log)))
              (call_contract_class_logs (call_data entrypoint)),
            cb_public_function_calldata = po_public_function_calldata oracle,
            cb_first_acir_call_return_values = returns,
            cb_simulated_return_values = (if returns \<noteq> [] then returns else out_return_values acvm_output)\<rparr>)))))))))"

end
