(* ===== verification/Pxe_Operations.thy ===== *)
theory Pxe_Operations
  imports Pxe_Execution
begin

text \<open>
  The operations of the embedded PXE on transactions and events (\<open>crates/pxe/src/embedded_pxe.rs\<close>):
  \<open>simulate_tx\<close>, \<open>prove_tx\<close>, \<open>profile_tx\<close> and \<open>get_private_events\<close>.
\<close>

subsection \<open>Preparing a transaction\<close>

text \<open>What simulation and profiling start with: the anchor, the nullifier of the request, the request.\<close>

definition prepare_request ::
    "('s, 'v, 'w, 'fe) embedded_pxe \<Rightarrow> json \<Rightarrow> ('s pxe_state, json anchor_block_header \<times> fr \<times> decoded_tx_execution_request) op" where
  "prepare_request self req =
     seq (sync_block_state self) (\<lambda>_.
     seq (pxe_anchor_block_header self) (\<lambda>anchor.
     seq (lift_result (tx_request_hash (oe_crypto (px_oracle self)) (px_codec self) req)) (\<lambda>hash.
     seq (lift_result (rc_decoded (px_codec self) req)) (\<lambda>request.
       ret (anchor, compute_protocol_nullifier (oe_crypto (px_oracle self)) hash, request)))))"

definition run_calls ::
    "('m, 'c, 'u, 'fe) acvm \<Rightarrow> ('s, 'v, 'w, 'fe) embedded_pxe \<Rightarrow> nat \<Rightarrow> json \<Rightarrow> aztec_address \<Rightarrow> fr \<Rightarrow>
     json anchor_block_header \<Rightarrow> aztec_address list \<Rightarrow> decoded_entrypoint_call list \<Rightarrow>
     ('s pxe_state, 'fe witness_map call_execution_bundle list) run" where
  "run_calls X self fuel req origin nullifier anchor scopes calls =
     on_drawing (execute_calls X self fuel req origin nullifier anchor scopes calls)"

definition expiration_of :: "'w call_execution_bundle \<Rightarrow> json anchor_block_header \<Rightarrow> u64 result" where
  "expiration_of aggregated anchor =
     (let e = er_expiration_timestamp (cb_execution_result aggregated)
      in if e \<noteq> 0 then Inr e else compute_expiration (ah_data anchor))"

definition fee_payer_of :: "decoded_tx_execution_request \<Rightarrow> aztec_address \<Rightarrow> aztec_address" where
  "fee_payer_of request origin = unwrap_or origin (dr_fee_payer request)"

definition constants_of :: "('s, 'v, 'w, 'fe) embedded_pxe \<Rightarrow> json anchor_block_header \<Rightarrow> json \<Rightarrow> tx_constant_data" where
  "constants_of self anchor req =
     build_tx_constant_data (oe_hex (px_oracle self)) (ah_data anchor) req (px_vk_tree_root self)
       (px_protocol_contracts_hash self)"

subsection \<open>Simulation\<close>

definition snapshot_default :: append_only_tree_snapshot where
  "snapshot_default = \<lparr>snap_root = 0, snap_next_available_leaf_index = 0\<rparr>"

definition tx_constant_data_default :: tx_constant_data where
  "tx_constant_data_default =
     \<lparr>tcd_anchor_block_header =
        \<lparr>bh_last_archive = snapshot_default,
         bh_state = \<lparr>sr_l1_to_l2_message_tree = snapshot_default,
           sr_partial = \<lparr>ps_note_hash_tree = snapshot_default, ps_nullifier_tree = snapshot_default,
             ps_public_data_tree = snapshot_default\<rparr>\<rparr>,
         bh_sponge_blob_hash = 0,
         bh_global_variables = \<lparr>gv_chain_id = 0, gv_version = 0, gv_block_number = 0, gv_slot_number = 0,
           gv_timestamp = 0, gv_coinbase = eth_address_default, gv_fee_recipient = aztec_address_zero,
           gv_gas_fees = gas_fees_default\<rparr>,
         bh_total_fees = 0, bh_total_mana_used = 0\<rparr>,
      tcd_tx_context = \<lparr>tc_chain_id = 0, tc_version = 0, tc_gas_settings = gas_settings_default\<rparr>,
      tcd_vk_tree_root = 0, tcd_protocol_contracts_hash = 0\<rparr>"

definition values_json :: "hex_crate \<Rightarrow> fr list \<Rightarrow> json" where
  "values_json H fs = JsArray (map (\<lambda>f. JsString (fr_display H f)) fs)"

text \<open>The return values of the first call: of the function it called first, if any, else its own.\<close>

definition private_return_values :: "'w call_execution_bundle \<Rightarrow> fr list" where
  "private_return_values aggregated =
     (let from_tree =
        (case nested_execution_results (er_entrypoint (cb_execution_result aggregated)) of
           [] \<Rightarrow> []
         | ep # _ \<Rightarrow> (case nested_execution_results ep of
               inner # _ \<Rightarrow> call_return_values (call_data inner)
             | [] \<Rightarrow> call_return_values (call_data ep)))
      in if from_tree = [] \<and> cb_first_acir_call_return_values aggregated \<noteq> []
         then cb_first_acir_call_return_values aggregated else from_tree)"

definition return_values_json ::
    "hex_crate \<Rightarrow> 'w call_execution_bundle list \<Rightarrow> 'w call_execution_bundle \<Rightarrow> json" where
  "return_values_json H bundles aggregated =
     (if length bundles > 1 then JsArray (map (\<lambda>b. values_json H (cb_simulated_return_values b)) bundles)
      else values_json H (private_return_values aggregated))"

definition number_json :: "u64 \<Rightarrow> json" where
  "number_json n = JsNumber (u64_display n) (Some n)"

definition simulation_json :: "json \<Rightarrow> private_kernel_tail_public_inputs \<Rightarrow> json" where
  "simulation_json return_values pi =
     JsObject [(''returnValues'', return_values),
       (''gasUsed'', JsObject [(''daGas'', number_json (da_gas (pi_gas_used pi))),
          (''l2Gas'', number_json (l2_gas (pi_gas_used pi)))]),
       (''isForPublic'', JsBool (is_for_public pi))]"

definition simulate_tx ::
    "('m, 'c, 'u, 'fe) acvm \<Rightarrow> ('s, 'v, 'w, 'fe) embedded_pxe \<Rightarrow> nat \<Rightarrow> json \<Rightarrow> aztec_address list \<Rightarrow> ('s pxe_state, json) run" where
  "simulate_tx X self fuel req scopes =
     and_then (run_op (prepare_request self req)) (\<lambda>(anchor, protocol_nullifier, request).
     let origin = dr_origin request; env = px_oracle self in
     and_then (yields (decode_entrypoint_calls request)) (\<lambda>decoded_calls.
     and_then (run_calls X self fuel req origin protocol_nullifier anchor scopes decoded_calls) (\<lambda>bundles.
     let aggregated = aggregate_call_bundles Map.empty origin bundles in
     and_then (run_op (on_pxe_store (verify_auth_witness_signatures (px_codec self) env req origin))) (\<lambda>_.
     and_then (yields (process_kernel (oe_crypto env) (cb_execution_result aggregated) tx_constant_data_default
         (address_field origin) 0)) (\<lambda>kernel_output.
       yields (Inr (simulation_json (return_values_json (oe_hex env) bundles aggregated) (public_inputs kernel_output))))))))"

subsection \<open>Proving\<close>

definition CHONK_PROOF_LENGTH :: nat where "CHONK_PROOF_LENGTH = 1935"

definition dummy_proof :: "u8 list" where
  "dummy_proof = be_bytes 4 CHONK_PROOF_LENGTH @ replicate (CHONK_PROOF_LENGTH * 32) 0"

text \<open>The calldata in the order of the counters of their requests.\<close>

definition sorted_calldata :: "'w call_execution_bundle \<Rightarrow> hashed_values list" where
  "sorted_calldata aggregated =
     (let requests = all_public_call_requests (cb_execution_result aggregated);
          calldata = cb_public_function_calldata aggregated
      in if length requests = length calldata \<and> calldata \<noteq> []
         then map snd (sort_key (\<lambda>(req, _). pcd_counter req) (zip requests calldata)) else calldata)"

definition missing_account :: "error \<Rightarrow> bool" where
  "missing_account e \<longleftrightarrow>
     (case e of InvalidData msg \<Rightarrow> contains ''account contract not found'' msg \<or>
        contains ''account contract artifact not found'' msg
      | _ \<Rightarrow> False)"

text \<open>The loop over the calls and scopes ignores what a synchronization answers.\<close>

fun sync_called_contracts ::
    "('s, 'v, 'w, 'fe) embedded_pxe \<Rightarrow> 's utility_executor \<Rightarrow> aztec_address list \<Rightarrow> string \<Rightarrow> aztec_address list \<Rightarrow>
     's pxe_state \<Rightarrow> 's pxe_state option" where
  "sync_called_contracts self execute scopes hash [] st = Some st"
| "sync_called_contracts self execute scopes hash (contract # contracts) st =
     (case ensure_synced self execute contract scopes hash st of
        None \<Rightarrow> None
      | Some (_, st') \<Rightarrow> sync_called_contracts self execute scopes hash contracts st')"

definition run_aggregated ::
    "('m, 'c, 'u, 'fe) acvm \<Rightarrow> ('s, 'v, 'w, 'fe) embedded_pxe \<Rightarrow> nat \<Rightarrow> json \<Rightarrow> aztec_address \<Rightarrow> fr \<Rightarrow>
     json anchor_block_header \<Rightarrow> aztec_address list \<Rightarrow> decoded_entrypoint_call list \<Rightarrow>
     ('s pxe_state, 'fe witness_map call_execution_bundle) run" where
  "run_aggregated X self fuel req origin nullifier anchor scopes calls =
     and_then (run_calls X self fuel req origin nullifier anchor scopes calls) (\<lambda>bundles.
       yields (Inr (aggregate_call_bundles Map.empty origin bundles)))"

text \<open>The entrypoint runs as a whole when a call is public or real proofs are wanted; when a call is public
  and the account contract is not known, the calls run one by one after all.\<close>

definition run_request ::
    "('m, 'c, 'u, 'fe) acvm \<Rightarrow> ('s, 'v, 'w, 'fe) embedded_pxe \<Rightarrow> nat \<Rightarrow> json \<Rightarrow> bool \<Rightarrow> aztec_address \<Rightarrow> fr \<Rightarrow>
     json anchor_block_header \<Rightarrow> aztec_address list \<Rightarrow> decoded_entrypoint_call list \<Rightarrow>
     ('s pxe_state, 'fe witness_map call_execution_bundle) run" where
  "run_request X self fuel req public_calls origin nullifier anchor scopes calls st =
     (if public_calls \<or> px_prover_enabled self
      then (case on_drawing (execute_entrypoint_via_acvm X self fuel req origin nullifier anchor scopes) st of
          None \<Rightarrow> None
        | Some (Inr bundle, st') \<Rightarrow> Some (Inr bundle, st')
        | Some (Inl e, st') \<Rightarrow>
            if public_calls \<and> missing_account e
            then run_aggregated X self fuel req origin nullifier anchor scopes calls st'
            else Some (Inl e, st'))
      else run_aggregated X self fuel req origin nullifier anchor scopes calls st)"

definition simulated_proof ::
    "crypto \<Rightarrow> 'w call_execution_bundle \<Rightarrow> tx_constant_data \<Rightarrow> aztec_address \<Rightarrow> u64 \<Rightarrow> tx_proving_result result" where
  "simulated_proof C aggregated constants fee_payer expiration =
     bind_result (process_kernel C (cb_execution_result aggregated) constants (address_field fee_payer) expiration)
       (\<lambda>kernel_output.
       Inr \<lparr>tp_tx_hash = Some (TxHash (fr_to_be_bytes (public_inputs_hash C (public_inputs kernel_output)))),
            tp_public_inputs = to_buffer (public_inputs kernel_output), tp_chonk_proof = dummy_proof,
            tp_contract_class_log_fields = cb_contract_class_log_fields aggregated,
            tp_public_function_calldata = sorted_calldata aggregated\<rparr>)"

definition prove_tx ::
    "('m, 'c, 'u, 'fe) acvm \<Rightarrow> ('s, 'v, 'w, 'fe) embedded_pxe \<Rightarrow> nat \<Rightarrow> json \<Rightarrow> aztec_address list \<Rightarrow>
     ('s pxe_state, tx_proving_result) run" where
  "prove_tx X self fuel req scopes =
     (let env = px_oracle self; C = oe_crypto env; origin = extract_origin (oe_hex env) req in
     and_then (run_op (sync_block_state self)) (\<lambda>_.
     and_then (run_op (pxe_anchor_block_header self)) (\<lambda>anchor.
     and_then (yields (tx_request_hash C (px_codec self) req)) (\<lambda>hash.
     let protocol_nullifier = compute_protocol_nullifier C hash in
     and_then (yields (ensure_min_fees (constants_of self anchor req) (ah_data anchor))) (\<lambda>tx_constants.
     and_then (yields (rc_decoded (px_codec self) req)) (\<lambda>request.
     and_then (yields (decode_entrypoint_calls request)) (\<lambda>decoded_calls.
     and_then (\<lambda>st. map_option (\<lambda>st'. (Inr (), st'))
         (sync_called_contracts self (pxe_execute_utility X self fuel) scopes (ah_block_hash anchor)
            (concat (map (\<lambda>call. map (\<lambda>_. dc_to call) scopes) decoded_calls)) st)) (\<lambda>_.
     and_then (run_request X self fuel req (has_public_calls request) origin protocol_nullifier anchor scopes
         decoded_calls) (\<lambda>aggregated.
     and_then (yields (expiration_of aggregated anchor)) (\<lambda>expiration.
     and_then (run_op (on_pxe_store (verify_auth_witness_signatures (px_codec self) env req origin))) (\<lambda>_.
       yields (if px_prover_enabled self
         then px_prove_with_real_kernels self req (cb_execution_result aggregated) anchor
                (cb_contract_class_log_fields aggregated) (sorted_calldata aggregated)
         else simulated_proof C aggregated tx_constants (fee_payer_of request origin) expiration))))))))))))"

definition profile_tx ::
    "('m, 'c, 'u, 'fe) acvm \<Rightarrow> ('s, 'v, 'w, 'fe) embedded_pxe \<Rightarrow> nat \<Rightarrow> json \<Rightarrow> aztec_address list \<Rightarrow> ('s pxe_state, json) run" where
  "profile_tx X self fuel req scopes =
     and_then (run_op (prepare_request self req)) (\<lambda>(anchor, protocol_nullifier, request).
     let origin = dr_origin request; C = oe_crypto (px_oracle self) in
     and_then (yields (decode_entrypoint_calls request)) (\<lambda>decoded_calls.
     and_then (run_aggregated X self fuel req origin protocol_nullifier anchor scopes decoded_calls) (\<lambda>aggregated.
     and_then (yields (expiration_of aggregated anchor)) (\<lambda>expiration.
     and_then (yields (ensure_min_fees (constants_of self anchor req) (ah_data anchor))) (\<lambda>tx_constants.
     and_then (yields (process_kernel C (cb_execution_result aggregated) tx_constants
         (address_field (fee_payer_of request origin)) expiration)) (\<lambda>_.
       yields (Inr (JsObject [(''expirationTimestamp'', number_json expiration),
         (''data'', JsObject [(''expirationTimestamp'', number_json expiration)])]))))))))"

subsection \<open>Private events\<close>

record packed_private_event =
  pe_packed_event :: "fr list"
  pe_tx_hash :: tx_hash
  pe_l2_block_number :: u64
  pe_l2_block_hash :: "u8 list"
  pe_event_selector :: event_selector

definition pack_event :: "hex_crate \<Rightarrow> stored_private_event \<Rightarrow> packed_private_event" where
  "pack_event H e =
     \<lparr>pe_packed_event = ev_msg_content e, pe_tx_hash = ev_tx_hash e, pe_l2_block_number = ev_l2_block_number e,
      pe_l2_block_hash = unwrap_or (replicate 32 0) (result_ok (decode_fixed_hex H 32 (ev_l2_block_hash e))),
      pe_event_selector = ev_event_selector e\<rparr>"

definition anchor_hash_or_empty :: "('s, 'v, 'w, 'fe) embedded_pxe \<Rightarrow> ('s pxe_state, string) op" where
  "anchor_hash_or_empty self st =
     (case pxe_anchor_block_header self st of
        (Inr h, st') \<Rightarrow> (Inr (ah_block_hash h), st') | (Inl _, st') \<Rightarrow> (Inr [], st'))"

definition pxe_get_private_events ::
    "('m, 'c, 'u, 'fe) acvm \<Rightarrow> ('s, 'v, 'w, 'fe) embedded_pxe \<Rightarrow> nat \<Rightarrow> event_selector \<Rightarrow> 'l private_event_filter \<Rightarrow>
     ('s pxe_state, packed_private_event list) run" where
  "pxe_get_private_events X self fuel selector filt =
     and_then (run_op (sync_block_state self)) (\<lambda>_.
     and_then (run_op (pxe_anchor_block_number self)) (\<lambda>anchor_block_number.
     and_then (run_op (anchor_hash_or_empty self)) (\<lambda>anchor_hash.
     and_then (ensure_synced self (pxe_execute_utility X self fuel) (pf_contract_address filt) (pf_scopes filt)
         anchor_hash) (\<lambda>_.
     and_then (yields (validate_filter anchor_block_number filt)) (\<lambda>query_filter.
     and_then (run_op (on_pxe_store (get_private_events (px_event_store self) selector query_filter))) (\<lambda>stored_events.
       yields (Inr (map (pack_event (oe_hex (px_oracle self))) stored_events))))))))"

end
