(* ===== verification/Pxe_Isolation.thy ===== *)
theory Pxe_Isolation
  imports Pxe_Operations Utility_Access
begin

text \<open>
  What executing transactions can change. Whatever the contracts do and whatever the node answers, the
  operations of the PXE write only notes, events, tagging indexes, capsules and the anchor block: the
  registered keys, addresses, senders and contracts are out of their reach.
\<close>

subsection \<open>Frames of runs\<close>

text \<open>\<open>store\<close> is the part of the state with the entries.\<close>

definition keeps :: "('p \<Rightarrow> 'v btree) \<Rightarrow> (string \<Rightarrow> bool) \<Rightarrow> ('p, 'a) run \<Rightarrow> bool" where
  "keeps store P m \<longleftrightarrow> (\<forall>p r p'. btree_ok (store p) \<longrightarrow> m p = Some (r, p') \<longrightarrow>
     btree_ok (store p') \<and> (\<forall>k. \<not> P k \<longrightarrow> map_of (store p') k = map_of (store p) k))"

abbreviation pxe_store :: "'s pxe_state \<Rightarrow> 's" where
  "pxe_store st \<equiv> ss_kv (ps_sync st)"

abbreviation store_framed :: "(string \<Rightarrow> bool) \<Rightarrow> ('v btree, 'a) op \<Rightarrow> bool" where
  "store_framed P m \<equiv> framed btree_ok map_of P m"

named_theorems keeps_intros

lemma keepsD:
  assumes "keeps store P m" and "m p = Some (r, p')" and "btree_ok (store p)"
  shows "btree_ok (store p')" "\<not> P k \<Longrightarrow> map_of (store p') k = map_of (store p) k"
  using assms by (auto simp: keeps_def)

lemma keeps_and_then [keeps_intros]:
  assumes "keeps store P m" and "\<And>x. keeps store P (f x)"
  shows "keeps store P (and_then m f)"
  unfolding keeps_def
proof (intro allI impI)
  fix p r p' assume p: "btree_ok (store p)" and run: "and_then m f p = Some (r, p')"
  then obtain r1 p1 where m: "m p = Some (r1, p1)" by (auto simp: and_then_def split: option.splits)
  note first = keepsD[OF assms(1) m p]
  show "btree_ok (store p') \<and> (\<forall>k. \<not> P k \<longrightarrow> map_of (store p') k = map_of (store p) k)"
  proof (cases r1)
    case (Inl e)
    then show ?thesis using run m first by (auto simp: and_then_def)
  next
    case (Inr x)
    then have "f x p1 = Some (r, p')" using run m by (simp add: and_then_def)
    from keepsD[OF assms(2) this first(1)] first(2) show ?thesis by auto
  qed
qed

lemma keeps_yields [keeps_intros]: "keeps store P (yields r)"
  by (simp add: keeps_def yields_def)

lemma keeps_fails [keeps_intros]: "keeps store P (\<lambda>_. None)"
  by (simp add: keeps_def)

lemma keeps_seq:
  assumes "keeps store P (run_op m)" and "\<And>x. keeps store P (run_op (f x))"
  shows "keeps store P (run_op (seq m f))"
proof -
  have "run_op (seq m f) = and_then (run_op m) (\<lambda>x. run_op (f x))"
    by (auto simp: fun_eq_iff run_op_def and_then_def seq_def split: prod.splits sum.splits)
  then show ?thesis using keeps_and_then[OF assms] by simp
qed

lemma keeps_cases [keeps_intros]:
  "keeps store P m \<Longrightarrow> (\<And>x. keeps store P (f x)) \<Longrightarrow> keeps store P (case v of None \<Rightarrow> m | Some x \<Rightarrow> f x)"
  "keeps store P m \<Longrightarrow> keeps store P m' \<Longrightarrow> keeps store P (if c then m else m')"
  "(\<And>x y. keeps store P (g x y)) \<Longrightarrow> keeps store P (case w of (x, y) \<Rightarrow> g x y)"
  by (auto split: option.splits prod.splits)

lemma keeps_on_store_run [keeps_intros]: "store_framed P m \<Longrightarrow> keeps fst P (on_store_run m)"
  by (auto simp: keeps_def framed_def on_store_run_def on_store_def split: prod.splits)

lemma keeps_on_pxe_store [keeps_intros]: "store_framed P m \<Longrightarrow> keeps pxe_store P (run_op (on_pxe_store m))"
  by (auto simp: keeps_def framed_def run_op_def on_pxe_store_def on_sync_def on_kv_def split: prod.splits)

lemma keeps_on_drawing [keeps_intros]: "keeps fst P m \<Longrightarrow> keeps pxe_store P (on_drawing m)"
  by (fastforce simp: keeps_def on_drawing_def set_store_def split: option.splits prod.splits)

lemma keeps_unchanged: "(\<And>p r p'. m p = Some (r, p') \<Longrightarrow> store p' = store p) \<Longrightarrow> keeps store P m"
  by (auto simp: keeps_def)

subsection \<open>Block synchronization\<close>

text \<open>The keys the operations of the PXE write.\<close>

definition pxe_writable :: "string \<Rightarrow> bool" where
  "pxe_writable k \<longleftrightarrow> prefix ''note'' k \<or> prefix ''event'' k \<or> prefix ''recipient_tag:'' k \<or>
     prefix ''sender_tag:'' k \<or> prefix ''capsule'' k \<or> k = anchor_header_key"

definition pxe_env_ok :: "('v btree, 'v, 'w, 'fe) embedded_pxe \<Rightarrow> bool" where
  "pxe_env_ok self \<longleftrightarrow>
     utility_env_ok in_memory_kv (px_env self) \<and> st_kv (oe_sender_tagging_store (px_oracle self)) = in_memory_kv \<and>
     es_kv (px_event_store self) = in_memory_kv \<and>
     an_kv (sy_anchor (px_synchronizer self)) = in_memory_kv \<and> ns_kv (sy_notes (px_synchronizer self)) = in_memory_kv \<and>
     es_kv (sy_events (px_synchronizer self)) = in_memory_kv \<and>
     ns_kv (cy_note_store (px_contract_sync self)) = in_memory_kv"

lemma framed_weaken: "framed good look P m \<Longrightarrow> (\<And>k. P k \<Longrightarrow> Q k) \<Longrightarrow> framed good look Q m"
  by (auto simp: framed_def)

text \<open>Operations of the synchronizer, on its state.\<close>

lemma keeps_on_kv: "store_framed P m \<Longrightarrow> keeps ss_kv P (run_op (on_kv m))"
  by (auto simp: keeps_def framed_def run_op_def on_kv_def split: prod.splits)

lemma keeps_sync_ops:
  "keeps ss_kv P (run_op (lift_result r))" "keeps ss_kv P (run_op (ret x))" "keeps ss_kv P (run_op (set_anchor_changed b))"
  "keeps ss_kv P (run_op take_anchor_changed)"
  by (auto simp: keeps_def run_op_def lift_result_def ret_def set_anchor_changed_def take_anchor_changed_def)

lemma keeps_sync_cases:
  "keeps store P (run_op m) \<Longrightarrow> (\<And>x. keeps store P (run_op (f x))) \<Longrightarrow>
     keeps store P (run_op (case v of None \<Rightarrow> m | Some x \<Rightarrow> f x))"
  "keeps store P (run_op m) \<Longrightarrow> keeps store P (run_op m') \<Longrightarrow> keeps store P (run_op (if c then m else m'))"
  by (auto split: option.splits)

lemma synchronizer_frames:
  assumes ok: "pxe_env_ok self"
  shows "store_framed pxe_writable (get_block_header (sy_anchor (px_synchronizer self)))"
  "store_framed pxe_writable (get_block_number (sy_anchor (px_synchronizer self)))"
  "store_framed pxe_writable (set_header (sy_anchor (px_synchronizer self)) h)"
  "store_framed pxe_writable (note_rollback (sy_notes (px_synchronizer self)) b c)"
  "store_framed pxe_writable (event_rollback (sy_events (px_synchronizer self)) b c)"
proof -
  note kv = ok[unfolded pxe_env_ok_def]
  show header: "store_framed pxe_writable (get_block_header (sy_anchor (px_synchronizer self)))"
    unfolding get_block_header_def using kv by (intro frame_steps) (simp_all add: mem.framed_get)
  show "store_framed pxe_writable (get_block_number (sy_anchor (px_synchronizer self)))"
    unfolding get_block_number_def by (intro frame_steps header)
  show "store_framed pxe_writable (set_header (sy_anchor (px_synchronizer self)) h)"
    unfolding set_header_def using kv by (simp add: mem.framed_put pxe_writable_def)
  show "store_framed pxe_writable (note_rollback (sy_notes (px_synchronizer self)) b c)"
    using kv by (intro framed_weaken[OF mem.framed_note_rollback]) (simp_all add: pxe_writable_def)
  show "store_framed pxe_writable (event_rollback (sy_events (px_synchronizer self)) b c)"
    using kv by (intro framed_weaken[OF mem.framed_event_rollback]) (simp_all add: pxe_writable_def)
qed

lemma do_sync_keeps:
  assumes ok: "pxe_env_ok self"
  shows "keeps ss_kv pxe_writable (run_op (do_sync (px_synchronizer self) node))"
proof -
  note synchronizer_frames = synchronizer_frames[OF ok]
  have update: "keeps ss_kv pxe_writable (run_op (update_anchor_block_header (px_synchronizer self) h))" for h
    unfolding update_anchor_block_header_def
    by (intro keeps_seq keeps_on_kv synchronizer_frames keeps_sync_ops)
  have reorg: "keeps ss_kv pxe_writable (run_op (handle_reorg (px_synchronizer self) nv b c))" for nv b c
    unfolding handle_reorg_def Let_def
    by (intro keeps_seq keeps_on_kv synchronizer_frames keeps_sync_ops update)
  show ?thesis
    unfolding do_sync_def check_hash_and_advance_def Let_def
    by (intro keeps_seq keeps_on_kv synchronizer_frames keeps_sync_ops keeps_sync_cases update reorg)
qed

lemma keeps_on_sync [keeps_intros]: "keeps ss_kv P (run_op m) \<Longrightarrow> keeps pxe_store P (run_op (on_sync m))"
  by (auto simp: keeps_def run_op_def on_sync_def split: prod.splits)

lemma keeps_pxe_ops [keeps_intros]:
  "keeps pxe_store P (run_op (lift_result r))" "keeps pxe_store P (run_op (ret x))" "keeps pxe_store P (run_op wipe_cache)"
  by (auto simp: keeps_def run_op_def lift_result_def ret_def wipe_cache_def)

lemma sync_block_state_keeps:
  assumes ok: "pxe_env_ok self"
  shows "keeps pxe_store pxe_writable (run_op (sync_block_state self))"
    "keeps pxe_store pxe_writable (run_op (pxe_anchor_block_header self))"
    "keeps pxe_store pxe_writable (run_op (pxe_anchor_block_number self))"
    "keeps pxe_store pxe_writable (run_op (anchor_hash_or_empty self))"
    "keeps pxe_store pxe_writable (run_op (prepare_request self req))"
proof -
  have sync: "keeps ss_kv pxe_writable (run_op (sync (px_synchronizer self) node))" for node
    using do_sync_keeps[OF ok, of node] by (auto simp: keeps_def run_op_def sync_def split: prod.splits if_splits)
      (metis sync_state.select_convs(1) sync_state.surjective sync_state.update_convs(2))+
  have next_sync: "keeps pxe_store pxe_writable (run_op (next_sync self))"
    using keeps_on_sync[OF sync] unfolding keeps_def run_op_def next_sync_def
    by (metis (no_types, lifting) option.inject pxe_state.select_convs(1) pxe_state.surjective pxe_state.update_convs(3))
  show state: "keeps pxe_store pxe_writable (run_op (sync_block_state self))"
    unfolding sync_block_state_def
    by (intro keeps_seq next_sync keeps_on_sync keeps_sync_ops keeps_sync_cases keeps_pxe_ops)
  show header: "keeps pxe_store pxe_writable (run_op (pxe_anchor_block_header self))"
    unfolding pxe_anchor_block_header_def get_anchor_block_header_def
    by (intro keeps_seq state keeps_on_sync keeps_on_kv synchronizer_frames[OF ok] keeps_pxe_ops)
  show "keeps pxe_store pxe_writable (run_op (pxe_anchor_block_number self))"
    unfolding pxe_anchor_block_number_def get_anchor_block_number_def
    by (intro keeps_seq state keeps_on_sync keeps_on_kv synchronizer_frames[OF ok] keeps_pxe_ops)
  show "keeps pxe_store pxe_writable (run_op (anchor_hash_or_empty self))"
    using header unfolding keeps_def run_op_def anchor_hash_or_empty_def by (fastforce split: prod.splits sum.splits)
  show "keeps pxe_store pxe_writable (run_op (prepare_request self req))"
    unfolding prepare_request_def by (intro keeps_seq state header keeps_pxe_ops)
qed

subsection \<open>Private functions\<close>

text \<open>Every handler of the private oracle, nested calls included, by induction on the depth.\<close>

definition oracle_env_ok :: "('v btree, 'v) oracle_env \<Rightarrow> bool" where
  "oracle_env_ok env \<longleftrightarrow>
     ct_kv (oe_contract_store env) = in_memory_kv \<and> ks_kv (oe_key_store env) = in_memory_kv \<and>
     ns_kv (oe_note_store env) = in_memory_kv \<and> cs_kv (oe_capsule_store env) = in_memory_kv \<and>
     as_kv (oe_address_store env) = in_memory_kv \<and> st_kv (oe_sender_tagging_store env) = in_memory_kv"

lemma framed_oracle_stores:
  assumes "oracle_env_ok env"
  shows "store_framed pxe_writable (get_instance (oe_contract_store env) a)"
    "store_framed pxe_writable (get_artifact (oe_contract_store env) c)"
    "store_framed pxe_writable (capsule_pop (oe_capsule_store env) f)"
    "store_framed pxe_writable (get_next_index (oe_sender_tagging_store env) f)"
    "store_framed pxe_writable (has_note (oe_note_store env) a f)"
proof -
  note kv = assms[unfolded oracle_env_ok_def]
  show "store_framed pxe_writable (get_instance (oe_contract_store env) a)"
    "store_framed pxe_writable (get_artifact (oe_contract_store env) c)"
    using kv by (simp_all add: get_instance_def get_artifact_def mem.framed_get_json)
  show "store_framed pxe_writable (capsule_pop (oe_capsule_store env) f)"
    unfolding capsule_pop_def Let_def using kv
    by (intro frame_steps) (simp_all add: mem.framed_get mem.framed_delete pxe_writable_def capsule_key_def)
  show "store_framed pxe_writable (get_next_index (oe_sender_tagging_store env) f)"
    unfolding get_next_index_def get_last_used_index_def get_last_finalized_index_def get_pending_indexes_def using kv
    by (intro frame_steps) (simp_all add: mem.framed_get mem.framed_put pxe_writable_def pending_key_def pending_prefix_def)
  show "store_framed pxe_writable (has_note (oe_note_store env) a f)"
    unfolding has_note_def get_notes_for_contract_def using kv
    by (intro frame_steps mem.framed_load_notes) (simp_all add: mem.framed_get)
qed

lemma framed_private_handlers:
  assumes "oracle_env_ok env"
  shows "store_framed pxe_writable (oracle_get_secret_key env self args)"
    "store_framed pxe_writable (get_public_keys_and_partial_address env args)"
    "store_framed pxe_writable (oracle_get_notes env self args)"
    "store_framed pxe_writable (check_note_hash_exists env self args)"
    "store_framed pxe_writable (get_contract_instance env args)"
    "store_framed pxe_writable (get_capsule env args)"
    "store_framed pxe_writable (get_next_app_tag_as_sender env self args)"
    "store_framed pxe_writable (check_nullifier_exists env self args)"
    "store_framed pxe_writable (find_callee env target selector is_static)"
proof -
  have kv: "ks_kv (oe_key_store env) = in_memory_kv" "ns_kv (oe_note_store env) = in_memory_kv"
    "as_kv (oe_address_store env) = in_memory_kv"
    using assms by (simp_all add: oracle_env_ok_def)
  note rules = frame_steps framed_oracle_stores[OF assms] mem.framed_key_validation_request[OF kv(1)]
    mem.framed_viewing_key[OF kv(1)] mem.framed_get_notes[OF kv(2)] mem.framed_address_reads[OF kv(3)]
    mem.framed_key_in_scope[OF kv(3)]
  show "store_framed pxe_writable (oracle_get_secret_key env self args)"
    "store_framed pxe_writable (get_public_keys_and_partial_address env args)"
    "store_framed pxe_writable (oracle_get_notes env self args)"
    "store_framed pxe_writable (check_note_hash_exists env self args)"
    "store_framed pxe_writable (get_contract_instance env args)"
    "store_framed pxe_writable (get_capsule env args)"
    "store_framed pxe_writable (get_next_app_tag_as_sender env self args)"
    "store_framed pxe_writable (check_nullifier_exists env self args)"
    "store_framed pxe_writable (find_callee env target selector is_static)"
    unfolding oracle_get_secret_key_def get_public_keys_and_partial_address_def oracle_get_notes_def
      check_note_hash_exists_def get_contract_instance_def get_capsule_def get_next_app_tag_as_sender_def
      check_nullifier_exists_def find_callee_def Let_def
    by (intro rules)+
qed

text \<open>An executor keeps what its oracle keeps.\<close>

lemma keeps_executors:
  assumes "\<And>name args. keeps store P (oracle name args)"
  shows "keeps store P (execute_private X n artifact f w oracle)" "keeps store P (execute_utility X n artifact f w oracle)"
proof -
  have frame: "preserved_by (\<lambda>p. btree_ok (store p) \<and> (\<forall>k. \<not> P k \<longrightarrow> map_of (store p) k = m k)) oracle" for m
    using assms unfolding preserved_by_def keeps_def by metis
  show "keeps store P (execute_private X n artifact f w oracle)"
    using execute_private_preserves[OF frame] unfolding keeps_def by (metis (no_types, lifting))
  show "keeps store P (execute_utility X n artifact f w oracle)"
    using execute_utility_preserves[OF frame] unfolding keeps_def by (metis (no_types, lifting))
qed

lemma keeps_lifts:
  "(\<And>self. store_framed P (f self)) \<Longrightarrow> keeps fst P (reads f)" "keeps fst P (changes m)" "keeps fst P (computes g)"
  by (auto simp: keeps_def framed_def reads_def changes_def computes_def on_store_def on_oracle_def split: prod.splits)
    (metis snd_conv)+

lemma keeps_call_private_function:
  assumes "oracle_env_ok env" and "\<And>artifact f w. keeps fst pxe_writable (exec artifact f w)"
  shows "keeps fst pxe_writable (call_private_function X env exec args)"
  unfolding keeps_def
proof (intro allI impI)
  fix p r p' assume p: "btree_ok (fst p)" and run: "call_private_function X env exec args p = Some (r, p')"
  obtain s self where ps: "p = (s, self)" by (cases p)
  have callee: "btree_ok (snd (find_callee env t sel b s)) \<and>
      (\<forall>k. \<not> pxe_writable k \<longrightarrow> map_of (snd (find_callee env t sel b s)) k = map_of s k)" for t sel b
    using framed_private_handlers(9)[OF assms(1)] p ps by (simp add: framed_def)
  show "btree_ok (fst p') \<and> (\<forall>k. \<not> pxe_writable k \<longrightarrow> map_of (fst p') k = map_of (fst p) k)"
    using run p unfolding call_private_function_def ps Let_def
    by (auto simp: on_oracle_def split: sum.splits option.splits prod.splits)
      (metis callee assms(2)[unfolded keeps_def] fst_conv snd_conv)+
qed

lemma keeps_private_callback:
  assumes "oracle_env_ok env"
  shows "keeps fst pxe_writable (private_callback X env n name args)"
proof (induction n arbitrary: name args)
  case 0
  show ?case by (simp add: keeps_def)
next
  case (Suc n)
  let ?exec = "\<lambda>artifact f w. execute_private X n artifact f w (private_callback X env n)"
  have exec: "keeps fst pxe_writable (?exec artifact f w)" for artifact f w
    by (rule keeps_executors(1)[OF Suc.IH])
  have handler: "keeps fst pxe_writable (h args)" if "(names, h) \<in> set (foreign_calls X env ?exec)" for names h
    using that unfolding foreign_calls_def Let_def
    by (auto intro!: keeps_lifts framed_private_handlers[OF assms] keeps_call_private_function[OF assms exec])
  show ?case
  proof (cases "find (\<lambda>(names, _). handler_name name \<in> set names) (foreign_calls X env ?exec)")
    case None
    then show ?thesis by (simp add: handle_foreign_call_def keeps_lifts)
  next
    case (Some entry)
    then have "entry \<in> set (foreign_calls X env ?exec)" by (auto simp: find_Some_iff in_set_conv_nth)
    then show ?thesis using handler[of "fst entry" "snd entry"] Some
      by (simp add: handle_foreign_call_def case_prod_unfold)
  qed
qed

lemma oracle_of_pxe: "pxe_env_ok self \<Longrightarrow> oracle_env_ok (px_oracle self)"
  by (simp add: pxe_env_ok_def oracle_env_ok_def utility_env_ok_def px_oracle_def)

lemma keeps_run_private:
  assumes "oracle_env_ok env"
  shows "keeps fst pxe_writable (run_private X env fuel artifact f w oracle)"
  unfolding keeps_def
proof (intro allI impI)
  fix p r p' assume p: "btree_ok (fst p)" and run: "run_private X env fuel artifact f w oracle p = Some (r, p')"
  obtain s n where ps: "p = (s, n)" by (cases p)
  from run obtain r1 s1 o1 where
    exec: "execute_private X fuel artifact f w (private_callback X env fuel) (s, oracle n) = Some (r1, (s1, o1))"
    and "fst p' = s1"
    unfolding run_private_def ps by (auto split: option.splits sum.splits prod.splits)
  then show "btree_ok (fst p') \<and> (\<forall>k. \<not> pxe_writable k \<longrightarrow> map_of (fst p') k = map_of (fst p) k)"
    using keepsD[OF keeps_executors(1)[OF keeps_private_callback[OF assms]] exec] p ps by simp
qed

lemma framed_persist_pending_notes:
  assumes "ns_kv self = in_memory_kv"
  shows "store_framed pxe_writable (persist_pending_notes self r scopes)"
proof -
  have "pxe_writable (note_key_by_nullifier (ns_hex self) n)" "pxe_writable (note_contract_index_key (ns_hex self) c)"
    "pxe_writable (note_block_index_key b)" for n c b
    by (simp_all add: pxe_writable_def note_key_defs note_block_index_key_def note_block_prefix_def)
  then show ?thesis
    unfolding persist_pending_notes_def persist_note_def add_notes_def add_notes_step_def
      note_add_to_contract_index_def note_add_to_block_index_def Let_def assms
    by (intro frame_steps mem.frame_kv mem.framed_add_to_index)
qed

lemma framed_find_contract:
  "oracle_env_ok (px_oracle self) \<Longrightarrow> store_framed pxe_writable (find_contract self e1 e2 a)"
  unfolding find_contract_def by (intro frame_steps framed_oracle_stores)

lemma resolve_name_keeps:
  assumes "oracle_env_ok env" and "btree_ok s"
  shows "btree_ok (snd (resolve_function_name_by_selector env a sel s))"
    "\<not> pxe_writable k \<Longrightarrow> map_of (snd (resolve_function_name_by_selector env a sel s)) k = map_of s k"
proof -
  have inst: "btree_ok (snd (get_instance (oe_contract_store env) a s))"
      "\<And>k. \<not> pxe_writable k \<Longrightarrow> map_of (snd (get_instance (oe_contract_store env) a s)) k = map_of s k"
    using framed_oracle_stores(1)[OF assms(1)] assms(2) by (auto simp: framed_def)
  have art: "btree_ok (snd (get_artifact (oe_contract_store env) c s1))"
      "\<And>k. \<not> pxe_writable k \<Longrightarrow> map_of (snd (get_artifact (oe_contract_store env) c s1)) k = map_of s1 k"
    if "btree_ok s1" for c s1
    using framed_oracle_stores(2)[OF assms(1)] that by (auto simp: framed_def)
  show "btree_ok (snd (resolve_function_name_by_selector env a sel s))"
    "\<not> pxe_writable k \<Longrightarrow> map_of (snd (resolve_function_name_by_selector env a sel s)) k = map_of s k"
    unfolding resolve_function_name_by_selector_def
    by (auto simp: assms(2) split: option.splits prod.splits sum.splits) (metis inst art snd_conv)+
qed

lemma keeps_call_bundle:
  assumes ok: "pxe_env_ok self"
  shows "keeps fst pxe_writable (execute_entrypoint_call_bundle X self fuel req call origin nullifier anchor scopes)"
proof -
  note env = oracle_of_pxe[OF ok]
  have note_kv: "ns_kv (oe_note_store (px_oracle self)) = in_memory_kv" using env by (simp add: oracle_env_ok_def)
  have call: "keeps fst pxe_writable (execute_private_call X self fuel req call artifact f name origin nullifier anchor scopes)"
    for artifact f name
    unfolding execute_private_call_def Let_def
    by (intro keeps_intros keeps_run_private[OF env] framed_persist_pending_notes[OF note_kv])
  show ?thesis
    unfolding keeps_def
  proof (intro allI impI)
    fix p r p' assume p: "btree_ok (fst p)"
      and run: "execute_entrypoint_call_bundle X self fuel req call origin nullifier anchor scopes p = Some (r, p')"
    obtain s n where ps: "p = (s, n)" by (cases p)
    obtain name s1 where name: "resolve_function_name_by_selector (px_oracle self) (dc_to call) (dc_selector call) s = (name, s1)"
      by (cases "resolve_function_name_by_selector (px_oracle self) (dc_to call) (dc_selector call) s")
    have s1: "btree_ok s1" "\<And>k. \<not> pxe_writable k \<Longrightarrow> map_of s1 k = map_of s k"
      using resolve_name_keeps[OF env, where s = s and a = "dc_to call" and sel = "dc_selector call"] p
      by (simp_all add: name ps)
    show "btree_ok (fst p') \<and> (\<forall>k. \<not> pxe_writable k \<longrightarrow> map_of (fst p') k = map_of (fst p) k)"
    proof -
      obtain m where m: "keeps fst pxe_writable m" "m (s1, n) = Some (r, p')"
        using run unfolding ps execute_entrypoint_call_bundle_def Let_def prod.case name
        by (rule that[rotated]) (intro keeps_intros call framed_find_contract[OF env])
      show ?thesis using keepsD[OF m] s1 by (simp add: ps)
    qed
  qed
qed

lemma keeps_execute_calls:
  assumes ok: "pxe_env_ok self"
  shows "keeps fst pxe_writable (execute_calls X self fuel req origin nullifier anchor scopes calls)"
  by (induction calls) (simp_all add: keeps_yields keeps_and_then keeps_call_bundle[OF ok])

lemma keeps_entrypoint:
  assumes ok: "pxe_env_ok self"
  shows "keeps fst pxe_writable (execute_entrypoint_via_acvm X self fuel req origin nullifier anchor scopes)"
proof -
  note env = oracle_of_pxe[OF ok]
  have name: "store_framed pxe_writable (named (entrypoint_name self req origin))"
    unfolding framed_def named_def entrypoint_name_def
    using resolve_name_keeps[OF env] by (auto split: option.splits prod.splits) (metis snd_conv)+
  show ?thesis
    unfolding execute_entrypoint_via_acvm_def Let_def
    by (intro keeps_intros keeps_run_private[OF env] framed_find_contract[OF env] name)
qed

subsection \<open>Contract synchronization\<close>

text \<open>
  How the contract synchronizer is built into the PXE, and what its interleaving of two computations
  promises: entries that neither of them changes stay as they are.
\<close>

definition sync_wired :: "('v btree, 'v, 'w, 'fe) embedded_pxe \<Rightarrow> bool" where
  "sync_wired self \<longleftrightarrow>
     cy_on_store (px_contract_sync self) = (\<lambda>m. run_op (on_pxe_store m)) \<and>
     cy_cache (px_contract_sync self) = ps_cache \<and>
     cy_set_cache (px_contract_sync self) = (\<lambda>c st. st\<lparr>ps_cache := c\<rparr>) \<and>
     (\<forall>P m1 m2. keeps pxe_store P m1 \<longrightarrow> keeps pxe_store P m2 \<longrightarrow>
        keeps pxe_store P (cy_try_join (px_contract_sync self) m1 m2))"

lemma framed_sync_note_nullifiers:
  assumes "ns_kv self = in_memory_kv"
  shows "store_framed pxe_writable (sync_note_nullifiers self w a scopes b)"
proof -
  have key: "pxe_writable (note_key_by_nullifier (ns_hex self) n)" "pxe_writable (nullification_block_index_key b)" for n b
    by (simp_all add: pxe_writable_def note_key_defs nullification_block_index_key_def nullify_block_prefix_def)
  have nullify: "store_framed pxe_writable (apply_nullifiers self ns)" for ns
    unfolding apply_nullifiers_def apply_nullifiers_step_def add_to_nullification_block_index_def Let_def assms
    by (intro frame_steps mem.frame_kv mem.framed_add_to_index key)
  have "store_framed pxe_writable (nullify_chunks self w b cs n)" for cs n
  proof (induction cs arbitrary: n)
    case (Cons c cs)
    then show ?case unfolding nullify_chunks.simps Let_def by (intro frame_steps nullify)
  qed (simp add: framed_ret)
  then show ?thesis
    unfolding sync_note_nullifiers_def by (intro frame_steps mem.framed_get_notes[OF assms])
qed

lemma keeps_ensure_synced:
  assumes ok: "pxe_env_ok self" and wired: "sync_wired self"
    and execute: "\<And>call scopes ws. keeps pxe_store pxe_writable (execute call scopes ws)"
  shows "keeps pxe_store pxe_writable (ensure_synced self execute contract scopes hash)"
proof -
  note env = oracle_of_pxe[OF ok]
  let ?Y = "px_contract_sync self"
  have state: "keeps pxe_store pxe_writable (execute_sync_state_for_contract self execute c ss)" for c ss
    unfolding execute_sync_state_for_contract_def
    by (intro keeps_intros framed_oracle_stores[OF env] execute)
  have "keeps pxe_store pxe_writable (cy_try_join ?Y
      (cy_on_store ?Y (sync_note_nullifiers (cy_note_store ?Y) (cy_nullifier_witness ?Y) c ss b))
      (execute_sync_state_for_contract self execute c ss))" for c ss b
    using wired ok unfolding sync_wired_def
    by (auto intro!: keeps_on_pxe_store framed_sync_note_nullifiers state simp: pxe_env_ok_def)
  then have do_sync: "keeps pxe_store pxe_writable
      (contract_do_sync ?Y (execute_sync_state_for_contract self execute) c ss)" for c ss
    unfolding keeps_def contract_do_sync_def Let_def
    by (auto split: option.splits sum.splits prod.splits)
  show ?thesis
    unfolding keeps_def ensure_synced_def
  proof (intro allI impI)
    fix p r p' assume p: "btree_ok (pxe_store p)" and run: "ensure_contract_synced ?Y
      (execute_sync_state_for_contract self execute) contract scopes hash p = Some (r, p')"
    let ?p1 = "cy_set_cache ?Y (refresh_cache hash (cy_cache ?Y p)) p"
    have same: "pxe_store (cy_set_cache ?Y c q) = pxe_store q" for c q using wired by (simp add: sync_wired_def)
    from run consider "p' = ?p1" | todo r2 p2 where
        "contract_do_sync ?Y (execute_sync_state_for_contract self execute) contract todo ?p1 = Some (r2, p2)"
        "pxe_store p' = pxe_store p2"
      unfolding ensure_contract_synced_def Let_def
      by (auto simp: same split: if_splits option.splits sum.splits prod.splits)
    then show "btree_ok (pxe_store p') \<and> (\<forall>k. \<not> pxe_writable k \<longrightarrow> map_of (pxe_store p') k = map_of (pxe_store p) k)"
    proof cases
      case 1
      then show ?thesis using p by (simp add: same)
    next
      case 2
      then show ?thesis using keepsD[OF do_sync 2(1)] p by (simp add: same)
    qed
  qed
qed

lemma keeps_utility_callback:
  assumes ok: "pxe_env_ok self"
  shows "keeps fst pxe_writable (utility_callback (px_env self) u name args)"
proof -
  have writable: "utility_writable H c k \<Longrightarrow> pxe_writable k" for H c k
    by (auto simp: utility_writable_def pxe_writable_def db_slot_key_def)
  show ?thesis
    using mem.framed_handle_foreign_call[of "px_env self"] ok writable
    unfolding keeps_def utility_callback_def pxe_env_ok_def by (metis option.inject prod.collapse)
qed

lemma keeps_execute_utility:
  assumes ok: "pxe_env_ok self" and wired: "sync_wired self"
  shows "keeps pxe_store pxe_writable (pxe_execute_utility X self n call scopes ws)"
proof (induction n arbitrary: call scopes ws)
  case 0
  show ?case by (simp add: keeps_def)
next
  case (Suc n)
  show ?case
    unfolding pxe_execute_utility.simps
    by (intro keeps_intros sync_block_state_keeps[OF ok] framed_find_contract[OF oracle_of_pxe[OF ok]]
        keeps_ensure_synced[OF ok wired Suc.IH] keeps_executors(2) keeps_utility_callback[OF ok])
qed

subsection \<open>Isolation\<close>

lemma keeps_sync_called_contracts:
  assumes ok: "pxe_env_ok self" and wired: "sync_wired self"
  shows "keeps pxe_store pxe_writable (\<lambda>st. map_option (\<lambda>st'. (Inr (), st'))
    (sync_called_contracts self (pxe_execute_utility X self n) scopes hash contracts st))"
proof -
  have "btree_ok (pxe_store st') \<and> (\<forall>k. \<not> pxe_writable k \<longrightarrow> map_of (pxe_store st') k = map_of (pxe_store st) k)"
    if "sync_called_contracts self (pxe_execute_utility X self n) scopes hash contracts st = Some st'"
      "btree_ok (pxe_store st)" for st st'
    using that
  proof (induction contracts arbitrary: st)
    case (Cons c cs)
    then obtain r st1 where first: "ensure_synced self (pxe_execute_utility X self n) c scopes hash st = Some (r, st1)"
      by (auto split: option.splits)
    note kept = keepsD[OF keeps_ensure_synced[OF ok wired keeps_execute_utility[OF ok wired]] first Cons.prems(2)]
    show ?case using Cons.IH[of st1] Cons.prems(1) first kept by auto
  qed simp
  then show ?thesis by (auto simp: keeps_def)
qed

lemma keeps_recover:
  assumes "keeps store P m" and "keeps store P h"
  shows "keeps store P (\<lambda>p. case m p of None \<Rightarrow> None | Some (Inr x, p') \<Rightarrow> Some (Inr x, p')
     | Some (Inl e, p') \<Rightarrow> if c e then h p' else Some (Inl e, p'))"
  unfolding keeps_def
proof (intro allI impI)
  fix p r p' assume p: "btree_ok (store p)" and run: "(case m p of None \<Rightarrow> None | Some (Inr x, p') \<Rightarrow> Some (Inr x, p')
     | Some (Inl e, p') \<Rightarrow> if c e then h p' else Some (Inl e, p')) = Some (r, p')"
  then obtain r1 p1 where m: "m p = Some (r1, p1)" by (auto split: option.splits)
  note first = keepsD[OF assms(1) m p]
  show "btree_ok (store p') \<and> (\<forall>k. \<not> P k \<longrightarrow> map_of (store p') k = map_of (store p) k)"
  proof (cases "p' = p1")
    case False
    then have "h p1 = Some (r, p')" using run m by (auto split: sum.splits if_splits)
    from keepsD[OF assms(2) this first(1)] first(2) show ?thesis by auto
  qed (use first in auto)
qed

lemma keeps_run_request:
  assumes ok: "pxe_env_ok self"
  shows "keeps pxe_store pxe_writable (run_aggregated X self n req origin nullifier anchor scopes calls)"
    "keeps pxe_store pxe_writable (run_request X self n req b origin nullifier anchor scopes calls)"
proof -
  show one: "keeps pxe_store pxe_writable (run_aggregated X self n req origin nullifier anchor scopes calls)"
    unfolding run_aggregated_def run_calls_def by (intro keeps_intros keeps_execute_calls[OF ok])
  show "keeps pxe_store pxe_writable (run_request X self n req b origin nullifier anchor scopes calls)"
    using keeps_recover[OF keeps_on_drawing[OF keeps_entrypoint[OF ok, of X n req origin nullifier anchor scopes]] one,
        of "\<lambda>e. b \<and> missing_account e"] one
    unfolding run_request_def[abs_def] by (cases "b \<or> px_prover_enabled self") (simp_all only: if_True if_False)
qed

lemma framed_verify:
  assumes "ns_kv (oe_note_store env) = in_memory_kv"
  shows "store_framed P (verify_auth_witness_signatures R env req origin)"
  using mem.framed_get_notes[OF assms, of P]
  by (auto simp: verify_auth_witness_signatures_def framed_def ret_def get_notes_by_slot_def Let_def
      split: prod.splits option.splits) (metis snd_conv)+

lemma operations_keep:
  assumes ok: "pxe_env_ok self" and wired: "sync_wired self"
  shows "keeps pxe_store pxe_writable (simulate_tx X self n req scopes)"
    "keeps pxe_store pxe_writable (prove_tx X self n req scopes)"
    "keeps pxe_store pxe_writable (profile_tx X self n req scopes)"
    "keeps pxe_store pxe_writable (pxe_get_private_events X self n selector filt)"
proof -
  note env = oracle_of_pxe[OF ok]
  have notes_kv: "ns_kv (oe_note_store (px_oracle self)) = in_memory_kv" using env by (simp add: oracle_env_ok_def)
  have calls: "keeps pxe_store pxe_writable (run_calls X self n req origin nullifier anchor scopes calls)"
    for origin nullifier anchor calls
    unfolding run_calls_def by (intro keeps_intros keeps_execute_calls[OF ok])
  have events: "store_framed pxe_writable (get_private_events (px_event_store self) selector q)" for q
  proof -
    have kv: "es_kv (px_event_store self) = in_memory_kv" using ok by (simp add: pxe_env_ok_def)
    have "store_framed pxe_writable (load_events (px_event_store self) q ids)" for ids
    proof (induction ids)
      case (Cons i ids)
      then show ?case unfolding load_events.simps Let_def kv by (intro frame_steps mem.framed_get)
    qed (simp add: framed_ret)
    then show ?thesis unfolding get_private_events_def kv by (intro frame_steps mem.framed_get)
  qed
  note rules = keeps_intros sync_block_state_keeps[OF ok] calls framed_verify[OF notes_kv]
    keeps_run_request[OF ok] keeps_sync_called_contracts[OF ok wired] events
    keeps_ensure_synced[OF ok wired keeps_execute_utility[OF ok wired]]
  show "keeps pxe_store pxe_writable (simulate_tx X self n req scopes)"
    unfolding simulate_tx_def Let_def by (intro rules)
  show "keeps pxe_store pxe_writable (prove_tx X self n req scopes)"
    unfolding prove_tx_def Let_def by (intro rules)
  show "keeps pxe_store pxe_writable (profile_tx X self n req scopes)"
    unfolding profile_tx_def Let_def by (intro rules)
  show "keeps pxe_store pxe_writable (pxe_get_private_events X self n selector filt)"
    unfolding pxe_get_private_events_def by (intro rules)
qed

lemma not_pxe_writable:
  "\<not> pxe_writable (account_key H h)" "\<not> pxe_writable (address_key H a)" "\<not> pxe_writable (sender_key H a)"
  "\<not> pxe_writable (instance_key H a)" "\<not> pxe_writable (artifact_key H c)"
  by (simp_all add: pxe_writable_def account_key_def address_key_def sender_key_def instance_key_def artifact_key_def
      anchor_header_key_def)

subsection \<open>Executing requests\<close>

text \<open>One request to the PXE that executes code or reads what it found, whatever it returns.\<close>

inductive pxe_step ::
    "('m, 'c, 'u, 'fe) acvm \<Rightarrow> ('s, 'v, 'w, 'fe) embedded_pxe \<Rightarrow> 's pxe_state \<Rightarrow> 's pxe_state \<Rightarrow> bool"
  for X :: "('m, 'c, 'u, 'fe) acvm" and self :: "('s, 'v, 'w, 'fe) embedded_pxe" where
  simulated: "simulate_tx X self n req scopes st = Some (r, st') \<Longrightarrow> pxe_step X self st st'"
| proved: "prove_tx X self n req scopes st = Some (r, st') \<Longrightarrow> pxe_step X self st st'"
| profiled: "profile_tx X self n req scopes st = Some (r, st') \<Longrightarrow> pxe_step X self st st'"
| utility: "pxe_execute_utility X self n call scopes authwits st = Some (r, st') \<Longrightarrow> pxe_step X self st st'"
| events: "pxe_get_private_events X self n selector (filt :: json private_event_filter) st = Some (r, st') \<Longrightarrow> pxe_step X self st st'"
| header: "get_synced_block_header self st = (r, st') \<Longrightarrow> pxe_step X self st st'"

lemma step_keeps:
  assumes "pxe_env_ok self" and "sync_wired self" and "pxe_step X self st st'" and "btree_ok (pxe_store st)"
  shows "btree_ok (pxe_store st') \<and> (\<forall>k. \<not> pxe_writable k \<longrightarrow> map_of (pxe_store st') k = map_of (pxe_store st) k)"
proof -
  note kept = operations_keep[OF assms(1,2)]
  have "keeps pxe_store pxe_writable (run_op (get_synced_block_header self))"
    unfolding get_synced_block_header_def by (intro keeps_seq sync_block_state_keeps[OF assms(1)] keeps_pxe_ops)
  then have header: "btree_ok (pxe_store st') \<and> (\<forall>k. \<not> pxe_writable k \<longrightarrow> map_of (pxe_store st') k = map_of (pxe_store st) k)"
    if "get_synced_block_header self st = (r, st')" for r
    using assms(4) that by (auto simp: keeps_def run_op_def)
  from assms(3) show ?thesis
  proof cases
    case simulated then show ?thesis using keepsD[OF kept(1) simulated assms(4)] by blast
  next
    case proved then show ?thesis using keepsD[OF kept(2) proved assms(4)] by blast
  next
    case profiled then show ?thesis using keepsD[OF kept(3) profiled assms(4)] by blast
  next
    case utility then show ?thesis using keepsD[OF keeps_execute_utility[OF assms(1,2)] utility assms(4)] by blast
  next
    case events then show ?thesis using keepsD[OF kept(4) events assms(4)] by blast
  qed (rule header)
qed

lemma steps_keep:
  assumes "pxe_env_ok self" and "sync_wired self" and "(pxe_step X self)\<^sup>*\<^sup>* st st'" and "btree_ok (pxe_store st)"
  shows "btree_ok (pxe_store st') \<and> (\<forall>k. \<not> pxe_writable k \<longrightarrow> map_of (pxe_store st') k = map_of (pxe_store st) k)"
  using assms(3)
proof induction
  case (step y z)
  then show ?case using step_keeps[OF assms(1,2) step.hyps(2)] by auto
qed (use assms(4) in simp)

text \<open>Trees with the same entries list them in the same order.\<close>

lemma list_prefix_same:
  assumes "btree_ok t" and "btree_ok t'" and same: "\<And>k. prefix p k \<Longrightarrow> map_of t' k = map_of t k"
  shows "btree_list_prefix p t' = btree_list_prefix p t"
proof -
  let ?f = "filter (\<lambda>(k, v). prefix p k)"
  have keys: "sorted (map fst (?f t))" "distinct (map fst (?f t))" if "btree_ok t" for t :: "'a btree"
    using btree_ok_filter[OF that] btree_ok_distinct[OF btree_ok_filter[OF that]]
    by (simp_all add: btree_ok_def strict_sorted_iff)
  note entry = map_of_eq_Some_iff[OF btree_ok_distinct[OF assms(1)]] map_of_eq_Some_iff[OF btree_ok_distinct[OF assms(2)]]
  have "(k, v) \<in> set (?f t') \<longleftrightarrow> (k, v) \<in> set (?f t)" for k v
    using same[of k] entry[of k v] by (cases "prefix p k") simp_all
  then have "set (?f t') = set (?f t)" by auto
  then have "?f t' = ?f t"
    using keys[OF assms(1)] keys[OF assms(2)]
    by (intro map_sorted_distinct_set_unique[where f = fst]) (auto simp: distinct_map)
  then show ?thesis by (simp add: btree_list_prefix_filter assms)
qed

definition registry_ok :: "('v btree, 'v, 'w, 'fe) embedded_pxe \<Rightarrow> ('v btree, 'v) registry \<Rightarrow> bool" where
  "registry_ok self R \<longleftrightarrow> rg_env R = px_oracle self \<and> se_kv (rg_sender_store R) = in_memory_kv"

text \<open>A computation that only reads, and reads the same in both stores.\<close>

definition reads_same :: "'s \<Rightarrow> 's \<Rightarrow> ('s, 'a) op \<Rightarrow> bool" where
  "reads_same t t' m \<longleftrightarrow> (\<exists>r. m t = (r, t) \<and> m t' = (r, t'))"

named_theorems same_intros

lemma reads_same_basic [same_intros]:
  "reads_same t t' (ret x)" "reads_same t t' (fail e)" "reads_same t t' (lift_result r)"
  by (simp_all add: reads_same_def ret_def fail_def lift_result_def)

lemma reads_same_seq [same_intros]:
  "reads_same t t' m \<Longrightarrow> (\<And>x. reads_same t t' (f x)) \<Longrightarrow> reads_same t t' (seq m f)"
  unfolding reads_same_def seq_def by (auto split: sum.splits)

lemma reads_same_cases [same_intros]:
  "reads_same t t' m \<Longrightarrow> (\<And>x. reads_same t t' (f x)) \<Longrightarrow> reads_same t t' (case v of None \<Rightarrow> m | Some x \<Rightarrow> f x)"
  "reads_same t t' m \<Longrightarrow> reads_same t t' m' \<Longrightarrow> reads_same t t' (if c then m else m')"
  by (auto split: option.splits)

lemma reads_same_kv:
  assumes "btree_ok t" and "btree_ok t'" and same: "\<And>k. \<not> P k \<Longrightarrow> map_of t' k = map_of t k"
  shows "\<not> P k \<Longrightarrow> reads_same t t' (kv_get in_memory_kv k)"
    and "(\<And>k. prefix p k \<Longrightarrow> \<not> P k) \<Longrightarrow> reads_same t t' (kv_list_prefix in_memory_kv p)"
  using assms list_prefix_same[OF assms(1,2), of p]
  by (simp_all add: reads_same_def in_memory_kv_def in_memory_get_def in_memory_list_prefix_def)

lemma registry_prefixes:
  "prefix ''key:account:'' k \<Longrightarrow> \<not> pxe_writable k" "prefix ''address:'' k \<Longrightarrow> \<not> pxe_writable k"
  "prefix ''sender:'' k \<Longrightarrow> \<not> pxe_writable k" "prefix ''contract:instance:'' k \<Longrightarrow> \<not> pxe_writable k"
  by (auto simp: pxe_writable_def anchor_header_key_def prefix_def)

text \<open>
  C26. The PXE keeps what was registered with it. Through any sequence of simulations, proofs, profiles,
  utility calls and event queries, successful or not, whatever the contracts do and whatever the node
  answers, the store stays a store and changes at most under the keys of notes, events, tagging indexes,
  capsules and the anchor block. So afterwards the registered accounts, the senders and the contracts are
  listed as before, and every secret key, complete address, contract instance and artifact reads as before.
\<close>

theorem pxe_isolation:
  assumes ok: "pxe_env_ok self" and "sync_wired self" and "registry_ok self R" and t: "btree_ok (pxe_store st)"
    and steps: "(pxe_step X self)\<^sup>*\<^sup>* st st'"
  shows "btree_ok (pxe_store st') \<and>
    (\<forall>k. \<not> pxe_writable k \<longrightarrow> map_of (pxe_store st') k = map_of (pxe_store st) k) \<and>
    fst (get_registered_accounts R (pxe_store st')) = fst (get_registered_accounts R (pxe_store st)) \<and>
    fst (pxe_get_senders R (pxe_store st')) = fst (pxe_get_senders R (pxe_store st)) \<and>
    fst (pxe_get_contracts R (pxe_store st')) = fst (pxe_get_contracts R (pxe_store st)) \<and>
    (\<forall>a. fst (is_registered_account R a (pxe_store st')) = fst (is_registered_account R a (pxe_store st))) \<and>
    (\<forall>a. fst (pxe_get_contract_instance R a (pxe_store st')) = fst (pxe_get_contract_instance R a (pxe_store st))) \<and>
    (\<forall>c. fst (pxe_get_contract_artifact R c (pxe_store st')) = fst (pxe_get_contract_artifact R c (pxe_store st))) \<and>
    (\<forall>h. fst (get_secret_key (oe_key_store (px_oracle self)) h (pxe_store st')) =
       fst (get_secret_key (oe_key_store (px_oracle self)) h (pxe_store st)))"
proof -
  have ok': "btree_ok (pxe_store st')"
    and same: "\<And>k. \<not> pxe_writable k \<Longrightarrow> map_of (pxe_store st') k = map_of (pxe_store st) k"
    using steps_keep[OF assms(1,2) steps t] by auto
  have env: "ct_kv (oe_contract_store (px_oracle self)) = in_memory_kv" "ks_kv (oe_key_store (px_oracle self)) = in_memory_kv"
    "as_kv (oe_address_store (px_oracle self)) = in_memory_kv"
    using oracle_of_pxe[OF ok] by (simp_all add: oracle_env_ok_def)
  have rg: "rg_env R = px_oracle self" "se_kv (rg_sender_store R) = in_memory_kv"
    using assms(3) by (simp_all add: registry_ok_def)
  note kv = reads_same_kv[of _ _ pxe_writable, OF t ok' same]
  have lists: "reads_same (pxe_store st) (pxe_store st') (kv_list_prefix in_memory_kv ''key:account:'')"
    "reads_same (pxe_store st) (pxe_store st') (kv_list_prefix in_memory_kv ''address:'')"
    "reads_same (pxe_store st) (pxe_store st') (kv_list_prefix in_memory_kv ''sender:'')"
    "reads_same (pxe_store st) (pxe_store st') (kv_list_prefix in_memory_kv ''contract:instance:'')"
    by (rule kv(2), assumption, erule registry_prefixes)+
  note rules = same_intros kv(1) not_pxe_writable lists
  note defs = get_registered_accounts_def get_accounts_def address_get_all_def pxe_get_senders_def sender_get_all_def
    pxe_get_contracts_def get_contract_addresses_def is_registered_account_def address_get_def get_json_def
    pxe_get_contract_instance_def get_instance_def pxe_get_contract_artifact_def get_artifact_def get_secret_key_def Let_def
  have "reads_same (pxe_store st) (pxe_store st') (get_registered_accounts R)"
    "reads_same (pxe_store st) (pxe_store st') (pxe_get_senders R)"
    "reads_same (pxe_store st) (pxe_store st') (pxe_get_contracts R)"
    "reads_same (pxe_store st) (pxe_store st') (is_registered_account R a)"
    "reads_same (pxe_store st) (pxe_store st') (pxe_get_contract_instance R a)"
    "reads_same (pxe_store st) (pxe_store st') (pxe_get_contract_artifact R c)"
    "reads_same (pxe_store st) (pxe_store st') (get_secret_key (oe_key_store (px_oracle self)) c)" for a c
    unfolding defs rg env by - ((intro rules, assumption?)+)
  then show ?thesis using ok' same by (auto simp: reads_same_def) (metis fst_conv)+
qed

text \<open>A PXE with one contract at 7, whose function stores a capsule.\<close>

definition known_json :: "'a \<Rightarrow> ('a, unit) serde" where
  "known_json x = \<lparr>to_vec = \<lambda>_. (), from_slice = \<lambda>_. Inr x\<rparr>"

definition example_contracts :: "(unit btree, unit) contract_store" where
  "example_contracts = \<lparr>ct_kv = in_memory_kv, ct_hex = plain_hex, ct_instance_json = known_json callee_instance,
     ct_artifact_json = known_json callee_artifact, ct_preimage_json = null_json ()\<rparr>"

definition known_header :: "json anchor_block_header" where
  "known_header = \<lparr>ah_data = JsNull, ah_block_number = 0, ah_block_hash = ''0x0''\<rparr>"

definition example_pxe :: "(unit btree, unit, unit, fr) embedded_pxe" where
  "example_pxe =
     (let env = example_utility_env_over example_contracts; notes = oe_note_store (ue_oracle env);
          events = ve_private_event_store (ue_events env)
      in \<lparr>px_env = env, px_event_store = events,
          px_synchronizer = \<lparr>sy_api = \<lparr>js_pointer = \<lambda>_ _. None, js_get = \<lambda>_ _. None, js_as_u64 = \<lambda>_. None,
              js_as_str = \<lambda>_. None\<rparr>, sy_anchor = \<lparr>an_kv = in_memory_kv, an_json = known_json known_header\<rparr>,
            sy_notes = notes, sy_events = events, sy_chain_tip = block_sync_config_default\<rparr>,
          px_contract_sync = \<lparr>cy_hex = plain_hex, cy_note_store = notes, cy_nullifier_witness = \<lambda>_ _. Inr None,
            cy_block_number = Inr 0, cy_on_store = \<lambda>m. run_op (on_pxe_store m), cy_cache = ps_cache,
            cy_set_cache = \<lambda>c st. st\<lparr>ps_cache := c\<rparr>,
            cy_try_join = \<lambda>m1 m2. and_then m1 (\<lambda>x. and_then m2 (\<lambda>y. yields (Inr (x, y))))\<rparr>,
          px_codec = \<lparr>rc_decoded = \<lambda>_. Inl (Json ''request''), rc_wire = \<lambda>_. Inl (Json ''request''),
            rc_auth_witnesses = \<lambda>_. Inr [], rc_capsules = \<lambda>_. Inr []\<rparr>,
          px_node = \<lambda>_ _. \<lparr>nv_block_header = \<lambda>_. Inr JsNull, nv_block_number = Inr 0, nv_proven_block_number = Inr 0\<rparr>,
          px_vk_tree_root = 0, px_protocol_contracts_hash = 0, px_prover_enabled = False,
          px_prove_with_real_kernels = \<lambda>_ _ _ _ _. Inl (InvalidData ''no prover'')\<rparr>)"

definition example_registry :: "(unit btree, unit) registry" where
  "example_registry = \<lparr>rg_env = px_oracle example_pxe, rg_sender_store = ls_sender_store (ue_logs example_utility_env),
     rg_artifact_codec = \<lparr>ac_escape = id, ac_return_types = \<lambda>_. JsNull, ac_hex = plain_hex, ac_base64 = \<lambda>_. None\<rparr>,
     rg_register_signatures = \<lambda>_. Inr (), rg_allow_canonical_ids = False\<rparr>"

definition example_start :: "unit btree pxe_state" where
  "example_start = \<lparr>ps_sync = \<lparr>ss_kv = btree_insert (instance_key plain_hex (AztecAddress 7)) ()
       (btree_insert (artifact_key plain_hex 4) () []), ss_syncing = False, ss_anchor_changed = False\<rparr>,
     ps_cache = sync_cache_new, ps_syncs = 0, ps_draws = 0\<rparr>"

definition example_call :: function_call where
  "example_call = function_call_empty\<lparr>fc_to := AztecAddress 7, fc_selector := function_selector_from_field 1\<rparr>"

lemma running_pxe_ok:
  "pxe_env_ok example_pxe" "sync_wired example_pxe" "registry_ok example_pxe example_registry"
  "btree_ok (pxe_store example_start)"
proof -
  show "pxe_env_ok example_pxe"
    by (simp add: pxe_env_ok_def utility_env_ok_def example_pxe_def px_oracle_def example_utility_env_over_def
        example_utility_env_def env_over_def example_contracts_def Let_def)
  show "sync_wired example_pxe"
    by (auto simp: sync_wired_def example_pxe_def Let_def intro!: keeps_intros)
  show "registry_ok example_pxe example_registry"
    by (simp add: registry_ok_def example_registry_def example_utility_env_def)
  show "btree_ok (pxe_store example_start)"
    by (simp add: example_start_def btree_ok_insert del: btree_insert.simps)
qed

lemma example_utility_runs:
  "\<exists>st'. pxe_execute_utility storing_acvm example_pxe 4 example_call [] [] example_start = Some (Inr [], st') \<and>
     map_of (pxe_store st') (db_slot_key plain_hex (AztecAddress 7) 1) = Some ()"
proof -
  let ?t = "btree_insert anchor_header_key () (pxe_store example_start)"
  define st where "st = example_start\<lparr>ps_sync := (ps_sync example_start)\<lparr>ss_kv := ?t\<rparr>, ps_cache := sync_cache_new, ps_syncs := 1\<rparr>"
  have mem_ops: "kv_get in_memory_kv k t = (Inr (map_of t k), t)" "kv_put in_memory_kv k v t = (Inr (), btree_insert k v t)"
    for k v and t :: "unit btree"
    by (simp_all add: in_memory_kv_def in_memory_get_def in_memory_put_def)
  have keys: "instance_key plain_hex a \<noteq> anchor_header_key" "artifact_key plain_hex c \<noteq> anchor_header_key"
    "instance_key plain_hex a \<noteq> artifact_key plain_hex c" "artifact_key plain_hex c \<noteq> instance_key plain_hex a" for a c
    by (simp_all add: instance_key_def artifact_key_def anchor_header_key_def)
  have entries: "map_of (pxe_store example_start) anchor_header_key = None"
    "map_of ?t (instance_key plain_hex (AztecAddress 7)) = Some ()" "map_of ?t (artifact_key plain_hex 4) = Some ()"
    "map_of ?t anchor_header_key = Some ()"
    using keys keys[symmetric] by (simp_all add: example_start_def map_of_btree_insert del: btree_insert.simps)
  have header: "pxe_anchor_block_header example_pxe example_start = (Inr known_header, st)"
    using entries keys unfolding st_def example_start_def
    by (simp add: pxe_anchor_block_header_def sync_block_state_def next_sync_def sync_def do_sync_def on_sync_def on_kv_def
        seq_def example_pxe_def Let_def get_block_header_def mem_ops ret_def lift_result_def update_anchor_block_header_def
        set_header_def set_anchor_changed_def known_json_def known_header_def take_anchor_changed_def wipe_cache_def
        get_anchor_block_header_def ok_or_def wipe_def sync_cache_new_def block_sync_config_default_def)
  have found: "on_pxe_store (find_contract example_pxe ''contract not found'' ''artifact not found for class'' (AztecAddress 7)) st =
      (Inr callee_artifact, st)"
    using entries unfolding st_def example_start_def
    by (simp add: on_pxe_store_def on_sync_def on_kv_def find_contract_def get_instance_def get_artifact_def get_json_def
        px_oracle_def example_pxe_def Let_def example_utility_env_over_def env_over_def example_contracts_def mem_ops seq_def
        known_json_def lift_result_def ret_def ok_or_def callee_instance_def)
  let ?u = "utility_set_auth_witnesses [] (utility_new JsNull (AztecAddress 7) [])"
  have "btree_ok ?t" using running_pxe_ok(4) by (rule btree_ok_insert)
  then obtain t' where run: "execute_utility storing_acvm 3 callee_artifact ''transfer'' []
      (utility_callback (example_utility_env_over example_contracts) ?u) (?t, 0) = Some (Inr [], (t', 0))"
    and own: "map_of t' (db_slot_key plain_hex (AztecAddress 7) 1) = Some ()"
    using storing_runs[of ?t ?u example_contracts 0]
    by (auto simp: utility_set_auth_witnesses_def utility_new_def)
  have f: "find_utility_function callee_artifact (function_selector_from_field 1) = Inr (hd (ca_functions callee_artifact))"
    "fa_name (hd (ca_functions callee_artifact)) = ''transfer''"
    by (simp_all add: find_utility_function_def find_function_by_selector_def callee_artifact_def ok_or_def or_else_opt_def
        example_function_def)
  have call: "fc_to example_call = AztecAddress 7" "fc_selector example_call = function_selector_from_field 1"
    "utility_args example_call = []"
    by (simp_all add: example_call_def utility_args_def function_call_empty_def)
  have env: "px_env example_pxe = example_utility_env_over example_contracts" by (simp add: example_pxe_def Let_def)
  let ?c = "refresh_cache (ah_block_hash known_header) sync_cache_new"
  have synced: "ensure_synced example_pxe exec (AztecAddress 7) [] (ah_block_hash known_header) st =
      Some (Inr (), st\<lparr>ps_cache := ?c\<rparr>)" for exec
    by (simp add: ensure_synced_def ensure_contract_synced_def Let_def example_pxe_def st_def)
  have "pxe_execute_utility storing_acvm example_pxe (Suc 3) example_call [] [] example_start =
      on_drawing (execute_utility storing_acvm 3 callee_artifact ''transfer'' []
        (utility_callback (example_utility_env_over example_contracts) ?u)) (st\<lparr>ps_cache := ?c\<rparr>)"
    unfolding pxe_execute_utility.simps call env auth_witness_pairs_def
    by (simp add: and_then_def run_op_def header found f yields_def synced) (simp add: known_header_def)
  then show ?thesis using run own
    by (simp add: on_drawing_def st_def example_start_def set_store_def)
qed

theorem pxe_isolation_witness:
  "\<exists>st'. pxe_execute_utility storing_acvm example_pxe 4 example_call [] [] example_start = Some (Inr [], st') \<and>
     map_of (pxe_store st') (db_slot_key plain_hex (AztecAddress 7) 1) = Some () \<and>
     fst (pxe_get_contract_instance example_registry (AztecAddress 7) (pxe_store st')) = Inr (Some callee_instance)"
proof -
  obtain st' where run: "pxe_execute_utility storing_acvm example_pxe 4 example_call [] [] example_start = Some (Inr [], st')"
    and own: "map_of (pxe_store st') (db_slot_key plain_hex (AztecAddress 7) 1) = Some ()"
    using example_utility_runs by blast
  have "(pxe_step storing_acvm example_pxe)\<^sup>*\<^sup>* example_start st'"
    using pxe_step.utility[OF run] by (rule r_into_rtranclp)
  note kept = pxe_isolation[OF running_pxe_ok this]
  have "fst (pxe_get_contract_instance example_registry (AztecAddress 7) (pxe_store example_start)) = Inr (Some callee_instance)"
    by (simp add: pxe_get_contract_instance_def example_registry_def px_oracle_def example_pxe_def Let_def get_instance_def
        get_json_def example_utility_env_over_def env_over_def example_contracts_def in_memory_kv_def in_memory_get_def seq_def
        known_json_def lift_result_def ret_def example_start_def map_of_btree_insert del: btree_insert.simps)
  then show ?thesis using run own kept by auto
qed

end
