(* ===== verification/Pxe_Properties.thy ===== *)
theory Pxe_Properties
  imports Pxe_Isolation
begin

text \<open>
  What the requests to the PXE promise: which contracts can be registered, which signatures are accepted,
  which fees a transaction offers, and in which order the calldata of its public calls is listed.
\<close>

subsection \<open>Registered contracts\<close>

text \<open>What registration asks of a request, over the artifacts known so far.\<close>

definition registrable ::
    "('s, 'v) registry \<Rightarrow> (fr \<Rightarrow> contract_artifact option) \<Rightarrow> register_contract_request \<Rightarrow> bool" where
  "registrable self arts req \<longleftrightarrow>
     (let inst = rq_instance req; class_id = in_current_contract_class_id (iwa_inner inst); C = oe_crypto (rg_env self)
      in case rq_artifact req of
           None \<Rightarrow> arts class_id \<noteq> None
         | Some x \<Rightarrow>
             compute_contract_class_id_from_artifact C (rg_artifact_codec self) x = Inr class_id \<and>
             compute_contract_address_from_instance C (oe_curve (rg_env self)) (iwa_inner inst) = Inr (iwa_address inst) \<and>
             (public_function_signatures x = [] \<or> rg_register_signatures self (public_function_signatures x) = Inr ()))"

text \<open>Every stored artifact has the class id it is stored under.\<close>

definition classes_sound :: "('s, 'v) registry \<Rightarrow> (fr \<Rightarrow> contract_artifact option) \<Rightarrow> bool" where
  "classes_sound self arts \<longleftrightarrow> (\<forall>c x. arts c = Some x \<longrightarrow>
     compute_contract_class_id_from_artifact (oe_crypto (rg_env self)) (rg_artifact_codec self) x = Inr c)"

lemma check_artifact_iff:
  assumes "\<not> rg_allow_canonical_ids self"
  shows "check_artifact self inst x = Inr () \<longleftrightarrow>
    registrable self arts \<lparr>rq_instance = inst, rq_artifact = Some x\<rparr>"
  using assms
  by (cases "compute_contract_class_id_from_artifact (oe_crypto (rg_env self)) (rg_artifact_codec self) x";
      cases "compute_contract_address_from_instance (oe_crypto (rg_env self)) (oe_curve (rg_env self)) (iwa_inner inst)")
    (auto simp: check_artifact_def registrable_def Let_def)

lemma wp_add_instance:
  assumes "contract_store_ok in_memory_kv self" and "btree_ok t" and "contracts_at self (map_of t) insts arts"
  shows "\<exists>t'. add_instance self inst t = (Inr (), t') \<and> btree_ok t' \<and>
    contracts_at self (map_of t') (insts(iwa_address inst \<mapsto> inst)) arts"
proof -
  from assms(1) have ok: "ct_kv self = in_memory_kv" "hex_ok (ct_hex self)"
    by (simp_all add: contract_store_ok_def)
  have arts: "table_at ''contract:artifact:'' (artifact_key (ct_hex self)) (to_vec (ct_artifact_json self))
      (map_of t) arts" and insts: "table_at ''contract:instance:'' (instance_key (ct_hex self))
      (to_vec (ct_instance_json self)) (map_of t) insts" using assms(3) by (simp_all add: contracts_at_def)
  have "wp (add_instance self inst) (\<lambda>_ t'. btree_ok t' \<and>
      contracts_at self (map_of t') (insts(iwa_address inst \<mapsto> inst)) arts) t"
    unfolding add_instance_def ok(1)
    by (rule typed_table.wp_table_put[OF registry_tables(3)[OF ok(2)] assms(2) insts])
      (unfold contracts_at_def, intro conjI, assumption, assumption,
       simp add: arts typed_table.table_other[OF registry_tables(4)[OF ok(2)]])
  then show ?thesis by (auto simp: wp_iff)
qed


definition strict_registry ::
    "((contract_instance_with_address + contract_artifact) btree, contract_instance_with_address + contract_artifact) registry" where
  "strict_registry = \<lparr>rg_env = env_over in_memory_kv (Inr callee_artifact) example_contract_store,
     rg_sender_store = \<lparr>se_kv = in_memory_kv, se_hex = plain_hex, se_raw = null_raw (Inr callee_artifact)\<rparr>,
     rg_artifact_codec = rg_artifact_codec example_registry, rg_register_signatures = \<lambda>_. Inr (),
     rg_allow_canonical_ids = False\<rparr>"


subsection \<open>Signatures of a request\<close>

lemma signature_fields:
  "signature_of_fields (signature_to_fields sg) = signature_from_bytes (signature_to_bytes sg)"
  "length (signature_to_fields sg) = length (signature_to_bytes sg)"
proof -
  have "(ucast (fr_to_usize (fr_from_u64 (ucast b))) :: u8) = b" for b :: u8
    by (rule bit_word_eqI) (simp add: fr_to_usize_from_u64 bit_simps)
  then show "signature_of_fields (signature_to_fields sg) = signature_from_bytes (signature_to_bytes sg)"
    by (simp add: signature_of_fields_def signature_to_fields_def o_def)
qed (simp add: signature_to_fields_def)

text \<open>
  C30. Which signatures the PXE accepts. When the active note of the origin at the signing-key slot
  holds a public key, a request with witnesses is accepted exactly when each of its witnesses of 64 fields
  is a signature of its own request hash under that key; so a request whose witnesses all come from the
  Schnorr account with that key is accepted, and one with a signature that does not verify is refused.
  Reading the notes is all it does to the store.
\<close>

theorem signed_requests_accepted:
  assumes "curve_ok (oe_curve env)"
    and held: "get_notes_by_slot (oe_note_store env) origin (fr_from_u64 1) s = (Inr stored, s')"
    and key: "signing_key_of stored = Some (derive_public_key_from_secret_key (oe_curve env) key)"
    and some: "request_auth_witnesses R req \<noteq> []"
  shows "verify_auth_witness_signatures R env req origin s =
      (if \<forall>aw \<in> set (request_auth_witnesses R req). length (aw_fields aw) = 64 \<longrightarrow>
            schnorr_verify (oe_curve env) (derive_public_key_from_secret_key (oe_curve env) key)
              (aw_request_hash aw) (signature_of_fields (aw_fields aw))
       then Inr ()
       else Inl (InvalidData ''Cannot satisfy constraint: auth witness signature verification failed''), s') \<and>
    ((\<forall>aw \<in> set (request_auth_witnesses R req). \<exists>C intent chain.
        schnorr_create_auth_wit C (oe_curve env) key intent chain = Inr aw) \<longrightarrow>
      verify_auth_witness_signatures R env req origin s = (Inr (), s'))"
proof (rule conjI)
  let ?pk = "derive_public_key_from_secret_key (oe_curve env) key"
  show char: "verify_auth_witness_signatures R env req origin s =
      (if \<forall>aw \<in> set (request_auth_witnesses R req). length (aw_fields aw) = 64 \<longrightarrow>
            schnorr_verify (oe_curve env) ?pk (aw_request_hash aw) (signature_of_fields (aw_fields aw))
       then Inr ()
       else Inl (InvalidData ''Cannot satisfy constraint: auth witness signature verification failed''), s')"
    using some
    by (simp add: verify_auth_witness_signatures_def Let_def held result_ok_def unwrap_or_def key list_all_iff
        witness_accepted_def)
  have "schnorr_verify (oe_curve env) ?pk (aw_request_hash aw) (signature_of_fields (aw_fields aw))"
    if "schnorr_create_auth_wit C (oe_curve env) key intent chain = Inr aw" for aw C intent chain
    using that schnorr_verifies[OF assms(1), of key "resolve_message_hash C intent chain"]
    by (auto simp: schnorr_create_auth_wit_def Let_def signature_fields(1) signature_bytes_roundtrip)
  then show "(\<forall>aw \<in> set (request_auth_witnesses R req). \<exists>C intent chain.
        schnorr_create_auth_wit C (oe_curve env) key intent chain = Inr aw) \<longrightarrow>
      verify_auth_witness_signatures R env req origin s = (Inr (), s')"
    unfolding char by force
qed

definition key_note :: stored_note where
  "key_note =
     (let pk = derive_public_key_from_secret_key example_curve (fq_of_nat 1)
      in (Note_Store.example_note 5 11)\<lparr>sn_storage_slot := fr_from_u64 1, sn_note_data := [point_x pk, point_y pk], sn_nullified := False\<rparr>)"

text \<open>A store whose every index lists one note, the key note.\<close>

definition key_note_env :: "(unit, unit) oracle_env" where
  "key_note_env =
     (let K = \<lparr>kv_get = \<lambda>_. ret (Some ()), kv_put = \<lambda>_ _. ret (), kv_delete = \<lambda>_. ret (), kv_list_prefix = \<lambda>_. ret []\<rparr>
      in (env_over K () \<lparr>ct_kv = K, ct_hex = plain_hex, ct_instance_json = null_json (), ct_artifact_json = null_json (),
            ct_preimage_json = null_json ()\<rparr>)
         \<lparr>oe_note_store := \<lparr>ns_kv = K, ns_hex = plain_hex, ns_note_json = known_json key_note,
            ns_index_json = known_json [fr_display plain_hex 11]\<rparr>\<rparr>)"

definition signed_codec :: "auth_witness list \<Rightarrow> request_codec" where
  "signed_codec aws = (px_codec example_pxe)\<lparr>rc_auth_witnesses := \<lambda>_. Inr aws\<rparr>"

theorem signed_requests_accepted_witness:
  "verify_auth_witness_signatures (signed_codec [\<lparr>aw_request_hash = 7,
       aw_fields = signature_to_fields (schnorr_sign example_curve (fq_of_nat 1) 7)\<rparr>])
     key_note_env (JsObject [(''authWitnesses'', JsNull)]) (AztecAddress 3) () = (Inr (), ())"
proof -
  let ?aw = "\<lparr>aw_request_hash = 7, aw_fields = signature_to_fields (schnorr_sign example_curve (fq_of_nat 1) 7)\<rparr>"
  let ?pk = "derive_public_key_from_secret_key example_curve (fq_of_nat 1)"
  have curve: "oe_curve key_note_env = example_curve" by (simp add: key_note_env_def env_over_def Let_def)
  have held: "get_notes_by_slot (oe_note_store key_note_env) (AztecAddress 3) (fr_from_u64 1) () = (Inr [key_note], ())"
    by (simp add: get_notes_by_slot_def get_notes_def get_notes_for_contract_def note_filter_default_def key_note_env_def
        env_over_def Let_def seq_def ret_def lift_result_def known_json_def Note_Store.note_matches_def)
      (simp add: key_note_def Note_Store.example_note_def Let_def)
  have "?pk = generator example_curve"
    unfolding derive_public_key_from_secret_key_def scalar_mul_generator[OF example_curve_ok]
    using generator_multiple[OF example_curve_ok] by (simp add: fq_modulus_def)
  then have "\<not> point_is_infinite ?pk"
    by (simp add: generator_def example_curve_def example_encode_def fq_modulus_def)
  then have key: "signing_key_of [key_note] = Some ?pk"
    by (simp add: signing_key_of_def key_note_def Let_def)
  have witnesses: "request_auth_witnesses (signed_codec [?aw]) (JsObject [(''authWitnesses'', JsNull)]) = [?aw]"
    by (simp add: request_auth_witnesses_def signed_codec_def)
  have "schnorr_create_auth_wit example_crypto example_curve (fq_of_nat 1) (Hash 7) undefined = Inr ?aw"
    by (simp add: schnorr_create_auth_wit_def Let_def resolve_message_hash_def)
  then have "\<forall>aw \<in> set (request_auth_witnesses (signed_codec [?aw]) (JsObject [(''authWitnesses'', JsNull)])). \<exists>C intent chain.
      schnorr_create_auth_wit C (oe_curve key_note_env) (fq_of_nat 1) intent chain = Inr aw"
    unfolding witnesses curve by fastforce
  then show ?thesis
    using signed_requests_accepted[OF _ held, unfolded curve, OF example_curve_ok key, of "signed_codec [?aw]"
        "JsObject [(''authWitnesses'', JsNull)]"]
    unfolding witnesses curve by blast
qed

subsection \<open>Fees\<close>

lemma with_margin_value:
  "if unat f + unat f div 2 < 2 ^ 128 then \<exists>m. with_margin f = Inr m \<and> unat m = unat f + unat f div 2
   else \<exists>e. with_margin f = Inl e"
proof -
  have half: "unat (f div 2) = unat f div 2" by (simp add: unat_div)
  show ?thesis
  proof (cases "unat f + unat f div 2 < 2 ^ 128")
    case True
    then have add: "with_margin f = Inr (f + f div 2)" by (simp add: with_margin_def checked_add_def half)
    then have "unat (f + f div 2) = unat f + unat f div 2"
      unfolding with_margin_def using half by (metis unat_checked_add)
    then show ?thesis using True add by auto
  qed (simp add: with_margin_def checked_add_def half)
qed

lemma unat_raise: "unat (if x < m then m else x) = max (unat x) (unat m)" for x m :: "'a :: len word"
  by (simp add: word_less_nat_alt)

text \<open>
  C36. The fees a transaction offers. Unless one and a half times a block fee exceeds 128 bits, which
  panics, the maximum fees of the transaction become the larger of what the request offers and one and a
  half times the fees of the anchor block, rounded down, so they always cover the block fees and never
  fall below the offer; the gas limits, the priority fees and everything else of the constants stay.
\<close>

theorem ensure_min_fees_covers:
  "let da = block_fee anchor ''feePerDaGas''; l2 = block_fee anchor ''feePerL2Gas'';
       offer = unwrap_or \<lparr>fee_per_da_gas = 0, fee_per_l2_gas = 0\<rparr>
         (max_fee_per_gas (tc_gas_settings (tcd_tx_context constants)))
   in if unat da + unat da div 2 < 2 ^ 128 \<and> unat l2 + unat l2 div 2 < 2 ^ 128
      then \<exists>fees. ensure_min_fees constants anchor = Inr (set_max_fee fees constants) \<and>
        unat (fee_per_da_gas fees) = max (unat (fee_per_da_gas offer)) (unat da + unat da div 2) \<and>
        unat (fee_per_l2_gas fees) = max (unat (fee_per_l2_gas offer)) (unat l2 + unat l2 div 2) \<and>
        da \<le> fee_per_da_gas fees \<and> l2 \<le> fee_per_l2_gas fees
      else \<exists>e. ensure_min_fees constants anchor = Inl e"
proof -
  let ?da = "block_fee anchor ''feePerDaGas''" and ?l2 = "block_fee anchor ''feePerL2Gas''"
  note margins = with_margin_value[of ?da] with_margin_value[of ?l2]
  show ?thesis
  proof (cases "unat ?da + unat ?da div 2 < 2 ^ 128 \<and> unat ?l2 + unat ?l2 div 2 < 2 ^ 128")
    case True
    then obtain min_da min_l2 where min: "with_margin ?da = Inr min_da" "unat min_da = unat ?da + unat ?da div 2"
      "with_margin ?l2 = Inr min_l2" "unat min_l2 = unat ?l2 + unat ?l2 div 2" using margins by auto
    let ?offer = "max_fee_per_gas (tc_gas_settings (tcd_tx_context constants))"
    let ?fees = "case ?offer of
        Some fees \<Rightarrow> \<lparr>fee_per_da_gas = (if fee_per_da_gas fees < min_da then min_da else fee_per_da_gas fees),
          fee_per_l2_gas = (if fee_per_l2_gas fees < min_l2 then min_l2 else fee_per_l2_gas fees)\<rparr>
      | None \<Rightarrow> \<lparr>fee_per_da_gas = min_da, fee_per_l2_gas = min_l2\<rparr>"
    have "ensure_min_fees constants anchor = Inr (set_max_fee ?fees constants)"
      by (simp add: ensure_min_fees_def min)
    moreover have "unat (fee_per_da_gas ?fees) = max (unat (fee_per_da_gas
          (unwrap_or \<lparr>fee_per_da_gas = 0, fee_per_l2_gas = 0\<rparr> ?offer))) (unat min_da)"
      "unat (fee_per_l2_gas ?fees) = max (unat (fee_per_l2_gas
          (unwrap_or \<lparr>fee_per_da_gas = 0, fee_per_l2_gas = 0\<rparr> ?offer))) (unat min_l2)"
      by (cases ?offer; simp add: unwrap_or_def unat_raise)+
    ultimately show ?thesis using True unfolding min(2,4) Let_def word_le_nat_alt by (auto intro!: exI[of _ ?fees])
  next
    case False
    then show ?thesis using margins
      by (cases "with_margin ?da") (auto simp: ensure_min_fees_def Let_def split: if_splits)
  qed
qed

subsection \<open>Calldata\<close>

text \<open>Sorting the calldata by the counters of the requests leaves it as it is: the requests are collected
  in the order of their counters already.\<close>

lemma sorted_calldata_same: "sorted_calldata aggregated = cb_public_function_calldata aggregated"
proof -
  let ?rs = "all_public_call_requests (cb_execution_result aggregated)"
  have "sorted_wrt (<) (map pcd_counter ?rs)"
    using collect_by_counter_firsts unfolding all_public_call_requests_def firsts_in_order_def by blast
  then have "sorted (map pcd_counter ?rs)" by (simp add: strict_sorted_iff)
  moreover have "map (\<lambda>(r, _). pcd_counter r) (zip ?rs cs) = map pcd_counter ?rs" if "length ?rs = length cs"
    for cs :: "hashed_values list"
    using that by (simp add: map_zip_map case_prod_unfold flip: map_map[of pcd_counter fst, unfolded o_def])
  ultimately show ?thesis
    by (simp add: sorted_calldata_def Let_def sort_key_id_if_sorted)
qed

end
