(* ===== verification/Node_Client.thy ===== *)
theory Node_Client
  imports Pxe_Operations
begin

text \<open>
  The client of a remote node: the JSON-RPC transport (\<open>crates/rpc/src/rpc.rs\<close>), the HTTP client and the
  helpers that poll the node (\<open>crates/node-client/src/node.rs\<close>).

  The state \<open>'w\<close> is the world the client talks to, with the clock of the machine. The HTTP request itself,
  the clock and the timer are parameters. A loop that polls takes fuel.
\<close>

subsection \<open>Transport\<close>

text \<open>How an HTTP request fails.\<close>

record http_error =
  he_is_connect :: bool
  he_is_request :: bool
  he_error :: error

text \<open>One request over HTTP: a failure, or the body of the response read as JSON. \<open>rp_rpc_error\<close> reads the
  object of a JSON-RPC error.\<close>

record 'w rpc_transport =
  rp_post :: "json \<Rightarrow> 'w \<Rightarrow> (http_error + json result) \<times> 'w"
  rp_rpc_error :: "json \<Rightarrow> (int \<times> string) result"

definition rpc_envelope :: "string \<Rightarrow> json \<Rightarrow> u64 \<Rightarrow> json" where
  "rpc_envelope meth params request_id =
     JsObject [(''jsonrpc'', JsString ''2.0''), (''method'', JsString meth), (''params'', params), (''id'', number_json request_id)]"

definition send_json :: "'w rpc_transport \<Rightarrow> json \<Rightarrow> ('w, json) op" where
  "send_json T request w =
     (case rp_post T request w of
        (Inr body, w1) \<Rightarrow> (body, w1)
      | (Inl first_err, w1) \<Rightarrow>
          if he_is_connect first_err \<or> he_is_request first_err
          then (case rp_post T request w1 of
              (Inr body, w2) \<Rightarrow> (body, w2)
            | (Inl second_err, w2) \<Rightarrow> (Inl (Transport ''retry after transport failure also failed''), w2))
          else (Inl (he_error first_err), w1))"

text \<open>The error of a response, unless it is absent or null.\<close>

definition response_error :: "'w rpc_transport \<Rightarrow> json \<Rightarrow> unit result" where
  "response_error T body =
     (case js_field ''error'' body of
        None \<Rightarrow> Inr ()
      | Some JsNull \<Rightarrow> Inr ()
      | Some e \<Rightarrow> bind_result (rp_rpc_error T e) (\<lambda>(code, message). Inl (Rpc code message)))"

text \<open>The client's state: the world and the next request id, which wraps around.\<close>

definition exchange :: "'w rpc_transport \<Rightarrow> string \<Rightarrow> json \<Rightarrow> ('w \<times> u64, json) op" where
  "exchange T meth params = (\<lambda>(w, next_id).
     case send_json T (rpc_envelope meth params next_id) w of
       (Inl e, w') \<Rightarrow> (Inl e, (w', next_id + 1))
     | (Inr body, w') \<Rightarrow> (bind_result (response_error T body) (\<lambda>_. Inr body), (w', next_id + 1)))"

definition rpc_call :: "'w rpc_transport \<Rightarrow> (json \<Rightarrow> 'a result) \<Rightarrow> string \<Rightarrow> json list \<Rightarrow> ('w \<times> u64, 'a) op" where
  "rpc_call T decode meth params =
     seq (exchange T meth (JsArray params)) (\<lambda>body.
       lift_result (bind_result (ok_or (InvalidData ''JSON-RPC response missing both result and error'')
         (js_field ''result'' body)) decode))"

definition rpc_call_optional ::
    "'w rpc_transport \<Rightarrow> (json \<Rightarrow> 'a result) \<Rightarrow> string \<Rightarrow> json list \<Rightarrow> ('w \<times> u64, 'a option) op" where
  "rpc_call_optional T decode meth params =
     seq (exchange T meth (JsArray params)) (\<lambda>body.
       case js_field ''result'' body of
         None \<Rightarrow> ret None
       | Some JsNull \<Rightarrow> ret None
       | Some result \<Rightarrow> lift_result (bind_result (decode result) (\<lambda>x. Inr (Some x))))"

definition rpc_call_void :: "'w rpc_transport \<Rightarrow> string \<Rightarrow> json list \<Rightarrow> ('w \<times> u64, unit) op" where
  "rpc_call_void T meth params = seq (exchange T meth (JsArray params)) (\<lambda>_. ret ())"

subsection \<open>Data of the node\<close>

definition block_param_json :: "u64 \<Rightarrow> json" where
  "block_param_json block_number = (if block_number = 0 then JsString ''latest'' else number_json block_number)"

definition fr_json :: "hex_crate \<Rightarrow> fr \<Rightarrow> json" where
  "fr_json H f = JsString (fr_display H f)"

definition address_json :: "hex_crate \<Rightarrow> aztec_address \<Rightarrow> json" where
  "address_json H a = JsString (address_display H a)"

definition tx_hash_json :: "hex_crate \<Rightarrow> tx_hash \<Rightarrow> json" where
  "tx_hash_json H h = JsString (tx_hash_display H h)"

record log_id =
  li_block_number :: u64
  li_log_index :: u64

record public_log_filter =
  lf_tx_hash :: "tx_hash option"
  lf_from_block :: "u64 option"
  lf_to_block :: "u64 option"
  lf_contract_address :: "aztec_address option"
  lf_selector :: "event_selector option"
  lf_after_log :: "log_id option"

record public_log_entry =
  le_block_number :: u64
  le_block_hash :: "string option"
  le_tx_hash :: "tx_hash option"
  le_tx_index :: "u64 option"
  le_log_index :: u64
  le_contract_address :: aztec_address
  le_fields :: "fr list"

record public_log =
  pl_contract_address :: aztec_address
  pl_data :: "fr list"
  pl_tx_hash :: "tx_hash option"
  pl_block_number :: u64
  pl_log_index :: u64

definition public_log_from :: "public_log_entry \<Rightarrow> public_log" where
  "public_log_from e =
     \<lparr>pl_contract_address = le_contract_address e, pl_data = le_fields e, pl_tx_hash = le_tx_hash e,
      pl_block_number = le_block_number e, pl_log_index = le_log_index e\<rparr>"

datatype tx_validation_result = Valid | Invalid "string list" | Skipped "string list"

text \<open>A leaf index of the answer: a number, a decimal string, or an object with one of them.\<close>

definition index_of_json :: "json \<Rightarrow> u64 option" where
  "index_of_json v = or_else_opt (js_u64 v) (Option.bind (js_str v) u64_parse)"

definition leaf_index :: "json \<Rightarrow> u64 option" where
  "leaf_index v = or_else_opt (Option.bind (js_field ''data'' v) index_of_json) (index_of_json v)"

subsection \<open>The HTTP client\<close>

text \<open>Readers of the answers, derived by serde, and the writer of a log filter.\<close>

record node_codec =
  nc_node_info :: "json \<Rightarrow> node_info result"
  nc_u64 :: "json \<Rightarrow> u64 result"
  nc_receipt :: "json \<Rightarrow> tx_receipt result"
  nc_logs :: "json \<Rightarrow> (public_log_entry list \<times> bool) result"
  nc_contract :: "json \<Rightarrow> contract_instance_with_address result"
  nc_fr :: "json \<Rightarrow> fr result"
  nc_validation :: "json \<Rightarrow> tx_validation_result result"
  nc_leaves :: "json \<Rightarrow> json option list result"
  nc_filter :: "public_log_filter \<Rightarrow> json"

record 'w http_node_client =
  hc_transport :: "'w rpc_transport"
  hc_codec :: node_codec
  hc_hex :: hex_crate

definition http_get_node_info :: "'w http_node_client \<Rightarrow> ('w \<times> u64, node_info) op" where
  "http_get_node_info self = rpc_call (hc_transport self) (nc_node_info (hc_codec self)) ''node_getNodeInfo'' []"

definition http_get_block_number :: "'w http_node_client \<Rightarrow> ('w \<times> u64, u64) op" where
  "http_get_block_number self = rpc_call (hc_transport self) (nc_u64 (hc_codec self)) ''node_getBlockNumber'' []"

definition http_get_proven_block_number :: "'w http_node_client \<Rightarrow> ('w \<times> u64, u64) op" where
  "http_get_proven_block_number self =
     rpc_call (hc_transport self) (nc_u64 (hc_codec self)) ''node_getProvenBlockNumber'' []"

definition http_get_tx_receipt :: "'w http_node_client \<Rightarrow> tx_hash \<Rightarrow> ('w \<times> u64, tx_receipt) op" where
  "http_get_tx_receipt self h =
     rpc_call (hc_transport self) (nc_receipt (hc_codec self)) ''node_getTxReceipt'' [tx_hash_json (hc_hex self) h]"

definition http_get_public_logs :: "'w http_node_client \<Rightarrow> public_log_filter \<Rightarrow> ('w \<times> u64, public_log list \<times> bool) op" where
  "http_get_public_logs self filt =
     seq (rpc_call (hc_transport self) (nc_logs (hc_codec self)) ''node_getPublicLogs'' [nc_filter (hc_codec self) filt])
       (\<lambda>(logs, max_logs_hit). ret (map public_log_from logs, max_logs_hit))"

definition http_send_tx :: "'w http_node_client \<Rightarrow> json \<Rightarrow> ('w \<times> u64, unit) op" where
  "http_send_tx self tx = rpc_call_void (hc_transport self) ''node_sendTx'' [tx]"

definition http_get_contract ::
    "'w http_node_client \<Rightarrow> aztec_address \<Rightarrow> ('w \<times> u64, contract_instance_with_address option) op" where
  "http_get_contract self a =
     rpc_call_optional (hc_transport self) (nc_contract (hc_codec self)) ''node_getContract'' [address_json (hc_hex self) a]"

definition http_get_contract_class :: "'w http_node_client \<Rightarrow> fr \<Rightarrow> ('w \<times> u64, json option) op" where
  "http_get_contract_class self class_id =
     rpc_call_optional (hc_transport self) Inr ''node_getContractClass'' [fr_json (hc_hex self) class_id]"

definition http_get_block_header :: "'w http_node_client \<Rightarrow> u64 \<Rightarrow> ('w \<times> u64, json) op" where
  "http_get_block_header self n = rpc_call (hc_transport self) Inr ''node_getBlockHeader'' [block_param_json n]"

definition http_get_block :: "'w http_node_client \<Rightarrow> u64 \<Rightarrow> ('w \<times> u64, json option) op" where
  "http_get_block self n = rpc_call_optional (hc_transport self) Inr ''node_getBlock'' [block_param_json n]"

definition http_get_note_hash_membership_witness :: "'w http_node_client \<Rightarrow> u64 \<Rightarrow> fr \<Rightarrow> ('w \<times> u64, json option) op" where
  "http_get_note_hash_membership_witness self n note_hash =
     rpc_call_optional (hc_transport self) Inr ''node_getNoteHashMembershipWitness''
       [block_param_json n, fr_json (hc_hex self) note_hash]"

definition http_get_nullifier_membership_witness :: "'w http_node_client \<Rightarrow> u64 \<Rightarrow> fr \<Rightarrow> ('w \<times> u64, json option) op" where
  "http_get_nullifier_membership_witness self n nullifier =
     rpc_call_optional (hc_transport self) Inr ''node_getNullifierMembershipWitness''
       [block_param_json n, fr_json (hc_hex self) nullifier]"

definition http_get_low_nullifier_membership_witness :: "'w http_node_client \<Rightarrow> u64 \<Rightarrow> fr \<Rightarrow> ('w \<times> u64, json option) op" where
  "http_get_low_nullifier_membership_witness self n nullifier =
     rpc_call_optional (hc_transport self) Inr ''node_getLowNullifierMembershipWitness''
       [block_param_json n, fr_json (hc_hex self) nullifier]"

definition http_get_public_storage_at :: "'w http_node_client \<Rightarrow> u64 \<Rightarrow> aztec_address \<Rightarrow> fr \<Rightarrow> ('w \<times> u64, fr) op" where
  "http_get_public_storage_at self n contract slot =
     rpc_call (hc_transport self) (nc_fr (hc_codec self)) ''node_getPublicStorageAt''
       [block_param_json n, address_json (hc_hex self) contract, fr_json (hc_hex self) slot]"

definition http_get_public_storage_at_by_hash :: "'w http_node_client \<Rightarrow> fr \<Rightarrow> aztec_address \<Rightarrow> fr \<Rightarrow> ('w \<times> u64, fr) op" where
  "http_get_public_storage_at_by_hash self block_hash contract slot =
     rpc_call (hc_transport self) (nc_fr (hc_codec self)) ''node_getPublicStorageAt''
       [fr_json (hc_hex self) block_hash, address_json (hc_hex self) contract, fr_json (hc_hex self) slot]"

definition http_get_public_data_witness :: "'w http_node_client \<Rightarrow> u64 \<Rightarrow> fr \<Rightarrow> ('w \<times> u64, json option) op" where
  "http_get_public_data_witness self n leaf_slot =
     rpc_call_optional (hc_transport self) Inr ''node_getPublicDataWitness''
       [block_param_json n, fr_json (hc_hex self) leaf_slot]"

definition http_get_public_data_witness_by_hash :: "'w http_node_client \<Rightarrow> fr \<Rightarrow> fr \<Rightarrow> ('w \<times> u64, json option) op" where
  "http_get_public_data_witness_by_hash self block_hash leaf_slot =
     rpc_call_optional (hc_transport self) Inr ''node_getPublicDataWitness''
       [fr_json (hc_hex self) block_hash, fr_json (hc_hex self) leaf_slot]"

definition http_get_l1_to_l2_message_membership_witness ::
    "'w http_node_client \<Rightarrow> u64 \<Rightarrow> fr \<Rightarrow> ('w \<times> u64, json option) op" where
  "http_get_l1_to_l2_message_membership_witness self n entry_key =
     rpc_call_optional (hc_transport self) Inr ''node_getL1ToL2MessageMembershipWitness''
       [block_param_json n, fr_json (hc_hex self) entry_key]"

definition http_get_l1_to_l2_message_checkpoint :: "'w http_node_client \<Rightarrow> fr \<Rightarrow> ('w \<times> u64, u64 option) op" where
  "http_get_l1_to_l2_message_checkpoint self message =
     seq (rpc_call_optional (hc_transport self) Inr ''node_getL1ToL2MessageCheckpoint'' [fr_json (hc_hex self) message])
       (\<lambda>result. ret (Option.bind result js_u64))"

definition http_simulate_public_calls :: "'w http_node_client \<Rightarrow> json \<Rightarrow> bool \<Rightarrow> ('w \<times> u64, json) op" where
  "http_simulate_public_calls self tx skip_fee_enforcement =
     rpc_call (hc_transport self) Inr ''node_simulatePublicCalls'' [tx, JsBool skip_fee_enforcement]"

definition http_is_valid_tx :: "'w http_node_client \<Rightarrow> json \<Rightarrow> ('w \<times> u64, tx_validation_result) op" where
  "http_is_valid_tx self tx = rpc_call (hc_transport self) (nc_validation (hc_codec self)) ''node_isValidTx'' [tx]"

definition http_get_private_logs_by_tags :: "'w http_node_client \<Rightarrow> fr list \<Rightarrow> ('w \<times> u64, json) op" where
  "http_get_private_logs_by_tags self tags =
     rpc_call (hc_transport self) Inr ''node_getPrivateLogsByTags'' [JsArray (map (fr_json (hc_hex self)) tags)]"

definition http_get_public_logs_by_tags_from_contract ::
    "'w http_node_client \<Rightarrow> aztec_address \<Rightarrow> fr list \<Rightarrow> ('w \<times> u64, json) op" where
  "http_get_public_logs_by_tags_from_contract self contract tags =
     rpc_call (hc_transport self) Inr ''node_getPublicLogsByTagsFromContract''
       [address_json (hc_hex self) contract, JsArray (map (fr_json (hc_hex self)) tags)]"

definition http_register_contract_function_signatures :: "'w http_node_client \<Rightarrow> string list \<Rightarrow> ('w \<times> u64, unit) op" where
  "http_register_contract_function_signatures self signatures =
     rpc_call_void (hc_transport self) ''node_registerContractFunctionSignatures'' [JsArray (map JsString signatures)]"

definition http_get_tx_effect :: "'w http_node_client \<Rightarrow> tx_hash \<Rightarrow> ('w \<times> u64, json option) op" where
  "http_get_tx_effect self h =
     rpc_call_optional (hc_transport self) Inr ''node_getTxEffect'' [tx_hash_json (hc_hex self) h]"

definition http_get_block_hash_membership_witness :: "'w http_node_client \<Rightarrow> u64 \<Rightarrow> fr \<Rightarrow> ('w \<times> u64, json option) op" where
  "http_get_block_hash_membership_witness self n block_hash =
     rpc_call_optional (hc_transport self) Inr ''node_getBlockHashMembershipWitness''
       [block_param_json n, fr_json (hc_hex self) block_hash]"

text \<open>The tree is given by its number in decimal; other names stand for tree zero.\<close>

definition tree_number :: "string \<Rightarrow> u64" where
  "tree_number tree_id = (case u64_parse tree_id of Some n \<Rightarrow> if n < 256 then n else 0 | None \<Rightarrow> 0)"

definition http_find_leaves_indexes ::
    "'w http_node_client \<Rightarrow> u64 \<Rightarrow> string \<Rightarrow> fr list \<Rightarrow> ('w \<times> u64, u64 option list) op" where
  "http_find_leaves_indexes self n tree_id leaves =
     seq (rpc_call (hc_transport self) (nc_leaves (hc_codec self)) ''node_findLeavesIndexes''
       [block_param_json n, number_json (tree_number tree_id), JsArray (map (fr_json (hc_hex self)) leaves)]) (\<lambda>raw.
       ret (map (\<lambda>v. Option.bind v leaf_index) raw))"

definition http_get_tx_by_hash :: "'w http_node_client \<Rightarrow> tx_hash \<Rightarrow> ('w \<times> u64, json option) op" where
  "http_get_tx_by_hash self h =
     rpc_call_optional (hc_transport self) Inr ''node_getTxByHash'' [tx_hash_json (hc_hex self) h]"

subsection \<open>The node as an interface\<close>

text \<open>The operations of the node that the helpers below and the wallet call, with the clock and the timer of
  the machine in milliseconds.\<close>

record 'w node_api =
  na_get_node_info :: "('w, node_info) op"
  na_get_block_number :: "('w, u64) op"
  na_get_proven_block_number :: "('w, u64) op"
  na_get_tx_receipt :: "tx_hash \<Rightarrow> ('w, tx_receipt) op"
  na_send_tx :: "json \<Rightarrow> ('w, unit) op"
  na_get_contract :: "aztec_address \<Rightarrow> ('w, contract_instance_with_address option) op"
  na_get_contract_class :: "fr \<Rightarrow> ('w, json option) op"
  na_get_tx_effect :: "tx_hash \<Rightarrow> ('w, json option) op"
  na_get_nullifier_membership_witness :: "u64 \<Rightarrow> fr \<Rightarrow> ('w, json option) op"
  na_get_public_storage_at :: "u64 \<Rightarrow> aztec_address \<Rightarrow> fr \<Rightarrow> ('w, fr) op"
  na_simulate_public_calls :: "json \<Rightarrow> bool \<Rightarrow> ('w, json) op"
  na_is_valid_tx :: "json \<Rightarrow> ('w, tx_validation_result) op"
  na_now :: "'w \<Rightarrow> nat"
  na_sleep :: "nat \<Rightarrow> 'w \<Rightarrow> 'w"

definition http_node :: "'w http_node_client \<Rightarrow> ('w \<Rightarrow> nat) \<Rightarrow> (nat \<Rightarrow> 'w \<Rightarrow> 'w) \<Rightarrow> ('w \<times> u64) node_api" where
  "http_node self now sleep =
     \<lparr>na_get_node_info = http_get_node_info self,
      na_get_block_number = http_get_block_number self,
      na_get_proven_block_number = http_get_proven_block_number self,
      na_get_tx_receipt = http_get_tx_receipt self,
      na_send_tx = http_send_tx self,
      na_get_contract = http_get_contract self,
      na_get_contract_class = http_get_contract_class self,
      na_get_tx_effect = http_get_tx_effect self,
      na_get_nullifier_membership_witness = http_get_nullifier_membership_witness self,
      na_get_public_storage_at = http_get_public_storage_at self,
      na_simulate_public_calls = http_simulate_public_calls self,
      na_is_valid_tx = http_is_valid_tx self,
      na_now = (\<lambda>(w, _). now w),
      na_sleep = (\<lambda>d (w, next_id). (sleep d w, next_id))\<rparr>"

subsection \<open>Polling\<close>

text \<open>One turn of a polling loop ends it, or asks for another turn and says what the loop returns when its
  deadline has passed. \<open>slack\<close> is the time a further turn needs before the deadline.\<close>

datatype 'a turn = Finish "'a result" | Again "'a result"

fun poll :: "'w node_api \<Rightarrow> nat \<Rightarrow> nat \<Rightarrow> nat \<Rightarrow> ('w \<Rightarrow> 'a turn \<times> 'w) \<Rightarrow> nat \<Rightarrow> ('w, 'a) run" where
  "poll N slack interval deadline step 0 w = None"
| "poll N slack interval deadline step (Suc fuel) w =
     (case step w of
        (Finish r, w') \<Rightarrow> Some (r, w')
      | (Again expired, w') \<Rightarrow>
          if na_now N w' + slack \<ge> deadline then Some (expired, w')
          else poll N slack interval deadline step fuel (na_sleep N interval w'))"

definition wait_for_node_opts :: "'w node_api \<Rightarrow> nat \<Rightarrow> nat \<Rightarrow> nat \<Rightarrow> ('w, node_info) run" where
  "wait_for_node_opts N timeout interval fuel w =
     poll N interval interval (na_now N w + timeout)
       (\<lambda>w. case na_get_node_info N w of
          (Inr info, w') \<Rightarrow> (Finish (Inr info), w')
        | (Inl e, w') \<Rightarrow> (Again (Inl (Timeout ''node not ready'')), w')) fuel w"

definition wait_for_node :: "'w node_api \<Rightarrow> nat \<Rightarrow> ('w, node_info) run" where
  "wait_for_node N = wait_for_node_opts N 120000 1000"

record wait_opts =
  wo_timeout :: nat
  wo_interval :: nat
  wo_wait_for_status :: tx_status
  wo_dont_throw_on_revert :: bool
  wo_ignore_dropped_receipts_for :: nat

definition wait_opts_default :: wait_opts where
  "wait_opts_default =
     \<lparr>wo_timeout = 300000, wo_interval = 1000, wo_wait_for_status = Checkpointed, wo_dont_throw_on_revert = False,
      wo_ignore_dropped_receipts_for = 5000\<rparr>"

fun status_ordinal :: "tx_status \<Rightarrow> u8" where
  "status_ordinal Dropped = 0"
| "status_ordinal Pending = 1"
| "status_ordinal tx_status.Proposed = 2"
| "status_ordinal Checkpointed = 3"
| "status_ordinal Proven = 4"
| "status_ordinal Finalized = 5"

definition status_reached :: "tx_status \<Rightarrow> tx_status \<Rightarrow> bool" where
  "status_reached s target \<longleftrightarrow> status_ordinal s \<ge> status_ordinal target"

definition failure_reason :: "tx_receipt \<Rightarrow> string" where
  "failure_reason r = (case rc_error r of Some m \<Rightarrow> m | None \<Rightarrow> ''unknown reason'')"

text \<open>What \<open>wait_for_tx\<close> makes of a receipt, \<open>elapsed\<close> after it started.\<close>

definition judge_receipt :: "wait_opts \<Rightarrow> nat \<Rightarrow> tx_receipt \<Rightarrow> tx_receipt turn" where
  "judge_receipt opts elapsed r =
     (if receipt_is_dropped r
      then if elapsed \<ge> wo_ignore_dropped_receipts_for opts
           then Finish (Inl (Reverted (''tx was dropped: '' @ failure_reason r)))
           else Again (Inl (Timeout ''tx did not reach the status''))
      else if has_execution_reverted r \<and> \<not> wo_dont_throw_on_revert opts
      then Finish (Inl (Reverted (''tx execution reverted: '' @ failure_reason r)))
      else if status_reached (rc_status r) (wo_wait_for_status opts) then Finish (Inr r)
      else Again (Inl (Timeout ''tx did not reach the status'')))"

definition wait_for_tx :: "'w node_api \<Rightarrow> tx_hash \<Rightarrow> wait_opts \<Rightarrow> nat \<Rightarrow> ('w, tx_receipt) run" where
  "wait_for_tx N h opts fuel w =
     (let start = na_now N w
      in poll N (wo_interval opts) (wo_interval opts) (start + wo_timeout opts)
           (\<lambda>w. case na_get_tx_receipt N h w of
              (Inr r, w') \<Rightarrow> (judge_receipt opts (na_now N w' - start) r, w')
            | (Inl e, w') \<Rightarrow> (Again (Inl (Timeout ''timed out waiting for tx'')), w')) fuel w)"

record wait_for_proven_opts =
  wp_proven_timeout :: nat
  wp_interval :: nat

definition wait_for_proven_opts_default :: wait_for_proven_opts where
  "wait_for_proven_opts_default = \<lparr>wp_proven_timeout = 600000, wp_interval = 1000\<rparr>"

definition wait_for_proven :: "'w node_api \<Rightarrow> tx_receipt \<Rightarrow> wait_for_proven_opts \<Rightarrow> nat \<Rightarrow> ('w, u64) run" where
  "wait_for_proven N receipt opts fuel w =
     (case rc_block_number receipt of
        None \<Rightarrow> Some (Inl (InvalidData ''receipt has no block_number: cannot wait for proven''), w)
      | Some receipt_block \<Rightarrow>
          poll N (wp_interval opts) (wp_interval opts) (na_now N w + wp_proven_timeout opts)
            (\<lambda>w. case na_get_proven_block_number N w of
               (Inr proven_block, w') \<Rightarrow>
                 (if proven_block \<ge> receipt_block then Finish (Inr proven_block)
                  else Again (Inl (Timeout ''block was not proven'')), w')
             | (Inl e, w') \<Rightarrow> (Again (Inl (Timeout ''timed out waiting for block to be proven'')), w')) fuel w)"

subsection \<open>Laws of the clock\<close>

text \<open>Time does not go backwards during an operation, and a sleep lasts at least as long as asked.\<close>

definition forward :: "('w \<Rightarrow> nat) \<Rightarrow> ('w \<Rightarrow> 'r \<times> 'w) \<Rightarrow> bool" where
  "forward now m \<longleftrightarrow> (\<forall>w. now w \<le> now (snd (m w)))"

definition sleeps :: "'w node_api \<Rightarrow> bool" where
  "sleeps N \<longleftrightarrow> (\<forall>d w. na_now N w + d \<le> na_now N (na_sleep N d w))"

named_theorems forward_intros \<open>computations during which time does not go backwards\<close>

lemma forward_basic [forward_intros]:
  "forward now (ret x)"
  "forward now (fail e)"
  "forward now (lift_result r)"
  by (simp_all add: forward_def ret_def fail_def lift_result_def)

lemma forward_seq [forward_intros]:
  assumes "forward now m" and "\<And>x. forward now (f x)"
  shows "forward now (seq m f)"
  unfolding forward_def
proof
  fix w
  obtain r w' where m: "m w = (r, w')" by fastforce
  have "now w \<le> now w'" using assms(1) m by (metis forward_def snd_conv)
  moreover have "now w' \<le> now (snd (f x w'))" for x using assms(2) by (simp add: forward_def)
  ultimately show "now w \<le> now (snd (seq m f w))" using m by (cases r) (auto simp: seq_def intro: order_trans)
qed

text \<open>A loop returns once its fuel covers the time to the deadline.\<close>

lemma poll_returns:
  assumes "sleeps N" and "forward (na_now N) step" and "deadline \<le> na_now N w + n * interval"
  shows "\<exists>r w'. poll N slack interval deadline step (Suc n) w = Some (r, w')"
  using assms(3)
proof (induction n arbitrary: w)
  case 0
  obtain t w' where s: "step w = (t, w')" by fastforce
  then have "na_now N w \<le> na_now N w'" using assms(2) by (metis forward_def snd_conv)
  then show ?case using 0 s by (auto split: turn.split)
next
  case (Suc n)
  obtain t w' where s: "step w = (t, w')" by fastforce
  then have "na_now N w \<le> na_now N w'" using assms(2) by (metis forward_def snd_conv)
  also have "na_now N w' + interval \<le> na_now N (na_sleep N interval w')" using assms(1) by (simp add: sleeps_def)
  finally have "deadline \<le> na_now N (na_sleep N interval w') + n * interval" using Suc.prems by simp
  from Suc.IH[OF this] s show ?case by (cases t) auto
qed

text \<open>What a loop returns comes from one of its turns.\<close>

lemma poll_result:
  assumes "poll N slack interval deadline step fuel w = Some (r, w')"
  shows "\<exists>v. step v = (Finish r, w') \<or> step v = (Again r, w') \<and> deadline \<le> na_now N w' + slack"
  using assms
  by (induction fuel arbitrary: w) (auto split: prod.splits turn.splits if_splits)

end
