(* ===== verification/Base_Wallet.thy ===== *)
theory Base_Wallet
  imports Node_Client
begin

text \<open>
  The wallet over a PXE, a node and an account provider: \<open>crates/wallet/src/base_wallet.rs\<close>, the options and
  results of \<open>crates/wallet/src/wallet.rs\<close> and the interface of \<open>account_provider.rs\<close>.

  The state \<open>'w\<close> holds what the three parts keep. The interfaces are records of operations; \<open>embedded_pxe_api\<close>
  and \<open>single_provider\<close> are the PXE and the account provider of this development. The JSON of a
  transaction (derived by serde) and the text of a JSON value are fields of the wallet.
\<close>

subsection \<open>Options and results\<close>

record simulate_options =
  so_from :: aztec_address
  so_skip_validation :: bool
  so_skip_fee_enforcement :: bool
  so_auth_witnesses :: "auth_witness list"
  so_capsules :: "capsule list"
  so_additional_scopes :: "aztec_address list"
  so_gas_settings :: "gas_settings option"
  so_fee_execution_payload :: "execution_payload option"

record send_options =
  sn_from :: aztec_address
  sn_auth_witnesses :: "auth_witness list"
  sn_capsules :: "capsule list"
  sn_additional_scopes :: "aztec_address list"
  sn_gas_settings :: "gas_settings option"
  sn_fee_execution_payload :: "execution_payload option"

datatype profile_mode = ProfileGates | ProfileExecutionSteps | ProfileFull

record profile_options =
  pp_from :: aztec_address
  pp_auth_witnesses :: "auth_witness list"
  pp_capsules :: "capsule list"
  pp_additional_scopes :: "aztec_address list"
  pp_profile_mode :: "profile_mode option"
  pp_skip_proof_generation :: bool
  pp_gas_settings :: "gas_settings option"
  pp_fee_execution_payload :: "execution_payload option"

record execute_utility_options =
  eu_scope :: aztec_address
  eu_auth_witnesses :: "auth_witness list"

definition simulate_options_default :: simulate_options where
  "simulate_options_default =
     \<lparr>so_from = AztecAddress 0, so_skip_validation = False, so_skip_fee_enforcement = True, so_auth_witnesses = [],
      so_capsules = [], so_additional_scopes = [], so_gas_settings = None, so_fee_execution_payload = None\<rparr>"

definition send_options_default :: send_options where
  "send_options_default =
     \<lparr>sn_from = AztecAddress 0, sn_auth_witnesses = [], sn_capsules = [], sn_additional_scopes = [],
      sn_gas_settings = None, sn_fee_execution_payload = None\<rparr>"

definition profile_options_default :: profile_options where
  "profile_options_default =
     \<lparr>pp_from = AztecAddress 0, pp_auth_witnesses = [], pp_capsules = [], pp_additional_scopes = [],
      pp_profile_mode = None, pp_skip_proof_generation = True, pp_gas_settings = None,
      pp_fee_execution_payload = None\<rparr>"

record contract_metadata =
  cm_instance :: "contract_instance_with_address option"
  cm_is_contract_initialized :: bool
  cm_is_contract_published :: bool
  cm_is_contract_updated :: bool
  cm_updated_contract_class_id :: "fr option"

record contract_class_metadata =
  cc_is_artifact_registered :: bool
  cc_is_contract_class_publicly_registered :: bool

record tx_simulation_result =
  sr_return_values :: json
  sr_gas_used :: "gas option"

record tx_profile_result =
  tr_return_values :: json
  tr_gas_used :: "gas option"
  tr_profile_data :: json

record event_metadata_definition =
  em_event_selector :: event_selector
  em_abi_type :: abi_type
  em_field_names :: "string list"

record wallet_event_filter =
  wf_contract_address :: aztec_address
  wf_scopes :: "aztec_address list"
  wf_tx_hash :: "tx_hash option"
  wf_from_block :: "u64 option"
  wf_to_block :: "u64 option"
  wf_after_log :: "log_id option"

record private_event_metadata =
  pm_tx_hash :: tx_hash
  pm_block_number :: "u64 option"
  pm_log_index :: "u64 option"

record private_event =
  pv_event :: json
  pv_metadata :: private_event_metadata

subsection \<open>Interfaces\<close>

text \<open>Requests and answers of the PXE.\<close>

record pxe_log_id =
  xl_block_number :: u64
  xl_block_hash :: "u8 list"
  xl_tx_hash :: tx_hash
  xl_tx_index :: u64
  xl_log_index :: u64

record simulate_tx_opts =
  st_simulate_public :: bool
  st_skip_tx_validation :: bool
  st_skip_fee_enforcement :: bool
  st_overrides :: "json option"
  st_scopes :: "aztec_address list"

record profile_tx_opts =
  pt_profile_mode :: profile_mode
  pt_skip_proof_generation :: bool
  pt_scopes :: "aztec_address list"

record execute_utility_opts =
  ut_authwits :: "auth_witness list"
  ut_scopes :: "aztec_address list"

record 'w pxe_api =
  pa_get_contract_instance :: "aztec_address \<Rightarrow> ('w, contract_instance_with_address option) op"
  pa_get_contract_artifact :: "fr \<Rightarrow> ('w, contract_artifact option) op"
  pa_get_contracts :: "('w, aztec_address list) op"
  pa_get_senders :: "('w, aztec_address list) op"
  pa_register_sender :: "aztec_address \<Rightarrow> ('w, aztec_address) op"
  pa_register_contract :: "register_contract_request \<Rightarrow> ('w, unit) op"
  pa_update_contract :: "aztec_address \<Rightarrow> contract_artifact \<Rightarrow> ('w, unit) op"
  pa_register_account :: "fr \<Rightarrow> fr \<Rightarrow> ('w, complete_address) op"
  pa_get_private_events :: "event_selector \<Rightarrow> pxe_log_id private_event_filter \<Rightarrow> ('w, packed_private_event list) run"
  pa_simulate_tx :: "json \<Rightarrow> simulate_tx_opts \<Rightarrow> ('w, json) run"
  pa_prove_tx :: "json \<Rightarrow> aztec_address list \<Rightarrow> ('w, tx_proving_result) run"
  pa_profile_tx :: "json \<Rightarrow> profile_tx_opts \<Rightarrow> ('w, json) run"
  pa_execute_utility :: "function_call \<Rightarrow> execute_utility_opts \<Rightarrow> ('w, fr list \<times> json option) run"

record 'w account_provider =
  ap_create_tx_execution_request :: "aztec_address \<Rightarrow> execution_payload \<Rightarrow> gas_settings \<Rightarrow> chain_info \<Rightarrow>
    aztec_address option \<Rightarrow> u8 option \<Rightarrow> ('w, json) op"
  ap_create_auth_wit :: "aztec_address \<Rightarrow> message_hash_or_intent \<Rightarrow> chain_info \<Rightarrow> ('w, auth_witness) op"
  ap_get_complete_address :: "aztec_address \<Rightarrow> ('w, complete_address option) op"
  ap_get_accounts :: "('w, (string \<times> aztec_address) list) op"

record 'w base_wallet =
  bw_pxe :: "'w pxe_api"
  bw_node :: "'w node_api"
  bw_accounts :: "'w account_provider"
  bw_hex :: hex_crate
  bw_tx_json :: "tx \<Rightarrow> json result"
  bw_display :: "json \<Rightarrow> string"

text \<open>The embedded PXE behind the interface. It simulates with its own fixed options, and its profiles
  and utility runs carry no statistics.\<close>

definition embedded_pxe_api ::
    "('m, 'c, 'u, 'fe) acvm \<Rightarrow> ('s, 'v, 'w, 'fe) embedded_pxe \<Rightarrow> ('s, 'v) registry \<Rightarrow> nat \<Rightarrow> 's pxe_state pxe_api" where
  "embedded_pxe_api X self R fuel =
     \<lparr>pa_get_contract_instance = (\<lambda>a. on_pxe_store (pxe_get_contract_instance R a)),
      pa_get_contract_artifact = (\<lambda>c. on_pxe_store (pxe_get_contract_artifact R c)),
      pa_get_contracts = on_pxe_store (pxe_get_contracts R),
      pa_get_senders = on_pxe_store (pxe_get_senders R),
      pa_register_sender = (\<lambda>a. on_pxe_store (register_sender R a)),
      pa_register_contract = (\<lambda>q. on_pxe_store (register_contract R q)),
      pa_update_contract = (\<lambda>a c. on_pxe_store (update_contract R a c)),
      pa_register_account = (\<lambda>sk pa. on_pxe_store (register_account R sk pa)),
      pa_get_private_events = pxe_get_private_events X self fuel,
      pa_simulate_tx = (\<lambda>req opts. simulate_tx X self fuel req (st_scopes opts)),
      pa_prove_tx = prove_tx X self fuel,
      pa_profile_tx = (\<lambda>req opts. profile_tx X self fuel req (pt_scopes opts)),
      pa_execute_utility = (\<lambda>call opts.
        and_then (pxe_execute_utility X self fuel call (ut_scopes opts) (ut_authwits opts))
          (\<lambda>fields. yields (Inr (fields, None))))\<rparr>"

text \<open>The provider with one account behind the interface; \<open>draw\<close> takes a random field.\<close>

definition single_provider ::
    "crypto \<Rightarrow> (tx_execution_request \<Rightarrow> json result) \<Rightarrow> ('w \<Rightarrow> fr \<times> 'w) \<Rightarrow> single_account_provider \<Rightarrow>
     'w account_provider" where
  "single_provider C to_value draw self =
     \<lparr>ap_create_tx_execution_request = (\<lambda>from exec gas chain payer fee_method w.
        let (random, w1) = draw w; (salt, w2) = draw w1
        in (provider_create_tx_execution_request to_value self random salt from exec gas chain payer fee_method, w2)),
      ap_create_auth_wit = (\<lambda>from intent chain. lift_result (provider_create_auth_wit C self from intent chain)),
      ap_get_complete_address = (\<lambda>a. ret (provider_get_complete_address self a)),
      ap_get_accounts = ret (provider_get_accounts self)\<rparr>"

subsection \<open>Messages of failed assertions\<close>

definition decode_assertion_message_from_error_types :: "json \<Rightarrow> string \<Rightarrow> string option" where
  "decode_assertion_message_from_error_types error_types selector_key =
     Option.bind (js_field selector_key error_types) (\<lambda>entry.
       if Option.bind (js_field ''error_kind'' entry) js_str \<in> {Some ''string'', Some ''fmtstring''}
       then Option.bind (js_field ''string'' entry) js_str else None)"

definition known_protocol_assertion_message :: "aztec_address \<Rightarrow> string \<Rightarrow> string option" where
  "known_protocol_assertion_message contract selector_key =
     (if contract = auth_registry \<and> selector_key = ''17089945683942782951'' then Some ''unauthorized'' else None)"

definition known_assertion_message_by_selector :: "string \<Rightarrow> string option" where
  "known_assertion_message_by_selector selector_key =
     (if selector_key = ''17089945683942782951'' then Some ''unauthorized''
      else if selector_key = ''7136484461999155778''
      then Some (''Invalid authwit nonce. When '' @ [CHR 0x27] @ ''from'' @ [CHR 0x27] @ '' and '' @ [CHR 0x27] @
        ''msg_sender'' @ [CHR 0x27] @ '' are the same, '' @ [CHR 0x27] @ ''authwit_nonce'' @ [CHR 0x27] @
        '' must be zero'')
      else if selector_key = ''1998584279744703196'' then Some ''attempt_some to subtract with overflow''
      else None)"

fun selector_digits :: "nat \<Rightarrow> string \<Rightarrow> nat option" where
  "selector_digits acc [] = Some acc"
| "selector_digits acc (c # cs) =
     (case char_digit 16 c of
        None \<Rightarrow> None
      | Some d \<Rightarrow> if acc * 16 + d < 2 ^ 128 then selector_digits (acc * 16 + d) cs else None)"

definition error_selector_key_from_hex :: "string \<Rightarrow> string option" where
  "error_selector_key_from_hex selector_hex =
     (let raw = (case strip_prefix ''0x'' selector_hex of Some s \<Rightarrow> s | None \<Rightarrow> selector_hex);
          ds = (case raw of c # cs \<Rightarrow> if c = CHR ''+'' then cs else raw | [] \<Rightarrow> [])
      in if ds = [] then None else map_option nat_display (selector_digits 0 ds))"

definition public_function_error_types ::
    "'w base_wallet \<Rightarrow> aztec_address \<Rightarrow> function_selector \<Rightarrow> ('w, json option) op" where
  "public_function_error_types self contract selector =
     seq (pa_get_contract_instance (bw_pxe self) contract) (\<lambda>found.
       case found of
         None \<Rightarrow> ret None
       | Some inst \<Rightarrow>
           seq (pa_get_contract_artifact (bw_pxe self) (in_current_contract_class_id (iwa_inner inst))) (\<lambda>artifact.
             ret (Option.bind artifact (\<lambda>a.
               Option.bind (find_function_by_selector a selector) fa_error_types))))"

definition artifact_error_message :: "string \<Rightarrow> contract_artifact \<Rightarrow> string option" where
  "artifact_error_message selector_key artifact =
     (case List.map_filter (\<lambda>f. Option.bind (fa_error_types f)
         (\<lambda>types. decode_assertion_message_from_error_types types selector_key)) (ca_functions artifact) of
        [] \<Rightarrow> None | message # _ \<Rightarrow> Some message)"

fun find_error_message_in :: "'w base_wallet \<Rightarrow> string \<Rightarrow> aztec_address list \<Rightarrow> ('w, string option) op" where
  "find_error_message_in self selector_key [] = ret None"
| "find_error_message_in self selector_key (address # addresses) =
     seq (pa_get_contract_instance (bw_pxe self) address) (\<lambda>found.
       case found of
         None \<Rightarrow> find_error_message_in self selector_key addresses
       | Some inst \<Rightarrow>
           seq (pa_get_contract_artifact (bw_pxe self) (in_current_contract_class_id (iwa_inner inst))) (\<lambda>artifact.
             case Option.bind artifact (artifact_error_message selector_key) of
               Some message \<Rightarrow> ret (Some message)
             | None \<Rightarrow> find_error_message_in self selector_key addresses))"

definition find_registered_error_message_by_selector :: "'w base_wallet \<Rightarrow> string \<Rightarrow> ('w, string option) op" where
  "find_registered_error_message_by_selector self selector_key =
     seq (pa_get_contracts (bw_pxe self)) (find_error_message_in self selector_key)"

text \<open>\<open>if let Ok(Some(x)) = ...\<close>: an error counts as no answer.\<close>

definition attempt_some :: "('w, 'a option) op \<Rightarrow> ('w, 'a option) op" where
  "attempt_some m w = (case m w of (Inr x, w') \<Rightarrow> (Inr x, w') | (Inl _, w') \<Rightarrow> (Inr None, w'))"

text \<open>The selector of the error, the failing contract and its function, as the node reports them.\<close>

definition failing_call :: "hex_crate \<Rightarrow> json \<Rightarrow> (string \<times> aztec_address \<times> function_selector) option" where
  "failing_call H revert_reason =
     Option.bind (Option.bind (js_field ''revertData'' revert_reason) js_array) (\<lambda>data.
     Option.bind (Option.bind (Option.bind (list_get data 0) js_str) error_selector_key_from_hex) (\<lambda>selector_key.
     Option.bind (Option.bind (js_field ''functionErrorStack'' revert_reason) js_array) (\<lambda>stack.
     if stack = [] then None else
     let failing = last stack in
     Option.bind (Option.bind (Option.bind (js_field ''contractAddress'' failing) js_str)
       (\<lambda>s. result_ok (fr_from_hex H s))) (\<lambda>contract.
     Option.bind (Option.bind (Option.bind (js_field ''functionSelector'' failing) js_str)
       (\<lambda>s. result_ok (function_selector_from_hex H s))) (\<lambda>selector.
       Some (selector_key, AztecAddress contract, selector))))))"

definition decode_public_assertion_message :: "'w base_wallet \<Rightarrow> json \<Rightarrow> ('w, string option) op" where
  "decode_public_assertion_message self revert_reason =
     (case failing_call (bw_hex self) revert_reason of
        None \<Rightarrow> ret None
      | Some (selector_key, contract, selector) \<Rightarrow>
          seq (attempt_some (public_function_error_types self contract selector)) (\<lambda>types.
          case Option.bind types (\<lambda>t. decode_assertion_message_from_error_types t selector_key) of
            Some message \<Rightarrow> ret (Some (''Assertion failed: '' @ message))
          | None \<Rightarrow>
              seq (attempt_some (find_registered_error_message_by_selector self selector_key)) (\<lambda>found.
                ret (map_option (\<lambda>message. ''Assertion failed: '' @ message)
                  (or_else_opt found (or_else_opt (known_protocol_assertion_message contract selector_key)
                    (known_assertion_message_by_selector selector_key)))))))"

subsection \<open>Payloads and scopes\<close>

definition merge_execution_payload ::
    "execution_payload \<Rightarrow> auth_witness list \<Rightarrow> capsule list \<Rightarrow> execution_payload" where
  "merge_execution_payload exec auth_witnesses capsules =
     exec\<lparr>ep_auth_witnesses := ep_auth_witnesses exec @ auth_witnesses, ep_capsules := ep_capsules exec @ capsules\<rparr>"

text \<open>The payload that pays the fee, appended as \<open>send_tx\<close> and \<open>simulate_tx\<close> do it.\<close>

definition append_fee_payload :: "execution_payload option \<Rightarrow> execution_payload \<Rightarrow> execution_payload" where
  "append_fee_payload fee exec =
     (case fee of
        None \<Rightarrow> exec
      | Some payload \<Rightarrow>
          \<lparr>ep_calls = ep_calls exec @ ep_calls payload,
           ep_auth_witnesses = ep_auth_witnesses exec @ ep_auth_witnesses payload,
           ep_capsules = ep_capsules exec @ ep_capsules payload,
           ep_extra_hashed_args = ep_extra_hashed_args exec @ ep_extra_hashed_args payload,
           ep_fee_payer = or_else_opt (ep_fee_payer payload) (ep_fee_payer exec)\<rparr>)"

definition build_scopes :: "aztec_address \<Rightarrow> aztec_address list \<Rightarrow> aztec_address list" where
  "build_scopes from additional =
     (if from \<noteq> AztecAddress 0 \<and> from \<notin> set additional then additional @ [from] else additional)"

definition has_no_private_return_values :: "json \<Rightarrow> bool" where
  "has_no_private_return_values result =
     (case js_field ''returnValues'' result of
        Some (JsArray arr) \<Rightarrow> arr = []
      | Some (JsObject obj) \<Rightarrow> Option.bind (js_field ''returnValues'' (JsObject obj)) js_array = Some []
      | _ \<Rightarrow> False)"

subsection \<open>Waiting for the node\<close>

text \<open>The first nullifier of a transaction's effect: JSON pointer \<open>/data/nullifiers/0\<close>.\<close>

definition first_nullifier_of :: "hex_crate \<Rightarrow> json \<Rightarrow> fr option" where
  "first_nullifier_of H effect =
     Option.bind (Option.bind (Option.bind (Private_Oracle.js_pointer [''data'', ''nullifiers''] effect)
       (\<lambda>v. or_else_opt (js_index 0 v) (js_field ''0'' v))) js_str) (\<lambda>s. result_ok (fr_from_hex H s))"

definition wait_for_world_state :: "'w base_wallet \<Rightarrow> tx_hash \<Rightarrow> nat \<Rightarrow> ('w, unit) run" where
  "wait_for_world_state self h fuel w =
     (let N = bw_node self in
      case na_get_tx_effect N h w of
        (Inr (Some effect), w1) \<Rightarrow>
          (case first_nullifier_of (bw_hex self) effect of
             None \<Rightarrow> Some (Inr (), na_sleep N 1000 w1)
           | Some nullifier \<Rightarrow>
               poll N 0 200 (na_now N w1 + 15000)
                 (\<lambda>v. case na_get_nullifier_membership_witness N 0 nullifier v of
                    (Inr (Some _), v') \<Rightarrow> (Finish (Inr ()), v')
                  | (_, v') \<Rightarrow> (Again (Inr ()), v')) fuel w1)
      | (_, w1) \<Rightarrow> Some (Inr (), na_sleep N 1000 w1))"

text \<open>Waiting for any later block, when the transaction itself did not show up in time. The receipts asked
  for meanwhile are only logged.\<close>

definition wait_for_next_block :: "'w base_wallet \<Rightarrow> tx_hash \<Rightarrow> u64 \<Rightarrow> nat \<Rightarrow> ('w, unit) run" where
  "wait_for_next_block self h start_block fuel w =
     (let N = bw_node self in
      poll N 0 500 (na_now N w + 30000)
        (\<lambda>v. case na_get_block_number N (snd (na_get_tx_receipt N h v)) of
           (Inl e, v') \<Rightarrow> (Finish (Inl e), v')
         | (Inr current_block, v') \<Rightarrow>
             (if current_block > start_block then Finish (Inr ())
              else Again (Inl (Timeout ''transaction was submitted but did not become checkpoint-visible'')), v')) fuel w)"

definition wait_for_submission_checkpoint :: "'w base_wallet \<Rightarrow> tx_hash \<Rightarrow> nat \<Rightarrow> ('w, unit) run" where
  "wait_for_submission_checkpoint self h fuel w =
     (let N = bw_node self;
          (start, w1) = na_get_block_number N w;
          start_block = (case start of Inr b \<Rightarrow> b | Inl _ \<Rightarrow> 0)
      in case wait_for_tx N h (wait_opts_default\<lparr>wo_timeout := 15000\<rparr>) fuel w1 of
           None \<Rightarrow> None
         | Some (Inr _, w2) \<Rightarrow> wait_for_world_state self h fuel w2
         | Some (Inl (Timeout _), w2) \<Rightarrow>
             and_then (wait_for_next_block self h start_block fuel) (\<lambda>_. wait_for_world_state self h fuel) w2
         | Some (Inl (InvalidData _), w2) \<Rightarrow>
             and_then (wait_for_next_block self h start_block fuel) (\<lambda>_. wait_for_world_state self h fuel) w2
         | Some (Inl e, w2) \<Rightarrow> Some (Inl e, w2))"

definition is_anchor_header_validation_lag :: "tx_validation_result \<Rightarrow> bool" where
  "is_anchor_header_validation_lag result =
     (case result of Invalid reasons \<Rightarrow> list_ex (contains ''Block header not found'') reasons | _ \<Rightarrow> False)"

definition validate_tx_when_anchor_available :: "'w base_wallet \<Rightarrow> json \<Rightarrow> nat \<Rightarrow> ('w, tx_validation_result) run" where
  "validate_tx_when_anchor_available self tx_json fuel w =
     (let N = bw_node self in
      poll N 0 500 (na_now N w + 300000)
        (\<lambda>v. case na_is_valid_tx N tx_json v of
           (Inl e, v') \<Rightarrow> (Finish (Inl e), v')
         | (Inr result, v') \<Rightarrow>
             (if is_anchor_header_validation_lag result then Again (Inr result) else Finish (Inr result), v')) fuel w)"

text \<open>The contract and its class have to be seen twice, two seconds apart.\<close>

definition contract_visible :: "'w base_wallet \<Rightarrow> aztec_address \<Rightarrow> ('w, bool) op" where
  "contract_visible self address =
     seq (na_get_contract (bw_node self) address) (\<lambda>found.
       case found of
         None \<Rightarrow> ret False
       | Some contract \<Rightarrow>
           seq (na_get_contract_class (bw_node self) (in_current_contract_class_id (iwa_inner contract)))
             (\<lambda>contract_class. ret (contract_class \<noteq> None)))"

definition wallet_wait_for_contract :: "'w base_wallet \<Rightarrow> aztec_address \<Rightarrow> nat \<Rightarrow> ('w, unit) run" where
  "wallet_wait_for_contract self address fuel w =
     (let N = bw_node self;
          once = seq (contract_visible self address) (\<lambda>seen.
            if seen then seq (\<lambda>v. (Inr (), na_sleep N 2000 v)) (\<lambda>_. contract_visible self address)
            else ret False)
      in poll N 0 250 (na_now N w + 30000)
           (\<lambda>v. case once v of
              (Inl e, v') \<Rightarrow> (Finish (Inl e), v')
            | (Inr seen, v') \<Rightarrow>
                (if seen then Finish (Inr ()) else Again (Inl (Timeout ''contract did not become node-visible'')), v'))
           fuel w)"

definition wallet_wait_for_tx_proven :: "'w base_wallet \<Rightarrow> tx_hash \<Rightarrow> nat \<Rightarrow> ('w, unit) run" where
  "wallet_wait_for_tx_proven self h fuel =
     and_then (wait_for_tx (bw_node self) h
       (wait_opts_default\<lparr>wo_wait_for_status := Proven, wo_timeout := 60000, wo_interval := 500\<rparr>) fuel)
       (\<lambda>_. yields (Inr ()))"

subsection \<open>Preflight of the public calls\<close>

definition wallet_simulate_public_calls :: "'w base_wallet \<Rightarrow> tx_hash \<Rightarrow> json \<Rightarrow> ('w, json) op" where
  "wallet_simulate_public_calls self h tx_json =
     seq (na_simulate_public_calls (bw_node self) tx_json False) (\<lambda>simulation.
       case js_field ''revertReason'' simulation of
         None \<Rightarrow> ret simulation
       | Some JsNull \<Rightarrow> ret simulation
       | Some revert_reason \<Rightarrow>
           seq (decode_public_assertion_message self revert_reason) (\<lambda>decoded.
             fail (InvalidData (''node public-call preflight for tx '' @ tx_hash_display (bw_hex self) h @
               '' reverted: '' @ (case decoded of Some message \<Rightarrow> message @ '' '' | None \<Rightarrow> []) @
               ''reason='' @ bw_display self revert_reason @ '' debugLogs='' @
               bw_display self (case js_field ''debugLogs'' simulation of Some logs \<Rightarrow> logs | None \<Rightarrow> JsNull)))))"

definition should_ignore_public_preflight_error :: "error \<Rightarrow> bool" where
  "should_ignore_public_preflight_error e =
     (case e of InvalidData msg \<Rightarrow> contains ''is not deployed'' msg | _ \<Rightarrow> False)"

subsection \<open>Chain, accounts and registration\<close>

definition wallet_get_chain_info :: "'w base_wallet \<Rightarrow> ('w, chain_info) op" where
  "wallet_get_chain_info self =
     seq (na_get_node_info (bw_node self)) (\<lambda>info.
       ret \<lparr>ci_chain_id = fr_from_u64 (ni_l1_chain_id info), ci_version = fr_from_u64 (ni_rollup_version info)\<rparr>)"

definition wallet_get_accounts :: "'w base_wallet \<Rightarrow> ('w, (string \<times> aztec_address) list) op" where
  "wallet_get_accounts self = ap_get_accounts (bw_accounts self)"

definition wallet_get_address_book :: "'w base_wallet \<Rightarrow> ('w, (string \<times> aztec_address) list) op" where
  "wallet_get_address_book self = seq (pa_get_senders (bw_pxe self)) (\<lambda>senders. ret (map (Pair []) senders))"

definition wallet_register_sender :: "'w base_wallet \<Rightarrow> aztec_address \<Rightarrow> string option \<Rightarrow> ('w, aztec_address) op" where
  "wallet_register_sender self address alias_name = pa_register_sender (bw_pxe self) address"

definition wallet_get_contract_metadata :: "'w base_wallet \<Rightarrow> aztec_address \<Rightarrow> ('w, contract_metadata) op" where
  "wallet_get_contract_metadata self address =
     seq (pa_get_contract_instance (bw_pxe self) address) (\<lambda>inst.
     seq (na_get_contract (bw_node self) address) (\<lambda>on_chain.
       let is_published = on_chain \<noteq> None;
           is_updated = (case on_chain of
             Some c \<Rightarrow> in_current_contract_class_id (iwa_inner c) \<noteq> in_original_contract_class_id (iwa_inner c)
           | None \<Rightarrow> False)
       in ret \<lparr>cm_instance = inst, cm_is_contract_initialized = is_published, cm_is_contract_published = is_published,
            cm_is_contract_updated = is_updated,
            cm_updated_contract_class_id = Option.bind on_chain (\<lambda>c.
              if is_updated then Some (in_current_contract_class_id (iwa_inner c)) else None)\<rparr>))"

definition wallet_get_contract_class_metadata :: "'w base_wallet \<Rightarrow> fr \<Rightarrow> ('w, contract_class_metadata) op" where
  "wallet_get_contract_class_metadata self class_id =
     seq (pa_get_contract_artifact (bw_pxe self) class_id) (\<lambda>artifact.
     seq (na_get_contract_class (bw_node self) class_id) (\<lambda>on_chain.
       ret \<lparr>cc_is_artifact_registered = (artifact \<noteq> None),
            cc_is_contract_class_publicly_registered = (on_chain \<noteq> None)\<rparr>))"

text \<open>The artifact to register an unknown contract with: the one given, or the one the PXE has for the class.\<close>

definition artifact_to_register ::
    "'w base_wallet \<Rightarrow> contract_instance_with_address \<Rightarrow> contract_artifact option \<Rightarrow> ('w, contract_artifact) op" where
  "artifact_to_register self inst artifact =
     (case artifact of
        Some a \<Rightarrow> ret a
      | None \<Rightarrow>
          seq (pa_get_contract_artifact (bw_pxe self) (in_current_contract_class_id (iwa_inner inst))) (\<lambda>found.
            lift_result (ok_or (InvalidData ''cannot register contract without an artifact'') found)))"

definition wallet_register_contract ::
    "'w base_wallet \<Rightarrow> contract_instance_with_address \<Rightarrow> contract_artifact option \<Rightarrow> fr option \<Rightarrow>
     ('w, contract_instance_with_address) op" where
  "wallet_register_contract self inst artifact secret_key =
     seq (pa_get_contract_instance (bw_pxe self) (iwa_address inst)) (\<lambda>existing_instance.
     seq (case (existing_instance, artifact) of
            (Some existing, Some a) \<Rightarrow>
              if in_current_contract_class_id (iwa_inner existing) \<noteq> in_current_contract_class_id (iwa_inner inst)
              then pa_update_contract (bw_pxe self) (iwa_address inst) a
              else ret ()
          | (Some _, None) \<Rightarrow> ret ()
          | (None, _) \<Rightarrow>
              seq (artifact_to_register self inst artifact) (\<lambda>a.
                pa_register_contract (bw_pxe self) \<lparr>rq_instance = inst, rq_artifact = Some a\<rparr>)) (\<lambda>_.
     seq (case secret_key of
            None \<Rightarrow> ret ()
          | Some sk \<Rightarrow>
              seq (ap_get_complete_address (bw_accounts self) (iwa_address inst)) (\<lambda>found.
              seq (lift_result (ok_or (InvalidData ''cannot register account: account provider does not expose its complete address'')
                found)) (\<lambda>complete.
              seq (pa_register_account (bw_pxe self) sk (co_partial_address complete)) (\<lambda>_. ret ())))) (\<lambda>_.
       ret inst)))"

definition wallet_create_auth_wit ::
    "'w base_wallet \<Rightarrow> aztec_address \<Rightarrow> message_hash_or_intent \<Rightarrow> ('w, auth_witness) op" where
  "wallet_create_auth_wit self from intent =
     seq (wallet_get_chain_info self) (ap_create_auth_wit (bw_accounts self) from intent)"

definition wallet_get_public_storage_at :: "'w base_wallet \<Rightarrow> aztec_address \<Rightarrow> fr \<Rightarrow> ('w, fr) op" where
  "wallet_get_public_storage_at self contract slot = na_get_public_storage_at (bw_node self) 0 contract slot"

subsection \<open>Transactions\<close>

definition to_tx :: "tx_proving_result \<Rightarrow> tx" where
  "to_tx p =
     \<lparr>tx_data = tp_public_inputs p, tx_chonk_proof = tp_chonk_proof p,
      tx_contract_class_log_fields = tp_contract_class_log_fields p,
      tx_public_function_calldata = tp_public_function_calldata p\<rparr>"

text \<open>The payload the account signs.\<close>

definition send_payload :: "execution_payload \<Rightarrow> send_options \<Rightarrow> execution_payload" where
  "send_payload exec opts =
     append_fee_payload (sn_fee_execution_payload opts)
       (merge_execution_payload exec (sn_auth_witnesses opts) (sn_capsules opts))"

definition simulate_payload :: "execution_payload \<Rightarrow> simulate_options \<Rightarrow> execution_payload" where
  "simulate_payload exec opts =
     append_fee_payload (so_fee_execution_payload opts)
       (merge_execution_payload exec (so_auth_witnesses opts) (so_capsules opts))"

definition settings_or_default :: "gas_settings option \<Rightarrow> gas_settings" where
  "settings_or_default s = (case s of Some g \<Rightarrow> g | None \<Rightarrow> gas_settings_default)"

definition gas_of_json :: "json \<Rightarrow> gas" where
  "gas_of_json g =
     \<lparr>da_gas = Nargo_Artifact.unwrap_or 0 (Option.bind (js_field ''daGas'' g) js_u64),
      l2_gas = Nargo_Artifact.unwrap_or 0 (Option.bind (js_field ''l2Gas'' g) js_u64)\<rparr>"

text \<open>What the simulation of the public calls changes in the result of the private simulation.\<close>

definition with_public_simulation :: "json \<Rightarrow> tx_simulation_result \<Rightarrow> tx_simulation_result" where
  "with_public_simulation simulation result =
     \<lparr>sr_return_values =
        (if has_no_private_return_values (sr_return_values result)
         then Nargo_Artifact.unwrap_or (sr_return_values result) (js_field ''publicReturnValues'' simulation)
         else sr_return_values result),
      sr_gas_used =
        (case Option.bind (js_field ''gasUsed'' simulation) (js_field ''totalGas'') of
           Some total_gas \<Rightarrow> Some (gas_of_json total_gas) | None \<Rightarrow> sr_gas_used result)\<rparr>"

definition simulated_tx_hash :: "tx_proving_result \<Rightarrow> tx_hash result" where
  "simulated_tx_hash proven = ok_or (InvalidData ''PXE prove_tx result did not include a tx hash'') (tp_tx_hash proven)"

definition wallet_simulate_tx ::
    "'w base_wallet \<Rightarrow> execution_payload \<Rightarrow> simulate_options \<Rightarrow> ('w, tx_simulation_result) run" where
  "wallet_simulate_tx self exec opts =
     and_then (run_op (wallet_get_chain_info self)) (\<lambda>chain_info.
     and_then (run_op (ap_create_tx_execution_request (bw_accounts self) (so_from opts) (simulate_payload exec opts)
       (settings_or_default (so_gas_settings opts)) chain_info None None)) (\<lambda>tx_request.
     let scopes = build_scopes (so_from opts) (so_additional_scopes opts) in
     and_then (pa_simulate_tx (bw_pxe self) tx_request
       \<lparr>st_simulate_public = True, st_skip_tx_validation = so_skip_validation opts,
        st_skip_fee_enforcement = so_skip_fee_enforcement opts, st_overrides = None, st_scopes = scopes\<rparr>) (\<lambda>data.
     let result = \<lparr>sr_return_values = data, sr_gas_used = map_option gas_of_json (js_field ''gasUsed'' data)\<rparr> in
     and_then (pa_prove_tx (bw_pxe self) tx_request scopes) (\<lambda>proven.
       if tx_public_function_calldata (to_tx proven) = [] then yields (Inr result)
       else
         and_then (yields (simulated_tx_hash proven)) (\<lambda>h.
         and_then (yields (bw_tx_json self (to_tx proven))) (\<lambda>tx_json.
         and_then (run_op (wallet_simulate_public_calls self h tx_json)) (\<lambda>simulation.
           yields (Inr (with_public_simulation simulation result)))))))))"

definition wallet_execute_utility ::
    "'w base_wallet \<Rightarrow> function_call \<Rightarrow> execute_utility_options \<Rightarrow> ('w, json \<times> json option) run" where
  "wallet_execute_utility self call opts =
     and_then (pa_execute_utility (bw_pxe self) call \<lparr>ut_authwits = eu_auth_witnesses opts, ut_scopes = [eu_scope opts]\<rparr>)
       (\<lambda>(fields, stats). yields (Inr (JsArray (map (fr_json (bw_hex self)) fields), stats)))"

definition wallet_profile_tx ::
    "'w base_wallet \<Rightarrow> execution_payload \<Rightarrow> profile_options \<Rightarrow> ('w, tx_profile_result) run" where
  "wallet_profile_tx self exec opts =
     and_then (run_op (wallet_get_chain_info self)) (\<lambda>chain_info.
     and_then (run_op (ap_create_tx_execution_request (bw_accounts self) (pp_from opts)
       (merge_execution_payload exec (pp_auth_witnesses opts) (pp_capsules opts))
       (settings_or_default (pp_gas_settings opts)) chain_info None None)) (\<lambda>tx_request.
     and_then (pa_profile_tx (bw_pxe self) tx_request
       \<lparr>pt_profile_mode = Nargo_Artifact.unwrap_or ProfileFull (pp_profile_mode opts),
        pt_skip_proof_generation = pp_skip_proof_generation opts,
        pt_scopes = build_scopes (pp_from opts) (pp_additional_scopes opts)\<rparr>) (\<lambda>data.
       yields (Inr \<lparr>tr_return_values = data, tr_gas_used = None, tr_profile_data = data\<rparr>))))"

text \<open>Proving and checking a transaction, up to the JSON that is submitted.\<close>

definition preflight :: "'w base_wallet \<Rightarrow> tx_hash \<Rightarrow> tx \<Rightarrow> json \<Rightarrow> ('w, unit) op" where
  "preflight self h t tx_json w =
     (if tx_public_function_calldata t = [] then (Inr (), w)
      else case wallet_simulate_public_calls self h tx_json w of
             (Inr _, w') \<Rightarrow> (Inr (), w')
           | (Inl e, w') \<Rightarrow> (if should_ignore_public_preflight_error e then Inr () else Inl e, w'))"

definition proven_tx ::
    "'w base_wallet \<Rightarrow> json \<Rightarrow> aztec_address list \<Rightarrow> ('w, tx_hash \<times> json) run" where
  "proven_tx self tx_request scopes =
     and_then (pa_prove_tx (bw_pxe self) tx_request scopes) (\<lambda>proven.
     and_then (yields (simulated_tx_hash proven)) (\<lambda>h.
     and_then (yields (bw_tx_json self (to_tx proven))) (\<lambda>tx_json.
     and_then (run_op (preflight self h (to_tx proven) tx_json)) (\<lambda>_. yields (Inr (h, tx_json))))))"

fun check_validation :: "tx_validation_result \<Rightarrow> unit result" where
  "check_validation Valid = Inr ()"
| "check_validation (Invalid reasons) =
     Inl (InvalidData (''node rejected tx during preflight validation: '' @ join '', '' reasons))"
| "check_validation (Skipped reasons) = Inr ()"

definition wallet_send_tx ::
    "'w base_wallet \<Rightarrow> nat \<Rightarrow> execution_payload \<Rightarrow> send_options \<Rightarrow> ('w, tx_hash) run" where
  "wallet_send_tx self fuel exec opts =
     (let exec' = send_payload exec opts in
      and_then (run_op (wallet_get_chain_info self)) (\<lambda>chain_info.
      and_then (run_op (ap_create_tx_execution_request (bw_accounts self) (sn_from opts) exec'
        (settings_or_default (sn_gas_settings opts)) chain_info (ep_fee_payer exec')
        (map_option (\<lambda>_. 2) (sn_fee_execution_payload opts)))) (\<lambda>tx_request.
      and_then (proven_tx self tx_request (build_scopes (sn_from opts) (sn_additional_scopes opts))) (\<lambda>(h, tx_json).
      and_then (validate_tx_when_anchor_available self tx_json fuel) (\<lambda>validation.
      and_then (yields (check_validation validation)) (\<lambda>_.
      and_then (run_op (na_send_tx (bw_node self) tx_json)) (\<lambda>_.
      and_then (wait_for_submission_checkpoint self h fuel) (\<lambda>_. yields (Inr h)))))))))"

subsection \<open>Private events\<close>

definition pxe_event_filter :: "wallet_event_filter \<Rightarrow> pxe_log_id private_event_filter" where
  "pxe_event_filter f =
     \<lparr>pf_contract_address = wf_contract_address f, pf_tx_hash = wf_tx_hash f, pf_from_block = wf_from_block f,
      pf_to_block = wf_to_block f,
      pf_after_log = map_option (\<lambda>l. \<lparr>xl_block_number = li_block_number l, xl_block_hash = replicate 32 0,
        xl_tx_hash = TxHash (replicate 32 0), xl_tx_index = 0, xl_log_index = li_log_index l\<rparr>) (wf_after_log f),
      pf_scopes = wf_scopes f\<rparr>"

definition resolve_event_field_names :: "event_metadata_definition \<Rightarrow> string list" where
  "resolve_event_field_names em =
     (if em_field_names em \<noteq> [] then em_field_names em
      else case em_abi_type em of TStruct path flds \<Rightarrow> map param_name flds | _ \<Rightarrow> [])"

text \<open>\<open>serde_json::Map\<close>: inserting a known key replaces its value; the keys are sorted.\<close>

definition decode_event :: "hex_crate \<Rightarrow> string list \<Rightarrow> packed_private_event \<Rightarrow> private_event" where
  "decode_event H field_names pe =
     \<lparr>pv_event = JsObject (fold (\<lambda>(name, field). btree_insert name (fr_json H field))
        (zip field_names (pe_packed_event pe)) []),
      pv_metadata = \<lparr>pm_tx_hash = pe_tx_hash pe, pm_block_number = Some (pe_l2_block_number pe), pm_log_index = None\<rparr>\<rparr>"

definition decode_private_events :: "hex_crate \<Rightarrow> packed_private_event list \<Rightarrow> event_metadata_definition \<Rightarrow> private_event list" where
  "decode_private_events H packed em = map (decode_event H (resolve_event_field_names em)) packed"

definition wallet_get_private_events ::
    "'w base_wallet \<Rightarrow> event_metadata_definition \<Rightarrow> wallet_event_filter \<Rightarrow> ('w, private_event list) run" where
  "wallet_get_private_events self em filt =
     and_then (pa_get_private_events (bw_pxe self) (em_event_selector em) (pxe_event_filter filt)) (\<lambda>packed.
       yields (Inr (decode_private_events (bw_hex self) packed em)))"

end
