(* ===== verification/Contract_Interaction.thy ===== *)
theory Contract_Interaction
  imports Base_Wallet
begin

text \<open>
  Calling contracts through a wallet: handles and interactions (\<open>crates/contract/src/contract.rs\<close>),
  authorization witnesses (\<open>authwit.rs\<close>) and public events (\<open>events.rs\<close>).

  The wallet is a record of operations; \<open>base_wallet_api\<close> is the wallet of this development.
\<close>

subsection \<open>The wallet as an interface\<close>

record 'w wallet_api =
  wl_get_chain_info :: "('w, chain_info) op"
  wl_register_contract :: "contract_instance_with_address \<Rightarrow> contract_artifact option \<Rightarrow> fr option \<Rightarrow>
    ('w, contract_instance_with_address) op"
  wl_get_contract_class_metadata :: "fr \<Rightarrow> ('w, contract_class_metadata) op"
  wl_simulate_tx :: "execution_payload \<Rightarrow> simulate_options \<Rightarrow> ('w, tx_simulation_result) run"
  wl_profile_tx :: "execution_payload \<Rightarrow> profile_options \<Rightarrow> ('w, tx_profile_result) run"
  wl_send_tx :: "execution_payload \<Rightarrow> send_options \<Rightarrow> ('w, tx_hash) run"
  wl_execute_utility :: "function_call \<Rightarrow> execute_utility_options \<Rightarrow> ('w, json \<times> json option) run"
  wl_wait_for_contract :: "aztec_address \<Rightarrow> ('w, unit) run"
  wl_get_public_storage_at :: "aztec_address \<Rightarrow> fr \<Rightarrow> ('w, fr) op"

definition base_wallet_api :: "'w base_wallet \<Rightarrow> nat \<Rightarrow> 'w wallet_api" where
  "base_wallet_api self fuel =
     \<lparr>wl_get_chain_info = wallet_get_chain_info self,
      wl_register_contract = wallet_register_contract self,
      wl_get_contract_class_metadata = wallet_get_contract_class_metadata self,
      wl_simulate_tx = wallet_simulate_tx self,
      wl_profile_tx = wallet_profile_tx self,
      wl_send_tx = wallet_send_tx self fuel,
      wl_execute_utility = wallet_execute_utility self,
      wl_wait_for_contract = (\<lambda>a. wallet_wait_for_contract self a fuel),
      wl_get_public_storage_at = wallet_get_public_storage_at self\<rparr>"

subsection \<open>Interactions\<close>

record interaction =
  ix_call :: function_call
  ix_capsules :: "capsule list"
  ix_auth_witnesses :: "auth_witness list"
  ix_extra_hashed_args :: "hashed_values list"

definition interaction_new :: "function_call \<Rightarrow> interaction" where
  "interaction_new call = \<lparr>ix_call = call, ix_capsules = [], ix_auth_witnesses = [], ix_extra_hashed_args = []\<rparr>"

definition interaction_new_with_capsules :: "function_call \<Rightarrow> capsule list \<Rightarrow> interaction" where
  "interaction_new_with_capsules call capsules =
     \<lparr>ix_call = call, ix_capsules = capsules, ix_auth_witnesses = [], ix_extra_hashed_args = []\<rparr>"

definition interaction_with :: "auth_witness list \<Rightarrow> capsule list \<Rightarrow> interaction \<Rightarrow> interaction" where
  "interaction_with auth_witnesses capsules self =
     self\<lparr>ix_auth_witnesses := ix_auth_witnesses self @ auth_witnesses, ix_capsules := ix_capsules self @ capsules\<rparr>"

definition interaction_request :: "interaction \<Rightarrow> execution_payload" where
  "interaction_request self =
     execution_payload_default
       \<lparr>ep_calls := [ix_call self], ep_capsules := ix_capsules self, ep_auth_witnesses := ix_auth_witnesses self,
        ep_extra_hashed_args := ix_extra_hashed_args self\<rparr>"

text \<open>A call of a function of the contract, by name.\<close>

definition contract_method ::
    "aztec_address \<Rightarrow> contract_artifact \<Rightarrow> string \<Rightarrow> abi_value list \<Rightarrow> interaction result" where
  "contract_method address artifact name args =
     bind_result (find_function artifact name) (\<lambda>func.
     if length args \<noteq> length (fa_parameters func)
     then Inl (Abi ''function expects another number of arguments'')
     else
     bind_result (ok_or (Abi ''function in artifact has no selector'') (fa_selector func)) (\<lambda>selector.
     bind_result (encode_arguments func args) (\<lambda>encoded_args.
       Inr (interaction_new
         \<lparr>fc_to = address, fc_selector = selector, fc_args = map VField encoded_args,
          fc_function_type = fa_function_type func, fc_is_static = fa_is_static func,
          fc_hide_msg_sender = False\<rparr>))))"

definition merge_fee_payload :: "execution_payload \<Rightarrow> execution_payload option \<Rightarrow> execution_payload" where
  "merge_fee_payload payload fee = append_fee_payload fee payload"

definition interaction_simulate ::
    "'w wallet_api \<Rightarrow> interaction \<Rightarrow> simulate_options \<Rightarrow> ('w, tx_simulation_result) run" where
  "interaction_simulate W self opts =
     wl_simulate_tx W (merge_fee_payload (interaction_request self) (so_fee_execution_payload opts)) opts"

definition interaction_profile ::
    "'w wallet_api \<Rightarrow> interaction \<Rightarrow> profile_options \<Rightarrow> ('w, tx_profile_result) run" where
  "interaction_profile W self opts =
     wl_profile_tx W (merge_fee_payload (interaction_request self) (pp_fee_execution_payload opts)) opts"

definition interaction_send :: "'w wallet_api \<Rightarrow> interaction \<Rightarrow> send_options \<Rightarrow> ('w, tx_hash) run" where
  "interaction_send W self opts =
     wl_send_tx W (merge_fee_payload (interaction_request self) (sn_fee_execution_payload opts)) opts"

subsection \<open>Batches\<close>

definition batch_add :: "execution_payload \<Rightarrow> execution_payload \<Rightarrow> execution_payload" where
  "batch_add payload merged =
     \<lparr>ep_calls = ep_calls merged @ ep_calls payload,
      ep_auth_witnesses = ep_auth_witnesses merged @ ep_auth_witnesses payload,
      ep_capsules = ep_capsules merged @ ep_capsules payload,
      ep_extra_hashed_args = ep_extra_hashed_args merged @ ep_extra_hashed_args payload,
      ep_fee_payer = (if ep_fee_payer payload \<noteq> None then ep_fee_payer payload else ep_fee_payer merged)\<rparr>"

definition batch_request :: "execution_payload list \<Rightarrow> execution_payload" where
  "batch_request payloads = fold batch_add payloads execution_payload_default"

definition batch_simulate ::
    "'w wallet_api \<Rightarrow> execution_payload list \<Rightarrow> simulate_options \<Rightarrow> ('w, tx_simulation_result) run" where
  "batch_simulate W payloads opts =
     wl_simulate_tx W (merge_fee_payload (batch_request payloads) (so_fee_execution_payload opts)) opts"

definition batch_profile ::
    "'w wallet_api \<Rightarrow> execution_payload list \<Rightarrow> profile_options \<Rightarrow> ('w, tx_profile_result) run" where
  "batch_profile W payloads opts =
     wl_profile_tx W (merge_fee_payload (batch_request payloads) (pp_fee_execution_payload opts)) opts"

definition batch_send :: "'w wallet_api \<Rightarrow> execution_payload list \<Rightarrow> send_options \<Rightarrow> ('w, tx_hash) run" where
  "batch_send W payloads opts =
     wl_send_tx W (merge_fee_payload (batch_request payloads) (sn_fee_execution_payload opts)) opts"

subsection \<open>Public authorization witnesses\<close>

record set_public_authwit =
  sa_from :: aztec_address
  sa_call :: function_call

definition set_public_authwit_create ::
    "crypto \<Rightarrow> 'w wallet_api \<Rightarrow> aztec_address \<Rightarrow> message_hash_or_intent \<Rightarrow> bool \<Rightarrow> ('w, set_public_authwit) op" where
  "set_public_authwit_create C W from intent authorized =
     seq (wl_get_chain_info W) (\<lambda>chain.
       ret \<lparr>sa_from = from,
         sa_call = \<lparr>fc_to = auth_registry,
           fc_selector = function_selector_from_signature C ''set_authorized(Field,bool)'',
           fc_args = [VField (compute_auth_wit_message_hash C intent chain), VBoolean authorized],
           fc_function_type = Public, fc_is_static = False, fc_hide_msg_sender = False\<rparr>\<rparr>)"

definition set_public_authwit_request :: "set_public_authwit \<Rightarrow> execution_payload" where
  "set_public_authwit_request self = execution_payload_default\<lparr>ep_calls := [sa_call self]\<rparr>"

definition set_public_authwit_simulate ::
    "'w wallet_api \<Rightarrow> set_public_authwit \<Rightarrow> simulate_options \<Rightarrow> ('w, tx_simulation_result) run" where
  "set_public_authwit_simulate W self opts =
     wl_simulate_tx W (set_public_authwit_request self) (opts\<lparr>so_from := sa_from self\<rparr>)"

definition set_public_authwit_send ::
    "'w wallet_api \<Rightarrow> set_public_authwit \<Rightarrow> send_options \<Rightarrow> ('w, tx_hash) run" where
  "set_public_authwit_send W self opts =
     wl_send_tx W (set_public_authwit_request self) (opts\<lparr>sn_from := sa_from self\<rparr>)"

definition set_public_authwit_profile ::
    "'w wallet_api \<Rightarrow> set_public_authwit \<Rightarrow> profile_options \<Rightarrow> ('w, tx_profile_result) run" where
  "set_public_authwit_profile W self opts =
     wl_profile_tx W (set_public_authwit_request self) (opts\<lparr>pp_from := sa_from self\<rparr>)"

subsection \<open>Validity of authorization witnesses\<close>

fun parse_boolean_result :: "json \<Rightarrow> bool" where
  "parse_boolean_result (JsBool b) = b"
| "parse_boolean_result (JsNumber _ n) = (n = Some 1)"
| "parse_boolean_result (JsString s) = (s \<noteq> ''0x'' @ replicate 64 (CHR ''0'') \<and> s \<noteq> ''0'' \<and> s \<noteq> ''false'')"
| "parse_boolean_result (JsArray []) = False"
| "parse_boolean_result (JsArray (x # xs)) = parse_boolean_result x"
| "parse_boolean_result JsNull = False"
| "parse_boolean_result (JsObject m) = False"

definition check_private_validity ::
    "crypto \<Rightarrow> 'w wallet_api \<Rightarrow> aztec_address \<Rightarrow> aztec_address \<Rightarrow> fr \<Rightarrow> auth_witness \<Rightarrow> ('w, bool) run" where
  "check_private_validity C W on_behalf_of consumer inner_hash witness w =
     (case wl_execute_utility W
        \<lparr>fc_to = on_behalf_of, fc_selector = function_selector_from_signature C ''lookup_validity((Field),Field)'',
         fc_args = [VField (address_field consumer), VField inner_hash], fc_function_type = Utility,
         fc_is_static = True, fc_hide_msg_sender = False\<rparr>
        \<lparr>eu_scope = on_behalf_of, eu_auth_witnesses = [witness]\<rparr> w of
        None \<Rightarrow> None
      | Some (Inr (result, _), w') \<Rightarrow> Some (Inr (parse_boolean_result result), w')
      | Some (Inl _, w') \<Rightarrow> Some (Inr False, w'))"

definition MAP_SLOT_SEP :: u32 where "MAP_SLOT_SEP = 4015149901"

text \<open>The slot of an approved action in the public storage of the authorization registry.\<close>

definition approved_action_slot :: "crypto \<Rightarrow> aztec_address \<Rightarrow> fr \<Rightarrow> fr" where
  "approved_action_slot C on_behalf_of message_hash =
     poseidon2_hash_with_separator C
       [poseidon2_hash_with_separator C [2, address_field on_behalf_of] MAP_SLOT_SEP, message_hash] MAP_SLOT_SEP"

definition check_public_validity :: "crypto \<Rightarrow> 'w wallet_api \<Rightarrow> aztec_address \<Rightarrow> fr \<Rightarrow> ('w, bool) op" where
  "check_public_validity C W on_behalf_of message_hash w =
     (case wl_get_public_storage_at W auth_registry (approved_action_slot C on_behalf_of message_hash) w of
        (Inr value, w') \<Rightarrow> (Inr (value \<noteq> 0), w')
      | (Inl _, w') \<Rightarrow> (Inr False, w'))"

record auth_wit_validity =
  av_is_valid_in_private :: bool
  av_is_valid_in_public :: bool

definition lookup_validity ::
    "crypto \<Rightarrow> 'w wallet_api \<Rightarrow> aztec_address \<Rightarrow> message_hash_or_intent \<Rightarrow> auth_witness \<Rightarrow> ('w, auth_wit_validity) run" where
  "lookup_validity C W on_behalf_of intent witness =
     and_then (run_op (wl_get_chain_info W)) (\<lambda>chain.
     let check_both = (\<lambda>inner_hash consumer.
       and_then (check_private_validity C W on_behalf_of consumer inner_hash witness) (\<lambda>in_private.
       and_then (run_op (check_public_validity C W on_behalf_of (compute_auth_wit_message_hash C intent chain)))
         (\<lambda>in_public.
         yields (Inr \<lparr>av_is_valid_in_private = in_private, av_is_valid_in_public = in_public\<rparr>))))
     in case intent of
          Intent caller call \<Rightarrow> check_both (compute_inner_auth_wit_hash_from_action C caller call) (fc_to call)
        | InnerHash consumer inner_hash \<Rightarrow> check_both inner_hash consumer
        | Hash hash \<Rightarrow>
            and_then (run_op (check_public_validity C W on_behalf_of hash)) (\<lambda>in_public.
              yields (Inr \<lparr>av_is_valid_in_private = False, av_is_valid_in_public = in_public\<rparr>)))"

subsection \<open>Public events\<close>

record public_event_metadata =
  um_contract_address :: aztec_address
  um_tx_hash :: "tx_hash option"
  um_block_number :: u64
  um_log_index :: u64

record public_event =
  ue_event :: "(string \<times> fr) list"
  ue_metadata :: public_event_metadata

record public_event_filter =
  uf_tx_hash :: "tx_hash option"
  uf_from_block :: "u64 option"
  uf_to_block :: "u64 option"
  uf_contract_address :: "aztec_address option"
  uf_after_log :: "log_id option"

text \<open>The selector is the last field of a log; the names are those of the metadata, or of the structure.\<close>

definition event_field_names :: "event_metadata_definition \<Rightarrow> string list result" where
  "event_field_names em =
     (case em_abi_type em of
        TStruct path flds \<Rightarrow>
          if em_field_names em = [] then Inr (map param_name flds)
          else if length (em_field_names em) \<noteq> length flds
          then Inl (Abi ''event metadata field name count does not match abi struct field count'')
          else Inr (em_field_names em)
      | _ \<Rightarrow> Inr (em_field_names em))"

definition decode_log_fields :: "fr list \<Rightarrow> event_metadata_definition \<Rightarrow> (string \<times> fr) list result" where
  "decode_log_fields data em =
     (if data = [] then Inl (Abi ''log data is empty'')
      else if EventSelector (last data) \<noteq> em_event_selector em then Inl (Abi ''event selector mismatch'')
      else
        bind_result (event_field_names em) (\<lambda>names.
        let field_data = butlast data in
        if length field_data < length names then Inl (Abi ''not enough fields in log data'')
        else Inr (fold (\<lambda>(name, value). btree_insert name value) (zip names field_data) [])))"

definition decode_public_log :: "event_metadata_definition \<Rightarrow> public_log \<Rightarrow> public_event result" where
  "decode_public_log em log =
     bind_result (decode_log_fields (pl_data log) em) (\<lambda>decoded.
       Inr \<lparr>ue_event = decoded,
         ue_metadata = \<lparr>um_contract_address = pl_contract_address log, um_tx_hash = pl_tx_hash log,
           um_block_number = pl_block_number log, um_log_index = pl_log_index log\<rparr>\<rparr>)"

definition get_public_events ::
    "(public_log_filter \<Rightarrow> ('w, public_log list \<times> bool) op) \<Rightarrow> event_metadata_definition \<Rightarrow> public_event_filter \<Rightarrow>
     ('w, public_event list \<times> bool) op" where
  "get_public_events get_public_logs em filt =
     seq (get_public_logs
       \<lparr>lf_tx_hash = uf_tx_hash filt, lf_from_block = uf_from_block filt, lf_to_block = uf_to_block filt,
        lf_contract_address = uf_contract_address filt, lf_selector = None, lf_after_log = uf_after_log filt\<rparr>)
       (\<lambda>(logs, max_logs_hit).
     seq (lift_result (map_result (decode_public_log em)
       (filter (\<lambda>log. pl_data log \<noteq> [] \<and> EventSelector (last (pl_data log)) = em_event_selector em) logs)))
       (\<lambda>events. ret (events, max_logs_hit)))"

end
