(* ===== verification/Wallet_Properties.thy ===== *)
theory Wallet_Properties
  imports Contract_Interaction
begin

text \<open>
  What the wallet promises when it talks to a node: its waits end, it submits a transaction at most once and
  only when the node did not reject it, and a contract call that pays its own fee carries the fee calls twice.
\<close>

subsection \<open>Time\<close>

text \<open>The clock of the machine that runs the wallet.\<close>

definition clock_ok :: "'w node_api \<Rightarrow> bool" where
  "clock_ok N \<longleftrightarrow> sleeps N \<and> forward (na_now N) (na_get_node_info N) \<and> forward (na_now N) (na_get_block_number N) \<and>
     forward (na_now N) (na_get_proven_block_number N) \<and> (\<forall>h. forward (na_now N) (na_get_tx_receipt N h)) \<and>
     (\<forall>a. forward (na_now N) (na_get_contract N a)) \<and> (\<forall>c. forward (na_now N) (na_get_contract_class N c)) \<and>
     (\<forall>n f. forward (na_now N) (na_get_nullifier_membership_witness N n f)) \<and>
     (\<forall>t. forward (na_now N) (na_is_valid_tx N t))"

lemma forwardD: "forward now m \<Longrightarrow> m w = (r, w') \<Longrightarrow> now w \<le> now w'"
  by (metis forward_def snd_conv)

lemma sleepsD: "sleeps N \<Longrightarrow> na_now N w + d \<le> na_now N (na_sleep N d w)"
  by (simp add: sleeps_def)

lemma clock_okD:
  assumes "clock_ok N"
  shows "sleeps N" and "forward (na_now N) (na_get_node_info N)" and "forward (na_now N) (na_get_block_number N)"
    and "forward (na_now N) (na_get_proven_block_number N)" and "forward (na_now N) (na_get_tx_receipt N h)"
    and "forward (na_now N) (na_get_contract N a)" and "forward (na_now N) (na_get_contract_class N c)"
    and "forward (na_now N) (na_get_nullifier_membership_witness N n f)" and "forward (na_now N) (na_is_valid_tx N t)"
  using assms by (simp_all add: clock_ok_def)

lemma forward_same:
  assumes "forward now m" and "\<And>w. snd (step w) = snd (m w)"
  shows "forward now step"
  using assms by (simp add: forward_def)

subsection \<open>Loops that return\<close>

definition returns :: "('w, 'a) run \<Rightarrow> bool" where
  "returns m \<longleftrightarrow> (\<forall>w. \<exists>r w'. m w = Some (r, w'))"

named_theorems returns_intros \<open>computations that return\<close>

lemma returns_basic [returns_intros]:
  "returns (yields r)"
  "returns (run_op m)"
  by (simp_all add: returns_def yields_def run_op_def)

lemma returns_and_then [returns_intros]:
  assumes "returns m" and "\<And>x. returns (f x)"
  shows "returns (and_then m f)"
  unfolding returns_def
proof
  fix w
  obtain r w' where "m w = Some (r, w')" using assms(1) unfolding returns_def by blast
  then show "\<exists>r w'. and_then m f w = Some (r, w')"
    using assms(2) by (cases r) (auto simp: and_then_def returns_def)
qed

lemma returns_poll:
  assumes "sleeps N" and "\<And>w. forward (na_now N) (step w)" and "timeout \<le> n * interval"
  shows "returns (\<lambda>w. poll N slack interval (na_now N w + timeout) (step w) (Suc n) w)"
  unfolding returns_def using assms by (intro allI poll_returns) auto

lemma wait_for_tx_returns:
  assumes "clock_ok N" and "wo_timeout opts \<le> n * wo_interval opts"
  shows "returns (wait_for_tx N h opts (Suc n))"
  unfolding wait_for_tx_def Let_def
  by (rule returns_poll[OF clock_okD(1)[OF assms(1)] _ assms(2)], rule forward_same[OF clock_okD(5)[OF assms(1), of h]])
    (auto split: prod.splits sum.splits)

lemma wait_for_node_returns:
  assumes "clock_ok N" and "timeout \<le> n * interval"
  shows "returns (wait_for_node_opts N timeout interval (Suc n))"
  unfolding wait_for_node_opts_def
  by (rule returns_poll[OF clock_okD(1)[OF assms(1)] _ assms(2)], rule forward_same[OF clock_okD(2)[OF assms(1)]])
    (auto split: prod.splits sum.splits)

lemma wait_for_proven_returns:
  assumes "clock_ok N" and "wp_proven_timeout opts \<le> n * wp_interval opts"
  shows "returns (wait_for_proven N receipt opts (Suc n))"
proof (cases "rc_block_number receipt")
  case None
  then show ?thesis by (simp add: wait_for_proven_def returns_def)
next
  case (Some b)
  show ?thesis
    unfolding wait_for_proven_def Some option.case
    by (rule returns_poll[OF clock_okD(1)[OF assms(1)] _ assms(2)], rule forward_same[OF clock_okD(4)[OF assms(1)]])
      (auto split: prod.splits sum.splits)
qed

lemma validate_returns:
  assumes "clock_ok (bw_node self)" and "600 \<le> n"
  shows "returns (validate_tx_when_anchor_available self tx_json (Suc n))"
  unfolding validate_tx_when_anchor_available_def Let_def
  by (rule returns_poll[OF clock_okD(1)[OF assms(1)]], rule forward_same[OF clock_okD(9)[OF assms(1), of tx_json]])
    (use assms(2) in \<open>auto split: prod.splits sum.splits\<close>)

lemma forward_twice:
  assumes "forward now m" and "forward now m'" and "\<And>w. snd (step w) = snd (m' (snd (m w)))"
  shows "forward now step"
  using assms unfolding forward_def by (metis order_trans)

lemma wait_for_next_block_returns:
  assumes "clock_ok (bw_node self)" and "600 \<le> n"
  shows "returns (wait_for_next_block self h start_block (Suc n))"
  unfolding wait_for_next_block_def Let_def
  by (rule returns_poll[OF clock_okD(1)[OF assms(1)]],
      rule forward_twice[OF clock_okD(5)[OF assms(1), of h] clock_okD(3)[OF assms(1)]])
    (use assms(2) in \<open>auto split: prod.splits sum.splits\<close>)

lemma wait_for_world_state_returns:
  assumes "clock_ok (bw_node self)" and "600 \<le> n"
  shows "returns (wait_for_world_state self h (Suc n))"
proof -
  have "returns (\<lambda>w. poll (bw_node self) 0 200 (na_now (bw_node self) w + 15000)
      (\<lambda>v. case na_get_nullifier_membership_witness (bw_node self) 0 f v of
         (Inr (Some _), v') \<Rightarrow> (Finish (Inr ()), v') | (_, v') \<Rightarrow> (Again (Inr ()), v')) (Suc n) w)" for f
    by (rule returns_poll[OF clock_okD(1)[OF assms(1)]], rule forward_same[OF clock_okD(8)[OF assms(1), of 0 f]])
      (use assms(2) in \<open>auto split: prod.splits sum.splits option.splits\<close>)
  then show ?thesis
    unfolding wait_for_world_state_def Let_def returns_def
    by (auto split: prod.splits sum.splits option.splits)
qed

lemma wait_for_submission_returns:
  assumes "clock_ok (bw_node self)" and "600 \<le> n"
  shows "returns (wait_for_submission_checkpoint self h (Suc n))"
  unfolding returns_def
proof
  fix w
  let ?opts = "wait_opts_default\<lparr>wo_timeout := 15000\<rparr>"
  obtain start w1 where start: "na_get_block_number (bw_node self) w = (start, w1)" by fastforce
  have "returns (wait_for_tx (bw_node self) h ?opts (Suc n))"
    by (rule wait_for_tx_returns[OF assms(1)]) (use assms(2) in \<open>simp add: wait_opts_default_def\<close>)
  then obtain r w2 where tx: "wait_for_tx (bw_node self) h ?opts (Suc n) w1 = Some (r, w2)"
    unfolding returns_def by blast
  have world: "returns (wait_for_world_state self h (Suc n))" by (rule wait_for_world_state_returns[OF assms])
  have "returns (and_then (wait_for_next_block self h b (Suc n)) (\<lambda>_. wait_for_world_state self h (Suc n)))" for b
    by (intro returns_intros wait_for_next_block_returns[OF assms] world)
  then show "\<exists>r w'. wait_for_submission_checkpoint self h (Suc n) w = Some (r, w')"
    using world unfolding returns_def
    by (auto simp: wait_for_submission_checkpoint_def Let_def start tx split: sum.split error.split)
qed

lemma wallet_wait_for_contract_returns:
  assumes "clock_ok (bw_node self)" and "600 \<le> n"
  shows "returns (wallet_wait_for_contract self a (Suc n))"
proof -
  let ?N = "bw_node self"
  let ?nap = "\<lambda>v. (Inr (), na_sleep ?N 2000 v)"
  let ?once = "seq (contract_visible self a) (\<lambda>seen. if seen then seq ?nap (\<lambda>_. contract_visible self a) else ret False)"
  have visible: "forward (na_now ?N) (contract_visible self a)"
    unfolding contract_visible_def
    by (auto intro!: forward_intros clock_okD[OF assms(1)] split: option.split)
  have "forward (na_now ?N) ?nap"
    using sleepsD[OF clock_okD(1)[OF assms(1)]] by (auto simp: forward_def intro: add_leD1)
  then have "forward (na_now ?N) ?once" using visible by (auto intro!: forward_intros)
  then show ?thesis
    unfolding wallet_wait_for_contract_def Let_def
    by (intro returns_poll[OF clock_okD(1)[OF assms(1)]], elim forward_same)
      (use assms(2) in \<open>auto split: prod.splits sum.splits\<close>)
qed

subsection \<open>The HTTP node keeps time\<close>

lemma forward_exchange:
  assumes "\<And>j. forward now (rp_post T j)"
  shows "forward (\<lambda>(w, _). now w) (exchange T meth params)"
proof -
  have "forward now (send_json T j)" for j
    using assms unfolding forward_def send_json_def
    by (auto split: prod.splits sum.splits) (metis order_trans snd_conv)+
  then show ?thesis
    unfolding forward_def exchange_def by (auto split: prod.splits sum.splits) (metis snd_conv)+
qed

lemma forward_rpc:
  assumes "\<And>j. forward now (rp_post T j)"
  shows "forward (\<lambda>(w, _). now w) (rpc_call T dec meth params)"
    and "forward (\<lambda>(w, _). now w) (rpc_call_optional T dec meth params)"
  unfolding rpc_call_def rpc_call_optional_def using forward_exchange[OF assms]
  by (auto intro!: forward_intros split: option.split json.split)

lemma http_node_clock:
  assumes "\<And>j. forward now (rp_post (hc_transport self) j)" and "\<And>d w. now w + d \<le> now (sleep d w)"
  shows "clock_ok (http_node self now sleep)"
  unfolding clock_ok_def http_node_def
  by (auto simp: sleeps_def assms(2) http_get_node_info_def http_get_block_number_def
      http_get_proven_block_number_def http_get_tx_receipt_def http_get_contract_def http_get_contract_class_def
      http_get_nullifier_membership_witness_def http_is_valid_tx_def intro!: forward_rpc assms(1))

subsection \<open>The verdict on a transaction\<close>

text \<open>
  C39. Waiting for a transaction always ends with a verdict, and the verdict is right. Enough turns to cover
  the timeout are enough to return. A receipt that is returned is the last answer of the node, the
  transaction is not dropped, it reached the status asked for, and it did not revert unless the caller
  accepts that. A failure is a timeout, once no further turn fits before the deadline, or a rejection: the
  node's last receipt says the transaction is dropped, after the grace period, or that its execution
  reverted.
\<close>

theorem wait_for_tx_correct:
  assumes "clock_ok N" and "wo_timeout opts \<le> n * wo_interval opts"
  shows "\<exists>r w'. wait_for_tx N h opts (Suc n) w = Some (r, w') \<and>
    (case r of
       Inr receipt \<Rightarrow> (\<exists>v. na_get_tx_receipt N h v = (Inr receipt, w')) \<and> \<not> receipt_is_dropped receipt \<and>
         status_reached (rc_status receipt) (wo_wait_for_status opts) \<and>
         (has_execution_reverted receipt \<longrightarrow> wo_dont_throw_on_revert opts)
     | Inl (Timeout m) \<Rightarrow> na_now N w + wo_timeout opts \<le> na_now N w' + wo_interval opts
     | Inl (Reverted m) \<Rightarrow> (\<exists>v receipt. na_get_tx_receipt N h v = (Inr receipt, w') \<and>
         (receipt_is_dropped receipt \<and> wo_ignore_dropped_receipts_for opts \<le> na_now N w' - na_now N w \<or>
          has_execution_reverted receipt \<and> \<not> wo_dont_throw_on_revert opts))
     | Inl _ \<Rightarrow> False)"
proof -
  obtain r w' where r: "wait_for_tx N h opts (Suc n) w = Some (r, w')"
    using wait_for_tx_returns[OF assms, of h] unfolding returns_def by blast
  let ?step = "\<lambda>v. case na_get_tx_receipt N h v of
      (Inr x, v') \<Rightarrow> (judge_receipt opts (na_now N v' - na_now N w) x, v')
    | (Inl e, v') \<Rightarrow> (Again (Inl (Timeout ''timed out waiting for tx'')), v')"
  from poll_result[OF r[unfolded wait_for_tx_def Let_def]] obtain v where
    "?step v = (Finish r, w') \<or>
     ?step v = (Again r, w') \<and> na_now N w + wo_timeout opts \<le> na_now N w' + wo_interval opts" by blast
  then show ?thesis using r
    by (auto simp: judge_receipt_def split: prod.splits sum.splits if_splits) blast+
qed

subsection \<open>What a step leaves alone\<close>

text \<open>\<open>sent\<close> stands for what submitting a transaction changes.\<close>

definition leaves :: "('w \<Rightarrow> 'x) \<Rightarrow> ('w \<Rightarrow> 'r \<times> 'w) \<Rightarrow> bool" where
  "leaves sent m \<longleftrightarrow> (\<forall>w. sent (snd (m w)) = sent w)"

definition same :: "('w \<Rightarrow> 'x) \<Rightarrow> ('w, 'a) run \<Rightarrow> bool" where
  "same sent m \<longleftrightarrow> (\<forall>w r w'. m w = Some (r, w') \<longrightarrow> sent w' = sent w)"

named_theorems leaves_intros \<open>computations that leave an observation alone\<close>

lemma leaves_basic [leaves_intros]:
  "leaves sent (ret x)"
  "leaves sent (fail e)"
  "leaves sent (lift_result r)"
  by (simp_all add: leaves_def ret_def fail_def lift_result_def)

lemma leaves_seq [leaves_intros]:
  assumes "leaves sent m" and "\<And>x. leaves sent (f x)"
  shows "leaves sent (seq m f)"
  unfolding leaves_def
proof
  fix w
  obtain r w' where m: "m w = (r, w')" by fastforce
  then have "sent w' = sent w" using assms(1) by (metis leaves_def snd_conv)
  then show "sent (snd (seq m f w)) = sent w"
    using assms(2) m by (cases r) (auto simp: seq_def leaves_def)
qed

lemma leaves_attempt_some [leaves_intros]: "leaves sent m \<Longrightarrow> leaves sent (attempt_some m)"
  unfolding leaves_def attempt_some_def by (auto split: prod.splits sum.splits) (metis snd_conv)+

lemma leavesD: "leaves sent m \<Longrightarrow> m w = (r, w') \<Longrightarrow> sent w' = sent w"
  by (metis leaves_def snd_conv)

lemma same_run_op [leaves_intros]: "leaves sent m \<Longrightarrow> same sent (run_op m)"
  by (auto simp: same_def run_op_def dest: leavesD)

lemma same_yields [leaves_intros]: "same sent (yields r)"
  by (simp add: same_def yields_def)

lemma same_and_then [leaves_intros]:
  assumes "same sent m" and "\<And>x. same sent (f x)"
  shows "same sent (and_then m f)"
  using assms unfolding same_def and_then_def by (fastforce split: option.splits prod.splits sum.splits)

lemma sameD: "same sent m \<Longrightarrow> m w = Some (r, w') \<Longrightarrow> sent w' = sent w"
  by (simp add: same_def)

lemma leaves_turn: "leaves sent m \<Longrightarrow> (\<And>w. snd (step w) = snd (m w)) \<Longrightarrow> leaves sent step"
  by (simp add: leaves_def)

lemma same_poll:
  assumes "\<And>w. leaves sent (step w)" and "\<And>d w. sent (na_sleep N d w) = sent w"
  shows "same sent (\<lambda>w. poll N slack interval (deadline w) (step w) fuel w)"
proof -
  have "poll N slack interval dl stp fuel w = Some (r, w') \<Longrightarrow> leaves sent stp \<Longrightarrow> sent w' = sent w" for dl stp w r w'
    by (induction fuel arbitrary: w)
      (auto simp: assms(2) split: prod.splits turn.splits if_splits dest: leavesD)
  then show ?thesis using assms(1) unfolding same_def by metis
qed

text \<open>Of all the operations the wallet calls, only the submission changes what is observed.\<close>

definition only_submission :: "'w base_wallet \<Rightarrow> ('w \<Rightarrow> 'x) \<Rightarrow> bool" where
  "only_submission self sent \<longleftrightarrow>
     (let N = bw_node self; P = bw_pxe self in
      leaves sent (na_get_node_info N) \<and> leaves sent (na_get_block_number N) \<and>
      (\<forall>h. leaves sent (na_get_tx_receipt N h)) \<and> (\<forall>h. leaves sent (na_get_tx_effect N h)) \<and>
      (\<forall>n f. leaves sent (na_get_nullifier_membership_witness N n f)) \<and>
      (\<forall>t b. leaves sent (na_simulate_public_calls N t b)) \<and> (\<forall>t. leaves sent (na_is_valid_tx N t)) \<and>
      (\<forall>d w. sent (na_sleep N d w) = sent w) \<and>
      (\<forall>a. leaves sent (pa_get_contract_instance P a)) \<and> (\<forall>c. leaves sent (pa_get_contract_artifact P c)) \<and>
      leaves sent (pa_get_contracts P) \<and> (\<forall>q scopes. same sent (pa_prove_tx P q scopes)) \<and>
      (\<forall>a e g c p m. leaves sent (ap_create_tx_execution_request (bw_accounts self) a e g c p m)))"

lemma preflight_leaves:
  assumes "only_submission self sent"
  shows "leaves sent (preflight self h t tx_json)"
proof -
  have find: "leaves sent (find_error_message_in self k addresses)" for k addresses
    using assms by (induction addresses)
      (auto simp: only_submission_def Let_def intro!: leaves_intros split: option.split)
  have types: "leaves sent (public_function_error_types self a sel)" for a sel
    unfolding public_function_error_types_def using assms
    by (auto simp: only_submission_def Let_def intro!: leaves_intros split: option.split)
  have "leaves sent (find_registered_error_message_by_selector self k)" for k
    unfolding find_registered_error_message_by_selector_def using assms find
    by (auto simp: only_submission_def Let_def intro!: leaves_intros)
  then have "leaves sent (decode_public_assertion_message self reason)" for reason
    unfolding decode_public_assertion_message_def using types
    by (auto intro!: leaves_intros split: option.split)
  then have sim: "leaves sent (wallet_simulate_public_calls self h tx_json)"
    unfolding wallet_simulate_public_calls_def using assms
    by (auto simp: only_submission_def Let_def intro!: leaves_intros split: option.split json.split)
  show ?thesis
    unfolding leaves_def preflight_def
    by (auto split: prod.splits sum.splits dest: leavesD[OF sim])
qed

lemma waiting_leaves:
  assumes "only_submission self sent"
  shows "same sent (validate_tx_when_anchor_available self tx_json fuel)"
    and "same sent (wait_for_submission_checkpoint self h fuel)"
proof -
  note ask = assms[unfolded only_submission_def Let_def]
  have sleep: "\<And>d w. sent (na_sleep (bw_node self) d w) = sent w" using ask by blast
  have valid: "leaves sent (na_is_valid_tx (bw_node self) tx_json)" using ask by blast
  have receipt: "leaves sent (na_get_tx_receipt (bw_node self) h)" using ask by blast
  have number: "leaves sent (na_get_block_number (bw_node self))" using ask by blast
  have effect: "leaves sent (na_get_tx_effect (bw_node self) h)" using ask by blast
  have nullifier: "leaves sent (na_get_nullifier_membership_witness (bw_node self) 0 f)" for f using ask by blast
  show "same sent (validate_tx_when_anchor_available self tx_json fuel)"
    unfolding validate_tx_when_anchor_available_def Let_def
    by (rule same_poll[OF leaves_turn[OF valid]]) (auto simp: sleep split: prod.splits sum.splits)
  have tx: "same sent (wait_for_tx (bw_node self) h opts fuel)" for opts
    unfolding wait_for_tx_def Let_def
    by (rule same_poll[OF leaves_turn[OF receipt]]) (auto simp: sleep split: prod.splits sum.splits)
  have "same sent (wait_for_next_block self h b fuel)" for b
    unfolding wait_for_next_block_def Let_def
    by (rule same_poll[OF leaves_turn[of _ "\<lambda>v. na_get_block_number (bw_node self) (snd (na_get_tx_receipt (bw_node self) h v))"]])
      (use number receipt in \<open>auto simp: sleep leaves_def split: prod.splits sum.splits\<close>)
  note next_block = this
  have world: "same sent (wait_for_world_state self h fuel)"
  proof -
    have "same sent (\<lambda>w. poll (bw_node self) 0 200 (na_now (bw_node self) w + 15000)
      (\<lambda>v. case na_get_nullifier_membership_witness (bw_node self) 0 f v of
         (Inr (Some _), v') \<Rightarrow> (Finish (Inr ()), v') | (_, v') \<Rightarrow> (Again (Inr ()), v')) fuel w)" for f
      by (rule same_poll[OF leaves_turn[OF nullifier[of f]]])
        (auto simp: sleep split: prod.splits sum.splits option.splits)
    then show ?thesis
      unfolding same_def wait_for_world_state_def Let_def
      by (auto simp: sleep split: prod.splits sum.splits option.splits dest: leavesD[OF effect])
  qed
  have "same sent (and_then (wait_for_next_block self h b fuel) (\<lambda>_. wait_for_world_state self h fuel))" for b
    by (intro leaves_intros next_block world)
  with world show "same sent (wait_for_submission_checkpoint self h fuel)"
    unfolding same_def wait_for_submission_checkpoint_def Let_def
    by (auto split: prod.splits sum.splits option.splits error.splits dest!: leavesD[OF number] sameD[OF tx])
qed

subsection \<open>Submission\<close>

lemma and_thenE:
  assumes "and_then m f w = Some (r, w')"
  obtains (failed) e where "m w = Some (Inl e, w')" and "r = Inl e"
    | (went) x w1 where "m w = Some (Inr x, w1)" and "f x w1 = Some (r, w')"
  using assms by (auto simp: and_then_def split: option.splits sum.splits)

lemma check_validation_ok: "check_validation v = Inr () \<longleftrightarrow> (\<forall>reasons. v \<noteq> Invalid reasons)"
  by (cases v) auto

lemma validate_asked:
  assumes "validate_tx_when_anchor_available self tx_json fuel w = Some (Inr verdict, v2)"
  shows "\<exists>v1. na_is_valid_tx (bw_node self) tx_json v1 = (Inr verdict, v2)"
proof -
  let ?ask = "na_is_valid_tx (bw_node self) tx_json"
  obtain v where "(case ?ask v of
        (Inl e, v') \<Rightarrow> (Finish (Inl e), v')
      | (Inr result, v') \<Rightarrow>
          (if is_anchor_header_validation_lag result then Again (Inr result) else Finish (Inr result), v'))
      \<in> {(Finish (Inr verdict), v2), (Again (Inr verdict), v2)}"
    using poll_result[OF assms[unfolded validate_tx_when_anchor_available_def Let_def]] by blast
  then show ?thesis by (cases "?ask v"; cases "fst (?ask v)") (auto split: if_splits)
qed

text \<open>From the transaction on: validation, submission and the wait.\<close>

lemma submission_tail:
  assumes only: "only_submission self sent"
    and run: "and_then (validate_tx_when_anchor_available self tx_json fuel) (\<lambda>validation.
      and_then (yields (check_validation validation)) (\<lambda>_.
      and_then (run_op (na_send_tx (bw_node self) tx_json)) (\<lambda>_.
      and_then (wait_for_submission_checkpoint self h fuel) (\<lambda>_. yields (Inr h))))) w = Some (r, w')"
  shows "sent w' = sent w \<and> (\<exists>e. r = Inl e) \<or>
    (\<exists>v1 v2 v3 verdict answer. na_is_valid_tx (bw_node self) tx_json v1 = (Inr verdict, v2) \<and>
       (\<forall>reasons. verdict \<noteq> Invalid reasons) \<and> sent v2 = sent w \<and>
       na_send_tx (bw_node self) tx_json v2 = (answer, v3) \<and> sent w' = sent v3 \<and>
       (\<forall>h'. r = Inr h' \<longrightarrow> h' = h \<and> answer = Inr ()))"
  using run
proof (cases rule: and_thenE)
  case failed
  then show ?thesis using sameD[OF waiting_leaves(1)[OF only]] by blast
next
  case (went verdict v2)
  obtain v1 where asked: "na_is_valid_tx (bw_node self) tx_json v1 = (Inr verdict, v2)"
    using validate_asked[OF went(1)] by blast
  have sent2: "sent v2 = sent w" using sameD[OF waiting_leaves(1)[OF only] went(1)] .
  from went(2) show ?thesis
  proof (cases rule: and_thenE)
    case failed
    then show ?thesis using sent2 by (auto simp: yields_def)
  next
    case (went _ v2')
    then have ok: "check_validation verdict = Inr ()" and v2': "v2' = v2" by (auto simp: yields_def)
    obtain answer v3 where sent: "na_send_tx (bw_node self) tx_json v2 = (answer, v3)" by fastforce
    from went(2) show ?thesis unfolding v2'
    proof (cases rule: and_thenE)
      case failed
      then have "v3 = w'" using sent by (auto simp: run_op_def)
      then show ?thesis using asked sent2 sent ok[unfolded check_validation_ok] failed(2) by blast
    next
      case (went _ v3')
      then have answer: "answer = Inr ()" and v3': "v3' = v3" using sent by (auto simp: run_op_def)
      from went(2) have "sent w' = sent v3 \<and> (\<forall>h'. r = Inr h' \<longrightarrow> h' = h)" unfolding v3'
        by (cases rule: and_thenE)
          (auto simp: yields_def dest: sameD[OF waiting_leaves(2)[OF only]])
      then show ?thesis using asked sent2 sent ok[unfolded check_validation_ok] answer by blast
    qed
  qed
qed

text \<open>
  C28. The wallet submits at most once, and only what the node did not reject. When \<open>send_tx\<close> returns, either
  nothing was submitted and the answer is an error, or one transaction was: the one the PXE proved for the
  request the account made of the payload, after the node's validation of that very transaction answered
  that it is valid or that the check was skipped, with nothing submitted before. A returned hash is the hash
  of that transaction, and the node accepted it.
\<close>

theorem send_tx_submits_once:
  assumes only: "only_submission self sent" and run: "wallet_send_tx self fuel exec opts w = Some (r, w')"
  shows "sent w' = sent w \<and> (\<exists>e. r = Inl e) \<or>
    (\<exists>request proven h tx_json c0 c1 c2 c3 v1 v2 v3 verdict answer chain.
       ap_create_tx_execution_request (bw_accounts self) (sn_from opts) (send_payload exec opts)
         (settings_or_default (sn_gas_settings opts)) chain (ep_fee_payer (send_payload exec opts))
         (map_option (\<lambda>_. 2) (sn_fee_execution_payload opts)) c0 = (Inr request, c1) \<and>
       pa_prove_tx (bw_pxe self) request (build_scopes (sn_from opts) (sn_additional_scopes opts)) c2 =
         Some (Inr proven, c3) \<and>
       tp_tx_hash proven = Some h \<and> bw_tx_json self (to_tx proven) = Inr tx_json \<and>
       na_is_valid_tx (bw_node self) tx_json v1 = (Inr verdict, v2) \<and> (\<forall>reasons. verdict \<noteq> Invalid reasons) \<and>
       sent v2 = sent w \<and> na_send_tx (bw_node self) tx_json v2 = (answer, v3) \<and> sent w' = sent v3 \<and>
       (\<forall>h'. r = Inr h' \<longrightarrow> h' = h \<and> answer = Inr ()))"
proof -
  note ask = only[unfolded only_submission_def Let_def]
  have info: "leaves sent (wallet_get_chain_info self)"
    unfolding wallet_get_chain_info_def using ask by (auto intro!: leaves_intros)
  have made: "leaves sent (ap_create_tx_execution_request (bw_accounts self) a e g c p m)" for a e g c p m
    using ask by blast
  have prove: "same sent (pa_prove_tx (bw_pxe self) q scopes)" for q scopes using ask by blast
  have proven: "same sent (proven_tx self q scopes)" for q scopes
    unfolding proven_tx_def by (intro leaves_intros prove preflight_leaves[OF only])
  from run[unfolded wallet_send_tx_def Let_def] show ?thesis
  proof (cases rule: and_thenE)
    case failed
    then show ?thesis using leavesD[OF info] by (auto simp: run_op_def)
  next
    case (went chain w1)
    then have s1: "sent w1 = sent w" using leavesD[OF info] by (auto simp: run_op_def)
    from went(2) show ?thesis
    proof (cases rule: and_thenE)
      case failed
      then show ?thesis using leavesD[OF made] s1 by (auto simp: run_op_def)
    next
      case (went request w2)
      then have s2: "sent w2 = sent w" using leavesD[OF made] s1 by (auto simp: run_op_def)
      note req = went(1)[unfolded run_op_def option.inject]
      from went(2) show ?thesis
      proof (cases rule: and_thenE)
        case failed
        then show ?thesis using sameD[OF proven] s2 by auto
      next
        case (went p w3)
        obtain h tx_json where p: "p = (h, tx_json)" by fastforce
        have s3: "sent w3 = sent w" using sameD[OF proven went(1)] s2 by simp
        from went(1) obtain pr c3 where pr: "pa_prove_tx (bw_pxe self) request
            (build_scopes (sn_from opts) (sn_additional_scopes opts)) w2 = Some (Inr pr, c3)"
          "tp_tx_hash pr = Some h" "bw_tx_json self (to_tx pr) = Inr tx_json"
          unfolding proven_tx_def p
          by (auto elim!: and_thenE simp: yields_def simulated_tx_hash_def ok_or_def split: option.splits)
        show ?thesis
          using submission_tail[OF only went(2)[unfolded p prod.case]] req pr s3 by metis
      qed
    qed
  qed
qed

text \<open>
  Sending a transaction always comes to an end. When the clock of the machine works and proving returns,
  601 turns per wait are enough for \<open>send_tx\<close> to return whatever the node answers: the wait for the anchor
  block, for the checkpoint, for a later block and for the world state are all bounded in time.
\<close>

lemma send_tx_returns:
  assumes "clock_ok (bw_node self)" and "\<And>request scopes v. pa_prove_tx (bw_pxe self) request scopes v \<noteq> None"
    and "601 \<le> fuel"
  shows "\<exists>r w'. wallet_send_tx self fuel exec opts w = Some (r, w')"
proof -
  obtain n where n: "fuel = Suc n" "600 \<le> n" using assms(3) by (cases fuel) auto
  have "returns (pa_prove_tx (bw_pxe self) request scopes)" for request scopes
    using assms(2) by (auto simp: returns_def)
  then have "returns (wallet_send_tx self (Suc n) exec opts)"
    unfolding wallet_send_tx_def proven_tx_def Let_def
    by (auto intro!: returns_intros validate_returns wait_for_submission_returns assms(1) n(2) split: prod.split)
  then show ?thesis unfolding n(1) returns_def by blast
qed

subsection \<open>A wallet to run\<close>

definition example_receipt :: tx_receipt where
  "example_receipt =
     \<lparr>rc_tx_hash = TxHash [], rc_status = Checkpointed, rc_execution_result = Some Success, rc_error = None,
      rc_transaction_fee = None, rc_block_hash = None, rc_block_number = Some 8, rc_epoch_number = None\<rparr>"

text \<open>A clock, and the transactions submitted so far.\<close>

definition example_node_api :: "(nat \<times> json list) node_api" where
  "example_node_api =
     \<lparr>na_get_node_info = ret \<lparr>ni_node_version = [], ni_l1_chain_id = 1, ni_rollup_version = 1, ni_enr = None,
        ni_l1_contract_addresses = JsNull, ni_protocol_contract_addresses = JsNull, ni_real_proofs = False,
        ni_l2_circuits_vk_tree_root = None, ni_l2_protocol_contracts_hash = None\<rparr>,
      na_get_block_number = ret 7, na_get_proven_block_number = ret 7, na_get_tx_receipt = (\<lambda>h. ret example_receipt),
      na_send_tx = (\<lambda>j (t, s). (Inr (), (t, j # s))), na_get_contract = (\<lambda>a. ret None),
      na_get_contract_class = (\<lambda>c. ret None), na_get_tx_effect = (\<lambda>h. ret None),
      na_get_nullifier_membership_witness = (\<lambda>n f. ret None), na_get_public_storage_at = (\<lambda>n a f. ret 0),
      na_simulate_public_calls = (\<lambda>j b. ret JsNull), na_is_valid_tx = (\<lambda>j. ret Valid),
      na_now = fst, na_sleep = (\<lambda>d (t, s). (t + d, s))\<rparr>"

definition example_wallet :: "(nat \<times> json list) base_wallet" where
  "example_wallet =
     \<lparr>bw_pxe = \<lparr>pa_get_contract_instance = \<lambda>a. ret None, pa_get_contract_artifact = \<lambda>c. ret None, pa_get_contracts = ret [],
        pa_get_senders = ret [], pa_register_sender = ret, pa_register_contract = \<lambda>q. ret (),
        pa_update_contract = \<lambda>a c. ret (), pa_register_account = \<lambda>sk pa. fail (InvalidData []),
        pa_get_private_events = \<lambda>sel f. yields (Inr []), pa_simulate_tx = \<lambda>q opts. yields (Inr JsNull),
        pa_prove_tx = \<lambda>q scopes. yields (Inr \<lparr>tp_tx_hash = Some (TxHash []), tp_public_inputs = [], tp_chonk_proof = [],
          tp_contract_class_log_fields = [], tp_public_function_calldata = []\<rparr>),
        pa_profile_tx = \<lambda>q opts. yields (Inr JsNull), pa_execute_utility = \<lambda>call opts. yields (Inr ([1], None))\<rparr>,
      bw_node = example_node_api,
      bw_accounts = \<lparr>ap_create_tx_execution_request = \<lambda>a e g c p m. ret JsNull,
        ap_create_auth_wit = \<lambda>a i c. fail (InvalidData []), ap_get_complete_address = \<lambda>a. ret None, ap_get_accounts = ret []\<rparr>,
      bw_hex = plain_hex, bw_tx_json = \<lambda>t. Inr JsNull, bw_display = \<lambda>j. []\<rparr>"

lemma example_clock: "clock_ok example_node_api"
  by (simp add: clock_ok_def example_node_api_def forward_basic sleeps_def split: prod.split)

lemma example_only_submission: "only_submission example_wallet snd"
  by (auto simp: only_submission_def example_wallet_def example_node_api_def leaves_basic same_yields)

lemma example_sends:
  "wallet_send_tx example_wallet (Suc n) execution_payload_default send_options_default (0, []) =
     Some (Inr (TxHash []), (1000, [JsNull]))"
  by (simp add: wallet_send_tx_def example_wallet_def example_node_api_def and_then_def run_op_def yields_def
      wallet_get_chain_info_def seq_def ret_def proven_tx_def simulated_tx_hash_def preflight_def to_tx_def Let_def
      validate_tx_when_anchor_available_def is_anchor_header_validation_lag_def
      wait_for_submission_checkpoint_def wait_for_tx_def judge_receipt_def example_receipt_def wait_opts_default_def
      receipt_is_dropped_def has_execution_reverted_def has_execution_succeeded_def status_reached_def
      wait_for_world_state_def)

theorem send_tx_submits_once_witness:
  "\<exists>verdict v1 v2. na_is_valid_tx (bw_node example_wallet) JsNull v1 = (Inr verdict, v2) \<and>
     (\<forall>reasons. verdict \<noteq> Invalid reasons) \<and> snd v2 = []"
  using send_tx_submits_once[OF example_only_submission example_sends[of 600]]
  by (auto simp: example_wallet_def)

lemma send_tx_returns_witness:
  "\<exists>r w'. wallet_send_tx example_wallet 601 execution_payload_default send_options_default (0, []) = Some (r, w')"
  by (rule send_tx_returns) (simp_all add: example_wallet_def example_clock yields_def)

theorem wait_for_tx_correct_witness:
  "\<exists>r w'. wait_for_tx example_node_api (TxHash []) wait_opts_default (Suc 300) (0, []) = Some (r, w')"
  using wait_for_tx_correct[OF example_clock, of wait_opts_default 300 "TxHash []" "(0, [])"]
  by (auto simp: wait_opts_default_def)

subsection \<open>The fee of a contract call\<close>

text \<open>A call that pays its fee with a payload of its own reaches the account with the calls of that payload
  twice: the interaction appends the payload, and the wallet appends it again. A profile carries them
  once.\<close>

lemma fee_calls_twice:
  assumes "sn_fee_execution_payload opts = Some fee"
  shows "ep_calls (send_payload (merge_fee_payload (interaction_request ix) (sn_fee_execution_payload opts)) opts) =
    [ix_call ix] @ ep_calls fee @ ep_calls fee"
  using assms by (simp add: send_payload_def merge_fee_payload_def append_fee_payload_def merge_execution_payload_def
      interaction_request_def)

subsection \<open>Public events\<close>

lemma map_of_btree_fold:
  "map_of (fold (\<lambda>(k, v). btree_insert k v) ps t) = map_of t ++ map_of (rev ps)"
  by (induction ps arbitrary: t) (auto simp: map_of_btree_insert map_add_def split: option.split)

lemma named_fields:
  assumes "distinct names" and "i < length names" and "length names \<le> length vs"
  shows "map_of (fold (\<lambda>(k, v). btree_insert k v) (zip names vs) []) (names ! i) = Some (vs ! i)"
proof -
  have "distinct (map fst (rev (zip names vs)))" using assms by (simp add: map_fst_zip_take flip: rev_map)
  moreover have "(names ! i, vs ! i) \<in> set (rev (zip names vs))" using assms by (auto simp: set_zip)
  ultimately have "map_of (rev (zip names vs)) (names ! i) = Some (vs ! i)" by (rule map_of_is_SomeI)
  then show ?thesis by (simp add: map_of_btree_fold map_add_def)
qed

lemma map_result_fails: "x \<in> set xs \<Longrightarrow> f x = Inl e \<Longrightarrow> \<exists>e'. map_result f xs = Inl e'"
  by (induction xs) (auto simp: bind_result_def split: sum.splits)

text \<open>The logs of the event: the last field is its selector.\<close>

definition matching_logs :: "event_metadata_definition \<Rightarrow> public_log list \<Rightarrow> public_log list" where
  "matching_logs em logs =
     filter (\<lambda>log. pl_data log \<noteq> [] \<and> EventSelector (last (pl_data log)) = em_event_selector em) logs"

definition log_metadata :: "public_log \<Rightarrow> public_event_metadata" where
  "log_metadata log = \<lparr>um_contract_address = pl_contract_address log, um_tx_hash = pl_tx_hash log,
     um_block_number = pl_block_number log, um_log_index = pl_log_index log\<rparr>"

text \<open>
  C40. The public events of a contract. When the node answers the query with logs, the events returned are
  exactly those of the logs whose last field is the selector of the event, in the order of the logs, each
  with the contract, transaction, block and index of its log, and each named field is the field of the log
  at its position; the query fails when one of these logs has fewer fields than the event has names. Logs
  of other events do not matter.
\<close>

theorem public_events_correct:
  assumes logs: "get_logs \<lparr>lf_tx_hash = uf_tx_hash filt, lf_from_block = uf_from_block filt, lf_to_block = uf_to_block filt,
      lf_contract_address = uf_contract_address filt, lf_selector = None, lf_after_log = uf_after_log filt\<rparr> w =
      (Inr (logs, hit), w')"
    and names: "event_field_names em = Inr names" and distinct: "distinct names"
  shows "if \<forall>log \<in> set (matching_logs em logs). length names < length (pl_data log)
    then \<exists>events. get_public_events get_logs em filt w = (Inr (events, hit), w') \<and>
      list_all2 (\<lambda>log e. ue_metadata e = log_metadata log \<and>
        (\<forall>i < length names. map_of (ue_event e) (names ! i) = Some (pl_data log ! i))) (matching_logs em logs) events
    else \<exists>e. get_public_events get_logs em filt w = (Inl e, w')"
proof -
  let ?M = "matching_logs em logs"
  let ?event = "\<lambda>log. \<lparr>ue_event = fold (\<lambda>(k, v). btree_insert k v) (zip names (butlast (pl_data log))) [],
    ue_metadata = log_metadata log\<rparr>"
  have decode: "decode_public_log em log =
      (if length names < length (pl_data log) then Inr (?event log) else Inl (Abi ''not enough fields in log data''))"
    if "log \<in> set ?M" for log
  proof -
    have "length names < length (pl_data log) \<longleftrightarrow> \<not> length (pl_data log) - 1 < length names"
      using that by (cases "pl_data log") (auto simp: matching_logs_def)
    then show ?thesis
      using that by (simp add: matching_logs_def decode_public_log_def decode_log_fields_def names Let_def log_metadata_def)
  qed
  have run: "get_public_events get_logs em filt w =
      (bind_result (map_result (decode_public_log em) ?M) (\<lambda>events. Inr (events, hit)), w')"
    unfolding get_public_events_def by (cases "map_result (decode_public_log em) ?M")
      (simp_all add: logs seq_def lift_result_def ret_def matching_logs_def)
  show ?thesis
  proof (cases "\<forall>log \<in> set ?M. length names < length (pl_data log)")
    case True
    then have "map_result (decode_public_log em) ?M = Inr (map ?event ?M)"
      by (intro map_result_Inr) (simp add: decode)
    moreover have "map_of (ue_event (?event log)) (names ! i) = Some (pl_data log ! i)"
      if "log \<in> set ?M" "i < length names" for log i
      using that True named_fields[OF distinct that(2), of "butlast (pl_data log)"] by (auto simp: nth_butlast)
    ultimately show ?thesis using True by (simp add: run list_all2_map2 list_all2_same)
  next
    case False
    then obtain log where "log \<in> set ?M" "decode_public_log em log = Inl (Abi ''not enough fields in log data'')"
      using decode by auto
    then have "\<exists>e. map_result (decode_public_log em) ?M = Inl e" by (rule map_result_fails)
    with False show ?thesis by (auto simp: run)
  qed
qed

theorem public_events_correct_witness:
  "\<exists>events. get_public_events
     (\<lambda>q. ret ([\<lparr>pl_contract_address = AztecAddress 3, pl_data = [10, 20, 7], pl_tx_hash = None, pl_block_number = 5,
         pl_log_index = 0\<rparr>], False))
     \<lparr>em_event_selector = EventSelector 7, em_abi_type = TField, em_field_names = [''a'', ''b'']\<rparr>
     \<lparr>uf_tx_hash = None, uf_from_block = None, uf_to_block = None, uf_contract_address = None, uf_after_log = None\<rparr> () =
       (Inr (events, False), ()) \<and> map_of (ue_event (hd events)) ''b'' = Some 20"
proof -
  let ?log = "\<lparr>pl_contract_address = AztecAddress 3, pl_data = [10, 20, 7], pl_tx_hash = None, pl_block_number = 5,
    pl_log_index = 0\<rparr>"
  let ?em = "\<lparr>em_event_selector = EventSelector 7, em_abi_type = TField, em_field_names = [''a'', ''b'']\<rparr>"
  let ?filt = "\<lparr>uf_tx_hash = None, uf_from_block = None, uf_to_block = None, uf_contract_address = None,
    uf_after_log = None\<rparr>"
  have "event_field_names ?em = Inr [''a'', ''b'']" by (simp add: event_field_names_def)
  from public_events_correct[of "\<lambda>q. ret ([?log], False)" ?filt "()" "[?log]" False "()" ?em, OF _ this]
  show ?thesis by (auto simp: ret_def matching_logs_def list_all2_Cons1 dest!: spec[of _ "1::nat"])
qed

subsection \<open>Validity of authorization witnesses\<close>

text \<open>
  What \<open>lookup_validity\<close> answers for the wallet over a PXE. For an intent, the witness is valid in private
  exactly when the account's \<open>lookup_validity\<close> function, run with the witness for the consumer and the inner
  hash, returns a nonzero first field, and it is valid in public exactly when the registry's slot of the
  message hash of the same intent, for the chain the node reports, holds a nonzero value at the latest block;
  a failed query counts as invalid.
\<close>

lemma lookup_validity_correct:
  assumes hex: "hex_ok (bw_hex self)" and zero: "fr_display (bw_hex self) 0 = ''0x'' @ replicate 64 (CHR ''0'')"
    and info: "wallet_get_chain_info self w = (Inr chain, w1)"
    and intent: "intent = InnerHash consumer inner \<or>
      (\<exists>caller call. intent = Intent caller call \<and> consumer = fc_to call \<and>
         inner = compute_inner_auth_wit_hash_from_action C caller call)"
    and utility: "pa_execute_utility (bw_pxe self)
      \<lparr>fc_to = account, fc_selector = function_selector_from_signature C ''lookup_validity((Field),Field)'',
       fc_args = [VField (address_field consumer), VField inner], fc_function_type = Utility, fc_is_static = True,
       fc_hide_msg_sender = False\<rparr> \<lparr>ut_authwits = [witness], ut_scopes = [account]\<rparr> w1 = Some (answer, w2)"
    and slot: "na_get_public_storage_at (bw_node self) 0 auth_registry
      (approved_action_slot C account (compute_auth_wit_message_hash C intent chain)) w2 = (stored, w3)"
  shows "lookup_validity C (base_wallet_api self fuel) account intent witness w =
    Some (Inr \<lparr>av_is_valid_in_private = (case answer of Inr (f # fs, _) \<Rightarrow> f \<noteq> 0 | _ \<Rightarrow> False),
               av_is_valid_in_public = (case stored of Inr v \<Rightarrow> v \<noteq> 0 | Inl _ \<Rightarrow> False)\<rparr>, w3)"
proof -
  have other: "fr_display (bw_hex self) f \<noteq> s" if "length s \<noteq> 66" for f s using that hex by auto
  have "fr_display (bw_hex self) f \<noteq> ''0x'' @ replicate 64 (CHR ''0'') \<and> fr_display (bw_hex self) f \<noteq> ''0'' \<and>
      fr_display (bw_hex self) f \<noteq> ''false'' \<longleftrightarrow> f \<noteq> 0" for f
    unfolding zero[symmetric] using hex by (auto simp: other)
  then have parse: "parse_boolean_result (JsArray (map (fr_json (bw_hex self)) fs)) \<longleftrightarrow> (case fs of f # _ \<Rightarrow> f \<noteq> 0 | [] \<Rightarrow> False)" for fs
    by (cases fs) (simp_all add: fr_json_def)
  have in_private: "check_private_validity C (base_wallet_api self fuel) account consumer inner witness w1 =
      Some (Inr (case answer of Inr (f # fs, _) \<Rightarrow> f \<noteq> 0 | _ \<Rightarrow> False), w2)"
    using utility
    by (cases answer) (auto simp: check_private_validity_def base_wallet_api_def wallet_execute_utility_def and_then_def yields_def
        parse split: list.split)
  have in_public: "check_public_validity C (base_wallet_api self fuel) account
      (compute_auth_wit_message_hash C intent chain) w2 = (Inr (case stored of Inr v \<Rightarrow> v \<noteq> 0 | Inl _ \<Rightarrow> False), w3)"
    using slot by (cases stored) (simp_all add: check_public_validity_def base_wallet_api_def wallet_get_public_storage_at_def)
  have chain: "wl_get_chain_info (base_wallet_api self fuel) w = (Inr chain, w1)" using info by (simp add: base_wallet_api_def)
  show ?thesis
    using intent in_private in_public
    by (auto simp: lookup_validity_def and_then_def run_op_def yields_def Let_def chain)
qed

lemma lookup_validity_example:
  "lookup_validity example_crypto (base_wallet_api example_wallet 601) (AztecAddress 4) (InnerHash (AztecAddress 5) 6)
     \<lparr>aw_request_hash = 0, aw_fields = []\<rparr> (0, []) =
     Some (Inr \<lparr>av_is_valid_in_private = True, av_is_valid_in_public = False\<rparr>, (0, []))"
proof -
  have hex: "hex_ok (bw_hex example_wallet)" by (simp add: example_wallet_def plain_hex_ok)
  have zero: "fr_display (bw_hex example_wallet) 0 = ''0x'' @ replicate 64 (CHR ''0'')"
  proof -
    have bytes: "be_bytes k 0 = replicate k 0" for k by (induction k) (simp_all add: replicate_append_same)
    have digits: "plain_hex_encode (replicate k 0) = replicate (2 * k) (CHR ''0'')" for k
      by (induction k) (simp_all add: plain_hex_encode_def hex_digits_def)
    show ?thesis
      by (simp only: example_wallet_def base_wallet.simps fr_display_def encode_field_hex_def encode_hex_def
          into_bigint_simps bytes plain_hex_def hex_crate.simps digits) simp
  qed
  show ?thesis
    by (subst lookup_validity_correct[OF hex zero, where consumer = "AztecAddress 5" and inner = 6],
        simp_all add: wallet_get_chain_info_def example_wallet_def example_node_api_def seq_def ret_def yields_def, simp)
qed

end
