(* ===== verification/Contract_Deployment.thy ===== *)
theory Contract_Deployment
  imports Contract_Interaction
begin

text \<open>
  Deploying contracts and accounts: \<open>crates/contract/src/deployment.rs\<close> and the account manager of
  \<open>crates/account/src/account.rs\<close>.

  \<open>dt_bbjs\<close> is the external program that replaces the class and the address when the environment asks for
  it; \<open>None\<close> when it does not. A fresh random salt is an argument.
\<close>

record deploy_tools =
  dt_crypto :: crypto
  dt_curve :: curve
  dt_codec :: artifact_codec
  dt_hex :: hex_crate
  dt_bbjs :: "(string list \<Rightarrow> json result) option"

record deploy_options =
  do_contract_address_salt :: "fr option"
  do_skip_class_publication :: bool
  do_skip_instance_publication :: bool
  do_skip_initialization :: bool
  do_skip_registration :: bool
  do_universal_deploy :: bool
  do_from :: "aztec_address option"

definition deploy_options_default :: deploy_options where
  "deploy_options_default =
     \<lparr>do_contract_address_salt = None, do_skip_class_publication = False, do_skip_instance_publication = False,
      do_skip_initialization = False, do_skip_registration = False, do_universal_deploy = False, do_from = None\<rparr>"

subsection \<open>Publication\<close>

definition publish_contract_class :: "deploy_tools \<Rightarrow> contract_artifact \<Rightarrow> interaction result" where
  "publish_contract_class T artifact =
     (let C = dt_crypto T; packed_bytecode = extract_packed_public_bytecode (dt_codec T) artifact in
      bind_result (compute_public_bytecode_commitment C packed_bytecode) (\<lambda>commitment.
      bind_result (if packed_bytecode = [] then Inr []
          else buffer_as_fields packed_bytecode MAX_PACKED_PUBLIC_BYTECODE_SIZE_IN_FIELDS) (\<lambda>bytecode_fields.
        Inr (interaction_new_with_capsules
          \<lparr>fc_to = contract_class_registry, fc_selector = function_selector_from_signature C publish_class_signature,
           fc_args = [VField (compute_artifact_hash C (dt_codec T) artifact),
             VField (compute_private_functions_root_from_artifact C artifact), VField commitment],
           fc_function_type = Private, fc_is_static = False, fc_hide_msg_sender = False\<rparr>
          (if bytecode_fields = [] then []
           else [\<lparr>cap_contract_address = contract_class_registry,
                  cap_storage_slot = contract_class_registry_bytecode_capsule_slot, cap_data = bytecode_fields\<rparr>])))))"

definition point_to_abi_value :: "point \<Rightarrow> abi_value" where
  "point_to_abi_value p = VTuple [VField (point_x p), VField (point_y p), VBoolean (point_is_infinite p)]"

definition public_keys_to_abi_value :: "public_keys \<Rightarrow> abi_value" where
  "public_keys_to_abi_value k =
     VTuple [point_to_abi_value (master_nullifier_public_key k),
       point_to_abi_value (master_incoming_viewing_public_key k),
       point_to_abi_value (master_outgoing_viewing_public_key k),
       point_to_abi_value (master_tagging_public_key k)]"

definition publish_instance :: "deploy_tools \<Rightarrow> contract_instance_with_address \<Rightarrow> interaction" where
  "publish_instance T inst =
     (let i = iwa_inner inst in
      interaction_new
        \<lparr>fc_to = contract_instance_registry,
         fc_selector = function_selector_from_signature (dt_crypto T) publish_instance_signature,
         fc_args = [VField (in_salt i), VTuple [VField (in_current_contract_class_id i)],
           VField (in_initialization_hash i), public_keys_to_abi_value (in_public_keys i),
           VBoolean (in_deployer i = AztecAddress 0)],
         fc_function_type = Private, fc_is_static = False, fc_hide_msg_sender = False\<rparr>)"

subsection \<open>Instances\<close>

record instantiation_params =
  np_constructor_name :: "string option"
  np_constructor_args :: "abi_value list"
  np_salt :: fr
  np_public_keys :: public_keys
  np_deployer :: aztec_address

definition bool_display :: "bool \<Rightarrow> string" where
  "bool_display b = (if b then ''true'' else ''false'')"

definition canonicalize_instance_with_bbjs ::
    "hex_crate \<Rightarrow> (string list \<Rightarrow> json result) \<Rightarrow> contract_instance_with_address \<Rightarrow> fr \<Rightarrow> fr \<Rightarrow> fr \<Rightarrow>
     contract_instance_with_address result" where
  "canonicalize_instance_with_bbjs H run_helper inst artifact_hash root commitment =
     (let i = iwa_inner inst; k = in_public_keys i in
      bind_result (run_helper (map (fr_display H) [artifact_hash, root, commitment, in_salt i,
          in_initialization_hash i, address_field (in_deployer i)] @
        concat (map (\<lambda>p. [fr_display H (point_x p), fr_display H (point_y p), bool_display (point_is_infinite p)])
          [master_nullifier_public_key k, master_incoming_viewing_public_key k,
           master_outgoing_viewing_public_key k, master_tagging_public_key k]))) (\<lambda>response.
      bind_result (ok_or (InvalidData ''contract instance helper missing classId'')
        (Option.bind (js_field ''classId'' response) js_str)) (\<lambda>class_text.
      bind_result (fr_from_hex H class_text) (\<lambda>class_id.
      bind_result (ok_or (InvalidData ''contract instance helper missing address'')
        (Option.bind (js_field ''address'' response) js_str)) (\<lambda>address_text.
      bind_result (fr_from_hex H address_text) (\<lambda>address.
        Inr \<lparr>iwa_address = AztecAddress address,
          iwa_inner = i\<lparr>in_current_contract_class_id := class_id, in_original_contract_class_id := class_id\<rparr>\<rparr>))))))"

definition find_initializer :: "contract_artifact \<Rightarrow> string option \<Rightarrow> function_artifact option result" where
  "find_initializer artifact name =
     (case name of None \<Rightarrow> Inr None | Some n \<Rightarrow> bind_result (find_function artifact n) (\<lambda>f. Inr (Some f)))"

definition get_contract_instance_from_instantiation_params ::
    "deploy_tools \<Rightarrow> contract_artifact \<Rightarrow> instantiation_params \<Rightarrow> contract_instance_with_address result" where
  "get_contract_instance_from_instantiation_params T artifact params =
     (let C = dt_crypto T; artifact_hash = compute_artifact_hash C (dt_codec T) artifact;
          root = compute_private_functions_root_from_artifact C artifact in
      bind_result (compute_public_bytecode_commitment C (extract_packed_public_bytecode (dt_codec T) artifact))
        (\<lambda>commitment.
      let class_id = compute_contract_class_id C artifact_hash root commitment in
      bind_result (find_initializer artifact (np_constructor_name params)) (\<lambda>init_fn.
      bind_result (compute_initialization_hash C init_fn (np_constructor_args params)) (\<lambda>init_hash.
      let i = \<lparr>in_version = 1, in_salt = np_salt params, in_deployer = np_deployer params,
            in_current_contract_class_id = class_id, in_original_contract_class_id = class_id,
            in_initialization_hash = init_hash, in_public_keys = np_public_keys params\<rparr> in
      bind_result (compute_contract_address_from_instance C (dt_curve T) i) (\<lambda>address.
      let inst = \<lparr>iwa_address = address, iwa_inner = i\<rparr> in
      case dt_bbjs T of
        Some run_helper \<Rightarrow> canonicalize_instance_with_bbjs (dt_hex T) run_helper inst artifact_hash root commitment
      | None \<Rightarrow> Inr inst)))))"

subsection \<open>Deployment\<close>

record deployer =
  dp_artifact :: contract_artifact
  dp_public_keys :: public_keys
  dp_constructor_name :: "string option"

record deploy_method =
  dm_artifact :: contract_artifact
  dm_args :: "abi_value list"
  dm_public_keys :: public_keys
  dm_constructor_name :: "string option"
  dm_default_salt :: fr

definition check_arity :: "function_artifact \<Rightarrow> abi_value list \<Rightarrow> unit result" where
  "check_arity func args =
     (if length args \<noteq> length (fa_parameters func)
      then Inl (Abi ''constructor expects another number of arguments'') else Inr ())"

text \<open>The initializer to call: the one named, the first one of the artifact, or none.\<close>

definition choose_constructor :: "deployer \<Rightarrow> abi_value list \<Rightarrow> string option result" where
  "choose_constructor self args =
     (case dp_constructor_name self of
        Some name \<Rightarrow>
          bind_result (find_function (dp_artifact self) name) (\<lambda>func.
          if \<not> fa_is_initializer func then Inl (Abi ''function in artifact is not an initializer'')
          else bind_result (check_arity func args) (\<lambda>_. Inr (Some name)))
      | None \<Rightarrow>
          (case find fa_is_initializer (ca_functions (dp_artifact self)) of
             Some func \<Rightarrow> bind_result (check_arity func args) (\<lambda>_. Inr (Some (fa_name func)))
           | None \<Rightarrow>
               if args = [] then Inr None
               else Inl (Abi ''artifact has no initializer but got constructor arguments'')))"

definition deployer_deploy :: "deployer \<Rightarrow> fr \<Rightarrow> abi_value list \<Rightarrow> deploy_method result" where
  "deployer_deploy self random_salt args =
     bind_result (choose_constructor self args) (\<lambda>constructor_name.
       Inr \<lparr>dm_artifact = dp_artifact self, dm_args = args, dm_public_keys = dp_public_keys self,
            dm_constructor_name = constructor_name, dm_default_salt = random_salt\<rparr>)"

text \<open>The keys of a contract without an owner: points nobody knows the secret of.\<close>

definition public_keys_default :: public_keys where
  "public_keys_default =
     \<lparr>master_nullifier_public_key =
        \<lparr>point_x = 0x1498945581e0eb9f8427ad6021184c700ef091d570892c437d12c7d90364bbd,
         point_y = 0x170ae506787c5c43d6ca9255d571c10fa9ffa9d141666e290c347c5c9ab7e344, point_is_infinite = False\<rparr>,
      master_incoming_viewing_public_key =
        \<lparr>point_x = 0x0c044b05b6ca83b9c2dbae79cc1135155956a64e136819136e9947fe5e5866c,
         point_y = 0x1c1f0ca244c7cd46b682552bff8ae77dea40b966a71de076ec3b7678f2bdb151, point_is_infinite = False\<rparr>,
      master_outgoing_viewing_public_key =
        \<lparr>point_x = 0x1b00316144359e9a3ec8e49c1cdb7eeb0cedd190dfd9dc90eea5115aa779e287,
         point_y = 0x080ffc74d7a8b0bccb88ac11f45874172f3847eb8b92654aaa58a3d2b8dc7833, point_is_infinite = False\<rparr>,
      master_tagging_public_key =
        \<lparr>point_x = 0x019c111f36ad3fc1d9b7a7a14344314d2864b94f030594cd67f753ef774a1efb,
         point_y = 0x2039907fe37f08d10739255141bb066c506a12f7d1e8dfec21abc58494705b6f, point_is_infinite = False\<rparr>\<rparr>"

definition contract_deploy_with_public_keys ::
    "public_keys \<Rightarrow> contract_artifact \<Rightarrow> fr \<Rightarrow> abi_value list \<Rightarrow> string option \<Rightarrow> deploy_method result" where
  "contract_deploy_with_public_keys keys artifact random_salt args constructor_name =
     deployer_deploy \<lparr>dp_artifact = artifact, dp_public_keys = keys, dp_constructor_name = constructor_name\<rparr>
       random_salt args"

definition contract_deploy ::
    "contract_artifact \<Rightarrow> fr \<Rightarrow> abi_value list \<Rightarrow> string option \<Rightarrow> deploy_method result" where
  "contract_deploy = contract_deploy_with_public_keys public_keys_default"

definition with_effective_from :: "deploy_options \<Rightarrow> aztec_address option \<Rightarrow> deploy_options" where
  "with_effective_from opts from =
     (if do_universal_deploy opts \<or> do_from opts \<noteq> None then opts else opts\<lparr>do_from := from\<rparr>)"

definition deploy_get_instance ::
    "deploy_tools \<Rightarrow> deploy_method \<Rightarrow> deploy_options \<Rightarrow> contract_instance_with_address result" where
  "deploy_get_instance T self opts =
     get_contract_instance_from_instantiation_params T (dm_artifact self)
       \<lparr>np_constructor_name = dm_constructor_name self, np_constructor_args = dm_args self,
        np_salt = Nargo_Artifact.unwrap_or (dm_default_salt self) (do_contract_address_salt opts),
        np_public_keys = dm_public_keys self,
        np_deployer = (if do_universal_deploy opts then aztec_address_zero
          else Nargo_Artifact.unwrap_or aztec_address_zero (do_from opts))\<rparr>"

text \<open>The payload that publishes the class, unless the node knows it already; a failed query counts as
  unknown.\<close>

definition class_payloads ::
    "deploy_tools \<Rightarrow> 'w wallet_api \<Rightarrow> deploy_method \<Rightarrow> deploy_options \<Rightarrow> contract_instance_with_address \<Rightarrow>
     ('w, execution_payload list) op" where
  "class_payloads T W self opts inst w =
     (if do_skip_class_publication opts then (Inr [], w)
      else
        case wl_get_contract_class_metadata W (in_current_contract_class_id (iwa_inner inst)) w of
          (r, w') \<Rightarrow>
            if (case r of Inr m \<Rightarrow> cc_is_contract_class_publicly_registered m | Inl _ \<Rightarrow> False) then (Inr [], w')
            else (bind_result (publish_contract_class T (dm_artifact self)) (\<lambda>i. Inr [interaction_request i]), w'))"

text \<open>The call of the constructor, with the arguments encoded.\<close>

definition constructor_call ::
    "deploy_tools \<Rightarrow> deploy_method \<Rightarrow> contract_instance_with_address \<Rightarrow> string \<Rightarrow> function_call result" where
  "constructor_call T self inst name =
     bind_result (find_function (dm_artifact self) name) (\<lambda>func.
     bind_result (encode_arguments func (dm_args self)) (\<lambda>encoded_fields.
       Inr \<lparr>fc_to = iwa_address inst, fc_selector = selector_of (dt_crypto T) func, fc_args = map VField encoded_fields,
            fc_function_type = fa_function_type func, fc_is_static = False, fc_hide_msg_sender = False\<rparr>))"

definition constructor_payloads ::
    "deploy_tools \<Rightarrow> deploy_method \<Rightarrow> deploy_options \<Rightarrow> contract_instance_with_address \<Rightarrow> execution_payload list result" where
  "constructor_payloads T self opts inst =
     (if do_skip_initialization opts then Inr []
      else case dm_constructor_name self of
             None \<Rightarrow> Inr []
           | Some name \<Rightarrow> bind_result (constructor_call T self inst name) (\<lambda>call.
               Inr [execution_payload_default\<lparr>ep_calls := [call]\<rparr>]))"

definition deploy_request ::
    "deploy_tools \<Rightarrow> 'w wallet_api \<Rightarrow> deploy_method \<Rightarrow> deploy_options \<Rightarrow> ('w, execution_payload) op" where
  "deploy_request T W self opts =
     seq (lift_result (deploy_get_instance T self opts)) (\<lambda>inst.
     seq (if do_skip_registration opts then ret ()
          else seq (wl_register_contract W inst (Some (dm_artifact self)) None) (\<lambda>_. ret ())) (\<lambda>_.
     seq (class_payloads T W self opts inst) (\<lambda>for_class.
     seq (lift_result (constructor_payloads T self opts inst)) (\<lambda>for_constructor.
       lift_result (merge_payloads (for_class @
         (if do_skip_instance_publication opts then [] else [interaction_request (publish_instance T inst)]) @
         for_constructor))))))"

definition deploy_simulate ::
    "deploy_tools \<Rightarrow> 'w wallet_api \<Rightarrow> deploy_method \<Rightarrow> deploy_options \<Rightarrow> simulate_options \<Rightarrow>
     ('w, tx_simulation_result) run" where
  "deploy_simulate T W self opts sim_opts =
     and_then (run_op (deploy_request T W self (with_effective_from opts (Some (so_from sim_opts))))) (\<lambda>payload.
       wl_simulate_tx W (merge_fee_payload payload (so_fee_execution_payload sim_opts)) sim_opts)"

definition deploy_profile ::
    "deploy_tools \<Rightarrow> 'w wallet_api \<Rightarrow> deploy_method \<Rightarrow> deploy_options \<Rightarrow> profile_options \<Rightarrow>
     ('w, tx_profile_result) run" where
  "deploy_profile T W self opts profile_opts =
     and_then (run_op (deploy_request T W self (with_effective_from opts (Some (pp_from profile_opts))))) (\<lambda>payload.
       wl_profile_tx W (merge_fee_payload payload (pp_fee_execution_payload profile_opts)) profile_opts)"

definition deploy_send ::
    "deploy_tools \<Rightarrow> 'w wallet_api \<Rightarrow> deploy_method \<Rightarrow> deploy_options \<Rightarrow> send_options \<Rightarrow>
     ('w, tx_hash \<times> contract_instance_with_address) run" where
  "deploy_send T W self opts send_opts =
     (let effective_opts = with_effective_from opts (Some (sn_from send_opts)) in
      and_then (yields (deploy_get_instance T self effective_opts)) (\<lambda>inst.
      and_then (run_op (deploy_request T W self effective_opts)) (\<lambda>payload.
      and_then (wl_send_tx W (merge_fee_payload payload (sn_fee_execution_payload send_opts)) send_opts) (\<lambda>h.
      and_then (if do_skip_instance_publication effective_opts then yields (Inr ())
                else wl_wait_for_contract W (iwa_address inst)) (\<lambda>_. yields (Inr (h, inst)))))))"

subsection \<open>Accounts\<close>

text \<open>The parameters of an account contract: universal deployment, the keys derived from the secret.\<close>

definition account_params :: "curve \<Rightarrow> fr \<Rightarrow> fr \<Rightarrow> initialization_spec option \<Rightarrow> instantiation_params" where
  "account_params V secret salt init_spec =
     \<lparr>np_constructor_name = map_option is_constructor_name init_spec,
      np_constructor_args = (case init_spec of Some spec \<Rightarrow> is_constructor_args spec | None \<Rightarrow> []),
      np_salt = salt, np_public_keys = dk_public_keys (derive_keys V secret), np_deployer = aztec_address_zero\<rparr>"

definition get_account_contract_address :: "deploy_tools \<Rightarrow> account_contract \<Rightarrow> fr \<Rightarrow> fr \<Rightarrow> aztec_address result" where
  "get_account_contract_address T contract secret salt =
     bind_result (ak_initialization_function_and_args contract) (\<lambda>init_spec.
     bind_result (ak_contract_artifact contract) (\<lambda>artifact.
     bind_result (get_contract_instance_from_instantiation_params T artifact
       (account_params (dt_curve T) secret salt init_spec)) (\<lambda>inst. Inr (iwa_address inst))))"

record account_manager =
  am_secret_key :: fr
  am_account_contract :: account_contract
  am_has_initializer :: bool
  am_instance :: contract_instance_with_address
  am_salt :: fr

definition check_initializer :: "contract_artifact \<Rightarrow> initialization_spec option \<Rightarrow> unit result" where
  "check_initializer artifact init_spec =
     (case init_spec of
        None \<Rightarrow> Inr ()
      | Some spec \<Rightarrow>
          bind_result (find_function artifact (is_constructor_name spec)) (\<lambda>func.
          if \<not> fa_is_initializer func
          then Inl (Abi ''function in account artifact is not marked as an initializer'')
          else if length (is_constructor_args spec) \<noteq> length (fa_parameters func)
          then Inl (Abi ''initializer in account artifact expects another number of arguments'')
          else Inr ()))"

definition account_manager_create :: "deploy_tools \<Rightarrow> fr \<Rightarrow> account_contract \<Rightarrow> fr \<Rightarrow> account_manager result" where
  "account_manager_create T secret contract salt =
     bind_result (ak_contract_artifact contract) (\<lambda>artifact.
     bind_result (ak_initialization_function_and_args contract) (\<lambda>init_spec.
     bind_result (check_initializer artifact init_spec) (\<lambda>_.
     bind_result (get_contract_instance_from_instantiation_params T artifact
       (account_params (dt_curve T) secret salt init_spec)) (\<lambda>inst.
       Inr \<lparr>am_secret_key = secret, am_account_contract = contract, am_has_initializer = (init_spec \<noteq> None),
            am_instance = inst, am_salt = salt\<rparr>))))"

definition account_manager_complete_address :: "deploy_tools \<Rightarrow> account_manager \<Rightarrow> complete_address result" where
  "account_manager_complete_address T self =
     (let C = dt_crypto T; i = iwa_inner (am_instance self);
          keys = dk_public_keys (derive_keys (dt_curve T) (am_secret_key self));
          partial_address = compute_partial_address C (in_original_contract_class_id i)
            (compute_salted_initialization_hash C (in_salt i) (in_initialization_hash i) (in_deployer i)) in
      bind_result (compute_address C (dt_curve T) keys partial_address) (\<lambda>address.
        Inr \<lparr>co_address = address, co_public_keys = keys, co_partial_address = partial_address\<rparr>))"

definition account_manager_account :: "deploy_tools \<Rightarrow> account_manager \<Rightarrow> account result" where
  "account_manager_account T self =
     bind_result (account_manager_complete_address T self) (\<lambda>complete.
       Inr (ak_account (am_account_contract self) complete))"

record deploy_account_options =
  dao_skip_class_publication :: bool
  dao_skip_instance_publication :: bool
  dao_skip_initialization :: bool
  dao_skip_registration :: bool
  dao_from :: "aztec_address option"
  dao_fee :: "fee_payment_method option"
  dao_fee_entrypoint_options :: "default_account_entrypoint_options option"

definition deploy_account_options_default :: deploy_account_options where
  "deploy_account_options_default =
     \<lparr>dao_skip_class_publication = True, dao_skip_instance_publication = True, dao_skip_initialization = False,
      dao_skip_registration = False, dao_from = None, dao_fee = None, dao_fee_entrypoint_options = None\<rparr>"

record deploy_account_method =
  dac_account :: account
  dac_inner :: deploy_method
  dac_inner_instance :: contract_instance_with_address

definition account_manager_deploy_method ::
    "deploy_tools \<Rightarrow> account_manager \<Rightarrow> fr \<Rightarrow> deploy_account_method result" where
  "account_manager_deploy_method T self random_salt =
     bind_result (ak_contract_artifact (am_account_contract self)) (\<lambda>artifact.
     bind_result (ak_initialization_function_and_args (am_account_contract self)) (\<lambda>init_spec.
     bind_result (account_manager_complete_address T self) (\<lambda>complete.
     bind_result (deployer_deploy
       \<lparr>dp_artifact = artifact, dp_public_keys = in_public_keys (iwa_inner (am_instance self)),
        dp_constructor_name = map_option is_constructor_name init_spec\<rparr> random_salt
       (case init_spec of Some spec \<Rightarrow> is_constructor_args spec | None \<Rightarrow> [])) (\<lambda>inner.
     bind_result (deploy_get_instance T inner
       (deploy_options_default\<lparr>do_contract_address_salt := Some (am_salt self)\<rparr>)) (\<lambda>inner_instance.
       Inr \<lparr>dac_account = ak_account (am_account_contract self) complete, dac_inner = inner,
            dac_inner_instance = inner_instance\<rparr>)))))"

definition to_deploy_options :: "deploy_account_method \<Rightarrow> deploy_account_options \<Rightarrow> deploy_options" where
  "to_deploy_options self opts =
     \<lparr>do_contract_address_salt = Some (in_salt (iwa_inner (dac_inner_instance self))),
      do_skip_class_publication = dao_skip_class_publication opts,
      do_skip_instance_publication = dao_skip_instance_publication opts,
      do_skip_initialization = dao_skip_initialization opts,
      do_skip_registration = dao_skip_registration opts, do_universal_deploy = True, do_from = None\<rparr>"

text \<open>An account that deploys itself pays through its own entrypoint.\<close>

definition deploy_account_fee ::
    "deploy_account_method \<Rightarrow> deploy_account_options \<Rightarrow> fr \<Rightarrow> execution_payload option result" where
  "deploy_account_fee self opts random =
     (case (dao_fee opts, dao_from opts = Some aztec_address_zero) of
        (Some m, True) \<Rightarrow>
          bind_result (meta_get_fee_execution_payload (dac_account self) random (Some m)
            (dao_fee_entrypoint_options opts)) (\<lambda>p. Inr (Some p))
      | (Some m, False) \<Rightarrow> bind_result (fm_get_fee_execution_payload m) (\<lambda>p. Inr (Some p))
      | (None, True) \<Rightarrow>
          bind_result (meta_get_fee_execution_payload (dac_account self) random None
            (Some \<lparr>de_cancellable = False, de_tx_nonce = None,
              de_fee_payment_method_options = PreexistingFeeJuice\<rparr>)) (\<lambda>p. Inr (Some p))
      | (None, False) \<Rightarrow> Inr None)"

definition deploy_account_request ::
    "deploy_tools \<Rightarrow> 'w wallet_api \<Rightarrow> deploy_account_method \<Rightarrow> deploy_account_options \<Rightarrow> fr \<Rightarrow>
     ('w, execution_payload) op" where
  "deploy_account_request T W self opts random =
     seq (deploy_request T W (dac_inner self) (to_deploy_options self opts)) (\<lambda>deploy_payload.
     seq (lift_result (deploy_account_fee self opts random)) (\<lambda>fee_payload.
       lift_result (case fee_payload of
         None \<Rightarrow> Inr deploy_payload
       | Some fee \<Rightarrow>
           if dao_from opts = Some aztec_address_zero then merge_payloads [deploy_payload, fee]
           else merge_payloads [fee, deploy_payload])))"

definition deploy_account_simulate ::
    "deploy_tools \<Rightarrow> 'w wallet_api \<Rightarrow> deploy_account_method \<Rightarrow> deploy_account_options \<Rightarrow> fr \<Rightarrow> simulate_options \<Rightarrow>
     ('w, tx_simulation_result) run" where
  "deploy_account_simulate T W self opts random sim_opts =
     and_then (run_op (deploy_account_request T W self opts random)) (\<lambda>payload. wl_simulate_tx W payload sim_opts)"

definition deploy_account_send ::
    "deploy_tools \<Rightarrow> 'w wallet_api \<Rightarrow> deploy_account_method \<Rightarrow> deploy_account_options \<Rightarrow> fr \<Rightarrow> send_options \<Rightarrow>
     ('w, tx_hash \<times> contract_instance_with_address) run" where
  "deploy_account_send T W self opts random send_opts =
     and_then (yields (deploy_get_instance T (dac_inner self) (to_deploy_options self opts))) (\<lambda>inst.
     and_then (run_op (deploy_account_request T W self opts random)) (\<lambda>payload.
     and_then (wl_send_tx W payload send_opts) (\<lambda>h. yields (Inr (h, inst)))))"

end
