(* ===== verification/Deployment_Properties.thy ===== *)
theory Deployment_Properties
  imports Contract_Deployment Wallet_Properties Entrypoint_Properties Pxe_Properties
begin

text \<open>
  What a deployment promises across the components: the PXE accepts the contract for registration, the calls of
  the transaction announce the class and the address the instance was computed with, the constructor is the
  one the address commits to, and an account has one address for its manager, its deployment and the PXE.
\<close>

subsection \<open>The instance\<close>

lemma instance_facts:
  assumes inst: "get_contract_instance_from_instantiation_params T artifact params = Inr inst"
    and tool: "dt_bbjs T = None"
  shows "compute_contract_class_id_from_artifact (dt_crypto T) (dt_codec T) artifact =
      Inr (in_current_contract_class_id (iwa_inner inst))"
    and "in_original_contract_class_id (iwa_inner inst) = in_current_contract_class_id (iwa_inner inst)"
    and "compute_contract_address_from_instance (dt_crypto T) (dt_curve T) (iwa_inner inst) = Inr (iwa_address inst)"
    and "in_deployer (iwa_inner inst) = np_deployer params" and "in_salt (iwa_inner inst) = np_salt params"
    and "in_public_keys (iwa_inner inst) = np_public_keys params" and "in_version (iwa_inner inst) = 1"
    and "\<exists>f. find_initializer artifact (np_constructor_name params) = Inr f \<and>
      compute_initialization_hash (dt_crypto T) f (np_constructor_args params) =
        Inr (in_initialization_hash (iwa_inner inst))"
  using inst tool unfolding get_contract_instance_from_instantiation_params_def Let_def
  by (auto simp: compute_contract_class_id_from_artifact_def bind_result_Inr_iff)

text \<open>
  The contract a deployment computes is one the PXE accepts: with the same hash functions, and once the
  node has taken the signatures of its public functions, the instance and the artifact pass every check of
  the registration, whatever options the deployment was given.
\<close>

lemma deployed_instance_registrable:
  assumes "dt_bbjs T = None" and "deploy_get_instance T m opts = Inr inst"
    and "oe_crypto (rg_env R) = dt_crypto T" and "oe_curve (rg_env R) = dt_curve T"
    and "rg_artifact_codec R = dt_codec T"
    and "rg_register_signatures R (public_function_signatures (dm_artifact m)) = Inr ()"
  shows "registrable R arts \<lparr>rq_instance = inst, rq_artifact = Some (dm_artifact m)\<rparr> \<and>
    check_artifact R inst (dm_artifact m) = Inr ()"
  using instance_facts[OF assms(2)[unfolded deploy_get_instance_def] assms(1)] assms(3-6)
  by (auto simp: registrable_def check_artifact_def Let_def)

subsection \<open>Announcing the class and the instance\<close>

text \<open>What the PXE makes of a call to a protocol contract, and what the call announces as nullifiers.\<close>

definition protocol_call ::
    "crypto \<Rightarrow> curve \<Rightarrow> 'w \<Rightarrow> capsule list \<Rightarrow> aztec_address \<Rightarrow> fr \<Rightarrow> function_call \<Rightarrow> 'w call_execution_bundle option result" where
  "protocol_call C V empty_witness capsules origin first_nullifier call =
     (case resolve_protocol_function_name C (fc_to call) (fc_selector call) of
        None \<Rightarrow> Inr None
      | Some name \<Rightarrow> protocol_private_execution C V empty_witness (Inr capsules) (fc_to call) name
          (abi_values_to_fields (fc_args call)) origin first_nullifier)"

definition announced :: "'w call_execution_bundle \<Rightarrow> fr list" where
  "announced b = map (\<lambda>n. nf_value (snf_nullifier n)) (call_nullifiers (call_data (er_entrypoint (cb_execution_result b))))"

lemma flatten_boolean: "flatten_abi_value (VBoolean b) = [fr_from_bool b]"
  by (simp add: fr_from_bool_def)

lemma flatten_point: "flatten_abi_value (point_to_abi_value p) = [point_x p, point_y p, fr_from_bool (point_is_infinite p)]"
  by (simp add: point_to_abi_value_def fr_from_bool_def)

lemma published_fields:
  "abi_values_to_fields (fc_args (ix_call (publish_instance T inst))) =
     (let i = iwa_inner inst; k = in_public_keys i in
      [in_salt i, in_current_contract_class_id i, in_initialization_hash i] @
      concat (map (\<lambda>p. [point_x p, point_y p, fr_from_bool (point_is_infinite p)])
        [master_nullifier_public_key k, master_incoming_viewing_public_key k, master_outgoing_viewing_public_key k,
         master_tagging_public_key k]) @ [fr_from_bool (in_deployer i = AztecAddress 0)])"
  by (simp add: publish_instance_def interaction_new_def Let_def abi_values_to_fields_def public_keys_to_abi_value_def
      flatten_point flatten_boolean del: flatten_abi_value.simps(2))

lemma registries_differ: "contract_instance_registry \<noteq> contract_class_registry"
proof -
  have "(3 :: fr) = 2 + 1" by simp
  then have "(2 :: fr) \<noteq> 3" by (metis add.right_neutral add_left_cancel zero_neq_one)
  then show ?thesis by (simp add: contract_class_registry_def contract_instance_registry_def)
qed

lemma protocol_names:
  "resolve_protocol_function_name C contract_instance_registry
     (function_selector_from_signature C publish_instance_signature) = Some ''publish_for_public_execution''"
  "resolve_protocol_function_name C contract_class_registry
     (function_selector_from_signature C publish_class_signature) = Some ''publish''"
  using registries_differ by (simp_all add: resolve_protocol_function_name_def)

lemma publish_instance_announces:
  assumes address: "compute_contract_address_from_instance C (dt_curve T) (iwa_inner inst) = Inr (iwa_address inst)"
    and C: "C = dt_crypto T"
    and class_id: "in_original_contract_class_id (iwa_inner inst) = in_current_contract_class_id (iwa_inner inst)"
    and version: "in_version (iwa_inner inst) = 1"
    and deployer: "in_deployer (iwa_inner inst) \<in> {aztec_address_zero, origin}"
  shows "\<exists>b. protocol_call C (dt_curve T) ew capsules origin n (ix_call (publish_instance T inst)) = Inr (Some b) \<and>
    announced b = [address_field (iwa_address inst)]"
proof -
  let ?i = "iwa_inner inst"
  let ?fields = "abi_values_to_fields (fc_args (ix_call (publish_instance T inst)))"
  have read: "length ?fields = 16" "?fields ! 0 = in_salt ?i" "?fields ! 1 = in_current_contract_class_id ?i"
    "?fields ! 2 = in_initialization_hash ?i" "?fields ! 15 \<noteq> 0 \<longleftrightarrow> in_deployer ?i = aztec_address_zero"
    "decode_point ?fields 3 = master_nullifier_public_key (in_public_keys ?i)"
    "decode_point ?fields 6 = master_incoming_viewing_public_key (in_public_keys ?i)"
    "decode_point ?fields 9 = master_outgoing_viewing_public_key (in_public_keys ?i)"
    "decode_point ?fields 12 = master_tagging_public_key (in_public_keys ?i)"
    unfolding published_fields by (simp_all add: Let_def decode_point_def aztec_address_zero_def)
  have rebuilt: "\<lparr>in_version = 1, in_salt = in_salt ?i,
     in_deployer = (if in_deployer ?i = aztec_address_zero then aztec_address_zero else origin),
     in_current_contract_class_id = in_current_contract_class_id ?i,
     in_original_contract_class_id = in_current_contract_class_id ?i, in_initialization_hash = in_initialization_hash ?i,
     in_public_keys = \<lparr>master_nullifier_public_key = master_nullifier_public_key (in_public_keys ?i),
       master_incoming_viewing_public_key = master_incoming_viewing_public_key (in_public_keys ?i),
       master_outgoing_viewing_public_key = master_outgoing_viewing_public_key (in_public_keys ?i),
       master_tagging_public_key = master_tagging_public_key (in_public_keys ?i)\<rparr>\<rparr> = ?i"
    using class_id version deployer by (cases ?i; cases "in_public_keys ?i") auto
  have "\<exists>b. publish_instance_bundle C (dt_curve T) ew contract_instance_registry ?fields origin n = Inr b \<and>
      announced b = [address_field (iwa_address inst)]"
    unfolding publish_instance_bundle_def
    by (simp add: read rebuilt address Let_def announced_def recorded_bundle_def call_with_def del: One_nat_def)
  then show ?thesis
    using registries_differ
    by (auto simp: protocol_call_def protocol_private_execution_def C publish_instance_def interaction_new_def Let_def
        protocol_names)
qed

text \<open>The fields of the class log after the header: the bytecode.\<close>

definition published_bytecode :: "'w call_execution_bundle \<Rightarrow> fr list" where
  "published_bytecode b =
     (case call_contract_class_logs (call_data (er_entrypoint (cb_execution_result b))) of
        log # _ \<Rightarrow> drop 5 (ccl_fields (cccl_log log)) | [] \<Rightarrow> [])"

lemma publish_class_announces:
  assumes ix: "publish_contract_class T artifact = Inr ix" and C: "C = dt_crypto T"
    and class_id: "compute_contract_class_id_from_artifact C (dt_codec T) artifact = Inr class_id"
  shows "\<exists>b. protocol_call C V ew (ix_capsules ix) origin n (ix_call ix) = Inr (Some b) \<and> announced b = [class_id] \<and>
    (let code = extract_packed_public_bytecode (dt_codec T) artifact in
     if code = [] then published_bytecode b = [] else buffer_from_fields (published_bytecode b) = Inr code)"
proof -
  let ?code = "extract_packed_public_bytecode (dt_codec T) artifact"
  from ix obtain commitment fs where
    c: "compute_public_bytecode_commitment C ?code = Inr commitment"
    and fs: "(if ?code = [] then Inr [] else buffer_as_fields ?code MAX_PACKED_PUBLIC_BYTECODE_SIZE_IN_FIELDS) = Inr fs"
    and ix': "ix = interaction_new_with_capsules
          \<lparr>fc_to = contract_class_registry, fc_selector = function_selector_from_signature C publish_class_signature,
           fc_args = [VField (compute_artifact_hash C (dt_codec T) artifact),
             VField (compute_private_functions_root_from_artifact C artifact), VField commitment],
           fc_function_type = Private, fc_is_static = False, fc_hide_msg_sender = False\<rparr>
          (if fs = [] then []
           else [\<lparr>cap_contract_address = contract_class_registry,
                  cap_storage_slot = contract_class_registry_bytecode_capsule_slot, cap_data = fs\<rparr>])"
    unfolding publish_contract_class_def Let_def C by (auto simp: bind_result_Inr_iff)
  have k: "class_id = compute_contract_class_id C (compute_artifact_hash C (dt_codec T) artifact)
      (compute_private_functions_root_from_artifact C artifact) commitment"
    using class_id c by (simp add: compute_contract_class_id_from_artifact_def)
  have "(length ?code + 30) div 31 < 3000"
    using c by (auto simp: compute_public_bytecode_commitment_def Let_def MAX_PACKED_PUBLIC_BYTECODE_SIZE_IN_FIELDS_def
        split: if_splits)
  then have "length ?code < 2 ^ 64" by simp
  then have "?code \<noteq> [] \<Longrightarrow> buffer_from_fields fs = Inr ?code"
    using fs buffer_roundtrip[of ?code MAX_PACKED_PUBLIC_BYTECODE_SIZE_IN_FIELDS fs] by simp
  then have "\<exists>b. publish_class_bundle C ew (Inr (ix_capsules ix)) contract_class_registry
      (abi_values_to_fields (fc_args (ix_call ix))) origin n = Inr b \<and> announced b = [class_id] \<and>
      (if ?code = [] then published_bytecode b = [] else buffer_from_fields (published_bytecode b) = Inr ?code)"
    using fs unfolding publish_class_bundle_def ix' interaction_new_with_capsules_def
    by (auto simp: abi_values_to_fields_def k Let_def announced_def published_bytecode_def recorded_bundle_def
        call_with_def list_get_def split: if_splits)
  then show ?thesis
    by (auto simp: protocol_call_def protocol_private_execution_def ix' interaction_new_with_capsules_def Let_def
        protocol_names)
qed

text \<open>The constructor call is the one the initialization hash commits to.\<close>

definition initializes :: "crypto \<Rightarrow> contract_instance_with_address \<Rightarrow> function_call \<Rightarrow> bool" where
  "initializes C inst call \<longleftrightarrow> fc_to call = iwa_address inst \<and>
     in_initialization_hash (iwa_inner inst) = compute_initialization_hash_from_encoded C
       (function_selector_to_field (fc_selector call)) (abi_values_to_fields (fc_args call))"

lemma fields_of_fields: "abi_values_to_fields (map VField fs) = fs"
  by (induction fs) (simp_all add: abi_values_to_fields_def)

lemma constructor_initializes:
  assumes "dt_bbjs T = None" and "deploy_get_instance T m opts = Inr inst"
    and "dm_constructor_name m = Some name" and "constructor_call T m inst name = Inr call"
  shows "initializes (dt_crypto T) inst call"
proof -
  from assms(4) obtain func encoded where f: "find_function (dm_artifact m) name = Inr func"
    "encode_arguments func (dm_args m) = Inr encoded" "fc_to call = iwa_address inst"
    "fc_selector call = selector_of (dt_crypto T) func" "fc_args call = map VField encoded"
    by (auto simp: constructor_call_def bind_result_Inr_iff)
  have "\<exists>g. find_initializer (dm_artifact m) (Some name) = Inr g \<and>
      compute_initialization_hash (dt_crypto T) g (dm_args m) = Inr (in_initialization_hash (iwa_inner inst))"
    using instance_facts(8)[OF assms(2)[unfolded deploy_get_instance_def] assms(1)] assms(3) by simp
  then show ?thesis
    using f by (auto simp: initializes_def find_initializer_def compute_initialization_hash_def
        compute_initialization_hash_from_encoded_def fields_of_fields)
qed

lemma merge_without_payers:
  assumes "\<forall>p \<in> set payloads. ep_fee_payer p = None" and "merge_payloads payloads = Inr payload"
  shows "payload = all_of payloads"
  using assms by (simp add: merge_payloads_eq split: if_splits)

lemma deploy_request_parts:
  assumes "deploy_request T W m opts w = (Inr payload, w')"
  obtains inst for_class for_constructor v v' where "deploy_get_instance T m opts = Inr inst"
    and "class_payloads T W m opts inst v = (Inr for_class, v')" and "constructor_payloads T m opts inst = Inr for_constructor"
    and "merge_payloads (for_class @
         (if do_skip_instance_publication opts then [] else [interaction_request (publish_instance T inst)]) @
         for_constructor) = Inr payload"
  using assms unfolding deploy_request_def
  by (auto simp: seq_def lift_result_def ret_def split: prod.splits sum.splits if_splits)

lemma class_payloads_cases:
  assumes "class_payloads T W m opts inst v = (Inr for_class, v')"
  obtains (none) "for_class = []"
    | (one) ix where "publish_contract_class T (dm_artifact m) = Inr ix" and "for_class = [interaction_request ix]"
  using assms by (auto simp: class_payloads_def bind_result_Inr_iff split: prod.splits if_splits)

lemma constructor_payloads_cases:
  assumes "constructor_payloads T m opts inst = Inr for_constructor"
  obtains (none) "for_constructor = []" and "do_skip_initialization opts \<or> dm_constructor_name m = None"
    | (one) name call where "dm_constructor_name m = Some name" and "constructor_call T m inst name = Inr call"
      and "for_constructor = [execution_payload_default\<lparr>ep_calls := [call]\<rparr>]"
  using assms by (auto simp: constructor_payloads_def bind_result_Inr_iff split: if_splits option.splits)

text \<open>
  C27. A deployment transaction deploys the contract it says. The payload of a deployment sent by \<open>origin\<close> holds,
  in this order: at most one call that publishes the class, one that publishes the instance unless that is
  skipped, and the constructor unless that is skipped or there is none. Executed by the PXE for \<open>origin\<close>, the
  first announces the class id of the instance together with the public bytecode of the artifact, the
  second announces the address of the instance; the constructor call goes to that address, and it is the
  call that the initialization hash in the address commits to. The deployer has to be the sender, or nobody.
\<close>

theorem deployment_consistent:
  assumes tool: "dt_bbjs T = None"
    and sender: "do_universal_deploy opts \<or> do_from opts \<in> {None, Some origin}"
    and request: "deploy_request T W m (with_effective_from opts (Some origin)) w = (Inr payload, w')"
  shows "\<exists>inst cls ins cons. deploy_get_instance T m (with_effective_from opts (Some origin)) = Inr inst \<and>
    ep_calls payload = cls @ ins @ cons \<and>
    (cls = [] \<or> (\<exists>c b. cls = [c] \<and>
       protocol_call (dt_crypto T) (dt_curve T) ew (ep_capsules payload) origin n c = Inr (Some b) \<and>
       announced b = [in_current_contract_class_id (iwa_inner inst)] \<and>
       (let code = extract_packed_public_bytecode (dt_codec T) (dm_artifact m) in
        if code = [] then published_bytecode b = [] else buffer_from_fields (published_bytecode b) = Inr code))) \<and>
    (if do_skip_instance_publication opts then ins = []
     else \<exists>c b. ins = [c] \<and>
       protocol_call (dt_crypto T) (dt_curve T) ew (ep_capsules payload) origin n c = Inr (Some b) \<and>
       announced b = [address_field (iwa_address inst)]) \<and>
    (if do_skip_initialization opts \<or> dm_constructor_name m = None then cons = []
     else \<exists>c. cons = [c] \<and> initializes (dt_crypto T) inst c)"
proof -
  let ?opts = "with_effective_from opts (Some origin)"
  have same: "do_skip_instance_publication ?opts = do_skip_instance_publication opts"
    "do_skip_initialization ?opts = do_skip_initialization opts" by (simp_all add: with_effective_from_def)
  obtain inst for_class for_cons v v' where inst: "deploy_get_instance T m ?opts = Inr inst"
    and cls: "class_payloads T W m ?opts inst v = (Inr for_class, v')"
    and cons: "constructor_payloads T m ?opts inst = Inr for_cons"
    and merge: "merge_payloads (for_class @
      (if do_skip_instance_publication ?opts then [] else [interaction_request (publish_instance T inst)]) @ for_cons) =
      Inr payload" by (rule deploy_request_parts[OF request])
  note facts = instance_facts[OF inst[unfolded deploy_get_instance_def] tool]
  let ?ins = "if do_skip_instance_publication opts then [] else [interaction_request (publish_instance T inst)]"
  have payers: "ep_fee_payer (interaction_request ix) = None" for ix
    by (simp add: interaction_request_def execution_payload_default_def)
  have no_payer: "\<forall>p \<in> set (for_class @ ?ins @ for_cons). ep_fee_payer p = None"
    by (cases rule: class_payloads_cases[OF cls]; cases rule: constructor_payloads_cases[OF cons])
      (auto simp: payers execution_payload_default_def)
  have payload: "payload = all_of (for_class @ ?ins @ for_cons)"
    by (rule merge_without_payers[OF no_payer]) (use merge same in simp)
  have caps: "ep_capsules payload = concat (map ep_capsules for_class)"
    by (cases rule: constructor_payloads_cases[OF cons])
      (auto simp: payload all_of_def execution_payload_default_def interaction_request_def publish_instance_def
        interaction_new_def Let_def)
  have deployer: "in_deployer (iwa_inner inst) \<in> {aztec_address_zero, origin}"
    using facts(4) sender by (auto simp: with_effective_from_def Nargo_Artifact.unwrap_or_def split: if_splits option.splits)
  let ?K = "\<lambda>ps. concat (map ep_calls ps)"
  have "?K for_class = [] \<or> (\<exists>c b. ?K for_class = [c] \<and>
       protocol_call (dt_crypto T) (dt_curve T) ew (ep_capsules payload) origin n c = Inr (Some b) \<and>
       announced b = [in_current_contract_class_id (iwa_inner inst)] \<and>
       (let code = extract_packed_public_bytecode (dt_codec T) (dm_artifact m) in
        if code = [] then published_bytecode b = [] else buffer_from_fields (published_bytecode b) = Inr code))"
    using cls
  proof (cases rule: class_payloads_cases)
    case (one ix)
    then have eqs: "ep_capsules payload = ix_capsules ix" "?K for_class = [ix_call ix]"
      by (simp_all add: caps interaction_request_def)
    show ?thesis
      unfolding eqs using publish_class_announces[OF one(1) refl facts(1), of "dt_curve T" ew origin n] by blast
  qed simp
  moreover have "if do_skip_instance_publication opts then ?K ?ins = []
     else \<exists>c b. ?K ?ins = [c] \<and>
       protocol_call (dt_crypto T) (dt_curve T) ew (ep_capsules payload) origin n c = Inr (Some b) \<and>
       announced b = [address_field (iwa_address inst)]"
    using publish_instance_announces[OF facts(3) refl facts(2) facts(7) deployer, of ew "ep_capsules payload" n]
    by (simp add: interaction_request_def)
  moreover have "if do_skip_initialization opts \<or> dm_constructor_name m = None then ?K for_cons = []
     else \<exists>c. ?K for_cons = [c] \<and> initializes (dt_crypto T) inst c"
    using cons by (cases rule: constructor_payloads_cases[OF cons])
      (auto simp: same constructor_initializes[OF tool inst] constructor_payloads_def)
  moreover have "ep_calls payload = ?K for_class @ ?K ?ins @ ?K for_cons" by (simp add: payload all_of_def)
  ultimately show ?thesis using inst by blast
qed

subsection \<open>Accounts\<close>

lemma account_deploys_itself:
  assumes "dt_bbjs T = None" and "account_manager_create T secret contract salt = Inr mgr"
    and "account_manager_deploy_method T mgr random = Inr d"
    and "am_has_initializer mgr \<or> (\<forall>x. ak_contract_artifact contract = Inr x \<longrightarrow> find fa_is_initializer (ca_functions x) = None)"
  shows "dac_inner_instance d = am_instance mgr \<and>
    deploy_get_instance T (dac_inner d) (to_deploy_options d opts) = Inr (am_instance mgr)"
proof -
  from assms(2) obtain artifact spec inst where a: "ak_contract_artifact contract = Inr artifact"
    "ak_initialization_function_and_args contract = Inr spec"
    "get_contract_instance_from_instantiation_params T artifact (account_params (dt_curve T) secret salt spec) = Inr inst"
    "mgr = \<lparr>am_secret_key = secret, am_account_contract = contract, am_has_initializer = (spec \<noteq> None),
       am_instance = inst, am_salt = salt\<rparr>"
    unfolding account_manager_create_def by (auto simp: bind_result_Inr_iff)
  note facts = instance_facts[OF a(3) assms(1)]
  let ?args = "case spec of Some s \<Rightarrow> is_constructor_args s | None \<Rightarrow> []"
  from assms(3) obtain inner where inner: "deployer_deploy
      \<lparr>dp_artifact = artifact, dp_public_keys = in_public_keys (iwa_inner inst),
       dp_constructor_name = map_option is_constructor_name spec\<rparr> random ?args = Inr inner"
    and d: "dac_inner d = inner" "deploy_get_instance T inner
      (deploy_options_default\<lparr>do_contract_address_salt := Some salt\<rparr>) = Inr (dac_inner_instance d)"
    unfolding account_manager_deploy_method_def by (auto simp: bind_result_Inr_iff a)
  have "dm_constructor_name inner = map_option is_constructor_name spec"
    using inner assms(4) a by (cases spec) (auto simp: deployer_deploy_def choose_constructor_def bind_result_Inr_iff split: if_splits)
  with inner have "inner = \<lparr>dm_artifact = artifact, dm_args = ?args, dm_public_keys = in_public_keys (iwa_inner inst),
      dm_constructor_name = map_option is_constructor_name spec, dm_default_salt = random\<rparr>"
    by (auto simp: deployer_deploy_def bind_result_Inr_iff)
  moreover have "in_public_keys (iwa_inner inst) = dk_public_keys (derive_keys (dt_curve T) secret)" "in_salt (iwa_inner inst) = salt"
    using facts(5,6) by (simp_all add: account_params_def)
  ultimately have again: "deploy_get_instance T inner opts' = Inr inst"
    if "do_contract_address_salt opts' = Some salt" "do_universal_deploy opts' \<or> do_from opts' = None" for opts'
    using that a(3) by (auto simp: deploy_get_instance_def account_params_def Nargo_Artifact.unwrap_or_def)
  then have "dac_inner_instance d = inst" using d by (simp add: deploy_options_default_def)
  then show ?thesis using again[of "to_deploy_options d opts"] d(1) facts(5)
    by (simp add: a(4) to_deploy_options_def account_params_def)
qed


text \<open>An account contract that has an initializer without naming it: the manager's address commits to no
  initialization, the deployment to the first initializer.\<close>

lemma unnamed_initializer_differs:
  assumes "ak_initialization_function_and_args contract = Inr None" and "ak_contract_artifact contract = Inr artifact"
    and "dt_bbjs T = None" and "account_manager_create T secret contract salt = Inr mgr"
    and "find fa_is_initializer (ca_functions artifact) = Some f" and "find_function artifact (fa_name f) = Inr f"
    and "account_manager_deploy_method T mgr random = Inr d"
  shows "in_initialization_hash (iwa_inner (am_instance mgr)) = 0 \<and>
    in_initialization_hash (iwa_inner (dac_inner_instance d)) =
      poseidon2_hash_with_separator (dt_crypto T)
        [function_selector_to_field (selector_of (dt_crypto T) f), compute_var_args_hash (dt_crypto T) []] INITIALIZER"
proof -
  from assms(4) have m: "get_contract_instance_from_instantiation_params T artifact
      (account_params (dt_curve T) secret salt None) = Inr (am_instance mgr)" "am_account_contract mgr = contract"
    unfolding account_manager_create_def by (auto simp: bind_result_Inr_iff assms(1,2))
  let ?inner = "\<lparr>dm_artifact = artifact, dm_args = [], dm_public_keys = in_public_keys (iwa_inner (am_instance mgr)),
    dm_constructor_name = Some (fa_name f), dm_default_salt = random\<rparr>"
  from assms(7) have inner: "fa_parameters f = []"
    and i: "deploy_get_instance T ?inner (deploy_options_default\<lparr>do_contract_address_salt := Some (am_salt mgr)\<rparr>) =
      Inr (dac_inner_instance d)"
    unfolding account_manager_deploy_method_def
    by (auto simp: bind_result_Inr_iff m(2) assms(1,2,5) deployer_deploy_def choose_constructor_def check_arity_def
        split: if_splits)
  show ?thesis
    using instance_facts(8)[OF m(1) assms(3)] instance_facts(8)[OF i[unfolded deploy_get_instance_def] assms(3)] inner assms(6)
    by (auto simp: account_params_def find_initializer_def compute_initialization_hash_def encode_arguments_def
        concat_result_def)
qed

subsection \<open>A deployment to run\<close>

text \<open>A curve on which no address is at infinity.\<close>

definition fixed_curve :: curve where
  "fixed_curve = example_curve\<lparr>cv_mul_bigint := \<lambda>_ _. Affine 1 1, cv_add := \<lambda>_ _. Affine 5 6\<rparr>"

definition example_tools :: deploy_tools where
  "example_tools =
     \<lparr>dt_crypto = example_crypto, dt_curve = fixed_curve, dt_codec = rg_artifact_codec strict_registry,
      dt_hex = plain_hex, dt_bbjs = None\<rparr>"

definition example_account_contract :: account_contract where
  "example_account_contract = schnorr_contract example_crypto fixed_curve (schnorr_new fixed_curve 1)"

definition example_deploy :: deploy_method where
  "example_deploy =
     \<lparr>dm_artifact = schnorr_contract_artifact, dm_args = [VField 1, VField 2],
      dm_public_keys = dk_public_keys (derive_keys fixed_curve 1), dm_constructor_name = Some ''constructor'',
      dm_default_salt = 3\<rparr>"

lemma fixed_address:
  assumes "in_public_keys i = dk_public_keys (derive_keys fixed_curve k)"
  shows "compute_contract_address_from_instance C fixed_curve i = Inr (AztecAddress 5)"
proof -
  have "\<not> point_is_zero (derive_public_key_from_secret_key fixed_curve s)" for s
    by (simp add: derive_public_key_from_secret_key_def scalar_mul_def fixed_curve_def infinity_point_def
        point_is_zero_def generator_def example_curve_def example_encode_def fq_modulus_def)
  then show ?thesis
    by (simp add: compute_contract_address_from_instance_def compute_address_def Let_def assms derive_keys_def)
      (simp add: point_add_def fixed_curve_def)
qed

lemma example_commitment:
  "extract_packed_public_bytecode A schnorr_contract_artifact = []"
  "\<exists>c. compute_public_bytecode_commitment C [] = Inr c"
  by (simp_all add: extract_packed_public_bytecode_def schnorr_contract_artifact_def constructor_artifact_def
      entrypoint_abi_def entrypoint_artifact_def compute_public_bytecode_commitment_def bytecode_separator_def checked_add_def
      MAX_PACKED_PUBLIC_BYTECODE_SIZE_IN_FIELDS_def PUBLIC_BYTECODE_def)

lemma example_constructor:
  "find_function schnorr_contract_artifact ''constructor'' = Inr constructor_artifact"
  "encode_arguments constructor_artifact [VField a, VField b] = Inr [a, b]"
  by (simp_all add: find_function_def schnorr_contract_artifact_def constructor_artifact_def encode_arguments_def
      field_param_def concat_result_def)

lemma example_instance:
  assumes "np_public_keys params = dk_public_keys (derive_keys fixed_curve k)"
    and "np_constructor_name params = Some ''constructor''" and "np_constructor_args params = [VField a, VField b]"
  shows "\<exists>inst. get_contract_instance_from_instantiation_params example_tools schnorr_contract_artifact params = Inr inst"
proof -
  obtain c where "compute_public_bytecode_commitment example_crypto [] = Inr c" using example_commitment(2) by blast
  then show ?thesis
    by (simp add: fixed_address[of _ k] get_contract_instance_from_instantiation_params_def example_tools_def Let_def example_commitment(1)
        find_initializer_def assms example_constructor compute_initialization_hash_def)
qed

lemma example_get_instance: "\<exists>inst. deploy_get_instance example_tools example_deploy opts = Inr inst"
  unfolding deploy_get_instance_def example_deploy_def deploy_method.simps
  by (rule example_instance) simp_all

lemma registrable_example:
  "\<exists>inst. deploy_get_instance example_tools example_deploy deploy_options_default = Inr inst \<and>
     registrable (strict_registry\<lparr>rg_env := (rg_env strict_registry)\<lparr>oe_crypto := example_crypto, oe_curve := fixed_curve\<rparr>\<rparr>)
       Map.empty \<lparr>rq_instance = inst, rq_artifact = Some schnorr_contract_artifact\<rparr>"
proof -
  obtain inst where i: "deploy_get_instance example_tools example_deploy deploy_options_default = Inr inst"
    using example_get_instance by blast
  show ?thesis
    using i deployed_instance_registrable[OF _ i, of "strict_registry\<lparr>rg_env := (rg_env strict_registry)
        \<lparr>oe_crypto := example_crypto, oe_curve := fixed_curve\<rparr>\<rparr>" Map.empty]
    by (simp add: example_tools_def example_deploy_def strict_registry_def)
qed

lemma example_request:
  "\<exists>payload w'. deploy_request example_tools (base_wallet_api example_wallet 601) example_deploy
     (with_effective_from deploy_options_default (Some (AztecAddress 9))) (0, []) = (Inr payload, w')"
proof -
  let ?opts = "with_effective_from deploy_options_default (Some (AztecAddress 9))"
  obtain inst where i: "deploy_get_instance example_tools example_deploy ?opts = Inr inst"
    using example_get_instance by blast
  obtain c where c: "compute_public_bytecode_commitment example_crypto [] = Inr c" using example_commitment(2) by blast
  obtain payload where "class_payloads example_tools (base_wallet_api example_wallet 601) example_deploy ?opts inst (0, []) =
      (Inr [payload], (0, []))" "ep_fee_payer payload = None"
    by (simp add: class_payloads_def base_wallet_api_def wallet_get_contract_class_metadata_def example_wallet_def
        example_node_api_def seq_def ret_def with_effective_from_def deploy_options_default_def publish_contract_class_def
        example_deploy_def example_tools_def example_commitment(1) c Let_def interaction_request_def
        execution_payload_default_def)
  moreover obtain call where "constructor_payloads example_tools example_deploy ?opts inst =
      Inr [execution_payload_default\<lparr>ep_calls := [call]\<rparr>]"
    by (simp add: constructor_payloads_def with_effective_from_def deploy_options_default_def example_deploy_def
        constructor_call_def example_constructor)
  moreover have "wl_register_contract (base_wallet_api example_wallet 601) inst (Some (dm_artifact example_deploy)) None (0, []) =
      (Inr inst, (0, []))"
    by (simp add: base_wallet_api_def wallet_register_contract_def example_wallet_def seq_def ret_def artifact_to_register_def)
  moreover have "\<not> do_skip_registration ?opts" "\<not> do_skip_instance_publication ?opts"
    by (simp_all add: with_effective_from_def deploy_options_default_def)
  ultimately show ?thesis
    by (simp add: deploy_request_def seq_def lift_result_def ret_def i merge_payloads_eq payers_agree_def fee_payers_def
        List.map_filter_simps interaction_request_def execution_payload_default_def)
qed

theorem deployment_consistent_witness:
  "\<exists>payload w' inst. deploy_request example_tools (base_wallet_api example_wallet 601) example_deploy
     (with_effective_from deploy_options_default (Some (AztecAddress 9))) (0, []) = (Inr payload, w') \<and>
     (\<exists>c \<in> set (ep_calls payload). initializes example_crypto inst c)"
proof -
  obtain payload w' where r: "deploy_request example_tools (base_wallet_api example_wallet 601) example_deploy
     (with_effective_from deploy_options_default (Some (AztecAddress 9))) (0, []) = (Inr payload, w')"
    using example_request by blast
  have "dt_bbjs example_tools = None" "do_from deploy_options_default \<in> {None, Some (AztecAddress 9)}"
    by (simp_all add: example_tools_def deploy_options_default_def)
  from deployment_consistent[OF this(1) disjI2[OF this(2)] r, where ew = "()" and n = 0] r show ?thesis
    by (auto simp: deploy_options_default_def example_deploy_def example_tools_def)
qed


end
