(* ===== verification/Tx_Validation.thy ===== *)
theory Tx_Validation
  imports Pxe_Properties Entrypoint_Properties
begin

text \<open>
  The checks of a node on the public calls and the class logs of a transaction (\<open>core/src/validation.rs\<close>), and
  that the transaction the PXE builds for enqueued public calls passes the first of them: aggregation, the
  collectors and the simulated kernel keep calls and calldata in step.
\<close>

subsection \<open>The checks\<close>

definition MAX_FR_CALLDATA_TO_ALL_ENQUEUED_CALLS :: nat where
  "MAX_FR_CALLDATA_TO_ALL_ENQUEUED_CALLS = 12288"

fun check_calldata_hashes :: "crypto \<Rightarrow> (public_call_request \<times> hashed_values) list \<Rightarrow> unit result" where
  "check_calldata_hashes C [] = Inr ()"
| "check_calldata_hashes C ((request, calldata) # rest) =
     (if compute_calldata_hash C (hv_values calldata) \<noteq> pcr_calldata_hash request
      then Inl (InvalidData ''TX_ERROR_INCORRECT_CALLDATA: calldata hash mismatch for call'')
      else check_calldata_hashes C rest)"

definition validate_calldata :: "crypto \<Rightarrow> typed_tx \<Rightarrow> unit result" where
  "validate_calldata C tx =
     (if length (ttx_public_function_calldata tx) \<noteq> typed_number_of_public_calls tx
      then Inl (InvalidData ''TX_ERROR_CALLDATA_COUNT_MISMATCH'')
      else if get_total_public_calldata_count tx > MAX_FR_CALLDATA_TO_ALL_ENQUEUED_CALLS
      then Inl (InvalidData ''TX_ERROR_CALLDATA_COUNT_TOO_LARGE'')
      else check_calldata_hashes C (get_public_call_requests_with_calldata tx))"

text \<open>One more than the position of the last field that is not zero, or one when there is none.\<close>

definition expected_min_length :: "fr list \<Rightarrow> nat" where
  "expected_min_length fs = 1 + (length (dropWhile (\<lambda>f. f = 0) (rev fs)) - 1)"

fun check_log_lengths :: "scoped_log_hash list \<Rightarrow> nat \<Rightarrow> fr list list \<Rightarrow> unit result" where
  "check_log_lengths log_hashes i [] = Inr ()"
| "check_log_lengths log_hashes i (fs # rest) =
     (case list_get log_hashes i of
        Some hash_entry \<Rightarrow>
          if unat (lh_length (slh_log_hash hash_entry)) < expected_min_length fs
          then Inl (InvalidData ''TX_ERROR_CONTRACT_CLASS_LOG_LENGTH'')
          else check_log_lengths log_hashes (Suc i) rest
      | None \<Rightarrow> check_log_lengths log_hashes (Suc i) rest)"

definition validate_contract_class_logs ::
    "private_kernel_tail_public_inputs \<Rightarrow> fr list list \<Rightarrow> unit result" where
  "validate_contract_class_logs p log_fields =
     (let log_hashes = get_non_empty_contract_class_logs_hashes p in
      if length log_hashes \<noteq> length log_fields
      then Inl (InvalidData ''TX_ERROR_CONTRACT_CLASS_LOG_COUNT'')
      else check_log_lengths log_hashes 0 log_fields)"

subsection \<open>What the checks accept\<close>

lemma push_non_empty_eq: "push_non_empty rs requests = requests @ filter (\<lambda>r. \<not> public_call_request_is_empty r) rs"
  unfolding push_non_empty_def by (induction rs arbitrary: requests) auto

lemma number_of_public_calls_eq: "number_of_public_calls p = length (get_all_public_call_requests p)"
  by (simp add: number_of_public_calls_def get_all_public_call_requests_def Let_def push_non_empty_eq split: option.split)

lemma check_calldata_hashes_ok:
  "check_calldata_hashes C pairs = Inr () \<longleftrightarrow>
     (\<forall>(request, calldata) \<in> set pairs. compute_calldata_hash C (hv_values calldata) = pcr_calldata_hash request)"
  by (induction C pairs rule: check_calldata_hashes.induct) auto

lemma validate_calldata_ok:
  "validate_calldata C tx = Inr () \<longleftrightarrow>
     get_total_public_calldata_count tx \<le> MAX_FR_CALLDATA_TO_ALL_ENQUEUED_CALLS \<and>
     list_all2 (\<lambda>request calldata. compute_calldata_hash C (hv_values calldata) = pcr_calldata_hash request)
       (get_all_public_call_requests (ttx_data tx)) (ttx_public_function_calldata tx)"
  by (auto simp: validate_calldata_def typed_number_of_public_calls_def number_of_public_calls_eq
      check_calldata_hashes_ok get_public_call_requests_with_calldata_def list_all2_iff)

text \<open>The hash of a class log is not compared with its fields: only the number of logs and their lengths count.\<close>

lemma class_log_hash_unchecked:
  assumes "validate_contract_class_logs p [fs] = Inr ()" and "expected_min_length other_fs \<le> expected_min_length fs"
  shows "validate_contract_class_logs p [other_fs] = Inr ()"
  using assms by (auto simp: validate_contract_class_logs_def Let_def split: if_splits option.splits)

subsection \<open>The calls of a proven transaction\<close>

lemma non_empty_padded:
  "filter (\<lambda>r. \<not> public_call_request_is_empty r) (pad_public_call_requests rs) =
   filter (\<lambda>r. \<not> public_call_request_is_empty r) rs"
  by (simp add: pad_public_call_requests_def push_until_eq public_call_request_is_empty_def
      public_call_request_empty_def)

text \<open>The kernel lists the calls in the order of their counters, and the teardown call last.\<close>

lemma kernel_call_requests:
  assumes "process_kernel C r constants fee_payer expiry = Inr out"
    and "\<forall>q \<in> set (all_public_call_requests r). pcd_contract_address q \<noteq> aztec_address_zero"
    and "\<forall>q. get_teardown_call_request r = Some q \<longrightarrow> pcd_contract_address q \<noteq> aztec_address_zero"
  shows "get_all_public_call_requests (public_inputs out) = map call_request_of
    (all_public_call_requests r @ (case get_teardown_call_request r of None \<Rightarrow> [] | Some q \<Rightarrow> [q]))"
proof -
  have non_empty: "filter (\<lambda>r. \<not> public_call_request_is_empty r) (map call_request_of (filter P (all_public_call_requests r))) =
      map call_request_of (filter P (all_public_call_requests r))" for P
    using assms(2) by (auto simp: filter_id_conv public_call_request_is_empty_def call_request_of_def)
  have "map call_request_of (filter (\<lambda>q. pcd_counter q < min_revertible r) (all_public_call_requests r)) @
      map call_request_of (filter (\<lambda>q. \<not> pcd_counter q < min_revertible r) (all_public_call_requests r)) =
      map call_request_of (all_public_call_requests r)"
    using filter_split_sorted[OF sorted_kept(4)[of r], of "min_revertible r"] by (metis map_append)
  then have calls: "map call_request_of (filter (\<lambda>q. pcd_counter q < min_revertible r) (all_public_call_requests r)) @
      map call_request_of (filter (\<lambda>q. \<not> pcd_counter q < min_revertible r) (all_public_call_requests r)) @ qs =
      map call_request_of (all_public_call_requests r) @ qs" for qs
    by (metis append_assoc)
  have "public_call_request_is_empty (call_request_of q) = False" if "get_teardown_call_request r = Some q" for q
    using assms(3) that by (simp add: public_call_request_is_empty_def call_request_of_def)
  moreover have "public_call_request_is_empty public_call_request_empty"
    by (simp add: public_call_request_is_empty_def public_call_request_empty_def)
  ultimately show ?thesis
    using assms(1) calls
    by (auto simp: process_kernel_eq process_simps private_only_def get_all_public_call_requests_def push_non_empty_eq
        non_empty_padded non_empty bind_result_Inr_iff split: if_splits option.splits)
qed

lemma collect_sorted:
  assumes "sorted_wrt (<) (map counter xs)"
  shows "collect_by_counter counter xs = xs"
proof (rule firsts_in_order_unique[OF collect_by_counter_firsts])
  have "find (\<lambda>y. counter y = counter x) xs = Some x" if "x \<in> set xs" for x
    using that assms by (induction xs) auto
  moreover have "x \<in> set xs" if "find (\<lambda>y. counter y = counter x) xs = Some x" for x
    using that by (auto simp: find_Some_iff)
  ultimately show "firsts_in_order counter xs xs" using assms by (auto simp: firsts_in_order_def)
qed

text \<open>A public call of a request: its calldata, the contract, and whether it hides the sender or is static.\<close>

type_synonym enqueued_call = "fr list \<times> aztec_address \<times> bool \<times> bool"

fun enqueued :: "crypto \<Rightarrow> 'w \<Rightarrow> aztec_address \<Rightarrow> fr \<Rightarrow> enqueued_call \<Rightarrow> 'w call_execution_bundle" where
  "enqueued C empty_witness origin nullifier (calldata, contract, hide, static) =
     enqueued_bundle C empty_witness calldata contract origin nullifier hide static"

fun request_of :: "crypto \<Rightarrow> aztec_address \<Rightarrow> u32 \<Rightarrow> enqueued_call \<Rightarrow> public_call_request_data" where
  "request_of C origin counter (calldata, contract, hide, static) =
     \<lparr>pcd_contract_address = contract, pcd_msg_sender = (if hide then aztec_address_zero else origin),
      pcd_is_static_call = static, pcd_calldata_hash = compute_calldata_hash C calldata, pcd_counter = counter\<rparr>"

fun requests_from :: "crypto \<Rightarrow> aztec_address \<Rightarrow> u32 \<Rightarrow> enqueued_call list \<Rightarrow> public_call_request_data list" where
  "requests_from C origin offset [] = []"
| "requests_from C origin offset (call # calls) =
     request_of C origin (shift offset 2) call # requests_from C origin (shift offset 3) calls"

lemma offset_enqueued:
  "concat (map call_public_call_requests (concat (map preorder (fst (offset_bundles offset (map (enqueued C ew origin n) calls)))))) =
     requests_from C origin offset calls \<and>
   find_map call_public_teardown_call_request
     (concat (map preorder (fst (offset_bundles offset (map (enqueued C ew origin n) calls))))) = None"
proof (induction calls arbitrary: offset)
  case (Cons call calls)
  obtain calldata contract hide static where call: "call = (calldata, contract, hide, static)" by (cases call) auto
  show ?case using Cons.IH[of "shift offset 3"]
    by (simp add: call enqueued_bundle_def recorded_bundle_def call_with_def private_call_default_def Let_def
        offset_call_def from_calldata_def case_prod_unfold)
qed simp

lemma requests_sorted:
  assumes "unat offset + 3 * length calls < 2 ^ 32"
  shows "sorted_wrt (<) (map pcd_counter (requests_from C origin offset calls)) \<and>
    (\<forall>q \<in> set (requests_from C origin offset calls). unat offset + 2 \<le> unat (pcd_counter q))"
  using assms
proof (induction calls arbitrary: offset)
  case (Cons call calls)
  have s: "unat (shift offset 2) = unat offset + 2" "unat (shift offset 3) = unat offset + 3"
    using Cons.prems by (simp_all add: unat_shift)
  have "unat (shift offset 3) + 3 * length calls < 2 ^ 32" using Cons.prems s(2) by simp
  from Cons.IH[OF this] s show ?case by (cases call) (fastforce simp: word_less_nat_alt)
qed simp

lemma requests_parts:
  "map (\<lambda>q. (pcd_contract_address q, pcd_is_static_call q, pcd_calldata_hash q)) (requests_from C origin n calls) =
     map (\<lambda>(calldata, contract, hide, static). (contract, static, compute_calldata_hash C calldata)) calls"
  by (induction calls arbitrary: n) auto

lemma requests_contracts:
  "q \<in> set (requests_from C origin n calls) \<Longrightarrow>
   \<exists>(calldata, contract, hide, static) \<in> set calls. pcd_contract_address q = contract"
  by (induction calls arbitrary: n) auto

text \<open>The requests and the calldata of aggregated public calls.\<close>

lemma aggregated_calls:
  assumes "aggregated = aggregate_call_bundles ew origin (map (enqueued C ew origin nullifier) calls)"
    and "3 * length calls < 2 ^ 32"
  shows "all_public_call_requests (cb_execution_result aggregated) = requests_from C origin 0 calls"
    and "get_teardown_call_request (cb_execution_result aggregated) = None"
    and "sorted_calldata aggregated = map (\<lambda>(calldata, _). from_calldata C calldata) calls"
proof -
  let ?r = "cb_execution_result aggregated"
  have pre: "preorder (er_entrypoint ?r) = call_data (er_entrypoint ?r) #
      concat (map preorder (fst (offset_bundles 0 (map (enqueued C ew origin nullifier) calls))))"
    unfolding assms(1) by (subst aggregate_result(1)) simp
  have root: "call_public_call_requests (call_data (er_entrypoint ?r)) = []"
      "call_public_teardown_call_request (call_data (er_entrypoint ?r)) = None"
    by (simp_all add: assms(1) aggregate_call_bundles_def private_call_default_def Let_def split: prod.split)
  show "all_public_call_requests ?r = requests_from C origin 0 calls" "get_teardown_call_request ?r = None"
    using offset_enqueued[of 0 C ew origin nullifier calls] root requests_sorted[of 0 calls C origin] assms(2)
    by (simp_all add: all_public_call_requests_def get_teardown_call_request_def iter_all_calls_preorder pre
        collect_sorted)
  have "concat (map cb_public_function_calldata (map (enqueued C ew origin nullifier) calls)) =
      map (\<lambda>(calldata, _). from_calldata C calldata) calls"
    by (induction calls) (auto simp: enqueued_bundle_def recorded_bundle_def Let_def)
  then show "sorted_calldata aggregated = map (\<lambda>(calldata, _). from_calldata C calldata) calls"
    by (simp add: sorted_calldata_same assms(1) aggregate_call_bundles_def Let_def split: prod.split)
qed

text \<open>
  C24. A transaction made of public calls only passes the node's check of its calldata, when the calls have
  an address and together at most the permitted number of fields. Recording, aggregating and collecting the
  calls and splitting them into phases in the kernel leaves them in the order in which the request lists
  them, each with the hash of the calldata at its position.
\<close>

theorem enqueued_calls_validate:
  assumes "aggregated = aggregate_call_bundles ew origin (map (enqueued C ew origin nullifier) calls)"
    and "process_kernel C (cb_execution_result aggregated) constants fee_payer expiry = Inr out"
    and "\<forall>(calldata, contract, hide, static) \<in> set calls. contract \<noteq> aztec_address_zero"
    and "sum_list (map (\<lambda>(calldata, _). length calldata) calls) \<le> MAX_FR_CALLDATA_TO_ALL_ENQUEUED_CALLS"
    and "3 * length calls < 2 ^ 32"
  shows "map (\<lambda>q. (pcr_contract_address q, pcr_is_static_call q, pcr_calldata_hash q))
      (get_all_public_call_requests (public_inputs out)) =
      map (\<lambda>(calldata, contract, hide, static). (contract, static, compute_calldata_hash C calldata)) calls \<and>
    map hv_values (sorted_calldata aggregated) = map fst calls \<and>
    validate_calldata C \<lparr>ttx_tx_hash = h, ttx_data = public_inputs out, ttx_chonk_proof = proof_bytes,
      ttx_contract_class_log_fields = logs, ttx_public_function_calldata = sorted_calldata aggregated\<rparr> = Inr ()"
proof -
  note agg = aggregated_calls[OF assms(1,5)]
  have "\<forall>q \<in> set (requests_from C origin 0 calls). pcd_contract_address q \<noteq> aztec_address_zero"
    using requests_contracts assms(3) by fastforce
  then have "get_all_public_call_requests (public_inputs out) = map call_request_of (requests_from C origin 0 calls)"
    using kernel_call_requests[OF assms(2)] by (simp add: agg)
  then have listed: "map (\<lambda>q. (pcr_contract_address q, pcr_is_static_call q, pcr_calldata_hash q))
      (get_all_public_call_requests (public_inputs out)) =
      map (\<lambda>(calldata, contract, hide, static). (contract, static, compute_calldata_hash C calldata)) calls"
    using requests_parts[of C origin 0 calls] by (simp add: call_request_of_def comp_def)
  then have "map pcr_calldata_hash (get_all_public_call_requests (public_inputs out)) =
      map (\<lambda>call. compute_calldata_hash C (fst call)) calls"
    by (auto simp: list_eq_iff_nth_eq case_prod_unfold)
  then have "list_all2 (\<lambda>request calldata. compute_calldata_hash C (hv_values calldata) = pcr_calldata_hash request)
      (get_all_public_call_requests (public_inputs out)) (sorted_calldata aggregated)"
    by (auto simp: agg(3) list_all2_conv_all_nth list_eq_iff_nth_eq from_calldata_def case_prod_unfold)
  moreover have "map hv_values (sorted_calldata aggregated) = map fst calls"
    by (simp add: agg(3) comp_def from_calldata_def case_prod_unfold)
  moreover have "sum_list (map (\<lambda>hv. length (hv_values hv)) (sorted_calldata aggregated)) =
      sum_list (map (\<lambda>(calldata, _). length calldata) calls)"
    by (simp add: agg(3) comp_def from_calldata_def case_prod_unfold)
  ultimately show ?thesis
    using listed assms(4) by (simp add: validate_calldata_ok get_total_public_calldata_count_def)
qed

definition example_public_calls :: "enqueued_call list" where
  "example_public_calls =
     [([1, 2], AztecAddress 9, False, False), ([1, 4, 5], AztecAddress 8, True, False)]"

lemma example_public_within_limits:
  "within_limits (cb_execution_result (aggregate_call_bundles () (AztecAddress 7)
     (map (enqueued example_crypto () (AztecAddress 7) 3) example_public_calls)))"
  (is "within_limits ?r")
proof -
  have "length (all_public_call_requests ?r) = 2"
    using aggregated_calls(1)[OF refl, of example_public_calls "()" "AztecAddress 7" example_crypto 3]
    by (simp add: example_public_calls_def)
  moreover have "all_note_hashes ?r = [] \<and> all_nullifiers ?r = [] \<and> all_private_logs ?r = [] \<and>
      all_contract_class_logs_sorted ?r = []"
    by (simp add: all_note_hashes_def all_nullifiers_def all_private_logs_def all_contract_class_logs_sorted_def
        iter_all_calls_preorder example_public_calls_def aggregate_call_bundles_def enqueued_bundle_def
        recorded_bundle_def call_with_def private_call_default_def Let_def offset_call_def collect_by_counter_def)
  ultimately show ?thesis
    by (simp add: within_limits_def kept_note_hashes_def kept_nullifiers_def kept_private_logs_def tx_limits)
qed

theorem enqueued_calls_validate_witness:
  "\<exists>out. process_kernel example_crypto (cb_execution_result (aggregate_call_bundles () (AztecAddress 7)
      (map (enqueued example_crypto () (AztecAddress 7) 3) example_public_calls))) example_constants 4 2000 = Inr out \<and>
    validate_calldata example_crypto \<lparr>ttx_tx_hash = TxHash [], ttx_data = public_inputs out, ttx_chonk_proof = [],
      ttx_contract_class_log_fields = [], ttx_public_function_calldata = sorted_calldata
        (aggregate_call_bundles () (AztecAddress 7)
          (map (enqueued example_crypto () (AztecAddress 7) 3) example_public_calls))\<rparr> = Inr ()"
proof -
  obtain out where out: "process_kernel example_crypto (cb_execution_result (aggregate_call_bundles () (AztecAddress 7)
      (map (enqueued example_crypto () (AztecAddress 7) 3) example_public_calls))) example_constants 4 2000 = Inr out"
    using kernel_succeeds[OF example_public_within_limits example_coinbase, of example_crypto 4 2000] by blast
  have "\<forall>(calldata, contract, hide, static) \<in> set example_public_calls. contract \<noteq> aztec_address_zero"
    by (simp add: example_public_calls_def aztec_address_zero_def fr_eval)
  moreover have "length example_public_calls = 2"
      "sum_list (map (\<lambda>(calldata, _). length calldata) example_public_calls) = 5"
    by (simp_all add: example_public_calls_def)
  ultimately show ?thesis
    using enqueued_calls_validate[OF refl out] out by (simp add: MAX_FR_CALLDATA_TO_ALL_ENQUEUED_CALLS_def)
qed

end
