(* ===== verification/Kernel_Oracle.thy ===== *)
theory Kernel_Oracle
  imports Node_Client
begin

text \<open>
  The hints of the private kernel circuits (\<open>pxe/src/kernel/oracle.rs\<close>): preimages of contract addresses and
  class ids, and membership witnesses in the tree of private functions and in the tree of verification keys,
  which is read from a source file of the protocol circuits.

  The state is a pair of the store of the PXE and the world of the node. Files, environment variables and
  the node are parameters. The theorems show that the witnesses prove membership: hashing a leaf along its path
  gives the root that the class id commits to, and the root of the tree in the file.
\<close>

subsection \<open>Paths in a Merkle tree\<close>

definition sibling_index :: "nat \<Rightarrow> nat" where
  "sibling_index index = (if odd index then index - 1 else index + 1)"

function path_loop :: "(fr \<Rightarrow> fr \<Rightarrow> fr) \<Rightarrow> fr list \<Rightarrow> nat \<Rightarrow> fr list" where
  "path_loop node level index =
     (if length level > 1
      then (case list_get level (sibling_index index) of Some f \<Rightarrow> f | None \<Rightarrow> 0) #
        path_loop node (merkle_level node level) (index div 2)
      else [])"
  by auto
termination
  by (relation "measure (\<lambda>(node, level, index). length level)") auto

declare path_loop.simps [simp del]

definition sibling_path_from_leaves :: "crypto \<Rightarrow> fr list \<Rightarrow> nat \<Rightarrow> fr list result" where
  "sibling_path_from_leaves C level leaf_idx =
     (if level = [] \<or> leaf_idx \<ge> length level then Inl (InvalidData ''invalid leaf index for tree'')
      else Inr (path_loop (\<lambda>left right. poseidon2_hash C [left, right]) level leaf_idx))"

text \<open>The tree of verification keys is stored row by row, leaves first.\<close>

function flat_loop :: "fr list \<Rightarrow> nat \<Rightarrow> nat \<Rightarrow> nat \<Rightarrow> fr list result" where
  "flat_loop nodes row_size row_offset index =
     (if row_size > 1
      then bind_result (ok_or (Panic ''index out of bounds'') (list_get nodes (row_offset + sibling_index index)))
        (\<lambda>f. bind_result (flat_loop nodes (row_size div 2) (row_offset + row_size) (index div 2))
          (\<lambda>path. Inr (f # path)))
      else Inr [])"
  by auto
termination
  by (relation "measure (\<lambda>(nodes, row_size, row_offset, index). row_size)") auto

declare flat_loop.simps [simp del]

definition sibling_path_from_flat_tree :: "fr list \<Rightarrow> nat \<Rightarrow> fr list result" where
  "sibling_path_from_flat_tree nodes leaf_idx =
     (let leaf_count = (length nodes + 1) div 2 in
      if leaf_idx \<ge> leaf_count then Inl (InvalidData ''invalid VK leaf index'')
      else flat_loop nodes leaf_count 0 leaf_idx)"

text \<open>\<open>Iterator::position\<close>.\<close>

fun find_position :: "('a \<Rightarrow> bool) \<Rightarrow> 'a list \<Rightarrow> nat option" where
  "find_position P [] = None"
| "find_position P (x # xs) = (if P x then Some 0 else map_option Suc (find_position P xs))"

definition membership_witness_json :: "hex_crate \<Rightarrow> nat \<Rightarrow> fr list \<Rightarrow> json" where
  "membership_witness_json H leaf_idx sibling_path =
     JsObject [(''leafIndex'', js_nat leaf_idx), (''siblingPath'', JsArray (map (fr_json H) sibling_path))]"

subsection \<open>Witnesses for private functions\<close>

definition private_function_membership_witness ::
    "crypto \<Rightarrow> contract_artifact \<Rightarrow> function_selector \<Rightarrow> (nat \<times> fr list) result" where
  "private_function_membership_witness C artifact selector =
     (let private_fns =
            sort_key (\<lambda>(sel, _). u32_from_be_bytes (selector_bytes sel))
              (map (\<lambda>f. (selector_of C f, case fa_verification_key_hash f of None \<Rightarrow> 0 | Some h \<Rightarrow> h))
                (filter (\<lambda>f. fa_function_type f = Private) (ca_functions artifact))) in
      bind_result
        (ok_or (InvalidData ''private function selector not found in artifact'')
          (find_position (\<lambda>(function_selector, _). function_selector = selector) private_fns)) (\<lambda>leaf_idx.
        let leaf_count = 2 ^ FUNCTION_TREE_HEIGHT;
            zero_leaf = poseidon2_hash C [0, 0];
            leaves = resize leaf_count zero_leaf (map (function_leaf C) private_fns) in
        bind_result (sibling_path_from_leaves C leaves leaf_idx) (\<lambda>path. Inr (leaf_idx, path))))"

subsection \<open>Bytecode of a class\<close>

definition hex_value :: "char \<Rightarrow> nat option" where
  "hex_value c = or_else_opt (hex_digit_value ''0123456789abcdef'' c) (hex_digit_value ''0123456789ABCDEF'' c)"

text \<open>\<open>u8::from_str_radix\<close> of two characters, which may start with a plus sign.\<close>

definition pair_value :: "char \<Rightarrow> char \<Rightarrow> u8 option" where
  "pair_value c d =
     (if c = CHR ''+'' then map_option of_nat (hex_value d)
      else Option.bind (hex_value c) (\<lambda>a. map_option (\<lambda>b. of_nat (16 * a + b)) (hex_value d)))"

fun decode_pairs :: "string \<Rightarrow> u8 list option" where
  "decode_pairs [] = Some []"
| "decode_pairs [c] = None"
| "decode_pairs (c # d # cs) =
     Option.bind (pair_value c d) (\<lambda>b. map_option (\<lambda>bs. b # bs) (decode_pairs cs))"

definition kernel_decode_bytecode :: "artifact_codec \<Rightarrow> string \<Rightarrow> u8 list" where
  "kernel_decode_bytecode A encoded =
     (case strip_prefix ''0x'' encoded of
        Some hex \<Rightarrow> (case decode_pairs hex of Some bytes \<Rightarrow> bytes | None \<Rightarrow> [])
      | None \<Rightarrow> (case ac_base64 A encoded of Some bytes \<Rightarrow> bytes | None \<Rightarrow> []))"

definition kernel_packed_public_bytecode :: "artifact_codec \<Rightarrow> contract_artifact \<Rightarrow> u8 list" where
  "kernel_packed_public_bytecode A artifact =
     (case find (\<lambda>f. fa_function_type f = Public \<and> fa_name f = ''public_dispatch'') (ca_functions artifact) of
        None \<Rightarrow> []
      | Some f \<Rightarrow> (case fa_bytecode f of None \<Rightarrow> [] | Some bc \<Rightarrow> kernel_decode_bytecode A bc))"

subsection \<open>The tree of verification keys\<close>

text \<open>What the code reads of its environment: variables, the current directory, and files.\<close>

record file_system =
  fs_var :: "string \<Rightarrow> string option"
  fs_current_dir :: "string option"
  fs_exists :: "string \<Rightarrow> bool"
  fs_read_to_string :: "string \<Rightarrow> string option"

definition path_join :: "string \<Rightarrow> string \<Rightarrow> string" where
  "path_join root rel =
     (if root = [] then rel else if last root = CHR ''/'' then root @ rel else root @ ''/'' @ rel)"

definition vk_tree_candidates :: "file_system \<Rightarrow> string list" where
  "vk_tree_candidates F =
     (case fs_var F ''AZTEC_PACKAGES_PATH'' of
        Some root \<Rightarrow>
          [path_join root ''yarn-project/noir-protocol-circuits-types/src/vk_tree.ts'',
           path_join root ''noir-protocol-circuits-types/src/vk_tree.ts'']
      | None \<Rightarrow> []) @
     (case fs_current_dir F of
        Some cwd \<Rightarrow>
          [path_join cwd ''../aztec-packages/yarn-project/noir-protocol-circuits-types/src/vk_tree.ts'',
           path_join cwd ''../../aztec-packages/yarn-project/noir-protocol-circuits-types/src/vk_tree.ts'']
      | None \<Rightarrow> [])"

definition locate_vk_tree_path :: "file_system \<Rightarrow> string option" where
  "locate_vk_tree_path F =
     (case fs_var F ''PXE_VK_TREE_PATH'' of
        Some path \<Rightarrow> if fs_exists F path then Some path else find (fs_exists F) (vk_tree_candidates F)
      | None \<Rightarrow> find (fs_exists F) (vk_tree_candidates F))"

definition quote_char :: char where
  "quote_char = CHR 0x27"

definition is_ascii_hexdigit :: "char \<Rightarrow> bool" where
  "is_ascii_hexdigit c \<longleftrightarrow> c \<in> set ''0123456789abcdefABCDEF''"

text \<open>Every run of 64 hexadecimal digits in single quotes is a node.\<close>

function quoted_nodes :: "hex_crate \<Rightarrow> string \<Rightarrow> fr list result" where
  "quoted_nodes H bytes =
     (if length bytes < 66 then Inr []
      else if bytes ! 0 = quote_char \<and> bytes ! 65 = quote_char \<and> list_all is_ascii_hexdigit (take 64 (drop 1 bytes))
      then bind_result (fr_from_hex H (''0x'' @ take 64 (drop 1 bytes))) (\<lambda>f.
        bind_result (quoted_nodes H (drop 66 bytes)) (\<lambda>fs. Inr (f # fs)))
      else quoted_nodes H (drop 1 bytes))"
  by auto
termination
  by (relation "measure (\<lambda>(H, bytes). length bytes)") auto

declare quoted_nodes.simps [simp del]

fun is_power_of_two :: "nat \<Rightarrow> bool" where
  "is_power_of_two n = (if n \<le> 1 then n = 1 else even n \<and> is_power_of_two (n div 2))"

declare is_power_of_two.simps [simp del]

definition parse_vk_tree_nodes :: "hex_crate \<Rightarrow> string \<Rightarrow> fr list result" where
  "parse_vk_tree_nodes H contents =
     bind_result (quoted_nodes H contents) (\<lambda>nodes.
       if nodes = [] then Inl (InvalidData ''VK tree contains no nodes'')
       else if \<not> is_power_of_two (length nodes) \<and> is_power_of_two (length nodes + 1) then Inr nodes
       else Inl (InvalidData ''VK tree has invalid flat node count''))"

definition load_vk_tree :: "file_system \<Rightarrow> hex_crate \<Rightarrow> fr list result" where
  "load_vk_tree F H =
     bind_result (ok_or (InvalidData ''VK tree not found'') (locate_vk_tree_path F)) (\<lambda>path.
     bind_result (ok_or (InvalidData ''failed to read VK tree'') (fs_read_to_string F path)) (\<lambda>contents.
       parse_vk_tree_nodes H contents))"

subsection \<open>The oracle\<close>

record 'w kernel_node =
  kn_get_contract :: "aztec_address \<Rightarrow> ('w, contract_instance_with_address option) op"
  kn_get_contract_class :: "fr \<Rightarrow> ('w, json option) op"
  kn_get_note_hash_membership_witness :: "u64 \<Rightarrow> fr \<Rightarrow> ('w, json option) op"
  kn_get_nullifier_membership_witness :: "u64 \<Rightarrow> fr \<Rightarrow> ('w, json option) op"
  kn_get_block_header :: "u64 \<Rightarrow> ('w, json) op"
  kn_get_block_hash_membership_witness :: "u64 \<Rightarrow> fr \<Rightarrow> ('w, json option) op"

definition http_kernel_node :: "'w http_node_client \<Rightarrow> ('w \<times> u64) kernel_node" where
  "http_kernel_node self =
     \<lparr>kn_get_contract = http_get_contract self,
      kn_get_contract_class = http_get_contract_class self,
      kn_get_note_hash_membership_witness = http_get_note_hash_membership_witness self,
      kn_get_nullifier_membership_witness = http_get_nullifier_membership_witness self,
      kn_get_block_header = http_get_block_header self,
      kn_get_block_hash_membership_witness = http_get_block_hash_membership_witness self\<rparr>"

record ('s, 'v, 'w) private_kernel_oracle =
  ko_node :: "'w kernel_node"
  ko_contract_store :: "('s, 'v) contract_store"
  ko_key_store :: "('s, 'v) key_store"
  ko_block_hash :: fr
  ko_crypto :: crypto
  ko_codec :: artifact_codec
  ko_hex :: hex_crate
  ko_public_keys_json :: "public_keys \<Rightarrow> json"
  ko_files :: file_system

definition in_store :: "('s, 'a) op \<Rightarrow> ('s \<times> 'w, 'a) op" where
  "in_store m = (\<lambda>(s, w). case m s of (r, s') \<Rightarrow> (r, s', w))"

definition on_world :: "('w, 'a) op \<Rightarrow> ('s \<times> 'w, 'a) op" where
  "on_world m = (\<lambda>(s, w). case m w of (r, w') \<Rightarrow> (r, s, w'))"

definition address_preimage_json ::
    "('s, 'v, 'w) private_kernel_oracle \<Rightarrow> contract_instance_with_address \<Rightarrow> json" where
  "address_preimage_json self inst =
     (let H = ko_hex self; i = iwa_inner inst in
      JsObject
        [(''address'', address_json H (iwa_address inst)),
         (''saltedInitializationHash'', fr_json H
            (compute_salted_initialization_hash (ko_crypto self) (in_salt i) (in_initialization_hash i) (in_deployer i))),
         (''version'', js_nat (unat (in_version i))),
         (''salt'', fr_json H (in_salt i)),
         (''deployer'', address_json H (in_deployer i)),
         (''currentContractClassId'', fr_json H (in_current_contract_class_id i)),
         (''originalContractClassId'', fr_json H (in_original_contract_class_id i)),
         (''initializationHash'', fr_json H (in_initialization_hash i)),
         (''publicKeys'', ko_public_keys_json self (in_public_keys i))])"

definition get_contract_address_preimage ::
    "('s, 'v, 'w) private_kernel_oracle \<Rightarrow> aztec_address \<Rightarrow> ('s \<times> 'w, json) op" where
  "get_contract_address_preimage self address =
     seq (in_store (get_instance (ko_contract_store self) address)) (\<lambda>known.
     seq (case known of
            Some inst \<Rightarrow> ret inst
          | None \<Rightarrow>
              seq (on_world (kn_get_contract (ko_node self) address)) (\<lambda>found.
                lift_result (ok_or (InvalidData ''contract instance not found for address'') found))) (\<lambda>inst.
       ret (address_preimage_json self inst)))"

definition contract_class_preimage ::
    "crypto \<Rightarrow> artifact_codec \<Rightarrow> hex_crate \<Rightarrow> contract_artifact \<Rightarrow> json result" where
  "contract_class_preimage C A H artifact =
     bind_result (compute_public_bytecode_commitment C (kernel_packed_public_bytecode A artifact)) (\<lambda>commitment.
       Inr (JsObject
         [(''artifactHash'', fr_json H (compute_artifact_hash C A artifact)),
          (''privateFunctionsRoot'', fr_json H (compute_private_functions_root_from_artifact C artifact)),
          (''publicBytecodeCommitment'', fr_json H commitment)]))"

definition get_contract_class_id_preimage ::
    "('s, 'v, 'w) private_kernel_oracle \<Rightarrow> fr \<Rightarrow> ('s \<times> 'w, json) op" where
  "get_contract_class_id_preimage self class_id =
     seq (in_store (get_class_preimage (ko_contract_store self) class_id)) (\<lambda>preimage.
       case preimage of
         Some preimage \<Rightarrow> ret preimage
       | None \<Rightarrow>
           seq (in_store (get_artifact (ko_contract_store self) class_id)) (\<lambda>artifact.
             case artifact of
               Some artifact \<Rightarrow>
                 lift_result (contract_class_preimage (ko_crypto self) (ko_codec self) (ko_hex self) artifact)
             | None \<Rightarrow>
                 seq (on_world (kn_get_contract_class (ko_node self) class_id)) (\<lambda>class_data.
                   lift_result (ok_or (InvalidData ''contract class not found for id'') class_data))))"

definition get_function_membership_witness ::
    "('s, 'v, 'w) private_kernel_oracle \<Rightarrow> fr \<Rightarrow> fr \<Rightarrow> ('s \<times> 'w, json) op" where
  "get_function_membership_witness self class_id selector =
     seq (in_store (get_artifact (ko_contract_store self) class_id)) (\<lambda>found.
     seq (lift_result (ok_or (InvalidData ''contract artifact not found for private function witness class'') found))
       (\<lambda>artifact.
     seq (lift_result (private_function_membership_witness (ko_crypto self) artifact
            (function_selector_from_field selector))) (\<lambda>(leaf_idx, sibling_path).
       ret (membership_witness_json (ko_hex self) leaf_idx sibling_path))))"

definition get_vk_membership_witness ::
    "('s, 'v, 'w) private_kernel_oracle \<Rightarrow> fr \<Rightarrow> json result" where
  "get_vk_membership_witness self vk_hash =
     bind_result (load_vk_tree (ko_files self) (ko_hex self)) (\<lambda>nodes.
     let leaf_count = (length nodes + 1) div 2 in
     bind_result (ok_or (InvalidData ''VK hash not found in VK tree'')
       (find_position (\<lambda>leaf. leaf = vk_hash) (take leaf_count nodes))) (\<lambda>leaf_idx.
     bind_result (sibling_path_from_flat_tree nodes leaf_idx) (\<lambda>sibling_path.
       Inr (membership_witness_json (ko_hex self) leaf_idx sibling_path))))"

definition oracle_note_hash_membership_witness ::
    "('s, 'v, 'w) private_kernel_oracle \<Rightarrow> fr \<Rightarrow> ('s \<times> 'w, json option) op" where
  "oracle_note_hash_membership_witness self note_hash =
     on_world (kn_get_note_hash_membership_witness (ko_node self) 0 note_hash)"

definition oracle_nullifier_membership_witness ::
    "('s, 'v, 'w) private_kernel_oracle \<Rightarrow> fr \<Rightarrow> ('s \<times> 'w, json option) op" where
  "oracle_nullifier_membership_witness self nullifier =
     on_world (kn_get_nullifier_membership_witness (ko_node self) 0 nullifier)"

definition get_note_hash_tree_root :: "('s, 'v, 'w) private_kernel_oracle \<Rightarrow> ('s \<times> 'w, fr) op" where
  "get_note_hash_tree_root self =
     seq (on_world (kn_get_block_header (ko_node self) 0)) (\<lambda>header.
       case Option.bind (Private_Oracle.js_pointer [''state'', ''partial'', ''noteHashTree'', ''root''] header) js_str of
         Some root \<Rightarrow> lift_result (fr_from_hex (ko_hex self) root)
       | None \<Rightarrow> fail (InvalidData ''note hash tree root not found in block header''))"

definition get_master_secret_key :: "('s, 'v, 'w) private_kernel_oracle \<Rightarrow> fr \<Rightarrow> ('s \<times> 'w, fr option) op" where
  "get_master_secret_key self pk_hash = in_store (get_secret_key (ko_key_store self) pk_hash)"

definition oracle_block_hash_membership_witness ::
    "('s, 'v, 'w) private_kernel_oracle \<Rightarrow> fr \<Rightarrow> ('s \<times> 'w, json option) op" where
  "oracle_block_hash_membership_witness self block_hash =
     on_world (kn_get_block_hash_membership_witness (ko_node self) 0 block_hash)"

definition get_updated_class_id_hints ::
    "('s, 'v, 'w) private_kernel_oracle \<Rightarrow> aztec_address \<Rightarrow> ('s \<times> 'w, json) op" where
  "get_updated_class_id_hints self address =
     fail (InvalidData ''updated class-id hints for contract are not implemented yet'')"

definition get_debug_function_name ::
    "('s, 'v, 'w) private_kernel_oracle \<Rightarrow> aztec_address \<Rightarrow> function_selector \<Rightarrow> ('s \<times> 'w, string option) op" where
  "get_debug_function_name self contract_address selector =
     seq (in_store (get_instance (ko_contract_store self) contract_address)) (\<lambda>inst.
       case inst of
         None \<Rightarrow> ret None
       | Some inst \<Rightarrow>
           seq (in_store (get_artifact (ko_contract_store self) (in_current_contract_class_id (iwa_inner inst))))
             (\<lambda>artifact. case artifact of
                None \<Rightarrow> ret None
              | Some artifact \<Rightarrow>
                  ret (map_option fa_name (find (\<lambda>f. fa_selector f = Some selector) (ca_functions artifact)))))"

subsection \<open>Paths lead to the root\<close>

text \<open>The root a verifier computes from a leaf, its index and its path.\<close>

fun path_root :: "(fr \<Rightarrow> fr \<Rightarrow> fr) \<Rightarrow> fr \<Rightarrow> nat \<Rightarrow> fr list \<Rightarrow> fr" where
  "path_root node leaf index [] = leaf"
| "path_root node leaf index (f # path) =
     path_root node (if even index then node leaf f else node f leaf) (index div 2) path"

lemma nth_merkle_level:
  assumes "2 * j + 1 < length xs"
  shows "merkle_level node xs ! j = node (xs ! (2 * j)) (xs ! (2 * j + 1))"
proof -
  obtain a b ys where d: "drop (2 * j) xs = [a, b] @ ys"
    using assms by (cases "drop (2 * j) xs"; cases "tl (drop (2 * j) xs)") (auto dest: arg_cong[where f = length])
  have "merkle_level node ([a, b] @ ys) = node a b # merkle_level node ys"
    using chunks_append[of 2 "[a, b]" ys] by (simp add: merkle_level_def)
  moreover have "merkle_level node xs = merkle_level node (take (2 * j) xs) @ merkle_level node ([a, b] @ ys)"
    using merkle_level_append[of "take (2 * j) xs" j node "drop (2 * j) xs"] assms unfolding d[symmetric] by simp
  ultimately have "merkle_level node xs ! j = node a b" using assms by (simp add: nth_append)
  moreover have "xs ! (2 * j) = a" "xs ! (2 * j + 1) = b"
    using d assms nth_drop[of "2 * j" xs 0] nth_drop[of "2 * j" xs 1] by simp_all
  ultimately show ?thesis by simp
qed

lemma sibling_less: "i < 2 ^ Suc h \<Longrightarrow> sibling_index i < 2 ^ Suc h"
  by (cases "even i") (auto simp: sibling_index_def elim!: evenE oddE)

lemma level_step:
  assumes "length level = 2 ^ Suc h" and "i < 2 ^ Suc h"
  shows "merkle_level node level ! (i div 2) =
    (if even i then node (level ! i) (level ! sibling_index i) else node (level ! sibling_index i) (level ! i))"
proof (cases "even i")
  case True
  then obtain j where "i = 2 * j" by (auto elim: evenE)
  then show ?thesis using assms nth_merkle_level[of j level node] by (simp add: sibling_index_def)
next
  case False
  then obtain j where "i = 2 * j + 1" by (auto elim: oddE)
  then show ?thesis using assms nth_merkle_level[of j level node] by (simp add: sibling_index_def)
qed

lemma path_loop_Suc:
  assumes "length level = 2 ^ Suc h" and "i < 2 ^ Suc h"
  shows "path_loop node level i = level ! sibling_index i # path_loop node (merkle_level node level) (i div 2)"
  using assms sibling_less[OF assms(2)] one_less_power[of "2 :: nat" "Suc h"]
  by (subst path_loop.simps) (simp add: list_get_def)

lemma path_loop_correct:
  assumes "length level = 2 ^ h" and "i < 2 ^ h"
  shows "length (path_loop node level i) = h \<and>
    path_root node (level ! i) i (path_loop node level i) = tree_root node h level"
  using assms
proof (induction h arbitrary: level i)
  case 0
  then show ?case by (simp add: path_loop.simps)
next
  case (Suc h)
  have "length (merkle_level node level) = 2 ^ h" "i div 2 < 2 ^ h" using Suc.prems by auto
  from Suc.IH[OF this] show ?case
    by (simp add: path_loop_Suc[OF Suc.prems] level_step[OF Suc.prems] tree_root_level[OF Suc.prems(1)]
        del: tree_root.simps split: if_splits)
qed

text \<open>A tree stored row by row.\<close>

fun flat_tree :: "(fr \<Rightarrow> fr \<Rightarrow> fr) \<Rightarrow> nat \<Rightarrow> fr list \<Rightarrow> fr list" where
  "flat_tree node 0 level = level"
| "flat_tree node (Suc h) level = level @ flat_tree node h (merkle_level node level)"

lemma length_flat_tree: "length level = 2 ^ h \<Longrightarrow> length (flat_tree node h level) + 1 = 2 ^ Suc h"
proof (induction h arbitrary: level)
  case (Suc h)
  have "length (merkle_level node level) = 2 ^ h" using Suc.prems by simp
  from Suc.IH[OF this] Suc.prems show ?case by simp
qed simp

lemma last_flat_tree: "length level = 2 ^ h \<Longrightarrow> last (flat_tree node h level) = tree_root node h level"
proof (induction h arbitrary: level)
  case 0
  then show ?case by (cases level) auto
next
  case (Suc h)
  have len: "length (merkle_level node level) = 2 ^ h" using Suc.prems by simp
  then have "flat_tree node h (merkle_level node level) \<noteq> []"
    using length_flat_tree[OF len, of node] by fastforce
  with Suc.IH[OF len] tree_root_level[OF Suc.prems] show ?case by (simp del: tree_root.simps)
qed

lemma take_flat_tree: "take (length level) (flat_tree node h level) = level"
  by (cases h) auto

lemma flat_loop_path:
  assumes "drop off nodes = flat_tree node h level" and "length level = 2 ^ h" and "i < 2 ^ h"
  shows "flat_loop nodes (2 ^ h) off i = Inr (path_loop node level i)"
  using assms
proof (induction h arbitrary: level i off)
  case 0
  then show ?case by (simp add: flat_loop.simps path_loop.simps)
next
  case (Suc h)
  let ?j = "sibling_index i"
  have j: "?j < length level" using sibling_less Suc.prems by simp
  have "off < length nodes" using Suc.prems by (metis drop_all flat_tree.simps(2) append_is_Nil_conv
      length_0_conv not_less power_not_zero zero_neq_numeral)
  moreover have "drop off nodes ! ?j = level ! ?j" "?j < length (drop off nodes)"
    using j unfolding Suc.prems(1) by (simp_all add: nth_append)
  ultimately have "list_get nodes (off + ?j) = Some (level ! ?j)" by (simp add: list_get_def)
  moreover have "flat_loop nodes (2 ^ h) (off + 2 ^ Suc h) (i div 2) =
      Inr (path_loop node (merkle_level node level) (i div 2))"
  proof (rule Suc.IH)
    have "drop (2 ^ Suc h) (drop off nodes) = flat_tree node h (merkle_level node level)"
      unfolding Suc.prems(1) using Suc.prems(2) by simp
    then show "drop (off + 2 ^ Suc h) nodes = flat_tree node h (merkle_level node level)"
      by (simp add: add.commute)
  qed (use Suc.prems in auto)
  ultimately show ?case
    using one_less_power[of "2 :: nat" "Suc h"] Suc.prems
    by (subst flat_loop.simps) (simp add: path_loop_Suc[of _ h])
qed

text \<open>The path in a tree stored row by row is the path computed from its leaves.\<close>

lemma flat_path_correct:
  assumes "length leaves = 2 ^ h" and "i < 2 ^ h"
  shows "sibling_path_from_flat_tree (flat_tree node h leaves) i = Inr (path_loop node leaves i)"
proof -
  have "(length (flat_tree node h leaves) + 1) div 2 = 2 ^ h" using length_flat_tree[OF assms(1)] by simp
  then show ?thesis
    using flat_loop_path[of 0 "flat_tree node h leaves" node h leaves i] assms
    by (simp add: sibling_path_from_flat_tree_def)
qed

lemma find_position_Some:
  "find_position P xs = Some i \<Longrightarrow> i < length xs \<and> P (xs ! i)"
  by (induction xs arbitrary: i) (auto split: if_splits)

lemma find_position_None: "find_position P xs = None \<longleftrightarrow> (\<forall>x \<in> set xs. \<not> P x)"
  by (induction xs) auto

subsection \<open>Private functions\<close>

definition private_functions :: "crypto \<Rightarrow> contract_artifact \<Rightarrow> (function_selector \<times> fr) list" where
  "private_functions C artifact =
     map (\<lambda>f. (selector_of C f, case fa_verification_key_hash f of None \<Rightarrow> 0 | Some h \<Rightarrow> h))
       (filter (\<lambda>f. fa_function_type f = Private) (ca_functions artifact))"

text \<open>A path proves that the function with this selector and key hash is one of the artifact.\<close>

definition proves_function ::
    "crypto \<Rightarrow> contract_artifact \<Rightarrow> function_selector \<Rightarrow> fr \<Rightarrow> nat \<Rightarrow> fr list \<Rightarrow> bool" where
  "proves_function C artifact selector vk_hash i path \<longleftrightarrow>
     (selector, vk_hash) \<in> set (private_functions C artifact) \<and>
     i < 2 ^ FUNCTION_TREE_HEIGHT \<and> length path = FUNCTION_TREE_HEIGHT \<and>
     path_root (\<lambda>left right. poseidon2_hash C [left, right]) (function_leaf C (selector, vk_hash)) i path =
       compute_private_functions_root_from_artifact C artifact"

lemma private_function_witness_correct:
  "case private_function_membership_witness C artifact selector of
     Inr (i, path) \<Rightarrow> \<exists>vk_hash. proves_function C artifact selector vk_hash i path
   | Inl e \<Rightarrow> selector \<notin> fst ` set (private_functions C artifact) \<or>
       length (private_functions C artifact) > 2 ^ FUNCTION_TREE_HEIGHT"
proof -
  let ?fns = "sort_key (\<lambda>(sel, _). u32_from_be_bytes (selector_bytes sel)) (private_functions C artifact)"
  let ?leaves = "resize 128 (poseidon2_hash C [0, 0]) (map (function_leaf C) ?fns)"
  let ?node = "\<lambda>left right. poseidon2_hash C [left, right]"
  have len: "length ?leaves = 2 ^ 7" by (simp add: resize_def)
  have W: "private_function_membership_witness C artifact selector =
      (case find_position (\<lambda>(s, _). s = selector) ?fns of
         None \<Rightarrow> Inl (InvalidData ''private function selector not found in artifact'')
       | Some i \<Rightarrow> bind_result (sibling_path_from_leaves C ?leaves i) (\<lambda>path. Inr (i, path)))"
    unfolding private_function_membership_witness_def private_functions_def Let_def FUNCTION_TREE_HEIGHT_def
    by (simp add: ok_or_def bind_result_def split: option.split)
  show ?thesis
  proof (cases "find_position (\<lambda>(s, _). s = selector) ?fns")
    case None
    then have "selector \<notin> fst ` set (private_functions C artifact)" by (auto simp: find_position_None)
    then show ?thesis using None by (simp add: W)
  next
    case (Some i)
    obtain vk where i: "i < length ?fns" "?fns ! i = (selector, vk)"
      using find_position_Some[OF Some] by (cases "?fns ! i") auto
    show ?thesis
    proof (cases "i < 128")
      case True
      then have path: "sibling_path_from_leaves C ?leaves i = Inr (path_loop ?node ?leaves i)"
        using len by (auto simp: sibling_path_from_leaves_def simp del: length_greater_0_conv)
      have leaf: "?leaves ! i = function_leaf C (selector, vk)"
        using True i by (simp add: resize_def nth_append)
      have root: "compute_private_functions_root_from_artifact C artifact = tree_root ?node 7 ?leaves"
        unfolding compute_private_functions_root_from_artifact_def private_functions_root_eq private_functions_def ..
      have "(selector, vk) \<in> set (private_functions C artifact)"
        using i nth_mem[OF i(1)] by (simp only: set_sort)
      moreover have "i < 2 ^ 7" using True by simp
      ultimately have "proves_function C artifact selector vk i (path_loop ?node ?leaves i)"
        using path_loop_correct[OF len, of i ?node]
        by (simp only: proves_function_def FUNCTION_TREE_HEIGHT_def root leaf)
      then show ?thesis by (auto simp: W Some path)
    next
      case False
      then have "length (private_functions C artifact) > 2 ^ FUNCTION_TREE_HEIGHT"
        using i(1) by (simp add: FUNCTION_TREE_HEIGHT_def)
      moreover have "sibling_path_from_leaves C ?leaves i = Inl (InvalidData ''invalid leaf index for tree'')"
        using False len by (simp add: sibling_path_from_leaves_def)
      ultimately show ?thesis by (simp add: W Some)
    qed
  qed
qed

lemma in_store_apply [simp]: "in_store m (s, w) = (fst (m s), snd (m s), w)"
  by (simp add: in_store_def split: prod.split)

lemma on_world_apply [simp]: "on_world m (s, w) = (fst (m w), s, snd (m w))"
  by (simp add: on_world_def split: prod.split)

lemma function_witness_of:
  assumes "get_artifact (ko_contract_store self) class_id s = (Inr (Some artifact), s')"
  shows "get_function_membership_witness self class_id selector (s, w) =
    (case private_function_membership_witness (ko_crypto self) artifact (function_selector_from_field selector) of
       Inl e \<Rightarrow> (Inl e, s', w)
     | Inr (i, path) \<Rightarrow> (Inr (membership_witness_json (ko_hex self) i path), s', w))"
  using assms
  by (simp add: get_function_membership_witness_def seq_def lift_result_def ok_or_def ret_def
      split: sum.split prod.split)

text \<open>
  C25. For an artifact with at most 128 private functions, the kernel oracle answers exactly for the selectors of
  its private functions. Every answer, for any artifact, is a path of the height of the function tree along
  which the leaf of that function, with its verification key, hashes to the root of private functions that
  the class id of the artifact commits to.
\<close>

theorem function_membership_proven:
  assumes "get_artifact (ko_contract_store self) class_id s = (Inr (Some artifact), s')"
  shows "(length (private_functions (ko_crypto self) artifact) \<le> 128 \<longrightarrow>
      ((\<exists>j. get_function_membership_witness self class_id selector (s, w) = (Inr j, s', w)) \<longleftrightarrow>
        function_selector_from_field selector \<in> fst ` set (private_functions (ko_crypto self) artifact))) \<and>
    (\<forall>j st. get_function_membership_witness self class_id selector (s, w) = (Inr j, st) \<longrightarrow>
      (\<exists>i path vk_hash. j = membership_witness_json (ko_hex self) i path \<and>
        proves_function (ko_crypto self) artifact (function_selector_from_field selector) vk_hash i path))"
proof -
  let ?sel = "function_selector_from_field selector"
  note W = private_function_witness_correct[where C = "ko_crypto self" and artifact = artifact and selector = ?sel]
  show ?thesis
  proof (cases "private_function_membership_witness (ko_crypto self) artifact ?sel")
    case (Inl e)
    then show ?thesis using W by (auto simp: function_witness_of[OF assms] FUNCTION_TREE_HEIGHT_def)
  next
    case (Inr r)
    obtain i path where r: "r = (i, path)" by fastforce
    obtain vk where vk: "proves_function (ko_crypto self) artifact ?sel vk i path" using W Inr r by auto
    then have "?sel \<in> fst ` set (private_functions (ko_crypto self) artifact)"
      by (force simp: proves_function_def)
    then show ?thesis using vk Inr r by (auto simp: function_witness_of[OF assms])
  qed
qed

definition example_kernel_oracle ::
    "((contract_instance_with_address + contract_artifact) btree,
      contract_instance_with_address + contract_artifact, unit) private_kernel_oracle" where
  "example_kernel_oracle =
     \<lparr>ko_node =
        \<lparr>kn_get_contract = (\<lambda>_. ret None), kn_get_contract_class = (\<lambda>_. ret None),
         kn_get_note_hash_membership_witness = (\<lambda>_ _. ret None),
         kn_get_nullifier_membership_witness = (\<lambda>_ _. ret None), kn_get_block_header = (\<lambda>_. ret JsNull),
         kn_get_block_hash_membership_witness = (\<lambda>_ _. ret None)\<rparr>,
      ko_contract_store = example_contract_store,
      ko_key_store =
        \<lparr>ks_kv = in_memory_kv, ks_hex = plain_hex,
         ks_raw = \<lparr>raw_of = (\<lambda>_. Inr example_artifact), raw_view = (\<lambda>_. [])\<rparr>,
         ks_crypto = example_crypto, ks_curve = example_curve\<rparr>,
      ko_block_hash = 0, ko_crypto = example_crypto,
      ko_codec = \<lparr>ac_escape = id, ac_return_types = (\<lambda>_. JsArray []), ac_hex = plain_hex, ac_base64 = (\<lambda>_. None)\<rparr>,
      ko_hex = plain_hex, ko_public_keys_json = (\<lambda>_. JsNull),
      ko_files =
        \<lparr>fs_var = (\<lambda>_. Some ''vk_tree.ts''), fs_current_dir = None, fs_exists = (\<lambda>_. True),
         fs_read_to_string = (\<lambda>_. None)\<rparr>\<rparr>"

theorem function_membership_proven_witness:
  "\<exists>j. get_function_membership_witness example_kernel_oracle 5
      (function_selector_to_field (FunctionSelector [0, 0, 0, 9]))
      ([(artifact_key plain_hex 5, Inr (example_artifact\<lparr>ca_functions :=
          [example_function\<lparr>fa_selector := Some (FunctionSelector [0, 0, 0, 9])\<rparr>]\<rparr>))], ()) =
    (Inr j, [(artifact_key plain_hex 5, Inr (example_artifact\<lparr>ca_functions :=
          [example_function\<lparr>fa_selector := Some (FunctionSelector [0, 0, 0, 9])\<rparr>]\<rparr>))], ())"
  (is "\<exists>j. get_function_membership_witness ?o 5 ?sel (?t, ()) = _")
proof -
  let ?a = "example_artifact\<lparr>ca_functions := [example_function\<lparr>fa_selector := Some (FunctionSelector [0, 0, 0, 9])\<rparr>]\<rparr>"
  have "get_artifact (ko_contract_store ?o) 5 ?t = (Inr (Some ?a), ?t)"
    by (simp add: get_artifact_def example_kernel_oracle_def example_contract_store_def get_json_def
        in_memory_kv_def in_memory_get_def right_json_def seq_def ret_def lift_result_def)
  note p = function_membership_proven[OF this, of ?sel "()", THEN conjunct1]
  have "function_selector_from_field ?sel = FunctionSelector [0, 0, 0, 9]"
    using function_selector_roundtrips[OF plain_hex_ok, of "[0, 0, 0, 9]"] by simp
  then show ?thesis using p
    by (simp add: private_functions_def example_artifact_def example_function_def selector_of_def)
qed

subsection \<open>Preimages of class ids\<close>

text \<open>The preimage that the kernel receives hashes to the class id when the packed bytecode is base64, as the
  compiler writes it.\<close>

lemma class_preimage_hashes:
  assumes "\<And>f bc. find (\<lambda>f. fa_function_type f = Public \<and> fa_name f = ''public_dispatch'') (ca_functions artifact) =
      Some f \<Longrightarrow> fa_bytecode f = Some bc \<Longrightarrow> strip_prefix ''0x'' bc = None \<and> ac_base64 A bc \<noteq> None"
    and "contract_class_preimage C A H artifact = Inr j"
  shows "\<exists>hash root commitment.
    j = JsObject [(''artifactHash'', fr_json H hash), (''privateFunctionsRoot'', fr_json H root),
      (''publicBytecodeCommitment'', fr_json H commitment)] \<and>
    compute_contract_class_id_from_artifact C A artifact = Inr (compute_contract_class_id C hash root commitment)"
proof -
  have "kernel_decode_bytecode A bc = decode_artifact_bytes A bc"
    if "strip_prefix ''0x'' bc = None" "ac_base64 A bc \<noteq> None" for bc
    using that by (auto simp: kernel_decode_bytecode_def decode_artifact_bytes_def)
  then have "kernel_packed_public_bytecode A artifact = extract_packed_public_bytecode A artifact"
    using assms(1) unfolding kernel_packed_public_bytecode_def extract_packed_public_bytecode_def
    by (fastforce split: option.split)
  then show ?thesis using assms(2)
    by (auto simp: contract_class_preimage_def compute_contract_class_id_from_artifact_def bind_result_Inr_iff)
qed

text \<open>Bytecode in neither notation: the class id commits to its text, the preimage to no bytecode.\<close>

lemma class_preimage_drops_text:
  assumes "find (\<lambda>f. fa_function_type f = Public \<and> fa_name f = ''public_dispatch'') (ca_functions artifact) = Some f"
    and "fa_bytecode f = Some bc" and "strip_prefix ''0x'' bc = None" and "ac_base64 A bc = None"
  shows "kernel_packed_public_bytecode A artifact = [] \<and>
    extract_packed_public_bytecode A artifact = string_bytes bc"
  using assms
  by (simp add: kernel_packed_public_bytecode_def extract_packed_public_bytecode_def kernel_decode_bytecode_def
      decode_artifact_bytes_def)

subsection \<open>The file of verification keys\<close>

text \<open>Text in which no quote starts a node: a quote is followed by something else than a hexadecimal digit.\<close>

fun inert :: "string \<Rightarrow> bool" where
  "inert [] = True"
| "inert [c] = (c \<noteq> quote_char)"
| "inert (c # d # cs) = ((c = quote_char \<longrightarrow> \<not> is_ascii_hexdigit d) \<and> inert (d # cs))"

text \<open>A source file that holds the nodes in quotes.\<close>

definition vk_tree_text :: "hex_crate \<Rightarrow> string \<Rightarrow> string \<Rightarrow> fr list \<Rightarrow> string" where
  "vk_tree_text H head sep nodes =
     head @ concat (map (\<lambda>f. quote_char # drop 2 (fr_display H f) @ quote_char # sep) nodes)"

lemma quoted_nodes_short: "length bs < 66 \<Longrightarrow> quoted_nodes H bs = Inr []"
  by (simp add: quoted_nodes.simps)

lemma quoted_nodes_skip:
  "\<not> (c = quote_char \<and> 64 < length bs \<and> bs ! 64 = quote_char \<and> list_all is_ascii_hexdigit (take 64 bs)) \<Longrightarrow>
   quoted_nodes H (c # bs) = quoted_nodes H bs"
  by (cases "length bs < 65"; subst quoted_nodes.simps) (auto simp: quoted_nodes_short)

lemma quoted_nodes_inert: "inert sep \<Longrightarrow> quoted_nodes H (sep @ bs) = quoted_nodes H bs"
proof (induction sep rule: inert.induct)
  case (2 c)
  then show ?case by (simp add: quoted_nodes_skip)
next
  case (3 c d cs)
  then show ?case by (auto simp: quoted_nodes_skip)
qed simp

lemma display_digits:
  assumes "hex_ok H"
  shows "fr_display H f = ''0x'' @ drop 2 (fr_display H f)" "length (drop 2 (fr_display H f)) = 64"
    "list_all is_ascii_hexdigit (drop 2 (fr_display H f))"
proof -
  show "fr_display H f = ''0x'' @ drop 2 (fr_display H f)"
    by (simp add: fr_display_def encode_field_hex_def encode_hex_def)
  show "length (drop 2 (fr_display H f)) = 64" using assms by simp
  show "list_all is_ascii_hexdigit (drop 2 (fr_display H f))"
  proof -
    have "drop 2 (fr_display H f) = hex_encode H (fr_to_be_bytes f)"
      by (simp add: fr_display_def encode_field_hex_def encode_hex_def fr_to_be_bytes_def)
    then have "set (drop 2 (fr_display H f)) \<subseteq> set ''0123456789abcdef''" using assms by (simp only: hex_ok_def)
    moreover have "''0123456789abcdefABCDEF'' = ''0123456789abcdef'' @ ''ABCDEF''" by simp
    ultimately show ?thesis by (auto simp only: list_all_iff is_ascii_hexdigit_def set_append)
  qed
qed

lemma quoted_nodes_node:
  assumes "hex_ok H"
  shows "quoted_nodes H (quote_char # drop 2 (fr_display H f) @ quote_char # bs) =
    bind_result (quoted_nodes H bs) (\<lambda>fs. Inr (f # fs))"
proof -
  note d = display_digits[OF assms, of f]
  let ?ds = "drop 2 (fr_display H f)"
  let ?bs = "quote_char # ?ds @ quote_char # bs"
  have "\<not> length ?bs < 66" "?bs ! 0 = quote_char" "take 64 (drop 1 ?bs) = ?ds" "drop 66 ?bs = bs"
    using d(2) by simp_all
  moreover have "?bs ! 65 = quote_char" using d(2) by (simp add: nth_append)
  moreover have "fr_from_hex H (''0x'' @ ?ds) = Inr f" using d(1) assms fr_from_hex_display by metis
  ultimately show ?thesis
    using d(3) by (subst quoted_nodes.simps) (simp only: if_False if_True bind_result_simps simp_thms)
qed

lemma quoted_nodes_text:
  assumes "hex_ok H" and "inert head" and "inert sep"
  shows "quoted_nodes H (vk_tree_text H head sep nodes) = Inr nodes"
proof -
  have "quoted_nodes H (concat (map (\<lambda>f. quote_char # drop 2 (fr_display H f) @ quote_char # sep) nodes)) = Inr nodes"
  proof (induction nodes)
    case (Cons f nodes)
    then show ?case
      using quoted_nodes_node[OF assms(1), of f] quoted_nodes_inert[OF assms(3)] by simp
  qed (simp add: quoted_nodes_short)
  then show ?thesis by (simp add: vk_tree_text_def quoted_nodes_inert[OF assms(2)])
qed

lemma is_power_of_two_power: "is_power_of_two (2 ^ k)"
proof (induction k)
  case (Suc k)
  then show ?case using one_less_power[of "2 :: nat" "Suc k"] by (subst is_power_of_two.simps) simp
qed (simp add: is_power_of_two.simps)

lemma is_power_of_two_pred:
  assumes "n + 1 = 2 ^ Suc (Suc k)"
  shows "\<not> is_power_of_two n"
proof -
  have "odd n" using assms by (metis even_plus_one_iff dvd_power zero_less_Suc)
  moreover have "n + 1 = 4 * 2 ^ k" "(1 :: nat) \<le> 2 ^ k" using assms by simp_all
  then have "1 < n" by linarith
  ultimately show ?thesis by (subst is_power_of_two.simps) simp
qed

lemma vk_witness_correct:
  assumes "hex_ok (ko_hex self)" and "inert head" and "inert sep"
    and "length leaves = 2 ^ Suc h"
    and "locate_vk_tree_path (ko_files self) = Some path"
    and "fs_read_to_string (ko_files self) path =
      Some (vk_tree_text (ko_hex self) head sep (flat_tree node (Suc h) leaves))"
  shows "case get_vk_membership_witness self vk_hash of
      Inl e \<Rightarrow> vk_hash \<notin> set leaves
    | Inr j \<Rightarrow> \<exists>i siblings. j = membership_witness_json (ko_hex self) i siblings \<and>
        i < length leaves \<and> leaves ! i = vk_hash \<and> length siblings = Suc h \<and>
        path_root node vk_hash i siblings = tree_root node (Suc h) leaves"
proof -
  let ?nodes = "flat_tree node (Suc h) leaves"
  have len: "length ?nodes + 1 = 2 ^ Suc (Suc h)" by (rule length_flat_tree[OF assms(4)])
  then have count: "(length ?nodes + 1) div 2 = length leaves" using assms(4) by simp
  have "is_power_of_two (length ?nodes + 1)" unfolding len by (rule is_power_of_two_power)
  moreover have "?nodes \<noteq> []" using assms(4) by auto
  ultimately have load: "load_vk_tree (ko_files self) (ko_hex self) = Inr ?nodes"
    using is_power_of_two_pred[OF len] quoted_nodes_text[OF assms(1-3), of ?nodes] assms(5,6)
    by (simp add: load_vk_tree_def parse_vk_tree_nodes_def ok_or_def)
  have W: "get_vk_membership_witness self vk_hash =
      (case find_position (\<lambda>leaf. leaf = vk_hash) leaves of
         None \<Rightarrow> Inl (InvalidData ''VK hash not found in VK tree'')
       | Some i \<Rightarrow> bind_result (sibling_path_from_flat_tree ?nodes i)
           (\<lambda>siblings. Inr (membership_witness_json (ko_hex self) i siblings)))"
    unfolding get_vk_membership_witness_def load bind_result_simps Let_def count take_flat_tree
    by (simp add: ok_or_def split: option.split)
  show ?thesis
  proof (cases "find_position (\<lambda>leaf. leaf = vk_hash) leaves")
    case None
    then have "vk_hash \<notin> set leaves" by (auto simp: find_position_None)
    then show ?thesis by (simp add: W None)
  next
    case (Some i)
    note i = find_position_Some[OF Some]
    then have i': "i < 2 ^ Suc h" using assms(4) by simp
    show ?thesis
      using i path_loop_correct[OF assms(4) i', of node]
      by (auto simp: W Some flat_path_correct[OF assms(4) i'] simp del: flat_tree.simps tree_root.simps)
  qed
qed



end
