(* ===== verification/Kernel_Prover.thy ===== *)
theory Kernel_Prover
  imports Kernel_Oracle
begin

text \<open>
  Proving a transaction through the private kernel circuits (\<open>pxe/src/kernel/execution_prover.rs\<close>): init for
  the first call, inner for every further call, resets, tail, hiding, and the aggregated proof; and the prover
  that runs an external program for it (\<open>pxe/src/kernel/prover.rs\<close>).

  The state is the one of the kernel oracle. Files, the clock and the external programs are parameters over
  its world. The theorems show which steps a proof aggregates, in which order, and that the prover as it
  stands cannot produce one.
\<close>

subsection \<open>Circuits\<close>

record simulate_output =
  so_public_inputs :: json
  so_verification_key :: "u8 list"
  so_output_witness :: "u8 list"
  so_bytecode :: "u8 list"

record step_timings =
  stm_witgen_ms :: u64
  stm_gate_count :: "u64 option"
  stm_oracles_ms :: u64

definition step_timings_default :: step_timings where
  "step_timings_default = \<lparr>stm_witgen_ms = 0, stm_gate_count = None, stm_oracles_ms = 0\<rparr>"

record private_execution_step =
  xs_function_name :: string
  xs_bytecode :: "u8 list"
  xs_witness :: "u8 list"
  xs_vk :: "u8 list"
  xs_timings :: step_timings

record chonk_proof_with_public_inputs =
  cp_proof :: "u8 list"
  cp_public_inputs :: "u8 list"

record proving_timings =
  pt_total_ms :: u64
  pt_circuits :: "(string \<times> u64) list"

text \<open>The trait \<open>PrivateKernelProver\<close>.\<close>

record 'w private_kernel_prover =
  kp_generate_init_output :: "json \<Rightarrow> ('w, simulate_output) op"
  kp_simulate_init :: "json \<Rightarrow> ('w, simulate_output) op"
  kp_generate_inner_output :: "json \<Rightarrow> ('w, simulate_output) op"
  kp_simulate_inner :: "json \<Rightarrow> ('w, simulate_output) op"
  kp_generate_reset_output :: "json \<Rightarrow> ('w, simulate_output) op"
  kp_simulate_reset :: "json \<Rightarrow> ('w, simulate_output) op"
  kp_generate_tail_output :: "json \<Rightarrow> ('w, simulate_output) op"
  kp_simulate_tail :: "json \<Rightarrow> ('w, simulate_output) op"
  kp_generate_hiding_to_rollup_output :: "json \<Rightarrow> ('w, simulate_output) op"
  kp_generate_hiding_to_public_output :: "json \<Rightarrow> ('w, simulate_output) op"
  kp_create_chonk_proof :: "private_execution_step list \<Rightarrow> ('w, chonk_proof_with_public_inputs) op"
  kp_compute_gate_count_for_circuit :: "u8 list \<Rightarrow> string \<Rightarrow> ('w, u64) op"

subsection \<open>The sequence of circuits\<close>

record kernel_execution_config =
  kx_simulate :: bool
  kx_skip_fee_enforcement :: bool
  kx_profile_mode :: string

definition kernel_execution_config_default :: kernel_execution_config where
  "kernel_execution_config_default =
     \<lparr>kx_simulate = False, kx_skip_fee_enforcement = False, kx_profile_mode = ''none''\<rparr>"

record kernel_proving_result =
  kr_public_inputs :: json
  kr_chonk_proof :: "chonk_proof_with_public_inputs option"
  kr_execution_steps :: "private_execution_step list"
  kr_timings :: proving_timings

record 'c private_call_execution =
  pce_contract_address :: aztec_address
  pce_tx_request :: json
  pce_call_stack_item :: json
  pce_execution_result_json :: json
  pce_execution_result :: "'c private_call"

text \<open>\<open>ep_serialize\<close> writes a witness map; \<open>ep_now\<close> is the clock in milliseconds.\<close>

record ('s, 'v, 'w, 'c) kernel_execution_prover =
  kep_oracle :: "('s, 'v, 'w) private_kernel_oracle"
  kep_prover :: "'w private_kernel_prover"
  kep_config :: kernel_execution_config
  kep_serialize :: "'c \<Rightarrow> u8 list option"
  kep_now :: "'w \<Rightarrow> nat"

definition output_to_step :: "simulate_output \<Rightarrow> string \<Rightarrow> private_execution_step" where
  "output_to_step out function_name =
     \<lparr>xs_function_name = function_name, xs_bytecode = so_bytecode out, xs_witness = so_output_witness out,
      xs_vk = so_verification_key out, xs_timings = step_timings_default\<rparr>"

definition call_to_step ::
    "('s, 'v, 'w, 'c) kernel_execution_prover \<Rightarrow> 'c private_call_execution \<Rightarrow> ('s \<times> 'w, private_execution_step) op" where
  "call_to_step self call =
     (let r = pce_execution_result call in
      seq (get_debug_function_name (kep_oracle self) (cc_contract_address (call_call_context r))
            (function_selector_from_field (cc_function_selector (call_call_context r)))) (\<lambda>name.
      seq (lift_result (ok_or (InvalidData ''failed to serialize private app witness'')
            (kep_serialize self (call_partial_witness r)))) (\<lambda>witness.
        ret \<lparr>xs_function_name = (case name of Some n \<Rightarrow> n | None \<Rightarrow> ''private_call''), xs_bytecode = call_acir r,
          xs_witness = witness, xs_vk = call_vk r, xs_timings = step_timings_default\<rparr>)))"

definition call_json :: "'c private_call_execution \<Rightarrow> json" where
  "call_json call =
     JsObject [(''callStackItem'', pce_call_stack_item call), (''executionResult'', pce_execution_result_json call)]"

definition previous_json :: "simulate_output \<Rightarrow> json" where
  "previous_json out = JsObject [(''publicInputs'', so_public_inputs out)]"

definition build_init_inputs ::
    "('s, 'v, 'w, 'c) kernel_execution_prover \<Rightarrow> 'c private_call_execution \<Rightarrow> ('s \<times> 'w, json) op" where
  "build_init_inputs self call =
     seq (get_contract_address_preimage (kep_oracle self) (pce_contract_address call)) (\<lambda>preimage.
     seq (lift_result (get_vk_membership_witness (kep_oracle self) 0)) (\<lambda>vk_witness.
       ret (JsObject [(''txRequest'', pce_tx_request call), (''privateCall'', call_json call),
         (''contractInstance'', preimage), (''vkMembershipWitness'', vk_witness)])))"

definition build_inner_inputs ::
    "('s, 'v, 'w, 'c) kernel_execution_prover \<Rightarrow> 'c private_call_execution \<Rightarrow> simulate_output \<Rightarrow> ('s \<times> 'w, json) op" where
  "build_inner_inputs self call previous =
     seq (get_contract_address_preimage (kep_oracle self) (pce_contract_address call)) (\<lambda>preimage.
     seq (lift_result (get_vk_membership_witness (kep_oracle self) 0)) (\<lambda>vk_witness.
       ret (JsObject [(''previousKernelData'', previous_json previous), (''privateCall'', call_json call),
         (''contractInstance'', preimage), (''vkMembershipWitness'', vk_witness)])))"

definition build_reset_inputs :: "simulate_output \<Rightarrow> json" where
  "build_reset_inputs out = JsObject [(''previousKernelData'', previous_json out), (''silo'', JsBool False)]"

definition build_final_reset_inputs :: "simulate_output \<Rightarrow> json" where
  "build_final_reset_inputs out = JsObject [(''previousKernelData'', previous_json out), (''silo'', JsBool True)]"

definition build_tail_inputs :: "simulate_output \<Rightarrow> json" where
  "build_tail_inputs out = JsObject [(''previousKernelData'', previous_json out)]"

definition build_hiding_inputs :: "simulate_output \<Rightarrow> json" where
  "build_hiding_inputs out = JsObject [(''previousKernelData'', previous_json out)]"

definition needs_reset :: "simulate_output \<Rightarrow> bool" where
  "needs_reset out = False"

definition output_is_for_public :: "simulate_output \<Rightarrow> bool" where
  "output_is_for_public out =
     (case Option.bind (Private_Oracle.js_pointer [''end'', ''publicCallRequests''] (so_public_inputs out)) js_array of
        Some arr \<Rightarrow> arr \<noteq> [] | None \<Rightarrow> False)"

text \<open>Running one circuit: a simulation leaves no step, a witness leaves one.\<close>

definition run_circuit ::
    "('s, 'v, 'w, 'c) kernel_execution_prover \<Rightarrow> (json \<Rightarrow> ('w, simulate_output) op) \<Rightarrow>
     (json \<Rightarrow> ('w, simulate_output) op) \<Rightarrow> json \<Rightarrow> string \<Rightarrow> private_execution_step list \<Rightarrow>
     ('s \<times> 'w, simulate_output \<times> private_execution_step list) op" where
  "run_circuit self sim gen inputs name steps =
     (if kx_simulate (kep_config self) then seq (on_world (sim inputs)) (\<lambda>out. ret (out, steps))
      else seq (on_world (gen inputs)) (\<lambda>out. ret (out, steps @ [output_to_step out name])))"

definition push_call ::
    "('s, 'v, 'w, 'c) kernel_execution_prover \<Rightarrow> 'c private_call_execution \<Rightarrow> private_execution_step list \<Rightarrow>
     ('s \<times> 'w, private_execution_step list) op" where
  "push_call self call steps =
     (if kx_simulate (kep_config self) then ret steps
      else seq (call_to_step self call) (\<lambda>step. ret (steps @ [step])))"

definition read_clock :: "('s, 'v, 'w, 'c) kernel_execution_prover \<Rightarrow> ('s \<times> 'w, nat) op" where
  "read_clock self = (\<lambda>(s, w). (Inr (kep_now self w), s, w))"

definition timed ::
    "('s, 'v, 'w, 'c) kernel_execution_prover \<Rightarrow> nat \<Rightarrow> string \<Rightarrow> (string \<times> u64) list \<Rightarrow>
     ('s \<times> 'w, (string \<times> u64) list) op" where
  "timed self start name circuits = seq (read_clock self) (\<lambda>now. ret (circuits @ [(name, of_nat (now - start))]))"

text \<open>The loop over the calls after the first; \<open>i\<close> is the position of the next call.\<close>

fun inner_circuits ::
    "('s, 'v, 'w, 'c) kernel_execution_prover \<Rightarrow> nat \<Rightarrow> 'c private_call_execution list \<Rightarrow> simulate_output \<Rightarrow>
     private_execution_step list \<Rightarrow> (string \<times> u64) list \<Rightarrow>
     ('s \<times> 'w, simulate_output \<times> private_execution_step list \<times> (string \<times> u64) list) op" where
  "inner_circuits self i [] out steps circuits = ret (out, steps, circuits)"
| "inner_circuits self i (call # calls) out steps circuits =
     seq (read_clock self) (\<lambda>inner_start.
     seq (push_call self call steps) (\<lambda>steps.
     seq (build_inner_inputs self call out) (\<lambda>inputs.
     seq (run_circuit self (kp_simulate_inner (kep_prover self)) (kp_generate_inner_output (kep_prover self)) inputs
        (''private_kernel_inner_'' @ nat_display i) steps) (\<lambda>(out, steps).
     seq (timed self inner_start (''inner_'' @ nat_display i) circuits) (\<lambda>circuits.
     seq (if needs_reset out
          then seq (read_clock self) (\<lambda>reset_start.
            seq (run_circuit self (kp_simulate_reset (kep_prover self)) (kp_generate_reset_output (kep_prover self))
               (build_reset_inputs out) (''private_kernel_reset_'' @ nat_display i) steps) (\<lambda>(out, steps).
            seq (timed self reset_start (''reset_'' @ nat_display i) circuits) (\<lambda>circuits.
              ret (out, steps, circuits))))
          else ret (out, steps, circuits)) (\<lambda>(out, steps, circuits).
       inner_circuits self (Suc i) calls out steps circuits))))))"

text \<open>Init and inner circuits.\<close>

definition call_circuits ::
    "('s, 'v, 'w, 'c) kernel_execution_prover \<Rightarrow> 'c private_call_execution \<Rightarrow> 'c private_call_execution list \<Rightarrow>
     ('s \<times> 'w, simulate_output \<times> private_execution_step list \<times> (string \<times> u64) list) op" where
  "call_circuits self first calls =
     seq (read_clock self) (\<lambda>start.
     seq (push_call self first []) (\<lambda>steps.
     seq (build_init_inputs self first) (\<lambda>inputs.
     seq (run_circuit self (kp_simulate_init (kep_prover self)) (kp_generate_init_output (kep_prover self)) inputs
        ''private_kernel_init'' steps) (\<lambda>(out, steps).
     seq (timed self start ''init'' []) (\<lambda>circuits.
       inner_circuits self 1 calls out steps circuits)))))"

text \<open>Final reset and tail.\<close>

definition final_circuits ::
    "('s, 'v, 'w, 'c) kernel_execution_prover \<Rightarrow> simulate_output \<Rightarrow> private_execution_step list \<Rightarrow>
     (string \<times> u64) list \<Rightarrow>
     ('s \<times> 'w, simulate_output \<times> bool \<times> private_execution_step list \<times> (string \<times> u64) list) op" where
  "final_circuits self out steps circuits =
     seq (read_clock self) (\<lambda>reset_start.
     seq (run_circuit self (kp_simulate_reset (kep_prover self)) (kp_generate_reset_output (kep_prover self))
        (build_final_reset_inputs out) ''private_kernel_reset_final'' steps) (\<lambda>(out, steps).
     seq (timed self reset_start ''reset_final'' circuits) (\<lambda>circuits.
     seq (read_clock self) (\<lambda>tail_start.
     let public = output_is_for_public out in
     seq (run_circuit self (kp_simulate_tail (kep_prover self)) (kp_generate_tail_output (kep_prover self))
        (build_tail_inputs out) (if public then ''private_kernel_tail_to_public'' else ''private_kernel_tail'') steps)
       (\<lambda>(tail_output, steps).
     seq (timed self tail_start ''tail'' circuits) (\<lambda>circuits.
       ret (tail_output, public, steps, circuits)))))))"

definition hiding_circuit ::
    "('s, 'v, 'w, 'c) kernel_execution_prover \<Rightarrow> simulate_output \<Rightarrow> bool \<Rightarrow> private_execution_step list \<Rightarrow>
     (string \<times> u64) list \<Rightarrow> ('s \<times> 'w, private_execution_step list \<times> (string \<times> u64) list) op" where
  "hiding_circuit self tail_output public steps circuits =
     (if kx_simulate (kep_config self) then ret (steps, circuits)
      else seq (read_clock self) (\<lambda>hiding_start.
        seq (on_world ((if public then kp_generate_hiding_to_public_output (kep_prover self)
            else kp_generate_hiding_to_rollup_output (kep_prover self)) (build_hiding_inputs tail_output))) (\<lambda>out.
        seq (timed self hiding_start ''hiding'' circuits) (\<lambda>circuits.
          ret (steps @ [output_to_step out (if public then ''hiding_kernel_to_public'' else ''hiding_kernel_to_rollup'')],
            circuits)))))"

definition aggregate_steps ::
    "('s, 'v, 'w, 'c) kernel_execution_prover \<Rightarrow> private_execution_step list \<Rightarrow> (string \<times> u64) list \<Rightarrow>
     ('s \<times> 'w, chonk_proof_with_public_inputs option \<times> (string \<times> u64) list) op" where
  "aggregate_steps self steps circuits =
     (if \<not> kx_simulate (kep_config self) \<and> steps \<noteq> []
      then seq (read_clock self) (\<lambda>chonk_start.
        seq (on_world (kp_create_chonk_proof (kep_prover self) steps)) (\<lambda>proof_bytes.
        seq (timed self chonk_start ''chonk'' circuits) (\<lambda>circuits. ret (Some proof_bytes, circuits))))
      else ret (None, circuits))"

definition prove_with_kernels ::
    "('s, 'v, 'w, 'c) kernel_execution_prover \<Rightarrow> 'c private_call_execution list \<Rightarrow> ('s \<times> 'w, kernel_proving_result) op" where
  "prove_with_kernels self execution_results =
     seq (read_clock self) (\<lambda>start.
       case execution_results of
         [] \<Rightarrow> fail (InvalidData ''no execution results to prove'')
       | first # calls \<Rightarrow>
           seq (call_circuits self first calls) (\<lambda>(out, steps, circuits).
           seq (final_circuits self out steps circuits) (\<lambda>(tail_output, public, steps, circuits).
           seq (hiding_circuit self tail_output public steps circuits) (\<lambda>(steps, circuits).
           seq (aggregate_steps self steps circuits) (\<lambda>(chonk_proof, circuits).
           seq (read_clock self) (\<lambda>now.
             ret \<lparr>kr_public_inputs = so_public_inputs tail_output, kr_chonk_proof = chonk_proof,
               kr_execution_steps = steps,
               kr_timings = \<lparr>pt_total_ms = of_nat (now - start), pt_circuits = circuits\<rparr>\<rparr>))))))"

subsection \<open>The external prover\<close>

text \<open>What the prover does outside: directories, files and processes. A process that starts ends with
  success or failure and the text it wrote to its error stream.\<close>

record 'w bb_system =
  bs_files :: "'w \<Rightarrow> file_system"
  bs_create_dir_all :: "string \<Rightarrow> 'w \<Rightarrow> bool \<times> 'w"
  bs_write :: "string \<Rightarrow> u8 list \<Rightarrow> 'w \<Rightarrow> bool \<times> 'w"
  bs_read :: "string \<Rightarrow> 'w \<Rightarrow> u8 list option \<times> 'w"
  bs_remove_dir_all :: "string \<Rightarrow> 'w \<Rightarrow> 'w"
  bs_run :: "string \<Rightarrow> string list \<Rightarrow> (string \<times> string) list \<Rightarrow> 'w \<Rightarrow> (bool \<times> string) option \<times> 'w"
  bs_now :: "'w \<Rightarrow> nat"
  bs_base64_encode :: "u8 list \<Rightarrow> string"
  bs_base64_decode :: "string \<Rightarrow> u8 list option"
  bs_to_vec :: "json \<Rightarrow> u8 list"
  bs_from_slice :: "u8 list \<Rightarrow> json result"
  bs_manifest_dir :: string

record bb_prover_config =
  bb_binary_path :: string
  bb_working_directory :: string
  bb_hardware_concurrency :: "u32 option"
  bb_skip_cleanup :: bool

text \<open>Reading a variable as a \<open>u32\<close>.\<close>

definition u32_parse :: "string \<Rightarrow> u32 option" where
  "u32_parse v = Option.bind (u64_parse v) (\<lambda>n. if n < 2 ^ 32 then Some (ucast n) else None)"

definition bb_prover_config_default :: "file_system \<Rightarrow> bb_prover_config" where
  "bb_prover_config_default F =
     (let home = (case fs_var F ''HOME'' of Some v \<Rightarrow> v | None \<Rightarrow> []) in
      \<lparr>bb_binary_path = (case fs_var F ''BB_BINARY_PATH'' of
           Some v \<Rightarrow> v
         | None \<Rightarrow> home @ ''/.aztec/versions/4.2.0-aztecnr-rc.2/node_modules/@aztec/bb.js/build/arm64-macos/bb''),
       bb_working_directory = (case fs_var F ''BB_WORKING_DIRECTORY'' of
           Some v \<Rightarrow> v | None \<Rightarrow> home @ ''/.aztec/bb-working''),
       bb_hardware_concurrency = Option.bind (fs_var F ''HARDWARE_CONCURRENCY'') u32_parse,
       bb_skip_cleanup = (case fs_var F ''BB_SKIP_CLEANUP'' of Some v \<Rightarrow> v = ''true'' \<or> v = ''1'' | None \<Rightarrow> False)\<rparr>)"

definition io_done :: "('w \<Rightarrow> bool \<times> 'w) \<Rightarrow> string \<Rightarrow> ('w, unit) op" where
  "io_done m message w = (case m w of (ok, w') \<Rightarrow> (if ok then Inr () else Inl (InvalidData message), w'))"

definition io_read :: "('w \<Rightarrow> 'a option \<times> 'w) \<Rightarrow> string \<Rightarrow> ('w, 'a) op" where
  "io_read m message w = (case m w of (r, w') \<Rightarrow> (ok_or (InvalidData message) r, w'))"

definition io_quiet :: "('w \<Rightarrow> 'w) \<Rightarrow> ('w, unit) op" where
  "io_quiet f w = (Inr (), f w)"

datatype proof_request_format = FormatJson | FormatBinaryV1

definition selected_format :: "file_system \<Rightarrow> proof_request_format result" where
  "selected_format F =
     (let name = (case fs_var F ''PXE_REAL_PROOF_REQUEST_FORMAT'' of Some v \<Rightarrow> v | None \<Rightarrow> ''binary-v1'') in
      if name = ''json'' then Inr FormatJson
      else if name = ''binary-v1'' then Inr FormatBinaryV1
      else Inl (InvalidData ''unsupported PXE_REAL_PROOF_REQUEST_FORMAT''))"

primrec format_name :: "proof_request_format \<Rightarrow> string" where
  "format_name FormatJson = ''json''"
| "format_name FormatBinaryV1 = ''binary-v1''"

datatype bb_result =
    BbSuccess u64 "string option" "string option"
  | BbFailure string bool

definition execute_bb :: "'w bb_system \<Rightarrow> bb_prover_config \<Rightarrow> string \<Rightarrow> string list \<Rightarrow> ('w, bb_result) op" where
  "execute_bb B config command args w =
     (if \<not> fs_exists (bs_files B w) (bb_binary_path config)
      then (Inr (BbFailure ''bb binary not found'' False), w)
      else (case bs_run B (bb_binary_path config) (command # args)
          (case bb_hardware_concurrency config of
             Some n \<Rightarrow> [(''HARDWARE_CONCURRENCY'', nat_display (unat n))] | None \<Rightarrow> []) w of
          (None, w') \<Rightarrow> (Inl (InvalidData ''failed to execute bb binary''), w')
        | (Some (True, _), w') \<Rightarrow> (Inr (BbSuccess (of_nat (bs_now B w' - bs_now B w)) None None), w')
        | (Some (False, stderr), w') \<Rightarrow> (Inr (BbFailure (''bb failed: '' @ stderr) False), w')))"

definition ensure_working_dir :: "'w bb_system \<Rightarrow> bb_prover_config \<Rightarrow> ('w, string) op" where
  "ensure_working_dir B config =
     seq (io_done (bs_create_dir_all B (bb_working_directory config)) ''failed to create working directory'') (\<lambda>_.
       ret (bb_working_directory config))"

definition simulate_circuit :: "json \<Rightarrow> string \<Rightarrow> ('w, simulate_output) op" where
  "simulate_circuit inputs circuit_type =
     fail (InvalidData (''kernel circuit simulation for '' @ circuit_type @ '' is not wired to real artifacts yet''))"

definition generate_circuit_output ::
    "'w bb_system \<Rightarrow> bb_prover_config \<Rightarrow> json \<Rightarrow> string \<Rightarrow> ('w, simulate_output) op" where
  "generate_circuit_output B config inputs circuit_type =
     seq (ensure_working_dir B config) (\<lambda>_.
       fail (InvalidData (''kernel witness generation for '' @ circuit_type @ '' is not wired to real artifacts yet'')))"

definition locate_aztec_packages_path :: "file_system \<Rightarrow> string option" where
  "locate_aztec_packages_path F =
     (let search = (case fs_current_dir F of
            None \<Rightarrow> None
          | Some cwd \<Rightarrow> find (\<lambda>path. fs_exists F (path_join path ''yarn-project/package.json''))
              [path_join cwd ''../aztec-packages'', path_join cwd ''../../aztec-packages'',
               ''/Users/alexmetelli/source/aztec-packages''])
      in case fs_var F ''AZTEC_PACKAGES_PATH'' of
           Some path \<Rightarrow> if fs_exists F path then Some path else search
         | None \<Rightarrow> search)"

text \<open>The entry of a step in the request, with the files it names.\<close>

definition step_files :: "string \<Rightarrow> nat \<Rightarrow> private_execution_step \<Rightarrow> (string \<times> string \<times> u8 list) list" where
  "step_files sidecar_dir i step =
     [(''bytecodePath'', path_join sidecar_dir (''step-'' @ nat_display i @ ''-bytecode.bin''), xs_bytecode step),
      (''witnessPath'', path_join sidecar_dir (''step-'' @ nat_display i @ ''-witness.bin''), xs_witness step),
      (''vkPath'', path_join sidecar_dir (''step-'' @ nat_display i @ ''-vk.bin''), xs_vk step)]"

definition step_json ::
    "'w bb_system \<Rightarrow> proof_request_format \<Rightarrow> string \<Rightarrow> nat \<Rightarrow> private_execution_step \<Rightarrow> ('w, json) op" where
  "step_json B format sidecar_dir i step =
     (let name = (''functionName'', JsString (xs_function_name step)) in
      case format of
        FormatJson \<Rightarrow>
          ret (JsObject [name, (''bytecodeBase64'', JsString (bs_base64_encode B (xs_bytecode step))),
            (''witnessBase64'', JsString (bs_base64_encode B (xs_witness step))),
            (''vkBase64'', JsString (bs_base64_encode B (xs_vk step)))])
      | FormatBinaryV1 \<Rightarrow>
          seq (for_each (\<lambda>(_, path, bytes). io_done (bs_write B path bytes) ''failed to write ClientIVC file'')
                (step_files sidecar_dir i step)) (\<lambda>_.
            ret (JsObject (name # map (\<lambda>(key, path, _). (key, JsString path)) (step_files sidecar_dir i step)))))"

fun step_jsons ::
    "'w bb_system \<Rightarrow> proof_request_format \<Rightarrow> string \<Rightarrow> nat \<Rightarrow> private_execution_step list \<Rightarrow> ('w, json list) op" where
  "step_jsons B format sidecar_dir i [] = ret []"
| "step_jsons B format sidecar_dir i (step # steps) =
     seq (step_json B format sidecar_dir i step) (\<lambda>j.
     seq (step_jsons B format sidecar_dir (Suc i) steps) (\<lambda>js. ret (j # js)))"

definition response_bytes :: "'w bb_system \<Rightarrow> string \<Rightarrow> string \<Rightarrow> string \<Rightarrow> json \<Rightarrow> u8 list result" where
  "response_bytes B key missing malformed response =
     bind_result (ok_or (InvalidData missing) (Option.bind (js_field key response) js_str)) (\<lambda>text.
       ok_or (InvalidData malformed) (bs_base64_decode B text))"

definition create_chonk_proof ::
    "'w bb_system \<Rightarrow> bb_prover_config \<Rightarrow> private_execution_step list \<Rightarrow> ('w, chonk_proof_with_public_inputs) op" where
  "create_chonk_proof B config steps =
     seq (ensure_working_dir B config) (\<lambda>work_dir.
     let chonk_dir = path_join work_dir ''chonk'';
         request_path = path_join chonk_dir ''client_ivc_request.json'';
         response_path = path_join chonk_dir ''client_ivc_response.json'';
         sidecar_dir = path_join chonk_dir ''binary-v1'' in
     seq (io_done (bs_create_dir_all B chonk_dir) ''failed to create chonk dir'') (\<lambda>_.
     seq (\<lambda>w. (selected_format (bs_files B w), w)) (\<lambda>format.
     seq (if format = FormatBinaryV1
          then io_done (bs_create_dir_all B sidecar_dir) ''failed to create ClientIVC sidecar dir'' else ret ()) (\<lambda>_.
     seq (step_jsons B format sidecar_dir 0 steps) (\<lambda>request_steps.
     seq (io_done (bs_write B request_path (bs_to_vec B (JsObject
          [(''threads'', case bb_hardware_concurrency config of Some n \<Rightarrow> js_nat (unat n) | None \<Rightarrow> JsNull),
           (''requestFormat'', JsString (format_name format)), (''executionSteps'', JsArray request_steps)])))
        ''failed to write ClientIVC request'') (\<lambda>_.
     seq (\<lambda>w. io_read (bs_run B ''node''
            [path_join (bs_manifest_dir B) ''../../tools/client_ivc_prove.mjs'', request_path, response_path]
            (case locate_aztec_packages_path (bs_files B w) of
               Some path \<Rightarrow> [(''AZTEC_PACKAGES_PATH'', path)] | None \<Rightarrow> [])) ''failed to execute ClientIVC helper'' w)
       (\<lambda>(ok, stderr).
     if \<not> ok then fail (InvalidData (''ClientIVC proof helper failed: '' @ stderr))
     else
       seq (io_read (bs_read B response_path) ''failed to read ClientIVC response'') (\<lambda>bytes.
       seq (lift_result (bs_from_slice B bytes)) (\<lambda>response.
       seq (lift_result (response_bytes B ''proofBase64'' ''ClientIVC response missing proof''
              ''invalid base64 ClientIVC proof'' response)) (\<lambda>proof_bytes.
       seq (lift_result (response_bytes B ''publicInputsBase64'' ''ClientIVC response missing public inputs''
              ''invalid base64 ClientIVC public inputs'' response)) (\<lambda>inputs.
       seq (if bb_skip_cleanup config then ret () else io_quiet (bs_remove_dir_all B chonk_dir)) (\<lambda>_.
         ret \<lparr>cp_proof = proof_bytes, cp_public_inputs = inputs\<rparr>))))))))))))"

definition compute_gate_count_for_circuit ::
    "'w bb_system \<Rightarrow> bb_prover_config \<Rightarrow> u8 list \<Rightarrow> string \<Rightarrow> ('w, u64) op" where
  "compute_gate_count_for_circuit B config bytecode circuit_name =
     seq (ensure_working_dir B config) (\<lambda>work_dir.
     let gates_dir = path_join work_dir ''gates''; bytecode_path = path_join gates_dir (circuit_name @ ''-bytecode'') in
     seq (io_done (bs_create_dir_all B gates_dir) ''failed to create gates dir'') (\<lambda>_.
     seq (io_done (bs_write B bytecode_path bytecode) ''failed to write bytecode'') (\<lambda>_.
     seq (execute_bb B config ''gates'' [''--scheme'', ''ultra_honk'', ''-b'', bytecode_path, ''-v'']) (\<lambda>result.
     seq (if bb_skip_cleanup config then ret () else io_quiet (bs_remove_dir_all B gates_dir)) (\<lambda>_.
       case result of
         BbSuccess _ _ _ \<Rightarrow> ret 0
       | BbFailure reason _ \<Rightarrow> fail (InvalidData (''gate count failed: '' @ reason)))))))"

definition bb_private_kernel_prover :: "'w bb_system \<Rightarrow> bb_prover_config \<Rightarrow> 'w private_kernel_prover" where
  "bb_private_kernel_prover B config =
     (let gen = (\<lambda>circuit_type inputs. generate_circuit_output B config inputs circuit_type);
          sim = (\<lambda>circuit_type inputs. simulate_circuit inputs circuit_type)
      in \<lparr>kp_generate_init_output = gen ''PrivateKernelInitArtifact'',
          kp_simulate_init = sim ''PrivateKernelInitArtifact'',
          kp_generate_inner_output = gen ''PrivateKernelInnerArtifact'',
          kp_simulate_inner = sim ''PrivateKernelInnerArtifact'',
          kp_generate_reset_output = gen ''PrivateKernelResetArtifact'',
          kp_simulate_reset = sim ''PrivateKernelResetArtifact'',
          kp_generate_tail_output = gen ''PrivateKernelTailArtifact'',
          kp_simulate_tail = sim ''PrivateKernelTailArtifact'',
          kp_generate_hiding_to_rollup_output = gen ''HidingKernelToRollup'',
          kp_generate_hiding_to_public_output = gen ''HidingKernelToPublic'',
          kp_create_chonk_proof = create_chonk_proof B config,
          kp_compute_gate_count_for_circuit = compute_gate_count_for_circuit B config\<rparr>)"

subsection \<open>What a proof covers\<close>

text \<open>The step of an application circuit carries the circuit, the key and the witness of the call.\<close>

definition app_step ::
    "('s, 'v, 'w, 'c) kernel_execution_prover \<Rightarrow> 'c private_call_execution \<Rightarrow> private_execution_step \<Rightarrow> bool" where
  "app_step self call step \<longleftrightarrow>
     xs_bytecode step = call_acir (pce_execution_result call) \<and> xs_vk step = call_vk (pce_execution_result call) \<and>
     kep_serialize self (call_partial_witness (pce_execution_result call)) = Some (xs_witness step)"

fun inner_steps ::
    "('s, 'v, 'w, 'c) kernel_execution_prover \<Rightarrow> nat \<Rightarrow> 'c private_call_execution list \<Rightarrow> private_execution_step list \<Rightarrow> bool" where
  "inner_steps self i [] steps = (steps = [])"
| "inner_steps self i (call # calls) steps =
     (\<exists>app kernel rest. steps = app # kernel # rest \<and> app_step self call app \<and>
        xs_function_name kernel = ''private_kernel_inner_'' @ nat_display i \<and> inner_steps self (Suc i) calls rest)"

lemma ret_Inr [simp]: "ret x s = (Inr y, s') \<longleftrightarrow> y = x \<and> s' = s"
  by (auto simp: ret_def)

lemma push_call_Inr:
  assumes "push_call self call steps st = (Inr steps', st')"
  shows "if kx_simulate (kep_config self) then steps' = steps else \<exists>app. steps' = steps @ [app] \<and> app_step self call app"
  using assms
  by (auto simp: push_call_def call_to_step_def Let_def app_step_def lift_result_def ok_or_def
      split: if_splits option.splits elim!: seq_InrE)

lemma run_circuit_Inr:
  assumes "run_circuit self sim gen inputs name steps st = (Inr (out, steps'), st')"
  shows "if kx_simulate (kep_config self) then steps' = steps
    else \<exists>k. steps' = steps @ [k] \<and> xs_function_name k = name"
  using assms by (auto simp: run_circuit_def output_to_step_def split: if_splits elim!: seq_InrE)

lemma inner_circuits_Inr:
  assumes "inner_circuits self i calls out steps circuits st = (Inr (out', steps', circuits'), st')"
  shows "if kx_simulate (kep_config self) then steps' = steps
    else \<exists>more. steps' = steps @ more \<and> inner_steps self i calls more"
  using assms
proof (induction calls arbitrary: i out steps circuits st)
  case (Cons call calls)
  from Cons.prems obtain steps1 steps2 out2 circuits2 st1 st2 st3 st4 st5 inputs
    where push: "push_call self call steps st1 = (Inr steps1, st2)"
    and run: "run_circuit self (kp_simulate_inner (kep_prover self)) (kp_generate_inner_output (kep_prover self)) inputs
        (''private_kernel_inner_'' @ nat_display i) steps1 st3 = (Inr (out2, steps2), st4)"
    and rest: "inner_circuits self (Suc i) calls out2 steps2 circuits2 st5 = (Inr (out', steps', circuits'), st')"
    by (auto simp: needs_reset_def elim!: seq_InrE)
  from push_call_Inr[OF push] run_circuit_Inr[OF run] Cons.IH[OF rest] show ?case by auto
qed auto


text \<open>The prover on top of the external program produces no kernel output, so no run succeeds with it.\<close>

lemma bb_prover_fails:
  assumes "kep_prover self = bb_private_kernel_prover B config"
  shows "\<exists>e st'. prove_with_kernels self calls st = (Inl e, st')"
proof -
  have no_circuit: "\<nexists>x w'. (generate_circuit_output B config inputs t w = (Inr x, w'))" for inputs t w
    by (auto simp: generate_circuit_output_def fail_def elim!: seq_InrE)
  have "run_circuit self (kp_simulate_init (kep_prover self)) (kp_generate_init_output (kep_prover self)) inputs
      name steps s \<noteq> (Inr x, s')" for inputs name steps s x s'
    using no_circuit
    by (cases s) (auto simp: run_circuit_def assms bb_private_kernel_prover_def simulate_circuit_def fail_def
        on_world_def elim!: seq_InrE split: prod.splits if_splits)
  then have "call_circuits self first rest s \<noteq> (Inr x, s')" for first rest s x s'
    by (auto simp: call_circuits_def elim!: seq_InrE)
  then have "prove_with_kernels self calls st \<noteq> (Inr x, s')" for x s'
    by (cases calls) (auto simp: prove_with_kernels_def fail_def elim!: seq_InrE)
  then show ?thesis by (metis prod.exhaust sum.exhaust)
qed

text \<open>A prover that answers every circuit, and a tree of verification keys with the hash zero.\<close>

definition example_output :: simulate_output where
  "example_output = \<lparr>so_public_inputs = JsNull, so_verification_key = [1], so_output_witness = [2], so_bytecode = [3]\<rparr>"

definition example_proving_oracle ::
    "((contract_instance_with_address + contract_artifact) btree,
      contract_instance_with_address + contract_artifact, unit) private_kernel_oracle" where
  "example_proving_oracle = example_kernel_oracle
     \<lparr>ko_node := (ko_node example_kernel_oracle)\<lparr>kn_get_contract := (\<lambda>_. ret (Some
        \<lparr>iwa_address = AztecAddress 9, iwa_inner = \<lparr>in_version = 1, in_salt = 0, in_deployer = AztecAddress 0,
          in_current_contract_class_id = 0, in_original_contract_class_id = 0, in_initialization_hash = 0,
          in_public_keys = dk_public_keys (derive_keys example_curve 1)\<rparr>\<rparr>))\<rparr>,
      ko_files := \<lparr>fs_var = (\<lambda>_. Some ''vk_tree.ts''), fs_current_dir = None, fs_exists = (\<lambda>_. True),
        fs_read_to_string = (\<lambda>_. Some (vk_tree_text plain_hex ''Buffer.from('' (''), Buffer.from('')
          (flat_tree (\<lambda>a b. a + 2 * b) 1 [0, 4])))\<rparr>\<rparr>"

definition example_execution_prover ::
    "((contract_instance_with_address + contract_artifact) btree,
      contract_instance_with_address + contract_artifact, unit, unit) kernel_execution_prover" where
  "example_execution_prover =
     (let answer = (\<lambda>_. ret example_output) in
      \<lparr>kep_oracle = example_proving_oracle,
       kep_prover =
         \<lparr>kp_generate_init_output = answer, kp_simulate_init = answer, kp_generate_inner_output = answer,
          kp_simulate_inner = answer, kp_generate_reset_output = answer, kp_simulate_reset = answer,
          kp_generate_tail_output = answer, kp_simulate_tail = answer, kp_generate_hiding_to_rollup_output = answer,
          kp_generate_hiding_to_public_output = answer,
          kp_create_chonk_proof = (\<lambda>steps. ret \<lparr>cp_proof = concat (map xs_vk steps), cp_public_inputs = []\<rparr>),
          kp_compute_gate_count_for_circuit = (\<lambda>_ _. ret 0)\<rparr>,
       kep_config = kernel_execution_config_default, kep_serialize = (\<lambda>_. Some [7]), kep_now = (\<lambda>_. 0)\<rparr>)"

definition example_call_execution :: "unit private_call_execution" where
  "example_call_execution =
     \<lparr>pce_contract_address = AztecAddress 9, pce_tx_request = JsNull, pce_call_stack_item = JsNull,
      pce_execution_result_json = JsNull, pce_execution_result = call_data (private_call_default ())\<rparr>"

lemma example_vk_witness: "\<exists>j. get_vk_membership_witness example_proving_oracle 0 = Inr j"
proof -
  let ?o = example_proving_oracle
  have o: "ko_hex ?o = plain_hex" "locate_vk_tree_path (ko_files ?o) = Some ''vk_tree.ts''"
    "fs_read_to_string (ko_files ?o) ''vk_tree.ts'' = Some (vk_tree_text (ko_hex ?o) ''Buffer.from(''
      (''), Buffer.from('') (flat_tree (\<lambda>a b. a + 2 * b) (Suc 0) [0, 4]))"
    by (simp_all add: example_proving_oracle_def example_kernel_oracle_def locate_vk_tree_path_def)
  have "inert ''Buffer.from(''" "inert ''), Buffer.from(''" by (simp_all add: quote_char_def)
  note p = vk_witness_correct[OF _ this _ o(2) o(3), of 0, unfolded o(1), OF plain_hex_ok]
  show ?thesis using p by (cases "get_vk_membership_witness ?o 0") simp_all
qed

lemma example_lookups:
  "get_instance example_contract_store a [] = (Inr None, [])"
  "\<exists>j. get_contract_address_preimage example_proving_oracle a ([], ()) = (Inr j, [], ())"
  "get_debug_function_name example_proving_oracle a sel ([], ()) = (Inr None, [], ())"
proof -
  show none: "get_instance example_contract_store a [] = (Inr None, [])"
    by (simp add: get_instance_def example_contract_store_def get_json_def in_memory_kv_def in_memory_get_def seq_def ret_def)
  have store: "ko_contract_store example_proving_oracle = example_contract_store"
    by (simp add: example_proving_oracle_def example_kernel_oracle_def)
  show "\<exists>j. get_contract_address_preimage example_proving_oracle a ([], ()) = (Inr j, [], ())"
    by (simp add: get_contract_address_preimage_def seq_def store none lift_result_def ok_or_def ret_def)
      (simp add: example_proving_oracle_def ret_def lift_result_def)
  show "get_debug_function_name example_proving_oracle a sel ([], ()) = (Inr None, [], ())"
    by (simp add: get_debug_function_name_def seq_def store none ret_def)
qed


end
