(* ===== verification/L1_Bridge.thy ===== *)
theory L1_Bridge
  imports Node_Client Account_Entrypoint
begin

text \<open>
  The L1 side (\<open>crates/ethereum\<close>): messages between the chains, the client of an Ethereum node, calldata of the
  portal contracts, bridging Fee Juice, and waiting until a message can be consumed.

  The HTTP exchange with the Ethereum node, its clock, Keccak-256 and the random claim secret are parameters.
  The theorems show that bridging sends exactly the three transactions it must, in order, with a claim
  that fits the deposit, and that waiting for a message ends.
\<close>

subsection \<open>Messages\<close>

record l1_actor =
  l1_sender :: eth_address
  l1_chain_id :: u64

definition l1_actor_empty :: l1_actor where
  "l1_actor_empty = \<lparr>l1_sender = eth_address_default, l1_chain_id = 0\<rparr>"

definition l1_actor_fields :: "l1_actor \<Rightarrow> fr list" where
  "l1_actor_fields a = [fr_from_bytes (replicate 12 0 @ eth_bytes (l1_sender a)), fr_from_u64 (l1_chain_id a)]"

record l2_actor =
  l2_recipient :: aztec_address
  l2_version :: u64

definition l2_actor_empty :: l2_actor where
  "l2_actor_empty = \<lparr>l2_recipient = aztec_address_zero, l2_version = 0\<rparr>"

definition l2_actor_fields :: "l2_actor \<Rightarrow> fr list" where
  "l2_actor_fields a = [address_field (l2_recipient a), fr_from_u64 (l2_version a)]"

record l1_to_l2_message =
  lm_sender :: l1_actor
  lm_recipient :: l2_actor
  lm_content :: fr
  lm_secret_hash :: fr
  lm_index :: fr

definition l1_to_l2_message_empty :: l1_to_l2_message where
  "l1_to_l2_message_empty =
     \<lparr>lm_sender = l1_actor_empty, lm_recipient = l2_actor_empty, lm_content = 0, lm_secret_hash = 0, lm_index = 0\<rparr>"

definition l1_to_l2_message_fields :: "l1_to_l2_message \<Rightarrow> fr list" where
  "l1_to_l2_message_fields m =
     l1_actor_fields (lm_sender m) @ l2_actor_fields (lm_recipient m) @ [lm_content m, lm_secret_hash m]"

definition l1_to_l2_message_hash :: "crypto \<Rightarrow> l1_to_l2_message \<Rightarrow> fr" where
  "l1_to_l2_message_hash C m = sha256_to_field C (concat (map fr_to_be_bytes (l1_to_l2_message_fields m)))"

text \<open>\<open>secret\<close> is the random field drawn.\<close>

definition generate_claim_secret :: "crypto \<Rightarrow> fr \<Rightarrow> fr \<times> fr" where
  "generate_claim_secret C secret = (secret, compute_secret_hash C secret)"

subsection \<open>Waiting for a message\<close>

record 'w bridge_node =
  bn_node :: "'w node_api"
  bn_get_l1_to_l2_message_checkpoint :: "fr \<Rightarrow> ('w, u64 option) op"
  bn_get_block :: "u64 \<Rightarrow> ('w, json option) op"

definition http_bridge_node ::
    "'w http_node_client \<Rightarrow> ('w \<Rightarrow> nat) \<Rightarrow> (nat \<Rightarrow> 'w \<Rightarrow> 'w) \<Rightarrow> ('w \<times> u64) bridge_node" where
  "http_bridge_node self now sleep =
     \<lparr>bn_node = http_node self now sleep,
      bn_get_l1_to_l2_message_checkpoint = http_get_l1_to_l2_message_checkpoint self,
      bn_get_block = http_get_block self\<rparr>"

definition is_l1_to_l2_message_ready :: "'w bridge_node \<Rightarrow> fr \<Rightarrow> ('w, bool) op" where
  "is_l1_to_l2_message_ready N message_hash =
     seq (bn_get_l1_to_l2_message_checkpoint N message_hash) (\<lambda>checkpoint.
       case checkpoint of
         None \<Rightarrow> ret False
       | Some msg_checkpoint \<Rightarrow>
           seq (na_get_block_number (bn_node N)) (\<lambda>block_number.
             if block_number = 0 then ret False
             else seq (bn_get_block N block_number) (\<lambda>block.
               case block of
                 None \<Rightarrow> ret False
               | Some block_json \<Rightarrow>
                   (let block_checkpoint = (case Option.bind (Private_Oracle.js_pointer
                          [''header'', ''globalVariables'', ''blockNumber''] block_json) js_u64 of
                        Some n \<Rightarrow> n | None \<Rightarrow> 0)
                    in ret (msg_checkpoint \<le> block_checkpoint)))))"

definition wait_for_l1_to_l2_message_ready :: "'w bridge_node \<Rightarrow> fr \<Rightarrow> nat \<Rightarrow> nat \<Rightarrow> ('w, unit) run" where
  "wait_for_l1_to_l2_message_ready N message_hash timeout fuel w =
     poll (bn_node N) 0 1000 (na_now (bn_node N) w + timeout)
       (\<lambda>w. case is_l1_to_l2_message_ready N message_hash w of
          (Inl e, w') \<Rightarrow> (Finish (Inl e), w')
        | (Inr True, w') \<Rightarrow> (Finish (Inr ()), w')
        | (Inr False, w') \<Rightarrow> (Again (Inl (Timeout ''L1-to-L2 message not ready'')), w')) fuel w"

subsection \<open>The Ethereum client\<close>

record l1_contract_addresses =
  la_inbox :: string
  la_outbox :: string
  la_rollup :: string
  la_fee_juice_portal :: string
  la_fee_juice :: "string option"
  la_fee_asset_handler :: "string option"

definition l1_contract_addresses_from_json :: "json \<Rightarrow> l1_contract_addresses option" where
  "l1_contract_addresses_from_json j =
     (let text = (\<lambda>key. Option.bind (js_field key j) js_str) in
      case (text ''inboxAddress'', text ''outboxAddress'', text ''rollupAddress'', text ''feeJuicePortalAddress'') of
        (Some inbox, Some outbox, Some rollup, Some portal) \<Rightarrow>
          Some \<lparr>la_inbox = inbox, la_outbox = outbox, la_rollup = rollup, la_fee_juice_portal = portal,
            la_fee_juice = text ''feeJuiceAddress'', la_fee_asset_handler = text ''feeAssetHandlerAddress''\<rparr>
      | _ \<Rightarrow> None)"

text \<open>One exchange over HTTP: no response, a body that is not JSON, or an answer.\<close>

datatype l1_response = Unreachable | Unreadable | Answer json

record 'w eth_client =
  ec_post :: "json \<Rightarrow> 'w \<Rightarrow> l1_response \<times> 'w"
  ec_sleep :: "nat \<Rightarrow> 'w \<Rightarrow> 'w"

definition eth_request :: "string \<Rightarrow> json list \<Rightarrow> json" where
  "eth_request meth params =
     JsObject [(''jsonrpc'', JsString ''2.0''), (''method'', JsString meth), (''params'', JsArray params),
       (''id'', js_nat 1)]"

definition eth_rpc_call :: "'w eth_client \<Rightarrow> string \<Rightarrow> json list \<Rightarrow> ('w, json) op" where
  "eth_rpc_call E meth params w =
     (case ec_post E (eth_request meth params) w of
        (Unreachable, w') \<Rightarrow> (Inl (InvalidData ''L1 RPC error''), w')
      | (Unreadable, w') \<Rightarrow> (Inl (InvalidData ''L1 RPC parse error''), w')
      | (Answer j, w') \<Rightarrow>
          (if js_field ''error'' j \<noteq> None then Inl (InvalidData ''L1 RPC error'')
           else Inr (case js_field ''result'' j of Some r \<Rightarrow> r | None \<Rightarrow> JsNull), w'))"

definition get_account :: "'w eth_client \<Rightarrow> ('w, string) op" where
  "get_account E =
     seq (eth_rpc_call E ''eth_accounts'' []) (\<lambda>result.
       lift_result (ok_or (InvalidData ''no L1 accounts available'') (Option.bind (js_index 0 result) js_str)))"

definition transaction_json :: "string \<Rightarrow> string \<Rightarrow> string \<Rightarrow> json" where
  "transaction_json target data sender =
     JsObject [(''from'', JsString sender), (''to'', JsString target), (''data'', JsString data),
       (''gas'', JsString ''0xf4240'')]"

definition send_transaction :: "'w eth_client \<Rightarrow> string \<Rightarrow> string \<Rightarrow> string \<Rightarrow> ('w, string) op" where
  "send_transaction E target data sender =
     seq (eth_rpc_call E ''eth_sendTransaction'' [transaction_json target data sender]) (\<lambda>result.
       lift_result (ok_or (InvalidData ''no tx hash in response'') (js_str result)))"

fun receipt_loop :: "'w eth_client \<Rightarrow> string \<Rightarrow> nat \<Rightarrow> ('w, json) op" where
  "receipt_loop E h 0 w = (Inl (Timeout ''L1 tx receipt not available after 30s''), w)"
| "receipt_loop E h (Suc n) w =
     (case eth_rpc_call E ''eth_getTransactionReceipt'' [JsString h] w of
        (Inl e, w') \<Rightarrow> (Inl e, w')
      | (Inr receipt, w') \<Rightarrow>
          if receipt \<noteq> JsNull then (Inr receipt, w') else receipt_loop E h n (ec_sleep E 500 w'))"

definition wait_for_receipt :: "'w eth_client \<Rightarrow> string \<Rightarrow> ('w, json) op" where
  "wait_for_receipt E h = receipt_loop E h 60"

definition receipt_ok :: "json \<Rightarrow> bool" where
  "receipt_ok receipt \<longleftrightarrow>
     (case Option.bind (js_field ''status'' receipt) js_str of Some status \<Rightarrow> status = ''0x1'' | None \<Rightarrow> False)"

subsection \<open>Calldata\<close>

text \<open>\<open>keccak\<close> is Keccak-256.\<close>

record l1_tools =
  lt_hex :: hex_crate
  lt_keccak :: "u8 list \<Rightarrow> u8 list"
  lt_crypto :: crypto

definition keccak_selector :: "l1_tools \<Rightarrow> string \<Rightarrow> u8 list" where
  "keccak_selector L sig = take 4 (lt_keccak L (string_bytes sig))"

definition hex_text :: "l1_tools \<Rightarrow> u8 list \<Rightarrow> string" where
  "hex_text L bytes = ''0x'' @ hex_encode (lt_hex L) bytes"

definition hex_bytes :: "l1_tools \<Rightarrow> string \<Rightarrow> u8 list" where
  "hex_bytes L s =
     (case hex_decode (lt_hex L) (case strip_prefix ''0x'' s of Some rest \<Rightarrow> rest | None \<Rightarrow> s) of
        Inr bytes \<Rightarrow> bytes | Inl e \<Rightarrow> [])"

text \<open>Copying into the end of 32 zero bytes panics when there are more.\<close>

definition padded_word :: "u8 list \<Rightarrow> u8 list result" where
  "padded_word bytes =
     (if length bytes \<le> 32 then Inr (replicate (32 - length bytes) 0 @ bytes)
      else Inl (Panic ''copy_from_slice: source slice length does not match destination slice length''))"

definition amount_bytes :: "128 word \<Rightarrow> u8 list" where
  "amount_bytes amount = replicate 16 0 @ be_bytes 16 (unat amount)"

definition encode_send_l2_message :: "l1_tools \<Rightarrow> aztec_address \<Rightarrow> u64 \<Rightarrow> fr \<Rightarrow> fr \<Rightarrow> string" where
  "encode_send_l2_message L recipient rollup_version content secret_hash =
     hex_text L (keccak_selector L ''sendL2Message((bytes32,uint256),bytes32,bytes32)'' @
       fr_to_be_bytes (address_field recipient) @ replicate 24 0 @ be_bytes 8 (unat rollup_version) @
       fr_to_be_bytes content @ fr_to_be_bytes secret_hash)"

definition encode_mint :: "l1_tools \<Rightarrow> string \<Rightarrow> string result" where
  "encode_mint L target =
     bind_result (padded_word (hex_bytes L target)) (\<lambda>padded.
       Inr (hex_text L (keccak_selector L ''mint(address)'' @ padded)))"

definition encode_approve :: "l1_tools \<Rightarrow> string \<Rightarrow> 128 word \<Rightarrow> string result" where
  "encode_approve L spender amount =
     bind_result (padded_word (hex_bytes L spender)) (\<lambda>padded.
       Inr (hex_text L (keccak_selector L ''approve(address,uint256)'' @ padded @ amount_bytes amount)))"

definition encode_deposit_to_aztec_public :: "l1_tools \<Rightarrow> aztec_address \<Rightarrow> 128 word \<Rightarrow> fr \<Rightarrow> string" where
  "encode_deposit_to_aztec_public L target amount secret_hash =
     hex_text L (keccak_selector L ''depositToAztecPublic(bytes32,uint256,bytes32)'' @
       fr_to_be_bytes (address_field target) @ amount_bytes amount @ fr_to_be_bytes secret_hash)"

definition encode_mint_amount :: "l1_tools \<Rightarrow> string" where
  "encode_mint_amount L = hex_text L (keccak_selector L ''mintAmount()'')"

subsection \<open>Events\<close>

definition message_sent_sig :: "l1_tools \<Rightarrow> string" where
  "message_sent_sig L = hex_text L (lt_keccak L (string_bytes ''MessageSent(uint256,uint256,bytes32,bytes16)''))"

definition log_topics :: "json \<Rightarrow> json list" where
  "log_topics log = (case Option.bind (js_field ''topics'' log) js_array of Some ts \<Rightarrow> ts | None \<Rightarrow> [])"

definition is_message_sent :: "l1_tools \<Rightarrow> json \<Rightarrow> bool" where
  "is_message_sent L log \<longleftrightarrow>
     length (log_topics log) \<ge> 3 \<and>
     (case js_str (log_topics log ! 0) of Some t \<Rightarrow> t | None \<Rightarrow> []) = message_sent_sig L"

definition log_message_hash :: "l1_tools \<Rightarrow> json \<Rightarrow> fr result" where
  "log_message_hash L log =
     bind_result (padded_word (hex_bytes L (case js_str (log_topics log ! 2) of Some t \<Rightarrow> t | None \<Rightarrow> ''0x0'')))
       (\<lambda>bytes. Inr (fr_from_bytes bytes))"

definition log_data :: "l1_tools \<Rightarrow> json \<Rightarrow> u8 list" where
  "log_data L log =
     hex_bytes L (case Option.bind (js_field ''data'' log) js_str of Some d \<Rightarrow> d | None \<Rightarrow> ''0x'')"

definition receipt_logs :: "json \<Rightarrow> string \<Rightarrow> json list result" where
  "receipt_logs receipt message =
     ok_or (InvalidData message) (Option.bind (js_field ''logs'' receipt) js_array)"

record l1_to_l2_message_sent_result =
  ms_msg_hash :: fr
  ms_global_leaf_index :: fr
  ms_tx_hash :: string

definition send_l1_to_l2_message ::
    "l1_tools \<Rightarrow> 'w eth_client \<Rightarrow> string \<Rightarrow> aztec_address \<Rightarrow> u64 \<Rightarrow> fr \<Rightarrow> fr \<Rightarrow>
     ('w, l1_to_l2_message_sent_result) op" where
  "send_l1_to_l2_message L E inbox_address recipient rollup_version content secret_hash =
     seq (get_account E) (\<lambda>sender.
     seq (send_transaction E inbox_address
        (encode_send_l2_message L recipient rollup_version content secret_hash) sender) (\<lambda>h.
     seq (wait_for_receipt E h) (\<lambda>receipt.
       if \<not> receipt_ok receipt then fail (InvalidData ''L1 tx failed with status'')
       else lift_result (bind_result (receipt_logs receipt ''no logs in L1 receipt'') (\<lambda>logs.
         case find (is_message_sent L) logs of
           None \<Rightarrow> Inl (InvalidData ''no MessageSent event found in L1 receipt'')
         | Some log \<Rightarrow>
             bind_result (log_message_hash L log) (\<lambda>msg_hash.
               Inr \<lparr>ms_msg_hash = msg_hash,
                 ms_global_leaf_index = fr_from_bytes (let data = log_data L log in
                   if length data \<ge> 32 then take 32 data else replicate 32 0),
                 ms_tx_hash = h\<rparr>))))))"

subsection \<open>Bridging Fee Juice\<close>

record fee_juice_bridge_result =
  fb_claim_amount :: "128 word"
  fb_claim_secret :: fr
  fb_message_leaf_index :: u64
  fb_message_hash :: fr

text \<open>A transaction that must succeed.\<close>

definition transact :: "'w eth_client \<Rightarrow> string \<Rightarrow> string \<Rightarrow> string \<Rightarrow> ('w, json) op" where
  "transact E target data sender =
     seq (send_transaction E target data sender) (\<lambda>h.
     seq (wait_for_receipt E h) (\<lambda>receipt.
       if receipt_ok receipt then ret receipt else fail (InvalidData ''tx reverted'')))"

definition query_mint_amount :: "l1_tools \<Rightarrow> 'w eth_client \<Rightarrow> string \<Rightarrow> ('w, 128 word) op" where
  "query_mint_amount L E handler =
     seq (eth_rpc_call E ''eth_call''
        [JsObject [(''to'', JsString handler), (''data'', JsString (encode_mint_amount L))], JsString ''latest''])
       (\<lambda>result.
         let bytes = hex_bytes L (case js_str result of Some s \<Rightarrow> s | None \<Rightarrow> ''0x0'') in
         if length bytes \<ge> 32 then ret (of_nat (of_be_bytes (take 16 (drop 16 bytes))))
         else fail (InvalidData ''mintAmount() returned invalid data''))"

definition bridge_result :: "l1_tools \<Rightarrow> 128 word \<Rightarrow> fr \<Rightarrow> json \<Rightarrow> fee_juice_bridge_result result" where
  "bridge_result L amount claim_secret receipt =
     bind_result (receipt_logs receipt ''no logs in depositToAztecPublic receipt'') (\<lambda>logs.
       case find (is_message_sent L) logs of
         None \<Rightarrow> Inl (InvalidData ''no MessageSent event found in deposit receipt'')
       | Some log \<Rightarrow>
           bind_result (log_message_hash L log) (\<lambda>msg_hash.
             Inr \<lparr>fb_claim_amount = amount, fb_claim_secret = claim_secret,
               fb_message_leaf_index = (let data = log_data L log in
                 if length data \<ge> 32 then of_nat (of_be_bytes (take 8 (drop 24 data))) else 0),
               fb_message_hash = msg_hash\<rparr>))"

definition prepare_fee_juice_on_l1 ::
    "l1_tools \<Rightarrow> 'w eth_client \<Rightarrow> l1_contract_addresses \<Rightarrow> aztec_address \<Rightarrow> fr \<Rightarrow> ('w, fee_juice_bridge_result) op" where
  "prepare_fee_juice_on_l1 L E addresses recipient secret =
     seq (lift_result (ok_or (InvalidData ''feeJuiceAddress not in node info'') (la_fee_juice addresses))) (\<lambda>fee_juice_address.
     seq (lift_result (ok_or (InvalidData ''feeAssetHandlerAddress not in node info'') (la_fee_asset_handler addresses)))
       (\<lambda>handler_address.
     seq (get_account E) (\<lambda>sender.
     seq (query_mint_amount L E handler_address) (\<lambda>mint_amount.
     seq (lift_result (encode_mint L sender)) (\<lambda>mint_data.
     seq (transact E handler_address mint_data sender) (\<lambda>_.
     seq (lift_result (encode_approve L (la_fee_juice_portal addresses) mint_amount)) (\<lambda>approve_data.
     seq (transact E fee_juice_address approve_data sender) (\<lambda>_.
     let (claim_secret, claim_secret_hash) = generate_claim_secret (lt_crypto L) secret in
     seq (transact E (la_fee_juice_portal addresses)
        (encode_deposit_to_aztec_public L recipient mint_amount claim_secret_hash) sender) (\<lambda>receipt.
       lift_result (bridge_result L mint_amount claim_secret receipt))))))))))"

subsection \<open>The transactions of the bridge\<close>

text \<open>A world in which \<open>sent\<close> lists the requests made so far.\<close>

definition records :: "'w eth_client \<Rightarrow> ('w \<Rightarrow> json list) \<Rightarrow> bool" where
  "records E sent \<longleftrightarrow>
     (\<forall>req w. sent (snd (ec_post E req w)) = sent w @ [req]) \<and> (\<forall>d w. sent (ec_sleep E d w) = sent w)"

definition transactions :: "json list \<Rightarrow> json list" where
  "transactions reqs = filter (\<lambda>r. js_field ''method'' r = Some (JsString ''eth_sendTransaction'')) reqs"

definition transaction_request :: "string \<Rightarrow> string \<Rightarrow> string \<Rightarrow> json" where
  "transaction_request target data sender =
     eth_request ''eth_sendTransaction'' [transaction_json target data sender]"

text \<open>The transactions an operation sends, whatever it returns.\<close>

definition sends :: "('w \<Rightarrow> json list) \<Rightarrow> ('w, 'a) op \<Rightarrow> json list \<Rightarrow> bool" where
  "sends sent m txs \<longleftrightarrow> (\<forall>w. transactions (sent (snd (m w))) = transactions (sent w) @ txs)"

lemma sends_basic: "sends sent (lift_result r) []" "sends sent (ret x) []" "sends sent (fail e) []"
  by (simp_all add: sends_def lift_result_def ret_def fail_def)

lemma sendsD: "sends sent m txs \<Longrightarrow> m w = (r, w') \<Longrightarrow> transactions (sent w') = transactions (sent w) @ txs"
  by (metis sends_def snd_conv)

lemma sends_seq:
  assumes "sends sent m txs" and "\<And>x. sends sent (f x) []"
  shows "sends sent (seq m f) txs"
  unfolding sends_def
proof
  fix w
  obtain r w' where "m w = (r, w')" by fastforce
  then show "transactions (sent (snd (seq m f w))) = transactions (sent w) @ txs"
    using sendsD[OF assms(1)] assms(2) by (cases r) (simp_all add: seq_def sends_def)
qed

lemma eth_rpc_call_sent:
  assumes "records E sent"
  shows "sent (snd (eth_rpc_call E meth params w)) = sent w @ [eth_request meth params]"
proof -
  obtain a w' where p: "ec_post E (eth_request meth params) w = (a, w')" by fastforce
  then have "sent w' = sent w @ [eth_request meth params]" using assms by (metis records_def snd_conv)
  then show ?thesis using p by (cases a) (simp_all add: eth_rpc_call_def)
qed

lemma eth_request_method [simp]: "js_field ''method'' (eth_request meth params) = Some (JsString meth)"
  by (simp add: eth_request_def)

lemma sends_call:
  "records E sent \<Longrightarrow> sends sent (eth_rpc_call E meth params)
     (if meth = ''eth_sendTransaction'' then [eth_request meth params] else [])"
  by (simp add: sends_def eth_rpc_call_sent transactions_def)

lemma sends_receipt:
  assumes "records E sent"
  shows "sends sent (receipt_loop E h n) []"
proof (induction n)
  case (Suc n)
  show ?case
    unfolding sends_def
  proof
    fix w
    obtain r w' where c: "eth_rpc_call E ''eth_getTransactionReceipt'' [JsString h] w = (r, w')" by fastforce
    then have "transactions (sent w') = transactions (sent w)"
      using sendsD[OF sends_call[OF assms] c] by simp
    then show "transactions (sent (snd (receipt_loop E h (Suc n) w))) = transactions (sent w) @ []"
      using Suc c assms by (auto simp: sends_def records_def split: sum.split)
  qed
qed (simp add: sends_def)

lemma sends_reads:
  assumes "records E sent"
  shows "sends sent (get_account E) []" "sends sent (query_mint_amount L E handler) []"
proof -
  have "sends sent (get_account E)
      (if ''eth_accounts'' = ''eth_sendTransaction'' then [eth_request ''eth_accounts'' []] else [])"
    unfolding get_account_def by (rule sends_seq[OF sends_call[OF assms] sends_basic(1)])
  then show "sends sent (get_account E) []" by simp
  have "sends sent (query_mint_amount L E handler) (if ''eth_call'' = ''eth_sendTransaction'' then
      [eth_request ''eth_call'' [JsObject [(''to'', JsString handler), (''data'', JsString (encode_mint_amount L))],
         JsString ''latest'']] else [])"
    unfolding query_mint_amount_def Let_def
    by (rule sends_seq[OF sends_call[OF assms]]) (auto simp: sends_basic)
  then show "sends sent (query_mint_amount L E handler) []" by simp
qed

lemma sends_transact:
  assumes "records E sent"
  shows "sends sent (transact E target data sender) [transaction_request target data sender]"
proof -
  have "sends sent (send_transaction E target data sender) [transaction_request target data sender]"
    unfolding send_transaction_def transaction_request_def
    using sends_seq[OF sends_call[OF assms, of "''eth_sendTransaction''"] sends_basic(1)] by simp
  moreover have "sends sent (seq (wait_for_receipt E h) (\<lambda>receipt.
      if receipt_ok receipt then ret receipt else fail (InvalidData ''tx reverted''))) []" for h
    unfolding wait_for_receipt_def by (rule sends_seq[OF sends_receipt[OF assms]]) (simp add: sends_basic)
  ultimately show ?thesis unfolding transact_def by (rule sends_seq)
qed

text \<open>
  C34. Bridging Fee Juice that succeeds has sent exactly three transactions from one account, in this order:
  minting to that account, approving the portal for the minted amount, and depositing that amount for the
  recipient under the hash of the claim secret. The claim it returns carries the deposited amount and the
  secret with that hash.
\<close>

theorem fee_juice_bridged:
  assumes "records E sent"
    and "prepare_fee_juice_on_l1 L E addresses recipient secret w = (Inr claim, w')"
  shows "\<exists>sender fee_juice_address handler mint_data approve_data.
    la_fee_juice addresses = Some fee_juice_address \<and> la_fee_asset_handler addresses = Some handler \<and>
    encode_mint L sender = Inr mint_data \<and>
    encode_approve L (la_fee_juice_portal addresses) (fb_claim_amount claim) = Inr approve_data \<and>
    transactions (sent w') = transactions (sent w) @
      [transaction_request handler mint_data sender,
       transaction_request fee_juice_address approve_data sender,
       transaction_request (la_fee_juice_portal addresses)
         (encode_deposit_to_aztec_public L recipient (fb_claim_amount claim)
           (compute_secret_hash (lt_crypto L) (fb_claim_secret claim))) sender]"
proof -
  note assms(2)[unfolded prepare_fee_juice_on_l1_def generate_claim_secret_def Let_def prod.case]
  then obtain fee_juice_address handler sender amount mint_data approve_data receipt w1 w2 r3 w3 r4 w4 w5 where
    found: "la_fee_juice addresses = Some fee_juice_address" "la_fee_asset_handler addresses = Some handler" and
    reads: "get_account E w = (Inr sender, w1)" "query_mint_amount L E handler w1 = (Inr amount, w2)" and
    mint: "encode_mint L sender = Inr mint_data" "transact E handler mint_data sender w2 = (Inr r3, w3)" and
    approve: "encode_approve L (la_fee_juice_portal addresses) amount = Inr approve_data"
      "transact E fee_juice_address approve_data sender w3 = (Inr r4, w4)" and
    deposit: "transact E (la_fee_juice_portal addresses) (encode_deposit_to_aztec_public L recipient amount
      (compute_secret_hash (lt_crypto L) secret)) sender w4 = (Inr receipt, w5)" and
    result: "lift_result (bridge_result L amount secret receipt) w5 = (Inr claim, w')"
    by (elim seq_InrE) (auto simp: lift_result_def ok_or_def split: option.splits)
  have "fb_claim_amount claim = amount" "fb_claim_secret claim = secret" "w' = w5"
    using result by (auto simp: lift_result_def bridge_result_def bind_result_Inr_iff split: option.splits)
  then show ?thesis
    using found mint(1) approve(1) sendsD[OF sends_reads(1)[OF assms(1)] reads(1)]
      sendsD[OF sends_reads(2)[OF assms(1)] reads(2)] sendsD[OF sends_transact[OF assms(1)] mint(2)]
      sendsD[OF sends_transact[OF assms(1)] approve(2)] sendsD[OF sends_transact[OF assms(1)] deposit]
    by (intro exI[of _ sender] exI[of _ fee_juice_address] exI[of _ handler] exI[of _ mint_data]
        exI[of _ approve_data]) simp
qed

definition example_l1_tools :: l1_tools where
  "example_l1_tools =
     \<lparr>lt_hex = plain_hex, lt_keccak = (\<lambda>bs. replicate 31 0 @ [of_nat (length bs)]), lt_crypto = example_crypto\<rparr>"

definition example_l1_receipt :: json where
  "example_l1_receipt =
     JsObject [(''status'', JsString ''0x1''),
       (''logs'', JsArray [JsObject
          [(''topics'', JsArray [JsString (message_sent_sig example_l1_tools), JsNull, JsString (hex_text example_l1_tools [7])]),
           (''data'', JsString (hex_text example_l1_tools (replicate 31 0 @ [9])))]])]"

text \<open>An Ethereum node that accepts everything; the world is the list of requests.\<close>

definition example_eth_client :: "json list eth_client" where
  "example_eth_client =
     \<lparr>ec_post = (\<lambda>req w.
        (Answer (JsObject [(''result'',
           if js_field ''method'' req = Some (JsString ''eth_accounts'')
           then JsArray [JsString (hex_text example_l1_tools [170])]
           else if js_field ''method'' req = Some (JsString ''eth_call'')
           then JsString (hex_text example_l1_tools (replicate 31 0 @ [5]))
           else if js_field ''method'' req = Some (JsString ''eth_sendTransaction'') then JsString ''0x01''
           else example_l1_receipt)]), w @ [req])),
      ec_sleep = (\<lambda>_ w. w)\<rparr>"

definition example_l1_addresses :: l1_contract_addresses where
  "example_l1_addresses =
     \<lparr>la_inbox = ''0x01'', la_outbox = ''0x02'', la_rollup = ''0x03'', la_fee_juice_portal = hex_text example_l1_tools [4],
      la_fee_juice = Some ''0x05'', la_fee_asset_handler = Some ''0x06''\<rparr>"

lemma example_hex_bytes: "hex_bytes example_l1_tools (hex_text example_l1_tools bs) = bs"
  by (simp add: hex_bytes_def hex_text_def strip_prefix_def example_l1_tools_def plain_hex_ok)

lemma example_calls:
  "eth_rpc_call example_eth_client ''eth_accounts'' ps w =
     (Inr (JsArray [JsString (hex_text example_l1_tools [170])]), w @ [eth_request ''eth_accounts'' ps])"
  "eth_rpc_call example_eth_client ''eth_call'' ps w =
     (Inr (JsString (hex_text example_l1_tools (replicate 31 0 @ [5]))), w @ [eth_request ''eth_call'' ps])"
  "eth_rpc_call example_eth_client ''eth_sendTransaction'' ps w =
     (Inr (JsString ''0x01''), w @ [eth_request ''eth_sendTransaction'' ps])"
  "eth_rpc_call example_eth_client ''eth_getTransactionReceipt'' ps w =
     (Inr example_l1_receipt, w @ [eth_request ''eth_getTransactionReceipt'' ps])"
  by (simp_all add: eth_rpc_call_def example_eth_client_def)

lemma example_transact: "\<exists>w'. transact example_eth_client target data sender w = (Inr example_l1_receipt, w')"
proof -
  have "receipt_loop example_eth_client h 60 v = (Inr example_l1_receipt, v @ [eth_request ''eth_getTransactionReceipt'' [JsString h]])"
    for h v
    using receipt_loop.simps(2)[of example_eth_client h 59 v] by (simp add: example_calls) (simp add: example_l1_receipt_def)
  then show ?thesis
    by (simp add: transact_def send_transaction_def wait_for_receipt_def seq_def example_calls lift_result_def ok_or_def
        ret_def receipt_ok_def) (simp add: example_l1_receipt_def)
qed

theorem fee_juice_bridged_witness:
  "\<exists>claim w'. prepare_fee_juice_on_l1 example_l1_tools example_eth_client example_l1_addresses (AztecAddress 3) 11 [] =
      (Inr claim, w') \<and> fb_claim_amount claim = 5 \<and> fb_message_leaf_index claim = 9 \<and> length (transactions w') = 3"
proof -
  have nine: "of_be_bytes [9] = 9" by (simp add: of_be_bytes_def)
  obtain r where r: "bridge_result example_l1_tools 5 11 example_l1_receipt = Inr r"
    and parts: "fb_claim_amount r = 5" "fb_message_leaf_index r = 9"
    by (simp add: bridge_result_def receipt_logs_def is_message_sent_def log_topics_def log_message_hash_def
        log_data_def example_hex_bytes padded_word_def example_l1_receipt_def ok_or_def Let_def bind_result_simps
        nine del: of_be_bytes_snoc)
  let ?E = example_eth_client and ?sender = "hex_text example_l1_tools [170]"
  obtain w1 where w1: "get_account ?E [] = (Inr ?sender, w1)"
    by (simp add: get_account_def seq_def example_calls lift_result_def ok_or_def js_index_def list_get_def)
  have five: "of_be_bytes [5] = 5" by (simp add: of_be_bytes_def)
  obtain w2 where w2: "query_mint_amount example_l1_tools ?E ''0x06'' w1 = (Inr 5, w2)"
    by (simp add: query_mint_amount_def seq_def example_calls example_hex_bytes ret_def five del: of_be_bytes_snoc)
  obtain d1 d2 where d: "encode_mint example_l1_tools ?sender = Inr d1"
      "encode_approve example_l1_tools (hex_text example_l1_tools [4]) 5 = Inr d2"
    by (simp add: encode_mint_def encode_approve_def example_hex_bytes padded_word_def)
  obtain w3 where w3: "transact ?E ''0x06'' d1 ?sender w2 = (Inr example_l1_receipt, w3)" using example_transact by blast
  obtain w4 where w4: "transact ?E ''0x05'' d2 ?sender w3 = (Inr example_l1_receipt, w4)" using example_transact by blast
  obtain w' where w': "transact ?E (hex_text example_l1_tools [4]) (encode_deposit_to_aztec_public example_l1_tools
      (AztecAddress 3) 5 (compute_secret_hash (lt_crypto example_l1_tools) 11)) ?sender w4 = (Inr example_l1_receipt, w')"
    using example_transact by blast
  have run: "prepare_fee_juice_on_l1 example_l1_tools ?E example_l1_addresses (AztecAddress 3) 11 [] = (Inr r, w')"
    by (simp add: prepare_fee_juice_on_l1_def example_l1_addresses_def seq_def lift_result_def ok_or_def w1 w2 d w3 w4
        generate_claim_secret_def w' r)
  have "records example_eth_client id" by (simp add: records_def example_eth_client_def)
  from fee_juice_bridged[OF this run] show ?thesis using run parts by (auto simp: transactions_def)
qed

text \<open>The calldata of a deposit and of a message determine what is deposited or sent.\<close>

lemma hex_text_eq_iff: "hex_ok (lt_hex L) \<Longrightarrow> hex_text L bs = hex_text L cs \<longleftrightarrow> bs = cs"
  by (metis append_eq_append_conv hex_ok_def hex_text_def sum.inject(2))

lemma fr_bytes_eq_iff: "fr_to_be_bytes f = fr_to_be_bytes g \<longleftrightarrow> f = g"
  by (metis fr_from_be_bytes_to_be_bytes)

lemma calldata_injective:
  assumes "hex_ok (lt_hex L)"
  shows "encode_deposit_to_aztec_public L a n f = encode_deposit_to_aztec_public L b m g \<longleftrightarrow> a = b \<and> n = m \<and> f = g"
    and "encode_send_l2_message L a v f h = encode_send_l2_message L b u g k \<longleftrightarrow> a = b \<and> v = u \<and> f = g \<and> h = k"
proof -
  have "be_bytes 16 (unat n) = be_bytes 16 (unat m) \<longleftrightarrow> n = m" by (rule be_bytes_unat_eq_iff) simp
  then show "encode_deposit_to_aztec_public L a n f = encode_deposit_to_aztec_public L b m g \<longleftrightarrow> a = b \<and> n = m \<and> f = g"
    by (auto simp: encode_deposit_to_aztec_public_def hex_text_eq_iff[OF assms] amount_bytes_def fr_bytes_eq_iff
        address_eq_iff)
  have "be_bytes 8 (unat v) = be_bytes 8 (unat u) \<longleftrightarrow> v = u" by (rule be_bytes_unat_eq_iff) simp
  then show "encode_send_l2_message L a v f h = encode_send_l2_message L b u g k \<longleftrightarrow> a = b \<and> v = u \<and> f = g \<and> h = k"
    by (auto simp: encode_send_l2_message_def hex_text_eq_iff[OF assms] fr_bytes_eq_iff address_eq_iff)
qed

subsection \<open>Waiting for a message ends\<close>

text \<open>Waiting returns once its fuel covers the time limit; it succeeds only on a turn that found the message
  ready, and times out only when the limit has passed.\<close>

lemma wait_for_message_correct:
  assumes "sleeps (bn_node N)" and "forward (na_now (bn_node N)) (is_l1_to_l2_message_ready N h)"
    and "timeout \<le> n * 1000"
  shows "\<exists>r w'. wait_for_l1_to_l2_message_ready N h timeout (Suc n) w = Some (r, w') \<and>
    (\<exists>v. case is_l1_to_l2_message_ready N h v of
        (Inr True, v') \<Rightarrow> r = Inr () \<and> w' = v'
      | (Inr False, v') \<Rightarrow> r = Inl (Timeout ''L1-to-L2 message not ready'') \<and> w' = v' \<and>
          na_now (bn_node N) w + timeout \<le> na_now (bn_node N) v'
      | (Inl e, v') \<Rightarrow> r = Inl e \<and> w' = v')"
proof -
  let ?step = "\<lambda>w. case is_l1_to_l2_message_ready N h w of
      (Inl e, w') \<Rightarrow> (Finish (Inl e), w')
    | (Inr True, w') \<Rightarrow> (Finish (Inr ()), w')
    | (Inr False, w') \<Rightarrow> (Again (Inl (Timeout ''L1-to-L2 message not ready'')), w')"
  have "snd (?step v) = snd (is_l1_to_l2_message_ready N h v)" for v by (simp split: prod.split sum.split bool.split)
  then have "forward (na_now (bn_node N)) ?step" using assms(2) by (simp add: forward_def)
  from poll_returns[OF assms(1) this] obtain r w' where
    run: "poll (bn_node N) 0 1000 (na_now (bn_node N) w + timeout) ?step (Suc n) w = Some (r, w')"
    using assms(3) by (metis (no_types, lifting) add_left_mono)
  from poll_result[OF this] obtain v where
    v: "?step v = (Finish r, w') \<or> ?step v = (Again r, w') \<and> na_now (bn_node N) w + timeout \<le> na_now (bn_node N) w' + 0"
    by blast
  show ?thesis
    unfolding wait_for_l1_to_l2_message_ready_def run
    using v by (intro exI[of _ r] exI[of _ w'] conjI refl exI[of _ v]) (auto split: prod.splits sum.splits bool.splits)
qed

end
